(* ===== verification/Prelude.thy ===== *)
theory Prelude
  imports Complex_Main "HOL-Library.Sublist"
begin

text \<open>
  Shared vocabulary of the development: the effect type of the asynchronous service
  functions (a state, and either a thrown value or a result), the operations on database
  tables that the services use through the ORM, and the string operations of the language.
\<close>

named_theorems run_simps
named_theorems table_simps

section \<open>Effects\<close>

text \<open>
  An \<open>async\<close> function that reads and writes the database and may throw is a function from
  the state to an outcome and the new state. A thrown value does not undo the writes made
  before it; only \<open>transaction\<close> does.
\<close>

type_synonym ('s, 'e, 'a) io = "'s \<Rightarrow> ('e + 'a) \<times> 's"

definition ret :: "'a \<Rightarrow> ('s, 'e, 'a) io" where
  "ret a = (\<lambda>s. (Inr a, s))"

definition throw :: "'e \<Rightarrow> ('s, 'e, 'a) io" where
  "throw e = (\<lambda>s. (Inl e, s))"

definition bnd :: "('s, 'e, 'a) io \<Rightarrow> ('a \<Rightarrow> ('s, 'e, 'b) io) \<Rightarrow> ('s, 'e, 'b) io" where
  "bnd m f = (\<lambda>s. case m s of (r, s') \<Rightarrow> (case r of Inl e \<Rightarrow> (Inl e, s') | Inr a \<Rightarrow> f a s'))"

definition andthen :: "('s, 'e, unit) io \<Rightarrow> ('s, 'e, 'b) io \<Rightarrow> ('s, 'e, 'b) io" where
  "andthen m n = bnd m (\<lambda>_. n)"

definition gets :: "('s \<Rightarrow> 'a) \<Rightarrow> ('s, 'e, 'a) io" where
  "gets f = (\<lambda>s. (Inr (f s), s))"

definition modify :: "('s \<Rightarrow> 's) \<Rightarrow> ('s, 'e, unit) io" where
  "modify f = (\<lambda>s. (Inr (), f s))"

definition lift_res :: "'e + 'a \<Rightarrow> ('s, 'e, 'a) io" where
  "lift_res r = (\<lambda>s. (r, s))"

definition throw_unless :: "bool \<Rightarrow> 'e \<Rightarrow> ('s, 'e, unit) io" where
  "throw_unless b e = (if b then ret () else throw e)"

definition require :: "'a option \<Rightarrow> 'e \<Rightarrow> ('s, 'e, 'a) io" where
  "require x e = (case x of None \<Rightarrow> throw e | Some a \<Rightarrow> ret a)"

text \<open>\<open>try { m } catch (e) { h(e) }\<close>: the handler runs in the state the body left.\<close>

definition try_catch :: "('s, 'e, 'a) io \<Rightarrow> ('e \<Rightarrow> ('s, 'e, 'a) io) \<Rightarrow> ('s, 'e, 'a) io" where
  "try_catch m h = (\<lambda>s. case m s of (r, s') \<Rightarrow> (case r of Inl e \<Rightarrow> h e s' | Inr a \<Rightarrow> (Inr a, s')))"

text \<open>An interactive transaction: a throw inside rolls every write of the body back.\<close>

definition transaction :: "('s, 'e, 'a) io \<Rightarrow> ('s, 'e, 'a) io" where
  "transaction m = (\<lambda>s. case m s of (r, s') \<Rightarrow> (case r of Inl e \<Rightarrow> (Inl e, s) | Inr a \<Rightarrow> (Inr a, s')))"

fun for_each :: "'a list \<Rightarrow> ('a \<Rightarrow> ('s, 'e, unit) io) \<Rightarrow> ('s, 'e, unit) io" where
  "for_each [] f = ret ()"
| "for_each (x # xs) f = andthen (f x) (for_each xs f)"

text \<open>The optional-chaining test \<open>x?.p\<close>: false when there is no value.\<close>

primrec some_with :: "('a \<Rightarrow> bool) \<Rightarrow> 'a option \<Rightarrow> bool" where
  "some_with p None = False"
| "some_with p (Some a) = p a"

text \<open>The fallback of an absent text to the empty one.\<close>

definition or_empty :: "string option \<Rightarrow> string" where
  "or_empty x = (case x of None \<Rightarrow> [] | Some s \<Rightarrow> s)"

lemma some_with_iff: "some_with p x \<longleftrightarrow> (\<exists>a. x = Some a \<and> p a)"
  by (cases x) simp_all

lemma ret_run [simp]: "ret a s = (Inr a, s)"
  by (simp add: ret_def)

lemma throw_run [simp]: "throw e s = (Inl e, s)"
  by (simp add: throw_def)

lemma gets_run [simp]: "gets f s = (Inr (f s), s)"
  by (simp add: gets_def)

lemma modify_run [simp]: "modify f s = (Inr (), f s)"
  by (simp add: modify_def)

lemma lift_res_run [simp]: "lift_res r s = (r, s)"
  by (simp add: lift_res_def)

lemma bnd_ret [simp]: "bnd (ret a) f = f a"
  by (simp add: bnd_def ret_def)

lemma bnd_throw [simp]: "bnd (throw e) f = throw e"
  by (simp add: bnd_def throw_def)

lemma bnd_gets [simp]: "bnd (gets g) f s = f (g s) s"
  by (simp add: bnd_def)

lemma bnd_modify [simp]: "bnd (modify g) f s = f () (g s)"
  by (simp add: bnd_def)

lemma bnd_assoc [simp]: "bnd (bnd m f) g = bnd m (\<lambda>x. bnd (f x) g)"
  by (auto simp: bnd_def fun_eq_iff split: prod.splits sum.splits)

lemma andthen_run [simp]: "andthen m n s = bnd m (\<lambda>_. n) s"
  by (simp add: andthen_def)

lemma andthen_bnd [simp]: "bnd (andthen m n) f s = bnd m (\<lambda>_. bnd n f) s"
  by (simp add: andthen_def)

lemma ret_bnd_id [simp]: "bnd m ret s = m s"
  by (simp add: bnd_def split: prod.splits sum.splits)

text \<open>Running a conditional effect.\<close>

lemma if_run [simp]:
  fixes m :: "('s, 'e, 'a) io"
  shows "(if b then m else n) s = (if b then m s else n s)"
  by simp

lemma case_option_run [simp]:
  fixes m :: "('s, 'e, 'a) io"
  shows "(case x of None \<Rightarrow> m | Some a \<Rightarrow> g a) s = (case x of None \<Rightarrow> m s | Some a \<Rightarrow> g a s)"
  by (cases x) simp_all

lemma case_prod_run [simp]:
  fixes g :: "'x \<Rightarrow> 'y \<Rightarrow> ('s, 'e, 'a) io"
  shows "(case p of (a, b) \<Rightarrow> g a b) s = (case p of (a, b) \<Rightarrow> g a b s)"
  by (cases p) simp

lemma bnd_if [simp]: "bnd (if b then m else n) f s = (if b then bnd m f s else bnd n f s)"
  by simp

lemma bnd_case_option [simp]:
  "bnd (case x of None \<Rightarrow> m | Some a \<Rightarrow> g a) f s = (case x of None \<Rightarrow> bnd m f s | Some a \<Rightarrow> bnd (g a) f s)"
  by (cases x) simp_all

lemma bnd_case_prod [simp]: "bnd (case p of (a, b) \<Rightarrow> g a b) f s = (case p of (a, b) \<Rightarrow> bnd (g a b) f s)"
  by (cases p) simp

lemma bnd_let [simp]: "bnd (let x = v in g x) f s = (let x = v in bnd (g x) f s)"
  by simp

lemma throw_unless_True [simp]: "throw_unless True e = ret ()"
  and throw_unless_False [simp]: "throw_unless False e = throw e"
  by (simp_all add: throw_unless_def)

lemma require_None [simp]: "require None e = throw e"
  and require_Some [simp]: "require (Some a) e = ret a"
  by (simp_all add: require_def)

lemma bnd_Inl: "m s = (Inl e, s') \<Longrightarrow> bnd m f s = (Inl e, s')"
  by (simp add: bnd_def)

lemma bnd_Inr: "m s = (Inr a, s') \<Longrightarrow> bnd m f s = f a s'"
  by (simp add: bnd_def)

lemma bnd_eq_Inr_iff:
  "bnd m f s = (Inr b, s'') \<longleftrightarrow> (\<exists>a s'. m s = (Inr a, s') \<and> f a s' = (Inr b, s''))"
  by (auto simp: bnd_def split: prod.splits sum.splits)

lemma throw_unless_bnd [simp]:
  "bnd (throw_unless b e) f s = (if b then f () s else (Inl e, s))"
  by (simp add: throw_unless_def)

lemma require_bnd [simp]:
  "bnd (require x e) f s = (case x of None \<Rightarrow> (Inl e, s) | Some a \<Rightarrow> f a s)"
  by (cases x) simp_all

lemma lift_res_bnd [simp]:
  "bnd (lift_res r) f s = (case r of Inl e \<Rightarrow> (Inl e, s) | Inr a \<Rightarrow> f a s)"
  by (simp add: bnd_def)

lemma try_catch_run:
  "try_catch m h s = (case m s of (r, s') \<Rightarrow> (case r of Inl e \<Rightarrow> h e s' | Inr a \<Rightarrow> (Inr a, s')))"
  by (simp add: try_catch_def)

lemma try_catch_bnd [simp]:
  "bnd (try_catch m h) f s = (case m s of (r, s') \<Rightarrow> (case r of Inl e \<Rightarrow> bnd (h e) f s' | Inr a \<Rightarrow> f a s'))"
  by (simp add: bnd_def try_catch_def split: prod.splits sum.splits)

lemma transaction_bnd [simp]:
  "bnd (transaction m) f s = (case m s of (r, s') \<Rightarrow> (case r of Inl e \<Rightarrow> (Inl e, s) | Inr a \<Rightarrow> f a s'))"
  by (simp add: bnd_def transaction_def split: prod.splits sum.splits)

lemma transaction_run:
  "transaction m s = (case m s of (r, s') \<Rightarrow> (case r of Inl e \<Rightarrow> (Inl e, s) | Inr a \<Rightarrow> (Inr a, s')))"
  by (simp add: transaction_def)

lemma transaction_Inl: "transaction m s = (Inl e, s') \<Longrightarrow> s' = s"
  by (auto simp: transaction_def split: prod.splits sum.splits)

lemma transaction_Inr: "transaction m s = (Inr a, s') \<longleftrightarrow> m s = (Inr a, s')"
  by (auto simp: transaction_def split: prod.splits sum.splits)

lemmas [run_simps] = bnd_def andthen_def try_catch_def transaction_def

lemma transaction_snd: "P s \<Longrightarrow> P (snd (m s)) \<Longrightarrow> P (snd (transaction m s))"
  by (cases "m s"; cases "fst (m s)") (simp_all add: transaction_def)

lemma snd_bnd_pure: "(\<And>a s. snd (f a s) = s) \<Longrightarrow> snd (bnd m f s) = snd (m s)"
  by (cases "m s"; cases "fst (m s)") (simp_all add: bnd_def)

lemma snd_bnd_throw [simp]: "snd (bnd m (\<lambda>_. throw e) s) = snd (m s)"
  by (rule snd_bnd_pure) simp

lemma snd_bnd_ret3 [simp]: "snd (bnd m (\<lambda>(a, b, c). ret (g a b c)) s) = snd (m s)"
  by (rule snd_bnd_pure) auto

lemma transaction_run_cong: "m s = r \<Longrightarrow> transaction m s = transaction (\<lambda>_. r) s"
  by (simp add: transaction_def)

lemma throw_unless_Inr [simp]: "throw_unless b e s = (Inr u, s') \<longleftrightarrow> b \<and> s' = s"
  by (auto simp: throw_unless_def)

text \<open>
  \<open>keeps I m\<close>: the effect keeps the invariant \<open>I\<close> whether it returns or throws. The
  composition rules let an invariant be proved one operation at a time.
\<close>

definition keeps :: "('s \<Rightarrow> bool) \<Rightarrow> ('s, 'e, 'a) io \<Rightarrow> bool" where
  "keeps I m \<longleftrightarrow> (\<forall>s. I s \<longrightarrow> I (snd (m s)))"

named_theorems keeps_intros

lemma keepsD: "keeps I m \<Longrightarrow> I s \<Longrightarrow> I (snd (m s))"
  by (simp add: keeps_def)

lemma keeps_ret [keeps_intros]: "keeps I (ret a)"
  and keeps_throw [keeps_intros]: "keeps I (throw e)"
  and keeps_gets [keeps_intros]: "keeps I (gets f)"
  and keeps_lift_res [keeps_intros]: "keeps I (lift_res r)"
  and keeps_throw_unless [keeps_intros]: "keeps I (throw_unless b e)"
  and keeps_require [keeps_intros]: "keeps I (require x e)"
  by (auto simp: keeps_def throw_unless_def require_def split: option.splits)

lemma keeps_modify: "(\<And>s. I s \<Longrightarrow> I (f s)) \<Longrightarrow> keeps I (modify f)"
  by (simp add: keeps_def)

lemma keeps_bnd [keeps_intros]: "keeps I m \<Longrightarrow> (\<And>a. keeps I (f a)) \<Longrightarrow> keeps I (bnd m f)"
  by (force simp: keeps_def bnd_def split: prod.splits sum.splits)

lemma keeps_andthen [keeps_intros]: "keeps I m \<Longrightarrow> keeps I n \<Longrightarrow> keeps I (andthen m n)"
  by (simp add: andthen_def keeps_bnd)

lemma keeps_try_catch [keeps_intros]:
  "keeps I m \<Longrightarrow> (\<And>e. keeps I (h e)) \<Longrightarrow> keeps I (try_catch m h)"
  by (force simp: keeps_def try_catch_def split: prod.splits sum.splits)

lemma keeps_transaction [keeps_intros]: "keeps I m \<Longrightarrow> keeps I (transaction m)"
  by (force simp: keeps_def transaction_def split: prod.splits sum.splits)

lemma keeps_if [keeps_intros]: "(b \<Longrightarrow> keeps I m) \<Longrightarrow> (\<not> b \<Longrightarrow> keeps I n) \<Longrightarrow> keeps I (if b then m else n)"
  by simp

lemma keeps_case_option [keeps_intros]:
  "(x = None \<Longrightarrow> keeps I m) \<Longrightarrow> (\<And>a. x = Some a \<Longrightarrow> keeps I (f a)) \<Longrightarrow>
   keeps I (case x of None \<Rightarrow> m | Some a \<Rightarrow> f a)"
  by (cases x) auto

lemma keeps_case_prod [keeps_intros]:
  "(\<And>a b. p = (a, b) \<Longrightarrow> keeps I (f a b)) \<Longrightarrow> keeps I (case p of (a, b) \<Rightarrow> f a b)"
  by (cases p) auto

lemma keeps_for_each [keeps_intros]: "(\<And>x. x \<in> set xs \<Longrightarrow> keeps I (f x)) \<Longrightarrow> keeps I (for_each xs f)"
  by (induction xs) (auto intro: keeps_intros)

end
