(* ===== verification/JsValues.thy ===== *)
theory JsValues
  imports Prelude
begin

text \<open>
  The values of the language that the modelled functions inspect: strings and the string
  operations they call, decimal printing and parsing, numbers with \<open>NaN\<close> and the two
  infinities (finite values exact, rounding not modelled), and the dynamically typed values
  (\<open>unknown\<close>) with property access and the classes that \<open>instanceof\<close> tests.
\<close>

section \<open>Strings\<close>

definition char_code :: "char \<Rightarrow> nat" where
  "char_code c = of_char c"

definition is_digit :: "char \<Rightarrow> bool" where
  "is_digit c \<longleftrightarrow> 48 \<le> char_code c \<and> char_code c \<le> 57"

definition is_space :: "char \<Rightarrow> bool" where
  "is_space c \<longleftrightarrow> char_code c \<in> {9, 10, 11, 12, 13, 32}"

definition is_upper :: "char \<Rightarrow> bool" where
  "is_upper c \<longleftrightarrow> 65 \<le> char_code c \<and> char_code c \<le> 90"

definition is_lower :: "char \<Rightarrow> bool" where
  "is_lower c \<longleftrightarrow> 97 \<le> char_code c \<and> char_code c \<le> 122"

definition is_word_char :: "char \<Rightarrow> bool" where
  "is_word_char c \<longleftrightarrow> is_digit c \<or> is_upper c \<or> is_lower c \<or> c = CHR ''_''"

definition to_lower_char :: "char \<Rightarrow> char" where
  "to_lower_char c = (if is_upper c then char_of (char_code c + 32) else c)"

definition to_upper_char :: "char \<Rightarrow> char" where
  "to_upper_char c = (if is_lower c then char_of (char_code c - 32) else c)"

definition to_lower :: "string \<Rightarrow> string" where
  "to_lower s = map to_lower_char s"

definition to_upper :: "string \<Rightarrow> string" where
  "to_upper s = map to_upper_char s"

definition js_trim :: "string \<Rightarrow> string" where
  "js_trim s = rev (dropWhile is_space (rev (dropWhile is_space s)))"

fun starts_with :: "string \<Rightarrow> string \<Rightarrow> bool" where
  "starts_with s [] = True"
| "starts_with [] (p # ps) = False"
| "starts_with (c # cs) (p # ps) = (c = p \<and> starts_with cs ps)"

fun str_includes :: "string \<Rightarrow> string \<Rightarrow> bool" where
  "str_includes [] p = (p = [])"
| "str_includes (c # cs) p = (starts_with (c # cs) p \<or> str_includes cs p)"

definition ends_with :: "string \<Rightarrow> string \<Rightarrow> bool" where
  "ends_with s p = starts_with (rev s) (rev p)"

fun split_on :: "char \<Rightarrow> string \<Rightarrow> string list" where
  "split_on d [] = [[]]"
| "split_on d (c # cs) =
     (if c = d then [] # split_on d cs
      else (case split_on d cs of [] \<Rightarrow> [[c]] | w # ws \<Rightarrow> (c # w) # ws))"

text \<open>A word-bounded match \<open>\b p \b\<close>; \<open>prev\<close> says whether the character before is a word character.\<close>

fun str_includes_word :: "bool \<Rightarrow> string \<Rightarrow> string \<Rightarrow> bool" where
  "str_includes_word prev [] p = False"
| "str_includes_word prev (c # cs) p =
     ((\<not> prev \<and> starts_with (c # cs) p \<and>
       (case drop (length p) (c # cs) of [] \<Rightarrow> True | d # _ \<Rightarrow> \<not> is_word_char d))
      \<or> str_includes_word (is_word_char c) cs p)"

lemma starts_with_append: "starts_with (p @ s) p"
  by (induction p) auto

lemma starts_with_iff: "starts_with s p \<longleftrightarrow> take (length p) s = p"
  by (induction s p rule: starts_with.induct) auto

lemma str_includes_append: "str_includes (a @ p @ b) p"
proof (induction a)
  case Nil
  have "starts_with (p @ b) p" by (rule starts_with_append)
  then show ?case by (cases "p @ b") auto
next
  case (Cons a as)
  then show ?case by simp
qed

section \<open>Decimal numerals\<close>

definition digit_value :: "char \<Rightarrow> nat" where
  "digit_value c = char_code c - 48"

definition digit_char :: "nat \<Rightarrow> char" where
  "digit_char n = char_of (48 + n)"

definition all_digits :: "string \<Rightarrow> bool" where
  "all_digits s \<longleftrightarrow> s \<noteq> [] \<and> list_all is_digit s"

definition parse_nat :: "string \<Rightarrow> nat" where
  "parse_nat s = foldl (\<lambda>n c. 10 * n + digit_value c) 0 s"

fun show_nat :: "nat \<Rightarrow> string" where
  "show_nat n = (if n < 10 then [digit_char n] else show_nat (n div 10) @ [digit_char (n mod 10)])"

declare show_nat.simps [simp del]

definition show_int :: "int \<Rightarrow> string" where
  "show_int i = (if i < 0 then CHR ''-'' # show_nat (nat (- i)) else show_nat (nat i))"

text \<open>The regular expression \<open>/^-?\d+$/\<close> and \<open>BigInt(s)\<close> on the strings it accepts.\<close>

definition int_literal :: "string \<Rightarrow> bool" where
  "int_literal s = (case s of [] \<Rightarrow> False | c # cs \<Rightarrow> if c = CHR ''-'' then all_digits cs else all_digits s)"

definition parse_int :: "string \<Rightarrow> int" where
  "parse_int s = (case s of [] \<Rightarrow> 0
     | c # cs \<Rightarrow> if c = CHR ''-'' then - int (parse_nat cs) else int (parse_nat s))"

lemma char_code_digit_char: "n < 10 \<Longrightarrow> char_code (digit_char n) = 48 + n"
  by (simp add: char_code_def digit_char_def)

lemma digit_value_char [simp]: "n < 10 \<Longrightarrow> digit_value (digit_char n) = n"
  by (simp add: digit_value_def char_code_digit_char)

lemma is_digit_char [simp]: "n < 10 \<Longrightarrow> is_digit (digit_char n)"
  by (simp add: is_digit_def char_code_digit_char)

lemma parse_nat_snoc: "parse_nat (s @ [c]) = 10 * parse_nat s + digit_value c"
  by (simp add: parse_nat_def)

lemma show_nat_not_Nil [simp]: "show_nat n \<noteq> []"
  by (subst show_nat.simps) simp

lemma show_nat_digits: "list_all is_digit (show_nat n)"
proof (induction n rule: show_nat.induct)
  case (1 n)
  then show ?case by (subst show_nat.simps) auto
qed

lemma all_digits_show_nat [simp]: "all_digits (show_nat n)"
  by (simp add: all_digits_def show_nat_digits)

lemma parse_show_nat [simp]: "parse_nat (show_nat n) = n"
proof (induction n rule: show_nat.induct)
  case (1 n)
  show ?case
  proof (cases "n < 10")
    case True
    then show ?thesis
      by (simp add: show_nat.simps [of n] parse_nat_def)
  next
    case False
    with "1.IH" show ?thesis
      by (simp add: show_nat.simps [of n] parse_nat_snoc)
  qed
qed

lemma not_digit_minus [simp]: "\<not> is_digit (CHR ''-'')"
  by (simp add: is_digit_def char_code_def)

lemma show_nat_hd: "show_nat n = c # cs \<Longrightarrow> is_digit c"
  using show_nat_digits [of n] by simp

lemma int_literal_show_int [simp]: "int_literal (show_int i)"
proof (cases "i < 0")
  case True
  then show ?thesis by (simp add: int_literal_def show_int_def)
next
  case False
  obtain c cs where s: "show_nat (nat i) = c # cs"
    by (cases "show_nat (nat i)") auto
  then have "c \<noteq> CHR ''-''" using show_nat_hd by fastforce
  with False s all_digits_show_nat [of "nat i"] show ?thesis
    by (simp add: int_literal_def show_int_def)
qed

lemma parse_show_int [simp]: "parse_int (show_int i) = i"
proof (cases "i < 0")
  case True
  then show ?thesis by (simp add: parse_int_def show_int_def)
next
  case False
  obtain c cs where s: "show_nat (nat i) = c # cs"
    by (cases "show_nat (nat i)") auto
  then have "c \<noteq> CHR ''-''" using show_nat_hd by fastforce
  with False s parse_show_nat [of "nat i"] show ?thesis
    by (simp add: parse_int_def show_int_def)
qed

lemma show_int_inject [simp]: "show_int i = show_int j \<longleftrightarrow> i = j"
  by (metis parse_show_int)

section \<open>Numbers\<close>

datatype jsnum = NaN | Infinity | NegInfinity | Fin rat

fun j_neg :: "jsnum \<Rightarrow> jsnum" where
  "j_neg NaN = NaN"
| "j_neg Infinity = NegInfinity"
| "j_neg NegInfinity = Infinity"
| "j_neg (Fin a) = Fin (- a)"

fun j_add :: "jsnum \<Rightarrow> jsnum \<Rightarrow> jsnum" where
  "j_add (Fin a) (Fin b) = Fin (a + b)"
| "j_add NaN y = NaN"
| "j_add x NaN = NaN"
| "j_add Infinity NegInfinity = NaN"
| "j_add NegInfinity Infinity = NaN"
| "j_add Infinity y = Infinity"
| "j_add x Infinity = Infinity"
| "j_add NegInfinity y = NegInfinity"
| "j_add x NegInfinity = NegInfinity"

text \<open>An infinity with the sign of a finite factor; a zero factor gives \<open>NaN\<close>.\<close>

definition inf_times :: "rat \<Rightarrow> jsnum" where
  "inf_times a = (if a = 0 then NaN else if 0 < a then Infinity else NegInfinity)"

fun j_mul :: "jsnum \<Rightarrow> jsnum \<Rightarrow> jsnum" where
  "j_mul (Fin a) (Fin b) = Fin (a * b)"
| "j_mul NaN y = NaN"
| "j_mul x NaN = NaN"
| "j_mul Infinity (Fin b) = inf_times b"
| "j_mul (Fin a) Infinity = inf_times a"
| "j_mul NegInfinity (Fin b) = j_neg (inf_times b)"
| "j_mul (Fin a) NegInfinity = j_neg (inf_times a)"
| "j_mul Infinity Infinity = Infinity"
| "j_mul NegInfinity NegInfinity = Infinity"
| "j_mul Infinity NegInfinity = NegInfinity"
| "j_mul NegInfinity Infinity = NegInfinity"

fun j_div :: "jsnum \<Rightarrow> jsnum \<Rightarrow> jsnum" where
  "j_div (Fin a) (Fin b) = (if b = 0 then inf_times a else Fin (a / b))"
| "j_div NaN y = NaN"
| "j_div x NaN = NaN"
| "j_div (Fin a) y = Fin 0"
| "j_div Infinity (Fin b) = (if b < 0 then NegInfinity else Infinity)"
| "j_div NegInfinity (Fin b) = (if b < 0 then Infinity else NegInfinity)"
| "j_div x y = NaN"

fun j_floor :: "jsnum \<Rightarrow> jsnum" where
  "j_floor (Fin a) = Fin (of_int (floor a))"
| "j_floor x = x"

fun j_lt :: "jsnum \<Rightarrow> jsnum \<Rightarrow> bool" where
  "j_lt (Fin a) (Fin b) = (a < b)"
| "j_lt NaN y = False"
| "j_lt x NaN = False"
| "j_lt NegInfinity y = (y \<noteq> NegInfinity)"
| "j_lt x NegInfinity = False"
| "j_lt Infinity y = False"
| "j_lt x Infinity = True"

definition j_eq :: "jsnum \<Rightarrow> jsnum \<Rightarrow> bool" where
  "j_eq x y \<longleftrightarrow> x = y \<and> x \<noteq> NaN"

definition j_le :: "jsnum \<Rightarrow> jsnum \<Rightarrow> bool" where
  "j_le x y \<longleftrightarrow> j_lt x y \<or> j_eq x y"

definition j_min :: "jsnum \<Rightarrow> jsnum \<Rightarrow> jsnum" where
  "j_min x y = (if x = NaN \<or> y = NaN then NaN else if j_lt y x then y else x)"

definition j_max :: "jsnum \<Rightarrow> jsnum \<Rightarrow> jsnum" where
  "j_max x y = (if x = NaN \<or> y = NaN then NaN else if j_lt x y then y else x)"

abbreviation j_int :: "int \<Rightarrow> jsnum" where
  "j_int i \<equiv> Fin (of_int i)"

definition is_integer :: "jsnum \<Rightarrow> bool" where
  "is_integer x = (case x of Fin a \<Rightarrow> of_int (floor a) = a | _ \<Rightarrow> False)"

definition j_to_int :: "jsnum \<Rightarrow> int" where
  "j_to_int x = (case x of Fin a \<Rightarrow> floor a | _ \<Rightarrow> 0)"

lemma j_min_Fin [simp]: "j_min (Fin a) (Fin b) = Fin (min a b)"
  by (auto simp: j_min_def min_def)

lemma j_max_Fin [simp]: "j_max (Fin a) (Fin b) = Fin (max a b)"
  by (auto simp: j_max_def max_def)

lemma j_le_Fin [simp]: "j_le (Fin a) (Fin b) \<longleftrightarrow> a \<le> b"
  by (auto simp: j_le_def j_eq_def)

lemma is_integer_j_int [simp]: "is_integer (j_int i)"
  by (simp add: is_integer_def)

lemma j_to_int_j_int [simp]: "j_to_int (j_int i) = i"
  by (simp add: j_to_int_def)

section \<open>Dynamically typed values\<close>

datatype js_class = PlainObject | ErrorClass | AppErrorClass | PrismaErrorClass
  | DomExceptionClass | ZodErrorClass | UnrecoverableErrorClass

datatype jsval = Undefined | Null | JBool bool | JNum jsnum | JBig int | JStr string
  | JArr "jsval list" | JObj js_class "(string \<times> jsval) list"

definition get_prop :: "jsval \<Rightarrow> string \<Rightarrow> jsval" where
  "get_prop v k = (case v of JObj c fs \<Rightarrow> (case map_of fs k of None \<Rightarrow> Undefined | Some x \<Rightarrow> x) | _ \<Rightarrow> Undefined)"

text \<open>\<open>instanceof\<close>: every error class derives from \<open>Error\<close>.\<close>

definition instance_of :: "jsval \<Rightarrow> js_class \<Rightarrow> bool" where
  "instance_of v c = (case v of JObj d _ \<Rightarrow> d = c \<or> (c = ErrorClass \<and> d \<noteq> PlainObject) | _ \<Rightarrow> False)"

definition is_error :: "jsval \<Rightarrow> bool" where
  "is_error v = instance_of v ErrorClass"

text \<open>The \<open>??\<close> operator.\<close>

definition nullish :: "jsval \<Rightarrow> bool" where
  "nullish v \<longleftrightarrow> v = Undefined \<or> v = Null"

definition coalesce :: "jsval \<Rightarrow> jsval \<Rightarrow> jsval" where
  "coalesce x y = (if nullish x then y else x)"

definition str_of :: "jsval \<Rightarrow> string" where
  "str_of v = (case v of JStr s \<Rightarrow> s | _ \<Rightarrow> [])"

definition error_name :: "jsval \<Rightarrow> string" where
  "error_name v = str_of (get_prop v ''name'')"

definition error_message :: "jsval \<Rightarrow> string" where
  "error_message v = str_of (get_prop v ''message'')"

definition js_error :: "string \<Rightarrow> jsval" where
  "js_error msg = JObj ErrorClass [(''name'', JStr ''Error''), (''message'', JStr msg)]"

definition dom_exception :: "string \<Rightarrow> string \<Rightarrow> jsval" where
  "dom_exception msg nm = JObj DomExceptionClass [(''name'', JStr nm), (''message'', JStr msg)]"

lemma get_prop_JObj [simp]:
  "get_prop (JObj c fs) k = (case map_of fs k of None \<Rightarrow> Undefined | Some x \<Rightarrow> x)"
  by (simp add: get_prop_def)

lemma instance_of_JObj [simp]:
  "instance_of (JObj d fs) c \<longleftrightarrow> d = c \<or> (c = ErrorClass \<and> d \<noteq> PlainObject)"
  by (simp add: instance_of_def)

section \<open>\<open>Number(s)\<close> on strings\<close>

text \<open>Splits a string into its longest prefix of digits and the rest.\<close>

definition span_digits :: "string \<Rightarrow> string \<times> string" where
  "span_digits s = (takeWhile is_digit s, dropWhile is_digit s)"

definition hex_value :: "char \<Rightarrow> nat option" where
  "hex_value c =
     (if is_digit c then Some (digit_value c)
      else let l = char_code (to_lower_char c) in
        if 97 \<le> l \<and> l \<le> 102 then Some (l - 87) else None)"

fun parse_radix :: "nat \<Rightarrow> nat \<Rightarrow> string \<Rightarrow> nat option" where
  "parse_radix r acc [] = Some acc"
| "parse_radix r acc (c # cs) =
     (case hex_value c of None \<Rightarrow> None
      | Some d \<Rightarrow> if d < r then parse_radix r (r * acc + d) cs else None)"

definition radix_literal :: "nat \<Rightarrow> string \<Rightarrow> jsnum" where
  "radix_literal r s =
     (if s = [] then NaN else (case parse_radix r 0 s of None \<Rightarrow> NaN | Some n \<Rightarrow> Fin (of_nat n)))"

text \<open>The exponent part \<open>e[+-]digits\<close>, as the power of ten it multiplies by.\<close>

definition exponent_part :: "string \<Rightarrow> rat option" where
  "exponent_part s = (case s of
       [] \<Rightarrow> Some 1
     | c # cs \<Rightarrow>
         if c \<noteq> CHR ''e'' \<and> c \<noteq> CHR ''E'' then None
         else (case cs of
             [] \<Rightarrow> None
           | d # ds \<Rightarrow>
               if d = CHR ''-'' then (if all_digits ds then Some (1 / 10 ^ parse_nat ds) else None)
               else if d = CHR ''+'' then (if all_digits ds then Some (10 ^ parse_nat ds) else None)
               else if all_digits cs then Some (10 ^ parse_nat cs) else None))"

definition decimal_literal :: "string \<Rightarrow> jsnum" where
  "decimal_literal s =
     (if s = ''Infinity'' then Infinity else
      case span_digits s of (ip, r) \<Rightarrow>
        (case (if r \<noteq> [] \<and> hd r = CHR ''.'' then span_digits (tl r) else ([], r)) of (fp, r') \<Rightarrow>
           if ip = [] \<and> fp = [] then NaN
           else (case exponent_part r' of
               None \<Rightarrow> NaN
             | Some e \<Rightarrow> Fin ((of_nat (parse_nat (ip @ fp)) / 10 ^ length fp) * e))))"

definition number_of_string :: "string \<Rightarrow> jsnum" where
  "number_of_string str =
     (let s = js_trim str in
      if s = [] then Fin 0
      else if starts_with s ''0x'' \<or> starts_with s ''0X'' then radix_literal 16 (drop 2 s)
      else if starts_with s ''0o'' \<or> starts_with s ''0O'' then radix_literal 8 (drop 2 s)
      else if starts_with s ''0b'' \<or> starts_with s ''0B'' then radix_literal 2 (drop 2 s)
      else if hd s = CHR ''-'' then j_neg (decimal_literal (tl s))
      else if hd s = CHR ''+'' then decimal_literal (tl s)
      else decimal_literal s)"

lemma span_digits_letter:
  "\<not> is_digit c \<Longrightarrow> span_digits (c # cs) = ([], c # cs)"
  by (simp add: span_digits_def)

section \<open>Texts of digits\<close>

lemma takeWhile_digits [simp]: "list_all is_digit s \<Longrightarrow> takeWhile is_digit s = s"
  "list_all is_digit s \<Longrightarrow> dropWhile is_digit s = []"
  by (auto simp: list_all_iff)

lemma digit_not_space: "is_digit c \<Longrightarrow> \<not> is_space c"
  by (auto simp: is_digit_def is_space_def)

lemma trim_digits: "list_all is_digit s \<Longrightarrow> js_trim s = s"
proof -
  assume a: "list_all is_digit s"
  have f: "dropWhile is_space t = t" if "list_all is_digit t" for t
    using that by (cases t) (auto simp: digit_not_space)
  from a have "list_all is_digit (rev s)" by (simp add: list_all_iff)
  with a f show ?thesis by (simp add: js_trim_def)
qed

lemma number_of_digits:
  assumes "all_digits s"
  shows "number_of_string s = Fin (of_nat (parse_nat s))"
proof -
  have s: "list_all is_digit s" "s \<noteq> []" using assms by (auto simp: all_digits_def)
  then have p: "\<not> starts_with s [a, b]" if "\<not> is_digit b" for a b
    using that by (cases s; cases "tl s") auto
  have h: "hd s \<noteq> CHR ''-''" "hd s \<noteq> CHR ''+''" "s \<noteq> ''Infinity''"
    using s by (cases s; auto simp: is_digit_def char_code_def)+
  have x: "\<not> is_digit CHR ''x''" "\<not> is_digit CHR ''X''" "\<not> is_digit CHR ''o''" "\<not> is_digit CHR ''O''"
    "\<not> is_digit CHR ''b''" "\<not> is_digit CHR ''B''"
    by (simp_all add: is_digit_def char_code_def)
  show ?thesis
    using s p [OF x(1)] p [OF x(2)] p [OF x(3)] p [OF x(4)] p [OF x(5)] p [OF x(6)] h
    by (simp add: number_of_string_def trim_digits decimal_literal_def span_digits_def exponent_part_def Let_def)
qed

lemma split_on_no: "d \<notin> set s \<Longrightarrow> split_on d s = [s]"
  by (induction s) auto

lemma split_on_append: "d \<notin> set s \<Longrightarrow> split_on d (s @ d # t) = s # split_on d t"
  by (induction s) auto

lemma show_nat_no: "\<not> is_digit c \<Longrightarrow> c \<notin> set (show_nat n)"
  using show_nat_digits [of n] by (auto simp: list_all_iff)

lemma length_show_nat: "length (show_nat n) = 1 \<longleftrightarrow> n < 10"
  by (subst show_nat.simps) simp

lemma hd_show_nat: "10 \<le> n \<Longrightarrow> hd (show_nat n) \<noteq> CHR ''0''"
proof (induction n rule: show_nat.induct)
  case (1 n)
  show ?case
  proof (cases "n div 10 < 10")
    case True
    have "digit_char (n div 10) \<noteq> CHR ''0''"
    proof
      assume a: "digit_char (n div 10) = CHR ''0''"
      have "n div 10 = digit_value (digit_char (n div 10))" using True by simp
      also have "\<dots> = 0" unfolding a by (simp add: digit_value_def char_code_def)
      finally show False using 1 by simp
    qed
    moreover have "show_nat n = [digit_char (n div 10), digit_char (n mod 10)]"
      using 1 True by (simp add: show_nat.simps [of n] show_nat.simps [of "n div 10"])
    ultimately show ?thesis by simp
  next
    case False
    with 1 have "hd (show_nat (n div 10)) \<noteq> CHR ''0''" by simp
    with 1 show ?thesis by (simp add: show_nat.simps [of n])
  qed
qed

lemma number_of_show_nat: "number_of_string (show_nat n) = Fin (of_nat n)"
  using number_of_digits [of "show_nat n"] by simp

lemma show_int_nonneg: "0 \<le> t \<Longrightarrow> show_int t = show_nat (nat t)"
  by (simp add: show_int_def)

lemma digit_lower [simp]: "is_digit c \<Longrightarrow> to_lower_char c = c"
  by (auto simp: to_lower_char_def is_digit_def is_upper_def)

lemma lower_show_nat [simp]: "to_lower (show_nat n) = show_nat n"
  using show_nat_digits [of n] by (auto simp: to_lower_def list_all_iff intro: map_idI)

end
