(* ===== verification/Errors.thy ===== *)
theory Errors
  imports JsValues
begin

text \<open>
  Error values and their translation to HTTP responses
  (\<open>backend/src/common/errors/AppError.ts\<close>, \<open>common/middleware/errorHandler.ts\<close>,
  \<open>common/utils/prisma-errors.ts\<close>, \<open>common/utils/ownership.ts\<close>). A thrown value is a
  dynamically typed value; the subclasses of \<open>AppError\<close> are the constructors of
  \<open>app_kind\<close>.
\<close>

section \<open>AppError and its subclasses\<close>

datatype app_kind = BadRequestError | UnauthorizedError | ForbiddenError | NotFoundError
  | ConflictError | BadGatewayError | ServiceUnavailableError | TooManyRequestsError
  | PayloadTooLargeError | RequestTimeoutError

fun kind_status :: "app_kind \<Rightarrow> int" where
  "kind_status BadRequestError = 400"
| "kind_status UnauthorizedError = 401"
| "kind_status ForbiddenError = 403"
| "kind_status NotFoundError = 404"
| "kind_status ConflictError = 409"
| "kind_status BadGatewayError = 502"
| "kind_status ServiceUnavailableError = 503"
| "kind_status TooManyRequestsError = 429"
| "kind_status PayloadTooLargeError = 413"
| "kind_status RequestTimeoutError = 503"

fun kind_code :: "app_kind \<Rightarrow> string" where
  "kind_code BadRequestError = ''BAD_REQUEST''"
| "kind_code UnauthorizedError = ''UNAUTHORIZED''"
| "kind_code ForbiddenError = ''FORBIDDEN''"
| "kind_code NotFoundError = ''NOT_FOUND''"
| "kind_code ConflictError = ''CONFLICT''"
| "kind_code BadGatewayError = ''BAD_GATEWAY''"
| "kind_code ServiceUnavailableError = ''SERVICE_UNAVAILABLE''"
| "kind_code TooManyRequestsError = ''TOO_MANY_REQUESTS''"
| "kind_code PayloadTooLargeError = ''PAYLOAD_TOO_LARGE''"
| "kind_code RequestTimeoutError = ''REQUEST_TIMEOUT''"

fun kind_name :: "app_kind \<Rightarrow> string" where
  "kind_name BadRequestError = ''BadRequestError''"
| "kind_name UnauthorizedError = ''UnauthorizedError''"
| "kind_name ForbiddenError = ''ForbiddenError''"
| "kind_name NotFoundError = ''NotFoundError''"
| "kind_name ConflictError = ''ConflictError''"
| "kind_name BadGatewayError = ''BadGatewayError''"
| "kind_name ServiceUnavailableError = ''ServiceUnavailableError''"
| "kind_name TooManyRequestsError = ''TooManyRequestsError''"
| "kind_name PayloadTooLargeError = ''PayloadTooLargeError''"
| "kind_name RequestTimeoutError = ''RequestTimeoutError''"

definition app_error :: "string \<Rightarrow> int \<Rightarrow> string \<Rightarrow> string \<Rightarrow> jsval \<Rightarrow> jsval" where
  "app_error nm status msg cd details = JObj AppErrorClass
     [(''name'', JStr nm), (''message'', JStr msg), (''statusCode'', JNum (j_int status)),
      (''code'', JStr cd), (''details'', details)]"

definition mk_error :: "app_kind \<Rightarrow> string \<Rightarrow> jsval \<Rightarrow> jsval" where
  "mk_error k msg details = app_error (kind_name k) (kind_status k) msg (kind_code k) details"

abbreviation bad_request :: "string \<Rightarrow> jsval" where
  "bad_request msg \<equiv> mk_error BadRequestError msg Undefined"

abbreviation unauthorized :: "string \<Rightarrow> jsval" where
  "unauthorized msg \<equiv> mk_error UnauthorizedError msg Undefined"

abbreviation forbidden :: "string \<Rightarrow> jsval" where
  "forbidden msg \<equiv> mk_error ForbiddenError msg Undefined"

abbreviation not_found :: "string \<Rightarrow> jsval" where
  "not_found msg \<equiv> mk_error NotFoundError msg Undefined"

abbreviation conflict :: "string \<Rightarrow> jsval" where
  "conflict msg \<equiv> mk_error ConflictError msg Undefined"

abbreviation service_unavailable :: "string \<Rightarrow> jsval" where
  "service_unavailable msg \<equiv> mk_error ServiceUnavailableError msg Undefined"

abbreviation too_many_requests :: "string \<Rightarrow> jsval" where
  "too_many_requests msg \<equiv> mk_error TooManyRequestsError msg Undefined"

definition is_kind :: "app_kind \<Rightarrow> jsval \<Rightarrow> bool" where
  "is_kind k e \<longleftrightarrow> instance_of e AppErrorClass \<and> error_name e = kind_name k"

lemma kind_name_inject [simp]: "kind_name k = kind_name k' \<longleftrightarrow> k = k'"
  by (cases k; cases k') simp_all

lemma mk_error_inject [simp]:
  "mk_error k m d = mk_error k' m' d' \<longleftrightarrow> k = k' \<and> m = m' \<and> d = d'"
  by (auto simp: mk_error_def app_error_def)

lemma is_kind_mk_error [simp]: "is_kind k (mk_error k' m d) \<longleftrightarrow> k = k'"
  by (auto simp: is_kind_def mk_error_def app_error_def error_name_def str_of_def)

lemma mk_error_message [simp]: "error_message (mk_error k m d) = m"
  by (simp add: mk_error_def app_error_def error_message_def str_of_def)

lemma mk_error_is_error [simp]: "is_error (mk_error k m d)"
  by (simp add: mk_error_def app_error_def is_error_def)

section \<open>Errors of the ORM\<close>

definition prisma_error :: "string \<Rightarrow> string list \<Rightarrow> jsval" where
  "prisma_error cd target = JObj PrismaErrorClass
     [(''name'', JStr ''PrismaClientKnownRequestError''),
      (''message'', JStr ''Prisma request error''), (''code'', JStr cd),
      (''meta'', JObj PlainObject [(''target'', JArr (map JStr target))])]"

definition isPrismaError :: "jsval \<Rightarrow> bool" where
  "isPrismaError err = instance_of err PrismaErrorClass"

definition isUniqueConstraintViolation :: "jsval \<Rightarrow> bool" where
  "isUniqueConstraintViolation err \<longleftrightarrow> isPrismaError err \<and> get_prop err ''code'' = JStr ''P2002''"

text \<open>Never returns: the value is what it throws.\<close>

definition handleUniqueConstraintViolation :: "jsval \<Rightarrow> string \<Rightarrow> jsval" where
  "handleUniqueConstraintViolation err message =
     (if isUniqueConstraintViolation err then conflict message else err)"

definition getUniqueConstraintFields :: "jsval \<Rightarrow> jsval" where
  "getUniqueConstraintFields err =
     (if \<not> isPrismaError err \<or> get_prop err ''code'' \<noteq> JStr ''P2002'' then Undefined
      else get_prop (get_prop err ''meta'') ''target'')"

lemma isUniqueConstraintViolation_prisma [simp]:
  "isUniqueConstraintViolation (prisma_error cd target) \<longleftrightarrow> cd = ''P2002''"
  by (simp add: isUniqueConstraintViolation_def isPrismaError_def prisma_error_def)

section \<open>Ownership\<close>

definition assertOwnership :: "string \<Rightarrow> string \<Rightarrow> string \<Rightarrow> jsval + unit" where
  "assertOwnership ownerId actorId message =
     (if ownerId \<noteq> actorId then Inl (forbidden message) else Inr ())"

section \<open>The global error handler\<close>

record http_request =
  req_id :: "string option"
  req_aborted :: bool
  headers_sent :: bool

record http_response =
  resp_status :: int
  resp_code :: jsval
  resp_message :: jsval
  resp_details :: jsval
  resp_request_id :: jsval

definition requestIdOf :: "http_request \<Rightarrow> jsval" where
  "requestIdOf req = (case req_id req of None \<Rightarrow> Undefined | Some i \<Rightarrow> JStr i)"

definition json_response :: "http_request \<Rightarrow> int \<Rightarrow> jsval \<Rightarrow> jsval \<Rightarrow> jsval \<Rightarrow> http_response" where
  "json_response req status cd msg details =
     \<lparr>resp_status = status, resp_code = cd, resp_message = msg, resp_details = details,
      resp_request_id = requestIdOf req\<rparr>"

definition notFoundHandler :: "http_request \<Rightarrow> http_response" where
  "notFoundHandler req = json_response req 404 (JStr ''NOT_FOUND'') (JStr ''Route not found'') Undefined"

definition multer_limit_codes :: "string list" where
  "multer_limit_codes = [''LIMIT_FILE_SIZE'', ''LIMIT_FILE_COUNT'', ''LIMIT_FIELD_COUNT'', ''LIMIT_UNEXPECTED_FILE'']"

definition is_multer_limit :: "jsval \<Rightarrow> bool" where
  "is_multer_limit err = list_ex (\<lambda>c. get_prop err ''code'' = JStr c) multer_limit_codes"

definition is_entity_too_large :: "jsval \<Rightarrow> bool" where
  "is_entity_too_large err \<longleftrightarrow> get_prop err ''type'' = JStr ''entity.too.large''
     \<or> get_prop err ''status'' = JNum (j_int 413) \<or> get_prop err ''statusCode'' = JNum (j_int 413)"

definition status_number :: "jsval \<Rightarrow> int" where
  "status_number v = (case v of JNum n \<Rightarrow> j_to_int n | _ \<Rightarrow> 0)"

text \<open>The part after the DOMException cases, where an \<open>AbortError\<close> may fall through.\<close>

definition handle_app_errors :: "jsval \<Rightarrow> http_request \<Rightarrow> http_response" where
  "handle_app_errors err req =
     (if instance_of err ZodErrorClass then
        json_response req 400 (JStr ''VALIDATION_ERROR'') (JStr ''Invalid request'')
          (get_prop err ''flattened'')
      else if instance_of err AppErrorClass then
        json_response req (status_number (get_prop err ''statusCode'')) (get_prop err ''code'')
          (get_prop err ''message'') (get_prop err ''details'')
      else
        json_response req 500 (JStr ''INTERNAL_ERROR'') (JStr ''Something went wrong'') Undefined)"

definition errorHandler :: "jsval \<Rightarrow> http_request \<Rightarrow> http_response option" where
  "errorHandler err req =
     (if is_multer_limit err then
        Some (json_response req 413 (JStr ''PAYLOAD_TOO_LARGE'') (JStr ''Payload too large'')
          (JObj PlainObject [(''limit'', get_prop err ''code'')]))
      else if is_entity_too_large err then
        Some (json_response req 413 (JStr ''PAYLOAD_TOO_LARGE'') (JStr ''Payload too large'') Undefined)
      else if instance_of err DomExceptionClass \<and> get_prop err ''name'' = JStr ''TimeoutError'' then
        Some (json_response req 503 (JStr ''REQUEST_TIMEOUT'')
          (if error_message err = [] then JStr ''Upstream request timed out'' else get_prop err ''message'')
          Undefined)
      else if instance_of err DomExceptionClass \<and> get_prop err ''name'' = JStr ''AbortError'' then
        (if headers_sent req then None
         else if req_aborted req then
           Some (json_response req 503 (JStr ''REQUEST_CANCELLED'') (JStr ''Request cancelled'') Undefined)
         else Some (handle_app_errors err req))
      else Some (handle_app_errors err req))"

lemmas error_defs = errorHandler_def handle_app_errors_def is_multer_limit_def
  multer_limit_codes_def is_entity_too_large_def status_number_def json_response_def

lemma mk_error_not_multer [simp]: "\<not> is_multer_limit (mk_error k m d)"
  by (cases k) (simp_all add: is_multer_limit_def multer_limit_codes_def mk_error_def app_error_def)

lemma mk_error_entity_too_large [simp]:
  "is_entity_too_large (mk_error k m d) \<longleftrightarrow> k = PayloadTooLargeError"
  by (cases k) (simp_all add: is_entity_too_large_def mk_error_def app_error_def)

lemma mk_error_props [simp]:
  "get_prop (mk_error k m d) ''statusCode'' = JNum (j_int (kind_status k))"
  "get_prop (mk_error k m d) ''code'' = JStr (kind_code k)"
  "get_prop (mk_error k m d) ''message'' = JStr m"
  "get_prop (mk_error k m d) ''details'' = d"
  "instance_of (mk_error k m d) c \<longleftrightarrow> c = AppErrorClass \<or> c = ErrorClass"
  by (auto simp: mk_error_def app_error_def)

text \<open>
  Every application error reaches the client with its own status, code, message and
  details, except the payload-too-large kind, whose message and details are replaced by
  the fixed ones of the body-limit case.
\<close>

theorem app_error_response:
  "errorHandler (mk_error k m d) req =
     Some (if k = PayloadTooLargeError
           then json_response req 413 (JStr ''PAYLOAD_TOO_LARGE'') (JStr ''Payload too large'') Undefined
           else json_response req (kind_status k) (JStr (kind_code k)) (JStr m) d)"
  by (simp add: errorHandler_def handle_app_errors_def status_number_def)

text \<open>
  An unexpected error (not one of the recognised classes, and carrying no upload-limit or
  body-limit mark) is answered with status 500 and a fixed message: nothing of the error
  value reaches the client.
\<close>

theorem unexpected_error_hidden:
  assumes "\<not> is_multer_limit err" and "\<not> is_entity_too_large err"
    and "\<not> instance_of err DomExceptionClass" and "\<not> instance_of err ZodErrorClass"
    and "\<not> instance_of err AppErrorClass"
  shows "errorHandler err req =
    Some (json_response req 500 (JStr ''INTERNAL_ERROR'') (JStr ''Something went wrong'') Undefined)"
  using assms by (simp add: errorHandler_def handle_app_errors_def)

theorem unexpected_error_hidden_witness:
  "errorHandler (prisma_error ''P2025'' [''id'']) \<lparr>req_id = Some ''r1'', req_aborted = False, headers_sent = False\<rparr> =
    Some \<lparr>resp_status = 500, resp_code = JStr ''INTERNAL_ERROR'', resp_message = JStr ''Something went wrong'',
          resp_details = Undefined, resp_request_id = JStr ''r1''\<rparr>"
  by (subst unexpected_error_hidden)
     (simp_all add: error_defs prisma_error_def requestIdOf_def)

end
