(* ===== verification/Stroops.thy ===== *)
theory Stroops
  imports Errors
begin

text \<open>
  Parsing of monetary amounts at the API boundary
  (\<open>backend/src/common/validation/stroops.ts\<close>): amounts are unbounded integers
  (\<open>bigint\<close>) of stroops, accepted from a bigint, a decimal string or an integral number.
\<close>

definition STROOPS_PER_XLM :: int where
  "STROOPS_PER_XLM = 10000000"

definition MAX_STROOP_AMOUNT :: int where
  "MAX_STROOP_AMOUNT = 2 ^ 63 - 1"

definition MAX_SAFE_INTEGER :: int where
  "MAX_SAFE_INTEGER = 2 ^ 53 - 1"

definition stroop_value :: "jsval \<Rightarrow> string \<Rightarrow> jsval + int" where
  "stroop_value input field = (case input of
       JBig i \<Rightarrow> Inr i
     | JStr s \<Rightarrow> (let trimmed = js_trim s in
         if \<not> int_literal trimmed
         then Inl (bad_request (field @ '' must be an integer number of stroops''))
         else Inr (parse_int trimmed))
     | JNum n \<Rightarrow>
         (if \<not> is_integer n
          then Inl (bad_request (field @ '' must be an integer number of stroops (no floats)''))
          else Inr (j_to_int n))
     | _ \<Rightarrow> Inl (bad_request (field @ '' must be a stroop amount'')))"

definition parseStroops :: "jsval \<Rightarrow> bool \<Rightarrow> string \<Rightarrow> jsval + int" where
  "parseStroops input allowZero field =
     (case stroop_value input field of
        Inl e \<Rightarrow> Inl e
      | Inr v \<Rightarrow>
          if v < 0 then Inl (bad_request (field @ '' must not be negative''))
          else if v = 0 \<and> \<not> allowZero then Inl (bad_request (field @ '' must be greater than zero''))
          else if v > MAX_STROOP_AMOUNT
            then Inl (bad_request (field @ '' exceeds the maximum allowed stroop amount''))
          else Inr v)"

text \<open>What an input denotes, independently of the parser.\<close>

definition denotes :: "jsval \<Rightarrow> int \<Rightarrow> bool" where
  "denotes input v = (case input of
       JBig i \<Rightarrow> i = v
     | JNum n \<Rightarrow> n = j_int v
     | JStr s \<Rightarrow> int_literal (js_trim s) \<and> parse_int (js_trim s) = v
     | _ \<Rightarrow> False)"

lemma is_integer_iff: "is_integer n \<longleftrightarrow> (\<exists>i. n = j_int i)"
proof (cases n)
  case (Fin a)
  have "of_int \<lfloor>a\<rfloor> = a \<longleftrightarrow> (\<exists>i. a = of_int i)"
    by (metis floor_of_int)
  with Fin show ?thesis by (simp add: is_integer_def)
qed (simp_all add: is_integer_def)

lemma stroop_value_denotes: "stroop_value input field = Inr v \<longleftrightarrow> denotes input v"
  by (auto simp: stroop_value_def denotes_def Let_def is_integer_iff split: jsval.splits if_splits)

lemma stroop_value_error: "stroop_value input field = Inl e \<Longrightarrow> is_kind BadRequestError e"
  by (auto simp: stroop_value_def Let_def split: jsval.splits if_splits)

lemma dropWhile_space_digits: "list_all is_digit s \<Longrightarrow> dropWhile is_space s = s"
  by (cases s) (auto simp: is_digit_def is_space_def)

lemma js_trim_show_int: "0 \<le> i \<Longrightarrow> js_trim (show_int i) = show_int i"
  using show_nat_digits [of "nat i"]
  by (simp add: js_trim_def show_int_def dropWhile_space_digits list_all_rev)

text \<open>
  C40. An amount that is accepted is the integer the input denotes, is not negative, is zero
  only where zero is allowed, and never exceeds the largest signed 64-bit integer; and every
  input that denotes such an integer is accepted.
\<close>

theorem parse_stroops_exact:
  "parseStroops input allowZero field = Inr v \<longleftrightarrow>
     denotes input v \<and> 0 \<le> v \<and> (v = 0 \<longrightarrow> allowZero) \<and> v \<le> MAX_STROOP_AMOUNT"
proof (cases "stroop_value input field")
  case (Inl e)
  then have "\<not> denotes input v"
    using stroop_value_denotes [of input field v] by simp
  with Inl show ?thesis by (simp add: parseStroops_def)
next
  case (Inr w)
  then have "denotes input v \<longleftrightarrow> v = w"
    using stroop_value_denotes [of input field v] by auto
  with Inr show ?thesis by (auto simp: parseStroops_def)
qed

theorem parse_stroops_exact_witness:
  "parseStroops (JStr '' 250 '') False ''amount'' = Inr 250 \<and>
   parseStroops (JNum (Fin (5/2))) False ''amount'' \<noteq> Inr 2"
  by (simp only: parse_stroops_exact) code_simp

text \<open>
  Printing an accepted amount and parsing it back gives the same amount.
\<close>

theorem parse_stroops_roundtrip:
  assumes "0 < v" and "v \<le> MAX_STROOP_AMOUNT"
  shows "parseStroops (JStr (show_int v)) allowZero field = Inr v"
  using assms by (simp add: parse_stroops_exact denotes_def js_trim_show_int)

theorem parse_stroops_roundtrip_witness:
  "parseStroops (JStr (show_int 12345)) False ''amount'' = Inr 12345"
  by (rule parse_stroops_roundtrip) (simp_all add: MAX_STROOP_AMOUNT_def)

text \<open>
  Every rejected amount is reported as a bad request, and amounts above the largest
  integer a JavaScript number holds exactly are accepted: the cap is not below it.
\<close>

theorem parse_stroops_rejects_and_cap:
  "(parseStroops input allowZero field = Inl e \<longrightarrow> is_kind BadRequestError e) \<and>
   (MAX_SAFE_INTEGER < v \<and> v \<le> MAX_STROOP_AMOUNT \<longrightarrow> parseStroops (JBig v) allowZero field = Inr v) \<and>
   MAX_SAFE_INTEGER < MAX_STROOP_AMOUNT"
proof (intro conjI impI)
  assume "parseStroops input allowZero field = Inl e"
  then show "is_kind BadRequestError e"
    using stroop_value_error by (auto simp: parseStroops_def split: sum.splits if_splits)
next
  assume "MAX_SAFE_INTEGER < v \<and> v \<le> MAX_STROOP_AMOUNT"
  then show "parseStroops (JBig v) allowZero field = Inr v"
    by (simp add: parse_stroops_exact denotes_def MAX_SAFE_INTEGER_def)
qed (simp add: MAX_SAFE_INTEGER_def MAX_STROOP_AMOUNT_def)

theorem parse_stroops_rejects_and_cap_witness:
  "parseStroops (JBig (2 ^ 53 + 1)) False ''amount'' = Inr (2 ^ 53 + 1)"
  using parse_stroops_rejects_and_cap [of "JBig 0" False "''amount''" Undefined "2 ^ 53 + 1"]
  by (simp add: MAX_SAFE_INTEGER_def MAX_STROOP_AMOUNT_def)

end
