(* ===== verification/Resilience.thy ===== *)
theory Resilience
  imports Errors
begin

text \<open>
  Resilience of outgoing calls: the retry loop (\<open>backend/src/common/utils/retry.ts\<close>), its
  indexer entry point (\<open>indexer/retry.ts\<close>) and the circuit breaker
  (\<open>common/utils/circuitBreaker.ts\<close>). The called function is an oracle that gives the
  outcome of its n-th call; random numbers, aborts and the clock are parameters.
\<close>

section \<open>Retry\<close>

definition IDEMPOTENT_METHODS :: "string list" where
  "IDEMPOTENT_METHODS = [''GET'', ''HEAD'', ''PUT'', ''DELETE'', ''OPTIONS'', ''TRACE'']"

text \<open>\<open>Number(v)\<close>; objects and arrays have no numeric value here.\<close>

definition number_of :: "jsval \<Rightarrow> jsnum" where
  "number_of v = (case v of
       JNum n \<Rightarrow> n
     | JStr s \<Rightarrow> number_of_string s
     | JBig i \<Rightarrow> j_int i
     | JBool b \<Rightarrow> Fin (if b then 1 else 0)
     | Null \<Rightarrow> Fin 0
     | _ \<Rightarrow> NaN)"

definition network_message :: "string \<Rightarrow> bool" where
  "network_message m \<longleftrightarrow> list_ex (str_includes m)
     [''timeout'', ''timed out'', ''network'', ''connection'', ''econnrefused'', ''econnreset'', ''socket hang up'']"

definition overload_message :: "string \<Rightarrow> bool" where
  "overload_message m \<longleftrightarrow> list_ex (str_includes m)
     [''rate limit'', ''too many requests'', ''service unavailable'', ''bad gateway'',
      ''gateway timeout'', ''internal server error'']"

definition error_status :: "jsval \<Rightarrow> jsval" where
  "error_status e = coalesce (get_prop e ''status'') (coalesce (get_prop e ''statusCode'')
     (case get_prop e ''code'' of JNum n \<Rightarrow> JNum n | _ \<Rightarrow> Undefined))"

text \<open>The verdict of the status check; \<open>None\<close> falls through to the message heuristics.\<close>

definition status_transient :: "jsval \<Rightarrow> bool option" where
  "status_transient status =
     (if status = Undefined then None
      else let code = number_of status in
        if code \<in> set (map j_int [429, 408, 502, 503, 504]) then Some True
        else if j_le (Fin 400) code \<and> j_lt code (Fin 500) then Some False
        else if j_le (Fin 500) code then Some True
        else None)"

definition isTransientError :: "jsval \<Rightarrow> bool" where
  "isTransientError e =
     (if instance_of e DomExceptionClass \<and> error_name e = ''TimeoutError'' then True
      else if instance_of e DomExceptionClass \<and> error_name e = ''AbortError'' then False
      else if \<not> is_error e then False
      else if error_name e = ''AbortError'' \<or> error_name e = ''TimeoutError'' then True
      else let message = to_lower (error_message e) in
        if network_message message then True
        else (case status_transient (error_status e) of
            Some b \<Rightarrow> b
          | None \<Rightarrow> overload_message message))"

definition isIdempotent :: "string option \<Rightarrow> string option \<Rightarrow> bool" where
  "isIdempotent meth key =
     (case meth of
        None \<Rightarrow> True
      | Some m \<Rightarrow>
          if m = [] then True
          else if to_upper m \<in> set IDEMPOTENT_METHODS then True
          else (case key of None \<Rightarrow> False | Some k \<Rightarrow> js_trim k \<noteq> []))"

definition computeDelay :: "rat \<Rightarrow> nat \<Rightarrow> rat \<Rightarrow> rat \<Rightarrow> rat \<Rightarrow> bool \<Rightarrow> rat" where
  "computeDelay random attempt initialDelayMs maxDelayMs factor jitter =
     (let exponential = min (initialDelayMs * factor ^ (attempt - 1)) maxDelayMs
      in if jitter then random * exponential else exponential)"

record retry_config =
  cfg_maxAttempts :: int
  cfg_initialDelayMs :: rat
  cfg_maxDelayMs :: rat
  cfg_factor :: rat

text \<open>
  An abort signal, as the times it is observed: \<open>aborted_at n\<close> before call \<open>n\<close>,
  \<open>aborted_waiting n\<close> during or right after the delay that follows call \<open>n\<close>.
\<close>

record abort_signal =
  aborted_at :: "nat \<Rightarrow> bool"
  aborted_waiting :: "nat \<Rightarrow> bool"

record retry_options =
  opt_maxAttempts :: "int option"
  opt_initialDelayMs :: "rat option"
  opt_maxDelayMs :: "rat option"
  opt_factor :: "rat option"
  opt_jitter :: "bool option"
  opt_method :: "string option"
  opt_idempotencyKey :: "string option"
  opt_isRetryable :: "(jsval \<Rightarrow> bool) option"
  opt_signal :: "abort_signal option"

definition no_options :: retry_options where
  "no_options = \<lparr>opt_maxAttempts = None, opt_initialDelayMs = None, opt_maxDelayMs = None,
     opt_factor = None, opt_jitter = None, opt_method = None, opt_idempotencyKey = None,
     opt_isRetryable = None, opt_signal = None\<rparr>"

definition or_else :: "'a option \<Rightarrow> 'a \<Rightarrow> 'a" where
  "or_else x d = (case x of None \<Rightarrow> d | Some a \<Rightarrow> a)"

definition eff_maxAttempts :: "retry_config option \<Rightarrow> retry_options \<Rightarrow> int" where
  "eff_maxAttempts cfg opts = or_else (opt_maxAttempts opts) (or_else (map_option cfg_maxAttempts cfg) 3)"

definition eff_initialDelayMs :: "retry_config option \<Rightarrow> retry_options \<Rightarrow> rat" where
  "eff_initialDelayMs cfg opts = or_else (opt_initialDelayMs opts) (or_else (map_option cfg_initialDelayMs cfg) 100)"

definition eff_maxDelayMs :: "retry_config option \<Rightarrow> retry_options \<Rightarrow> rat" where
  "eff_maxDelayMs cfg opts = or_else (opt_maxDelayMs opts) (or_else (map_option cfg_maxDelayMs cfg) 5000)"

definition eff_factor :: "retry_config option \<Rightarrow> retry_options \<Rightarrow> rat" where
  "eff_factor cfg opts = or_else (opt_factor opts) (or_else (map_option cfg_factor cfg) 2)"

definition eff_jitter :: "retry_options \<Rightarrow> bool" where
  "eff_jitter opts = or_else (opt_jitter opts) True"

definition eff_isRetryable :: "retry_options \<Rightarrow> jsval \<Rightarrow> bool" where
  "eff_isRetryable opts = or_else (opt_isRetryable opts) isTransientError"

definition retry_aborted :: jsval where
  "retry_aborted = dom_exception ''Retry aborted'' ''AbortError''"

definition signal_at :: "retry_options \<Rightarrow> nat \<Rightarrow> bool" where
  "signal_at opts n = (case opt_signal opts of None \<Rightarrow> False | Some s \<Rightarrow> aborted_at s n)"

definition signal_waiting :: "retry_options \<Rightarrow> nat \<Rightarrow> bool" where
  "signal_waiting opts n = (case opt_signal opts of None \<Rightarrow> False | Some s \<Rightarrow> aborted_waiting s n)"

text \<open>
  The loop: the result, the number of calls made and the delays waited. \<open>fn n\<close> is the
  outcome of call \<open>n\<close>, counted from 0; the loop ends because a retry needs
  \<open>attempt < maxAttempts\<close>.
\<close>

function retry_loop ::
  "retry_config option \<Rightarrow> retry_options \<Rightarrow> (nat \<Rightarrow> rat) \<Rightarrow> (nat \<Rightarrow> jsval + 'a) \<Rightarrow> nat \<Rightarrow> rat list
   \<Rightarrow> (jsval + 'a) \<times> nat \<times> rat list" where
  "retry_loop cfg opts random fn attempt delays =
     (if signal_at opts attempt then (Inl retry_aborted, attempt, delays)
      else case fn attempt of
        Inr a \<Rightarrow> (Inr a, attempt + 1, delays)
      | Inl e \<Rightarrow>
          (let attempt' = attempt + 1 in
           if \<not> isIdempotent (opt_method opts) (opt_idempotencyKey opts) then (Inl e, attempt', delays)
           else if \<not> eff_isRetryable opts e then (Inl e, attempt', delays)
           else if eff_maxAttempts cfg opts \<le> int attempt' then (Inl e, attempt', delays)
           else
             let delay = computeDelay (random attempt') attempt' (eff_initialDelayMs cfg opts)
                   (eff_maxDelayMs cfg opts) (eff_factor cfg opts) (eff_jitter opts)
             in if signal_waiting opts attempt' then (Inl retry_aborted, attempt', delays @ [delay])
                else retry_loop cfg opts random fn attempt' (delays @ [delay])))"
  by pat_completeness auto
termination
  by (relation "measure (\<lambda>(cfg, opts, random, fn, attempt, delays). nat (eff_maxAttempts cfg opts - int attempt))") auto

declare retry_loop.simps [simp del]

definition withRetry ::
  "retry_config option \<Rightarrow> retry_options \<Rightarrow> (nat \<Rightarrow> rat) \<Rightarrow> (nat \<Rightarrow> jsval + 'a) \<Rightarrow> (jsval + 'a) \<times> nat \<times> rat list" where
  "withRetry cfg opts random fn = retry_loop cfg opts random fn 0 []"

text \<open>The indexer's entry point: five attempts and no jitter unless asked for.\<close>

definition indexer_options :: "retry_options \<Rightarrow> retry_options" where
  "indexer_options opts = opts\<lparr>opt_maxAttempts := Some (or_else (opt_maxAttempts opts) 5),
     opt_jitter := Some (or_else (opt_jitter opts) False)\<rparr>"

definition indexer_withRetry ::
  "retry_config option \<Rightarrow> retry_options \<Rightarrow> (nat \<Rightarrow> rat) \<Rightarrow> (nat \<Rightarrow> jsval + 'a) \<Rightarrow> (jsval + 'a) \<times> nat \<times> rat list" where
  "indexer_withRetry cfg opts random fn = withRetry cfg (indexer_options opts) random fn"

subsection \<open>What a run of the loop does\<close>

definition may_retry :: "retry_options \<Rightarrow> jsval \<Rightarrow> bool" where
  "may_retry opts e \<longleftrightarrow> isIdempotent (opt_method opts) (opt_idempotencyKey opts) \<and> eff_isRetryable opts e"

text \<open>Calls \<open>a\<close> to \<open>b - 1\<close> all failed with an error that may be retried.\<close>

definition failed_between :: "retry_options \<Rightarrow> (nat \<Rightarrow> jsval + 'a) \<Rightarrow> nat \<Rightarrow> nat \<Rightarrow> bool" where
  "failed_between opts fn a b \<longleftrightarrow> (\<forall>i. a \<le> i \<and> i < b \<longrightarrow> (\<exists>e. fn i = Inl e \<and> may_retry opts e))"

lemma failed_between_step:
  "fn a = Inl e \<Longrightarrow> may_retry opts e \<Longrightarrow> failed_between opts fn (a + 1) b \<Longrightarrow> failed_between opts fn a b"
  unfolding failed_between_def by (metis Suc_eq_plus1 Suc_leI le_neq_implies_less)

lemma failed_between_empty [simp]: "b \<le> a \<Longrightarrow> failed_between opts fn a b"
  by (auto simp: failed_between_def)

text \<open>The delay after call \<open>attempt\<close>, and the condition under which the loop goes on.\<close>

definition next_delay :: "retry_config option \<Rightarrow> retry_options \<Rightarrow> (nat \<Rightarrow> rat) \<Rightarrow> nat \<Rightarrow> rat" where
  "next_delay cfg opts random attempt = computeDelay (random (attempt + 1)) (attempt + 1)
     (eff_initialDelayMs cfg opts) (eff_maxDelayMs cfg opts) (eff_factor cfg opts) (eff_jitter opts)"

lemma signal_given: "signal_at opts n \<Longrightarrow> opt_signal opts \<noteq> None" "signal_waiting opts n \<Longrightarrow> opt_signal opts \<noteq> None"
  by (auto simp: signal_at_def signal_waiting_def split: option.splits)

lemma retry_loop_stop:
  assumes "retry_loop cfg opts random fn attempt delays = (r, calls, waits)"
    and "\<not> (\<exists>e. fn attempt = Inl e \<and> \<not> signal_at opts attempt \<and> may_retry opts e \<and>
      int (attempt + 1) < eff_maxAttempts cfg opts \<and> \<not> signal_waiting opts (attempt + 1))"
  shows "(calls = attempt \<and> r = Inl retry_aborted \<and> opt_signal opts \<noteq> None \<and> waits = delays) \<or>
    (calls = attempt + 1 \<and> waits = delays @ [next_delay cfg opts random attempt] \<and>
      r = Inl retry_aborted \<and> opt_signal opts \<noteq> None \<and> int (attempt + 1) < eff_maxAttempts cfg opts) \<or>
    (calls = attempt + 1 \<and> waits = delays \<and> r = fn attempt \<and>
      (\<forall>e. r = Inl e \<longrightarrow> may_retry opts e \<longrightarrow> eff_maxAttempts cfg opts \<le> int calls))"
  using assms signal_given [of opts]
  by (cases "signal_at opts attempt"; cases "fn attempt")
     (auto simp: retry_loop.simps [of cfg opts random fn attempt delays] may_retry_def Let_def next_delay_def
       split: if_splits)

lemma retry_loop_go:
  assumes "fn attempt = Inl e" and "\<not> signal_at opts attempt" and "may_retry opts e"
    and "int (attempt + 1) < eff_maxAttempts cfg opts" and "\<not> signal_waiting opts (attempt + 1)"
  shows "retry_loop cfg opts random fn attempt delays =
    retry_loop cfg opts random fn (attempt + 1) (delays @ [next_delay cfg opts random attempt])"
  using assms
  by (subst retry_loop.simps) (simp add: may_retry_def next_delay_def Let_def)

text \<open>Induction along the calls of a run: a property of stops that each retry hands on.\<close>

lemma retry_loop_induct:
  assumes stop: "\<And>attempt delays. \<not> (\<exists>e. fn attempt = Inl e \<and> \<not> signal_at opts attempt \<and> may_retry opts e \<and>
      int (attempt + 1) < eff_maxAttempts cfg opts \<and> \<not> signal_waiting opts (attempt + 1)) \<Longrightarrow> P attempt delays"
    and go: "\<And>attempt delays e. fn attempt = Inl e \<Longrightarrow> \<not> signal_at opts attempt \<Longrightarrow> may_retry opts e \<Longrightarrow>
      int (attempt + 1) < eff_maxAttempts cfg opts \<Longrightarrow> \<not> signal_waiting opts (attempt + 1) \<Longrightarrow>
      P (attempt + 1) (delays @ [next_delay cfg opts random attempt]) \<Longrightarrow> P attempt delays"
  shows "P attempt delays"
proof (induction "nat (eff_maxAttempts cfg opts - int attempt)" arbitrary: attempt delays rule: less_induct)
  case (less attempt delays)
  show ?case
  proof (cases "\<exists>e. fn attempt = Inl e \<and> \<not> signal_at opts attempt \<and> may_retry opts e \<and>
      int (attempt + 1) < eff_maxAttempts cfg opts \<and> \<not> signal_waiting opts (attempt + 1)")
    case True
    then obtain e where e: "fn attempt = Inl e" "\<not> signal_at opts attempt" "may_retry opts e"
      "int (attempt + 1) < eff_maxAttempts cfg opts" "\<not> signal_waiting opts (attempt + 1)" by auto
    then have "P (attempt + 1) (delays @ [next_delay cfg opts random attempt])"
      by (intro less.hyps) auto
    then show ?thesis by (rule go [OF e])
  qed (rule stop)
qed

lemma retry_loop_outcome:
  assumes "retry_loop cfg opts random fn attempt delays = (r, calls, waits)"
    and "0 < attempt \<longrightarrow> int attempt < eff_maxAttempts cfg opts"
  shows "attempt \<le> calls \<and> int calls \<le> max 1 (eff_maxAttempts cfg opts) \<and>
    failed_between opts fn attempt (calls - 1) \<and>
    ((r = Inl retry_aborted \<and> opt_signal opts \<noteq> None) \<or>
     (attempt < calls \<and> r = fn (calls - 1) \<and>
      (\<forall>e. r = Inl e \<longrightarrow> may_retry opts e \<longrightarrow> eff_maxAttempts cfg opts \<le> int calls)))"
  using assms
proof (induction attempt delays rule: retry_loop_induct [where fn = fn and opts = opts and cfg = cfg and random = random])
  case (1 attempt delays)
  from retry_loop_stop [OF 1(2) 1(1)] 1(3) show ?case
    by (cases attempt) auto
next
  case (2 attempt delays e)
  then have "retry_loop cfg opts random fn (attempt + 1) (delays @ [next_delay cfg opts random attempt]) = (r, calls, waits)"
    using retry_loop_go [where fn = fn, OF 2(1-5), of random delays] by simp
  from 2(6) [OF this] 2(4) show ?case
    using failed_between_step [where fn = fn, OF 2(1,3)] by auto
qed

text \<open>
  A retried call is made at most \<open>max 1 maxAttempts\<close> times; every call before the last
  failed with an error that may be retried (an idempotent method or an idempotency key, and
  a retryable error); and the caller gets the outcome of the last call, which is a retryable
  failure only when the attempts are used up, unless the abort signal ended the loop.
\<close>

theorem retry_outcome:
  assumes "withRetry cfg opts random fn = (r, calls, waits)"
  shows "int calls \<le> max 1 (eff_maxAttempts cfg opts) \<and> failed_between opts fn 0 (calls - 1) \<and>
    ((r = Inl retry_aborted \<and> opt_signal opts \<noteq> None) \<or>
     (0 < calls \<and> r = fn (calls - 1) \<and>
      (\<forall>e. r = Inl e \<longrightarrow> may_retry opts e \<longrightarrow> eff_maxAttempts cfg opts \<le> int calls)))"
  using retry_loop_outcome [of cfg opts random fn 0 "[]"] assms by (simp add: withRetry_def)

theorem retry_outcome_witness:
  "int 2 \<le> max 1 (eff_maxAttempts None no_options) \<and>
   (Inr (5::int) :: jsval + int) = (if (2::nat) - 1 = 0 then Inl (js_error ''socket hang up'') else Inr 5)"
proof -
  define fn :: "nat \<Rightarrow> jsval + int" where
    "fn = (\<lambda>n. if n = 0 then Inl (js_error ''socket hang up'') else Inr 5)"
  have "isTransientError (js_error ''socket hang up'')" by code_simp
  then have "withRetry None no_options (\<lambda>_. 0) fn = (Inr 5, 2, [0])"
    by (simp add: withRetry_def retry_loop.simps fn_def no_options_def signal_at_def signal_waiting_def
      isIdempotent_def eff_isRetryable_def or_else_def eff_maxAttempts_def computeDelay_def eff_jitter_def Let_def)
  from retry_outcome [OF this] show ?thesis by (simp add: fn_def)
qed

subsection \<open>Delays\<close>

lemma computeDelay_bounds:
  assumes "0 \<le> random" and "random \<le> 1" and "0 \<le> initial" and "0 \<le> factor" and "0 \<le> maxd"
  shows "0 \<le> computeDelay random attempt initial maxd factor jitter \<and>
    computeDelay random attempt initial maxd factor jitter \<le> maxd"
proof -
  define x where "x = min (initial * factor ^ (attempt - 1)) maxd"
  have x: "0 \<le> x" "x \<le> maxd" using assms by (simp_all add: x_def)
  moreover from this have "random * x \<le> maxd" "0 \<le> random * x"
    using assms(1,2) by (auto intro: order_trans [OF mult_left_le_one_le])
  ultimately show ?thesis
    unfolding computeDelay_def x_def [symmetric] Let_def by simp
qed

lemma retry_loop_delays:
  assumes "retry_loop cfg opts random fn attempt delays = (r, calls, waits)"
    and "\<And>n. 0 \<le> random n \<and> random n \<le> 1"
    and "0 \<le> eff_initialDelayMs cfg opts" and "0 \<le> eff_factor cfg opts" and "0 \<le> eff_maxDelayMs cfg opts"
    and "\<forall>d \<in> set delays. 0 \<le> d \<and> d \<le> eff_maxDelayMs cfg opts" and "length delays \<le> attempt"
  shows "(\<forall>d \<in> set waits. 0 \<le> d \<and> d \<le> eff_maxDelayMs cfg opts) \<and> length waits \<le> calls"
proof -
  have d: "0 \<le> next_delay cfg opts random n \<and> next_delay cfg opts random n \<le> eff_maxDelayMs cfg opts" for n
    unfolding next_delay_def using assms(2-5) by (intro computeDelay_bounds) auto
  show ?thesis
  using assms(1,6,7)
proof (induction attempt delays rule: retry_loop_induct [where fn = fn and opts = opts and cfg = cfg and random = random])
  case (1 attempt delays)
  from retry_loop_stop [OF 1(2) 1(1)] 1(3,4) d [of attempt] show ?case by auto
next
  case (2 attempt delays e)
  have "retry_loop cfg opts random fn (attempt + 1) (delays @ [next_delay cfg opts random attempt]) = (r, calls, waits)"
    using retry_loop_go [where fn = fn, OF 2(1-5), of random delays] 2(7) by simp
  from 2(6) [OF this] 2(8,9) d [of attempt] show ?case by auto
qed
qed

text \<open>
  Every delay of a retried call lies between 0 and the configured ceiling, with or without
  jitter, and there is at most one delay per call.
\<close>

theorem retry_delays_bounded:
  assumes "withRetry cfg opts random fn = (r, calls, waits)"
    and "\<And>n. 0 \<le> random n \<and> random n \<le> 1"
    and "0 \<le> eff_initialDelayMs cfg opts" and "0 \<le> eff_factor cfg opts" and "0 \<le> eff_maxDelayMs cfg opts"
  shows "(\<forall>d \<in> set waits. 0 \<le> d \<and> d \<le> eff_maxDelayMs cfg opts) \<and> length waits \<le> calls"
  using retry_loop_delays [OF assms(1) [unfolded withRetry_def] assms(2-5)] by simp

theorem retry_delays_bounded_witness:
  "let (r, calls, waits) = withRetry None no_options (\<lambda>_. 1 / 2) (\<lambda>_. Inl (js_error ''timeout'') :: jsval + int)
   in (\<forall>d \<in> set waits. 0 \<le> d \<and> d \<le> 5000) \<and> length waits \<le> calls"
proof -
  obtain r calls waits where run:
    "withRetry None no_options (\<lambda>_. 1 / 2) (\<lambda>_. Inl (js_error ''timeout'') :: jsval + int) = (r, calls, waits)"
    by (metis prod_cases3)
  have "eff_maxDelayMs None no_options = 5000" "eff_initialDelayMs None no_options = 100" "eff_factor None no_options = 2"
    by (simp_all add: eff_maxDelayMs_def eff_initialDelayMs_def eff_factor_def no_options_def or_else_def)
  with retry_delays_bounded [OF run] run show ?thesis by simp
qed

subsection \<open>Which errors are retried\<close>

text \<open>
  A request error of the 4xx range is not retried when its message speaks of no network
  failure; but the message is looked at before the status, so a 400 whose message mentions
  the network is retried, although the code's comment rules every 4xx out but 408 and 429.
\<close>

theorem client_errors_not_transient:
  "(kind_status k \<in> {400..<500} \<and> kind_status k \<notin> {408, 429} \<and> \<not> network_message (to_lower m) \<longrightarrow>
      \<not> isTransientError (mk_error k m d)) \<and>
   isTransientError (bad_request ''Unknown network passphrase'')"
proof (intro conjI impI)
  assume "kind_status k \<in> {400..<500} \<and> kind_status k \<notin> {408, 429} \<and> \<not> network_message (to_lower m)"
  then show "\<not> isTransientError (mk_error k m d)"
    by (cases k)
      (simp_all add: isTransientError_def mk_error_def app_error_def is_error_def error_name_def error_message_def
        str_of_def error_status_def coalesce_def nullish_def status_transient_def number_of_def)
next
  show "isTransientError (bad_request ''Unknown network passphrase'')" by code_simp
qed

theorem client_errors_not_transient_witness:
  "\<not> isTransientError (not_found ''No such profile'')"
proof -
  have "\<not> network_message (to_lower ''No such profile'')" by code_simp
  with client_errors_not_transient [of NotFoundError "''No such profile''" Undefined] show ?thesis by simp
qed

section \<open>Circuit breaker\<close>

datatype CircuitBreakerState = CLOSED | OPEN | HALF_OPEN

record breaker_metrics =
  m_state :: CircuitBreakerState
  m_failures :: nat
  m_opens :: nat

text \<open>
  A breaker and the module's table of metrics. A call has two steps, because the breaker is
  entered by other calls while the called function runs: \<open>cb_admit\<close> before the function,
  \<open>cb_success\<close> or \<open>cb_failure\<close> after it.
\<close>

record breaker =
  br_state :: CircuitBreakerState
  failureCount :: nat
  lastFailureTime :: int
  failureThreshold :: nat
  resetTimeoutMs :: int
  br_name :: string
  breakerMetrics :: "string \<rightharpoonup> breaker_metrics"

definition recordCircuitBreakerState ::
  "string \<Rightarrow> CircuitBreakerState \<Rightarrow> nat \<Rightarrow> (string \<rightharpoonup> breaker_metrics) \<Rightarrow> (string \<rightharpoonup> breaker_metrics)" where
  "recordCircuitBreakerState name st failures ms =
     (let existing = (case ms name of Some m \<Rightarrow> m | None \<Rightarrow> \<lparr>m_state = CLOSED, m_failures = 0, m_opens = 0\<rparr>);
          opens = (if st = OPEN \<and> m_state existing \<noteq> OPEN then m_opens existing + 1 else m_opens existing)
      in ms(name \<mapsto> \<lparr>m_state = st, m_failures = failures, m_opens = opens\<rparr>))"

definition cb_record :: "breaker \<Rightarrow> breaker" where
  "cb_record b = b\<lparr>breakerMetrics := recordCircuitBreakerState (br_name b) (br_state b) (failureCount b) (breakerMetrics b)\<rparr>"

definition new_breaker :: "nat \<Rightarrow> int \<Rightarrow> string option \<Rightarrow> (string \<rightharpoonup> breaker_metrics) \<Rightarrow> breaker" where
  "new_breaker threshold resetMs name ms = cb_record
     \<lparr>br_state = CLOSED, failureCount = 0, lastFailureTime = 0, failureThreshold = threshold,
      resetTimeoutMs = resetMs, br_name = or_else name ''circuit-breaker'', breakerMetrics = ms\<rparr>"

definition cb_open_error :: "breaker \<Rightarrow> jsval" where
  "cb_open_error b = service_unavailable (br_name b @ '' circuit breaker is open - too many failures'')"

definition cb_reset :: "breaker \<Rightarrow> breaker" where
  "cb_reset b = cb_record (b\<lparr>br_state := CLOSED, failureCount := 0, lastFailureTime := 0\<rparr>)"

definition cb_admit :: "int \<Rightarrow> breaker \<Rightarrow> (jsval + unit) \<times> breaker" where
  "cb_admit now b =
     (if br_state b = OPEN then
        (if resetTimeoutMs b \<le> now - lastFailureTime b
         then (Inr (), cb_record (b\<lparr>br_state := HALF_OPEN\<rparr>))
         else (Inl (cb_open_error b), b))
      else (Inr (), b))"

definition cb_success :: "breaker \<Rightarrow> breaker" where
  "cb_success b =
     (if br_state b = HALF_OPEN then cb_reset b
      else cb_record (b\<lparr>failureCount := 0, lastFailureTime := 0\<rparr>))"

definition cb_failure :: "int \<Rightarrow> breaker \<Rightarrow> breaker" where
  "cb_failure now b =
     (let b' = b\<lparr>failureCount := failureCount b + 1, lastFailureTime := now\<rparr>
      in cb_record (if failureThreshold b \<le> failureCount b' then b'\<lparr>br_state := OPEN\<rparr> else b'))"

text \<open>A whole call that nothing interleaves with: \<open>now\<close> on entry, \<open>now'\<close> when the function failed.\<close>

definition cb_call :: "int \<Rightarrow> int \<Rightarrow> jsval + 'a \<Rightarrow> breaker \<Rightarrow> (jsval + 'a) \<times> breaker" where
  "cb_call now now' outcome b =
     (case cb_admit now b of
        (Inl e, b') \<Rightarrow> (Inl e, b')
      | (Inr _, b') \<Rightarrow>
          (case outcome of Inr a \<Rightarrow> (Inr a, cb_success b') | Inl e \<Rightarrow> (Inl e, cb_failure now' b')))"

lemmas breaker_defs = cb_call_def cb_admit_def cb_success_def cb_failure_def cb_reset_def cb_record_def Let_def

text \<open>Interleaved use: the state of the breaker and the number of calls in flight.\<close>

inductive breaker_step :: "breaker \<times> nat \<Rightarrow> breaker \<times> nat \<Rightarrow> bool" where
  admitted: "cb_admit now b = (Inr (), b') \<Longrightarrow> breaker_step (b, n) (b', n + 1)"
| refused: "cb_admit now b = (Inl e, b') \<Longrightarrow> breaker_step (b, n) (b', n)"
| succeeds: "breaker_step (b, n + 1) (cb_success b, n)"
| fails: "breaker_step (b, n + 1) (cb_failure now b, n)"

inductive_cases breaker_stepE: "breaker_step (b, n) (b', n')"

inductive breaker_reach :: "breaker \<Rightarrow> breaker \<times> nat \<Rightarrow> bool" for b0 where
  start: "breaker_reach b0 (b0, 0)"
| step: "breaker_reach b0 s \<Longrightarrow> breaker_step s s' \<Longrightarrow> breaker_reach b0 s'"

definition closed_below :: "breaker \<Rightarrow> bool" where
  "closed_below b \<longleftrightarrow> (br_state b = CLOSED \<longrightarrow> failureCount b < failureThreshold b) \<and>
     0 < failureThreshold b"

lemma closed_below_ops:
  assumes "closed_below b"
  shows "closed_below (snd (cb_admit now b))" "closed_below (cb_success b)" "closed_below (cb_failure now b)"
  using assms by (auto simp: closed_below_def breaker_defs)

lemma closed_below_step:
  "breaker_step s s' \<Longrightarrow> closed_below (fst s) \<Longrightarrow> closed_below (fst s')"
proof (induction rule: breaker_step.induct)
  case (admitted now b b' n)
  then show ?case using closed_below_ops(1) [of b now] by simp
next
  case (refused now b e b' n)
  then show ?case using closed_below_ops(1) [of b now] by simp
qed (simp_all add: closed_below_ops)

text \<open>
  However calls interleave, a closed breaker has counted fewer failures than its
  threshold, so the failure that reaches the threshold opens it.
\<close>

theorem breaker_closed_below_threshold:
  assumes "breaker_reach (new_breaker threshold resetMs name ms) (b, n)" and "0 < threshold"
  shows "br_state b = CLOSED \<longrightarrow> failureCount b < failureThreshold b"
proof -
  have "closed_below (fst s)" if "breaker_reach (new_breaker threshold resetMs name ms) s" for s
    using that
  proof induction
    case start
    then show ?case using assms(2) by (simp add: closed_below_def new_breaker_def cb_record_def)
  next
    case (step s s')
    then show ?case by (blast intro: closed_below_step)
  qed
  from this [OF assms(1)] show ?thesis by (simp add: closed_below_def)
qed

theorem breaker_closed_below_threshold_witness:
  "let b = cb_failure 100 (new_breaker 5 30000 None Map.empty) in
   br_state b = CLOSED \<longrightarrow> failureCount b < failureThreshold b"
proof -
  let ?b = "new_breaker 5 30000 None Map.empty"
  have "breaker_step (?b, 0) (?b, 0 + 1)"
    by (rule breaker_step.admitted [of 0]) (simp add: cb_admit_def new_breaker_def cb_record_def)
  then have "breaker_reach ?b (?b, 0 + 1)"
    by (rule breaker_reach.step [OF breaker_reach.start])
  then have "breaker_reach ?b (cb_failure 100 ?b, 0)"
    by (rule breaker_reach.step) (rule breaker_step.fails)
  then have "br_state (cb_failure 100 ?b) = CLOSED \<longrightarrow>
      failureCount (cb_failure 100 ?b) < failureThreshold (cb_failure 100 ?b)"
    by (rule breaker_closed_below_threshold) simp
  then show ?thesis by simp
qed

text \<open>The runs in which each call ends before the next begins.\<close>

fun run_calls :: "(int \<times> int \<times> (jsval + 'a)) list \<Rightarrow> breaker \<Rightarrow> breaker" where
  "run_calls [] b = b"
| "run_calls ((now, now', out) # cs) b = run_calls cs (snd (cb_call now now' out b))"

definition settled :: "breaker \<Rightarrow> bool" where
  "settled b \<longleftrightarrow> 0 < failureThreshold b \<and>
     (if br_state b = CLOSED then failureCount b < failureThreshold b
      else br_state b = OPEN \<and> failureThreshold b \<le> failureCount b)"

lemma settled_call: "settled b \<Longrightarrow> settled (snd (cb_call now now' out b))"
  by (cases out) (auto simp: settled_def breaker_defs split: if_splits)

lemma settled_run: "settled b \<Longrightarrow> settled (run_calls cs b)"
  by (induction cs b rule: run_calls.induct) (auto simp: settled_call)

text \<open>
  When calls do not overlap, a breaker is closed below its threshold or open at it; an
  open one refuses every call before the reset time without running the function and without
  changing, and after it one call decides: success closes the breaker, failure opens it again.
\<close>

theorem breaker_sequential:
  assumes "0 < threshold" and "b = run_calls cs (new_breaker threshold resetMs name ms)"
  shows "settled b \<and>
    (br_state b = OPEN \<longrightarrow>
      (if now - lastFailureTime b < resetTimeoutMs b then cb_call now now' out b = (Inl (cb_open_error b), b)
       else fst (cb_call now now' out b) = out \<and>
         br_state (snd (cb_call now now' out b)) = (case out of Inl e \<Rightarrow> OPEN | Inr a \<Rightarrow> CLOSED)))"
proof -
  have "settled (new_breaker threshold resetMs name ms)"
    using assms(1) by (simp add: settled_def new_breaker_def cb_record_def)
  then have s: "settled b" unfolding assms(2) by (rule settled_run)
  then show ?thesis
    by (cases out) (auto simp: settled_def breaker_defs split: if_splits)
qed

theorem breaker_sequential_witness:
  "let b = run_calls [(10, 11, Inl Null :: jsval + int), (20, 21, Inl Null)] (new_breaker 2 1000 None Map.empty)
   in br_state b = OPEN \<and> cb_call 500 501 (Inr (7::int)) b = (Inl (cb_open_error b), b)"
proof -
  let ?run = "run_calls [(10, 11, Inl Null :: jsval + int), (20, 21, Inl Null)] (new_breaker 2 1000 None Map.empty)"
  have b: "br_state ?run = OPEN" "lastFailureTime ?run = 21" "resetTimeoutMs ?run = 1000"
    by (simp_all add: new_breaker_def breaker_defs)
  from breaker_sequential [OF _ refl, of 2 "[(10, 11, Inl Null :: jsval + int), (20, 21, Inl Null)]" 1000 None Map.empty 500 501 "Inr (7::int)"] b
  show ?thesis by (simp add: Let_def del: run_calls.simps)
qed

text \<open>
  With overlapping calls the second half fails: a success that arrives while the breaker is
  open clears its failure count and its failure time, so the next call is let through at
  once, and a failure of that call leaves the breaker half open instead of opening it.
\<close>

theorem breaker_late_success:
  assumes "br_state b = OPEN" and "resetTimeoutMs b \<le> now" and "1 < failureThreshold b"
  shows "fst (cb_admit now (cb_success b)) = Inr () \<and>
    br_state (cb_failure now' (snd (cb_admit now (cb_success b)))) = HALF_OPEN"
  using assms by (auto simp: breaker_defs)

theorem breaker_late_success_witness:
  "\<exists>b n. breaker_reach (new_breaker 2 1000 None Map.empty) (b, n) \<and> br_state b = OPEN \<and>
    fst (cb_admit 2000 (cb_success b)) = Inr () \<and>
    br_state (cb_failure 2001 (snd (cb_admit 2000 (cb_success b)))) = HALF_OPEN"
proof -
  let ?init = "new_breaker 2 1000 None Map.empty"
  let ?b = "cb_failure 1950 (cb_failure 1940 ?init)"
  have adm: "cb_admit 0 ?init = (Inr (), ?init)" by (simp add: cb_admit_def new_breaker_def cb_record_def)
  note enter = breaker_reach.step [OF _ breaker_step.admitted [OF adm]]
  have "breaker_reach ?init (?init, ((0 + 1) + 1) + 1)"
    by (intro enter breaker_reach.start)
  then have "breaker_reach ?init (cb_failure 1940 ?init, (0 + 1) + 1)"
    by (rule breaker_reach.step) (rule breaker_step.fails)
  then have r: "breaker_reach ?init (?b, 0 + 1)"
    by (rule breaker_reach.step) (rule breaker_step.fails)
  have o: "br_state ?b = OPEN" "resetTimeoutMs ?b \<le> 2000" "1 < failureThreshold ?b"
    by (simp_all add: breaker_defs new_breaker_def)
  from r o(1) breaker_late_success [OF o] show ?thesis by blast
qed

end
