(* ===== verification/Tables.thy ===== *)
theory Tables
  imports Prelude
begin

text \<open>
  Database tables as lists of rows in insertion order, with the ORM calls the services make:
  \<open>findUnique\<close>/\<open>findFirst\<close> (\<open>find_row\<close>), \<open>updateMany\<close> with its count (\<open>update_rows\<close>, \<open>count_rows\<close>),
  \<open>upsert\<close> (\<open>upsert_row\<close>), \<open>deleteMany\<close> (\<open>delete_rows\<close>), aggregates
  (\<open>sum_rows\<close>) and ordered pages (\<open>order_desc\<close>). The locale \<open>keyed_table\<close> is the
  contract of a table with a unique key, which the projections and services rely on.
\<close>

section \<open>Operations\<close>

definition find_row :: "('r \<Rightarrow> bool) \<Rightarrow> 'r list \<Rightarrow> 'r option" where
  "find_row p xs = List.find p xs"

definition exists_row :: "('r \<Rightarrow> bool) \<Rightarrow> 'r list \<Rightarrow> bool" where
  "exists_row p xs = list_ex p xs"

definition update_rows :: "('r \<Rightarrow> bool) \<Rightarrow> ('r \<Rightarrow> 'r) \<Rightarrow> 'r list \<Rightarrow> 'r list" where
  "update_rows p f xs = map (\<lambda>r. if p r then f r else r) xs"

definition count_rows :: "('r \<Rightarrow> bool) \<Rightarrow> 'r list \<Rightarrow> nat" where
  "count_rows p xs = length (filter p xs)"

definition delete_rows :: "('r \<Rightarrow> bool) \<Rightarrow> 'r list \<Rightarrow> 'r list" where
  "delete_rows p xs = filter (\<lambda>r. \<not> p r) xs"

definition sum_rows :: "('r \<Rightarrow> bool) \<Rightarrow> ('r \<Rightarrow> int) \<Rightarrow> 'r list \<Rightarrow> int" where
  "sum_rows p f xs = sum_list (map f (filter p xs))"

definition find_by :: "('r \<Rightarrow> 'k) \<Rightarrow> 'k \<Rightarrow> 'r list \<Rightarrow> 'r option" where
  "find_by key k xs = find_row (\<lambda>r. key r = k) xs"

definition upsert_row :: "('r \<Rightarrow> 'k) \<Rightarrow> 'k \<Rightarrow> 'r \<Rightarrow> ('r \<Rightarrow> 'r) \<Rightarrow> 'r list \<Rightarrow> 'r list" where
  "upsert_row key k new f xs =
     (if exists_row (\<lambda>r. key r = k) xs then update_rows (\<lambda>r. key r = k) f xs else xs @ [new])"

definition unique_by :: "('r \<Rightarrow> 'k) \<Rightarrow> 'r list \<Rightarrow> bool" where
  "unique_by key xs = distinct (map key xs)"

text \<open>\<open>orderBy: desc\<close> on a sort key: a stable insertion sort, largest first.\<close>

definition order_desc :: "('r \<Rightarrow> 'k::linorder) \<Rightarrow> 'r list \<Rightarrow> 'r list" where
  "order_desc key xs = rev (sort_key key (rev xs))"

section \<open>Laws\<close>

lemma find_row_Some: "find_row p xs = Some r \<Longrightarrow> r \<in> set xs \<and> p r"
  by (auto simp: find_row_def find_Some_iff)

lemma find_row_None: "find_row p xs = None \<longleftrightarrow> (\<forall>r \<in> set xs. \<not> p r)"
  by (auto simp: find_row_def find_None_iff)

lemma find_row_Nil [simp]: "find_row p [] = None"
  by (simp add: find_row_def)

lemma find_row_Cons [simp]: "find_row p (x # xs) = (if p x then Some x else find_row p xs)"
  by (simp add: find_row_def)

lemma find_row_append: "find_row p (xs @ ys) = (case find_row p xs of None \<Rightarrow> find_row p ys | Some r \<Rightarrow> Some r)"
  by (induction xs) auto

lemma exists_row_find: "exists_row p xs \<longleftrightarrow> find_row p xs \<noteq> None"
  by (auto simp: exists_row_def find_row_None list_ex_iff)

lemma exists_row_iff: "exists_row p xs \<longleftrightarrow> (\<exists>r \<in> set xs. p r)"
  by (simp add: exists_row_def list_ex_iff)

lemma count_rows_0: "count_rows p xs = 0 \<longleftrightarrow> (\<forall>r \<in> set xs. \<not> p r)"
  by (simp add: count_rows_def filter_empty_conv)

lemma count_rows_Nil [simp]: "count_rows p [] = 0"
  by (simp add: count_rows_def)

lemma count_rows_Cons [simp]: "count_rows p (x # xs) = (if p x then Suc (count_rows p xs) else count_rows p xs)"
  by (simp add: count_rows_def)

lemma count_rows_append [simp]: "count_rows p (xs @ ys) = count_rows p xs + count_rows p ys"
  by (simp add: count_rows_def)

lemma update_rows_Nil [simp]: "update_rows p f [] = []"
  by (simp add: update_rows_def)

lemma update_rows_Cons [simp]: "update_rows p f (x # xs) = (if p x then f x else x) # update_rows p f xs"
  by (simp add: update_rows_def)

lemma update_rows_append [simp]: "update_rows p f (xs @ ys) = update_rows p f xs @ update_rows p f ys"
  by (simp add: update_rows_def)

lemma update_rows_none: "\<forall>r \<in> set xs. \<not> p r \<Longrightarrow> update_rows p f xs = xs"
  by (induction xs) auto

lemma update_rows_id [simp]: "update_rows p id xs = xs" "update_rows p (\<lambda>r. r) xs = xs"
  by (simp_all add: update_rows_def id_def)

lemma set_update_rows: "set (update_rows p f xs) = (\<lambda>r. if p r then f r else r) ` set xs"
  by (simp add: update_rows_def)

lemma length_update_rows [simp]: "length (update_rows p f xs) = length xs"
  by (simp add: update_rows_def)

lemma map_update_rows: "(\<And>r. p r \<Longrightarrow> g (f r) = g r) \<Longrightarrow> map g (update_rows p f xs) = map g xs"
  by (simp add: update_rows_def)

lemma update_rows_idem:
  "(\<And>r. p r \<Longrightarrow> f (f r) = f r) \<Longrightarrow> update_rows p f (update_rows p f xs) = update_rows p f xs"
  by (auto simp: update_rows_def)

lemma set_delete_rows: "set (delete_rows p xs) = {r \<in> set xs. \<not> p r}"
  by (simp add: delete_rows_def)

lemma delete_rows_Nil [simp]: "delete_rows p [] = []"
  by (simp add: delete_rows_def)

lemma delete_rows_Cons [simp]: "delete_rows p (x # xs) = (if p x then delete_rows p xs else x # delete_rows p xs)"
  by (simp add: delete_rows_def)

lemma sum_rows_Nil [simp]: "sum_rows p f [] = 0"
  by (simp add: sum_rows_def)

lemma sum_rows_Cons [simp]: "sum_rows p f (x # xs) = (if p x then f x + sum_rows p f xs else sum_rows p f xs)"
  by (simp add: sum_rows_def)

lemma sum_rows_append [simp]: "sum_rows p f (xs @ ys) = sum_rows p f xs + sum_rows p f ys"
  by (simp add: sum_rows_def)

lemma sum_rows_nonneg: "(\<And>r. r \<in> set xs \<Longrightarrow> p r \<Longrightarrow> 0 \<le> f r) \<Longrightarrow> 0 \<le> sum_rows p f xs"
  by (induction xs) auto

lemma set_order_desc [simp]: "set (order_desc key xs) = set xs"
  by (simp add: order_desc_def)

lemma length_order_desc [simp]: "length (order_desc key xs) = length xs"
  by (simp add: order_desc_def)

lemma sorted_order_desc: "sorted_wrt (\<lambda>a b. key b \<le> key a) (order_desc key xs)"
  unfolding order_desc_def sorted_wrt_rev
  by (metis sorted_map sorted_sort_key)

lemma distinct_order_desc [simp]: "distinct (order_desc key xs) = distinct xs"
  by (simp add: order_desc_def)

lemma unique_by_Nil [simp]: "unique_by key []"
  by (simp add: unique_by_def)

lemma unique_by_Cons [simp]: "unique_by key (x # xs) \<longleftrightarrow> key x \<notin> key ` set xs \<and> unique_by key xs"
  by (simp add: unique_by_def)

lemma unique_by_append_one:
  "unique_by key (xs @ [x]) \<longleftrightarrow> unique_by key xs \<and> key x \<notin> key ` set xs"
  by (auto simp: unique_by_def)

lemma unique_by_update:
  "(\<And>r. p r \<Longrightarrow> key (f r) = key r) \<Longrightarrow> unique_by key (update_rows p f xs) = unique_by key xs"
  by (simp add: unique_by_def map_update_rows)

lemma unique_by_delete: "unique_by key xs \<Longrightarrow> unique_by key (delete_rows p xs)"
  by (simp add: unique_by_def delete_rows_def distinct_map_filter)

lemma unique_by_eq:
  "unique_by key xs \<Longrightarrow> r \<in> set xs \<Longrightarrow> r' \<in> set xs \<Longrightarrow> key r = key r' \<Longrightarrow> r = r'"
  by (auto simp: unique_by_def distinct_map inj_on_def)

lemma find_by_Some: "find_by key k xs = Some r \<Longrightarrow> r \<in> set xs \<and> key r = k"
  by (auto simp: find_by_def dest: find_row_Some)

lemma find_by_None: "find_by key k xs = None \<longleftrightarrow> k \<notin> key ` set xs"
  by (auto simp: find_by_def find_row_None)

lemma find_by_update:
  "(\<And>r. p r \<Longrightarrow> key (f r) = key r) \<Longrightarrow>
   find_by key k (update_rows p f xs) = map_option (\<lambda>r. if p r then f r else r) (find_by key k xs)"
  by (induction xs) (auto simp: find_by_def)

lemma find_by_unique: "unique_by key xs \<Longrightarrow> r \<in> set xs \<Longrightarrow> find_by key (key r) xs = Some r"
  by (induction xs) (auto simp: find_by_def)

lemma count_rows_unique: "unique_by key xs \<Longrightarrow> count_rows (\<lambda>r. key r = k \<and> q r) xs \<le> 1"
proof (induction xs)
  case (Cons a xs)
  show ?case
  proof (cases "key a = k")
    case True
    with Cons.prems have "count_rows (\<lambda>r. key r = k \<and> q r) xs = 0"
      by (auto simp: count_rows_0 image_iff)
    then show ?thesis by simp
  next
    case False
    with Cons show ?thesis by simp
  qed
qed simp

text \<open>The totals of groups add up to the total of all rows.\<close>

lemma sum_list_pick: "distinct ks \<Longrightarrow> k \<in> set ks \<Longrightarrow> sum_list (map (\<lambda>a. (if k = a then c else 0) + S a) ks) = (c :: int) + sum_list (map S ks)"
proof (induction ks)
  case (Cons a ks)
  have none: "k \<notin> set ks \<Longrightarrow> sum_list (map (\<lambda>a. (if k = a then c else 0) + S a) ks) = sum_list (map S ks)"
    by (rule arg_cong [where f = sum_list]) auto
  show ?case
  proof (cases "k = a")
    case True
    with Cons.prems none show ?thesis by simp
  next
    case False
    with Cons show ?thesis by simp
  qed
qed simp

lemma sum_of_groups:
  assumes "distinct ks" and "g ` set (filter p rows) \<subseteq> set ks"
  shows "sum_list (map (\<lambda>a. sum_rows (\<lambda>t. g t = a \<and> p t) f rows) ks) = sum_rows p f rows"
  using assms(2)
proof (induction rows)
  case Nil
  show ?case by (induction ks) (simp_all add: sum_rows_def)
next
  case (Cons x rows)
  show ?case
  proof (cases "p x")
    case True
    have "(\<lambda>a. sum_rows (\<lambda>t. g t = a \<and> p t) f (x # rows)) =
        (\<lambda>a. (if g x = a then f x else 0) + sum_rows (\<lambda>t. g t = a \<and> p t) f rows)"
      using True by (simp add: fun_eq_iff sum_rows_def)
    moreover have "sum_rows p f (x # rows) = f x + sum_rows p f rows" using True by (simp add: sum_rows_def)
    ultimately show ?thesis
      using Cons True sum_list_pick [OF assms(1), of "g x" "f x"] by simp
  next
    case False
    with Cons show ?thesis by (simp add: sum_rows_def)
  qed
qed

section \<open>The contract of a table with a unique key\<close>

text \<open>
  \<open>keyed_table key upd\<close>: a table whose rows are looked up by \<open>key\<close>, and updates that
  never change the key. What a lookup returns after an upsert, and that every operation
  keeps the keys unique, is proved here once for every table of the store.
\<close>

locale keyed_table =
  fixes key :: "'r \<Rightarrow> 'k"
    and lookup :: "'k \<Rightarrow> 'r list \<Rightarrow> 'r option"
    and upsert :: "'k \<Rightarrow> 'r \<Rightarrow> ('r \<Rightarrow> 'r) \<Rightarrow> 'r list \<Rightarrow> 'r list"
  assumes lookup_find: "lookup k xs = find_by key k xs"
    and upsert_eq: "upsert k new f xs = upsert_row key k new f xs"
begin

lemma lookup_upsert_same:
  assumes "key new = k" and "\<And>r. key r = k \<Longrightarrow> key (f r) = k"
  shows "lookup k (upsert k new f xs) =
    Some (case lookup k xs of None \<Rightarrow> new | Some r \<Rightarrow> f r)"
proof (cases "exists_row (\<lambda>r. key r = k) xs")
  case True
  have "find_row (\<lambda>r. key r = k) (update_rows (\<lambda>r. key r = k) f xs) =
    map_option f (find_row (\<lambda>r. key r = k) xs)"
    using assms(2) by (induction xs) auto
  with True show ?thesis
    by (auto simp: lookup_find upsert_eq upsert_row_def find_by_def exists_row_find)
next
  case False
  then show ?thesis
    using assms(1)
    by (auto simp: lookup_find upsert_eq upsert_row_def find_by_def exists_row_find find_row_append)
qed

lemma lookup_upsert_other:
  assumes "key new = k" and "\<And>r. key r = k \<Longrightarrow> key (f r) = k" and "k' \<noteq> k"
  shows "lookup k' (upsert k new f xs) = lookup k' xs"
proof -
  have "find_row (\<lambda>r. key r = k') (update_rows (\<lambda>r. key r = k) f xs) = find_row (\<lambda>r. key r = k') xs"
    using assms(2,3) by (induction xs) auto
  with assms(1,3) show ?thesis
    by (auto simp: lookup_find upsert_eq upsert_row_def find_by_def find_row_append split: option.splits)
qed

lemma upsert_unique:
  assumes "key new = k" and "\<And>r. key r = k \<Longrightarrow> key (f r) = k" and "unique_by key xs"
  shows "unique_by key (upsert k new f xs)"
proof -
  have "unique_by key (update_rows (\<lambda>r. key r = k) f xs)"
    using assms(2,3) by (subst unique_by_update) auto
  with assms(1,3) show ?thesis
    by (auto simp: upsert_eq upsert_row_def unique_by_append_one exists_row_iff)
qed

lemma upsert_twice:
  assumes "key new = k" and "f new = new" and "\<And>r. f (f r) = f r" and "\<And>r. key r = k \<Longrightarrow> key (f r) = k"
  shows "upsert k new f (upsert k new f xs) = upsert k new f xs"
proof (cases "exists_row (\<lambda>r. key r = k) xs")
  case True
  then have "exists_row (\<lambda>r. key r = k) (update_rows (\<lambda>r. key r = k) f xs)"
    using assms(4) by (auto simp: exists_row_iff set_update_rows)
  with True show ?thesis
    using assms(3,4) by (auto simp: upsert_eq upsert_row_def update_rows_def)
next
  case False
  then have none: "\<forall>r \<in> set xs. key r \<noteq> k"
    by (simp add: exists_row_iff)
  then have "exists_row (\<lambda>r. key r = k) (xs @ [new])"
    using assms(1) by (simp add: exists_row_iff)
  with False none show ?thesis
    using assms(1,2) by (auto simp: upsert_eq upsert_row_def update_rows_none)
qed

lemma upsert_again:
  assumes "key new = k" and "\<And>r. key r = k \<Longrightarrow> key (f r) = k"
    and "core (f' new) = core new" and "\<And>r. core (f' (f r)) = core (f r)"
  shows "map core (upsert k new' f' (upsert k new f xs)) = map core (upsert k new f xs)"
proof (cases "exists_row (\<lambda>r. key r = k) xs")
  case True
  then have "exists_row (\<lambda>r. key r = k) (update_rows (\<lambda>r. key r = k) f xs)"
    using assms(2) by (auto simp: exists_row_iff set_update_rows)
  with True show ?thesis
    using assms(2,4) by (auto simp: upsert_eq upsert_row_def update_rows_def)
next
  case False
  then have none: "\<forall>r \<in> set xs. key r \<noteq> k"
    by (simp add: exists_row_iff)
  then have "exists_row (\<lambda>r. key r = k) (xs @ [new])"
    using assms(1) by (simp add: exists_row_iff)
  with False none show ?thesis
    using assms(1,3) by (auto simp: upsert_eq upsert_row_def update_rows_none)
qed

lemma lookup_upsert_known:
  assumes "key new = k" and "\<And>r. key r = k \<Longrightarrow> key (f r) = k"
  shows "lookup k' (upsert k new f xs) \<noteq> None \<longleftrightarrow> k' = k \<or> lookup k' xs \<noteq> None"
  using lookup_upsert_same [where xs = xs and f = f, OF assms] lookup_upsert_other [where xs = xs and k' = k' and f = f, OF assms] by (cases "k' = k") auto

lemma length_upsert: "length (upsert k new f xs) \<le> Suc (length xs)"
  by (simp add: upsert_eq upsert_row_def)

end

lemma count_at_most_one:
  assumes "unique_by key xs" and "\<forall>s \<in> set xs. \<forall>t \<in> set xs. p s \<and> p t \<longrightarrow> key s = key t"
  shows "count_rows p xs \<le> 1"
  using assms
proof (induction xs)
  case (Cons x xs)
  show ?case
  proof (cases "p x")
    case True
    have "\<not> p t" if t: "t \<in> set xs" for t
    proof
      assume "p t"
      with True t have "key x = key t" using Cons.prems(2) by (meson list.set_intros)
      then have "key x \<in> key ` set xs" using t by (rule rev_image_eqI [rotated])
      then show False using Cons.prems(1) by simp
    qed
    then have "\<forall>t \<in> set xs. \<not> p t" by blast
    with True show ?thesis by (simp add: count_rows_0 [THEN iffD2])
  next
    case False
    have "unique_by key xs" using Cons.prems(1) by simp
    moreover have "\<forall>s \<in> set xs. \<forall>t \<in> set xs. p s \<and> p t \<longrightarrow> key s = key t"
      using Cons.prems(2) by (meson list.set_intros(2))
    ultimately have "count_rows p xs \<le> 1" by (rule Cons.IH)
    with False show ?thesis by simp
  qed
qed simp

lemma count_update_one:
  assumes "unique_by key xs" and "x \<in> set xs" and "\<not> p (f x)"
  shows "count_rows p (update_rows (\<lambda>t. key t = key x) f xs) + (if p x then 1 else 0) = count_rows p xs"
  using assms(1,2)
proof (induction xs)
  case (Cons y ys)
  show ?case
  proof (cases "x = y")
    case True
    then have "\<forall>t \<in> set ys. key t \<noteq> key x" using Cons.prems(1) by (force simp: image_iff)
    then have "update_rows (\<lambda>t. key t = key x) f ys = ys" by (rule update_rows_none)
    with True assms(3) show ?thesis by simp
  next
    case False
    then have "x \<in> set ys" using Cons.prems(2) by simp
    moreover from this have "key y \<noteq> key x" using Cons.prems(1) by (auto simp: image_iff)
    ultimately show ?thesis using Cons.IH Cons.prems(1) by simp
  qed
qed simp

lemma find_unique:
  assumes "unique_by key xs" and "x \<in> set xs"
  shows "find_by key (key x) xs = Some x"
  using assms by (induction xs) (auto simp: find_by_def image_iff)

end
