(* ===== verification/Store.thy ===== *)
theory Store
  imports Tables Errors
begin

text \<open>
  The shared state of the services: the tables of the relational store they use
  (\<open>backend/prisma/schema.prisma\<close> and the columns the code reads and writes), the rate-limit counters of
  the cache, the messages handed to the realtime layer, and the source of generated row ids. Every table is a list of
  rows in insertion order. A date is its milliseconds since the epoch; column widths and the
  range of dates are not modelled. Reads of the models in \<open>SOFT_DELETE_MODELS\<close> skip rows with
  a deletion date (\<open>db/softDelete.ts\<close>): the lookups named \<open>live_\<close> do so.
\<close>

section \<open>Rows\<close>

record user_row =
  u_id :: string
  u_address :: string
  u_username :: "string option"
  u_role :: string
  u_scopes :: "string list"
  u_createdAt :: int
  u_deletedAt :: "int option"
  u_deactivatedAt :: "int option"
  u_blockedAt :: "int option"
  u_flagged :: bool
  u_displayName :: "string option"
  u_bio :: "string option"
  u_imageUrl :: "string option"
  u_avatarCid :: "string option"
  u_xHandle :: "string option"

datatype TipStatus = CONFIRMED | PENDING | REFUNDED

record tip_row =
  tip_id :: string
  tip_txHash :: string
  tip_ledger :: int
  tip_from :: string
  tip_to :: string
  tip_amount :: int
  tip_message :: "string option"
  tip_status :: TipStatus
  tip_createdAt :: int
  tip_networkFee :: int
  tip_tokenCode :: string
  tip_recipientId :: "string option"

record refund_row =
  rf_id :: string
  rf_tipId :: string
  rf_amount :: int
  rf_reason :: string
  rf_status :: string
  rf_txHash :: "string option"
  rf_createdAt :: int

datatype GoalStatus = GActive | GCompleted | GCancelled | GExpired

record goal_row =
  g_id :: string
  g_userId :: string
  g_title :: string
  g_target :: int
  g_raised :: int
  g_deadline :: "int option"
  g_status :: GoalStatus
  g_version :: int
  g_deletedAt :: "int option"

datatype SubscriptionInterval = DAILY | WEEKLY | MONTHLY

datatype SubscriptionStatus = ACTIVE | PAUSED | CANCELLED | EXPIRED | PAST_DUE | FAILED

record subscription_row =
  s_id :: string
  s_tipperId :: string
  s_creatorId :: string
  s_amount :: int
  s_interval :: SubscriptionInterval
  s_nextChargeAt :: int
  s_status :: SubscriptionStatus
  s_pendingAmount :: "int option"
  s_pendingInterval :: "SubscriptionInterval option"
  s_changeEffectiveAt :: "int option"
  s_failureCount :: int
  s_dunningStartedAt :: "int option"
  s_nextRetryAt :: "int option"
  s_failureReason :: "string option"
  s_attemptStartedAt :: "int option"
  s_createdAt :: int
  s_deletedAt :: "int option"

record event_row =
  el_topic :: string
  el_ledger :: int
  el_txHash :: string
  el_data :: jsval

record checkpoint_row =
  cp_topic :: string
  cp_ledger :: int
  cp_hash :: string

record notification_row =
  n_id :: string
  n_userId :: string
  n_type :: string
  n_payload :: jsval
  n_readAt :: "int option"
  n_createdAt :: int
  n_deletedAt :: "int option"

record preference_row =
  p_userId :: string
  p_tipReceived :: bool
  p_goalReached :: bool
  p_subscriptionCharged :: bool
  p_payoutFailed :: bool
  p_batchingEnabled :: bool
  p_batchingWindow :: int
  p_updatedAt :: int

record batch_row =
  b_id :: string
  b_userId :: string
  b_type :: string
  b_token :: string
  b_count :: int
  b_total :: int
  b_dueAt :: int

datatype NotificationChannel = InApp | Email | Push

datatype NotificationDeliveryStatus = Queued | Sent | Delivered | Failed | Bounced

record delivery_row =
  dl_id :: string
  dl_userId :: string
  dl_notificationId :: "string option"
  dl_channel :: NotificationChannel
  dl_status :: NotificationDeliveryStatus
  dl_reason :: "string option"

record channel_row =
  ch_key :: "string \<times> NotificationChannel"
  ch_failures :: int
  ch_disabledAt :: "int option"

record score_row =
  sc_userId :: string
  sc_value :: int
  sc_computedAt :: int

record history_row =
  h_id :: string
  h_userId :: string
  h_value :: int
  h_computedAt :: int

record streak_row =
  st_userId :: string
  st_current :: int
  st_longest :: int
  st_lastTip :: "int option"
  st_version :: int

record analytics_row =
  an_date :: int
  an_tips :: int
  an_volume :: int
  an_newUsers :: int
  an_activeUsers :: int
  an_version :: int

datatype WithdrawalStatus = WPending | WConfirmed | WFailed

record withdrawal_row =
  wd_id :: string
  wd_userId :: string
  wd_amount :: int
  wd_fee :: int
  wd_txHash :: "string option"
  wd_status :: WithdrawalStatus
  wd_requestedAt :: int
  wd_confirmedAt :: "int option"

datatype PayoutCadence = Manual | Daily | Weekly | Monthly

datatype PayoutStatus = Success | Failure | Skipped

record schedule_row =
  ps_id :: string
  ps_userId :: string
  ps_enabled :: bool
  ps_threshold :: int
  ps_cadence :: PayoutCadence
  ps_paused :: bool
  ps_failures :: int
  ps_nextRunAt :: int
  ps_lastRunAt :: "int option"
  ps_lastStatus :: "PayoutStatus option"

datatype WebhookStatus = WActive | WDisabled

record webhook_row =
  wh_id :: string
  wh_ownerId :: string
  wh_url :: string
  wh_secret :: string
  wh_status :: WebhookStatus
  wh_deletedAt :: "int option"
  wh_events :: "string list"
  wh_previousSecret :: "string option"
  wh_previousSecretExpiresAt :: "int option"
  wh_createdAt :: int

datatype WebhookDeliveryStatus = DPending | DSuccess | DFailed

record webhook_delivery_row =
  wdl_id :: string
  wdl_subscriptionId :: string
  wdl_status :: WebhookDeliveryStatus
  wdl_responseCode :: "int option"
  wdl_attempts :: int
  wdl_nextAttemptAt :: "int option"
  wdl_createdAt :: int

record webhook_attempt_row =
  wa_key :: "string \<times> int"
  wa_responseCode :: "int option"
  wa_excerpt :: "string option"
  wa_error :: "string option"

record challenge_row =
  ac_id :: string
  ac_address :: string
  ac_challenge :: string
  ac_network :: string
  ac_expiresAt :: int
  ac_usedAt :: "int option"

record token_row =
  tk_id :: string
  tk_userId :: string
  tk_hash :: string
  tk_sessionId :: string
  tk_familyId :: "string option"
  tk_expiresAt :: int
  tk_revokedAt :: "int option"
  tk_lastUsedAt :: "int option"

record apikey_row =
  ak_id :: string
  ak_hashedKey :: string
  ak_previousHashedKey :: "string option"
  ak_previousGraceExpiresAt :: "int option"
  ak_scopes :: "string list"
  ak_createdById :: string
  ak_expiresAt :: "int option"
  ak_lastUsedAt :: "int option"
  ak_createdAt :: int
  ak_deletedAt :: "int option"

text \<open>The audit trail as the services write it.\<close>

record audit_row =
  au_id :: string
  au_actor :: string
  au_action :: string
  au_target :: "string option"
  au_metadata :: jsval
  au_createdAt :: int

record dead_letter_row =
  dj_queue :: string
  dj_jobId :: "string option"
  dj_jobName :: string
  dj_data :: jsval
  dj_failedReason :: string
  dj_attemptsMade :: nat

datatype Period = P_WEEKLY | P_MONTHLY | P_ALL_TIME

record snapshot_row =
  sn_period :: Period
  sn_rank :: nat
  sn_userId :: string
  sn_totalTips :: int

text \<open>A job of the delivery queue.\<close>

record webhook_job =
  wj_deliveryId :: string
  wj_subscriptionId :: string
  wj_url :: string
  wj_payload :: jsval
  wj_secret :: "string option"

section \<open>The database\<close>

record db =
  users :: "user_row list"
  tips :: "tip_row list"
  refunds :: "refund_row list"
  goals :: "goal_row list"
  subscriptions :: "subscription_row list"
  eventLog :: "event_row list"
  cursors :: "(string \<times> int) list"
  checkpoints :: "checkpoint_row list"
  notifications :: "notification_row list"
  preferences :: "preference_row list"
  batches :: "batch_row list"
  deliveries :: "delivery_row list"
  channels :: "channel_row list"
  scores :: "score_row list"
  histories :: "history_row list"
  streaks :: "streak_row list"
  analytics :: "analytics_row list"
  withdrawals :: "withdrawal_row list"
  schedules :: "schedule_row list"
  webhooks :: "webhook_row list"
  webhookDeliveries :: "webhook_delivery_row list"
  webhookAttempts :: "webhook_attempt_row list"
  challenges :: "challenge_row list"
  tokens :: "token_row list"
  rateCounters :: "(string \<times> int) list"
  emitted :: "notification_row list"
  published :: "(string \<times> int \<times> string) list"
  roomEvents :: "(string \<times> string \<times> string) list"
  unknownEvents :: nat
  nextId :: nat
  apiKeys :: "apikey_row list"
  audits :: "audit_row list"
  deadLetters :: "dead_letter_row list"
  snapshots :: "snapshot_row list"
  webhookJobs :: "webhook_job list"
  profileCache :: "(string \<times> int \<times> jsval) list"

type_synonym 'a dbio = "(db, jsval, 'a) io"

definition empty_db :: db where
  "empty_db = \<lparr>users = [], tips = [], refunds = [], goals = [], subscriptions = [], eventLog = [],
     cursors = [], checkpoints = [], notifications = [], preferences = [], batches = [],
     deliveries = [], channels = [], scores = [], histories = [], streaks = [], analytics = [],
     withdrawals = [], schedules = [], webhooks = [], webhookDeliveries = [], webhookAttempts = [],
     challenges = [], tokens = [], rateCounters = [], emitted = [], published = [], roomEvents = [], unknownEvents = 0, nextId = 0,
     apiKeys = [], audits = [], deadLetters = [], snapshots = [], webhookJobs = [], profileCache = []\<rparr>"

text \<open>
  The clock reading of an operation, the generator of row ids, and whether the realtime
  broker answers.
\<close>

record runtime =
  rt_now :: int
  rt_cuid :: "nat \<Rightarrow> string"
  rt_broker :: bool

definition fresh_id :: "runtime \<Rightarrow> string dbio" where
  "fresh_id rt = (\<lambda>d. (Inr (rt_cuid rt (nextId d)), d\<lparr>nextId := nextId d + 1\<rparr>))"

lemma fresh_id_run [simp]: "fresh_id rt d = (Inr (rt_cuid rt (nextId d)), d\<lparr>nextId := nextId d + 1\<rparr>)"
  by (simp add: fresh_id_def)

lemma fresh_id_bnd [simp]: "bnd (fresh_id rt) f d = f (rt_cuid rt (nextId d)) (d\<lparr>nextId := nextId d + 1\<rparr>)"
  by (simp add: bnd_def)

section \<open>Lookups\<close>

definition live_user :: "(user_row \<Rightarrow> bool) \<Rightarrow> db \<Rightarrow> user_row option" where
  "live_user p d = find_row (\<lambda>u. p u \<and> u_deletedAt u = None) (users d)"

definition user_by_id :: "string \<Rightarrow> db \<Rightarrow> user_row option" where
  "user_by_id i d = live_user (\<lambda>u. u_id u = i) d"

definition user_by_address :: "string \<Rightarrow> db \<Rightarrow> user_row option" where
  "user_by_address a d = live_user (\<lambda>u. u_address u = a) d"

definition tip_by_hash :: "string \<Rightarrow> db \<Rightarrow> tip_row option" where
  "tip_by_hash h d = find_by tip_txHash h (tips d)"

definition live_goal :: "string \<Rightarrow> db \<Rightarrow> goal_row option" where
  "live_goal i d = find_row (\<lambda>g. g_id g = i \<and> g_deletedAt g = None) (goals d)"

definition live_subscription :: "string \<Rightarrow> db \<Rightarrow> subscription_row option" where
  "live_subscription i d = find_row (\<lambda>s. s_id s = i \<and> s_deletedAt s = None) (subscriptions d)"

definition cursor_of :: "string \<Rightarrow> db \<Rightarrow> int option" where
  "cursor_of t d = map_option snd (find_by fst t (cursors d))"

lemmas lookup_defs = user_by_id_def user_by_address_def live_user_def tip_by_hash_def live_goal_def
  live_subscription_def cursor_of_def

lemma live_user_Some: "live_user p d = Some u \<Longrightarrow> u \<in> set (users d) \<and> p u \<and> u_deletedAt u = None"
  by (auto simp: live_user_def dest: find_row_Some)

section \<open>Dates and text\<close>

text \<open>
  \<open>toISOString\<close>: the civil date of a day count (days since 1970-01-01) and the zero-padded
  fields of a UTC time.
\<close>

definition civil_date :: "int \<Rightarrow> int \<times> int \<times> int" where
  "civil_date days =
     (let z = days + 719468;
          era = z div 146097;
          doe = z mod 146097;
          yoe = (doe - doe div 1460 + doe div 36524 - doe div 146096) div 365;
          doy = doe - (365 * yoe + yoe div 4 - yoe div 100);
          mp = (5 * doy + 2) div 153;
          day = doy - (153 * mp + 2) div 5 + 1;
          month = (if mp < 10 then mp + 3 else mp - 9);
          year = yoe + era * 400 + (if month \<le> 2 then 1 else 0)
      in (year, month, day))"

definition pad_left :: "nat \<Rightarrow> string \<Rightarrow> string" where
  "pad_left n s = replicate (n - length s) (CHR ''0'') @ s"

definition iso_year :: "int \<Rightarrow> string" where
  "iso_year y =
     (if 0 \<le> y \<and> y \<le> 9999 then pad_left 4 (show_int y)
      else if y < 0 then ''-'' @ pad_left 6 (show_int (- y))
      else ''+'' @ pad_left 6 (show_int y))"

definition DAY_MS :: int where
  "DAY_MS = 86400000"

definition iso_day :: "int \<Rightarrow> string" where
  "iso_day t = (case civil_date (t div DAY_MS) of (y, m, dd) \<Rightarrow>
     iso_year y @ ''-'' @ pad_left 2 (show_int m) @ ''-'' @ pad_left 2 (show_int dd))"

definition iso_string :: "int \<Rightarrow> string" where
  "iso_string t =
     (let ms = t mod DAY_MS
      in iso_day t @ ''T'' @ pad_left 2 (show_int (ms div 3600000)) @ '':''
         @ pad_left 2 (show_int (ms div 60000 mod 60)) @ '':''
         @ pad_left 2 (show_int (ms div 1000 mod 60)) @ ''.'' @ pad_left 3 (show_int (ms mod 1000)) @ ''Z'')"

definition hex_digit :: "nat \<Rightarrow> char" where
  "hex_digit n = (if n < 10 then digit_char n else char_of (87 + n))"

text \<open>\<open>JSON.stringify\<close> of a string and of an array of strings.\<close>

definition json_char :: "char \<Rightarrow> string" where
  "json_char c =
     (let n = char_code c in
      if n = 34 then [CHR 0x5C, c]
      else if n = 92 then [CHR 0x5C, c]
      else if n = 8 then [CHR 0x5C, CHR ''b'']
      else if n = 9 then [CHR 0x5C, CHR ''t'']
      else if n = 10 then [CHR 0x5C, CHR ''n'']
      else if n = 12 then [CHR 0x5C, CHR ''f'']
      else if n = 13 then [CHR 0x5C, CHR ''r'']
      else if n < 32 then [CHR 0x5C, CHR ''u'', CHR ''0'', CHR ''0'', hex_digit (n div 16), hex_digit (n mod 16)]
      else [c])"

definition json_string :: "string \<Rightarrow> string" where
  "json_string s = [CHR 0x22] @ concat (map json_char s) @ [CHR 0x22]"

fun join :: "string \<Rightarrow> string list \<Rightarrow> string" where
  "join sep [] = []"
| "join sep [s] = s"
| "join sep (s # ss) = s @ sep @ join sep ss"

definition json_strings :: "string list \<Rightarrow> string" where
  "json_strings ss = ''['' @ join '','' (map json_string ss) @ '']''"

lemma iso_string_epoch: "iso_string 0 = ''1970-01-01T00:00:00.000Z''"
  by code_simp

lemma iso_string_leap_day: "iso_string 1709208000123 = ''2024-02-29T12:00:00.123Z''"
  by code_simp

section \<open>The keyed tables of the store\<close>

interpretation users_by_address: keyed_table u_address "find_by u_address" "upsert_row u_address"
  by unfold_locales simp_all

interpretation goals_by_id: keyed_table g_id "find_by g_id" "upsert_row g_id"
  by unfold_locales simp_all

interpretation subscriptions_by_id: keyed_table s_id "find_by s_id" "upsert_row s_id"
  by unfold_locales simp_all

interpretation cursors_by_topic: keyed_table fst "find_by fst" "upsert_row fst"
  by unfold_locales simp_all

interpretation scores_by_user: keyed_table sc_userId "find_by sc_userId" "upsert_row sc_userId"
  by unfold_locales simp_all

interpretation histories_by_id: keyed_table h_id "find_by h_id" "upsert_row h_id"
  by unfold_locales simp_all

interpretation refunds_by_tip: keyed_table rf_tipId "find_by rf_tipId" "upsert_row rf_tipId"
  by unfold_locales simp_all

interpretation batches_by_id: keyed_table b_id "find_by b_id" "upsert_row b_id"
  by unfold_locales simp_all

text \<open>The unique keys of the schema that the services rely on.\<close>

definition keys_ok :: "db \<Rightarrow> bool" where
  "keys_ok d \<longleftrightarrow> unique_by u_address (users d) \<and> unique_by tip_txHash (tips d) \<and>
     unique_by rf_tipId (refunds d) \<and> unique_by g_id (goals d) \<and> unique_by s_id (subscriptions d) \<and>
     unique_by sc_userId (scores d) \<and> unique_by h_id (histories d)"

lemma keys_ok_empty: "keys_ok empty_db"
  by (simp add: keys_ok_def empty_db_def)

end
