(* ===== verification/Cursor.thy ===== *)
theory Cursor
  imports Errors Tables "HOL-Library.List_Lexorder" "HOL-Library.Char_ord" "HOL-Library.Product_Lexorder"
begin

text \<open>
  Signed keyset pagination (\<open>backend/src/common/pagination/cursor.ts\<close>). The platform's
  base64url codec, HMAC and JSON text of a payload are the fields of \<open>codec\<close>, a parameter of
  every function; \<open>payload_of_json\<close> is \<open>JSON.parse\<close> followed by the schema check and gives
  \<open>None\<close> where either throws. A position is a timestamp in milliseconds and a row id,
  compared as the database does: by timestamp, then by id.
\<close>

section \<open>Cursors\<close>

record cursor_payload =
  pl_scope :: string
  pl_sort :: int
  pl_id :: string

record codec =
  b64 :: "string \<Rightarrow> string"
  unb64 :: "string \<Rightarrow> string"
  hmac :: "string \<Rightarrow> string"
  json_of_payload :: "cursor_payload \<Rightarrow> string"
  payload_of_json :: "string \<Rightarrow> cursor_payload option"

type_synonym position = "int \<times> string"

definition invalidCursor :: jsval where
  "invalidCursor = bad_request ''Invalid pagination cursor''"

text \<open>
  The filters of a listing, sorted by name, make its scope. \<open>le\<close> is the collation of
  \<open>localeCompare\<close> and \<open>json\<close> the JSON text of the sorted pairs.
\<close>

fun insert_entry :: "(string \<Rightarrow> string \<Rightarrow> bool) \<Rightarrow> string \<times> jsval \<Rightarrow> (string \<times> jsval) list \<Rightarrow> (string \<times> jsval) list" where
  "insert_entry le e [] = [e]"
| "insert_entry le e (x # xs) = (if le (fst e) (fst x) then e # x # xs else x # insert_entry le e xs)"

definition normalized_filters :: "(string \<Rightarrow> string \<Rightarrow> bool) \<Rightarrow> (string \<times> jsval) list \<Rightarrow> (string \<times> jsval) list" where
  "normalized_filters le fs = foldr (insert_entry le) (filter (\<lambda>e. snd e \<noteq> Undefined) fs) []"

definition createCursorScope ::
  "(string \<Rightarrow> string \<Rightarrow> bool) \<Rightarrow> ((string \<times> jsval) list \<Rightarrow> string) \<Rightarrow> string \<Rightarrow> (string \<times> jsval) list \<Rightarrow> string" where
  "createCursorScope le json resource fs = resource @ '':'' @ json (normalized_filters le fs)"

definition encodeCursor :: "codec \<Rightarrow> position \<Rightarrow> string \<Rightarrow> string" where
  "encodeCursor c p scope =
     (let payload = \<lparr>pl_scope = scope, pl_sort = fst p, pl_id = snd p\<rparr>;
          encoded = b64 c (json_of_payload c payload)
      in encoded @ ''.'' @ b64 c (hmac c encoded))"

definition decodeCursor :: "codec \<Rightarrow> string \<Rightarrow> string \<Rightarrow> jsval + position" where
  "decodeCursor c cursor expectedScope =
     (case split_on (CHR ''.'') cursor of
        [p0, p1] \<Rightarrow>
          (if p0 = [] \<or> p1 = [] then Inl invalidCursor
           else
             let supplied = unb64 c p1; expected = hmac c p0 in
             if b64 c supplied \<noteq> p1 \<or> length supplied \<noteq> length expected \<or> supplied \<noteq> expected
             then Inl invalidCursor
             else (case payload_of_json c (unb64 c p0) of
                 None \<Rightarrow> Inl invalidCursor
               | Some payload \<Rightarrow>
                   if pl_scope payload \<noteq> expectedScope then Inl invalidCursor
                   else Inr (pl_sort payload, pl_id payload)))
      | _ \<Rightarrow> Inl invalidCursor)"

text \<open>The descending boundary: a row passes when its position is strictly below the cursor's.\<close>

definition descendingCursorCondition :: "codec \<Rightarrow> string option \<Rightarrow> string \<Rightarrow> jsval + (position \<Rightarrow> bool) option" where
  "descendingCursorCondition c cursor scope =
     (if cursor = None \<or> cursor = Some [] then Inr None
      else (case decodeCursor c (the cursor) scope of
          Inl e \<Rightarrow> Inl e
        | Inr (sv, i) \<Rightarrow> Inr (Some (\<lambda>(s, j). s < sv \<or> (s = sv \<and> j < i)))))"

definition toCursorPage ::
  "codec \<Rightarrow> 'r list \<Rightarrow> nat \<Rightarrow> string \<Rightarrow> ('r \<Rightarrow> position) \<Rightarrow> 'r list \<times> string option" where
  "toCursorPage c rows limit scope pos =
     (let hasMore = length rows > limit;
          data = (if hasMore then take limit rows else rows)
      in (data, if hasMore \<and> data \<noteq> [] then Some (encodeCursor c (pos (last data)) scope) else None))"

text \<open>
  The listing every service builds from these: the rows of the base condition below the
  cursor, newest first, one more than the limit, cut to a page.
\<close>

definition keyset_page ::
  "codec \<Rightarrow> 'r list \<Rightarrow> ('r \<Rightarrow> bool) \<Rightarrow> ('r \<Rightarrow> position) \<Rightarrow> nat \<Rightarrow> string option \<Rightarrow> nat option \<Rightarrow> string
   \<Rightarrow> jsval + ('r list \<times> string option)" where
  "keyset_page c rows base pos limit cursor offset scope =
     (case descendingCursorCondition c cursor scope of
        Inl e \<Rightarrow> Inl e
      | Inr cond \<Rightarrow>
          (let selected = filter (\<lambda>r. base r \<and> (case cond of None \<Rightarrow> True | Some q \<Rightarrow> q (pos r))) rows;
               ordered = order_desc pos selected;
               skipped = (case offset of None \<Rightarrow> ordered | Some n \<Rightarrow> drop n ordered)
           in Inr (toCursorPage c (take (limit + 1) skipped) limit scope pos)))"

section \<open>Round trip and rejection\<close>

lemma split_on_plain: "d \<notin> set s \<Longrightarrow> split_on d s = [s]"
  by (induction s) auto

lemma split_on_sep: "d \<notin> set a \<Longrightarrow> split_on d (a @ d # b) = a # split_on d b"
  by (induction a) auto

text \<open>What the code relies on from the codec at one position: documented base64url and JSON round trips.\<close>

definition codec_ok :: "codec \<Rightarrow> string \<Rightarrow> position \<Rightarrow> bool" where
  "codec_ok c scope p \<longleftrightarrow>
     (let payload = \<lparr>pl_scope = scope, pl_sort = fst p, pl_id = snd p\<rparr>;
          body = b64 c (json_of_payload c payload); sig = b64 c (hmac c body)
      in body \<noteq> [] \<and> sig \<noteq> [] \<and> CHR ''.'' \<notin> set body \<and> CHR ''.'' \<notin> set sig \<and>
         unb64 c body = json_of_payload c payload \<and> unb64 c sig = hmac c body \<and>
         payload_of_json c (json_of_payload c payload) = Some payload)"

lemma decode_encode:
  assumes "codec_ok c scope p"
  shows "decodeCursor c (encodeCursor c p scope) scope' =
    (if scope = scope' then Inr p else Inl invalidCursor)"
  using assms
  by (auto simp: codec_ok_def encodeCursor_def decodeCursor_def Let_def split_on_sep split_on_plain)

text \<open>
  A cursor decodes to the position it was made from under the scope it was made for, and
  is refused as an invalid cursor under every other scope (another listing, filter or user).
\<close>

theorem cursor_roundtrip_and_scope:
  assumes "codec_ok c scope p"
  shows "decodeCursor c (encodeCursor c p scope) scope = Inr p \<and>
    (scope' \<noteq> scope \<longrightarrow> decodeCursor c (encodeCursor c p scope) scope' = Inl invalidCursor)"
  using decode_encode [OF assms] by auto

text \<open>
  A cursor is accepted only when its second part is the signature of its first part: any
  other signature, or a missing part, is refused, whatever the payload says.
\<close>

theorem cursor_needs_signature:
  assumes "decodeCursor c cursor scope = Inr p"
  shows "\<exists>body sig. split_on (CHR ''.'') cursor = [body, sig] \<and> body \<noteq> [] \<and>
    sig = b64 c (hmac c body) \<and>
    (\<exists>payload. payload_of_json c (unb64 c body) = Some payload \<and> pl_scope payload = scope)"
proof -
  obtain p0 p1 where parts: "split_on (CHR ''.'') cursor = [p0, p1]"
    using assms by (auto simp: decodeCursor_def split: list.splits)
  then show ?thesis
    using assms by (auto simp: decodeCursor_def Let_def split: if_splits option.splits)
qed

section \<open>Walking the pages\<close>

fun walk_pages :: "(string option \<Rightarrow> jsval + ('r list \<times> string option)) \<Rightarrow> nat \<Rightarrow> string option \<Rightarrow> 'r list option" where
  "walk_pages fetch 0 cursor = None"
| "walk_pages fetch (Suc n) cursor =
     (case fetch cursor of
        Inl e \<Rightarrow> None
      | Inr (page, next) \<Rightarrow>
          (case next of None \<Rightarrow> Some page
           | Some cu \<Rightarrow> map_option (\<lambda>rest. page @ rest) (walk_pages fetch n (Some cu))))"

lemma order_desc_filter: "order_desc pos (filter P rows) = filter P (order_desc pos rows)"
  by (simp add: order_desc_def filter_sort rev_filter [symmetric])

lemma strict_sorted_wrt:
  fixes pos :: "'r \<Rightarrow> 'k::linorder"
  shows "sorted_wrt (\<lambda>a b. pos b \<le> pos a) xs \<Longrightarrow> distinct (map pos xs) \<Longrightarrow>
    sorted_wrt (\<lambda>a b. pos b < pos a) xs"
proof (induction xs)
  case (Cons a xs)
  then have "pos x < pos a" if "x \<in> set xs" for x
    using that by (simp add: order.strict_iff_order) (metis image_eqI)
  with Cons show ?case by simp
qed simp

lemma strictly_desc:
  fixes pos :: "'r \<Rightarrow> 'k::linorder"
  assumes "distinct (map pos rows)"
  shows "sorted_wrt (\<lambda>a b. pos b < pos a) (order_desc pos rows)"
  using assms by (intro strict_sorted_wrt sorted_order_desc) (simp add: distinct_map)

text \<open>Below the last row of a page of a strictly descending list lie exactly the rows after it.\<close>

lemma filter_below_last:
  fixes pos :: "'r \<Rightarrow> 'k::linorder"
  assumes "sorted_wrt (\<lambda>a b. pos b < pos a) (xs @ ys)" and "xs \<noteq> []"
  shows "filter (\<lambda>r. pos r < pos (last xs)) (xs @ ys) = ys"
proof -
  obtain as a where xs: "xs = as @ [a]"
    using assms(2) by (cases xs rule: rev_cases) auto
  have "\<not> pos r < pos a" if "r \<in> set as" for r
  proof -
    have "pos a < pos r" using assms(1) that by (simp add: xs sorted_wrt_append)
    then show ?thesis by (simp add: not_less less_imp_le)
  qed
  moreover have "pos r < pos a" if "r \<in> set ys" for r
  proof -
    have "\<forall>x \<in> set xs. \<forall>y \<in> set ys. pos y < pos x"
      using assms(1) unfolding sorted_wrt_append by blast
    with that show ?thesis by (simp add: xs)
  qed
  ultimately show ?thesis
    by (simp add: xs filter_empty_conv filter_id_conv)
qed

lemma keyset_first:
  "keyset_page c rows base pos limit None None scope =
     Inr (toCursorPage c (take (limit + 1) (order_desc pos (filter base rows))) limit scope pos)"
  by (simp add: keyset_page_def descendingCursorCondition_def)

lemma keyset_next:
  assumes "codec_ok c scope q"
  shows "keyset_page c rows base pos limit (Some (encodeCursor c q scope)) None scope =
     Inr (toCursorPage c (take (limit + 1) (filter (\<lambda>r. pos r < q) (order_desc pos (filter base rows))))
       limit scope pos)"
proof -
  have "encodeCursor c q scope \<noteq> []"
    by (simp add: encodeCursor_def Let_def)
  then have "descendingCursorCondition c (Some (encodeCursor c q scope)) scope =
      Inr (Some (\<lambda>(s, j). s < fst q \<or> (s = fst q \<and> j < snd q)))"
    by (simp add: descendingCursorCondition_def decode_encode [OF assms] case_prod_unfold)
  moreover have "(\<lambda>(s, j). s < fst q \<or> (s = fst q \<and> j < snd q)) = (\<lambda>p. p < q)"
    by (auto simp: fun_eq_iff less_prod_def)
  ultimately show ?thesis
    by (simp add: keyset_page_def order_desc_filter [symmetric] conj_commute)
qed

lemma page_cut:
  assumes "0 < limit"
  shows "toCursorPage c (take (limit + 1) ys) limit scope pos =
    (take limit ys, if limit < length ys then Some (encodeCursor c (pos (last (take limit ys))) scope) else None)"
  using assms by (auto simp: toCursorPage_def Let_def min_def)

lemma walk_suffix:
  fixes pos :: "'r \<Rightarrow> position"
  assumes L: "L = order_desc pos (filter base rows)"
    and strict: "sorted_wrt (\<lambda>a b. pos b < pos a) L"
    and ok: "\<And>r. r \<in> set L \<Longrightarrow> codec_ok c scope (pos r)"
    and limit: "0 < limit"
  shows "xs @ ys = L \<Longrightarrow> xs \<noteq> [] \<Longrightarrow> length ys < fuel \<Longrightarrow>
    walk_pages (\<lambda>cu. keyset_page c rows base pos limit cu None scope) fuel
      (Some (encodeCursor c (pos (last xs)) scope)) = Some ys"
proof (induction fuel arbitrary: xs ys)
  case (Suc fuel)
  have "codec_ok c scope (pos (last xs))"
    using ok Suc.prems(1,2) by auto
  moreover have "filter (\<lambda>r. pos r < pos (last xs)) L = ys"
    using filter_below_last [of pos xs ys] strict Suc.prems(1,2) by simp
  ultimately have fetch: "keyset_page c rows base pos limit (Some (encodeCursor c (pos (last xs)) scope)) None scope =
      Inr (take limit ys, if limit < length ys then Some (encodeCursor c (pos (last (take limit ys))) scope) else None)"
    unfolding keyset_next [OF \<open>codec_ok c scope (pos (last xs))\<close>] L [symmetric]
    using page_cut [OF limit, of c ys scope pos] by simp
  show ?case
  proof (cases "limit < length ys")
    case True
    have "walk_pages (\<lambda>cu. keyset_page c rows base pos limit cu None scope) fuel
        (Some (encodeCursor c (pos (last (xs @ take limit ys))) scope)) = Some (drop limit ys)"
      using Suc.prems True limit by (intro Suc.IH) auto
    moreover have "take limit ys \<noteq> []" using True limit by auto
    ultimately show ?thesis using True fetch by simp
  qed (simp add: fetch)
qed simp

text \<open>
  C39. Following the cursors from the first page to the last visits every row of the listing
  exactly once, newest first, whatever the page size: rows with distinct positions are
  neither skipped nor repeated.
\<close>

theorem page_walk_complete:
  fixes pos :: "'r \<Rightarrow> position"
  assumes "distinct (map pos rows)" and "\<And>r. r \<in> set rows \<Longrightarrow> codec_ok c scope (pos r)"
    and "0 < limit" and "length rows < fuel"
  shows "walk_pages (\<lambda>cu. keyset_page c rows base pos limit cu None scope) fuel None =
    Some (order_desc pos (filter base rows))"
proof -
  define L where "L = order_desc pos (filter base rows)"
  have strict: "sorted_wrt (\<lambda>a b. pos b < pos a) L"
    unfolding L_def using assms(1) by (intro strictly_desc distinct_map_filter)
  have ok: "codec_ok c scope (pos r)" if "r \<in> set L" for r
    using that assms(2) by (simp add: L_def)
  have len: "length L < fuel"
    using assms(4) le_less_trans [OF length_filter_le [of base rows]] by (simp add: L_def)
  obtain f where f: "fuel = Suc f" using assms(4) by (cases fuel) auto
  have fetch: "keyset_page c rows base pos limit None None scope =
      Inr (take limit L, if limit < length L then Some (encodeCursor c (pos (last (take limit L))) scope) else None)"
    unfolding keyset_first L_def [symmetric] using page_cut [OF assms(3), of c L scope pos] by simp
  show ?thesis
  proof (cases "limit < length L")
    case True
    have "take limit L \<noteq> []" using True assms(3) by auto
    then have "walk_pages (\<lambda>cu. keyset_page c rows base pos limit cu None scope) f
        (Some (encodeCursor c (pos (last (take limit L))) scope)) = Some (drop limit L)"
      using walk_suffix [OF L_def strict ok assms(3), of "take limit L" "drop limit L" f] len True f assms(3)
      by simp
    with True fetch f show ?thesis by (simp add: L_def [symmetric])
  next
    case False
    with fetch f show ?thesis by (simp add: L_def [symmetric])
  qed
qed

text \<open>A codec that spells its text in a two-letter alphabet, for the concrete instances.\<close>

definition demo_codec :: codec where
  "demo_codec = \<lparr>b64 = (\<lambda>s. CHR ''B'' # s), unb64 = tl, hmac = (\<lambda>s. ''H''),
     json_of_payload = (\<lambda>p. pl_scope p @ ''/'' @ show_int (pl_sort p) @ ''/'' @ pl_id p),
     payload_of_json = (\<lambda>s. case split_on (CHR ''/'') s of
        [a, b, d] \<Rightarrow> Some \<lparr>pl_scope = a, pl_sort = parse_int b, pl_id = d\<rparr> | _ \<Rightarrow> None)\<rparr>"

theorem cursor_roundtrip_and_scope_witness:
  "decodeCursor demo_codec (encodeCursor demo_codec (7, ''tip1'') ''tips'') ''tips'' = Inr (7, ''tip1'') \<and>
   decodeCursor demo_codec (encodeCursor demo_codec (7, ''tip1'') ''tips'') ''goals'' = Inl invalidCursor"
proof -
  have "codec_ok demo_codec ''tips'' (7, ''tip1'')" by code_simp
  from cursor_roundtrip_and_scope [OF this, of "''goals''"] show ?thesis by simp
qed

theorem cursor_needs_signature_witness:
  "\<exists>body sig. split_on (CHR ''.'') ''Btips/7/tip1.BH'' = [body, sig] \<and> body \<noteq> [] \<and>
    sig = b64 demo_codec (hmac demo_codec body) \<and>
    (\<exists>payload. payload_of_json demo_codec (unb64 demo_codec body) = Some payload \<and> pl_scope payload = ''tips'')"
proof -
  have "decodeCursor demo_codec ''Btips/7/tip1.BH'' ''tips'' = Inr (7, ''tip1'')" by code_simp
  then show ?thesis by (rule cursor_needs_signature)
qed

theorem page_walk_complete_witness:
  "walk_pages (\<lambda>cu. keyset_page demo_codec [(1, ''a''), (3, ''b''), (2, ''c'')] (\<lambda>_. True) id 2 cu None ''t'') 4 None =
    Some [(3, ''b''), (2, ''c''), (1, ''a'')]"
proof -
  have ok: "codec_ok demo_codec ''t'' r" if "r \<in> set [(1, ''a''), (3, ''b''), (2, ''c'')]" for r
  proof -
    have "list_all (codec_ok demo_codec ''t'') [(1, ''a''), (3, ''b''), (2, ''c'')]" by code_simp
    with that show ?thesis unfolding list_all_iff by blast
  qed
  have "order_desc id (filter (\<lambda>_. True) [(1::int, ''a''), (3, ''b''), (2, ''c'')]) =
      [(3, ''b''), (2, ''c''), (1, ''a'')]" by code_simp
  with page_walk_complete [of id "[(1, ''a''), (3, ''b''), (2, ''c'')]" demo_codec "''t''" 2 4 "\<lambda>_. True"] ok
  show ?thesis by simp
qed

end
