(* ===== verification/Notifications.thy ===== *)
theory Notifications
  imports Store Cursor
begin

text \<open>
  Notifications (\<open>backend/src/modules/notifications/notifications.service.ts\<close>,
  \<open>batching.ts\<close>, \<open>delivery.ts\<close>): preferences, tip digests, delivery receipts and the
  suppression of failing channels, and the disabling of a webhook subscription. A function of
  the source that takes a transaction client runs in the state it is given; its caller decides
  whether a throw rolls it back.
\<close>

section \<open>Creating notifications\<close>

definition payload_object :: "(string \<times> jsval) list \<Rightarrow> jsval" where
  "payload_object fs = JObj PlainObject fs"

text \<open>\<open>notification.create\<close> with the nested \<open>in_app\<close> delivery row.\<close>

definition create_notification_row :: "runtime \<Rightarrow> string \<Rightarrow> string \<Rightarrow> jsval \<Rightarrow> notification_row dbio" where
  "create_notification_row rt userId ty payload =
     bnd (fresh_id rt) (\<lambda>i. bnd (fresh_id rt) (\<lambda>j.
       (let n = \<lparr>n_id = i, n_userId = userId, n_type = ty, n_payload = payload, n_readAt = None,
                 n_createdAt = rt_now rt, n_deletedAt = None\<rparr>;
            dl = \<lparr>dl_id = j, dl_userId = userId, dl_notificationId = Some i, dl_channel = InApp,
                  dl_status = Delivered, dl_reason = None\<rparr>
        in bnd (modify (\<lambda>d. d\<lparr>notifications := notifications d @ [n], deliveries := deliveries d @ [dl]\<rparr>))
             (\<lambda>_. ret n))))"

definition emitNotificationCreated :: "notification_row \<Rightarrow> unit dbio" where
  "emitNotificationCreated n = modify (\<lambda>d. d\<lparr>emitted := emitted d @ [n]\<rparr>)"

record notification_response =
  nr_id :: string
  nr_type :: string
  nr_payload :: jsval
  nr_readAt :: "string option"
  nr_createdAt :: string

definition formatNotification :: "notification_row \<Rightarrow> notification_response" where
  "formatNotification n =
     \<lparr>nr_id = n_id n, nr_type = n_type n, nr_payload = n_payload n,
      nr_readAt = map_option iso_string (n_readAt n), nr_createdAt = iso_string (n_createdAt n)\<rparr>"

definition createSystemNotification :: "runtime \<Rightarrow> string \<Rightarrow> string \<Rightarrow> jsval \<Rightarrow> notification_response dbio" where
  "createSystemNotification rt userId ty payload =
     bnd (create_notification_row rt userId ty payload) (\<lambda>n.
       andthen (emitNotificationCreated n) (ret (formatNotification n)))"

definition NEVER_BATCH :: "string list" where
  "NEVER_BATCH = [''payout_failed'', ''withdrawal_completed'', ''security_event'']"

definition BATCHABLE :: "string list" where
  "BATCHABLE = [''tip_received'']"

text \<open>The preference that gates a type, read from a preference row.\<close>

definition preference_for :: "string \<Rightarrow> preference_row \<Rightarrow> bool option" where
  "preference_for ty p =
     (if ty = ''tip_received'' then Some (p_tipReceived p)
      else if ty = ''goal_reached'' then Some (p_goalReached p)
      else if ty = ''subscription_charged'' then Some (p_subscriptionCharged p)
      else if ty = ''payout_failed'' then Some (p_payoutFailed p)
      else None)"

definition preference_of :: "string \<Rightarrow> db \<Rightarrow> preference_row option" where
  "preference_of userId d = find_by p_userId userId (preferences d)"

section \<open>Digest batches\<close>

text \<open>\<open>String(v)\<close> on the values a payload carries.\<close>

definition string_of_value :: "jsval \<Rightarrow> string" where
  "string_of_value v = (case v of
       JStr s \<Rightarrow> s
     | JBig i \<Rightarrow> show_int i
     | JBool b \<Rightarrow> (if b then ''true'' else ''false'')
     | JNum n \<Rightarrow> (if is_integer n then show_int (j_to_int n) else ''NaN'')
     | Null \<Rightarrow> ''null''
     | Undefined \<Rightarrow> ''undefined''
     | _ \<Rightarrow> ''[object Object]'')"

definition batch_due :: "int \<Rightarrow> int \<Rightarrow> int" where
  "batch_due now seconds = (now div (seconds * 1000) + 1) * seconds * 1000"

definition batch_id :: "string \<Rightarrow> string \<Rightarrow> int \<Rightarrow> string" where
  "batch_id userId token due = json_strings [userId, ''tip_received'', token, iso_string due]"

definition enqueueTipBatch :: "string \<Rightarrow> jsval \<Rightarrow> int \<Rightarrow> int \<Rightarrow> unit dbio" where
  "enqueueTipBatch userId payload seconds now =
     (let amount = string_of_value (coalesce (get_prop payload ''amountStroops'') (JStr ''0''));
          token = (case get_prop payload ''tokenCode'' of JStr t \<Rightarrow> t | _ \<Rightarrow> ''XLM'')
      in andthen (throw_unless (all_digits amount) (js_error ''Invalid tip amount for digest''))
        (andthen (throw_unless (seconds \<noteq> 0) (js_error ''Invalid time value''))
          (let due = batch_due now seconds; i = batch_id userId token due; v = int (parse_nat amount)
           in modify (\<lambda>d. d\<lparr>batches := upsert_row b_id i
                 \<lparr>b_id = i, b_userId = userId, b_type = ''tip_received'', b_token = token, b_count = 1,
                  b_total = v, b_dueAt = due\<rparr>
                 (\<lambda>b. b\<lparr>b_count := b_count b + 1, b_total := b_total b + v\<rparr>) (batches d)\<rparr>))))"

text \<open>Exact text of a stroop total: the fraction without its trailing zeros.\<close>

definition strip_zeros :: "string \<Rightarrow> string" where
  "strip_zeros s = rev (dropWhile (\<lambda>c. c = CHR ''0'') (rev s))"

definition digestSummary :: "int \<Rightarrow> int \<Rightarrow> string \<Rightarrow> string" where
  "digestSummary count stroops token =
     (let fraction = strip_zeros (pad_left 7 (show_int (stroops mod 10000000)))
      in show_int count @ '' new tip'' @ (if count = 1 then '''' else ''s'') @ '' totalling ''
         @ show_int (stroops div 10000000) @ (if fraction = [] then '''' else ''.'' @ fraction) @ '' '' @ token)"

definition record_not_found :: jsval where
  "record_not_found = prisma_error ''P2025'' []"

text \<open>One batch of a flush: the delete claims it and fails with P2025 when it is gone.\<close>

definition flush_batch :: "runtime \<Rightarrow> batch_row \<Rightarrow> notification_row option dbio" where
  "flush_batch rt b =
     try_catch
       (transaction
         (bnd (gets (\<lambda>d. find_by b_id (b_id b) (batches d))) (\<lambda>found.
          bnd (require found record_not_found) (\<lambda>claimed.
          andthen (modify (\<lambda>d. d\<lparr>batches := delete_rows (\<lambda>r. b_id r = b_id b) (batches d)\<rparr>))
          (bnd (gets (preference_of (b_userId b))) (\<lambda>pref.
           if map_option p_tipReceived pref = Some False then ret None
           else bnd (create_notification_row rt (b_userId claimed) ''tip_digest'' (payload_object
                  [(''count'', JNum (j_int (b_count claimed))),
                   (''totalStroops'', JStr (show_int (b_total claimed))),
                   (''tokenCode'', JStr (b_token claimed)),
                   (''summary'', JStr (digestSummary (b_count claimed) (b_total claimed) (b_token claimed)))]))
                (\<lambda>n. ret (Some n))))))))
       (\<lambda>e. if get_prop e ''code'' = JStr ''P2025'' then ret None else throw e)"

fun flush_batches :: "runtime \<Rightarrow> batch_row list \<Rightarrow> nat \<Rightarrow> nat dbio" where
  "flush_batches rt [] flushed = ret flushed"
| "flush_batches rt (b # bs) flushed =
     bnd (flush_batch rt b) (\<lambda>n. case n of
         None \<Rightarrow> flush_batches rt bs flushed
       | Some row \<Rightarrow> andthen (emitNotificationCreated row) (flush_batches rt bs (flushed + 1)))"

definition due_batches :: "int \<Rightarrow> db \<Rightarrow> batch_row list" where
  "due_batches now d =
     take 100 (sort_key (\<lambda>b. (b_dueAt b, b_id b)) (filter (\<lambda>b. b_dueAt b \<le> now) (batches d)))"

definition flushNotificationBatches :: "runtime \<Rightarrow> int \<Rightarrow> nat dbio" where
  "flushNotificationBatches rt now = bnd (gets (due_batches now)) (\<lambda>bs. flush_batches rt bs 0)"

section \<open>Persisting a notification\<close>

definition persistNotification :: "runtime \<Rightarrow> string \<Rightarrow> string \<Rightarrow> jsval \<Rightarrow> notification_row option dbio" where
  "persistNotification rt userId ty payload =
     bnd (gets (preference_of userId)) (\<lambda>pref.
       if ty \<notin> set NEVER_BATCH \<and> some_with (\<lambda>p. preference_for ty p = Some False) pref then ret None
       else if ty \<notin> set NEVER_BATCH \<and> ty \<in> set BATCHABLE \<and> some_with p_batchingEnabled pref
         then andthen (enqueueTipBatch userId payload (p_batchingWindow (the pref)) (rt_now rt)) (ret None)
       else bnd (create_notification_row rt userId ty payload) (\<lambda>n. ret (Some n)))"

definition createNotification :: "runtime \<Rightarrow> string \<Rightarrow> string \<Rightarrow> jsval \<Rightarrow> notification_response option dbio" where
  "createNotification rt userId ty payload =
     bnd (persistNotification rt userId ty payload) (\<lambda>n. case n of
         None \<Rightarrow> ret None
       | Some row \<Rightarrow> andthen (emitNotificationCreated row) (ret (Some (formatNotification row))))"

section \<open>Reading and marking\<close>

record pagination =
  pg_codec :: codec
  pg_collation :: "string \<Rightarrow> string \<Rightarrow> bool"
  pg_json :: "(string \<times> jsval) list \<Rightarrow> string"

definition listNotifications ::
  "pagination \<Rightarrow> string \<Rightarrow> bool \<Rightarrow> nat \<Rightarrow> string option \<Rightarrow> nat option
   \<Rightarrow> (notification_response list \<times> string option) dbio" where
  "listNotifications pg userId unreadOnly limit cursor offset =
     (let scope = createCursorScope (pg_collation pg) (pg_json pg) ''notifications''
            [(''userId'', JStr userId), (''unreadOnly'', JBool unreadOnly)];
          base = (\<lambda>n. n_userId n = userId \<and> n_deletedAt n = None \<and> (unreadOnly \<longrightarrow> n_readAt n = None))
      in bnd (gets notifications) (\<lambda>rows.
         bnd (lift_res (keyset_page (pg_codec pg) rows base (\<lambda>n. (n_createdAt n, n_id n)) limit cursor offset scope))
           (\<lambda>page. ret (map formatNotification (fst page), snd page))))"

definition own_notification :: "string \<Rightarrow> string \<Rightarrow> db \<Rightarrow> notification_row option" where
  "own_notification userId i d =
     find_row (\<lambda>n. n_id n = i \<and> n_userId n = userId \<and> n_deletedAt n = None) (notifications d)"

definition getNotification :: "string \<Rightarrow> string \<Rightarrow> notification_response dbio" where
  "getNotification userId i =
     bnd (gets (own_notification userId i)) (\<lambda>n.
     bnd (require n (not_found ''Notification not found'')) (\<lambda>row. ret (formatNotification row)))"

definition markAsRead :: "runtime \<Rightarrow> string \<Rightarrow> string \<Rightarrow> notification_response dbio" where
  "markAsRead rt userId i =
     bnd (gets (own_notification userId i)) (\<lambda>n.
     bnd (require n (not_found ''Notification not found'')) (\<lambda>row.
     andthen (modify (\<lambda>d. d\<lparr>notifications :=
         update_rows (\<lambda>m. n_id m = i) (\<lambda>m. m\<lparr>n_readAt := Some (rt_now rt)\<rparr>) (notifications d)\<rparr>))
       (ret (formatNotification (row\<lparr>n_readAt := Some (rt_now rt)\<rparr>)))))"

definition unread_of :: "string \<Rightarrow> notification_row \<Rightarrow> bool" where
  "unread_of userId n \<longleftrightarrow> n_userId n = userId \<and> n_readAt n = None \<and> n_deletedAt n = None"

definition markAllAsRead :: "runtime \<Rightarrow> string \<Rightarrow> nat dbio" where
  "markAllAsRead rt userId =
     bnd (gets (\<lambda>d. count_rows (unread_of userId) (notifications d))) (\<lambda>c.
     andthen (modify (\<lambda>d. d\<lparr>notifications :=
         update_rows (unread_of userId) (\<lambda>m. m\<lparr>n_readAt := Some (rt_now rt)\<rparr>) (notifications d)\<rparr>))
       (ret c))"

definition getUnreadCount :: "string \<Rightarrow> nat dbio" where
  "getUnreadCount userId = gets (\<lambda>d. count_rows (unread_of userId) (notifications d))"

record preference_response =
  pr_tipReceived :: bool
  pr_goalReached :: bool
  pr_subscriptionCharged :: bool
  pr_batchingEnabled :: bool
  pr_batchingWindow :: int
  pr_updatedAt :: string

definition formatPreferences :: "preference_row \<Rightarrow> preference_response" where
  "formatPreferences p =
     \<lparr>pr_tipReceived = p_tipReceived p, pr_goalReached = p_goalReached p,
      pr_subscriptionCharged = p_subscriptionCharged p, pr_batchingEnabled = p_batchingEnabled p,
      pr_batchingWindow = p_batchingWindow p, pr_updatedAt = iso_string (p_updatedAt p)\<rparr>"

definition getPreferences :: "string \<Rightarrow> preference_response dbio" where
  "getPreferences userId = gets (\<lambda>d. case preference_of userId d of
       None \<Rightarrow> \<lparr>pr_tipReceived = True, pr_goalReached = True, pr_subscriptionCharged = True,
                pr_batchingEnabled = False, pr_batchingWindow = 300, pr_updatedAt = iso_string 0\<rparr>
     | Some p \<Rightarrow> formatPreferences p)"

record preference_patch =
  pp_tipReceived :: "bool option"
  pp_goalReached :: "bool option"
  pp_subscriptionCharged :: "bool option"
  pp_batchingEnabled :: "bool option"
  pp_batchingWindow :: "int option"

definition patched :: "'a option \<Rightarrow> 'a \<Rightarrow> 'a" where
  "patched x old = (case x of None \<Rightarrow> old | Some a \<Rightarrow> a)"

text \<open>An undefined field keeps its column default on create and its value on update.\<close>

definition apply_patch :: "runtime \<Rightarrow> preference_patch \<Rightarrow> preference_row \<Rightarrow> preference_row" where
  "apply_patch rt patch p = p\<lparr>p_tipReceived := patched (pp_tipReceived patch) (p_tipReceived p),
     p_goalReached := patched (pp_goalReached patch) (p_goalReached p),
     p_subscriptionCharged := patched (pp_subscriptionCharged patch) (p_subscriptionCharged p),
     p_batchingEnabled := patched (pp_batchingEnabled patch) (p_batchingEnabled p),
     p_batchingWindow := patched (pp_batchingWindow patch) (p_batchingWindow p),
     p_updatedAt := rt_now rt\<rparr>"

definition default_preferences :: "string \<Rightarrow> int \<Rightarrow> preference_row" where
  "default_preferences userId now = \<lparr>p_userId = userId, p_tipReceived = True, p_goalReached = True,
     p_subscriptionCharged = True, p_payoutFailed = True, p_batchingEnabled = False,
     p_batchingWindow = 300, p_updatedAt = now\<rparr>"

definition updatePreferences :: "runtime \<Rightarrow> string \<Rightarrow> preference_patch \<Rightarrow> preference_response dbio" where
  "updatePreferences rt userId patch =
     andthen (modify (\<lambda>d. d\<lparr>preferences := upsert_row p_userId userId
         (apply_patch rt patch (default_preferences userId (rt_now rt))) (apply_patch rt patch) (preferences d)\<rparr>))
       (gets (\<lambda>d. formatPreferences (the (preference_of userId d))))"

section \<open>Disabling a webhook\<close>

definition live_webhook :: "string \<Rightarrow> db \<Rightarrow> webhook_row option" where
  "live_webhook i d = find_row (\<lambda>w. wh_id w = i \<and> wh_deletedAt w = None) (webhooks d)"

definition disableWebhookSubscriptionAndNotify :: "runtime \<Rightarrow> string \<Rightarrow> string \<Rightarrow> string \<Rightarrow> bool dbio" where
  "disableWebhookSubscriptionAndNotify rt i deliveryId reason =
     bnd (transaction
       (bnd (gets (live_webhook i)) (\<lambda>sub. case sub of
           None \<Rightarrow> ret None
         | Some w \<Rightarrow>
             if wh_status w = WDisabled then ret None
             else bnd (gets (\<lambda>d. count_rows (\<lambda>x. wh_id x = i \<and> wh_status x = WActive) (webhooks d))) (\<lambda>c.
               andthen (modify (\<lambda>d. d\<lparr>webhooks :=
                   update_rows (\<lambda>x. wh_id x = i \<and> wh_status x = WActive) (\<lambda>x. x\<lparr>wh_status := WDisabled\<rparr>) (webhooks d)\<rparr>))
               (if c = 0 then ret None
                else bnd (create_notification_row rt (wh_ownerId w) ''webhook_disabled'' (payload_object
                       [(''subscriptionId'', JStr i), (''deliveryId'', JStr deliveryId), (''reason'', JStr reason)]))
                     (\<lambda>n. ret (Some n)))))))
     (\<lambda>res. case res of
         None \<Rightarrow> ret False
       | Some n \<Rightarrow> andthen (emitNotificationCreated n) (ret True))"

section \<open>Delivery receipts\<close>

fun TRANSITIONS :: "NotificationDeliveryStatus \<Rightarrow> NotificationDeliveryStatus list" where
  "TRANSITIONS Queued = [Sent, Delivered, Failed, Bounced]"
| "TRANSITIONS Sent = [Delivered, Failed, Bounced]"
| "TRANSITIONS Delivered = [Bounced]"
| "TRANSITIONS Failed = [Bounced]"
| "TRANSITIONS Bounced = []"

definition channel_of :: "string \<times> NotificationChannel \<Rightarrow> db \<Rightarrow> channel_row option" where
  "channel_of k d = find_by ch_key k (channels d)"

definition queueDelivery :: "runtime \<Rightarrow> string \<Rightarrow> NotificationChannel \<Rightarrow> string option \<Rightarrow> delivery_row dbio" where
  "queueDelivery rt userId channel notificationId =
     bnd (gets (channel_of (userId, channel))) (\<lambda>st.
       if some_with (\<lambda>c. ch_disabledAt c \<noteq> None) st
       then throw (bad_request ''Notification channel is disabled after delivery failures'')
       else bnd (fresh_id rt) (\<lambda>i.
         (let dl = \<lparr>dl_id = i, dl_userId = userId, dl_notificationId = notificationId, dl_channel = channel,
                    dl_status = Queued, dl_reason = None\<rparr>
          in bnd (modify (\<lambda>d. d\<lparr>deliveries := deliveries d @ [dl]\<rparr>)) (\<lambda>_. ret dl))))"

definition channel_name :: "NotificationChannel \<Rightarrow> string" where
  "channel_name c = (case c of InApp \<Rightarrow> ''in_app'' | Email \<Rightarrow> ''email'' | Push \<Rightarrow> ''push'')"

definition count_outcome :: "bool \<Rightarrow> string \<times> NotificationChannel \<Rightarrow> db \<Rightarrow> db" where
  "count_outcome failed k d = d\<lparr>channels := upsert_row ch_key k
     \<lparr>ch_key = k, ch_failures = (if failed then 1 else 0), ch_disabledAt = None\<rparr>
     (\<lambda>c. c\<lparr>ch_failures := (if failed then ch_failures c + 1 else 0)\<rparr>) (channels d)\<rparr>"

definition suppress_channel :: "runtime \<Rightarrow> delivery_row \<Rightarrow> string option \<Rightarrow> unit dbio" where
  "suppress_channel rt dl reason =
     (let k = (dl_userId dl, dl_channel dl) in
      bnd (gets (\<lambda>d. count_rows (\<lambda>c. ch_key c = k \<and> ch_disabledAt c = None) (channels d))) (\<lambda>n.
      andthen (modify (\<lambda>d. d\<lparr>channels := update_rows (\<lambda>c. ch_key c = k \<and> ch_disabledAt c = None)
          (\<lambda>c. c\<lparr>ch_disabledAt := Some (rt_now rt)\<rparr>) (channels d)\<rparr>))
      (if n = 0 then ret ()
       else bnd (create_notification_row rt (dl_userId dl) ''notification_channel_disabled'' (payload_object
              [(''channel'', JStr (channel_name (dl_channel dl))),
               (''reason'', JStr (case reason of None \<Rightarrow> ''Persistent delivery failures'' | Some r \<Rightarrow> r))]))
            (\<lambda>_. ret ()))))"

definition transitionDelivery ::
  "runtime \<Rightarrow> string \<Rightarrow> NotificationDeliveryStatus \<Rightarrow> string option \<Rightarrow> delivery_row dbio" where
  "transitionDelivery rt i status reason =
     (let failing = (status = Failed \<or> status = Bounced) in
      andthen (throw_unless (\<not> (failing \<and> (case reason of None \<Rightarrow> True | Some r \<Rightarrow> js_trim r = [])))
          (bad_request ''A failure reason is required''))
      (transaction
        (bnd (gets (\<lambda>d. find_by dl_id i (deliveries d))) (\<lambda>found.
         bnd (require found (not_found ''Delivery not found'')) (\<lambda>dl.
          if dl_status dl = status then ret dl
          else
            andthen (throw_unless (status \<in> set (TRANSITIONS (dl_status dl)))
                (bad_request ''Invalid delivery status transition''))
            (bnd (gets (\<lambda>d. count_rows (\<lambda>r. dl_id r = i \<and> dl_status r = dl_status dl) (deliveries d))) (\<lambda>n.
             andthen (modify (\<lambda>d. d\<lparr>deliveries := update_rows (\<lambda>r. dl_id r = i \<and> dl_status r = dl_status dl)
                (\<lambda>r. r\<lparr>dl_status := status, dl_reason := reason\<rparr>) (deliveries d)\<rparr>))
            (andthen (throw_unless (n \<noteq> 0) (bad_request ''Delivery changed; retry receipt''))
            (andthen
              (if failing \<or> status = Delivered then
                 andthen (modify (count_outcome failing (dl_userId dl, dl_channel dl)))
                 (bnd (gets (channel_of (dl_userId dl, dl_channel dl))) (\<lambda>st.
                    if dl_channel dl \<noteq> InApp \<and>
                       (status = Bounced \<or> some_with (\<lambda>c. 3 \<le> ch_failures c) st)
                    then suppress_channel rt dl reason else ret ()))
               else ret ())
              (ret (dl\<lparr>dl_status := status, dl_reason := reason\<rparr>)))))))))))"

definition acknowledgeDeliverySent :: "string \<Rightarrow> unit dbio" where
  "acknowledgeDeliverySent i = modify (\<lambda>d. d\<lparr>deliveries :=
     update_rows (\<lambda>r. dl_id r = i \<and> dl_status r = Queued) (\<lambda>r. r\<lparr>dl_status := Sent\<rparr>) (deliveries d)\<rparr>)"

record delivery_metrics =
  dm_channel :: NotificationChannel
  dm_counts :: "(NotificationDeliveryStatus \<times> nat) list"
  dm_total :: nat
  dm_rate :: jsnum

definition all_statuses :: "NotificationDeliveryStatus list" where
  "all_statuses = [Queued, Sent, Delivered, Failed, Bounced]"

definition getDeliveryMetrics :: "delivery_metrics list dbio" where
  "getDeliveryMetrics = gets (\<lambda>d. map (\<lambda>ch.
     (let cs = map (\<lambda>st. (st, count_rows (\<lambda>r. dl_channel r = ch \<and> dl_status r = st) (deliveries d))) all_statuses;
          total = sum_list (map snd cs);
          ok = count_rows (\<lambda>r. dl_channel r = ch \<and> dl_status r = Delivered) (deliveries d)
      in \<lparr>dm_channel = ch, dm_counts = cs, dm_total = total,
          dm_rate = (if total = 0 then Fin 0 else j_div (Fin (of_nat ok)) (Fin (of_nat total)))\<rparr>))
     [InApp, Email, Push])"

section \<open>Facts about the operations\<close>

lemma create_notification_row_run:
  "create_notification_row rt userId ty payload d =
     (let i = rt_cuid rt (nextId d);
          n = \<lparr>n_id = i, n_userId = userId, n_type = ty, n_payload = payload, n_readAt = None,
               n_createdAt = rt_now rt, n_deletedAt = None\<rparr>
      in (Inr n, d\<lparr>nextId := nextId d + 2, notifications := notifications d @ [n],
           deliveries := deliveries d @ [\<lparr>dl_id = rt_cuid rt (nextId d + 1), dl_userId = userId,
             dl_notificationId = Some i, dl_channel = InApp, dl_status = Delivered, dl_reason = None\<rparr>]\<rparr>))"
  by (simp add: create_notification_row_def Let_def)

lemma create_notification_row_bnd [simp]:
  "bnd (create_notification_row rt userId ty payload) f d =
     f \<lparr>n_id = rt_cuid rt (nextId d), n_userId = userId, n_type = ty, n_payload = payload, n_readAt = None,
        n_createdAt = rt_now rt, n_deletedAt = None\<rparr>
       (snd (create_notification_row rt userId ty payload d))"
  by (simp add: bnd_def create_notification_row_run Let_def)

lemma create_notification_row_frame [simp]:
  "batches (snd (create_notification_row rt u ty p d)) = batches d"
  "webhooks (snd (create_notification_row rt u ty p d)) = webhooks d"
  "channels (snd (create_notification_row rt u ty p d)) = channels d"
  "length (notifications (snd (create_notification_row rt u ty p d))) = Suc (length (notifications d))"
  "preferences (snd (create_notification_row rt u ty p d)) = preferences d"
  by (simp_all add: create_notification_row_run Let_def)

lemma find_by_deliveries_create:
  "find_by dl_id i (deliveries d) = Some dl \<Longrightarrow>
   find_by dl_id i (deliveries (snd (create_notification_row rt u ty p d))) = Some dl"
  by (simp add: create_notification_row_run Let_def find_by_def find_row_append)

section \<open>Digests\<close>

text \<open>
  A tip that goes to a digest is added to exactly one batch: the batch of its user,
  token and time window counts one tip more and its total grows by exactly the tip's amount;
  every other batch is unchanged, and the window ends after now, at most one window later.
\<close>

theorem tip_batch_accumulates:
  assumes "get_prop payload ''amountStroops'' = JStr (show_int v)" and "0 \<le> v" and "0 < seconds"
    and "get_prop payload ''tokenCode'' = Undefined"
    and "i = batch_id userId ''XLM'' (batch_due now seconds)"
    and "d' = snd (enqueueTipBatch userId payload seconds now d)"
  shows "(case find_by b_id i (batches d) of
      None \<Rightarrow> \<exists>b. find_by b_id i (batches d') = Some b \<and> b_count b = 1 \<and> b_total b = v
    | Some b \<Rightarrow> find_by b_id i (batches d') = Some (b\<lparr>b_count := b_count b + 1, b_total := b_total b + v\<rparr>)) \<and>
    (\<forall>j. j \<noteq> i \<longrightarrow> find_by b_id j (batches d') = find_by b_id j (batches d)) \<and>
    now < batch_due now seconds \<and> batch_due now seconds \<le> now + seconds * 1000"
proof -
  define new where "new = \<lparr>b_id = i, b_userId = userId, b_type = ''tip_received'', b_token = ''XLM'',
    b_count = 1, b_total = v, b_dueAt = batch_due now seconds\<rparr>"
  define f where "f = (\<lambda>b. b\<lparr>b_count := b_count b + 1, b_total := b_total b + v\<rparr> :: batch_row)"
  have digits: "all_digits (show_int v)" "int (parse_nat (show_int v)) = v"
    using assms(2) by (simp_all add: show_int_def)
  have d': "batches d' = upsert_row b_id i new f (batches d)"
    using assms digits
    by (simp add: enqueueTipBatch_def coalesce_def nullish_def string_of_value_def Let_def new_def f_def)
  have keys: "b_id new = i" "\<And>b. b_id b = i \<Longrightarrow> b_id (f b) = i"
    by (simp_all add: new_def f_def)
  have "find_by b_id i (batches d') = Some (case find_by b_id i (batches d) of None \<Rightarrow> new | Some b \<Rightarrow> f b)"
    unfolding d' by (rule batches_by_id.lookup_upsert_same [OF keys])
  moreover have "find_by b_id j (batches d') = find_by b_id j (batches d)" if "j \<noteq> i" for j
    unfolding d' by (rule batches_by_id.lookup_upsert_other [OF keys that])
  moreover have "now < batch_due now seconds" "batch_due now seconds \<le> now + seconds * 1000"
  proof -
    define w where "w = seconds * 1000"
    have "0 < w" using assms(3) by (simp add: w_def)
    have "w * (now div w) + now mod w = now" "0 \<le> now mod w" "now mod w < w"
      using \<open>0 < w\<close> by (auto intro: mult_div_mod_eq)
    moreover have "batch_due now seconds = w * (now div w) + w"
      by (simp add: batch_due_def w_def algebra_simps)
    ultimately show "now < batch_due now seconds" "batch_due now seconds \<le> now + seconds * 1000"
      unfolding w_def [symmetric] by linarith+
  qed
  ultimately show ?thesis
    by (auto simp: new_def f_def split: option.splits)
qed

text \<open>
  Flushing a digest batch happens at most once: afterwards the batch is gone, a second
  flush of it by another worker changes nothing and reports nothing, and at most one
  notification was created.
\<close>

theorem flush_batch_once:
  "let (r, d') = flush_batch rt b d in
     find_by b_id (b_id b) (batches d') = None \<and> flush_batch rt b d' = (Inr None, d') \<and>
     length (notifications d') = length (notifications d) + (case r of Inr (Some n) \<Rightarrow> 1 | _ \<Rightarrow> 0)"
proof -
  have gone: "flush_batch rt b e = (Inr None, e)" if "find_by b_id (b_id b) (batches e) = None" for e
    using that by (simp add: flush_batch_def try_catch_def transaction_def record_not_found_def prisma_error_def)
  show ?thesis
  proof (cases "find_by b_id (b_id b) (batches d)")
    case None
    then show ?thesis by (simp add: gone)
  next
    case (Some c)
    obtain r d' where run: "flush_batch rt b d = (r, d')" by force
    have "find_by b_id (b_id b) (delete_rows (\<lambda>r. b_id r = b_id b) (batches d)) = None"
      by (auto simp: find_by_None set_delete_rows)
    then have "find_by b_id (b_id b) (batches d') = None \<and>
        length (notifications d') = length (notifications d) + (case r of Inr (Some n) \<Rightarrow> 1 | _ \<Rightarrow> 0)"
      using run Some
      by (auto simp: flush_batch_def try_catch_def transaction_def split: if_splits)
    with run gone show ?thesis by auto
  qed
qed

section \<open>Disabling a webhook once\<close>

text \<open>The clock and id generator of the concrete instances.\<close>

definition demo_rt :: runtime where
  "demo_rt = \<lparr>rt_now = 1700000000000, rt_cuid = (\<lambda>n. CHR ''c'' # show_nat n), rt_broker = True\<rparr>"

text \<open>
  Disabling a webhook subscription notifies its owner exactly when this call disabled it:
  a repeated terminal failure of the same subscription reports \<open>False\<close> and changes nothing.
\<close>

theorem disable_webhook_once:
  assumes "disableWebhookSubscriptionAndNotify rt i deliveryId reason d = (Inr b, d')"
  shows "length (notifications d') = length (notifications d) + (if b then 1 else 0) \<and>
    length (emitted d') = length (emitted d) + (if b then 1 else 0) \<and>
    disableWebhookSubscriptionAndNotify rt i deliveryId2 reason2 d' = (Inr False, d')"
proof (cases "live_webhook i d")
  case None
  with assms show ?thesis
    by (auto simp: disableWebhookSubscriptionAndNotify_def)
next
  case (Some w)
  let ?p = "\<lambda>x. wh_id x = i \<and> wh_status x = WActive"
  let ?ws = "update_rows ?p (\<lambda>x. x\<lparr>wh_status := WDisabled\<rparr>) (webhooks d)"
  have w: "w \<in> set (webhooks d)" "wh_id w = i" "wh_deletedAt w = None"
    using Some by (auto simp: live_webhook_def dest: find_row_Some)
  show ?thesis
  proof (cases "wh_status w")
    case WDisabled
    with Some assms show ?thesis
      by (auto simp: disableWebhookSubscriptionAndNotify_def)
  next
    case WActive
    have "count_rows ?p (webhooks d) \<noteq> 0"
      using w WActive by (auto simp: count_rows_0)
    with Some WActive assms have d': "b" "webhooks d' = ?ws"
        "length (notifications d') = Suc (length (notifications d))" "length (emitted d') = Suc (length (emitted d))"
      by (auto simp: disableWebhookSubscriptionAndNotify_def emitNotificationCreated_def create_notification_row_run Let_def)
    have "wh_status x = WDisabled" if "live_webhook i d' = Some x" for x
    proof -
      have "x \<in> set ?ws" and i: "wh_id x = i"
        using that d'(2) by (auto simp: live_webhook_def dest: find_row_Some)
      then obtain y where y: "x = (if ?p y then y\<lparr>wh_status := WDisabled\<rparr> else y)"
        unfolding set_update_rows by blast
      show ?thesis
      proof (cases "?p y")
        case False
        with y i show ?thesis by (cases "wh_status x") simp_all
      qed (simp add: y)
    qed
    then have "disableWebhookSubscriptionAndNotify rt i deliveryId2 reason2 d' = (Inr False, d')"
      by (cases "live_webhook i d'") (simp_all add: disableWebhookSubscriptionAndNotify_def)
    with d' show ?thesis by simp
  qed
qed

section \<open>Effects of a delivery receipt\<close>

text \<open>What an accepted receipt does besides setting the status: counting, and suppressing the channel.\<close>

definition receipt_effects ::
  "runtime \<Rightarrow> delivery_row \<Rightarrow> NotificationDeliveryStatus \<Rightarrow> string option \<Rightarrow> db \<Rightarrow> db" where
  "receipt_effects rt dl status reason e =
     (let failing = (status = Failed \<or> status = Bounced); k = (dl_userId dl, dl_channel dl) in
      if failing \<or> status = Delivered then
        (let e' = count_outcome failing k e in
         if dl_channel dl \<noteq> InApp \<and> (status = Bounced \<or> some_with (\<lambda>c. 3 \<le> ch_failures c) (channel_of k e'))
         then snd (suppress_channel rt dl reason e') else e')
      else e)"

lemma suppress_channel_bnd:
  "bnd (suppress_channel rt dl reason) f s = f () (snd (suppress_channel rt dl reason s))"
  by (simp add: suppress_channel_def Let_def)

lemma find_by_receipt_effects:
  "find_by dl_id i (deliveries e) = Some z \<Longrightarrow>
   find_by dl_id i (deliveries (receipt_effects rt dl status reason e)) = Some z"
  by (simp add: receipt_effects_def Let_def count_outcome_def suppress_channel_def find_by_deliveries_create)

text \<open>
  A delivery receipt is applied only along the allowed transitions, is idempotent, and a
  refused receipt changes nothing: afterwards the delivery has the reported status, reached
  from its old one by a transition of the table, or it had it already and nothing changed.
\<close>

theorem delivery_receipt_legal:
  assumes "unique_by dl_id (deliveries d)" and "find_by dl_id i (deliveries d) = Some dl"
    and "transitionDelivery rt i status reason d = (r, d')"
  shows "case r of
      Inl e \<Rightarrow> d' = d
    | Inr out \<Rightarrow> dl_status out = status \<and> (\<exists>dl'. find_by dl_id i (deliveries d') = Some dl' \<and> dl_status dl' = status) \<and>
        (if dl_status dl = status then d' = d else status \<in> set (TRANSITIONS (dl_status dl)))"
proof -
  define p where "p = (\<lambda>x :: delivery_row. dl_id x = i \<and> dl_status x = dl_status dl)"
  define new where "new = dl\<lparr>dl_status := status, dl_reason := reason\<rparr>"
  define e where "e = d\<lparr>deliveries := update_rows p (\<lambda>r. r\<lparr>dl_status := status, dl_reason := reason\<rparr>) (deliveries d)\<rparr>"
  have dl: "dl \<in> set (deliveries d)" "dl_id dl = i"
    using assms(2) by (auto dest: find_by_Some)
  have n: "count_rows p (deliveries d) \<noteq> 0"
    using dl by (auto simp: count_rows_0 p_def)
  have upd: "find_by dl_id i (deliveries e) = Some new"
  proof -
    have "new \<in> set (deliveries e)"
      using dl by (force simp: e_def new_def set_update_rows p_def)
    moreover have "unique_by dl_id (deliveries e)"
      using assms(1) by (simp add: e_def unique_by_update)
    ultimately have "find_by dl_id (dl_id new) (deliveries e) = Some new"
      by (intro find_by_unique)
    then show ?thesis using dl(2) by (simp add: new_def)
  qed
  show ?thesis
  proof (cases "dl_status dl = status \<or> status \<notin> set (TRANSITIONS (dl_status dl)) \<or>
      ((status = Failed \<or> status = Bounced) \<and> (case reason of None \<Rightarrow> True | Some r \<Rightarrow> js_trim r = []))")
    case True
    with assms(2,3) show ?thesis
      by (auto simp: transitionDelivery_def transaction_run Let_def split: if_splits)
  next
    case False
    then have "transitionDelivery rt i status reason d = (Inr new, receipt_effects rt dl status reason e)"
      using assms(2) n
      by (cases status) (auto simp: transitionDelivery_def transaction_run receipt_effects_def Let_def
          suppress_channel_bnd p_def [symmetric] e_def new_def)
    with assms(3) False upd show ?thesis
      by (auto simp: find_by_receipt_effects new_def)
  qed
qed

theorem tip_batch_accumulates_witness:
  "let payload = payload_object [(''amountStroops'', JStr (show_int 25))];
       i = batch_id ''u1'' ''XLM'' (batch_due 1000 300);
       d' = snd (enqueueTipBatch ''u1'' payload 300 1000 empty_db)
   in \<exists>b. find_by b_id i (batches d') = Some b \<and> b_count b = 1 \<and> b_total b = 25"
  using tip_batch_accumulates [OF _ _ _ _ refl refl, of "payload_object [(''amountStroops'', JStr (show_int 25))]" 25 300 "''u1''" 1000 empty_db]
  by (simp add: payload_object_def empty_db_def find_by_def Let_def)

definition demo_webhook_db :: db where
  "demo_webhook_db = empty_db\<lparr>webhooks := [\<lparr>wh_id = ''w1'', wh_ownerId = ''u1'', wh_url = ''https://example.org'',
     wh_secret = ''s'', wh_status = WActive, wh_deletedAt = None,
     wh_events = [], wh_previousSecret = None, wh_previousSecretExpiresAt = None, wh_createdAt = 0\<rparr>]\<rparr>"

theorem disable_webhook_once_witness:
  "let (r, d') = disableWebhookSubscriptionAndNotify demo_rt ''w1'' ''dl1'' ''HTTP 500'' demo_webhook_db in
     r = Inr True \<and> disableWebhookSubscriptionAndNotify demo_rt ''w1'' ''dl2'' ''HTTP 500'' d' = (Inr False, d')"
proof -
  obtain r d' where run: "disableWebhookSubscriptionAndNotify demo_rt ''w1'' ''dl1'' ''HTTP 500'' demo_webhook_db = (r, d')"
    by force
  have r: "r = Inr True"
    using run by (simp add: disableWebhookSubscriptionAndNotify_def demo_webhook_db_def live_webhook_def empty_db_def
        emitNotificationCreated_def)
  from disable_webhook_once [OF run [unfolded r], of "''dl2''" "''HTTP 500''"] run r show ?thesis by simp
qed

definition demo_delivery_db :: db where
  "demo_delivery_db = empty_db\<lparr>deliveries := [\<lparr>dl_id = ''d1'', dl_userId = ''u1'', dl_notificationId = None,
     dl_channel = Email, dl_status = Sent, dl_reason = None\<rparr>]\<rparr>"

theorem delivery_receipt_legal_witness:
  "let (r, d') = transitionDelivery demo_rt ''d1'' Bounced (Some ''no such mailbox'') demo_delivery_db in
     (\<exists>out. r = Inr out \<and> dl_status out = Bounced) \<and>
     (\<exists>dl'. find_by dl_id ''d1'' (deliveries d') = Some dl' \<and> dl_status dl' = Bounced)"
proof -
  obtain r d' where run: "transitionDelivery demo_rt ''d1'' Bounced (Some ''no such mailbox'') demo_delivery_db = (r, d')"
    by force
  let ?dl = "\<lparr>dl_id = ''d1'', dl_userId = ''u1'', dl_notificationId = None, dl_channel = Email, dl_status = Sent, dl_reason = None\<rparr>"
  have u: "unique_by dl_id (deliveries demo_delivery_db)" "find_by dl_id ''d1'' (deliveries demo_delivery_db) = Some ?dl"
    by (simp_all add: demo_delivery_db_def find_by_def)
  have "fst (transitionDelivery demo_rt ''d1'' Bounced (Some ''no such mailbox'') demo_delivery_db) =
      Inr (?dl\<lparr>dl_status := Bounced, dl_reason := Some ''no such mailbox''\<rparr>)"
    by code_simp
  with delivery_receipt_legal [OF u run] run show ?thesis by auto
qed

end
