(* ===== verification/Projections.thy ===== *)
theory Projections
  imports Notifications
begin

text \<open>
  Projection of decoded contract events into the store
  (\<open>backend/src/indexer/projections.ts\<close>), with the decoding of topics and values
  (\<open>indexer/sorobanClient.ts\<close>) and the publication to the realtime layer
  (\<open>indexer/realtime-publisher.ts\<close>). One definition per handler of the source, composed by
  \<open>projectEvent\<close> as the source composes them.
\<close>

section \<open>Decoded events\<close>

record decoded_event =
  ev_topic :: string
  ev_ledger :: int
  ev_txHash :: string
  ev_value :: jsval
  ev_pagingToken :: string

text \<open>Big integers become decimal strings, in depth.\<close>

fun toJsonSafe :: "jsval \<Rightarrow> jsval" where
  "toJsonSafe (JBig i) = JStr (show_int i)"
| "toJsonSafe (JArr xs) = JArr (map toJsonSafe xs)"
| "toJsonSafe (JObj c fs) = JObj PlainObject (map (\<lambda>(k, v). (k, toJsonSafe v)) fs)"
| "toJsonSafe v = v"

text \<open>The parts of a topic tuple, already converted to native values; \<open>None\<close> when that fails.\<close>

definition decodeTopic :: "jsval list option \<Rightarrow> string" where
  "decodeTopic parts = (case parts of
       None \<Rightarrow> ''unknown''
     | Some ps \<Rightarrow> if ps = [] then ''unknown'' else join ''_'' (map string_of_value ps))"

definition TIP_TOPICS :: "string list" where
  "TIP_TOPICS = [''tip'', ''tip_sent'']"

definition REFUND_TOPICS :: "string list" where
  "REFUND_TOPICS = [''refund'', ''tip_refund'']"

section \<open>Reading an event value\<close>

definition arg :: "jsval list \<Rightarrow> nat \<Rightarrow> jsval" where
  "arg xs n = (if n < length xs then xs ! n else Undefined)"

definition toBigInt :: "jsval \<Rightarrow> int option" where
  "toBigInt v = (case v of
       JBig i \<Rightarrow> Some i
     | JNum n \<Rightarrow> if is_integer n then Some (j_to_int n) else None
     | JStr s \<Rightarrow> if all_digits s then Some (int (parse_nat s)) else None
     | _ \<Rightarrow> None)"

definition toNumber :: "jsval \<Rightarrow> jsnum option" where
  "toNumber v = (case v of
       JNum n \<Rightarrow> Some n
     | JBig i \<Rightarrow> Some (j_int i)
     | JStr s \<Rightarrow> if all_digits s then Some (j_int (int (parse_nat s))) else None
     | _ \<Rightarrow> None)"

definition as_string :: "jsval \<Rightarrow> string option" where
  "as_string v = (case v of JStr s \<Rightarrow> Some s | _ \<Rightarrow> None)"

definition version_marked :: "jsval list \<Rightarrow> bool" where
  "version_marked xs \<longleftrightarrow> arg xs 0 = JNum (Fin 1) \<or> arg xs 0 = JStr ''1''"

definition tupleArgs :: "jsval \<Rightarrow> jsval list" where
  "tupleArgs v = (case v of JArr xs \<Rightarrow> xs | _ \<Rightarrow> [])"

definition subscriptionArgs :: "jsval \<Rightarrow> jsval list" where
  "subscriptionArgs v = (let args = tupleArgs v in if version_marked args then drop 1 args else args)"

definition addressArg :: "jsval \<Rightarrow> string option" where
  "addressArg v = (case v of JStr s \<Rightarrow> Some s | JArr xs \<Rightarrow> as_string (arg xs 0) | _ \<Rightarrow> None)"

definition toTimestamp :: "jsval \<Rightarrow> int option" where
  "toTimestamp v = (case toBigInt v of None \<Rightarrow> None | Some s \<Rightarrow> if s = 0 then None else Some (s * 1000))"

definition toIntervalDays :: "jsval \<Rightarrow> int" where
  "toIntervalDays v = (case toBigInt v of None \<Rightarrow> 30 | Some n \<Rightarrow> if 0 < n then n else 30)"

definition intervalFromDays :: "int \<Rightarrow> SubscriptionInterval" where
  "intervalFromDays n = (if n \<le> 1 then DAILY else if n \<le> 7 then WEEKLY else MONTHLY)"

definition addDays :: "int \<Rightarrow> int \<Rightarrow> int" where
  "addDays t n = t + n * DAY_MS"

definition goalId :: "string \<Rightarrow> string" where
  "goalId userId = ''goal_'' @ userId"

definition subscriptionId :: "string \<Rightarrow> string \<Rightarrow> string" where
  "subscriptionId tipperId creatorId = ''sub_'' @ tipperId @ ''_'' @ creatorId"

record ParsedTip =
  pt_from :: string
  pt_to :: string
  pt_amount :: int
  pt_message :: "string option"

record ParsedRefund =
  pf_tipTxHash :: string
  pf_amount :: int
  pf_reason :: "string option"

text \<open>The four fields of a tip, from a tuple (an optional version first) or an object.\<close>

definition tip_fields :: "jsval \<Rightarrow> (jsval \<times> jsval \<times> jsval \<times> jsval) option" where
  "tip_fields v = (case v of
       JArr xs \<Rightarrow> (let ys = (if version_marked xs then drop 1 xs else xs)
                   in Some (arg ys 0, arg ys 1, arg ys 2, arg ys 3))
     | JObj c fs \<Rightarrow> Some (get_prop v ''from'', get_prop v ''to'', get_prop v ''amount'', get_prop v ''message'')
     | _ \<Rightarrow> None)"

definition parseTip :: "jsval \<Rightarrow> ParsedTip option" where
  "parseTip v = (case tip_fields v of
       None \<Rightarrow> None
     | Some (from_, to_, amount, message) \<Rightarrow>
         (case as_string from_ of None \<Rightarrow> None | Some f \<Rightarrow>
         (case as_string to_ of None \<Rightarrow> None | Some t \<Rightarrow>
         (case toBigInt amount of None \<Rightarrow> None | Some n \<Rightarrow>
            Some \<lparr>pt_from = f, pt_to = t, pt_amount = n, pt_message = as_string message\<rparr>))))"

definition refund_fields :: "jsval \<Rightarrow> (jsval \<times> jsval \<times> jsval) option" where
  "refund_fields v = (case v of
       JArr xs \<Rightarrow> Some (arg xs 0, arg xs 1, arg xs 2)
     | JObj c fs \<Rightarrow> Some (get_prop v ''tipTxHash'', get_prop v ''amount'', get_prop v ''reason'')
     | _ \<Rightarrow> None)"

definition parseRefund :: "jsval \<Rightarrow> ParsedRefund option" where
  "parseRefund v = (case refund_fields v of
       None \<Rightarrow> None
     | Some (h, amount, reason) \<Rightarrow>
         (case as_string h of None \<Rightarrow> None | Some s \<Rightarrow>
         (case toBigInt amount of None \<Rightarrow> None | Some n \<Rightarrow>
            Some \<lparr>pf_tipTxHash = s, pf_amount = n, pf_reason = as_string reason\<rparr>)))"

section \<open>Shared effects\<close>

definition warnUnparseable :: "unit dbio" where
  "warnUnparseable = modify (\<lambda>d. d\<lparr>unknownEvents := unknownEvents d + 1\<rparr>)"

definition new_user :: "runtime \<Rightarrow> string \<Rightarrow> string \<Rightarrow> string option \<Rightarrow> user_row" where
  "new_user rt i address name = \<lparr>u_id = i, u_address = address, u_username = name, u_role = ''user'',
     u_scopes = [], u_createdAt = rt_now rt, u_deletedAt = None, u_deactivatedAt = None,
     u_blockedAt = None, u_flagged = False,
     u_displayName = None, u_bio = None, u_imageUrl = None, u_avatarCid = None, u_xHandle = None\<rparr>"

definition ensureUserId :: "runtime \<Rightarrow> string \<Rightarrow> string dbio" where
  "ensureUserId rt address =
     bnd (fresh_id rt) (\<lambda>i.
     andthen (modify (\<lambda>d. d\<lparr>users := upsert_row u_address address (new_user rt i address None) id (users d)\<rparr>))
       (gets (\<lambda>d. case find_by u_address address (users d) of Some u \<Rightarrow> u_id u | None \<Rightarrow> [])))"

definition logged :: "decoded_event \<Rightarrow> db \<Rightarrow> bool" where
  "logged ev d \<longleftrightarrow> exists_row (\<lambda>r. el_txHash r = ev_txHash ev \<and> el_topic r = ev_topic ev \<and>
     el_ledger r = ev_ledger ev) (eventLog d)"

definition persistEventLog :: "decoded_event \<Rightarrow> bool dbio" where
  "persistEventLog ev =
     bnd (gets (logged ev)) (\<lambda>known.
       if known then ret False
       else andthen (modify (\<lambda>d. d\<lparr>eventLog := eventLog d @ [\<lparr>el_topic = ev_topic ev, el_ledger = ev_ledger ev,
                el_txHash = ev_txHash ev, el_data = coalesce (ev_value ev) (JObj PlainObject [])\<rparr>]\<rparr>))
              (ret True))"

definition address_chars :: "string \<Rightarrow> bool" where
  "address_chars s \<longleftrightarrow> s \<noteq> [] \<and> list_all (\<lambda>c. is_upper c \<or> is_digit c) s"

definition creator_of_value :: "jsval \<Rightarrow> jsval" where
  "creator_of_value raw =
     (let v = (case raw of JArr xs \<Rightarrow> if version_marked xs then JArr (drop 1 xs) else raw | _ \<Rightarrow> raw)
      in (case v of JArr xs \<Rightarrow> arg xs 1 | JObj c fs \<Rightarrow> get_prop v ''to'' | _ \<Rightarrow> Undefined))"

definition ROOM_TOPICS :: "string list" where
  "ROOM_TOPICS = [''tip'', ''tip_sent'', ''sub_created'', ''sub_exec'', ''sub_cancel'', ''sub_change'']"

text \<open>Best effort: with the broker down nothing is published and nothing is thrown.\<close>

definition publishProjection :: "runtime \<Rightarrow> decoded_event \<Rightarrow> unit dbio" where
  "publishProjection rt ev =
     (if \<not> rt_broker rt then ret ()
      else andthen (modify (\<lambda>d. d\<lparr>published := published d @ [(ev_topic ev, ev_ledger ev, ev_txHash ev)]\<rparr>))
        (case as_string (creator_of_value (ev_value ev)) of
           None \<Rightarrow> ret ()
         | Some c \<Rightarrow>
             if ev_topic ev \<in> set ROOM_TOPICS \<and> address_chars c
             then modify (\<lambda>d. d\<lparr>roomEvents := roomEvents d @ [(''creator:'' @ c, ''projection.created'', ev_txHash ev)]\<rparr>)
             else ret ()))"

section \<open>Tips and refunds\<close>

definition tip_payload :: "decoded_event \<Rightarrow> ParsedTip \<Rightarrow> jsval" where
  "tip_payload ev tip = payload_object [(''txHash'', JStr (ev_txHash ev)),
     (''amountStroops'', JStr (show_int (pt_amount tip))), (''fromAddress'', JStr (pt_from tip))]"

definition insert_tip :: "runtime \<Rightarrow> decoded_event \<Rightarrow> ParsedTip \<Rightarrow> unit dbio" where
  "insert_tip rt ev tip =
     bnd (fresh_id rt) (\<lambda>i. modify (\<lambda>d. d\<lparr>tips := tips d @ [\<lparr>tip_id = i, tip_txHash = ev_txHash ev,
        tip_ledger = ev_ledger ev, tip_from = pt_from tip, tip_to = pt_to tip, tip_amount = pt_amount tip,
        tip_message = pt_message tip, tip_status = CONFIRMED, tip_createdAt = rt_now rt,
       tip_networkFee = 0, tip_tokenCode = ''XLM'', tip_recipientId = None\<rparr>]\<rparr>))"

definition projectTip :: "runtime \<Rightarrow> decoded_event \<Rightarrow> unit dbio" where
  "projectTip rt ev = (case parseTip (ev_value ev) of
       None \<Rightarrow> ret ()
     | Some tip \<Rightarrow>
         bnd (try_catch
           (transaction
             (bnd (gets (tip_by_hash (ev_txHash ev))) (\<lambda>existing.
                if existing \<noteq> None then ret None
                else andthen (insert_tip rt ev tip)
                  (bnd (gets (user_by_address (pt_to tip))) (\<lambda>receiver. case receiver of
                       None \<Rightarrow> ret None
                     | Some u \<Rightarrow> persistNotification rt (u_id u) ''tip_received'' (tip_payload ev tip))))))
           (\<lambda>e. if get_prop e ''code'' = JStr ''P2002'' then ret None else throw e))
         (\<lambda>n. case n of None \<Rightarrow> ret () | Some row \<Rightarrow> emitNotificationCreated row))"

definition projectRefund :: "runtime \<Rightarrow> decoded_event \<Rightarrow> unit dbio" where
  "projectRefund rt ev = (case parseRefund (ev_value ev) of
       None \<Rightarrow> ret ()
     | Some rf \<Rightarrow>
         transaction
           (bnd (gets (tip_by_hash (pf_tipTxHash rf))) (\<lambda>tip. case tip of
                None \<Rightarrow> ret ()
              | Some t \<Rightarrow>
                  bnd (fresh_id rt) (\<lambda>i.
                  andthen (modify (\<lambda>d. d\<lparr>refunds := upsert_row rf_tipId (tip_id t)
                      \<lparr>rf_id = i, rf_tipId = tip_id t, rf_amount = pf_amount rf, rf_reason = or_empty (pf_reason rf),
                       rf_status = ''completed'', rf_txHash = Some (ev_txHash ev), rf_createdAt = rt_now rt\<rparr>
                      (\<lambda>r. r\<lparr>rf_amount := pf_amount rf, rf_reason := or_empty (pf_reason rf),
                             rf_status := ''completed'', rf_txHash := Some (ev_txHash ev)\<rparr>) (refunds d)\<rparr>))
                  (modify (\<lambda>d. d\<lparr>tips := update_rows (\<lambda>x. tip_id x = tip_id t) (\<lambda>x. x\<lparr>tip_status := REFUNDED\<rparr>) (tips d)\<rparr>))))))"

section \<open>Profiles\<close>

text \<open>The unique username constraint: another row than the upserted one holds the name.\<close>

definition username_taken :: "string \<Rightarrow> string \<Rightarrow> db \<Rightarrow> bool" where
  "username_taken address name d \<longleftrightarrow>
     exists_row (\<lambda>u. u_address u \<noteq> address \<and> u_username u = Some name) (users d)"

definition registered_name :: "jsval \<Rightarrow> string option" where
  "registered_name v = (case as_string v of Some s \<Rightarrow> if s = [] then None else Some s | None \<Rightarrow> None)"

definition projectProfileRegistered :: "runtime \<Rightarrow> decoded_event \<Rightarrow> unit dbio" where
  "projectProfileRegistered rt ev =
     (let args = tupleArgs (ev_value ev) in
      case as_string (arg args 0) of
        None \<Rightarrow> warnUnparseable
      | Some owner \<Rightarrow>
          (let name = registered_name (arg args 1) in
           bnd (gets (\<lambda>d. some_with (\<lambda>nm. username_taken owner nm d) name)) (\<lambda>taken.
           andthen (throw_unless (\<not> taken) (prisma_error ''P2002'' [''username'']))
           (bnd (fresh_id rt) (\<lambda>i.
              modify (\<lambda>d. d\<lparr>users := upsert_row u_address owner (new_user rt i owner name)
                (\<lambda>u. if name = None then u else u\<lparr>u_username := name\<rparr>) (users d)\<rparr>))))))"

definition projectProfileUpdated :: "runtime \<Rightarrow> decoded_event \<Rightarrow> unit dbio" where
  "projectProfileUpdated rt ev = (case addressArg (ev_value ev) of
       None \<Rightarrow> warnUnparseable
     | Some owner \<Rightarrow> bnd (ensureUserId rt owner) (\<lambda>_. ret ()))"

section \<open>Goals\<close>

definition upsert_goal :: "string \<Rightarrow> goal_row \<Rightarrow> (goal_row \<Rightarrow> goal_row) \<Rightarrow> unit dbio" where
  "upsert_goal i new f = modify (\<lambda>d. d\<lparr>goals := upsert_row g_id i new f (goals d)\<rparr>)"

definition new_goal :: "string \<Rightarrow> string \<Rightarrow> int \<Rightarrow> int \<Rightarrow> int option \<Rightarrow> GoalStatus \<Rightarrow> goal_row" where
  "new_goal userId title target raised deadline st = \<lparr>g_id = goalId userId, g_userId = userId, g_title = title,
     g_target = target, g_raised = raised, g_deadline = deadline, g_status = st, g_version = 0, g_deletedAt = None\<rparr>"

definition projectGoalSet :: "runtime \<Rightarrow> decoded_event \<Rightarrow> unit dbio" where
  "projectGoalSet rt ev =
     (let args = tupleArgs (ev_value ev) in
      case (as_string (arg args 0), toBigInt (arg args 1)) of
        (Some creator, Some target) \<Rightarrow>
          bnd (ensureUserId rt creator) (\<lambda>userId.
            (let title = or_empty (as_string (arg args 2)); deadline = toTimestamp (arg args 3)
             in upsert_goal (goalId userId) (new_goal userId title target 0 deadline GActive)
                  (\<lambda>g. g\<lparr>g_title := title, g_target := target, g_deadline := deadline, g_status := GActive,
                         g_version := g_version g + 1\<rparr>)))
      | _ \<Rightarrow> warnUnparseable)"

definition goal_payload :: "int \<Rightarrow> int \<Rightarrow> jsval" where
  "goal_payload target raised = payload_object
     [(''targetStroops'', JStr (show_int target)), (''raisedStroops'', JStr (show_int raised))]"

text \<open>Notification attempts whose failure is logged and swallowed.\<close>

definition notify_quietly :: "runtime \<Rightarrow> string \<Rightarrow> string \<Rightarrow> jsval \<Rightarrow> unit dbio" where
  "notify_quietly rt userId ty payload =
     try_catch (bnd (createNotification rt userId ty payload) (\<lambda>_. ret ())) (\<lambda>_. ret ())"

definition projectGoalReached :: "runtime \<Rightarrow> decoded_event \<Rightarrow> unit dbio" where
  "projectGoalReached rt ev =
     (let args = tupleArgs (ev_value ev) in
      case (as_string (arg args 0), toBigInt (arg args 1), toBigInt (arg args 2)) of
        (Some creator, Some target, Some raised) \<Rightarrow>
          bnd (ensureUserId rt creator) (\<lambda>userId.
          bnd (gets (live_goal (goalId userId))) (\<lambda>existing.
          andthen (upsert_goal (goalId userId) (new_goal userId [] target raised None GCompleted)
              (\<lambda>g. g\<lparr>g_target := target, g_raised := raised, g_status := GCompleted, g_version := g_version g + 1\<rparr>))
            (if some_with (\<lambda>g. g_status g = GCompleted) existing then ret ()
             else notify_quietly rt userId ''goal_reached'' (goal_payload target raised))))
      | _ \<Rightarrow> warnUnparseable)"

definition projectGoalCompleted :: "runtime \<Rightarrow> decoded_event \<Rightarrow> unit dbio" where
  "projectGoalCompleted rt ev =
     (let args = tupleArgs (ev_value ev) in
      case (as_string (arg args 0), toBigInt (arg args 2), toBigInt (arg args 3)) of
        (Some creator, Some target, Some raised) \<Rightarrow>
          bnd (ensureUserId rt creator) (\<lambda>userId.
            upsert_goal (goalId userId) (new_goal userId [] target raised None GCompleted)
              (\<lambda>g. g\<lparr>g_target := target, g_raised := raised, g_status := GCompleted\<rparr>))
      | _ \<Rightarrow> warnUnparseable)"

definition projectGoalCancelled :: "runtime \<Rightarrow> decoded_event \<Rightarrow> unit dbio" where
  "projectGoalCancelled rt ev = (case addressArg (ev_value ev) of
       None \<Rightarrow> warnUnparseable
     | Some creator \<Rightarrow>
         bnd (ensureUserId rt creator) (\<lambda>userId.
           modify (\<lambda>d. d\<lparr>goals := update_rows (\<lambda>g. g_id g = goalId userId)
             (\<lambda>g. g\<lparr>g_status := GCancelled, g_version := g_version g + 1\<rparr>) (goals d)\<rparr>)))"

section \<open>Subscriptions\<close>

text \<open>The columns that a confirmed period or a fresh agreement clears.\<close>

definition clear_dunning :: "subscription_row \<Rightarrow> subscription_row" where
  "clear_dunning s = s\<lparr>s_pendingAmount := None, s_pendingInterval := None, s_changeEffectiveAt := None,
     s_failureCount := 0, s_dunningStartedAt := None, s_nextRetryAt := None, s_failureReason := None,
     s_attemptStartedAt := None\<rparr>"

definition new_subscription ::
  "runtime \<Rightarrow> string \<Rightarrow> string \<Rightarrow> int \<Rightarrow> SubscriptionInterval \<Rightarrow> int \<Rightarrow> subscription_row" where
  "new_subscription rt tipperId creatorId amount interval nextChargeAt =
     \<lparr>s_id = subscriptionId tipperId creatorId, s_tipperId = tipperId, s_creatorId = creatorId,
      s_amount = amount, s_interval = interval, s_nextChargeAt = nextChargeAt, s_status = ACTIVE,
      s_pendingAmount = None, s_pendingInterval = None, s_changeEffectiveAt = None, s_failureCount = 0,
      s_dunningStartedAt = None, s_nextRetryAt = None, s_failureReason = None, s_attemptStartedAt = None,
      s_createdAt = rt_now rt, s_deletedAt = None\<rparr>"

definition upsert_subscription ::
  "string \<Rightarrow> subscription_row \<Rightarrow> (subscription_row \<Rightarrow> subscription_row) \<Rightarrow> unit dbio" where
  "upsert_subscription i new f = modify (\<lambda>d. d\<lparr>subscriptions := upsert_row s_id i new f (subscriptions d)\<rparr>)"

definition projectSubscriptionCreated :: "runtime \<Rightarrow> decoded_event \<Rightarrow> bool \<Rightarrow> unit dbio" where
  "projectSubscriptionCreated rt ev isNewEvent =
     (if \<not> isNewEvent then ret ()
      else let args = subscriptionArgs (ev_value ev) in
        case (as_string (arg args 0), as_string (arg args 1), toBigInt (arg args 2)) of
          (Some subscriber, Some creator, Some amount) \<Rightarrow>
            bnd (ensureUserId rt subscriber) (\<lambda>tipperId.
            bnd (ensureUserId rt creator) (\<lambda>creatorId.
              (let days = toIntervalDays (arg args 3);
                   nextChargeAt = (case toTimestamp (arg args 4) of Some t \<Rightarrow> t | None \<Rightarrow> addDays (rt_now rt) days)
               in upsert_subscription (subscriptionId tipperId creatorId)
                    (new_subscription rt tipperId creatorId amount (intervalFromDays days) nextChargeAt)
                    (\<lambda>s. clear_dunning (s\<lparr>s_amount := amount, s_interval := intervalFromDays days,
                           s_status := ACTIVE, s_nextChargeAt := nextChargeAt\<rparr>)))))
        | _ \<Rightarrow> warnUnparseable)"

definition projectSubscriptionChange :: "runtime \<Rightarrow> decoded_event \<Rightarrow> bool \<Rightarrow> unit dbio" where
  "projectSubscriptionChange rt ev isNewEvent =
     (if \<not> isNewEvent then ret ()
      else let args = subscriptionArgs (ev_value ev) in
        case (as_string (arg args 0), as_string (arg args 1), toBigInt (arg args 2), toBigInt (arg args 4)) of
          (Some subscriber, Some creator, Some amount, Some effective) \<Rightarrow>
            bnd (ensureUserId rt subscriber) (\<lambda>tipperId.
            bnd (ensureUserId rt creator) (\<lambda>creatorId.
              modify (\<lambda>d. d\<lparr>subscriptions :=
                update_rows (\<lambda>s. s_id s = subscriptionId tipperId creatorId \<and> s_status s = ACTIVE)
                  (\<lambda>s. s\<lparr>s_pendingAmount := Some amount,
                         s_pendingInterval := Some (intervalFromDays (toIntervalDays (arg args 3))),
                         s_changeEffectiveAt := Some (effective * 1000)\<rparr>) (subscriptions d)\<rparr>)))
        | _ \<Rightarrow> warnUnparseable)"

definition interval_days :: "SubscriptionInterval \<Rightarrow> int" where
  "interval_days i = (case i of DAILY \<Rightarrow> 1 | WEEKLY \<Rightarrow> 7 | MONTHLY \<Rightarrow> 30)"

definition charged_interval :: "jsval \<Rightarrow> subscription_row option \<Rightarrow> SubscriptionInterval" where
  "charged_interval charged previous =
     (if charged \<noteq> Undefined then intervalFromDays (toIntervalDays charged)
      else (case previous of
          None \<Rightarrow> MONTHLY
        | Some p \<Rightarrow> (case s_pendingInterval p of Some i \<Rightarrow> i | None \<Rightarrow> s_interval p)))"

definition projectSubscriptionCharged :: "runtime \<Rightarrow> decoded_event \<Rightarrow> bool \<Rightarrow> unit dbio" where
  "projectSubscriptionCharged rt ev isNewEvent =
     (let args = subscriptionArgs (ev_value ev) in
      case (as_string (arg args 0), as_string (arg args 1), toBigInt (arg args 2)) of
        (Some subscriber, Some creator, Some amount) \<Rightarrow>
          bnd (ensureUserId rt subscriber) (\<lambda>tipperId.
          bnd (ensureUserId rt creator) (\<lambda>creatorId.
            if \<not> isNewEvent then ret ()
            else
              bnd (gets (live_subscription (subscriptionId tipperId creatorId))) (\<lambda>previous.
                (let nextInterval = charged_interval (arg args 3) previous;
                     confirmed = toTimestamp (arg args 4);
                     created = (case confirmed of Some t \<Rightarrow> t | None \<Rightarrow> addDays (rt_now rt) 30);
                     updated = (case confirmed of Some t \<Rightarrow> t
                       | None \<Rightarrow> addDays (case previous of Some p \<Rightarrow> s_nextChargeAt p | None \<Rightarrow> rt_now rt)
                                   (interval_days nextInterval))
                 in andthen (upsert_subscription (subscriptionId tipperId creatorId)
                      (new_subscription rt tipperId creatorId amount nextInterval created)
                      (\<lambda>s. clear_dunning (s\<lparr>s_amount := amount, s_status := ACTIVE, s_interval := nextInterval,
                             s_nextChargeAt := updated\<rparr>)))
                    (notify_quietly rt creatorId ''subscription_charged'' (payload_object
                      [(''tipperId'', JStr tipperId), (''amountStroops'', JStr (show_int amount))]))))))
      | _ \<Rightarrow> warnUnparseable)"

definition projectSubscriptionCancelled :: "runtime \<Rightarrow> decoded_event \<Rightarrow> bool \<Rightarrow> unit dbio" where
  "projectSubscriptionCancelled rt ev isNewEvent =
     (if \<not> isNewEvent then ret ()
      else let args = subscriptionArgs (ev_value ev) in
        case (as_string (arg args 0), as_string (arg args 1)) of
          (Some subscriber, Some creator) \<Rightarrow>
            bnd (ensureUserId rt subscriber) (\<lambda>tipperId.
            bnd (ensureUserId rt creator) (\<lambda>creatorId.
              modify (\<lambda>d. d\<lparr>subscriptions :=
                update_rows (\<lambda>s. s_id s = subscriptionId tipperId creatorId)
                  (\<lambda>s. s\<lparr>s_status := CANCELLED, s_pendingAmount := None, s_pendingInterval := None,
                         s_changeEffectiveAt := None, s_nextRetryAt := None, s_attemptStartedAt := None\<rparr>)
                  (subscriptions d)\<rparr>)))
        | _ \<Rightarrow> warnUnparseable)"

section \<open>Credit scores\<close>

definition historyId :: "string \<Rightarrow> int \<Rightarrow> string" where
  "historyId userId ledger = ''credit_history_'' @ userId @ ''_'' @ show_int ledger"

text \<open>The score columns are integers: the ORM refuses any other number.\<close>

definition projectCreditScoreUpdated :: "runtime \<Rightarrow> decoded_event \<Rightarrow> unit dbio" where
  "projectCreditScoreUpdated rt ev =
     (let args = tupleArgs (ev_value ev) in
      case (as_string (arg args 0), toNumber (arg args 2)) of
        (Some creator, Some newScore) \<Rightarrow>
          bnd (ensureUserId rt creator) (\<lambda>userId.
            (let h = historyId userId (ev_ledger ev); v = j_to_int newScore in
             transaction
              (andthen (throw_unless (is_integer newScore) (js_error ''Invalid value for an integer column''))
              (andthen (modify (\<lambda>d. d\<lparr>scores := upsert_row sc_userId userId
                  \<lparr>sc_userId = userId, sc_value = v, sc_computedAt = rt_now rt\<rparr>
                  (\<lambda>s. s\<lparr>sc_value := v, sc_computedAt := rt_now rt\<rparr>) (scores d)\<rparr>))
               (modify (\<lambda>d. d\<lparr>histories := upsert_row h_id h
                  \<lparr>h_id = h, h_userId = userId, h_value = v, h_computedAt = rt_now rt\<rparr> id (histories d)\<rparr>))))))
      | _ \<Rightarrow> warnUnparseable)"

section \<open>Dispatch\<close>

datatype handler = ProfileRegistered | ProfileUpdated | GoalSet | GoalReached | GoalCompleted | GoalCancel
  | SubCreated | SubChange | SubExec | SubCancel | CreditUpdated

definition PROJECTIONS :: "(string \<times> handler) list" where
  "PROJECTIONS = [(''profile_register'', ProfileRegistered), (''profile_updated'', ProfileUpdated),
     (''goal_set'', GoalSet), (''goal_reached'', GoalReached), (''goal_completed'', GoalCompleted),
     (''goal_cancel'', GoalCancel), (''sub_created'', SubCreated), (''sub_change'', SubChange),
     (''sub_exec'', SubExec), (''sub_cancel'', SubCancel), (''credit_updated'', CreditUpdated)]"

fun run_handler :: "handler \<Rightarrow> runtime \<Rightarrow> decoded_event \<Rightarrow> bool \<Rightarrow> unit dbio" where
  "run_handler ProfileRegistered rt ev new = projectProfileRegistered rt ev"
| "run_handler ProfileUpdated rt ev new = projectProfileUpdated rt ev"
| "run_handler GoalSet rt ev new = projectGoalSet rt ev"
| "run_handler GoalReached rt ev new = projectGoalReached rt ev"
| "run_handler GoalCompleted rt ev new = projectGoalCompleted rt ev"
| "run_handler GoalCancel rt ev new = projectGoalCancelled rt ev"
| "run_handler SubCreated rt ev new = projectSubscriptionCreated rt ev new"
| "run_handler SubChange rt ev new = projectSubscriptionChange rt ev new"
| "run_handler SubExec rt ev new = projectSubscriptionCharged rt ev new"
| "run_handler SubCancel rt ev new = projectSubscriptionCancelled rt ev new"
| "run_handler CreditUpdated rt ev new = projectCreditScoreUpdated rt ev"

text \<open>The handler part of a non-tip event.\<close>

definition project_other :: "runtime \<Rightarrow> decoded_event \<Rightarrow> bool \<Rightarrow> unit dbio" where
  "project_other rt ev isNewEvent =
     andthen
       (case map_of PROJECTIONS (ev_topic ev) of
          Some h \<Rightarrow> run_handler h rt ev isNewEvent
        | None \<Rightarrow> if ev_topic ev \<notin> set REFUND_TOPICS then warnUnparseable else ret ())
       (if ev_topic ev \<in> set REFUND_TOPICS then projectRefund rt ev else ret ())"

definition projectEvent :: "runtime \<Rightarrow> decoded_event \<Rightarrow> unit dbio" where
  "projectEvent rt ev =
     bnd (persistEventLog ev) (\<lambda>isNewEvent.
       andthen (if ev_topic ev \<in> set TIP_TOPICS then projectTip rt ev else project_other rt ev isNewEvent)
         (if isNewEvent then publishProjection rt ev else ret ()))"

section \<open>Running the shared effects\<close>

definition ensured :: "runtime \<Rightarrow> string \<Rightarrow> db \<Rightarrow> db" where
  "ensured rt a d = d\<lparr>nextId := nextId d + 1,
     users := upsert_row u_address a (new_user rt (rt_cuid rt (nextId d)) a None) id (users d)\<rparr>"

definition uid :: "string \<Rightarrow> user_row list \<Rightarrow> string" where
  "uid a us = (case find_by u_address a us of Some u \<Rightarrow> u_id u | None \<Rightarrow> [])"

definition known :: "string \<Rightarrow> user_row list \<Rightarrow> bool" where
  "known a us \<longleftrightarrow> find_by u_address a us \<noteq> None"

lemma ensureUserId_bnd [simp]:
  "bnd (ensureUserId rt a) f d = f (uid a (users (ensured rt a d))) (ensured rt a d)"
  by (simp add: ensureUserId_def ensured_def uid_def cong: option.case_cong)

lemma ensured_frame [simp]:
  "tips (ensured rt a d) = tips d" "refunds (ensured rt a d) = refunds d" "goals (ensured rt a d) = goals d"
  "subscriptions (ensured rt a d) = subscriptions d" "eventLog (ensured rt a d) = eventLog d"
  "notifications (ensured rt a d) = notifications d" "deliveries (ensured rt a d) = deliveries d"
  "emitted (ensured rt a d) = emitted d" "published (ensured rt a d) = published d"
  "roomEvents (ensured rt a d) = roomEvents d" "batches (ensured rt a d) = batches d"
  "scores (ensured rt a d) = scores d" "histories (ensured rt a d) = histories d"
  by (simp_all add: ensured_def)

lemma new_user_address [simp]: "u_address (new_user rt i a nm) = a"
  by (simp add: new_user_def)

lemma known_ensured [simp]: "known b (users (ensured rt a d)) \<longleftrightarrow> b = a \<or> known b (users d)"
  using users_by_address.lookup_upsert_known [where k = a and f = id and xs = "users d" and k' = b
      and new = "new_user rt (rt_cuid rt (nextId d)) a None"]
  by (simp add: known_def ensured_def)

lemma users_ensured_known: "known a (users d) \<Longrightarrow> users (ensured rt a d) = users d"
  by (auto simp: ensured_def known_def upsert_row_def exists_row_find find_by_def)

lemma uid_ensured: "known b (users d) \<Longrightarrow> uid b (users (ensured rt a d)) = uid b (users d)"
proof (cases "b = a")
  case False
  then show ?thesis by (simp add: uid_def ensured_def users_by_address.lookup_upsert_other)
qed (simp add: users_ensured_known)

text \<open>Notifying leaves the projected tables alone and never throws.\<close>

lemma enqueue_frame:
  "enqueueTipBatch u p w t d = (r, e) \<Longrightarrow> users e = users d \<and> tips e = tips d \<and> refunds e = refunds d \<and>
    goals e = goals d \<and> subscriptions e = subscriptions d \<and> eventLog e = eventLog d \<and>
    scores e = scores d \<and> histories e = histories d \<and> cursors e = cursors d \<and> checkpoints e = checkpoints d \<and>
     schedules e = schedules d \<and> withdrawals e = withdrawals d"
  by (auto simp: enqueueTipBatch_def Let_def split: if_splits)

lemma create_frame:
  "create_notification_row rt u ty p d = (r, e) \<Longrightarrow> users e = users d \<and> tips e = tips d \<and> refunds e = refunds d \<and>
    goals e = goals d \<and> subscriptions e = subscriptions d \<and> eventLog e = eventLog d \<and>
    scores e = scores d \<and> histories e = histories d \<and> cursors e = cursors d \<and> checkpoints e = checkpoints d \<and>
     schedules e = schedules d \<and> withdrawals e = withdrawals d"
  by (auto simp: create_notification_row_run Let_def)

definition same_tables :: "db \<Rightarrow> db \<Rightarrow> bool" where
  "same_tables d e \<longleftrightarrow> users e = users d \<and> tips e = tips d \<and> refunds e = refunds d \<and> goals e = goals d \<and>
     subscriptions e = subscriptions d \<and> eventLog e = eventLog d \<and> scores e = scores d \<and> histories e = histories d \<and>
     cursors e = cursors d \<and> checkpoints e = checkpoints d \<and>
     schedules e = schedules d \<and> withdrawals e = withdrawals d"

lemma same_tables_refl [simp]: "same_tables d d"
  by (simp add: same_tables_def)

lemma persist_frame: "persistNotification rt u ty p d = (r, e) \<Longrightarrow> same_tables d e"
  unfolding same_tables_def persistNotification_def
  by (auto simp: create_notification_row_run Let_def bnd_def [of "enqueueTipBatch _ _ _ _"]
      split: if_splits prod.splits sum.splits dest!: enqueue_frame)

lemma persist_error: "persistNotification rt u ty p d = (Inl x, e) \<Longrightarrow> get_prop x ''code'' = Undefined"
  by (auto simp: persistNotification_def enqueueTipBatch_def Let_def js_error_def split: if_splits)

lemma notify_quietly_run:
  "\<exists>e. notify_quietly rt u ty p d = (Inr (), e) \<and> same_tables d e"
proof -
  obtain r e where run: "persistNotification rt u ty p d = (r, e)" by force
  note persist_frame [OF run]
  with run show ?thesis
    by (auto simp: notify_quietly_def try_catch_def createNotification_def bnd_def emitNotificationCreated_def
        andthen_def same_tables_def split: sum.splits option.splits)
qed

lemma notify_quietly_bnd:
  "bnd (notify_quietly rt u ty p) f d = f () (snd (notify_quietly rt u ty p d))"
  using notify_quietly_run [of rt u ty p d] by (auto simp: bnd_def)

lemma notify_quietly_frame:
  "same_tables d (snd (notify_quietly rt u ty p d))"
  using notify_quietly_run [of rt u ty p d] by auto

lemma notify_quietly_tables [simp]:
  "users (snd (notify_quietly rt u ty p d)) = users d"
  "goals (snd (notify_quietly rt u ty p d)) = goals d"
  "subscriptions (snd (notify_quietly rt u ty p d)) = subscriptions d"
  "eventLog (snd (notify_quietly rt u ty p d)) = eventLog d"
  using notify_quietly_frame [of d rt u ty p] by (simp_all add: same_tables_def)

section \<open>Replays\<close>

text \<open>What readers see of the projected state, up to version counters and time stamps.\<close>

definition goal_core :: "goal_row \<Rightarrow> goal_row" where
  "goal_core g = g\<lparr>g_version := 0\<rparr>"

definition score_core :: "score_row \<Rightarrow> score_row" where
  "score_core s = s\<lparr>sc_computedAt := 0\<rparr>"

definition same_view :: "db \<Rightarrow> db \<Rightarrow> bool" where
  "same_view d e \<longleftrightarrow> users e = users d \<and> tips e = tips d \<and> refunds e = refunds d \<and>
     subscriptions e = subscriptions d \<and> eventLog e = eventLog d \<and> notifications e = notifications d \<and>
     deliveries e = deliveries d \<and> emitted e = emitted d \<and> published e = published d \<and>
     roomEvents e = roomEvents d \<and> batches e = batches d \<and> histories e = histories d \<and>
     map goal_core (goals e) = map goal_core (goals d) \<and> map score_core (scores e) = map score_core (scores d)"

lemma same_view_refl [simp]: "same_view d d"
  by (simp add: same_view_def)

text \<open>
  \<open>replays H d e\<close>: running the effect \<open>H\<close> on a state whose tables are those of \<open>e\<close> returns
  without changing what readers see.
\<close>

definition replays :: "unit dbio \<Rightarrow> db \<Rightarrow> bool" where
  "replays H e \<longleftrightarrow> (\<forall>d1. same_tables e d1 \<longrightarrow> (\<exists>d2. H d1 = (Inr (), d2) \<and> same_view d1 d2))"

lemma replays_ret [simp]: "replays (ret ()) e"
  by (simp add: replays_def)

lemma replays_ensured: "known a (users d) \<Longrightarrow> same_view d (ensured rt a d)"
  by (simp add: same_view_def users_ensured_known)

lemma tip_replays:
  assumes "projectTip rt ev d = (Inr (), e)"
  shows "replays (projectTip rt' ev) e"
proof (cases "parseTip (ev_value ev)")
  case None
  then show ?thesis by (simp add: projectTip_def replays_def)
next
  case (Some tip)
  have "tip_by_hash (ev_txHash ev) e \<noteq> None"
  proof (cases "tip_by_hash (ev_txHash ev) d")
    case None
    define d0 where "d0 = snd (insert_tip rt ev tip d)"
    have ins: "insert_tip rt ev tip d = (Inr (), d0)"
      by (simp add: d0_def insert_tip_def)
    have d0: "tip_by_hash (ev_txHash ev) d0 \<noteq> None"
      by (simp add: d0_def insert_tip_def tip_by_hash_def find_by_None)
    obtain r e0 where p: "(case user_by_address (pt_to tip) d0 of None \<Rightarrow> ret None
        | Some u \<Rightarrow> persistNotification rt (u_id u) ''tip_received'' (tip_payload ev tip)) d0 = (r, e0)"
      by force
    then have "same_tables d0 e0"
      using persist_frame by (auto split: option.splits)
    with p ins Some None assms d0 show ?thesis
      by (auto dest!: persist_error simp: projectTip_def try_catch_def transaction_def bnd_def andthen_def same_tables_def tip_by_hash_def
          emitNotificationCreated_def split: option.splits sum.splits if_splits)
  next
    case (Some t)
    with \<open>parseTip (ev_value ev) = Some tip\<close> assms show ?thesis
      by (simp add: projectTip_def transaction_run)
  qed
  with Some show ?thesis
    by (auto simp: replays_def projectTip_def transaction_run same_tables_def tip_by_hash_def)
qed

lemma refund_replays:
  assumes "projectRefund rt ev d = (Inr (), e)"
  shows "replays (projectRefund rt' ev) e"
proof (cases "parseRefund (ev_value ev)")
  case None
  then show ?thesis by (simp add: projectRefund_def)
next
  case (Some rf)
  show ?thesis
  proof (cases "tip_by_hash (pf_tipTxHash rf) d")
    case None
    with Some assms show ?thesis
      by (auto simp: projectRefund_def transaction_run replays_def same_tables_def tip_by_hash_def)
  next
    case t: (Some t)
    define f where "f = (\<lambda>r. r\<lparr>rf_amount := pf_amount rf, rf_reason := or_empty (pf_reason rf),
      rf_status := ''completed'', rf_txHash := Some (ev_txHash ev)\<rparr> :: refund_row)"
    define new where "new = (\<lambda>i now. \<lparr>rf_id = i, rf_tipId = tip_id t, rf_amount = pf_amount rf,
      rf_reason = or_empty (pf_reason rf), rf_status = ''completed'', rf_txHash = Some (ev_txHash ev), rf_createdAt = now\<rparr>)"
    define paid where "paid = update_rows (\<lambda>x. tip_id x = tip_id t) (\<lambda>x :: tip_row. x\<lparr>tip_status := REFUNDED\<rparr>)"
    have run: "projectRefund rt0 ev d0 = (Inr (), d0\<lparr>nextId := nextId d0 + 1,
        refunds := upsert_row rf_tipId (tip_id t) (new (rt_cuid rt0 (nextId d0)) (rt_now rt0)) f (refunds d0),
        tips := paid (tips d0)\<rparr>)"
      if "tip_by_hash (pf_tipTxHash rf) d0 = Some t0" "tip_id t0 = tip_id t" for rt0 d0 t0
      using Some that by (simp add: projectRefund_def transaction_run f_def new_def paid_def)
    have e: "refunds e = upsert_row rf_tipId (tip_id t) (new (rt_cuid rt (nextId d)) (rt_now rt)) f (refunds d)"
        "tips e = paid (tips d)"
      using run [OF t] assms by auto
    have "tip_by_hash (pf_tipTxHash rf) e = Some (t\<lparr>tip_status := REFUNDED\<rparr>)"
      using t by (simp add: tip_by_hash_def e paid_def find_by_update)
    moreover have "upsert_row rf_tipId (tip_id t) new' f (refunds e) = refunds e" for new'
      using refunds_by_tip.upsert_again [where core = id and f = f and f' = f and xs = "refunds d"
          and k = "tip_id t" and new = "new (rt_cuid rt (nextId d)) (rt_now rt)" and new' = new']
      by (simp add: e f_def new_def)
    moreover have "paid (tips e) = tips e"
      by (simp add: e paid_def update_rows_idem)
    ultimately show ?thesis
      by (auto simp: replays_def same_tables_def same_view_def tip_by_hash_def
          intro!: exI run [unfolded tip_by_hash_def])
  qed
qed

lemma warn_replays [simp]: "replays warnUnparseable e"
  by (simp add: replays_def warnUnparseable_def same_view_def)

lemma register_replays:
  assumes "projectProfileRegistered rt ev d = (Inr (), e)"
  shows "replays (projectProfileRegistered rt' ev) e"
proof (cases "as_string (arg (tupleArgs (ev_value ev)) 0)")
  case None
  then show ?thesis by (simp add: projectProfileRegistered_def Let_def)
next
  case (Some owner)
  define name where "name = registered_name (arg (tupleArgs (ev_value ev)) (Suc 0))"
  define f where "f = (\<lambda>u :: user_row. if name = None then u else u\<lparr>u_username := name\<rparr>)"
  define new where "new = new_user rt (rt_cuid rt (nextId d)) owner name"
  have run: "projectProfileRegistered rt0 ev d0 =
      (if some_with (\<lambda>nm. username_taken owner nm d0) name then (Inl (prisma_error ''P2002'' [''username'']), d0)
       else (Inr (), d0\<lparr>nextId := nextId d0 + 1,
         users := upsert_row u_address owner (new_user rt0 (rt_cuid rt0 (nextId d0)) owner name) f (users d0)\<rparr>))"
    for rt0 d0
    using Some by (simp add: projectProfileRegistered_def Let_def name_def [symmetric] f_def)
  have free: "\<not> some_with (\<lambda>nm. username_taken owner nm d) name"
      and e: "users e = upsert_row u_address owner new f (users d)"
    using run [of rt d] assms by (auto simp: new_def split: if_splits)
  have new: "u_address new = owner" "u_username new = name" "\<And>u. u_address (f u) = u_address u"
    by (simp_all add: new_def new_user_def f_def)
  have "\<not> some_with (\<lambda>nm. username_taken owner nm e) name"
    using free new by (auto simp: some_with_iff username_taken_def exists_row_iff e upsert_row_def set_update_rows)
  moreover have "upsert_row u_address owner new' f (users e) = users e" for new'
    using users_by_address.upsert_again [where core = id and f = f and f' = f and xs = "users d"
        and k = owner and new = new and new' = new'] new
    by (auto simp: e f_def)
  ultimately show ?thesis
    by (auto simp: replays_def same_tables_def run same_view_def some_with_iff username_taken_def)
qed

lemma updated_replays:
  "projectProfileUpdated rt ev d = (Inr (), e) \<Longrightarrow> replays (projectProfileUpdated rt' ev) e"
proof (cases "addressArg (ev_value ev)")
  case (Some a)
  moreover assume "projectProfileUpdated rt ev d = (Inr (), e)"
  ultimately show ?thesis
    by (auto simp: projectProfileUpdated_def replays_def same_tables_def intro!: replays_ensured)
qed (simp add: projectProfileUpdated_def)

lemma goal_set_replays:
  "projectGoalSet rt ev d = (Inr (), e) \<Longrightarrow> replays (projectGoalSet rt' ev) e"
proof (cases "as_string (arg (tupleArgs (ev_value ev)) 0)"; cases "toBigInt (arg (tupleArgs (ev_value ev)) (Suc 0))")
  fix a n
  assume p: "as_string (arg (tupleArgs (ev_value ev)) 0) = Some a" "toBigInt (arg (tupleArgs (ev_value ev)) (Suc 0)) = Some n"
  let ?f = "\<lambda>g. g\<lparr>g_title := or_empty (as_string (arg (tupleArgs (ev_value ev)) 2)), g_target := n,
    g_deadline := toTimestamp (arg (tupleArgs (ev_value ev)) 3), g_status := GActive, g_version := g_version g + 1\<rparr>"
  let ?new = "\<lambda>u. new_goal u (or_empty (as_string (arg (tupleArgs (ev_value ev)) 2))) n 0
    (toTimestamp (arg (tupleArgs (ev_value ev)) 3)) GActive"
  have run: "projectGoalSet rt0 ev d0 = (Inr (), (ensured rt0 a d0)\<lparr>goals :=
      upsert_row g_id (goalId (uid a (users (ensured rt0 a d0)))) (?new (uid a (users (ensured rt0 a d0)))) ?f (goals d0)\<rparr>)"
    for rt0 d0
    using p by (simp add: projectGoalSet_def upsert_goal_def Let_def)
  assume "projectGoalSet rt ev d = (Inr (), e)"
  with run [of rt d] have e: "users e = users (ensured rt a d)"
      "goals e = upsert_row g_id (goalId (uid a (users e))) (?new (uid a (users e))) ?f (goals d)"
    by auto
  then have "known a (users e)" by simp
  then have "users (ensured rt' a d1) = users e" if "users d1 = users e" for d1
    using that users_ensured_known [of a d1] by simp
  moreover have "map goal_core (upsert_row g_id (goalId (uid a (users e))) (?new (uid a (users e))) ?f (goals e)) =
      map goal_core (goals e)"
    unfolding e(2) by (rule goals_by_id.upsert_again) (simp_all add: new_goal_def goal_core_def)
  ultimately show "replays (projectGoalSet rt' ev) e"
    by (simp add: replays_def same_tables_def same_view_def run)
qed (simp_all add: projectGoalSet_def Let_def)

lemma goal_completed_replays:
  "projectGoalCompleted rt ev d = (Inr (), e) \<Longrightarrow> replays (projectGoalCompleted rt' ev) e"
proof (cases "as_string (arg (tupleArgs (ev_value ev)) 0)"; cases "toBigInt (arg (tupleArgs (ev_value ev)) 2)";
    cases "toBigInt (arg (tupleArgs (ev_value ev)) 3)")
  fix a n r
  assume p: "as_string (arg (tupleArgs (ev_value ev)) 0) = Some a" "toBigInt (arg (tupleArgs (ev_value ev)) 2) = Some n"
    "toBigInt (arg (tupleArgs (ev_value ev)) 3) = Some r"
  let ?f = "\<lambda>g. g\<lparr>g_target := n, g_raised := r, g_status := GCompleted\<rparr>"
  let ?new = "\<lambda>u. new_goal u [] n r None GCompleted"
  have run: "projectGoalCompleted rt0 ev d0 = (Inr (), (ensured rt0 a d0)\<lparr>goals :=
      upsert_row g_id (goalId (uid a (users (ensured rt0 a d0)))) (?new (uid a (users (ensured rt0 a d0)))) ?f (goals d0)\<rparr>)"
    for rt0 d0
    using p by (simp add: projectGoalCompleted_def upsert_goal_def Let_def)
  assume "projectGoalCompleted rt ev d = (Inr (), e)"
  with run [of rt d] have e: "users e = users (ensured rt a d)"
      "goals e = upsert_row g_id (goalId (uid a (users e))) (?new (uid a (users e))) ?f (goals d)"
    by auto
  then have "known a (users e)" by simp
  then have "users (ensured rt' a d1) = users e" if "users d1 = users e" for d1
    using that users_ensured_known [of a d1] by simp
  moreover have "map goal_core (upsert_row g_id (goalId (uid a (users e))) (?new (uid a (users e))) ?f (goals e)) =
      map goal_core (goals e)"
    unfolding e(2) by (rule goals_by_id.upsert_again) (simp_all add: new_goal_def goal_core_def)
  ultimately show "replays (projectGoalCompleted rt' ev) e"
    by (simp add: replays_def same_tables_def same_view_def run)
qed (simp_all add: projectGoalCompleted_def Let_def)

lemma goal_cancelled_replays:
  assumes "projectGoalCancelled rt ev d = (Inr (), e)"
  shows "replays (projectGoalCancelled rt' ev) e"
proof (cases "addressArg (ev_value ev)")
  case (Some a)
  let ?cancel = "\<lambda>u. update_rows (\<lambda>g. g_id g = goalId u) (\<lambda>g. g\<lparr>g_status := GCancelled, g_version := g_version g + 1\<rparr>)"
  have run: "projectGoalCancelled rt0 ev d0 = (Inr (), (ensured rt0 a d0)\<lparr>goals := ?cancel (uid a (users (ensured rt0 a d0))) (goals d0)\<rparr>)"
    for rt0 d0
    using Some by (simp add: projectGoalCancelled_def)
  have e: "users e = users (ensured rt a d)" "goals e = ?cancel (uid a (users e)) (goals d)"
    using run [of rt d] assms by auto
  then have "known a (users e)" by simp
  then have "users (ensured rt' a d1) = users e" if "users d1 = users e" for d1
    using that users_ensured_known [of a d1] by simp
  moreover have "map goal_core (?cancel (uid a (users e)) (goals e)) = map goal_core (goals e)"
    unfolding e(2) by (simp add: update_rows_def goal_core_def)
  ultimately show ?thesis
    by (simp add: replays_def same_tables_def same_view_def run)
qed (simp add: projectGoalCancelled_def)

text \<open>
  The notification of a reached goal is sent again when the goal's row is soft-deleted, which
  hides it from the lookup; the replay law needs that no goal is.
\<close>

definition goals_live :: "db \<Rightarrow> bool" where
  "goals_live d \<longleftrightarrow> (\<forall>g \<in> set (goals d). g_deletedAt g = None)"

lemma live_goal_find: "goals_live d \<Longrightarrow> live_goal i d = find_by g_id i (goals d)"
proof -
  have "find_row (\<lambda>g. g_id g = i \<and> g_deletedAt g = None) gs = find_row (\<lambda>g. g_id g = i) gs"
    if "\<forall>g \<in> set gs. g_deletedAt g = None" for gs :: "goal_row list"
    using that by (induction gs) auto
  then show "goals_live d \<Longrightarrow> ?thesis" by (simp add: goals_live_def live_goal_def find_by_def)
qed

lemma goal_reached_replays:
  assumes "projectGoalReached rt ev d = (Inr (), e)" and "goals_live d"
  shows "replays (projectGoalReached rt' ev) e"
proof (cases "\<exists>a n r. as_string (arg (tupleArgs (ev_value ev)) 0) = Some a \<and>
    toBigInt (arg (tupleArgs (ev_value ev)) (Suc 0)) = Some n \<and> toBigInt (arg (tupleArgs (ev_value ev)) 2) = Some r")
  case False
  then have "projectGoalReached rt' ev = warnUnparseable"
    by (auto simp: projectGoalReached_def Let_def split: option.splits)
  then show ?thesis by simp
next
  case True
  then obtain a n r where p: "as_string (arg (tupleArgs (ev_value ev)) 0) = Some a"
    "toBigInt (arg (tupleArgs (ev_value ev)) (Suc 0)) = Some n" "toBigInt (arg (tupleArgs (ev_value ev)) 2) = Some r"
    by auto
  define f where "f = (\<lambda>g. g\<lparr>g_target := n, g_raised := r, g_status := GCompleted, g_version := g_version g + 1\<rparr> :: goal_row)"
  define new where "new = (\<lambda>u. new_goal u [] n r None GCompleted)"
  define mid where "mid = (\<lambda>rt0 d0. (ensured rt0 a d0)\<lparr>goals := upsert_row g_id
      (goalId (uid a (users (ensured rt0 a d0)))) (new (uid a (users (ensured rt0 a d0)))) f (goals d0)\<rparr>)"
  have run: "projectGoalReached rt0 ev d0 =
      (if some_with (\<lambda>g. g_status g = GCompleted) (live_goal (goalId (uid a (users (ensured rt0 a d0)))) (ensured rt0 a d0))
       then ret () else notify_quietly rt0 (uid a (users (ensured rt0 a d0))) ''goal_reached'' (goal_payload n r)) (mid rt0 d0)"
    for rt0 d0
    using p by (simp add: projectGoalReached_def upsert_goal_def Let_def f_def new_def mid_def del: case_option_run)
  have "e = snd (projectGoalReached rt ev d)"
    using assms(1) by simp
  then have "same_tables (mid rt d) e"
    by (simp add: run notify_quietly_frame)
  then have e: "users e = users (ensured rt a d)"
      "goals e = upsert_row g_id (goalId (uid a (users e))) (new (uid a (users e))) f (goals d)"
    by (auto simp: same_tables_def mid_def)
  then have "known a (users e)" by simp
  then have us: "users (ensured rt' a d1) = users e" if "users d1 = users e" for d1
    using that users_ensured_known [of a d1] by simp
  have keys: "g_id (new u) = goalId u" "g_status (new u) = GCompleted" "g_deletedAt (new u) = None"
      "g_id (f g) = g_id g" "g_status (f g) = GCompleted" "g_deletedAt (f g) = g_deletedAt g" for u g
    by (simp_all add: new_def new_goal_def f_def)
  have core: "map goal_core (upsert_row g_id (goalId (uid a (users e))) (new (uid a (users e))) f (goals e)) =
      map goal_core (goals e)"
    unfolding e(2) by (rule goals_by_id.upsert_again) (simp_all add: keys(1,4), simp_all add: new_def f_def new_goal_def goal_core_def)
  have "goals_live e"
    using assms(2) keys by (auto simp: goals_live_def e(2) upsert_row_def set_update_rows)
  moreover have "some_with (\<lambda>g. g_status g = GCompleted) (find_by g_id (goalId (uid a (users e))) (goals e))"
    unfolding e(2) by (subst goals_by_id.lookup_upsert_same) (simp_all add: keys split: option.splits)
  ultimately have "some_with (\<lambda>g. g_status g = GCompleted) (live_goal (goalId (uid a (users e))) d1)"
    if "goals d1 = goals e" for d1
    using that live_goal_find [of d1] by (simp add: goals_live_def)
  then show ?thesis
    using core us by (simp add: replays_def same_tables_def same_view_def run mid_def)
qed

lemma credit_replays:
  assumes "projectCreditScoreUpdated rt ev d = (Inr (), e)"
  shows "replays (projectCreditScoreUpdated rt' ev) e"
proof (cases "\<exists>a v. as_string (arg (tupleArgs (ev_value ev)) 0) = Some a \<and>
    toNumber (arg (tupleArgs (ev_value ev)) 2) = Some v")
  case False
  then have "projectCreditScoreUpdated rt' ev = warnUnparseable"
    by (auto simp: projectCreditScoreUpdated_def Let_def split: option.splits)
  then show ?thesis by simp
next
  case True
  then obtain a v where p: "as_string (arg (tupleArgs (ev_value ev)) 0) = Some a"
    "toNumber (arg (tupleArgs (ev_value ev)) 2) = Some v" by auto
  define row where "row = (\<lambda>u t. \<lparr>sc_userId = u, sc_value = j_to_int v, sc_computedAt = t\<rparr>)"
  define f where "f = (\<lambda>t s. s\<lparr>sc_value := j_to_int v, sc_computedAt := t\<rparr> :: score_row)"
  define hrow where "hrow = (\<lambda>u t. \<lparr>h_id = historyId u (ev_ledger ev), h_userId = u, h_value = j_to_int v, h_computedAt = t\<rparr>)"
  define after where "after = (\<lambda>rt0 d0. let u = uid a (users (ensured rt0 a d0)) in (ensured rt0 a d0)\<lparr>
      scores := upsert_row sc_userId u (row u (rt_now rt0)) (f (rt_now rt0)) (scores d0),
      histories := upsert_row h_id (historyId u (ev_ledger ev)) (hrow u (rt_now rt0)) id (histories d0)\<rparr>)"
  have run: "is_integer v \<Longrightarrow> projectCreditScoreUpdated rt0 ev d0 = (Inr (), after rt0 d0)" for rt0 d0
    using p by (simp add: projectCreditScoreUpdated_def transaction_run Let_def row_def f_def hrow_def after_def)
  have int: "is_integer v"
    using p assms by (auto simp: projectCreditScoreUpdated_def transaction_run Let_def split: if_splits)
  have e: "users e = users (ensured rt a d)"
      "scores e = upsert_row sc_userId (uid a (users e)) (row (uid a (users e)) (rt_now rt)) (f (rt_now rt)) (scores d)"
      "histories e = upsert_row h_id (historyId (uid a (users e)) (ev_ledger ev)) (hrow (uid a (users e)) (rt_now rt)) id (histories d)"
    using run [OF int, of rt d] assms by (auto simp: after_def Let_def)
  then have "known a (users e)" by simp
  then have us: "users (ensured rt' a d1) = users e" if "users d1 = users e" for d1
    using that users_ensured_known [of a d1] by simp
  have "map score_core (upsert_row sc_userId (uid a (users e)) (row (uid a (users e)) (rt_now rt')) (f (rt_now rt')) (scores e)) =
      map score_core (scores e)"
    unfolding e(2) by (rule scores_by_user.upsert_again) (simp_all add: row_def f_def score_core_def)
  moreover have "map id (upsert_row h_id (historyId (uid a (users e)) (ev_ledger ev)) (hrow (uid a (users e)) (rt_now rt')) id (histories e)) =
      map id (histories e)"
    unfolding e(3) by (rule histories_by_id.upsert_again) (simp_all add: hrow_def)
  ultimately show ?thesis
    using us int by (simp add: replays_def same_tables_def same_view_def run after_def Let_def)
qed

lemma charged_replays: "replays (projectSubscriptionCharged rt' ev False) e"
  if "projectSubscriptionCharged rt ev new d = (Inr (), e)"
proof (cases "\<exists>a b n. as_string (arg (subscriptionArgs (ev_value ev)) 0) = Some a \<and>
    as_string (arg (subscriptionArgs (ev_value ev)) (Suc 0)) = Some b \<and> toBigInt (arg (subscriptionArgs (ev_value ev)) 2) = Some n")
  case False
  then have "projectSubscriptionCharged rt' ev False = warnUnparseable"
    by (auto simp: projectSubscriptionCharged_def Let_def split: option.splits)
  then show ?thesis by simp
next
  case True
  then obtain a b n where p: "as_string (arg (subscriptionArgs (ev_value ev)) 0) = Some a"
    "as_string (arg (subscriptionArgs (ev_value ev)) (Suc 0)) = Some b"
    "toBigInt (arg (subscriptionArgs (ev_value ev)) 2) = Some n" by auto
  have run: "projectSubscriptionCharged rt' ev False d0 = (Inr (), ensured rt' b (ensured rt' a d0))" for d0
    using p by (simp add: projectSubscriptionCharged_def Let_def)
  have "e = snd (projectSubscriptionCharged rt ev new d)"
    using that by simp
  then have "users e = users (ensured rt b (ensured rt a d))"
    using p by (simp add: projectSubscriptionCharged_def Let_def upsert_subscription_def)
  then have "known a (users e)" "known b (users e)" by simp_all
  then have "same_view d1 (ensured rt' b (ensured rt' a d1))" if "users d1 = users e" for d1
    using that by (simp add: same_view_def users_ensured_known)
  then show ?thesis
    by (simp add: replays_def run same_tables_def)
qed

section \<open>The event log during projection\<close>

text \<open>The indexer's own bookkeeping: the event log, the cursors and the ledger checkpoints.\<close>

definition indexed :: "db \<Rightarrow> event_row list \<times> (string \<times> int) list \<times> checkpoint_row list" where
  "indexed d = (eventLog d, cursors d, checkpoints d)"

lemma indexed_eq [simp]: "indexed d = (l, c, k) \<longleftrightarrow> eventLog d = l \<and> cursors d = c \<and> checkpoints d = k"
  by (auto simp: indexed_def)

named_theorems log_kept

lemma log_kept_fresh [log_kept]: "keeps (\<lambda>d. indexed d = (l, c, k)) (fresh_id rt)"
  by (simp add: keeps_def)

lemma log_kept_ensure [log_kept]: "keeps (\<lambda>d. indexed d = (l, c, k)) (ensureUserId rt a)"
  unfolding ensureUserId_def by (intro keeps_intros keeps_modify log_kept) simp

lemma log_kept_warn [log_kept]: "keeps (\<lambda>d. indexed d = (l, c, k)) warnUnparseable"
  by (simp add: keeps_def warnUnparseable_def)

lemma log_kept_goal [log_kept]: "keeps (\<lambda>d. indexed d = (l, c, k)) (upsert_goal i new f)"
  by (simp add: keeps_def upsert_goal_def)

lemma log_kept_subscription [log_kept]: "keeps (\<lambda>d. indexed d = (l, c, k)) (upsert_subscription i new f)"
  by (simp add: keeps_def upsert_subscription_def)

lemma log_kept_notify [log_kept]: "keeps (\<lambda>d. indexed d = (l, c, k)) (notify_quietly rt u ty p)"
  using notify_quietly_frame by (auto simp: keeps_def same_tables_def)

lemma log_kept_persist [log_kept]: "keeps (\<lambda>d. indexed d = (l, c, k)) (persistNotification rt u ty p)"
  unfolding keeps_def
proof (intro allI impI)
  fix d :: db
  assume "indexed d = (l, c, k)"
  moreover have "same_tables d (snd (persistNotification rt u ty p d))"
    by (rule persist_frame [of rt u ty p d "fst (persistNotification rt u ty p d)"]) simp
  ultimately show "indexed (snd (persistNotification rt u ty p d)) = (l, c, k)"
    by (simp add: same_tables_def)
qed

lemma log_kept_emit [log_kept]: "keeps (\<lambda>d. indexed d = (l, c, k)) (emitNotificationCreated n)"
  by (simp add: keeps_def emitNotificationCreated_def)

lemma log_kept_insert_tip [log_kept]: "keeps (\<lambda>d. indexed d = (l, c, k)) (insert_tip rt ev tip)"
  by (simp add: keeps_def insert_tip_def)

lemma log_kept_handler [log_kept]: "keeps (\<lambda>d. indexed d = (l, c, k)) (run_handler h rt ev b)"
proof (cases h)
  case ProfileRegistered
  show ?thesis unfolding ProfileRegistered run_handler.simps projectProfileRegistered_def Let_def
    by (intro keeps_intros keeps_modify log_kept) simp
next
  case ProfileUpdated
  show ?thesis unfolding ProfileUpdated run_handler.simps projectProfileUpdated_def
    by (intro keeps_intros keeps_modify log_kept)
next
  case GoalSet
  show ?thesis unfolding GoalSet run_handler.simps projectGoalSet_def Let_def
    by (intro keeps_intros keeps_modify log_kept)
next
  case GoalReached
  show ?thesis unfolding GoalReached run_handler.simps projectGoalReached_def Let_def
    by (intro keeps_intros keeps_modify log_kept)
next
  case GoalCompleted
  show ?thesis unfolding GoalCompleted run_handler.simps projectGoalCompleted_def Let_def
    by (intro keeps_intros keeps_modify log_kept)
next
  case GoalCancel
  show ?thesis unfolding GoalCancel run_handler.simps projectGoalCancelled_def
    by (intro keeps_intros keeps_modify log_kept) simp
next
  case SubCreated
  show ?thesis unfolding SubCreated run_handler.simps projectSubscriptionCreated_def Let_def
    by (intro keeps_intros keeps_modify log_kept)
next
  case SubChange
  show ?thesis unfolding SubChange run_handler.simps projectSubscriptionChange_def Let_def
    by (intro keeps_intros keeps_modify log_kept) simp
next
  case SubExec
  show ?thesis unfolding SubExec run_handler.simps projectSubscriptionCharged_def Let_def
    by (intro keeps_intros keeps_modify log_kept)
next
  case SubCancel
  show ?thesis unfolding SubCancel run_handler.simps projectSubscriptionCancelled_def Let_def
    by (intro keeps_intros keeps_modify log_kept) simp
next
  case CreditUpdated
  show ?thesis unfolding CreditUpdated run_handler.simps projectCreditScoreUpdated_def Let_def
    by (intro keeps_intros keeps_modify log_kept) simp_all
qed

lemma log_kept_tip [log_kept]: "keeps (\<lambda>d. indexed d = (l, c, k)) (projectTip rt ev)"
  unfolding projectTip_def by (intro keeps_intros log_kept)

lemma log_kept_refund [log_kept]: "keeps (\<lambda>d. indexed d = (l, c, k)) (projectRefund rt ev)"
  unfolding projectRefund_def by (intro keeps_intros keeps_modify log_kept) simp_all

lemma log_kept_body:
  "keeps (\<lambda>d. indexed d = (l, c, k))
     (if ev_topic ev \<in> set TIP_TOPICS then projectTip rt ev else project_other rt ev b)"
  unfolding project_other_def by (intro keeps_intros log_kept)

text \<open>What the dispatch runs for one event.\<close>

definition projection_body :: "runtime \<Rightarrow> decoded_event \<Rightarrow> bool \<Rightarrow> unit dbio" where
  "projection_body rt ev new =
     (if ev_topic ev \<in> set TIP_TOPICS then projectTip rt ev else project_other rt ev new)"

definition with_log :: "decoded_event \<Rightarrow> db \<Rightarrow> db" where
  "with_log ev d = (if logged ev d then d else d\<lparr>eventLog := eventLog d @ [\<lparr>el_topic = ev_topic ev,
     el_ledger = ev_ledger ev, el_txHash = ev_txHash ev, el_data = coalesce (ev_value ev) (JObj PlainObject [])\<rparr>]\<rparr>)"

lemma projectEvent_run:
  "projectEvent rt ev d =
     bnd (projection_body rt ev (\<not> logged ev d)) (\<lambda>_. if logged ev d then ret () else publishProjection rt ev) (with_log ev d)"
  by (auto simp: projectEvent_def persistEventLog_def projection_body_def with_log_def andthen_def)

lemma logged_with_log: "logged ev (with_log ev d)"
  by (auto simp: with_log_def logged_def exists_row_iff)

lemma body_replays:
  assumes "projection_body rt ev b d = (Inr (), e)" and "goals_live d"
  shows "replays (projection_body rt' ev False) e"
proof (cases "ev_topic ev \<in> set TIP_TOPICS")
  case True
  with assms tip_replays show ?thesis by (simp add: projection_body_def)
next
  case False
  show ?thesis
  proof (cases "ev_topic ev \<in> set REFUND_TOPICS")
    case True
    then have "map_of PROJECTIONS (ev_topic ev) = None"
      by (auto simp: REFUND_TOPICS_def PROJECTIONS_def)
    with assms False True refund_replays show ?thesis
      by (simp add: projection_body_def project_other_def andthen_def)
  next
    case other: False
    have body: "projection_body rt0 ev b0 = (case map_of PROJECTIONS (ev_topic ev) of
        None \<Rightarrow> warnUnparseable | Some h \<Rightarrow> run_handler h rt0 ev b0)" for rt0 b0
      using False other
      by (auto simp: projection_body_def project_other_def fun_eq_iff split: option.splits)
    show ?thesis
    proof (cases "map_of PROJECTIONS (ev_topic ev)")
      case None
      then show ?thesis by (simp add: body)
    next
      case (Some h)
      with assms body have run: "run_handler h rt ev b d = (Inr (), e)" by simp
      have "replays (run_handler h rt' ev False) e"
        using run assms(2)
        by (cases h) (simp_all add: register_replays updated_replays goal_set_replays goal_reached_replays
            goal_completed_replays goal_cancelled_replays charged_replays credit_replays
            projectSubscriptionCreated_def projectSubscriptionChange_def projectSubscriptionCancelled_def)
      with Some body show ?thesis by simp
    qed
  qed
qed


definition tip_event :: decoded_event where
  "tip_event = \<lparr>ev_topic = ''tip_sent'', ev_ledger = 10, ev_txHash = ''h1'',
     ev_value = JArr [JNum (Fin 1), JStr ''GA'', JStr ''GB'', JStr ''250'', JStr ''hi''], ev_pagingToken = ''t1''\<rparr>"


section \<open>Unique keys\<close>

named_theorems keys_kept

lemma keys_kept_fresh [keys_kept]: "keeps keys_ok (fresh_id rt)"
  by (simp add: keeps_def keys_ok_def)

lemma keys_kept_ensure [keys_kept]: "keeps keys_ok (ensureUserId rt a)"
  by (simp add: keeps_def ensureUserId_def keys_ok_def users_by_address.upsert_unique)

lemma keys_kept_warn [keys_kept]: "keeps keys_ok warnUnparseable"
  by (simp add: keeps_def warnUnparseable_def keys_ok_def)

lemma keys_kept_same:
  assumes "\<And>d. same_tables d (snd (m d))"
  shows "keeps keys_ok m"
  unfolding keeps_def
proof (intro allI impI)
  fix d assume "keys_ok d"
  with assms [of d] show "keys_ok (snd (m d))" by (simp add: keys_ok_def same_tables_def)
qed

lemma keys_kept_notify [keys_kept]: "keeps keys_ok (notify_quietly rt u ty p)"
  by (rule keys_kept_same) (rule notify_quietly_frame)

lemma keys_kept_persist [keys_kept]: "keeps keys_ok (persistNotification rt u ty p)"
  by (rule keys_kept_same) (metis persist_frame surjective_pairing)

lemma keys_kept_emit [keys_kept]: "keeps keys_ok (emitNotificationCreated n)"
  by (rule keys_kept_same) (simp add: emitNotificationCreated_def same_tables_def)

lemma keys_kept_publish [keys_kept]: "keeps keys_ok (publishProjection rt ev)"
  by (rule keys_kept_same) (simp add: publishProjection_def same_tables_def split: option.splits)

lemma keys_kept_goal [keys_kept]:
  "keeps keys_ok (upsert_goal i new f)" if "g_id new = i" and "\<And>g. g_id (f g) = g_id g"
  using that by (simp add: keeps_def upsert_goal_def keys_ok_def goals_by_id.upsert_unique)

lemma keys_kept_subscription [keys_kept]:
  "keeps keys_ok (upsert_subscription i new f)" if "s_id new = i" and "\<And>s. s_id (f s) = s_id s"
  using that by (simp add: keeps_def upsert_subscription_def keys_ok_def subscriptions_by_id.upsert_unique)

lemma keys_kept_handler [keys_kept]: "keeps keys_ok (run_handler h rt ev b)"
proof (cases h)
  case ProfileRegistered
  show ?thesis unfolding ProfileRegistered run_handler.simps projectProfileRegistered_def Let_def
    by (intro keeps_intros keeps_modify keys_kept) (simp add: keys_ok_def users_by_address.upsert_unique)
next
  case ProfileUpdated
  show ?thesis unfolding ProfileUpdated run_handler.simps projectProfileUpdated_def
    by (intro keeps_intros keeps_modify keys_kept)
next
  case GoalSet
  show ?thesis unfolding GoalSet run_handler.simps projectGoalSet_def Let_def
    by (intro keeps_intros keeps_modify keys_kept) (simp_all add: new_goal_def)
next
  case GoalReached
  show ?thesis unfolding GoalReached run_handler.simps projectGoalReached_def Let_def
    by (intro keeps_intros keeps_modify keys_kept) (simp_all add: new_goal_def)
next
  case GoalCompleted
  show ?thesis unfolding GoalCompleted run_handler.simps projectGoalCompleted_def Let_def
    by (intro keeps_intros keeps_modify keys_kept) (simp_all add: new_goal_def)
next
  case GoalCancel
  show ?thesis unfolding GoalCancel run_handler.simps projectGoalCancelled_def
    by (intro keeps_intros keeps_modify keys_kept) (simp add: keys_ok_def unique_by_update)
next
  case SubCreated
  show ?thesis unfolding SubCreated run_handler.simps projectSubscriptionCreated_def Let_def
    by (intro keeps_intros keeps_modify keys_kept) (simp_all add: new_subscription_def clear_dunning_def)
next
  case SubChange
  show ?thesis unfolding SubChange run_handler.simps projectSubscriptionChange_def Let_def
    by (intro keeps_intros keeps_modify keys_kept) (simp add: keys_ok_def unique_by_update)
next
  case SubExec
  show ?thesis unfolding SubExec run_handler.simps projectSubscriptionCharged_def Let_def
    by (intro keeps_intros keeps_modify keys_kept) (simp_all add: new_subscription_def clear_dunning_def)
next
  case SubCancel
  show ?thesis unfolding SubCancel run_handler.simps projectSubscriptionCancelled_def Let_def
    by (intro keeps_intros keeps_modify keys_kept) (simp add: keys_ok_def unique_by_update)
next
  case CreditUpdated
  show ?thesis unfolding CreditUpdated run_handler.simps projectCreditScoreUpdated_def Let_def
    by (intro keeps_intros keeps_modify keys_kept)
      (simp_all add: keys_ok_def scores_by_user.upsert_unique histories_by_id.upsert_unique)
qed

lemma keys_kept_refund [keys_kept]: "keeps keys_ok (projectRefund rt ev)"
  unfolding projectRefund_def
  by (intro keeps_intros keeps_modify keys_kept)
    (simp_all add: keys_ok_def refunds_by_tip.upsert_unique unique_by_update)

lemma insert_tip_keys:
  "keys_ok d \<Longrightarrow> tip_by_hash (ev_txHash ev) d = None \<Longrightarrow> keys_ok (snd (insert_tip rt ev tip d))"
  by (simp add: insert_tip_def keys_ok_def unique_by_append_one tip_by_hash_def find_by_None)

lemma keys_kept_tip [keys_kept]: "keeps keys_ok (projectTip rt ev)"
proof (cases "parseTip (ev_value ev)")
  case (Some tip)
  let ?notify = "bnd (gets (user_by_address (pt_to tip))) (\<lambda>receiver. case receiver of
      None \<Rightarrow> ret None | Some u \<Rightarrow> persistNotification rt (u_id u) ''tip_received'' (tip_payload ev tip))"
  have rest: "keeps keys_ok ?notify"
    by (intro keeps_intros keys_kept)
  have body: "keeps keys_ok (bnd (gets (tip_by_hash (ev_txHash ev))) (\<lambda>existing.
      if existing \<noteq> None then ret None else andthen (insert_tip rt ev tip) ?notify))"
    unfolding keeps_def
  proof (intro allI impI)
    fix d assume ok: "keys_ok d"
    have run: "insert_tip rt ev tip d = (Inr (), snd (insert_tip rt ev tip d))"
      by (simp add: insert_tip_def)
    show "keys_ok (snd (bnd (gets (tip_by_hash (ev_txHash ev))) (\<lambda>existing.
      if existing \<noteq> None then ret None else andthen (insert_tip rt ev tip) ?notify) d))"
      using keepsD [OF rest insert_tip_keys [OF ok]] ok
      by (simp add: bnd_Inr [where m = "insert_tip rt ev tip" and s = d, OF run] del: case_option_run bnd_case_option)
  qed
  show ?thesis
    unfolding projectTip_def Some option.case
    by (rule keeps_bnd, rule keeps_try_catch, rule keeps_transaction, rule body)
      (intro keeps_intros keys_kept)+
qed (simp add: projectTip_def keeps_ret)



section \<open>What a tip event does\<close>

lemma projectTip_tips:
  assumes "projectTip rt ev d = (Inr (), e)" and "parseTip (ev_value ev) = Some tip"
  shows "tips e = (if tip_by_hash (ev_txHash ev) d = None
    then tips d @ [\<lparr>tip_id = rt_cuid rt (nextId d), tip_txHash = ev_txHash ev,
        tip_ledger = ev_ledger ev, tip_from = pt_from tip, tip_to = pt_to tip, tip_amount = pt_amount tip,
        tip_message = pt_message tip, tip_status = CONFIRMED, tip_createdAt = rt_now rt,
       tip_networkFee = 0, tip_tokenCode = ''XLM'', tip_recipientId = None\<rparr>]
    else tips d)"
proof (cases "tip_by_hash (ev_txHash ev) d")
  case (Some t)
  then show ?thesis using assms by (simp add: projectTip_def transaction_def)
next
  case None
  define d0 where "d0 = snd (insert_tip rt ev tip d)"
  have ins: "insert_tip rt ev tip d = (Inr (), d0)"
    by (simp add: d0_def insert_tip_def)
  obtain r e0 where p: "(case user_by_address (pt_to tip) d0 of None \<Rightarrow> ret None
      | Some u \<Rightarrow> persistNotification rt (u_id u) ''tip_received'' (tip_payload ev tip)) d0 = (r, e0)"
    by force
  then have "same_tables d0 e0"
    using persist_frame by (auto split: option.splits)
  then have "tips e0 = tips d0" by (simp add: same_tables_def)
  moreover have "tips e = tips e0"
    using p ins None assms
    by (auto simp: projectTip_def transaction_def bnd_def [of "insert_tip _ _ _"] emitNotificationCreated_def
        split: option.splits sum.splits prod.splits if_splits dest!: persist_error)
  ultimately show ?thesis
    using None by (simp add: d0_def insert_tip_def)
qed


text \<open>
  A tip event whose transaction has no tip yet adds exactly one confirmed tip with the
  parties, amount and message of the event; a tip event whose transaction already has one
  adds nothing, even when it is another tip of the same transaction.
\<close>

theorem tip_event_projected:
  assumes "ev_topic ev \<in> set TIP_TOPICS" and "parseTip (ev_value ev) = Some tip"
    and "projectEvent rt ev d = (Inr (), d1)"
  shows "tips d1 = (if tip_by_hash (ev_txHash ev) d = None
    then tips d @ [\<lparr>tip_id = rt_cuid rt (nextId d), tip_txHash = ev_txHash ev,
        tip_ledger = ev_ledger ev, tip_from = pt_from tip, tip_to = pt_to tip, tip_amount = pt_amount tip,
        tip_message = pt_message tip, tip_status = CONFIRMED, tip_createdAt = rt_now rt,
       tip_networkFee = 0, tip_tokenCode = ''XLM'', tip_recipientId = None\<rparr>]
    else tips d)"
proof -
  let ?d0 = "with_log ev d"
  obtain e where e: "projectTip rt ev ?d0 = (Inr (), e)"
      and d1: "(if logged ev d then ret () else publishProjection rt ev) e = (Inr (), d1)"
    using assms(1,3) by (auto simp: projectEvent_run projection_body_def bnd_eq_Inr_iff)
  have "same_tables e d1"
    using d1 by (auto simp: publishProjection_def same_tables_def split: if_splits option.splits)
  then show ?thesis
    using projectTip_tips [OF e assms(2)] by (simp add: with_log_def tip_by_hash_def same_tables_def)
qed

theorem tip_event_projected_witness:
  "tips (snd (projectEvent demo_rt tip_event empty_db)) =
     [\<lparr>tip_id = rt_cuid demo_rt 0, tip_txHash = ''h1'', tip_ledger = 10, tip_from = ''GA'', tip_to = ''GB'',
       tip_amount = 250, tip_message = Some ''hi'', tip_status = CONFIRMED, tip_createdAt = rt_now demo_rt,
       tip_networkFee = 0, tip_tokenCode = ''XLM'', tip_recipientId = None\<rparr>]"
proof -
  let ?d = "snd (projectEvent demo_rt tip_event empty_db)"
  have "fst (projectEvent demo_rt tip_event empty_db) = Inr ()" by code_simp
  then have run: "projectEvent demo_rt tip_event empty_db = (Inr (), ?d)" by (metis prod.collapse)
  have topic: "ev_topic tip_event \<in> set TIP_TOPICS" by (simp add: tip_event_def TIP_TOPICS_def)
  have parsed: "parseTip (ev_value tip_event) =
      Some \<lparr>pt_from = ''GA'', pt_to = ''GB'', pt_amount = 250, pt_message = Some ''hi''\<rparr>"
    by code_simp
  show ?thesis
    using tip_event_projected [OF topic parsed run]
    by (simp add: tip_event_def empty_db_def tip_by_hash_def find_by_def find_row_def)
qed

section \<open>Events as the contract emits them\<close>

text \<open>
  The contract's tip event carries a version and the numeric tip id before the tipper
  (\<open>contracts/tipz/src/events.rs\<close>, \<open>emit_tip_sent\<close>). The projection drops the version
  only, reads the tip id where it expects the sender, and so projects no tip for any event of
  that layout: the event is logged and published, the tips stay as they were.
\<close>

theorem contract_tip_event_not_projected:
  fixes d :: db
  assumes "ev_topic ev = ''tip_sent''"
    and "ev_value ev = JArr (JNum (Fin 1) # JNum (Fin tipId) # rest)"
  shows "fst (projectEvent rt ev d) = Inr () \<and> tips (snd (projectEvent rt ev d)) = tips d \<and>
    logged ev (snd (projectEvent rt ev d))"
proof -
  have "parseTip (ev_value ev) = None"
    using assms(2) by (simp add: parseTip_def tip_fields_def version_marked_def arg_def as_string_def Let_def)
  then have "projectEvent rt ev d = (if logged ev d then ret () else publishProjection rt ev) (with_log ev d)"
    using assms(1) by (simp add: projectEvent_run projection_body_def projectTip_def TIP_TOPICS_def)
  then show ?thesis
    using logged_with_log [of ev d]
    by (auto simp: publishProjection_def logged_def with_log_def split: option.splits)
qed

definition contract_tip :: decoded_event where
  "contract_tip = \<lparr>ev_topic = ''tip_sent'', ev_ledger = 10, ev_txHash = ''h2'',
     ev_value = JArr [JNum (Fin 1), JNum (Fin 7), JStr ''GA'', JStr ''GB'', JBig 250, JStr ''hi''], ev_pagingToken = ''t2''\<rparr>"

theorem contract_tip_event_not_projected_witness:
  "tips (snd (projectEvent demo_rt contract_tip empty_db)) = [] \<and>
   logged contract_tip (snd (projectEvent demo_rt contract_tip empty_db))"
  using contract_tip_event_not_projected
    [of contract_tip 7 "[JStr ''GA'', JStr ''GB'', JBig 250, JStr ''hi'']" demo_rt empty_db]
  by (simp add: contract_tip_def empty_db_def)

section \<open>A subscription event that failed once\<close>

lemma run_gated_subscriptions:
  "h \<in> {SubCreated, SubChange, SubExec, SubCancel} \<Longrightarrow>
   subscriptions (snd (run_handler h rt ev False d)) = subscriptions d"
  by (auto simp: projectSubscriptionCreated_def projectSubscriptionChange_def projectSubscriptionCancelled_def
      projectSubscriptionCharged_def Let_def warnUnparseable_def split: option.splits)

text \<open>
  The handlers of the subscription topics run only for an event that is new to the log,
  and the log row is written before them, outside any transaction. So once an event is in the
  log, by whatever attempt, projecting it leaves the subscriptions as they are: an attempt
  that failed after the log row was written is never made good by the retry.
\<close>

theorem logged_subscription_event_is_skipped:
  assumes "logged ev d" and "map_of PROJECTIONS (ev_topic ev) = Some h"
    and "h \<in> {SubCreated, SubChange, SubExec, SubCancel}"
  shows "subscriptions (snd (projectEvent rt ev d)) = subscriptions d"
proof -
  have "ev_topic ev \<notin> set TIP_TOPICS \<and> ev_topic ev \<notin> set REFUND_TOPICS"
    using assms(2) by (auto simp: PROJECTIONS_def TIP_TOPICS_def REFUND_TOPICS_def)
  then have "projectEvent rt ev d = bnd (run_handler h rt ev False) (\<lambda>_. ret ()) d"
    using assms(1,2) by (simp add: projectEvent_run projection_body_def project_other_def with_log_def)
  then show ?thesis
    using run_gated_subscriptions [OF assms(3), of rt ev d]
    by (simp add: bnd_def split: prod.splits sum.splits)
qed

definition cancel_event :: decoded_event where
  "cancel_event = \<lparr>ev_topic = ''sub_cancel'', ev_ledger = 11, ev_txHash = ''h3'',
     ev_value = JArr [JNum (Fin 1), JStr ''GA'', JStr ''GB''], ev_pagingToken = ''t3''\<rparr>"

theorem logged_subscription_event_is_skipped_witness:
  "let d = with_log cancel_event empty_db in
     subscriptions (snd (projectEvent demo_rt cancel_event d)) = subscriptions d"
  unfolding Let_def
  by (rule logged_subscription_event_is_skipped [where h = SubCancel])
    (rule logged_with_log, simp_all add: cancel_event_def PROJECTIONS_def)

end
