(* ===== verification/Indexer.thy ===== *)
theory Indexer
  imports Projections
begin

text \<open>
  The poll loop of the indexer (\<open>backend/src/indexer/poller.ts\<close>), its cursors
  (\<open>cursor.ts\<close>) and ledger checkpoints (\<open>ledger-checkpoint.store.ts\<close>), the detection and
  rollback of chain reorganisations (\<open>reorg.ts\<close>) and the backfill of a ledger range
  (\<open>backfill.ts\<close>). The chain is a parameter: what the RPC and Horizon answer to each request.
  Metrics and logging are left out.
\<close>

section \<open>The chain and the configuration\<close>

text \<open>
  \<open>cv_head\<close> answers the n-th request for the latest ledger of a tick, \<open>cv_page\<close> the request
  for a page of events (its number in the tick, the start ledger and the paging token),
  \<open>cv_hash\<close> the request for a ledger hash. A left value is a failed request.
\<close>

record chain_view =
  cv_head :: "nat \<Rightarrow> jsval + int"
  cv_page :: "nat \<Rightarrow> int \<Rightarrow> string option \<Rightarrow> jsval + (decoded_event list \<times> int)"
  cv_hash :: "int \<Rightarrow> jsval + string option"

record indexer_config =
  ic_startLedger :: "int option"
  ic_finalityDepth :: int
  ic_reorgLookback :: int

definition EVENTS_PAGE_SIZE :: nat where
  "EVENTS_PAGE_SIZE = 100"

definition CURSOR_TOPIC :: string where
  "CURSOR_TOPIC = ''tip_events''"

definition BACKFILL_CURSOR_TOPIC :: string where
  "BACKFILL_CURSOR_TOPIC = ''backfill_tip_events''"

definition MAX_PAGES_PER_TICK :: nat where
  "MAX_PAGES_PER_TICK = 50"

text \<open>A paging token that is the empty string counts as none.\<close>

definition page_request :: "string option \<Rightarrow> string option" where
  "page_request tok = (case tok of None \<Rightarrow> None | Some t \<Rightarrow> if t = [] then None else Some t)"

definition getEventsFrom ::
  "chain_view \<Rightarrow> nat \<Rightarrow> int \<Rightarrow> string option \<Rightarrow> (decoded_event list \<times> int) dbio" where
  "getEventsFrom cv page startLedger tok = lift_res (cv_page cv page startLedger (page_request tok))"

section \<open>Cursors\<close>

definition getCursorLedger :: "string \<Rightarrow> int option dbio" where
  "getCursorLedger topic = gets (cursor_of topic)"

definition setCursorLedger :: "string \<Rightarrow> int \<Rightarrow> unit dbio" where
  "setCursorLedger topic lastLedger =
     modify (\<lambda>d. d\<lparr>cursors := upsert_row fst topic (topic, lastLedger) (\<lambda>_. (topic, lastLedger)) (cursors d)\<rparr>)"

section \<open>Ledger checkpoints\<close>

definition topic_checkpoints :: "string \<Rightarrow> db \<Rightarrow> checkpoint_row list" where
  "topic_checkpoints topic d = order_desc cp_ledger (filter (\<lambda>c. cp_topic c = topic) (checkpoints d))"

definition getRecentCheckpoints :: "string \<Rightarrow> int \<Rightarrow> checkpoint_row list dbio" where
  "getRecentCheckpoints topic limit = gets (\<lambda>d. take (nat limit) (topic_checkpoints topic d))"

definition pruneCheckpoints :: "string \<Rightarrow> int \<Rightarrow> unit dbio" where
  "pruneCheckpoints topic keep =
     bnd (gets (\<lambda>d. take 1000 (drop (nat keep) (topic_checkpoints topic d)))) (\<lambda>stale.
       if stale = [] then ret ()
       else modify (\<lambda>d. d\<lparr>checkpoints := delete_rows
         (\<lambda>c. cp_topic c = topic \<and> cp_ledger c \<in> set (map cp_ledger stale)) (checkpoints d)\<rparr>))"

definition recordCheckpoint :: "indexer_config \<Rightarrow> string \<Rightarrow> int \<Rightarrow> string \<Rightarrow> unit dbio" where
  "recordCheckpoint cfg topic ledger hash =
     andthen (modify (\<lambda>d. d\<lparr>checkpoints := upsert_row (\<lambda>c. (cp_topic c, cp_ledger c)) (topic, ledger)
         \<lparr>cp_topic = topic, cp_ledger = ledger, cp_hash = hash\<rparr> (\<lambda>c. c\<lparr>cp_hash := hash\<rparr>) (checkpoints d)\<rparr>))
       (pruneCheckpoints topic (ic_reorgLookback cfg))"

definition deleteCheckpointsAbove :: "string \<Rightarrow> int \<Rightarrow> unit dbio" where
  "deleteCheckpointsAbove topic ledger =
     modify (\<lambda>d. d\<lparr>checkpoints := delete_rows (\<lambda>c. cp_topic c = topic \<and> ledger < cp_ledger c) (checkpoints d)\<rparr>)"

section \<open>Reorganisations\<close>

record ReorgDetection =
  rd_reorged :: bool
  rd_forkLedger :: "int option"
  rd_divergedAt :: "int option"

text \<open>The walk over the checkpoints, newest first; \<open>Inr\<close> of the detection or of the first divergence.\<close>

fun walk_checkpoints ::
  "(int \<Rightarrow> jsval + string option) \<Rightarrow> checkpoint_row list \<Rightarrow> int option \<Rightarrow> jsval + (int option \<times> int option)" where
  "walk_checkpoints getHash [] divergedAt = Inr (None, divergedAt)"
| "walk_checkpoints getHash (c # cs) divergedAt = (case getHash (cp_ledger c) of
       Inl e \<Rightarrow> Inl e
     | Inr None \<Rightarrow> walk_checkpoints getHash cs divergedAt
     | Inr (Some h) \<Rightarrow>
         if h = cp_hash c then Inr (Some (cp_ledger c), divergedAt)
         else walk_checkpoints getHash cs (if divergedAt = None then Some (cp_ledger c) else divergedAt))"

definition detectReorg :: "(int \<Rightarrow> jsval + string option) \<Rightarrow> checkpoint_row list \<Rightarrow> jsval + ReorgDetection" where
  "detectReorg getHash cs = (case walk_checkpoints getHash cs None of
       Inl e \<Rightarrow> Inl e
     | Inr (Some fork, divergedAt) \<Rightarrow>
         Inr \<lparr>rd_reorged = (divergedAt \<noteq> None), rd_forkLedger = Some fork, rd_divergedAt = divergedAt\<rparr>
     | Inr (None, Some v) \<Rightarrow>
         Inr \<lparr>rd_reorged = True, rd_forkLedger = Some (max 0 ((if cs = [] then v else cp_ledger (last cs)) - 1)),
              rd_divergedAt = Some v\<rparr>
     | Inr (None, None) \<Rightarrow> Inr \<lparr>rd_reorged = False, rd_forkLedger = None, rd_divergedAt = None\<rparr>)"

definition tip_above :: "int \<Rightarrow> db \<Rightarrow> string \<Rightarrow> bool" where
  "tip_above fork d i \<longleftrightarrow> exists_row (\<lambda>t. tip_id t = i \<and> fork < tip_ledger t) (tips d)"

definition rollbackToLedger :: "string \<Rightarrow> int \<Rightarrow> (nat \<times> nat \<times> nat) dbio" where
  "rollbackToLedger topic fork =
     transaction
       (bnd (gets (\<lambda>d. (count_rows (\<lambda>e. fork < el_ledger e) (eventLog d),
                        count_rows (\<lambda>t. fork < tip_ledger t) (tips d),
                        count_rows (\<lambda>r. tip_above fork d (rf_tipId r)) (refunds d)))) (\<lambda>removed.
        andthen (modify (\<lambda>d. d\<lparr>refunds := delete_rows (\<lambda>r. tip_above fork d (rf_tipId r)) (refunds d)\<rparr>))
       (andthen (modify (\<lambda>d. d\<lparr>tips := delete_rows (\<lambda>t. fork < tip_ledger t) (tips d)\<rparr>))
       (andthen (modify (\<lambda>d. d\<lparr>eventLog := delete_rows (\<lambda>e. fork < el_ledger e) (eventLog d)\<rparr>))
       (andthen (deleteCheckpointsAbove topic fork)
       (andthen (setCursorLedger topic fork)
         (ret removed)))))))"

definition checkAndHandleReorg :: "indexer_config \<Rightarrow> chain_view \<Rightarrow> string \<Rightarrow> bool dbio" where
  "checkAndHandleReorg cfg cv topic =
     (if ic_reorgLookback cfg \<le> 0 then ret False
      else bnd (getRecentCheckpoints topic (ic_reorgLookback cfg)) (\<lambda>cs.
        if cs = [] then ret False
        else bnd (lift_res (detectReorg (cv_hash cv) cs)) (\<lambda>det.
          case rd_forkLedger det of
            None \<Rightarrow> ret False
          | Some fork \<Rightarrow>
              if \<not> rd_reorged det then ret False
              else bnd (rollbackToLedger topic fork) (\<lambda>_. ret True))))"

section \<open>One poll\<close>

definition resolveStartLedger :: "indexer_config \<Rightarrow> chain_view \<Rightarrow> int dbio" where
  "resolveStartLedger cfg cv =
     bnd (getCursorLedger CURSOR_TOPIC) (\<lambda>cursor. case cursor of
         Some c \<Rightarrow> ret (c + 1)
       | None \<Rightarrow>
           if ic_startLedger cfg \<noteq> None \<and> ic_startLedger cfg \<noteq> Some 0 then ret (the (ic_startLedger cfg))
           else bnd (lift_res (cv_head cv 0)) (\<lambda>head. ret (max 1 (head - max 0 (ic_finalityDepth cfg)))))"

record poll_state =
  po_token :: "string option"
  po_processed :: nat
  po_skipped :: nat
  po_failed :: bool
  po_max :: int

definition poll_event :: "runtime \<Rightarrow> int \<Rightarrow> decoded_event \<Rightarrow> poll_state \<Rightarrow> poll_state dbio" where
  "poll_event rt finality ev st =
     (if finality < ev_ledger ev then ret (st\<lparr>po_skipped := po_skipped st + 1\<rparr>)
      else try_catch
        (andthen (projectEvent rt ev)
          (ret (st\<lparr>po_token := Some (ev_pagingToken ev), po_processed := po_processed st + 1,
                   po_max := max (po_max st) (ev_ledger ev)\<rparr>)))
        (\<lambda>_. ret (st\<lparr>po_failed := True\<rparr>)))"

fun poll_events :: "runtime \<Rightarrow> int \<Rightarrow> decoded_event list \<Rightarrow> poll_state \<Rightarrow> poll_state dbio" where
  "poll_events rt finality [] st = ret st"
| "poll_events rt finality (e # es) st = bnd (poll_event rt finality e st) (poll_events rt finality es)"

definition last_page :: "int \<Rightarrow> decoded_event list \<Rightarrow> poll_state \<Rightarrow> bool" where
  "last_page finality events st \<longleftrightarrow> events = [] \<or>
     (0 < po_skipped st \<and> po_processed st = 0 \<and> list_all (\<lambda>e. finality < ev_ledger e) events)"

text \<open>The page loop, with the number of pages it may still read.\<close>

fun poll_pages :: "nat \<Rightarrow> nat \<Rightarrow> runtime \<Rightarrow> chain_view \<Rightarrow> int \<Rightarrow> int \<Rightarrow> poll_state \<Rightarrow> poll_state dbio" where
  "poll_pages 0 page rt cv startLedger finality st = ret st"
| "poll_pages (Suc left) page rt cv startLedger finality st =
     bnd (getEventsFrom cv page startLedger (po_token st)) (\<lambda>(events, latest).
     bnd (poll_events rt finality events st) (\<lambda>st'.
       if last_page finality events st' then ret st'
       else poll_pages left (Suc page) rt cv startLedger finality st'))"

definition record_tip_hash :: "indexer_config \<Rightarrow> chain_view \<Rightarrow> int \<Rightarrow> unit dbio" where
  "record_tip_hash cfg cv ledger =
     try_catch (bnd (lift_res (cv_hash cv ledger)) (\<lambda>hash.
         if hash = None \<or> hash = Some [] then ret ()
         else recordCheckpoint cfg CURSOR_TOPIC ledger (the hash)))
       (\<lambda>_. ret ())"

definition poll_range :: "indexer_config \<Rightarrow> runtime \<Rightarrow> chain_view \<Rightarrow> int \<Rightarrow> int \<Rightarrow> unit dbio" where
  "poll_range cfg rt cv startLedger finality =
     bnd (poll_pages MAX_PAGES_PER_TICK 0 rt cv startLedger finality
       \<lparr>po_token = None, po_processed = 0, po_skipped = 0, po_failed = False, po_max = startLedger - 1\<rparr>) (\<lambda>st.
     andthen (throw_unless (\<not> po_failed st)
        (js_error ''One or more events failed to project; cursor not advanced''))
     (andthen (setCursorLedger CURSOR_TOPIC (max (po_max st) finality))
        (record_tip_hash cfg cv (max (po_max st) finality))))"

definition pollOnce :: "indexer_config \<Rightarrow> runtime \<Rightarrow> chain_view \<Rightarrow> unit dbio" where
  "pollOnce cfg rt cv =
     bnd (checkAndHandleReorg cfg cv CURSOR_TOPIC) (\<lambda>handled.
       if handled then ret ()
       else bnd (resolveStartLedger cfg cv) (\<lambda>startLedger.
            bnd (lift_res (cv_head cv 1)) (\<lambda>head.
              if head - max 0 (ic_finalityDepth cfg) < startLedger then ret ()
              else poll_range cfg rt cv startLedger (head - max 0 (ic_finalityDepth cfg)))))"

section \<open>Backfill\<close>

record backfill_options =
  bo_from :: "int option"
  bo_to :: "int option"
  bo_dryRun :: bool
  bo_force :: bool

record backfill_state =
  bs_projected :: nat
  bs_skipped :: nat
  bs_failed :: "(string \<times> string \<times> jsval) list"
  bs_byTopic :: "(string \<times> nat) list"
  bs_covered :: int
  bs_token :: "string option"

record backfill_report =
  br_fromLedger :: int
  br_toLedger :: int
  br_projected :: nat
  br_skipped :: nat
  br_failed :: nat
  br_dryRun :: bool
  br_newCursorLedger :: int

definition note_projected :: "decoded_event \<Rightarrow> backfill_state \<Rightarrow> backfill_state" where
  "note_projected ev st = st\<lparr>bs_byTopic := upsert_row fst (ev_topic ev) (ev_topic ev, 1)
     (\<lambda>(t, n). (t, n + 1)) (bs_byTopic st), bs_projected := bs_projected st + 1\<rparr>"

definition backfill_event :: "runtime \<Rightarrow> bool \<Rightarrow> int \<Rightarrow> decoded_event \<Rightarrow> backfill_state \<Rightarrow> backfill_state dbio" where
  "backfill_event rt dryRun toLedger ev st =
     (if toLedger < ev_ledger ev then ret (st\<lparr>bs_skipped := bs_skipped st + 1\<rparr>)
      else if dryRun then ret (note_projected ev st)
      else bnd (try_catch (andthen (projectEvent rt ev) (ret (note_projected ev st)))
          (\<lambda>e. ret (st\<lparr>bs_failed := bs_failed st @ [(ev_txHash ev, ev_topic ev, e)]\<rparr>)))
        (\<lambda>st'. ret (st'\<lparr>bs_token := Some (ev_pagingToken ev)\<rparr>)))"

fun backfill_events :: "runtime \<Rightarrow> bool \<Rightarrow> int \<Rightarrow> decoded_event list \<Rightarrow> backfill_state \<Rightarrow> backfill_state dbio" where
  "backfill_events rt dryRun toLedger [] st = ret st"
| "backfill_events rt dryRun toLedger (e # es) st =
     bnd (backfill_event rt dryRun toLedger e st) (backfill_events rt dryRun toLedger es)"

text \<open>The page loop; \<open>None\<close> when it is still running after the given number of pages.\<close>

fun backfill_pages ::
  "nat \<Rightarrow> nat \<Rightarrow> runtime \<Rightarrow> chain_view \<Rightarrow> bool \<Rightarrow> int \<Rightarrow> int \<Rightarrow> backfill_state \<Rightarrow> backfill_state option dbio" where
  "backfill_pages fuel page rt cv dryRun fromLedger toLedger st =
     (if toLedger \<le> bs_covered st then ret (Some st)
      else case fuel of
        0 \<Rightarrow> ret None
      | Suc left \<Rightarrow>
          bnd (getEventsFrom cv page fromLedger (bs_token st)) (\<lambda>(events, latest).
          bnd (backfill_events rt dryRun toLedger events
                (st\<lparr>bs_covered := min (max (bs_covered st) latest) toLedger\<rparr>)) (\<lambda>st'.
            if events = [] then ret (Some st')
            else backfill_pages left (Suc page) rt cv dryRun fromLedger toLedger st')))"

declare backfill_pages.simps [simp del]

definition backfill_from :: "indexer_config \<Rightarrow> backfill_options \<Rightarrow> int option \<Rightarrow> int" where
  "backfill_from cfg opts stored = (case bo_from opts of
       Some f \<Rightarrow> f
     | None \<Rightarrow> (case stored of
           Some c \<Rightarrow> c + 1
         | None \<Rightarrow> (case ic_startLedger cfg of Some s \<Rightarrow> s | None \<Rightarrow> 1)))"

definition backfill_result :: "backfill_options \<Rightarrow> int \<Rightarrow> int \<Rightarrow> backfill_state \<Rightarrow> backfill_report dbio" where
  "backfill_result opts lo hi st =
     (let newCursor = max (lo - 1) (bs_covered st) in
      andthen (if bo_dryRun opts then ret () else setCursorLedger BACKFILL_CURSOR_TOPIC newCursor)
        (ret \<lparr>br_fromLedger = lo, br_toLedger = hi, br_projected = bs_projected st, br_skipped = bs_skipped st,
              br_failed = length (bs_failed st), br_dryRun = bo_dryRun opts, br_newCursorLedger = newCursor\<rparr>))"

definition runBackfill ::
  "nat \<Rightarrow> indexer_config \<Rightarrow> backfill_options \<Rightarrow> runtime \<Rightarrow> chain_view \<Rightarrow> backfill_report option dbio" where
  "runBackfill fuel cfg opts rt cv =
     bnd (if bo_force opts then ret None else getCursorLedger BACKFILL_CURSOR_TOPIC) (\<lambda>stored.
     bnd (lift_res (cv_head cv 0)) (\<lambda>chainHead.
       (let lo = backfill_from cfg opts stored;
            hi = (case bo_to opts of Some t \<Rightarrow> t | None \<Rightarrow> chainHead)
        in if hi < lo
           then ret (Some \<lparr>br_fromLedger = lo, br_toLedger = hi, br_projected = 0, br_skipped = 0, br_failed = 0,
                  br_dryRun = bo_dryRun opts, br_newCursorLedger = (case stored of Some c \<Rightarrow> c | None \<Rightarrow> hi)\<rparr>)
           else bnd (backfill_pages fuel 0 rt cv (bo_dryRun opts) lo hi
                  \<lparr>bs_projected = 0, bs_skipped = 0, bs_failed = [], bs_byTopic = [], bs_covered = lo - 1,
                   bs_token = None\<rparr>) (\<lambda>st. case st of
                None \<Rightarrow> ret None
              | Some s \<Rightarrow> bnd (backfill_result opts lo hi s) (\<lambda>r. ret (Some r))))))"

section \<open>What a poll logs\<close>

definition same_event :: "decoded_event \<Rightarrow> decoded_event \<Rightarrow> bool" where
  "same_event e ev \<longleftrightarrow> ev_txHash e = ev_txHash ev \<and> ev_topic e = ev_topic ev \<and> ev_ledger e = ev_ledger ev"

lemma logged_with_log_iff: "logged ev (with_log e d) \<longleftrightarrow> logged ev d \<or> same_event e ev"
  by (auto simp: with_log_def logged_def same_event_def exists_row_iff)

lemma logged_eventLog: "eventLog e = eventLog d \<Longrightarrow> logged ev e = logged ev d"
  by (simp add: logged_def)

lemma projectEvent_bookkeeping:
  "indexed (snd (projectEvent rt ev d)) = (eventLog (with_log ev d), cursors d, checkpoints d)"
proof -
  let ?I = "\<lambda>e. indexed e = (eventLog (with_log ev d), cursors d, checkpoints d)"
  have "?I (with_log ev d)" by (simp add: with_log_def)
  moreover have "keeps ?I (publishProjection rt ev)"
    unfolding publishProjection_def by (intro keeps_intros keeps_modify) simp_all
  ultimately show ?thesis
    unfolding projectEvent_run projection_body_def
    by (intro keepsD [where I = ?I] keeps_bnd log_kept_body keeps_if keeps_ret)
qed

lemma projectEvent_frame [simp]:
  "cursors (snd (projectEvent rt ev d)) = cursors d"
  "checkpoints (snd (projectEvent rt ev d)) = checkpoints d"
  "logged e (snd (projectEvent rt ev d)) \<longleftrightarrow> logged e d \<or> same_event ev e"
  using projectEvent_bookkeeping [of rt ev d]
    logged_eventLog [of "snd (projectEvent rt ev d)" "with_log ev d" e] logged_with_log_iff [of e ev d]
  by simp_all

lemma poll_event_run:
  "\<exists>st'. poll_event rt c ev st d = (Inr st', if c < ev_ledger ev then d else snd (projectEvent rt ev d)) \<and>
     (po_failed st' \<longleftrightarrow> po_failed st \<or> ev_ledger ev \<le> c \<and> isl (fst (projectEvent rt ev d))) \<and>
     (po_max st \<le> c \<longrightarrow> po_max st' \<le> c) \<and>
     (\<not> po_failed st' \<longrightarrow>
        po_token st' = (if ev_ledger ev \<le> c then Some (ev_pagingToken ev) else po_token st) \<and>
        po_processed st' = (if ev_ledger ev \<le> c then po_processed st + 1 else po_processed st))"
  by (cases "projectEvent rt ev d")
    (auto simp: poll_event_def try_catch_def bnd_def split: sum.splits)

definition last_token :: "int \<Rightarrow> decoded_event list \<Rightarrow> string option \<Rightarrow> string option" where
  "last_token c evs tok = (case filter (\<lambda>e. ev_ledger e \<le> c) evs of
     [] \<Rightarrow> tok | xs \<Rightarrow> Some (ev_pagingToken (last xs)))"

lemma last_token_Cons:
  "last_token c (e # es) tok = last_token c es (if ev_ledger e \<le> c then Some (ev_pagingToken e) else tok)"
  by (auto simp: last_token_def split: list.splits)

lemma poll_events_run:
  "\<exists>st' d'. poll_events rt c evs st d = (Inr st', d') \<and> cursors d' = cursors d \<and> checkpoints d' = checkpoints d \<and>
     (\<forall>ev. logged ev d' \<longleftrightarrow> logged ev d \<or> (\<exists>e \<in> set evs. ev_ledger e \<le> c \<and> same_event e ev)) \<and>
     (po_failed st \<longrightarrow> po_failed st') \<and> (po_max st \<le> c \<longrightarrow> po_max st' \<le> c) \<and>
     (\<not> po_failed st' \<longrightarrow> po_token st' = last_token c evs (po_token st) \<and>
        po_processed st' = po_processed st + length (filter (\<lambda>e. ev_ledger e \<le> c) evs))"
proof (induction evs arbitrary: st d)
  case (Cons e es)
  obtain st1 where e: "poll_event rt c e st d = (Inr st1, if c < ev_ledger e then d else snd (projectEvent rt e d))"
    and s1: "po_failed st1 \<longleftrightarrow> po_failed st \<or> ev_ledger e \<le> c \<and> isl (fst (projectEvent rt e d))"
    and m1: "po_max st \<le> c \<longrightarrow> po_max st1 \<le> c"
    and t1: "\<not> po_failed st1 \<Longrightarrow>
        po_token st1 = (if ev_ledger e \<le> c then Some (ev_pagingToken e) else po_token st) \<and>
        po_processed st1 = (if ev_ledger e \<le> c then po_processed st + 1 else po_processed st)"
    using poll_event_run [of rt c e st d] by blast
  define d1 where "d1 = (if c < ev_ledger e then d else snd (projectEvent rt e d))"
  have d1: "cursors d1 = cursors d" "checkpoints d1 = checkpoints d"
    "\<And>ev. logged ev d1 \<longleftrightarrow> logged ev d \<or> (ev_ledger e \<le> c \<and> same_event e ev)"
    by (auto simp: d1_def)
  obtain st2 d2 where es: "poll_events rt c es st1 d1 = (Inr st2, d2)"
    and f2: "cursors d2 = cursors d1" "checkpoints d2 = checkpoints d1"
    and l2: "\<And>ev. logged ev d2 \<longleftrightarrow> logged ev d1 \<or> (\<exists>e \<in> set es. ev_ledger e \<le> c \<and> same_event e ev)"
    and s2: "po_failed st1 \<longrightarrow> po_failed st2" and m2: "po_max st1 \<le> c \<longrightarrow> po_max st2 \<le> c"
    and t2: "\<not> po_failed st2 \<Longrightarrow> po_token st2 = last_token c es (po_token st1) \<and>
        po_processed st2 = po_processed st1 + length (filter (\<lambda>e. ev_ledger e \<le> c) es)"
    using Cons.IH [of st1 d1] by blast
  have run: "poll_events rt c (e # es) st d = (Inr st2, d2)"
    using e es by (simp add: bnd_def d1_def)
  have "\<not> po_failed st2 \<longrightarrow> po_token st2 = last_token c (e # es) (po_token st) \<and>
        po_processed st2 = po_processed st + length (filter (\<lambda>e. ev_ledger e \<le> c) (e # es))"
    using s2 t1 t2 by (auto simp: last_token_Cons)
  then show ?case
    using run d1 f2 l2 s1 s2 m1 m2 by auto
qed (simp add: last_token_def)

text \<open>The events that a page of the tick holds.\<close>

definition offered :: "chain_view \<Rightarrow> nat \<Rightarrow> int \<Rightarrow> decoded_event \<Rightarrow> bool" where
  "offered cv page lo e \<longleftrightarrow> (\<exists>tok evs l. cv_page cv page lo tok = Inr (evs, l) \<and> e \<in> set evs)"

lemma poll_pages_run:
  "poll_pages k p rt cv lo c st d = (r, d') \<Longrightarrow>
     cursors d' = cursors d \<and> checkpoints d' = checkpoints d \<and>
     (\<forall>ev. logged ev d \<longrightarrow> logged ev d') \<and>
     (\<forall>ev. logged ev d' \<longrightarrow> logged ev d \<or>
        (\<exists>q < p + k. \<exists>e. offered cv q lo e \<and> ev_ledger e \<le> c \<and> same_event e ev)) \<and>
     (\<forall>st'. r = Inr st' \<longrightarrow> po_max st \<le> c \<longrightarrow> po_max st' \<le> c)"
proof (induction k arbitrary: p st d)
  case (Suc k)
  show ?case
  proof (cases "cv_page cv p lo (page_request (po_token st))")
    case (Inl e)
    with Suc.prems show ?thesis by (auto simp: getEventsFrom_def)
  next
    case (Inr page)
    obtain evs l where page: "cv_page cv p lo (page_request (po_token st)) = Inr (evs, l)"
      using Inr by (cases page) simp
    obtain st1 d1 where es: "poll_events rt c evs st d = (Inr st1, d1)"
      and f1: "cursors d1 = cursors d" "checkpoints d1 = checkpoints d"
      and l1: "\<And>ev. logged ev d1 \<longleftrightarrow> logged ev d \<or> (\<exists>e \<in> set evs. ev_ledger e \<le> c \<and> same_event e ev)"
      and m1: "po_max st \<le> c \<longrightarrow> po_max st1 \<le> c"
      using poll_events_run [of rt c evs st d] by blast
    have new: "\<And>e. e \<in> set evs \<Longrightarrow> offered cv p lo e"
      using page by (auto simp: offered_def)
    have run: "(if last_page c evs st1 then ret st1 else poll_pages k (Suc p) rt cv lo c st1) d1 = (r, d')"
      using Suc.prems page es by (simp add: getEventsFrom_def bnd_def [of "poll_events rt c evs st"] es)
    have step: "logged ev d1 \<Longrightarrow> logged ev d \<or>
        (\<exists>q < p + Suc k. \<exists>e. offered cv q lo e \<and> ev_ledger e \<le> c \<and> same_event e ev)" for ev
    proof -
      assume "logged ev d1"
      moreover have "p < p + Suc k" by simp
      ultimately show ?thesis using l1 [of ev] new by blast
    qed
    show ?thesis
    proof (cases "last_page c evs st1")
      case True
      with run have "r = Inr st1" "d' = d1" by auto
      then show ?thesis using f1 step m1 l1 by (intro conjI allI impI) simp_all
    next
      case False
      with run have "poll_pages k (Suc p) rt cv lo c st1 d1 = (r, d')" by simp
      from Suc.IH [OF this] have IH: "cursors d' = cursors d1" "checkpoints d' = checkpoints d1"
        "\<And>ev. logged ev d1 \<Longrightarrow> logged ev d'"
        "\<And>ev. logged ev d' \<Longrightarrow> logged ev d1 \<or>
           (\<exists>q < Suc p + k. \<exists>e. offered cv q lo e \<and> ev_ledger e \<le> c \<and> same_event e ev)"
        "\<And>st'. r = Inr st' \<Longrightarrow> po_max st1 \<le> c \<longrightarrow> po_max st' \<le> c"
        by blast+
      have "logged ev d' \<Longrightarrow> logged ev d \<or>
           (\<exists>q < p + Suc k. \<exists>e. offered cv q lo e \<and> ev_ledger e \<le> c \<and> same_event e ev)" for ev
        using IH(4) [of ev] step [of ev] by auto
      then show ?thesis using IH(1,2,3,5) f1 l1 m1 by (intro conjI allI impI) simp_all
    qed
  qed
qed auto

lemma cursor_of_set [simp]:
  "cursor_of t (snd (setCursorLedger u n d)) = (if t = u then Some n else cursor_of t d)"
  by (simp add: cursor_of_def setCursorLedger_def cursors_by_topic.lookup_upsert_same
      cursors_by_topic.lookup_upsert_other split: option.split)

lemma setCursorLedger_bnd [simp]: "bnd (setCursorLedger u n) f d = f () (snd (setCursorLedger u n d))"
  by (simp add: setCursorLedger_def)

lemma setCursorLedger_frame [simp]:
  "eventLog (snd (setCursorLedger u n d)) = eventLog d" "checkpoints (snd (setCursorLedger u n d)) = checkpoints d"
  "tips (snd (setCursorLedger u n d)) = tips d" "refunds (snd (setCursorLedger u n d)) = refunds d"
  by (simp_all add: setCursorLedger_def)

section \<open>The cursor\<close>

lemma record_tip_hash_run:
  "\<exists>d'. record_tip_hash cfg cv n d = (Inr (), d') \<and> cursors d' = cursors d \<and> eventLog d' = eventLog d"
  by (auto simp: record_tip_hash_def try_catch_def recordCheckpoint_def pruneCheckpoints_def bnd_def
      andthen_def modify_def gets_def split: sum.splits)

lemma poll_range_run:
  assumes "poll_range cfg rt cv lo c d = (r, d')" and "lo \<le> c"
  shows "logged ev d \<Longrightarrow> logged ev d'"
    and "logged ev d' \<Longrightarrow> logged ev d \<or>
        (\<exists>q < MAX_PAGES_PER_TICK. \<exists>e. offered cv q lo e \<and> ev_ledger e \<le> c \<and> same_event e ev)"
    and "r = Inl x \<Longrightarrow> cursors d' = cursors d \<and> checkpoints d' = checkpoints d"
    and "r = Inr u \<Longrightarrow> cursors d' = cursors (snd (setCursorLedger CURSOR_TOPIC c d)) \<and>
      (\<exists>d2. checkpoints d2 = checkpoints d \<and>
          d' = snd (record_tip_hash cfg cv c (snd (setCursorLedger CURSOR_TOPIC c d2))))"
proof -
  let ?st = "\<lparr>po_token = None, po_processed = 0, po_skipped = 0, po_failed = False, po_max = lo - 1\<rparr>"
  obtain r1 d1 where pages: "poll_pages MAX_PAGES_PER_TICK 0 rt cv lo c ?st d = (r1, d1)" by force
  note P = poll_pages_run [OF pages]
  obtain d3 where rec: "record_tip_hash cfg cv c (snd (setCursorLedger CURSOR_TOPIC c d1)) = (Inr (), d3)"
      "cursors d3 = cursors (snd (setCursorLedger CURSOR_TOPIC c d1))"
      "eventLog d3 = eventLog (snd (setCursorLedger CURSOR_TOPIC c d1))"
    using record_tip_hash_run by blast
  have cur: "cursors d3 = cursors (snd (setCursorLedger CURSOR_TOPIC c d))"
    using rec(2) P by (simp add: setCursorLedger_def)
  have run: "(\<exists>x. r = Inl x) \<and> d' = d1 \<or> r = Inr () \<and> d' = d3"
  proof (cases r1)
    case (Inl x)
    then show ?thesis using assms(1) pages
      by (auto simp: poll_range_def bnd_def [of "poll_pages MAX_PAGES_PER_TICK 0 rt cv lo c ?st"])
  next
    case (Inr st)
    have "max (po_max st) c = c" using P Inr assms(2) by auto
    with Inr rec(1) assms(1) pages show ?thesis
      by (cases "po_failed st")
        (auto simp: poll_range_def bnd_def [of "poll_pages MAX_PAGES_PER_TICK 0 rt cv lo c ?st"])
  qed
  have log: "logged e d' = logged e d1" for e
    using run logged_eventLog [of d3 d1 e] rec(3) by auto
  show "logged ev d \<Longrightarrow> logged ev d'" using P log by blast
  show "logged ev d' \<Longrightarrow> logged ev d \<or>
        (\<exists>q < MAX_PAGES_PER_TICK. \<exists>e. offered cv q lo e \<and> ev_ledger e \<le> c \<and> same_event e ev)"
    using P log by simp
  show "r = Inl x \<Longrightarrow> cursors d' = cursors d \<and> checkpoints d' = checkpoints d"
    using run P by auto
  show "r = Inr u \<Longrightarrow> cursors d' = cursors (snd (setCursorLedger CURSOR_TOPIC c d)) \<and>
      (\<exists>d2. checkpoints d2 = checkpoints d \<and>
          d' = snd (record_tip_hash cfg cv c (snd (setCursorLedger CURSOR_TOPIC c d2))))"
    using run P cur rec(1) by (auto intro!: exI [of _ d1])
qed

lemma reorg_check_unchanged:
  assumes "checkAndHandleReorg cfg cv t d = (r, d')" and "r \<noteq> Inr True"
  shows "d' = d"
  using assms
  by (auto simp: checkAndHandleReorg_def getRecentCheckpoints_def rollbackToLedger_def transaction_run
      deleteCheckpointsAbove_def setCursorLedger_def bnd_def andthen_def split: if_splits sum.splits option.splits)

lemma resolve_start_run:
  "\<exists>r. resolveStartLedger cfg cv d = (r, d) \<and>
     (\<forall>c. cursor_of CURSOR_TOPIC d = Some c \<longrightarrow> r = Inr (c + 1))"
  by (auto simp: resolveStartLedger_def getCursorLedger_def split: option.splits sum.splits)

lemma pollOnce_cases:
  assumes "pollOnce cfg rt cv d = (r, d')" and "fst (checkAndHandleReorg cfg cv CURSOR_TOPIC d) = Inr False"
  shows "d' = d \<or> (\<exists>head lo. cv_head cv 1 = Inr head \<and> lo \<le> head - max 0 (ic_finalityDepth cfg) \<and>
    (\<forall>c. cursor_of CURSOR_TOPIC d = Some c \<longrightarrow> lo = c + 1) \<and> resolveStartLedger cfg cv d = (Inr lo, d) \<and>
    poll_range cfg rt cv lo (head - max 0 (ic_finalityDepth cfg)) d = (r, d'))"
proof -
  have "checkAndHandleReorg cfg cv CURSOR_TOPIC d = (Inr False, d)"
    using assms(2) reorg_check_unchanged [of cfg cv CURSOR_TOPIC d]
    by (cases "checkAndHandleReorg cfg cv CURSOR_TOPIC d") simp
  moreover obtain s where "resolveStartLedger cfg cv d = (s, d)"
      "\<forall>c. cursor_of CURSOR_TOPIC d = Some c \<longrightarrow> s = Inr (c + 1)"
    using resolve_start_run by blast
  ultimately show ?thesis
    using assms(1)
    by (cases s; cases "cv_head cv 1")
      (auto simp: pollOnce_def bnd_def [of "checkAndHandleReorg _ _ _"] bnd_def [of "resolveStartLedger _ _"]
        split: if_splits)
qed


definition demo_chain :: "decoded_event list \<Rightarrow> chain_view" where
  "demo_chain evs = \<lparr>cv_head = (\<lambda>_. Inr 20),
     cv_page = (\<lambda>_ lo tok. case tok of None \<Rightarrow> Inr (filter (\<lambda>e. lo \<le> ev_ledger e) evs, 20) | Some _ \<Rightarrow> Inr ([], 20)),
     cv_hash = (\<lambda>n. Inr (Some (show_int n)))\<rparr>"

definition demo_cfg :: indexer_config where
  "demo_cfg = \<lparr>ic_startLedger = Some 1, ic_finalityDepth = 5, ic_reorgLookback = 4\<rparr>"


section \<open>How much one poll covers\<close>

text \<open>
  The RPC's documented paging of the events of the contract, in ledger order: a page is the
  next \<open>EVENTS_PAGE_SIZE\<close> events from the start ledger, or after the event whose token is given.
\<close>

definition events_from :: "decoded_event list \<Rightarrow> int \<Rightarrow> decoded_event list" where
  "events_from evs lo = filter (\<lambda>e. lo \<le> ev_ledger e) evs"

definition after_token :: "string \<Rightarrow> decoded_event list \<Rightarrow> decoded_event list" where
  "after_token t evs = drop 1 (dropWhile (\<lambda>e. ev_pagingToken e \<noteq> t) evs)"

definition serves :: "chain_view \<Rightarrow> int \<Rightarrow> decoded_event list \<Rightarrow> bool" where
  "serves cv lo evs \<longleftrightarrow> sorted (map ev_ledger evs) \<and> distinct (map ev_pagingToken evs) \<and>
     (\<forall>e \<in> set evs. ev_pagingToken e \<noteq> []) \<and>
     (\<forall>page. \<exists>l. cv_page cv page lo None = Inr (take EVENTS_PAGE_SIZE evs, l)) \<and>
     (\<forall>page t. t \<in> ev_pagingToken ` set evs \<longrightarrow>
        (\<exists>l. cv_page cv page lo (Some t) = Inr (take EVENTS_PAGE_SIZE (after_token t evs), l)))"

text \<open>The token after the first \<open>p\<close> events, and the rest it stands for.\<close>

definition token_at :: "decoded_event list \<Rightarrow> nat \<Rightarrow> string option" where
  "token_at evs p = (if p = 0 then None else Some (ev_pagingToken (evs ! (p - 1))))"

lemma after_token_nth:
  assumes "distinct (map ev_pagingToken evs)" and "p < length evs"
  shows "after_token (ev_pagingToken (evs ! p)) evs = drop (Suc p) evs"
  using assms
proof (induction evs arbitrary: p)
  case (Cons e es)
  show ?case
  proof (cases p)
    case (Suc q)
    with Cons.prems have "ev_pagingToken e \<noteq> ev_pagingToken (es ! q)" by auto
    with Cons Suc show ?thesis by (simp add: after_token_def)
  qed (simp add: after_token_def)
qed simp

lemma serves_page:
  assumes "serves cv lo evs" and "p \<le> length evs"
  shows "\<exists>l. cv_page cv page lo (page_request (token_at evs p)) = Inr (take EVENTS_PAGE_SIZE (drop p evs), l)"
proof (cases p)
  case 0
  with assms show ?thesis by (auto simp: serves_def token_at_def page_request_def)
next
  case (Suc q)
  with assms have mem: "evs ! q \<in> set evs" and tok: "ev_pagingToken (evs ! q) \<noteq> []"
    by (auto simp: serves_def)
  with Suc assms have "after_token (ev_pagingToken (evs ! q)) evs = drop p evs"
    by (simp add: after_token_nth serves_def)
  with assms(1) mem tok Suc show ?thesis
    by (simp add: serves_def token_at_def page_request_def) (metis image_eqI)
qed

lemma sorted_final_iff:
  assumes "sorted (map f xs)" and "i < length xs"
  shows "f (xs ! i) \<le> (c::int) \<longleftrightarrow> i < length (filter (\<lambda>x. f x \<le> c) xs)"
  using assms
proof (induction xs arbitrary: i)
  case (Cons x xs)
  show ?case
  proof (cases "f x \<le> c")
    case True
    with Cons show ?thesis by (cases i) auto
  next
    case False
    with Cons.prems(1) have all: "\<forall>y \<in> set (x # xs). \<not> f y \<le> c" by auto
    have "(x # xs) ! i \<in> set (x # xs)" using Cons.prems(2) by (rule nth_mem)
    with all have "\<not> f ((x # xs) ! i) \<le> c" by blast
    moreover have none: "filter (\<lambda>x. f x \<le> c) (x # xs) = []" using all by (simp add: filter_empty_conv)
    ultimately show ?thesis by (simp only: none) simp
  qed
qed simp

lemma filter_window:
  assumes "sorted (map f xs)" and "p \<le> length (filter (\<lambda>x. f x \<le> (c::int)) xs)"
  shows "filter (\<lambda>x. f x \<le> c) (take n (drop p xs)) = take n (drop p (filter (\<lambda>x. f x \<le> c) xs))"
proof -
  have "sorted (map f (take n (drop p xs)))"
    using assms(1) by (simp add: sorted_wrt_drop sorted_wrt_take drop_map [symmetric] take_map [symmetric])
  have split: "filter (\<lambda>x. f x \<le> c) xs = filter (\<lambda>x. f x \<le> c) (take p xs) @ filter (\<lambda>x. f x \<le> c) (drop p xs)"
    by (metis append_take_drop_id filter_append)
  have "\<forall>x \<in> set (take p xs). f x \<le> c"
    using sorted_final_iff [OF assms(1)] assms(2) by (auto simp: in_set_conv_nth)
  then have "filter (\<lambda>x. f x \<le> c) (take p xs) = take p xs" by (simp add: filter_id_conv)
  moreover have "p \<le> length xs" using assms(2) length_filter_le order_trans by blast
  ultimately have "drop p (filter (\<lambda>x. f x \<le> c) xs) = filter (\<lambda>x. f x \<le> c) (drop p xs)"
    using split by simp
  moreover have "filter (\<lambda>x. f x \<le> c) (take n ys) = take n (filter (\<lambda>x. f x \<le> c) ys)" if "sorted (map f ys)" for ys
    using that
  proof (induction ys arbitrary: n)
    case (Cons y ys)
    show ?case
    proof (cases n)
      case (Suc m)
      show ?thesis
      proof (cases "f y \<le> c")
        case False
        then have "filter (\<lambda>x. f x \<le> c) ys = []" using Cons.prems by (auto simp: filter_empty_conv)
        then show ?thesis using Cons Suc False by simp
      qed (use Cons Suc in simp)
    qed simp
  qed simp
  moreover have "sorted (map f (drop p xs))" using assms(1) by (simp add: sorted_wrt_drop drop_map [symmetric])
  ultimately show ?thesis by metis
qed

lemma poll_pages_failed:
  "poll_pages k p rt cv lo c st d = (Inr st', d') \<Longrightarrow> po_failed st \<Longrightarrow> po_failed st'"
proof (induction k arbitrary: p st d)
  case (Suc k)
  obtain evs l where page: "cv_page cv p lo (page_request (po_token st)) = Inr (evs, l)"
    using Suc.prems by (cases "cv_page cv p lo (page_request (po_token st))") (auto simp: getEventsFrom_def)
  obtain st1 d1 where es: "poll_events rt c evs st d = (Inr st1, d1)" and "po_failed st1"
    using poll_events_run [of rt c evs st d] Suc.prems(2) by blast
  moreover have "(if last_page c evs st1 then ret st1 else poll_pages k (Suc p) rt cv lo c st1) d1 = (Inr st', d')"
    using Suc.prems page es by (simp add: getEventsFrom_def bnd_def [of "poll_events rt c evs st"])
  ultimately show ?case using Suc.IH by (auto split: if_splits)
qed simp

lemma last_token_window:
  assumes "sorted (map ev_ledger evs)" and "p \<le> F" and "F = length (filter (\<lambda>e. ev_ledger e \<le> c) evs)"
  shows "last_token c (take n (drop p evs)) (token_at evs p) = token_at evs (min (p + n) F)"
proof -
  define W where "W = take n (drop p (filter (\<lambda>e. ev_ledger e \<le> c) evs))"
  have W: "filter (\<lambda>e. ev_ledger e \<le> c) (take n (drop p evs)) = W"
    using filter_window [OF assms(1), of p c n] assms(2,3) by (simp add: W_def)
  have pre: "filter (\<lambda>e. ev_ledger e \<le> c) evs = take F evs"
    using filter_window [OF assms(1), of 0 c F] assms(3) sorted_final_iff [OF assms(1)]
    by (simp add: filter_id_conv) (metis filter_id_conv in_set_conv_nth length_take min.strict_boundedE nth_take)
  have len: "length W = min n (F - p)" using assms(3) by (simp add: W_def)
  show ?thesis
  proof (cases "W = []")
    case True
    with len have "n = 0 \<or> F = p" using assms(2) by (simp add: min_def split: if_splits)
    then have "min (p + n) F = p" using assms(2) by auto
    with True W show ?thesis by (simp add: last_token_def)
  next
    case False
    then have pos: "0 < length W" by simp
    have "last W = W ! (length W - 1)" using False by (rule last_conv_nth)
    also have "\<dots> = take n (drop p (take F evs)) ! (length W - 1)" unfolding W_def pre ..
    also have "\<dots> = evs ! (p + (length W - 1))"
    proof -
      have "take n (drop p (take F evs)) ! i = evs ! (p + i)" if "i < n" "p + i < F" for i
        using that assms(3) by (simp add: less_diff_conv)
      moreover have "length W - 1 < n" "p + (length W - 1) < F" using len pos by auto
      ultimately show ?thesis by blast
    qed
    also have "p + (length W - 1) = min (p + n) F - 1"
      using len pos assms(2) by (auto simp: min_def)
    finally have "last W = evs ! (min (p + n) F - 1)" .
    moreover have "min (p + n) F \<noteq> 0" using len pos by auto
    moreover have "last_token c (take n (drop p evs)) (token_at evs p) = Some (ev_pagingToken (last W))"
      using False unfolding last_token_def W by (simp split: list.split)
    ultimately show ?thesis by (simp add: token_at_def)
  qed
qed

lemma poll_pages_covers:
  assumes "serves cv lo evs" and F: "F = length (filter (\<lambda>e. ev_ledger e \<le> c) evs)"
    and "p \<le> F" and "po_token st = token_at evs p" and "po_processed st = p"
    and "poll_pages k q rt cv lo c st d = (Inr st', d')" and "\<not> po_failed st'"
  shows "logged ev d' \<longleftrightarrow> logged ev d \<or>
    (\<exists>e \<in> set (take (k * EVENTS_PAGE_SIZE) (drop p (filter (\<lambda>e. ev_ledger e \<le> c) evs))). same_event e ev)"
  using assms(3-7)
proof (induction k arbitrary: p q st d)
  case (Suc k)
  let ?n = EVENTS_PAGE_SIZE
  let ?page = "take ?n (drop p evs)"
  have srt: "sorted (map ev_ledger evs)" using assms(1) by (simp add: serves_def)
  have le: "F \<le> length evs" using F by simp
  obtain l where page: "cv_page cv q lo (page_request (po_token st)) = Inr (?page, l)"
    using serves_page [OF assms(1), of p q] Suc.prems(1,2) le by auto
  obtain st1 d1 where es: "poll_events rt c ?page st d = (Inr st1, d1)"
    and l1: "\<And>ev. logged ev d1 \<longleftrightarrow> logged ev d \<or> (\<exists>e \<in> set ?page. ev_ledger e \<le> c \<and> same_event e ev)"
    and t1: "\<not> po_failed st1 \<Longrightarrow> po_token st1 = last_token c ?page (po_token st) \<and>
        po_processed st1 = po_processed st + length (filter (\<lambda>e. ev_ledger e \<le> c) ?page)"
    using poll_events_run [of rt c ?page st d] by blast
  let ?fin = "filter (\<lambda>e. ev_ledger e \<le> c) evs"
  have win: "filter (\<lambda>e. ev_ledger e \<le> c) ?page = take ?n (drop p ?fin)"
    using filter_window [OF srt] Suc.prems(1) F by blast
  have new: "logged ev d1 \<longleftrightarrow> logged ev d \<or> (\<exists>e \<in> set (take ?n (drop p ?fin)). same_event e ev)"
    unfolding l1 [of ev] win [symmetric] by auto
  have run: "(if last_page c ?page st1 then ret st1 else poll_pages k (Suc q) rt cv lo c st1) d1 = (Inr st', d')"
    using Suc.prems(4) page es by (simp add: getEventsFrom_def bnd_def [of "poll_events rt c ?page st"])
  show ?case
  proof (cases "last_page c ?page st1")
    case True
    with run have "d' = d1" by simp
    moreover have "F \<le> p"
    proof (rule ccontr)
      assume "\<not> F \<le> p"
      then have "p < F" by simp
      then have "p < length evs" using le by linarith
      with \<open>p < F\<close> have "ev_ledger (evs ! p) \<le> c"
        using sorted_final_iff [OF srt, of p c] F by simp
      from \<open>p < length evs\<close> have "evs ! p \<in> set ?page"
        by (simp add: EVENTS_PAGE_SIZE_def Cons_nth_drop_Suc [symmetric] take_Cons')
      with True \<open>ev_ledger (evs ! p) \<le> c\<close> show False by (fastforce simp: last_page_def list_all_iff)
    qed
    ultimately show ?thesis using new F by simp
  next
    case False
    with run have rest: "poll_pages k (Suc q) rt cv lo c st1 d1 = (Inr st', d')" by simp
    then have ok: "\<not> po_failed st1" using poll_pages_failed Suc.prems(5) by blast
    let ?p = "min (p + ?n) F"
    have "po_token st1 = token_at evs ?p"
      using t1 [OF ok] Suc.prems(2) last_token_window [OF srt Suc.prems(1) F] by simp
    moreover have "po_processed st1 = ?p"
      using t1 [OF ok] Suc.prems(1,3) win F by simp
    ultimately have IH: "logged ev d' \<longleftrightarrow> logged ev d1 \<or>
        (\<exists>e \<in> set (take (k * ?n) (drop ?p ?fin)). same_event e ev)"
      using Suc.IH [of ?p st1 "Suc q" d1] rest Suc.prems(5) by simp
    have "drop ?p ?fin = drop (p + ?n) ?fin" using F by (simp add: min_def)
    moreover have "take (Suc k * ?n) (drop p ?fin) = take ?n (drop p ?fin) @ take (k * ?n) (drop (p + ?n) ?fin)"
      by (simp add: take_add add.commute)
    ultimately show ?thesis using IH new by auto
  qed
qed simp

lemma poll_range_pages:
  assumes "poll_range cfg rt cv lo c d = (Inr u, d')" and "lo \<le> c"
  shows "\<exists>st d1. poll_pages MAX_PAGES_PER_TICK 0 rt cv lo c
      \<lparr>po_token = None, po_processed = 0, po_skipped = 0, po_failed = False, po_max = lo - 1\<rparr> d = (Inr st, d1) \<and>
    \<not> po_failed st \<and> eventLog d' = eventLog d1"
proof -
  let ?st = "\<lparr>po_token = None, po_processed = 0, po_skipped = 0, po_failed = False, po_max = lo - 1\<rparr>"
  obtain r1 d1 where pages: "poll_pages MAX_PAGES_PER_TICK 0 rt cv lo c ?st d = (r1, d1)" by force
  then obtain st where st: "r1 = Inr st" using assms(1)
    by (cases r1) (auto simp: poll_range_def bnd_def [of "poll_pages MAX_PAGES_PER_TICK 0 rt cv lo c ?st"])
  have "max (po_max st) c = c" using poll_pages_run [OF pages] st assms(2) by auto
  moreover obtain d3 where "record_tip_hash cfg cv c (snd (setCursorLedger CURSOR_TOPIC c d1)) = (Inr (), d3)"
      "eventLog d3 = eventLog (snd (setCursorLedger CURSOR_TOPIC c d1))"
    using record_tip_hash_run by blast
  ultimately have "\<not> po_failed st \<and> d' = d3 \<and> eventLog d3 = eventLog d1"
    using assms(1) pages st
    by (cases "po_failed st")
      (auto simp: poll_range_def bnd_def [of "poll_pages MAX_PAGES_PER_TICK 0 rt cv lo c ?st"])
  with pages st show ?thesis by auto
qed

text \<open>
  What one successful poll covers, exactly: of the final events from the start ledger it
  projects the first fifty pages of one hundred, and it moves the cursor to the finality bound
  whether or not there were more. A backlog of at most five thousand final events is covered
  completely; of a longer one the rest is never read again.
\<close>

theorem poll_covers_fifty_pages:
  assumes "pollOnce cfg rt cv d = (Inr (), d')"
    and "fst (checkAndHandleReorg cfg cv CURSOR_TOPIC d) = Inr False"
    and "resolveStartLedger cfg cv d = (Inr lo, d)" and "cv_head cv 1 = Inr head"
    and "c = head - max 0 (ic_finalityDepth cfg)" and "lo \<le> c" and "serves cv lo evs"
  shows "(\<forall>ev. logged ev d' \<longleftrightarrow> logged ev d \<or>
      (\<exists>e \<in> set (take 5000 (filter (\<lambda>e. ev_ledger e \<le> c) evs)). same_event e ev)) \<and>
    cursor_of CURSOR_TOPIC d' = Some c"
proof -
  have "checkAndHandleReorg cfg cv CURSOR_TOPIC d = (Inr False, d)"
    using assms(2) reorg_check_unchanged [of cfg cv CURSOR_TOPIC d]
    by (cases "checkAndHandleReorg cfg cv CURSOR_TOPIC d") simp
  then have run: "poll_range cfg rt cv lo c d = (Inr (), d')"
    using assms(1,3-6)
    by (simp add: pollOnce_def bnd_def [of "checkAndHandleReorg _ _ _"] bnd_def [of "resolveStartLedger _ _"])
  obtain st d1 where pages: "poll_pages MAX_PAGES_PER_TICK 0 rt cv lo c
      \<lparr>po_token = None, po_processed = 0, po_skipped = 0, po_failed = False, po_max = lo - 1\<rparr> d = (Inr st, d1)"
      and ok: "\<not> po_failed st" and log: "eventLog d' = eventLog d1"
    using poll_range_pages [OF run assms(6)] by blast
  have "MAX_PAGES_PER_TICK * EVENTS_PAGE_SIZE = 5000"
    by (simp add: MAX_PAGES_PER_TICK_def EVENTS_PAGE_SIZE_def)
  then have "logged ev d1 \<longleftrightarrow> logged ev d \<or>
      (\<exists>e \<in> set (take 5000 (filter (\<lambda>e. ev_ledger e \<le> c) evs)). same_event e ev)" for ev
    using poll_pages_covers [OF assms(7) refl, where p = 0, OF _ _ _ pages ok] by (simp add: token_at_def)
  moreover have "cursor_of CURSOR_TOPIC d' = Some c"
    using poll_range_run(4) [OF run assms(6) refl] cursor_of_set [of CURSOR_TOPIC CURSOR_TOPIC c d]
    by (simp add: cursor_of_def)
  ultimately show ?thesis using logged_eventLog [OF log] by simp
qed

definition paged_chain :: "decoded_event list \<Rightarrow> chain_view" where
  "paged_chain evs = \<lparr>cv_head = (\<lambda>_. Inr 20),
     cv_page = (\<lambda>_ lo tok. Inr (take EVENTS_PAGE_SIZE (case tok of None \<Rightarrow> evs | Some t \<Rightarrow> after_token t evs), 20)),
     cv_hash = (\<lambda>n. Inr (Some (show_int n)))\<rparr>"

theorem poll_covers_fifty_pages_witness:
  "let d' = snd (pollOnce demo_cfg demo_rt (paged_chain [tip_event, cancel_event]) empty_db) in
     logged cancel_event d' \<and> cursor_of CURSOR_TOPIC d' = Some 15"
proof -
  let ?cv = "paged_chain [tip_event, cancel_event]"
  let ?r = "pollOnce demo_cfg demo_rt ?cv empty_db"
  have "fst ?r = Inr ()" by code_simp
  then have run: "?r = (Inr (), snd ?r)" by (metis prod.collapse)
  have quiet: "fst (checkAndHandleReorg demo_cfg ?cv CURSOR_TOPIC empty_db) = Inr False" by code_simp
  have start: "resolveStartLedger demo_cfg ?cv empty_db = (Inr 1, empty_db)"
    by (simp add: resolveStartLedger_def getCursorLedger_def cursor_of_def empty_db_def find_by_def demo_cfg_def)
  have head: "cv_head ?cv 1 = Inr 20" and bound: "15 = 20 - max 0 (ic_finalityDepth demo_cfg)"
    by (simp_all add: paged_chain_def demo_cfg_def)
  have served: "serves ?cv 1 [tip_event, cancel_event]"
    by (auto simp: serves_def paged_chain_def tip_event_def cancel_event_def)
  show ?thesis
    using poll_covers_fifty_pages [OF run quiet start head bound _ served]
    by (auto simp: Let_def tip_event_def cancel_event_def same_event_def)
qed

section \<open>Reorganisations, in the large\<close>

text \<open>
  The specification of the detection, when every hash lookup answers: look at the checkpoints
  the chain still knows, newest first; a reorganisation happened when the first of them
  disagrees, and the fork is the first that agrees, or just below the oldest checkpoint.
\<close>

definition conclusive :: "(int \<Rightarrow> string option) \<Rightarrow> checkpoint_row list \<Rightarrow> checkpoint_row list" where
  "conclusive H cs = filter (\<lambda>c. H (cp_ledger c) \<noteq> None) cs"

definition diverged :: "(int \<Rightarrow> string option) \<Rightarrow> checkpoint_row \<Rightarrow> bool" where
  "diverged H c \<longleftrightarrow> H (cp_ledger c) \<noteq> Some (cp_hash c)"

lemma walk_checkpoints_spec:
  "walk_checkpoints (\<lambda>n. Inr (H n)) cs dv =
     Inr (map_option cp_ledger (find_row (\<lambda>c. \<not> diverged H c) cs),
          case dv of Some v \<Rightarrow> Some v
          | None \<Rightarrow> (case takeWhile (diverged H) (conclusive H cs) of [] \<Rightarrow> None | c # _ \<Rightarrow> Some (cp_ledger c)))"
  by (induction cs arbitrary: dv) (auto simp: conclusive_def diverged_def split: option.splits)

lemma takeWhile_none_iff: "takeWhile P xs = [] \<longleftrightarrow> \<not> (xs \<noteq> [] \<and> P (hd xs))"
  by (cases xs) auto

lemma find_row_first:
  assumes "find_row p cs = Some c" and "sorted_wrt (\<lambda>a b. f b < f a) cs" and "x \<in> set cs" and "f c < (f x :: int)"
  shows "\<not> p x"
  using assms by (induction cs) (auto split: if_splits dest: find_row_Some)

text \<open>
  The detection of a reorganisation refines that specification: it reports one exactly
  when the newest checkpoint the chain can confirm disagrees. The reported fork is then the
  highest checkpoint that agrees, so every confirmed checkpoint above it disagrees; only when
  none agrees is the fork below them all.
\<close>

theorem detect_reorg_refines:
  assumes "detectReorg (\<lambda>n. Inr (H n)) cs = Inr det" and "sorted_wrt (\<lambda>a b. cp_ledger b < cp_ledger a) cs"
  shows "(rd_reorged det \<longleftrightarrow> conclusive H cs \<noteq> [] \<and> diverged H (hd (conclusive H cs))) \<and>
    (rd_reorged det \<longrightarrow> (\<exists>fork. rd_forkLedger det = Some fork \<and>
      (\<forall>c \<in> set (conclusive H cs). fork < cp_ledger c \<longrightarrow> diverged H c) \<and>
      ((\<exists>c \<in> set cs. cp_ledger c = fork \<and> \<not> diverged H c) \<or>
       fork = max 0 (cp_ledger (last cs) - 1) \<and> (\<forall>c \<in> set cs. diverged H c))))"
proof (cases "find_row (\<lambda>c. \<not> diverged H c) cs")
  case (Some c)
  then have det: "det = \<lparr>rd_reorged = (takeWhile (diverged H) (conclusive H cs) \<noteq> []),
      rd_forkLedger = Some (cp_ledger c),
      rd_divergedAt = (case takeWhile (diverged H) (conclusive H cs) of [] \<Rightarrow> None | c # _ \<Rightarrow> Some (cp_ledger c))\<rparr>"
    using assms(1) by (auto simp: detectReorg_def walk_checkpoints_spec split: list.splits)
  have "\<forall>x \<in> set (conclusive H cs). cp_ledger c < cp_ledger x \<longrightarrow> diverged H x"
    using find_row_first [OF Some assms(2)] by (auto simp: conclusive_def)
  moreover have "c \<in> set cs \<and> \<not> diverged H c" using find_row_Some [OF Some] by simp
  ultimately show ?thesis unfolding det by (auto simp: takeWhile_none_iff)
next
  case None
  then have all: "\<forall>c \<in> set cs. diverged H c" by (simp add: find_row_None)
  then have sub: "\<forall>c \<in> set (conclusive H cs). diverged H c" by (simp add: conclusive_def)
  show ?thesis
  proof (cases "conclusive H cs")
    case Nil
    with None assms(1) show ?thesis by (auto simp: detectReorg_def walk_checkpoints_spec)
  next
    case (Cons x xs)
    then have "diverged H x" "cs \<noteq> []" using sub by (auto simp: conclusive_def)
    with Cons None assms(1) have "det = \<lparr>rd_reorged = True, rd_forkLedger = Some (max 0 (cp_ledger (last cs) - 1)),
        rd_divergedAt = Some (cp_ledger x)\<rparr>"
      by (simp add: detectReorg_def walk_checkpoints_spec)
    with Cons sub all \<open>diverged H x\<close> show ?thesis by simp
  qed
qed

definition demo_checkpoints :: "checkpoint_row list" where
  "demo_checkpoints = [\<lparr>cp_topic = CURSOR_TOPIC, cp_ledger = 12, cp_hash = ''old''\<rparr>,
     \<lparr>cp_topic = CURSOR_TOPIC, cp_ledger = 11, cp_hash = ''11''\<rparr>]"

theorem detect_reorg_refines_witness:
  "rd_reorged \<lparr>rd_reorged = True, rd_forkLedger = Some 11, rd_divergedAt = Some 12\<rparr> \<longleftrightarrow>
   conclusive (\<lambda>n. Some (show_int n)) demo_checkpoints \<noteq> [] \<and>
   diverged (\<lambda>n. Some (show_int n)) (hd (conclusive (\<lambda>n. Some (show_int n)) demo_checkpoints))"
proof -
  have "detectReorg (\<lambda>n. Inr (Some (show_int n))) demo_checkpoints =
      Inr \<lparr>rd_reorged = True, rd_forkLedger = Some 11, rd_divergedAt = Some 12\<rparr>"
    by code_simp
  then show ?thesis
    using detect_reorg_refines [of "\<lambda>n. Some (show_int n)" demo_checkpoints]
    by (simp add: demo_checkpoints_def)
qed

definition rolled_back :: "string \<Rightarrow> int \<Rightarrow> db \<Rightarrow> db" where
  "rolled_back t fork d = snd (setCursorLedger t fork (d\<lparr>
     refunds := delete_rows (\<lambda>r. tip_above fork d (rf_tipId r)) (refunds d),
     tips := delete_rows (\<lambda>x. fork < tip_ledger x) (tips d),
     eventLog := delete_rows (\<lambda>e. fork < el_ledger e) (eventLog d),
     checkpoints := delete_rows (\<lambda>c. cp_topic c = t \<and> fork < cp_ledger c) (checkpoints d)\<rparr>))"

lemma rollback_run:
  "rollbackToLedger t fork d = (Inr (count_rows (\<lambda>e. fork < el_ledger e) (eventLog d),
      count_rows (\<lambda>x. fork < tip_ledger x) (tips d), count_rows (\<lambda>r. tip_above fork d (rf_tipId r)) (refunds d)),
      rolled_back t fork d)"
  by (simp add: rollbackToLedger_def deleteCheckpointsAbove_def transaction_run rolled_back_def)

lemma rolled_back_frame [simp]:
  "users (rolled_back t fork d) = users d" "goals (rolled_back t fork d) = goals d"
  "subscriptions (rolled_back t fork d) = subscriptions d" "scores (rolled_back t fork d) = scores d"
  by (simp_all add: rolled_back_def setCursorLedger_def)

lemma rolled_back_logged [simp]:
  "logged ev (rolled_back t fork d) \<longleftrightarrow> logged ev d \<and> ev_ledger ev \<le> fork"
  by (auto simp: rolled_back_def logged_def exists_row_iff set_delete_rows)

lemma rolled_back_rows:
  "tips (rolled_back t fork d) = filter (\<lambda>x. tip_ledger x \<le> fork) (tips d)"
  "refunds (rolled_back t fork d) = filter (\<lambda>r. \<not> tip_above fork d (rf_tipId r)) (refunds d)"
  "checkpoints (rolled_back t fork d) = filter (\<lambda>c. cp_topic c = t \<longrightarrow> cp_ledger c \<le> fork) (checkpoints d)"
  "cursor_of t (rolled_back t fork d) = Some fork"
  by (simp_all add: rolled_back_def delete_rows_def not_less disj_imp cong: filter_cong)

text \<open>
  The rollback to a fork removes exactly what was stamped above it (log rows, tips, and
  the refunds of removed tips), moves the topic's checkpoints and cursor back to the fork,
  and touches nothing else: after it, no event above the fork counts as logged, so that the
  re-read chain is projected anew.
\<close>

theorem rollback_effect:
  "fst (rollbackToLedger t fork d) = Inr (count_rows (\<lambda>e. fork < el_ledger e) (eventLog d),
      count_rows (\<lambda>x. fork < tip_ledger x) (tips d), count_rows (\<lambda>r. tip_above fork d (rf_tipId r)) (refunds d))
   \<and> (let d' = snd (rollbackToLedger t fork d) in
      tips d' = filter (\<lambda>x. tip_ledger x \<le> fork) (tips d) \<and>
      refunds d' = filter (\<lambda>r. \<not> tip_above fork d (rf_tipId r)) (refunds d) \<and>
      (\<forall>ev. logged ev d' \<longleftrightarrow> logged ev d \<and> ev_ledger ev \<le> fork) \<and>
      checkpoints d' = delete_rows (\<lambda>c. cp_topic c = t \<and> fork < cp_ledger c) (checkpoints d) \<and>
      cursor_of t d' = Some fork \<and>
      users d' = users d \<and> goals d' = goals d \<and> subscriptions d' = subscriptions d \<and> scores d' = scores d)"
  by (simp add: rollback_run rolled_back_rows Let_def delete_rows_def disj_imp not_less cong: filter_cong)

section \<open>The checkpoint window\<close>

interpretation checkpoints_by_ledger: keyed_table "\<lambda>c. (cp_topic c, cp_ledger c)"
    "find_by (\<lambda>c. (cp_topic c, cp_ledger c))" "upsert_row (\<lambda>c. (cp_topic c, cp_ledger c))"
  by unfold_locales simp_all

definition checkpoint_window :: "indexer_config \<Rightarrow> db \<Rightarrow> bool" where
  "checkpoint_window cfg d \<longleftrightarrow> unique_by (\<lambda>c. (cp_topic c, cp_ledger c)) (checkpoints d) \<and>
     count_rows (\<lambda>c. cp_topic c = CURSOR_TOPIC) (checkpoints d) \<le> nat (ic_reorgLookback cfg) \<and>
     (\<forall>c \<in> set (checkpoints d). cp_topic c = CURSOR_TOPIC \<longrightarrow>
        (\<exists>k. cursor_of CURSOR_TOPIC d = Some k \<and> cp_ledger c \<le> k))"

lemma length_filter_order_desc: "length (filter P (order_desc f xs)) = length (filter P xs)"
proof -
  have "filter P (order_desc f xs) = rev (sort_key f (filter P (rev xs)))"
    by (simp add: order_desc_def rev_filter [symmetric] filter_sort)
  then show ?thesis by (simp add: rev_filter [symmetric])
qed

lemma count_rows_upsert:
  "(\<And>r. p (f r) = p r) \<Longrightarrow> count_rows p (upsert_row key k new f xs) \<le> Suc (count_rows p xs)"
proof -
  assume "\<And>r. p (f r) = p r"
  then have "count_rows p (update_rows q f xs) = count_rows p xs" for q
    by (induction xs) auto
  then show ?thesis by (simp add: upsert_row_def)
qed

lemma prune_count:
  assumes "count_rows (\<lambda>c. cp_topic c = t) (checkpoints d) \<le> Suc (nat keep)"
  shows "count_rows (\<lambda>c. cp_topic c = t) (checkpoints (snd (pruneCheckpoints t keep d))) \<le> nat keep"
proof -
  let ?T = "topic_checkpoints t d"
  let ?stale = "take 1000 (drop (nat keep) ?T)"
  let ?q = "\<lambda>c. cp_ledger c \<notin> set (map cp_ledger ?stale)"
  have len: "length ?T \<le> Suc (nat keep)"
    using assms by (simp add: topic_checkpoints_def count_rows_def)
  show ?thesis
  proof (cases "?stale = []")
    case True
    then have "length ?T \<le> nat keep" by simp
    moreover have "checkpoints (snd (pruneCheckpoints t keep d)) = checkpoints d"
      using True by (simp add: pruneCheckpoints_def)
    ultimately show ?thesis by (simp add: topic_checkpoints_def count_rows_def)
  next
    case False
    have "checkpoints (snd (pruneCheckpoints t keep d)) =
        delete_rows (\<lambda>c. cp_topic c = t \<and> cp_ledger c \<in> set (map cp_ledger ?stale)) (checkpoints d)"
      using False by (simp add: pruneCheckpoints_def)
    then have "count_rows (\<lambda>c. cp_topic c = t) (checkpoints (snd (pruneCheckpoints t keep d))) =
        length (filter ?q (filter (\<lambda>c. cp_topic c = t) (checkpoints d)))"
      by (simp add: count_rows_def delete_rows_def conj_commute cong: conj_cong)
    also have "\<dots> = length (filter ?q ?T)"
      by (simp add: topic_checkpoints_def length_filter_order_desc)
    also have "\<dots> = length (filter ?q (take (nat keep) ?T)) + length (filter ?q (drop (nat keep) ?T))"
      by (metis append_take_drop_id filter_append length_append)
    also have "filter ?q (drop (nat keep) ?T) = []"
    proof -
      have "?stale = drop (nat keep) ?T" using len by simp
      then show ?thesis by (simp add: filter_empty_conv)
    qed
    also have "length (filter ?q (take (nat keep) ?T)) + length ([] :: checkpoint_row list) \<le> nat keep"
      using length_filter_le [of ?q "take (nat keep) ?T"] by simp
    finally show ?thesis .
  qed
qed

lemma prune_subset:
  "c \<in> set (checkpoints (snd (pruneCheckpoints t keep d))) \<Longrightarrow> c \<in> set (checkpoints d)"
  "cursors (snd (pruneCheckpoints t keep d)) = cursors d"
  "unique_by f (checkpoints d) \<Longrightarrow> unique_by f (checkpoints (snd (pruneCheckpoints t keep d)))"
  by (auto simp: pruneCheckpoints_def set_delete_rows unique_by_def delete_rows_def distinct_map_filter split: if_splits)

lemma record_window:
  assumes "checkpoint_window cfg d" and "cursor_of CURSOR_TOPIC e = Some n"
    and "\<And>k. cursor_of CURSOR_TOPIC d = Some k \<Longrightarrow> k \<le> n" and "checkpoints e = checkpoints d"
  shows "checkpoint_window cfg (snd (record_tip_hash cfg cv n e))"
proof -
  have base: "checkpoint_window cfg e"
    using assms unfolding checkpoint_window_def by (metis order_trans option.inject)
  show ?thesis
  proof (cases "\<exists>h. cv_hash cv n = Inr (Some h) \<and> h \<noteq> []")
    case False
    then have "snd (record_tip_hash cfg cv n e) = e"
      by (auto simp: record_tip_hash_def try_catch_def split: sum.splits option.splits)
    with base show ?thesis by simp
  next
    case True
    then obtain h where h: "cv_hash cv n = Inr (Some h)" "h \<noteq> []" by blast
    define e1 where "e1 = e\<lparr>checkpoints := upsert_row (\<lambda>c. (cp_topic c, cp_ledger c)) (CURSOR_TOPIC, n)
         \<lparr>cp_topic = CURSOR_TOPIC, cp_ledger = n, cp_hash = h\<rparr> (\<lambda>c. c\<lparr>cp_hash := h\<rparr>) (checkpoints e)\<rparr>"
    have run: "snd (record_tip_hash cfg cv n e) = snd (pruneCheckpoints CURSOR_TOPIC (ic_reorgLookback cfg) e1)"
      using h by (simp add: record_tip_hash_def try_catch_def recordCheckpoint_def e1_def pruneCheckpoints_def)
    have "unique_by (\<lambda>c. (cp_topic c, cp_ledger c)) (checkpoints e1)"
      using base by (simp add: e1_def checkpoint_window_def checkpoints_by_ledger.upsert_unique)
    moreover have "count_rows (\<lambda>c. cp_topic c = CURSOR_TOPIC) (checkpoints e1) \<le> Suc (nat (ic_reorgLookback cfg))"
    proof -
      have "count_rows (\<lambda>c. cp_topic c = CURSOR_TOPIC) (checkpoints e1) \<le>
          Suc (count_rows (\<lambda>c. cp_topic c = CURSOR_TOPIC) (checkpoints e))"
        unfolding e1_def by simp (rule count_rows_upsert, simp)
      then show ?thesis using base by (simp add: checkpoint_window_def)
    qed
    moreover have "\<forall>c \<in> set (checkpoints e1). cp_topic c = CURSOR_TOPIC \<longrightarrow> cp_ledger c \<le> n"
      using base assms(2) by (auto simp: e1_def checkpoint_window_def upsert_row_def set_update_rows)
    moreover have "cursors e1 = cursors e" by (simp add: e1_def)
    ultimately show ?thesis
      unfolding run checkpoint_window_def
      using assms(2) prune_count [of CURSOR_TOPIC e1 "ic_reorgLookback cfg"]
        prune_subset [where t = CURSOR_TOPIC and keep = "ic_reorgLookback cfg" and d = e1]
      by (simp add: cursor_of_def) blast
  qed
qed

text \<open>
  The checkpoints that guard against reorganisations stay usable: whatever the chain
  answers, a poll (successful, failed, or rolling back) keeps at most one checkpoint per
  ledger, at most \<open>INDEXER_REORG_LOOKBACK\<close> of them, and none ahead of the cursor.
\<close>

theorem poll_keeps_checkpoint_window:
  assumes "checkpoint_window cfg d"
  shows "checkpoint_window cfg (snd (pollOnce cfg rt cv d))"
proof -
  obtain h e where check: "checkAndHandleReorg cfg cv CURSOR_TOPIC d = (h, e)" by force
  obtain r d' where run: "pollOnce cfg rt cv d = (r, d')" by force
  consider (quiet) "h = Inr False" | (failed) x where "h = Inl x" | (rolled) "h = Inr True"
    by (cases h) (auto intro: that)
  then have "checkpoint_window cfg d'"
  proof cases
    case quiet
    with check have "fst (checkAndHandleReorg cfg cv CURSOR_TOPIC d) = Inr False" by simp
    from pollOnce_cases [OF run this] show ?thesis
    proof (elim disjE exE conjE)
      fix head lo
      let ?c = "head - max 0 (ic_finalityDepth cfg)"
      assume lo: "lo \<le> ?c" and start: "\<forall>c. cursor_of CURSOR_TOPIC d = Some c \<longrightarrow> lo = c + 1"
        and range: "poll_range cfg rt cv lo ?c d = (r, d')"
      show ?thesis
      proof (cases r)
        case (Inl x)
        with poll_range_run(3) [OF range lo] assms show ?thesis
          by (simp add: checkpoint_window_def cursor_of_def)
      next
        case (Inr u)
        obtain d2 where "checkpoints d2 = checkpoints d"
            and d': "d' = snd (record_tip_hash cfg cv ?c (snd (setCursorLedger CURSOR_TOPIC ?c d2)))"
          using poll_range_run(4) [OF range lo Inr] by blast
        then show ?thesis
          unfolding d' using assms start lo by (intro record_window [of cfg d]) auto
      qed
    qed (use assms in simp)
  next
    case failed
    with run check reorg_check_unchanged [OF check] show ?thesis
      using assms by (simp add: pollOnce_def bnd_def)
  next
    case rolled
    then obtain fork where "e = rolled_back CURSOR_TOPIC fork d"
      using check by (auto simp: checkAndHandleReorg_def getRecentCheckpoints_def bnd_def rollback_run
          split: if_splits sum.splits option.splits)
    moreover have "d' = e" using run check rolled by (simp add: pollOnce_def bnd_def)
    moreover have "count_rows p (filter q xs) \<le> count_rows p xs" for p :: "checkpoint_row \<Rightarrow> bool" and q xs
      by (induction xs) auto
    then have "count_rows (\<lambda>c. cp_topic c = CURSOR_TOPIC) (checkpoints (rolled_back CURSOR_TOPIC fork d))
        \<le> nat (ic_reorgLookback cfg)"
      using assms unfolding rolled_back_rows checkpoint_window_def by (meson order_trans)
    ultimately show ?thesis
      using assms by (auto simp: checkpoint_window_def rolled_back_rows unique_by_def distinct_map_filter)
  qed
  with run show ?thesis by simp
qed

theorem poll_keeps_checkpoint_window_witness:
  "checkpoint_window demo_cfg (snd (pollOnce demo_cfg demo_rt (demo_chain [tip_event]) empty_db))"
  by (rule poll_keeps_checkpoint_window) (simp add: checkpoint_window_def empty_db_def)

section \<open>What a backfill covers\<close>

lemma backfill_event_run:
  "\<exists>st'. backfill_event rt False hi ev st d =
       (Inr st', if hi < ev_ledger ev then d else snd (projectEvent rt ev d)) \<and> bs_covered st' = bs_covered st \<and>
     bs_projected st' + length (bs_failed st') + bs_skipped st' =
       Suc (bs_projected st + length (bs_failed st) + bs_skipped st)"
  by (cases "projectEvent rt ev d")
    (auto simp: backfill_event_def try_catch_def bnd_def note_projected_def split: sum.splits)

lemma backfill_events_run:
  "\<exists>st' d'. backfill_events rt False hi evs st d = (Inr st', d') \<and> bs_covered st' = bs_covered st \<and>
     bs_projected st' + length (bs_failed st') + bs_skipped st' =
       length evs + bs_projected st + length (bs_failed st) + bs_skipped st \<and>
     (\<forall>ev. logged ev d' \<longleftrightarrow> logged ev d \<or> (\<exists>e \<in> set evs. ev_ledger e \<le> hi \<and> same_event e ev))"
proof (induction evs arbitrary: st d)
  case (Cons e es)
  define d1 where "d1 = (if hi < ev_ledger e then d else snd (projectEvent rt e d))"
  obtain st1 where e: "backfill_event rt False hi e st d = (Inr st1, d1)"
    and s1: "bs_covered st1 = bs_covered st"
      "bs_projected st1 + length (bs_failed st1) + bs_skipped st1 =
       Suc (bs_projected st + length (bs_failed st) + bs_skipped st)"
    using backfill_event_run [of rt hi e st d] by (auto simp: d1_def)
  have d1: "logged ev d1 \<longleftrightarrow> logged ev d \<or> (ev_ledger e \<le> hi \<and> same_event e ev)" for ev
    by (auto simp: d1_def)
  obtain st2 d2 where es: "backfill_events rt False hi es st1 d1 = (Inr st2, d2)" "bs_covered st2 = bs_covered st1"
     "bs_projected st2 + length (bs_failed st2) + bs_skipped st2 =
       length es + bs_projected st1 + length (bs_failed st1) + bs_skipped st1"
     "\<And>ev. logged ev d2 \<longleftrightarrow> logged ev d1 \<or> (\<exists>e \<in> set es. ev_ledger e \<le> hi \<and> same_event e ev)"
    using Cons.IH [of st1 d1] by blast
  have "backfill_events rt False hi (e # es) st d = (Inr st2, d2)"
    using e es(1) by (simp add: bnd_def)
  with es s1 d1 show ?case by auto
qed simp

lemma backfill_dry_events:
  "\<exists>st'. backfill_events rt True hi evs st d = (Inr st', d) \<and> bs_covered st' = bs_covered st \<and> bs_token st' = bs_token st"
proof (induction evs arbitrary: st)
  case (Cons e es)
  obtain st1 where "backfill_event rt True hi e st d = (Inr st1, d)" "bs_covered st1 = bs_covered st"
      "bs_token st1 = bs_token st"
    by (cases "hi < ev_ledger e") (simp_all add: backfill_event_def note_projected_def)
  with Cons.IH [of st1] show ?case by (simp add: bnd_def)
qed simp

lemma backfill_dry_pages:
  "snd (backfill_pages fuel page rt cv True lo hi st d) = d"
proof (induction fuel arbitrary: page st)
  case (Suc fuel)
  show ?case
  proof (cases "bs_covered st < hi")
    case True
    show ?thesis
    proof (cases "cv_page cv page lo (page_request (bs_token st))")
      case (Inr pg)
      obtain evs l where pg: "pg = (evs, l)" by force
      obtain st' where "backfill_events rt True hi evs (st\<lparr>bs_covered := min (max (bs_covered st) l) hi\<rparr>) d = (Inr st', d)"
        using backfill_dry_events by blast
      with True Inr pg Suc.IH show ?thesis
        by (simp add: backfill_pages.simps [of "Suc fuel"] getEventsFrom_def bnd_def)
    qed (use True in \<open>simp add: backfill_pages.simps [of "Suc fuel"] getEventsFrom_def\<close>)
  qed (simp add: backfill_pages.simps [of "Suc fuel"])
qed (simp add: backfill_pages.simps [of 0])

definition backfill_range :: "indexer_config \<Rightarrow> backfill_options \<Rightarrow> db \<Rightarrow> int \<Rightarrow> int \<times> int" where
  "backfill_range cfg opts d head =
     (backfill_from cfg opts (if bo_force opts then None else cursor_of BACKFILL_CURSOR_TOPIC d),
      case bo_to opts of Some t \<Rightarrow> t | None \<Rightarrow> head)"

text \<open>
  A backfill up to a ledger that the chain has already reached reads exactly one page: the
  loop counts the range as covered as soon as the RPC reports a head at or past its end. The
  events of that page within the range are logged, the rest of the range is not read, failed
  projections are only counted, and the backfill cursor is moved to the end of the range.
\<close>

theorem backfill_reads_one_page:
  assumes "cv_head cv 0 = Inr head" and "backfill_range cfg opts d head = (lo, hi)" and "lo \<le> hi"
    and "\<not> bo_dryRun opts" and "cv_page cv 0 lo None = Inr (evs, latest)" and "hi \<le> latest"
  shows "\<exists>rep. fst (runBackfill (Suc n) cfg opts rt cv d) = Inr (Some rep) \<and> br_newCursorLedger rep = hi \<and>
      br_projected rep + br_failed rep + br_skipped rep = length evs
    \<and> (\<forall>ev. logged ev (snd (runBackfill (Suc n) cfg opts rt cv d)) \<longleftrightarrow>
        logged ev d \<or> (\<exists>e \<in> set evs. ev_ledger e \<le> hi \<and> same_event e ev))
    \<and> cursor_of BACKFILL_CURSOR_TOPIC (snd (runBackfill (Suc n) cfg opts rt cv d)) = Some hi"
proof -
  let ?st = "\<lparr>bs_projected = 0, bs_skipped = 0, bs_failed = [], bs_byTopic = [], bs_covered = lo - 1, bs_token = None\<rparr>"
  obtain st' d1 where es: "backfill_events rt False hi evs (?st\<lparr>bs_covered := hi\<rparr>) d = (Inr st', d1)"
    and cov: "bs_covered st' = hi"
    and sums: "bs_projected st' + length (bs_failed st') + bs_skipped st' = length evs"
    and log: "\<And>ev. logged ev d1 \<longleftrightarrow> logged ev d \<or> (\<exists>e \<in> set evs. ev_ledger e \<le> hi \<and> same_event e ev)"
    using backfill_events_run [of rt hi evs "?st\<lparr>bs_covered := hi\<rparr>" d] by auto
  have "min (max (lo - 1) latest) hi = hi" using assms(3,6) by simp
  then have "backfill_pages (Suc n) 0 rt cv False lo hi ?st d = (Inr (Some st'), d1)"
    using assms(3,5) es cov
    by (simp add: backfill_pages.simps [of "Suc n"] backfill_pages.simps [of n] getEventsFrom_def page_request_def bnd_def)
  then have run: "runBackfill (Suc n) cfg opts rt cv d = (Inr (Some \<lparr>br_fromLedger = lo, br_toLedger = hi,
      br_projected = bs_projected st', br_skipped = bs_skipped st', br_failed = length (bs_failed st'),
      br_dryRun = bo_dryRun opts, br_newCursorLedger = hi\<rparr>), snd (setCursorLedger BACKFILL_CURSOR_TOPIC hi d1))"
    using assms(1-4) cov
    by (cases "bo_force opts")
      (auto simp: runBackfill_def backfill_range_def getCursorLedger_def backfill_result_def Let_def bnd_def [of "backfill_pages _ _ _ _ _ _ _ _"])
  have "logged ev (snd (setCursorLedger BACKFILL_CURSOR_TOPIC hi d1)) = logged ev d1" for ev
    by (rule logged_eventLog) simp
  with run log sums show ?thesis by simp
qed

definition backfill_opts :: "bool \<Rightarrow> backfill_options" where
  "backfill_opts dry = \<lparr>bo_from = Some 1, bo_to = Some 18, bo_dryRun = dry, bo_force = False\<rparr>"

theorem backfill_reads_one_page_witness:
  "\<exists>rep. fst (runBackfill 1 demo_cfg (backfill_opts False) demo_rt (demo_chain [tip_event]) empty_db) = Inr (Some rep) \<and>
     br_newCursorLedger rep = 18 \<and> br_projected rep + br_failed rep + br_skipped rep = 1"
proof -
  let ?cv = "demo_chain [tip_event]"
  have head: "cv_head ?cv 0 = Inr 20" and page: "cv_page ?cv 0 1 None = Inr ([tip_event], 20)"
    by (simp_all add: demo_chain_def tip_event_def)
  have range: "backfill_range demo_cfg (backfill_opts False) empty_db 20 = (1, 18)"
      and wet: "\<not> bo_dryRun (backfill_opts False)"
    by (simp_all add: backfill_range_def backfill_opts_def backfill_from_def)
  show ?thesis
    using backfill_reads_one_page [OF head range _ wet page, of 0 demo_rt] by auto
qed

text \<open>
  A dry run writes nothing; but it never advances the paging token, so when the requested
  end lies ahead of the chain and the first page is not empty, it reads that page again
  without end: no number of pages is enough.
\<close>

theorem backfill_dry_run_writes_nothing_may_not_end:
  assumes "bo_dryRun opts"
  shows "snd (runBackfill n cfg opts rt cv d) = d \<and>
    (cv_head cv 0 = Inr head \<and> backfill_range cfg opts d head = (lo, hi) \<and>
     (\<forall>page. \<exists>evs latest. cv_page cv page lo None = Inr (evs, latest) \<and> evs \<noteq> [] \<and> latest < hi) \<and> lo \<le> hi
     \<longrightarrow> fst (runBackfill n cfg opts rt cv d) = Inr None)"
proof -
  have endless: "fst (backfill_pages n page rt cv True lo hi st d) = Inr None"
    if pages: "\<And>page. \<exists>evs latest. cv_page cv page lo None = Inr (evs, latest) \<and> evs \<noteq> [] \<and> latest < hi"
      and "bs_token st = None" and "bs_covered st < hi" for n page st lo hi
    using that(2,3)
  proof (induction n arbitrary: page st)
    case (Suc n)
    obtain evs latest where pg: "cv_page cv page lo None = Inr (evs, latest)" "evs \<noteq> []" "latest < hi"
      using pages by blast
    let ?c = "min (max (bs_covered st) latest) hi"
    obtain st' where es: "backfill_events rt True hi evs (st\<lparr>bs_covered := ?c\<rparr>) d = (Inr st', d)"
        "bs_covered st' = ?c" "bs_token st' = None"
      using backfill_dry_events [of rt hi evs "st\<lparr>bs_covered := ?c\<rparr>" d] Suc.prems by auto
    then have "fst (backfill_pages n (Suc page) rt cv True lo hi st' d) = Inr None"
      using Suc.IH [of st' "Suc page"] Suc.prems pg(3) by simp
    with es(1) pg Suc.prems show ?case
      by (simp add: backfill_pages.simps [of "Suc n"] getEventsFrom_def page_request_def bnd_def)
  qed (simp add: backfill_pages.simps [of 0])
  let ?st = "\<lparr>bs_projected = 0, bs_skipped = 0, bs_failed = [], bs_byTopic = [], bs_covered = l - 1, bs_token = None\<rparr>"
  show ?thesis
  proof (intro conjI impI)
    have pages: "keeps (\<lambda>e. e = d) (backfill_pages n 0 rt cv (bo_dryRun opts) lo hi st)" for lo hi st
      using assms by (simp add: keeps_def backfill_dry_pages)
    have "keeps (\<lambda>e. e = d) (backfill_result opts lo hi st)" for lo hi st
      unfolding backfill_result_def Let_def using assms by (intro keeps_intros) auto
    then have "keeps (\<lambda>e. e = d) (runBackfill n cfg opts rt cv)"
      unfolding runBackfill_def getCursorLedger_def Let_def by (intro keeps_intros pages)
    then show "snd (runBackfill n cfg opts rt cv d) = d" by (simp add: keeps_def)
  next
    assume H: "cv_head cv 0 = Inr head \<and> backfill_range cfg opts d head = (lo, hi) \<and>
     (\<forall>page. \<exists>evs latest. cv_page cv page lo None = Inr (evs, latest) \<and> evs \<noteq> [] \<and> latest < hi) \<and> lo \<le> hi"
    let ?s0 = "\<lparr>bs_projected = 0, bs_skipped = 0, bs_failed = [], bs_byTopic = [], bs_covered = lo - 1, bs_token = None\<rparr>"
    have "fst (backfill_pages n 0 rt cv True lo hi ?s0 d) = Inr None"
      using H by (intro endless) auto
    then have "backfill_pages n 0 rt cv True lo hi ?s0 d = (Inr None, d)"
      using backfill_dry_pages [of n 0 rt cv lo hi ?s0 d] by (metis prod.collapse)
    with H assms show "fst (runBackfill n cfg opts rt cv d) = Inr None"
      by (cases "bo_force opts")
        (auto simp: runBackfill_def backfill_range_def getCursorLedger_def Let_def
          bnd_def [of "backfill_pages _ _ _ _ _ _ _ _"])
  qed
qed

definition stuck_chain :: chain_view where
  "stuck_chain = \<lparr>cv_head = (\<lambda>_. Inr 10), cv_page = (\<lambda>_ _ _. Inr ([tip_event], 10)), cv_hash = (\<lambda>_. Inr None)\<rparr>"

theorem backfill_dry_run_writes_nothing_may_not_end_witness:
  "snd (runBackfill 7 demo_cfg (backfill_opts True) demo_rt stuck_chain empty_db) = empty_db \<and>
   fst (runBackfill 7 demo_cfg (backfill_opts True) demo_rt stuck_chain empty_db) = Inr None"
proof -
  have dry: "bo_dryRun (backfill_opts True)" by (simp add: backfill_opts_def)
  have "cv_head stuck_chain 0 = Inr 10" "backfill_range demo_cfg (backfill_opts True) empty_db 10 = (1, 18)"
    "\<forall>page. \<exists>evs latest. cv_page stuck_chain page 1 None = Inr (evs, latest) \<and> evs \<noteq> [] \<and> latest < (18::int)"
    by (simp_all add: stuck_chain_def backfill_range_def backfill_opts_def backfill_from_def)
  then show ?thesis
    using backfill_dry_run_writes_nothing_may_not_end [OF dry, of 7 demo_cfg demo_rt stuck_chain empty_db 10 1 18] by simp
qed

section \<open>Refunds across a reorganisation\<close>

text \<open>
  A refund is undone by a rollback only when the tip itself is above the fork. A tip at or
  below the fork whose refund event was above it stays refunded, with its refund row, although
  the refund event is no longer logged and may never be on the new chain.
\<close>

theorem refund_survives_rollback:
  assumes "projectRefund rt ev d = (Inr (), d1)" and "parseRefund (ev_value ev) = Some rf"
    and "tip_by_hash (pf_tipTxHash rf) d = Some x" and "tip_ledger x \<le> fork" and "fork < ev_ledger ev"
    and "\<forall>y \<in> set (tips d). tip_id y = tip_id x \<longrightarrow> y = x"
  shows "let d' = snd (rollbackToLedger t fork d1) in
    \<not> logged ev d' \<and> x\<lparr>tip_status := REFUNDED\<rparr> \<in> set (tips d') \<and>
    (\<exists>r \<in> set (refunds d'). rf_tipId r = tip_id x \<and> rf_txHash r = Some (ev_txHash ev))"
proof -
  define d0 where "d0 = d\<lparr>nextId := nextId d + 1\<rparr>"
  let ?upd = "\<lambda>r :: refund_row. r\<lparr>rf_amount := pf_amount rf, rf_reason := or_empty (pf_reason rf),
     rf_status := ''completed'', rf_txHash := Some (ev_txHash ev)\<rparr>"
  let ?new = "\<lparr>rf_id = rt_cuid rt (nextId d), rf_tipId = tip_id x, rf_amount = pf_amount rf,
     rf_reason = or_empty (pf_reason rf), rf_status = ''completed'', rf_txHash = Some (ev_txHash ev),
     rf_createdAt = rt_now rt\<rparr>"
  have d1: "tips d1 = update_rows (\<lambda>y. tip_id y = tip_id x) (\<lambda>y. y\<lparr>tip_status := REFUNDED\<rparr>) (tips d)"
      "refunds d1 = upsert_row rf_tipId (tip_id x) ?new ?upd (refunds d)"
    using assms(1-3) by (auto simp: projectRefund_def transaction_run)
  have x: "x \<in> set (tips d)"
    using assms(3) by (auto simp: tip_by_hash_def find_by_def dest: find_row_Some)
  have kept: "\<not> tip_above fork d1 (tip_id x)"
    using assms(4,6) by (auto simp: tip_above_def d1 exists_row_iff set_update_rows split: if_splits)
  have "find_by rf_tipId (tip_id x) (refunds d1) =
      Some (case find_by rf_tipId (tip_id x) (refunds d) of None \<Rightarrow> ?new | Some r \<Rightarrow> ?upd r)"
    unfolding d1 by (rule refunds_by_tip.lookup_upsert_same) simp_all
  then obtain r where "r \<in> set (refunds d1)" "rf_tipId r = tip_id x" "rf_txHash r = Some (ev_txHash ev)"
    by (auto simp: find_by_def dest!: find_row_Some split: option.splits)
  moreover have "x\<lparr>tip_status := REFUNDED\<rparr> \<in> set (tips d1)"
    using x by (auto simp: d1 set_update_rows)
  ultimately show ?thesis
    using kept assms(4,5) by (auto simp: rollback_run rolled_back_rows Let_def)
qed

definition refunded_tip :: tip_row where
  "refunded_tip = \<lparr>tip_id = ''t'', tip_txHash = ''h'', tip_ledger = 5, tip_from = ''GA'', tip_to = ''GB'', tip_amount = 9,
     tip_message = None, tip_status = CONFIRMED, tip_createdAt = 0,
       tip_networkFee = 0, tip_tokenCode = ''XLM'', tip_recipientId = None\<rparr>"

definition refund_event :: decoded_event where
  "refund_event = \<lparr>ev_topic = ''refund'', ev_ledger = 12, ev_txHash = ''r1'',
     ev_value = JArr [JStr ''h'', JStr ''9'', JStr ''late''], ev_pagingToken = ''t4''\<rparr>"

theorem refund_survives_rollback_witness:
  "let d = empty_db\<lparr>tips := [refunded_tip]\<rparr>; d' = snd (rollbackToLedger CURSOR_TOPIC 10 (snd (projectRefund demo_rt refund_event d))) in
     refunded_tip\<lparr>tip_status := REFUNDED\<rparr> \<in> set (tips d')"
proof -
  let ?d = "empty_db\<lparr>tips := [refunded_tip]\<rparr>"
  have "fst (projectRefund demo_rt refund_event ?d) = Inr ()" by code_simp
  then have run: "projectRefund demo_rt refund_event ?d = (Inr (), snd (projectRefund demo_rt refund_event ?d))"
    by (metis prod.collapse)
  have parsed: "parseRefund (ev_value refund_event) =
      Some \<lparr>pf_tipTxHash = ''h'', pf_amount = 9, pf_reason = Some ''late''\<rparr>"
    by code_simp
  have found: "tip_by_hash (pf_tipTxHash \<lparr>pf_tipTxHash = ''h'', pf_amount = 9, pf_reason = Some ''late''\<rparr>) ?d = Some refunded_tip"
    by (simp add: tip_by_hash_def find_by_def refunded_tip_def)
  show ?thesis
    using refund_survives_rollback [OF run parsed found, of 10 CURSOR_TOPIC]
    by (simp add: Let_def refunded_tip_def refund_event_def)
qed

end
