(* ===== verification/Credit.thy ===== *)
theory Credit
  imports JsValues
begin

text \<open>
  The credit score (\<open>backend/src/modules/credit/credit.formula.ts\<close>, \<open>credit.config.ts\<close>,
  \<open>credit.factors.ts\<close>). The formula is modelled on the language's numbers, with \<open>NaN\<close> and the
  infinities, and refined to an integer reference formula for every configuration the
  reference covers; the configuration is read from the environment by \<open>parseEnvNumber\<close>.
\<close>

section \<open>Configuration\<close>

record formula_weights =
  w_base :: jsnum
  w_tip :: jsnum
  w_x :: jsnum
  w_age :: jsnum

record formula_divisors =
  d_tip :: jsnum
  d_follower :: jsnum
  d_engagement :: jsnum
  d_age :: jsnum

record formula_caps =
  c_base :: jsnum
  c_max :: jsnum
  c_xSub :: jsnum
  c_ageSub :: jsnum
  c_tipSub :: jsnum
  c_streakBonus :: jsnum

record CreditScoreFormula =
  weights :: formula_weights
  divisors :: formula_divisors
  caps :: formula_caps
  cacheTtlSeconds :: jsnum

text \<open>\<open>parseInt(s, 10)\<close>: leading blanks, a sign and the longest run of digits; \<open>None\<close> is \<open>NaN\<close>.\<close>

definition parse_int_prefix :: "string \<Rightarrow> int option" where
  "parse_int_prefix s =
     (let t = dropWhile is_space s;
          neg = (t \<noteq> [] \<and> hd t = CHR ''-'');
          u = (if t \<noteq> [] \<and> (hd t = CHR ''-'' \<or> hd t = CHR ''+'') then tl t else t);
          ds = takeWhile is_digit u
      in if ds = [] then None
         else Some (if neg then - int (parse_nat ds) else int (parse_nat ds)))"

definition parseEnvNumber :: "string option \<Rightarrow> int \<Rightarrow> jsnum" where
  "parseEnvNumber value defaultValue =
     (case value of
        None \<Rightarrow> j_int defaultValue
      | Some s \<Rightarrow> if s = [] then j_int defaultValue
          else (case parse_int_prefix s of None \<Rightarrow> j_int defaultValue | Some i \<Rightarrow> j_int i))"

definition loadCreditScoreConfig :: "(string \<Rightarrow> string option) \<Rightarrow> CreditScoreFormula" where
  "loadCreditScoreConfig env =
     \<lparr>weights = \<lparr>w_base = parseEnvNumber (env ''CREDIT_SCORE_WEIGHT_BASE'') 40,
        w_tip = parseEnvNumber (env ''CREDIT_SCORE_WEIGHT_TIP'') 20,
        w_x = parseEnvNumber (env ''CREDIT_SCORE_WEIGHT_X'') 30,
        w_age = parseEnvNumber (env ''CREDIT_SCORE_WEIGHT_AGE'') 10\<rparr>,
      divisors = \<lparr>d_tip = parseEnvNumber (env ''CREDIT_SCORE_DIVISOR_TIP'') 10000000,
        d_follower = parseEnvNumber (env ''CREDIT_SCORE_DIVISOR_FOLLOWER'') 50,
        d_engagement = parseEnvNumber (env ''CREDIT_SCORE_DIVISOR_ENGAGEMENT'') 10,
        d_age = parseEnvNumber (env ''CREDIT_SCORE_DIVISOR_AGE'') 10\<rparr>,
      caps = \<lparr>c_base = parseEnvNumber (env ''CREDIT_SCORE_CAP_BASE'') 40,
        c_max = parseEnvNumber (env ''CREDIT_SCORE_CAP_MAX'') 100,
        c_xSub = parseEnvNumber (env ''CREDIT_SCORE_CAP_X_SUB'') 50,
        c_ageSub = parseEnvNumber (env ''CREDIT_SCORE_CAP_AGE_SUB'') 100,
        c_tipSub = parseEnvNumber (env ''CREDIT_SCORE_CAP_TIP_SUB'') 100,
        c_streakBonus = parseEnvNumber (env ''CREDIT_SCORE_CAP_STREAK_BONUS'') 10\<rparr>,
      cacheTtlSeconds = parseEnvNumber (env ''CREDIT_SCORE_CACHE_TTL_SECONDS'') 300\<rparr>"

definition default_config :: CreditScoreFormula where
  "default_config = loadCreditScoreConfig (\<lambda>_. None)"

section \<open>The formula\<close>

definition clamp :: "jsnum \<Rightarrow> jsnum \<Rightarrow> jsnum \<Rightarrow> jsnum" where
  "clamp v lo hi = j_min (j_max v lo) hi"

definition computeTipSubScore :: "int \<Rightarrow> CreditScoreFormula \<Rightarrow> jsnum" where
  "computeTipSubScore totalTipsReceived cfg =
     (let clamped = clamp (j_int totalTipsReceived) (Fin 0) (Fin 1000000000)
      in j_min (j_floor (j_div clamped (d_tip (divisors cfg)))) (c_tipSub (caps cfg)))"

definition computeXSubScore :: "jsnum \<Rightarrow> jsnum \<Rightarrow> CreditScoreFormula \<Rightarrow> jsnum" where
  "computeXSubScore xFollowers xEngagementAvg cfg =
     (if j_eq xFollowers (Fin 0) \<and> j_eq xEngagementAvg (Fin 0) then Fin 0
      else
        let followerPart = j_min (j_floor (j_div xFollowers (d_follower (divisors cfg)))) (c_xSub (caps cfg));
            engagementPart = j_min (j_floor (j_div xEngagementAvg (d_engagement (divisors cfg)))) (c_xSub (caps cfg))
        in j_min (j_add followerPart engagementPart) (c_max (caps cfg)))"

definition computeAgeSubScore :: "jsnum \<Rightarrow> CreditScoreFormula \<Rightarrow> jsnum" where
  "computeAgeSubScore accountAgeDays cfg =
     (if j_lt accountAgeDays (Fin 1) then Fin 0
      else j_min (j_floor (j_div accountAgeDays (d_age (divisors cfg)))) (c_ageSub (caps cfg)))"

definition computeStreakBonus :: "jsnum \<Rightarrow> CreditScoreFormula \<Rightarrow> jsnum" where
  "computeStreakBonus rawStreakBonus cfg =
     (if rawStreakBonus = NaN then Fin 0
      else
        let cap = clamp (c_streakBonus (caps cfg)) (Fin 0) (c_max (caps cfg))
        in clamp (j_floor rawStreakBonus) (Fin 0) cap)"

definition applyWeight :: "jsnum \<Rightarrow> jsnum \<Rightarrow> jsnum \<Rightarrow> jsnum" where
  "applyWeight subScore weight maxScore = j_floor (j_div (j_mul subScore weight) maxScore)"

record CreditScoreComputeInput =
  totalTipsReceived :: int
  xFollowers :: jsnum
  xEngagementAvg :: jsnum
  accountAgeDays :: jsnum
  streakBonus :: jsnum

record CreditScoreComponents =
  comp_base :: jsnum
  comp_tipVolume :: jsnum
  comp_xMetrics :: jsnum
  comp_accountAge :: jsnum
  comp_streakBonus :: jsnum

record CreditScoreResult =
  cs_score :: jsnum
  cs_components :: CreditScoreComponents
  cs_tier :: string

record credit_tier =
  t_min :: int
  t_max :: int
  t_label :: string

definition getTierForScore :: "jsnum \<Rightarrow> credit_tier list \<Rightarrow> string" where
  "getTierForScore sc tiers =
     (case List.find (\<lambda>t. j_le (j_int (t_min t)) sc \<and> j_le sc (j_int (t_max t))) tiers of
        Some t \<Rightarrow> t_label t | None \<Rightarrow> ''New'')"

definition computeCreditScore :: "CreditScoreComputeInput \<Rightarrow> CreditScoreFormula \<Rightarrow> credit_tier list \<Rightarrow> CreditScoreResult" where
  "computeCreditScore input cfg tiers =
     (let tipSub = computeTipSubScore (totalTipsReceived input) cfg;
          xSub = computeXSubScore (xFollowers input) (xEngagementAvg input) cfg;
          ageSub = computeAgeSubScore (accountAgeDays input) cfg;
          tipScore = applyWeight tipSub (w_tip (weights cfg)) (c_max (caps cfg));
          xScore = applyWeight xSub (w_x (weights cfg)) (c_max (caps cfg));
          ageScore = applyWeight ageSub (w_age (weights cfg)) (c_max (caps cfg));
          streak = computeStreakBonus (streakBonus input) cfg;
          total = clamp (j_add (j_add (j_add (j_add (w_base (weights cfg)) tipScore) xScore) ageScore) streak)
                    (Fin 0) (c_max (caps cfg));
          tier = getTierForScore total tiers
      in \<lparr>cs_score = total,
          cs_components = \<lparr>comp_base = w_base (weights cfg), comp_tipVolume = tipScore, comp_xMetrics = xScore,
            comp_accountAge = ageScore, comp_streakBonus = streak\<rparr>,
          cs_tier = tier\<rparr>)"

definition TIERS :: "credit_tier list" where
  "TIERS =
     [\<lparr>t_min = 80, t_max = 100, t_label = ''Diamond''\<rparr>,
      \<lparr>t_min = 60, t_max = 79, t_label = ''Gold''\<rparr>,
      \<lparr>t_min = 40, t_max = 59, t_label = ''Silver''\<rparr>,
      \<lparr>t_min = 20, t_max = 39, t_label = ''Bronze''\<rparr>,
      \<lparr>t_min = 0, t_max = 19, t_label = ''New''\<rparr>]"

section \<open>The published factors\<close>

record CreditFactorBreakdown =
  f_name :: string
  f_weight :: jsnum
  f_maxContribution :: jsnum
  f_divisor :: "jsnum option"
  f_cap :: "jsnum option"

record CreditScoreFactors =
  factors :: "CreditFactorBreakdown list"
  totalWeight :: jsnum
  maxScore :: jsnum
  baseScore :: jsnum

definition weighted_factor :: "string \<Rightarrow> jsnum \<Rightarrow> jsnum \<Rightarrow> jsnum \<Rightarrow> jsnum \<Rightarrow> CreditFactorBreakdown" where
  "weighted_factor name weight divisor cap maxS =
     \<lparr>f_name = name, f_weight = weight, f_maxContribution = j_floor (j_div (j_mul (Fin 100) weight) maxS),
      f_divisor = Some divisor, f_cap = Some cap\<rparr>"

definition getCreditScoreFactors :: "CreditScoreFormula \<Rightarrow> CreditScoreFactors" where
  "getCreditScoreFactors cfg =
     (let maxS = c_max (caps cfg);
          fs =
            [\<lparr>f_name = ''Base Score'', f_weight = Fin 0, f_maxContribution = w_base (weights cfg),
              f_divisor = None, f_cap = Some (w_base (weights cfg))\<rparr>,
             weighted_factor ''Tip Volume'' (w_tip (weights cfg)) (d_tip (divisors cfg)) (c_tipSub (caps cfg)) maxS,
             weighted_factor ''X Metrics'' (w_x (weights cfg)) (d_follower (divisors cfg)) (c_xSub (caps cfg)) maxS,
             weighted_factor ''Account Age'' (w_age (weights cfg)) (d_age (divisors cfg)) (c_ageSub (caps cfg)) maxS,
             \<lparr>f_name = ''Streak Bonus'', f_weight = Fin 0, f_maxContribution = c_streakBonus (caps cfg),
              f_divisor = None, f_cap = Some (c_streakBonus (caps cfg))\<rparr>]
      in \<lparr>factors = fs, totalWeight = foldl (\<lambda>s f. j_add s (f_weight f)) (Fin 0) fs,
          maxScore = c_max (caps cfg), baseScore = w_base (weights cfg)\<rparr>)"

definition truthy_num :: "jsnum option \<Rightarrow> bool" where
  "truthy_num x \<longleftrightarrow> (case x of None \<Rightarrow> False | Some n \<Rightarrow> n \<noteq> NaN \<and> n \<noteq> Fin 0)"

definition formatFactorForResponse :: "CreditFactorBreakdown \<Rightarrow> (string \<times> jsval) list" where
  "formatFactorForResponse f =
     [(''name'', JStr (f_name f)), (''weight'', JNum (f_weight f)), (''maxContribution'', JNum (f_maxContribution f))]
     @ (if truthy_num (f_divisor f) then [(''divisor'', JNum (the (f_divisor f)))] else [])
     @ (if truthy_num (f_cap f) then [(''cap'', JNum (the (f_cap f)))] else [])"

section \<open>The integer reference\<close>

text \<open>A configuration of integers, as the environment gives one, with positive divisors and maximum.\<close>

record int_formula =
  ib :: int
  it :: int
  ix :: int
  ia :: int
  idt :: int
  idf :: int
  ide :: int
  ida :: int
  imax :: int
  ixs :: int
  ias :: int
  its :: int
  istr :: int

definition of_int_formula :: "int_formula \<Rightarrow> CreditScoreFormula \<Rightarrow> bool" where
  "of_int_formula c cfg \<longleftrightarrow>
     weights cfg = \<lparr>w_base = j_int (ib c), w_tip = j_int (it c), w_x = j_int (ix c), w_age = j_int (ia c)\<rparr> \<and>
     divisors cfg = \<lparr>d_tip = j_int (idt c), d_follower = j_int (idf c), d_engagement = j_int (ide c), d_age = j_int (ida c)\<rparr> \<and>
     (\<exists>cb. caps cfg = \<lparr>c_base = cb, c_max = j_int (imax c), c_xSub = j_int (ixs c), c_ageSub = j_int (ias c),
       c_tipSub = j_int (its c), c_streakBonus = j_int (istr c)\<rparr>)"

definition positive_formula :: "int_formula \<Rightarrow> bool" where
  "positive_formula c \<longleftrightarrow> 0 < idt c \<and> 0 < idf c \<and> 0 < ide c \<and> 0 < ida c \<and> 0 < imax c"

definition ref_clamp :: "int \<Rightarrow> int \<Rightarrow> int \<Rightarrow> int" where
  "ref_clamp v lo hi = min (max v lo) hi"

definition ref_tip :: "int_formula \<Rightarrow> int \<Rightarrow> int" where
  "ref_tip c tips = (min (ref_clamp tips 0 1000000000 div idt c) (its c) * it c) div imax c"

definition ref_x :: "int_formula \<Rightarrow> int \<Rightarrow> int \<Rightarrow> int" where
  "ref_x c fo en =
     ((if fo = 0 \<and> en = 0 then 0 else min (min (fo div idf c) (ixs c) + min (en div ide c) (ixs c)) (imax c)) * ix c)
       div imax c"

definition ref_age :: "int_formula \<Rightarrow> int \<Rightarrow> int" where
  "ref_age c days = ((if days < 1 then 0 else min (days div ida c) (ias c)) * ia c) div imax c"

definition ref_streak :: "int_formula \<Rightarrow> int \<Rightarrow> int" where
  "ref_streak c raw = ref_clamp raw 0 (ref_clamp (istr c) 0 (imax c))"

definition ref_score :: "int_formula \<Rightarrow> int \<Rightarrow> int \<Rightarrow> int \<Rightarrow> int \<Rightarrow> int \<Rightarrow> int" where
  "ref_score c tips fo en days raw =
     ref_clamp (ib c + ref_tip c tips + ref_x c fo en + ref_age c days + ref_streak c raw) 0 (imax c)"

lemma floor_of_int_div_rat: "\<lfloor>(of_int a :: rat) / of_int b\<rfloor> = a div b"
  by (simp add: floor_divide_of_int_eq)

lemma j_floor_div_int: "b \<noteq> 0 \<Longrightarrow> j_floor (j_div (j_int a) (j_int b)) = j_int (a div b)"
  by (simp add: floor_of_int_div_rat)

lemma j_min_int: "j_min (j_int a) (j_int b) = j_int (min a b)"
  by (simp add: min_def)

lemma j_max_int: "j_max (j_int a) (j_int b) = j_int (max a b)"
  by (simp add: max_def)

lemma clamp_int: "clamp (j_int v) (j_int lo) (j_int hi) = j_int (ref_clamp v lo hi)"
  by (simp only: clamp_def ref_clamp_def j_min_int j_max_int)

lemma zero_j_int: "Fin 0 = j_int 0" by simp

lemma j_add_int: "j_add (j_int a) (j_int b) = j_int (a + b)" by simp

lemma j_mul_int: "j_mul (j_int a) (j_int b) = j_int (a * b)" by simp

lemma applyWeight_int: "m \<noteq> 0 \<Longrightarrow> applyWeight (j_int s) (j_int w) (j_int m) = j_int (s * w div m)"
  unfolding applyWeight_def j_mul_int by (rule j_floor_div_int)

lemma tip_int:
  "of_int_formula c cfg \<Longrightarrow> positive_formula c \<Longrightarrow>
   applyWeight (computeTipSubScore tips cfg) (w_tip (weights cfg)) (c_max (caps cfg)) = j_int (ref_tip c tips)"
  using clamp_int [of tips 0 1000000000] j_floor_div_int [of "idt c" "ref_clamp tips 0 1000000000"]
  by (auto simp: of_int_formula_def positive_formula_def computeTipSubScore_def ref_tip_def Let_def applyWeight_int
    j_min_int simp del: j_min_Fin j_div.simps j_floor.simps)

lemma x_int:
  assumes "of_int_formula c cfg" and "positive_formula c"
  shows "applyWeight (computeXSubScore (j_int fo) (j_int en) cfg) (w_x (weights cfg)) (c_max (caps cfg)) =
    j_int (ref_x c fo en)"
proof (cases "fo = 0 \<and> en = 0")
  case True
  then show ?thesis
    using assms by (auto simp: of_int_formula_def computeXSubScore_def ref_x_def j_eq_def applyWeight_def positive_formula_def)
next
  case False
  then show ?thesis
    using assms j_floor_div_int [of "idf c" fo] j_floor_div_int [of "ide c" en]
    by (auto simp: of_int_formula_def positive_formula_def computeXSubScore_def ref_x_def Let_def applyWeight_int j_eq_def
      j_min_int j_add_int simp del: j_min_Fin j_div.simps j_floor.simps j_add.simps of_int_add)
qed

lemma age_int:
  assumes "of_int_formula c cfg" and "positive_formula c"
  shows "applyWeight (computeAgeSubScore (j_int days) cfg) (w_age (weights cfg)) (c_max (caps cfg)) =
    j_int (ref_age c days)"
proof (cases "days < 1")
  case True
  then have "(of_int days :: rat) < 1" by linarith
  then show ?thesis
    using assms True by (auto simp: of_int_formula_def computeAgeSubScore_def ref_age_def applyWeight_def positive_formula_def)
next
  case False
  then have "\<not> (of_int days :: rat) < 1" by linarith
  then show ?thesis
    using assms False j_floor_div_int [of "ida c" days]
    by (auto simp: of_int_formula_def positive_formula_def computeAgeSubScore_def ref_age_def applyWeight_int
      j_min_int simp del: j_min_Fin j_div.simps j_floor.simps)
qed

lemma streak_int:
  "of_int_formula c cfg \<Longrightarrow> computeStreakBonus (j_int raw) cfg = j_int (ref_streak c raw)"
  by (auto simp: of_int_formula_def computeStreakBonus_def ref_streak_def Let_def zero_j_int clamp_int simp del: of_int_0)

lemma score_reference:
  assumes "of_int_formula c cfg" and "positive_formula c"
  shows "cs_score (computeCreditScore \<lparr>totalTipsReceived = tips, xFollowers = j_int fo, xEngagementAvg = j_int en,
      accountAgeDays = j_int days, streakBonus = j_int raw\<rparr> cfg tiers) = j_int (ref_score c tips fo en days raw) \<and>
    0 \<le> ref_score c tips fo en days raw \<and> ref_score c tips fo en days raw \<le> imax c"
proof -
  have w: "w_base (weights cfg) = j_int (ib c)" "c_max (caps cfg) = j_int (imax c)"
    using assms(1) by (auto simp: of_int_formula_def)
  show ?thesis
    unfolding computeCreditScore_def Let_def CreditScoreResult.select_convs CreditScoreComputeInput.select_convs
      tip_int [OF assms] x_int [OF assms] age_int [OF assms] streak_int [OF assms(1)]
    unfolding w j_add_int zero_j_int clamp_int
    using assms(2) by (simp add: ref_score_def positive_formula_def ref_clamp_def)
qed


definition default_ints :: int_formula where
  "default_ints = \<lparr>ib = 40, it = 20, ix = 30, ia = 10, idt = 10000000, idf = 50, ide = 10, ida = 10,
     imax = 100, ixs = 50, ias = 100, its = 100, istr = 10\<rparr>"

lemma default_is_int: "of_int_formula default_ints default_config" "positive_formula default_ints"
  by (simp_all add: of_int_formula_def default_ints_def default_config_def loadCreditScoreConfig_def
    parseEnvNumber_def positive_formula_def)


section \<open>Monotonicity\<close>

lemma ref_tip_mono:
  assumes "positive_formula c" and "0 \<le> it c" and "a \<le> b"
  shows "ref_tip c a \<le> ref_tip c b"
proof -
  have "ref_clamp a 0 1000000000 div idt c \<le> ref_clamp b 0 1000000000 div idt c"
    using assms by (intro zdiv_mono1) (auto simp: ref_clamp_def positive_formula_def)
  then show ?thesis
    unfolding ref_tip_def using assms
    by (intro zdiv_mono1 mult_right_mono) (auto simp: positive_formula_def)
qed

text \<open>
  Receiving more tips, or a longer streak, never lowers the score; tips beyond
  1,000,000,000 stroops change nothing.
\<close>

theorem credit_score_monotone:
  assumes "positive_formula c" and "0 \<le> it c"
  shows "(a \<le> b \<and> r \<le> r' \<longrightarrow> ref_score c a fo en days r \<le> ref_score c b fo en days r') \<and>
    (1000000000 \<le> a \<longrightarrow> ref_score c a fo en days r = ref_score c 1000000000 fo en days r)"
proof (intro conjI impI)
  assume "a \<le> b \<and> r \<le> r'"
  then have "ref_tip c a \<le> ref_tip c b" "ref_streak c r \<le> ref_streak c r'"
    using ref_tip_mono [OF assms] by (auto simp: ref_streak_def ref_clamp_def)
  then show "ref_score c a fo en days r \<le> ref_score c b fo en days r'"
    by (simp add: ref_score_def ref_clamp_def)
qed (simp add: ref_score_def ref_tip_def ref_clamp_def)

theorem credit_score_monotone_witness:
  "ref_score default_ints 10 0 0 3 0 \<le> ref_score default_ints 990000000 0 0 3 1"
  using credit_score_monotone [OF default_is_int(2), of 10 990000000 0 1 0 0 3] by (simp add: default_ints_def)

section \<open>Tiers\<close>

text \<open>
  The five tiers cover the scores from 0 to 100 without gap or overlap: every integer
  score in that range belongs to exactly one tier, whose label is the one reported.
\<close>

theorem tiers_partition_scores:
  assumes "0 \<le> s" and "s \<le> 100"
  shows "\<exists>t. filter (\<lambda>t. t_min t \<le> s \<and> s \<le> t_max t) TIERS = [t] \<and> getTierForScore (j_int s) TIERS = t_label t"
proof -
  have le: "j_le (j_int a) (j_int b) \<longleftrightarrow> a \<le> b" for a b by simp
  have g: "getTierForScore (j_int s) TIERS =
      (case filter (\<lambda>t. t_min t \<le> s \<and> s \<le> t_max t) TIERS of [] \<Rightarrow> ''New'' | t # _ \<Rightarrow> t_label t)"
    by (simp add: getTierForScore_def le TIERS_def del: j_le_Fin)
  consider "80 \<le> s" | "60 \<le> s" "s \<le> 79" | "40 \<le> s" "s \<le> 59" | "20 \<le> s" "s \<le> 39" | "s \<le> 19"
    by linarith
  then show ?thesis
    unfolding g by cases (use assms in \<open>simp_all add: TIERS_def\<close>)
qed

theorem tiers_partition_scores_witness:
  "\<exists>t. filter (\<lambda>t. t_min t \<le> 59 \<and> 59 \<le> t_max t) TIERS = [t] \<and> getTierForScore (j_int 59) TIERS = t_label t"
  using tiers_partition_scores [of 59] by simp

section \<open>Settings the formula does not survive\<close>

text \<open>
  The environment may set a divisor to 0: it is accepted, and then a creator without
  tips gets the score \<open>NaN\<close> and falls back to the tier \<open>New\<close>.
\<close>

theorem zero_divisor_gives_nan:
  "let cfg = loadCreditScoreConfig (\<lambda>v. if v = ''CREDIT_SCORE_DIVISOR_TIP'' then Some ''0'' else None);
       res = computeCreditScore \<lparr>totalTipsReceived = 0, xFollowers = Fin 0, xEngagementAvg = Fin 0,
         accountAgeDays = Fin 5, streakBonus = Fin 0\<rparr> cfg TIERS
   in cs_score res = NaN \<and> cs_tier res = ''New''"
  by code_simp

text \<open>
  The weights the factors endpoint publishes add up to those of the formula, and with the
  default settings the base and the largest weighted contributions make the maximum score.
\<close>

theorem published_factors_consistent:
  "totalWeight (getCreditScoreFactors default_config) = Fin 60 \<and>
   j_add (baseScore (getCreditScoreFactors default_config)) (totalWeight (getCreditScoreFactors default_config)) =
     maxScore (getCreditScoreFactors default_config) \<and>
   map f_maxContribution (factors (getCreditScoreFactors default_config)) = [Fin 40, Fin 20, Fin 30, Fin 10, Fin 10]"
  by code_simp

end
