(* ===== verification/Concurrency.thy ===== *)
theory Concurrency
  imports Projections
begin

text \<open>
  The concurrency helpers for financial counters
  (\<open>backend/src/common/utils/concurrency.ts\<close>): counters kept by single-statement increments,
  and the streak of a creator, updated by a read, a computation and a write guarded by the
  row's version. What other requests do between the statements of an update is a parameter:
  a function of the state for every point where they may run. Days are UTC days; foreign
  keys are not modelled.
\<close>

section \<open>Version-guarded writes\<close>

text \<open>
  The contract of a guarded write: it succeeds exactly when the row still has the expected
  version, and otherwise changes nothing.
\<close>

locale guarded_write =
  fixes read :: "'s \<Rightarrow> 'r option" and vers :: "'r \<Rightarrow> int"
    and swap :: "int \<Rightarrow> ('r \<Rightarrow> 'r) \<Rightarrow> 's \<Rightarrow> bool \<times> 's" and ok :: "'s \<Rightarrow> bool"
  assumes swap_hit: "ok s \<Longrightarrow> read s = Some r \<Longrightarrow> vers r = v \<Longrightarrow> fst (swap v f s)"
    and swap_miss: "ok s \<Longrightarrow> (\<And>r. read s = Some r \<Longrightarrow> vers r \<noteq> v) \<Longrightarrow> swap v f s = (False, s)"
begin

text \<open>
  When other requests only leave the row alone or raise its version, a write that succeeds
  found the very row that was read: nothing happened in between that it overwrites.
\<close>

lemma swap_finds_what_was_read:
  assumes "read s = Some r" and "ok s'" and "\<exists>r'. read s' = Some r' \<and> (r' = r \<or> vers r < vers r')"
    and "fst (swap (vers r) f s')"
  shows "read s' = Some r"
proof (rule ccontr)
  assume "read s' \<noteq> Some r"
  with assms(3) have "\<And>r'. read s' = Some r' \<Longrightarrow> vers r' \<noteq> vers r" by auto
  from swap_miss [OF assms(2) this] assms(4) show False by simp
qed

lemma swap_failed_unchanged:
  assumes "ok s" and "\<not> fst (swap v f s)"
  shows "snd (swap v f s) = s"
proof -
  have "\<And>r. read s = Some r \<Longrightarrow> vers r \<noteq> v" using swap_hit [OF assms(1)] assms(2) by blast
  from swap_miss [OF assms(1) this] show ?thesis by simp
qed

end

text \<open>The discipline other requests keep on a row: it stays, unchanged or at a higher version.\<close>

definition moves_on :: "('s \<Rightarrow> 'r option) \<Rightarrow> ('r \<Rightarrow> int) \<Rightarrow> 's \<Rightarrow> 's \<Rightarrow> bool" where
  "moves_on rd vers s s' \<longleftrightarrow>
     (\<forall>r. rd s = Some r \<longrightarrow> (\<exists>r'. rd s' = Some r' \<and> (r' = r \<or> vers r < vers r')))"

section \<open>Counters\<close>

definition MAX_OPTIMISTIC_RETRIES :: nat where
  "MAX_OPTIMISTIC_RETRIES = 3"

definition atomicIncrementGoalRaised :: "string \<Rightarrow> int \<Rightarrow> unit dbio" where
  "atomicIncrementGoalRaised userId amountStroops =
     upsert_goal (goalId userId) (new_goal userId [] 0 amountStroops None GActive)
       (\<lambda>g. g\<lparr>g_raised := g_raised g + amountStroops, g_version := g_version g + 1\<rparr>)"

record analytics_increments =
  ai_totalTips :: "int option"
  ai_totalVolume :: "int option"
  ai_newUsers :: "int option"
  ai_activeUsers :: "int option"

definition or_zero :: "int option \<Rightarrow> int" where
  "or_zero x = (case x of None \<Rightarrow> 0 | Some n \<Rightarrow> n)"

definition utc_day :: "int \<Rightarrow> int" where
  "utc_day t = t - t mod DAY_MS"

definition atomicIncrementAnalyticsDaily :: "int \<Rightarrow> analytics_increments \<Rightarrow> unit dbio" where
  "atomicIncrementAnalyticsDaily date inc =
     modify (\<lambda>d. d\<lparr>analytics := upsert_row an_date (utc_day date)
       \<lparr>an_date = utc_day date, an_tips = or_zero (ai_totalTips inc), an_volume = or_zero (ai_totalVolume inc),
        an_newUsers = or_zero (ai_newUsers inc), an_activeUsers = or_zero (ai_activeUsers inc), an_version = 0\<rparr>
       (\<lambda>a. a\<lparr>an_tips := an_tips a + or_zero (ai_totalTips inc), an_volume := an_volume a + or_zero (ai_totalVolume inc),
              an_newUsers := an_newUsers a + or_zero (ai_newUsers inc),
              an_activeUsers := an_activeUsers a + or_zero (ai_activeUsers inc), an_version := an_version a + 1\<rparr>)
       (analytics d)\<rparr>)"

section \<open>Streaks\<close>

definition streak_of :: "string \<Rightarrow> db \<Rightarrow> streak_row option" where
  "streak_of userId d = find_by st_userId userId (streaks d)"

definition day_string :: "int \<Rightarrow> string" where
  "day_string t = take 10 (iso_string t)"

text \<open>The new current streak, or \<open>None\<close> when the user already tipped that day.\<close>

definition next_current :: "int \<Rightarrow> streak_row \<Rightarrow> int option" where
  "next_current now s =
     (let lastStr = map_option day_string (st_lastTip s)
      in if lastStr = Some (day_string now) then None
         else if lastStr = Some (day_string (now - DAY_MS)) then Some (st_current s + 1)
         else Some 1)"

definition swap_streak :: "string \<Rightarrow> int \<Rightarrow> (streak_row \<Rightarrow> streak_row) \<Rightarrow> db \<Rightarrow> bool \<times> db" where
  "swap_streak userId v f d =
     (count_rows (\<lambda>s. st_userId s = userId \<and> st_version s = v) (streaks d) = 1,
      d\<lparr>streaks := update_rows (\<lambda>s. st_userId s = userId \<and> st_version s = v) f (streaks d)\<rparr>)"

definition streak_update :: "int \<Rightarrow> int \<Rightarrow> int \<Rightarrow> streak_row \<Rightarrow> streak_row" where
  "streak_update now current longest s =
     s\<lparr>st_current := current, st_longest := longest, st_lastTip := Some now, st_version := st_version s + 1\<rparr>"

definition new_streak :: "string \<Rightarrow> int \<Rightarrow> streak_row" where
  "new_streak userId now = \<lparr>st_userId = userId, st_current = 1, st_longest = 1, st_lastTip = Some now, st_version = 0\<rparr>"

text \<open>
  The attempts, with how many are left. Other requests run before the read (\<open>env (2 * k)\<close>) and
  between the read and the write (\<open>env (2 * k + 1)\<close>) of attempt \<open>k\<close>.
\<close>

fun streak_attempts :: "nat \<Rightarrow> nat \<Rightarrow> (nat \<Rightarrow> db \<Rightarrow> db) \<Rightarrow> string \<Rightarrow> int \<Rightarrow> unit dbio" where
  "streak_attempts 0 k env userId now =
     throw (js_error (''Streak update failed after '' @ show_int (int MAX_OPTIMISTIC_RETRIES) @
       '' retries due to version conflicts''))"
| "streak_attempts (Suc left) k env userId now =
     andthen (modify (env (2 * k)))
       (bnd (gets (streak_of userId)) (\<lambda>streak. case streak of
           None \<Rightarrow>
             andthen (modify (env (2 * k + 1)))
               (bnd (gets (streak_of userId)) (\<lambda>clash.
                  if clash \<noteq> None then streak_attempts left (Suc k) env userId now
                  else modify (\<lambda>d. d\<lparr>streaks := streaks d @ [new_streak userId now]\<rparr>)))
         | Some s \<Rightarrow>
             (case next_current now s of
                None \<Rightarrow> ret ()
              | Some current \<Rightarrow>
                  andthen (modify (env (2 * k + 1)))
                    (bnd (\<lambda>d. case swap_streak userId (st_version s)
                            (streak_update now current (max (st_longest s) current)) d of (r, e) \<Rightarrow> (Inr r, e))
                      (\<lambda>updated. if updated then ret () else streak_attempts left (Suc k) env userId now)))))"

definition updateStreakForTip :: "(nat \<Rightarrow> db \<Rightarrow> db) \<Rightarrow> string \<Rightarrow> int \<Rightarrow> unit dbio" where
  "updateStreakForTip env userId now = streak_attempts MAX_OPTIMISTIC_RETRIES 0 env userId now"

text \<open>The generic helper: \<open>operation\<close> reports whether it updated.\<close>

fun optimistic_attempts :: "nat \<Rightarrow> nat \<Rightarrow> bool dbio \<Rightarrow> unit dbio" where
  "optimistic_attempts 0 maxRetries operation =
     throw (js_error (''Optimistic update failed after '' @ show_int (int maxRetries) @ '' retries''))"
| "optimistic_attempts (Suc left) maxRetries operation =
     bnd operation (\<lambda>updated. if updated then ret () else optimistic_attempts left maxRetries operation)"

definition withOptimisticRetry :: "bool dbio \<Rightarrow> nat \<Rightarrow> unit dbio" where
  "withOptimisticRetry operation maxRetries = optimistic_attempts maxRetries maxRetries operation"

section \<open>The streak's guarded write\<close>

definition streaks_unique :: "db \<Rightarrow> bool" where
  "streaks_unique d \<longleftrightarrow> unique_by st_userId (streaks d)"

lemma count_unique:
  assumes "unique_by key xs" and "find_by key k xs = Some r"
  shows "count_rows (\<lambda>x. key x = k \<and> p x) xs = (if p r then 1 else 0)"
  using assms
proof (induction xs)
  case (Cons x xs)
  show ?case
  proof (cases "key x = k")
    case True
    with Cons.prems have "r = x" by (simp add: find_by_def)
    moreover have "count_rows (\<lambda>y. key y = k \<and> p y) xs = 0"
      using Cons.prems(1) True by (simp add: count_rows_0) (metis imageI)
    ultimately show ?thesis using True by simp
  next
    case False
    with Cons show ?thesis by (simp add: find_by_def)
  qed
qed (simp add: find_by_def)

interpretation streak_write: guarded_write "streak_of u" st_version "swap_streak u" streaks_unique for u
proof
  fix s r v f
  assume "streaks_unique s" "streak_of u s = Some r" "st_version r = v"
  then show "fst (swap_streak u v f s)"
    using count_unique [of st_userId "streaks s" u r "\<lambda>x. st_version x = v"]
    by (simp add: swap_streak_def streaks_unique_def streak_of_def)
next
  fix s v f
  assume ok: "streaks_unique s" and miss: "\<And>r. streak_of u s = Some r \<Longrightarrow> st_version r \<noteq> v"
  have none: "\<not> (st_userId x = u \<and> st_version x = v)" if "x \<in> set (streaks s)" for x
  proof
    assume x: "st_userId x = u \<and> st_version x = v"
    have "streak_of u s \<noteq> None"
      using that x by (auto simp: streak_of_def find_by_def find_row_None)
    then obtain r where r: "streak_of u s = Some r" by blast
    have "count_rows (\<lambda>y. st_userId y = u \<and> y = x) (streaks s) = (if r = x then 1 else 0)"
      using count_unique [of st_userId "streaks s" u r "\<lambda>y. y = x"] ok r by (simp add: streaks_unique_def streak_of_def)
    moreover have "count_rows (\<lambda>y. st_userId y = u \<and> y = x) (streaks s) \<noteq> 0"
      using that x by (auto simp: count_rows_0)
    ultimately have "r = x" by (simp split: if_splits)
    with miss [OF r] x show False by simp
  qed
  then show "swap_streak u v f s = (False, s)"
    by (simp add: swap_streak_def update_rows_none count_rows_0 [THEN iffD2])
qed

section \<open>Streak updates are atomic\<close>

text \<open>The update as one atomic step, and the state that the other requests alone produce.\<close>

definition tip_streak :: "string \<Rightarrow> int \<Rightarrow> db \<Rightarrow> db" where
  "tip_streak u now d = (case streak_of u d of
       None \<Rightarrow> d\<lparr>streaks := streaks d @ [new_streak u now]\<rparr>
     | Some s \<Rightarrow> (case next_current now s of
           None \<Rightarrow> d
         | Some c \<Rightarrow> d\<lparr>streaks := update_rows (\<lambda>x. st_userId x = u)
             (streak_update now c (max (st_longest s) c)) (streaks d)\<rparr>))"

fun interfered :: "(nat \<Rightarrow> 's \<Rightarrow> 's) \<Rightarrow> nat \<Rightarrow> 's \<Rightarrow> 's" where
  "interfered env 0 d = d"
| "interfered env (Suc n) d = env n (interfered env n d)"

lemma swap_streak_atomic:
  assumes "streaks_unique d" and "streak_of u d = Some s"
  shows "snd (swap_streak u (st_version s) f d) =
    d\<lparr>streaks := update_rows (\<lambda>x. st_userId x = u) f (streaks d)\<rparr>"
proof -
  have "st_version x = st_version s" if "x \<in> set (streaks d)" "st_userId x = u" for x
  proof -
    have "count_rows (\<lambda>y. st_userId y = u \<and> y = x) (streaks d) = (if s = x then 1 else 0)"
      using count_unique [of st_userId "streaks d" u s "\<lambda>y. y = x"] assms by (simp add: streaks_unique_def streak_of_def)
    moreover have "count_rows (\<lambda>y. st_userId y = u \<and> y = x) (streaks d) \<noteq> 0"
      using that by (auto simp: count_rows_0)
    ultimately show ?thesis by (simp split: if_splits)
  qed
  then have "update_rows (\<lambda>x. st_userId x = u \<and> st_version x = st_version s) f (streaks d) =
      update_rows (\<lambda>x. st_userId x = u) f (streaks d)"
    by (auto simp: update_rows_def)
  then show ?thesis by (simp add: swap_streak_def)
qed

lemma streak_attempts_atomic:
  assumes disc: "\<And>n d. moves_on (streak_of u) st_version d (env n d)"
    and uniq: "\<And>n d. streaks_unique d \<Longrightarrow> streaks_unique (env n d)" and ok: "streaks_unique d0"
  shows "streak_attempts left k env u now (interfered env (2 * k) d0) = (r, d') \<Longrightarrow>
    (r = Inr () \<and> (\<exists>n \<le> 2 * (k + left). d' = tip_streak u now (interfered env n d0))) \<or>
    (isl r \<and> d' = interfered env (2 * (k + left)) d0)"
proof (induction left arbitrary: k)
  case 0
  then show ?case by auto
next
  case (Suc left)
  let ?a = "interfered env (Suc (2 * k)) d0"
  let ?b = "interfered env (Suc (Suc (2 * k))) d0"
  have unique: "streaks_unique (interfered env n d0)" for n
    by (induction n) (simp_all add: ok uniq)
  have next_round: "streak_attempts left (Suc k) env u now ?b = (r, d') \<Longrightarrow> ?case"
    using Suc.IH [of "Suc k"] by simp
  show ?case
  proof (cases "streak_of u ?a")
    case None
    show ?thesis
    proof (cases "streak_of u ?b")
      case None
      with \<open>streak_of u ?a = None\<close> Suc.prems have "r = Inr ()" "d' = tip_streak u now ?b"
        by (simp_all add: tip_streak_def)
      then show ?thesis by (auto intro!: exI [of _ "Suc (Suc (2 * k))"])
    next
      case (Some s)
      with None Suc.prems have "streak_attempts left (Suc k) env u now ?b = (r, d')" by simp
      then show ?thesis by (rule next_round)
    qed
  next
    case (Some s)
    show ?thesis
    proof (cases "next_current now s")
      case None
      with Some Suc.prems have "r = Inr ()" "d' = tip_streak u now ?a"
        by (simp_all add: tip_streak_def)
      then show ?thesis by (auto intro!: exI [of _ "Suc (2 * k)"])
    next
      case (Some c)
      note row = \<open>streak_of u ?a = Some s\<close>
      let ?f = "streak_update now c (max (st_longest s) c)"
      have later: "\<exists>r'. streak_of u ?b = Some r' \<and> (r' = s \<or> st_version s < st_version r')"
        using disc [of ?a "Suc (2 * k)"] row by (simp add: moves_on_def)
      show ?thesis
      proof (cases "fst (swap_streak u (st_version s) ?f ?b)")
        case True
        have "streak_of u ?b = Some s"
          by (rule streak_write.swap_finds_what_was_read [OF row unique later True])
        moreover have "r = Inr () \<and> d' = snd (swap_streak u (st_version s) ?f ?b)"
          using Suc.prems row Some True by (auto simp: bnd_def split: prod.splits)
        ultimately have "r = Inr () \<and> d' = tip_streak u now ?b"
          using Some swap_streak_atomic [OF unique [of "Suc (Suc (2 * k))"]] by (simp add: tip_streak_def)
        then show ?thesis by (auto intro!: exI [of _ "Suc (Suc (2 * k))"])
      next
        case False
        have "snd (swap_streak u (st_version s) ?f ?b) = ?b"
          by (rule streak_write.swap_failed_unchanged [OF unique False])
        with False have "swap_streak u (st_version s) ?f ?b = (False, ?b)"
          by (metis prod.collapse)
        with Suc.prems row Some have "streak_attempts left (Suc k) env u now ?b = (r, d')"
          by (simp add: bnd_def)
        then show ?thesis by (rule next_round)
      qed
    qed
  qed
qed

text \<open>
  Updating a streak is linearizable: as long as other requests keep one row per user and
  change the row only by raising its version, an update that returns had exactly the effect of
  the atomic update at some moment of the interleaving, and one that throws (after three
  conflicts) had none. Without interference it takes effect at the first attempt.
\<close>

theorem streak_update_linearizable:
  assumes "\<And>n d. moves_on (streak_of u) st_version d (env n d)"
    and "\<And>n d. streaks_unique d \<Longrightarrow> streaks_unique (env n d)" and "streaks_unique d"
    and "updateStreakForTip env u now d = (r, d')"
  shows "((r = Inr () \<and> (\<exists>n \<le> 6. d' = tip_streak u now (interfered env n d))) \<or>
      (isl r \<and> d' = interfered env 6 d)) \<and>
    updateStreakForTip (\<lambda>_. id) u now d = (Inr (), tip_streak u now d)"
proof (rule conjI)
  show "(r = Inr () \<and> (\<exists>n \<le> 6. d' = tip_streak u now (interfered env n d))) \<or> (isl r \<and> d' = interfered env 6 d)"
    using streak_attempts_atomic [OF assms(1-3), where left = 3 and k = 0 and now = now] assms(4)
    by (simp add: updateStreakForTip_def MAX_OPTIMISTIC_RETRIES_def)
next
  show "updateStreakForTip (\<lambda>_. id) u now d = (Inr (), tip_streak u now d)"
  proof (cases "streak_of u d")
    case (Some s)
    have "swap_streak u (st_version s) f d =
        (True, d\<lparr>streaks := update_rows (\<lambda>x. st_userId x = u) f (streaks d)\<rparr>)" for f
      using streak_write.swap_hit [OF assms(3) Some refl, of f] swap_streak_atomic [OF assms(3) Some, of f]
      by (metis prod.collapse)
    with Some show ?thesis
      by (simp add: updateStreakForTip_def MAX_OPTIMISTIC_RETRIES_def numeral_3_eq_3 tip_streak_def bnd_def
          split: option.split)
  qed (simp add: updateStreakForTip_def MAX_OPTIMISTIC_RETRIES_def numeral_3_eq_3 tip_streak_def)
qed

definition bump_once :: "nat \<Rightarrow> db \<Rightarrow> db" where
  "bump_once n d = (if n = 1 then d\<lparr>streaks := map (\<lambda>s. s\<lparr>st_version := st_version s + 1\<rparr>) (streaks d)\<rparr> else d)"

lemma bump_once_moves_on: "moves_on (streak_of u) st_version d (bump_once n d)"
proof -
  have "find_by st_userId u (map (\<lambda>s. s\<lparr>st_version := st_version s + 1\<rparr>) xs) =
      map_option (\<lambda>s. s\<lparr>st_version := st_version s + 1\<rparr>) (find_by st_userId u xs)" for xs :: "streak_row list"
    by (induction xs) (simp_all add: find_by_def)
  then show ?thesis by (auto simp: moves_on_def bump_once_def streak_of_def)
qed

lemma bump_once_unique: "streaks_unique d \<Longrightarrow> streaks_unique (bump_once n d)"
  by (simp add: bump_once_def streaks_unique_def unique_by_def comp_def)

definition demo_streaks :: db where
  "demo_streaks = empty_db\<lparr>streaks := [\<lparr>st_userId = ''u'', st_current = 4, st_longest = 9, st_lastTip = None, st_version = 2\<rparr>]\<rparr>"

theorem streak_update_linearizable_witness:
  "\<exists>n \<le> 6. snd (updateStreakForTip bump_once ''u'' 86400000 demo_streaks) =
     tip_streak ''u'' 86400000 (interfered bump_once n demo_streaks)"
proof -
  let ?r = "updateStreakForTip bump_once ''u'' 86400000 demo_streaks"
  have "fst ?r = Inr ()"
    by (simp add: updateStreakForTip_def MAX_OPTIMISTIC_RETRIES_def numeral_3_eq_3 streak_of_def demo_streaks_def
        bump_once_def next_current_def swap_streak_def find_by_def bnd_def)
  then have run: "?r = (Inr (), snd ?r)" by (metis prod.collapse)
  have unique: "streaks_unique demo_streaks" by (simp add: demo_streaks_def streaks_unique_def)
  show ?thesis
    using streak_update_linearizable [OF bump_once_moves_on bump_once_unique unique run] by simp
qed

section \<open>Increments are not lost\<close>

definition raised :: "string \<Rightarrow> db \<Rightarrow> int" where
  "raised userId d = (case find_by g_id (goalId userId) (goals d) of None \<Rightarrow> 0 | Some g \<Rightarrow> g_raised g)"

lemma goalId_inject [simp]: "goalId u = goalId v \<longleftrightarrow> u = v"
  by (simp add: goalId_def)

lemma raised_increment:
  "raised v (snd (atomicIncrementGoalRaised u a d)) = raised v d + (if u = v then a else 0)"
proof (cases "u = v")
  case True
  let ?f = "\<lambda>g :: goal_row. g\<lparr>g_raised := g_raised g + a, g_version := g_version g + 1\<rparr>"
  have "find_by g_id (goalId v) (upsert_row g_id (goalId v) (new_goal v [] 0 a None GActive) ?f (goals d)) =
      Some (case find_by g_id (goalId v) (goals d) of None \<Rightarrow> new_goal v [] 0 a None GActive | Some g \<Rightarrow> ?f g)"
    by (rule goals_by_id.lookup_upsert_same) (simp_all add: new_goal_def)
  with True show ?thesis
    by (simp add: raised_def atomicIncrementGoalRaised_def upsert_goal_def new_goal_def split: option.split)
next
  case False
  then have "find_by g_id (goalId v) (upsert_row g_id (goalId u) (new_goal u [] 0 a None GActive)
      (\<lambda>g. g\<lparr>g_raised := g_raised g + a, g_version := g_version g + 1\<rparr>) (goals d)) = find_by g_id (goalId v) (goals d)"
    by (intro goals_by_id.lookup_upsert_other) (simp_all add: new_goal_def)
  with False show ?thesis
    by (simp add: raised_def atomicIncrementGoalRaised_def upsert_goal_def)
qed

lemma increment_returns [simp]: "fst (atomicIncrementGoalRaised u a d) = Inr ()"
  by (simp add: atomicIncrementGoalRaised_def upsert_goal_def)

text \<open>
  Increments of the raised amounts are never lost: after any sequence of increments, for
  any users and in any interleaving, the raised amount of a user is what it was plus the sum of
  the user's increments.
\<close>

theorem goal_increments_accumulate:
  "fst (for_each calls (\<lambda>c. atomicIncrementGoalRaised (fst c) (snd c)) d) = Inr () \<and>
   raised v (snd (for_each calls (\<lambda>c. atomicIncrementGoalRaised (fst c) (snd c)) d)) =
     raised v d + sum_rows (\<lambda>c. fst c = v) snd calls"
proof (induction calls arbitrary: d)
  case (Cons c calls)
  obtain u a where c: "c = (u, a)" by force
  let ?d = "snd (atomicIncrementGoalRaised u a d)"
  have "atomicIncrementGoalRaised u a d = (Inr (), ?d)"
    by (metis increment_returns prod.collapse)
  then have "for_each (c # calls) (\<lambda>c. atomicIncrementGoalRaised (fst c) (snd c)) d =
      for_each calls (\<lambda>c. atomicIncrementGoalRaised (fst c) (snd c)) ?d"
    by (simp add: c bnd_Inr)
  with Cons.IH [of ?d] show ?case by (simp add: c raised_increment)
qed simp

text \<open>The same for a day's totals: each call adds its amounts, whether it creates the row or not.\<close>

definition volume_of :: "int \<Rightarrow> db \<Rightarrow> int" where
  "volume_of day d = (case find_by an_date day (analytics d) of None \<Rightarrow> 0 | Some a \<Rightarrow> an_volume a)"

interpretation analytics_by_day: keyed_table an_date "find_by an_date" "upsert_row an_date"
  by unfold_locales simp_all

lemma analytics_volume_accumulates:
  "volume_of day (snd (atomicIncrementAnalyticsDaily t inc d)) =
     volume_of day d + (if utc_day t = day then or_zero (ai_totalVolume inc) else 0)"
proof (cases "utc_day t = day")
  case True
  then show ?thesis
    by (simp add: volume_of_def atomicIncrementAnalyticsDaily_def analytics_by_day.lookup_upsert_same split: option.split)
next
  case False
  then show ?thesis
    by (simp add: volume_of_def atomicIncrementAnalyticsDaily_def analytics_by_day.lookup_upsert_other)
qed

end
