(* ===== verification/CreditService.thy ===== *)
theory CreditService
  imports Credit Concurrency
begin

text \<open>
  The credit score service (\<open>backend/src/modules/credit/credit.service.ts\<close>): reading a
  stored score through the cache, its history, and the recomputation from confirmed tips,
  account age and streak. The cache is a parameter (what a read answers; \<open>None\<close> also when the
  cache is down), and an operation returns the keys under which it caches its result. The
  debounce timers and the cache's expiry are not modelled.
\<close>

record CreditScoreResponse =
  cr_userId :: string
  cr_score :: jsnum
  cr_tier :: string
  cr_components :: CreditScoreComponents
  cr_computedAt :: string

type_synonym score_cache = "string \<Rightarrow> CreditScoreResponse option"

definition cacheKeyForUser :: "string \<Rightarrow> string" where
  "cacheKeyForUser userId = ''credit:score:user:'' @ userId"

definition cacheKeyForUsername :: "string \<Rightarrow> string" where
  "cacheKeyForUsername name = ''credit:score:username:'' @ to_lower name"

definition base_components :: "CreditScoreFormula \<Rightarrow> CreditScoreComponents" where
  "base_components cfg = \<lparr>comp_base = w_base (weights cfg), comp_tipVolume = Fin 0, comp_xMetrics = Fin 0,
     comp_accountAge = Fin 0, comp_streakBonus = Fin 0\<rparr>"

definition formatCreditScoreResponse ::
  "runtime \<Rightarrow> CreditScoreFormula \<Rightarrow> user_row \<Rightarrow> score_row option \<Rightarrow> CreditScoreResponse" where
  "formatCreditScoreResponse rt cfg user sc = (case sc of
       None \<Rightarrow> \<lparr>cr_userId = u_id user, cr_score = w_base (weights cfg), cr_tier = ''Silver'',
          cr_components = base_components cfg, cr_computedAt = iso_string (rt_now rt)\<rparr>
     | Some s \<Rightarrow> \<lparr>cr_userId = u_id user, cr_score = j_int (sc_value s), cr_tier = getTierForScore (j_int (sc_value s)) TIERS,
          cr_components = base_components cfg, cr_computedAt = iso_string (sc_computedAt s)\<rparr>)"

definition user_not_found :: jsval where
  "user_not_found = not_found ''User not found''"

definition score_of :: "string \<Rightarrow> db \<Rightarrow> score_row option" where
  "score_of userId d = find_by sc_userId userId (scores d)"

definition getCreditScore ::
  "runtime \<Rightarrow> CreditScoreFormula \<Rightarrow> score_cache \<Rightarrow> string \<Rightarrow> (CreditScoreResponse \<times> string list) dbio" where
  "getCreditScore rt cfg cache userId = (case cache (cacheKeyForUser userId) of
       Some r \<Rightarrow> ret (r, [])
     | None \<Rightarrow>
         bnd (gets (user_by_id userId)) (\<lambda>found.
         bnd (require found user_not_found) (\<lambda>user.
         bnd (gets (score_of (u_id user))) (\<lambda>sc.
           ret (formatCreditScoreResponse rt cfg user sc, [cacheKeyForUser userId])))))"

definition user_by_username :: "string \<Rightarrow> db \<Rightarrow> user_row option" where
  "user_by_username name d = live_user (\<lambda>u. u_username u = Some name) d"

definition getCreditScoreByUsername ::
  "runtime \<Rightarrow> CreditScoreFormula \<Rightarrow> score_cache \<Rightarrow> string \<Rightarrow> (CreditScoreResponse \<times> string list) dbio" where
  "getCreditScoreByUsername rt cfg cache name = (case cache (cacheKeyForUsername name) of
       Some r \<Rightarrow> ret (r, [])
     | None \<Rightarrow>
         bnd (gets (user_by_username name)) (\<lambda>found.
         bnd (require found user_not_found) (\<lambda>user.
         bnd (gets (score_of (u_id user))) (\<lambda>sc.
           ret (formatCreditScoreResponse rt cfg user sc, [cacheKeyForUsername name, cacheKeyForUser (u_id user)])))))"

definition getCreditScoreHistory :: "string \<Rightarrow> nat \<Rightarrow> nat \<Rightarrow> (int \<times> string) list dbio" where
  "getCreditScoreHistory userId limit offset =
     bnd (gets (user_by_id userId)) (\<lambda>found.
     bnd (require found user_not_found) (\<lambda>user.
       gets (\<lambda>d. map (\<lambda>h. (h_value h, iso_string (h_computedAt h)))
         (take limit (drop offset (sort_key h_computedAt (filter (\<lambda>h. h_userId h = userId) (histories d))))))))"

definition confirmed_total :: "string \<Rightarrow> db \<Rightarrow> int" where
  "confirmed_total address d = sum_rows (\<lambda>t. tip_to t = address \<and> tip_status t = CONFIRMED) tip_amount (tips d)"

definition score_input :: "runtime \<Rightarrow> user_row \<Rightarrow> db \<Rightarrow> CreditScoreComputeInput" where
  "score_input rt user d =
     \<lparr>totalTipsReceived = confirmed_total (u_address user) d, xFollowers = Fin 0, xEngagementAvg = Fin 0,
      accountAgeDays = j_int ((rt_now rt - u_createdAt user) div DAY_MS),
      streakBonus = (case streak_of (u_id user) d of None \<Rightarrow> Fin 0 | Some s \<Rightarrow> j_int (st_current s div 7))\<rparr>"

text \<open>The transaction that stores a score; the ORM refuses a value that is no integer.\<close>

definition store_score :: "runtime \<Rightarrow> string \<Rightarrow> jsnum \<Rightarrow> score_row dbio" where
  "store_score rt userId sc =
     transaction
       (andthen (throw_unless (is_integer sc) (js_error ''Invalid value for an integer column''))
       (andthen (modify (\<lambda>d. d\<lparr>scores := upsert_row sc_userId userId
           \<lparr>sc_userId = userId, sc_value = j_to_int sc, sc_computedAt = rt_now rt\<rparr>
           (\<lambda>s. s\<lparr>sc_value := j_to_int sc, sc_computedAt := rt_now rt\<rparr>) (scores d)\<rparr>))
       (bnd (fresh_id rt) (\<lambda>i.
       andthen (modify (\<lambda>d. d\<lparr>histories := histories d @
           [\<lparr>h_id = i, h_userId = userId, h_value = j_to_int sc, h_computedAt = rt_now rt\<rparr>]\<rparr>))
         (ret \<lparr>sc_userId = userId, sc_value = j_to_int sc, sc_computedAt = rt_now rt\<rparr>)))))"

definition recalculateCreditScore ::
  "runtime \<Rightarrow> CreditScoreFormula \<Rightarrow> string \<Rightarrow> (CreditScoreResponse \<times> string list) dbio" where
  "recalculateCreditScore rt cfg userId =
     bnd (gets (user_by_id userId)) (\<lambda>found.
     bnd (require found user_not_found) (\<lambda>user.
     bnd (gets (\<lambda>d. computeCreditScore (score_input rt user d) cfg TIERS)) (\<lambda>result.
     bnd (store_score rt (u_id user) (cs_score result)) (\<lambda>stored.
       ret (\<lparr>cr_userId = u_id user, cr_score = j_int (sc_value stored), cr_tier = cs_tier result,
             cr_components = cs_components result, cr_computedAt = iso_string (sc_computedAt stored)\<rparr>,
            cacheKeyForUser (u_id user) #
              (case u_username user of None \<Rightarrow> [] | Some n \<Rightarrow> if n = [] then [] else [cacheKeyForUsername n]))))))"

section \<open>Recomputation\<close>

lemma store_score_run:
  "store_score rt u (j_int v) d =
     (Inr \<lparr>sc_userId = u, sc_value = v, sc_computedAt = rt_now rt\<rparr>,
      d\<lparr>scores := upsert_row sc_userId u \<lparr>sc_userId = u, sc_value = v, sc_computedAt = rt_now rt\<rparr>
           (\<lambda>s. s\<lparr>sc_value := v, sc_computedAt := rt_now rt\<rparr>) (scores d),
        nextId := nextId d + 1,
        histories := histories d @ [\<lparr>h_id = rt_cuid rt (nextId d), h_userId = u, h_value = v, h_computedAt = rt_now rt\<rparr>]\<rparr>)"
  by (simp add: store_score_def transaction_run is_integer_def j_to_int_def)

text \<open>
  A recomputation under integer settings never fails for a live user: it counts only the
  confirmed tips to the user's address, stores the score of the formula (between 0 and the
  configured maximum) as the user's only score row, appends exactly one history point with
  the same value, leaves tips and users alone, and caches the answer under the user's key.
\<close>

theorem recalculate_stores_formula:
  assumes "of_int_formula c cfg" and "positive_formula c" and "user_by_id userId d = Some u"
  shows "\<exists>v resp keys d'. recalculateCreditScore rt cfg userId d = (Inr (resp, keys), d') \<and>
    v = ref_score c (confirmed_total (u_address u) d) 0 0 ((rt_now rt - u_createdAt u) div DAY_MS)
      (case streak_of (u_id u) d of None \<Rightarrow> 0 | Some s \<Rightarrow> st_current s div 7) \<and>
    0 \<le> v \<and> v \<le> imax c \<and> cr_score resp = j_int v \<and> map_option sc_value (score_of (u_id u) d') = Some v \<and>
    map h_value (histories d') = map h_value (histories d) @ [v] \<and> tips d' = tips d \<and> users d' = users d \<and>
    cacheKeyForUser (u_id u) \<in> set keys"
proof -
  let ?in = "score_input rt u d"
  let ?raw = "case streak_of (u_id u) d of None \<Rightarrow> 0 | Some s \<Rightarrow> st_current s div 7"
  let ?v = "ref_score c (confirmed_total (u_address u) d) 0 0 ((rt_now rt - u_createdAt u) div DAY_MS) ?raw"
  have raw: "(case streak_of (u_id u) d of None \<Rightarrow> Fin 0 | Some s \<Rightarrow> j_int (st_current s div 7)) = j_int ?raw"
    by (simp split: option.split)
  have input: "?in = \<lparr>totalTipsReceived = confirmed_total (u_address u) d, xFollowers = j_int 0, xEngagementAvg = j_int 0,
      accountAgeDays = j_int ((rt_now rt - u_createdAt u) div DAY_MS), streakBonus = j_int ?raw\<rparr>"
    unfolding score_input_def raw by simp
  have sc: "cs_score (computeCreditScore ?in cfg TIERS) = j_int ?v" "0 \<le> ?v" "?v \<le> imax c"
    unfolding input using score_reference [OF assms(1,2)] by blast+
  have row: "map_option sc_value (find_by sc_userId (u_id u) (upsert_row sc_userId (u_id u)
      \<lparr>sc_userId = u_id u, sc_value = v, sc_computedAt = t\<rparr> (\<lambda>s. s\<lparr>sc_value := v, sc_computedAt := t\<rparr>) xs)) = Some v" for v t xs
    by (simp add: scores_by_user.lookup_upsert_same split: option.split)
  show ?thesis
    using sc assms(3) row
    by (simp add: recalculateCreditScore_def bnd_def [of "store_score _ _ _"] store_score_run score_of_def)
qed

definition demo_user :: user_row where
  "demo_user = \<lparr>u_id = ''u1'', u_address = ''GB'', u_username = Some ''Ann'', u_role = ''user'', u_scopes = [],
     u_createdAt = 0, u_deletedAt = None, u_deactivatedAt = None, u_blockedAt = None, u_flagged = False,
     u_displayName = None, u_bio = None, u_imageUrl = None, u_avatarCid = None, u_xHandle = None\<rparr>"

theorem recalculate_stores_formula_witness:
  "\<exists>v resp keys d'. recalculateCreditScore demo_rt default_config ''u1'' (empty_db\<lparr>users := [demo_user]\<rparr>) = (Inr (resp, keys), d') \<and>
     0 \<le> v \<and> v \<le> 100 \<and> cr_score resp = j_int v \<and> map h_value (histories d') = [v]"
proof -
  have "user_by_id ''u1'' (empty_db\<lparr>users := [demo_user]\<rparr>) = Some demo_user"
    by (simp add: user_by_id_def live_user_def demo_user_def)
  from recalculate_stores_formula [OF default_is_int this, of demo_rt]
  show ?thesis by (auto simp: default_ints_def empty_db_def)
qed

end
