(* ===== verification/Sessions.thy ===== *)
theory Sessions
  imports Store
begin

text \<open>
  Sign-in and sessions (\<open>backend/src/modules/auth/auth.service.ts\<close>, \<open>signature.ts\<close>): wallet
  challenges, their verification, refresh tokens with rotation and reuse detection, logout and
  the rate limiter. An access token is represented by its payload (the signing of it is in
  \<open>AccessTokens\<close>). The random generator, the hash, the network passphrases and the
  signature primitives are those of the platform and the Stellar SDK: parameters.
\<close>

section \<open>Environment\<close>

text \<open>
  \<open>Buffer\<close>: the bytes of a text in UTF-8 (a character here is a code below 256), the bytes of a
  hexadecimal text up to the first pair that is none, and base64 text.
\<close>

definition utf8_bytes :: "string \<Rightarrow> string" where
  "utf8_bytes s = concat (map (\<lambda>c. if char_code c < 128 then [c]
     else [char_of (192 + char_code c div 64), char_of (128 + char_code c mod 64)]) s)"

fun hex_bytes :: "string \<Rightarrow> string" where
  "hex_bytes (a # b # rest) = (case hex_value a of None \<Rightarrow> []
     | Some x \<Rightarrow> (case hex_value b of None \<Rightarrow> [] | Some y \<Rightarrow> char_of (16 * x + y) # hex_bytes rest))"
| "hex_bytes _ = []"

definition base64_digit :: "nat \<Rightarrow> char" where
  "base64_digit n = (if n < 26 then char_of (65 + n) else if n < 52 then char_of (71 + n)
     else if n < 62 then char_of (n - 4) else if n = 62 then CHR ''+'' else CHR ''/'')"

fun base64_text :: "string \<Rightarrow> string" where
  "base64_text [] = []"
| "base64_text [a] = (let n = char_code a in [base64_digit (n div 4), base64_digit (n mod 4 * 16), CHR ''='', CHR ''=''])"
| "base64_text [a, b] = (let n = 256 * char_code a + char_code b in
     [base64_digit (n div 1024), base64_digit (n div 16 mod 64), base64_digit (n mod 16 * 4), CHR ''=''])"
| "base64_text (a # b # c # rest) = (let n = 65536 * char_code a + 256 * char_code b + char_code c in
     [base64_digit (n div 262144), base64_digit (n div 4096 mod 64), base64_digit (n div 64 mod 64),
      base64_digit (n mod 64)] @ base64_text rest)"

lemma base64_text_size:
  "length (base64_text [a]) = 4" "length (base64_text [a, b]) = 4"
  "length (base64_text (a # b # c # rest)) = 4 + length (base64_text rest)"
  by (simp_all only: base64_text.simps Let_def length_append list.size)

lemma base64_text_length: "length (base64_text s) = 4 * ((length s + 2) div 3)"
proof (induction s rule: base64_text.induct)
  case (4 a b c rest)
  have "(length rest + 2 + 3) div 3 = (length rest + 2) div 3 + 1" by (rule div_add_self2) simp
  then show ?case using 4 by (simp add: base64_text_size del: base64_text.simps)
qed (simp_all add: base64_text_size del: base64_text.simps(2-4))

text \<open>The functions of the SDK that \<open>signature.ts\<close> calls; \<open>Inl\<close> carries the message of a thrown error.\<close>

record signature_sdk =
  sd_isValidPublicKey :: "string \<Rightarrow> bool"
  sd_decodePublicKey :: "string \<Rightarrow> string"
  sd_fromPublicKey :: "string \<Rightarrow> string + string"
  sd_verify :: "string \<Rightarrow> string \<Rightarrow> string \<Rightarrow> bool"

record auth_env =
  ae_network :: string
  ae_testnet :: string
  ae_futurenet :: string
  ae_public :: string
  ae_challengeTtl :: int
  ae_refreshTtl :: string
  ae_challengePerAddress :: int
  ae_challengePerIp :: int
  ae_verifyPerAddress :: int
  ae_verifyPerIp :: int
  ae_random :: "nat \<Rightarrow> string"
  ae_hash :: "string \<Rightarrow> string"
  ae_verify :: "string \<Rightarrow> string \<Rightarrow> string \<Rightarrow> jsval + bool"

definition AUTH_DOMAIN :: string where
  "AUTH_DOMAIN = ''tipz.app''"

definition random_hex :: "auth_env \<Rightarrow> string dbio" where
  "random_hex ae = (\<lambda>d. (Inr (ae_random ae (nextId d)), d\<lparr>nextId := nextId d + 1\<rparr>))"

text \<open>The counter of a key in its current window; the count after the increment decides.\<close>

definition rate_key :: "string \<Rightarrow> string \<Rightarrow> string" where
  "rate_key scope key = ''authchallenge:ratelimit:'' @ scope @ '':'' @ key"

definition rate_count :: "string \<Rightarrow> db \<Rightarrow> int" where
  "rate_count k d = (case find_by fst k (rateCounters d) of None \<Rightarrow> 0 | Some c \<Rightarrow> snd c)"

definition checkAndIncrementRateLimit :: "string \<Rightarrow> string \<Rightarrow> int \<Rightarrow> unit dbio" where
  "checkAndIncrementRateLimit scope key maxCount =
     andthen (modify (\<lambda>d. d\<lparr>rateCounters := upsert_row fst (rate_key scope key) (rate_key scope key, 1)
         (\<lambda>c. (fst c, snd c + 1)) (rateCounters d)\<rparr>))
       (bnd (gets (rate_count (rate_key scope key))) (\<lambda>n.
         throw_unless (n \<le> maxCount)
           (mk_error TooManyRequestsError ''Too many requests. Please try again shortly.'' Undefined)))"

definition resolveNetworkPassphrase :: "auth_env \<Rightarrow> string \<Rightarrow> jsval + string" where
  "resolveNetworkPassphrase ae network =
     (let p = (if network = ''TESTNET'' then ae_testnet ae else if network = ''FUTURENET'' then ae_futurenet ae
               else if network = ''MAINNET'' then ae_public ae else [])
      in if p = [] then Inl (bad_request (''Unsupported network: '' @ network)) else Inr p)"

definition or_default :: "string option \<Rightarrow> string \<Rightarrow> string" where
  "or_default x v = (case x of None \<Rightarrow> v | Some s \<Rightarrow> if s = [] then v else s)"

definition LF :: char where
  "LF = CHR 0x0A"

definition buildSignedMessage :: "string \<Rightarrow> string \<Rightarrow> string \<Rightarrow> int \<Rightarrow> string" where
  "buildSignedMessage stellarAddress networkPassphrase challenge expiresAt =
     join [LF] [AUTH_DOMAIN, ''Wallet: '' @ stellarAddress, ''Network: '' @ networkPassphrase,
       ''Nonce: '' @ challenge, ''Expires: '' @ iso_string expiresAt]"

text \<open>\<open>timingSafeEqual\<close> throws on buffers of different length; a character above 127 takes two bytes.\<close>

definition constantTimeCompare :: "string \<Rightarrow> string \<Rightarrow> jsval + bool" where
  "constantTimeCompare a b =
     (if length a \<noteq> length b then Inr False
      else if length (utf8_bytes a) \<noteq> length (utf8_bytes b) then Inl (js_error ''Input buffers must have the same byte length'')
      else Inr (a = b))"

definition parseDuration :: "string \<Rightarrow> jsval + int" where
  "parseDuration duration =
     (let ds = takeWhile is_digit duration; u = dropWhile is_digit duration
      in if ds = [] \<or> u \<notin> {''s'', ''m'', ''h'', ''d''} then Inl (js_error (''Invalid duration format: '' @ duration))
         else Inr (int (parse_nat ds) *
           (if u = ''s'' then 1000 else if u = ''m'' then 60000 else if u = ''h'' then 3600000 else 86400000)))"

section \<open>Signatures\<close>

definition verifyEd25519Signature :: "signature_sdk \<Rightarrow> string \<Rightarrow> string \<Rightarrow> string \<Rightarrow> jsval + bool" where
  "verifyEd25519Signature sdk publicKey message signature =
     (if publicKey = [] \<or> message = [] \<or> signature = []
      then Inl (bad_request ''Invalid signature verification inputs'')
      else if \<not> sd_isValidPublicKey sdk publicKey
      then Inl (bad_request ''Invalid Stellar public key format'')
      else if length (hex_bytes signature) \<noteq> 64
      then Inl (bad_request ''Invalid signature length (expected 64 bytes)'')
      else (case sd_fromPublicKey sdk (base64_text (sd_decodePublicKey sdk publicKey)) of
          Inl m \<Rightarrow> Inl (bad_request (''Signature verification failed: '' @ m))
        | Inr keypair \<Rightarrow> Inr (sd_verify sdk keypair (utf8_bytes message) (hex_bytes signature))))"

section \<open>Challenges\<close>

record ChallengeResponse =
  cl_challenge :: string
  cl_expiresAt :: string
  cl_network :: string
  cl_networkPassphrase :: string
  cl_domain :: string

definition open_challenge :: "int \<Rightarrow> string \<Rightarrow> string \<Rightarrow> db \<Rightarrow> challenge_row option" where
  "open_challenge now address network d =
     find_row (\<lambda>c. ac_address c = address \<and> ac_network c = network \<and> ac_usedAt c = None \<and> now < ac_expiresAt c)
       (challenges d)"

definition challenge_response :: "string \<Rightarrow> challenge_row \<Rightarrow> ChallengeResponse" where
  "challenge_response passphrase c = \<lparr>cl_challenge = ac_challenge c, cl_expiresAt = iso_string (ac_expiresAt c),
     cl_network = ac_network c, cl_networkPassphrase = passphrase, cl_domain = AUTH_DOMAIN\<rparr>"

definition find_or_create_challenge ::
  "auth_env \<Rightarrow> runtime \<Rightarrow> string \<Rightarrow> string \<Rightarrow> string \<Rightarrow> ChallengeResponse dbio" where
  "find_or_create_challenge ae rt address network passphrase =
     transaction
       (bnd (gets (open_challenge (rt_now rt) address network)) (\<lambda>existing. case existing of
            Some c \<Rightarrow> ret (challenge_response passphrase c)
          | None \<Rightarrow>
              bnd (random_hex ae) (\<lambda>nonce.
              bnd (fresh_id rt) (\<lambda>i.
                (let row = \<lparr>ac_id = i, ac_address = address, ac_challenge = nonce, ac_network = network,
                       ac_expiresAt = rt_now rt + ae_challengeTtl ae * 1000, ac_usedAt = None\<rparr>
                 in bnd (gets (\<lambda>d. exists_row (\<lambda>c. ac_challenge c = nonce) (challenges d))) (\<lambda>clash.
                    andthen (throw_unless (\<not> clash) (prisma_error ''P2002'' [''challenge'']))
                    (andthen (modify (\<lambda>d. d\<lparr>challenges := challenges d @ [row]\<rparr>))
                      (ret (challenge_response passphrase row)))))))))"

definition createChallenge ::
  "auth_env \<Rightarrow> runtime \<Rightarrow> string \<Rightarrow> string option \<Rightarrow> string \<Rightarrow> ChallengeResponse dbio" where
  "createChallenge ae rt stellarAddress network requestIp =
     (let boundNetwork = or_default network (ae_network ae) in
      bnd (lift_res (resolveNetworkPassphrase ae boundNetwork)) (\<lambda>passphrase.
      andthen (checkAndIncrementRateLimit ''challenge:addr'' stellarAddress (ae_challengePerAddress ae))
      (andthen (checkAndIncrementRateLimit ''challenge:ip'' requestIp (ae_challengePerIp ae))
      (andthen (modify (\<lambda>d. d\<lparr>challenges := delete_rows
          (\<lambda>c. ac_address c = stellarAddress \<and> ac_expiresAt c < rt_now rt) (challenges d)\<rparr>))
      (bnd (gets (open_challenge (rt_now rt) stellarAddress boundNetwork)) (\<lambda>existing. case existing of
           Some c \<Rightarrow> ret (challenge_response passphrase c)
         | None \<Rightarrow> find_or_create_challenge ae rt stellarAddress boundNetwork passphrase))))))"

definition pruneExpiredChallenges :: "runtime \<Rightarrow> nat dbio" where
  "pruneExpiredChallenges rt =
     bnd (gets (\<lambda>d. count_rows (\<lambda>c. ac_expiresAt c < rt_now rt) (challenges d))) (\<lambda>n.
     andthen (modify (\<lambda>d. d\<lparr>challenges := delete_rows (\<lambda>c. ac_expiresAt c < rt_now rt) (challenges d)\<rparr>))
       (ret n))"

section \<open>Sessions\<close>

record AuthPayload =
  ap_userId :: string
  ap_stellarAddress :: string
  ap_role :: string
  ap_scopes :: "string list"

definition payload_of :: "user_row \<Rightarrow> AuthPayload" where
  "payload_of u = \<lparr>ap_userId = u_id u, ap_stellarAddress = u_address u, ap_role = u_role u, ap_scopes = u_scopes u\<rparr>"

text \<open>A new token in a session; a fresh session starts its own family.\<close>

definition generateRefreshToken ::
  "auth_env \<Rightarrow> runtime \<Rightarrow> string \<Rightarrow> (string \<times> string) option \<Rightarrow> (string \<times> string \<times> string) dbio" where
  "generateRefreshToken ae rt userId session =
     bnd (case session of Some (sid, fam) \<Rightarrow> ret (sid, fam)
          | None \<Rightarrow> bnd (random_hex ae) (\<lambda>sid. ret (sid, sid))) (\<lambda>(sid, fam).
     bnd (random_hex ae) (\<lambda>token.
     bnd (lift_res (parseDuration (ae_refreshTtl ae))) (\<lambda>ttl.
     bnd (fresh_id rt) (\<lambda>i.
     bnd (gets (\<lambda>d. exists_row (\<lambda>t. tk_hash t = ae_hash ae token) (tokens d))) (\<lambda>clash.
     andthen (throw_unless (\<not> clash) (prisma_error ''P2002'' [''hashedToken'']))
     (andthen (modify (\<lambda>d. d\<lparr>tokens := tokens d @ [\<lparr>tk_id = i, tk_userId = userId, tk_hash = ae_hash ae token,
         tk_sessionId = sid, tk_familyId = Some fam, tk_expiresAt = rt_now rt + ttl, tk_revokedAt = None,
         tk_lastUsedAt = Some (rt_now rt)\<rparr>]\<rparr>))
       (ret (token, sid, fam))))))))"

definition challenge_checks ::
  "auth_env \<Rightarrow> runtime \<Rightarrow> string \<Rightarrow> string \<Rightarrow> string \<Rightarrow> challenge_row \<Rightarrow> unit dbio" where
  "challenge_checks ae rt stellarAddress signature network c =
     bnd (lift_res (constantTimeCompare (ac_address c) stellarAddress)) (\<lambda>same.
     andthen (throw_unless same (bad_request ''Challenge address mismatch''))
     (andthen (throw_unless (ac_network c = network) (bad_request ''Challenge network mismatch''))
     (andthen (throw_unless (ac_usedAt c = None) (conflict ''Challenge already used''))
     (andthen (throw_unless (rt_now rt \<le> ac_expiresAt c) (bad_request ''Challenge expired''))
     (bnd (lift_res (resolveNetworkPassphrase ae (ac_network c))) (\<lambda>passphrase.
      bnd (lift_res (ae_verify ae stellarAddress
          (buildSignedMessage stellarAddress passphrase (ac_challenge c) (ac_expiresAt c)) signature)) (\<lambda>valid.
        throw_unless valid (unauthorized ''Invalid signature''))))))))"

definition sign_in_user :: "string \<Rightarrow> string \<Rightarrow> runtime \<Rightarrow> user_row" where
  "sign_in_user i address rt = \<lparr>u_id = i, u_address = address, u_username = None, u_role = ''user'', u_scopes = [],
     u_createdAt = rt_now rt, u_deletedAt = None, u_deactivatedAt = None, u_blockedAt = None, u_flagged = False,
     u_displayName = None, u_bio = None, u_imageUrl = None, u_avatarCid = None, u_xHandle = None\<rparr>"

definition open_session :: "auth_env \<Rightarrow> runtime \<Rightarrow> string \<Rightarrow> challenge_row \<Rightarrow> (user_row \<times> string) dbio" where
  "open_session ae rt stellarAddress c =
     transaction
       (bnd (gets (\<lambda>d. find_by ac_id (ac_id c) (challenges d))) (\<lambda>fresh.
        andthen (throw_unless (some_with (\<lambda>f. ac_usedAt f = None) fresh) (conflict ''Challenge already used''))
       (andthen (modify (\<lambda>d. d\<lparr>challenges := update_rows (\<lambda>x. ac_id x = ac_id c)
           (\<lambda>x. x\<lparr>ac_usedAt := Some (rt_now rt)\<rparr>) (challenges d)\<rparr>))
       (bnd (fresh_id rt) (\<lambda>i.
        andthen (modify (\<lambda>d. d\<lparr>users := upsert_row u_address stellarAddress (sign_in_user i stellarAddress rt) id (users d)\<rparr>))
       (bnd (gets (\<lambda>d. find_by u_address stellarAddress (users d))) (\<lambda>found.
        bnd (require found (js_error ''No user'')) (\<lambda>user.
        bnd (generateRefreshToken ae rt (u_id user) None) (\<lambda>(token, sid, fam).
          ret (user, token))))))))))"

definition verifyChallenge ::
  "auth_env \<Rightarrow> runtime \<Rightarrow> string \<Rightarrow> string \<Rightarrow> string \<Rightarrow> string option \<Rightarrow> string \<Rightarrow> (AuthPayload \<times> string) dbio" where
  "verifyChallenge ae rt stellarAddress signature challenge network requestIp =
     (let expectedNetwork = or_default network (ae_network ae) in
      bnd (lift_res (resolveNetworkPassphrase ae expectedNetwork)) (\<lambda>_.
      andthen (checkAndIncrementRateLimit ''verify:addr'' stellarAddress (ae_verifyPerAddress ae))
      (andthen (checkAndIncrementRateLimit ''verify:ip'' requestIp (ae_verifyPerIp ae))
      (bnd (gets (\<lambda>d. find_by ac_challenge challenge (challenges d))) (\<lambda>found.
       bnd (require found (bad_request ''Invalid challenge'')) (\<lambda>c.
       andthen (challenge_checks ae rt stellarAddress signature expectedNetwork c)
       (bnd (open_session ae rt stellarAddress c) (\<lambda>(user, token).
         ret (payload_of user, token)))))))))"

definition family_of :: "token_row \<Rightarrow> string" where
  "family_of t = (case tk_familyId t of Some f \<Rightarrow> f | None \<Rightarrow> tk_sessionId t)"

definition revoke_family :: "runtime \<Rightarrow> string \<Rightarrow> unit dbio" where
  "revoke_family rt fam = modify (\<lambda>d. d\<lparr>tokens := update_rows
     (\<lambda>t. tk_familyId t = Some fam \<and> tk_revokedAt t = None) (\<lambda>t. t\<lparr>tk_revokedAt := Some (rt_now rt)\<rparr>) (tokens d)\<rparr>)"

text \<open>
  The rotation. Its transaction runs at the isolation level \<open>ReadCommitted\<close>: the row is read
  again, and then written by its id alone, so other requests may run in between (\<open>mid\<close>).
\<close>

definition rotate_token ::
  "auth_env \<Rightarrow> runtime \<Rightarrow> (db \<Rightarrow> db) \<Rightarrow> token_row \<Rightarrow> (string \<times> string \<times> string) dbio" where
  "rotate_token ae rt mid rec =
     bnd (gets (\<lambda>d. find_by tk_id (tk_id rec) (tokens d))) (\<lambda>found. case found of
         None \<Rightarrow> throw (unauthorized ''Invalid refresh token'')
       | Some fresh \<Rightarrow>
           if tk_revokedAt fresh \<noteq> None \<or> tk_expiresAt fresh < rt_now rt then throw (unauthorized ''Invalid refresh token'')
           else andthen (modify mid)
             (transaction
               (bnd (gets (\<lambda>d. exists_row (\<lambda>t. tk_id t = tk_id fresh) (tokens d))) (\<lambda>present.
                andthen (throw_unless present (prisma_error ''P2025'' []))
               (andthen (modify (\<lambda>d. d\<lparr>tokens := update_rows (\<lambda>t. tk_id t = tk_id fresh)
                   (\<lambda>t. t\<lparr>tk_revokedAt := Some (rt_now rt), tk_lastUsedAt := Some (rt_now rt)\<rparr>) (tokens d)\<rparr>))
                 (generateRefreshToken ae rt (tk_userId fresh) (Some (tk_sessionId fresh, family_of rec))))))))"

definition refreshToken :: "auth_env \<Rightarrow> runtime \<Rightarrow> (db \<Rightarrow> db) \<Rightarrow> string \<Rightarrow> (AuthPayload \<times> string) dbio" where
  "refreshToken ae rt mid token =
     bnd (gets (\<lambda>d. find_by tk_hash (ae_hash ae token) (tokens d))) (\<lambda>found.
     bnd (require found (unauthorized ''Invalid refresh token'')) (\<lambda>rec.
     bnd (gets (\<lambda>d. find_by u_id (tk_userId rec) (users d))) (\<lambda>owner.
     bnd (require owner (js_error ''Missing user'')) (\<lambda>user.
     andthen (throw_unless (rt_now rt \<le> tk_expiresAt rec) (unauthorized ''Refresh token expired''))
       (if tk_revokedAt rec \<noteq> None
        then andthen (revoke_family rt (family_of rec))
               (throw (unauthorized ''Refresh token reuse detected - family revoked''))
        else bnd (rotate_token ae rt mid rec) (\<lambda>(newToken, sid, fam). ret (payload_of user, newToken)))))))"

definition revokeRefreshToken :: "auth_env \<Rightarrow> runtime \<Rightarrow> string \<Rightarrow> unit dbio" where
  "revokeRefreshToken ae rt token =
     bnd (gets (\<lambda>d. find_by tk_hash (ae_hash ae token) (tokens d))) (\<lambda>found.
     bnd (require found (unauthorized ''Invalid refresh token'')) (\<lambda>rec.
       if tk_revokedAt rec \<noteq> None then ret ()
       else modify (\<lambda>d. d\<lparr>tokens := update_rows (\<lambda>t. tk_id t = tk_id rec)
              (\<lambda>t. t\<lparr>tk_revokedAt := Some (rt_now rt)\<rparr>) (tokens d)\<rparr>)))"

section \<open>One live token per family\<close>

definition live_tokens :: "string \<Rightarrow> db \<Rightarrow> nat" where
  "live_tokens fam d = count_rows (\<lambda>t. family_of t = fam \<and> tk_revokedAt t = None) (tokens d)"

text \<open>
  The invariant: token ids and families come from the generators, ids are unique, and two live
  tokens of a family are the same token.
\<close>

definition drawn :: "(nat \<Rightarrow> string) \<Rightarrow> nat \<Rightarrow> string \<Rightarrow> bool" where
  "drawn g n x \<longleftrightarrow> (\<exists>k < n. x = g k)"

lemma drawn_mono: "drawn g n x \<Longrightarrow> n \<le> m \<Longrightarrow> drawn g m x"
  unfolding drawn_def using order_less_le_trans by blast

lemma drawn_new: "inj g \<Longrightarrow> n \<le> k \<Longrightarrow> \<not> drawn g n (g k)"
  by (auto simp: drawn_def dest: injD)

lemma drawn_generated: "k < n \<Longrightarrow> drawn g n (g k)"
  by (auto simp: drawn_def)

definition tokens_ok :: "auth_env \<Rightarrow> (nat \<Rightarrow> string) \<Rightarrow> db \<Rightarrow> bool" where
  "tokens_ok ae cuid d \<longleftrightarrow>
     (\<forall>t \<in> set (tokens d). drawn cuid (nextId d) (tk_id t) \<and> drawn (ae_random ae) (nextId d) (family_of t)) \<and>
     unique_by tk_id (tokens d) \<and>
     (\<forall>s \<in> set (tokens d). \<forall>t \<in> set (tokens d). tk_revokedAt s = None \<and> tk_revokedAt t = None \<and>
        family_of s = family_of t \<longrightarrow> tk_id s = tk_id t)"

lemma tokens_okD:
  assumes "tokens_ok ae cuid d"
  shows "t \<in> set (tokens d) \<Longrightarrow> drawn cuid (nextId d) (tk_id t)"
    and "t \<in> set (tokens d) \<Longrightarrow> drawn (ae_random ae) (nextId d) (family_of t)"
    and "unique_by tk_id (tokens d)"
    and "s \<in> set (tokens d) \<Longrightarrow> t \<in> set (tokens d) \<Longrightarrow> tk_revokedAt s = None \<Longrightarrow> tk_revokedAt t = None \<Longrightarrow>
      family_of s = family_of t \<Longrightarrow> tk_id s = tk_id t"
  using assms unfolding tokens_ok_def by blast+

lemma tokens_okI:
  assumes "\<And>t. t \<in> set (tokens d) \<Longrightarrow> drawn cuid (nextId d) (tk_id t)"
    and "\<And>t. t \<in> set (tokens d) \<Longrightarrow> drawn (ae_random ae) (nextId d) (family_of t)"
    and "unique_by tk_id (tokens d)"
    and "\<And>s t. s \<in> set (tokens d) \<Longrightarrow> t \<in> set (tokens d) \<Longrightarrow> tk_revokedAt s = None \<Longrightarrow> tk_revokedAt t = None \<Longrightarrow>
      family_of s = family_of t \<Longrightarrow> tk_id s = tk_id t"
  shows "tokens_ok ae cuid d"
  using assms unfolding tokens_ok_def by blast

lemma tokens_ok_live: "tokens_ok ae cuid d \<Longrightarrow> live_tokens fam d \<le> 1"
  unfolding live_tokens_def by (rule count_at_most_one [OF tokens_okD(3)]) (auto dest: tokens_okD(4))

lemma tokens_ok_later:
  assumes ok: "tokens_ok ae cuid d" and "tokens e = tokens d" and later: "nextId d \<le> nextId e"
  shows "tokens_ok ae cuid e"
proof (rule tokens_okI)
  fix t assume "t \<in> set (tokens e)"
  then show "drawn cuid (nextId e) (tk_id t)" "drawn (ae_random ae) (nextId e) (family_of t)"
    using drawn_mono [OF tokens_okD(1) [OF ok] later] drawn_mono [OF tokens_okD(2) [OF ok] later] assms(2)
    by simp_all
next
  show "unique_by tk_id (tokens e)" using tokens_okD(3) [OF ok] assms(2) by simp
next
  fix s t
  assume "s \<in> set (tokens e)" "t \<in> set (tokens e)" "tk_revokedAt s = None" "tk_revokedAt t = None"
    "family_of s = family_of t"
  then show "tk_id s = tk_id t" unfolding assms(2) by (rule tokens_okD(4) [OF ok])
qed

lemma tokens_ok_fresh [simp]: "tokens_ok ae cuid d \<Longrightarrow> tokens_ok ae cuid (d\<lparr>nextId := Suc (nextId d)\<rparr>)"
  by (erule tokens_ok_later) simp_all

named_theorems tokens_kept

lemma tokens_kept_random [tokens_kept]: "keeps (tokens_ok ae cuid) (random_hex ae')"
  by (auto simp: keeps_def random_hex_def)

lemma tokens_kept_fresh [tokens_kept]: "keeps (tokens_ok ae cuid) (fresh_id rt)"
  by (auto simp: keeps_def)

lemma tokens_kept_other:
  "(\<And>d. tokens (f d) = tokens d \<and> nextId (f d) = nextId d) \<Longrightarrow> keeps (tokens_ok ae cuid) (modify f)"
  by (rule keeps_modify) (erule tokens_ok_later, simp_all)

lemma tokens_kept_revoke:
  assumes "\<And>t. tk_id (f t) = tk_id t \<and> family_of (f t) = family_of t \<and> tk_revokedAt (f t) \<noteq> None"
  shows "keeps (tokens_ok ae cuid) (modify (\<lambda>d. d\<lparr>tokens := update_rows p f (tokens d)\<rparr>))"
proof (rule keeps_modify)
  fix d assume ok: "tokens_ok ae cuid d"
  let ?e = "d\<lparr>tokens := update_rows p f (tokens d)\<rparr>"
  have old: "\<exists>s \<in> set (tokens d). tk_id t = tk_id s \<and> family_of t = family_of s \<and>
      (tk_revokedAt t = None \<longrightarrow> tk_revokedAt s = None)" if "t \<in> set (tokens ?e)" for t
  proof -
    from that obtain x where x: "x \<in> set (tokens d)" "t = (if p x then f x else x)"
      by (auto simp: set_update_rows)
    show ?thesis by (rule bexI [OF _ x(1)]) (use x(2) assms [of x] in auto)
  qed
  have "map tk_id (update_rows p f (tokens d)) = map tk_id (tokens d)"
    by (rule map_update_rows) (simp add: assms)
  then have "unique_by tk_id (tokens ?e)" using tokens_okD(3) [OF ok] by (simp add: unique_by_def)
  then show "tokens_ok ae cuid ?e"
  proof (rule tokens_okI [rotated 2])
    fix t assume "t \<in> set (tokens ?e)"
    from old [OF this] obtain s where "s \<in> set (tokens d)" "tk_id t = tk_id s" "family_of t = family_of s"
      by blast
    then show "drawn cuid (nextId ?e) (tk_id t)" "drawn (ae_random ae) (nextId ?e) (family_of t)"
      using tokens_okD(1,2) [OF ok] by simp_all
  next
    fix s t assume "s \<in> set (tokens ?e)" "t \<in> set (tokens ?e)" "tk_revokedAt s = None" "tk_revokedAt t = None"
      "family_of s = family_of t"
    then show "tk_id s = tk_id t"
      using old [of s] old [of t] tokens_okD(4) [OF ok] by metis
  qed
qed

text \<open>A new token is admitted when its family has no live token.\<close>

lemma tokens_ok_append:
  assumes ok: "tokens_ok ae cuid d" and later: "nextId d \<le> n"
    and "\<not> drawn cuid (nextId d) (tk_id row)" and new: "drawn cuid n (tk_id row)" "drawn (ae_random ae) n (family_of row)"
    and none: "\<And>t. t \<in> set (tokens d) \<Longrightarrow> family_of t = family_of row \<Longrightarrow> tk_revokedAt t \<noteq> None"
  shows "tokens_ok ae cuid (d\<lparr>nextId := n, tokens := tokens d @ [row]\<rparr>)"
proof (rule tokens_okI)
  have "tk_id row \<notin> tk_id ` set (tokens d)"
    using tokens_okD(1) [OF ok] assms(3) by auto
  then show "unique_by tk_id (tokens (d\<lparr>nextId := n, tokens := tokens d @ [row]\<rparr>))"
    using tokens_okD(3) [OF ok] by (simp add: unique_by_append_one)
next
  fix t assume "t \<in> set (tokens (d\<lparr>nextId := n, tokens := tokens d @ [row]\<rparr>))"
  then show "drawn cuid (nextId (d\<lparr>nextId := n, tokens := tokens d @ [row]\<rparr>)) (tk_id t)"
    and "drawn (ae_random ae) (nextId (d\<lparr>nextId := n, tokens := tokens d @ [row]\<rparr>)) (family_of t)"
    using tokens_okD(1,2) [OF ok] new drawn_mono [OF _ later] by auto
next
  fix s t
  assume "s \<in> set (tokens (d\<lparr>nextId := n, tokens := tokens d @ [row]\<rparr>))"
    "t \<in> set (tokens (d\<lparr>nextId := n, tokens := tokens d @ [row]\<rparr>))"
    "tk_revokedAt s = None" "tk_revokedAt t = None" "family_of s = family_of t"
  then show "tk_id s = tk_id t"
    using none tokens_okD(4) [OF ok] by (simp, metis)
qed

lemma family_of_new [simp]: "family_of (t\<lparr>tk_familyId := Some f\<rparr>) = f"
  by (simp add: family_of_def)

lemma family_of_revoked [simp]:
  "family_of (t\<lparr>tk_revokedAt := r\<rparr>) = family_of t" "family_of (t\<lparr>tk_lastUsedAt := l\<rparr>) = family_of t"
  by (cases t; simp add: family_of_def split: option.splits)+

lemma random_hex_bnd [simp]: "bnd (random_hex ae) f d = f (ae_random ae (nextId d)) (d\<lparr>nextId := Suc (nextId d)\<rparr>)"
  by (simp add: random_hex_def bnd_def)

definition new_token :: "auth_env \<Rightarrow> runtime \<Rightarrow> string \<Rightarrow> string \<Rightarrow> string \<Rightarrow> int \<Rightarrow> nat \<Rightarrow> token_row" where
  "new_token ae rt userId sid fam ttl n = \<lparr>tk_id = rt_cuid rt (Suc n), tk_userId = userId, tk_hash = ae_hash ae (ae_random ae n),
     tk_sessionId = sid, tk_familyId = Some fam, tk_expiresAt = rt_now rt + ttl, tk_revokedAt = None,
     tk_lastUsedAt = Some (rt_now rt)\<rparr>"

lemma new_token_fields [simp]:
  "tk_id (new_token ae rt userId sid fam ttl n) = rt_cuid rt (Suc n)"
  "family_of (new_token ae rt userId sid fam ttl n) = fam"
  "tk_revokedAt (new_token ae rt userId sid fam ttl n) = None"
  "tk_hash (new_token ae rt userId sid fam ttl n) = ae_hash ae (ae_random ae n)"
  by (simp_all add: new_token_def family_of_def)

lemma generate_in_session:
  "generateRefreshToken ae rt userId (Some (sid, fam)) d =
    (case parseDuration (ae_refreshTtl ae) of
       Inl e \<Rightarrow> (Inl e, d\<lparr>nextId := Suc (nextId d)\<rparr>)
     | Inr ttl \<Rightarrow>
         if exists_row (\<lambda>t. tk_hash t = ae_hash ae (ae_random ae (nextId d))) (tokens d)
         then (Inl (prisma_error ''P2002'' [''hashedToken'']), d\<lparr>nextId := Suc (Suc (nextId d))\<rparr>)
         else (Inr (ae_random ae (nextId d), sid, fam),
           d\<lparr>nextId := Suc (Suc (nextId d)), tokens := tokens d @ [new_token ae rt userId sid fam ttl (nextId d)]\<rparr>))"
  by (simp add: generateRefreshToken_def new_token_def split: sum.splits)

lemma generate_new_session:
  "generateRefreshToken ae rt userId None d =
     generateRefreshToken ae rt userId (Some (ae_random ae (nextId d), ae_random ae (nextId d))) (d\<lparr>nextId := Suc (nextId d)\<rparr>)"
  by (simp add: generateRefreshToken_def)

lemma generate_keeps_ok:
  assumes ok: "tokens_ok ae (rt_cuid rt) d" and "inj (rt_cuid rt)" and fam: "drawn (ae_random ae) (nextId d) fam"
    and none: "\<And>t. t \<in> set (tokens d) \<Longrightarrow> family_of t = fam \<Longrightarrow> tk_revokedAt t \<noteq> None"
  shows "tokens_ok ae (rt_cuid rt) (snd (generateRefreshToken ae rt userId (Some (sid, fam)) d))"
proof -
  have later: "tokens_ok ae (rt_cuid rt) (d\<lparr>nextId := n\<rparr>)" if "nextId d \<le> n" for n
    using that by (intro tokens_ok_later [OF ok]) simp_all
  have "tokens_ok ae (rt_cuid rt)
      (d\<lparr>nextId := Suc (Suc (nextId d)), tokens := tokens d @ [new_token ae rt userId sid fam ttl (nextId d)]\<rparr>)" for ttl
    by (rule tokens_ok_append [OF ok])
      (use fam none assms(2) in \<open>auto simp: drawn_new drawn_generated intro: drawn_mono\<close>)
  with later show ?thesis
    by (simp add: generate_in_session split: sum.splits)
qed

lemma new_family_kept:
  assumes "inj (rt_cuid rt)" and "inj (ae_random ae)"
  shows "keeps (tokens_ok ae (rt_cuid rt)) (generateRefreshToken ae rt userId None)"
  unfolding keeps_def generate_new_session
proof (intro allI impI)
  fix d assume ok: "tokens_ok ae (rt_cuid rt) d"
  show "tokens_ok ae (rt_cuid rt) (snd (generateRefreshToken ae rt userId
      (Some (ae_random ae (nextId d), ae_random ae (nextId d))) (d\<lparr>nextId := Suc (nextId d)\<rparr>)))"
  proof (rule generate_keeps_ok [OF tokens_ok_fresh [OF ok] assms(1)])
    show "tk_revokedAt t \<noteq> None"
      if "t \<in> set (tokens (d\<lparr>nextId := Suc (nextId d)\<rparr>))" "family_of t = ae_random ae (nextId d)" for t
      using that tokens_okD(2) [OF ok, of t] drawn_new [OF assms(2) order_refl] by simp
  qed (simp add: drawn_generated)
qed

lemma limit_kept [tokens_kept]: "keeps (tokens_ok ae cuid) (checkAndIncrementRateLimit scope key maxCount)"
  unfolding checkAndIncrementRateLimit_def
  by (intro keeps_intros tokens_kept_other) simp

lemma challenge_kept: "keeps (tokens_ok ae' cuid) (createChallenge ae rt address network ip)"
  unfolding createChallenge_def find_or_create_challenge_def Let_def
  by (intro keeps_intros tokens_kept tokens_kept_other) simp_all

lemma prune_kept: "keeps (tokens_ok ae cuid) (pruneExpiredChallenges rt)"
  unfolding pruneExpiredChallenges_def by (intro keeps_intros tokens_kept_other) simp

lemma verify_kept:
  assumes "inj (rt_cuid rt)" and "inj (ae_random ae)"
  shows "keeps (tokens_ok ae (rt_cuid rt)) (verifyChallenge ae rt address signature challenge network ip)"
  unfolding verifyChallenge_def open_session_def challenge_checks_def Let_def
  by (intro keeps_intros tokens_kept tokens_kept_other new_family_kept assms) simp_all

lemma revoke_family_kept [tokens_kept]: "keeps (tokens_ok ae cuid) (revoke_family rt fam)"
  unfolding revoke_family_def by (rule tokens_kept_revoke) simp

lemma logout_kept: "keeps (tokens_ok ae cuid) (revokeRefreshToken ae' rt token)"
  unfolding revokeRefreshToken_def
  by (intro keeps_intros tokens_kept_revoke) simp_all

definition retire_token :: "runtime \<Rightarrow> string \<Rightarrow> db \<Rightarrow> db" where
  "retire_token rt i d = d\<lparr>tokens := update_rows (\<lambda>t. tk_id t = i)
     (\<lambda>t. t\<lparr>tk_revokedAt := Some (rt_now rt), tk_lastUsedAt := Some (rt_now rt)\<rparr>) (tokens d)\<rparr>"

lemma rotate_run:
  assumes "find_by tk_id (tk_id rec) (tokens d) = Some fresh" and "exists_row (\<lambda>t. tk_id t = tk_id rec) (tokens (mid d))"
  shows "rotate_token ae rt mid rec d =
    (if tk_revokedAt fresh \<noteq> None \<or> tk_expiresAt fresh < rt_now rt then (Inl (unauthorized ''Invalid refresh token''), d)
     else transaction (\<lambda>_. generateRefreshToken ae rt (tk_userId fresh) (Some (tk_sessionId fresh, family_of rec))
       (retire_token rt (tk_id rec) (mid d))) (mid d))"
proof -
  have "tk_id fresh = tk_id rec"
    using assms(1) by (auto simp: find_by_def dest: find_row_Some)
  with assms show ?thesis
    by (auto simp: rotate_token_def retire_token_def intro!: transaction_run_cong)
qed

text \<open>The rotation of a live token that no other request disturbs.\<close>

lemma rotation_kept:
  assumes ok: "tokens_ok ae (rt_cuid rt) d" and "inj (rt_cuid rt)" and r: "rec \<in> set (tokens d)"
    and live: "tk_revokedAt rec = None"
  shows "tokens_ok ae (rt_cuid rt) (snd (rotate_token ae rt id rec d))"
proof -
  define e where "e = retire_token rt (tk_id rec) d"
  have e: "tokens_ok ae (rt_cuid rt) e"
    unfolding e_def retire_token_def by (rule keepsD [OF tokens_kept_revoke ok, simplified]) simp
  have gone: "tk_revokedAt t \<noteq> None" if "t \<in> set (tokens e)" "family_of t = family_of rec" for t
  proof
    assume "tk_revokedAt t = None"
    with that(1) have "t \<in> set (tokens d)" "tk_id t \<noteq> tk_id rec"
      by (auto simp: e_def retire_token_def set_update_rows split: if_splits)
    with tokens_okD(4) [OF ok _ r \<open>tk_revokedAt t = None\<close> live that(2)] show False by simp
  qed
  have "tokens_ok ae (rt_cuid rt) (snd (generateRefreshToken ae rt u (Some (sid, family_of rec)) e))" for u sid
    by (rule generate_keeps_ok [OF e assms(2) _ gone])
      (use tokens_okD(2) [OF ok r] in \<open>simp add: e_def retire_token_def\<close>)
  note new = this
  show ?thesis
  proof (cases "find_by tk_id (tk_id rec) (tokens d)")
    case None
    with ok show ?thesis by (simp add: rotate_token_def)
  next
    case (Some fresh)
    then have present: "exists_row (\<lambda>t. tk_id t = tk_id rec) (tokens (id d))"
      by (simp add: find_by_def exists_row_find)
    from ok new show ?thesis
      unfolding rotate_run [where mid = id, OF Some present] e_def by (simp add: transaction_snd)
  qed
qed

lemma refresh_kept:
  assumes "inj (rt_cuid rt)"
  shows "keeps (tokens_ok ae (rt_cuid rt)) (refreshToken ae rt id token)"
  unfolding keeps_def
proof (intro allI impI)
  fix d assume ok: "tokens_ok ae (rt_cuid rt) d"
  show "tokens_ok ae (rt_cuid rt) (snd (refreshToken ae rt id token d))"
  proof (cases "find_by tk_hash (ae_hash ae token) (tokens d)")
    case None
    with ok show ?thesis by (simp add: refreshToken_def)
  next
    case (Some rec)
    then have "rec \<in> set (tokens d)" by (auto simp: find_by_def dest: find_row_Some)
    from rotation_kept [OF ok assms this] keepsD [OF revoke_family_kept ok, of rt "family_of rec"] Some ok
    show ?thesis
      by (simp add: refreshToken_def snd_bnd_pure split: option.split)
  qed
qed

text \<open>The requests of the session machine, one at a time.\<close>

inductive session_step :: "auth_env \<Rightarrow> (nat \<Rightarrow> string) \<Rightarrow> db \<Rightarrow> db \<Rightarrow> bool" for ae cuid where
  challenge: "rt_cuid rt = cuid \<Longrightarrow> session_step ae cuid d (snd (createChallenge ae rt address network ip d))"
| verify: "rt_cuid rt = cuid \<Longrightarrow>
    session_step ae cuid d (snd (verifyChallenge ae rt address signature nonce network ip d))"
| refresh: "rt_cuid rt = cuid \<Longrightarrow> session_step ae cuid d (snd (refreshToken ae rt id token d))"
| logout: "session_step ae cuid d (snd (revokeRefreshToken ae rt token d))"
| prune: "session_step ae cuid d (snd (pruneExpiredChallenges rt d))"

inductive session_reach :: "auth_env \<Rightarrow> (nat \<Rightarrow> string) \<Rightarrow> db \<Rightarrow> db \<Rightarrow> bool" for ae cuid d where
  start: "session_reach ae cuid d d"
| step: "session_reach ae cuid d e \<Longrightarrow> session_step ae cuid e f \<Longrightarrow> session_reach ae cuid d f"

lemma session_step_ok:
  assumes "session_step ae cuid d e" and "inj cuid" and "inj (ae_random ae)" and "tokens_ok ae cuid d"
  shows "tokens_ok ae cuid e"
  using assms
  by cases (auto intro: keepsD [OF challenge_kept] keepsD [OF verify_kept] keepsD [OF refresh_kept]
      keepsD [OF logout_kept] keepsD [OF prune_kept])

lemma session_reach_ok:
  "session_reach ae cuid d e \<Longrightarrow> inj cuid \<Longrightarrow> inj (ae_random ae) \<Longrightarrow> tokens d = [] \<Longrightarrow> tokens_ok ae cuid e"
proof (induction rule: session_reach.induct)
  case start
  then show ?case by (simp add: tokens_ok_def)
next
  case (step e f)
  then show ?case by (blast intro: session_step_ok)
qed


section \<open>Examples\<close>

definition replicate_a :: "nat \<Rightarrow> string" where
  "replicate_a n = replicate (Suc n) CHR ''a''"

lemma inj_replicate_a: "inj replicate_a"
  by (rule injI) (drule arg_cong [of _ _ length], simp add: replicate_a_def)

definition sample_env :: auth_env where
  "sample_env = \<lparr>ae_network = ''TESTNET'', ae_testnet = ''test net'', ae_futurenet = [], ae_public = ''public net'',
     ae_challengeTtl = 300, ae_refreshTtl = ''7d'', ae_challengePerAddress = 5, ae_challengePerIp = 10,
     ae_verifyPerAddress = 5, ae_verifyPerIp = 10, ae_random = replicate_a, ae_hash = (\<lambda>s. CHR ''h'' # s),
     ae_verify = (\<lambda>_ _ s. Inr (s = ''signed''))\<rparr>"

definition sample_rt :: "int \<Rightarrow> runtime" where
  "sample_rt now = \<lparr>rt_now = now, rt_cuid = replicate_a, rt_broker = True\<rparr>"

definition signed_in :: db where
  "signed_in = snd (verifyChallenge sample_env (sample_rt 2000) ''GA'' ''signed'' [] None ''ip''
     (snd (createChallenge sample_env (sample_rt 1000) ''GA'' None ''ip'' empty_db)))"

lemma signed_in_reachable: "session_reach sample_env replicate_a empty_db signed_in"
  unfolding signed_in_def
  by (rule session_reach.step [OF session_reach.step [OF session_reach.start session_step.challenge] session_step.verify])
    (simp_all add: sample_rt_def)

lemma sample_inj: "inj (ae_random sample_env)" "inj (rt_cuid (sample_rt t))"
  by (simp_all add: sample_env_def sample_rt_def inj_replicate_a)


section \<open>Refreshing\<close>

lemma live_retire:
  assumes "unique_by tk_id (tokens d)" and "rec \<in> set (tokens d)"
  shows "live_tokens (family_of rec) (retire_token rt (tk_id rec) d) + (if tk_revokedAt rec = None then 1 else 0)
    = live_tokens (family_of rec) d"
  using count_update_one [OF assms, of "\<lambda>t. family_of t = family_of rec \<and> tk_revokedAt t = None"
    "\<lambda>t. t\<lparr>tk_revokedAt := Some (rt_now rt), tk_lastUsedAt := Some (rt_now rt)\<rparr>"]
  by (simp add: live_tokens_def retire_token_def)

lemma refresh_run:
  assumes "find_by tk_hash (ae_hash ae token) (tokens d) = Some rec" and "find_by u_id (tk_userId rec) (users d) = Some user"
    and "tk_revokedAt rec = None" and "rt_now rt \<le> tk_expiresAt rec"
  shows "refreshToken ae rt mid token d =
    bnd (rotate_token ae rt mid rec) (\<lambda>(newToken, sid, fam). ret (payload_of user, newToken)) d"
  using assms by (simp add: refreshToken_def)

lemma refresh_rejection_cases:
  assumes found: "find_by tk_hash (ae_hash ae token) (tokens d) = Some rec"
    and user: "find_by u_id (tk_userId rec) (users d) = Some user"
    and fam: "tk_familyId rec = Some fam"
  shows "tk_expiresAt rec < rt_now rt \<Longrightarrow>
      refreshToken ae rt mid token d = (Inl (unauthorized ''Refresh token expired''), d)"
    and "rt_now rt \<le> tk_expiresAt rec \<Longrightarrow> tk_revokedAt rec \<noteq> None \<Longrightarrow>
      fst (refreshToken ae rt mid token d) = Inl (unauthorized ''Refresh token reuse detected - family revoked'')"
    and "rt_now rt \<le> tk_expiresAt rec \<Longrightarrow> tk_revokedAt rec \<noteq> None \<Longrightarrow>
      t \<in> set (tokens (snd (refreshToken ae rt mid token d))) \<Longrightarrow> tk_familyId t = Some fam \<Longrightarrow> tk_revokedAt t \<noteq> None"
proof -
  show "tk_expiresAt rec < rt_now rt \<Longrightarrow>
      refreshToken ae rt mid token d = (Inl (unauthorized ''Refresh token expired''), d)"
    using found user by (simp add: refreshToken_def)
  assume late: "rt_now rt \<le> tk_expiresAt rec" "tk_revokedAt rec \<noteq> None"
  have fam_of: "family_of rec = fam" using fam by (simp add: family_of_def)
  have run: "refreshToken ae rt mid token d =
      (Inl (unauthorized ''Refresh token reuse detected - family revoked''), snd (revoke_family rt fam d))"
    using found user late by (auto simp: refreshToken_def revoke_family_def fam_of)
  from run show "fst (refreshToken ae rt mid token d) = Inl (unauthorized ''Refresh token reuse detected - family revoked'')"
    by simp
  show "t \<in> set (tokens (snd (refreshToken ae rt mid token d))) \<Longrightarrow> tk_familyId t = Some fam \<Longrightarrow> tk_revokedAt t \<noteq> None"
    unfolding run by (auto simp: revoke_family_def set_update_rows split: if_splits)
qed

text \<open>
  A presented refresh token that is expired is rejected and changes nothing, revoked or
  not; one that is revoked and unexpired is rejected and leaves no live token in its family.
\<close>

theorem refresh_rejections:
  assumes "find_by tk_hash (ae_hash ae token) (tokens d) = Some rec"
    and "find_by u_id (tk_userId rec) (users d) = Some user" and "tk_familyId rec = Some fam"
  shows "(tk_expiresAt rec < rt_now rt \<longrightarrow>
        refreshToken ae rt mid token d = (Inl (unauthorized ''Refresh token expired''), d)) \<and>
      (rt_now rt \<le> tk_expiresAt rec \<and> tk_revokedAt rec \<noteq> None \<longrightarrow>
        fst (refreshToken ae rt mid token d) = Inl (unauthorized ''Refresh token reuse detected - family revoked'') \<and>
        (\<forall>t \<in> set (tokens (snd (refreshToken ae rt mid token d))). tk_familyId t = Some fam \<longrightarrow> tk_revokedAt t \<noteq> None))"
  using refresh_rejection_cases [OF assms] by blast

definition sample_token :: "string \<Rightarrow> string \<Rightarrow> int option \<Rightarrow> token_row" where
  "sample_token i h revoked = \<lparr>tk_id = i, tk_userId = ''u'', tk_hash = h, tk_sessionId = ''s'', tk_familyId = Some ''a'',
     tk_expiresAt = 9000, tk_revokedAt = revoked, tk_lastUsedAt = Some 100\<rparr>"

definition rotated :: db where
  "rotated = empty_db\<lparr>users := [sign_in_user ''u'' ''GA'' (sample_rt 0)],
     tokens := [sample_token ''a'' ''hold'' (Some 200), sample_token ''aa'' ''hnew'' None], nextId := 2\<rparr>"

lemmas sample_defs = sample_token_def rotated_def sign_in_user_def sample_rt_def sample_env_def empty_db_def find_by_def

theorem refresh_rejections_witness:
  "fst (refreshToken sample_env (sample_rt 300) id ''old'' rotated) =
     Inl (unauthorized ''Refresh token reuse detected - family revoked'') \<and>
   refreshToken sample_env (sample_rt 9001) id ''old'' rotated = (Inl (unauthorized ''Refresh token expired''), rotated)"
proof -
  note facts = refresh_rejections [of sample_env "''old''" rotated "sample_token ''a'' ''hold'' (Some 200)"
    "sign_in_user ''u'' ''GA'' (sample_rt 0)" "''a''"]
  have "fst (refreshToken sample_env (sample_rt 300) id ''old'' rotated) =
      Inl (unauthorized ''Refresh token reuse detected - family revoked'')"
    by (rule facts [THEN conjunct2, THEN mp, THEN conjunct1]) (simp_all add: sample_defs)
  moreover have "refreshToken sample_env (sample_rt 9001) id ''old'' rotated = (Inl (unauthorized ''Refresh token expired''), rotated)"
    by (rule facts [THEN conjunct1, THEN mp]) (simp_all add: sample_defs)
  ultimately show ?thesis by blast
qed

lemma refresh_keeps_count:
  assumes ok: "tokens_ok ae (rt_cuid rt) d" and cuid: "inj (rt_cuid rt)"
    and r: "rec \<in> set (tokens d)" and ttl: "parseDuration (ae_refreshTtl ae) = Inr ttl"
    and new: "\<forall>t \<in> set (tokens d). tk_hash t \<noteq> ae_hash ae (ae_random ae (nextId d))"
  shows "generateRefreshToken ae rt u (Some (sid, family_of rec)) (retire_token rt (tk_id rec) d) =
      (Inr (ae_random ae (nextId d), sid, family_of rec),
       (retire_token rt (tk_id rec) d)\<lparr>nextId := Suc (Suc (nextId d)),
         tokens := tokens (retire_token rt (tk_id rec) d) @ [new_token ae rt u sid (family_of rec) ttl (nextId d)]\<rparr>)"
proof -
  have "\<not> exists_row (\<lambda>t. tk_hash t = ae_hash ae (ae_random ae (nextId d))) (tokens (retire_token rt (tk_id rec) d))"
    using new by (auto simp: exists_row_iff retire_token_def set_update_rows)
  then show ?thesis
    by (simp add: generate_in_session ttl) (simp add: retire_token_def)
qed

text \<open>A refresh of a live token on its own, and then the same request again, interrupted by the first.\<close>

lemma refresh_once:
  assumes ok: "tokens_ok ae (rt_cuid rt) d" and cuid: "inj (rt_cuid rt)"
    and found: "find_by tk_hash (ae_hash ae token) (tokens d) = Some rec"
    and user: "find_by u_id (tk_userId rec) (users d) = Some user"
    and live: "tk_revokedAt rec = None" "rt_now rt \<le> tk_expiresAt rec"
    and ttl: "parseDuration (ae_refreshTtl ae) = Inr ttl"
    and n: "n = nextId (mid d)"
    and new: "\<forall>t \<in> set (tokens (mid d)). tk_hash t \<noteq> ae_hash ae (ae_random ae n)"
    and mid: "tokens_ok ae (rt_cuid rt) (mid d)" "rec' \<in> set (tokens (mid d))" "tk_id rec' = tk_id rec" "family_of rec' = family_of rec"
  shows "refreshToken ae rt mid token d =
    (Inr (payload_of user, ae_random ae n),
     (retire_token rt (tk_id rec) (mid d))\<lparr>nextId := Suc (Suc n),
       tokens := tokens (retire_token rt (tk_id rec) (mid d)) @
         [new_token ae rt (tk_userId rec) (tk_sessionId rec) (family_of rec) ttl n]\<rparr>)"
proof -
  have r: "rec \<in> set (tokens d)" using found by (auto simp: find_by_def dest: find_row_Some)
  have fresh: "find_by tk_id (tk_id rec) (tokens d) = Some rec"
    by (rule find_unique [OF tokens_okD(3) [OF ok] r])
  have "exists_row (\<lambda>t. tk_id t = tk_id rec) (tokens (mid d))"
    using mid by (auto simp: exists_row_iff)
  then show ?thesis
    using refresh_keeps_count [OF mid(1) cuid mid(2) ttl, of "tk_userId rec" "tk_sessionId rec"] new live mid(3,4) n
    by (simp add: refresh_run [OF found user live] rotate_run [OF fresh] bnd_def transaction_def)
qed

lemma live_tokens_append [simp]:
  "live_tokens fam (d\<lparr>nextId := n, tokens := ts @ [row]\<rparr>) =
     live_tokens fam (d\<lparr>tokens := ts\<rparr>) + (if family_of row = fam \<and> tk_revokedAt row = None then 1 else 0)"
  by (simp add: live_tokens_def)

lemma tokens_fold [simp]: "d\<lparr>tokens := tokens d\<rparr> = d"
  by (cases d) simp

lemma refresh_race_effects:
  assumes ok: "tokens_ok ae (rt_cuid rt) d" and cuid: "inj (rt_cuid rt)"
    and found: "find_by tk_hash (ae_hash ae token) (tokens d) = Some rec"
    and user: "find_by u_id (tk_userId rec) (users d) = Some user"
    and live: "tk_revokedAt rec = None" "rt_now rt \<le> tk_expiresAt rec"
    and ttl: "parseDuration (ae_refreshTtl ae) = Inr ttl"
    and hashes: "\<forall>t \<in> set (tokens d). tk_hash t \<noteq> ae_hash ae (ae_random ae (nextId d)) \<and>
      tk_hash t \<noteq> ae_hash ae (ae_random ae (nextId d + 2))"
      "ae_hash ae (ae_random ae (nextId d)) \<noteq> ae_hash ae (ae_random ae (nextId d + 2))"
  shows "fst (refreshToken ae rt id token d) = Inr (payload_of user, ae_random ae (nextId d))"
    and "live_tokens (family_of rec) (snd (refreshToken ae rt id token d)) = live_tokens (family_of rec) d"
    and "fst (refreshToken ae rt (\<lambda>e. snd (refreshToken ae rt id token e)) token d) =
      Inr (payload_of user, ae_random ae (nextId d + 2))"
    and "live_tokens (family_of rec) (snd (refreshToken ae rt (\<lambda>e. snd (refreshToken ae rt id token e)) token d)) =
      Suc (live_tokens (family_of rec) d)"
proof -
  let ?new = "new_token ae rt (tk_userId rec) (tk_sessionId rec) (family_of rec) ttl"
  define e where "e = (retire_token rt (tk_id rec) d)\<lparr>nextId := Suc (Suc (nextId d)),
    tokens := tokens (retire_token rt (tk_id rec) d) @ [?new (nextId d)]\<rparr>"
  have r: "rec \<in> set (tokens d)" using found by (auto simp: find_by_def dest: find_row_Some)
  have first: "refreshToken ae rt id token d = (Inr (payload_of user, ae_random ae (nextId d)), e)"
    unfolding e_def using refresh_once [where mid = id, OF ok cuid found user live ttl refl] ok r hashes(1) by simp
  have oke: "tokens_ok ae (rt_cuid rt) e"
    using keepsD [OF refresh_kept [OF cuid] ok, of token] by (simp add: first)
  define old where "old = rec\<lparr>tk_revokedAt := Some (rt_now rt), tk_lastUsedAt := Some (rt_now rt)\<rparr>"
  have old: "old \<in> set (tokens e)"
    using r by (auto simp: e_def old_def retire_token_def set_update_rows)
  have old_fields [simp]: "tk_id old = tk_id rec" "family_of old = family_of rec" "tk_revokedAt old \<noteq> None"
    by (simp_all add: old_def)
  have unused: "\<forall>t \<in> set (tokens e). tk_hash t \<noteq> ae_hash ae (ae_random ae (Suc (Suc (nextId d))))"
    using hashes by (auto simp: e_def retire_token_def set_update_rows)
  have second: "refreshToken ae rt (\<lambda>e. snd (refreshToken ae rt id token e)) token d =
      (Inr (payload_of user, ae_random ae (nextId e)),
       (retire_token rt (tk_id rec) e)\<lparr>nextId := Suc (Suc (nextId e)),
         tokens := tokens (retire_token rt (tk_id rec) e) @ [?new (nextId e)]\<rparr>)"
    using refresh_once [where mid = "\<lambda>e. snd (refreshToken ae rt id token e)" and rec' = old,
        OF ok cuid found user live ttl refl] oke old unused
    by (simp add: first) (simp add: e_def)
  have "nextId e = nextId d + 2" by (simp add: e_def)
  with first second show "fst (refreshToken ae rt id token d) = Inr (payload_of user, ae_random ae (nextId d))"
    "fst (refreshToken ae rt (\<lambda>e. snd (refreshToken ae rt id token e)) token d) =
      Inr (payload_of user, ae_random ae (nextId d + 2))"
    by simp_all
  have one: "live_tokens (family_of rec) e = live_tokens (family_of rec) d"
    using live_retire [OF tokens_okD(3) [OF ok] r, of rt] live(1) by (simp add: e_def)
  then show "live_tokens (family_of rec) (snd (refreshToken ae rt id token d)) = live_tokens (family_of rec) d"
    by (simp add: first)
  show "live_tokens (family_of rec) (snd (refreshToken ae rt (\<lambda>e. snd (refreshToken ae rt id token e)) token d)) =
      Suc (live_tokens (family_of rec) d)"
    using live_retire [OF tokens_okD(3) [OF oke] old, of rt] one by (simp add: second)
qed

text \<open>
  The row is read in the rotation's transaction but written by its id alone: when the same live
  token is refreshed a second time between the two, both requests succeed and the family ends up
  with one live token more than before.
\<close>

theorem refresh_race_adds_live_token:
  assumes "tokens_ok ae (rt_cuid rt) d" and "inj (rt_cuid rt)"
    and "find_by tk_hash (ae_hash ae token) (tokens d) = Some rec"
    and "find_by u_id (tk_userId rec) (users d) = Some user"
    and "tk_revokedAt rec = None" and "rt_now rt \<le> tk_expiresAt rec"
    and "parseDuration (ae_refreshTtl ae) = Inr ttl"
    and "\<forall>t \<in> set (tokens d). tk_hash t \<noteq> ae_hash ae (ae_random ae (nextId d)) \<and>
      tk_hash t \<noteq> ae_hash ae (ae_random ae (nextId d + 2))"
    and "ae_hash ae (ae_random ae (nextId d)) \<noteq> ae_hash ae (ae_random ae (nextId d + 2))"
  shows "fst (refreshToken ae rt id token d) = Inr (payload_of user, ae_random ae (nextId d)) \<and>
    live_tokens (family_of rec) (snd (refreshToken ae rt id token d)) = live_tokens (family_of rec) d \<and>
    fst (refreshToken ae rt (\<lambda>e. snd (refreshToken ae rt id token e)) token d) =
      Inr (payload_of user, ae_random ae (nextId d + 2)) \<and>
    live_tokens (family_of rec) (snd (refreshToken ae rt (\<lambda>e. snd (refreshToken ae rt id token e)) token d)) =
      Suc (live_tokens (family_of rec) d)"
  using refresh_race_effects [OF assms] by blast

theorem refresh_race_adds_live_token_witness:
  "live_tokens ''a'' (snd (refreshToken sample_env (sample_rt 300)
     (\<lambda>e. snd (refreshToken sample_env (sample_rt 300) id ''new'' e)) ''new'' rotated)) = 2"
proof -
  have "live_tokens (family_of (sample_token ''aa'' ''hnew'' None)) (snd (refreshToken sample_env (sample_rt 300)
     (\<lambda>e. snd (refreshToken sample_env (sample_rt 300) id ''new'' e)) ''new'' rotated)) =
     Suc (live_tokens (family_of (sample_token ''aa'' ''hnew'' None)) rotated)"
  proof (rule refresh_race_adds_live_token [THEN conjunct2, THEN conjunct2, THEN conjunct2])
    have "drawn replicate_a 2 ''a''" "drawn replicate_a 2 ''aa''"
      using drawn_generated [of 0 2 replicate_a] drawn_generated [of 1 2 replicate_a] by (simp_all add: replicate_a_def)
    then show "tokens_ok sample_env (rt_cuid (sample_rt 300)) rotated"
      by (auto simp: tokens_ok_def sample_defs family_of_def)
    show "parseDuration (ae_refreshTtl sample_env) = Inr 604800000"
      by (simp add: sample_env_def) code_simp
  qed (simp_all add: sample_defs inj_replicate_a replicate_a_def numeral_2_eq_2 numeral_eq_Suc)
  then show ?thesis by (simp add: sample_defs live_tokens_def family_of_def)
qed

section \<open>Signing in\<close>

lemma limit_Inr:
  "checkAndIncrementRateLimit scope key m d = (Inr u, e) \<Longrightarrow>
    \<exists>cs. e = d\<lparr>rateCounters := cs\<rparr> \<and> rate_count (rate_key scope key) e \<le> m"
  by (auto simp: checkAndIncrementRateLimit_def split: if_splits)

lemma challenge_checks_Inr:
  assumes "challenge_checks ae rt address signature network c d = (Inr u, e)"
  shows "e = d" "ac_address c = address" "ac_network c = network" "ac_usedAt c = None" "rt_now rt \<le> ac_expiresAt c"
    "\<exists>p. resolveNetworkPassphrase ae network = Inr p \<and>
      ae_verify ae address (buildSignedMessage address p (ac_challenge c) (ac_expiresAt c)) signature = Inr True"
  using assms
  by (auto simp: challenge_checks_def constantTimeCompare_def split: sum.splits if_splits)

lemma generate_frame:
  assumes "generateRefreshToken ae rt userId session d = (r, e)"
  shows "challenges e = challenges d" "users e = users d"
  using assms
  by (cases session; auto simp: generate_new_session generate_in_session split: sum.splits if_splits)+

lemma open_session_Inr:
  assumes "open_session ae rt address c d = (Inr (user, token), e)"
  shows "challenges e = update_rows (\<lambda>x. ac_id x = ac_id c) (\<lambda>x. x\<lparr>ac_usedAt := Some (rt_now rt)\<rparr>) (challenges d)"
    and "u_address user = address"
proof -
  from assms obtain i s where
    user: "find_by u_address address (upsert_row u_address address (sign_in_user i address rt) id (users d)) = Some user"
    and "generateRefreshToken ae rt (u_id user) None (d\<lparr>challenges := update_rows (\<lambda>x. ac_id x = ac_id c)
        (\<lambda>x. x\<lparr>ac_usedAt := Some (rt_now rt)\<rparr>) (challenges d), nextId := Suc (nextId d),
        users := upsert_row u_address address (sign_in_user i address rt) id (users d)\<rparr>) = (Inr s, e)"
    by (auto simp: open_session_def transaction_Inr bnd_eq_Inr_iff split: option.splits if_splits)
  from generate_frame(1) [OF this(2)]
  show "challenges e = update_rows (\<lambda>x. ac_id x = ac_id c) (\<lambda>x. x\<lparr>ac_usedAt := Some (rt_now rt)\<rparr>) (challenges d)"
    by simp
  from user show "u_address user = address" by (auto simp: find_by_def dest: find_row_Some)
qed

lemma verify_Inr:
  assumes "verifyChallenge ae rt address signature nonce network ip d = (Inr (payload, token), e)"
  obtains c where "find_by ac_challenge nonce (challenges d) = Some c" "ac_address c = address"
    "ac_network c = or_default network (ae_network ae)" "ac_usedAt c = None" "rt_now rt \<le> ac_expiresAt c"
    "\<exists>p. resolveNetworkPassphrase ae (ac_network c) = Inr p \<and>
      ae_verify ae address (buildSignedMessage address p nonce (ac_expiresAt c)) signature = Inr True"
    "challenges e = update_rows (\<lambda>x. ac_id x = ac_id c) (\<lambda>x. x\<lparr>ac_usedAt := Some (rt_now rt)\<rparr>) (challenges d)"
    "ap_stellarAddress payload = address"
proof -
  let ?net = "or_default network (ae_network ae)"
  from assms obtain d1 d2 d3 c user u3
    where l1: "checkAndIncrementRateLimit ''verify:addr'' address (ae_verifyPerAddress ae) d = (Inr (), d1)"
    and l2: "checkAndIncrementRateLimit ''verify:ip'' ip (ae_verifyPerIp ae) d1 = (Inr (), d2)"
    and found: "find_by ac_challenge nonce (challenges d2) = Some c"
    and checks: "challenge_checks ae rt address signature ?net c d2 = (Inr u3, d3)"
    and opened: "open_session ae rt address c d3 = (Inr (user, token), e)"
    and payload: "payload = payload_of user"
    by (auto simp: verifyChallenge_def Let_def bnd_eq_Inr_iff split: sum.splits option.splits)
  have same: "challenges d2 = challenges d" using limit_Inr [OF l1] limit_Inr [OF l2] by auto
  have nonce: "ac_challenge c = nonce" using found by (auto simp: find_by_def dest: find_row_Some)
  note ch = challenge_checks_Inr [OF checks]
  from open_session_Inr [OF opened] ch(1) same payload found ch(2-6) nonce
  show thesis by (intro that [of c]) (simp_all add: payload_of_def)
qed

lemma sign_in_facts:
  assumes "verifyChallenge ae rt address signature nonce network ip d = (Inr (payload, token), e)"
    and "unique_by ac_challenge (challenges d)"
  shows "\<exists>c \<in> set (challenges d). ac_challenge c = nonce \<and> ac_usedAt c = None \<and> rt_now rt \<le> ac_expiresAt c \<and>
      ac_address c = address \<and> ac_network c = or_default network (ae_network ae) \<and>
      (\<exists>p. resolveNetworkPassphrase ae (ac_network c) = Inr p \<and>
        ae_verify ae address (buildSignedMessage address p nonce (ac_expiresAt c)) signature = Inr True)"
    and "ap_stellarAddress payload = address"
    and "\<not> exists_row (\<lambda>c. ac_challenge c = nonce \<and> ac_usedAt c = None) (challenges e)"
proof -
  from verify_Inr [OF assms(1)] obtain c where c: "find_by ac_challenge nonce (challenges d) = Some c"
    "ac_address c = address" "ac_network c = or_default network (ae_network ae)" "ac_usedAt c = None"
    "rt_now rt \<le> ac_expiresAt c"
    "\<exists>p. resolveNetworkPassphrase ae (ac_network c) = Inr p \<and>
      ae_verify ae address (buildSignedMessage address p nonce (ac_expiresAt c)) signature = Inr True"
    and after: "challenges e = update_rows (\<lambda>x. ac_id x = ac_id c) (\<lambda>x. x\<lparr>ac_usedAt := Some (rt_now rt)\<rparr>) (challenges d)"
    and payload: "ap_stellarAddress payload = address" .
  from c(1) have inn: "c \<in> set (challenges d)" "ac_challenge c = nonce"
    by (auto simp: find_by_def dest: find_row_Some)
  with c show "\<exists>c \<in> set (challenges d). ac_challenge c = nonce \<and> ac_usedAt c = None \<and> rt_now rt \<le> ac_expiresAt c \<and>
      ac_address c = address \<and> ac_network c = or_default network (ae_network ae) \<and>
      (\<exists>p. resolveNetworkPassphrase ae (ac_network c) = Inr p \<and>
        ae_verify ae address (buildSignedMessage address p nonce (ac_expiresAt c)) signature = Inr True)"
    by blast
  show "ap_stellarAddress payload = address" by (rule payload)
  have "x = c" if "x \<in> set (challenges d)" "ac_challenge x = nonce" for x
    using find_unique [OF assms(2) that(1)] that(2) c(1) by simp
  then show "\<not> exists_row (\<lambda>c. ac_challenge c = nonce \<and> ac_usedAt c = None) (challenges e)"
    unfolding after exists_row_iff set_update_rows by (auto split: if_splits)
qed


lemma takeWhile_to: "c \<notin> set a \<Longrightarrow> takeWhile (\<lambda>z. z \<noteq> c) (a @ c # x) = a"
  by (induction a) auto

lemma join_split:
  assumes "c \<notin> set a" and "c \<notin> set b" and "a @ c # x = b @ c # y"
  shows "a = b" "x = y"
proof -
  show "a = b" using takeWhile_to [OF assms(1), of x] takeWhile_to [OF assms(2), of y] assms(3) by simp
  with assms(3) show "x = y" by simp
qed

lemma signed_message_fields:
  assumes "buildSignedMessage address passphrase nonce expires = buildSignedMessage address' passphrase' nonce' expires'"
    and "LF \<notin> set (address @ passphrase @ nonce @ address' @ passphrase' @ nonce')"
  shows "address = address'" "passphrase = passphrase'" "nonce = nonce'" "iso_string expires = iso_string expires'"
proof -
  let ?t = "\<lambda>n e. ''Nonce: '' @ n @ [LF] @ ''Expires: '' @ iso_string e"
  let ?r = "\<lambda>p n e. ''Network: '' @ p @ [LF] @ ?t n e"
  have eq: "address @ LF # ?r passphrase nonce expires = address' @ LF # ?r passphrase' nonce' expires'"
    using assms(1) by (simp add: buildSignedMessage_def AUTH_DOMAIN_def)
  from join_split [OF _ _ eq] assms(2) have a: "address = address'" and
    "passphrase @ LF # ?t nonce expires = passphrase' @ LF # ?t nonce' expires'" by simp_all
  from join_split [OF _ _ this(2)] assms(2) have p: "passphrase = passphrase'" and
    "nonce @ LF # ''Expires: '' @ iso_string expires = nonce' @ LF # ''Expires: '' @ iso_string expires'" by simp_all
  from join_split [OF _ _ this(2)] assms(2) have "nonce = nonce'" "iso_string expires = iso_string expires'" by simp_all
  with a p show "address = address'" "passphrase = passphrase'" "nonce = nonce'" "iso_string expires = iso_string expires'"
    by simp_all
qed

text \<open>
  The signed message names the wallet, the network, the nonce and the expiry: two challenges with
  one message have the same wallet, network and nonce, and expire at the same printed time.
\<close>

theorem signed_message_binds:
  assumes "buildSignedMessage address passphrase nonce expires = buildSignedMessage address' passphrase' nonce' expires'"
    and "LF \<notin> set (address @ passphrase @ nonce @ address' @ passphrase' @ nonce')"
  shows "address = address' \<and> passphrase = passphrase' \<and> nonce = nonce' \<and> iso_string expires = iso_string expires'"
  using signed_message_fields [OF assms] by blast

text \<open>
  No signature is ever accepted: the key pair is made from the base64 text of the key bytes, 44
  characters, where the SDK takes an encoded address, 56 characters, and throws on anything else.
\<close>

theorem signature_never_accepted:
  assumes "\<And>a. sd_isValidPublicKey sdk a \<Longrightarrow> length a = 56 \<and> length (sd_decodePublicKey sdk a) = 32"
    and "\<And>s k. sd_fromPublicKey sdk s = Inr k \<Longrightarrow> sd_isValidPublicKey sdk s"
  shows "\<exists>m. verifyEd25519Signature sdk publicKey message signature = Inl (bad_request m)"
proof (cases "sd_fromPublicKey sdk (base64_text (sd_decodePublicKey sdk publicKey))")
  case (Inl m)
  then show ?thesis by (simp add: verifyEd25519Signature_def)
next
  case (Inr k)
  have "\<not> sd_isValidPublicKey sdk publicKey"
  proof
    assume "sd_isValidPublicKey sdk publicKey"
    then have "length (base64_text (sd_decodePublicKey sdk publicKey)) = 44"
      using assms(1) by (simp add: base64_text_length)
    moreover have "length (base64_text (sd_decodePublicKey sdk publicKey)) = 56"
      using assms(1) assms(2) [OF Inr] by blast
    ultimately show False by simp
  qed
  then show ?thesis by (simp add: verifyEd25519Signature_def)
qed

definition sample_sdk :: signature_sdk where
  "sample_sdk = \<lparr>sd_isValidPublicKey = (\<lambda>a. length a = 56), sd_decodePublicKey = (\<lambda>a. take 32 a),
     sd_fromPublicKey = (\<lambda>s. if length s = 56 then Inr (take 32 s) else Inl ''invalid encoded string''),
     sd_verify = (\<lambda>_ _ _. True)\<rparr>"

theorem signature_never_accepted_witness:
  "\<exists>m. verifyEd25519Signature sample_sdk (replicate 56 CHR ''G'') ''message'' (replicate 128 CHR ''0'') = Inl (bad_request m)"
  by (rule signature_never_accepted) (auto simp: sample_sdk_def split: if_splits)

theorem signed_message_binds_witness:
  "''n'' \<noteq> ''m'' \<and> buildSignedMessage ''GA'' ''net'' ''n'' 0 \<noteq> buildSignedMessage ''GA'' ''net'' ''m'' 0"
  using signed_message_binds [of "''GA''" "''net''" "''n''" 0 "''GA''" "''net''" "''m''" 0] by (auto simp: LF_def)

definition challenged :: db where
  "challenged = empty_db\<lparr>challenges := [\<lparr>ac_id = ''c'', ac_address = ''GA'', ac_challenge = ''nonce'', ac_network = ''TESTNET'',
     ac_expiresAt = 5000, ac_usedAt = None\<rparr>]\<rparr>"

lemma challenged_sign_in:
  "fst (verifyChallenge sample_env (sample_rt 2000) ''GA'' ''signed'' ''nonce'' None ''ip'' challenged) =
    Inr (\<lparr>ap_userId = ''a'', ap_stellarAddress = ''GA'', ap_role = ''user'', ap_scopes = []\<rparr>, ''aaa'')"
  by code_simp


end
