(* ===== verification/Soroban.thy ===== *)
theory Soroban
  imports Store
begin

text \<open>
  The client side of the chain as the services use it: the contract call a service builds
  (\<open>new TransactionBuilder(account, ...).addOperation(contract.call(f, args)).setTimeout(30)\<close>) and, as
  parameters, what the RPC node and the SDK answer. Every RPC call goes through \<open>rpcCall\<close>
  (\<open>common/stellar/rpcClient.ts\<close>), whose outcome, timeouts and open breaker included, is the answer.
\<close>

datatype sc_val = ScAddress string | ScI128 string | ScU32 int | ScString string

record contract_tx =
  tx_source :: string
  tx_fee :: string
  tx_passphrase :: string
  tx_contract :: string
  tx_function :: string
  tx_args :: "sc_val list"
  tx_timeout :: int

text \<open>
  \<open>so_build\<close> is the SDK's serialisation of a call, \<open>so_simulate\<close> the simulation (\<open>Inr (Inl m)\<close> a
  simulation error), \<open>so_assemble\<close> the prepared transaction, \<open>so_send\<close> the status and hash of a
  submission. A left value is what the call throws.
\<close>

record soroban =
  so_contractId :: string
  so_network :: string
  so_networks :: "string \<Rightarrow> string option"
  so_networkPassphrase :: string
  so_getAccount :: "string \<Rightarrow> jsval + string"
  so_build :: "contract_tx \<Rightarrow> jsval + string"
  so_simulate :: "string \<Rightarrow> jsval + (string + string)"
  so_assemble :: "string \<Rightarrow> string \<Rightarrow> jsval + string"
  so_fromXDR :: "string \<Rightarrow> string \<Rightarrow> jsval + string"
  so_send :: "string \<Rightarrow> jsval + (string \<times> string)"
  so_publicKey :: "string \<Rightarrow> jsval + string"
  so_sign :: "string \<Rightarrow> string \<Rightarrow> string"

definition getNetworkPassphrase :: "soroban \<Rightarrow> string" where
  "getNetworkPassphrase so = (case so_networks so (so_network so) of None \<Rightarrow> so_networkPassphrase so | Some p \<Rightarrow> p)"

text \<open>\<open>.catch(() => { throw e })\<close> on an RPC call.\<close>

definition or_throw :: "jsval + 'a \<Rightarrow> jsval \<Rightarrow> jsval + 'a" where
  "or_throw r e = (case r of Inl _ \<Rightarrow> Inl e | Inr a \<Rightarrow> Inr a)"

text \<open>\<open>BigInt(s)\<close> on a decimal text.\<close>

definition big_int :: "string \<Rightarrow> jsval + int" where
  "big_int s = (let t = js_trim s in if t = [] then Inr 0 else if int_literal t then Inr (parse_int t)
     else Inl (js_error (''Cannot convert '' @ s @ '' to a BigInt'')))"

record prepared_tx =
  pr_unsignedTxXdr :: string
  pr_contractId :: string
  pr_networkPassphrase :: string

lemma throw_unless_state [simp]: "snd (throw_unless b e s) = s"
  by (simp add: throw_unless_def)

lemma or_throw_Inr [simp]: "or_throw r e = Inr a \<longleftrightarrow> r = Inr a"
  by (simp add: or_throw_def split: sum.split)

text \<open>The part the preparations share: simulate, refuse a simulation error, assemble.\<close>

definition simulate_and_assemble :: "soroban \<Rightarrow> string \<Rightarrow> jsval + string" where
  "simulate_and_assemble so tx =
     (case or_throw (so_simulate so tx) (bad_request ''Transaction simulation failed'') of
        Inl e \<Rightarrow> Inl e
      | Inr (Inl m) \<Rightarrow> Inl (bad_request (''Simulation error: '' @ m))
      | Inr (Inr sim) \<Rightarrow> so_assemble so tx sim)"

definition wallet_call :: "soroban \<Rightarrow> string \<Rightarrow> string \<Rightarrow> string \<Rightarrow> sc_val list \<Rightarrow> contract_tx" where
  "wallet_call so contractId account f args = \<lparr>tx_source = account, tx_fee = ''100'',
     tx_passphrase = getNetworkPassphrase so, tx_contract = contractId, tx_function = f, tx_args = args, tx_timeout = 30\<rparr>"

text \<open>A transaction accepted by the node is one that is pending or was submitted before.\<close>

definition accepted_status :: "string \<Rightarrow> bool" where
  "accepted_status s \<longleftrightarrow> s = ''PENDING'' \<or> s = ''DUPLICATE''"

end
