(* ===== verification/Subscriptions.thy ===== *)
theory Subscriptions
  imports Soroban Projections
begin

text \<open>
  Subscriptions (\<open>backend/src/modules/subscriptions/subscriptions.service.ts\<close>): listing, the
  preparation of the wallet transactions, their submission with the optimistic write, the
  keeper's charge and the loop that confirms it.
\<close>

section \<open>Reading\<close>

definition INTERVAL_DAYS :: "SubscriptionInterval \<Rightarrow> int" where
  "INTERVAL_DAYS i = (case i of DAILY \<Rightarrow> 1 | WEEKLY \<Rightarrow> 7 | MONTHLY \<Rightarrow> 30)"

record SubscriptionResponse =
  sr_id :: string
  sr_tipperId :: string
  sr_tipperAddress :: string
  sr_creatorId :: string
  sr_creatorAddress :: string
  sr_amountStroops :: string
  sr_interval :: SubscriptionInterval
  sr_nextChargeAt :: string
  sr_status :: SubscriptionStatus
  sr_createdAt :: string
  sr_pendingChange :: "(string \<times> SubscriptionInterval \<times> string) option"
  sr_changePolicy :: string
  sr_cancellationPolicy :: string

definition address_of :: "string \<Rightarrow> db \<Rightarrow> string" where
  "address_of userId d = (case find_by u_id userId (users d) of None \<Rightarrow> [] | Some u \<Rightarrow> u_address u)"

definition pending_change :: "subscription_row \<Rightarrow> (string \<times> SubscriptionInterval \<times> string) option" where
  "pending_change s = (case (s_pendingAmount s, s_pendingInterval s, s_changeEffectiveAt s) of
       (Some a, Some i, Some t) \<Rightarrow> Some (show_int a, i, iso_string t) | _ \<Rightarrow> None)"

definition serializeSubscription :: "db \<Rightarrow> subscription_row \<Rightarrow> SubscriptionResponse" where
  "serializeSubscription d s = \<lparr>sr_id = s_id s, sr_tipperId = s_tipperId s, sr_tipperAddress = address_of (s_tipperId s) d,
     sr_creatorId = s_creatorId s, sr_creatorAddress = address_of (s_creatorId s) d,
     sr_amountStroops = show_int (s_amount s), sr_interval = s_interval s, sr_nextChargeAt = iso_string (s_nextChargeAt s),
     sr_status = s_status s, sr_createdAt = iso_string (s_createdAt s), sr_pendingChange = pending_change s,
     sr_changePolicy = ''next_period'', sr_cancellationPolicy = ''stop_future_charges_no_automatic_refund''\<rparr>"

fun status_name :: "SubscriptionStatus \<Rightarrow> string" where
  "status_name ACTIVE = ''ACTIVE''"
| "status_name PAUSED = ''PAUSED''"
| "status_name CANCELLED = ''CANCELLED''"
| "status_name EXPIRED = ''EXPIRED''"
| "status_name PAST_DUE = ''PAST_DUE''"
| "status_name FAILED = ''FAILED''"

datatype party_role = Tipper | Creator

definition listMySubscriptions ::
  "pagination \<Rightarrow> string \<Rightarrow> party_role \<Rightarrow> SubscriptionStatus option \<Rightarrow> nat \<Rightarrow> string option \<Rightarrow> nat option
   \<Rightarrow> (SubscriptionResponse list \<times> string option) dbio" where
  "listMySubscriptions pg userId role status limit cursor offset =
     (let scope = createCursorScope (pg_collation pg) (pg_json pg) ''subscriptions''
            [(''userId'', JStr userId), (''role'', JStr (case role of Tipper \<Rightarrow> ''tipper'' | Creator \<Rightarrow> ''creator'')),
             (''status'', case status of None \<Rightarrow> Undefined | Some st \<Rightarrow> JStr (status_name st))];
          base = (\<lambda>s. (case role of Tipper \<Rightarrow> s_tipperId s = userId | Creator \<Rightarrow> s_creatorId s = userId) \<and>
            s_deletedAt s = None \<and> (case status of None \<Rightarrow> True | Some st \<Rightarrow> s_status s = st))
      in bnd (gets id) (\<lambda>d.
         bnd (lift_res (keyset_page (pg_codec pg) (subscriptions d) base (\<lambda>s. (s_createdAt s, s_id s)) limit cursor offset scope))
           (\<lambda>page. ret (map (serializeSubscription d) (fst page), snd page))))"

definition loadCreatorByAddress :: "string \<Rightarrow> user_row dbio" where
  "loadCreatorByAddress address =
     bnd (gets (user_by_address address)) (\<lambda>found. require found (bad_request ''Creator not found''))"

definition loadOwnedActiveSubscription :: "string \<Rightarrow> string \<Rightarrow> subscription_row dbio" where
  "loadOwnedActiveSubscription tipperId creatorAddress =
     bnd (loadCreatorByAddress creatorAddress) (\<lambda>creator.
     bnd (gets (live_subscription (subscriptionId tipperId (u_id creator)))) (\<lambda>found.
     bnd (require found (not_found ''Subscription not found'')) (\<lambda>s.
     andthen (throw_unless (s_tipperId s = tipperId \<and> s_deletedAt s = None) (not_found ''Subscription not found''))
     (andthen (throw_unless (s_status s \<noteq> CANCELLED) (bad_request ''Subscription is already cancelled''))
       (ret s)))))"

section \<open>Wallet transactions\<close>

text \<open>The checks a creation makes, before the preparation and again before the submission.\<close>

definition check_new_subscription :: "string \<Rightarrow> string \<Rightarrow> string \<Rightarrow> (user_row \<times> user_row \<times> int) dbio" where
  "check_new_subscription tipperId creatorAddress amountStroops =
     bnd (gets (user_by_id tipperId)) (\<lambda>found.
     bnd (require found (bad_request ''User not found'')) (\<lambda>tipper.
     bnd (loadCreatorByAddress creatorAddress) (\<lambda>creator.
     andthen (throw_unless (u_id creator \<noteq> tipperId) (bad_request ''Cannot subscribe to yourself''))
     (bnd (lift_res (big_int amountStroops)) (\<lambda>amount.
       andthen (throw_unless (0 < amount) (bad_request ''Amount must be positive''))
         (ret (tipper, creator, amount)))))))"

definition prepare_wallet_call :: "soroban \<Rightarrow> string \<Rightarrow> string \<Rightarrow> sc_val list \<Rightarrow> prepared_tx dbio" where
  "prepare_wallet_call so address f args =
     bnd (lift_res (or_throw (so_getAccount so address) (bad_request ''Source account not found on network''))) (\<lambda>account.
     bnd (lift_res (so_build so (wallet_call so (so_contractId so) account f args))) (\<lambda>tx.
     bnd (lift_res (simulate_and_assemble so tx)) (\<lambda>xdr.
       ret \<lparr>pr_unsignedTxXdr = xdr, pr_contractId = so_contractId so, pr_networkPassphrase = getNetworkPassphrase so\<rparr>)))"

definition prepareCreateSubscription ::
  "soroban \<Rightarrow> string \<Rightarrow> string \<Rightarrow> string \<Rightarrow> SubscriptionInterval \<Rightarrow> prepared_tx dbio" where
  "prepareCreateSubscription so tipperId creatorAddress amountStroops interval =
     andthen (throw_unless (so_contractId so \<noteq> []) (bad_request ''Contract ID is not configured''))
     (bnd (check_new_subscription tipperId creatorAddress amountStroops) (\<lambda>(tipper, creator, amount).
       prepare_wallet_call so (u_address tipper) ''create_subscription''
         [ScAddress (u_address tipper), ScAddress creatorAddress, ScI128 (show_int amount), ScU32 (INTERVAL_DAYS interval)]))"

definition prepareCancelSubscription :: "soroban \<Rightarrow> string \<Rightarrow> string \<Rightarrow> prepared_tx dbio" where
  "prepareCancelSubscription so tipperId creatorAddress =
     andthen (throw_unless (so_contractId so \<noteq> []) (bad_request ''Contract ID is not configured''))
     (bnd (gets (user_by_id tipperId)) (\<lambda>found.
      bnd (require found (bad_request ''User not found'')) (\<lambda>tipper.
      bnd (loadOwnedActiveSubscription tipperId creatorAddress) (\<lambda>_.
       prepare_wallet_call so (u_address tipper) ''cancel_subscription''
         [ScAddress (u_address tipper), ScAddress creatorAddress]))))"

text \<open>Decoding and broadcasting a transaction the wallet has signed.\<close>

definition broadcast :: "soroban \<Rightarrow> string \<Rightarrow> string \<Rightarrow> unit dbio" where
  "broadcast so signedTxXdr failure =
     bnd (lift_res (so_fromXDR so signedTxXdr (getNetworkPassphrase so))) (\<lambda>tx.
     bnd (lift_res (or_throw (so_send so tx) (bad_request failure))) (\<lambda>sent.
       throw_unless (accepted_status (fst sent)) (bad_request ''Transaction rejected by the network'')))"

text \<open>
  The row a submission writes. Other requests and the indexer may run between its read and its
  write (\<open>mid\<close>).
\<close>

definition resubscribed :: "int \<Rightarrow> SubscriptionInterval \<Rightarrow> int \<Rightarrow> subscription_row \<Rightarrow> subscription_row" where
  "resubscribed amount interval next s =
     clear_dunning (s\<lparr>s_amount := amount, s_interval := interval, s_nextChargeAt := next, s_status := ACTIVE,
       s_deletedAt := None\<rparr>)"

definition submitCreateSubscription ::
  "soroban \<Rightarrow> runtime \<Rightarrow> (db \<Rightarrow> db) \<Rightarrow> string \<Rightarrow> string \<Rightarrow> string \<Rightarrow> SubscriptionInterval \<Rightarrow> string
   \<Rightarrow> (string \<times> SubscriptionStatus \<times> string) dbio" where
  "submitCreateSubscription so rt mid tipperId creatorAddress amountStroops interval signedTxXdr =
     bnd (check_new_subscription tipperId creatorAddress amountStroops) (\<lambda>(tipper, creator, amount).
     andthen (broadcast so signedTxXdr ''Failed to submit subscription transaction'')
     (let i = subscriptionId tipperId (u_id creator) in
      bnd (gets (live_subscription i)) (\<lambda>existing.
        if some_with (\<lambda>s. s_status s = ACTIVE \<and> s_deletedAt s = None) existing
        then (case existing of None \<Rightarrow> throw Undefined
                | Some s \<Rightarrow> ret (s_id s, s_status s, iso_string (s_nextChargeAt s)))
        else
          (let next = addDays (rt_now rt) (INTERVAL_DAYS interval) in
           andthen (modify mid)
           (andthen (upsert_subscription i (new_subscription rt tipperId (u_id creator) amount interval next)
               (resubscribed amount interval next))
             (ret (i, ACTIVE, iso_string next)))))))"

definition cancelled_subscription :: "subscription_row \<Rightarrow> subscription_row" where
  "cancelled_subscription s = s\<lparr>s_status := CANCELLED, s_pendingAmount := None, s_pendingInterval := None,
     s_changeEffectiveAt := None, s_nextRetryAt := None, s_attemptStartedAt := None\<rparr>"

definition submitCancelSubscription :: "soroban \<Rightarrow> string \<Rightarrow> string \<Rightarrow> string \<Rightarrow> (string \<times> SubscriptionStatus) dbio" where
  "submitCancelSubscription so tipperId creatorAddress signedTxXdr =
     bnd (loadOwnedActiveSubscription tipperId creatorAddress) (\<lambda>s.
     andthen (broadcast so signedTxXdr ''Failed to submit cancellation transaction'')
     (andthen (modify (\<lambda>d. d\<lparr>subscriptions := update_rows (\<lambda>r. s_id r = s_id s) cancelled_subscription (subscriptions d)\<rparr>))
       (ret (s_id s, CANCELLED))))"

section \<open>The keeper's charge\<close>

text \<open>
  The confirmation loop. \<open>ask k t\<close> is the \<open>k\<close>-th answer of \<open>getTransaction\<close>, asked at time \<open>t\<close>, with the time
  it came; \<open>wake k t\<close> is when a sleep that should end at \<open>t\<close> does. The loop has fuel; \<open>None\<close> is a run
  that has used it up.
\<close>

record chain_clock =
  cc_ask :: "nat \<Rightarrow> int \<Rightarrow> (jsval + string) \<times> int"
  cc_wake :: "nat \<Rightarrow> int \<Rightarrow> int"

definition timed_out :: "jsval + unit" where
  "timed_out = Inl (js_error ''Subscription charge confirmation timed out'')"

fun confirm_loop :: "nat \<Rightarrow> chain_clock \<Rightarrow> int \<Rightarrow> int \<Rightarrow> nat \<Rightarrow> int \<Rightarrow> ((jsval + unit) \<times> int) option" where
  "confirm_loop 0 cc deadline poll k t = None"
| "confirm_loop (Suc fuel) cc deadline poll k t =
     (if deadline - t \<le> 0 then Some (timed_out, t)
      else (case cc_ask cc k t of (response, t') \<Rightarrow>
        (case response of
           Inl e \<Rightarrow> Some (Inl e, t')
         | Inr status \<Rightarrow>
             if status = ''SUCCESS'' then Some (Inr (), t')
             else if status = ''FAILED''
             then Some (Inl (js_error ''Subscription charge transaction failed on-chain''), t')
             else if deadline - t' \<le> 0 then Some (timed_out, t')
             else confirm_loop fuel cc deadline poll (Suc k) (cc_wake cc k (t' + min poll (deadline - t'))))))"

definition confirmSubscriptionCharge :: "nat \<Rightarrow> chain_clock \<Rightarrow> int \<Rightarrow> int \<Rightarrow> int \<Rightarrow> ((jsval + unit) \<times> int) option" where
  "confirmSubscriptionCharge fuel cc timeoutMs pollIntervalMs start =
     confirm_loop fuel cc (start + timeoutMs) pollIntervalMs 0 start"

definition DEFAULT_CONFIRMATION_TIMEOUT_MS :: int where
  "DEFAULT_CONFIRMATION_TIMEOUT_MS = 60000"

definition DEFAULT_CONFIRMATION_POLL_INTERVAL_MS :: int where
  "DEFAULT_CONFIRMATION_POLL_INTERVAL_MS = 1000"

text \<open>What a charge sends to the node, up to the hash it must then confirm.\<close>

definition send_charge :: "soroban \<Rightarrow> string \<Rightarrow> string \<Rightarrow> string \<Rightarrow> jsval + string" where
  "send_charge so keeperSecret subscriber creator =
     (if so_contractId so = [] then Inl (js_error ''Contract ID is not configured'')
      else if keeperSecret = [] then Inl (js_error ''Subscription keeper secret key is not configured'')
      else (case so_publicKey so keeperSecret of Inl e \<Rightarrow> Inl e | Inr keeper \<Rightarrow>
        (case so_getAccount so keeper of Inl e \<Rightarrow> Inl e | Inr account \<Rightarrow>
        (case so_build so (wallet_call so (so_contractId so) account ''execute_due_subscription''
            [ScAddress subscriber, ScAddress creator]) of Inl e \<Rightarrow> Inl e | Inr tx \<Rightarrow>
        (case so_simulate so tx of Inl e \<Rightarrow> Inl e
          | Inr (Inl m) \<Rightarrow> Inl (js_error (''Simulation error: '' @ m))
          | Inr (Inr sim) \<Rightarrow>
        (case so_assemble so tx sim of Inl e \<Rightarrow> Inl e | Inr prepared \<Rightarrow>
        (case so_send so (so_sign so keeperSecret prepared) of Inl e \<Rightarrow> Inl e | Inr (status, hash) \<Rightarrow>
          if status = ''TRY_AGAIN_LATER''
          then Inl (js_error ''Subscription charge transaction submission is temporarily unavailable'')
          else if \<not> accepted_status status
          then Inl (js_error ''Subscription charge transaction rejected by the network'')
          else Inr hash)))))))"

definition chargeSubscriptionOnChain ::
  "nat \<Rightarrow> soroban \<Rightarrow> string \<Rightarrow> (string \<Rightarrow> chain_clock) \<Rightarrow> int \<Rightarrow> int \<Rightarrow> int \<Rightarrow> string \<Rightarrow> string \<Rightarrow> (jsval + unit) option" where
  "chargeSubscriptionOnChain fuel so keeperSecret cc timeoutMs pollIntervalMs start subscriber creator =
     (case send_charge so keeperSecret subscriber creator of
        Inl e \<Rightarrow> Some (Inl e)
      | Inr hash \<Rightarrow> map_option fst (confirmSubscriptionCharge fuel (cc hash) timeoutMs pollIntervalMs start))"

section \<open>Confirmation\<close>

lemma confirm_success:
  "confirm_loop fuel cc deadline poll k t = Some (Inr (), t') \<Longrightarrow>
    \<exists>j s. k \<le> j \<and> s < deadline \<and> cc_ask cc j s = (Inr ''SUCCESS'', t')"
proof (induction fuel arbitrary: k t)
  case (Suc fuel)
  obtain response u where ask: "cc_ask cc k t = (response, u)" by (cases "cc_ask cc k t")
  show ?case
  proof (cases "deadline - t \<le> 0")
    case True
    then show ?thesis using Suc.prems by (simp add: timed_out_def)
  next
    case open_: False
    show ?thesis
    proof (cases response)
      case (Inl e)
      then show ?thesis using Suc.prems ask open_ by simp
    next
      case (Inr status)
      consider "status = ''SUCCESS''" | "status \<noteq> ''SUCCESS''" "status \<noteq> ''FAILED''" "0 < deadline - u"
        using Suc.prems ask open_ Inr by (auto simp: timed_out_def split: if_splits)
      then show ?thesis
      proof cases
        case 1
        then show ?thesis using Suc.prems ask open_ Inr by (intro exI [of _ k] exI [of _ t]) simp
      next
        case 2
        then have "confirm_loop fuel cc deadline poll (Suc k) (cc_wake cc k (u + min poll (deadline - u))) = Some (Inr (), t')"
          using Suc.prems ask open_ Inr by simp
        from Suc.IH [OF this] show ?thesis by (meson Suc_leD)
      qed
    qed
  qed
qed simp

lemma confirm_ends:
  assumes ask: "\<And>k t. t \<le> snd (cc_ask cc k t)" and wake: "\<And>k t. t \<le> cc_wake cc k t" and poll: "1 \<le> poll"
  shows "(if deadline \<le> t then 1 else 2 + nat ((deadline - t) div poll)) \<le> fuel \<Longrightarrow>
    \<exists>r. confirm_loop fuel cc deadline poll k t = Some r"
proof (induction fuel arbitrary: k t)
  case (Suc fuel)
  obtain response u where u: "cc_ask cc k t = (response, u)" by (cases "cc_ask cc k t")
  then have tu: "t \<le> u" using ask [of t k] by simp
  let ?w = "cc_wake cc k (u + min poll (deadline - u))"
  show ?case
  proof (cases "deadline \<le> t")
    case False
    have more: "\<exists>r. confirm_loop fuel cc deadline poll (Suc k) ?w = Some r" if "u < deadline"
    proof (rule Suc.IH)
      have w: "u + min poll (deadline - u) \<le> ?w" by (rule wake)
      have one: "1 \<le> fuel" using Suc.prems False by simp
      show "(if deadline \<le> ?w then 1 else 2 + nat ((deadline - ?w) div poll)) \<le> fuel"
      proof (cases "deadline \<le> ?w")
        case True
        with one show ?thesis by simp
      next
        case late: False
        with w have "deadline - ?w \<le> deadline - t - poll" using tu by linarith
        then have "(deadline - ?w) div poll \<le> (deadline - t - poll) div poll"
          using poll by (intro zdiv_mono1) simp_all
        also have "\<dots> = (deadline - t) div poll - 1"
          using poll div_add_self2 [of poll "deadline - t - poll"] by simp
        finally have le: "(deadline - ?w) div poll \<le> (deadline - t) div poll - 1" .
        moreover have "0 \<le> (deadline - ?w) div poll"
          using late poll by (intro pos_imp_zdiv_nonneg_iff [THEN iffD2]) simp_all
        ultimately have "Suc (nat ((deadline - ?w) div poll)) \<le> nat ((deadline - t) div poll)" by linarith
        with Suc.prems False late show ?thesis by simp
      qed
    qed
    then show ?thesis using u False by (cases response) simp_all
  qed simp
qed (simp split: if_splits)


definition slow_chain :: chain_clock where
  "slow_chain = \<lparr>cc_ask = (\<lambda>k t. (Inr (if k < 2 then ''NOT_FOUND'' else ''SUCCESS''), t + 250)), cc_wake = (\<lambda>k t. t + 5)\<rparr>"


section \<open>Submission\<close>

lemma check_new_run:
  assumes "user_by_id tipperId d = Some tipper" and "user_by_address creatorAddress d = Some creator"
    and "u_id creator \<noteq> tipperId" and "big_int amountStroops = Inr amount" and "0 < amount"
  shows "check_new_subscription tipperId creatorAddress amountStroops d = (Inr (tipper, creator, amount), d)"
  using assms by (simp add: check_new_subscription_def loadCreatorByAddress_def)

lemma check_new_state: "snd (check_new_subscription tipperId creatorAddress amountStroops d) = d"
  by (simp add: check_new_subscription_def loadCreatorByAddress_def split: option.split sum.split)

lemma broadcast_state: "snd (broadcast so xdr failure d) = d"
  by (simp add: broadcast_def split: sum.split)

lemma broadcast_run:
  assumes "so_fromXDR so xdr (getNetworkPassphrase so) = Inr tx" and "so_send so tx = Inr (status, hash)" and "accepted_status status"
  shows "broadcast so xdr failure d = (Inr (), d)"
  using assms by (simp add: broadcast_def or_throw_def)

lemma owned_state: "snd (loadOwnedActiveSubscription tipperId creatorAddress d) = d"
  by (simp add: loadOwnedActiveSubscription_def loadCreatorByAddress_def split: option.split)

lemma find_row_upsert:
  assumes "\<And>r. key r = k \<Longrightarrow> p (f r)" and "p new" and "\<And>r. p r \<Longrightarrow> key r = k" and "\<And>r. key r = k \<Longrightarrow> key (f r) = k"
  shows "\<exists>r. find_row p (upsert_row key k new f xs) = Some r \<and> (r = new \<or> (\<exists>q \<in> set xs. key q = k \<and> r = f q))"
proof (cases "exists_row (\<lambda>r. key r = k) xs")
  case True
  then have "\<exists>r. find_row p (update_rows (\<lambda>r. key r = k) f xs) = Some r \<and> (\<exists>q \<in> set xs. key q = k \<and> r = f q)"
    using assms by (induction xs) (auto simp: exists_row_iff)
  with True show ?thesis by (auto simp: upsert_row_def)
next
  case False
  then have "find_row p xs = None" using assms(3) by (auto simp: find_row_None exists_row_iff)
  with False assms(2) show ?thesis by (simp add: upsert_row_def find_row_append)
qed

definition on_terms :: "int \<Rightarrow> SubscriptionInterval \<Rightarrow> int \<Rightarrow> subscription_row \<Rightarrow> bool" where
  "on_terms amount interval next s \<longleftrightarrow> s_amount s = amount \<and> s_interval s = interval \<and> s_nextChargeAt s = next \<and>
     s_status s = ACTIVE \<and> s_failureCount s = 0 \<and> s_pendingAmount s = None \<and> s_attemptStartedAt s = None"

lemma submit_run:
  assumes "user_by_id tipperId d = Some tipper" and "user_by_address creatorAddress d = Some creator"
    and "u_id creator \<noteq> tipperId" and "big_int amountStroops = Inr amount" and "0 < amount"
    and "so_fromXDR so xdr (getNetworkPassphrase so) = Inr tx" and "so_send so tx = Inr (status, hash)" and "accepted_status status"
    and "i = subscriptionId tipperId (u_id creator)" and "next = addDays (rt_now rt) (INTERVAL_DAYS interval)"
  shows "submitCreateSubscription so rt mid tipperId creatorAddress amountStroops interval xdr d =
    (case live_subscription i d of
       Some s \<Rightarrow> if s_status s = ACTIVE \<and> s_deletedAt s = None then (Inr (s_id s, s_status s, iso_string (s_nextChargeAt s)), d)
         else (Inr (i, ACTIVE, iso_string next), snd (upsert_subscription i (new_subscription rt tipperId (u_id creator) amount interval next)
           (resubscribed amount interval next) (mid d)))
     | None \<Rightarrow> (Inr (i, ACTIVE, iso_string next), snd (upsert_subscription i (new_subscription rt tipperId (u_id creator) amount interval next)
           (resubscribed amount interval next) (mid d))))"
proof -
  note checked = bnd_Inr [where m = "check_new_subscription tipperId creatorAddress amountStroops" and s = d,
      OF check_new_run [OF assms(1-5)]]
  note sent = bnd_Inr [where m = "broadcast so xdr failure" and s = d for failure, OF broadcast_run [OF assms(6-8)]]
  show ?thesis
    using assms(9,10)
    by (simp add: submitCreateSubscription_def checked sent upsert_subscription_def Let_def split: option.split)
qed

text \<open>
  A submission the network accepts leaves an active subscription as it is. Otherwise it ends with the
  subscription active on the terms of the request, whatever the submitted transaction is, and also
  over the terms another request or the indexer has stored since the row was read.
\<close>

theorem submit_create_effect:
  assumes "user_by_id tipperId d = Some tipper" and "user_by_address creatorAddress d = Some creator"
    and "u_id creator \<noteq> tipperId" and "big_int amountStroops = Inr amount" and "0 < amount"
    and "so_fromXDR so xdr (getNetworkPassphrase so) = Inr tx" and "so_send so tx = Inr (status, hash)" and "accepted_status status"
    and "i = subscriptionId tipperId (u_id creator)" and "next = addDays (rt_now rt) (INTERVAL_DAYS interval)"
  shows "if some_with (\<lambda>s. s_status s = ACTIVE) (live_subscription i d)
    then snd (submitCreateSubscription so rt mid tipperId creatorAddress amountStroops interval xdr d) = d
    else some_with (on_terms amount interval next)
      (live_subscription i (snd (submitCreateSubscription so rt mid tipperId creatorAddress amountStroops interval xdr d)))"
proof -
  let ?e = "(mid d)\<lparr>subscriptions := upsert_row s_id i (new_subscription rt tipperId (u_id creator) amount interval next)
    (resubscribed amount interval next) (subscriptions (mid d))\<rparr>"
  have "\<exists>r. live_subscription i ?e = Some r \<and> (r = new_subscription rt tipperId (u_id creator) amount interval next \<or>
      (\<exists>q \<in> set (subscriptions (mid d)). s_id q = i \<and> r = resubscribed amount interval next q))"
  proof -
    have table: "subscriptions ?e = upsert_row s_id i (new_subscription rt tipperId (u_id creator) amount interval next)
        (resubscribed amount interval next) (subscriptions (mid d))" by simp
    show ?thesis unfolding live_subscription_def table
      by (rule find_row_upsert) (simp_all add: resubscribed_def clear_dunning_def new_subscription_def assms(9))
  qed
  then have terms: "some_with (on_terms amount interval next) (live_subscription i ?e)"
    by (auto simp: some_with_iff on_terms_def new_subscription_def resubscribed_def clear_dunning_def)
  have live: "s_deletedAt s = None" if "live_subscription i d = Some s" for s
    using that by (auto simp: live_subscription_def dest: find_row_Some)
  show ?thesis
    using terms live
    by (auto simp: submit_run [OF assms] upsert_subscription_def split: option.split)
qed

text \<open>A submission or a cancellation that fails changes nothing.\<close>

theorem failed_submission_changes_nothing:
  "(isl (fst (submitCreateSubscription so rt mid tipperId creatorAddress amountStroops interval xdr d)) \<longrightarrow>
      snd (submitCreateSubscription so rt mid tipperId creatorAddress amountStroops interval xdr d) = d) \<and>
    (isl (fst (submitCancelSubscription so tipperId creatorAddress xdr d)) \<longrightarrow>
      snd (submitCancelSubscription so tipperId creatorAddress xdr d) = d)"
proof -
  obtain r where c: "check_new_subscription tipperId creatorAddress amountStroops d = (r, d)"
    using check_new_state [of tipperId creatorAddress amountStroops d] by (metis prod.collapse)
  obtain q where o: "loadOwnedActiveSubscription tipperId creatorAddress d = (q, d)"
    using owned_state [of tipperId creatorAddress d] by (metis prod.collapse)
  obtain b where b: "broadcast so xdr ''Failed to submit subscription transaction'' d = (b, d)"
    using broadcast_state [of so xdr _ d] by (metis prod.collapse)
  obtain b' where b': "broadcast so xdr ''Failed to submit cancellation transaction'' d = (b', d)"
    using broadcast_state [of so xdr _ d] by (metis prod.collapse)
  show ?thesis
    by (cases r; cases q; cases b; cases b')
      (auto simp: submitCreateSubscription_def submitCancelSubscription_def c o b b' bnd_def andthen_def Let_def
        upsert_subscription_def split: option.splits if_splits)
qed

section \<open>Examples\<close>

definition sample_soroban :: "string \<Rightarrow> soroban" where
  "sample_soroban status = \<lparr>so_contractId = ''C1'', so_network = ''TESTNET'', so_networks = (\<lambda>_. Some ''test net''),
     so_networkPassphrase = [], so_getAccount = Inr, so_build = (\<lambda>tx. Inr (tx_function tx)),
     so_simulate = (\<lambda>tx. Inr (Inr ''sim'')), so_assemble = (\<lambda>tx sim. Inr (tx @ sim)), so_fromXDR = (\<lambda>xdr p. Inr xdr),
     so_send = (\<lambda>tx. Inr (status, ''hash'')), so_publicKey = Inr, so_sign = (\<lambda>k tx. tx)\<rparr>"

definition sample_user :: "string \<Rightarrow> string \<Rightarrow> user_row" where
  "sample_user i address = \<lparr>u_id = i, u_address = address, u_username = None, u_role = ''user'', u_scopes = [],
     u_createdAt = 0, u_deletedAt = None, u_deactivatedAt = None, u_blockedAt = None, u_flagged = False,
     u_displayName = None, u_bio = None, u_imageUrl = None, u_avatarCid = None, u_xHandle = None\<rparr>"

definition sample_runtime :: "int \<Rightarrow> runtime" where
  "sample_runtime now = \<lparr>rt_now = now, rt_cuid = (\<lambda>n. replicate n CHR ''c''), rt_broker = True\<rparr>"

definition two_users :: db where
  "two_users = empty_db\<lparr>users := [sample_user ''t'' ''GT'', sample_user ''c'' ''GC'']\<rparr>"

lemmas sample_defs = sample_soroban_def sample_user_def sample_runtime_def two_users_def empty_db_def

theorem submit_create_effect_witness:
  "some_with (on_terms 500 WEEKLY (addDays 1000 7))
     (live_subscription (subscriptionId ''t'' ''c'')
       (snd (submitCreateSubscription (sample_soroban ''PENDING'') (sample_runtime 1000) id ''t'' ''GC'' ''500'' WEEKLY ''xdr'' two_users)))"
proof -
  have "if some_with (\<lambda>s. s_status s = ACTIVE) (live_subscription (subscriptionId ''t'' ''c'') two_users)
    then snd (submitCreateSubscription (sample_soroban ''PENDING'') (sample_runtime 1000) id ''t'' ''GC'' ''500'' WEEKLY ''xdr'' two_users) = two_users
    else some_with (on_terms 500 WEEKLY (addDays 1000 7))
      (live_subscription (subscriptionId ''t'' ''c'')
        (snd (submitCreateSubscription (sample_soroban ''PENDING'') (sample_runtime 1000) id ''t'' ''GC'' ''500'' WEEKLY ''xdr'' two_users)))"
  proof (rule submit_create_effect [where tipper = "sample_user ''t'' ''GT''" and creator = "sample_user ''c'' ''GC''"
      and status = "''PENDING''" and hash = "''hash''" and tx = "''xdr''"])
    show "big_int ''500'' = Inr 500" by code_simp
  qed (simp_all add: sample_defs user_by_id_def user_by_address_def live_user_def accepted_status_def INTERVAL_DAYS_def)
  then show ?thesis by (simp add: live_subscription_def sample_defs)
qed

theorem failed_submission_changes_nothing_witness:
  "snd (submitCreateSubscription (sample_soroban ''ERROR'') (sample_runtime 0) id ''x'' ''GC'' ''500'' WEEKLY ''xdr'' two_users) = two_users"
proof -
  have "isl (fst (submitCreateSubscription (sample_soroban ''ERROR'') (sample_runtime 0) id ''x'' ''GC'' ''500'' WEEKLY ''xdr'' two_users))"
    by (simp add: submitCreateSubscription_def check_new_subscription_def sample_defs user_by_id_def live_user_def bnd_def)
  then show ?thesis using failed_submission_changes_nothing by blast
qed

end
