(* ===== verification/Dunning.thy ===== *)
theory Dunning
  imports Subscriptions
begin

text \<open>
  The subscription charge job (\<open>backend/src/jobs/subscriptionCharge.worker.ts\<close>) and the
  classification of its failures (\<open>jobs/subscriptionCharge.failure.ts\<close>): due subscriptions are
  claimed, charged once, and moved through dunning (retries 1, 3 and 7 days after the first
  failure) to FAILED. The charge is an effect on the store, so that whatever runs while the chain
  confirms it, the indexer among others, is part of it.
\<close>

section \<open>Failures\<close>

record charge_failure =
  cf_code :: string
  cf_reason :: string
  cf_retryable :: bool
  cf_contractCode :: "int option"

definition CONTRACT_FAILURES :: "(int \<times> string \<times> string \<times> bool) list" where
  "CONTRACT_FAILURES =
     [(3, ''AUTHORIZATION_REVOKED'', ''The subscription authorization is no longer valid.'', False),
      (7, ''CONTRACT_PAUSED'', ''Subscription charges are temporarily paused.'', True),
      (13, ''INVALID_AMOUNT'', ''The subscription charge amount is invalid.'', False),
      (14, ''INSUFFICIENT_BALANCE'', ''There is not enough balance for this subscription charge.'', True),
      (17, ''SUBSCRIPTION_NOT_FOUND'', ''The subscription authorization no longer exists.'', False),
      (18, ''PROFILE_DEACTIVATED'', ''The creator profile is deactivated.'', False),
      (24, ''INVALID_SUBSCRIPTION_PARTIES'', ''The subscription parties are invalid.'', False),
      (27, ''RATE_LIMITED'', ''The subscription charge was temporarily rate limited.'', True),
      (28, ''BELOW_MINIMUM'', ''The subscription amount is below the allowed minimum.'', False),
      (29, ''BELOW_CREATOR_MINIMUM'', ''The subscription amount is below the creator minimum.'', False),
      (31, ''INVALID_SUBSCRIPTION'', ''The subscription configuration is invalid.'', False),
      (32, ''TOKEN_NOT_ACCEPTED'', ''The subscription token is not accepted.'', False)]"

text \<open>The pattern \<open>/Error\(Contract,\s*#?(\d+)\)/i\<close> at the start of a text, and its first match in one.\<close>

definition contract_code_here :: "string \<Rightarrow> int option" where
  "contract_code_here s =
     (if \<not> starts_with (to_lower s) ''error(contract,'' then None
      else let r = dropWhile is_space (drop 15 s);
               t = (case r of c # cs \<Rightarrow> if c = CHR ''#'' then cs else r | [] \<Rightarrow> r);
               ds = takeWhile is_digit t
           in if ds \<noteq> [] \<and> starts_with (drop (length ds) t) '')'' then Some (int (parse_nat ds)) else None)"

fun find_contract_code :: "string \<Rightarrow> int option" where
  "find_contract_code [] = None"
| "find_contract_code (c # cs) =
     (case contract_code_here (c # cs) of Some n \<Rightarrow> Some n | None \<Rightarrow> find_contract_code cs)"

definition extractNumericCode :: "jsval \<Rightarrow> int option" where
  "extractNumericCode v = (case v of
       JNum n \<Rightarrow> if is_integer n then Some (j_to_int n) else None
     | JStr s \<Rightarrow> if s \<noteq> [] \<and> all_digits s then Some (int (parse_nat s)) else None
     | _ \<Rightarrow> None)"

definition explicitly_contract :: "jsval \<Rightarrow> bool" where
  "explicitly_contract v \<longleftrightarrow> JStr ''contract'' \<in>
     {get_prop v ''type'', get_prop v ''kind'', get_prop v ''errorType'', get_prop v ''category''}"

fun first_some :: "('a \<Rightarrow> 'b option) \<Rightarrow> 'a list \<Rightarrow> 'b option" where
  "first_some f [] = None"
| "first_some f (x # xs) = (case f x of Some y \<Rightarrow> Some y | None \<Rightarrow> first_some f xs)"

text \<open>Depths 0 to 3 are visited; \<open>left\<close> counts the levels that remain.\<close>

fun visit :: "nat \<Rightarrow> jsval \<Rightarrow> int option" where
  "visit 0 v = None"
| "visit (Suc left) v =
     (case v of
        JStr s \<Rightarrow> find_contract_code s
      | JObj _ _ \<Rightarrow>
          (case (if explicitly_contract v then extractNumericCode (coalesce (get_prop v ''code'') (get_prop v ''errorCode''))
                 else None) of
             Some n \<Rightarrow> Some n
           | None \<Rightarrow> first_some (\<lambda>k. visit left (get_prop v k)) [''message'', ''details'', ''error'', ''cause'', ''response''])
      | _ \<Rightarrow> None)"

definition extractContractErrorCode :: "jsval \<Rightarrow> int option" where
  "extractContractErrorCode e = visit 4 e"

definition is_string :: "jsval \<Rightarrow> bool" where
  "is_string v = (case v of JStr _ \<Rightarrow> True | _ \<Rightarrow> False)"

definition errorText :: "jsval \<Rightarrow> string" where
  "errorText e =
     (if is_error e then error_name e @ '' '' @ error_message e
      else (case e of
          JStr s \<Rightarrow> s
        | JObj _ _ \<Rightarrow> join '' '' (map str_of (filter is_string [get_prop e ''code'', get_prop e ''message'']))
        | _ \<Rightarrow> []))"

definition network_text :: "string \<Rightarrow> bool" where
  "network_text t = (let s = to_lower t in
     list_ex (starts_with s) [''econn'', ''ehost'', ''enet'', ''epipe'', ''eai_'', ''etimedout'', ''und_err_''] \<or>
     list_ex (str_includes_word False s)
       [''network'', ''rpc'', ''transport'', ''timeout'', ''timed out'', ''connection'', ''socket''])"

definition classifySubscriptionChargeFailure :: "jsval \<Rightarrow> charge_failure" where
  "classifySubscriptionChargeFailure e =
     (case extractContractErrorCode e of
        Some n \<Rightarrow> (case map_of CONTRACT_FAILURES n of
            Some (c, r, retryable) \<Rightarrow> \<lparr>cf_code = c, cf_reason = r, cf_retryable = retryable, cf_contractCode = Some n\<rparr>
          | None \<Rightarrow> \<lparr>cf_code = ''UNKNOWN_CONTRACT_ERROR'', cf_reason = ''The subscription charge could not be completed.'',
              cf_retryable = True, cf_contractCode = Some n\<rparr>)
      | None \<Rightarrow>
          if network_text (errorText e)
          then \<lparr>cf_code = ''NETWORK_ERROR'', cf_reason = ''A temporary network error prevented the subscription charge.'',
              cf_retryable = True, cf_contractCode = None\<rparr>
          else \<lparr>cf_code = ''TEMPORARY_CHARGE_ERROR'',
              cf_reason = ''The subscription charge could not be completed and will be retried.'',
              cf_retryable = True, cf_contractCode = None\<rparr>)"

section \<open>The job\<close>

definition DUNNING_RETRY_DAYS :: "int list" where
  "DUNNING_RETRY_DAYS = [1, 3, 7]"

definition CHARGE_CLAIM_TTL_MS :: int where
  "CHARGE_CLAIM_TTL_MS = 15 * 60 * 1000"

text \<open>An array read: undefined out of range, and at the index -1.\<close>

definition nth_or_none :: "'a list \<Rightarrow> int \<Rightarrow> 'a option" where
  "nth_or_none xs i = (if 0 \<le> i \<and> nat i < length xs then Some (xs ! nat i) else None)"

definition getNextDunningRetryAt :: "int \<Rightarrow> int \<Rightarrow> int option" where
  "getNextDunningRetryAt startedAt failureCount =
     map_option (\<lambda>days. startedAt + days * DAY_MS) (nth_or_none DUNNING_RETRY_DAYS (failureCount - 1))"

definition failure_payload :: "subscription_row \<Rightarrow> charge_failure \<Rightarrow> int \<Rightarrow> int option \<Rightarrow> bool \<Rightarrow> jsval" where
  "failure_payload sub failure failureCount nextRetryAt terminal = JObj PlainObject
     [(''subscriptionId'', JStr (s_id sub)), (''reason'', JStr (cf_reason failure)), (''failureCode'', JStr (cf_code failure)),
      (''failureCount'', JNum (j_int failureCount)),
      (''nextRetryAt'', case nextRetryAt of None \<Rightarrow> Null | Some t \<Rightarrow> JStr (iso_string t)), (''terminal'', JBool terminal)]"

definition quietly :: "'a dbio \<Rightarrow> unit dbio" where
  "quietly m = try_catch (bnd m (\<lambda>_. ret ())) (\<lambda>_. ret ())"

definition notifyFailure ::
  "runtime \<Rightarrow> subscription_row \<Rightarrow> charge_failure \<Rightarrow> int \<Rightarrow> int option \<Rightarrow> bool \<Rightarrow> unit dbio" where
  "notifyFailure rt sub failure failureCount nextRetryAt terminal =
     (let payload = failure_payload sub failure failureCount nextRetryAt terminal in
      andthen (quietly (createSystemNotification rt (s_tipperId sub) ''subscription_charge_failed'' payload))
        (if terminal then quietly (createSystemNotification rt (s_creatorId sub) ''subscription_failed'' payload)
         else ret ()))"

definition claims :: "subscription_row \<Rightarrow> subscription_row \<Rightarrow> bool" where
  "claims sub r \<longleftrightarrow> s_id r = s_id sub \<and> s_status r = s_status sub \<and> s_failureCount r = s_failureCount sub \<and>
     s_attemptStartedAt r = s_attemptStartedAt sub \<and>
     (if s_status sub = ACTIVE then s_nextChargeAt r = s_nextChargeAt sub else s_nextRetryAt r = s_nextRetryAt sub)"

text \<open>\<open>updateMany\<close> and its count.\<close>

definition update_subscriptions :: "(subscription_row \<Rightarrow> bool) \<Rightarrow> (subscription_row \<Rightarrow> subscription_row) \<Rightarrow> nat dbio" where
  "update_subscriptions p f =
     bnd (gets (\<lambda>d. count_rows p (subscriptions d))) (\<lambda>n.
     andthen (modify (\<lambda>d. d\<lparr>subscriptions := update_rows p f (subscriptions d)\<rparr>)) (ret n))"

definition claimSubscription :: "subscription_row \<Rightarrow> int \<Rightarrow> bool dbio" where
  "claimSubscription sub now =
     bnd (update_subscriptions (claims sub) (\<lambda>s. s\<lparr>s_attemptStartedAt := Some now\<rparr>)) (\<lambda>n. ret (n = 1))"

record failure_outcome =
  fo_persisted :: bool
  fo_failureCount :: int
  fo_nextRetryAt :: "int option"
  fo_terminal :: bool

definition next_outcome :: "subscription_row \<Rightarrow> int \<Rightarrow> charge_failure \<Rightarrow> int \<times> int \<times> int option \<times> bool" where
  "next_outcome sub now failure =
     (let failureCount = s_failureCount sub + 1;
          startedAt = (case s_dunningStartedAt sub of Some t \<Rightarrow> t | None \<Rightarrow> now);
          nextRetryAt = (if cf_retryable failure then getNextDunningRetryAt startedAt failureCount else None)
      in (failureCount, startedAt, nextRetryAt, \<not> cf_retryable failure \<or> nextRetryAt = None))"

definition failed_subscription :: "int \<times> int \<times> int option \<times> bool \<Rightarrow> string \<Rightarrow> subscription_row \<Rightarrow> subscription_row" where
  "failed_subscription out reason s = (case out of (failureCount, startedAt, nextRetryAt, terminal) \<Rightarrow>
     s\<lparr>s_status := (if terminal then FAILED else PAST_DUE), s_failureCount := failureCount, s_dunningStartedAt := Some startedAt,
       s_nextRetryAt := nextRetryAt, s_failureReason := Some reason, s_attemptStartedAt := None\<rparr>)"

definition persistFailure :: "subscription_row \<Rightarrow> int \<Rightarrow> charge_failure \<Rightarrow> failure_outcome dbio" where
  "persistFailure sub now failure =
     (let out = next_outcome sub now failure in
      bnd (update_subscriptions
          (\<lambda>s. s_id s = s_id sub \<and> s_status s = s_status sub \<and> s_attemptStartedAt s = Some now)
          (failed_subscription out (cf_reason failure))) (\<lambda>n.
        ret \<lparr>fo_persisted = (n = 1), fo_failureCount = fst out, fo_nextRetryAt = fst (snd (snd out)),
          fo_terminal = snd (snd (snd out))\<rparr>))"

definition is_due :: "int \<Rightarrow> subscription_row \<Rightarrow> bool" where
  "is_due now s \<longleftrightarrow> s_deletedAt s = None \<and>
     ((s_status s = ACTIVE \<and> s_nextChargeAt s \<le> now) \<or> (s_status s = PAST_DUE \<and> some_with (\<lambda>t. t \<le> now) (s_nextRetryAt s))) \<and>
     (s_attemptStartedAt s = None \<or> some_with (\<lambda>t. t \<le> now - CHARGE_CLAIM_TTL_MS) (s_attemptStartedAt s))"

text \<open>One due subscription: whether it was processed and whether it failed.\<close>

definition charge_failed :: "runtime \<Rightarrow> subscription_row \<Rightarrow> jsval \<Rightarrow> (nat \<times> nat) dbio" where
  "charge_failed rt sub e =
     (let failure = classifySubscriptionChargeFailure e in
      bnd (persistFailure sub (rt_now rt) failure) (\<lambda>out.
        andthen (if fo_persisted out
                 then notifyFailure rt sub failure (fo_failureCount out) (fo_nextRetryAt out) (fo_terminal out)
                 else ret ())
          (ret (0, 1))))"

definition process_one ::
  "(string \<Rightarrow> string \<Rightarrow> unit dbio) \<Rightarrow> runtime \<Rightarrow> string \<Rightarrow> string \<Rightarrow> subscription_row \<Rightarrow> (nat \<times> nat) dbio" where
  "process_one charge rt tipperAddress creatorAddress sub =
     bnd (claimSubscription sub (rt_now rt)) (\<lambda>claimed.
       if \<not> claimed then ret (0, 0)
       else try_catch (andthen (charge tipperAddress creatorAddress) (ret (1, 0))) (charge_failed rt sub))"

fun process_all ::
  "(string \<Rightarrow> string \<Rightarrow> unit dbio) \<Rightarrow> runtime \<Rightarrow> (string \<times> string \<times> subscription_row) list \<Rightarrow> nat \<times> nat \<Rightarrow> (nat \<times> nat) dbio" where
  "process_all charge rt [] acc = ret acc"
| "process_all charge rt ((tipperAddress, creatorAddress, sub) # due) acc =
     bnd (process_one charge rt tipperAddress creatorAddress sub) (\<lambda>(p, f).
       process_all charge rt due (fst acc + p, snd acc + f))"

definition due_subscriptions :: "int \<Rightarrow> db \<Rightarrow> (string \<times> string \<times> subscription_row) list" where
  "due_subscriptions now d =
     map (\<lambda>s. (address_of (s_tipperId s) d, address_of (s_creatorId s) d, s)) (filter (is_due now) (subscriptions d))"

definition processDueSubscriptions :: "(string \<Rightarrow> string \<Rightarrow> unit dbio) \<Rightarrow> runtime \<Rightarrow> (nat \<times> nat) dbio" where
  "processDueSubscriptions charge rt =
     bnd (gets (due_subscriptions (rt_now rt))) (\<lambda>due. process_all charge rt due (0, 0))"

section \<open>Invariants of subscription rows\<close>

text \<open>
  A property of rows that every write keeps: the writes are those of a new agreement, a confirmed
  period, a pending change and a cancellation, by the indexer or by the service.
\<close>

definition all_rows :: "(subscription_row \<Rightarrow> bool) \<Rightarrow> db \<Rightarrow> bool" where
  "all_rows P d \<longleftrightarrow> (\<forall>s \<in> set (subscriptions d). P s)"

definition renewed :: "int \<Rightarrow> SubscriptionInterval \<Rightarrow> int \<Rightarrow> int option \<Rightarrow> subscription_row \<Rightarrow> subscription_row" where
  "renewed amount interval next deleted s = clear_dunning (s\<lparr>s_amount := amount, s_interval := interval, s_nextChargeAt := next,
     s_status := ACTIVE, s_deletedAt := deleted\<rparr>)"

lemma renewed_same:
  "clear_dunning (s\<lparr>s_amount := a, s_interval := i, s_status := ACTIVE, s_nextChargeAt := n\<rparr>) = renewed a i n (s_deletedAt s) s"
  "clear_dunning (s\<lparr>s_amount := a, s_status := ACTIVE, s_interval := i, s_nextChargeAt := n\<rparr>) = renewed a i n (s_deletedAt s) s"
  "resubscribed a i n s = renewed a i n None s"
  by (cases s; simp add: renewed_def resubscribed_def clear_dunning_def)+

locale row_invariant =
  fixes P :: "subscription_row \<Rightarrow> bool"
  assumes fresh: "P (new_subscription rt tipperId creatorId amount interval next)"
    and renew: "P s \<Longrightarrow> P (renewed amount interval next deleted s)"
    and pending: "P s \<Longrightarrow> s_status s = ACTIVE \<Longrightarrow>
      P (s\<lparr>s_pendingAmount := Some amount, s_pendingInterval := Some interval, s_changeEffectiveAt := Some t\<rparr>)"
    and cancel: "P s \<Longrightarrow> P (cancelled_subscription s)"
begin

lemma same_subscriptions: "(\<And>d. subscriptions (snd (m d)) = subscriptions d) \<Longrightarrow> keeps (all_rows P) m"
  by (simp add: keeps_def all_rows_def)

lemma kept_fresh: "keeps (all_rows P) (fresh_id rt)"
  and kept_ensure: "keeps (all_rows P) (ensureUserId rt a)"
  and kept_warn: "keeps (all_rows P) warnUnparseable"
  and kept_emit: "keeps (all_rows P) (emitNotificationCreated n)"
  and kept_notify: "keeps (all_rows P) (notify_quietly rt u ty p)"
  and kept_goal: "keeps (all_rows P) (upsert_goal i newg g)"
  by (rule same_subscriptions, simp add: ensureUserId_def warnUnparseable_def emitNotificationCreated_def upsert_goal_def)+

lemma kept_tables:
  assumes "\<And>d. same_tables d (snd (m d))"
  shows "keeps (all_rows P) m"
  using assms by (intro same_subscriptions) (simp add: same_tables_def)

lemma kept_persist: "keeps (all_rows P) (persistNotification rt u ty p)"
  by (rule kept_tables) (metis persist_frame surjective_pairing)

lemma kept_publish: "keeps (all_rows P) (publishProjection rt ev)"
  by (rule kept_tables) (simp add: publishProjection_def same_tables_def split: option.splits)

lemma kept_upsert:
  assumes "P new" and "\<And>s. P s \<Longrightarrow> P (f s)"
  shows "keeps (all_rows P) (upsert_subscription i new f)"
  using assms by (auto simp: keeps_def upsert_subscription_def all_rows_def upsert_row_def set_update_rows)

lemma kept_update:
  assumes "\<And>s. P s \<Longrightarrow> p s \<Longrightarrow> P (f s)"
  shows "keeps (all_rows P) (modify (\<lambda>d. d\<lparr>subscriptions := update_rows p f (subscriptions d)\<rparr>))"
  using assms by (auto simp: keeps_def all_rows_def set_update_rows)

lemma kept_other: "(\<And>d. subscriptions (f d) = subscriptions d) \<Longrightarrow> keeps (all_rows P) (modify f)"
  by (rule same_subscriptions) simp

lemmas kept = kept_fresh kept_ensure kept_warn kept_emit kept_notify kept_goal kept_persist kept_publish

lemma kept_period:
  "P (new_subscription rt t c a i n)"
  "P s \<Longrightarrow> P (clear_dunning (s\<lparr>s_amount := a, s_interval := i, s_status := ACTIVE, s_nextChargeAt := n\<rparr>))"
  "P s \<Longrightarrow> P (clear_dunning (s\<lparr>s_amount := a, s_status := ACTIVE, s_interval := i, s_nextChargeAt := n\<rparr>))"
  using fresh renew by (simp_all add: renewed_same)

lemma kept_handler: "keeps (all_rows P) (run_handler h rt ev b)"
proof (cases h)
  case SubCreated
  show ?thesis unfolding SubCreated run_handler.simps projectSubscriptionCreated_def Let_def
    by (intro keeps_intros kept kept_upsert kept_period)
next
  case SubChange
  show ?thesis unfolding SubChange run_handler.simps projectSubscriptionChange_def Let_def
    by (intro keeps_intros kept kept_update) (use pending in simp)
next
  case SubExec
  show ?thesis unfolding SubExec run_handler.simps projectSubscriptionCharged_def Let_def
    by (intro keeps_intros kept kept_upsert kept_period)
next
  case SubCancel
  show ?thesis unfolding SubCancel run_handler.simps projectSubscriptionCancelled_def Let_def
    by (intro keeps_intros kept kept_update) (use cancel in \<open>simp add: cancelled_subscription_def\<close>)
next
  case ProfileRegistered
  show ?thesis unfolding ProfileRegistered run_handler.simps projectProfileRegistered_def Let_def
    by (intro keeps_intros kept kept_other) simp_all
next
  case ProfileUpdated
  show ?thesis unfolding ProfileUpdated run_handler.simps projectProfileUpdated_def
    by (intro keeps_intros kept kept_other)
next
  case GoalSet
  show ?thesis unfolding GoalSet run_handler.simps projectGoalSet_def Let_def
    by (intro keeps_intros kept kept_other)
next
  case GoalReached
  show ?thesis unfolding GoalReached run_handler.simps projectGoalReached_def Let_def
    by (intro keeps_intros kept kept_other)
next
  case GoalCompleted
  show ?thesis unfolding GoalCompleted run_handler.simps projectGoalCompleted_def Let_def
    by (intro keeps_intros kept kept_other)
next
  case GoalCancel
  show ?thesis unfolding GoalCancel run_handler.simps projectGoalCancelled_def
    by (intro keeps_intros kept kept_other) simp_all
next
  case CreditUpdated
  show ?thesis unfolding CreditUpdated run_handler.simps projectCreditScoreUpdated_def Let_def
    by (intro keeps_intros kept kept_other) simp_all
qed

lemma projection_keeps: "keeps (all_rows P) (projectEvent rt ev)"
proof -
  have "keeps (all_rows P) (persistEventLog ev)"
    by (rule same_subscriptions) (simp add: persistEventLog_def)
  moreover have "keeps (all_rows P) (insert_tip rt ev tip)" for tip
    by (rule same_subscriptions) (simp add: insert_tip_def)
  ultimately show ?thesis
    unfolding projectEvent_def project_other_def projectTip_def projectRefund_def
    by (intro keeps_intros kept kept_handler kept_other) simp_all
qed

lemma check_keeps: "keeps (all_rows P) (check_new_subscription t c a)"
  by (rule same_subscriptions) (simp add: check_new_state)

lemma submit_keeps: "keeps (all_rows P) (submitCreateSubscription so rt id tipperId creatorAddress amount interval xdr)"
  unfolding submitCreateSubscription_def Let_def broadcast_def
  by (intro keeps_intros check_keeps kept_upsert kept_other fresh)
    (simp_all add: renewed_same renew)

lemma cancel_keeps: "keeps (all_rows P) (submitCancelSubscription so tipperId creatorAddress xdr)"
  unfolding submitCancelSubscription_def broadcast_def loadOwnedActiveSubscription_def loadCreatorByAddress_def
  by (intro keeps_intros kept_update cancel)

end

section \<open>The dunning schedule\<close>

definition retry_day :: "int \<Rightarrow> int" where
  "retry_day n = (if n = 1 then 1 else if n = 2 then 3 else 7)"

lemma retry_at: "getNextDunningRetryAt t n = (if 1 \<le> n \<and> n \<le> 3 then Some (t + retry_day n * DAY_MS) else None)"
proof -
  have "n = 1 \<or> n = 2 \<or> n = 3" if "1 \<le> n \<and> n \<le> 3" using that by linarith
  then show ?thesis
    by (auto simp: getNextDunningRetryAt_def nth_or_none_def DUNNING_RETRY_DAYS_def retry_day_def)
qed

text \<open>
  A row is on schedule: active rows have no failures, rows past due have one to three and a retry
  on the day of the schedule counted from the first failure, and no row has more than four.
\<close>

definition on_schedule :: "subscription_row \<Rightarrow> bool" where
  "on_schedule s \<longleftrightarrow> 0 \<le> s_failureCount s \<and> s_failureCount s \<le> 4 \<and>
     (s_status s = ACTIVE \<longrightarrow> s_failureCount s = 0 \<and> s_dunningStartedAt s = None) \<and>
     (s_status s = PAST_DUE \<longrightarrow> 1 \<le> s_failureCount s \<and> s_failureCount s \<le> 3 \<and>
       (\<exists>t. s_dunningStartedAt s = Some t \<and> s_nextRetryAt s = Some (t + retry_day (s_failureCount s) * DAY_MS)))"

interpretation schedule: row_invariant on_schedule
  by unfold_locales
    (auto simp: on_schedule_def new_subscription_def renewed_def clear_dunning_def cancelled_subscription_def)

text \<open>The identifier of a row is the one of its parties.\<close>

definition identified :: "subscription_row \<Rightarrow> bool" where
  "identified s \<longleftrightarrow> s_id s = subscriptionId (s_tipperId s) (s_creatorId s)"

interpretation identity: row_invariant identified
  by unfold_locales
    (auto simp: identified_def new_subscription_def renewed_def clear_dunning_def cancelled_subscription_def)

lemma failed_on_schedule:
  assumes "on_schedule sub" and "s_status sub = ACTIVE \<or> s_status sub = PAST_DUE"
  shows "on_schedule (failed_subscription (next_outcome sub now failure) reason s)"
  using assms
  by (auto simp: on_schedule_def failed_subscription_def next_outcome_def retry_at Let_def)

lemma claim_keeps:
  assumes "\<And>s t. P s \<Longrightarrow> P (s\<lparr>s_attemptStartedAt := Some t\<rparr>)" and "row_invariant P"
  shows "keeps (all_rows P) (claimSubscription sub now)"
  unfolding claimSubscription_def update_subscriptions_def
  by (intro keeps_intros row_invariant.kept_update [OF assms(2)] assms(1))

lemma quietly_keeps: "keeps (all_rows P) (quietly (createSystemNotification rt u ty p))"
  by (auto simp: keeps_def all_rows_def quietly_def createSystemNotification_def try_catch_def
      create_notification_row_run emitNotificationCreated_def Let_def)

lemma notify_failure_keeps: "keeps (all_rows P) (notifyFailure rt sub failure n t terminal)"
  unfolding notifyFailure_def Let_def by (intro keeps_intros quietly_keeps)

lemma charge_failed_keeps:
  assumes "on_schedule sub" and "s_status sub = ACTIVE \<or> s_status sub = PAST_DUE"
  shows "keeps (all_rows on_schedule) (charge_failed rt sub e)"
  unfolding charge_failed_def persistFailure_def update_subscriptions_def Let_def
  by (intro keeps_intros schedule.kept_update failed_on_schedule assms notify_failure_keeps)

lemma process_one_keeps:
  assumes "on_schedule sub" and "s_status sub = ACTIVE \<or> s_status sub = PAST_DUE"
    and "keeps (all_rows on_schedule) (charge a b)"
  shows "keeps (all_rows on_schedule) (process_one charge rt a b sub)"
  unfolding process_one_def
  by (intro keeps_intros claim_keeps schedule.row_invariant_axioms charge_failed_keeps assms)
    (auto simp: on_schedule_def)

lemma process_all_keeps:
  assumes "\<And>a b. keeps (all_rows on_schedule) (charge a b)"
    and "\<And>a b s. (a, b, s) \<in> set due \<Longrightarrow> on_schedule s \<and> (s_status s = ACTIVE \<or> s_status s = PAST_DUE)"
  shows "keeps (all_rows on_schedule) (process_all charge rt due acc)"
  using assms(2)
proof (induction due arbitrary: acc)
  case (Cons x due)
  obtain a b sub where x: "x = (a, b, sub)" by (cases x)
  have "on_schedule sub \<and> (s_status sub = ACTIVE \<or> s_status sub = PAST_DUE)"
    by (rule Cons.prems [of a b]) (simp add: x)
  then have "keeps (all_rows on_schedule) (process_one charge rt a b sub)"
    by (intro process_one_keeps assms(1)) simp_all
  moreover have "keeps (all_rows on_schedule) (process_all charge rt due acc')" for acc'
    by (rule Cons.IH, rule Cons.prems, rule list.set_intros(2))
  ultimately show ?case by (simp only: x process_all.simps) (intro keeps_intros)
qed (simp add: keeps_ret)

text \<open>
  C3. Dunning follows its schedule: a run of the job, whatever the charges do to the rows on
  schedule, an event of the indexer, a submission and a cancellation leave every row on schedule.
\<close>

theorem dunning_schedule_kept:
  assumes "all_rows on_schedule d" and "\<And>a b. keeps (all_rows on_schedule) (charge a b)"
  shows "all_rows on_schedule (snd (processDueSubscriptions charge rt d)) \<and>
    all_rows on_schedule (snd (projectEvent rt ev d)) \<and>
    all_rows on_schedule (snd (submitCreateSubscription so rt id tipperId creatorAddress amount interval xdr d)) \<and>
    all_rows on_schedule (snd (submitCancelSubscription so tipperId creatorAddress xdr d))"
proof -
  have "keeps (all_rows on_schedule) (process_all charge rt (due_subscriptions (rt_now rt) d) (0, 0))"
    using assms by (intro process_all_keeps) (auto simp: due_subscriptions_def all_rows_def is_due_def)
  with assms(1) have "all_rows on_schedule (snd (processDueSubscriptions charge rt d))"
    by (simp add: processDueSubscriptions_def keepsD)
  with assms(1) show ?thesis
    by (intro conjI keepsD [OF schedule.projection_keeps] keepsD [OF schedule.submit_keeps] keepsD [OF schedule.cancel_keeps])
qed

section \<open>Claims\<close>

lemma claim_run:
  "claimSubscription sub t d = (Inr (count_rows (claims sub) (subscriptions d) = 1),
     d\<lparr>subscriptions := update_rows (claims sub) (\<lambda>s. s\<lparr>s_attemptStartedAt := Some t\<rparr>) (subscriptions d)\<rparr>)"
  by (simp add: claimSubscription_def update_subscriptions_def)

fun claim_all :: "subscription_row \<Rightarrow> int list \<Rightarrow> bool list dbio" where
  "claim_all sub [] = ret []"
| "claim_all sub (t # ts) = bnd (claimSubscription sub t) (\<lambda>b. bnd (claim_all sub ts) (\<lambda>bs. ret (b # bs)))"

lemma claims_gone:
  assumes "s_attemptStartedAt sub \<noteq> Some t"
  shows "count_rows (claims sub) (update_rows (claims sub) (\<lambda>s. s\<lparr>s_attemptStartedAt := Some t\<rparr>) xs) = 0"
  using assms by (auto simp: count_rows_0 set_update_rows claims_def)

lemma claim_all_lost:
  assumes "count_rows (claims sub) (subscriptions d) = 0"
  shows "\<exists>bs e. claim_all sub ts d = (Inr bs, e) \<and> True \<notin> set bs"
  using assms
proof (induction ts arbitrary: d)
  case (Cons t ts)
  let ?e = "d\<lparr>subscriptions := update_rows (claims sub) (\<lambda>s. s\<lparr>s_attemptStartedAt := Some t\<rparr>) (subscriptions d)\<rparr>"
  have "update_rows (claims sub) (\<lambda>s. s\<lparr>s_attemptStartedAt := Some t\<rparr>) (subscriptions d) = subscriptions d"
    using Cons.prems by (intro update_rows_none) (simp add: count_rows_0)
  then have "count_rows (claims sub) (subscriptions ?e) = 0" using Cons.prems by simp
  from Cons.IH [OF this] obtain bs e where "claim_all sub ts ?e = (Inr bs, e)" "True \<notin> set bs" by blast
  then show ?case using Cons.prems by (simp add: claim_run bnd_def)
qed simp

text \<open>
  C4. Of the workers that have read the same due row, at most one claims it, whatever their number
  and their clocks.
\<close>

theorem at_most_one_claim:
  assumes "s_attemptStartedAt sub \<notin> Some ` set ts"
  shows "\<exists>bs e. claim_all sub ts d = (Inr bs, e) \<and> count_rows (\<lambda>b. b) bs \<le> 1"
proof (cases ts)
  case (Cons t us)
  let ?e = "d\<lparr>subscriptions := update_rows (claims sub) (\<lambda>s. s\<lparr>s_attemptStartedAt := Some t\<rparr>) (subscriptions d)\<rparr>"
  have "count_rows (claims sub) (subscriptions ?e) = 0"
    using assms Cons by (simp add: claims_gone)
  from claim_all_lost [OF this, of us] obtain bs e where "claim_all sub us ?e = (Inr bs, e)" "True \<notin> set bs"
    by blast
  moreover from this have "count_rows (\<lambda>b. b) bs = 0" by (auto simp: count_rows_0)
  ultimately show ?thesis unfolding Cons by (simp add: claim_run bnd_def)
qed simp

section \<open>One charge\<close>

lemma claims_by_id:
  assumes "unique_by s_id xs" and "sub \<in> set xs" and "r \<in> set xs"
  shows "claims sub r \<longleftrightarrow> s_id r = s_id sub"
proof
  assume "s_id r = s_id sub"
  then have "r = sub" using find_unique [OF assms(1,2)] find_unique [OF assms(1,3)] by simp
  then show "claims sub r" by (simp add: claims_def)
qed (simp add: claims_def)

lemma update_claims:
  assumes "unique_by s_id xs" and "sub \<in> set xs"
  shows "update_rows (claims sub) f xs = update_rows (\<lambda>s. s_id s = s_id sub) f xs"
  using claims_by_id [OF assms] by (simp add: update_rows_def)

lemma claim_wins:
  assumes "unique_by s_id xs" and "sub \<in> set xs"
  shows "count_rows (claims sub) xs = 1"
proof -
  have "count_rows (claims sub) xs = count_rows (\<lambda>s. s_id s = s_id sub) xs"
    using claims_by_id [OF assms] by (simp add: count_rows_def cong: filter_cong)
  moreover have "count_rows (\<lambda>s. s_id s = s_id sub) xs \<le> 1"
    using count_rows_unique [OF assms(1), of "s_id sub" "\<lambda>_. True"] by simp
  moreover have "count_rows (\<lambda>s. s_id s = s_id sub) xs \<noteq> 0"
    using assms(2) by (auto simp: count_rows_0)
  ultimately show ?thesis by simp
qed

text \<open>
  A charge that returns keeps its claim: until the claim is fifteen minutes old no run finds the
  subscription due; from then on the next run does, when no event of the charge has been projected.
\<close>

theorem confirmed_charge_keeps_claim:
  assumes "unique_by s_id (subscriptions d)" and "sub \<in> set (subscriptions d)" and "is_due (rt_now rt) sub"
    and "\<And>e. \<exists>e'. charge a b e = (Inr (), e') \<and> subscriptions e' = subscriptions e"
  shows "fst (process_one charge rt a b sub d) = Inr (1, 0) \<and>
    (\<forall>s \<in> set (subscriptions (snd (process_one charge rt a b sub d))). \<forall>t < rt_now rt + CHARGE_CLAIM_TTL_MS.
      s_id s = s_id sub \<longrightarrow> \<not> is_due t s) \<and>
    exists_row (\<lambda>s. s_id s = s_id sub \<and> is_due (rt_now rt + CHARGE_CLAIM_TTL_MS) s)
      (subscriptions (snd (process_one charge rt a b sub d)))"
proof -
  let ?f = "\<lambda>s. s\<lparr>s_attemptStartedAt := Some (rt_now rt)\<rparr>"
  let ?c = "d\<lparr>subscriptions := update_rows (claims sub) ?f (subscriptions d)\<rparr>"
  from assms(4) [of ?c] obtain e where e: "charge a b ?c = (Inr (), e)" "subscriptions e = subscriptions ?c" by blast
  have run: "process_one charge rt a b sub d = (Inr (1, 0), e)"
    using e(1) by (simp add: process_one_def claim_run bnd_def claim_wins [OF assms(1,2)] try_catch_def andthen_def)
  have table: "subscriptions e = update_rows (\<lambda>s. s_id s = s_id sub) ?f (subscriptions d)"
    using e(2) update_claims [OF assms(1,2)] by simp
  have "\<not> is_due t s" if "s \<in> set (subscriptions e)" "s_id s = s_id sub" "t < rt_now rt + CHARGE_CLAIM_TTL_MS" for s t
    using that by (auto simp: table set_update_rows is_due_def split: if_splits)
  moreover have "is_due (rt_now rt + CHARGE_CLAIM_TTL_MS) (?f sub)"
    using assms(3) by (auto simp: is_due_def CHARGE_CLAIM_TTL_MS_def some_with_iff)
  then have "exists_row (\<lambda>s. s_id s = s_id sub \<and> is_due (rt_now rt + CHARGE_CLAIM_TTL_MS) s) (subscriptions e)"
    unfolding table exists_row_iff set_update_rows using assms(2) by (intro bexI [of _ "?f sub"]) auto
  ultimately show ?thesis by (simp add: run)
qed

lemma quietly_system_bnd:
  "bnd (quietly (createSystemNotification rt u ty p)) f d = f () (snd (quietly (createSystemNotification rt u ty p) d))"
  "subscriptions (snd (quietly (createSystemNotification rt u ty p) d)) = subscriptions d"
  by (simp_all add: quietly_def createSystemNotification_def create_notification_row_run emitNotificationCreated_def
      try_catch_def bnd_def Let_def)

lemma notify_failure_bnd:
  "bnd (notifyFailure rt sub failure n t terminal) f d = f () (snd (notifyFailure rt sub failure n t terminal d))"
  by (simp add: notifyFailure_def Let_def quietly_system_bnd)

lemma notify_failure_rows: "subscriptions (snd (notifyFailure rt sub failure n t terminal d)) = subscriptions d"
  by (simp add: notifyFailure_def Let_def quietly_system_bnd)

lemma find_updated:
  assumes "unique_by key xs" and "x \<in> set xs" and "key (f x) = key x"
  shows "find_by key (key x) (update_rows (\<lambda>r. key r = key x) f xs) = Some (f x)"
  using assms by (induction xs) (auto simp: find_by_def image_iff)

lemma delete_updated:
  "(\<And>r. p r \<Longrightarrow> p (f r)) \<Longrightarrow> delete_rows p (update_rows p f xs) = delete_rows p xs"
  by (induction xs) auto

text \<open>
  A charge that fails moves its row one step: past due with the next retry of the schedule when the
  failure may be retried and fewer than three came before, FAILED otherwise; the claim is dropped
  and no other row changes.
\<close>

theorem failed_charge_outcome:
  assumes "unique_by s_id (subscriptions d)" and "sub \<in> set (subscriptions d)"
    and "is_due (rt_now rt) sub" and "on_schedule sub"
    and "\<And>e. \<exists>e'. charge a b e = (Inl err, e') \<and> subscriptions e' = subscriptions e"
  shows "fst (process_one charge rt a b sub d) = Inr (0, 1) \<and>
    some_with (\<lambda>r. s_failureCount r = s_failureCount sub + 1 \<and> s_attemptStartedAt r = None \<and>
      (if cf_retryable (classifySubscriptionChargeFailure err) \<and> s_failureCount sub < 3
       then s_status r = PAST_DUE \<and> s_nextRetryAt r = Some ((case s_dunningStartedAt sub of None \<Rightarrow> rt_now rt | Some t \<Rightarrow> t)
           + retry_day (s_failureCount sub + 1) * DAY_MS)
       else s_status r = FAILED \<and> s_nextRetryAt r = None))
      (find_by s_id (s_id sub) (subscriptions (snd (process_one charge rt a b sub d)))) \<and>
    delete_rows (\<lambda>s. s_id s = s_id sub) (subscriptions (snd (process_one charge rt a b sub d))) =
      delete_rows (\<lambda>s. s_id s = s_id sub) (subscriptions d)"
proof -
  let ?now = "rt_now rt" and ?fail = "classifySubscriptionChargeFailure err"
  let ?out = "next_outcome sub ?now ?fail"
  let ?f = "\<lambda>s. s\<lparr>s_attemptStartedAt := Some ?now\<rparr>" and ?g = "failed_subscription ?out (cf_reason ?fail)"
  let ?p = "\<lambda>s. s_id s = s_id sub" and ?q = "\<lambda>s. s_id s = s_id sub \<and> s_status s = s_status sub \<and> s_attemptStartedAt s = Some ?now"
  let ?c = "d\<lparr>subscriptions := update_rows (claims sub) ?f (subscriptions d)\<rparr>"
  from assms(5) [of ?c] obtain e where e: "charge a b ?c = (Inl err, e)" "subscriptions e = subscriptions ?c" by blast
  have claimed: "subscriptions e = update_rows ?p ?f (subscriptions d)"
    using e(2) update_claims [OF assms(1,2)] by simp
  have only: "r = sub" if "r \<in> set (subscriptions d)" "s_id r = s_id sub" for r
    using find_unique [OF assms(1,2)] find_unique [OF assms(1) that(1)] that(2) by simp
  have table: "update_rows ?q ?g (subscriptions e) = update_rows ?p ?g (subscriptions d)"
    unfolding claimed update_rows_def map_map
    by (rule map_cong [OF refl]) (use only in \<open>auto simp: failed_subscription_def split: prod.splits\<close>)
  have ids: "s_id (?g r) = s_id r" for r by (simp add: failed_subscription_def split: prod.splits)
  have caught: "process_one charge rt a b sub d = charge_failed rt sub err e"
    using e(1) by (simp add: process_one_def claim_run bnd_def claim_wins [OF assms(1,2)] try_catch_def andthen_def)
  have run: "fst (charge_failed rt sub err e) = Inr (0, 1)"
    and after: "subscriptions (snd (charge_failed rt sub err e)) = update_rows ?p ?g (subscriptions d)"
    using table by (simp_all add: charge_failed_def persistFailure_def update_subscriptions_def Let_def
        notify_failure_bnd notify_failure_rows)
  have "find_by s_id (s_id sub) (update_rows ?p ?g (subscriptions d)) = Some (?g sub)"
    by (rule find_updated [OF assms(1,2)]) (rule ids)
  moreover have "s_failureCount (?g sub) = s_failureCount sub + 1 \<and> s_attemptStartedAt (?g sub) = None \<and>
      (if cf_retryable ?fail \<and> s_failureCount sub < 3
       then s_status (?g sub) = PAST_DUE \<and> s_nextRetryAt (?g sub) = Some ((case s_dunningStartedAt sub of None \<Rightarrow> ?now | Some t \<Rightarrow> t)
           + retry_day (s_failureCount sub + 1) * DAY_MS)
       else s_status (?g sub) = FAILED \<and> s_nextRetryAt (?g sub) = None)"
    using assms(4) by (auto simp: failed_subscription_def next_outcome_def retry_at on_schedule_def Let_def split: option.split)
  moreover have "delete_rows ?p (update_rows ?p ?g (subscriptions d)) = delete_rows ?p (subscriptions d)"
    by (rule delete_updated) (simp add: ids)
  ultimately show ?thesis unfolding caught using run after by simp
qed

section \<open>Examples\<close>

definition due_row :: subscription_row where
  "due_row = (new_subscription (sample_runtime 0) ''t'' ''c'' 500 WEEKLY 1000)"

definition due_db :: db where
  "due_db = two_users\<lparr>subscriptions := [due_row]\<rparr>"

lemma due_facts: "unique_by s_id (subscriptions due_db)" "due_row \<in> set (subscriptions due_db)" "on_schedule due_row"
  "is_due (rt_now (sample_runtime 2000)) due_row" "all_rows on_schedule due_db" "s_attemptStartedAt due_row = None"
  by (simp_all add: due_db_def due_row_def new_subscription_def on_schedule_def is_due_def sample_runtime_def all_rows_def)

theorem dunning_schedule_kept_witness:
  "all_rows on_schedule (snd (processDueSubscriptions (\<lambda>a b. throw (js_error ''socket'')) (sample_runtime 2000) due_db))"
  by (rule dunning_schedule_kept [THEN conjunct1]) (simp_all add: due_facts keeps_throw)

theorem at_most_one_claim_witness:
  "\<exists>bs e. claim_all due_row [2000, 2001] due_db = (Inr bs, e) \<and> count_rows (\<lambda>b. b) bs \<le> 1"
  by (rule at_most_one_claim) (simp add: due_facts)

theorem confirmed_charge_keeps_claim_witness:
  "fst (process_one (\<lambda>a b. ret ()) (sample_runtime 2000) ''GT'' ''GC'' due_row due_db) = Inr (1, 0)"
  by (rule confirmed_charge_keeps_claim [THEN conjunct1]) (simp_all add: due_facts)

theorem failed_charge_outcome_witness:
  "fst (process_one (\<lambda>a b. throw (js_error ''Error(Contract, #14)'')) (sample_runtime 2000) ''GT'' ''GC'' due_row due_db) = Inr (0, 1)"
  by (rule failed_charge_outcome [THEN conjunct1]) (simp_all add: due_facts)

text \<open>The contract code 14 is found in the message of an RPC error and may be retried; code 3 may not.\<close>

lemma contract_codes:
  "classifySubscriptionChargeFailure (js_error ''HostError: Error(Contract, #14)'') =
    \<lparr>cf_code = ''INSUFFICIENT_BALANCE'', cf_reason = ''There is not enough balance for this subscription charge.'',
     cf_retryable = True, cf_contractCode = Some 14\<rparr>"
  "cf_retryable (classifySubscriptionChargeFailure (js_error ''Error(Contract, 3)'')) = False"
  by code_simp+

end
