(* ===== verification/Refunds.thy ===== *)
theory Refunds
  imports Soroban Notifications
begin

text \<open>
  Refunds (\<open>backend/src/modules/refunds/refunds.service.ts\<close>): the request for a confirmed tip, the
  listings, and the resolution of a pending refund by the recipient of the tip. The column
  \<open>updatedAt\<close> is not modelled.
\<close>

record RefundResponse =
  rr_id :: string
  rr_tipId :: string
  rr_amountStroops :: string
  rr_reason :: string
  rr_status :: string
  rr_txHash :: "string option"
  rr_createdAt :: string

definition serializeRefund :: "refund_row \<Rightarrow> RefundResponse" where
  "serializeRefund r = \<lparr>rr_id = rf_id r, rr_tipId = rf_tipId r, rr_amountStroops = show_int (rf_amount r),
     rr_reason = rf_reason r, rr_status = rf_status r, rr_txHash = rf_txHash r, rr_createdAt = iso_string (rf_createdAt r)\<rparr>"

definition parseContractTipId :: "string \<Rightarrow> jsval + int" where
  "parseContractTipId tipId =
     (let parsed = number_of_string tipId
      in if \<not> is_integer parsed \<or> j_lt parsed (j_int 0) \<or> j_lt (j_int 4294967295) parsed
         then Inl (bad_request ''Refund tip is missing a numeric on-chain tip id'')
         else Inr (j_to_int parsed))"

definition tip_of_refund :: "refund_row \<Rightarrow> db \<Rightarrow> tip_row option" where
  "tip_of_refund r d = find_by tip_id (rf_tipId r) (tips d)"

definition loadPendingRefundForCreator :: "string \<Rightarrow> string \<Rightarrow> (user_row \<times> refund_row \<times> int) dbio" where
  "loadPendingRefundForCreator refundId creatorId =
     bnd (gets (user_by_id creatorId)) (\<lambda>found.
     bnd (require found (bad_request ''User not found'')) (\<lambda>creator.
     bnd (gets (\<lambda>d. find_by rf_id refundId (refunds d))) (\<lambda>stored.
     bnd (require stored (not_found ''Refund not found'')) (\<lambda>refund.
     bnd (gets (tip_of_refund refund)) (\<lambda>joined.
     bnd (require joined (js_error ''Missing tip'')) (\<lambda>tip.
     andthen (throw_unless (tip_to tip = u_address creator) (forbidden ''Only the tip recipient can resolve this refund''))
     (andthen (throw_unless (rf_status refund = ''pending'') (conflict ''Only pending refunds can be resolved''))
     (bnd (lift_res (parseContractTipId (rf_tipId refund))) (\<lambda>contractTipId.
       ret (creator, refund, contractTipId))))))))))"

definition prepareRefundResolutionTx :: "soroban \<Rightarrow> string \<Rightarrow> int \<Rightarrow> string \<Rightarrow> prepared_tx dbio" where
  "prepareRefundResolutionTx so creatorAddress contractTipId method =
     andthen (throw_unless (so_contractId so \<noteq> []) (bad_request ''Contract ID is not configured''))
     (bnd (lift_res (or_throw (so_getAccount so creatorAddress) (bad_request ''Source account not found on network''))) (\<lambda>account.
      bnd (lift_res (so_build so (wallet_call so (so_contractId so) account method
          [ScAddress creatorAddress, ScU32 contractTipId]))) (\<lambda>tx.
      bnd (lift_res (simulate_and_assemble so tx)) (\<lambda>xdr.
        ret \<lparr>pr_unsignedTxXdr = xdr, pr_contractId = so_contractId so, pr_networkPassphrase = getNetworkPassphrase so\<rparr>))))"

definition prepareApproveRefund :: "soroban \<Rightarrow> string \<Rightarrow> string \<Rightarrow> prepared_tx dbio" where
  "prepareApproveRefund so creatorId refundId =
     bnd (loadPendingRefundForCreator refundId creatorId) (\<lambda>(creator, refund, contractTipId).
       prepareRefundResolutionTx so (u_address creator) contractTipId ''approve_refund'')"

definition prepareRejectRefund :: "soroban \<Rightarrow> string \<Rightarrow> string \<Rightarrow> prepared_tx dbio" where
  "prepareRejectRefund so creatorId refundId =
     bnd (loadPendingRefundForCreator refundId creatorId) (\<lambda>(creator, refund, contractTipId).
       prepareRefundResolutionTx so (u_address creator) contractTipId ''reject_refund'')"

definition resolved_refund :: "string \<Rightarrow> string \<Rightarrow> string option \<Rightarrow> refund_row \<Rightarrow> refund_row" where
  "resolved_refund status hash reason r =
     (let s = r\<lparr>rf_status := status, rf_txHash := Some hash\<rparr>
      in if status = ''rejected'' \<and> or_empty reason \<noteq> [] then s\<lparr>rf_reason := or_empty reason\<rparr> else s)"

definition send_resolution :: "soroban \<Rightarrow> string \<Rightarrow> jsval + string" where
  "send_resolution so signedTxXdr =
     (case so_fromXDR so signedTxXdr (getNetworkPassphrase so) of Inl e \<Rightarrow> Inl e | Inr tx \<Rightarrow>
     (case or_throw (so_send so tx) (bad_request ''Failed to submit refund transaction'') of Inl e \<Rightarrow> Inl e | Inr (st, hash) \<Rightarrow>
       if st = ''ERROR'' then Inl (bad_request ''Transaction rejected by the network'') else Inr hash))"

definition submitRefundResolutionTx ::
  "soroban \<Rightarrow> string \<Rightarrow> string \<Rightarrow> string \<Rightarrow> string \<Rightarrow> string option \<Rightarrow> (string \<times> string \<times> string) dbio" where
  "submitRefundResolutionTx so refundId creatorId signedTxXdr status reason =
     bnd (loadPendingRefundForCreator refundId creatorId) (\<lambda>_.
     bnd (lift_res (send_resolution so signedTxXdr)) (\<lambda>hash.
     andthen (modify (\<lambda>d. d\<lparr>refunds := update_rows (\<lambda>r. rf_id r = refundId) (resolved_refund status hash reason) (refunds d)\<rparr>))
       (ret (refundId, status, hash))))"

definition submitApproveRefund :: "soroban \<Rightarrow> string \<Rightarrow> string \<Rightarrow> string \<Rightarrow> (string \<times> string \<times> string) dbio" where
  "submitApproveRefund so creatorId refundId signedTxXdr =
     submitRefundResolutionTx so refundId creatorId signedTxXdr ''approved'' None"

definition submitRejectRefund :: "soroban \<Rightarrow> string \<Rightarrow> string \<Rightarrow> string \<Rightarrow> string \<Rightarrow> (string \<times> string \<times> string) dbio" where
  "submitRejectRefund so creatorId refundId signedTxXdr reason =
     submitRefundResolutionTx so refundId creatorId signedTxXdr ''rejected'' (Some reason)"

section \<open>Requesting and listing\<close>

definition create_refund :: "runtime \<Rightarrow> tip_row \<Rightarrow> string \<Rightarrow> refund_row dbio" where
  "create_refund rt tip reason =
     bnd (fresh_id rt) (\<lambda>i.
     bnd (gets (\<lambda>d. exists_row (\<lambda>r. rf_tipId r = tip_id tip) (refunds d))) (\<lambda>clash.
     andthen (throw_unless (\<not> clash) (prisma_error ''P2002'' [''tipId'']))
     (let row = \<lparr>rf_id = i, rf_tipId = tip_id tip, rf_amount = tip_amount tip, rf_reason = reason,
            rf_status = ''pending'', rf_txHash = None, rf_createdAt = rt_now rt\<rparr>
      in andthen (modify (\<lambda>d. d\<lparr>refunds := refunds d @ [row]\<rparr>)) (ret row))))"

definition requestRefund :: "runtime \<Rightarrow> string \<Rightarrow> string \<Rightarrow> string \<Rightarrow> RefundResponse dbio" where
  "requestRefund rt userId tipTxHash reason =
     bnd (gets (user_by_id userId)) (\<lambda>found.
     bnd (require found (bad_request ''User not found'')) (\<lambda>user.
     bnd (gets (tip_by_hash tipTxHash)) (\<lambda>stored.
     bnd (require stored (not_found ''Tip not found'')) (\<lambda>tip.
     andthen (throw_unless (tip_from tip = u_address user) (forbidden ''You can only request a refund for tips you sent''))
     (andthen (throw_unless (tip_status tip = CONFIRMED) (bad_request ''Only confirmed tips can be refunded''))
       (try_catch (bnd (create_refund rt tip reason) (\<lambda>row. ret (serializeRefund row)))
         (\<lambda>e. throw (handleUniqueConstraintViolation e ''A refund has already been requested for this tip''))))))))"

definition getMyRefunds ::
  "pagination \<Rightarrow> string \<Rightarrow> nat \<Rightarrow> string option \<Rightarrow> nat option \<Rightarrow> (RefundResponse list \<times> string option) dbio" where
  "getMyRefunds pg userId limit cursor offset =
     bnd (gets (user_by_id userId)) (\<lambda>found.
     bnd (require found (bad_request ''User not found'')) (\<lambda>user.
     (let scope = createCursorScope (pg_collation pg) (pg_json pg) ''refunds'' [(''userId'', JStr userId)]
      in bnd (gets id) (\<lambda>d.
         bnd (lift_res (keyset_page (pg_codec pg) (refunds d)
             (\<lambda>r. some_with (\<lambda>t. tip_from t = u_address user) (tip_of_refund r d)) (\<lambda>r. (rf_createdAt r, rf_id r)) limit cursor offset scope))
           (\<lambda>page. ret (map serializeRefund (fst page), snd page))))))"

definition getReceivedRefunds :: "string \<Rightarrow> nat \<Rightarrow> nat \<Rightarrow> RefundResponse list dbio" where
  "getReceivedRefunds creatorId limit offset =
     bnd (gets (user_by_id creatorId)) (\<lambda>found.
     bnd (require found (bad_request ''User not found'')) (\<lambda>creator.
     bnd (gets id) (\<lambda>d.
       ret (map serializeRefund (take limit (drop offset (order_desc rf_createdAt
         (filter (\<lambda>r. some_with (\<lambda>t. tip_to t = u_address creator) (tip_of_refund r d)) (refunds d)))))))))"

section \<open>Requests\<close>

lemma create_refund_run:
  "create_refund rt tip reason d =
    (if exists_row (\<lambda>r. rf_tipId r = tip_id tip) (refunds d)
     then (Inl (prisma_error ''P2002'' [''tipId'']), d\<lparr>nextId := nextId d + 1\<rparr>)
     else (let row = \<lparr>rf_id = rt_cuid rt (nextId d), rf_tipId = tip_id tip, rf_amount = tip_amount tip, rf_reason = reason,
            rf_status = ''pending'', rf_txHash = None, rf_createdAt = rt_now rt\<rparr>
       in (Inr row, d\<lparr>nextId := nextId d + 1, refunds := refunds d @ [row]\<rparr>)))"
  by (simp add: create_refund_def Let_def)

definition asks_for :: "string \<Rightarrow> string \<Rightarrow> string \<Rightarrow> db \<Rightarrow> refund_row \<Rightarrow> bool" where
  "asks_for userId tipTxHash reason d r \<longleftrightarrow>
     some_with (\<lambda>user. some_with (\<lambda>tip. tip_from tip = u_address user \<and> tip_status tip = CONFIRMED \<and>
       rf_tipId r = tip_id tip \<and> rf_amount r = tip_amount tip) (tip_by_hash tipTxHash d)) (user_by_id userId d) \<and>
     rf_reason r = reason \<and> rf_status r = ''pending'' \<and> rf_txHash r = None"

text \<open>
  A refund request adds one pending refund, of a confirmed tip the user sent and of its whole amount,
  or fails and adds none; no tip ever has two refunds.
\<close>

theorem refund_request_effect:
  assumes "unique_by rf_tipId (refunds d)"
  shows "unique_by rf_tipId (refunds (snd (requestRefund rt userId tipTxHash reason d))) \<and>
    (case fst (requestRefund rt userId tipTxHash reason d) of
       Inl e \<Rightarrow> refunds (snd (requestRefund rt userId tipTxHash reason d)) = refunds d
     | Inr res \<Rightarrow> \<exists>r. asks_for userId tipTxHash reason d r \<and> res = serializeRefund r \<and>
         refunds (snd (requestRefund rt userId tipTxHash reason d)) = refunds d @ [r])"
proof (cases "user_by_id userId d")
  case None
  with assms show ?thesis by (simp add: requestRefund_def)
next
  case user: (Some user)
  show ?thesis
  proof (cases "tip_by_hash tipTxHash d")
    case None
    with user assms show ?thesis by (simp add: requestRefund_def)
  next
    case tip: (Some tip)
    show ?thesis
    proof (cases "tip_from tip = u_address user \<and> tip_status tip = CONFIRMED \<and> \<not> exists_row (\<lambda>r. rf_tipId r = tip_id tip) (refunds d)")
      case True
      define row where "row = \<lparr>rf_id = rt_cuid rt (nextId d), rf_tipId = tip_id tip, rf_amount = tip_amount tip, rf_reason = reason,
            rf_status = ''pending'', rf_txHash = None, rf_createdAt = rt_now rt\<rparr>"
      have run: "requestRefund rt userId tipTxHash reason d =
          (Inr (serializeRefund row), d\<lparr>nextId := nextId d + 1, refunds := refunds d @ [row]\<rparr>)"
        using user tip True
        by (simp add: requestRefund_def try_catch_def bnd_def [of "create_refund rt tip reason"] create_refund_run Let_def row_def)
      have "asks_for userId tipTxHash reason d row" using user tip True by (simp add: asks_for_def row_def)
      moreover have "unique_by rf_tipId (refunds d @ [row])"
        using assms True by (auto simp: unique_by_append_one exists_row_iff row_def)
      ultimately show ?thesis unfolding run by auto
    next
      case False
      then have "\<exists>e. fst (requestRefund rt userId tipTxHash reason d) = Inl e \<and>
          refunds (snd (requestRefund rt userId tipTxHash reason d)) = refunds d"
        using user tip
        by (auto simp: requestRefund_def try_catch_def bnd_def [of "create_refund rt tip reason"] create_refund_run Let_def)
      with assms show ?thesis by auto
    qed
  qed
qed

section \<open>Resolution\<close>

text \<open>A text that starts with the letter c, as every generated identifier does, is not a number.\<close>

lemma trim_c: "js_trim (CHR ''c'' # rest) = CHR ''c'' # rev (dropWhile is_space (rev rest))"
proof -
  have c: "\<not> is_space CHR ''c''" by (simp add: is_space_def char_code_def)
  then have "dropWhile is_space (rev rest @ CHR ''c'' # []) = dropWhile is_space (rev rest) @ [CHR ''c'']"
    by (rule dropWhile_append3)
  with c show ?thesis by (simp add: js_trim_def)
qed

lemma number_of_c: "number_of_string (CHR ''c'' # rest) = NaN"
proof -
  have "\<not> is_digit CHR ''c''" by (simp add: is_digit_def char_code_def)
  then have "decimal_literal (CHR ''c'' # x) = NaN" for x
    by (simp add: decimal_literal_def span_digits_letter)
  then show ?thesis by (simp add: number_of_string_def trim_c)
qed

lemma load_state: "snd (loadPendingRefundForCreator refundId creatorId d) = d"
  by (simp add: loadPendingRefundForCreator_def split: option.split sum.split)

lemma load_generated:
  assumes "find_by rf_id refundId (refunds d) = Some r" and "rf_tipId r = CHR ''c'' # rest"
  shows "\<exists>e. loadPendingRefundForCreator refundId creatorId d = (Inl e, d)"
  using assms
  by (auto simp: loadPendingRefundForCreator_def parseContractTipId_def number_of_c is_integer_def split: option.split)

text \<open>
  A refund of a tip whose identifier was generated by the store, and so starts with the letter c, can
  be neither prepared nor resolved: the identifier is taken for the number of the tip on the chain.
\<close>

theorem generated_tip_never_resolved:
  assumes "find_by rf_id refundId (refunds d) = Some r" and "rf_tipId r = CHR ''c'' # rest"
  shows "(\<exists>e. prepareApproveRefund so creatorId refundId d = (Inl e, d)) \<and>
    (\<exists>e. prepareRejectRefund so creatorId refundId d = (Inl e, d)) \<and>
    (\<exists>e. submitApproveRefund so creatorId refundId xdr d = (Inl e, d)) \<and>
    (\<exists>e. submitRejectRefund so creatorId refundId xdr reason d = (Inl e, d))"
  using load_generated [OF assms, of creatorId]
  by (auto simp: prepareApproveRefund_def prepareRejectRefund_def submitApproveRefund_def submitRejectRefund_def
      submitRefundResolutionTx_def bnd_def)

definition resolvable :: "string \<Rightarrow> string \<Rightarrow> db \<Rightarrow> bool" where
  "resolvable refundId creatorId d \<longleftrightarrow>
     some_with (\<lambda>creator. some_with (\<lambda>r. rf_status r = ''pending'' \<and>
       some_with (\<lambda>tip. tip_to tip = u_address creator) (tip_of_refund r d)) (find_by rf_id refundId (refunds d)))
     (user_by_id creatorId d)"

lemma load_Inr: "loadPendingRefundForCreator refundId creatorId d = (Inr x, e) \<Longrightarrow> e = d \<and> resolvable refundId creatorId d"
  by (auto simp: loadPendingRefundForCreator_def resolvable_def split: option.splits sum.splits if_splits)

text \<open>
  C8. A resolution that fails changes nothing; one that succeeds was of a pending refund of a tip to the
  caller, and closes exactly that refund, for every answer of the node other than ERROR.
\<close>

theorem resolution_closes_pending_refund:
  "case submitRefundResolutionTx so refundId creatorId xdr status reason d of
     (Inl e, d') \<Rightarrow> d' = d
   | (Inr (i, st, hash), d') \<Rightarrow> resolvable refundId creatorId d \<and> i = refundId \<and> st = status \<and>
       (\<exists>tx answer. so_fromXDR so xdr (getNetworkPassphrase so) = Inr tx \<and> so_send so tx = Inr (answer, hash) \<and> answer \<noteq> ''ERROR'') \<and>
       d' = d\<lparr>refunds := update_rows (\<lambda>r. rf_id r = refundId) (resolved_refund status hash reason) (refunds d)\<rparr>"
proof -
  obtain q d1 where load: "loadPendingRefundForCreator refundId creatorId d = (q, d1)" by force
  then have d1: "d1 = d" using load_state [of refundId creatorId d] by simp
  show ?thesis
  proof (cases q)
    case (Inl e)
    with load d1 show ?thesis by (simp add: submitRefundResolutionTx_def bnd_def)
  next
    case (Inr x)
    with load load_Inr have ok: "resolvable refundId creatorId d" by blast
    show ?thesis
    proof (cases "send_resolution so xdr")
      case (Inl e)
      with load d1 Inr show ?thesis by (simp add: submitRefundResolutionTx_def bnd_def)
    next
      case sent: (Inr hash)
      then have "\<exists>tx answer. so_fromXDR so xdr (getNetworkPassphrase so) = Inr tx \<and> so_send so tx = Inr (answer, hash) \<and> answer \<noteq> ''ERROR''"
        by (auto simp: send_resolution_def or_throw_def split: sum.splits prod.splits if_splits)
      with load d1 Inr ok sent show ?thesis by (simp add: submitRefundResolutionTx_def bnd_def andthen_def)
    qed
  qed
qed

section \<open>Examples\<close>

definition refund_db :: db where
  "refund_db = empty_db\<lparr>refunds := [\<lparr>rf_id = ''r'', rf_tipId = ''c1'', rf_amount = 5, rf_reason = ''mistake'',
     rf_status = ''pending'', rf_txHash = None, rf_createdAt = 0\<rparr>]\<rparr>"

theorem generated_tip_never_resolved_witness:
  "\<exists>e. submitApproveRefund (undefined :: soroban) ''u'' ''r'' ''xdr'' refund_db = (Inl e, refund_db)"
proof -
  have "find_by rf_id ''r'' (refunds refund_db) = Some \<lparr>rf_id = ''r'', rf_tipId = CHR ''c'' # ''1'', rf_amount = 5,
      rf_reason = ''mistake'', rf_status = ''pending'', rf_txHash = None, rf_createdAt = 0\<rparr>"
    by (simp add: refund_db_def find_by_def)
  from generated_tip_never_resolved [OF this] show ?thesis by simp
qed

theorem refund_request_effect_witness:
  "unique_by rf_tipId (refunds (snd (requestRefund \<lparr>rt_now = 0, rt_cuid = (\<lambda>n. replicate n CHR ''c''), rt_broker = True\<rparr> ''u'' ''h'' ''why'' refund_db)))"
  by (rule refund_request_effect [THEN conjunct1]) (simp add: refund_db_def)

end
