(* ===== verification/Withdrawals.thy ===== *)
theory Withdrawals
  imports Soroban Notifications Stroops
begin

text \<open>
  Withdrawals (\<open>backend/src/modules/withdrawals/withdrawals.service.ts\<close>): history, balance, the fee,
  the preparation of the wallet transaction and its submission, which is recorded once per
  transaction hash.
\<close>

section \<open>Reading\<close>

record WithdrawalResponse =
  wr_id :: string
  wr_amount :: string
  wr_fee :: string
  wr_txHash :: "string option"
  wr_status :: WithdrawalStatus
  wr_requestedAt :: string
  wr_confirmedAt :: "string option"

definition withdrawal_response :: "withdrawal_row \<Rightarrow> WithdrawalResponse" where
  "withdrawal_response w = \<lparr>wr_id = wd_id w, wr_amount = show_int (wd_amount w), wr_fee = show_int (wd_fee w),
     wr_txHash = wd_txHash w, wr_status = wd_status w, wr_requestedAt = iso_string (wd_requestedAt w),
     wr_confirmedAt = map_option iso_string (wd_confirmedAt w)\<rparr>"

definition getWithdrawalHistory ::
  "pagination \<Rightarrow> string \<Rightarrow> nat \<Rightarrow> string option \<Rightarrow> nat option \<Rightarrow> (WithdrawalResponse list \<times> string option) dbio" where
  "getWithdrawalHistory pg userId limit cursor offset =
     (let scope = createCursorScope (pg_collation pg) (pg_json pg) ''withdrawals'' [(''userId'', JStr userId)]
      in bnd (gets withdrawals) (\<lambda>rows.
         bnd (lift_res (keyset_page (pg_codec pg) rows (\<lambda>w. wd_userId w = userId) (\<lambda>w. (wd_requestedAt w, wd_id w)) limit cursor offset scope))
           (\<lambda>page. ret (map withdrawal_response (fst page), snd page))))"

definition received :: "string \<Rightarrow> db \<Rightarrow> int" where
  "received address d = sum_rows (\<lambda>t. tip_to t = address \<and> tip_status t = CONFIRMED) tip_amount (tips d)"

definition withdrawn :: "string \<Rightarrow> db \<Rightarrow> int" where
  "withdrawn userId d =
     sum_rows (\<lambda>w. wd_userId w = userId \<and> (wd_status w = WPending \<or> wd_status w = WConfirmed)) wd_amount (withdrawals d)"

record WithdrawableBalanceResponse =
  wb_stellarAddress :: string
  wb_totalReceived :: string
  wb_totalWithdrawn :: string
  wb_withdrawableBalance :: string

definition balance_of :: "int \<Rightarrow> int \<Rightarrow> int" where
  "balance_of totalReceived totalWithdrawn =
     (if totalReceived > totalWithdrawn then totalReceived - totalWithdrawn else 0)"

definition getWithdrawableBalance :: "string \<Rightarrow> WithdrawableBalanceResponse dbio" where
  "getWithdrawableBalance userId =
     bnd (gets (user_by_id userId)) (\<lambda>found.
     bnd (require found (bad_request ''User not found'')) (\<lambda>user.
     bnd (gets (\<lambda>d. (received (u_address user) d, withdrawn userId d))) (\<lambda>(r, w).
       ret \<lparr>wb_stellarAddress = u_address user, wb_totalReceived = show_int r, wb_totalWithdrawn = show_int w,
         wb_withdrawableBalance = show_int (balance_of r w)\<rparr>)))"

section \<open>The fee\<close>

text \<open>\<open>BigInt\<close> division truncates towards zero.\<close>

definition trunc_div :: "int \<Rightarrow> int \<Rightarrow> int" where
  "trunc_div a b = sgn a * sgn b * (\<bar>a\<bar> div \<bar>b\<bar>)"

definition BPS_DIVISOR :: int where
  "BPS_DIVISOR = 10000"

record WithdrawalFee =
  wf_fee :: int
  wf_netAmount :: int

definition calculateWithdrawalFee :: "int \<Rightarrow> int \<Rightarrow> jsval + WithdrawalFee" where
  "calculateWithdrawalFee amount feeBps =
     (if amount \<le> 0 then Inl (bad_request ''Withdrawal amount must be positive'')
      else let fee = trunc_div (amount * feeBps) BPS_DIVISOR in Inr \<lparr>wf_fee = fee, wf_netAmount = amount - fee\<rparr>)"

section \<open>Preparing and submitting\<close>

text \<open>The checks of a preparation and, again, of a submission; the balance text is read back.\<close>

definition check_withdrawal :: "int \<Rightarrow> string \<Rightarrow> string \<Rightarrow> (user_row \<times> int \<times> WithdrawalFee) dbio" where
  "check_withdrawal feeBps userId amount =
     bnd (gets (user_by_id userId)) (\<lambda>found.
     bnd (require found (bad_request ''User not found'')) (\<lambda>user.
     bnd (getWithdrawableBalance userId) (\<lambda>balance.
     bnd (lift_res (big_int amount)) (\<lambda>parsed.
     andthen (throw_unless (0 < parsed) (bad_request ''Withdrawal amount must be positive''))
     (bnd (lift_res (big_int (wb_withdrawableBalance balance))) (\<lambda>available.
      andthen (throw_unless (parsed \<le> available) (bad_request ''Insufficient balance''))
      (bnd (lift_res (calculateWithdrawalFee parsed feeBps)) (\<lambda>f. ret (user, parsed, f)))))))))"

record PreparedWithdrawal =
  pw_unsignedTxXdr :: string
  pw_destination :: string
  pw_amount :: string
  pw_fee :: string
  pw_netAmount :: string
  pw_contractId :: string
  pw_networkPassphrase :: string

definition prepareWithdrawal :: "soroban \<Rightarrow> int \<Rightarrow> string \<Rightarrow> string \<Rightarrow> PreparedWithdrawal dbio" where
  "prepareWithdrawal so feeBps userId amount =
     andthen (throw_unless (so_contractId so \<noteq> []) (bad_request ''Contract ID is not configured''))
     (bnd (check_withdrawal feeBps userId amount) (\<lambda>(user, parsed, f).
      bnd (lift_res (or_throw (so_getAccount so (u_address user)) (bad_request ''Source account not found on network''))) (\<lambda>account.
      bnd (lift_res (so_build so (wallet_call so (so_contractId so) account ''withdraw''
          [ScAddress (u_address user), ScI128 (show_int (wf_netAmount f))]))) (\<lambda>tx.
      bnd (lift_res (simulate_and_assemble so tx)) (\<lambda>xdr.
        ret \<lparr>pw_unsignedTxXdr = xdr, pw_destination = u_address user, pw_amount = amount, pw_fee = show_int (wf_fee f),
          pw_netAmount = show_int (wf_netAmount f), pw_contractId = so_contractId so,
          pw_networkPassphrase = getNetworkPassphrase so\<rparr>)))))"

record SubmitWithdrawalResult =
  sw_id :: string
  sw_txHash :: string
  sw_status :: WithdrawalStatus
  sw_amount :: string
  sw_fee :: string
  sw_netAmount :: string

definition serializeSubmittedWithdrawal :: "withdrawal_row \<Rightarrow> int \<Rightarrow> SubmitWithdrawalResult" where
  "serializeSubmittedWithdrawal w netAmount = \<lparr>sw_id = wd_id w, sw_txHash = or_empty (wd_txHash w), sw_status = wd_status w,
     sw_amount = show_int (wd_amount w), sw_fee = show_int (wd_fee w), sw_netAmount = show_int netAmount\<rparr>"

definition send_signed :: "soroban \<Rightarrow> string \<Rightarrow> jsval + string" where
  "send_signed so signedTxXdr =
     (case so_fromXDR so signedTxXdr (getNetworkPassphrase so) of Inl e \<Rightarrow> Inl e | Inr tx \<Rightarrow>
     (case or_throw (so_send so tx) (bad_request ''Failed to submit withdrawal transaction'') of Inl e \<Rightarrow> Inl e | Inr (status, hash) \<Rightarrow>
       if status = ''ERROR'' then Inl (bad_request ''Withdrawal transaction rejected by the network'') else Inr hash))"

definition withdrawal_by_hash :: "string \<Rightarrow> db \<Rightarrow> withdrawal_row option" where
  "withdrawal_by_hash h d = find_row (\<lambda>w. wd_txHash w = Some h) (withdrawals d)"

definition create_withdrawal :: "runtime \<Rightarrow> string \<Rightarrow> int \<Rightarrow> int \<Rightarrow> string \<Rightarrow> withdrawal_row dbio" where
  "create_withdrawal rt userId amount fee hash =
     bnd (fresh_id rt) (\<lambda>i.
     bnd (gets (withdrawal_by_hash hash)) (\<lambda>clash.
     andthen (throw_unless (clash = None) (prisma_error ''P2002'' [''txHash'']))
     (let row = \<lparr>wd_id = i, wd_userId = userId, wd_amount = amount, wd_fee = fee, wd_txHash = Some hash,
            wd_status = WPending, wd_requestedAt = rt_now rt, wd_confirmedAt = None\<rparr>
      in andthen (modify (\<lambda>d. d\<lparr>withdrawals := withdrawals d @ [row]\<rparr>)) (ret row))))"

text \<open>
  Other requests may run while the transaction is sent (\<open>mid\<close>), and between the lookup of its hash
  and the insertion (\<open>gap\<close>); the unique key of the hash decides.
\<close>

definition submitWithdrawal ::
  "soroban \<Rightarrow> runtime \<Rightarrow> int \<Rightarrow> (db \<Rightarrow> db) \<Rightarrow> (db \<Rightarrow> db) \<Rightarrow> string \<Rightarrow> string \<Rightarrow> string \<Rightarrow> SubmitWithdrawalResult dbio" where
  "submitWithdrawal so rt feeBps mid gap userId amount signedTxXdr =
     bnd (check_withdrawal feeBps userId amount) (\<lambda>(user, parsed, f).
     bnd (lift_res (send_signed so signedTxXdr)) (\<lambda>hash.
     andthen (modify mid)
     (bnd (gets (withdrawal_by_hash hash)) (\<lambda>existing. case existing of
          Some w \<Rightarrow> ret (serializeSubmittedWithdrawal w (wf_netAmount f))
        | None \<Rightarrow>
            andthen (modify gap)
              (try_catch
                (bnd (create_withdrawal rt userId parsed (wf_fee f) hash) (\<lambda>w.
                  ret (serializeSubmittedWithdrawal w (wf_netAmount f))))
                (\<lambda>e. if isUniqueConstraintViolation e
                   then bnd (gets (withdrawal_by_hash hash)) (\<lambda>again. case again of
                       Some w \<Rightarrow> ret (serializeSubmittedWithdrawal w (wf_netAmount f)) | None \<Rightarrow> throw e)
                   else throw e))))))"

section \<open>What a withdrawal costs\<close>

lemma div_bounds: "p div 10000 * 10000 \<le> p \<and> p < (p div 10000 + 1) * 10000" for p :: int
  by presburger

lemma trunc_div_pos: "0 \<le> a \<Longrightarrow> 0 < b \<Longrightarrow> trunc_div a b = a div b"
  by (cases "a = 0") (simp_all add: trunc_div_def)

text \<open>
  The fee and the net amount add up to the amount, and the fee is the rate of it rounded down,
  so for a rate of at most 100 per cent neither is negative; an amount of zero or less is rejected.
\<close>

theorem withdrawal_fee_exact:
  assumes "0 \<le> feeBps" and "feeBps \<le> BPS_DIVISOR"
  shows "case calculateWithdrawalFee amount feeBps of
      Inl e \<Rightarrow> amount \<le> 0 \<and> e = bad_request ''Withdrawal amount must be positive''
    | Inr f \<Rightarrow> 0 < amount \<and> wf_fee f + wf_netAmount f = amount \<and> 0 \<le> wf_fee f \<and> 0 \<le> wf_netAmount f \<and>
        wf_fee f * BPS_DIVISOR \<le> amount * feeBps \<and> amount * feeBps < (wf_fee f + 1) * BPS_DIVISOR"
proof (cases "amount \<le> 0")
  case False
  define q where "q = amount * feeBps div BPS_DIVISOR"
  have pos: "0 \<le> amount * feeBps" using False assms(1) by simp
  have q: "trunc_div (amount * feeBps) BPS_DIVISOR = q"
    unfolding q_def by (rule trunc_div_pos [OF pos]) (simp add: BPS_DIVISOR_def)
  have "q * BPS_DIVISOR \<le> amount * feeBps \<and> amount * feeBps < (q + 1) * BPS_DIVISOR"
    unfolding q_def BPS_DIVISOR_def by (rule div_bounds)
  moreover have "amount * feeBps \<le> amount * BPS_DIVISOR" using False assms(2) by simp
  ultimately have "q * BPS_DIVISOR \<le> amount * BPS_DIVISOR \<and> 0 \<le> q"
    using pos by (simp add: q_def BPS_DIVISOR_def pos_imp_zdiv_nonneg_iff)
  then show ?thesis
    using False q \<open>q * BPS_DIVISOR \<le> amount * feeBps \<and> amount * feeBps < (q + 1) * BPS_DIVISOR\<close>
    by (simp add: calculateWithdrawalFee_def Let_def BPS_DIVISOR_def)
qed (simp add: calculateWithdrawalFee_def)

theorem withdrawal_fee_exact_witness:
  "case calculateWithdrawalFee 12345 250 of
      Inl e \<Rightarrow> (12345::int) \<le> 0 \<and> e = bad_request ''Withdrawal amount must be positive''
    | Inr f \<Rightarrow> 0 < (12345::int) \<and> wf_fee f + wf_netAmount f = 12345 \<and> 0 \<le> wf_fee f \<and> 0 \<le> wf_netAmount f \<and>
        wf_fee f * BPS_DIVISOR \<le> 12345 * 250 \<and> 12345 * 250 < (wf_fee f + 1) * BPS_DIVISOR"
  by (rule withdrawal_fee_exact) (simp_all add: BPS_DIVISOR_def)

section \<open>What a submission records\<close>

lemma big_int_balance [simp]: "big_int (show_int (balance_of r w)) = Inr (balance_of r w)"
proof -
  have n: "0 \<le> balance_of r w" by (simp add: balance_of_def)
  have "show_int (balance_of r w) \<noteq> []" by (simp add: show_int_def)
  with n show ?thesis by (simp add: big_int_def js_trim_show_int int_literal_show_int parse_show_int Let_def)
qed

lemma check_withdrawal_Inr:
  assumes "check_withdrawal feeBps userId amount d = (Inr (user, parsed, f), e)"
  shows "e = d" "user_by_id userId d = Some user" "big_int amount = Inr parsed" "0 < parsed"
    "parsed \<le> balance_of (received (u_address user) d) (withdrawn userId d)" "calculateWithdrawalFee parsed feeBps = Inr f"
  using assms
  by (auto simp: check_withdrawal_def getWithdrawableBalance_def split: option.splits sum.splits if_splits)

lemma check_withdrawal_run:
  assumes "user_by_id userId d = Some user" and "big_int amount = Inr parsed" and "0 < parsed"
    and "parsed \<le> balance_of (received (u_address user) d) (withdrawn userId d)" and "calculateWithdrawalFee parsed feeBps = Inr f"
  shows "check_withdrawal feeBps userId amount d = (Inr (user, parsed, f), d)"
  using assms by (simp add: check_withdrawal_def getWithdrawableBalance_def)

lemma create_withdrawal_run:
  "create_withdrawal rt userId amount fee hash d =
    (if withdrawal_by_hash hash d = None
     then (let row = \<lparr>wd_id = rt_cuid rt (nextId d), wd_userId = userId, wd_amount = amount, wd_fee = fee, wd_txHash = Some hash,
            wd_status = WPending, wd_requestedAt = rt_now rt, wd_confirmedAt = None\<rparr>
       in (Inr row, d\<lparr>nextId := nextId d + 1, withdrawals := withdrawals d @ [row]\<rparr>))
     else (Inl (prisma_error ''P2002'' [''txHash'']), d\<lparr>nextId := nextId d + 1\<rparr>))"
  by (simp add: create_withdrawal_def withdrawal_by_hash_def Let_def)

definition one_per_hash :: "db \<Rightarrow> bool" where
  "one_per_hash d \<longleftrightarrow> (\<forall>h. count_rows (\<lambda>w. wd_txHash w = Some h) (withdrawals d) \<le> 1)"

lemma by_hash_None: "withdrawal_by_hash h d = None \<longleftrightarrow> count_rows (\<lambda>w. wd_txHash w = Some h) (withdrawals d) = 0"
  by (simp add: withdrawal_by_hash_def find_row_None count_rows_0)

lemma submit_Inr:
  assumes "submitWithdrawal so rt feeBps mid gap userId amount xdr d = (Inr res, e)"
  obtains user parsed f hash where "check_withdrawal feeBps userId amount d = (Inr (user, parsed, f), d)"
    and "send_signed so xdr = Inr hash"
    and "case withdrawal_by_hash hash (mid d) of Some w \<Rightarrow> e = mid d \<and> res = serializeSubmittedWithdrawal w (wf_netAmount f)
      | None \<Rightarrow> (case withdrawal_by_hash hash (gap (mid d)) of
          Some w \<Rightarrow> withdrawals e = withdrawals (gap (mid d)) \<and> res = serializeSubmittedWithdrawal w (wf_netAmount f)
        | None \<Rightarrow> \<exists>row. withdrawals e = withdrawals (gap (mid d)) @ [row] \<and> tips e = tips (gap (mid d)) \<and>
            wd_txHash row = Some hash \<and> wd_userId row = userId \<and> wd_amount row = parsed \<and> wd_status row = WPending \<and>
            res = serializeSubmittedWithdrawal row (wf_netAmount f))"
proof -
  from assms obtain user parsed f d1 hash where
    c: "check_withdrawal feeBps userId amount d = (Inr (user, parsed, f), d1)" and h: "send_signed so xdr = Inr hash"
    by (cases "send_signed so xdr") (auto simp: submitWithdrawal_def bnd_eq_Inr_iff)
  have d1: "d1 = d" using check_withdrawal_Inr(1) [OF c] .
  show thesis
  proof (rule that [of user parsed f hash])
    show "check_withdrawal feeBps userId amount d = (Inr (user, parsed, f), d)" using c d1 by simp
    show "send_signed so xdr = Inr hash" by (rule h)
    show "case withdrawal_by_hash hash (mid d) of Some w \<Rightarrow> e = mid d \<and> res = serializeSubmittedWithdrawal w (wf_netAmount f)
      | None \<Rightarrow> (case withdrawal_by_hash hash (gap (mid d)) of
          Some w \<Rightarrow> withdrawals e = withdrawals (gap (mid d)) \<and> res = serializeSubmittedWithdrawal w (wf_netAmount f)
        | None \<Rightarrow> \<exists>row. withdrawals e = withdrawals (gap (mid d)) @ [row] \<and> tips e = tips (gap (mid d)) \<and>
            wd_txHash row = Some hash \<and> wd_userId row = userId \<and> wd_amount row = parsed \<and> wd_status row = WPending \<and>
            res = serializeSubmittedWithdrawal row (wf_netAmount f))"
      using assms
      by (simp add: submitWithdrawal_def bnd_def [of "check_withdrawal feeBps userId amount"] c d1 h andthen_def
          create_withdrawal_run try_catch_def bnd_def [of "create_withdrawal rt userId parsed (wf_fee f) hash"]
          withdrawal_by_hash_def Let_def split: option.splits if_splits)
        auto
  qed
qed

lemma one_per_hash_append:
  assumes "one_per_hash d" and "withdrawal_by_hash h d = None" and "wd_txHash row = Some h" and "withdrawals e = withdrawals d @ [row]"
  shows "one_per_hash e" and "withdrawal_by_hash h e = Some row"
proof -
  show "one_per_hash e"
    using assms by (auto simp: one_per_hash_def by_hash_None)
  show "withdrawal_by_hash h e = Some row"
    using assms(2-4) by (simp add: withdrawal_by_hash_def find_row_append)
qed


lemma withdrawn_append:
  "withdrawals e = withdrawals d @ [row] \<Longrightarrow> wd_userId row = userId \<Longrightarrow> wd_status row = WPending \<Longrightarrow>
    withdrawn userId e = withdrawn userId d + wd_amount row"
  by (simp add: withdrawn_def)

text \<open>
  Undisturbed submissions never take what is withdrawn above what was received.
\<close>

theorem undisturbed_withdrawal_within_balance:
  assumes "submitWithdrawal so rt feeBps id id userId amount xdr d = (Inr res, e)" and "user_by_id userId d = Some user"
  shows "withdrawn userId e \<le> max (received (u_address user) d) (withdrawn userId d)"
proof -
  obtain user' parsed f where c: "check_withdrawal feeBps userId amount d = (Inr (user', parsed, f), d)"
    and total: "withdrawn userId e = withdrawn userId d \<or> withdrawn userId e = withdrawn userId d + parsed"
    by (rule submit_Inr [OF assms(1)]) (auto simp: withdrawn_def split: option.splits)
  from check_withdrawal_Inr [OF c] assms(2) have "parsed \<le> balance_of (received (u_address user) d) (withdrawn userId d)"
    by simp
  with total check_withdrawal_Inr(4) [OF c] show ?thesis by (auto simp: balance_of_def split: if_splits)
qed

lemma submit_fresh:
  assumes "check_withdrawal feeBps userId amount d = (Inr (user, p, f), d)" and "send_signed so xdr = Inr h"
    and "withdrawal_by_hash h (mid d) = None"
  shows "submitWithdrawal so rt feeBps mid id userId amount xdr d =
    (let row = \<lparr>wd_id = rt_cuid rt (nextId (mid d)), wd_userId = userId, wd_amount = p, wd_fee = wf_fee f, wd_txHash = Some h,
            wd_status = WPending, wd_requestedAt = rt_now rt, wd_confirmedAt = None\<rparr>
     in (Inr (serializeSubmittedWithdrawal row (wf_netAmount f)), (mid d)\<lparr>nextId := nextId (mid d) + 1, withdrawals := withdrawals (mid d) @ [row]\<rparr>))"
  using assms
  by (simp add: submitWithdrawal_def bnd_def [of "check_withdrawal feeBps userId amount"] andthen_def
      create_withdrawal_run try_catch_def bnd_def [of "create_withdrawal rt userId p (wf_fee f) h"] Let_def)

text \<open>
  Two submissions that overlap are both accepted against the same balance, and what is withdrawn grows by
  both amounts.
\<close>

theorem overlapping_withdrawals_add_up:
  assumes "check_withdrawal feeBps userId a d = (Inr (user, p, f), d)" and "check_withdrawal feeBps userId b d = (Inr (user, q, g), d)"
    and "send_signed so xdr = Inr h" and "send_signed so xdr' = Inr h'" and "h \<noteq> h'"
    and "withdrawal_by_hash h d = None" and "withdrawal_by_hash h' d = None"
  shows "withdrawn userId (snd (submitWithdrawal so rt feeBps (\<lambda>e. snd (submitWithdrawal so rt feeBps id id userId b xdr' e)) id
      userId a xdr d)) = withdrawn userId d + q + p"
proof -
  let ?mid = "\<lambda>e. snd (submitWithdrawal so rt feeBps id id userId b xdr' e)"
  have inner: "submitWithdrawal so rt feeBps id id userId b xdr' d =
    (let row = \<lparr>wd_id = rt_cuid rt (nextId d), wd_userId = userId, wd_amount = q, wd_fee = wf_fee g, wd_txHash = Some h',
            wd_status = WPending, wd_requestedAt = rt_now rt, wd_confirmedAt = None\<rparr>
     in (Inr (serializeSubmittedWithdrawal row (wf_netAmount g)), d\<lparr>nextId := nextId d + 1, withdrawals := withdrawals d @ [row]\<rparr>))"
    using submit_fresh [where mid = id, OF assms(2,4)] assms(7) by simp
  have "withdrawal_by_hash h (?mid d) = None"
    using assms(5,6) by (simp add: inner Let_def withdrawal_by_hash_def find_row_append)
  from submit_fresh [where mid = ?mid, OF assms(1,3) this] show ?thesis
    by (simp add: Let_def) (simp add: inner Let_def withdrawn_def)
qed

section \<open>Examples\<close>

definition chain_sending :: "string \<Rightarrow> soroban" where
  "chain_sending status = \<lparr>so_contractId = ''C1'', so_network = ''TESTNET'', so_networks = (\<lambda>_. Some ''test net''),
     so_networkPassphrase = [], so_getAccount = Inr, so_build = (\<lambda>tx. Inr (tx_function tx)),
     so_simulate = (\<lambda>tx. Inr (Inr ''sim'')), so_assemble = (\<lambda>tx sim. Inr (tx @ sim)), so_fromXDR = (\<lambda>xdr p. Inr xdr),
     so_send = (\<lambda>tx. Inr (status, ''hash of '' @ tx)), so_publicKey = Inr, so_sign = (\<lambda>k tx. tx)\<rparr>"

definition creator_row :: user_row where
  "creator_row = \<lparr>u_id = ''u'', u_address = ''GA'', u_username = None, u_role = ''user'', u_scopes = [],
     u_createdAt = 0, u_deletedAt = None, u_deactivatedAt = None, u_blockedAt = None, u_flagged = False,
     u_displayName = None, u_bio = None, u_imageUrl = None, u_avatarCid = None, u_xHandle = None\<rparr>"

definition paid_db :: db where
  "paid_db = empty_db\<lparr>users := [creator_row],
     tips := [\<lparr>tip_id = ''c1'', tip_txHash = ''t1'', tip_ledger = 7, tip_from = ''GB'', tip_to = ''GA'', tip_amount = 1000,
       tip_message = None, tip_status = CONFIRMED, tip_createdAt = 0,
       tip_networkFee = 0, tip_tokenCode = ''XLM'', tip_recipientId = None\<rparr>]\<rparr>"

definition some_runtime :: runtime where
  "some_runtime = \<lparr>rt_now = 5000, rt_cuid = (\<lambda>n. replicate n CHR ''c''), rt_broker = True\<rparr>"

lemma paid_check:
  "check_withdrawal 200 ''u'' ''1000'' paid_db = (Inr (creator_row, 1000, \<lparr>wf_fee = 20, wf_netAmount = 980\<rparr>), paid_db)"
proof (rule check_withdrawal_run)
  show "big_int ''1000'' = Inr 1000" by code_simp
qed (simp_all add: paid_db_def creator_row_def empty_db_def user_by_id_def live_user_def received_def withdrawn_def balance_of_def
    calculateWithdrawalFee_def trunc_div_def BPS_DIVISOR_def)

lemma paid_send: "send_signed (chain_sending ''PENDING'') xdr = Inr (''hash of '' @ xdr)"
  by (simp add: send_signed_def chain_sending_def or_throw_def)

lemma paid_unused: "withdrawal_by_hash h paid_db = None" "one_per_hash paid_db"
  by (simp_all add: withdrawal_by_hash_def one_per_hash_def paid_db_def empty_db_def)

theorem overlapping_withdrawals_add_up_witness:
  "received ''GA'' paid_db = 1000 \<and> withdrawn ''u'' (snd (submitWithdrawal (chain_sending ''PENDING'') some_runtime 200
     (\<lambda>e. snd (submitWithdrawal (chain_sending ''PENDING'') some_runtime 200 id id ''u'' ''1000'' ''y'' e)) id ''u'' ''1000'' ''x'' paid_db)) = 2000"
  using overlapping_withdrawals_add_up [OF paid_check paid_check paid_send paid_send [where xdr = "''y''"], where rt = some_runtime]
  by (simp add: paid_unused) (simp add: received_def withdrawn_def paid_db_def empty_db_def)

definition paid_row :: withdrawal_row where
  "paid_row = \<lparr>wd_id = [], wd_userId = ''u'', wd_amount = 1000, wd_fee = 20, wd_txHash = Some ''hash of x'', wd_status = WPending,
     wd_requestedAt = 5000, wd_confirmedAt = None\<rparr>"

lemma paid_submit:
  "submitWithdrawal (chain_sending ''PENDING'') some_runtime 200 id id ''u'' ''1000'' ''x'' paid_db =
    (Inr (serializeSubmittedWithdrawal paid_row 980), paid_db\<lparr>nextId := 1, withdrawals := [paid_row]\<rparr>)"
  by (simp add: submit_fresh [where mid = id, OF paid_check paid_send] paid_unused Let_def)
    (simp add: paid_db_def empty_db_def some_runtime_def paid_row_def)

theorem undisturbed_withdrawal_within_balance_witness:
  "withdrawn ''u'' (paid_db\<lparr>nextId := 1, withdrawals := [paid_row]\<rparr>) \<le> max (received (u_address creator_row) paid_db) (withdrawn ''u'' paid_db)"
  by (rule undisturbed_withdrawal_within_balance [OF paid_submit])
    (simp add: paid_db_def creator_row_def empty_db_def user_by_id_def live_user_def)


end
