(* ===== verification/Payouts.thy ===== *)
theory Payouts
  imports Withdrawals Projections
begin

text \<open>
  Scheduled payouts (\<open>backend/src/modules/withdrawals/payouts.service.ts\<close>, \<open>payoutSubmission.ts\<close>): a
  creator's schedule, the keeper's withdrawal, retries with exponential backoff and the pause after too many
  failures. Dates are in UTC, where a calendar day has 24 hours.
\<close>

section \<open>Dates\<close>

text \<open>\<open>setMonth\<close> keeps the day of the month and lets it overflow into the next one.\<close>

definition days_of_civil :: "int \<Rightarrow> int \<Rightarrow> int \<Rightarrow> int" where
  "days_of_civil year month day =
     (let y = (if month \<le> 2 then year - 1 else year);
          era = y div 400;
          yoe = y mod 400;
          doy = (153 * (if month > 2 then month - 3 else month + 9) + 2) div 5 + day - 1;
          doe = yoe * 365 + yoe div 4 - yoe div 100 + doy
      in era * 146097 + doe - 719468)"

definition add_month :: "int \<Rightarrow> int" where
  "add_month t = (case civil_date (t div DAY_MS) of (y, m, d) \<Rightarrow>
     days_of_civil (if m = 12 then y + 1 else y) (if m = 12 then 1 else m + 1) d * DAY_MS + t mod DAY_MS)"

definition MANUAL_COOLDOWN_MS :: int where
  "MANUAL_COOLDOWN_MS = 24 * 60 * 60 * 1000"

definition advanceScheduleAfterSuccess :: "PayoutCadence \<Rightarrow> int \<Rightarrow> int" where
  "advanceScheduleAfterSuccess cadence t = (case cadence of
       Daily \<Rightarrow> t + DAY_MS | Weekly \<Rightarrow> t + 7 * DAY_MS | Monthly \<Rightarrow> add_month t | Manual \<Rightarrow> t + MANUAL_COOLDOWN_MS)"

definition backoffNextRun :: "int \<Rightarrow> int \<Rightarrow> int \<Rightarrow> int" where
  "backoffNextRun consecutiveFailures t baseSeconds = t + baseSeconds * 2 ^ nat (max 0 (consecutiveFailures - 1)) * 1000"

definition shouldPauseAfterFailures :: "int \<Rightarrow> int \<Rightarrow> bool" where
  "shouldPauseAfterFailures consecutiveFailures maxAttempts \<longleftrightarrow> maxAttempts \<le> consecutiveFailures"

definition scheduleNextRunWhenPaused :: "int \<Rightarrow> int" where
  "scheduleNextRunWhenPaused t = t + 30 * DAY_MS"

section \<open>The schedule\<close>

record PayoutScheduleInput =
  pi_enabled :: "bool option"
  pi_thresholdStroops :: "string option"
  pi_cadence :: "PayoutCadence option"

definition getPayoutSchedule :: "string \<Rightarrow> schedule_row option dbio" where
  "getPayoutSchedule userId = gets (\<lambda>d. find_by ps_userId userId (schedules d))"

definition patch_schedule :: "PayoutScheduleInput \<Rightarrow> int option \<Rightarrow> int \<Rightarrow> schedule_row \<Rightarrow> schedule_row" where
  "patch_schedule input threshold now s =
     (let a = (case pi_enabled input of None \<Rightarrow> s | Some b \<Rightarrow> s\<lparr>ps_enabled := b\<rparr>);
          b = (case threshold of None \<Rightarrow> a | Some t \<Rightarrow> a\<lparr>ps_threshold := t\<rparr>);
          c = (case pi_cadence input of None \<Rightarrow> b | Some x \<Rightarrow> b\<lparr>ps_cadence := x\<rparr>)
      in if pi_enabled input = Some True then c\<lparr>ps_paused := False, ps_failures := 0, ps_nextRunAt := now\<rparr> else c)"

definition or_value :: "'a option \<Rightarrow> 'a \<Rightarrow> 'a" where
  "or_value x v = (case x of None \<Rightarrow> v | Some a \<Rightarrow> a)"

definition upsertPayoutSchedule :: "runtime \<Rightarrow> string \<Rightarrow> PayoutScheduleInput \<Rightarrow> schedule_row dbio" where
  "upsertPayoutSchedule rt userId input =
     bnd (gets (user_by_id userId)) (\<lambda>found.
     bnd (require found (not_found ''User not found'')) (\<lambda>_.
     bnd (lift_res (case pi_thresholdStroops input of None \<Rightarrow> Inr None
         | Some s \<Rightarrow> (case big_int s of Inl e \<Rightarrow> Inl e | Inr n \<Rightarrow> Inr (Some n)))) (\<lambda>threshold.
     bnd (fresh_id rt) (\<lambda>i.
     andthen (modify (\<lambda>d. d\<lparr>schedules := upsert_row ps_userId userId
         \<lparr>ps_id = i, ps_userId = userId, ps_enabled = or_value (pi_enabled input) False,
          ps_threshold = or_value threshold 0, ps_cadence = or_value (pi_cadence input) Manual, ps_paused = False,
          ps_failures = 0, ps_nextRunAt = rt_now rt, ps_lastRunAt = None, ps_lastStatus = None\<rparr>
         (patch_schedule input threshold (rt_now rt)) (schedules d)\<rparr>))
     (bnd (gets (\<lambda>d. find_by ps_userId userId (schedules d))) (\<lambda>stored. require stored Undefined))))))"

definition payout_user :: "user_row \<Rightarrow> bool" where
  "payout_user u \<longleftrightarrow> u_deletedAt u = None \<and> u_deactivatedAt u = None \<and> u_blockedAt u = None \<and> \<not> u_flagged u"

definition eligible :: "int \<Rightarrow> db \<Rightarrow> schedule_row \<Rightarrow> bool" where
  "eligible now d s \<longleftrightarrow> ps_enabled s \<and> \<not> ps_paused s \<and> ps_nextRunAt s \<le> now \<and>
     some_with payout_user (find_by u_id (ps_userId s) (users d))"

definition listEligiblePayouts :: "int \<Rightarrow> schedule_row list dbio" where
  "listEligiblePayouts now = gets (\<lambda>d. filter (eligible now d) (schedules d))"

section \<open>One payout\<close>

text \<open>The balance by address: withdrawals join their user.\<close>

definition payout_balance :: "string \<Rightarrow> db \<Rightarrow> int" where
  "payout_balance address d = balance_of (received address d)
     (sum_rows (\<lambda>w. some_with (\<lambda>u. u_address u = address) (find_by u_id (wd_userId w) (users d)) \<and>
        (wd_status w = WPending \<or> wd_status w = WConfirmed)) wd_amount (withdrawals d))"

text \<open>The keeper's withdrawal: the hash and the net amount.\<close>

definition submitScheduledWithdrawal :: "soroban \<Rightarrow> string \<Rightarrow> int \<Rightarrow> string \<Rightarrow> int \<Rightarrow> jsval + (string \<times> string)" where
  "submitScheduledWithdrawal so secret feeBps creatorAddress gross =
     (if secret = [] then Inl (bad_request ''PAYOUT_KEEPER_SECRET_KEY is not configured'')
      else if so_contractId so = [] then Inl (bad_request ''Contract ID is not configured'')
      else (case so_publicKey so secret of Inl e \<Rightarrow> Inl e | Inr keeper \<Rightarrow>
        (case so_getAccount so keeper of Inl e \<Rightarrow> Inl e | Inr source \<Rightarrow>
        (case so_build so (wallet_call so (so_contractId so) source ''execute_scheduled_withdrawal''
            [ScAddress keeper, ScAddress creatorAddress, ScI128 (show_int gross)]) of Inl e \<Rightarrow> Inl e | Inr tx \<Rightarrow>
        (case so_send so (so_sign so secret tx) of Inl e \<Rightarrow> Inl e | Inr (status, hash) \<Rightarrow>
          if status = ''ERROR'' then Inl (bad_request ''Scheduled withdrawal transaction rejected by the network'')
          else Inr (hash, show_int (gross - trunc_div (gross * feeBps) 10000)))))))"

record payout_config =
  py_minAmount :: int
  py_maxAttempts :: int
  py_backoffBase :: int
  py_submit :: "string \<Rightarrow> int \<Rightarrow> jsval + (string \<times> string)"

record PayoutAttemptResult =
  pa_userId :: string
  pa_status :: PayoutStatus
  pa_txHash :: "string option"
  pa_netAmountStroops :: "string option"
  pa_paused :: "bool option"
  pa_nextRunAt :: int
  pa_reason :: "string option"

definition update_schedule :: "string \<Rightarrow> (schedule_row \<Rightarrow> schedule_row) \<Rightarrow> unit dbio" where
  "update_schedule i f = modify (\<lambda>d. d\<lparr>schedules := update_rows (\<lambda>s. ps_id s = i) f (schedules d)\<rparr>)"

definition message_or :: "jsval \<Rightarrow> string \<Rightarrow> string" where
  "message_or e fallback = (if is_error e then error_message e else fallback)"

definition attempt_failed :: "payout_config \<Rightarrow> runtime \<Rightarrow> schedule_row \<Rightarrow> jsval \<Rightarrow> PayoutAttemptResult dbio" where
  "attempt_failed py rt schedule e =
     (let failures = ps_failures schedule + 1;
          pause = shouldPauseAfterFailures failures (py_maxAttempts py);
          nextRunAt = (if pause then scheduleNextRunWhenPaused (rt_now rt) else backoffNextRun failures (rt_now rt) (py_backoffBase py))
      in andthen (update_schedule (ps_id schedule) (\<lambda>s. s\<lparr>ps_nextRunAt := nextRunAt, ps_lastRunAt := Some (rt_now rt),
            ps_lastStatus := Some Failure, ps_failures := failures, ps_paused := pause\<rparr>))
         (andthen (if pause then notify_quietly rt (ps_userId schedule) ''payout_failed'' (payload_object
              [(''reason'', JStr (message_or e ''repeated payout failure'')), (''consecutiveFailures'', JNum (j_int failures))])
            else ret ())
           (ret \<lparr>pa_userId = ps_userId schedule, pa_status = Failure, pa_txHash = None, pa_netAmountStroops = None,
              pa_paused = Some pause, pa_nextRunAt = nextRunAt, pa_reason = Some (message_or e ''unknown error'')\<rparr>)))"

definition attemptPayout :: "payout_config \<Rightarrow> runtime \<Rightarrow> schedule_row \<Rightarrow> string \<Rightarrow> PayoutAttemptResult dbio" where
  "attemptPayout py rt schedule address =
     bnd (gets (payout_balance address)) (\<lambda>balance.
       if balance < ps_threshold schedule \<or> balance < py_minAmount py
       then (let nextRunAt = advanceScheduleAfterSuccess (ps_cadence schedule) (rt_now rt)
             in andthen (update_schedule (ps_id schedule) (\<lambda>s. s\<lparr>ps_nextRunAt := nextRunAt, ps_lastRunAt := Some (rt_now rt),
                   ps_lastStatus := Some Skipped\<rparr>))
                  (ret \<lparr>pa_userId = ps_userId schedule, pa_status = Skipped, pa_txHash = None, pa_netAmountStroops = None,
                     pa_paused = None, pa_nextRunAt = nextRunAt, pa_reason = Some ''balance below threshold''\<rparr>))
       else (case py_submit py address balance of
           Inl e \<Rightarrow> attempt_failed py rt schedule e
         | Inr (hash, net) \<Rightarrow>
             (let nextRunAt = advanceScheduleAfterSuccess (ps_cadence schedule) (rt_now rt)
              in andthen (update_schedule (ps_id schedule) (\<lambda>s. s\<lparr>ps_nextRunAt := nextRunAt, ps_lastRunAt := Some (rt_now rt),
                    ps_lastStatus := Some Success, ps_failures := 0\<rparr>))
                   (ret \<lparr>pa_userId = ps_userId schedule, pa_status = Success, pa_txHash = Some hash, pa_netAmountStroops = Some net,
                      pa_paused = None, pa_nextRunAt = nextRunAt, pa_reason = None\<rparr>))))"

section \<open>The job\<close>

record payout_tally =
  pt_succeeded :: nat
  pt_failed :: nat
  pt_skipped :: nat

definition tally :: "PayoutStatus \<Rightarrow> payout_tally \<Rightarrow> payout_tally" where
  "tally st c = (case st of Success \<Rightarrow> c\<lparr>pt_succeeded := pt_succeeded c + 1\<rparr>
     | Failure \<Rightarrow> c\<lparr>pt_failed := pt_failed c + 1\<rparr> | Skipped \<Rightarrow> c\<lparr>pt_skipped := pt_skipped c + 1\<rparr>)"

text \<open>The address was read with the schedule.\<close>

fun payout_loop :: "payout_config \<Rightarrow> runtime \<Rightarrow> (schedule_row \<times> string) list \<Rightarrow> payout_tally \<Rightarrow> payout_tally dbio" where
  "payout_loop py rt [] c = ret c"
| "payout_loop py rt ((s, address) # rest) c =
     bnd (try_catch (bnd (attemptPayout py rt s address) (\<lambda>r. ret (tally (pa_status r) c)))
            (\<lambda>_. ret (tally Failure c))) (payout_loop py rt rest)"

definition address_of_user :: "string \<Rightarrow> db \<Rightarrow> string" where
  "address_of_user i d = (case find_by u_id i (users d) of None \<Rightarrow> [] | Some u \<Rightarrow> u_address u)"

definition processDuePayouts :: "payout_config \<Rightarrow> runtime \<Rightarrow> (nat \<times> payout_tally) dbio" where
  "processDuePayouts py rt =
     bnd (gets (\<lambda>d. map (\<lambda>s. (s, address_of_user (ps_userId s) d)) (filter (eligible (rt_now rt) d) (schedules d)))) (\<lambda>due.
     bnd (payout_loop py rt due \<lparr>pt_succeeded = 0, pt_failed = 0, pt_skipped = 0\<rparr>) (\<lambda>c. ret (length due, c)))"

section \<open>Pausing\<close>

definition attempt_row :: "payout_config \<Rightarrow> int \<Rightarrow> schedule_row \<Rightarrow> int \<Rightarrow> string \<Rightarrow> schedule_row \<Rightarrow> schedule_row" where
  "attempt_row py now schedule balance address s =
     (if balance < ps_threshold schedule \<or> balance < py_minAmount py
      then s\<lparr>ps_nextRunAt := advanceScheduleAfterSuccess (ps_cadence schedule) now, ps_lastRunAt := Some now, ps_lastStatus := Some Skipped\<rparr>
      else (case py_submit py address balance of
          Inr _ \<Rightarrow> s\<lparr>ps_nextRunAt := advanceScheduleAfterSuccess (ps_cadence schedule) now, ps_lastRunAt := Some now,
            ps_lastStatus := Some Success, ps_failures := 0\<rparr>
        | Inl _ \<Rightarrow> s\<lparr>ps_nextRunAt := (if py_maxAttempts py \<le> ps_failures schedule + 1 then scheduleNextRunWhenPaused now
              else backoffNextRun (ps_failures schedule + 1) now (py_backoffBase py)),
            ps_lastRunAt := Some now, ps_lastStatus := Some Failure, ps_failures := ps_failures schedule + 1,
            ps_paused := (py_maxAttempts py \<le> ps_failures schedule + 1)\<rparr>))"

lemma quiet_schedules [simp]:
  "schedules (snd (notify_quietly rt u ty p d)) = schedules d"
  "withdrawals (snd (notify_quietly rt u ty p d)) = withdrawals d"
  "tips (snd (notify_quietly rt u ty p d)) = tips d"
  using notify_quietly_frame [of d rt u ty p] by (simp_all add: same_tables_def)

lemma balance_frame [simp]:
  "payout_balance a (d\<lparr>schedules := ss\<rparr>) = payout_balance a d"
  "payout_balance a (snd (notify_quietly rt u ty p d)) = payout_balance a d"
  by (simp_all add: payout_balance_def received_def)

lemma attempt_failed_run:
  "\<exists>r. fst (attempt_failed py rt schedule e d) = Inr r \<and> pa_status r = Failure \<and> pa_txHash r = None"
  "schedules (snd (attempt_failed py rt schedule e d)) = update_rows (\<lambda>s. ps_id s = ps_id schedule)
    (\<lambda>s. s\<lparr>ps_nextRunAt := (if py_maxAttempts py \<le> ps_failures schedule + 1 then scheduleNextRunWhenPaused (rt_now rt)
              else backoffNextRun (ps_failures schedule + 1) (rt_now rt) (py_backoffBase py)),
            ps_lastRunAt := Some (rt_now rt), ps_lastStatus := Some Failure, ps_failures := ps_failures schedule + 1,
            ps_paused := (py_maxAttempts py \<le> ps_failures schedule + 1)\<rparr>) (schedules d)"
  "payout_balance a (snd (attempt_failed py rt schedule e d)) = payout_balance a d"
  by (simp_all add: attempt_failed_def update_schedule_def shouldPauseAfterFailures_def notify_quietly_bnd Let_def)

lemma attempt_run:
  "\<exists>r. fst (attemptPayout py rt schedule address d) = Inr r \<and>
    pa_status r = (if payout_balance address d < ps_threshold schedule \<or> payout_balance address d < py_minAmount py then Skipped
      else case py_submit py address (payout_balance address d) of Inl _ \<Rightarrow> Failure | Inr _ \<Rightarrow> Success) \<and>
    pa_txHash r = (if payout_balance address d < ps_threshold schedule \<or> payout_balance address d < py_minAmount py then None
      else case py_submit py address (payout_balance address d) of Inl _ \<Rightarrow> None | Inr (hash, net) \<Rightarrow> Some hash)"
  "schedules (snd (attemptPayout py rt schedule address d)) =
    update_rows (\<lambda>s. ps_id s = ps_id schedule) (attempt_row py (rt_now rt) schedule (payout_balance address d) address) (schedules d)"
  "payout_balance a (snd (attemptPayout py rt schedule address d)) = payout_balance a d"
  using attempt_failed_run [where py = py and rt = rt and schedule = schedule and d = d]
  by (auto simp: attemptPayout_def attempt_row_def [abs_def] update_schedule_def Let_def split: sum.splits)


lemma attempt_row_id [simp]: "ps_id (attempt_row py now schedule b a s) = ps_id s"
  by (simp add: attempt_row_def split: sum.splits)

definition update_due :: "payout_config \<Rightarrow> int \<Rightarrow> db \<Rightarrow> schedule_row \<times> string \<Rightarrow> schedule_row list \<Rightarrow> schedule_row list" where
  "update_due py now d x ss = (case x of (s, a) \<Rightarrow>
     update_rows (\<lambda>t. ps_id t = ps_id s) (attempt_row py now s (payout_balance a d) a) ss)"

definition tally_total :: "payout_tally \<Rightarrow> nat" where
  "tally_total c = pt_succeeded c + pt_failed c + pt_skipped c"

lemma tally_total_tally [simp]: "tally_total (tally st c) = Suc (tally_total c)"
  by (simp add: tally_total_def tally_def split: PayoutStatus.splits)

lemma payout_loop_state:
  "(\<exists>c'. fst (payout_loop py rt due c d) = Inr c' \<and> tally_total c' = tally_total c + length due) \<and>
   schedules (snd (payout_loop py rt due c d)) = fold (update_due py (rt_now rt) d) due (schedules d) \<and>
   payout_balance a (snd (payout_loop py rt due c d)) = payout_balance a d"
proof (induction due arbitrary: c d)
  case (Cons x due)
  obtain s address where x: "x = (s, address)" by force
  obtain r where r: "fst (attemptPayout py rt s address d) = Inr r" using attempt_run(1) by blast
  then obtain d' where run: "attemptPayout py rt s address d = (Inr r, d')" by (metis prod.collapse)
  have d': "d' = snd (attemptPayout py rt s address d)" using run by simp
  have "payout_balance b d' = payout_balance b d" for b by (simp add: d' attempt_run(3))
  then have "update_due py (rt_now rt) d' = update_due py (rt_now rt) d" by (simp add: update_due_def fun_eq_iff)
  moreover have "payout_loop py rt (x # due) c d = payout_loop py rt due (tally (pa_status r) c) d'"
    by (simp add: x try_catch_def bnd_def run)
  moreover have "schedules d' = update_due py (rt_now rt) d x (schedules d)" "payout_balance a d' = payout_balance a d"
    by (simp_all add: d' x update_due_def attempt_run(2,3))
  ultimately show ?case
    using Cons.IH [of "tally (pa_status r) c" d'] by simp
qed simp

lemma fold_update_due:
  "distinct (map (\<lambda>x. ps_id (fst x)) due) \<Longrightarrow>
   fold (update_due py now d) due ss = map (\<lambda>t. case find (\<lambda>x. ps_id (fst x) = ps_id t) due of
     None \<Rightarrow> t | Some (s, a) \<Rightarrow> attempt_row py now s (payout_balance a d) a t) ss"
proof (induction due arbitrary: ss)
  case (Cons x due)
  obtain s address where x: "x = (s, address)" by force
  have none: "find (\<lambda>y. ps_id (fst y) = ps_id s) due = None"
    using Cons.prems x by (force simp: find_None_iff)
  from Cons show ?case
    by (simp add: x update_due_def update_rows_def none o_def)
qed simp

lemma find_due:
  assumes "unique_by ps_id ss" and "t \<in> set ss"
  shows "find (\<lambda>x. ps_id (fst x) = ps_id t) (map (\<lambda>s. (s, f s)) (filter p ss)) = (if p t then Some (t, f t) else None)"
  using assms
proof (induction ss)
  case (Cons s ss)
  show ?case
  proof (cases "t = s")
    case True
    then have "ps_id y \<noteq> ps_id t" if "y \<in> set ss" for y
      using Cons.prems that by (force simp: image_iff)
    with True show ?thesis by (auto simp: find_None_iff)
  next
    case False
    then have "t \<in> set ss" "ps_id s \<noteq> ps_id t" using Cons.prems by (auto simp: image_iff)
    with Cons show ?thesis by simp
  qed
qed simp

lemma payout_job_run:
  assumes "unique_by ps_id (schedules d)"
  shows "schedules (snd (processDuePayouts py rt d)) = map (\<lambda>s. if eligible (rt_now rt) d s
     then attempt_row py (rt_now rt) s (payout_balance (address_of_user (ps_userId s) d) d) (address_of_user (ps_userId s) d) s
     else s) (schedules d)"
proof -
  define due where "due = map (\<lambda>s. (s, address_of_user (ps_userId s) d)) (filter (eligible (rt_now rt) d) (schedules d))"
  have "distinct (map (\<lambda>x. ps_id (fst x)) due)"
    using assms by (simp add: due_def o_def unique_by_def distinct_map_filter)
  then have "schedules (snd (payout_loop py rt due c d)) = map (\<lambda>t. case find (\<lambda>x. ps_id (fst x) = ps_id t) due of
     None \<Rightarrow> t | Some (s, a) \<Rightarrow> attempt_row py (rt_now rt) s (payout_balance a d) a t) (schedules d)" for c
    by (simp add: payout_loop_state fold_update_due)
  also have "\<dots> = map (\<lambda>s. if eligible (rt_now rt) d s
     then attempt_row py (rt_now rt) s (payout_balance (address_of_user (ps_userId s) d) d) (address_of_user (ps_userId s) d) s
     else s) (schedules d)"
    by (rule map_cong) (simp_all add: due_def find_due [OF assms])
  finally show ?thesis
    by (simp add: processDuePayouts_def due_def snd_bnd_pure)
qed

text \<open>
  A run of the payout job attempts every eligible schedule once, against the balance at its start, counts
  each once, and changes no other schedule.
\<close>

theorem payout_job_effect:
  assumes "unique_by ps_id (schedules d)"
  shows "(\<exists>c. fst (processDuePayouts py rt d) = Inr (length (filter (eligible (rt_now rt) d) (schedules d)), c) \<and>
      tally_total c = length (filter (eligible (rt_now rt) d) (schedules d))) \<and>
    schedules (snd (processDuePayouts py rt d)) = map (\<lambda>s. if eligible (rt_now rt) d s
      then attempt_row py (rt_now rt) s (payout_balance (address_of_user (ps_userId s) d) d) (address_of_user (ps_userId s) d) s
      else s) (schedules d)"
proof -
  define due where "due = map (\<lambda>s. (s, address_of_user (ps_userId s) d)) (filter (eligible (rt_now rt) d) (schedules d))"
  obtain c where "fst (payout_loop py rt due \<lparr>pt_succeeded = 0, pt_failed = 0, pt_skipped = 0\<rparr> d) = Inr c"
    and "tally_total c = length due"
    using payout_loop_state [of py rt due "\<lparr>pt_succeeded = 0, pt_failed = 0, pt_skipped = 0\<rparr>" d] by (auto simp: tally_total_def)
  then have "\<exists>c. fst (processDuePayouts py rt d) = Inr (length (filter (eligible (rt_now rt) d) (schedules d)), c) \<and>
      tally_total c = length (filter (eligible (rt_now rt) d) (schedules d))"
    by (cases "payout_loop py rt due \<lparr>pt_succeeded = 0, pt_failed = 0, pt_skipped = 0\<rparr> d")
      (simp add: processDuePayouts_def due_def [symmetric] bnd_def, simp add: due_def)
  then show ?thesis
    using payout_job_run [OF assms, of py rt] by blast
qed

text \<open>A schedule is paused exactly when its failures have reached the limit.\<close>

definition paused_when_exhausted :: "payout_config \<Rightarrow> schedule_row \<Rightarrow> bool" where
  "paused_when_exhausted py s \<longleftrightarrow> (ps_paused s \<longleftrightarrow> py_maxAttempts py \<le> ps_failures s)"

lemma attempt_pauses:
  "1 \<le> py_maxAttempts py \<Longrightarrow> paused_when_exhausted py s \<Longrightarrow> \<not> ps_paused s \<Longrightarrow>
   paused_when_exhausted py (attempt_row py now s b a s)"
  by (auto simp: paused_when_exhausted_def attempt_row_def split: sum.splits)

lemma patch_pauses:
  "1 \<le> py_maxAttempts py \<Longrightarrow> paused_when_exhausted py s \<Longrightarrow> paused_when_exhausted py (patch_schedule input threshold now s)"
  by (auto simp: patch_schedule_def paused_when_exhausted_def Let_def split: option.splits)

lemma require_state [simp]: "snd (require x e d) = d"
  by (cases x) (simp_all add: require_def)

lemma upsert_pauses:
  assumes "1 \<le> py_maxAttempts py" and "\<forall>s \<in> set (schedules d). paused_when_exhausted py s"
  shows "\<forall>s \<in> set (schedules (snd (upsertPayoutSchedule rt userId input d))). paused_when_exhausted py s"
proof (cases "user_by_id userId d")
  case None
  with assms(2) show ?thesis by (simp add: upsertPayoutSchedule_def)
next
  case (Some u)
  show ?thesis
  proof (cases "case pi_thresholdStroops input of None \<Rightarrow> Inr None
         | Some s \<Rightarrow> (case big_int s of Inl e \<Rightarrow> Inl e | Inr n \<Rightarrow> Inr (Some n))")
    case (Inl e)
    with Some assms(2) show ?thesis by (simp add: upsertPayoutSchedule_def)
  next
    case (Inr threshold)
    have "paused_when_exhausted py (patch_schedule input threshold (rt_now rt) s)" if "s \<in> set (schedules d)" for s
      using assms that by (intro patch_pauses) auto
    moreover have "paused_when_exhausted py \<lparr>ps_id = i, ps_userId = v, ps_enabled = b, ps_threshold = t, ps_cadence = c,
      ps_paused = False, ps_failures = 0, ps_nextRunAt = n, ps_lastRunAt = None, ps_lastStatus = None\<rparr>" for i v b t c n
      using assms(1) by (simp add: paused_when_exhausted_def)
    ultimately show ?thesis
      using Some Inr assms(2)
      by (auto simp: upsertPayoutSchedule_def require_bnd fresh_id_def upsert_row_def set_update_rows bnd_def andthen_def
          split: option.splits if_splits)
  qed
qed

text \<open>
  C9. The payout job and the settings of creators keep every schedule paused exactly when its consecutive
  failures have reached the limit.
\<close>

theorem payouts_pause_when_exhausted:
  assumes "1 \<le> py_maxAttempts py" and "unique_by ps_id (schedules d)"
    and "\<forall>s \<in> set (schedules d). paused_when_exhausted py s"
  shows "(\<forall>s \<in> set (schedules (snd (processDuePayouts py rt d))). paused_when_exhausted py s) \<and>
    (\<forall>s \<in> set (schedules (snd (upsertPayoutSchedule rt userId input d))). paused_when_exhausted py s)"
proof -
  have "paused_when_exhausted py (attempt_row py now s b a s)" if "s \<in> set (schedules d)" "eligible now d s" for now s b a
    using assms that by (intro attempt_pauses) (auto simp: eligible_def)
  then show ?thesis
    using assms(3) upsert_pauses [OF assms(1,3)] by (auto simp: payout_job_run [OF assms(2)])
qed

text \<open>
  A payout that succeeded leaves the balance it was taken from as it was, since no withdrawal is recorded:
  the next attempt submits the same amount again.
\<close>

theorem paid_balance_is_paid_again:
  assumes "attemptPayout py rt s address d = (Inr r, d')" and "pa_status r = Success"
    and "ps_threshold s' = ps_threshold s" and "py_minAmount py' = py_minAmount py"
  shows "payout_balance address d' = payout_balance address d \<and>
    (\<exists>r'. fst (attemptPayout py' rt' s' address d') = Inr r' \<and>
      (case py_submit py' address (payout_balance address d) of
         Inl _ \<Rightarrow> pa_status r' = Failure | Inr (hash, net) \<Rightarrow> pa_status r' = Success \<and> pa_txHash r' = Some hash))"
proof -
  have d': "payout_balance address d' = payout_balance address d"
    using assms(1) attempt_run(3) [where a = address and py = py and rt = rt and schedule = s and address = address and d = d] by simp
  have enough: "\<not> (payout_balance address d < ps_threshold s \<or> payout_balance address d < py_minAmount py)"
    using assms(1,2) attempt_run(1) [of py rt s address d] by (auto split: if_splits)
  then show ?thesis
    using d' assms(3,4) attempt_run(1) [of py' rt' s' address d'] by (auto split: sum.splits)
qed

section \<open>Examples\<close>

definition daily_row :: schedule_row where
  "daily_row = \<lparr>ps_id = ''s1'', ps_userId = u_id creator_row, ps_enabled = True, ps_threshold = 500, ps_cadence = Daily,
     ps_paused = False, ps_failures = 2, ps_nextRunAt = 0, ps_lastRunAt = None, ps_lastStatus = None\<rparr>"

definition payout_db :: db where
  "payout_db = paid_db\<lparr>schedules := [daily_row]\<rparr>"

text \<open>A keeper that always sends, and one that never does.\<close>

definition sending :: payout_config where
  "sending = \<lparr>py_minAmount = 10, py_maxAttempts = 3, py_backoffBase = 60, py_submit = (\<lambda>_ _. Inr (''h1'', ''990''))\<rparr>"

definition failing :: payout_config where
  "failing = \<lparr>py_minAmount = 10, py_maxAttempts = 3, py_backoffBase = 60, py_submit = (\<lambda>_ _. Inl Undefined)\<rparr>"

lemma payout_facts:
  "unique_by ps_id (schedules payout_db)" "schedules payout_db = [daily_row]" "payout_balance ''GA'' payout_db = 1000"
  "eligible 5000 payout_db daily_row" "address_of_user (ps_userId daily_row) payout_db = ''GA''"
  "\<forall>s \<in> set (schedules payout_db). paused_when_exhausted failing s"
  by (simp_all add: payout_db_def paid_db_def daily_row_def creator_row_def payout_balance_def received_def balance_of_def
      eligible_def find_by_def payout_user_def address_of_user_def paused_when_exhausted_def failing_def some_with_def empty_db_def)

theorem payout_job_effect_witness:
  "map ps_lastStatus (schedules (snd (processDuePayouts sending some_runtime payout_db))) = [Some Success]"
  using payout_job_effect [OF payout_facts(1), THEN conjunct2, of sending some_runtime]
  by (simp add: payout_facts some_runtime_def attempt_row_def) (simp add: sending_def daily_row_def)

theorem payouts_pause_when_exhausted_witness:
  "list_all (paused_when_exhausted failing) (schedules (snd (processDuePayouts failing some_runtime payout_db)))"
  unfolding list_all_iff
  by (rule payouts_pause_when_exhausted [THEN conjunct1, OF _ payout_facts(1,6)])
    (simp add: failing_def)

theorem paid_balance_is_paid_again_witness:
  "\<exists>r'. fst (attemptPayout sending some_runtime daily_row ''GA''
      (snd (attemptPayout sending some_runtime daily_row ''GA'' payout_db))) = Inr r' \<and>
    pa_status r' = Success"
proof -
  obtain r where "fst (attemptPayout sending some_runtime daily_row ''GA'' payout_db) = Inr r" and ok: "pa_status r = Success"
    using attempt_run(1) [of sending some_runtime daily_row "''GA''" payout_db]
    by (auto simp: payout_facts) (simp add: sending_def daily_row_def)
  then have run: "attemptPayout sending some_runtime daily_row ''GA'' payout_db =
      (Inr r, snd (attemptPayout sending some_runtime daily_row ''GA'' payout_db))"
    by (metis prod.collapse)
  show ?thesis
    using paid_balance_is_paid_again [OF run ok, of daily_row sending some_runtime] by (auto simp: sending_def)
qed

end
