(* ===== verification/UrlSafety.thy ===== *)
theory UrlSafety
  imports JsValues "HOL-Library.Word"
begin

text \<open>
  Which addresses a webhook may be sent to (\<open>backend/src/modules/webhooks/webhooks.url-safety.ts\<close>). Addresses are
  texts, as the resolver and the URL parser give them; the parser of URLs, the resolver and the request itself are parameters.
\<close>

unbundle bit_operations_syntax

section \<open>Internet addresses\<close>

text \<open>\<open>net.isIP\<close>: 4, 6 or 0. The compressed form of a version 6 address stands for at least one group.\<close>

definition ipv4_segment :: "string \<Rightarrow> bool" where
  "ipv4_segment s \<longleftrightarrow> all_digits s \<and> (length s = 1 \<or> hd s \<noteq> CHR ''0'') \<and> parse_nat s \<le> 255"

definition is_ipv4 :: "string \<Rightarrow> bool" where
  "is_ipv4 s \<longleftrightarrow> length (split_on CHR ''.'' s) = 4 \<and> list_all ipv4_segment (split_on CHR ''.'' s)"

definition hex_segment :: "string \<Rightarrow> bool" where
  "hex_segment s \<longleftrightarrow> s \<noteq> [] \<and> length s \<le> 4 \<and> list_all (\<lambda>c. hex_value c \<noteq> None) s"

text \<open>The 16-bit groups a list of segments stands for, when it is well formed.\<close>

definition ipv6_groups :: "bool \<Rightarrow> string \<Rightarrow> nat option" where
  "ipv6_groups dotted s =
     (let ps = split_on CHR '':'' s
      in if s = [] then Some 0
         else if list_all hex_segment ps then Some (length ps)
         else if dotted \<and> list_all hex_segment (butlast ps) \<and> is_ipv4 (last ps) then Some (length ps + 1)
         else None)"

fun split_double :: "string \<Rightarrow> (string \<times> string) option" where
  "split_double [] = None"
| "split_double (c # cs) =
     (if starts_with (c # cs) ''::'' then Some ([], drop 2 (c # cs))
      else (case split_double cs of None \<Rightarrow> None | Some (l, r) \<Rightarrow> Some (c # l, r)))"

definition ipv6_body :: "string \<Rightarrow> bool" where
  "ipv6_body s = (case split_double s of
       None \<Rightarrow> ipv6_groups True s = Some 8
     | Some (l, r) \<Rightarrow> (case (ipv6_groups False l, ipv6_groups True r) of
           (Some m, Some n) \<Rightarrow> m + n \<le> 7 | _ \<Rightarrow> False))"

definition zone_char :: "char \<Rightarrow> bool" where
  "zone_char c \<longleftrightarrow> is_digit c \<or> is_upper c \<or> is_lower c \<or> c \<in> {CHR ''-'', CHR ''.'', CHR '':''}"

definition is_ipv6 :: "string \<Rightarrow> bool" where
  "is_ipv6 s = (case split_on CHR ''%'' s of
       [body] \<Rightarrow> ipv6_body body
     | [body, zone] \<Rightarrow> ipv6_body body \<and> zone \<noteq> [] \<and> list_all zone_char zone
     | _ \<Rightarrow> False)"

definition isIP :: "string \<Rightarrow> nat" where
  "isIP s = (if is_ipv4 s then 4 else if is_ipv6 s then 6 else 0)"

section \<open>Public addresses\<close>

definition IPV4_BLOCKS :: "(32 word \<times> 32 word) list" where
  "IPV4_BLOCKS =
    [(0x00000000, 0xff000000), (0x0a000000, 0xff000000), (0x64400000, 0xffc00000), (0x7f000000, 0xff000000),
     (0xa9fe0000, 0xffff0000), (0xac100000, 0xfff00000), (0xc0000000, 0xffffff00), (0xc0000200, 0xffffff00),
     (0xc0a80000, 0xffff0000), (0xc6120000, 0xfffe0000), (0xc6336400, 0xffffff00), (0xcb007100, 0xffffff00),
     (0xe0000000, 0xf0000000), (0xf0000000, 0xf0000000)]"

definition octet :: "jsnum \<Rightarrow> bool" where
  "octet n \<longleftrightarrow> is_integer n \<and> j_le (Fin 0) n \<and> j_le n (Fin 255)"

definition ipv4ToInt :: "string \<Rightarrow> 32 word option" where
  "ipv4ToInt address =
     (case map number_of_string (split_on CHR ''.'' address) of
        [a, b, c, d] \<Rightarrow>
          if octet a \<and> octet b \<and> octet c \<and> octet d
          then Some (push_bit 24 (word_of_int (j_to_int a)) OR push_bit 16 (word_of_int (j_to_int b)) OR
                     push_bit 8 (word_of_int (j_to_int c)) OR word_of_int (j_to_int d))
          else None
      | _ \<Rightarrow> None)"

definition isPrivateIpv4 :: "string \<Rightarrow> bool" where
  "isPrivateIpv4 address = (case ipv4ToInt address of
       None \<Rightarrow> True
     | Some v \<Rightarrow> list_ex (\<lambda>(network, mask). v AND mask = network AND mask) IPV4_BLOCKS)"

definition dotted_digits :: "string \<Rightarrow> bool" where
  "dotted_digits s \<longleftrightarrow> length (split_on CHR ''.'' s) = 4 \<and> list_all all_digits (split_on CHR ''.'' s)"

text \<open>The match of \<open>/::ffff:(\d+\.\d+\.\d+\.\d+)$/\<close> and of its hexadecimal form, which is anchored at both ends.\<close>

fun mapped_dotted :: "string \<Rightarrow> string option" where
  "mapped_dotted [] = None"
| "mapped_dotted (c # cs) =
     (if starts_with (c # cs) ''::ffff:'' \<and> dotted_digits (drop 7 (c # cs)) then Some (drop 7 (c # cs))
      else mapped_dotted cs)"

definition mapped_hex :: "string \<Rightarrow> (nat \<times> nat) option" where
  "mapped_hex s =
     (if \<not> starts_with s ''::ffff:'' then None
      else (case split_on CHR '':'' (drop 7 s) of
          [h, l] \<Rightarrow> if hex_segment h \<and> hex_segment l
            then (case (parse_radix 16 0 h, parse_radix 16 0 l) of (Some m, Some n) \<Rightarrow> Some (m, n) | _ \<Rightarrow> None)
            else None
        | _ \<Rightarrow> None))"

definition dotted :: "nat \<Rightarrow> nat \<Rightarrow> nat \<Rightarrow> nat \<Rightarrow> string" where
  "dotted a b c d = show_nat a @ ''.'' @ show_nat b @ ''.'' @ show_nat c @ ''.'' @ show_nat d"

definition isPrivateIpv6 :: "string \<Rightarrow> bool" where
  "isPrivateIpv6 address =
     (let s = hd (split_on CHR ''%'' (to_lower address))
      in if s = ''::'' \<or> s = ''::1'' \<or> starts_with s ''fc'' \<or> starts_with s ''fd'' \<or>
            (starts_with s ''fe'' \<and> (case drop 2 s of [] \<Rightarrow> False | c # _ \<Rightarrow> c \<in> {CHR ''8'', CHR ''9'', CHR ''a'', CHR ''b''})) \<or>
            starts_with s ''ff'' \<or> starts_with s ''2001:db8:''
         then True
         else (case mapped_dotted s of Some v4 \<Rightarrow> isPrivateIpv4 v4
           | None \<Rightarrow> (case mapped_hex s of
               Some (high, low) \<Rightarrow> isPrivateIpv4 (dotted (high div 256) (high mod 256) (low div 256) (low mod 256))
             | None \<Rightarrow> False)))"

definition isPublicIp :: "string \<Rightarrow> bool" where
  "isPublicIp address =
     (if isIP address = 4 then \<not> isPrivateIpv4 address
      else if isIP address = 6 then \<not> isPrivateIpv6 address else False)"

section \<open>Checking and fetching a URL\<close>

record url =
  url_protocol :: string
  url_username :: string
  url_password :: string
  url_hostname :: string
  url_href :: string

definition bracketed :: "string \<Rightarrow> bool" where
  "bracketed h \<longleftrightarrow> starts_with h ''['' \<and> ends_with h '']''"

definition ip_host :: "string \<Rightarrow> string" where
  "ip_host h = (if bracketed h then butlast (tl h) else h)"

definition parseWebhookUrl :: "(string \<Rightarrow> url option) \<Rightarrow> string \<Rightarrow> jsval + url" where
  "parseWebhookUrl parse raw = (case parse raw of
       None \<Rightarrow> Inl (js_error ''Webhook URL must be a valid URL'')
     | Some u \<Rightarrow>
         (let hostname = to_lower (url_hostname u); ipHost = ip_host hostname
          in if url_protocol u \<noteq> ''https:'' then Inl (js_error ''Webhook URL must use HTTPS'')
             else if url_username u \<noteq> [] \<or> url_password u \<noteq> [] then Inl (js_error ''Webhook URL must not contain embedded credentials'')
             else if hostname = [] \<or> hostname = ''localhost'' \<or> ends_with hostname ''.localhost''
               then Inl (js_error ''Webhook URL must use a public hostname'')
             else if isIP ipHost \<noteq> 0 \<and> \<not> isPublicIp ipHost then Inl (js_error ''Webhook URL resolves to a non-public address'')
             else Inr u))"

definition assertSafeWebhookUrl ::
  "(string \<Rightarrow> url option) \<Rightarrow> (string \<Rightarrow> jsval + string list) \<Rightarrow> string \<Rightarrow> jsval + url" where
  "assertSafeWebhookUrl parse resolver raw = (case parseWebhookUrl parse raw of
       Inl e \<Rightarrow> Inl e
     | Inr u \<Rightarrow>
         (let hostname = ip_host (url_hostname u)
          in if isIP hostname \<noteq> 0 then Inr u
             else (case resolver hostname of
                 Inl e \<Rightarrow> Inl (js_error ''Webhook hostname could not be resolved'')
               | Inr addresses \<Rightarrow>
                   if addresses = [] \<or> list_ex (\<lambda>a. \<not> isPublicIp a) addresses
                   then Inl (js_error ''Webhook hostname resolved to a non-public address'') else Inr u)))"

text \<open>A response: its status, status text, and the chunks of its body with the error that may end it.\<close>

record response =
  re_status :: int
  re_statusText :: string
  re_chunks :: "nat list list"
  re_readError :: "jsval option"

definition safeWebhookFetch ::
  "(string \<Rightarrow> url option) \<Rightarrow> (string \<Rightarrow> jsval + string list) \<Rightarrow> string \<Rightarrow> (url \<Rightarrow> jsval + response) \<Rightarrow> jsval + response" where
  "safeWebhookFetch parse resolver raw fetch = (case assertSafeWebhookUrl parse resolver raw of
       Inl e \<Rightarrow> Inl e
     | Inr u \<Rightarrow> (case fetch u of
           Inl e \<Rightarrow> Inl e
         | Inr r \<Rightarrow> if 300 \<le> re_status r \<and> re_status r < 400 then Inl (js_error ''Webhook redirects are not allowed'') else Inr r))"

section \<open>The blocks of reserved addresses\<close>

lemma split_dotted: "split_on CHR ''.'' (dotted a b c d) = [show_nat a, show_nat b, show_nat c, show_nat d]"
  using show_nat_no [of "CHR ''.''"] by (simp add: dotted_def split_on_append split_on_no is_digit_def char_code_def)

lemma segment_show: "n < 256 \<Longrightarrow> ipv4_segment (show_nat n)"
  using length_show_nat [of n] hd_show_nat [of n] by (auto simp: ipv4_segment_def)

lemma dotted_is_ipv4: "a < 256 \<Longrightarrow> b < 256 \<Longrightarrow> c < 256 \<Longrightarrow> d < 256 \<Longrightarrow> is_ipv4 (dotted a b c d)"
  by (simp add: is_ipv4_def split_dotted segment_show)

definition packed :: "nat \<Rightarrow> nat \<Rightarrow> nat \<Rightarrow> nat \<Rightarrow> 32 word" where
  "packed a b c d = push_bit 24 (word_of_nat a) OR push_bit 16 (word_of_nat b) OR push_bit 8 (word_of_nat c) OR word_of_nat d"

lemma octet_nat: "n < 256 \<Longrightarrow> octet (Fin (of_nat n))"
  by (cases n; auto simp: octet_def is_integer_def j_le_def j_eq_def)

lemma j_to_int_nat: "j_to_int (Fin (of_nat n)) = int n"
  by (simp add: j_to_int_def)

lemma dotted_value:
  "a < 256 \<Longrightarrow> b < 256 \<Longrightarrow> c < 256 \<Longrightarrow> d < 256 \<Longrightarrow> ipv4ToInt (dotted a b c d) = Some (packed a b c d)"
  by (simp add: ipv4ToInt_def split_dotted number_of_digits octet_nat j_to_int_nat packed_def)

lemma nat_or_add: "m < 2 ^ n \<Longrightarrow> 2 ^ n * k OR m = 2 ^ n * k + (m :: nat)"
proof -
  assume "m < 2 ^ n"
  then have "take_bit n m = m" by (simp add: take_bit_nat_eq_self)
  then have "\<not> bit m i" if "n \<le> i" for i using that by (metis bit_take_bit_iff not_le)
  then have "push_bit n k AND m = 0" by (auto simp: bit_eq_iff bit_simps)
  then show ?thesis using disjunctive_add_eq_or [of "push_bit n k" m] by (simp add: push_bit_eq_mult mult.commute)
qed

lemma packed_add:
  assumes "b < 256" "c < 256" "d < 256"
  shows "packed a b c d = word_of_nat (16777216 * a + 65536 * b + 256 * c + d)"
proof -
  have "256 * c OR d = 256 * c + d"
    using nat_or_add [of d 8 c] assms by simp
  moreover have "65536 * b OR (256 * c + d) = 65536 * b + (256 * c + d)"
    using nat_or_add [of "256 * c + d" 16 b] assms by simp
  moreover have "16777216 * a OR (65536 * b + (256 * c + d)) = 16777216 * a + (65536 * b + (256 * c + d))"
    using nat_or_add [of "65536 * b + (256 * c + d)" 24 a] assms by simp
  ultimately have "16777216 * a OR (65536 * b OR (256 * c OR d)) = 16777216 * a + 65536 * b + 256 * c + d"
    by simp
  then have "word_of_nat (16777216 * a OR (65536 * b OR (256 * c OR d))) =
      (word_of_nat (16777216 * a + 65536 * b + 256 * c + d) :: 32 word)"
    by (rule arg_cong)
  then show ?thesis
    by (simp add: packed_def of_nat_or_eq push_bit_eq_mult mult.commute ac_simps)
qed

lemma unat_packed:
  assumes "a < 256" "b < 256" "c < 256" "d < 256"
  shows "unat (packed a b c d) = 16777216 * a + 65536 * b + 256 * c + d"
  unfolding packed_add [OF assms(2-)] unat_of_nat using assms by (simp add: take_bit_nat_eq_self)

lemma masked_eq:
  fixes v w :: "32 word"
  assumes "m = push_bit k (mask (32 - k))" and "k \<le> 32"
  shows "v AND m = w AND m \<longleftrightarrow> unat v div 2 ^ k = unat w div 2 ^ k"
proof -
  have m: "bit m n \<longleftrightarrow> k \<le> n \<and> n < 32" for n
    using assms by (auto simp: bit_simps)
  have "v AND m = w AND m \<longleftrightarrow> drop_bit k v = drop_bit k w"
  proof
    assume eq: "v AND m = w AND m"
    show "drop_bit k v = drop_bit k w"
    proof (rule bit_word_eqI)
      fix i assume "i < LENGTH(32)"
      have "bit (v AND m) (k + i) = bit (w AND m) (k + i)" by (simp add: eq)
      then show "bit (drop_bit k v) i = bit (drop_bit k w) i"
        using bit_imp_le_length [of v "k + i"] bit_imp_le_length [of w "k + i"] by (auto simp: bit_and_iff m bit_drop_bit_eq)
    qed
  next
    assume eq: "drop_bit k v = drop_bit k w"
    show "v AND m = w AND m"
    proof (rule bit_word_eqI)
      fix i assume "i < LENGTH(32)"
      have "bit (drop_bit k v) (i - k) = bit (drop_bit k w) (i - k)" by (simp add: eq)
      then show "bit (v AND m) i = bit (w AND m) i" by (auto simp: bit_and_iff m bit_drop_bit_eq)
    qed
  qed
  then show ?thesis
    by (simp only: word_unat_eq_iff [of "drop_bit k v"] unat_drop_bit_eq drop_bit_eq_div [where 'a = nat])
qed

lemma blocks:
  fixes v :: "32 word"
  shows "v AND 0xff000000 = w AND 0xff000000 \<longleftrightarrow> unat v div 16777216 = unat w div 16777216"
    "v AND 0xffc00000 = w AND 0xffc00000 \<longleftrightarrow> unat v div 4194304 = unat w div 4194304"
    "v AND 0xffff0000 = w AND 0xffff0000 \<longleftrightarrow> unat v div 65536 = unat w div 65536"
    "v AND 0xfff00000 = w AND 0xfff00000 \<longleftrightarrow> unat v div 1048576 = unat w div 1048576"
    "v AND 0xffffff00 = w AND 0xffffff00 \<longleftrightarrow> unat v div 256 = unat w div 256"
    "v AND 0xfffe0000 = w AND 0xfffe0000 \<longleftrightarrow> unat v div 131072 = unat w div 131072"
    "v AND 0xf0000000 = w AND 0xf0000000 \<longleftrightarrow> unat v div 268435456 = unat w div 268435456"
  using masked_eq [of "0xff000000" 24 v w] masked_eq [of "0xffc00000" 22 v w] masked_eq [of "0xffff0000" 16 v w]
    masked_eq [of "0xfff00000" 20 v w] masked_eq [of "0xffffff00" 8 v w] masked_eq [of "0xfffe0000" 17 v w]
    masked_eq [of "0xf0000000" 28 v w]
  by (simp_all add: mask_numeral push_bit_eq_mult)

text \<open>The ranges the table of blocks stands for.\<close>

definition reserved_ipv4 :: "nat \<Rightarrow> nat \<Rightarrow> nat \<Rightarrow> bool" where
  "reserved_ipv4 a b c \<longleftrightarrow> a = 0 \<or> a = 10 \<or> a = 127 \<or> 224 \<le> a \<or>
     (a = 100 \<and> 64 \<le> b \<and> b < 128) \<or> (a = 169 \<and> b = 254) \<or> (a = 172 \<and> 16 \<le> b \<and> b < 32) \<or>
     (a = 192 \<and> (b = 168 \<or> b = 0 \<and> (c = 0 \<or> c = 2))) \<or> (a = 198 \<and> (b = 18 \<or> b = 19 \<or> b = 51 \<and> c = 100)) \<or>
     (a = 203 \<and> b = 0 \<and> c = 113)"

lemma packed_div:
  fixes a b c d :: nat
  defines "v \<equiv> 16777216 * a + 65536 * b + 256 * c + d"
  assumes "b < 256" "c < 256" "d < 256"
  shows "v div 16777216 = a" "v div 4194304 = 4 * a + b div 64" "v div 65536 = 256 * a + b"
    "v div 1048576 = 16 * a + b div 16" "v div 256 = 65536 * a + 256 * b + c" "v div 131072 = 128 * a + b div 2"
    "v div 268435456 = a div 16"
  using assms by (simp_all add: v_def)

lemma two_digits:
  fixes b y k :: nat
  assumes "b < k" "y < k"
  shows "k * a + b = k * x + y \<longleftrightarrow> a = x \<and> b = y"
proof -
  have "(k * a + b) div k = a" "(k * a + b) mod k = b" "(k * x + y) div k = x" "(k * x + y) mod k = y"
    using assms by simp_all
  then show ?thesis by metis
qed

lemma three_bytes:
  assumes "(b :: nat) < 256" "c < 256" "y < 256" "z < 256"
  shows "65536 * a + 256 * b + c = 65536 * x + 256 * y + z \<longleftrightarrow> a = x \<and> b = y \<and> c = z"
  using two_digits [of c 256 z "256 * a + b" "256 * x + y"] two_digits [of b 256 y a x] assms by (simp add: algebra_simps)

lemma div_is: "0 < (n :: nat) \<Longrightarrow> a div n = k \<longleftrightarrow> n * k \<le> a \<and> a < n * (k + 1)"
  using less_eq_div_iff_mult_less_eq [of n k a] div_less_iff_less_mult [of n a "k + 1"] by (auto simp: mult.commute)

lemma ranges:
  fixes a b c :: nat
  assumes "b < 256" "c < 256"
  shows "4 * a + b div 64 = 401 \<longleftrightarrow> a = 100 \<and> 64 \<le> b \<and> b < 128"
    "256 * a + b = 43518 \<longleftrightarrow> a = 169 \<and> b = 254"
    "16 * a + b div 16 = 2753 \<longleftrightarrow> a = 172 \<and> 16 \<le> b \<and> b < 32"
    "256 * a + b = 49320 \<longleftrightarrow> a = 192 \<and> b = 168"
    "128 * a + b div 2 = 25353 \<longleftrightarrow> a = 198 \<and> (b = 18 \<or> b = 19)"
    "65536 * a + 256 * b + c = 12582912 \<longleftrightarrow> a = 192 \<and> b = 0 \<and> c = 0"
    "65536 * a + 256 * b + c = 12582914 \<longleftrightarrow> a = 192 \<and> b = 0 \<and> c = 2"
    "65536 * a + 256 * b + c = 12989284 \<longleftrightarrow> a = 198 \<and> b = 51 \<and> c = 100"
    "65536 * a + 256 * b + c = 13303921 \<longleftrightarrow> a = 203 \<and> b = 0 \<and> c = 113"
proof -
  have d: "b div 64 < 4" "b div 16 < 16" "b div 2 < 128" using assms(1) by (simp_all add: div_less_iff_less_mult)
  show "4 * a + b div 64 = 401 \<longleftrightarrow> a = 100 \<and> 64 \<le> b \<and> b < 128"
    using two_digits [OF d(1), of 1 a 100] div_is [of 64 b 1] by simp
  show "16 * a + b div 16 = 2753 \<longleftrightarrow> a = 172 \<and> 16 \<le> b \<and> b < 32"
    using two_digits [OF d(2), of 1 a 172] div_is [of 16 b 1] by simp
  have "b div 2 = 9 \<longleftrightarrow> b = 18 \<or> b = 19" using div_is [of 2 b 9] by auto
  then show "128 * a + b div 2 = 25353 \<longleftrightarrow> a = 198 \<and> (b = 18 \<or> b = 19)"
    using two_digits [OF d(3), of 9 a 198] by simp
  show "256 * a + b = 43518 \<longleftrightarrow> a = 169 \<and> b = 254" "256 * a + b = 49320 \<longleftrightarrow> a = 192 \<and> b = 168"
    using two_digits [OF assms(1), of 254 a 169] two_digits [OF assms(1), of 168 a 192] by simp_all
  show "65536 * a + 256 * b + c = 12582912 \<longleftrightarrow> a = 192 \<and> b = 0 \<and> c = 0"
    using three_bytes [OF assms, of 0 0 a 192] by simp
  show "65536 * a + 256 * b + c = 12582914 \<longleftrightarrow> a = 192 \<and> b = 0 \<and> c = 2"
    using three_bytes [OF assms, of 0 2 a 192] by simp
  show "65536 * a + 256 * b + c = 12989284 \<longleftrightarrow> a = 198 \<and> b = 51 \<and> c = 100"
    using three_bytes [OF assms, of 51 100 a 198] by simp
  show "65536 * a + 256 * b + c = 13303921 \<longleftrightarrow> a = 203 \<and> b = 0 \<and> c = 113"
    using three_bytes [OF assms, of 0 113 a 203] by simp
qed

lemma high_block: "(a :: nat) < 256 \<Longrightarrow> (a div 16 = 14 \<or> a div 16 = 15) \<longleftrightarrow> 224 \<le> a"
  by (auto simp: div_is)

lemma private_iff_reserved:
  assumes "a < 256" "b < 256" "c < 256" "d < 256"
  shows "isPrivateIpv4 (dotted a b c d) \<longleftrightarrow> reserved_ipv4 a b c"
proof -
  have v: "ipv4ToInt (dotted a b c d) = Some (packed a b c d)" by (rule dotted_value) (rule assms)+
  have "isPrivateIpv4 (dotted a b c d) \<longleftrightarrow> (
      a = 0 \<or> a = 10 \<or> 4 * a + b div 64 = 401 \<or> a = 127 \<or> 256 * a + b = 43518 \<or>
      16 * a + b div 16 = 2753 \<or> 65536 * a + 256 * b + c = 12582912 \<or> 65536 * a + 256 * b + c = 12582914 \<or>
      256 * a + b = 49320 \<or> 128 * a + b div 2 = 25353 \<or> 65536 * a + 256 * b + c = 12989284 \<or>
      65536 * a + 256 * b + c = 13303921 \<or> a div 16 = 14 \<or> a div 16 = 15)"
    unfolding isPrivateIpv4_def v option.case IPV4_BLOCKS_def list_ex_Cons_iff list_ex_Nil_iff prod.case blocks unat_packed [OF assms] packed_div [OF assms(2-)]
    by simp
  also have "\<dots> \<longleftrightarrow> reserved_ipv4 a b c"
    unfolding reserved_ipv4_def ranges [OF assms(2,3)] high_block [OF assms(1)] by argo
  finally show ?thesis .
qed

section \<open>Requests to reserved addresses\<close>

lemma dotted_isIP: "a < 256 \<Longrightarrow> b < 256 \<Longrightarrow> c < 256 \<Longrightarrow> d < 256 \<Longrightarrow> isIP (dotted a b c d) = 4"
  by (simp add: isIP_def dotted_is_ipv4)

lemma dotted_public:
  "a < 256 \<Longrightarrow> b < 256 \<Longrightarrow> c < 256 \<Longrightarrow> d < 256 \<Longrightarrow> isPublicIp (dotted a b c d) \<longleftrightarrow> \<not> reserved_ipv4 a b c"
  by (simp add: isPublicIp_def dotted_isIP private_iff_reserved)

lemma lower_dotted [simp]: "to_lower (dotted a b c d) = dotted a b c d"
proof -
  have "to_lower_char CHR ''.'' = CHR ''.''" by (simp add: to_lower_char_def is_upper_def char_code_def)
  then show ?thesis
    using lower_show_nat by (simp add: dotted_def to_lower_def)
qed

lemma dotted_host [simp]: "ip_host (dotted a b c d) = dotted a b c d"
proof -
  obtain x xs where x: "show_nat a = x # xs" by (cases "show_nat a") auto
  then have "x \<noteq> CHR ''[''" using show_nat_hd [OF x] by (auto simp: is_digit_def char_code_def)
  then show ?thesis by (simp add: ip_host_def bracketed_def dotted_def x)
qed

text \<open>
  C10. No request is made to a URL whose host is a reserved version 4 address, or is a name that resolves to one among
  others: the result is the same error whatever a request would answer.
\<close>

theorem reserved_address_never_fetched:
  assumes "parse raw = Some u" and "a < 256" "b < 256" "c < 256" "d < 256" and "reserved_ipv4 a b c"
    and "url_hostname u = dotted a b c d \<or>
      (isIP (ip_host (url_hostname u)) = 0 \<and> resolver (ip_host (url_hostname u)) = Inr addresses \<and> dotted a b c d \<in> set addresses)"
  shows "\<exists>e. \<forall>fetch. safeWebhookFetch parse resolver raw fetch = Inl e"
proof -
  have bad: "\<not> isPublicIp (dotted a b c d)" using assms(2-6) by (simp add: dotted_public)
  have "\<exists>e. assertSafeWebhookUrl parse resolver raw = Inl e"
  proof (cases "url_hostname u = dotted a b c d")
    case True
    then show ?thesis
      using assms(1-5) bad by (simp add: assertSafeWebhookUrl_def parseWebhookUrl_def Let_def dotted_isIP)
  next
    case False
    then have "isIP (ip_host (url_hostname u)) = 0" "resolver (ip_host (url_hostname u)) = Inr addresses"
      "list_ex (\<lambda>x. \<not> isPublicIp x) addresses"
      using assms(7) bad by (auto simp: list_ex_iff)
    then show ?thesis
      by (cases "parseWebhookUrl parse raw") (auto simp: assertSafeWebhookUrl_def parseWebhookUrl_def assms(1) Let_def split: if_splits)
  qed
  then show ?thesis by (auto simp: safeWebhookFetch_def)
qed

text \<open>A version 6 address that embeds a loopback address in the deprecated compatible form counts as public.\<close>

lemma compatible_form_is_public: "isPublicIp ''::7f00:1''"
  by code_simp

definition local_url :: url where
  "local_url = \<lparr>url_protocol = ''https:'', url_username = [], url_password = [], url_hostname = ''hooks.example'', url_href = ''https://hooks.example/''\<rparr>"

theorem reserved_address_never_fetched_witness:
  "\<exists>e. safeWebhookFetch (\<lambda>_. Some local_url) (\<lambda>_. Inr [''8.8.8.8'', ''10.0.0.7'']) ''https://hooks.example/'' (\<lambda>_. Inl Undefined) = Inl e"
proof -
  have "isIP (ip_host (url_hostname local_url)) = 0" "dotted 10 0 0 7 = ''10.0.0.7''" by code_simp+
  then show ?thesis
    using reserved_address_never_fetched [of "\<lambda>_. Some local_url" "''https://hooks.example/''" local_url 10 0 0 7
        "\<lambda>_. Inr [''8.8.8.8'', ''10.0.0.7'']" "[''8.8.8.8'', ''10.0.0.7'']"]
    by (auto simp: reserved_ipv4_def)
qed

end
