(* ===== verification/WebhookSigning.thy ===== *)
theory WebhookSigning
  imports JsValues
begin

text \<open>
  How a webhook delivery is signed and checked (\<open>backend/src/modules/webhooks/webhooks.signing.ts\<close>). The HMAC is a
  parameter.
\<close>

section \<open>Signing\<close>

definition DEFAULT_WEBHOOK_TOLERANCE_SECONDS :: int where
  "DEFAULT_WEBHOOK_TOLERANCE_SECONDS = 300"

text \<open>A time stamp is text or a number; the text of a number that is not a small integer is a parameter.\<close>

datatype stamp = StampText string | StampNumber jsnum

record signer =
  sg_hmac :: "string \<Rightarrow> string \<Rightarrow> string"
  sg_fraction :: "rat \<Rightarrow> string"

definition number_text :: "signer \<Rightarrow> jsnum \<Rightarrow> string" where
  "number_text sg n = (case n of
       NaN \<Rightarrow> ''NaN'' | Infinity \<Rightarrow> ''Infinity'' | NegInfinity \<Rightarrow> ''-Infinity''
     | Fin r \<Rightarrow> if r = of_int \<lfloor>r\<rfloor> \<and> \<bar>r\<bar> < 10 ^ 21 then show_int \<lfloor>r\<rfloor> else sg_fraction sg r)"

definition stamp_text :: "signer \<Rightarrow> stamp \<Rightarrow> string" where
  "stamp_text sg t = (case t of StampText s \<Rightarrow> s | StampNumber n \<Rightarrow> number_text sg n)"

definition stamp_number :: "stamp \<Rightarrow> jsnum" where
  "stamp_number t = (case t of StampText s \<Rightarrow> number_of_string s | StampNumber n \<Rightarrow> n)"

definition signingInput :: "signer \<Rightarrow> stamp \<Rightarrow> string \<Rightarrow> string \<Rightarrow> string" where
  "signingInput sg timestamp deliveryId payload = stamp_text sg timestamp @ ''.'' @ deliveryId @ ''.'' @ payload"

definition signWebhookPayload :: "signer \<Rightarrow> string \<Rightarrow> string \<Rightarrow> stamp option \<Rightarrow> string option \<Rightarrow> string" where
  "signWebhookPayload sg secret payload timestamp deliveryId =
     sg_hmac sg secret (case (timestamp, deliveryId) of
         (Some t, Some i) \<Rightarrow> signingInput sg t i payload | _ \<Rightarrow> payload)"

text \<open>\<open>Buffer.from(s, 'hex')\<close> stops at the first pair that is not hexadecimal.\<close>

fun hex_bytes :: "string \<Rightarrow> nat list" where
  "hex_bytes (a # b # r) = (case (hex_value a, hex_value b) of (Some x, Some y) \<Rightarrow> (16 * x + y) # hex_bytes r | _ \<Rightarrow> [])"
| "hex_bytes r = []"

definition hex_digest :: "string \<Rightarrow> bool" where
  "hex_digest s \<longleftrightarrow> length s = 64 \<and> list_all (\<lambda>c. hex_value c \<noteq> None) s"

definition equalHex :: "string \<Rightarrow> string \<Rightarrow> bool" where
  "equalHex expectedHex received =
     (let normalized = (if starts_with received ''sha256='' then drop 7 received else received)
      in hex_digest normalized \<and> hex_bytes expectedHex = hex_bytes normalized)"

definition verifyWebhookSignature :: "signer \<Rightarrow> string \<Rightarrow> string \<Rightarrow> string \<Rightarrow> bool" where
  "verifyWebhookSignature sg secret payload signature = equalHex (signWebhookPayload sg secret payload None None) signature"

record TimestampedWebhookVerification =
  vf_payload :: string
  vf_timestamp :: stamp
  vf_deliveryId :: string
  vf_signature :: string
  vf_secrets :: "string list"
  vf_nowMs :: int
  vf_toleranceSeconds :: "int option"

definition verifyTimestampedWebhookSignature :: "signer \<Rightarrow> TimestampedWebhookVerification \<Rightarrow> bool" where
  "verifyTimestampedWebhookSignature sg v = (case stamp_number (vf_timestamp v) of
       Fin t \<Rightarrow>
         (let nowSeconds = vf_nowMs v div 1000;
              tolerance = (case vf_toleranceSeconds v of None \<Rightarrow> DEFAULT_WEBHOOK_TOLERANCE_SECONDS | Some x \<Rightarrow> x)
          in \<bar>of_int nowSeconds - t\<bar> \<le> of_int tolerance \<and> js_trim (vf_deliveryId v) \<noteq> [] \<and>
             list_ex (\<lambda>secret. equalHex (signWebhookPayload sg secret (vf_payload v) (Some (StampNumber (Fin t)))
               (Some (vf_deliveryId v))) (vf_signature v)) (vf_secrets v))
     | _ \<Rightarrow> False)"

record WebhookSigningHeaders =
  sh_timestamp :: string
  sh_deliveryId :: string
  sh_signature :: string

definition createWebhookSigningHeaders :: "signer \<Rightarrow> string \<Rightarrow> string \<Rightarrow> string \<Rightarrow> int \<Rightarrow> WebhookSigningHeaders" where
  "createWebhookSigningHeaders sg secret payload deliveryId timestampSeconds =
     \<lparr>sh_timestamp = number_text sg (j_int timestampSeconds), sh_deliveryId = deliveryId,
      sh_signature = ''sha256='' @ signWebhookPayload sg secret payload (Some (StampNumber (j_int timestampSeconds))) (Some deliveryId)\<rparr>"

text \<open>What the receiver checks of a delivery with these headers.\<close>

definition received_with :: "WebhookSigningHeaders \<Rightarrow> string \<Rightarrow> string list \<Rightarrow> int \<Rightarrow> int option \<Rightarrow> TimestampedWebhookVerification" where
  "received_with h payload secrets now tolerance = \<lparr>vf_payload = payload, vf_timestamp = StampText (sh_timestamp h),
     vf_deliveryId = sh_deliveryId h, vf_signature = sh_signature h, vf_secrets = secrets, vf_nowMs = now,
     vf_toleranceSeconds = tolerance\<rparr>"

lemma number_text_int: "\<bar>t\<bar> < 10 ^ 21 \<Longrightarrow> number_text sg (j_int t) = show_int t"
proof -
  assume "\<bar>t\<bar> < 10 ^ 21"
  then have "\<bar>rat_of_int t\<bar> < of_int (10 ^ 21)" by (metis of_int_abs of_int_less_iff)
  then show ?thesis by (simp add: number_text_def)
qed

lemma equal_hex_same: "hex_digest h \<Longrightarrow> equalHex h (''sha256='' @ h)"
  using starts_with_append [of "''sha256=''" h] by (simp add: equalHex_def)

lemma signed_delivery_run:
  assumes "secret \<in> set secrets" and "\<And>x. hex_digest (sg_hmac sg secret x)" and "js_trim deliveryId \<noteq> []"
    and "0 \<le> t" and "t < 10 ^ 21"
  shows "verifyTimestampedWebhookSignature sg
      (received_with (createWebhookSigningHeaders sg secret payload deliveryId t) payload secrets now tolerance) \<longleftrightarrow>
    \<bar>now div 1000 - t\<bar> \<le> (case tolerance of None \<Rightarrow> 300 | Some x \<Rightarrow> x)"
proof -
  let ?tol = "case tolerance of None \<Rightarrow> 300 | Some x \<Rightarrow> x"
  have n: "number_of_string (number_text sg (j_int t)) = j_int t"
    using assms(4,5) by (simp add: number_text_int show_int_nonneg number_of_show_nat)
  have "\<bar>of_int (now div 1000) - rat_of_int t\<bar> = of_int \<bar>now div 1000 - t\<bar>" by simp
  then have tol: "\<bar>of_int (now div 1000) - rat_of_int t\<bar> \<le> of_int ?tol \<longleftrightarrow> \<bar>now div 1000 - t\<bar> \<le> ?tol"
    by (simp only: of_int_le_iff)
  have sig: "list_ex (\<lambda>s. equalHex (signWebhookPayload sg s payload (Some (StampNumber (j_int t))) (Some deliveryId))
      (''sha256='' @ signWebhookPayload sg secret payload (Some (StampNumber (j_int t))) (Some deliveryId))) secrets"
    using assms(1,2) equal_hex_same by (fastforce simp: list_ex_iff signWebhookPayload_def)
  show ?thesis
    unfolding verifyTimestampedWebhookSignature_def DEFAULT_WEBHOOK_TOLERANCE_SECONDS_def
    using tol sig assms(3)
    by (simp add: received_with_def createWebhookSigningHeaders_def stamp_number_def n Let_def)
qed

text \<open>
  C12. A delivery signed with one of the receiver's secrets is accepted as long as its time stamp lies within the
  tolerance, and refused afterwards.
\<close>

theorem signed_delivery_verifies:
  assumes "secret \<in> set secrets" and "\<And>x. hex_digest (sg_hmac sg secret x)" and "js_trim deliveryId \<noteq> []"
    and "0 \<le> t" and "t < 10 ^ 21"
  shows "verifyTimestampedWebhookSignature sg
      (received_with (createWebhookSigningHeaders sg secret payload deliveryId t) payload secrets now tolerance) \<longleftrightarrow>
    \<bar>now div 1000 - t\<bar> \<le> (case tolerance of None \<Rightarrow> 300 | Some x \<Rightarrow> x)"
  by (rule signed_delivery_run) (rule assms)+

lemma append_dot_eq: "d \<notin> set a \<Longrightarrow> d \<notin> set b \<Longrightarrow> a @ d # x = b @ d # y \<longleftrightarrow> a = b \<and> x = y"
  by (induction a arbitrary: b; case_tac b) auto

text \<open>A dot in the body can be moved: the tail of the body passes under a longer delivery id.\<close>

lemma dotted_body_resplits:
  "signWebhookPayload sg secret (a @ ''.'' @ b) (Some t) (Some deliveryId) =
   signWebhookPayload sg secret b (Some t) (Some (deliveryId @ ''.'' @ a))"
  by (simp add: signWebhookPayload_def signingInput_def)

text \<open>
  A signature that is accepted was made for the same time, delivery and body, as long as the HMAC does not collide on
  the two inputs and neither delivery id contains a dot.
\<close>

theorem accepted_signature_binds:
  assumes "verifyTimestampedWebhookSignature sg v"
    and "vf_signature v = sh_signature (createWebhookSigningHeaders sg secret payload deliveryId t)"
    and "\<And>s. s \<in> set (vf_secrets v) \<Longrightarrow>
      hex_bytes (sg_hmac sg s (signingInput sg (StampNumber (j_int u)) (vf_deliveryId v) (vf_payload v))) =
      hex_bytes (sg_hmac sg secret (signingInput sg (StampNumber (j_int t)) deliveryId payload)) \<Longrightarrow>
      signingInput sg (StampNumber (j_int u)) (vf_deliveryId v) (vf_payload v) =
      signingInput sg (StampNumber (j_int t)) deliveryId payload"
    and "stamp_number (vf_timestamp v) = j_int u" and "0 \<le> u" "u < 10 ^ 21" "0 \<le> t" "t < 10 ^ 21"
    and "CHR ''.'' \<notin> set deliveryId" "CHR ''.'' \<notin> set (vf_deliveryId v)"
  shows "u = t \<and> vf_deliveryId v = deliveryId \<and> vf_payload v = payload"
proof -
  obtain s where s: "s \<in> set (vf_secrets v)"
    and ok: "equalHex (signWebhookPayload sg s (vf_payload v) (Some (StampNumber (j_int u))) (Some (vf_deliveryId v))) (vf_signature v)"
    using assms(1,4) by (auto simp: verifyTimestampedWebhookSignature_def Let_def list_ex_iff)
  have "drop 7 (''sha256='' @ x) = x" "starts_with (''sha256='' @ x) ''sha256=''" for x by simp_all
  with ok have "hex_bytes (sg_hmac sg s (signingInput sg (StampNumber (j_int u)) (vf_deliveryId v) (vf_payload v))) =
      hex_bytes (sg_hmac sg secret (signingInput sg (StampNumber (j_int t)) deliveryId payload))"
    by (simp add: assms(2) createWebhookSigningHeaders_def equalHex_def signWebhookPayload_def Let_def)
  then have "show_nat (nat u) @ CHR ''.'' # vf_deliveryId v @ CHR ''.'' # vf_payload v =
      show_nat (nat t) @ CHR ''.'' # deliveryId @ CHR ''.'' # payload"
    using assms(3) [OF s] assms(5-8) by (simp add: signingInput_def stamp_text_def number_text_int show_int_nonneg)
  moreover have "CHR ''.'' \<notin> set (show_nat n)" for n
    by (rule show_nat_no) (simp add: is_digit_def char_code_def)
  ultimately have "show_nat (nat u) = show_nat (nat t) \<and> vf_deliveryId v = deliveryId \<and> vf_payload v = payload"
    using assms(9,10) by (metis append_dot_eq)
  then show ?thesis
    using assms(5,7) by (metis nat_int parse_show_nat int_nat_eq)
qed

section \<open>Examples\<close>

definition demo_signer :: signer where
  "demo_signer = \<lparr>sg_hmac = (\<lambda>_ _. replicate 64 CHR ''0''), sg_fraction = (\<lambda>_. ''?'')\<rparr>"

lemma demo_hex: "hex_digest (sg_hmac demo_signer s x)"
  by (simp add: demo_signer_def hex_digest_def list_all_length hex_value_def is_digit_def char_code_def)

theorem signed_delivery_verifies_witness:
  "verifyTimestampedWebhookSignature demo_signer
     (received_with (createWebhookSigningHeaders demo_signer ''k'' ''{}'' ''d1'' 1000) ''{}'' [''old'', ''k''] 1200000 None)"
  using signed_delivery_verifies [of "''k''" "[''old'', ''k'']" demo_signer "''d1''" 1000 "''{}''" 1200000 None] demo_hex
  by (simp add: js_trim_def is_space_def char_code_def)

theorem accepted_signature_binds_witness:
  "vf_deliveryId (received_with (createWebhookSigningHeaders demo_signer ''k'' ''{}'' ''d1'' 1000) ''{}'' [''k''] 1200000 None) = ''d1''"
proof -
  let ?v = "received_with (createWebhookSigningHeaders demo_signer ''k'' ''{}'' ''d1'' 1000) ''{}'' [''k''] 1200000 None"
  have "verifyTimestampedWebhookSignature demo_signer ?v"
    using signed_delivery_run [of "''k''" "[''k'']" demo_signer "''d1''" 1000 "''{}''" 1200000 None] demo_hex
    by (simp add: js_trim_def is_space_def char_code_def)
  moreover have "stamp_number (vf_timestamp ?v) = j_int 1000"
    using number_text_int [of 1000 demo_signer] number_of_show_nat [of 1000]
    by (simp add: received_with_def createWebhookSigningHeaders_def stamp_number_def show_int_nonneg)
  moreover have "signingInput demo_signer (StampNumber (j_int 1000)) (vf_deliveryId ?v) (vf_payload ?v) =
      signingInput demo_signer (StampNumber (j_int 1000)) ''d1'' ''{}''"
    by (simp add: received_with_def createWebhookSigningHeaders_def)
  moreover have "vf_signature ?v = sh_signature (createWebhookSigningHeaders demo_signer ''k'' ''{}'' ''d1'' 1000)"
    by (simp add: received_with_def)
  moreover have "CHR ''.'' \<notin> set ''d1''" "CHR ''.'' \<notin> set (vf_deliveryId ?v)"
    by (simp_all add: received_with_def createWebhookSigningHeaders_def)
  ultimately have "1000 = (1000 :: int) \<and> vf_deliveryId ?v = ''d1'' \<and> vf_payload ?v = ''{}''"
    by (intro accepted_signature_binds [of demo_signer ?v "''k''" "''{}''" "''d1''" 1000 1000]) auto
  then show ?thesis by blast
qed

end
