(* ===== verification/Webhooks.thy ===== *)
theory Webhooks
  imports UrlSafety WebhookSigning Notifications
begin

text \<open>
  Webhook subscriptions, the fan-out of events and the delivery worker
  (\<open>backend/src/modules/webhooks/webhooks.service.ts\<close>, \<open>webhooks.dispatcher.ts\<close>, \<open>backend/src/jobs/webhookDelivery.ts\<close>,
  \<open>deadLetter.ts\<close>). The queue is the list of jobs in the state; what it calls, and when, is \<open>run_job\<close>.
\<close>

section \<open>Subscriptions\<close>

record WebhookSubscriptionResponse =
  wr_id :: string
  wr_ownerId :: string
  wr_url :: string
  wr_events :: "string list"
  wr_status :: WebhookStatus
  wr_createdAt :: string

definition toSubscription :: "webhook_row \<Rightarrow> WebhookSubscriptionResponse" where
  "toSubscription w = \<lparr>wr_id = wh_id w, wr_ownerId = wh_ownerId w, wr_url = wh_url w, wr_events = wh_events w,
     wr_status = wh_status w, wr_createdAt = iso_string (wh_createdAt w)\<rparr>"

text \<open>\<open>randomBytes\<close> gives the secret; the parser of URLs and the resolver are parameters.\<close>

definition createSubscription ::
  "(string \<Rightarrow> url option) \<Rightarrow> (string \<Rightarrow> jsval + string list) \<Rightarrow> string \<Rightarrow> runtime \<Rightarrow> string \<Rightarrow> string \<Rightarrow> string list \<Rightarrow>
   (WebhookSubscriptionResponse \<times> string) dbio" where
  "createSubscription parse resolver secret rt ownerId target events =
     (case assertSafeWebhookUrl parse resolver target of
        Inl e \<Rightarrow> throw (bad_request (if is_error e then error_message e else ''Webhook URL is not allowed''))
      | Inr _ \<Rightarrow>
          bnd (fresh_id rt) (\<lambda>i.
          let row = \<lparr>wh_id = i, wh_ownerId = ownerId, wh_url = target, wh_secret = secret, wh_status = WActive, wh_deletedAt = None,
                wh_events = events, wh_previousSecret = None, wh_previousSecretExpiresAt = None, wh_createdAt = rt_now rt\<rparr>
          in andthen (modify (\<lambda>d. d\<lparr>webhooks := webhooks d @ [row]\<rparr>)) (ret (toSubscription row, secret))))"

definition webhook_missing :: "string \<Rightarrow> jsval" where
  "webhook_missing i = not_found (''Webhook subscription '' @ i @ '' not found'')"

definition update_webhook :: "string \<Rightarrow> (webhook_row \<Rightarrow> webhook_row) \<Rightarrow> unit dbio" where
  "update_webhook i f = modify (\<lambda>d. d\<lparr>webhooks := update_rows (\<lambda>w. wh_id w = i) f (webhooks d)\<rparr>)"

definition rotateSubscriptionSecret :: "string \<Rightarrow> runtime \<Rightarrow> string \<Rightarrow> string \<Rightarrow> int \<Rightarrow> (string \<times> string) dbio" where
  "rotateSubscriptionSecret secret rt ownerId i overlapSeconds =
     bnd (gets (live_webhook i)) (\<lambda>found.
     bnd (require found (webhook_missing i)) (\<lambda>w.
     bnd (lift_res (assertOwnership (wh_ownerId w) ownerId ''You can only rotate your own webhook subscription secret'')) (\<lambda>_.
     let expires = rt_now rt + overlapSeconds * 1000
     in andthen (update_webhook i (\<lambda>x. x\<lparr>wh_secret := secret, wh_previousSecret := Some (wh_secret w),
          wh_previousSecretExpiresAt := Some expires\<rparr>))
        (ret (secret, iso_string expires)))))"

definition deleteSubscription :: "runtime \<Rightarrow> string \<Rightarrow> string \<Rightarrow> unit dbio" where
  "deleteSubscription rt ownerId i =
     bnd (gets (live_webhook i)) (\<lambda>found.
     bnd (require found (webhook_missing i)) (\<lambda>w.
     bnd (lift_res (assertOwnership (wh_ownerId w) ownerId ''You can only delete your own webhook subscriptions'')) (\<lambda>_.
       update_webhook i (\<lambda>x. x\<lparr>wh_deletedAt := Some (rt_now rt), wh_status := WDisabled\<rparr>))))"

definition owned_webhooks :: "string \<Rightarrow> db \<Rightarrow> webhook_row list" where
  "owned_webhooks ownerId d = filter (\<lambda>w. wh_ownerId w = ownerId \<and> wh_deletedAt w = None) (webhooks d)"

definition listSubscriptions :: "string \<Rightarrow> nat \<Rightarrow> nat \<Rightarrow> (WebhookSubscriptionResponse list \<times> nat) dbio" where
  "listSubscriptions ownerId page limit =
     bnd (gets (owned_webhooks ownerId)) (\<lambda>ws.
       ret (map toSubscription (take limit (drop ((page - 1) * limit) (order_desc wh_createdAt ws))), length ws))"

section \<open>Deliveries of an owner\<close>

record WebhookDeliveryResponse =
  wq_id :: string
  wq_subscriptionId :: string
  wq_status :: WebhookDeliveryStatus
  wq_responseCode :: "int option"
  wq_attempts :: int
  wq_nextAttemptAt :: "string option"
  wq_createdAt :: string

definition delivery_response :: "webhook_delivery_row \<Rightarrow> WebhookDeliveryResponse" where
  "delivery_response x = \<lparr>wq_id = wdl_id x, wq_subscriptionId = wdl_subscriptionId x, wq_status = wdl_status x,
     wq_responseCode = wdl_responseCode x, wq_attempts = wdl_attempts x,
     wq_nextAttemptAt = map_option iso_string (wdl_nextAttemptAt x), wq_createdAt = iso_string (wdl_createdAt x)\<rparr>"

definition delivery_owner :: "webhook_delivery_row \<Rightarrow> db \<Rightarrow> webhook_row option" where
  "delivery_owner x d = find_by wh_id (wdl_subscriptionId x) (webhooks d)"

definition listDeliveries ::
  "string \<Rightarrow> nat \<Rightarrow> nat \<Rightarrow> string option \<Rightarrow> WebhookDeliveryStatus option \<Rightarrow> (WebhookDeliveryResponse list \<times> nat) dbio" where
  "listDeliveries ownerId page limit subscriptionId status =
     bnd (gets (\<lambda>d. filter (\<lambda>x. some_with (\<lambda>w. wh_ownerId w = ownerId \<and> wh_deletedAt w = None) (delivery_owner x d) \<and>
         (or_empty subscriptionId = [] \<or> subscriptionId = Some (wdl_subscriptionId x)) \<and>
         (status = None \<or> status = Some (wdl_status x))) (webhookDeliveries d))) (\<lambda>xs.
       ret (map delivery_response (take limit (drop ((page - 1) * limit) (order_desc wdl_createdAt xs))), length xs))"

definition getDelivery :: "string \<Rightarrow> string \<Rightarrow> WebhookDeliveryResponse dbio" where
  "getDelivery ownerId i =
     bnd (gets (\<lambda>d. find_by wdl_id i (webhookDeliveries d))) (\<lambda>found.
     bnd (require found (not_found (''Webhook delivery '' @ i @ '' not found''))) (\<lambda>x.
     bnd (gets (delivery_owner x)) (\<lambda>joined.
     bnd (require joined (js_error ''Missing subscription'')) (\<lambda>w.
     andthen (throw_unless (wh_deletedAt w = None) (not_found (''Webhook delivery '' @ i @ '' not found'')))
     (bnd (lift_res (assertOwnership (wh_ownerId w) ownerId ''You do not have access to this resource'')) (\<lambda>_.
       ret (delivery_response x)))))))"

section \<open>Fanning an event out\<close>

definition wants :: "string \<Rightarrow> string \<Rightarrow> webhook_row \<Rightarrow> bool" where
  "wants ownerId event w \<longleftrightarrow> wh_ownerId w = ownerId \<and> wh_status w = WActive \<and> wh_deletedAt w = None \<and> event \<in> set (wh_events w)"

definition envelope :: "runtime \<Rightarrow> string \<Rightarrow> jsval \<Rightarrow> jsval" where
  "envelope rt event payload = JObj PlainObject
     [(''event'', JStr event), (''timestamp'', JStr (iso_string (rt_now rt))), (''data'', payload)]"

definition scheduleWebhookDelivery :: "(webhook_job \<Rightarrow> bool) \<Rightarrow> webhook_job \<Rightarrow> unit dbio" where
  "scheduleWebhookDelivery accepts job =
     (if accepts job then modify (\<lambda>d. d\<lparr>webhookJobs := webhookJobs d @ [job]\<rparr>) else throw (js_error ''Queue unavailable''))"

definition dispatch_one :: "(webhook_job \<Rightarrow> bool) \<Rightarrow> runtime \<Rightarrow> jsval \<Rightarrow> webhook_row \<Rightarrow> unit dbio" where
  "dispatch_one accepts rt body w =
     bnd (fresh_id rt) (\<lambda>i.
     andthen (modify (\<lambda>d. d\<lparr>webhookDeliveries := webhookDeliveries d @
         [\<lparr>wdl_id = i, wdl_subscriptionId = wh_id w, wdl_status = DPending, wdl_responseCode = None, wdl_attempts = 0,
           wdl_nextAttemptAt = None, wdl_createdAt = rt_now rt\<rparr>]\<rparr>))
     (scheduleWebhookDelivery accepts \<lparr>wj_deliveryId = i, wj_subscriptionId = wh_id w, wj_url = wh_url w, wj_payload = body,
        wj_secret = Some (wh_secret w)\<rparr>))"

text \<open>\<open>Promise.allSettled\<close>: one failure does not stop the others.\<close>

fun dispatch_all :: "(webhook_job \<Rightarrow> bool) \<Rightarrow> runtime \<Rightarrow> jsval \<Rightarrow> webhook_row list \<Rightarrow> nat dbio" where
  "dispatch_all accepts rt body [] = ret 0"
| "dispatch_all accepts rt body (w # ws) =
     bnd (try_catch (andthen (dispatch_one accepts rt body w) (ret 1)) (\<lambda>_. ret 0)) (\<lambda>n.
     bnd (dispatch_all accepts rt body ws) (\<lambda>k. ret (n + k)))"

definition dispatchWebhookEvent ::
  "(webhook_job \<Rightarrow> bool) \<Rightarrow> runtime \<Rightarrow> string \<Rightarrow> string \<Rightarrow> jsval \<Rightarrow> (nat \<times> nat) dbio" where
  "dispatchWebhookEvent accepts rt ownerId event payload =
     bnd (gets (\<lambda>d. filter (wants ownerId event) (webhooks d))) (\<lambda>ws.
       if ws = [] then ret (0, 0)
       else bnd (dispatch_all accepts rt (envelope rt event payload) ws) (\<lambda>n. ret (length ws, n)))"

section \<open>What a dispatch leaves\<close>

definition new_delivery :: "runtime \<Rightarrow> string \<Rightarrow> webhook_row \<Rightarrow> webhook_delivery_row" where
  "new_delivery rt i w = \<lparr>wdl_id = i, wdl_subscriptionId = wh_id w, wdl_status = DPending, wdl_responseCode = None,
     wdl_attempts = 0, wdl_nextAttemptAt = None, wdl_createdAt = rt_now rt\<rparr>"

definition new_job :: "jsval \<Rightarrow> string \<Rightarrow> webhook_row \<Rightarrow> webhook_job" where
  "new_job body i w = \<lparr>wj_deliveryId = i, wj_subscriptionId = wh_id w, wj_url = wh_url w, wj_payload = body,
     wj_secret = Some (wh_secret w)\<rparr>"

text \<open>The rows and jobs for the subscriptions, with the ids from the \<open>k\<close>-th one on.\<close>

fun new_jobs :: "runtime \<Rightarrow> jsval \<Rightarrow> webhook_row list \<Rightarrow> nat \<Rightarrow> webhook_job list" where
  "new_jobs rt body [] k = []"
| "new_jobs rt body (w # ws) k = new_job body (rt_cuid rt k) w # new_jobs rt body ws (Suc k)"

fun new_deliveries :: "runtime \<Rightarrow> webhook_row list \<Rightarrow> nat \<Rightarrow> webhook_delivery_row list" where
  "new_deliveries rt [] k = []"
| "new_deliveries rt (w # ws) k = new_delivery rt (rt_cuid rt k) w # new_deliveries rt ws (Suc k)"

lemma dispatch_one_run:
  "dispatch_one accepts rt body w d =
     (if accepts (new_job body (rt_cuid rt (nextId d)) w) then Inr () else Inl (js_error ''Queue unavailable''),
      d\<lparr>nextId := nextId d + 1, webhookDeliveries := webhookDeliveries d @ [new_delivery rt (rt_cuid rt (nextId d)) w],
        webhookJobs := webhookJobs d @ filter accepts [new_job body (rt_cuid rt (nextId d)) w]\<rparr>)"
  by (simp add: dispatch_one_def scheduleWebhookDelivery_def new_job_def new_delivery_def)

lemma dispatch_all_run:
  "dispatch_all accepts rt body ws d =
     (Inr (length (filter accepts (new_jobs rt body ws (nextId d)))),
      d\<lparr>nextId := nextId d + length ws, webhookDeliveries := webhookDeliveries d @ new_deliveries rt ws (nextId d),
        webhookJobs := webhookJobs d @ filter accepts (new_jobs rt body ws (nextId d))\<rparr>)"
  by (induction ws arbitrary: d) (simp_all add: try_catch_def andthen_def bnd_def dispatch_one_run)

text \<open>
  A dispatch records one pending delivery for every active subscription of the owner to the event, and nothing else; a
  job goes to the queue for those the queue accepts, and the others stay pending without one.
\<close>

theorem dispatch_effect:
  "let ws = filter (wants ownerId event) (webhooks d);
       jobs = new_jobs rt (envelope rt event payload) ws (nextId d)
   in dispatchWebhookEvent accepts rt ownerId event payload d =
     (Inr (length ws, length (filter accepts jobs)),
      d\<lparr>nextId := nextId d + length ws, webhookDeliveries := webhookDeliveries d @ new_deliveries rt ws (nextId d),
        webhookJobs := webhookJobs d @ filter accepts jobs\<rparr>)"
  by (simp add: dispatchWebhookEvent_def Let_def bnd_def dispatch_all_run)

section \<open>Ownership\<close>

text \<open>Only the owner of a live subscription rotates or deletes it, and then only that row changes.\<close>

lemma owner_only:
  "live_webhook i d = Some w \<Longrightarrow> wh_ownerId w \<noteq> u \<Longrightarrow>
     rotateSubscriptionSecret secret rt u i n d = (Inl (forbidden ''You can only rotate your own webhook subscription secret''), d) \<and>
     deleteSubscription rt u i d = (Inl (forbidden ''You can only delete your own webhook subscriptions''), d)"
  by (simp add: rotateSubscriptionSecret_def deleteSubscription_def assertOwnership_def)

lemma updated_never:
  "(\<And>x. \<not> P (f x)) \<Longrightarrow> \<not> list_ex (\<lambda>x. Q x \<and> P x) (update_rows Q f xs)"
  if "\<And>x. Q (f x) = Q x"
  using that by (induction xs) (simp_all add: update_rows_def)

lemma deleted_gets_nothing:
  assumes "live_webhook i d = Some w"
  shows "\<not> list_ex (\<lambda>x. wh_id x = i \<and> wants v event x) (webhooks (snd (deleteSubscription rt (wh_ownerId w) i d)))"
proof -
  have rows: "webhooks (snd (deleteSubscription rt (wh_ownerId w) i d)) =
      update_rows (\<lambda>x. wh_id x = i) (\<lambda>x. x\<lparr>wh_deletedAt := Some (rt_now rt), wh_status := WDisabled\<rparr>) (webhooks d)"
    using assms by (simp add: deleteSubscription_def assertOwnership_def update_webhook_def)
  show ?thesis
    unfolding rows by (rule updated_never) (simp_all add: wants_def)
qed

end
