(* ===== verification/WebhookDelivery.thy ===== *)
theory WebhookDelivery
  imports Webhooks
begin

text \<open>
  The webhook delivery worker (\<open>backend/src/jobs/webhookDelivery.ts\<close>, \<open>deadLetter.ts\<close>): one attempt, what it records,
  and the runs of a job. The queue calls the worker again after a failure until the attempts are used up, unless the error says that
  no retry is of use; \<open>run_job\<close> is that contract. Texts are encoded and decoded by parameters.
\<close>

definition WEBHOOK_DELIVERY_QUEUE :: string where
  "WEBHOOK_DELIVERY_QUEUE = ''webhook-delivery''"

definition WEBHOOK_MAX_ATTEMPTS :: nat where
  "WEBHOOK_MAX_ATTEMPTS = 5"

definition WEBHOOK_BACKOFF_BASE_MS :: int where
  "WEBHOOK_BACKOFF_BASE_MS = 2000"

definition WEBHOOK_BACKOFF_JITTER :: rat where
  "WEBHOOK_BACKOFF_JITTER = 1 / 2"

definition WEBHOOK_RESPONSE_EXCERPT_MAX_BYTES :: nat where
  "WEBHOOK_RESPONSE_EXCERPT_MAX_BYTES = 1024"

datatype classification = Delivered_ok | Permanent | Retryable

definition classifyWebhookResponse :: "int \<Rightarrow> classification" where
  "classifyWebhookResponse status =
     (if 200 \<le> status \<and> status < 300 then Delivered_ok
      else if 400 \<le> status \<and> status < 500 \<and> status \<noteq> 429 then Permanent else Retryable)"

definition calculateWebhookRetryDelay :: "nat \<Rightarrow> rat \<Rightarrow> int" where
  "calculateWebhookRetryDelay retryNumber jitterUnit =
     (let normalizedUnit = min (max jitterUnit 0) (1 - 1 / 2 ^ 52);
          baseDelay = WEBHOOK_BACKOFF_BASE_MS * 2 ^ (retryNumber - 1)
      in \<lfloor>of_int baseDelay * (1 - WEBHOOK_BACKOFF_JITTER + WEBHOOK_BACKOFF_JITTER * normalizedUnit)\<rfloor>)"

section \<open>The world of an attempt\<close>

record outgoing_request =
  dq_headers :: "(string \<times> string) list"
  dq_body :: string

record webhook_world =
  wx_parse :: "string \<Rightarrow> url option"
  wx_resolve :: "string \<Rightarrow> jsval + string list"
  wx_fetch :: "outgoing_request \<Rightarrow> url \<Rightarrow> jsval + response"
  wx_timedOut :: bool
  wx_signer :: signer
  wx_stringify :: "jsval \<Rightarrow> string"
  wx_encode :: "string \<Rightarrow> nat list"
  wx_decode :: "nat list \<Rightarrow> string"
  wx_digest :: "string \<Rightarrow> nat"

definition deterministicJitterUnit :: "webhook_world \<Rightarrow> string \<Rightarrow> nat \<Rightarrow> rat" where
  "deterministicJitterUnit wx identity retryNumber = of_nat (wx_digest wx (identity @ '':'' @ show_nat retryNumber)) / 2 ^ 32"

definition webhookBackoffStrategy :: "webhook_world \<Rightarrow> nat \<Rightarrow> string \<Rightarrow> webhook_job \<Rightarrow> jsval + int" where
  "webhookBackoffStrategy wx attemptsMade ty job =
     (if ty \<noteq> ''webhook-exponential-jitter'' then Inl (js_error (''Unsupported webhook backoff strategy: '' @ ty))
      else Inr (calculateWebhookRetryDelay attemptsMade (deterministicJitterUnit wx (wj_deliveryId job) attemptsMade)))"

text \<open>At most \<open>maxBytes\<close> of the body are read; an error of the stream after that is not seen.\<close>

fun read_chunks :: "nat \<Rightarrow> nat \<Rightarrow> nat list list \<Rightarrow> jsval option \<Rightarrow> jsval + nat list" where
  "read_chunks maxBytes bytesRead chunks err =
     (if maxBytes \<le> bytesRead then Inr []
      else (case chunks of
          [] \<Rightarrow> (case err of None \<Rightarrow> Inr [] | Some e \<Rightarrow> Inl e)
        | c # cs \<Rightarrow>
            if maxBytes - bytesRead < length c then Inr (take (maxBytes - bytesRead) c)
            else (case read_chunks maxBytes (bytesRead + length c) cs err of Inl e \<Rightarrow> Inl e | Inr bs \<Rightarrow> Inr (c @ bs))))"

declare read_chunks.simps [simp del]

function shrink :: "webhook_world \<Rightarrow> nat \<Rightarrow> string \<Rightarrow> string" where
  "shrink wx maxBytes s = (if length (wx_encode wx s) \<le> maxBytes \<or> s = [] then s else shrink wx maxBytes (butlast s))"
  by pat_completeness auto
termination by (relation "measure (\<lambda>(_, _, s). length s)") auto

declare shrink.simps [simp del]

definition decodeWithinByteLimit :: "webhook_world \<Rightarrow> nat list \<Rightarrow> nat \<Rightarrow> string" where
  "decodeWithinByteLimit wx bytes maxBytes = shrink wx maxBytes (wx_decode wx (take maxBytes bytes))"

definition readResponseBodyExcerpt :: "webhook_world \<Rightarrow> response \<Rightarrow> nat \<Rightarrow> jsval + string option" where
  "readResponseBodyExcerpt wx r maxBytes =
     (case read_chunks maxBytes 0 (re_chunks r) (re_readError r) of
        Inl e \<Rightarrow> Inl e
      | Inr bytes \<Rightarrow> Inr (if bytes = [] then None else Some (decodeWithinByteLimit wx bytes maxBytes)))"

definition boundedReason :: "webhook_world \<Rightarrow> string \<Rightarrow> string" where
  "boundedReason wx reason = decodeWithinByteLimit wx (wx_encode wx reason) WEBHOOK_RESPONSE_EXCERPT_MAX_BYTES"

section \<open>What an attempt records\<close>

record AttemptState =
  as_attemptNumber :: nat
  as_responseCode :: "int option"
  as_responseBodyExcerpt :: "string option"
  as_errorReason :: "string option"
  as_status :: WebhookDeliveryStatus
  as_nextAttemptAt :: "int option"

definition record_delivery :: "AttemptState \<Rightarrow> webhook_delivery_row \<Rightarrow> webhook_delivery_row" where
  "record_delivery st x = x\<lparr>wdl_status := as_status st, wdl_responseCode := as_responseCode st,
     wdl_attempts := int (as_attemptNumber st), wdl_nextAttemptAt := as_nextAttemptAt st\<rparr>"

definition record_attempt :: "AttemptState \<Rightarrow> webhook_attempt_row \<Rightarrow> webhook_attempt_row" where
  "record_attempt st x = x\<lparr>wa_responseCode := as_responseCode st, wa_excerpt := as_responseBodyExcerpt st, wa_error := as_errorReason st\<rparr>"

definition persistAttempt :: "webhook_job \<Rightarrow> AttemptState \<Rightarrow> unit dbio" where
  "persistAttempt job st =
     (let k = (wj_deliveryId job, int (as_attemptNumber st))
      in transaction
        (andthen (modify (\<lambda>d. d\<lparr>webhookAttempts := upsert_row wa_key k
            (record_attempt st \<lparr>wa_key = k, wa_responseCode = None, wa_excerpt = None, wa_error = None\<rparr>)
            (record_attempt st) (webhookAttempts d)\<rparr>))
        (bnd (gets (\<lambda>d. exists_row (\<lambda>x. wdl_id x = wj_deliveryId job) (webhookDeliveries d))) (\<lambda>present.
         andthen (throw_unless present (prisma_error ''P2025'' []))
           (modify (\<lambda>d. d\<lparr>webhookDeliveries :=
              update_rows (\<lambda>x. wdl_id x = wj_deliveryId job) (record_delivery st) (webhookDeliveries d)\<rparr>))))))"

definition disableAfterTerminalFailure :: "webhook_world \<Rightarrow> runtime \<Rightarrow> webhook_job \<Rightarrow> string \<Rightarrow> unit dbio" where
  "disableAfterTerminalFailure wx rt job reason =
     bnd (disableWebhookSubscriptionAndNotify rt (wj_subscriptionId job) (wj_deliveryId job) (boundedReason wx reason)) (\<lambda>_. ret ())"

definition recordDeadLetter :: "string \<Rightarrow> string \<Rightarrow> jsval \<Rightarrow> nat \<Rightarrow> string \<Rightarrow> unit dbio" where
  "recordDeadLetter queue jobId payload attemptsMade reason =
     modify (\<lambda>d. d\<lparr>deadLetters := deadLetters d @ [\<lparr>dj_queue = queue, dj_jobId = Some jobId, dj_jobName = ''deliver'',
       dj_data = payload, dj_failedReason = reason, dj_attemptsMade = attemptsMade\<rparr>]\<rparr>)"

definition unrecoverable :: "string \<Rightarrow> jsval" where
  "unrecoverable reason = JObj UnrecoverableErrorClass [(''name'', JStr ''UnrecoverableError''), (''message'', JStr reason)]"

definition recordPermanentFailure ::
  "webhook_world \<Rightarrow> runtime \<Rightarrow> webhook_job \<Rightarrow> AttemptState \<Rightarrow> string \<Rightarrow> unit dbio" where
  "recordPermanentFailure wx rt job st reason =
     andthen (try_catch (andthen (persistAttempt job st) (disableAfterTerminalFailure wx rt job reason))
       (\<lambda>e. let persistenceReason = (if is_error e then error_message e else ''Unknown persistence error'')
            in recordDeadLetter WEBHOOK_DELIVERY_QUEUE (wj_deliveryId job) (JObj PlainObject
                 [(''deliveryId'', JStr (wj_deliveryId job)), (''subscriptionId'', JStr (wj_subscriptionId job)),
                  (''failureKind'', JStr ''permanent-webhook-state-persistence''), (''httpFailure'', JStr reason)])
               (as_attemptNumber st)
               (''Permanent webhook '' @ reason @ ''; state persistence failed: '' @ boundedReason wx persistenceReason)))
     (throw (unrecoverable reason))"

section \<open>One attempt\<close>

definition delivery_request :: "webhook_world \<Rightarrow> runtime \<Rightarrow> webhook_job \<Rightarrow> outgoing_request" where
  "delivery_request wx rt job =
     (let body = wx_stringify wx (wj_payload job);
          signed = (case wj_secret job of
              None \<Rightarrow> []
            | Some secret \<Rightarrow> if secret = [] then [] else
                (let h = createWebhookSigningHeaders (wx_signer wx) secret body (wj_deliveryId job) (rt_now rt div 1000)
                 in [(''X-Stellar-Tipz-Timestamp'', sh_timestamp h), (''X-Stellar-Tipz-Delivery-Id'', sh_deliveryId h),
                     (''X-Stellar-Tipz-Signature'', sh_signature h)]))
      in \<lparr>dq_headers = [(''Content-Type'', ''application/json''), (''User-Agent'', ''Stellar-Tipz-Webhook-Bot/1.0'')] @ signed,
          dq_body = body\<rparr>)"

definition fetch_result :: "webhook_world \<Rightarrow> runtime \<Rightarrow> webhook_job \<Rightarrow> jsval + response" where
  "fetch_result wx rt job = safeWebhookFetch (wx_parse wx) (wx_resolve wx) (wj_url job) (wx_fetch wx (delivery_request wx rt job))"

definition attempt_state ::
  "webhook_world \<Rightarrow> runtime \<Rightarrow> webhook_job \<Rightarrow> nat \<Rightarrow> int option \<Rightarrow> string option \<Rightarrow> string option \<Rightarrow> bool \<Rightarrow> AttemptState" where
  "attempt_state wx rt job n code excerpt reason terminal =
     \<lparr>as_attemptNumber = n, as_responseCode = code, as_responseBodyExcerpt = excerpt, as_errorReason = reason,
      as_status = (if terminal then DFailed else DPending),
      as_nextAttemptAt = (if terminal then None
        else Some (rt_now rt + calculateWebhookRetryDelay n (deterministicJitterUnit wx (wj_deliveryId job) n)))\<rparr>"

definition transport_reason :: "webhook_world \<Rightarrow> jsval \<Rightarrow> string" where
  "transport_reason wx e = (if wx_timedOut wx then ''Delivery timed out after 10000ms''
     else if is_error e then error_message e else ''Webhook transport failure'')"

text \<open>No response, or a body that could not be read.\<close>

definition transport_failed ::
  "webhook_world \<Rightarrow> runtime \<Rightarrow> webhook_job \<Rightarrow> nat \<Rightarrow> nat \<Rightarrow> response option \<Rightarrow> jsval \<Rightarrow> unit dbio" where
  "transport_failed wx rt job n maxAttempts resp e =
     (let reason = transport_reason wx e;
          classification = (case resp of None \<Rightarrow> Retryable | Some r \<Rightarrow> classifyWebhookResponse (re_status r));
          terminal = (classification = Permanent \<or> maxAttempts \<le> n);
          st = attempt_state wx rt job n (map_option re_status resp) None (Some (boundedReason wx reason)) terminal
      in if classification = Permanent
         then recordPermanentFailure wx rt job st
           (''HTTP '' @ (case resp of None \<Rightarrow> ''undefined'' | Some r \<Rightarrow> show_int (re_status r)) @ '': '' @ reason)
         else andthen (persistAttempt job st)
           (andthen (if terminal then disableAfterTerminalFailure wx rt job reason else ret ())
             (throw (if is_error e then e else js_error reason))))"

definition http_reason :: "response \<Rightarrow> string" where
  "http_reason r = ''HTTP '' @ show_int (re_status r) @ (if re_statusText r = [] then [] else '' '' @ re_statusText r)"

definition answered ::
  "webhook_world \<Rightarrow> runtime \<Rightarrow> webhook_job \<Rightarrow> nat \<Rightarrow> nat \<Rightarrow> response \<Rightarrow> string option \<Rightarrow> unit dbio" where
  "answered wx rt job n maxAttempts r excerpt =
     (let classification = classifyWebhookResponse (re_status r);
          terminal = (classification = Permanent \<or> maxAttempts \<le> n);
          st = attempt_state wx rt job n (Some (re_status r)) excerpt (Some (http_reason r)) terminal
      in case classification of
           Delivered_ok \<Rightarrow> persistAttempt job \<lparr>as_attemptNumber = n, as_responseCode = Some (re_status r),
             as_responseBodyExcerpt = excerpt, as_errorReason = None, as_status = DSuccess, as_nextAttemptAt = None\<rparr>
         | Permanent \<Rightarrow> recordPermanentFailure wx rt job st (http_reason r)
         | Retryable \<Rightarrow> andthen (persistAttempt job st)
             (andthen (if terminal then disableAfterTerminalFailure wx rt job (http_reason r) else ret ())
               (throw (js_error (http_reason r)))))"

definition processWebhookDelivery :: "webhook_world \<Rightarrow> runtime \<Rightarrow> webhook_job \<Rightarrow> nat \<Rightarrow> nat \<Rightarrow> unit dbio" where
  "processWebhookDelivery wx rt job attemptsMade maxAttempts =
     (case fetch_result wx rt job of
        Inl e \<Rightarrow> transport_failed wx rt job (attemptsMade + 1) maxAttempts None e
      | Inr r \<Rightarrow> (case readResponseBodyExcerpt wx r WEBHOOK_RESPONSE_EXCERPT_MAX_BYTES of
            Inl e \<Rightarrow> transport_failed wx rt job (attemptsMade + 1) maxAttempts (Some r) e
          | Inr excerpt \<Rightarrow> answered wx rt job (attemptsMade + 1) maxAttempts r excerpt))"

section \<open>The runs of a job\<close>

text \<open>\<open>attachDeadLetterHandler\<close> on a failed run: deliberately unrecoverable errors stay out, secrets and payload are left out.\<close>

definition on_failed :: "webhook_job \<Rightarrow> nat \<Rightarrow> nat \<Rightarrow> jsval \<Rightarrow> unit dbio" where
  "on_failed job attemptsMade maxAttempts e =
     (if error_name e = ''UnrecoverableError'' \<or> attemptsMade < maxAttempts then ret ()
      else recordDeadLetter WEBHOOK_DELIVERY_QUEUE (wj_deliveryId job) (JObj PlainObject
        [(''deliveryId'', JStr (wj_deliveryId job)), (''subscriptionId'', JStr (wj_subscriptionId job)),
         (''failureKind'', JStr ''exhausted-webhook-delivery'')]) attemptsMade (error_message e))"

fun run_job :: "webhook_job \<Rightarrow> nat \<Rightarrow> nat \<Rightarrow> (webhook_world \<times> runtime) list \<Rightarrow> db \<Rightarrow> db" where
  "run_job job maxAttempts made [] d = d"
| "run_job job maxAttempts made ((wx, rt) # rest) d =
     (case processWebhookDelivery wx rt job made maxAttempts d of
        (Inr _, d') \<Rightarrow> d'
      | (Inl e, d') \<Rightarrow>
          let d'' = snd (on_failed job (made + 1) maxAttempts e d')
          in if error_name e = ''UnrecoverableError'' \<or> maxAttempts \<le> made + 1 then d''
             else run_job job maxAttempts (made + 1) rest d'')"

section \<open>Delays and excerpts\<close>

text \<open>
  Every retry delay lies between half its base and its base, whatever the jitter.
\<close>

theorem webhook_delay_bounds:
  "WEBHOOK_BACKOFF_BASE_MS * 2 ^ (n - 1) div 2 \<le> calculateWebhookRetryDelay n u \<and>
   calculateWebhookRetryDelay n u < WEBHOOK_BACKOFF_BASE_MS * 2 ^ (n - 1)"
proof -
  define b :: int where "b = WEBHOOK_BACKOFF_BASE_MS * 2 ^ (n - 1)"
  define x :: rat where "x = min (max u 0) (1 - 1 / 2 ^ 52)"
  have b: "0 < b" "b = 2 * (b div 2)" by (simp_all add: b_def WEBHOOK_BACKOFF_BASE_MS_def)
  have "0 \<le> x" "x < 1" by (simp_all add: x_def min_less_iff_disj)
  then have f: "1 / 2 \<le> 1 - WEBHOOK_BACKOFF_JITTER + WEBHOOK_BACKOFF_JITTER * x"
    "1 - WEBHOOK_BACKOFF_JITTER + WEBHOOK_BACKOFF_JITTER * x < 1"
    by (simp_all add: WEBHOOK_BACKOFF_JITTER_def)
  define y where "y = rat_of_int b * (1 - WEBHOOK_BACKOFF_JITTER + WEBHOOK_BACKOFF_JITTER * x)"
  have "rat_of_int b = 2 * of_int (b div 2)" using arg_cong [OF b(2), of rat_of_int] by simp
  then have half: "rat_of_int (b div 2) = rat_of_int b * (1 / 2)" by simp
  have "rat_of_int (b div 2) \<le> y" "y < rat_of_int b * 1"
    unfolding y_def half using b(1) f by (intro mult_left_mono mult_strict_left_mono; simp)+
  then have "b div 2 \<le> \<lfloor>y\<rfloor>" "\<lfloor>y\<rfloor> < b" by (simp_all add: le_floor_iff floor_less_iff)
  then show ?thesis
    by (simp add: calculateWebhookRetryDelay_def Let_def b_def y_def x_def)
qed

lemma shrink_bound: "wx_encode wx [] = [] \<Longrightarrow> length (wx_encode wx (shrink wx m s)) \<le> m"
proof (induction wx m s rule: shrink.induct)
  case (1 wx m s)
  then show ?case by (subst shrink.simps) auto
qed

lemma excerpt_bound:
  "wx_encode wx [] = [] \<Longrightarrow> length (wx_encode wx (decodeWithinByteLimit wx bs m)) \<le> m"
  by (simp add: decodeWithinByteLimit_def shrink_bound)

section \<open>The outcome of a job\<close>

text \<open>How an attempt counts: an answer by its status, a body that could not be read as a failure.\<close>

definition attempt_class :: "webhook_world \<Rightarrow> runtime \<Rightarrow> webhook_job \<Rightarrow> classification" where
  "attempt_class wx rt job = (case fetch_result wx rt job of
       Inl _ \<Rightarrow> Retryable
     | Inr r \<Rightarrow> (case readResponseBodyExcerpt wx r WEBHOOK_RESPONSE_EXCERPT_MAX_BYTES of
           Inr _ \<Rightarrow> classifyWebhookResponse (re_status r)
         | Inl _ \<Rightarrow> if classifyWebhookResponse (re_status r) = Permanent then Permanent else Retryable))"

text \<open>The specification: the first conclusive answer decides, else the last attempt.\<close>

fun verdict :: "nat \<Rightarrow> nat \<Rightarrow> classification list \<Rightarrow> WebhookDeliveryStatus \<times> nat" where
  "verdict maxAttempts made [] = (DPending, made)"
| "verdict maxAttempts made (c # cs) = (case c of
       Delivered_ok \<Rightarrow> (DSuccess, made + 1)
     | Permanent \<Rightarrow> (DFailed, made + 1)
     | Retryable \<Rightarrow> if maxAttempts \<le> made + 1 then (DFailed, made + 1) else verdict maxAttempts (made + 1) cs)"

text \<open>Errors of the request itself are never the queue's own class.\<close>

definition ordinary_errors :: "webhook_job \<Rightarrow> webhook_world \<times> runtime \<Rightarrow> bool" where
  "ordinary_errors job step = (case step of (wx, rt) \<Rightarrow> (case fetch_result wx rt job of
       Inl e \<Rightarrow> error_name e \<noteq> ''UnrecoverableError''
     | Inr r \<Rightarrow> (case readResponseBodyExcerpt wx r WEBHOOK_RESPONSE_EXCERPT_MAX_BYTES of
           Inl e \<Rightarrow> error_name e \<noteq> ''UnrecoverableError'' | Inr _ \<Rightarrow> True)))"

definition delivery_state :: "string \<Rightarrow> db \<Rightarrow> (WebhookDeliveryStatus \<times> int \<times> int option) option" where
  "delivery_state i d = map_option (\<lambda>x. (wdl_status x, wdl_attempts x, wdl_nextAttemptAt x)) (find_by wdl_id i (webhookDeliveries d))"

definition webhook_active :: "string \<Rightarrow> db \<Rightarrow> bool" where
  "webhook_active i d = some_with (\<lambda>w. wh_status w = WActive) (live_webhook i d)"

lemma present_iff: "delivery_state i d \<noteq> None \<longleftrightarrow> exists_row (\<lambda>x. wdl_id x = i) (webhookDeliveries d)"
  by (simp add: delivery_state_def find_by_def exists_row_find)

lemma persist_run:
  assumes "delivery_state (wj_deliveryId job) d \<noteq> None"
  shows "\<exists>d'. persistAttempt job st d = (Inr (), d') \<and>
    delivery_state (wj_deliveryId job) d' = Some (as_status st, int (as_attemptNumber st), as_nextAttemptAt st) \<and>
    webhooks d' = webhooks d \<and> deadLetters d' = deadLetters d"
proof -
  have "exists_row (\<lambda>x. wdl_id x = wj_deliveryId job) (webhookDeliveries d)" using assms by (simp only: present_iff)
  moreover obtain x where "find_by wdl_id (wj_deliveryId job) (webhookDeliveries d) = Some x"
    using assms by (auto simp: delivery_state_def)
  moreover from this have "wdl_id x = wj_deliveryId job" by (blast dest: find_by_Some)
  ultimately show ?thesis
    by (simp add: persistAttempt_def Let_def transaction_def delivery_state_def find_by_update record_delivery_def)
qed

lemma disabled_rows:
  "live_webhook i (d\<lparr>webhooks := update_rows (\<lambda>x. wh_id x = i \<and> wh_status x = WActive) (\<lambda>x. x\<lparr>wh_status := WDisabled\<rparr>) ws\<rparr>) = Some y
    \<Longrightarrow> wh_status y = WDisabled"
proof -
  let ?p = "\<lambda>x. wh_id x = i \<and> wh_status x = WActive"
  assume "live_webhook i (d\<lparr>webhooks := update_rows ?p (\<lambda>x. x\<lparr>wh_status := WDisabled\<rparr>) ws\<rparr>) = Some y"
  then have "y \<in> set (update_rows ?p (\<lambda>x. x\<lparr>wh_status := WDisabled\<rparr>) ws)" and i: "wh_id y = i"
    by (auto simp: live_webhook_def dest: find_row_Some)
  then obtain x where y: "y = (if ?p x then x\<lparr>wh_status := WDisabled\<rparr> else x)"
    unfolding set_update_rows by blast
  show ?thesis
  proof (cases "?p x")
    case False
    with y i show ?thesis by (cases "wh_status y") simp_all
  qed (simp add: y)
qed

lemma live_webhook_cong: "webhooks d = webhooks e \<Longrightarrow> live_webhook i d = live_webhook i e"
  by (simp add: live_webhook_def)

lemma disable_run:
  "\<exists>b d'. disableWebhookSubscriptionAndNotify rt i dl reason d = (Inr b, d') \<and> \<not> webhook_active i d' \<and>
    webhookDeliveries d' = webhookDeliveries d \<and> deadLetters d' = deadLetters d"
proof (cases "webhook_active i d")
  case False
  then show ?thesis
    by (cases "live_webhook i d"; cases "wh_status (the (live_webhook i d))")
      (auto simp: disableWebhookSubscriptionAndNotify_def webhook_active_def)
next
  case True
  then obtain w where w: "live_webhook i d = Some w" "wh_status w = WActive"
    by (cases "live_webhook i d") (auto simp: webhook_active_def)
  let ?ws = "update_rows (\<lambda>x. wh_id x = i \<and> wh_status x = WActive) (\<lambda>x. x\<lparr>wh_status := WDisabled\<rparr>) (webhooks d)"
  have "count_rows (\<lambda>x. wh_id x = i \<and> wh_status x = WActive) (webhooks d) \<noteq> 0"
    using w by (auto simp: count_rows_0 live_webhook_def dest: find_row_Some)
  with w obtain b d' where run: "disableWebhookSubscriptionAndNotify rt i dl reason d = (Inr b, d')" and ws: "webhooks d' = ?ws"
    and rest: "webhookDeliveries d' = webhookDeliveries d" "deadLetters d' = deadLetters d"
    by (auto simp: disableWebhookSubscriptionAndNotify_def emitNotificationCreated_def create_notification_row_run Let_def)
  have "wh_status y = WDisabled" if "live_webhook i d' = Some y" for y
    using that live_webhook_cong [of d' "d\<lparr>webhooks := ?ws\<rparr>" i] disabled_rows [of i "webhooks d" d y] ws by simp
  then have "\<not> webhook_active i d'"
    by (cases "live_webhook i d'") (auto simp: webhook_active_def)
  with run rest show ?thesis by blast
qed

lemma disable_after:
  "\<exists>d'. disableAfterTerminalFailure wx rt job reason d = (Inr (), d') \<and> \<not> webhook_active (wj_subscriptionId job) d' \<and>
    delivery_state k d' = delivery_state k d \<and> deadLetters d' = deadLetters d"
  using disable_run [of rt "wj_subscriptionId job" "wj_deliveryId job" "boundedReason wx reason" d]
  by (auto simp: disableAfterTerminalFailure_def bnd_def delivery_state_def)

lemma permanent_run:
  assumes "delivery_state (wj_deliveryId job) d \<noteq> None"
  shows "\<exists>d'. recordPermanentFailure wx rt job st reason d = (Inl (unrecoverable reason), d') \<and>
    \<not> webhook_active (wj_subscriptionId job) d' \<and> deadLetters d' = deadLetters d \<and>
    delivery_state (wj_deliveryId job) d' = Some (as_status st, int (as_attemptNumber st), as_nextAttemptAt st)"
proof -
  from persist_run [OF assms, of st] obtain e where e: "persistAttempt job st d = (Inr (), e)"
    "delivery_state (wj_deliveryId job) e = Some (as_status st, int (as_attemptNumber st), as_nextAttemptAt st)"
    "deadLetters e = deadLetters d" by blast
  from disable_after [of wx rt job reason e "wj_deliveryId job"] e show ?thesis
    by (auto simp: recordPermanentFailure_def andthen_def bnd_def try_catch_def)
qed

text \<open>What an attempt of a known delivery leaves behind, by the class of its answer.\<close>

definition settled ::
  "webhook_job \<Rightarrow> nat \<Rightarrow> nat \<Rightarrow> classification \<Rightarrow> (jsval + unit) \<times> db \<Rightarrow> db \<Rightarrow> bool" where
  "settled job n maxAttempts c out d = (case out of (r, d') \<Rightarrow> deadLetters d' = deadLetters d \<and> (case c of
       Delivered_ok \<Rightarrow> r = Inr () \<and> delivery_state (wj_deliveryId job) d' = Some (DSuccess, int n, None) \<and> webhooks d' = webhooks d
     | Permanent \<Rightarrow> (\<exists>reason. r = Inl (unrecoverable reason)) \<and>
         delivery_state (wj_deliveryId job) d' = Some (DFailed, int n, None) \<and> \<not> webhook_active (wj_subscriptionId job) d'
     | Retryable \<Rightarrow> (\<exists>e. r = Inl e \<and> error_name e \<noteq> ''UnrecoverableError'') \<and>
         (if maxAttempts \<le> n
          then delivery_state (wj_deliveryId job) d' = Some (DFailed, int n, None) \<and> \<not> webhook_active (wj_subscriptionId job) d'
          else (\<exists>t. delivery_state (wj_deliveryId job) d' = Some (DPending, int n, Some t)) \<and> webhooks d' = webhooks d)))"

lemma retry_settled:
  assumes "delivery_state (wj_deliveryId job) d \<noteq> None" and "error_name e \<noteq> ''UnrecoverableError''"
  shows "settled job n maxAttempts Retryable
    (andthen (persistAttempt job (attempt_state wx rt job n code excerpt why (maxAttempts \<le> n)))
      (andthen (if maxAttempts \<le> n then disableAfterTerminalFailure wx rt job reason else ret ()) (throw e)) d) d"
proof -
  let ?st = "attempt_state wx rt job n code excerpt why (maxAttempts \<le> n)"
  from persist_run [OF assms(1), of ?st] obtain d1 where d1: "persistAttempt job ?st d = (Inr (), d1)"
    "delivery_state (wj_deliveryId job) d1 = Some (as_status ?st, int (as_attemptNumber ?st), as_nextAttemptAt ?st)"
    "webhooks d1 = webhooks d" "deadLetters d1 = deadLetters d" by blast
  from disable_after [of wx rt job reason d1 "wj_deliveryId job"] d1 assms(2) show ?thesis
    by (auto simp: settled_def andthen_def bnd_def attempt_state_def)
qed

lemma permanent_settled:
  assumes "delivery_state (wj_deliveryId job) d \<noteq> None"
  shows "settled job n maxAttempts Permanent
    (recordPermanentFailure wx rt job (attempt_state wx rt job n code excerpt why True) reason d) d"
  using permanent_run [OF assms, of wx rt "attempt_state wx rt job n code excerpt why True" reason]
  by (auto simp: settled_def attempt_state_def)

lemma js_error_name [simp]: "error_name (js_error m) = ''Error''"
  by (simp add: error_name_def js_error_def str_of_def)

lemma attempt_settled:
  assumes "delivery_state (wj_deliveryId job) d \<noteq> None" and "ordinary_errors job (wx, rt)"
  shows "settled job (made + 1) maxAttempts (attempt_class wx rt job) (processWebhookDelivery wx rt job made maxAttempts d) d"
proof (cases "fetch_result wx rt job")
  case (Inl e)
  then show ?thesis
    using assms retry_settled [OF assms(1), of "if is_error e then e else js_error (transport_reason wx e)"]
    by (simp add: attempt_class_def processWebhookDelivery_def transport_failed_def Let_def ordinary_errors_def)
next
  case r: (Inr r)
  show ?thesis
  proof (cases "readResponseBodyExcerpt wx r WEBHOOK_RESPONSE_EXCERPT_MAX_BYTES")
    case (Inl e)
    then show ?thesis
      using r assms retry_settled [OF assms(1), of "if is_error e then e else js_error (transport_reason wx e)"]
        permanent_settled [OF assms(1)]
      by (simp add: attempt_class_def processWebhookDelivery_def transport_failed_def Let_def ordinary_errors_def)
  next
    case (Inr excerpt)
    show ?thesis
    proof (cases "classifyWebhookResponse (re_status r)")
      case Delivered_ok
      from persist_run [OF assms(1)] obtain d1 where "persistAttempt job \<lparr>as_attemptNumber = made + 1, as_responseCode = Some (re_status r),
             as_responseBodyExcerpt = excerpt, as_errorReason = None, as_status = DSuccess, as_nextAttemptAt = None\<rparr> d = (Inr (), d1)"
        "delivery_state (wj_deliveryId job) d1 = Some (DSuccess, int (made + 1), None)"
        "webhooks d1 = webhooks d" "deadLetters d1 = deadLetters d" by fastforce
      with r Inr Delivered_ok show ?thesis
        by (simp add: attempt_class_def processWebhookDelivery_def answered_def Let_def settled_def)
    next
      case Permanent
      with r Inr permanent_settled [OF assms(1)] show ?thesis
        by (simp add: attempt_class_def processWebhookDelivery_def answered_def Let_def)
    next
      case Retryable
      with r Inr retry_settled [OF assms(1)] show ?thesis
        by (simp add: attempt_class_def processWebhookDelivery_def answered_def Let_def)
    qed
  qed
qed

lemma verdict_bound: "made < maxAttempts \<Longrightarrow> snd (verdict maxAttempts made cs) \<le> maxAttempts"
  by (induction cs arbitrary: made) (auto split: classification.splits)

lemma verdict_decides:
  "made < maxAttempts \<Longrightarrow> maxAttempts \<le> made + length cs \<Longrightarrow> fst (verdict maxAttempts made cs) \<noteq> DPending"
  by (induction cs arbitrary: made) (auto split: classification.splits)

lemma on_failed_frame:
  "webhooks (snd (on_failed job n m e d)) = webhooks d" "webhookDeliveries (snd (on_failed job n m e d)) = webhookDeliveries d"
  by (simp_all add: on_failed_def recordDeadLetter_def)

lemma failed_state [simp]:
  "delivery_state k (snd (on_failed job n m e d)) = delivery_state k d"
  "webhook_active i (snd (on_failed job n m e d)) = webhook_active i d"
  using on_failed_frame [of job n m e d] by (simp_all add: delivery_state_def webhook_active_def live_webhook_def)

lemma unrecoverable_name [simp]: "error_name (unrecoverable m) = ''UnrecoverableError''"
  by (simp add: error_name_def unrecoverable_def str_of_def)

lemma run_job_verdict:
  assumes "delivery_state (wj_deliveryId job) d \<noteq> None" and "made < maxAttempts" and "maxAttempts \<le> made + length steps"
    and "list_all (ordinary_errors job) steps"
  shows "\<exists>st n. verdict maxAttempts made (map (\<lambda>(wx, rt). attempt_class wx rt job) steps) = (st, n) \<and>
    delivery_state (wj_deliveryId job) (run_job job maxAttempts made steps d) = Some (st, int n, None) \<and>
    (if st = DFailed then \<not> webhook_active (wj_subscriptionId job) (run_job job maxAttempts made steps d)
     else webhooks (run_job job maxAttempts made steps d) = webhooks d)"
  using assms
proof (induction steps arbitrary: d made)
  case (Cons step steps)
  obtain wx rt where step: "step = (wx, rt)" by force
  obtain r d' where run: "processWebhookDelivery wx rt job made maxAttempts d = (r, d')" by force
  have settled: "settled job (made + 1) maxAttempts (attempt_class wx rt job) (r, d') d"
    using attempt_settled [of job d wx rt made maxAttempts] Cons.prems(1,4) run step by simp
  show ?case
  proof (cases "attempt_class wx rt job")
    case Delivered_ok
    with settled run step show ?thesis by (auto simp: settled_def)
  next
    case Permanent
    with settled run step show ?thesis by (auto simp: settled_def Let_def)
  next
    case Retryable
    then obtain e where e: "r = Inl e" "error_name e \<noteq> ''UnrecoverableError''" using settled by (auto simp: settled_def)
    show ?thesis
    proof (cases "maxAttempts \<le> made + 1")
      case True
      with settled run step e Retryable show ?thesis by (auto simp: settled_def Let_def)
    next
      case False
      define d2 where "d2 = snd (on_failed job (made + 1) maxAttempts e d')"
      have d2: "delivery_state (wj_deliveryId job) d2 \<noteq> None" "webhooks d2 = webhooks d"
        using settled False Retryable e by (auto simp: settled_def d2_def on_failed_frame)
      have eqs: "run_job job maxAttempts made (step # steps) d = run_job job maxAttempts (made + 1) steps d2"
        "verdict maxAttempts made (map (\<lambda>(wx, rt). attempt_class wx rt job) (step # steps)) =
          verdict maxAttempts (made + 1) (map (\<lambda>(wx, rt). attempt_class wx rt job) steps)"
        using run step e False Retryable by (simp_all add: d2_def Let_def)
      show ?thesis
        unfolding eqs d2(2) [symmetric] by (rule Cons.IH [OF d2(1)]) (use False Cons.prems in auto)
    qed
  qed
qed simp

text \<open>
  C11. A job whose delivery exists ends with the verdict on its answers: success at the first good one, failure at the first
  permanent one or when the attempts are used up, never more attempts than allowed and never pending. The subscription is
  disabled exactly by a failure.
\<close>

theorem delivery_follows_verdict:
  assumes "delivery_state (wj_deliveryId job) d \<noteq> None" and "0 < maxAttempts" and "length steps = maxAttempts"
    and "list_all (ordinary_errors job) steps"
  shows "\<exists>st n. verdict maxAttempts 0 (map (\<lambda>(wx, rt). attempt_class wx rt job) steps) = (st, n) \<and> st \<noteq> DPending \<and> n \<le> maxAttempts \<and>
    delivery_state (wj_deliveryId job) (run_job job maxAttempts 0 steps d) = Some (st, int n, None) \<and>
    (if st = DFailed then \<not> webhook_active (wj_subscriptionId job) (run_job job maxAttempts 0 steps d)
     else webhooks (run_job job maxAttempts 0 steps d) = webhooks d)"
  using run_job_verdict [OF assms(1,2) _ assms(4)] assms(2,3)
    verdict_bound [of 0 maxAttempts "map (\<lambda>(wx, rt). attempt_class wx rt job) steps"]
    verdict_decides [of 0 maxAttempts "map (\<lambda>(wx, rt). attempt_class wx rt job) steps"]
  by fastforce

section \<open>Examples\<close>

definition demo_world :: "(url \<Rightarrow> jsval + response) \<Rightarrow> webhook_world" where
  "demo_world fetch = \<lparr>wx_parse = (\<lambda>_. Some local_url), wx_resolve = (\<lambda>_. Inr [''8.8.8.8'']), wx_fetch = (\<lambda>_. fetch),
     wx_timedOut = False, wx_signer = demo_signer, wx_stringify = (\<lambda>_. ''{}''), wx_encode = map (\<lambda>_. 0),
     wx_decode = map (\<lambda>_. CHR ''x''), wx_digest = (\<lambda>_. 0)\<rparr>"

definition answer :: "int \<Rightarrow> jsval + response" where
  "answer n = Inr \<lparr>re_status = n, re_statusText = [], re_chunks = [], re_readError = None\<rparr>"

definition demo_job :: webhook_job where
  "demo_job = \<lparr>wj_deliveryId = ''d1'', wj_subscriptionId = ''w1'', wj_url = ''https://hooks.example/'', wj_payload = Null, wj_secret = None\<rparr>"

definition demo_delivery_db :: db where
  "demo_delivery_db = demo_webhook_db\<lparr>webhookDeliveries := [\<lparr>wdl_id = ''d1'', wdl_subscriptionId = ''w1'', wdl_status = DPending,
     wdl_responseCode = None, wdl_attempts = 0, wdl_nextAttemptAt = None, wdl_createdAt = 0\<rparr>]\<rparr>"

definition two_steps :: "(webhook_world \<times> runtime) list" where
  "two_steps = [(demo_world (\<lambda>_. answer 503), demo_rt), (demo_world (\<lambda>_. answer 410), demo_rt)]"

lemma two_steps_facts:
  "map (\<lambda>(wx, rt). attempt_class wx rt demo_job) two_steps = [Retryable, Permanent]"
  "list_all (ordinary_errors demo_job) two_steps" "length two_steps = 2"
proof -
  have safe: "assertSafeWebhookUrl (\<lambda>_. Some local_url) (\<lambda>_. Inr [''8.8.8.8'']) u = Inr local_url" for u
    by code_simp
  have fetch: "fetch_result (demo_world (\<lambda>_. answer n)) demo_rt demo_job = answer n" if "n < 300 \<or> 400 \<le> n" for n
    using that by (auto simp: fetch_result_def demo_world_def safeWebhookFetch_def safe answer_def)
  have read: "readResponseBodyExcerpt wx \<lparr>re_status = n, re_statusText = [], re_chunks = [], re_readError = None\<rparr> m = Inr None" for wx n m
    by (simp add: readResponseBodyExcerpt_def read_chunks.simps)
  show "map (\<lambda>(wx, rt). attempt_class wx rt demo_job) two_steps = [Retryable, Permanent]"
    by (simp add: two_steps_def attempt_class_def fetch) (simp add: answer_def read classifyWebhookResponse_def)
  show "list_all (ordinary_errors demo_job) two_steps"
    by (simp add: two_steps_def ordinary_errors_def fetch) (simp add: answer_def read)
qed (simp add: two_steps_def)

theorem delivery_follows_verdict_witness:
  "delivery_state ''d1'' (run_job demo_job 2 0 two_steps demo_delivery_db) = Some (DFailed, 2, None)"
proof -
  have "delivery_state (wj_deliveryId demo_job) demo_delivery_db \<noteq> None"
    by (simp add: demo_job_def demo_delivery_db_def delivery_state_def find_by_def)
  from delivery_follows_verdict [OF this _ two_steps_facts(3,2)] show ?thesis
    by (simp add: two_steps_facts(1)) (simp add: demo_job_def)
qed

end
