(* ===== verification/Tips.thy ===== *)
theory Tips
  imports Withdrawals Concurrency "HOL-Library.Multiset"
begin

text \<open>
  The tip service (\<open>backend/src/modules/tips/tips.service.ts\<close>, \<open>tips.serializer.ts\<close>): listings by cursor, the
  preparation of a tip, the recording of a tip a client reports, its confirmation, and the totals per creator. Recording takes
  what other requests do as parameters: \<open>mid\<close> before its transaction, \<open>late\<close> the commit of a request for the same hash that
  wins while the transaction runs, \<open>env\<close> the interference of the streak update. Dates in a query are the times they denote.
\<close>

section \<open>What is returned\<close>

record TipResponseDto =
  td_id :: string
  td_txHash :: string
  td_ledger :: int
  td_fromAddress :: string
  td_toAddress :: string
  td_amountStroops :: string
  td_status :: TipStatus
  td_message :: "string option"
  td_createdAt :: string

definition serializeTip :: "tip_row \<Rightarrow> TipResponseDto" where
  "serializeTip t = \<lparr>td_id = tip_id t, td_txHash = tip_txHash t, td_ledger = tip_ledger t, td_fromAddress = tip_from t,
     td_toAddress = tip_to t, td_amountStroops = show_int (tip_amount t), td_status = tip_status t,
     td_message = tip_message t, td_createdAt = iso_string (tip_createdAt t)\<rparr>"

record TipReceiptDto =
  rc_txHash :: string
  rc_ledger :: int
  rc_fromAddress :: string
  rc_toAddress :: string
  rc_amountStroops :: string
  rc_feeStroops :: string
  rc_tokenCode :: string
  rc_status :: TipStatus
  rc_message :: "string option"
  rc_createdAt :: string
  rc_explorerUrl :: string

definition serializeTipReceipt :: "string \<Rightarrow> tip_row \<Rightarrow> TipReceiptDto" where
  "serializeTipReceipt explorerBaseUrl t = \<lparr>rc_txHash = tip_txHash t, rc_ledger = tip_ledger t, rc_fromAddress = tip_from t,
     rc_toAddress = tip_to t, rc_amountStroops = show_int (tip_amount t), rc_feeStroops = show_int (tip_networkFee t),
     rc_tokenCode = tip_tokenCode t, rc_status = tip_status t, rc_message = tip_message t,
     rc_createdAt = iso_string (tip_createdAt t), rc_explorerUrl = explorerBaseUrl @ ''/tx/'' @ tip_txHash t\<rparr>"

section \<open>Listings\<close>

text \<open>
  \<open>findMany\<close> with a cursor row: the rows from the cursor's position on in the order of the query, whether or not the cursor row
  itself is among them, and none when there is no such row; \<open>skip: 1\<close> drops the first.
\<close>

definition tip_position :: "tip_row \<Rightarrow> int \<times> string" where
  "tip_position t = (tip_createdAt t, tip_id t)"

definition find_many_from :: "(tip_row \<Rightarrow> bool) \<Rightarrow> nat \<Rightarrow> string option \<Rightarrow> tip_row list \<Rightarrow> tip_row list" where
  "find_many_from cond n cursor rows =
     (let ordered = order_desc tip_position (filter cond rows)
      in case cursor of
           None \<Rightarrow> take n ordered
         | Some i \<Rightarrow> if i = [] then take n ordered else
             (case find_by tip_id i rows of
                None \<Rightarrow> []
              | Some c \<Rightarrow> take n (drop 1 (filter (\<lambda>t. tip_position t \<le> tip_position c) ordered))))"

definition cut_page :: "nat \<Rightarrow> tip_row list \<Rightarrow> TipResponseDto list \<times> string option" where
  "cut_page limit rows =
     (let hasMore = limit < length rows;
          page = (if hasMore then take limit rows else rows)
      in (map serializeTip page, if hasMore \<and> page \<noteq> [] then Some (tip_id (last page)) else None))"

definition listTips :: "(tip_row \<Rightarrow> bool) \<Rightarrow> nat \<Rightarrow> string option \<Rightarrow> (TipResponseDto list \<times> string option) dbio" where
  "listTips cond limit cursor = bnd (gets tips) (\<lambda>rows. ret (cut_page limit (find_many_from cond (limit + 1) cursor rows)))"

record GetTipsParams =
  gp_cursor :: "string option"
  gp_limit :: nat
  gp_address :: "string option"
  gp_direction :: "string option"
  gp_tokenCode :: "string option"
  gp_startDate :: "int option"
  gp_endDate :: "int option"

definition same_text :: "string \<Rightarrow> string \<Rightarrow> bool" where
  "same_text a b \<longleftrightarrow> to_lower a = to_lower b"

definition tip_filter :: "GetTipsParams \<Rightarrow> tip_row \<Rightarrow> bool" where
  "tip_filter p t \<longleftrightarrow>
     (case gp_address p of
        None \<Rightarrow> True
      | Some a \<Rightarrow> a = [] \<or>
          (if gp_direction p = Some ''sent'' then same_text (tip_from t) a
           else if gp_direction p = Some ''received'' then same_text (tip_to t) a
           else same_text (tip_from t) a \<or> same_text (tip_to t) a)) \<and>
     (case gp_tokenCode p of None \<Rightarrow> True | Some c \<Rightarrow> c = [] \<or> tip_tokenCode t = c) \<and>
     (case gp_startDate p of None \<Rightarrow> True | Some s \<Rightarrow> s \<le> tip_createdAt t) \<and>
     (case gp_endDate p of None \<Rightarrow> True | Some e \<Rightarrow> tip_createdAt t \<le> e)"

definition getPaginatedTips :: "GetTipsParams \<Rightarrow> (TipResponseDto list \<times> string option) dbio" where
  "getPaginatedTips p = bnd (gets tips) (\<lambda>rows.
     ret (cut_page (gp_limit p) (find_many_from (tip_filter p) (gp_limit p + 1) (gp_cursor p) rows)))"

definition getTipById :: "string \<Rightarrow> TipResponseDto dbio" where
  "getTipById i = bnd (gets (\<lambda>d. find_by tip_id i (tips d))) (\<lambda>tip.
     bnd (require tip (not_found ''Tip not found'')) (\<lambda>t. ret (serializeTip t)))"

definition getTipsReceivedByUsername :: "string \<Rightarrow> nat \<Rightarrow> string option \<Rightarrow> (TipResponseDto list \<times> string option) dbio" where
  "getTipsReceivedByUsername username limit cursor =
     bnd (gets (live_user (\<lambda>u. u_username u = Some username))) (\<lambda>found.
     bnd (require found (not_found ''Profile not found'')) (\<lambda>user.
       listTips (\<lambda>t. tip_to t = u_address user) limit cursor))"

definition getTipsSentByAddress :: "string \<Rightarrow> nat \<Rightarrow> string option \<Rightarrow> (TipResponseDto list \<times> string option) dbio" where
  "getTipsSentByAddress fromAddress limit cursor = listTips (\<lambda>t. tip_from t = fromAddress) limit cursor"

section \<open>Preparing a tip\<close>

record PreparedTip =
  pt_unsignedTxXdr :: string
  pt_sender :: string
  pt_recipient :: string
  pt_stroops :: string
  pt_contractId :: string
  pt_networkPassphrase :: string

definition tip_args :: "string \<Rightarrow> string \<Rightarrow> string \<Rightarrow> string option \<Rightarrow> sc_val list" where
  "tip_args sender recipient amount message = [ScAddress sender, ScAddress recipient, ScI128 amount] @
     (case message of None \<Rightarrow> [] | Some m \<Rightarrow> if m = [] then [] else [ScString m])"

definition prepareTip :: "soroban \<Rightarrow> string \<Rightarrow> string \<Rightarrow> string \<Rightarrow> string option \<Rightarrow> PreparedTip dbio" where
  "prepareTip so sender recipient amount message =
     andthen (throw_unless (so_contractId so \<noteq> []) (bad_request ''Contract ID is not configured''))
     (bnd (gets (user_by_address recipient)) (\<lambda>user.
      andthen (throw_unless (user \<noteq> None) (bad_request ''Recipient not found''))
      (bnd (lift_res (or_throw (so_getAccount so sender) (bad_request ''Source account not found on network''))) (\<lambda>account.
       bnd (lift_res (so_build so (wallet_call so (so_contractId so) account ''tip'' (tip_args sender recipient amount message)))) (\<lambda>tx.
       bnd (lift_res (simulate_and_assemble so tx)) (\<lambda>xdr.
         ret \<lparr>pt_unsignedTxXdr = xdr, pt_sender = sender, pt_recipient = recipient, pt_stroops = amount,
           pt_contractId = so_contractId so, pt_networkPassphrase = getNetworkPassphrase so\<rparr>))))))"

section \<open>Recording and confirming\<close>

record RecordTipInput =
  ri_txHash :: string
  ri_ledger :: int
  ri_fromAddress :: string
  ri_toAddress :: string
  ri_amountStroops :: string
  ri_message :: "string option"

definition reported_tip :: "runtime \<Rightarrow> string \<Rightarrow> RecordTipInput \<Rightarrow> int \<Rightarrow> tip_row" where
  "reported_tip rt i input amount = \<lparr>tip_id = i, tip_txHash = ri_txHash input, tip_ledger = ri_ledger input,
     tip_from = ri_fromAddress input, tip_to = ri_toAddress input, tip_amount = amount, tip_message = ri_message input,
     tip_status = PENDING, tip_createdAt = rt_now rt, tip_networkFee = 0, tip_tokenCode = ''XLM'', tip_recipientId = None\<rparr>"

definition reported_payload :: "RecordTipInput \<Rightarrow> jsval" where
  "reported_payload input = payload_object [(''txHash'', JStr (ri_txHash input)),
     (''amountStroops'', JStr (ri_amountStroops input)), (''fromAddress'', JStr (ri_fromAddress input))]"

definition count_today :: "runtime \<Rightarrow> int \<Rightarrow> db \<Rightarrow> db" where
  "count_today rt amount d = d\<lparr>analytics := upsert_row an_date (utc_day (rt_now rt))
     \<lparr>an_date = utc_day (rt_now rt), an_tips = 1, an_volume = amount, an_newUsers = 0, an_activeUsers = 1, an_version = 0\<rparr>
     (\<lambda>a. a\<lparr>an_tips := an_tips a + 1, an_volume := an_volume a + amount\<rparr>) (analytics d)\<rparr>"

definition notify_reported :: "runtime \<Rightarrow> RecordTipInput \<Rightarrow> notification_row option dbio" where
  "notify_reported rt input = bnd (gets (user_by_address (ri_toAddress input))) (\<lambda>receiver. case receiver of
       None \<Rightarrow> ret None
     | Some u \<Rightarrow> persistNotification rt (u_id u) ''tip_received'' (reported_payload input))"

text \<open>The transaction: the tip, whether it is new, and the notification to push.\<close>

definition insert_reported ::
  "(db \<Rightarrow> db) \<Rightarrow> runtime \<Rightarrow> RecordTipInput \<Rightarrow> (tip_row \<times> bool \<times> notification_row option) dbio" where
  "insert_reported late rt input =
     transaction
       (bnd (gets (tip_by_hash (ri_txHash input))) (\<lambda>dup. case dup of
            Some t \<Rightarrow> ret (t, False, None)
          | None \<Rightarrow>
              bnd (lift_res (big_int (ri_amountStroops input))) (\<lambda>amount.
              bnd (gets (\<lambda>d. tip_by_hash (ri_txHash input) (late d))) (\<lambda>clash.
              andthen (throw_unless (clash = None) (prisma_error ''P2002'' [''txHash'']))
              (bnd (fresh_id rt) (\<lambda>i.
               let tip = reported_tip rt i input amount
               in andthen (modify (\<lambda>d. d\<lparr>tips := tips d @ [tip]\<rparr>))
                  (bnd (notify_reported rt input) (\<lambda>notification.
                   andthen (modify (count_today rt amount))
                     (ret (tip, True, notification))))))))))"

definition quietly :: "unit dbio \<Rightarrow> unit dbio" where
  "quietly m = try_catch m (\<lambda>_. ret ())"

definition after_recording :: "(nat \<Rightarrow> db \<Rightarrow> db) \<Rightarrow> runtime \<Rightarrow> RecordTipInput \<Rightarrow> int \<Rightarrow> notification_row option \<Rightarrow> unit dbio" where
  "after_recording env rt input amount notification =
     andthen (case notification of None \<Rightarrow> ret () | Some n \<Rightarrow> emitNotificationCreated n)
       (bnd (gets (user_by_address (ri_toAddress input))) (\<lambda>receiver.
        bnd (gets (user_by_address (ri_fromAddress input))) (\<lambda>sender.
        andthen (case receiver of None \<Rightarrow> ret () | Some u \<Rightarrow> quietly (atomicIncrementGoalRaised (u_id u) amount))
          (case sender of None \<Rightarrow> ret () | Some u \<Rightarrow> quietly (updateStreakForTip env (u_id u) (rt_now rt))))))"

definition recordTip ::
  "(db \<Rightarrow> db) \<Rightarrow> (db \<Rightarrow> db) \<Rightarrow> (nat \<Rightarrow> db \<Rightarrow> db) \<Rightarrow> runtime \<Rightarrow> RecordTipInput \<Rightarrow> TipResponseDto dbio" where
  "recordTip mid late env rt input =
     bnd (gets (tip_by_hash (ri_txHash input))) (\<lambda>existing. case existing of
         Some t \<Rightarrow> ret (serializeTip t)
       | None \<Rightarrow>
           andthen (modify mid)
           (try_catch
             (bnd (insert_reported late rt input) (\<lambda>(tip, created, notification).
                andthen (if created then after_recording env rt input (tip_amount tip) notification else ret ())
                  (ret (serializeTip tip))))
             (\<lambda>e. if isUniqueConstraintViolation e
                 then andthen (modify late) (bnd (gets (tip_by_hash (ri_txHash input))) (\<lambda>tip. case tip of
                     Some t \<Rightarrow> ret (serializeTip t)
                   | None \<Rightarrow> throw e))
                 else throw e)))"

definition confirmTip :: "string \<Rightarrow> TipResponseDto dbio" where
  "confirmTip txHash =
     transaction
       (bnd (gets (tip_by_hash txHash)) (\<lambda>found.
        bnd (require found (not_found ''Tip not found'')) (\<lambda>tip.
        if tip_status tip = CONFIRMED then ret (serializeTip tip)
        else andthen (modify (\<lambda>d. d\<lparr>tips := update_rows (\<lambda>t. tip_txHash t = txHash) (\<lambda>t. t\<lparr>tip_status := CONFIRMED\<rparr>) (tips d)\<rparr>))
          (ret (serializeTip (tip\<lparr>tip_status := CONFIRMED\<rparr>))))))"

section \<open>Totals per creator\<close>

record TipAggregateByCreatorDto =
  ag_toAddress :: string
  ag_totalAmountStroops :: string
  ag_tipCount :: nat

definition confirmed_to :: "string \<Rightarrow> tip_row \<Rightarrow> bool" where
  "confirmed_to a t \<longleftrightarrow> tip_to t = a \<and> tip_status t = CONFIRMED"

definition creator_groups :: "tip_row list \<Rightarrow> (string \<times> int \<times> nat) list" where
  "creator_groups rows =
     map (\<lambda>a. (a, sum_rows (confirmed_to a) tip_amount rows, count_rows (confirmed_to a) rows))
       (remdups (map tip_to (filter (\<lambda>t. tip_status t = CONFIRMED) rows)))"

definition aggregateTipsByCreator :: "TipAggregateByCreatorDto list dbio" where
  "aggregateTipsByCreator = bnd (gets tips) (\<lambda>rows.
     ret (map (\<lambda>(a, total, n). \<lparr>ag_toAddress = a, ag_totalAmountStroops = show_int total, ag_tipCount = n\<rparr>)
       (order_desc (\<lambda>(a, total, n). total) (creator_groups rows))))"

section \<open>Following the cursors of a listing\<close>

lemma find_many_after:
  assumes "unique_by tip_id rows" and L: "L = order_desc tip_position (filter cond rows)" and "L = xs @ x # ys"
    and "tip_id x \<noteq> []"
  shows "find_many_from cond n (Some (tip_id x)) rows = take n ys"
proof -
  have strict: "sorted_wrt (\<lambda>a b. tip_position b < tip_position a) L"
    unfolding L using assms(1)
    by (intro strictly_desc distinct_map_filter)
      (auto simp: unique_by_def distinct_map inj_on_def tip_position_def)
  have "x \<in> set rows"
  proof -
    have "x \<in> set L" using assms(3) by simp
    then show ?thesis by (simp add: L)
  qed
  then have found: "find_by tip_id (tip_id x) rows = Some x"
    by (rule find_by_unique [OF assms(1)])
  have above: "filter (\<lambda>t. tip_position t \<le> tip_position x) xs = []"
    using strict assms(3) by (auto simp: filter_empty_conv sorted_wrt_append)
  have below: "filter (\<lambda>t. tip_position t \<le> tip_position x) (x # ys) = x # ys"
    using strict assms(3) by (auto simp: filter_id_conv sorted_wrt_append)
  show ?thesis
    using found above below assms(3,4) by (simp add: find_many_from_def L [symmetric])
qed

lemma cut_page_take:
  "0 < limit \<Longrightarrow> cut_page limit (take (limit + 1) ys) =
    (map serializeTip (take limit ys), if limit < length ys then Some (tip_id (last (take limit ys))) else None)"
  by (auto simp: cut_page_def Let_def min_def)

lemma tip_walk_suffix:
  assumes "unique_by tip_id rows" and ids: "\<And>t. t \<in> set rows \<Longrightarrow> tip_id t \<noteq> []"
    and L: "L = order_desc tip_position (filter cond rows)" and limit: "0 < limit"
  shows "xs @ ys = L \<Longrightarrow> xs \<noteq> [] \<Longrightarrow> length ys < fuel \<Longrightarrow>
    walk_pages (\<lambda>cu. Inr (cut_page limit (find_many_from cond (limit + 1) cu rows))) fuel (Some (tip_id (last xs))) =
      Some (map serializeTip ys)"
proof (induction fuel arbitrary: xs ys)
  case (Suc fuel)
  have split: "L = butlast xs @ last xs # ys"
    using Suc.prems(1,2) by (metis append_butlast_last_id append_Cons append_Nil append_assoc)
  have "last xs \<in> set L" using split by simp
  then have "tip_id (last xs) \<noteq> []" by (intro ids) (simp add: L)
  then have page: "cut_page limit (find_many_from cond (limit + 1) (Some (tip_id (last xs))) rows) =
      (map serializeTip (take limit ys), if limit < length ys then Some (tip_id (last (take limit ys))) else None)"
    using find_many_after [OF assms(1) L split] cut_page_take [OF limit] by simp
  show ?case
  proof (cases "limit < length ys")
    case True
    have "walk_pages (\<lambda>cu. Inr (cut_page limit (find_many_from cond (limit + 1) cu rows))) fuel
        (Some (tip_id (last (xs @ take limit ys)))) = Some (map serializeTip (drop limit ys))"
      using Suc.prems True limit by (intro Suc.IH) auto
    moreover have "take limit ys \<noteq> []" using True limit by auto
    moreover have "map serializeTip (take limit ys) @ map serializeTip (drop limit ys) = map serializeTip ys"
      by (metis append_take_drop_id map_append)
    ultimately show ?thesis using True page by simp
  next
    case False
    with page show ?thesis by simp
  qed
qed simp

text \<open>
  Following the cursors of a listing visits every tip of it once, newest first, and ends.
\<close>

theorem tip_pages_complete:
  assumes "unique_by tip_id (tips d)" and "\<And>t. t \<in> set (tips d) \<Longrightarrow> tip_id t \<noteq> []"
    and "0 < limit" and "length (tips d) < fuel"
  shows "walk_pages (\<lambda>cu. fst (listTips cond limit cu d)) fuel None =
    Some (map serializeTip (order_desc tip_position (filter cond (tips d))))"
proof -
  define L where "L = order_desc tip_position (filter cond (tips d))"
  have len: "length L < fuel"
    using assms(4) le_less_trans [OF length_filter_le [of cond "tips d"]] by (simp add: L_def)
  obtain f where f: "fuel = Suc f" using assms(4) by (cases fuel) auto
  have fetch: "(\<lambda>cu. fst (listTips cond limit cu d)) = (\<lambda>cu. Inr (cut_page limit (find_many_from cond (limit + 1) cu (tips d))))"
    by (simp add: listTips_def)
  have page: "cut_page limit (find_many_from cond (limit + 1) None (tips d)) =
      (map serializeTip (take limit L), if limit < length L then Some (tip_id (last (take limit L))) else None)"
    using cut_page_take [OF assms(3), of L] by (simp add: find_many_from_def L_def)
  show ?thesis
  proof (cases "limit < length L")
    case True
    have "take limit L \<noteq> []" using True assms(3) by auto
    then have "walk_pages (\<lambda>cu. Inr (cut_page limit (find_many_from cond (limit + 1) cu (tips d)))) f
        (Some (tip_id (last (take limit L)))) = Some (map serializeTip (drop limit L))"
      using tip_walk_suffix [OF assms(1,2) L_def assms(3), of "take limit L" "drop limit L" f] len True f assms(3) by simp
    moreover have "map serializeTip (take limit L) @ map serializeTip (drop limit L) = map serializeTip L"
      by (metis append_take_drop_id map_append)
    ultimately show ?thesis using True page f by (simp add: fetch L_def [symmetric])
  next
    case False
    with page f show ?thesis by (simp add: fetch L_def [symmetric])
  qed
qed

section \<open>What recording leaves behind\<close>

lemma streak_tips:
  assumes "\<And>n e. tips (env n e) = tips e"
  shows "tips (snd (streak_attempts left k env u now d)) = tips d"
proof (induction left arbitrary: k d)
  case (Suc left)
  then show ?case
    by (auto simp: assms swap_streak_def bnd_def split: option.splits)
qed simp

lemma streak_users:
  assumes "\<And>n e. users (env n e) = users e"
  shows "users (snd (streak_attempts left k env u now d)) = users d"
proof (induction left arbitrary: k d)
  case (Suc left)
  then show ?case
    by (auto simp: assms swap_streak_def bnd_def split: option.splits)
qed simp

lemma quietly_run: "\<exists>e. quietly m d = (Inr (), e) \<and> e = snd (m d)"
  by (cases "m d") (auto simp: quietly_def try_catch_def split: sum.splits)

lemma quietly_bnd [simp]: "bnd (quietly m) f d = f () (snd (m d))"
  using quietly_run [of m d] by (auto simp: bnd_def)

lemma quietly_apply [simp]: "quietly m d = (Inr (), snd (m d))"
  using quietly_run [of m d] by auto

lemma increment_tips [simp]:
  "tips (snd (atomicIncrementGoalRaised u a d)) = tips d" "users (snd (atomicIncrementGoalRaised u a d)) = users d"
  by (simp_all add: atomicIncrementGoalRaised_def upsert_goal_def)

lemma after_recording_run:
  assumes "\<And>n e. tips (env n e) = tips e" and "\<And>n e. users (env n e) = users e"
  shows "\<exists>e. after_recording env rt input amount n d = (Inr (), e) \<and> tips e = tips d \<and> users e = users d"
  using streak_tips [OF assms(1)] streak_users [OF assms(2)]
  by (auto simp: after_recording_def emitNotificationCreated_def updateStreakForTip_def split: option.splits)

text \<open>The outcome of the transaction: an older row, or a new one at the end of the table.\<close>

lemma insert_reported_Inl: "insert_reported late rt input d = (Inl e, d') \<Longrightarrow> d' = d"
  unfolding insert_reported_def by (rule transaction_Inl)

lemma insert_reported_known:
  "tip_by_hash (ri_txHash input) d = Some t \<Longrightarrow> insert_reported late rt input d = (Inr (t, False, None), d)"
  by (simp add: insert_reported_def transaction_Inr)

lemma notify_reported_frame: "notify_reported rt input d = (r, e) \<Longrightarrow> same_tables d e"
  by (auto simp: notify_reported_def dest: persist_frame split: option.splits)

lemma insert_reported_new:
  assumes "tip_by_hash (ri_txHash input) d = None" and "insert_reported late rt input d = (Inr (t, c, n), d')"
  shows "c \<and> (\<exists>i amount. big_int (ri_amountStroops input) = Inr amount \<and> t = reported_tip rt i input amount) \<and>
    tips d' = tips d @ [t] \<and> users d' = users d"
proof -
  from assms(2) obtain amount where amount: "big_int (ri_amountStroops input) = Inr amount"
    by (auto simp: insert_reported_def transaction_Inr assms(1) split: sum.splits)
  define t0 where "t0 = reported_tip rt (rt_cuid rt (nextId d)) input amount"
  define d0 where "d0 = d\<lparr>nextId := nextId d + 1, tips := tips d @ [t0]\<rparr>"
  obtain r e where run: "notify_reported rt input d0 = (r, e)" by force
  note same = notify_reported_frame [OF run]
  have "bnd (notify_reported rt input) (\<lambda>notification. andthen (modify (count_today rt amount)) (ret (t0, True, notification))) d0 =
      (Inr (t, c, n), d')"
    using assms(2) amount by (simp add: insert_reported_def transaction_Inr assms(1) t0_def d0_def Let_def split: if_splits)
  with run obtain m where "t = t0 \<and> c \<and> d' = count_today rt amount e \<and> r = Inr m"
    by (auto simp: bnd_Inr bnd_Inl bnd_def [of "notify_reported rt input"] split: sum.splits)
  then show ?thesis
    using same amount by (auto simp: same_tables_def t0_def d0_def count_today_def)
qed

text \<open>Recording under interference that keeps hashes unique and does not touch tips or users from a streak update.\<close>

lemma recordTip_run:
  assumes env: "\<And>n e. tips (env n e) = tips e" "\<And>n e. users (env n e) = users e"
    and keys: "unique_by tip_txHash (tips d)" "\<And>e. unique_by tip_txHash (tips e) \<Longrightarrow> unique_by tip_txHash (tips (mid e))"
      "\<And>e. unique_by tip_txHash (tips e) \<Longrightarrow> unique_by tip_txHash (tips (late e))"
    and run: "recordTip mid late env rt input d = (Inr r, d')"
  shows "\<exists>t. tip_by_hash (ri_txHash input) d' = Some t \<and> r = serializeTip t \<and> unique_by tip_txHash (tips d')"
proof (cases "tip_by_hash (ri_txHash input) d")
  case (Some t)
  with run keys(1) show ?thesis by (simp add: recordTip_def)
next
  case fresh: None
  have keys': "unique_by tip_txHash (tips (mid d))" using keys by blast
  obtain o1 e where ins: "insert_reported late rt input (mid d) = (o1, e)" by force
  show ?thesis
  proof (cases o1)
    case (Inl x)
    then have "e = mid d" using ins insert_reported_Inl by blast
    with Inl ins fresh run keys' keys(3) show ?thesis
      by (auto simp: recordTip_def try_catch_def bnd_Inl split: if_splits option.splits)
  next
    case (Inr v)
    obtain t c n where v: "v = (t, c, n)" by (cases v) auto
    show ?thesis
    proof (cases "tip_by_hash (ri_txHash input) (mid d)")
      case (Some t')
      with ins Inr v insert_reported_known [OF Some, of late rt] have "t = t'" "\<not> c" "e = mid d" by auto
      with Some Inr ins v fresh run keys' show ?thesis
        by (auto simp: recordTip_def try_catch_def bnd_Inr)
    next
      case None
      have "insert_reported late rt input (mid d) = (Inr (t, c, n), e)" using ins Inr v by simp
      from insert_reported_new [OF None this]
      have new: "c" "tips e = tips (mid d) @ [t]" "tip_txHash t = ri_txHash input"
        by (auto simp: reported_tip_def)
      obtain e' where after: "after_recording env rt input (tip_amount t) n e = (Inr (), e')" "tips e' = tips e"
        using after_recording_run [of env rt input "tip_amount t" n e] env by blast
      have "r = serializeTip t" "d' = e'"
        using ins Inr v fresh run new(1) after(1) by (auto simp: recordTip_def try_catch_def bnd_Inr)
      moreover have "unique_by tip_txHash (tips e')"
        using new keys' None after(2) by (simp add: unique_by_append_one tip_by_hash_def find_by_None)
      moreover from this have "tip_by_hash (ri_txHash input) e' = Some t"
        using find_by_unique [of tip_txHash "tips e'" t] new after(2) by (simp add: tip_by_hash_def)
      ultimately show ?thesis by blast
    qed
  qed
qed

lemma count_by_hash:
  "unique_by tip_txHash ts \<Longrightarrow> find_by tip_txHash h ts = Some t \<Longrightarrow> count_rows (\<lambda>x. tip_txHash x = h) ts = 1"
  using count_unique [of tip_txHash ts h t "\<lambda>_. True"] by simp

text \<open>
  A report that is accepted answers with the one tip of its transaction, whether it recorded it, found it, or lost the
  race against another report of the same transaction.
\<close>

theorem reported_tip_recorded_once:
  assumes "\<And>n e. tips (env n e) = tips e" "\<And>n e. users (env n e) = users e" and "unique_by tip_txHash (tips d)"
    and "\<And>e. unique_by tip_txHash (tips e) \<Longrightarrow> unique_by tip_txHash (tips (mid e))"
    and "\<And>e. unique_by tip_txHash (tips e) \<Longrightarrow> unique_by tip_txHash (tips (late e))"
    and "recordTip mid late env rt input d = (Inr r, d')"
  shows "\<exists>t. tip_by_hash (ri_txHash input) d' = Some t \<and> r = serializeTip t \<and>
    count_rows (\<lambda>x. tip_txHash x = ri_txHash input) (tips d') = 1"
  using recordTip_run [OF assms] count_by_hash by (auto simp: tip_by_hash_def)

section \<open>Confirming, and what an unverified report is worth\<close>

definition confirmed :: "tip_row \<Rightarrow> tip_row" where
  "confirmed t = t\<lparr>tip_status := CONFIRMED\<rparr>"

lemma confirmed_fields [simp]:
  "tip_to (confirmed t) = tip_to t" "tip_amount (confirmed t) = tip_amount t" "tip_status (confirmed t) = CONFIRMED"
  "tip_txHash (confirmed t) = tip_txHash t"
  by (simp_all add: confirmed_def)

lemma received_confirmed:
  "unique_by tip_txHash ts \<Longrightarrow> find_by tip_txHash h ts = Some t \<Longrightarrow>
   sum_rows (confirmed_to a) tip_amount (update_rows (\<lambda>x. tip_txHash x = h) confirmed ts) =
   sum_rows (confirmed_to a) tip_amount ts + (if tip_to t = a \<and> tip_status t \<noteq> CONFIRMED then tip_amount t else 0)"
proof (induction ts)
  case (Cons x ts)
  show ?case
  proof (cases "tip_txHash x = h")
    case True
    with Cons.prems have "x = t" "tip_txHash x \<notin> tip_txHash ` set ts" by (auto simp: find_by_def)
    moreover from this True have "update_rows (\<lambda>x. tip_txHash x = h) confirmed ts = ts"
      by (intro update_rows_none) (metis imageI)
    ultimately have "x = t" "update_rows (\<lambda>x. tip_txHash x = h) confirmed ts = ts" by simp_all
    with True show ?thesis by (simp add: confirmed_to_def)
  next
    case False
    with Cons show ?thesis by (simp add: find_by_def)
  qed
qed (simp add: find_by_def)

lemma received_sum: "received a d = sum_rows (confirmed_to a) tip_amount (tips d)"
  by (simp add: received_def confirmed_to_def [abs_def])

lemma confirm_run:
  assumes "unique_by tip_txHash (tips d)" and "tip_by_hash h d = Some t"
  shows "\<exists>d'. confirmTip h d = (Inr (serializeTip (confirmed t)), d') \<and>
    tips d' = update_rows (\<lambda>x. tip_txHash x = h) confirmed (tips d) \<and>
    received a d' = received a d + (if tip_to t = a \<and> tip_status t \<noteq> CONFIRMED then tip_amount t else 0)"
proof -
  have tail: "received a (d\<lparr>tips := update_rows (\<lambda>x. tip_txHash x = h) confirmed (tips d)\<rparr>) =
      received a d + (if tip_to t = a \<and> tip_status t \<noteq> CONFIRMED then tip_amount t else 0)"
    using received_confirmed [OF assms(1)] assms(2) by (simp add: received_sum tip_by_hash_def)
  show ?thesis
  proof (cases "tip_status t = CONFIRMED")
    case True
    have same: "x = t" if "x \<in> set (tips d)" "tip_txHash x = h" for x
      using that unique_by_eq [OF assms(1)] find_by_Some assms(2) unfolding tip_by_hash_def by metis
    have "update_rows (\<lambda>x. tip_txHash x = h) confirmed (tips d) = tips d"
      using same True by (auto simp: update_rows_def confirmed_def intro!: map_idI)
    moreover have "confirmed t = t" using True by (simp add: confirmed_def)
    ultimately show ?thesis using True assms(2) by (simp add: confirmTip_def transaction_run)
  next
    case False
    with assms(2) tail show ?thesis
      by (simp add: confirmTip_def transaction_run confirmed_def [abs_def])
  qed
qed

text \<open>
  Confirming a known tip makes it confirmed whatever its state was, a refunded one included: unless it was confirmed already, its
  recipient's received total grows by its amount and no other total changes.
\<close>

theorem confirm_tip_effect:
  assumes "unique_by tip_txHash (tips d)" and "tip_by_hash h d = Some t"
  shows "\<exists>d'. confirmTip h d = (Inr (serializeTip (confirmed t)), d') \<and>
    received a d' = received a d + (if tip_to t = a \<and> tip_status t \<noteq> CONFIRMED then tip_amount t else 0)"
  using confirm_run [OF assms, of a] by blast


text \<open>A reported tip also shadows the event of its transaction: what the chain says is not taken over any more.\<close>

lemma reported_tip_shadows_event:
  assumes "tip_by_hash (ev_txHash ev) d = Some t"
  shows "tips (snd (projectTip rt ev d)) = tips d"
  using assms by (auto simp: projectTip_def try_catch_run transaction_run bnd_def [of "try_catch _ _"] split: option.splits)

section \<open>Totals per creator\<close>

lemma sum_list_map_mset: "mset xs = mset ys \<Longrightarrow> sum_list (map f xs) = (sum_list (map f ys) :: int)"
  by (metis mset_map sum_mset_sum_list)

text \<open>
  The totals name every creator with confirmed tips once, largest total first; each is the creator's received total, and
  together they are the volume of all confirmed tips.
\<close>

theorem creator_totals:
  "\<exists>groups. aggregateTipsByCreator d = (Inr (map (\<lambda>(a, total, n). \<lparr>ag_toAddress = a, ag_totalAmountStroops = show_int total,
       ag_tipCount = n\<rparr>) groups), d) \<and>
     distinct (map fst groups) \<and> sorted_wrt (\<lambda>x y. fst (snd y) \<le> fst (snd x)) groups \<and>
     list_all (\<lambda>(a, total, n). total = received a d \<and> 0 < n) groups \<and>
     sum_list (map (fst \<circ> snd) groups) = sum_rows (\<lambda>t. tip_status t = CONFIRMED) tip_amount (tips d)"
proof (intro exI conjI)
  let ?as = "remdups (map tip_to (filter (\<lambda>t. tip_status t = CONFIRMED) (tips d)))"
  let ?groups = "order_desc (\<lambda>(a, total, n). total) (creator_groups (tips d))"
  have perm: "mset ?groups = mset (creator_groups (tips d))" by (simp add: order_desc_def)
  show "aggregateTipsByCreator d = (Inr (map (\<lambda>(a, total, n). \<lparr>ag_toAddress = a, ag_totalAmountStroops = show_int total,
       ag_tipCount = n\<rparr>) ?groups), d)"
    by (simp add: aggregateTipsByCreator_def)
  have "distinct (map fst (creator_groups (tips d)))"
    by (simp add: creator_groups_def comp_def)
  then show "distinct (map fst ?groups)"
    using perm by (metis mset_eq_imp_distinct_iff mset_map)
  show "sorted_wrt (\<lambda>x y. fst (snd y) \<le> fst (snd x)) ?groups"
    using sorted_order_desc [of "\<lambda>(a, total, n). total" "creator_groups (tips d)"] by (simp add: case_prod_unfold)
  have "0 < count_rows (confirmed_to a) (tips d)" if "a \<in> set ?as" for a
    using that count_rows_0 [of "confirmed_to a" "tips d"] by (auto simp: confirmed_to_def)
  then show "list_all (\<lambda>(a, total, n). total = received a d \<and> 0 < n) ?groups"
    by (auto simp: list_all_iff creator_groups_def received_sum)
  have "sum_list (map (fst \<circ> snd) ?groups) = sum_list (map (fst \<circ> snd) (creator_groups (tips d)))"
    by (rule sum_list_map_mset) (rule perm)
  also have "\<dots> = sum_list (map (\<lambda>a. sum_rows (\<lambda>t. tip_to t = a \<and> tip_status t = CONFIRMED) tip_amount (tips d)) ?as)"
    by (simp add: creator_groups_def comp_def confirmed_to_def [abs_def])
  also have "\<dots> = sum_rows (\<lambda>t. tip_status t = CONFIRMED) tip_amount (tips d)"
    by (rule sum_of_groups) auto
  finally show "sum_list (map (fst \<circ> snd) ?groups) = sum_rows (\<lambda>t. tip_status t = CONFIRMED) tip_amount (tips d)" .
qed

section \<open>Examples\<close>

definition demo_tip :: "string \<Rightarrow> TipStatus \<Rightarrow> tip_row" where
  "demo_tip h st = \<lparr>tip_id = ''t'' @ h, tip_txHash = h, tip_ledger = 7, tip_from = ''GA'', tip_to = ''GB'', tip_amount = 50,
     tip_message = None, tip_status = st, tip_createdAt = 0, tip_networkFee = 0, tip_tokenCode = ''XLM'', tip_recipientId = None\<rparr>"

definition demo_tips :: db where
  "demo_tips = empty_db\<lparr>tips := [demo_tip ''h1'' CONFIRMED, demo_tip ''h2'' REFUNDED, demo_tip ''h3'' PENDING]\<rparr>"

definition demo_report :: RecordTipInput where
  "demo_report = \<lparr>ri_txHash = ''h9'', ri_ledger = 1, ri_fromAddress = ''GX'', ri_toAddress = ''GB'', ri_amountStroops = ''1000'', ri_message = None\<rparr>"

definition demo_runtime :: runtime where
  "demo_runtime = \<lparr>rt_now = 0, rt_cuid = (\<lambda>n. ''c'' @ show_nat n), rt_broker = True\<rparr>"

lemma demo_tips_unique: "unique_by tip_txHash (tips demo_tips)" "unique_by tip_id (tips demo_tips)"
  by (simp_all add: demo_tips_def demo_tip_def)

lemma demo_recorded:
  "\<exists>r d'. recordTip id id (\<lambda>_. id) demo_runtime demo_report demo_tips = (Inr r, d')"
  "tip_by_hash ''h9'' demo_tips = None" "big_int ''1000'' = Inr 1000"
proof -
  show none: "tip_by_hash ''h9'' demo_tips = None"
    by (simp add: demo_tips_def demo_tip_def tip_by_hash_def find_by_def)
  show amount: "big_int ''1000'' = Inr 1000" by code_simp
  show "\<exists>r d'. recordTip id id (\<lambda>_. id) demo_runtime demo_report demo_tips = (Inr r, d')"
    using none amount
    by (simp add: recordTip_def demo_report_def insert_reported_def try_catch_run transaction_run Let_def notify_reported_def
        user_by_address_def live_user_def after_recording_def bnd_def demo_tips_def empty_db_def count_today_def find_row_def)
qed

theorem tip_pages_complete_witness:
  "walk_pages (\<lambda>cu. fst (listTips (\<lambda>_. True) 2 cu demo_tips)) 4 None =
     Some (map serializeTip (order_desc tip_position (tips demo_tips)))"
proof -
  have ids: "tip_id t \<noteq> []" if "t \<in> set (tips demo_tips)" for t
    using that by (auto simp: demo_tips_def demo_tip_def)
  have "length (tips demo_tips) < 4" by (simp add: demo_tips_def)
  with tip_pages_complete [OF demo_tips_unique(2) ids, of 2 4 "\<lambda>_. True"] show ?thesis by simp
qed

theorem reported_tip_recorded_once_witness:
  "count_rows (\<lambda>x. tip_txHash x = ''h9'') (tips (snd (recordTip id id (\<lambda>_. id) demo_runtime demo_report demo_tips))) = 1"
proof -
  obtain r d' where run: "recordTip id id (\<lambda>_. id) demo_runtime demo_report demo_tips = (Inr r, d')"
    using demo_recorded(1) by blast
  have env: "tips ((\<lambda>_. id) n e) = tips e" "users ((\<lambda>_. id) n e) = users e" for n :: nat and e by simp_all
  have hash: "ri_txHash demo_report = ''h9''" by (simp add: demo_report_def)
  from reported_tip_recorded_once [of "\<lambda>_. id" demo_tips id id, OF _ _ demo_tips_unique(1) _ _ run] env
  have "\<exists>t. tip_by_hash ''h9'' d' = Some t \<and> r = serializeTip t \<and> count_rows (\<lambda>x. tip_txHash x = ''h9'') (tips d') = 1"
    unfolding hash by simp
  then show ?thesis unfolding run by auto
qed

theorem confirm_tip_effect_witness:
  "\<exists>d'. confirmTip ''h2'' demo_tips = (Inr (serializeTip (confirmed (demo_tip ''h2'' REFUNDED))), d') \<and> received ''GB'' d' = 100"
proof -
  have "tip_by_hash ''h2'' demo_tips = Some (demo_tip ''h2'' REFUNDED)"
    by (simp add: demo_tips_def demo_tip_def tip_by_hash_def find_by_def)
  from confirm_tip_effect [OF demo_tips_unique(1) this, of "''GB''"] show ?thesis
    by (simp add: received_def demo_tips_def demo_tip_def)
qed


end
