(* ===== verification/Goals.thy ===== *)
theory Goals
  imports Tips Payouts
begin

text \<open>
  The goal service (\<open>backend/src/modules/goals/goals.service.ts\<close>): creation, listing, and the changes an owner makes. The rows
  are shared with the goals the projections keep. Creation and update times are left out of the responses; newest first is
  the reverse order of insertion.
\<close>

record GoalResponse =
  gr_id :: string
  gr_userId :: string
  gr_title :: string
  gr_targetStroops :: string
  gr_raisedStroops :: string
  gr_deadline :: "string option"
  gr_status :: GoalStatus

definition serializeGoal :: "goal_row \<Rightarrow> GoalResponse" where
  "serializeGoal g = \<lparr>gr_id = g_id g, gr_userId = g_userId g, gr_title = g_title g, gr_targetStroops = show_int (g_target g),
     gr_raisedStroops = show_int (g_raised g), gr_deadline = map_option iso_string (g_deadline g), gr_status = g_status g\<rparr>"

text \<open>The input of a creation; a deadline is the time its text denotes.\<close>

record CreateGoalInput =
  cg_title :: string
  cg_targetStroops :: string
  cg_deadline :: "int option"

definition createGoal :: "runtime \<Rightarrow> string \<Rightarrow> CreateGoalInput \<Rightarrow> GoalResponse dbio" where
  "createGoal rt userId input =
     bnd (lift_res (big_int (cg_targetStroops input))) (\<lambda>target.
     bnd (fresh_id rt) (\<lambda>i.
      let goal = \<lparr>g_id = i, g_userId = userId, g_title = cg_title input, g_target = target, g_raised = 0,
            g_deadline = cg_deadline input, g_status = GActive, g_version = 0, g_deletedAt = None\<rparr>
      in andthen (modify (\<lambda>d. d\<lparr>goals := goals d @ [goal]\<rparr>)) (ret (serializeGoal goal))))"

definition getGoalById :: "string \<Rightarrow> GoalResponse dbio" where
  "getGoalById gid = bnd (gets (live_goal gid)) (\<lambda>found.
     bnd (require found (not_found ''Goal not found'')) (\<lambda>goal. ret (serializeGoal goal)))"

record goal_page =
  gl_data :: "GoalResponse list"
  gl_limit :: nat
  gl_offset :: nat
  gl_total :: nat
  gl_hasMore :: bool

definition listGoals :: "nat \<Rightarrow> nat \<Rightarrow> GoalStatus option \<Rightarrow> goal_page dbio" where
  "listGoals limit offset status =
     bnd (gets (\<lambda>d. filter (\<lambda>g. g_deletedAt g = None \<and> (status = None \<or> status = Some (g_status g))) (goals d))) (\<lambda>rows.
      let page = take limit (drop offset (rev rows))
      in ret \<lparr>gl_data = map serializeGoal page, gl_limit = limit, gl_offset = offset, gl_total = length rows,
           gl_hasMore = (offset + length page < length rows)\<rparr>)"

text \<open>An update names the fields to change; a deadline of \<open>null\<close> clears it.\<close>

record UpdateGoalInput =
  ug_title :: "string option"
  ug_targetStroops :: "string option"
  ug_deadline :: "int option option"
  ug_status :: "GoalStatus option"

definition patch_goal :: "UpdateGoalInput \<Rightarrow> int option \<Rightarrow> goal_row \<Rightarrow> goal_row" where
  "patch_goal input target g = g\<lparr>g_title := or_value (ug_title input) (g_title g), g_target := or_value target (g_target g),
     g_deadline := or_value (ug_deadline input) (g_deadline g), g_status := or_value (ug_status input) (g_status g)\<rparr>"

definition write_goal :: "string \<Rightarrow> (goal_row \<Rightarrow> goal_row) \<Rightarrow> goal_row \<Rightarrow> GoalResponse dbio" where
  "write_goal gid f goal =
     andthen (modify (\<lambda>d. d\<lparr>goals := update_rows (\<lambda>g. g_id g = gid) f (goals d)\<rparr>)) (ret (serializeGoal (f goal)))"

definition parse_target :: "string option \<Rightarrow> jsval + int option" where
  "parse_target s = (case s of None \<Rightarrow> Inr None
     | Some t \<Rightarrow> (case big_int t of Inl e \<Rightarrow> Inl e | Inr n \<Rightarrow> Inr (Some n)))"

definition updateGoal :: "string \<Rightarrow> string \<Rightarrow> UpdateGoalInput \<Rightarrow> GoalResponse dbio" where
  "updateGoal gid userId input =
     bnd (gets (live_goal gid)) (\<lambda>found.
     bnd (require found (not_found ''Goal not found'')) (\<lambda>goal.
     bnd (lift_res (assertOwnership (g_userId goal) userId ''You can only update your own goals'')) (\<lambda>_.
     bnd (lift_res (parse_target (ug_targetStroops input))) (\<lambda>target.
       write_goal gid (patch_goal input target) goal))))"

definition cancelGoal :: "string \<Rightarrow> string \<Rightarrow> GoalResponse dbio" where
  "cancelGoal gid userId =
     bnd (gets (live_goal gid)) (\<lambda>found.
     bnd (require found (not_found ''Goal not found'')) (\<lambda>goal.
     bnd (lift_res (assertOwnership (g_userId goal) userId ''You can only cancel your own goals'')) (\<lambda>_.
       write_goal gid (\<lambda>g. g\<lparr>g_status := GCancelled\<rparr>) goal)))"

section \<open>What a change can do\<close>

text \<open>The fields of a goal that no owner's change touches.\<close>

definition goal_identity :: "goal_row \<Rightarrow> string \<times> string \<times> int \<times> int option" where
  "goal_identity g = (g_id g, g_userId g, g_raised g, g_deletedAt g)"

lemma write_goal_effect:
  assumes "\<And>g. goal_identity (f g) = goal_identity g"
  shows "map goal_identity (goals (snd (write_goal i f g d))) = map goal_identity (goals d) \<and>
    filter (\<lambda>x. g_id x \<noteq> i) (goals (snd (write_goal i f g d))) = filter (\<lambda>x. g_id x \<noteq> i) (goals d)"
proof -
  have ids: "g_id (f x) = g_id x" for x using assms [of x] by (simp add: goal_identity_def)
  have "filter (\<lambda>x. g_id x \<noteq> i) (update_rows (\<lambda>x. g_id x = i) f gs) = filter (\<lambda>x. g_id x \<noteq> i) gs" for gs
    by (induction gs) (simp_all add: ids)
  then show ?thesis by (simp add: write_goal_def map_update_rows assms)
qed

definition goal_change :: "string \<Rightarrow> string \<Rightarrow> UpdateGoalInput option \<Rightarrow> GoalResponse dbio" where
  "goal_change gid userId change = (case change of None \<Rightarrow> cancelGoal gid userId | Some input \<Rightarrow> updateGoal gid userId input)"

lemma goal_change_cases:
  "(\<exists>e. goal_change gid userId change d = (Inl e, d)) \<or>
   (\<exists>g f. live_goal gid d = Some g \<and> g_userId g = userId \<and> (\<forall>x. goal_identity (f x) = goal_identity x) \<and>
      goal_change gid userId change d = write_goal gid f g d)"
proof (cases "live_goal gid d")
  case None
  then show ?thesis by (auto simp: goal_change_def cancelGoal_def updateGoal_def split: option.splits)
next
  case (Some g)
  show ?thesis
  proof (cases "g_userId g = userId")
    case False
    with Some show ?thesis
      by (auto simp: goal_change_def cancelGoal_def updateGoal_def assertOwnership_def split: option.splits)
  next
    case owner: True
    show ?thesis
    proof (cases change)
      case None
      have "\<forall>x. goal_identity (x\<lparr>g_status := GCancelled\<rparr>) = goal_identity x" by (simp add: goal_identity_def)
      with Some owner None show ?thesis
        by (auto simp: goal_change_def cancelGoal_def assertOwnership_def)
    next
      case change: (Some input)
      show ?thesis
      proof (cases "parse_target (ug_targetStroops input)")
        case (Inl e)
        with Some owner change show ?thesis by (simp add: goal_change_def updateGoal_def assertOwnership_def)
      next
        case (Inr target)
        have "\<forall>x. goal_identity (patch_goal input target x) = goal_identity x"
          by (simp add: goal_identity_def patch_goal_def)
        with Some owner change Inr show ?thesis
          by (auto simp: goal_change_def updateGoal_def assertOwnership_def)
      qed
    qed
  qed
qed

text \<open>
  A change of a goal, an update or a cancellation, never alters owners, raised amounts or other goals than the
  named one, and alters nothing when the caller does not own it.
\<close>

theorem goal_changes_are_confined:
  "map goal_identity (goals (snd (goal_change gid userId change d))) = map goal_identity (goals d) \<and>
   filter (\<lambda>x. g_id x \<noteq> gid) (goals (snd (goal_change gid userId change d))) = filter (\<lambda>x. g_id x \<noteq> gid) (goals d) \<and>
   (some_with (\<lambda>g. g_userId g = userId) (live_goal gid d) \<or> snd (goal_change gid userId change d) = d)"
proof -
  consider e where "goal_change gid userId change d = (Inl e, d)"
    | g f where "live_goal gid d = Some g" "g_userId g = userId" "\<forall>x. goal_identity (f x) = goal_identity x"
      "goal_change gid userId change d = write_goal gid f g d"
    using goal_change_cases [of gid userId change d] by blast
  then show ?thesis
  proof cases
    case 1
    then show ?thesis by simp
  next
    case 2
    then show ?thesis using write_goal_effect [of f gid g d] by simp
  qed
qed

text \<open>A goal the projections closed can be opened again by its owner.\<close>

lemma closed_goal_reopens:
  assumes "live_goal i d = Some g" and "g_userId g = u"
  shows "\<exists>d'. updateGoal i u \<lparr>ug_title = None, ug_targetStroops = None, ug_deadline = None, ug_status = Some GActive\<rparr> d =
    (Inr (serializeGoal (g\<lparr>g_status := GActive\<rparr>)), d')"
  using assms by (simp add: updateGoal_def assertOwnership_def write_goal_def parse_target_def patch_goal_def or_value_def)

end
