(* ===== verification/Streaks.thy ===== *)
theory Streaks
  imports Concurrency
begin

text \<open>
  The streak service (\<open>backend/src/modules/streaks/streaks.service.ts\<close>): the streak of a user and its update when the user tips.
  Other requests may run between the read and the creation of the row (\<open>mid\<close>). The specification counts days: the current streak is
  the run of days with a tip that ends with the last one, the longest streak the longest run of days.
\<close>

record StreakResponse =
  sk_currentStreak :: int
  sk_longestStreak :: int
  sk_lastTipDate :: "string option"

definition getMyStreak :: "string \<Rightarrow> StreakResponse dbio" where
  "getMyStreak userId =
     bnd (gets (user_by_id userId)) (\<lambda>found.
     bnd (require found (bad_request ''User not found'')) (\<lambda>_.
     bnd (gets (streak_of userId)) (\<lambda>streak.
       ret (case streak of
              None \<Rightarrow> \<lparr>sk_currentStreak = 0, sk_longestStreak = 0, sk_lastTipDate = None\<rparr>
            | Some s \<Rightarrow> \<lparr>sk_currentStreak = st_current s, sk_longestStreak = st_longest s,
                sk_lastTipDate = map_option iso_string (st_lastTip s)\<rparr>))))"

definition getTodayUTC :: "int \<Rightarrow> int" where
  "getTodayUTC now = utc_day now"

definition isYesterday :: "int \<Rightarrow> int \<Rightarrow> bool" where
  "isYesterday now t \<longleftrightarrow> utc_day t = getTodayUTC now - DAY_MS"

definition isToday :: "int \<Rightarrow> int \<Rightarrow> bool" where
  "isToday now t \<longleftrightarrow> utc_day t = getTodayUTC now"

record StreakUpdateResult =
  su_currentStreak :: int
  su_longestStreak :: int
  su_streakUpdated :: bool

definition updateExistingStreak :: "int \<Rightarrow> streak_row \<Rightarrow> int \<Rightarrow> StreakUpdateResult dbio" where
  "updateExistingStreak now existing today =
     (if some_with (isToday now) (st_lastTip existing)
      then ret \<lparr>su_currentStreak = st_current existing, su_longestStreak = st_longest existing, su_streakUpdated = False\<rparr>
      else let newCurrent = (if some_with (isYesterday now) (st_lastTip existing) then st_current existing + 1 else 1);
               newLongest = max newCurrent (st_longest existing)
           in andthen (modify (\<lambda>d. d\<lparr>streaks := update_rows (\<lambda>s. st_userId s = st_userId existing)
                (\<lambda>s. s\<lparr>st_current := newCurrent, st_longest := newLongest, st_lastTip := Some today\<rparr>) (streaks d)\<rparr>))
              (ret \<lparr>su_currentStreak = newCurrent, su_longestStreak = newLongest, su_streakUpdated = True\<rparr>))"

definition create_streak :: "string \<Rightarrow> int \<Rightarrow> StreakUpdateResult dbio" where
  "create_streak tipperId today =
     bnd (gets (streak_of tipperId)) (\<lambda>clash.
     andthen (throw_unless (clash = None) (prisma_error ''P2002'' [''userId'']))
     (andthen (modify (\<lambda>d. d\<lparr>streaks := streaks d @
         [\<lparr>st_userId = tipperId, st_current = 1, st_longest = 1, st_lastTip = Some today, st_version = 0\<rparr>]\<rparr>))
       (ret \<lparr>su_currentStreak = 1, su_longestStreak = 1, su_streakUpdated = True\<rparr>)))"

definition updateStreakOnTip :: "(db \<Rightarrow> db) \<Rightarrow> string \<Rightarrow> int \<Rightarrow> StreakUpdateResult dbio" where
  "updateStreakOnTip mid tipperId now =
     (let today = getTodayUTC now in
      bnd (gets (streak_of tipperId)) (\<lambda>existing. case existing of
          Some s \<Rightarrow> updateExistingStreak now s today
        | None \<Rightarrow>
            andthen (modify mid)
            (try_catch (create_streak tipperId today)
              (\<lambda>e. if isUniqueConstraintViolation e
                 then bnd (gets (streak_of tipperId)) (\<lambda>newStreak. case newStreak of
                     None \<Rightarrow> throw (js_error ''Failed to create or find streak after P2002 error'')
                   | Some s \<Rightarrow> updateExistingStreak now s today)
                 else throw e))))"

section \<open>Counting days\<close>

definition day_of :: "int \<Rightarrow> int" where
  "day_of t = t div DAY_MS"

definition day_run :: "int set \<Rightarrow> int \<Rightarrow> int \<Rightarrow> bool" where
  "day_run S D n \<longleftrightarrow> {D - n <.. D} \<subseteq> S"

text \<open>\<open>streak_spec S D c l\<close>: over the days \<open>S\<close>, the last of which is \<open>D\<close>, the current run has \<open>c\<close> days and the longest \<open>l\<close>.\<close>

definition streak_spec :: "int set \<Rightarrow> int \<Rightarrow> int \<Rightarrow> int \<Rightarrow> bool" where
  "streak_spec S D c l \<longleftrightarrow> 1 \<le> c \<and> day_run S D c \<and> D - c \<notin> S \<and> (\<exists>E. day_run S E l) \<and> (\<forall>E n. day_run S E n \<longrightarrow> n \<le> l)"

lemma spec_longest: "streak_spec S D c l \<Longrightarrow> c \<le> l"
  by (auto simp: streak_spec_def)

lemma spec_first: "streak_spec {D} D 1 1"
proof -
  have "n \<le> 1" if "{E - n <.. E} \<subseteq> {D}" for E n :: int
  proof (rule ccontr)
    assume "\<not> n \<le> 1"
    then have "E \<in> {E - n <.. E}" "E - 1 \<in> {E - n <.. E}" by auto
    with that have "E = D" "E - 1 = D" by blast+
    then show False by simp
  qed
  moreover have "{D - 1 <.. D} \<subseteq> {D}" by auto
  ultimately show ?thesis unfolding streak_spec_def day_run_def by auto
qed

text \<open>A run that ends with a new last day continues the run before it.\<close>

lemma spec_step:
  assumes spec: "streak_spec S D c l" and max: "\<And>E. E \<in> S \<Longrightarrow> E \<le> D" and "D < D'"
    and c': "c' = (if D' = D + 1 then c + 1 else 1)"
  shows "streak_spec (insert D' S) D' c' (max c' l)"
proof -
  have fresh: "D' \<notin> S" using max \<open>D < D'\<close> by force
  have one: "1 \<le> c'" using spec by (simp add: c' streak_spec_def)
  have run: "day_run (insert D' S) D' c'"
  proof (cases "D' = D + 1")
    case True
    then have "{D' - c' <.. D'} = insert D' {D - c <.. D}" using spec by (auto simp: c' streak_spec_def)
    with spec show ?thesis by (auto simp: day_run_def streak_spec_def)
  next
    case False
    then have "c' = 1" by (simp add: c')
    then show ?thesis by (auto simp: day_run_def)
  qed
  have stop: "D' - c' \<notin> insert D' S"
  proof (cases "D' = D + 1")
    case True
    then have "D' - c' = D - c" by (simp add: c')
    with spec one show ?thesis by (auto simp: streak_spec_def)
  next
    case False
    then have "D < D' - 1" using \<open>D < D'\<close> by simp
    with False max show ?thesis by (force simp: c')
  qed
  have bound: "n \<le> max c' l" if "day_run (insert D' S) E n" for E n
  proof (cases "D' \<in> {E - n <.. E}")
    case False
    with that have "day_run S E n" by (auto simp: day_run_def)
    then have "n \<le> l" using spec unfolding streak_spec_def by blast
    then show ?thesis by simp
  next
    case True
    then have "E \<in> {E - n <.. E}" by auto
    then have "E \<in> insert D' S" using that unfolding day_run_def by blast
    then have "E = D'" using True max \<open>D < D'\<close> by force
    have "n \<le> c'"
    proof (rule ccontr)
      assume "\<not> n \<le> c'"
      then have "D' - c' \<in> {E - n <.. E}" using one \<open>E = D'\<close> by auto
      with that stop show False by (auto simp: day_run_def)
    qed
    then show ?thesis by simp
  qed
  have "\<exists>E. day_run (insert D' S) E (max c' l)"
  proof (cases "c' \<le> l")
    case True
    obtain E where "day_run S E l" using spec by (auto simp: streak_spec_def)
    with True have "day_run (insert D' S) E (max c' l)" by (auto simp: day_run_def max_def)
    then show ?thesis ..
  next
    case False
    with run show ?thesis by (auto simp: max_def)
  qed
  with one run stop bound show ?thesis by (auto simp: streak_spec_def)
qed

section \<open>The update keeps the count\<close>

lemma utc_day_day: "utc_day t = day_of t * DAY_MS"
  by (simp add: utc_day_def day_of_def minus_mod_eq_div_mult)

lemma DAY_pos: "0 < DAY_MS" by (simp add: DAY_MS_def)

lemma utc_day_idem [simp]: "utc_day (utc_day t) = utc_day t"
  by (simp add: utc_day_day day_of_def DAY_MS_def)

lemma same_day: "utc_day s = utc_day t \<longleftrightarrow> day_of s = day_of t"
  using DAY_pos by (simp add: utc_day_day)

lemma previous_day: "utc_day s = utc_day t - DAY_MS \<longleftrightarrow> day_of t = day_of s + 1"
proof -
  have "day_of s * DAY_MS = day_of t * DAY_MS - DAY_MS \<longleftrightarrow> (day_of s + 1) * DAY_MS = day_of t * DAY_MS"
    by (auto simp: algebra_simps)
  then show ?thesis using DAY_pos by (auto simp: utc_day_day)
qed

definition counts :: "string \<Rightarrow> int set \<Rightarrow> int \<Rightarrow> db \<Rightarrow> bool" where
  "counts u S t d \<longleftrightarrow> streaks_unique d \<and> (\<forall>E \<in> S. E \<le> day_of t) \<and> (\<exists>s. streak_of u d = Some s \<and> st_userId s = u \<and>
     st_lastTip s = Some (utc_day t) \<and> streak_spec S (day_of t) (st_current s) (st_longest s))"

lemma streak_of_user: "streak_of u d = Some s \<Longrightarrow> st_userId s = u"
  by (auto simp: streak_of_def dest: find_by_Some)

lemma streak_update_rows:
  assumes "streak_of u d = Some s" and "\<And>x. st_userId (f x) = st_userId x" and "streaks_unique d"
  shows "streak_of u (d\<lparr>streaks := update_rows (\<lambda>x. st_userId x = u) f (streaks d)\<rparr>) = Some (f s)"
    and "streaks_unique (d\<lparr>streaks := update_rows (\<lambda>x. st_userId x = u) f (streaks d)\<rparr>)"
  using assms streak_of_user [OF assms(1)]
  by (simp_all add: streak_of_def find_by_update streaks_unique_def unique_by_update)

lemma first_tip:
  assumes "streak_of u d = None" and "streaks_unique d"
  shows "\<exists>r d'. updateStreakOnTip id u t d = (Inr r, d') \<and> counts u {day_of t} t d'"
proof -
  let ?row = "\<lparr>st_userId = u, st_current = 1, st_longest = 1, st_lastTip = Some (utc_day t), st_version = 0\<rparr>"
  have "streak_of u (d\<lparr>streaks := streaks d @ [?row]\<rparr>) = Some ?row"
    using assms(1) by (simp add: streak_of_def find_by_def find_row_append)
  moreover have "streaks_unique (d\<lparr>streaks := streaks d @ [?row]\<rparr>)"
    using assms by (simp add: streaks_unique_def unique_by_append_one streak_of_def find_by_None)
  ultimately show ?thesis
    using assms(1) spec_first [of "day_of t"]
    by (simp add: updateStreakOnTip_def create_streak_def try_catch_run getTodayUTC_def counts_def Let_def)
qed

lemma next_tip:
  assumes "counts u S t d" and "t \<le> t'"
  shows "\<exists>r d'. updateStreakOnTip id u t' d = (Inr r, d') \<and> counts u (insert (day_of t') S) t' d'"
proof -
  obtain s where s: "streak_of u d = Some s" "st_userId s = u" "st_lastTip s = Some (utc_day t)"
    and spec: "streak_spec S (day_of t) (st_current s) (st_longest s)"
    using assms(1) by (auto simp: counts_def)
  have unique: "streaks_unique d" and max: "\<And>E. E \<in> S \<Longrightarrow> E \<le> day_of t" using assms(1) by (auto simp: counts_def)
  have le: "day_of t \<le> day_of t'" using assms(2) DAY_pos by (simp add: day_of_def zdiv_mono1)
  show ?thesis
  proof (cases "day_of t' = day_of t")
    case True
    have "day_of t \<in> S" using spec by (auto simp: streak_spec_def day_run_def)
    then have "insert (day_of t') S = S" using True by auto
    moreover have "isToday t' (utc_day t)" using True by (simp add: isToday_def getTodayUTC_def same_day)
    ultimately have "updateStreakOnTip id u t' d =
        (Inr \<lparr>su_currentStreak = st_current s, su_longestStreak = st_longest s, su_streakUpdated = False\<rparr>, d)"
      using s by (simp add: updateStreakOnTip_def updateExistingStreak_def Let_def)
    moreover have "counts u S t' d"
      using assms(1) True same_day [of t' t] by (simp add: counts_def)
    ultimately show ?thesis using \<open>insert (day_of t') S = S\<close> by simp
  next
    case False
    then have lt: "day_of t < day_of t'" using le by simp
    define c where "c = (if day_of t' = day_of t + 1 then st_current s + 1 else 1)"
    let ?f = "\<lambda>x :: streak_row. x\<lparr>st_current := c, st_longest := max c (st_longest s), st_lastTip := Some (utc_day t')\<rparr>"
    have "\<not> isToday t' (utc_day t)" "isYesterday t' (utc_day t) \<longleftrightarrow> day_of t' = day_of t + 1"
      using False by (auto simp: isToday_def isYesterday_def getTodayUTC_def same_day previous_day)
    then have run: "updateStreakOnTip id u t' d =
        (Inr \<lparr>su_currentStreak = c, su_longestStreak = max c (st_longest s), su_streakUpdated = True\<rparr>,
         d\<lparr>streaks := update_rows (\<lambda>x. st_userId x = u) ?f (streaks d)\<rparr>)"
      using s by (simp add: updateStreakOnTip_def updateExistingStreak_def getTodayUTC_def c_def Let_def)
    have "streak_spec (insert (day_of t') S) (day_of t') c (max c (st_longest s))"
      by (rule spec_step [OF spec max lt c_def])
    moreover note streak_update_rows [OF s(1) _ unique, of ?f]
    moreover have "\<forall>E \<in> insert (day_of t') S. E \<le> day_of t'" using max lt by force
    ultimately show ?thesis using run s(2) by (auto simp: counts_def)
  qed
qed

definition all_tips :: "string \<Rightarrow> int list \<Rightarrow> unit dbio" where
  "all_tips u ts = for_each ts (\<lambda>t. bnd (updateStreakOnTip id u t) (\<lambda>_. ret ()))"

lemma tips_counted:
  "counts u S t d \<Longrightarrow> sorted (t # ts) \<Longrightarrow>
   \<exists>d'. all_tips u ts d = (Inr (), d') \<and> counts u (S \<union> day_of ` set ts) (last (t # ts)) d'"
proof (induction ts arbitrary: S t d)
  case (Cons t' ts)
  obtain r d1 where one: "updateStreakOnTip id u t' d = (Inr r, d1)" "counts u (insert (day_of t') S) t' d1"
    using next_tip [OF Cons.prems(1), of t'] Cons.prems(2) by auto
  obtain d' where rest: "all_tips u ts d1 = (Inr (), d')" "counts u (insert (day_of t') S \<union> day_of ` set ts) (last (t' # ts)) d'"
    using Cons.IH [OF one(2)] Cons.prems(2) by auto
  have "all_tips u (t' # ts) d = (Inr (), d')"
    using one(1) rest(1) by (simp add: all_tips_def bnd_Inr)
  with rest(2) show ?case by simp
qed (simp add: all_tips_def)

text \<open>
  The streak counts days: after tips at increasing times the current streak is the length of the run of days with a tip that ends
  with the last one, and the longest streak is the length of the longest run of days with a tip.
\<close>

theorem streak_counts_days:
  assumes "streak_of u d = None" and "streaks_unique d" and "sorted ts" and "ts \<noteq> []"
  shows "\<exists>d' s. all_tips u ts d = (Inr (), d') \<and> streak_of u d' = Some s \<and>
    streak_spec (day_of ` set ts) (day_of (last ts)) (st_current s) (st_longest s)"
proof -
  obtain t us where ts: "ts = t # us" using assms(4) by (cases ts) auto
  obtain r d1 where one: "updateStreakOnTip id u t d = (Inr r, d1)" "counts u {day_of t} t d1"
    using first_tip [OF assms(1,2)] by blast
  obtain d' where rest: "all_tips u us d1 = (Inr (), d')" "counts u ({day_of t} \<union> day_of ` set us) (last (t # us)) d'"
    using tips_counted [OF one(2)] assms(3) ts by blast
  have "all_tips u ts d = (Inr (), d')"
    using one(1) rest(1) by (simp add: ts all_tips_def bnd_Inr)
  with rest(2) show ?thesis by (auto simp: counts_def ts)
qed

text \<open>Three days in a row, a gap, and another day.\<close>

theorem streak_counts_days_witness:
  "\<exists>d' s. all_tips ''u'' [5, 86400005, 172800005, 432000005] empty_db = (Inr (), d') \<and> streak_of ''u'' d' = Some s \<and>
    streak_spec {0, 1, 2, 5} 5 (st_current s) (st_longest s)"
proof -
  have "streak_of ''u'' empty_db = None" "streaks_unique empty_db"
    by (simp_all add: streak_of_def streaks_unique_def empty_db_def find_by_def)
  from streak_counts_days [OF this, of "[5, 86400005, 172800005, 432000005]"] show ?thesis
    by (simp add: day_of_def DAY_MS_def)
qed

end
