(* ===== verification/ApiKeys.thy ===== *)
theory ApiKeys
  imports Store
begin

text \<open>
  API keys (\<open>backend/src/modules/apiKeys/apiKeys.service.ts\<close>, \<open>apiKeys.middleware.ts\<close>): creation, rotation with a grace period
  for the secret before, deletion, verification, and the guards of a request. The hash of a secret and the generated secret are
  parameters. Update times are left out of the responses.
\<close>

record ApiKeyResponse =
  kr_id :: string
  kr_scopes :: "string list"
  kr_expiresAt :: "string option"
  kr_lastUsedAt :: "string option"
  kr_createdAt :: string

definition key_response :: "apikey_row \<Rightarrow> ApiKeyResponse" where
  "key_response k = \<lparr>kr_id = ak_id k, kr_scopes = ak_scopes k, kr_expiresAt = map_option iso_string (ak_expiresAt k),
     kr_lastUsedAt = map_option iso_string (ak_lastUsedAt k), kr_createdAt = iso_string (ak_createdAt k)\<rparr>"

definition live_key :: "string \<Rightarrow> db \<Rightarrow> apikey_row option" where
  "live_key i d = find_row (\<lambda>k. ak_id k = i \<and> ak_deletedAt k = None) (apiKeys d)"

text \<open>The unique columns: a write that repeats a hash of another row fails.\<close>

definition hash_taken :: "string \<Rightarrow> string \<Rightarrow> db \<Rightarrow> bool" where
  "hash_taken i h d \<longleftrightarrow> exists_row (\<lambda>k. ak_id k \<noteq> i \<and> ak_hashedKey k = h) (apiKeys d)"

definition previous_taken :: "string \<Rightarrow> string \<Rightarrow> db \<Rightarrow> bool" where
  "previous_taken i h d \<longleftrightarrow> exists_row (\<lambda>k. ak_id k \<noteq> i \<and> ak_previousHashedKey k = Some h) (apiKeys d)"

definition createApiKey ::
  "(string \<Rightarrow> string) \<Rightarrow> runtime \<Rightarrow> string \<Rightarrow> string \<Rightarrow> string list \<Rightarrow> int option \<Rightarrow> (ApiKeyResponse \<times> string) dbio" where
  "createApiKey hash rt secret userId scopes expiresAt =
     bnd (fresh_id rt) (\<lambda>i.
     bnd (gets (hash_taken i (hash secret))) (\<lambda>taken.
     andthen (throw_unless (\<not> taken) (prisma_error ''P2002'' [''hashedKey'']))
     (let key = \<lparr>ak_id = i, ak_hashedKey = hash secret, ak_previousHashedKey = None, ak_previousGraceExpiresAt = None,
            ak_scopes = scopes, ak_createdById = userId, ak_expiresAt = expiresAt, ak_lastUsedAt = None,
            ak_createdAt = rt_now rt, ak_deletedAt = None\<rparr>
      in andthen (modify (\<lambda>d. d\<lparr>apiKeys := apiKeys d @ [key]\<rparr>)) (ret (key_response key, secret)))))"

definition listApiKeys :: "string \<Rightarrow> ApiKeyResponse list dbio" where
  "listApiKeys userId = gets (\<lambda>d. map key_response
     (order_desc ak_createdAt (filter (\<lambda>k. ak_createdById k = userId \<and> ak_deletedAt k = None) (apiKeys d))))"

text \<open>The checks the operations on one key share, with the verb of the message.\<close>

definition own_key :: "string \<Rightarrow> string \<Rightarrow> string \<Rightarrow> apikey_row dbio" where
  "own_key verb userId i =
     bnd (gets (live_key i)) (\<lambda>found.
     bnd (require found (not_found ''API key not found'')) (\<lambda>key.
     andthen (throw_unless (ak_createdById key = userId) (forbidden (''You can only '' @ verb @ '' your own API keys'')))
       (ret key)))"

definition getApiKeyById :: "string \<Rightarrow> string \<Rightarrow> ApiKeyResponse dbio" where
  "getApiKeyById userId i = bnd (own_key ''access'' userId i) (\<lambda>key. ret (key_response key))"

definition update_key :: "string \<Rightarrow> (apikey_row \<Rightarrow> apikey_row) \<Rightarrow> unit dbio" where
  "update_key i f = modify (\<lambda>d. d\<lparr>apiKeys := update_rows (\<lambda>k. ak_id k = i) f (apiKeys d)\<rparr>)"

definition rotated :: "string \<Rightarrow> string \<Rightarrow> int \<Rightarrow> apikey_row \<Rightarrow> apikey_row" where
  "rotated newHash oldHash graceEnd k =
     k\<lparr>ak_hashedKey := newHash, ak_previousHashedKey := Some oldHash, ak_previousGraceExpiresAt := Some graceEnd\<rparr>"

record RotateApiKeyResponse =
  rr_id :: string
  rr_scopes :: "string list"
  rr_secret :: string
  rr_graceExpiresAt :: string
  rr_createdAt :: string

definition grace_end :: "runtime \<Rightarrow> int option \<Rightarrow> int" where
  "grace_end rt gracePeriodMinutes = rt_now rt + (case gracePeriodMinutes of None \<Rightarrow> 60 | Some m \<Rightarrow> m) * 60 * 1000"

definition rotateApiKey ::
  "(string \<Rightarrow> string) \<Rightarrow> runtime \<Rightarrow> string \<Rightarrow> string \<Rightarrow> string \<Rightarrow> int option \<Rightarrow> RotateApiKeyResponse dbio" where
  "rotateApiKey hash rt newSecret userId i gracePeriodMinutes =
     bnd (own_key ''rotate'' userId i) (\<lambda>key.
     bnd (gets (\<lambda>d. hash_taken i (hash newSecret) d \<or> previous_taken i (ak_hashedKey key) d)) (\<lambda>taken.
     andthen (throw_unless (\<not> taken) (prisma_error ''P2002'' [''hashedKey'']))
     (andthen (update_key i (rotated (hash newSecret) (ak_hashedKey key) (grace_end rt gracePeriodMinutes)))
       (ret \<lparr>rr_id = ak_id key, rr_scopes = ak_scopes key, rr_secret = newSecret,
          rr_graceExpiresAt = iso_string (grace_end rt gracePeriodMinutes), rr_createdAt = iso_string (ak_createdAt key)\<rparr>))))"

definition deleteApiKey :: "runtime \<Rightarrow> string \<Rightarrow> string \<Rightarrow> unit dbio" where
  "deleteApiKey rt userId i =
     bnd (own_key ''delete'' userId i) (\<lambda>key. update_key i (\<lambda>k. k\<lparr>ak_deletedAt := Some (rt_now rt)\<rparr>))"

definition unexpired :: "int \<Rightarrow> apikey_row \<Rightarrow> bool" where
  "unexpired now k \<longleftrightarrow> ak_deletedAt k = None \<and> (ak_expiresAt k = None \<or> some_with (\<lambda>t. now < t) (ak_expiresAt k))"

definition by_current :: "int \<Rightarrow> string \<Rightarrow> apikey_row \<Rightarrow> bool" where
  "by_current now h k \<longleftrightarrow> ak_hashedKey k = h \<and> unexpired now k"

definition by_previous :: "int \<Rightarrow> string \<Rightarrow> apikey_row \<Rightarrow> bool" where
  "by_previous now h k \<longleftrightarrow> ak_previousHashedKey k = Some h \<and> some_with (\<lambda>t. now < t) (ak_previousGraceExpiresAt k) \<and> unexpired now k"

definition newest_key :: "(apikey_row \<Rightarrow> bool) \<Rightarrow> db \<Rightarrow> apikey_row option" where
  "newest_key p d = find_row p (order_desc ak_createdAt (apiKeys d))"

definition verifyApiKey :: "(string \<Rightarrow> string) \<Rightarrow> runtime \<Rightarrow> string \<Rightarrow> ApiKeyResponse dbio" where
  "verifyApiKey hash rt secret =
     bnd (gets (newest_key (by_current (rt_now rt) (hash secret)))) (\<lambda>current.
     bnd (case current of Some k \<Rightarrow> ret (Some k) | None \<Rightarrow> gets (newest_key (by_previous (rt_now rt) (hash secret)))) (\<lambda>found.
     bnd (require found (unauthorized ''Invalid API key'')) (\<lambda>key.
     andthen (update_key (ak_id key) (\<lambda>k. k\<lparr>ak_lastUsedAt := Some (rt_now rt)\<rparr>))
       (ret (key_response (key\<lparr>ak_lastUsedAt := Some (rt_now rt)\<rparr>))))))"

section \<open>The guards of a request\<close>

text \<open>The secret of a request, from the authorization header or the header of its own.\<close>

definition request_secret :: "string option \<Rightarrow> string option \<Rightarrow> string option" where
  "request_secret authorization apiKeyHeader =
     (if some_with (\<lambda>a. starts_with a ''ApiKey '') authorization then map_option (\<lambda>a. js_trim (drop 7 a)) authorization
      else map_option js_trim apiKeyHeader)"

definition apiKeyAuthMiddleware ::
  "(string \<Rightarrow> string) \<Rightarrow> runtime \<Rightarrow> string option \<Rightarrow> string option \<Rightarrow> (string \<times> string list) dbio" where
  "apiKeyAuthMiddleware hash rt authorization apiKeyHeader =
     (case request_secret authorization apiKeyHeader of
        None \<Rightarrow> throw (unauthorized ''Missing API key'')
      | Some s \<Rightarrow> if s = [] then throw (unauthorized ''Missing API key'')
          else bnd (verifyApiKey hash rt s) (\<lambda>key. ret (kr_id key, kr_scopes key)))"

definition requireApiKeyScope :: "string \<Rightarrow> (string \<times> string list) option \<Rightarrow> jsval + unit" where
  "requireApiKeyScope scope apiKey =
     (case apiKey of
        None \<Rightarrow> Inl (unauthorized ''API key authentication required'')
      | Some (i, scopes) \<Rightarrow> if scope \<in> set scopes then Inr () else Inl (forbidden (''API key requires scope: '' @ scope)))"

definition requireAnyApiKeyScope :: "string list \<Rightarrow> (string \<times> string list) option \<Rightarrow> jsval + unit" where
  "requireAnyApiKeyScope required apiKey =
     (case apiKey of
        None \<Rightarrow> Inl (unauthorized ''API key authentication required'')
      | Some (i, scopes) \<Rightarrow> if list_ex (\<lambda>s. s \<in> set scopes) required then Inr ()
          else Inl (forbidden (''API key requires one of: '' @ join '', '' required)))"

section \<open>Which secrets are accepted\<close>

definition accepted :: "(string \<Rightarrow> string) \<Rightarrow> runtime \<Rightarrow> string \<Rightarrow> db \<Rightarrow> bool" where
  "accepted hash rt secret d \<longleftrightarrow> \<not> isl (fst (verifyApiKey hash rt secret d))"

lemma newest_key_None: "newest_key p d = None \<longleftrightarrow> \<not> list_ex p (apiKeys d)"
  by (auto simp: newest_key_def find_row_None list_ex_iff)

lemma accepted_iff:
  "accepted hash rt secret d \<longleftrightarrow>
     list_ex (\<lambda>k. by_current (rt_now rt) (hash secret) k \<or> by_previous (rt_now rt) (hash secret) k) (apiKeys d)"
proof -
  have both: "list_ex (\<lambda>k. p k \<or> q k) xs \<longleftrightarrow> list_ex p xs \<or> list_ex q xs" for p q and xs :: "apikey_row list"
    by (induction xs) auto
  show ?thesis
  proof (cases "newest_key (by_current (rt_now rt) (hash secret)) d")
    case None
    then show ?thesis
      using newest_key_None [of "by_current (rt_now rt) (hash secret)" d]
        newest_key_None [of "by_previous (rt_now rt) (hash secret)" d]
      by (auto simp: accepted_def verifyApiKey_def both update_key_def split: option.splits)
  next
    case (Some k)
    then show ?thesis
      using newest_key_None [of "by_current (rt_now rt) (hash secret)" d]
      by (simp add: accepted_def verifyApiKey_def both update_key_def)
  qed
qed

lemma own_key_Inr:
  "own_key verb u i d = (Inr k, d') \<Longrightarrow> d' = d \<and> k \<in> set (apiKeys d) \<and> ak_id k = i \<and> ak_deletedAt k = None \<and> ak_createdById k = u"
  by (auto simp: own_key_def live_key_def split: option.splits if_splits dest: find_row_Some)

lemma rotate_state:
  assumes "rotateApiKey hash rt new u i grace d = (Inr r, d')"
  shows "\<exists>k \<in> set (apiKeys d). ak_id k = i \<and> ak_deletedAt k = None \<and> ak_createdById k = u \<and>
    apiKeys d' = update_rows (\<lambda>x. ak_id x = i) (rotated (hash new) (ak_hashedKey k) (grace_end rt grace)) (apiKeys d)"
proof -
  from assms obtain k where k: "own_key ''rotate'' u i d = (Inr k, d)"
    "bnd (gets (\<lambda>d. hash_taken i (hash new) d \<or> previous_taken i (ak_hashedKey k) d)) (\<lambda>taken.
     andthen (throw_unless (\<not> taken) (prisma_error ''P2002'' [''hashedKey'']))
     (andthen (update_key i (rotated (hash new) (ak_hashedKey k) (grace_end rt grace)))
       (ret \<lparr>rr_id = ak_id k, rr_scopes = ak_scopes k, rr_secret = new,
          rr_graceExpiresAt = iso_string (grace_end rt grace), rr_createdAt = iso_string (ak_createdAt k)\<rparr>))) d = (Inr r, d')"
    unfolding rotateApiKey_def by (auto simp: bnd_eq_Inr_iff dest: own_key_Inr)
  have "apiKeys d' = update_rows (\<lambda>x. ak_id x = i) (rotated (hash new) (ak_hashedKey k) (grace_end rt grace)) (apiKeys d)"
    using k(2) by (auto simp: update_key_def split: if_splits)
  with own_key_Inr [OF k(1)] show ?thesis by blast
qed

lemma accepted_update:
  assumes "unique_by ak_id ks" and "k \<in> set ks" and "ak_id k = i" and "\<And>x. x \<in> set ks \<Longrightarrow> ak_id x \<noteq> i \<Longrightarrow> \<not> p x"
  shows "list_ex p (update_rows (\<lambda>x. ak_id x = i) f ks) \<longleftrightarrow> p (f k)"
proof -
  have same: "x = k" if "x \<in> set ks" "ak_id x = i" for x
    using that unique_by_eq [OF assms(1) _ assms(2)] assms(3) by simp
  have only: "p (if ak_id x = i then f x else x) \<longleftrightarrow> x = k \<and> p (f k)" if "x \<in> set ks" for x
  proof (cases "ak_id x = i")
    case True
    with same [OF that] show ?thesis by simp
  next
    case False
    with assms(3) assms(4) [OF that] have "\<not> p x" "x \<noteq> k" by metis+
    with False show ?thesis by simp
  qed
  have "list_ex p (update_rows (\<lambda>x. ak_id x = i) f ks) \<longleftrightarrow> (\<exists>x \<in> set ks. p (if ak_id x = i then f x else x))"
    unfolding list_ex_iff set_update_rows by blast
  also have "\<dots> \<longleftrightarrow> p (f k)" using only assms(2) by blast
  finally show ?thesis .
qed

text \<open>
  After a rotation the new secret is accepted as long as the key is unexpired, and the old secret as long as the grace period
  runs too; no other key's secrets are in play as long as hashes do not collide.
\<close>

theorem rotation_grace:
  assumes "unique_by ak_id (apiKeys d)" and "k \<in> set (apiKeys d)" and "ak_id k = i" and "ak_hashedKey k = hash old"
    and "hash new \<noteq> hash old"
    and "\<And>x. x \<in> set (apiKeys d) \<Longrightarrow> ak_id x \<noteq> i \<Longrightarrow> ak_hashedKey x \<notin> {hash old, hash new} \<and> ak_previousHashedKey x \<notin> {Some (hash old), Some (hash new)}"
    and "rotateApiKey hash rt new u i grace d = (Inr r, d')"
  shows "(accepted hash rt' new d' \<longleftrightarrow> unexpired (rt_now rt') k) \<and>
    (accepted hash rt' old d' \<longleftrightarrow> unexpired (rt_now rt') k \<and> rt_now rt' < grace_end rt grace)"
proof -
  from rotate_state [OF assms(7)] obtain k' where k': "k' \<in> set (apiKeys d)" "ak_id k' = i"
    "apiKeys d' = update_rows (\<lambda>x. ak_id x = i) (rotated (hash new) (ak_hashedKey k') (grace_end rt grace)) (apiKeys d)"
    by blast
  have "k' = k" using unique_by_eq [OF assms(1) k'(1) assms(2)] k'(2) assms(3) by simp
  with k'(3) assms(4) have rows: "apiKeys d' =
      update_rows (\<lambda>x. ak_id x = i) (rotated (hash new) (hash old) (grace_end rt grace)) (apiKeys d)" by simp
  have outcome: "accepted hash rt' s d' \<longleftrightarrow> by_current (rt_now rt') (hash s) (rotated (hash new) (hash old) (grace_end rt grace) k) \<or>
      by_previous (rt_now rt') (hash s) (rotated (hash new) (hash old) (grace_end rt grace) k)"
    if "hash s \<in> {hash old, hash new}" for s
  proof -
    have "\<not> (by_current (rt_now rt') (hash s) x \<or> by_previous (rt_now rt') (hash s) x)"
      if "x \<in> set (apiKeys d)" "ak_id x \<noteq> i" for x
      using assms(6) [OF that] \<open>hash s \<in> {hash old, hash new}\<close> by (auto simp: by_current_def by_previous_def)
    from accepted_update [OF assms(1-3) this] show ?thesis unfolding accepted_iff rows by simp
  qed
  show ?thesis
    using outcome [of new] outcome [of old] assms(5) by (auto simp: by_current_def by_previous_def rotated_def unexpired_def)
qed

text \<open>A deleted key accepts no secret, neither its own nor the one before.\<close>

lemma deleted_key_rejected:
  assumes "deleteApiKey rt u i d = (Inr (), d')" and "x \<in> set (apiKeys d')" and "ak_id x = i"
  shows "\<not> by_current now h x \<and> \<not> by_previous now h x"
proof -
  from assms(1) have rows: "apiKeys d' = update_rows (\<lambda>k. ak_id k = i) (\<lambda>k. k\<lparr>ak_deletedAt := Some (rt_now rt)\<rparr>) (apiKeys d)"
    by (auto simp: deleteApiKey_def bnd_eq_Inr_iff update_key_def dest: own_key_Inr)
  have "x \<in> (\<lambda>y. if ak_id y = i then y\<lparr>ak_deletedAt := Some (rt_now rt)\<rparr> else y) ` set (apiKeys d)"
    using assms(2) by (simp only: rows set_update_rows)
  then obtain y where "x = (if ak_id y = i then y\<lparr>ak_deletedAt := Some (rt_now rt)\<rparr> else y)"
    by (rule imageE)
  then have "ak_deletedAt x \<noteq> None" using assms(3) by (simp split: if_splits)
  then show ?thesis by (simp add: by_current_def by_previous_def unexpired_def)
qed

section \<open>Examples\<close>

definition demo_key :: apikey_row where
  "demo_key = \<lparr>ak_id = ''k1'', ak_hashedKey = ''#old'', ak_previousHashedKey = None, ak_previousGraceExpiresAt = None,
     ak_scopes = [''read''], ak_createdById = ''u1'', ak_expiresAt = None, ak_lastUsedAt = None, ak_createdAt = 0, ak_deletedAt = None\<rparr>"

definition demo_keys :: db where
  "demo_keys = empty_db\<lparr>apiKeys := [demo_key]\<rparr>"

definition key_clock :: "int \<Rightarrow> runtime" where
  "key_clock t = \<lparr>rt_now = t, rt_cuid = (\<lambda>n. ''k''), rt_broker = True\<rparr>"

theorem rotation_grace_witness:
  "\<exists>d'. rotateApiKey (\<lambda>s. ''#'' @ s) (key_clock 0) ''new'' ''u1'' ''k1'' (Some 5) demo_keys = d' \<and>
     accepted (\<lambda>s. ''#'' @ s) (key_clock 299999) ''old'' (snd d') \<and> \<not> accepted (\<lambda>s. ''#'' @ s) (key_clock 300000) ''old'' (snd d')"
proof -
  obtain r d' where run: "rotateApiKey (\<lambda>s. ''#'' @ s) (key_clock 0) ''new'' ''u1'' ''k1'' (Some 5) demo_keys = (Inr r, d')"
    by (simp add: rotateApiKey_def own_key_def live_key_def demo_keys_def demo_key_def hash_taken_def previous_taken_def
        update_key_def exists_row_def)
  have one: "x = demo_key" if "x \<in> set (apiKeys demo_keys)" for x using that by (simp add: demo_keys_def)
  have unique: "unique_by ak_id (apiKeys demo_keys)" "demo_key \<in> set (apiKeys demo_keys)" "ak_id demo_key = ''k1''"
    "ak_hashedKey demo_key = (\<lambda>s. ''#'' @ s) ''old''" by (simp_all add: demo_keys_def demo_key_def)
  have "accepted (\<lambda>s. ''#'' @ s) (key_clock t) ''old'' d' \<longleftrightarrow>
      unexpired t demo_key \<and> t < grace_end (key_clock 0) (Some 5)" for t
    using rotation_grace [OF unique _ _ run, of "key_clock t"] one unique(3) by (auto simp: key_clock_def)
  with run show ?thesis by (simp add: unexpired_def demo_key_def grace_end_def key_clock_def)
qed

end
