(* ===== verification/Profiles.thy ===== *)
theory Profiles
  imports Store
begin

text \<open>
  The profile service (\<open>backend/src/modules/profiles/profiles.service.ts\<close>, \<open>profiles.serializer.ts\<close>) with its cache by address, and the
  reports of \<open>modules/moderation/moderation.service.ts\<close>. A profile is the object the API returns, which is also what the cache
  holds; update times are left out. The relation \<open>receiver\<close> of a tip is its recipient column.
\<close>

section \<open>What is returned\<close>

definition PROFILE_TIERS :: "(int \<times> int \<times> string) list" where
  "PROFILE_TIERS = [(0, 299, ''New''), (300, 499, ''Bronze''), (500, 699, ''Silver''), (700, 849, ''Gold''), (850, 999, ''Platinum'')]"

definition computeTier :: "int option \<Rightarrow> string" where
  "computeTier value = (case value of
       None \<Rightarrow> ''New''
     | Some v \<Rightarrow> (case find_row (\<lambda>(lo, hi, label). lo \<le> v \<and> v \<le> hi) PROFILE_TIERS of
           None \<Rightarrow> ''New''
         | Some (lo, hi, label) \<Rightarrow> label))"

definition text_or_null :: "string option \<Rightarrow> jsval" where
  "text_or_null x = (case x of None \<Rightarrow> Null | Some s \<Rightarrow> JStr s)"

definition score_of :: "string \<Rightarrow> db \<Rightarrow> int option" where
  "score_of userId d = map_option sc_value (find_by sc_userId userId (scores d))"

definition serializeProfile :: "user_row \<Rightarrow> int option \<Rightarrow> nat \<times> string \<Rightarrow> jsval" where
  "serializeProfile u score stats = JObj PlainObject
     [(''id'', JStr (u_id u)), (''stellarAddress'', JStr (u_address u)), (''username'', text_or_null (u_username u)),
      (''displayName'', text_or_null (u_displayName u)), (''bio'', text_or_null (u_bio u)), (''imageUrl'', text_or_null (u_imageUrl u)),
      (''avatarCid'', text_or_null (u_avatarCid u)),
      (''creditScore'', (case score of None \<Rightarrow> Null | Some v \<Rightarrow> JNum (j_int v))), (''creditTier'', JStr (computeTier score)),
      (''xHandle'', text_or_null (u_xHandle u)), (''createdAt'', JStr (iso_string (u_createdAt u))),
      (''tipsCount'', JNum (j_int (int (fst stats)))), (''totalReceived'', JStr (snd stats))]"

definition received_by :: "string \<Rightarrow> tip_row \<Rightarrow> bool" where
  "received_by userId t \<longleftrightarrow> tip_recipientId t = Some userId \<and> tip_status t = CONFIRMED"

definition getTipStats :: "string \<Rightarrow> db \<Rightarrow> nat \<times> string" where
  "getTipStats userId d = (count_rows (received_by userId) (tips d), show_int (sum_rows (received_by userId) tip_amount (tips d)))"

definition profile_of :: "db \<Rightarrow> user_row \<Rightarrow> jsval" where
  "profile_of d u = serializeProfile u (score_of (u_id u) d) (getTipStats (u_id u) d)"

section \<open>The cache\<close>

definition profile_key :: "string \<Rightarrow> string" where
  "profile_key address = ''profile:'' @ address"

definition CACHE_TTL_SEC :: int where
  "CACHE_TTL_SEC = 300"

definition cache_get :: "int \<Rightarrow> string \<Rightarrow> db \<Rightarrow> jsval option" where
  "cache_get now k d = (case find_by fst k (profileCache d) of
       None \<Rightarrow> None
     | Some (_, expires, v) \<Rightarrow> if now < expires then Some v else None)"

definition cache_setex :: "runtime \<Rightarrow> string \<Rightarrow> int \<Rightarrow> jsval \<Rightarrow> unit dbio" where
  "cache_setex rt k seconds v = modify (\<lambda>d. d\<lparr>profileCache :=
     upsert_row fst k (k, rt_now rt + seconds * 1000, v) (\<lambda>_. (k, rt_now rt + seconds * 1000, v)) (profileCache d)\<rparr>)"

definition cache_del :: "string \<Rightarrow> unit dbio" where
  "cache_del k = modify (\<lambda>d. d\<lparr>profileCache := delete_rows (\<lambda>e. fst e = k) (profileCache d)\<rparr>)"

section \<open>Reading profiles\<close>

definition found_profile :: "user_row option \<Rightarrow> jsval dbio" where
  "found_profile found = bnd (require found (not_found ''Profile not found'')) (\<lambda>user. gets (\<lambda>d. profile_of d user))"

definition getProfileById :: "string \<Rightarrow> jsval dbio" where
  "getProfileById userId = bnd (gets (user_by_id userId)) found_profile"

definition getProfileByUsername :: "string \<Rightarrow> jsval dbio" where
  "getProfileByUsername username = bnd (gets (live_user (\<lambda>u. u_username u = Some username))) found_profile"

definition getProfileByAddress :: "runtime \<Rightarrow> string \<Rightarrow> jsval dbio" where
  "getProfileByAddress rt stellarAddress =
     bnd (gets (cache_get (rt_now rt) (profile_key stellarAddress))) (\<lambda>cached. case cached of
         Some v \<Rightarrow> ret v
       | None \<Rightarrow> bnd (gets (user_by_address stellarAddress)) (\<lambda>user.
           bnd (found_profile user) (\<lambda>profile.
             andthen (cache_setex rt (profile_key stellarAddress) CACHE_TTL_SEC profile) (ret profile))))"

definition listProfiles :: "nat \<Rightarrow> nat \<Rightarrow> (jsval list \<times> nat) dbio" where
  "listProfiles page limit =
     (let live = (\<lambda>d. filter (\<lambda>u. u_deletedAt u = None) (users d))
      in gets (\<lambda>d. (map (profile_of d) (take limit (drop ((page - 1) * limit) (order_desc u_createdAt (live d)))), length (live d))))"

definition checkUsernameAvailability :: "string \<Rightarrow> bool dbio" where
  "checkUsernameAvailability username =
     gets (\<lambda>d. live_user (\<lambda>u. map_option to_lower (u_username u) = Some (to_lower username)) d = None)"

section \<open>Changing a profile\<close>

record UpdateProfileRequest =
  up_username :: "string option"
  up_displayName :: "string option"
  up_bio :: "string option"
  up_imageUrl :: "string option"
  up_avatarCid :: "string option"
  up_xHandle :: "string option"

definition or_else :: "'a option \<Rightarrow> 'a option \<Rightarrow> 'a option" where
  "or_else x y = (case x of None \<Rightarrow> y | Some a \<Rightarrow> Some a)"

definition patch_profile :: "UpdateProfileRequest \<Rightarrow> user_row \<Rightarrow> user_row" where
  "patch_profile p u = u\<lparr>u_username := or_else (up_username p) (u_username u), u_displayName := or_else (up_displayName p) (u_displayName u),
     u_bio := or_else (up_bio p) (u_bio u), u_imageUrl := or_else (up_imageUrl p) (u_imageUrl u),
     u_avatarCid := or_else (up_avatarCid p) (u_avatarCid u), u_xHandle := or_else (up_xHandle p) (u_xHandle u)\<rparr>"

definition change_user :: "string \<Rightarrow> (user_row \<Rightarrow> user_row) \<Rightarrow> unit dbio" where
  "change_user userId f = modify (\<lambda>d. d\<lparr>users := update_rows (\<lambda>u. u_id u = userId) f (users d)\<rparr>)"

text \<open>The name is unique over all rows, deleted ones included.\<close>

definition name_held :: "string \<Rightarrow> string option \<Rightarrow> db \<Rightarrow> bool" where
  "name_held userId name d \<longleftrightarrow> name \<noteq> None \<and> exists_row (\<lambda>u. u_id u \<noteq> userId \<and> u_username u = name) (users d)"

definition updateProfile :: "string \<Rightarrow> UpdateProfileRequest \<Rightarrow> jsval dbio" where
  "updateProfile userId p =
     bnd (gets (user_by_id userId)) (\<lambda>found.
     bnd (require found (not_found ''Profile not found'')) (\<lambda>user.
     bnd (gets (live_user (\<lambda>u. u_username u = up_username p))) (\<lambda>other.
     andthen (throw_unless (up_username p = None \<or> up_username p = Some [] \<or> \<not> some_with (\<lambda>u. u_id u \<noteq> userId) other)
       (conflict ''Username already taken''))
     (try_catch
       (bnd (gets (name_held userId (up_username p))) (\<lambda>held.
        andthen (throw_unless (\<not> held) (prisma_error ''P2002'' [''username'']))
        (andthen (change_user userId (patch_profile p))
        (andthen (cache_del (profile_key (u_address user)))
          (gets (\<lambda>d. profile_of d (patch_profile p user)))))))
       (\<lambda>_. throw (bad_request ''Failed to update profile''))))))"

definition deactivateProfile :: "runtime \<Rightarrow> string \<Rightarrow> unit dbio" where
  "deactivateProfile rt userId =
     bnd (gets (user_by_id userId)) (\<lambda>found.
     bnd (require found (not_found ''Profile not found'')) (\<lambda>_.
       change_user userId (\<lambda>u. u\<lparr>u_deletedAt := Some (rt_now rt)\<rparr>)))"

definition reactivateProfile :: "string \<Rightarrow> jsval dbio" where
  "reactivateProfile userId =
     bnd (gets (\<lambda>d. find_by u_id userId (users d))) (\<lambda>found.
     bnd (require found (not_found ''Profile not found'')) (\<lambda>user.
     andthen (throw_unless (u_deletedAt user \<noteq> None) (bad_request ''Profile is not deactivated''))
     (andthen (change_user userId (\<lambda>u. u\<lparr>u_deletedAt := None\<rparr>))
     (andthen (cache_del (profile_key (u_address user)))
       (gets (\<lambda>d. profile_of d (user\<lparr>u_deletedAt := None\<rparr>)))))))"

definition hex_text :: "string \<Rightarrow> string" where
  "hex_text s = concat (map (\<lambda>c. [hex_digit (char_code c div 16), hex_digit (char_code c mod 16)]) s)"

definition simulated_cid :: "string \<Rightarrow> string" where
  "simulated_cid dataUrl = ''sim-'' @ take 12 (hex_text dataUrl)"

definition uploadProfileImage :: "string \<Rightarrow> string \<Rightarrow> string dbio" where
  "uploadProfileImage userId dataUrl =
     bnd (gets (user_by_id userId)) (\<lambda>found.
     bnd (require found (not_found ''Profile not found'')) (\<lambda>_.
     andthen (change_user userId (\<lambda>u. u\<lparr>u_avatarCid := Some (simulated_cid dataUrl)\<rparr>))
       (ret (simulated_cid dataUrl))))"

section \<open>Reports\<close>

record CreateModerationReportInput =
  mr_targetType :: string
  mr_targetId :: string
  mr_reason :: string
  mr_details :: jsval

definition add_audit :: "runtime \<Rightarrow> string \<Rightarrow> string \<Rightarrow> string option \<Rightarrow> jsval \<Rightarrow> audit_row dbio" where
  "add_audit rt actor action target metadata =
     bnd (fresh_id rt) (\<lambda>i.
      let row = \<lparr>au_id = i, au_actor = actor, au_action = action, au_target = target, au_metadata = metadata, au_createdAt = rt_now rt\<rparr>
      in andthen (modify (\<lambda>d. d\<lparr>audits := audits d @ [row]\<rparr>)) (ret row))"

definition createModerationReport :: "runtime \<Rightarrow> string \<Rightarrow> CreateModerationReportInput \<Rightarrow> (string \<times> string \<times> string) dbio" where
  "createModerationReport rt reporterId input =
     bnd (add_audit rt reporterId ''moderation.report.created'' (Some (mr_targetType input @ '':'' @ mr_targetId input))
       (JObj PlainObject [(''targetType'', JStr (mr_targetType input)), (''targetId'', JStr (mr_targetId input)),
          (''reason'', JStr (mr_reason input)), (''details'', mr_details input), (''reporterId'', JStr reporterId)]))
       (\<lambda>audit. ret (au_id audit, ''received'', iso_string (au_createdAt audit)))"

section \<open>Reading back a change\<close>

lemma patch_fields [simp]: "u_id (patch_profile p u) = u_id u" "u_address (patch_profile p u) = u_address u"
    "u_deletedAt (patch_profile p u) = u_deletedAt u"
  by (simp_all add: patch_profile_def)

lemma cache_get_del [simp]: "cache_get now k (d\<lparr>profileCache := delete_rows (\<lambda>e. fst e = k) (profileCache d)\<rparr>) = None"
proof -
  have "find_by fst k (delete_rows (\<lambda>e. fst e = k) xs) = None" for xs :: "(string \<times> int \<times> jsval) list"
    by (auto simp: find_by_None delete_rows_def)
  then show ?thesis by (simp add: cache_get_def)
qed

lemma updateProfile_run:
  assumes "updateProfile userId p d = (Inr v, d')"
  shows "\<exists>u. user_by_id userId d = Some u \<and> v = profile_of d (patch_profile p u) \<and>
    d' = d\<lparr>users := update_rows (\<lambda>x. u_id x = userId) (patch_profile p) (users d),
           profileCache := delete_rows (\<lambda>e. fst e = profile_key (u_address u)) (profileCache d)\<rparr>"
proof -
  from assms obtain u where u: "user_by_id userId d = Some u"
    by (auto simp: updateProfile_def split: option.splits)
  have "v = profile_of d' (patch_profile p u) \<and> d' = d\<lparr>users := update_rows (\<lambda>x. u_id x = userId) (patch_profile p) (users d),
           profileCache := delete_rows (\<lambda>e. fst e = profile_key (u_address u)) (profileCache d)\<rparr>"
    using assms u by (auto simp: updateProfile_def try_catch_run change_user_def cache_del_def split: if_splits)
  moreover from this have "profile_of d' w = profile_of d w" for w
    by (simp add: profile_of_def score_of_def getTipStats_def)
  ultimately show ?thesis using u by auto
qed

lemma live_user_update:
  assumes "unique_by key (users d)" and "live_user (\<lambda>u. key u = k) d = Some u" and "u_id u = i" and "unique_by u_id (users d)"
    and "\<And>x. key (f x) = key x" "\<And>x. u_deletedAt (f x) = u_deletedAt x"
  shows "live_user (\<lambda>u. key u = k) (d\<lparr>users := update_rows (\<lambda>x. u_id x = i) f (users d)\<rparr>) = Some (f u)"
proof -
  have u: "u \<in> set (users d)" "key u = k" "u_deletedAt u = None"
    using live_user_Some [OF assms(2)] by auto
  have keys: "unique_by key (update_rows (\<lambda>x. u_id x = i) f (users d))"
    using assms(1,5) by (simp add: unique_by_update)
  have "f u \<in> set (update_rows (\<lambda>x. u_id x = i) f (users d))"
    using u(1) assms(3) by (force simp: set_update_rows)
  from find_by_unique [OF keys this] have "find_by key k (update_rows (\<lambda>x. u_id x = i) f (users d)) = Some (f u)"
    using u(2) assms(5) by simp
  moreover have "find_row (\<lambda>x. key x = k \<and> u_deletedAt x = None) xs = Some r" if "find_by key k xs = Some r" "unique_by key xs" "u_deletedAt r = None" for xs r
    using that
  proof (induction xs)
    case (Cons x xs)
    then show ?case by (auto simp: find_by_def split: if_splits)
  qed (simp add: find_by_def)
  ultimately show ?thesis using keys u(3) assms(6) by (simp add: live_user_def)
qed

text \<open>
  What an update returns is what the next read of the profile returns, by id and by address, whatever was cached before.
\<close>

theorem updated_profile_is_read_back:
  assumes "updateProfile userId p d = (Inr v, d')" and "unique_by u_id (users d)" and "unique_by u_address (users d)"
    and "user_by_id userId d = Some u"
  shows "fst (getProfileById userId d') = Inr v \<and> fst (getProfileByAddress rt (u_address u) d') = Inr v"
proof -
  from updateProfile_run [OF assms(1)] assms(4) have v: "v = profile_of d (patch_profile p u)"
    and d': "d' = d\<lparr>users := update_rows (\<lambda>x. u_id x = userId) (patch_profile p) (users d),
           profileCache := delete_rows (\<lambda>e. fst e = profile_key (u_address u)) (profileCache d)\<rparr>" by auto
  have u: "u_id u = userId" "u \<in> set (users d)" "u_deletedAt u = None"
    using live_user_Some [of "\<lambda>x. u_id x = userId" d u] assms(4) by (auto simp: user_by_id_def)
  have same: "live_user q (d\<lparr>users := us, profileCache := c\<rparr>) = live_user q (d\<lparr>users := us\<rparr>)" for q us c
    by (simp add: live_user_def)
  have profile: "profile_of d' w = profile_of d w" for w
    by (simp add: profile_of_def score_of_def getTipStats_def d')
  have "live_user (\<lambda>x. u_id x = userId) d' = Some (patch_profile p u)"
    unfolding d' same
    by (rule live_user_update [OF assms(2) _ u(1) assms(2)]) (use assms(4) in \<open>simp_all add: user_by_id_def\<close>)
  then have one: "user_by_id userId d' = Some (patch_profile p u)" by (simp add: user_by_id_def)
  have found: "live_user (\<lambda>x. u_address x = u_address u) d = Some u"
  proof -
    have "find_by u_address (u_address u) (users d) = Some u" by (rule find_by_unique [OF assms(3) u(2)])
    moreover have "find_row (\<lambda>x. u_address x = a \<and> u_deletedAt x = None) xs = Some r"
      if "find_by u_address a xs = Some r" "u_deletedAt r = None" for xs r a
      using that by (induction xs) (auto simp: find_by_def split: if_splits)
    ultimately show ?thesis using u(3) by (simp add: live_user_def)
  qed
  have "live_user (\<lambda>x. u_address x = u_address u) d' = Some (patch_profile p u)"
    unfolding d' same by (rule live_user_update [OF assms(3) found u(1) assms(2)]) simp_all
  then have two: "user_by_address (u_address u) d' = Some (patch_profile p u)" by (simp add: user_by_address_def)
  have "cache_get (rt_now rt) (profile_key (u_address u)) d' = None"
    using cache_get_del [of "rt_now rt" "profile_key (u_address u)" d] by (simp add: d' cache_get_def)
  with one two v profile show ?thesis
    by (simp add: getProfileById_def getProfileByAddress_def found_profile_def cache_setex_def)
qed

text \<open>
  A cached profile outlives its deactivation: reads by address return it until the entry expires.
\<close>

lemma deactivated_profile_still_served:
  assumes "cache_get now (profile_key a) d = Some v" and "deactivateProfile rt userId d = (Inr (), d')" and "rt_now rt' \<le> now"
  shows "fst (getProfileByAddress rt' a d') = Inr v"
proof -
  have "profileCache d' = profileCache d"
    using assms(2) by (auto simp: deactivateProfile_def change_user_def split: option.splits)
  with assms(1,3) have "cache_get (rt_now rt') (profile_key a) d' = Some v"
    by (auto simp: cache_get_def split: option.splits if_splits)
  then show ?thesis by (simp add: getProfileByAddress_def)
qed

text \<open>Two image uploads that agree on their first six characters get the same identifier.\<close>

lemma same_prefix_same_cid: "take 6 a = take 6 b \<Longrightarrow> 6 \<le> length a \<Longrightarrow> 6 \<le> length b \<Longrightarrow> simulated_cid a = simulated_cid b"
proof -
  have len: "length (hex_text s) = 2 * length s" for s by (induction s) (simp_all add: hex_text_def)
  have app: "hex_text (a @ b) = hex_text a @ hex_text b" for a b by (simp add: hex_text_def)
  have split: "hex_text s = hex_text (take 6 s) @ hex_text (drop 6 s)" for s
    using app [of "take 6 s" "drop 6 s"] by simp
  assume ab: "take 6 a = take 6 b" "6 \<le> length a" "6 \<le> length b"
  have "take 12 (hex_text s) = hex_text (take 6 s)" if "6 \<le> length s" for s
    using that split [of s] len [of "take 6 s"] by simp
  with ab show ?thesis by (simp add: simulated_cid_def)
qed

section \<open>Examples\<close>

definition demo_user :: user_row where
  "demo_user = \<lparr>u_id = ''u1'', u_address = ''GA'', u_username = Some ''ann'', u_role = ''user'', u_scopes = [], u_createdAt = 0,
     u_deletedAt = None, u_deactivatedAt = None, u_blockedAt = None, u_flagged = False, u_displayName = None, u_bio = None,
     u_imageUrl = None, u_avatarCid = None, u_xHandle = None\<rparr>"

definition demo_users :: db where
  "demo_users = empty_db\<lparr>users := [demo_user], profileCache := [(profile_key ''GA'', 1000, Null)]\<rparr>"

definition rename_ann :: UpdateProfileRequest where
  "rename_ann = \<lparr>up_username = Some ''anna'', up_displayName = None, up_bio = None, up_imageUrl = None, up_avatarCid = None, up_xHandle = None\<rparr>"

theorem updated_profile_is_read_back_witness:
  "\<exists>v. fst (updateProfile ''u1'' rename_ann demo_users) = Inr v \<and>
     fst (getProfileByAddress \<lparr>rt_now = 1, rt_cuid = (\<lambda>n. []), rt_broker = True\<rparr> ''GA'' (snd (updateProfile ''u1'' rename_ann demo_users))) = Inr v"
proof -
  have found: "user_by_id ''u1'' demo_users = Some demo_user"
    by (simp add: user_by_id_def live_user_def demo_users_def demo_user_def)
  have "live_user (\<lambda>u. u_username u = Some ''anna'') demo_users = None"
    by (simp add: live_user_def demo_users_def demo_user_def)
  then obtain v d' where run: "updateProfile ''u1'' rename_ann demo_users = (Inr v, d')"
    using found
    by (simp add: updateProfile_def rename_ann_def try_catch_run name_held_def change_user_def cache_del_def exists_row_def)
      (simp add: demo_users_def demo_user_def)
  have "unique_by u_id (users demo_users)" "unique_by u_address (users demo_users)" by (simp_all add: demo_users_def)
  from updated_profile_is_read_back [OF run this found] run show ?thesis by (auto simp: demo_user_def)
qed

end
