(* ===== verification/Privacy.thy ===== *)
theory Privacy
  imports Sessions Dunning Webhooks ApiKeys Profiles
begin

text \<open>
  The deletion of an account (\<open>backend/src/modules/privacy/privacy.service.ts\<close>) and what it means for the other services: tokens, keys,
  notifications and webhooks end with it, subscriptions go on, and the account comes back by signing in.
\<close>

record PendingWithdrawal =
  pq_id :: string
  pq_amount :: string
  pq_fee :: string
  pq_txHash :: "string option"
  pq_requestedAt :: string

record PendingTip =
  pp_id :: string
  pp_txHash :: string
  pp_fromAddress :: string
  pp_toAddress :: string
  pp_amountStroops :: string
  pp_createdAt :: string

record AccountDeletion =
  xd_deletedAt :: string
  xd_pendingWithdrawals :: "PendingWithdrawal list"
  xd_pendingTips :: "PendingTip list"
  xd_requiresOnChainFollowUp :: bool

definition pending_withdrawals :: "string \<Rightarrow> db \<Rightarrow> withdrawal_row list" where
  "pending_withdrawals userId d = sort_key wd_requestedAt (filter (\<lambda>w. wd_userId w = userId \<and> wd_status w = WPending) (withdrawals d))"

definition pending_tips :: "string \<Rightarrow> db \<Rightarrow> tip_row list" where
  "pending_tips address d = sort_key tip_createdAt
     (filter (\<lambda>t. (tip_from t = address \<or> tip_to t = address) \<and> tip_status t = PENDING) (tips d))"

definition portable_withdrawal :: "withdrawal_row \<Rightarrow> PendingWithdrawal" where
  "portable_withdrawal w = \<lparr>pq_id = wd_id w, pq_amount = show_int (wd_amount w), pq_fee = show_int (wd_fee w),
     pq_txHash = wd_txHash w, pq_requestedAt = iso_string (wd_requestedAt w)\<rparr>"

definition portable_tip :: "tip_row \<Rightarrow> PendingTip" where
  "portable_tip t = \<lparr>pp_id = tip_id t, pp_txHash = tip_txHash t, pp_fromAddress = tip_from t, pp_toAddress = tip_to t,
     pp_amountStroops = show_int (tip_amount t), pp_createdAt = iso_string (tip_createdAt t)\<rparr>"

definition closed :: "runtime \<Rightarrow> user_row \<Rightarrow> user_row" where
  "closed rt u = u\<lparr>u_deletedAt := Some (rt_now rt), u_deactivatedAt := Some (rt_now rt)\<rparr>"

text \<open>The writes of the transaction, before the audit entry.\<close>

definition close_account :: "runtime \<Rightarrow> string \<Rightarrow> db \<Rightarrow> db" where
  "close_account rt userId d = d\<lparr>
     tokens := update_rows (\<lambda>t. tk_userId t = userId \<and> tk_revokedAt t = None) (\<lambda>t. t\<lparr>tk_revokedAt := Some (rt_now rt)\<rparr>) (tokens d),
     apiKeys := update_rows (\<lambda>k. ak_createdById k = userId \<and> ak_deletedAt k = None) (\<lambda>k. k\<lparr>ak_deletedAt := Some (rt_now rt)\<rparr>) (apiKeys d),
     notifications := update_rows (\<lambda>n. n_userId n = userId \<and> n_deletedAt n = None) (\<lambda>n. n\<lparr>n_deletedAt := Some (rt_now rt)\<rparr>) (notifications d),
     webhooks := update_rows (\<lambda>w. wh_ownerId w = userId \<and> wh_deletedAt w = None) (\<lambda>w. w\<lparr>wh_deletedAt := Some (rt_now rt)\<rparr>) (webhooks d),
     users := update_rows (\<lambda>u. u_id u = userId) (closed rt) (users d)\<rparr>"

lemma closed_fields [simp]: "u_id (closed rt u) = u_id u" "u_address (closed rt u) = u_address u"
    "u_deletedAt (closed rt u) = Some (rt_now rt)"
  by (simp_all add: closed_def)

lemma close_account_users: "users (close_account rt userId d) = update_rows (\<lambda>u. u_id u = userId) (closed rt) (users d)"
  by (simp add: close_account_def)

definition deletion_metadata :: "withdrawal_row list \<Rightarrow> tip_row list \<Rightarrow> jsval" where
  "deletion_metadata ws ts = JObj PlainObject [(''pendingWithdrawalIds'', JArr (map (\<lambda>w. JStr (wd_id w)) ws)),
     (''pendingTipIds'', JArr (map (\<lambda>t. JStr (tip_id t)) ts))]"

definition deleteAccount :: "runtime \<Rightarrow> string \<Rightarrow> AccountDeletion dbio" where
  "deleteAccount rt userId =
     bnd (gets (user_by_id userId)) (\<lambda>found.
     bnd (require found (not_found ''Account not found'')) (\<lambda>user.
     bnd (gets (\<lambda>d. (pending_withdrawals userId d, pending_tips (u_address user) d))) (\<lambda>(ws, ts).
     bnd (transaction (andthen (modify (close_account rt userId))
         (add_audit rt userId ''privacy.account_deleted'' (Some userId) (deletion_metadata ws ts)))) (\<lambda>_.
     andthen (cache_del (profile_key (u_address user)))
       (ret \<lparr>xd_deletedAt = iso_string (rt_now rt), xd_pendingWithdrawals = map portable_withdrawal ws,
          xd_pendingTips = map portable_tip ts, xd_requiresOnChainFollowUp = (ws \<noteq> [] \<or> ts \<noteq> [])\<rparr>)))))"

section \<open>What a deletion leaves behind\<close>

definition audited :: "runtime \<Rightarrow> string \<Rightarrow> user_row \<Rightarrow> db \<Rightarrow> db" where
  "audited rt userId u d = (let e = close_account rt userId d in e\<lparr>nextId := nextId d + 1,
     audits := audits d @ [\<lparr>au_id = rt_cuid rt (nextId d), au_actor = userId, au_action = ''privacy.account_deleted'', au_target = Some userId,
       au_metadata = deletion_metadata (pending_withdrawals userId d) (pending_tips (u_address u) d), au_createdAt = rt_now rt\<rparr>],
     profileCache := delete_rows (\<lambda>c. fst c = profile_key (u_address u)) (profileCache d)\<rparr>)"

lemma deleteAccount_run:
  "deleteAccount rt userId d = (case user_by_id userId d of
     None \<Rightarrow> (Inl (not_found ''Account not found''), d)
   | Some u \<Rightarrow> (Inr \<lparr>xd_deletedAt = iso_string (rt_now rt), xd_pendingWithdrawals = map portable_withdrawal (pending_withdrawals userId d),
        xd_pendingTips = map portable_tip (pending_tips (u_address u) d),
        xd_requiresOnChainFollowUp = (pending_withdrawals userId d \<noteq> [] \<or> pending_tips (u_address u) d \<noteq> [])\<rparr>, audited rt userId u d))"
  by (simp add: deleteAccount_def transaction_run add_audit_def Let_def cache_del_def audited_def close_account_def
      split: option.split)

lemma none_left: "(\<And>x. q x \<Longrightarrow> p x) \<Longrightarrow> (\<And>x. \<not> q (f x)) \<Longrightarrow> \<not> list_ex q (update_rows p f xs)"
  by (induction xs) auto

lemma audited_tables:
  "tokens (audited rt userId u d) = tokens (close_account rt userId d)"
  "apiKeys (audited rt userId u d) = apiKeys (close_account rt userId d)"
  "notifications (audited rt userId u d) = notifications (close_account rt userId d)"
  "webhooks (audited rt userId u d) = webhooks (close_account rt userId d)"
  "users (audited rt userId u d) = users (close_account rt userId d)"
  "subscriptions (audited rt userId u d) = subscriptions d"
  by (simp_all add: audited_def Let_def close_account_def)


text \<open>Subscriptions are left alone: what was due to be charged, to or from the deleted user, still is.\<close>

lemma address_kept: "address_of i (d\<lparr>users := update_rows p f us\<rparr>) = address_of i (d\<lparr>users := us\<rparr>)"
  if "\<And>x. u_id (f x) = u_id x" "\<And>x. u_address (f x) = u_address x" for f :: "user_row \<Rightarrow> user_row"
proof -
  have "find_by u_id i (update_rows p f us) = map_option (\<lambda>r. if p r then f r else r) (find_by u_id i us)"
    by (rule find_by_update) (simp add: that)
  then show ?thesis using that by (auto simp: address_of_def split: option.splits)
qed

theorem deleted_account_is_still_charged:
  "due_subscriptions now (snd (deleteAccount rt userId d)) = due_subscriptions now d"
proof (cases "user_by_id userId d")
  case (Some u)
  have "address_of i (audited rt userId u d) = address_of i d" for i
  proof -
    have "address_of i (audited rt userId u d) = address_of i (d\<lparr>users := users (close_account rt userId d)\<rparr>)"
      by (simp add: address_of_def audited_tables)
    also have "\<dots> = address_of i (d\<lparr>users := users d\<rparr>)"
      unfolding close_account_users by (rule address_kept) simp_all
    finally show ?thesis by simp
  qed
  with Some show ?thesis by (simp add: deleteAccount_run due_subscriptions_def audited_tables)
qed (simp add: deleteAccount_run)

text \<open>
  A deletion does not bind: signing in with the wallet opens a session of the deleted account, and reactivating the
  profile restores it as it was, except that it stays marked as deactivated.
\<close>

lemma reopened:
  assumes "deleteAccount rt userId d = (Inr r, d1)" and "user_by_id userId d = Some u"
    and "unique_by u_id (users d)" and "unique_by u_address (users d)"
  shows "find_by u_id userId (users d1) = Some (closed rt u)" "find_by u_address (u_address u) (users d1) = Some (closed rt u)"
    "unique_by u_id (users d1)" "unique_by u_address (users d1)"
proof -
  have u: "u \<in> set (users d)" "u_id u = userId"
    using assms(2) live_user_Some by (auto simp: user_by_id_def)
  have d1: "users d1 = update_rows (\<lambda>x. u_id x = userId) (closed rt) (users d)"
    using assms(1,2) by (auto simp: deleteAccount_run audited_tables close_account_users)
  show unique: "unique_by u_id (users d1)" "unique_by u_address (users d1)"
    using assms(3,4) by (simp_all add: d1 unique_by_update)
  have "closed rt u \<in> set (users d1)" using u by (force simp: d1 set_update_rows)
  from find_by_unique [OF unique(1) this] find_by_unique [OF unique(2) this]
  show "find_by u_id userId (users d1) = Some (closed rt u)" "find_by u_address (u_address u) (users d1) = Some (closed rt u)"
    by (simp_all add: u(2))
qed

lemma sign_in_users:
  assumes "open_session ae rt address c d = (Inr (who, token), e)" and "find_by u_address address (users d) = Some u"
  shows "who = u \<and> users e = users d"
proof -
  have kept: "upsert_row u_address address new id (users d) = users d" for new
    using assms(2) by (simp add: upsert_row_def exists_row_find find_by_def)
  from assms(1) obtain i s where
    user: "find_by u_address address (users d) = Some who"
    and gen: "generateRefreshToken ae rt (u_id who) None (d\<lparr>challenges := update_rows (\<lambda>x. ac_id x = ac_id c)
        (\<lambda>x. x\<lparr>ac_usedAt := Some (rt_now rt)\<rparr>) (challenges d), nextId := Suc (nextId d), users := users d\<rparr>) = (Inr s, e)"
    by (auto simp: open_session_def transaction_Inr bnd_eq_Inr_iff kept split: option.splits if_splits)
  from generate_frame(2) [OF gen] user assms(2) show ?thesis by simp
qed

theorem deletion_is_undone:
  assumes "deleteAccount rt userId d = (Inr r, d1)" and "user_by_id userId d = Some u"
    and "unique_by u_id (users d)" and "unique_by u_address (users d)"
    and "open_session ae rt' (u_address u) c d1 = (Inr (who, token), d2)"
  shows "u_id who = userId \<and> u_deletedAt who = Some (rt_now rt) \<and>
    user_by_id userId (snd (reactivateProfile userId d2)) = Some (u\<lparr>u_deactivatedAt := Some (rt_now rt)\<rparr>)"
proof -
  have u: "u_id u = userId" "u_deletedAt u = None" using assms(2) live_user_Some by (auto simp: user_by_id_def)
  note kept = reopened [OF assms(1-4)]
  from sign_in_users [OF assms(5) kept(2)] have who: "who = closed rt u" and users: "users d2 = users d1" by auto
  have found: "find_by u_id userId (users d2) = Some (closed rt u)" using kept(1) users by simp
  have "closed rt u\<lparr>u_deletedAt := None\<rparr> = u\<lparr>u_deactivatedAt := Some (rt_now rt)\<rparr>"
    using u(2) by (simp add: closed_def)
  moreover have row: "find_by u_id userId (update_rows (\<lambda>x. u_id x = userId) (\<lambda>u. u\<lparr>u_deletedAt := None\<rparr>) (users d2)) =
      Some (closed rt u\<lparr>u_deletedAt := None\<rparr>)"
    using found u(1) by (simp add: find_by_update closed_def)
  moreover have "find_row (\<lambda>x. u_id x = i \<and> u_deletedAt x = None) xs = Some x" if "find_by u_id i xs = Some x" "u_deletedAt x = None" for i xs x
    using that by (induction xs) (auto simp: find_by_def split: if_splits)
  from this [OF row] have "find_row (\<lambda>x. u_id x = userId \<and> u_deletedAt x = None)
      (update_rows (\<lambda>x. u_id x = userId) (\<lambda>u. u\<lparr>u_deletedAt := None\<rparr>) (users d2)) = Some (closed rt u\<lparr>u_deletedAt := None\<rparr>)"
    by simp
  moreover have "users (snd (reactivateProfile userId d2)) = update_rows (\<lambda>x. u_id x = userId) (\<lambda>u. u\<lparr>u_deletedAt := None\<rparr>) (users d2)"
    using found by (simp add: reactivateProfile_def change_user_def cache_del_def closed_def)
  ultimately show ?thesis using u(1) by (simp add: who user_by_id_def live_user_def)
qed

section \<open>Examples\<close>

definition demo_account :: db where
  "demo_account = demo_users\<lparr>apiKeys := [demo_key], challenges := [\<lparr>ac_id = ''c'', ac_address = ''GA'', ac_challenge = ''n'',
     ac_network = ''TESTNET'', ac_expiresAt = 900, ac_usedAt = None\<rparr>]\<rparr>"

lemma demo_account_found: "user_by_id ''u1'' demo_account = Some demo_user"
  by (simp add: user_by_id_def live_user_def demo_account_def demo_users_def demo_user_def)

lemma demo_account_unique: "unique_by u_id (users demo_account)" "unique_by u_address (users demo_account)"
  by (simp_all add: demo_account_def demo_users_def)

lemma demo_deleted: "\<exists>r d'. deleteAccount (sample_rt 5) ''u1'' demo_account = (Inr r, d')"
  by (simp add: deleteAccount_run demo_account_found)

lemma demo_token_bnd:
  assumes "tokens e = []"
  shows "\<exists>a b c e'. generateRefreshToken sample_env (sample_rt 7) i None e = (Inr (a, b, c), e')"
proof -
  have ttl: "parseDuration (ae_refreshTtl sample_env) = Inr 604800000" by (simp add: sample_env_def) code_simp
  obtain r e' where run: "generateRefreshToken sample_env (sample_rt 7) i None e = (r, e')" by force
  have "\<not> isl r"
    using run ttl assms by (auto simp: generateRefreshToken_def random_hex_def exists_row_def bnd_def)
  then obtain s where "r = Inr s" by (cases r) auto
  with run show ?thesis by (cases s) auto
qed


theorem deletion_is_undone_witness:
  "\<exists>who token d2. open_session sample_env (sample_rt 7) ''GA'' (hd (challenges demo_account)) (snd (deleteAccount (sample_rt 5) ''u1'' demo_account)) =
     (Inr (who, token), d2) \<and> u_deletedAt who = Some 5 \<and> user_by_id ''u1'' (snd (reactivateProfile ''u1'' d2)) \<noteq> None"
proof -
  obtain r d1 where run: "deleteAccount (sample_rt 5) ''u1'' demo_account = (Inr r, d1)" using demo_deleted by blast
  have d1: "d1 = audited (sample_rt 5) ''u1'' demo_user demo_account"
    using run by (simp add: deleteAccount_run demo_account_found)
  have tables: "tokens d1 = []" "challenges d1 = challenges demo_account"
    by (simp_all add: d1 audited_tables close_account_def audited_def Let_def demo_account_def demo_users_def empty_db_def)
  have found: "find_by u_address ''GA'' (users d1) = Some (closed (sample_rt 5) demo_user)"
    using reopened(2) [OF run demo_account_found demo_account_unique] by (simp add: demo_user_def)
  have "upsert_row u_address ''GA'' new id (users d1) = users d1" for new
    using found by (simp add: upsert_row_def exists_row_find find_by_def)
  moreover obtain a b c e' where "generateRefreshToken sample_env (sample_rt 7) (u_id demo_user) None
      (d1\<lparr>challenges := [\<lparr>ac_id = ''c'', ac_address = ''GA'', ac_challenge = ''n'', ac_network = ''TESTNET'', ac_expiresAt = 900,
         ac_usedAt = Some (rt_now (sample_rt 7))\<rparr>], nextId := Suc (nextId d1)\<rparr>) = (Inr (a, b, c), e')"
    using demo_token_bnd tables(1) by fastforce
  ultimately have "\<exists>who token d2. open_session sample_env (sample_rt 7) ''GA'' (hd (challenges demo_account)) d1 = (Inr (who, token), d2)"
    using found tables by (simp add: open_session_def transaction_run bnd_Inr demo_account_def find_by_def)
  then obtain who token d2 where opened: "open_session sample_env (sample_rt 7) (u_address demo_user) (hd (challenges demo_account)) d1 = (Inr (who, token), d2)"
    by (auto simp: demo_user_def)
  from deletion_is_undone [OF run demo_account_found demo_account_unique opened] run opened show ?thesis
    by (auto simp: demo_user_def sample_rt_def)
qed

end
