(* ===== verification/Leaderboard.thy ===== *)
theory Leaderboard
  imports Tips
begin

text \<open>
  The leaderboard (\<open>backend/src/modules/leaderboard/leaderboard.service.ts\<close>, \<open>jobs/leaderboardSnapshot.worker.ts\<close>): creators ranked by
  their confirmed tips within a window, a creator's rank, and the stored snapshots. Creators with equal totals come in the order
  of their first tip, where the database leaves the order open.
\<close>

section \<open>The ranking\<close>

datatype TimeWindow = W_24h | W_7d | W_all

definition WINDOW_MS :: "TimeWindow \<Rightarrow> int option" where
  "WINDOW_MS w = (case w of W_24h \<Rightarrow> Some (24 * 60 * 60 * 1000) | W_7d \<Rightarrow> Some (7 * 24 * 60 * 60 * 1000) | W_all \<Rightarrow> None)"

definition SNAPSHOT_WINDOW_MS :: "Period \<Rightarrow> int option" where
  "SNAPSHOT_WINDOW_MS p = (case p of P_WEEKLY \<Rightarrow> Some (7 * 24 * 60 * 60 * 1000) | P_MONTHLY \<Rightarrow> Some (30 * 24 * 60 * 60 * 1000) | P_ALL_TIME \<Rightarrow> None)"

definition getSince :: "TimeWindow \<Rightarrow> int \<Rightarrow> int option" where
  "getSince w now = map_option (\<lambda>ms. now - ms) (WINDOW_MS w)"

definition getSnapshotSince :: "Period \<Rightarrow> int \<Rightarrow> int option" where
  "getSnapshotSince p now = map_option (\<lambda>ms. now - ms) (SNAPSHOT_WINDOW_MS p)"

definition counted :: "int option \<Rightarrow> tip_row \<Rightarrow> bool" where
  "counted since t \<longleftrightarrow> tip_status t = CONFIRMED \<and> (case since of None \<Rightarrow> True | Some s \<Rightarrow> s \<le> tip_createdAt t)"

definition total_of :: "int option \<Rightarrow> tip_row list \<Rightarrow> string \<Rightarrow> int" where
  "total_of since rows a = sum_rows (\<lambda>t. tip_to t = a \<and> counted since t) tip_amount rows"

definition getRankedRows :: "int option \<Rightarrow> db \<Rightarrow> (string \<times> int) list" where
  "getRankedRows since d = order_desc snd
     (map (\<lambda>a. (a, total_of since (tips d) a)) (remdups (map tip_to (filter (counted since) (tips d)))))"

definition countRankedRows :: "int option \<Rightarrow> db \<Rightarrow> nat" where
  "countRankedRows since d = length (remdups (map tip_to (filter (counted since) (tips d))))"

record LeaderboardEntry =
  le_rank :: nat
  le_userId :: string
  le_username :: "string option"
  le_stellarAddress :: string
  le_totalTips :: string

definition leaderboard_entry :: "db \<Rightarrow> nat \<Rightarrow> string \<times> int \<Rightarrow> LeaderboardEntry" where
  "leaderboard_entry d rank row = (let user = user_by_address (fst row) d in
     \<lparr>le_rank = rank, le_userId = (case user of None \<Rightarrow> [] | Some u \<Rightarrow> u_id u),
      le_username = (case user of None \<Rightarrow> None | Some u \<Rightarrow> u_username u), le_stellarAddress = fst row, le_totalTips = show_int (snd row)\<rparr>)"

definition hydrateEntries :: "(string \<times> int) list \<Rightarrow> nat \<Rightarrow> db \<Rightarrow> LeaderboardEntry list" where
  "hydrateEntries rows offset d = map (\<lambda>(i, row). leaderboard_entry d (offset + i + 1) row) (enumerate 0 rows)"

record LeaderboardResponse =
  lr_data :: "LeaderboardEntry list"
  lr_window :: TimeWindow
  lr_limit :: nat
  lr_offset :: nat
  lr_total :: nat
  lr_hasMore :: bool

definition getLeaderboard :: "runtime \<Rightarrow> TimeWindow \<Rightarrow> nat \<Rightarrow> nat \<Rightarrow> LeaderboardResponse dbio" where
  "getLeaderboard rt window limit offset =
     (let since = getSince window (rt_now rt)
      in bnd (gets (\<lambda>d. (take limit (drop offset (getRankedRows since d)), countRankedRows since d))) (\<lambda>(rows, amount).
         bnd (gets (hydrateEntries rows offset)) (\<lambda>entries.
           ret \<lparr>lr_data = entries, lr_window = window, lr_limit = limit, lr_offset = offset, lr_total = amount,
             lr_hasMore = (offset + length entries < amount)\<rparr>)))"

fun find_index :: "('a \<Rightarrow> bool) \<Rightarrow> 'a list \<Rightarrow> nat option" where
  "find_index p [] = None"
| "find_index p (x # xs) = (if p x then Some 0 else map_option Suc (find_index p xs))"

definition getUserRank :: "runtime \<Rightarrow> string \<Rightarrow> TimeWindow \<Rightarrow> (nat \<times> string \<times> TimeWindow) dbio" where
  "getUserRank rt userId window =
     (let since = getSince window (rt_now rt)
      in bnd (gets (user_by_id userId)) (\<lambda>found.
         bnd (require found (not_found ''User not found'')) (\<lambda>user.
         bnd (gets (getRankedRows since)) (\<lambda>rows.
         bnd (require (find_index (\<lambda>row. fst row = u_address user) rows) (not_found ''User not found on the leaderboard for this window'')) (\<lambda>i.
           ret (i + 1, show_int (snd (rows ! i)), window))))))"

section \<open>Snapshots\<close>

definition snapshot_rows :: "Period \<Rightarrow> db \<Rightarrow> (string \<times> int) list \<Rightarrow> snapshot_row list" where
  "snapshot_rows period d rows = concat (map (\<lambda>(i, row). case user_by_address (fst row) d of
       None \<Rightarrow> []
     | Some u \<Rightarrow> [\<lparr>sn_period = period, sn_rank = i + 1, sn_userId = u_id u, sn_totalTips = snd row\<rparr>]) (enumerate 0 rows))"

definition createLeaderboardSnapshot :: "Period \<Rightarrow> int \<Rightarrow> (Period \<times> nat) dbio" where
  "createLeaderboardSnapshot period now =
     bnd (gets (\<lambda>d. snapshot_rows period d (getRankedRows (getSnapshotSince period now) d))) (\<lambda>rows.
     andthen (transaction (modify (\<lambda>d. d\<lparr>snapshots := delete_rows (\<lambda>s. sn_period s = period) (snapshots d) @ rows\<rparr>)))
       (ret (period, length rows)))"

definition SNAPSHOT_PERIODS :: "Period list" where
  "SNAPSHOT_PERIODS = [P_WEEKLY, P_MONTHLY, P_ALL_TIME]"

fun snapshot_loop :: "int \<Rightarrow> Period list \<Rightarrow> nat \<times> nat \<Rightarrow> (nat \<times> nat) dbio" where
  "snapshot_loop now [] counts = ret counts"
| "snapshot_loop now (p # ps) counts =
     bnd (try_catch (bnd (createLeaderboardSnapshot p now) (\<lambda>_. ret (fst counts + 1, snd counts))) (\<lambda>_. ret (fst counts, snd counts + 1)))
       (snapshot_loop now ps)"

definition runLeaderboardSnapshot :: "runtime \<Rightarrow> (nat \<times> nat) dbio" where
  "runLeaderboardSnapshot rt = snapshot_loop (rt_now rt) SNAPSHOT_PERIODS (0, 0)"

section \<open>Ranks\<close>

lemma ranked_desc: "sorted_wrt (\<lambda>x y. snd y \<le> snd x) (getRankedRows since d)"
  unfolding getRankedRows_def by (rule sorted_order_desc)

lemma ranked_length [simp]: "length (getRankedRows since d) = countRankedRows since d"
  by (simp add: getRankedRows_def countRankedRows_def)

lemma ranked_rows: "row \<in> set (getRankedRows since d) \<Longrightarrow> snd row = total_of since (tips d) (fst row)"
  by (auto simp: getRankedRows_def)

lemma ranked_distinct: "distinct (map fst (getRankedRows since d))"
proof -
  have "distinct (map fst (map (\<lambda>a. (a, total_of since (tips d) a)) (remdups (map tip_to (filter (counted since) (tips d))))))"
    by (simp add: comp_def)
  moreover have "mset (getRankedRows since d) =
      mset (map (\<lambda>a. (a, total_of since (tips d) a)) (remdups (map tip_to (filter (counted since) (tips d)))))"
    by (simp add: getRankedRows_def order_desc_def)
  ultimately show ?thesis by (metis mset_eq_imp_distinct_iff mset_map)
qed

lemma find_index_Some: "find_index p xs = Some i \<Longrightarrow> i < length xs \<and> p (xs ! i) \<and> (\<forall>j < i. \<not> p (xs ! j))"
proof (induction xs arbitrary: i)
  case (Cons x xs)
  then show ?case by (auto simp: nth_Cons split: if_splits nat.splits)
qed simp

text \<open>In a descending list the larger values stand before a position, and everything up to it is at least as large.\<close>

lemma rank_counts:
  assumes "sorted_wrt (\<lambda>x y. snd y \<le> (snd x :: int)) xs" and "i < length xs"
  shows "count_rows (\<lambda>x. snd (xs ! i) < snd x) xs \<le> i \<and> Suc i \<le> count_rows (\<lambda>x. snd (xs ! i) \<le> snd x) xs"
proof -
  have nth: "snd (xs ! k) \<le> snd (xs ! j)" if "j \<le> k" "k < length xs" for j k
    using sorted_wrt_nth_less [OF assms(1), of j k] that by (cases "j = k") auto
  have split: "count_rows p xs = count_rows p (take n xs) + count_rows p (drop n xs)" for p n
    by (metis append_take_drop_id count_rows_append)
  have "\<not> snd (xs ! i) < snd x" if x: "x \<in> set (drop i xs)" for x
  proof -
    obtain j where "j < length (drop i xs)" "x = drop i xs ! j" using x by (metis in_set_conv_nth)
    then show ?thesis using nth [of i "i + j"] by (simp add: less_diff_conv add.commute not_less)
  qed
  then have "count_rows (\<lambda>x. snd (xs ! i) < snd x) (drop i xs) = 0" by (simp add: count_rows_0)
  moreover have "count_rows (\<lambda>x. snd (xs ! i) < snd x) (take i xs) \<le> i"
    using le_trans [OF length_filter_le [of "\<lambda>x. snd (xs ! i) < snd x" "take i xs"], of i] by (simp add: count_rows_def)
  moreover have "count_rows (\<lambda>x. snd (xs ! i) \<le> snd x) (take (Suc i) xs) = length (take (Suc i) xs)"
  proof -
    have "snd (xs ! i) \<le> snd x" if x: "x \<in> set (take (Suc i) xs)" for x
    proof -
      obtain j where "j < length (take (Suc i) xs)" "x = take (Suc i) xs ! j" using x by (metis in_set_conv_nth)
      then show ?thesis using nth [of j i] assms(2) by simp
    qed
    then show ?thesis unfolding count_rows_def by (metis filter_True)
  qed
  ultimately show ?thesis
    using split [of "\<lambda>x. snd (xs ! i) < snd x" i] split [of "\<lambda>x. snd (xs ! i) \<le> snd x" "Suc i"] assms(2) by simp
qed

text \<open>
  A creator's rank lies between the number of creators with a larger total and the number of those with a total at least as
  large, and the leaderboard shows the creator at that rank with the creator's confirmed total of the window.
\<close>

theorem user_rank_is_place:
  assumes "getUserRank rt userId window d = (Inr (rank, amount, w), d')" and "user_by_id userId d = Some u"
  shows "d' = d \<and> 0 < rank \<and> amount = show_int (total_of (getSince window (rt_now rt)) (tips d) (u_address u)) \<and>
    count_rows (\<lambda>row. total_of (getSince window (rt_now rt)) (tips d) (u_address u) < snd row) (getRankedRows (getSince window (rt_now rt)) d) < rank \<and>
    rank \<le> count_rows (\<lambda>row. total_of (getSince window (rt_now rt)) (tips d) (u_address u) \<le> snd row) (getRankedRows (getSince window (rt_now rt)) d) \<and>
    (\<exists>page. getLeaderboard rt window 1 (rank - 1) d = (Inr page, d) \<and>
       lr_data page = [leaderboard_entry d rank (u_address u, total_of (getSince window (rt_now rt)) (tips d) (u_address u))])"
proof -
  let ?since = "getSince window (rt_now rt)"
  let ?rows = "getRankedRows ?since d"
  have run: "(case find_index (\<lambda>row. fst row = u_address u) ?rows of
        None \<Rightarrow> (Inl (not_found ''User not found on the leaderboard for this window''), d)
      | Some i \<Rightarrow> (Inr (i + 1, show_int (snd (?rows ! i)), window), d)) = (Inr (rank, amount, w), d')"
    using assms by (simp add: getUserRank_def Let_def cong: option.case_cong)
  then obtain i where i: "find_index (\<lambda>row. fst row = u_address u) ?rows = Some i"
    by (cases "find_index (\<lambda>row. fst row = u_address u) ?rows") simp_all
  with run have eqs: "rank = Suc i" "amount = show_int (snd (?rows ! i))" "d' = d" by auto
  from find_index_Some [OF i] have lt: "i < length ?rows" and addr: "fst (?rows ! i) = u_address u" by auto
  have val: "snd (?rows ! i) = total_of ?since (tips d) (u_address u)"
    using ranked_rows [OF nth_mem [OF lt]] addr by simp
  have row: "?rows ! i = (u_address u, total_of ?since (tips d) (u_address u))"
    using val addr by (metis prod.collapse)
  have "take 1 (drop i ?rows) = [?rows ! i]"
    using lt by (simp add: take_Suc_conv_app_nth hd_drop_conv_nth take_Suc)
  then have page: "\<exists>page. getLeaderboard rt window 1 i d = (Inr page, d) \<and> lr_data page = [leaderboard_entry d (Suc i) (?rows ! i)]"
    by (simp add: getLeaderboard_def Let_def hydrateEntries_def)
  show ?thesis
    using rank_counts [OF ranked_desc lt] page eqs val row by auto
qed

section \<open>Snapshots\<close>

lemma snapshot_run:
  "createLeaderboardSnapshot period now d =
     (Inr (period, length (snapshot_rows period d (getRankedRows (getSnapshotSince period now) d))),
      d\<lparr>snapshots := delete_rows (\<lambda>s. sn_period s = period) (snapshots d) @
          snapshot_rows period d (getRankedRows (getSnapshotSince period now) d)\<rparr>)"
  by (simp add: createLeaderboardSnapshot_def)

lemma snapshot_rows_period: "s \<in> set (snapshot_rows period d rows) \<Longrightarrow> sn_period s = period"
  by (auto simp: snapshot_rows_def split: option.splits)

lemma snapshot_inputs: "getRankedRows since (d\<lparr>snapshots := ss\<rparr>) = getRankedRows since d"
    "snapshot_rows period (d\<lparr>snapshots := ss\<rparr>) rows = snapshot_rows period d rows"
  by (simp_all add: getRankedRows_def snapshot_rows_def user_by_address_def live_user_def cong: option.case_cong)

text \<open>
  Taking a snapshot replaces the period's rows by the creators with an account, each with the rank it has in the live ranking, and
  leaves the other periods alone; taking it again changes nothing.
\<close>

theorem snapshot_replaces_period:
  "\<exists>d'. createLeaderboardSnapshot period now d = (Inr (period, length (filter (\<lambda>s. sn_period s = period) (snapshots d'))), d') \<and>
     filter (\<lambda>s. sn_period s \<noteq> period) (snapshots d') = filter (\<lambda>s. sn_period s \<noteq> period) (snapshots d) \<and>
     filter (\<lambda>s. sn_period s = period) (snapshots d') = snapshot_rows period d (getRankedRows (getSnapshotSince period now) d) \<and>
     snapshots (snd (createLeaderboardSnapshot period now d')) = snapshots d'"
proof -
  define rows where "rows = snapshot_rows period d (getRankedRows (getSnapshotSince period now) d)"
  define d' where "d' = d\<lparr>snapshots := delete_rows (\<lambda>s. sn_period s = period) (snapshots d) @ rows\<rparr>"
  have own: "filter (\<lambda>s. sn_period s = period) rows = rows" "filter (\<lambda>s. sn_period s \<noteq> period) rows = []"
    using snapshot_rows_period by (auto simp: rows_def filter_id_conv filter_empty_conv)
  have kept: "filter (\<lambda>s. sn_period s = period) (snapshots d') = rows"
    using own by (simp add: d'_def delete_rows_def)
  have run: "createLeaderboardSnapshot period now d = (Inr (period, length rows), d')"
    by (simp add: snapshot_run rows_def d'_def)
  have other: "filter (\<lambda>s. sn_period s \<noteq> period) (snapshots d') = filter (\<lambda>s. sn_period s \<noteq> period) (snapshots d)"
    using own by (simp add: d'_def delete_rows_def)
  have "snapshots (snd (createLeaderboardSnapshot period now d')) = delete_rows (\<lambda>s. sn_period s = period) (snapshots d') @ rows"
    by (simp add: snapshot_run d'_def snapshot_inputs) (simp add: rows_def)
  also have "\<dots> = snapshots d'"
    using own by (simp add: d'_def delete_rows_def)
  finally show ?thesis using run kept other by (auto simp: rows_def)
qed

text \<open>Every period is snapshot, none fails.\<close>

lemma snapshot_job_runs: "fst (runLeaderboardSnapshot rt d) = Inr (3, 0)"
  by (simp add: runLeaderboardSnapshot_def SNAPSHOT_PERIODS_def snapshot_run try_catch_def bnd_def)

section \<open>Examples\<close>

definition demo_creator :: user_row where
  "demo_creator = \<lparr>u_id = ''u1'', u_address = ''GB'', u_username = None, u_role = ''user'', u_scopes = [], u_createdAt = 0,
     u_deletedAt = None, u_deactivatedAt = None, u_blockedAt = None, u_flagged = False, u_displayName = None, u_bio = None,
     u_imageUrl = None, u_avatarCid = None, u_xHandle = None\<rparr>"

definition demo_board :: db where
  "demo_board = empty_db\<lparr>users := [demo_creator],
     tips := [demo_tip ''h1'' CONFIRMED, demo_tip ''h2'' CONFIRMED, (demo_tip ''h3'' CONFIRMED)\<lparr>tip_to := ''GC'', tip_amount := 170\<rparr>]\<rparr>"

theorem user_rank_is_place_witness:
  "\<exists>rank amount w. getUserRank demo_runtime ''u1'' W_all demo_board = (Inr (rank, amount, w), demo_board) \<and> amount = show_int 100 \<and> 1 < rank"
proof -
  have found: "user_by_id ''u1'' demo_board = Some demo_creator"
    by (simp add: user_by_id_def live_user_def demo_board_def demo_creator_def)
  have amount: "total_of (getSince W_all 0) (tips demo_board) ''GB'' = 100"
    by (simp add: total_of_def counted_def getSince_def WINDOW_MS_def demo_board_def demo_tip_def sum_rows_def)
  have rows: "set (getRankedRows (getSince W_all 0) demo_board) = {(''GB'', 100), (''GC'', 170)}"
    by (simp add: getRankedRows_def total_of_def counted_def getSince_def WINDOW_MS_def demo_board_def demo_tip_def sum_rows_def)
  then obtain i where "find_index (\<lambda>row. fst row = ''GB'') (getRankedRows (getSince W_all 0) demo_board) = Some i"
  proof -
    have "find_index p xs \<noteq> None" if "x \<in> set xs" "p x" for p xs and x :: "string \<times> int"
      using that by (induction xs) auto
    from this [of "(''GB'', 100)"] rows that show ?thesis by fastforce
  qed
  then obtain rank t w where run: "getUserRank demo_runtime ''u1'' W_all demo_board = (Inr (rank, t, w), demo_board)"
    using found by (simp add: getUserRank_def Let_def demo_runtime_def demo_creator_def)
  from user_rank_is_place [OF run found] have "t = show_int 100"
    "count_rows (\<lambda>row. 100 < snd row) (getRankedRows (getSince W_all 0) demo_board) < rank"
    using amount by (simp_all add: demo_runtime_def demo_creator_def)
  moreover have "count_rows (\<lambda>row. 100 < snd row) (getRankedRows (getSince W_all 0) demo_board) \<noteq> 0"
    using rows by (simp add: count_rows_0)
  ultimately show ?thesis using run by auto
qed

end
