(* ===== verification/Reconciliation.thy ===== *)
theory Reconciliation
  imports Leaderboard
begin

text \<open>
  The reconciliation of store and chain (\<open>backend/src/modules/reconciliation/reconciliation.service.ts\<close>). The checks are
  definitions over the reads of the chain; the program's reads are constants (\<open>source_chain\<close>). The sampling rate is an exact rational and
  the product of a count and the rate is not rounded. A run takes no time: its two clock readings are one.
\<close>

section \<open>Configuration and reads of the chain\<close>

record ReconciliationConfig =
  rc_samplingRate :: rat
  rc_maxRpcCalls :: nat
  rc_autoRepairEnabled :: bool
  rc_alertThreshold :: rat

definition DEFAULT_CONFIG :: ReconciliationConfig where
  "DEFAULT_CONFIG = \<lparr>rc_samplingRate = 1 / 10, rc_maxRpcCalls = 1000, rc_autoRepairEnabled = True, rc_alertThreshold = 5 / 100\<rparr>"

record chain_reads =
  ch_balance :: "string \<Rightarrow> int"
  ch_tipTotal :: "string \<Rightarrow> int"
  ch_profile :: "string \<Rightarrow> (string \<Rightarrow> string option) option"
  ch_position :: "string \<Rightarrow> Period \<Rightarrow> nat option"

definition fetchOnChainBalance :: "string \<Rightarrow> int" where
  "fetchOnChainBalance address = 0"

definition fetchOnChainTipTotal :: "string \<Rightarrow> int" where
  "fetchOnChainTipTotal address = 0"

definition fetchOnChainProfile :: "string \<Rightarrow> (string \<Rightarrow> string option) option" where
  "fetchOnChainProfile address = None"

definition fetchOnChainLeaderboardPosition :: "string \<Rightarrow> Period \<Rightarrow> nat option" where
  "fetchOnChainLeaderboardPosition address period = None"

definition source_chain :: chain_reads where
  "source_chain = \<lparr>ch_balance = fetchOnChainBalance, ch_tipTotal = fetchOnChainTipTotal, ch_profile = fetchOnChainProfile,
     ch_position = fetchOnChainLeaderboardPosition\<rparr>"

section \<open>Discrepancies\<close>

datatype DiscrepancyType = Balance | Tip_total | Profile_field | Leaderboard_position

datatype Severity = Low | Medium | High

record Discrepancy =
  dc_type :: DiscrepancyType
  dc_entityId :: string
  dc_entityType :: string
  dc_onChainValue :: jsval
  dc_offChainValue :: jsval
  dc_severity :: Severity
  dc_canAutoRepair :: bool
  dc_description :: string
  dc_detectedAt :: int

definition sample_size :: "nat \<Rightarrow> rat \<Rightarrow> nat" where
  "sample_size n rate = nat \<lceil>of_nat n * rate\<rceil>"

text \<open>A loop over the sample that stops when the calls are used up: what the rounds report, and the calls made.\<close>

fun bounded_loop :: "nat \<Rightarrow> nat \<Rightarrow> ('a \<Rightarrow> 'b list) \<Rightarrow> 'a list \<Rightarrow> 'b list \<times> nat" where
  "bounded_loop maxCalls calls f [] = ([], calls)"
| "bounded_loop maxCalls calls f (x # xs) =
     (if maxCalls \<le> calls then ([], calls)
      else (case bounded_loop maxCalls (calls + 1) f xs of (ds, n) \<Rightarrow> (f x @ ds, n)))"

definition all_received :: "string \<Rightarrow> db \<Rightarrow> int" where
  "all_received address d = sum_rows (\<lambda>t. tip_to t = address) tip_amount (tips d)"

definition live_users :: "db \<Rightarrow> user_row list" where
  "live_users d = filter (\<lambda>u. u_deletedAt u = None) (users d)"

definition sampled_users :: "ReconciliationConfig \<Rightarrow> db \<Rightarrow> user_row list" where
  "sampled_users cfg d = take (sample_size (length (live_users d)) (rc_samplingRate cfg)) (sort_key u_id (live_users d))"

definition sampled_tips :: "ReconciliationConfig \<Rightarrow> db \<Rightarrow> tip_row list" where
  "sampled_tips cfg d = take (sample_size (length (tips d)) (rc_samplingRate cfg)) (sort_key tip_id (tips d))"

definition check_balance :: "chain_reads \<Rightarrow> int \<Rightarrow> db \<Rightarrow> user_row \<Rightarrow> Discrepancy list" where
  "check_balance ch now d u =
     (let onChain = ch_balance ch (u_address u); offChain = all_received (u_address u) d
      in if onChain \<noteq> offChain then [\<lparr>dc_type = Balance, dc_entityId = u_id u, dc_entityType = ''user'',
           dc_onChainValue = JStr (show_int onChain), dc_offChainValue = JStr (show_int offChain), dc_severity = High,
           dc_canAutoRepair = False, dc_description = ''Balance mismatch: on-chain='' @ show_int onChain @ '', off-chain='' @ show_int offChain,
           dc_detectedAt = now\<rparr>] else [])"

definition checkBalanceDiscrepancies :: "chain_reads \<Rightarrow> int \<Rightarrow> ReconciliationConfig \<Rightarrow> db \<Rightarrow> Discrepancy list \<times> nat" where
  "checkBalanceDiscrepancies ch now cfg d = bounded_loop (rc_maxRpcCalls cfg) 0 (check_balance ch now d) (sampled_users cfg d)"

definition check_tip_total :: "chain_reads \<Rightarrow> int \<Rightarrow> db \<Rightarrow> tip_row \<Rightarrow> Discrepancy list" where
  "check_tip_total ch now d t =
     (let onChain = ch_tipTotal ch (tip_to t); offChain = all_received (tip_to t) d
      in if onChain \<noteq> offChain then [\<lparr>dc_type = Tip_total, dc_entityId = tip_id t, dc_entityType = ''tip'',
           dc_onChainValue = JStr (show_int onChain), dc_offChainValue = JStr (show_int offChain), dc_severity = Medium,
           dc_canAutoRepair = False, dc_description = ''Tip total mismatch for '' @ tip_to t, dc_detectedAt = now\<rparr>] else [])"

definition checkTipTotalDiscrepancies :: "chain_reads \<Rightarrow> int \<Rightarrow> ReconciliationConfig \<Rightarrow> db \<Rightarrow> Discrepancy list \<times> nat" where
  "checkTipTotalDiscrepancies ch now cfg d = bounded_loop (rc_maxRpcCalls cfg) 0 (check_tip_total ch now d) (sampled_tips cfg d)"

definition truthy_text :: "string option \<Rightarrow> string option" where
  "truthy_text x = (if x = Some [] then None else x)"

definition profile_field :: "string \<Rightarrow> user_row \<Rightarrow> string option" where
  "profile_field field u = (if field = ''username'' then u_username u else if field = ''displayName'' then u_displayName u
     else if field = ''bio'' then u_bio u else None)"

definition text_value :: "string option \<Rightarrow> jsval" where
  "text_value x = (case x of None \<Rightarrow> Null | Some s \<Rightarrow> JStr s)"

definition check_field :: "int \<Rightarrow> ReconciliationConfig \<Rightarrow> user_row \<Rightarrow> (string \<Rightarrow> string option) \<Rightarrow> string \<Rightarrow> Discrepancy list" where
  "check_field now cfg u profile field =
     (let onChain = truthy_text (profile field); offChain = truthy_text (profile_field field u)
      in if onChain \<noteq> offChain then [\<lparr>dc_type = Profile_field, dc_entityId = u_id u, dc_entityType = ''user'',
           dc_onChainValue = text_value onChain, dc_offChainValue = text_value offChain, dc_severity = Low,
           dc_canAutoRepair = rc_autoRepairEnabled cfg, dc_description = ''Profile field '' @ [CHR 0x27] @ field @ [CHR 0x27] @ '' mismatch'',
           dc_detectedAt = now\<rparr>] else [])"

definition check_profile :: "chain_reads \<Rightarrow> int \<Rightarrow> ReconciliationConfig \<Rightarrow> user_row \<Rightarrow> Discrepancy list" where
  "check_profile ch now cfg u = (case ch_profile ch (u_address u) of
       None \<Rightarrow> []
     | Some profile \<Rightarrow> concat (map (check_field now cfg u profile) [''username'', ''displayName'', ''bio'']))"

definition checkProfileFieldDiscrepancies :: "chain_reads \<Rightarrow> int \<Rightarrow> ReconciliationConfig \<Rightarrow> db \<Rightarrow> Discrepancy list \<times> nat" where
  "checkProfileFieldDiscrepancies ch now cfg d = bounded_loop (rc_maxRpcCalls cfg) 0 (check_profile ch now cfg) (sampled_users cfg d)"

definition period_name :: "Period \<Rightarrow> string" where
  "period_name p = (case p of P_WEEKLY \<Rightarrow> ''WEEKLY'' | P_MONTHLY \<Rightarrow> ''MONTHLY'' | P_ALL_TIME \<Rightarrow> ''ALL_TIME'')"

text \<open>The row of a snapshot has no id in the model; the user stands for it.\<close>

definition check_position :: "chain_reads \<Rightarrow> int \<Rightarrow> db \<Rightarrow> Period \<Rightarrow> snapshot_row \<Rightarrow> Discrepancy list" where
  "check_position ch now d period s =
     (case find_by u_id (sn_userId s) (users d) of
        None \<Rightarrow> []
      | Some u \<Rightarrow> (case ch_position ch (u_address u) period of
            None \<Rightarrow> []
          | Some rank \<Rightarrow> if rank \<noteq> sn_rank s then [\<lparr>dc_type = Leaderboard_position, dc_entityId = sn_userId s,
              dc_entityType = ''leaderboard'', dc_onChainValue = JNum (j_int (int rank)), dc_offChainValue = JNum (j_int (int (sn_rank s))),
              dc_severity = Medium, dc_canAutoRepair = False, dc_description = ''Leaderboard rank mismatch for '' @ period_name period,
              dc_detectedAt = now\<rparr>] else []))"

fun position_loop :: "chain_reads \<Rightarrow> int \<Rightarrow> ReconciliationConfig \<Rightarrow> db \<Rightarrow> nat \<Rightarrow> Period list \<Rightarrow> Discrepancy list \<times> nat" where
  "position_loop ch now cfg d calls [] = ([], calls)"
| "position_loop ch now cfg d calls (p # ps) =
     (let rows = filter (\<lambda>s. sn_period s = p) (snapshots d)
      in case bounded_loop (rc_maxRpcCalls cfg) calls (check_position ch now d p)
               (take (sample_size (length rows) (rc_samplingRate cfg)) rows) of (ds, n) \<Rightarrow>
         (case position_loop ch now cfg d n ps of (es, m) \<Rightarrow> (ds @ es, m)))"

definition checkLeaderboardPositionDiscrepancies :: "chain_reads \<Rightarrow> int \<Rightarrow> ReconciliationConfig \<Rightarrow> db \<Rightarrow> Discrepancy list \<times> nat" where
  "checkLeaderboardPositionDiscrepancies ch now cfg d = position_loop ch now cfg d 0 SNAPSHOT_PERIODS"

section \<open>Repair and report\<close>

text \<open>The repair counts a profile field whose user is found; it writes nothing.\<close>

definition autoRepairDiscrepancies :: "Discrepancy list \<Rightarrow> nat dbio" where
  "autoRepairDiscrepancies ds = gets (\<lambda>d. length (filter (\<lambda>c. dc_canAutoRepair c \<and> dc_type c = Profile_field \<and>
     user_by_id (dc_entityId c) d \<noteq> None) ds))"

record ReconciliationReport =
  rp_runId :: string
  rp_startedAt :: int
  rp_completedAt :: int
  rp_config :: ReconciliationConfig
  rp_totalSampled :: int
  rp_discrepanciesFound :: nat
  rp_discrepancyRate :: rat
  rp_discrepancies :: "Discrepancy list"
  rp_autoRepaired :: nat
  rp_requiresManualReview :: nat
  rp_rpcCallsMade :: nat
  rp_durationMs :: int

definition all_discrepancies :: "chain_reads \<Rightarrow> int \<Rightarrow> ReconciliationConfig \<Rightarrow> db \<Rightarrow> Discrepancy list" where
  "all_discrepancies ch now cfg d = fst (checkBalanceDiscrepancies ch now cfg d) @ fst (checkTipTotalDiscrepancies ch now cfg d) @
     fst (checkProfileFieldDiscrepancies ch now cfg d) @ fst (checkLeaderboardPositionDiscrepancies ch now cfg d)"

definition total_sampled :: "ReconciliationConfig \<Rightarrow> db \<Rightarrow> rat" where
  "total_sampled cfg d = of_nat (length (live_users d)) * rc_samplingRate cfg + of_nat (length (tips d)) * rc_samplingRate cfg"

definition reconcile :: "chain_reads \<Rightarrow> runtime \<Rightarrow> ReconciliationConfig \<Rightarrow> ReconciliationReport dbio" where
  "reconcile ch rt cfg =
     bnd (gets (all_discrepancies ch (rt_now rt) cfg)) (\<lambda>found.
     bnd (if rc_autoRepairEnabled cfg then autoRepairDiscrepancies found else ret 0) (\<lambda>repaired.
     bnd (gets (total_sampled cfg)) (\<lambda>sampled.
       ret \<lparr>rp_runId = ''recon-'' @ show_int (rt_now rt), rp_startedAt = rt_now rt, rp_completedAt = rt_now rt, rp_config = cfg,
         rp_totalSampled = \<lfloor>sampled\<rfloor>, rp_discrepanciesFound = length found,
         rp_discrepancyRate = (if 0 < sampled then of_nat (length found) / sampled else 0), rp_discrepancies = found,
         rp_autoRepaired = repaired, rp_requiresManualReview = length (filter (\<lambda>c. \<not> dc_canAutoRepair c) found),
         rp_rpcCallsMade = 0, rp_durationMs = 0\<rparr>)))"

definition runReconciliation :: "runtime \<Rightarrow> ReconciliationConfig \<Rightarrow> ReconciliationReport dbio" where
  "runReconciliation rt cfg = reconcile source_chain rt cfg"

section \<open>The bound on calls\<close>

lemma bounded_loop_Cons:
  "bounded_loop m calls f (x # xs) =
     (if m \<le> calls then ([], calls) else (f x @ fst (bounded_loop m (Suc calls) f xs), snd (bounded_loop m (Suc calls) f xs)))"
  by (cases "bounded_loop m (Suc calls) f xs") simp

lemma bounded_loop_calls: "calls \<le> m \<Longrightarrow> snd (bounded_loop m calls f xs) \<le> m"
proof (induction xs arbitrary: calls)
  case (Cons x xs)
  from Cons.IH [of "Suc calls"] Cons.prems show ?case by (simp add: bounded_loop_Cons del: bounded_loop.simps)
qed simp

lemma bounded_loop_take: "calls \<le> m \<Longrightarrow> fst (bounded_loop m calls f xs) = concat (map f (take (m - calls) xs))"
proof (induction xs arbitrary: calls)
  case (Cons x xs)
  show ?case
  proof (cases "m \<le> calls")
    case False
    then have "m - calls = Suc (m - Suc calls)" by simp
    with Cons.IH [of "Suc calls"] False show ?thesis by (simp add: bounded_loop_Cons del: bounded_loop.simps)
  next
    case True
    then show ?thesis using Cons.prems by simp
  qed
qed simp

definition calls_made :: "chain_reads \<Rightarrow> int \<Rightarrow> ReconciliationConfig \<Rightarrow> db \<Rightarrow> nat" where
  "calls_made ch now cfg d = snd (checkBalanceDiscrepancies ch now cfg d) + snd (checkTipTotalDiscrepancies ch now cfg d) +
     snd (checkProfileFieldDiscrepancies ch now cfg d) + snd (checkLeaderboardPositionDiscrepancies ch now cfg d)"

definition period_loop :: "chain_reads \<Rightarrow> int \<Rightarrow> ReconciliationConfig \<Rightarrow> db \<Rightarrow> nat \<Rightarrow> Period \<Rightarrow> Discrepancy list \<times> nat" where
  "period_loop ch now cfg d calls p = bounded_loop (rc_maxRpcCalls cfg) calls (check_position ch now d p)
     (take (sample_size (length (filter (\<lambda>s. sn_period s = p) (snapshots d))) (rc_samplingRate cfg)) (filter (\<lambda>s. sn_period s = p) (snapshots d)))"

lemma position_loop_Cons:
  "position_loop ch now cfg d calls (p # ps) =
     (fst (period_loop ch now cfg d calls p) @ fst (position_loop ch now cfg d (snd (period_loop ch now cfg d calls p)) ps),
      snd (position_loop ch now cfg d (snd (period_loop ch now cfg d calls p)) ps))"
  by (simp add: period_loop_def Let_def case_prod_beta)

lemma position_loop_calls: "calls \<le> rc_maxRpcCalls cfg \<Longrightarrow> snd (position_loop ch now cfg d calls ps) \<le> rc_maxRpcCalls cfg"
proof (induction ps arbitrary: calls)
  case (Cons p ps)
  have "snd (period_loop ch now cfg d calls p) \<le> rc_maxRpcCalls cfg"
    unfolding period_loop_def by (rule bounded_loop_calls [OF Cons.prems])
  from Cons.IH [OF this] show ?case by (simp add: position_loop_Cons del: position_loop.simps)
qed simp

text \<open>A run makes at most four times the configured calls: each of the four checks counts for itself.\<close>

lemma calls_bounded: "calls_made ch now cfg d \<le> 4 * rc_maxRpcCalls cfg"
  using bounded_loop_calls [of 0 "rc_maxRpcCalls cfg" "check_balance ch now d" "sampled_users cfg d"]
    bounded_loop_calls [of 0 "rc_maxRpcCalls cfg" "check_tip_total ch now d" "sampled_tips cfg d"]
    bounded_loop_calls [of 0 "rc_maxRpcCalls cfg" "check_profile ch now cfg" "sampled_users cfg d"]
    position_loop_calls [of 0 cfg ch now d SNAPSHOT_PERIODS]
  unfolding calls_made_def checkBalanceDiscrepancies_def checkTipTotalDiscrepancies_def checkProfileFieldDiscrepancies_def
    checkLeaderboardPositionDiscrepancies_def
  by linarith

section \<open>What is reported\<close>

text \<open>The reads of a chain that agrees with the store.\<close>

definition agrees :: "chain_reads \<Rightarrow> db \<Rightarrow> bool" where
  "agrees ch d \<longleftrightarrow> (\<forall>a. ch_balance ch a = all_received a d) \<and> (\<forall>a. ch_tipTotal ch a = all_received a d) \<and>
     (\<forall>a. ch_profile ch a = None \<or> (\<forall>u \<in> set (users d). u_address u = a \<longrightarrow> ch_profile ch a = Some (\<lambda>f. profile_field f u))) \<and>
     (\<forall>a p. ch_position ch a p = None)"

lemma concat_nothing: "(\<And>x. x \<in> set xs \<Longrightarrow> f x = []) \<Longrightarrow> concat (map f xs) = []"
  by (induction xs) auto

lemma no_rounds: "(\<And>x. f x = []) \<Longrightarrow> fst (bounded_loop m c f xs) = []"
proof (induction xs arbitrary: c)
  case (Cons x xs)
  then show ?case by (simp add: bounded_loop_Cons del: bounded_loop.simps)
qed simp

lemma no_positions: "(\<And>a p. ch_position ch a p = None) \<Longrightarrow> fst (position_loop ch now cfg d calls ps) = []"
proof (induction ps arbitrary: calls)
  case (Cons p ps)
  have "check_position ch now d p s = []" for s
    using Cons.prems by (simp add: check_position_def split: option.split)
  then have "fst (period_loop ch now cfg d calls p) = []"
    unfolding period_loop_def by (rule no_rounds)
  with Cons.IH [OF Cons.prems] show ?case by (simp add: position_loop_Cons del: position_loop.simps)
qed simp

lemma no_profiles: "(\<And>a. ch_profile ch a = None) \<Longrightarrow> fst (checkProfileFieldDiscrepancies ch now cfg d) = []"
  by (simp add: checkProfileFieldDiscrepancies_def bounded_loop_take concat_nothing check_profile_def)

text \<open>
  The reconciliation compares the store with constants: it reports every sampled user and every sampled tip whose recorded total is not
  zero, each for manual review, repairs nothing, counts no call, and changes nothing.
\<close>

theorem reconciliation_reports_every_total:
  "\<exists>report. runReconciliation rt cfg d = (Inr report, d) \<and>
     map dc_entityId (rp_discrepancies report) =
       map u_id (filter (\<lambda>u. all_received (u_address u) d \<noteq> 0) (take (rc_maxRpcCalls cfg) (sampled_users cfg d))) @
       map tip_id (filter (\<lambda>t. all_received (tip_to t) d \<noteq> 0) (take (rc_maxRpcCalls cfg) (sampled_tips cfg d))) \<and>
     rp_requiresManualReview report = rp_discrepanciesFound report \<and> rp_autoRepaired report = 0 \<and> rp_rpcCallsMade report = 0"
proof -
  have chain: "ch_balance source_chain a = 0" "ch_tipTotal source_chain a = 0" "ch_profile source_chain a = None"
      "ch_position source_chain a p = None" for a p
    by (simp_all add: source_chain_def fetchOnChainBalance_def fetchOnChainTipTotal_def fetchOnChainProfile_def
        fetchOnChainLeaderboardPosition_def)
  let ?us = "take (rc_maxRpcCalls cfg) (sampled_users cfg d)"
  let ?ts = "take (rc_maxRpcCalls cfg) (sampled_tips cfg d)"
  define found where "found = all_discrepancies source_chain (rt_now rt) cfg d"
  have found: "found = concat (map (check_balance source_chain (rt_now rt) d) ?us) @
      concat (map (check_tip_total source_chain (rt_now rt) d) ?ts)"
    by (simp add: found_def all_discrepancies_def checkBalanceDiscrepancies_def checkTipTotalDiscrepancies_def
        bounded_loop_take no_profiles chain checkLeaderboardPositionDiscrepancies_def no_positions)
  have balance_ids: "map dc_entityId (concat (map (check_balance source_chain now d) us)) =
      map u_id (filter (\<lambda>u. all_received (u_address u) d \<noteq> 0) us)" for us now
    by (induction us) (simp_all add: check_balance_def chain Let_def)
  have tip_ids: "map dc_entityId (concat (map (check_tip_total source_chain now d) ts)) =
      map tip_id (filter (\<lambda>t. all_received (tip_to t) d \<noteq> 0) ts)" for ts now
    by (induction ts) (simp_all add: check_tip_total_def chain Let_def)
  have manual: "\<not> dc_canAutoRepair c" if "c \<in> set found" for c
    using that by (auto simp: found check_balance_def check_tip_total_def Let_def split: if_splits)
  then have review: "filter (\<lambda>c. \<not> dc_canAutoRepair c) found = found" and repaired: "filter (\<lambda>c. dc_canAutoRepair c \<and> q c) found = []" for q
    by (auto simp: filter_id_conv filter_empty_conv)
  have entities: "map dc_entityId found = map u_id (filter (\<lambda>u. all_received (u_address u) d \<noteq> 0) ?us) @
      map tip_id (filter (\<lambda>t. all_received (tip_to t) d \<noteq> 0) ?ts)"
    by (simp add: found balance_ids tip_ids)
  show ?thesis
    using entities review repaired
    by (simp add: runReconciliation_def reconcile_def found_def [symmetric] autoRepairDiscrepancies_def)
qed

text \<open>With reads that agree with the store the same checks report nothing.\<close>

lemma agreeing_chain_reports_nothing:
  assumes "agrees ch d" and "\<And>a. ch_profile ch a = None"
  shows "all_discrepancies ch now cfg d = []"
  using assms
  by (simp add: all_discrepancies_def checkBalanceDiscrepancies_def checkTipTotalDiscrepancies_def bounded_loop_take
      concat_nothing check_balance_def check_tip_total_def agrees_def no_profiles checkLeaderboardPositionDiscrepancies_def no_positions)

end
