(* ===== verification/RateLimits.thy ===== *)
theory RateLimits
  imports Errors
begin

text \<open>
  The limits on requests: the fixed windows of the socket gateway (\<open>realtime/rateLimit.ts\<close>), kept in memory, and the
  sliding windows of the HTTP middleware (\<open>common/middleware/rateLimiter.ts\<close>, \<open>modules/auth/auth.rateLimit.ts\<close>), kept in
  sorted sets of the cache. Times are in milliseconds.
\<close>

section \<open>Fixed windows\<close>

record window =
  w_count :: nat
  w_resetAt :: int

type_synonym hits = "string \<Rightarrow> window option"

text \<open>One hit: whether it is let through, and the table it leaves.\<close>

definition consume :: "nat \<Rightarrow> int \<Rightarrow> int \<Rightarrow> string \<Rightarrow> hits \<Rightarrow> bool \<times> hits" where
  "consume maxHits windowMs now key h = (case h key of
       None \<Rightarrow> (True, h(key \<mapsto> \<lparr>w_count = 1, w_resetAt = now + windowMs\<rparr>))
     | Some entry \<Rightarrow>
         if w_resetAt entry \<le> now then (True, h(key \<mapsto> \<lparr>w_count = 1, w_resetAt = now + windowMs\<rparr>))
         else if maxHits \<le> w_count entry then (False, h)
         else (True, h(key \<mapsto> entry\<lparr>w_count := w_count entry + 1\<rparr>)))"

definition sweep :: "int \<Rightarrow> hits \<Rightarrow> hits" where
  "sweep now h = (\<lambda>key. case h key of None \<Rightarrow> None | Some entry \<Rightarrow> if w_resetAt entry \<le> now then None else Some entry)"

definition connectionLimiter :: "int \<Rightarrow> string \<Rightarrow> hits \<Rightarrow> bool \<times> hits" where
  "connectionLimiter = consume 20 60000"

definition eventLimiter :: "int \<Rightarrow> string \<Rightarrow> hits \<Rightarrow> bool \<times> hits" where
  "eventLimiter = consume 30 10000"

text \<open>A history of hits and sweeps with the hits that are let through.\<close>

datatype limiter_op = Hit int string | Sweep int

fun op_time :: "limiter_op \<Rightarrow> int" where
  "op_time (Hit t k) = t"
| "op_time (Sweep t) = t"

fun admitted :: "nat \<Rightarrow> int \<Rightarrow> limiter_op list \<Rightarrow> hits \<Rightarrow> (int \<times> string) list" where
  "admitted m w [] h = []"
| "admitted m w (Sweep t # ops) h = admitted m w ops (sweep t h)"
| "admitted m w (Hit t k # ops) h =
     (if fst (consume m w t k h) then [(t, k)] else []) @ admitted m w ops (snd (consume m w t k h))"

definition before :: "string \<Rightarrow> int \<Rightarrow> (int \<times> string) list \<Rightarrow> nat" where
  "before k b xs = length (filter (\<lambda>x. snd x = k \<and> fst x < b) xs)"

lemma before_simps [simp]:
  "before k b [] = 0"
  "before k b (x # xs) = (if snd x = k \<and> fst x < b then 1 else 0) + before k b xs"
  "before k b (xs @ ys) = before k b xs + before k b ys"
  by (simp_all add: before_def)

lemma admitted_later: "(t, k) \<in> set (admitted m w ops h) \<Longrightarrow> \<exists>p \<in> set ops. op_time p = t"
  by (induction m w ops h rule: admitted.induct) (auto split: if_splits)

lemma before_nothing: "(\<And>p. p \<in> set ops \<Longrightarrow> b \<le> op_time p) \<Longrightarrow> before k b (admitted m w ops h) = 0"
  by (force simp: before_def filter_empty_conv dest: admitted_later)

text \<open>Within a window that has counted \<open>c\<close> hits at most \<open>m - c\<close> more are let through.\<close>

lemma same_window:
  "sorted (map op_time ops) \<Longrightarrow> h k = Some e \<Longrightarrow> w_count e \<le> m \<Longrightarrow> b \<le> w_resetAt e \<Longrightarrow>
   before k b (admitted m w ops h) + w_count e \<le> m"
proof (induction ops arbitrary: h e)
  case (Cons p ops)
  have rest: "sorted (map op_time ops)" and later: "\<And>q. q \<in> set ops \<Longrightarrow> op_time p \<le> op_time q"
    using Cons.prems(1) by auto
  show ?case
  proof (cases "op_time p < b")
    case False
    then have "before k b (admitted m w (p # ops) h) = 0"
      using later by (intro before_nothing) force
    with Cons.prems(3) show ?thesis by simp
  next
    case True
    show ?thesis
    proof (cases p)
      case (Sweep t)
      with True Cons.prems show ?thesis by (simp add: Cons.IH [OF rest] sweep_def)
    next
      case (Hit t x)
      note IH = Cons.IH [OF rest]
      show ?thesis
      proof (cases "x = k")
        case False
        then have "snd (consume m w t x h) k = Some e"
          using Cons.prems(2) by (auto simp: consume_def split: option.split)
        from IH [of "snd (consume m w t x h)" e, OF this Cons.prems(3,4)] False Hit show ?thesis by simp
      next
        case True
        have open_now: "\<not> w_resetAt e \<le> t" using \<open>op_time p < b\<close> Cons.prems(4) Hit by simp
        show ?thesis
        proof (cases "m \<le> w_count e")
          case True
          then have "consume m w t k h = (False, h)" using open_now Cons.prems(2) by (simp add: consume_def)
          with IH [of h e, OF Cons.prems(2-4)] Hit \<open>x = k\<close> show ?thesis by simp
        next
          case False
          let ?e = "e\<lparr>w_count := w_count e + 1\<rparr>"
          have step: "consume m w t k h = (True, h(k \<mapsto> ?e))" using open_now False Cons.prems(2) by (simp add: consume_def)
          have "before k b (admitted m w ops (h(k \<mapsto> ?e))) + w_count ?e \<le> m"
            by (rule IH) (use False Cons.prems(4) in simp_all)
          with Hit \<open>x = k\<close> step show ?thesis by simp
        qed
      qed
    qed
  qed
qed simp

text \<open>From a table without a live window at most \<open>m\<close> hits are let through within one window length.\<close>

lemma fresh_window:
  "sorted (map op_time ops) \<Longrightarrow> (\<And>p. p \<in> set ops \<Longrightarrow> t0 \<le> op_time p) \<Longrightarrow> 0 < m \<Longrightarrow>
   (case h k of None \<Rightarrow> True | Some e \<Rightarrow> w_resetAt e \<le> t0) \<Longrightarrow> b \<le> t0 + w \<Longrightarrow> before k b (admitted m w ops h) \<le> m"
proof (induction ops arbitrary: h)
  case (Cons p ops)
  have rest: "sorted (map op_time ops)" using Cons.prems(1) by simp
  note IH = Cons.IH [OF rest _ Cons.prems(3) _ Cons.prems(5)]
  show ?case
  proof (cases p)
    case (Sweep t)
    have "case sweep t h k of None \<Rightarrow> True | Some e \<Rightarrow> w_resetAt e \<le> t0"
      using Cons.prems(4) by (cases "h k") (auto simp: sweep_def)
    then have "before k b (admitted m w ops (sweep t h)) \<le> m" by (intro IH) (use Cons.prems(2) in auto)
    with Sweep show ?thesis by simp
  next
    case (Hit t x)
    show ?thesis
    proof (cases "x = k")
      case False
      then have "snd (consume m w t x h) k = h k" by (auto simp: consume_def split: option.split)
      with IH [of "snd (consume m w t x h)"] Cons.prems(2,4) False Hit show ?thesis by simp
    next
      case True
      let ?e = "\<lparr>w_count = 1, w_resetAt = t + w\<rparr>"
      have t0: "t0 \<le> t" using Cons.prems(2) [of p] Hit by simp
      have step: "consume m w t k h = (True, h(k \<mapsto> ?e))"
        using Cons.prems(4) t0 by (auto simp: consume_def split: option.splits)
      have "before k b (admitted m w ops (h(k \<mapsto> ?e))) + 1 \<le> m"
        using same_window [OF rest, of "h(k \<mapsto> ?e)" k ?e m b w] Cons.prems(3,5) t0 by simp
      with Hit True step show ?thesis by simp
    qed
  qed
qed simp

text \<open>From any live window at most \<open>2 m - c\<close> are let through before a whole further window has passed.\<close>

lemma next_window:
  "sorted (map op_time ops) \<Longrightarrow> h k = Some e \<Longrightarrow> w_count e \<le> m \<Longrightarrow> 0 < m \<Longrightarrow> b \<le> w_resetAt e + w \<Longrightarrow>
   before k b (admitted m w ops h) + w_count e \<le> 2 * m"
proof (induction ops arbitrary: h e)
  case (Cons p ops)
  have rest: "sorted (map op_time ops)" and later: "\<And>q. q \<in> set (p # ops) \<Longrightarrow> op_time p \<le> op_time q"
    using Cons.prems(1) by auto
  show ?case
  proof (cases "w_resetAt e \<le> op_time p")
    case True
    have "before k b (admitted m w (p # ops) h) \<le> m"
      by (rule fresh_window [OF Cons.prems(1) later Cons.prems(4)]) (use True Cons.prems(2,5) in auto)
    with Cons.prems(3) show ?thesis by simp
  next
    case still: False
    note IH = Cons.IH [OF rest]
    show ?thesis
    proof (cases p)
      case (Sweep t)
      with still Cons.prems show ?thesis by (simp add: IH sweep_def)
    next
      case (Hit t x)
      consider (other) "x \<noteq> k" | (full) "x = k" "m \<le> w_count e" | (room) "x = k" "w_count e < m" by linarith
      then show ?thesis
      proof cases
        case other
        then have "snd (consume m w t x h) k = Some e" using Cons.prems(2) by (auto simp: consume_def split: option.split)
        from IH [of "snd (consume m w t x h)" e, OF this Cons.prems(3-5)] other Hit show ?thesis by simp
      next
        case full
        then have "consume m w t k h = (False, h)" using still Hit Cons.prems(2) by (simp add: consume_def)
        with IH [of h e, OF Cons.prems(2-5)] Hit full show ?thesis by simp
      next
        case room
        let ?e = "e\<lparr>w_count := w_count e + 1\<rparr>"
        have step: "consume m w t k h = (True, h(k \<mapsto> ?e))" using still Hit room Cons.prems(2) by (simp add: consume_def)
        have "before k b (admitted m w ops (h(k \<mapsto> ?e))) + w_count ?e \<le> 2 * m"
          by (rule IH) (use room Cons.prems(4,5) in simp_all)
        with Hit room step show ?thesis by simp
      qed
    qed
  qed
qed simp

definition counts_ok :: "nat \<Rightarrow> hits \<Rightarrow> bool" where
  "counts_ok m h \<longleftrightarrow> (\<forall>k e. h k = Some e \<longrightarrow> w_count e \<le> m)"

lemma counts_consume: "counts_ok m h \<Longrightarrow> 0 < m \<Longrightarrow> counts_ok m (snd (consume m w t k h))"
  by (auto simp: counts_ok_def consume_def split: option.splits if_splits)

lemma counts_sweep: "counts_ok m h \<Longrightarrow> counts_ok m (sweep t h)"
  by (simp add: counts_ok_def sweep_def split: option.split)

definition inside :: "string \<Rightarrow> int \<Rightarrow> int \<Rightarrow> (int \<times> string) list \<Rightarrow> nat" where
  "inside k a b xs = length (filter (\<lambda>x. snd x = k \<and> a \<le> fst x \<and> fst x < b) xs)"

lemma filtered_le: "(\<And>x. p x \<Longrightarrow> q x) \<Longrightarrow> length (filter p xs) \<le> length (filter q xs)"
  by (induction xs) (auto intro: le_SucI)

lemma inside_before: "(\<And>p. p \<in> set ops \<Longrightarrow> a \<le> op_time p) \<Longrightarrow> inside k a b (admitted m w ops h) \<le> before k b (admitted m w ops h)"
  unfolding inside_def before_def by (rule filtered_le) auto

lemma window_bound:
  "sorted (map op_time ops) \<Longrightarrow> counts_ok m h \<Longrightarrow> 0 < m \<Longrightarrow> inside k a (a + w) (admitted m w ops h) \<le> 2 * m"
proof (induction ops arbitrary: h)
  case Nil
  then show ?case by (simp add: inside_def)
next
  case (Cons p ops)
  show ?case
  proof (cases "a \<le> op_time p")
    case False
    have "inside k a (a + w) (admitted m w (p # ops) h) =
        inside k a (a + w) (admitted m w ops (case p of Hit t x \<Rightarrow> snd (consume m w t x h) | Sweep t \<Rightarrow> sweep t h))"
      using False by (auto simp: inside_def split: limiter_op.split)
    with Cons.IH [of "case p of Hit t x \<Rightarrow> snd (consume m w t x h) | Sweep t \<Rightarrow> sweep t h"] Cons.prems counts_consume counts_sweep
    show ?thesis by (simp split: limiter_op.splits)
  next
    case True
    have all: "\<And>q. q \<in> set (p # ops) \<Longrightarrow> a \<le> op_time q" using True Cons.prems(1) by auto
    note le = inside_before [OF all, of "p # ops" k "a + w" m w h]
    show ?thesis
    proof (cases "h k")
      case None
      with fresh_window [where h = h and k = k and b = "a + w" and w = w, OF Cons.prems(1) all Cons.prems(3)] le show ?thesis by simp
    next
      case (Some e)
      have e: "w_count e \<le> m" using Cons.prems(2) Some by (simp add: counts_ok_def)
      show ?thesis
      proof (cases "w_resetAt e \<le> a")
        case True
        with fresh_window [where h = h and k = k and b = "a + w" and w = w, OF Cons.prems(1) all Cons.prems(3)] le Some show ?thesis by simp
      next
        case False
        with next_window [where b = "a + w" and w = w and h = h and k = k and e = e, OF Cons.prems(1) Some e Cons.prems(3)] le show ?thesis by simp
      qed
    qed
  qed
qed

text \<open>
  The limiter is a fixed window: in any stretch of time as long as the window, wherever it starts, at most twice the maximum of hits
  of one key is let through, whatever the other keys do and whenever expired entries are swept.
\<close>

theorem fixed_window_bound:
  assumes "sorted (map op_time ops)" and "0 < m"
  shows "inside k a (a + w) (admitted m w ops Map.empty) \<le> 2 * m"
  using window_bound [OF assms(1) _ assms(2), of Map.empty k a w] by (simp add: counts_ok_def)

section \<open>Sorted sets of the cache\<close>

text \<open>
  A key holds the scores of its members and the time at which it expires. The members are written with a random part, so each write
  adds one.
\<close>

type_synonym zsets = "string \<Rightarrow> (int list \<times> int option) option"

definition scores_at :: "int \<Rightarrow> string \<Rightarrow> zsets \<Rightarrow> int list" where
  "scores_at now key z = (case z key of None \<Rightarrow> [] | Some (ss, e) \<Rightarrow> if some_with (\<lambda>t. t < now) e then [] else ss)"

definition expiry_at :: "int \<Rightarrow> string \<Rightarrow> zsets \<Rightarrow> int option" where
  "expiry_at now key z = (case z key of None \<Rightarrow> None | Some (ss, e) \<Rightarrow> if some_with (\<lambda>t. t < now) e then None else e)"

definition zcount :: "int \<Rightarrow> string \<Rightarrow> int \<Rightarrow> int \<Rightarrow> zsets \<Rightarrow> nat" where
  "zcount now key lo hi z = length (filter (\<lambda>s. lo \<le> s \<and> s \<le> hi) (scores_at now key z))"

definition zadd :: "int \<Rightarrow> string \<Rightarrow> int \<Rightarrow> zsets \<Rightarrow> zsets" where
  "zadd now key score z = z(key \<mapsto> (score # scores_at now key z, expiry_at now key z))"

definition expire :: "int \<Rightarrow> string \<Rightarrow> int \<Rightarrow> zsets \<Rightarrow> zsets" where
  "expire now key seconds z = (case z key of None \<Rightarrow> z | Some (ss, e) \<Rightarrow> z(key \<mapsto> (ss, Some (now + seconds * 1000))))"

definition ceil_seconds :: "int \<Rightarrow> int" where
  "ceil_seconds ms = - ((- ms) div 1000)"

text \<open>The commands that fail, and how.\<close>

type_synonym faults = "string \<Rightarrow> jsval option"

definition command :: "faults \<Rightarrow> string \<Rightarrow> (zsets, jsval, 'a) io \<Rightarrow> (zsets, jsval, 'a) io" where
  "command faults name m = (case faults name of Some e \<Rightarrow> throw e | None \<Rightarrow> m)"

section \<open>The limiter of the sign-in routes\<close>

definition checkAndIncrement :: "faults \<Rightarrow> int \<Rightarrow> string \<Rightarrow> int \<Rightarrow> int \<Rightarrow> (zsets, jsval, bool \<times> int) io" where
  "checkAndIncrement faults now key windowMs maxRequests =
     bnd (command faults ''zcount'' (gets (zcount now key (now - windowMs) now))) (\<lambda>count.
       if maxRequests \<le> int count then ret (False, 0)
       else andthen (command faults ''zadd'' (modify (zadd now key now)))
            (andthen (command faults ''expire'' (modify (expire now key (ceil_seconds windowMs))))
            (ret (True, maxRequests - int count - 1))))"

record http_client =
  hc_ip :: "string option"
  hc_remote :: "string option"
  hc_body :: jsval
  hc_method :: string
  hc_path :: string
  hc_auth :: "string option"
  hc_user :: "string option"

definition first_truthy :: "string option \<Rightarrow> string option \<Rightarrow> string \<Rightarrow> string" where
  "first_truthy x y z = (if x \<noteq> None \<and> x \<noteq> Some [] then the x else if y \<noteq> None \<and> y \<noteq> Some [] then the y else z)"

definition getIp :: "http_client \<Rightarrow> string" where
  "getIp req = first_truthy (hc_ip req) (hc_remote req) ''unknown''"

definition getAddressFromBody :: "http_client \<Rightarrow> string option" where
  "getAddressFromBody req = (case get_prop (hc_body req) ''stellarAddress'' of JStr s \<Rightarrow> if s \<noteq> [] then Some s else None | _ \<Rightarrow> None)"

definition ip_key :: "http_client \<Rightarrow> string" where
  "ip_key req = ''rl:auth:ip:'' @ getIp req"

definition address_key :: "string \<Rightarrow> string" where
  "address_key a = ''rl:auth:addr:'' @ a"

text \<open>A middleware calls the next handler, with the response headers it has set, or passes an error on.\<close>

datatype verdict = Next "(string \<times> string) list" | Fail jsval

definition limit_headers :: "int \<Rightarrow> int \<Rightarrow> (string \<times> string) list" where
  "limit_headers maxPerIp remaining = [(''X-RateLimit-Limit'', show_int maxPerIp), (''X-RateLimit-Remaining'', show_int remaining)]"

definition check_address :: "faults \<Rightarrow> int \<Rightarrow> int \<Rightarrow> int \<Rightarrow> string option \<Rightarrow> (zsets, jsval, (string \<times> string) list) io" where
  "check_address faults now windowMs maxPerAddress address = (case address of
       None \<Rightarrow> ret []
     | Some a \<Rightarrow> bnd (checkAndIncrement faults now (address_key a) windowMs maxPerAddress) (\<lambda>addrCheck.
         andthen (throw_unless (fst addrCheck) (too_many_requests ''Rate limit exceeded''))
         (ret [(''X-RateLimit-Address-Remaining'', show_int (snd addrCheck))])))"

definition createAuthRateLimiter :: "faults \<Rightarrow> int \<Rightarrow> int \<Rightarrow> int \<Rightarrow> int \<Rightarrow> http_client \<Rightarrow> (zsets, jsval, verdict) io" where
  "createAuthRateLimiter faults now windowMs maxPerIp maxPerAddress req =
     try_catch
       (bnd (checkAndIncrement faults now (ip_key req) windowMs maxPerIp) (\<lambda>ipCheck.
        andthen (throw_unless (fst ipCheck) (too_many_requests ''Rate limit exceeded''))
        (bnd (check_address faults now windowMs maxPerAddress (getAddressFromBody req)) (\<lambda>headers.
        ret (Next (headers @ limit_headers maxPerIp (snd ipCheck)))))))
       (\<lambda>e. ret (Fail e))"

text \<open>The router puts the limiter before all of its routes, and once more before the challenge and verification routes.\<close>

definition challenge_route :: "faults \<Rightarrow> int \<Rightarrow> int \<Rightarrow> int \<Rightarrow> int \<Rightarrow> http_client \<Rightarrow> (zsets, jsval, verdict) io" where
  "challenge_route faults now windowMs maxPerIp maxPerAddress req =
     bnd (createAuthRateLimiter faults now windowMs maxPerIp maxPerAddress req) (\<lambda>v. case v of
         Fail e \<Rightarrow> ret (Fail e)
       | Next hs \<Rightarrow> createAuthRateLimiter faults now windowMs maxPerIp maxPerAddress req)"

section \<open>The limiter of the application\<close>

record RateLimitConfig =
  rl_windowMs :: int
  rl_maxRequests :: int
  rl_keyPrefix :: string
  rl_methods :: "string list option"
  rl_skip :: "http_client \<Rightarrow> bool"

definition DEFAULT_RATE_CONFIG :: RateLimitConfig where
  "DEFAULT_RATE_CONFIG = \<lparr>rl_windowMs = 15 * 60 * 1000, rl_maxRequests = 100, rl_keyPrefix = ''rl:'', rl_methods = None, rl_skip = (\<lambda>_. False)\<rparr>"

definition nullish_text :: "string option \<Rightarrow> string option \<Rightarrow> string option" where
  "nullish_text x y = (case x of None \<Rightarrow> y | Some s \<Rightarrow> Some s)"

definition subject_of :: "http_client \<Rightarrow> string" where
  "subject_of req = (case nullish_text (hc_auth req) (hc_user req) of
       None \<Rightarrow> ''ip:'' @ getIp req
     | Some i \<Rightarrow> if i = [] then ''ip:'' @ getIp req else ''user:'' @ i)"

definition limiter_key :: "RateLimitConfig \<Rightarrow> http_client \<Rightarrow> string" where
  "limiter_key cfg req = rl_keyPrefix cfg @ subject_of req"

definition not_limited :: "RateLimitConfig \<Rightarrow> http_client \<Rightarrow> bool" where
  "not_limited cfg req \<longleftrightarrow> some_with (\<lambda>ms. hc_method req \<notin> set ms) (rl_methods cfg) \<or> rl_skip cfg req"

definition rate_headers :: "RateLimitConfig \<Rightarrow> int \<Rightarrow> nat \<Rightarrow> (string \<times> string) list" where
  "rate_headers cfg now count =
     (let limit = show_int (rl_maxRequests cfg);
          remaining = show_int (max 0 (rl_maxRequests cfg - int count - 1));
          reset = show_int (ceil_seconds (now - rl_windowMs cfg + rl_windowMs cfg))
      in [(''RateLimit-Limit'', limit), (''RateLimit-Remaining'', remaining), (''RateLimit-Reset'', reset),
          (''X-RateLimit-Limit'', limit), (''X-RateLimit-Remaining'', remaining), (''X-RateLimit-Reset'', reset)])"

definition createRateLimiter :: "bool \<Rightarrow> RateLimitConfig \<Rightarrow> faults \<Rightarrow> int \<Rightarrow> http_client \<Rightarrow> (zsets, jsval, verdict) io" where
  "createRateLimiter testEnv cfg faults now req =
     (if testEnv \<or> not_limited cfg req then ret (Next [])
      else try_catch
        (bnd (command faults ''zcount'' (gets (zcount now (limiter_key cfg req) (now - rl_windowMs cfg) now))) (\<lambda>count.
         andthen (throw_unless (\<not> rl_maxRequests cfg \<le> int count) (too_many_requests ''Rate limit exceeded''))
         (andthen (command faults ''zadd'' (modify (zadd now (limiter_key cfg req) now)))
         (andthen (command faults ''expire'' (modify (expire now (limiter_key cfg req) (ceil_seconds (rl_windowMs cfg)))))
         (ret (Next (rate_headers cfg now count)))))))
        (\<lambda>e. ret (Fail e)))"

definition is_health :: "http_client \<Rightarrow> bool" where
  "is_health req \<longleftrightarrow> hc_path req = ''/health'' \<or> suffix ''/health'' (hc_path req)"

definition globalRateLimiter :: RateLimitConfig where
  "globalRateLimiter = DEFAULT_RATE_CONFIG\<lparr>rl_windowMs := 15 * 60 * 1000, rl_maxRequests := 1000, rl_keyPrefix := ''rl:global:'', rl_skip := is_health\<rparr>"

definition mutationRateLimiter :: RateLimitConfig where
  "mutationRateLimiter = DEFAULT_RATE_CONFIG\<lparr>rl_windowMs := 60 * 1000, rl_maxRequests := 120, rl_keyPrefix := ''rl:mutation:'',
     rl_methods := Some [''POST'', ''PUT'', ''PATCH'', ''DELETE''], rl_skip := is_health\<rparr>"

definition searchRateLimiter :: RateLimitConfig where
  "searchRateLimiter = DEFAULT_RATE_CONFIG\<lparr>rl_windowMs := 60 * 1000, rl_maxRequests := 120, rl_keyPrefix := ''rl:search:''\<rparr>"

definition ipfsUploadRateLimiter :: RateLimitConfig where
  "ipfsUploadRateLimiter = DEFAULT_RATE_CONFIG\<lparr>rl_windowMs := 60 * 1000, rl_maxRequests := 20, rl_keyPrefix := ''rl:ipfs-upload:''\<rparr>"

definition authRateLimiter :: RateLimitConfig where
  "authRateLimiter = DEFAULT_RATE_CONFIG\<lparr>rl_windowMs := 60 * 1000, rl_maxRequests := 30, rl_keyPrefix := ''rl:auth:''\<rparr>"

section \<open>The bound of a sliding window\<close>

definition write_slot :: "int \<Rightarrow> string \<Rightarrow> int \<Rightarrow> zsets \<Rightarrow> zsets" where
  "write_slot now key windowMs z = expire now key (ceil_seconds windowMs) (zadd now key now z)"

definition slots :: "int \<Rightarrow> string \<Rightarrow> int \<Rightarrow> zsets \<Rightarrow> nat" where
  "slots now key windowMs z = zcount now key (now - windowMs) now z"

lemma no_faults [simp]: "command (\<lambda>_. None) name m = m"
  by (simp add: command_def)

lemma too_many_neq [simp]: "Fail (too_many_requests s) \<noteq> Next hs"
  by simp

lemma limiter_run:
  "createRateLimiter False cfg (\<lambda>_. None) now req z =
     (if not_limited cfg req then (Inr (Next []), z)
      else if rl_maxRequests cfg \<le> int (slots now (limiter_key cfg req) (rl_windowMs cfg) z)
      then (Inr (Fail (too_many_requests ''Rate limit exceeded'')), z)
      else (Inr (Next (rate_headers cfg now (slots now (limiter_key cfg req) (rl_windowMs cfg) z))),
            write_slot now (limiter_key cfg req) (rl_windowMs cfg) z))"
  by (simp add: createRateLimiter_def slots_def write_slot_def throw_unless_def try_catch_run)

text \<open>A history of limited requests with the times and keys of those that pass.\<close>

fun passed :: "RateLimitConfig \<Rightarrow> (int \<times> http_client) list \<Rightarrow> zsets \<Rightarrow> (int \<times> string) list" where
  "passed cfg [] z = []"
| "passed cfg ((now, req) # reqs) z =
     (case createRateLimiter False cfg (\<lambda>_. None) now req z of
        (Inr (Next hs), z') \<Rightarrow> (if not_limited cfg req then [] else [(now, limiter_key cfg req)]) @ passed cfg reqs z'
      | (r, z') \<Rightarrow> passed cfg reqs z')"

text \<open>The scores stored for a key are, as far as a later window sees them, the times recorded for it.\<close>

definition tracks :: "int \<Rightarrow> int \<Rightarrow> string \<Rightarrow> int list \<Rightarrow> zsets \<Rightarrow> bool" where
  "tracks w now k ts z \<longleftrightarrow> (\<forall>t \<ge> now. filter (\<lambda>s. t - w \<le> s) (scores_at t k z) = filter (\<lambda>s. t - w \<le> s) ts) \<and> (\<forall>s \<in> set ts. s \<le> now)"

lemma tracks_empty: "tracks w now k [] Map.empty"
  by (simp add: tracks_def scores_at_def)

lemma ceil_seconds_ge: "w \<le> ceil_seconds w * 1000"
  using div_mult_mod_eq [of "- w" 1000] pos_mod_sign [of 1000 "- w"] unfolding ceil_seconds_def by linarith

lemma tracks_later: "tracks w now k ts z \<Longrightarrow> now \<le> now' \<Longrightarrow> tracks w now' k ts z"
  by (force simp: tracks_def)

lemma write_slot_scores: "k \<noteq> k' \<Longrightarrow> scores_at t' k (write_slot t k' w' z) = scores_at t' k z"
  by (simp add: scores_at_def write_slot_def expire_def zadd_def)

lemma tracks_other: "k \<noteq> k' \<Longrightarrow> tracks w now k ts (write_slot t k' w' z) = tracks w now k ts z"
  by (simp add: tracks_def write_slot_scores)

lemma slots_tracked: "tracks w now k ts z \<Longrightarrow> slots now k w z = length (filter (\<lambda>s. now - w \<le> s) ts)"
proof -
  assume tr: "tracks w now k ts z"
  have same: "filter (\<lambda>s. now - w \<le> s) (scores_at now k z) = filter (\<lambda>s. now - w \<le> s) ts" using tr by (simp add: tracks_def)
  have "filter (\<lambda>s. now - w \<le> s \<and> s \<le> now) (scores_at now k z) = filter (\<lambda>s. s \<le> now) (filter (\<lambda>s. now - w \<le> s) (scores_at now k z))"
    by (simp add: conj_commute)
  also have "\<dots> = filter (\<lambda>s. now - w \<le> s) ts"
    using tr by (auto simp: same tracks_def intro!: filter_cong)
  finally show ?thesis by (simp add: slots_def zcount_def)
qed

lemma tracks_write: "tracks w now k ts z \<Longrightarrow> tracks w now k (now # ts) (write_slot now k w z)"
proof -
  assume tr: "tracks w now k ts z"
  let ?z = "write_slot now k w z"
  have entry: "?z k = Some (now # scores_at now k z, Some (now + ceil_seconds w * 1000))"
    by (simp add: write_slot_def expire_def zadd_def)
  have "filter (\<lambda>s. t - w \<le> s) (scores_at t k ?z) = filter (\<lambda>s. t - w \<le> s) (now # ts)" if t: "now \<le> t" for t
  proof (cases "now + ceil_seconds w * 1000 < t")
    case True
    then have "s < t - w" if "s \<in> set (now # ts)" for s
      using that tr ceil_seconds_ge [of w] by (force simp: tracks_def)
    then have none: "filter (\<lambda>s. t - w \<le> s) (now # ts) = []" by (auto simp: filter_empty_conv not_le)
    have "scores_at t k ?z = []" using True by (simp add: scores_at_def entry)
    then show ?thesis by (simp only: none filter.simps(1))
  next
    case False
    have "filter (\<lambda>s. t - w \<le> s) (filter (\<lambda>s. now - w \<le> s) (scores_at now k z)) = filter (\<lambda>s. t - w \<le> s) (filter (\<lambda>s. now - w \<le> s) ts)"
      using tr by (simp only: tracks_def)
    moreover have "filter (\<lambda>s. t - w \<le> s) (filter (\<lambda>s. now - w \<le> s) xs) = filter (\<lambda>s. t - w \<le> s) xs" for xs :: "int list"
      using t by (auto simp: filter_filter intro!: filter_cong)
    ultimately have "filter (\<lambda>s. t - w \<le> s) (scores_at now k z) = filter (\<lambda>s. t - w \<le> s) ts" by simp
    then show ?thesis using False by (simp add: scores_at_def entry)
  qed
  with tr show ?thesis by (auto simp: tracks_def)
qed

definition in_window :: "string \<Rightarrow> int \<Rightarrow> int \<Rightarrow> (int \<times> string) list \<Rightarrow> nat" where
  "in_window k a b xs = length (filter (\<lambda>x. snd x = k \<and> a \<le> fst x \<and> fst x \<le> b) xs)"

lemma passed_Cons:
  "passed cfg ((now, req) # reqs) z =
     (if not_limited cfg req then passed cfg reqs z
      else if rl_maxRequests cfg \<le> int (slots now (limiter_key cfg req) (rl_windowMs cfg) z) then passed cfg reqs z
      else (now, limiter_key cfg req) # passed cfg reqs (write_slot now (limiter_key cfg req) (rl_windowMs cfg) z))"
  by (simp add: limiter_run)

declare passed.simps(2) [simp del]

lemma passed_times: "y \<in> set (passed cfg reqs z) \<Longrightarrow> \<exists>x \<in> set reqs. fst x = fst y"
proof (induction reqs arbitrary: z)
  case (Cons x reqs)
  then show ?case by (cases x) (auto simp: passed_Cons split: if_splits)
qed simp

lemma outside_window: "(\<And>x. x \<in> set reqs \<Longrightarrow> b < fst x) \<Longrightarrow> in_window k a b (passed cfg reqs z) = 0"
  by (force simp: in_window_def filter_empty_conv dest: passed_times)

text \<open>Requests from time \<open>a\<close> on fill the window that begins there up to the maximum.\<close>

lemma sliding_step:
  assumes "sorted (map fst reqs)" and "\<forall>x \<in> set reqs. now \<le> fst x" and "tracks (rl_windowMs cfg) now k ts z"
    and "int (length (filter (\<lambda>s. a \<le> s) ts)) \<le> rl_maxRequests cfg"
  shows "int (in_window k a (a + rl_windowMs cfg) (passed cfg reqs z)) + int (length (filter (\<lambda>s. a \<le> s) ts)) \<le> rl_maxRequests cfg"
  using assms
proof (induction reqs arbitrary: now ts z)
  case Nil
  then show ?case by (simp add: in_window_def)
next
  case (Cons x reqs)
  obtain t req where x: "x = (t, req)" by fastforce
  have now: "now \<le> t" and rest: "sorted (map fst reqs)" "\<forall>y \<in> set reqs. t \<le> fst y"
    using Cons.prems(1,2) x by auto
  let ?k = "limiter_key cfg req" and ?w = "rl_windowMs cfg"
  have tr: "tracks ?w t k ts z" by (rule tracks_later [OF Cons.prems(3) now])
  consider (free) "not_limited cfg req" | (full) "\<not> not_limited cfg req" "rl_maxRequests cfg \<le> int (slots t ?k ?w z)" | (other) "\<not> not_limited cfg req" "slots t ?k ?w z < rl_maxRequests cfg" "?k \<noteq> k"
    | (mine) "\<not> not_limited cfg req" "slots t ?k ?w z < rl_maxRequests cfg" "?k = k" by linarith
  then show ?case
  proof cases
    case free
    with Cons.IH [OF rest tr Cons.prems(4)] x show ?thesis by (simp add: passed_Cons)
  next
    case full
    with Cons.IH [OF rest tr Cons.prems(4)] x show ?thesis by (simp add: passed_Cons)
  next
    case other
    have "tracks ?w t k ts (write_slot t ?k ?w z)" using tr other(3) by (simp add: tracks_other)
    from Cons.IH [OF rest this Cons.prems(4)] other x show ?thesis
      by (simp add: passed_Cons in_window_def)
  next
    case mine
    have tr': "tracks ?w t k (t # ts) (write_slot t k ?w z)" by (rule tracks_write [OF tr])
    show ?thesis
    proof (cases "a \<le> t \<and> t \<le> a + ?w")
      case True
      have "length (filter (\<lambda>s. a \<le> s) ts) \<le> length (filter (\<lambda>s. t - ?w \<le> s) ts)"
        by (rule filtered_le) (use True in simp)
      then have "length (filter (\<lambda>s. a \<le> s) ts) < rl_maxRequests cfg" using mine slots_tracked [OF tr] by simp
      then have "int (length (filter (\<lambda>s. a \<le> s) (t # ts))) \<le> rl_maxRequests cfg" by simp
      from Cons.IH [OF rest tr' this] True mine x show ?thesis by (simp add: passed_Cons in_window_def)
    next
      case False
      show ?thesis
      proof (cases "a \<le> t")
        case True
        then have "a + ?w < t" using False by simp
        then have "in_window k a (a + ?w) (passed cfg (x # reqs) z) = 0"
          using rest(2) x by (intro outside_window) auto
        with Cons.prems(4) show ?thesis by simp
      next
        case False
        then have "int (length (filter (\<lambda>s. a \<le> s) (t # ts))) \<le> rl_maxRequests cfg" using Cons.prems(4) by simp
        from Cons.IH [OF rest tr' this] False mine x show ?thesis by (simp add: passed_Cons in_window_def)
      qed
    qed
  qed
qed


text \<open>The time of the reset that a response announces is the time of the response.\<close>

lemma reset_is_now: "map_of (rate_headers cfg now count) ''RateLimit-Reset'' = Some (show_int (ceil_seconds now))"
  by (simp add: rate_headers_def Let_def)

section \<open>The sign-in routes count twice\<close>

lemma check_run:
  "checkAndIncrement (\<lambda>_. None) now key w m z =
     (if m \<le> int (slots now key w z) then (Inr (False, 0), z)
      else (Inr (True, m - int (slots now key w z) - 1), write_slot now key w z))"
  by (simp add: checkAndIncrement_def slots_def write_slot_def)

lemma slots_write: "0 \<le> w \<Longrightarrow> slots now key w (write_slot now key w z) = Suc (slots now key w z)"
  using ceil_seconds_ge [of w] by (simp add: slots_def zcount_def write_slot_def expire_def zadd_def scores_at_def [of now key "z(_ \<mapsto> _)"] scores_at_def [of now key "_(key \<mapsto> _)"])

lemma slots_other: "k \<noteq> k' \<Longrightarrow> slots now k w (write_slot now k' w z) = slots now k w z"
  by (simp add: slots_def zcount_def write_slot_scores)

lemma keys_differ [simp]: "address_key a \<noteq> ip_key req" "ip_key req \<noteq> address_key a"
  by (simp_all add: address_key_def ip_key_def)

lemma check_address_run:
  "check_address (\<lambda>_. None) now w m (Some a) z =
     (if m \<le> int (slots now (address_key a) w z) then (Inl (too_many_requests ''Rate limit exceeded''), z)
      else (Inr [(''X-RateLimit-Address-Remaining'', show_int (m - int (slots now (address_key a) w z) - 1))], write_slot now (address_key a) w z))"
  by (simp add: check_address_def bnd_def [of "checkAndIncrement f n k v m" for f n k v m] check_run throw_unless_def)

lemma auth_limiter_run:
  assumes "getAddressFromBody req = Some a"
  shows "createAuthRateLimiter (\<lambda>_. None) now w mi ma req z =
    (if mi \<le> int (slots now (ip_key req) w z) then (Inr (Fail (too_many_requests ''Rate limit exceeded'')), z)
     else if ma \<le> int (slots now (address_key a) w z)
     then (Inr (Fail (too_many_requests ''Rate limit exceeded'')), write_slot now (ip_key req) w z)
     else (Inr (Next ((''X-RateLimit-Address-Remaining'', show_int (ma - int (slots now (address_key a) w z) - 1)) #
               limit_headers mi (mi - int (slots now (ip_key req) w z) - 1))),
           write_slot now (address_key a) w (write_slot now (ip_key req) w z)))"
  by (simp add: createAuthRateLimiter_def assms try_catch_run check_run check_address_run bnd_def [of "checkAndIncrement f n k v m" for f n k v m]
      bnd_def [of "check_address f n v m x" for f n v m x] slots_other throw_unless_def)

text \<open>
  A challenge or verification with an address passes its route exactly when two more requests fit below both maxima: every such
  request is counted twice, so the limits let through half of what they say.
\<close>

theorem challenge_counts_twice:
  assumes "0 \<le> w" and "getAddressFromBody req = Some a"
  shows "(\<exists>hs z'. challenge_route (\<lambda>_. None) now w maxPerIp maxPerAddress req z = (Inr (Next hs), z')) \<longleftrightarrow>
    int (slots now (ip_key req) w z) + 2 \<le> maxPerIp \<and> int (slots now (address_key a) w z) + 2 \<le> maxPerAddress"
  by (simp add: challenge_route_def bnd_def [of "createAuthRateLimiter f n v x y r" for f n v x y r] auth_limiter_run [OF assms(2)]
      slots_write [OF assms(1)] slots_other)

section \<open>Examples\<close>

definition burst :: "limiter_op list" where
  "burst = [Hit 0 ''s'', Hit 9000 ''s'', Sweep 9500, Hit 9600 ''s'', Hit 10000 ''s'', Hit 10001 ''s'', Hit 10002 ''s'']"

lemma fixed_window_bound_witness:
  "inside ''s'' 9000 (9000 + 10000) (admitted 2 10000 burst Map.empty) \<le> 2 * 2 \<and>
   inside ''s'' 9000 (9000 + 10000) (admitted 2 10000 burst Map.empty) = 3"
proof
  show "inside ''s'' 9000 (9000 + 10000) (admitted 2 10000 burst Map.empty) \<le> 2 * 2"
    by (rule fixed_window_bound) (simp_all add: burst_def)
  show "inside ''s'' 9000 (9000 + 10000) (admitted 2 10000 burst Map.empty) = 3"
    by (simp add: burst_def consume_def sweep_def inside_def)
qed

definition demo_client :: http_client where
  "demo_client = \<lparr>hc_ip = Some ''10.0.0.1'', hc_remote = None, hc_body = JObj PlainObject [(''stellarAddress'', JStr ''GA'')],
     hc_method = ''POST'', hc_path = ''/auth/challenge'', hc_auth = None, hc_user = None\<rparr>"

definition two_a_minute :: RateLimitConfig where
  "two_a_minute = mutationRateLimiter\<lparr>rl_maxRequests := 2\<rparr>"

definition demo_requests :: "(int \<times> http_client) list" where
  "demo_requests = [(0, demo_client), (1000, demo_client), (60000, demo_client), (60001, demo_client)]"


lemma challenge_counts_twice_witness:
  "\<not> (\<exists>hs z'. challenge_route (\<lambda>_. None) 0 60000 30 1 demo_client Map.empty = (Inr (Next hs), z'))"
  using challenge_counts_twice [of 60000 demo_client "''GA''" 0 30 1 Map.empty]
  by (simp add: demo_client_def getAddressFromBody_def slots_def zcount_def scores_at_def)

end
