(* ===== verification/AccessTokens.thy ===== *)
theory AccessTokens
  imports Sessions
begin

text \<open>
  Access tokens: the set of signing keys and its rotation (\<open>modules/auth/jwt.ts\<close>), the middleware that checks tokens, roles and
  scopes (\<open>modules/auth/auth.middleware.ts\<close>) and the handshake of the sockets (\<open>realtime/auth.ts\<close>). The JWT library and
  the JSON parser are parameters; tokens have a type of their own.
\<close>

section \<open>Parameters\<close>

datatype jwt_failure = TokenExpired | TokenInvalid

record token_claims =
  cl_payload :: AuthPayload
  cl_sub :: "string option"
  cl_exp :: "jsnum option"

record 'tok jwt_lib =
  jl_sign :: "int \<Rightarrow> AuthPayload \<Rightarrow> string \<Rightarrow> string \<Rightarrow> 'tok"
  jl_decode :: "'tok \<Rightarrow> unit + string option"
  jl_verify :: "int \<Rightarrow> 'tok \<Rightarrow> string \<Rightarrow> jwt_failure + token_claims"
  jl_json :: "string \<Rightarrow> jsval option"

record jwt_env =
  je_JWT_SECRET :: string
  je_JWT_SECRETS :: "string option"
  je_JWT_CURRENT_KID :: "string option"

section \<open>The key set\<close>

type_synonym key_map = "(string \<times> string) list"

record JwtKeySet =
  jk_keys :: key_map
  jk_currentKid :: string

text \<open>\<open>Map.set\<close>: a key that is present keeps its place.\<close>

fun set_key :: "string \<Rightarrow> string \<Rightarrow> key_map \<Rightarrow> key_map" where
  "set_key k v [] = [(k, v)]"
| "set_key k v (x # xs) = (if fst x = k then (k, v) # xs else x # set_key k v xs)"

definition add_key :: "string \<Rightarrow> string \<Rightarrow> key_map \<Rightarrow> key_map" where
  "add_key kid secret ks = (if js_trim kid \<noteq> [] \<and> js_trim secret \<noteq> [] then set_key (js_trim kid) (js_trim secret) ks else ks)"

definition json_entry :: "jsval \<Rightarrow> key_map \<Rightarrow> key_map" where
  "json_entry e ks = (case (get_prop e ''kid'', get_prop e ''secret'') of (JStr kid, JStr secret) \<Rightarrow> add_key kid secret ks | _ \<Rightarrow> ks)"

definition json_field :: "string \<times> jsval \<Rightarrow> key_map \<Rightarrow> key_map" where
  "json_field f ks = (case snd f of JStr secret \<Rightarrow> add_key (fst f) secret ks | _ \<Rightarrow> ks)"

text \<open>The keys of a JSON text, or none when it is neither an array nor an object.\<close>

definition json_keys :: "jsval option \<Rightarrow> key_map option" where
  "json_keys json = (case json of
       Some (JArr es) \<Rightarrow> Some (fold json_entry es [])
     | Some (JObj c fs) \<Rightarrow> Some (fold json_field fs [])
     | _ \<Rightarrow> None)"

definition csv_part :: "string \<Rightarrow> key_map \<Rightarrow> key_map" where
  "csv_part part ks = (let kid = takeWhile (\<lambda>c. c \<noteq> CHR '':'') part; rest = dropWhile (\<lambda>c. c \<noteq> CHR '':'') part
     in if rest = [] \<or> kid = [] then ks else add_key kid (tl rest) ks)"

definition csv_keys :: "string \<Rightarrow> key_map" where
  "csv_keys raw = fold csv_part (filter (\<lambda>s. s \<noteq> []) (map js_trim (split_on (CHR '','') raw))) []"

definition single_secret :: "jwt_env \<Rightarrow> JwtKeySet" where
  "single_secret env = \<lparr>jk_keys = [(''primary'', je_JWT_SECRET env)], jk_currentKid = ''primary''\<rparr>"

definition current_of :: "jwt_env \<Rightarrow> key_map \<Rightarrow> string" where
  "current_of env ks = (case map_option js_trim (je_JWT_CURRENT_KID env) of
       None \<Rightarrow> fst (last ks)
     | Some kid \<Rightarrow> if kid = [] then fst (last ks) else if kid \<notin> fst ` set ks then fst (last ks) else kid)"

definition parseJwtKeysRaw :: "'tok jwt_lib \<Rightarrow> jwt_env \<Rightarrow> JwtKeySet" where
  "parseJwtKeysRaw lib env = (case map_option js_trim (je_JWT_SECRETS env) of
       None \<Rightarrow> single_secret env
     | Some raw \<Rightarrow>
         if raw = [] then single_secret env
         else (let ks = (case json_keys (jl_json lib raw) of Some ks \<Rightarrow> ks | None \<Rightarrow> csv_keys raw)
               in if ks = [] then single_secret env
                  else (let kid = current_of env ks
                        in \<lparr>jk_keys = ks, jk_currentKid = (if kid \<in> fst ` set ks then kid else fst (hd ks))\<rparr>)))"

definition getJwtKeySet :: "'tok jwt_lib \<Rightarrow> jwt_env \<Rightarrow> JwtKeySet" where
  "getJwtKeySet lib env = parseJwtKeysRaw lib env"

definition getCurrentKid :: "'tok jwt_lib \<Rightarrow> jwt_env \<Rightarrow> string" where
  "getCurrentKid lib env = jk_currentKid (getJwtKeySet lib env)"

definition getJwtKeys :: "'tok jwt_lib \<Rightarrow> jwt_env \<Rightarrow> key_map" where
  "getJwtKeys lib env = jk_keys (getJwtKeySet lib env)"

section \<open>Signing and verifying\<close>

definition signAccessToken :: "'tok jwt_lib \<Rightarrow> jwt_env \<Rightarrow> int \<Rightarrow> AuthPayload \<Rightarrow> jsval + 'tok" where
  "signAccessToken lib env now payload = (let ks = getJwtKeySet lib env in
     case map_of (jk_keys ks) (jk_currentKid ks) of
       None \<Rightarrow> Inl (js_error (''JWT current kid \"'' @ jk_currentKid ks @ ''\" not found in key set''))
     | Some secret \<Rightarrow> if secret = [] then Inl (js_error (''JWT current kid \"'' @ jk_currentKid ks @ ''\" not found in key set''))
         else Inr (jl_sign lib now payload secret (jk_currentKid ks)))"

definition signWithKid :: "'tok jwt_lib \<Rightarrow> jwt_env \<Rightarrow> int \<Rightarrow> AuthPayload \<Rightarrow> string \<Rightarrow> jsval + 'tok" where
  "signWithKid lib env now payload kid = (case map_of (getJwtKeys lib env) kid of
       None \<Rightarrow> Inl (js_error (''Unknown kid for signing: '' @ kid))
     | Some secret \<Rightarrow> if secret = [] then Inl (js_error (''Unknown kid for signing: '' @ kid)) else Inr (jl_sign lib now payload secret kid))"

abbreviation bad_token :: jsval where
  "bad_token \<equiv> unauthorized ''Invalid or expired access token''"

fun first_secret :: "'tok jwt_lib \<Rightarrow> int \<Rightarrow> 'tok \<Rightarrow> string list \<Rightarrow> jsval + token_claims" where
  "first_secret lib now token [] = Inl bad_token"
| "first_secret lib now token (s # ss) = (case jl_verify lib now token s of
       Inr claims \<Rightarrow> Inr claims
     | Inl TokenExpired \<Rightarrow> Inl bad_token
     | Inl TokenInvalid \<Rightarrow> first_secret lib now token ss)"

definition candidates :: "string \<Rightarrow> key_map \<Rightarrow> string list" where
  "candidates secret ks = fold (\<lambda>s cs. if s \<in> set cs then cs else cs @ [s]) (map snd ks) [secret]"

definition verifyAccessToken :: "'tok jwt_lib \<Rightarrow> jwt_env \<Rightarrow> int \<Rightarrow> 'tok \<Rightarrow> jsval + token_claims" where
  "verifyAccessToken lib env now token = (case jl_decode lib token of
       Inl _ \<Rightarrow> Inl bad_token
     | Inr header \<Rightarrow>
         if header \<noteq> None \<and> header \<noteq> Some []
         then (case map_of (getJwtKeys lib env) (the header) of
                 None \<Rightarrow> Inl (unauthorized (''Unknown key id: '' @ the header))
               | Some secret \<Rightarrow>
                   if secret = [] then Inl (unauthorized (''Unknown key id: '' @ the header))
                   else (case jl_verify lib now token secret of Inr claims \<Rightarrow> Inr claims | Inl _ \<Rightarrow> Inl bad_token))
         else first_secret lib now token (candidates (je_JWT_SECRET env) (getJwtKeys lib env)))"

section \<open>Middleware\<close>

text \<open>A request carries its \<open>Authorization\<close> header; the reader of tokens turns the rest of the header into a token.\<close>

definition bearer :: "string option \<Rightarrow> string option" where
  "bearer header = (case header of None \<Rightarrow> None | Some h \<Rightarrow> if prefix ''Bearer '' h then Some (drop 7 h) else None)"

definition authMiddleware :: "(string \<Rightarrow> jsval + token_claims) \<Rightarrow> string option \<Rightarrow> jsval + AuthPayload" where
  "authMiddleware verify header = (case bearer header of
       None \<Rightarrow> Inl (unauthorized ''Missing or invalid authorization header'')
     | Some token \<Rightarrow> map_sum id cl_payload (verify token))"

definition optionalAuth :: "(string \<Rightarrow> jsval + token_claims) \<Rightarrow> string option \<Rightarrow> AuthPayload option" where
  "optionalAuth verify header = (case bearer header of
       None \<Rightarrow> None
     | Some token \<Rightarrow> (case verify token of Inl _ \<Rightarrow> None | Inr claims \<Rightarrow> Some (cl_payload claims)))"

text \<open>The factories check their argument when a route is set up; the middleware they make checks each request.\<close>

definition requireRole :: "string \<Rightarrow> jsval + (AuthPayload option \<Rightarrow> jsval + unit)" where
  "requireRole wanted = (if wanted = [] then Inl (js_error ''Invalid role parameter'')
     else Inr (\<lambda>auth. case auth of
         None \<Rightarrow> Inl (unauthorized ''Authentication required'')
       | Some p \<Rightarrow> if ap_role p \<noteq> wanted then Inl (forbidden (''Requires role: '' @ wanted)) else Inr ()))"

definition requireScope :: "string \<Rightarrow> jsval + (AuthPayload option \<Rightarrow> jsval + unit)" where
  "requireScope scope = (if scope = [] then Inl (js_error ''Invalid scope parameter'')
     else Inr (\<lambda>auth. case auth of
         None \<Rightarrow> Inl (unauthorized ''Authentication required'')
       | Some p \<Rightarrow> if scope \<notin> set (ap_scopes p) then Inl (forbidden (''Requires scope: '' @ scope)) else Inr ()))"

fun join_comma :: "string list \<Rightarrow> string" where
  "join_comma [] = []"
| "join_comma [x] = x"
| "join_comma (x # xs) = x @ '', '' @ join_comma xs"

definition requireAnyScope :: "string list \<Rightarrow> jsval + (AuthPayload option \<Rightarrow> jsval + unit)" where
  "requireAnyScope scopes = (if scopes = [] \<or> [] \<in> set scopes then Inl (js_error ''Invalid scopes parameter'')
     else Inr (\<lambda>auth. case auth of
         None \<Rightarrow> Inl (unauthorized ''Authentication required'')
       | Some p \<Rightarrow> if list_all (\<lambda>s. s \<notin> set (ap_scopes p)) scopes
                   then Inl (forbidden (''Requires one of: '' @ join_comma scopes)) else Inr ()))"

record SocketData =
  sd_auth :: AuthPayload
  sd_exp :: rat

definition socketAuth :: "(string \<Rightarrow> jsval + token_claims) \<Rightarrow> jsval \<Rightarrow> jsval + SocketData" where
  "socketAuth verify token = (case token of
       JStr t \<Rightarrow>
         if t = [] then Inl (js_error ''Authentication token is required'')
         else (case verify t of
             Inl _ \<Rightarrow> Inl (js_error ''Invalid or expired token'')
           | Inr claims \<Rightarrow>
               (let uid = (case cl_sub claims of Some s \<Rightarrow> s | None \<Rightarrow> ap_userId (cl_payload claims))
                in case cl_exp claims of
                     Some (Fin e) \<Rightarrow> if uid = [] then Inl (js_error ''Invalid or expired token'')
                                     else Inr \<lparr>sd_auth = (cl_payload claims)\<lparr>ap_userId := uid\<rparr>, sd_exp = e\<rparr>
                   | _ \<Rightarrow> Inl (js_error ''Invalid or expired token'')))
     | _ \<Rightarrow> Inl (js_error ''Authentication token is required''))"

section \<open>The key set is well formed\<close>

definition keys_wf :: "key_map \<Rightarrow> bool" where
  "keys_wf ks \<longleftrightarrow> distinct (map fst ks) \<and> list_all (\<lambda>x. fst x \<noteq> [] \<and> snd x \<noteq> []) ks"

lemma fst_set_key: "fst ` set (set_key k v xs) = insert k (fst ` set xs)"
  by (induction xs) (auto split: if_splits)

lemma set_key_wf: "keys_wf ks \<Longrightarrow> k \<noteq> [] \<Longrightarrow> v \<noteq> [] \<Longrightarrow> keys_wf (set_key k v ks)"
proof (induction ks)
  case (Cons x ks)
  then show ?case using fst_set_key [of k v ks] by (auto simp: keys_wf_def)
qed (simp add: keys_wf_def)

lemma add_key_wf: "keys_wf ks \<Longrightarrow> keys_wf (add_key kid secret ks)"
  by (simp add: add_key_def set_key_wf)

lemma fold_wf: "(\<And>x ks. keys_wf ks \<Longrightarrow> keys_wf (f x ks)) \<Longrightarrow> keys_wf ks \<Longrightarrow> keys_wf (fold f xs ks)"
  by (induction xs arbitrary: ks) auto

lemma json_keys_wf: "json_keys json = Some ks \<Longrightarrow> keys_wf ks"
proof -
  have none: "keys_wf []" by (simp add: keys_wf_def)
  have entry: "keys_wf ks \<Longrightarrow> keys_wf (json_entry e ks)" for e ks
    by (auto simp: json_entry_def add_key_wf split: jsval.split)
  have field: "keys_wf ks \<Longrightarrow> keys_wf (json_field f ks)" for f ks
    by (auto simp: json_field_def add_key_wf split: jsval.split)
  show "json_keys json = Some ks \<Longrightarrow> keys_wf ks"
    by (auto simp: json_keys_def split: option.splits jsval.splits intro!: fold_wf none entry field)
qed

lemma csv_keys_wf: "keys_wf (csv_keys raw)"
  unfolding csv_keys_def
  by (rule fold_wf) (auto simp: csv_part_def Let_def add_key_wf, simp add: keys_wf_def)

lemma single_wf: "je_JWT_SECRET env \<noteq> [] \<Longrightarrow> keys_wf (jk_keys (single_secret env))"
  by (simp add: keys_wf_def single_secret_def)

lemma key_set_run:
  assumes "je_JWT_SECRET env \<noteq> []"
  shows "keys_wf (getJwtKeys lib env) \<and> getCurrentKid lib env \<in> fst ` set (getJwtKeys lib env) \<and>
    (\<exists>secret. signAccessToken lib env now payload = Inr (jl_sign lib now payload secret (getCurrentKid lib env)) \<and>
       map_of (getJwtKeys lib env) (getCurrentKid lib env) = Some secret)"
proof -
  have single: "jk_currentKid (single_secret env) \<in> fst ` set (jk_keys (single_secret env))"
    by (simp add: single_secret_def)
  have wf: "keys_wf (getJwtKeys lib env)"
    using single_wf [OF assms] json_keys_wf csv_keys_wf
    by (auto simp: getJwtKeys_def getJwtKeySet_def parseJwtKeysRaw_def Let_def split: option.splits)
  have cur: "getCurrentKid lib env \<in> fst ` set (getJwtKeys lib env)"
    using single
    by (auto simp: getCurrentKid_def getJwtKeys_def getJwtKeySet_def parseJwtKeysRaw_def Let_def split: option.splits)
  then obtain secret where s: "map_of (getJwtKeys lib env) (getCurrentKid lib env) = Some secret"
    by (metis map_of_eq_None_iff not_Some_eq)
  then have "secret \<noteq> []" using wf by (auto simp: keys_wf_def list_all_iff dest: map_of_SomeD)
  with wf cur s show ?thesis
    by (simp add: signAccessToken_def Let_def getCurrentKid_def getJwtKeys_def)
qed

text \<open>
  C19. Whatever the settings, the key set has distinct names, no empty name or secret, and its current key is one of them, so a token can
  always be signed.
\<close>

theorem key_set_wellformed:
  assumes "je_JWT_SECRET env \<noteq> []"
  shows "keys_wf (getJwtKeys lib env) \<and> getCurrentKid lib env \<in> fst ` set (getJwtKeys lib env) \<and>
    (\<exists>secret. signAccessToken lib env now payload = Inr (jl_sign lib now payload secret (getCurrentKid lib env)) \<and>
       map_of (getJwtKeys lib env) (getCurrentKid lib env) = Some secret)"
  by (rule key_set_run [OF assms])

section \<open>Rotation\<close>

definition claims_at :: "int \<Rightarrow> int \<Rightarrow> AuthPayload \<Rightarrow> token_claims" where
  "claims_at ttl issued payload = \<lparr>cl_payload = payload, cl_sub = None, cl_exp = Some (Fin (of_int ((issued + ttl) div 1000)))\<rparr>"

text \<open>
  What the library documents: a token shows the key id it was signed with, and is verified by the secret it was signed with until it
  expires.
\<close>

definition jwt_documented :: "int \<Rightarrow> 'tok jwt_lib \<Rightarrow> bool" where
  "jwt_documented ttl lib \<longleftrightarrow>
     (\<forall>t p s k. jl_decode lib (jl_sign lib t p s k) = Inr (Some k)) \<and>
     (\<forall>now t p s k s'. jl_verify lib now (jl_sign lib t p s k) s' =
        (if s' \<noteq> s then Inl TokenInvalid else if t + ttl \<le> now then Inl TokenExpired else Inr (claims_at ttl t p)))"

lemma verify_signed:
  assumes "jwt_documented ttl lib" and "kid \<noteq> []"
  shows "verifyAccessToken lib env now (jl_sign lib t p s kid) =
    (case map_of (getJwtKeys lib env) kid of
       None \<Rightarrow> Inl (unauthorized (''Unknown key id: '' @ kid))
     | Some secret \<Rightarrow> if secret = [] then Inl (unauthorized (''Unknown key id: '' @ kid))
         else if secret = s \<and> now < t + ttl then Inr (claims_at ttl t p) else Inl bad_token)"
  using assms by (auto simp: verifyAccessToken_def jwt_documented_def split: option.split)

text \<open>
  Rotation loses no session: a token signed under one set of keys is accepted under another exactly as long as it is unexpired and
  the other set still has the key it was signed with, under its name and whatever key is current now.
\<close>

theorem rotated_key_verifies:
  assumes "jwt_documented ttl lib" and "je_JWT_SECRET env \<noteq> []"
    and "signAccessToken lib env issued payload = Inr token"
  shows "verifyAccessToken lib env' now token = Inr (claims_at ttl issued payload) \<longleftrightarrow>
    now < issued + ttl \<and> map_of (getJwtKeys lib env') (getCurrentKid lib env) = map_of (getJwtKeys lib env) (getCurrentKid lib env)"
proof -
  from key_set_run [OF assms(2)] obtain secret where
    wf: "keys_wf (getJwtKeys lib env)" and kid: "getCurrentKid lib env \<in> fst ` set (getJwtKeys lib env)"
    and tok: "signAccessToken lib env issued payload = Inr (jl_sign lib issued payload secret (getCurrentKid lib env))"
    and key: "map_of (getJwtKeys lib env) (getCurrentKid lib env) = Some secret"
    by blast
  have ne: "getCurrentKid lib env \<noteq> []" "secret \<noteq> []"
    using wf kid key by (auto simp: keys_wf_def list_all_iff dest: map_of_SomeD)
  show ?thesis
    using assms(3) tok key ne
    by (auto simp: verify_signed [OF assms(1) ne(1)] split: option.splits if_splits)
qed

text \<open>A token without a key id is still verified by the original secret after that secret has left the key set.\<close>

lemma legacy_secret_is_never_retired:
  assumes "jl_decode lib token = Inr None" and "jl_verify lib now token (je_JWT_SECRET env) = Inr claims"
  shows "verifyAccessToken lib env now token = Inr claims"
proof -
  have front: "\<exists>cs. fold (\<lambda>s cs. if s \<in> set cs then cs else cs @ [s]) xs (c # ds) = c # cs" for xs c and ds :: "string list"
    by (induction xs arbitrary: ds) auto
  obtain cs where "candidates (je_JWT_SECRET env) (getJwtKeys lib env) = je_JWT_SECRET env # cs"
    using front [of "map snd (getJwtKeys lib env)" "je_JWT_SECRET env" "[]"] by (auto simp: candidates_def)
  with assms show ?thesis by (simp add: verifyAccessToken_def)
qed

lemma socket_has_identity:
  "socketAuth verify token = Inr sd \<Longrightarrow>
   ap_userId (sd_auth sd) \<noteq> [] \<and> (\<exists>t claims. token = JStr t \<and> verify t = Inr claims \<and> cl_exp claims = Some (Fin (sd_exp sd)))"
  by (auto simp: socketAuth_def Let_def split: jsval.splits if_splits sum.splits option.splits jsnum.splits)

section \<open>Examples\<close>

text \<open>A library whose tokens are their own contents, and a rotation of keys written as text.\<close>

type_synonym open_token = "int \<times> AuthPayload \<times> string \<times> string"

definition open_lib :: "open_token jwt_lib" where
  "open_lib = \<lparr>jl_sign = (\<lambda>t p s k. (t, p, s, k)), jl_decode = (\<lambda>(t, p, s, k). Inr (Some k)),
     jl_verify = (\<lambda>now (t, p, s, k) s'. if s' \<noteq> s then Inl TokenInvalid
        else if t + 900000 \<le> now then Inl TokenExpired else Inr (claims_at 900000 t p)),
     jl_json = (\<lambda>_. None)\<rparr>"

definition env_before :: jwt_env where
  "env_before = \<lparr>je_JWT_SECRET = ''original'', je_JWT_SECRETS = Some ''old:aaaaaaaa'', je_JWT_CURRENT_KID = None\<rparr>"

definition env_after :: jwt_env where
  "env_after = \<lparr>je_JWT_SECRET = ''original'', je_JWT_SECRETS = Some ''old:aaaaaaaa, new:bbbbbbbb'', je_JWT_CURRENT_KID = Some ''new''\<rparr>"

definition demo_payload :: AuthPayload where
  "demo_payload = \<lparr>ap_userId = ''u1'', ap_stellarAddress = ''GA'', ap_role = ''user'', ap_scopes = []\<rparr>"

lemma demo_keys_before: "getJwtKeySet open_lib env_before = \<lparr>jk_keys = [(''old'', ''aaaaaaaa'')], jk_currentKid = ''old''\<rparr>"
  by code_simp

lemma demo_keys_after:
  "getJwtKeySet open_lib env_after = \<lparr>jk_keys = [(''old'', ''aaaaaaaa''), (''new'', ''bbbbbbbb'')], jk_currentKid = ''new''\<rparr>"
  by code_simp

lemma demo_before: "getJwtKeys open_lib env_before = [(''old'', ''aaaaaaaa'')]" "getCurrentKid open_lib env_before = ''old''"
  and demo_after: "getJwtKeys open_lib env_after = [(''old'', ''aaaaaaaa''), (''new'', ''bbbbbbbb'')]" "getCurrentKid open_lib env_after = ''new''"
  by (simp_all add: getJwtKeys_def getCurrentKid_def demo_keys_before demo_keys_after)

lemma key_set_wellformed_witness:
  "keys_wf (getJwtKeys open_lib env_after) \<and> getCurrentKid open_lib env_after = ''new''"
proof -
  have "je_JWT_SECRET env_after \<noteq> []" by (simp add: env_after_def)
  from key_set_wellformed [OF this, of open_lib 0 demo_payload] show ?thesis by (simp add: demo_after)
qed

lemma open_lib_documented: "jwt_documented 900000 open_lib"
  by (simp add: jwt_documented_def open_lib_def)

lemma rotated_key_verifies_witness:
  "verifyAccessToken open_lib env_after 899999 (0, demo_payload, ''aaaaaaaa'', ''old'') = Inr (claims_at 900000 0 demo_payload)"
proof -
  have "signAccessToken open_lib env_before 0 demo_payload = Inr (0, demo_payload, ''aaaaaaaa'', ''old'')"
    unfolding signAccessToken_def demo_keys_before by (simp add: Let_def, simp add: open_lib_def)
  from rotated_key_verifies [OF open_lib_documented _ this, of env_after 899999]
  show ?thesis by (simp add: demo_before demo_after) (simp add: env_before_def)
qed

end
