(* ===== verification/Realtime.thy ===== *)
theory Realtime
  imports RateLimits AccessTokens
begin

text \<open>
  The socket gateway (\<open>realtime/gateway.ts\<close>, \<open>realtime/catchup.ts\<close>) and the throttling of its connections
  (\<open>modules/realtime/backpressure.ts\<close>). The transport is the list of messages handed to it, each with the socket as it was and the
  room it was sent to; the streams of the cache are lists of events with an expiry. The limits of connections and events are those of
  \<open>RateLimits\<close>, the handshake is that of \<open>AccessTokens\<close>.
\<close>

section \<open>Recent events of a room\<close>

record RoomEvent =
  re_id :: string
  re_room :: string
  re_event :: string
  re_payload :: jsval

type_synonym streams = "string \<Rightarrow> (RoomEvent list \<times> int) option"

definition recent :: "int \<Rightarrow> string \<Rightarrow> streams \<Rightarrow> RoomEvent list" where
  "recent now room st = (case st room of None \<Rightarrow> [] | Some (es, expires) \<Rightarrow> if expires < now then [] else es)"

definition last_n :: "nat \<Rightarrow> 'a list \<Rightarrow> 'a list" where
  "last_n n xs = drop (length xs - n) xs"

text \<open>The script appends the event, trims the stream to its limit and renews its expiry; the id is given by the cache.\<close>

definition publishRoomEvent :: "nat \<Rightarrow> int \<Rightarrow> int \<Rightarrow> string \<Rightarrow> string \<Rightarrow> string \<Rightarrow> jsval \<Rightarrow> streams \<Rightarrow> RoomEvent \<times> streams" where
  "publishRoomEvent limit ttlSeconds now ident room event payload st =
     (let ev = \<lparr>re_id = ident, re_room = room, re_event = event, re_payload = payload\<rparr>
      in (ev, st(room \<mapsto> (last_n limit (recent now room st @ [ev]), now + ttlSeconds * 1000))))"

record catchup_result =
  cu_events :: "RoomEvent list"
  cu_refreshRequired :: bool
  cu_error :: "string option"

fun position :: "string \<Rightarrow> RoomEvent list \<Rightarrow> nat option" where
  "position i [] = None"
| "position i (e # es) = (if re_id e = i then Some 0 else map_option Suc (position i es))"

definition catchUp :: "int \<Rightarrow> string \<Rightarrow> string \<Rightarrow> streams \<Rightarrow> catchup_result" where
  "catchUp now room lastSeenId st = (case position lastSeenId (recent now room st) of
       None \<Rightarrow> \<lparr>cu_events = [], cu_refreshRequired = True, cu_error = None\<rparr>
     | Some cursor \<Rightarrow> \<lparr>cu_events = drop (cursor + 1) (recent now room st), cu_refreshRequired = False, cu_error = None\<rparr>)"

definition is_upper :: "char \<Rightarrow> bool" where
  "is_upper c \<longleftrightarrow> 65 \<le> char_code c \<and> char_code c \<le> 90"

definition is_lower :: "char \<Rightarrow> bool" where
  "is_lower c \<longleftrightarrow> 97 \<le> char_code c \<and> char_code c \<le> 122"

definition room_ok :: "string \<Rightarrow> bool" where
  "room_ok r \<longleftrightarrow> length r \<le> 200 \<and>
     (prefix ''creator:'' r \<and> drop 8 r \<noteq> [] \<and> list_all (\<lambda>c. is_upper c \<or> is_digit c) (drop 8 r) \<or>
      prefix ''user:'' r \<and> drop 5 r \<noteq> [] \<and> list_all (\<lambda>c. is_upper c \<or> is_lower c \<or> is_digit c \<or> c = CHR ''_'' \<or> c = CHR ''-'') (drop 5 r) \<or>
      r = ''leaderboard'')"

definition event_id_ok :: "string \<Rightarrow> bool" where
  "event_id_ok s \<longleftrightarrow> length s \<le> 50 \<and> (case split_on (CHR ''-'') s of
      [a, b] \<Rightarrow> a \<noteq> [] \<and> b \<noteq> [] \<and> list_all is_digit a \<and> list_all is_digit b | _ \<Rightarrow> False)"

text \<open>The request schema: exactly a room and an event id, both texts of the right form.\<close>

definition catchupRequestSchema :: "jsval \<Rightarrow> (string \<times> string) option" where
  "catchupRequestSchema request = (case request of
       JObj c fs \<Rightarrow> (case (get_prop request ''room'', get_prop request ''lastSeenId'') of
           (JStr room, JStr i) \<Rightarrow>
             if list_all (\<lambda>f. fst f \<in> {''room'', ''lastSeenId''}) fs \<and> room_ok room \<and> event_id_ok i then Some (room, i) else None
         | _ \<Rightarrow> None)
     | _ \<Rightarrow> None)"

section \<open>The gateway\<close>

definition LEADERBOARD_ROOM :: string where
  "LEADERBOARD_ROOM = ''leaderboard''"

definition PUBLIC_ROOMS :: "string list" where
  "PUBLIC_ROOMS = [LEADERBOARD_ROOM]"

definition creator_room :: "string \<Rightarrow> string" where
  "creator_room address = ''creator:'' @ address"

definition user_room :: "string \<Rightarrow> string" where
  "user_room userId = ''user:'' @ userId"

record rt_socket =
  sk_id :: string
  sk_data :: SocketData
  sk_rooms :: "string list"
  sk_expiry :: rat

datatype rt_message = Connected string | Auth_expired | Rt_error string string
  | Realtime_event RoomEvent | Direct_event string jsval | Catchup_reply catchup_result

record gateway =
  gw_sockets :: "rt_socket list"
  gw_connections :: hits
  gw_events :: hits
  gw_streams :: streams
  gw_sent :: "(rt_socket \<times> string \<times> rt_message) list"

definition tell :: "rt_socket \<Rightarrow> rt_message \<Rightarrow> gateway \<Rightarrow> gateway" where
  "tell s m gw = gw\<lparr>gw_sent := gw_sent gw @ [(s, sk_id s, m)]\<rparr>"

definition emit_to :: "string \<Rightarrow> rt_message \<Rightarrow> gateway \<Rightarrow> gateway" where
  "emit_to room m gw = gw\<lparr>gw_sent := gw_sent gw @ map (\<lambda>s. (s, room, m)) (filter (\<lambda>s. room \<in> set (sk_rooms s)) (gw_sockets gw))\<rparr>"

definition change_socket :: "string \<Rightarrow> (rt_socket \<Rightarrow> rt_socket) \<Rightarrow> gateway \<Rightarrow> gateway" where
  "change_socket sid f gw = gw\<lparr>gw_sockets := map (\<lambda>s. if sk_id s = sid then f s else s) (gw_sockets gw)\<rparr>"

definition join_room :: "string \<Rightarrow> string \<Rightarrow> gateway \<Rightarrow> gateway" where
  "join_room sid room = change_socket sid (\<lambda>s. s\<lparr>sk_rooms := List.insert room (sk_rooms s)\<rparr>)"

definition leave_room :: "string \<Rightarrow> string \<Rightarrow> gateway \<Rightarrow> gateway" where
  "leave_room sid room = change_socket sid (\<lambda>s. s\<lparr>sk_rooms := removeAll room (sk_rooms s)\<rparr>)"

text \<open>A timer whose delay exceeds the range of the platform fires after a millisecond.\<close>

definition scheduleTokenExpiry :: "int \<Rightarrow> SocketData \<Rightarrow> rat" where
  "scheduleTokenExpiry now sd = (let delay = max 0 (sd_exp sd * 1000 - of_int now)
     in if 2 ^ 31 - 1 < delay then of_int now + 1 else of_int now + delay)"

text \<open>The handshake: the limit of connections, the token, and then the registration of the socket.\<close>

definition connectionRateLimit :: "int \<Rightarrow> string \<Rightarrow> (gateway, jsval, unit) io" where
  "connectionRateLimit now ip = bnd (gets (\<lambda>gw. connectionLimiter now ip (gw_connections gw))) (\<lambda>(ok, h).
     andthen (modify (\<lambda>gw. gw\<lparr>gw_connections := h\<rparr>))
     (throw_unless ok (js_error ''Too many connection attempts, please try again later'')))"

definition connect :: "(string \<Rightarrow> jsval + token_claims) \<Rightarrow> int \<Rightarrow> string \<Rightarrow> string \<Rightarrow> jsval \<Rightarrow> (gateway, jsval, unit) io" where
  "connect verify now sid ip token =
     andthen (connectionRateLimit now ip)
     (bnd (lift_res (socketAuth verify token)) (\<lambda>sd.
      let s = \<lparr>sk_id = sid, sk_data = sd, sk_rooms = [sid], sk_expiry = scheduleTokenExpiry now sd\<rparr>
      in modify (\<lambda>gw. tell s (Connected (ap_userId (sd_auth sd))) (gw\<lparr>gw_sockets := gw_sockets gw @ [s]\<rparr>))))"

datatype client_message = Catchup jsval bool
  | Subscribe_creator string | Subscribe_notifications string | Subscribe_leaderboard
  | Unsubscribe_creator string | Unsubscribe_notifications string | Unsubscribe_leaderboard

definition guardEventRate :: "int \<Rightarrow> rt_socket \<Rightarrow> gateway \<Rightarrow> bool \<times> gateway" where
  "guardEventRate now s gw = (case eventLimiter now (sk_id s) (gw_events gw) of (ok, h) \<Rightarrow>
     let gw' = gw\<lparr>gw_events := h\<rparr>
     in if ok then (True, gw') else (False, tell s (Rt_error ''RATE_LIMITED'' ''Too many requests, slow down'') gw'))"

definition refused :: "string \<Rightarrow> catchup_result" where
  "refused code = \<lparr>cu_events = [], cu_refreshRequired = True, cu_error = Some code\<rparr>"

text \<open>\<open>up\<close> says whether the cache answers.\<close>

definition on_catchup :: "bool \<Rightarrow> int \<Rightarrow> jsval \<Rightarrow> rt_socket \<Rightarrow> gateway \<Rightarrow> gateway" where
  "on_catchup up now request s gw = (case catchupRequestSchema request of
       None \<Rightarrow> tell s (Catchup_reply (refused ''INVALID_REQUEST'')) gw
     | Some (room, lastSeenId) \<Rightarrow>
         if room \<notin> set (sk_rooms s) \<or> (prefix ''user:'' room \<and> room \<noteq> user_room (ap_userId (sd_auth (sk_data s))))
         then tell s (Catchup_reply (refused ''FORBIDDEN'')) gw
         else if up then gw\<lparr>gw_sent := gw_sent gw @ [(s, room, Catchup_reply (catchUp now room lastSeenId (gw_streams gw)))]\<rparr>
         else tell s (Catchup_reply (refused ''UNAVAILABLE'')) gw)"

definition handle_message :: "bool \<Rightarrow> int \<Rightarrow> client_message \<Rightarrow> rt_socket \<Rightarrow> gateway \<Rightarrow> gateway" where
  "handle_message up now msg s gw = (case msg of
       Catchup request has_reply \<Rightarrow> if has_reply then on_catchup up now request s gw else gw
     | Subscribe_creator creatorAddress \<Rightarrow>
         if ap_stellarAddress (sd_auth (sk_data s)) \<noteq> creatorAddress
         then tell s (Rt_error ''FORBIDDEN'' ''Cannot subscribe to another creator'') gw
         else join_room (sk_id s) (creator_room creatorAddress) gw
     | Subscribe_notifications userId \<Rightarrow>
         if ap_userId (sd_auth (sk_data s)) \<noteq> userId
         then tell s (Rt_error ''FORBIDDEN'' ''Cannot subscribe to another user'') gw
         else join_room (sk_id s) (user_room userId) gw
     | Subscribe_leaderboard \<Rightarrow>
         if LEADERBOARD_ROOM \<notin> set PUBLIC_ROOMS then tell s (Rt_error ''FORBIDDEN'' ''Room is not public'') gw
         else join_room (sk_id s) LEADERBOARD_ROOM gw
     | Unsubscribe_creator creatorAddress \<Rightarrow> leave_room (sk_id s) (creator_room creatorAddress) gw
     | Unsubscribe_notifications userId \<Rightarrow> leave_room (sk_id s) (user_room userId) gw
     | Unsubscribe_leaderboard \<Rightarrow> leave_room (sk_id s) LEADERBOARD_ROOM gw)"

definition client_event :: "bool \<Rightarrow> int \<Rightarrow> string \<Rightarrow> client_message \<Rightarrow> gateway \<Rightarrow> gateway" where
  "client_event up now sid msg gw = (case find (\<lambda>s. sk_id s = sid) (gw_sockets gw) of
       None \<Rightarrow> gw
     | Some s \<Rightarrow> (case guardEventRate now s gw of (ok, gw') \<Rightarrow> if ok then handle_message up now msg s gw' else gw'))"

definition disconnect :: "string \<Rightarrow> gateway \<Rightarrow> gateway" where
  "disconnect sid gw = gw\<lparr>gw_sockets := filter (\<lambda>s. sk_id s \<noteq> sid) (gw_sockets gw)\<rparr>"

definition token_expired :: "int \<Rightarrow> string \<Rightarrow> gateway \<Rightarrow> gateway" where
  "token_expired now sid gw = (case find (\<lambda>s. sk_id s = sid) (gw_sockets gw) of
       None \<Rightarrow> gw
     | Some s \<Rightarrow> if sk_expiry s \<le> of_int now then disconnect sid (tell s Auth_expired gw) else gw)"

text \<open>A message of the channel, of this or another process, goes to the sockets of its room here.\<close>

definition on_room_event :: "RoomEvent \<Rightarrow> gateway \<Rightarrow> gateway" where
  "on_room_event ev = emit_to (re_room ev) (Realtime_event ev)"

text \<open>The cache may be down: then the event is not buffered, only sent.\<close>

definition bufferEvent :: "bool \<Rightarrow> nat \<Rightarrow> int \<Rightarrow> int \<Rightarrow> string \<Rightarrow> string \<Rightarrow> string \<Rightarrow> jsval \<Rightarrow> gateway \<Rightarrow> gateway" where
  "bufferEvent up limit ttl now ident room event payload gw =
     (if up then (case publishRoomEvent limit ttl now ident room event payload (gw_streams gw) of (ev, st) \<Rightarrow>
        on_room_event ev (gw\<lparr>gw_streams := st\<rparr>)) else gw)"

definition emit_event :: "bool \<Rightarrow> nat \<Rightarrow> int \<Rightarrow> int \<Rightarrow> string \<Rightarrow> string \<Rightarrow> string \<Rightarrow> jsval \<Rightarrow> gateway \<Rightarrow> gateway" where
  "emit_event up limit ttl now ident room event payload gw =
     emit_to room (Direct_event event payload) (bufferEvent up limit ttl now ident room event payload gw)"

text \<open>The payloads are objects; their address or user says which room they go to.\<close>

definition emitTipCreated :: "bool \<Rightarrow> nat \<Rightarrow> int \<Rightarrow> int \<Rightarrow> string \<Rightarrow> jsval \<Rightarrow> gateway \<Rightarrow> gateway" where
  "emitTipCreated up limit ttl now ident tip = emit_event up limit ttl now ident (creator_room (str_of (get_prop tip ''toAddress''))) ''tip.created'' tip"

definition emitNotificationCreated :: "bool \<Rightarrow> nat \<Rightarrow> int \<Rightarrow> int \<Rightarrow> string \<Rightarrow> jsval \<Rightarrow> gateway \<Rightarrow> gateway" where
  "emitNotificationCreated up limit ttl now ident n = emit_event up limit ttl now ident (user_room (str_of (get_prop n ''userId''))) ''notification.created'' n"

definition emitBalanceUpdated :: "bool \<Rightarrow> nat \<Rightarrow> int \<Rightarrow> int \<Rightarrow> string \<Rightarrow> jsval \<Rightarrow> gateway \<Rightarrow> gateway" where
  "emitBalanceUpdated up limit ttl now ident b = emit_event up limit ttl now ident (user_room (str_of (get_prop b ''userId''))) ''balance.updated'' b"

definition emitLeaderboardUpdated :: "bool \<Rightarrow> nat \<Rightarrow> int \<Rightarrow> int \<Rightarrow> string \<Rightarrow> jsval \<Rightarrow> gateway \<Rightarrow> gateway" where
  "emitLeaderboardUpdated up limit ttl now ident u = emit_event up limit ttl now ident LEADERBOARD_ROOM ''leaderboard.updated'' u"

section \<open>Who hears what\<close>

text \<open>
  Whatever the clients, the other processes, the timers and the emitting services do, in any order; the transport gives every
  socket an id of its own.
\<close>

inductive gateway_step :: "(string \<Rightarrow> jsval + token_claims) \<Rightarrow> gateway \<Rightarrow> gateway \<Rightarrow> bool" for verify where
  connects: "sid \<notin> sk_id ` set (gw_sockets gw) \<Longrightarrow> gateway_step verify gw (snd (connect verify now sid ip token gw))"
| sends: "gateway_step verify gw (client_event up now sid msg gw)"
| expires: "gateway_step verify gw (token_expired now sid gw)"
| disconnects: "gateway_step verify gw (disconnect sid gw)"
| sweeps: "gateway_step verify gw (gw\<lparr>gw_events := sweep now (gw_events gw)\<rparr>)"
| emits: "gateway_step verify gw (emit_event up limit ttl now ident room event payload gw)"
| hears: "gateway_step verify gw (on_room_event ev gw)"

definition empty_gateway :: gateway where
  "empty_gateway = \<lparr>gw_sockets = [], gw_connections = Map.empty, gw_events = Map.empty, gw_streams = Map.empty, gw_sent = []\<rparr>"

inductive gateway_reach :: "(string \<Rightarrow> jsval + token_claims) \<Rightarrow> gateway \<Rightarrow> bool" for verify where
  start: "gateway_reach verify empty_gateway"
| step: "gateway_reach verify gw \<Longrightarrow> gateway_step verify gw gw' \<Longrightarrow> gateway_reach verify gw'"

text \<open>The rooms a socket may be in: its own, the public one, and those of its user and address.\<close>

definition may_hear :: "rt_socket \<Rightarrow> string \<Rightarrow> bool" where
  "may_hear s room \<longleftrightarrow> room \<in> {sk_id s, LEADERBOARD_ROOM, user_room (ap_userId (sd_auth (sk_data s))),
     creator_room (ap_stellarAddress (sd_auth (sk_data s)))}"

definition identified :: "(string \<Rightarrow> jsval + token_claims) \<Rightarrow> rt_socket \<Rightarrow> bool" where
  "identified verify s \<longleftrightarrow> (\<exists>token. socketAuth verify token = Inr (sk_data s))"

definition gateway_ok :: "(string \<Rightarrow> jsval + token_claims) \<Rightarrow> gateway \<Rightarrow> bool" where
  "gateway_ok verify gw \<longleftrightarrow> distinct (map sk_id (gw_sockets gw)) \<and>
     (\<forall>s \<in> set (gw_sockets gw). identified verify s \<and> (\<forall>r \<in> set (sk_rooms s). may_hear s r)) \<and>
     (\<forall>(s, room, m) \<in> set (gw_sent gw). identified verify s \<and> may_hear s room)"

lemma gateway_okI:
  "distinct (map sk_id (gw_sockets gw)) \<Longrightarrow> (\<And>s. s \<in> set (gw_sockets gw) \<Longrightarrow> identified verify s \<and> (\<forall>r \<in> set (sk_rooms s). may_hear s r)) \<Longrightarrow>
   (\<And>s room m. (s, room, m) \<in> set (gw_sent gw) \<Longrightarrow> identified verify s \<and> may_hear s room) \<Longrightarrow> gateway_ok verify gw"
  by (auto simp: gateway_ok_def)

lemma gateway_okD:
  "gateway_ok verify gw \<Longrightarrow> s \<in> set (gw_sockets gw) \<Longrightarrow> identified verify s"
  "gateway_ok verify gw \<Longrightarrow> s \<in> set (gw_sockets gw) \<Longrightarrow> r \<in> set (sk_rooms s) \<Longrightarrow> may_hear s r"
  by (auto simp: gateway_ok_def)

lemma tell_ok: "gateway_ok verify gw \<Longrightarrow> identified verify s \<Longrightarrow> gateway_ok verify (tell s m gw)"
  by (auto simp: gateway_ok_def tell_def may_hear_def)

lemma emit_ok: "gateway_ok verify gw \<Longrightarrow> gateway_ok verify (emit_to room m gw)"
  by (auto simp: gateway_ok_def emit_to_def)

lemma unrelated_ok:
  "gateway_ok verify gw \<Longrightarrow> gateway_ok verify (gw\<lparr>gw_events := h\<rparr>)"
  "gateway_ok verify gw \<Longrightarrow> gateway_ok verify (gw\<lparr>gw_connections := h\<rparr>)"
  "gateway_ok verify gw \<Longrightarrow> gateway_ok verify (gw\<lparr>gw_streams := st\<rparr>)"
  by (simp_all add: gateway_ok_def)

lemma change_ok:
  assumes "gateway_ok verify gw"
    and "\<And>s. s \<in> set (gw_sockets gw) \<Longrightarrow> sk_id s = sid \<Longrightarrow> sk_id (f s) = sk_id s \<and> sk_data (f s) = sk_data s \<and> (\<forall>r \<in> set (sk_rooms (f s)). may_hear (f s) r)"
  shows "gateway_ok verify (change_socket sid f gw)"
proof (rule gateway_okI)
  have "sk_id (f x) = sk_id x" if "x \<in> set (gw_sockets gw)" "sk_id x = sid" for x
    using assms(2) [OF that] by simp
  then have "map sk_id (gw_sockets (change_socket sid f gw)) = map sk_id (gw_sockets gw)"
    by (auto simp: change_socket_def)
  with assms(1) show "distinct (map sk_id (gw_sockets (change_socket sid f gw)))" by (simp add: gateway_ok_def)
next
  fix s
  assume "s \<in> set (gw_sockets (change_socket sid f gw))"
  then obtain x where x: "x \<in> set (gw_sockets gw)" "s = (if sk_id x = sid then f x else x)"
    by (auto simp: change_socket_def)
  show "identified verify s \<and> (\<forall>r \<in> set (sk_rooms s). may_hear s r)"
  proof (cases "sk_id x = sid")
    case True
    with assms(2) [OF x(1) True] gateway_okD(1) [OF assms(1) x(1)] x(2) show ?thesis by (simp add: identified_def)
  next
    case False
    with x gateway_okD [OF assms(1) x(1)] show ?thesis by simp
  qed
qed (use assms(1) in \<open>auto simp: gateway_ok_def change_socket_def\<close>)

lemma may_hear_rooms [simp]: "may_hear (s\<lparr>sk_rooms := rs\<rparr>) r = may_hear s r"
  by (simp add: may_hear_def)

lemma join_ok:
  "gateway_ok verify gw \<Longrightarrow> (\<And>s. s \<in> set (gw_sockets gw) \<Longrightarrow> sk_id s = sid \<Longrightarrow> may_hear s room) \<Longrightarrow> gateway_ok verify (join_room sid room gw)"
  unfolding join_room_def by (rule change_ok) (auto dest: gateway_okD)

lemma leave_ok: "gateway_ok verify gw \<Longrightarrow> gateway_ok verify (leave_room sid room gw)"
  unfolding leave_room_def by (rule change_ok) (auto dest: gateway_okD)

lemma emit_event_ok: "gateway_ok verify gw \<Longrightarrow> gateway_ok verify (emit_event up limit ttl now ident room event payload gw)"
  by (auto simp: emit_event_def bufferEvent_def on_room_event_def intro!: emit_ok unrelated_ok split: prod.split)

lemma connect_ok:
  assumes "gateway_ok verify gw" and "sid \<notin> sk_id ` set (gw_sockets gw)"
  shows "gateway_ok verify (snd (connect verify now sid ip token gw))"
proof (cases "socketAuth verify token")
  case (Inl e)
  then show ?thesis
    using unrelated_ok(2) [OF assms(1)]
    by (simp add: connect_def connectionRateLimit_def throw_unless_def split: prod.split)
next
  case (Inr sd)
  define s where "s = \<lparr>sk_id = sid, sk_data = sd, sk_rooms = [sid], sk_expiry = scheduleTokenExpiry now sd\<rparr>"
  have s: "identified verify s" "may_hear s sid" "sk_rooms s = [sid]" "sk_id s = sid"
    using Inr by (auto simp: s_def identified_def may_hear_def)
  have "gateway_ok verify (gw\<lparr>gw_connections := h, gw_sockets := gw_sockets gw @ [s]\<rparr>)" for h
    using assms s by (auto simp: gateway_ok_def)
  then have "gateway_ok verify (tell s m (gw\<lparr>gw_connections := h, gw_sockets := gw_sockets gw @ [s]\<rparr>))" for m h
    using s(1) by (intro tell_ok)
  then show ?thesis
    using unrelated_ok(2) [OF assms(1)] Inr
    by (simp add: connect_def connectionRateLimit_def throw_unless_def Let_def s_def [symmetric] split: prod.split)
qed

lemma same_socket:
  assumes "gateway_ok verify gw" and "s \<in> set (gw_sockets gw)" and "x \<in> set (gw_sockets gw)" and "sk_id x = sk_id s"
  shows "x = s"
  using assms by (auto simp: gateway_ok_def distinct_map inj_on_def)

lemma catchup_ok:
  assumes "gateway_ok verify gw" and "identified verify s" and "\<And>r. r \<in> set (sk_rooms s) \<Longrightarrow> may_hear s r"
  shows "gateway_ok verify (on_catchup up now request s gw)"
proof (cases "catchupRequestSchema request")
  case None
  then show ?thesis using tell_ok [OF assms(1,2)] by (simp add: on_catchup_def)
next
  case (Some q)
  obtain room i where q: "q = (room, i)" by fastforce
  have "gateway_ok verify (gw\<lparr>gw_sent := gw_sent gw @ [(s, room, m)]\<rparr>)" if "room \<in> set (sk_rooms s)" for m
    using assms that by (auto simp: gateway_ok_def)
  then show ?thesis using Some q tell_ok [OF assms(1,2)] by (simp add: on_catchup_def)
qed

lemma handle_ok:
  assumes ok: "gateway_ok verify gw" and s: "s \<in> set (gw_sockets gw)"
  shows "gateway_ok verify (handle_message up now msg s gw)"
proof -
  note own = same_socket [OF ok s]
  have hear: "may_hear s r" if "r \<in> set (sk_rooms s)" for r using gateway_okD(2) [OF ok s that] .
  note tells = tell_ok [OF ok gateway_okD(1) [OF ok s]]
  have joins: "gateway_ok verify (join_room (sk_id s) room gw)" if "may_hear s room" for room
    by (rule join_ok [OF ok]) (use own that in blast)
  show ?thesis
    using tells leave_ok [OF ok] catchup_ok [OF ok gateway_okD(1) [OF ok s] hear] ok joins
    by (cases msg) (auto simp: handle_message_def may_hear_def)
qed

lemma client_event_ok: "gateway_ok verify gw \<Longrightarrow> gateway_ok verify (client_event up now sid msg gw)"
proof -
  assume ok: "gateway_ok verify gw"
  show ?thesis
  proof (cases "find (\<lambda>s. sk_id s = sid) (gw_sockets gw)")
    case None
    with ok show ?thesis by (simp add: client_event_def)
  next
    case (Some s)
    then have s: "s \<in> set (gw_sockets gw)" by (auto simp: find_Some_iff)
    obtain b h where e: "eventLimiter now (sk_id s) (gw_events gw) = (b, h)" by fastforce
    have "gateway_ok verify (handle_message up now msg s (gw\<lparr>gw_events := h\<rparr>))"
      by (rule handle_ok) (use unrelated_ok(1) [OF ok] s in simp_all)
    moreover have "gateway_ok verify (tell s m (gw\<lparr>gw_events := h\<rparr>))" for m
      by (rule tell_ok [OF unrelated_ok(1) [OF ok] gateway_okD(1) [OF ok s]])
    ultimately show ?thesis using Some e by (simp add: client_event_def guardEventRate_def Let_def)
  qed
qed

lemma disconnect_ok: "gateway_ok verify gw \<Longrightarrow> gateway_ok verify (disconnect sid gw)"
  by (auto simp: gateway_ok_def disconnect_def distinct_map_filter)

lemma expired_ok: "gateway_ok verify gw \<Longrightarrow> gateway_ok verify (token_expired now sid gw)"
proof -
  assume ok: "gateway_ok verify gw"
  then have "gateway_ok verify (disconnect sid (tell s m gw))" if "s \<in> set (gw_sockets gw)" for s m
    by (intro disconnect_ok tell_ok gateway_okD(1) [OF _ that])
  with ok show ?thesis by (auto simp: token_expired_def find_Some_iff split: option.split)
qed

lemma reach_ok: "gateway_reach verify gw \<Longrightarrow> gateway_ok verify gw"
proof (induction rule: gateway_reach.induct)
  case start
  then show ?case by (simp add: gateway_ok_def empty_gateway_def)
next
  case (step gw gw')
  from step.hyps(2) step.IH show ?case
    by cases (auto intro: connect_ok client_event_ok expired_ok disconnect_ok unrelated_ok emit_event_ok emit_ok simp: on_room_event_def)
qed

text \<open>
  C17. Whatever happens, in whatever order: nothing is ever sent to a socket that did not show an accepted token, and nothing is sent to a
  socket through a room that is not public, its own, or that of the user and the address of its token; catch-up replies included.
\<close>

theorem rooms_are_isolated:
  assumes "gateway_reach verify gw"
  shows "list_all (\<lambda>(s, room, m). identified verify s \<and> may_hear s room) (gw_sent gw)"
  using reach_ok [OF assms] by (auto simp: gateway_ok_def list_all_iff)

section \<open>Catching up\<close>

record publication =
  pb_now :: int
  pb_event :: RoomEvent

definition publish :: "nat \<Rightarrow> int \<Rightarrow> publication \<Rightarrow> streams \<Rightarrow> streams" where
  "publish limit ttl p st = snd (publishRoomEvent limit ttl (pb_now p) (re_id (pb_event p)) (re_room (pb_event p)) (re_event (pb_event p))
     (re_payload (pb_event p)) st)"

definition streams_after :: "nat \<Rightarrow> int \<Rightarrow> publication list \<Rightarrow> streams" where
  "streams_after limit ttl ps = fold (publish limit ttl) ps Map.empty"

text \<open>The specification: everything ever published in the room, in order.\<close>

definition room_history :: "string \<Rightarrow> publication list \<Rightarrow> RoomEvent list" where
  "room_history room ps = filter (\<lambda>e. re_room e = room) (map pb_event ps)"

definition events_after :: "string \<Rightarrow> RoomEvent list \<Rightarrow> RoomEvent list" where
  "events_after i es = tl (dropWhile (\<lambda>e. re_id e \<noteq> i) es)"

lemma publish_same:
  "re_room (pb_event p) = room \<Longrightarrow>
   publish limit ttl p st room = Some (last_n limit (recent (pb_now p) room st @ [pb_event p]), pb_now p + ttl * 1000)"
  by (cases "pb_event p") (simp add: publish_def publishRoomEvent_def Let_def)

lemma publish_other: "re_room (pb_event p) \<noteq> room \<Longrightarrow> publish limit ttl p st room = st room"
  by (simp add: publish_def publishRoomEvent_def Let_def)

lemma recent_suffix: "suffix (recent now room (streams_after limit ttl ps)) (room_history room ps)"
proof (induction ps arbitrary: now rule: rev_induct)
  case Nil
  then show ?case by (simp add: streams_after_def recent_def)
next
  case (snoc p ps)
  have after: "streams_after limit ttl (ps @ [p]) = publish limit ttl p (streams_after limit ttl ps)"
    by (simp add: streams_after_def)
  show ?case
  proof (cases "re_room (pb_event p) = room")
    case True
    have "suffix (recent (pb_now p) room (streams_after limit ttl ps) @ [pb_event p]) (room_history room ps @ [pb_event p])"
      using snoc [of "pb_now p"] by simp
    then have "suffix (last_n n (recent (pb_now p) room (streams_after limit ttl ps) @ [pb_event p])) (room_history room ps @ [pb_event p])" for n
      unfolding last_n_def by (rule suffix_order.trans [OF suffix_drop])
    with True show ?thesis by (simp add: after recent_def publish_same room_history_def)
  next
    case False
    with snoc [of now] show ?thesis by (simp add: after recent_def publish_other room_history_def)
  qed
qed

lemma position_None: "position i es = None \<longleftrightarrow> i \<notin> re_id ` set es"
  by (induction es) auto

lemma position_after: "position i es = Some n \<Longrightarrow> drop (n + 1) es = events_after i es"
  by (induction es arbitrary: n) (auto simp: events_after_def split: if_splits)

lemma events_after_suffix:
  assumes "suffix es hs" and "distinct (map re_id hs)" and "i \<in> re_id ` set es"
  shows "events_after i es = events_after i hs"
proof -
  from assms(1) obtain pre where hs: "hs = pre @ es" by (auto simp: suffix_def)
  have "re_id e \<noteq> i" if "e \<in> set pre" for e
    using assms(2,3) hs that by auto
  then have "dropWhile (\<lambda>e. re_id e \<noteq> i) hs = dropWhile (\<lambda>e. re_id e \<noteq> i) es"
    by (simp add: hs dropWhile_append2)
  then show ?thesis by (simp add: events_after_def)
qed

text \<open>
  C18. Catching up leaves no gap: either the client gets everything that was published in the room after the last event it saw, in order, or
  it is told to refresh; it is told so exactly when that event is no longer buffered.
\<close>

theorem catch_up_no_gap:
  assumes "distinct (map re_id (room_history room ps))"
  shows "catchUp now room i (streams_after limit ttl ps) =
    (if i \<in> re_id ` set (recent now room (streams_after limit ttl ps))
     then \<lparr>cu_events = events_after i (room_history room ps), cu_refreshRequired = False, cu_error = None\<rparr>
     else \<lparr>cu_events = [], cu_refreshRequired = True, cu_error = None\<rparr>)"
proof (cases "position i (recent now room (streams_after limit ttl ps))")
  case None
  then have "i \<notin> re_id ` set (recent now room (streams_after limit ttl ps))"
    using position_None [of i "recent now room (streams_after limit ttl ps)"] by blast
  with None show ?thesis by (simp add: catchUp_def)
next
  case (Some n)
  then have "i \<in> re_id ` set (recent now room (streams_after limit ttl ps))"
    using position_None [of i "recent now room (streams_after limit ttl ps)"] by simp
  with position_after [OF Some] events_after_suffix [OF recent_suffix assms this] Some show ?thesis
    by (simp add: catchUp_def)
qed

text \<open>While a room is not silent for longer than the expiry, its buffer is the last events up to the limit.\<close>

definition kept_alive :: "int \<Rightarrow> string \<Rightarrow> publication list \<Rightarrow> int \<Rightarrow> bool" where
  "kept_alive ttl room ps now = successively (\<lambda>a b. b \<le> a + ttl * 1000)
     (map pb_now (filter (\<lambda>p. re_room (pb_event p) = room) ps) @ [now])"

lemma last_n_snoc: "last_n n (last_n n xs @ [x]) = last_n n (xs @ [x])"
proof (cases "n \<le> length xs")
  case True
  then have "Suc (length xs) - n = Suc (length xs - n)" by simp
  with True show ?thesis by (cases n) (simp_all add: last_n_def)
qed (simp add: last_n_def)

lemma recent_complete:
  "kept_alive ttl room ps now \<Longrightarrow> recent now room (streams_after limit ttl ps) = last_n limit (room_history room ps)"
proof (induction ps arbitrary: now rule: rev_induct)
  case Nil
  then show ?case by (simp add: streams_after_def recent_def room_history_def last_n_def)
next
  case (snoc p ps)
  have after: "streams_after limit ttl (ps @ [p]) = publish limit ttl p (streams_after limit ttl ps)"
    by (simp add: streams_after_def)
  show ?case
  proof (cases "re_room (pb_event p) = room")
    case True
    have alive: "kept_alive ttl room ps (pb_now p)" and now: "now \<le> pb_now p + ttl * 1000"
      using snoc.prems True by (simp_all add: kept_alive_def successively_append_iff)
    from snoc.IH [OF alive] now True show ?thesis
      by (simp add: after recent_def [of now] publish_same room_history_def last_n_snoc)
  next
    case False
    with snoc show ?thesis by (simp add: after recent_def publish_other room_history_def kept_alive_def)
  qed
qed

section \<open>Examples\<close>

definition demo_verify :: "string \<Rightarrow> jsval + token_claims" where
  "demo_verify t = (if t = ''tok'' then Inr (claims_at 900000 0 demo_payload) else Inl bad_token)"

definition demo_gateway :: gateway where
  "demo_gateway = emit_event True 2 3600 10 ''1-0'' ''user:u1'' ''balance.updated'' (JStr ''b'')
     (client_event True 5 ''s1'' (Subscribe_notifications ''u1'') (snd (connect demo_verify 0 ''s1'' ''10.0.0.1'' (JStr ''tok'') empty_gateway)))"

lemma rooms_are_isolated_witness:
  "list_all (\<lambda>(s, room, m). identified demo_verify s \<and> may_hear s room) (gw_sent demo_gateway) \<and>
   map (\<lambda>(s, room, m). room) (gw_sent demo_gateway) = [''s1'', ''user:u1'', ''user:u1'']"
proof
  have "gateway_reach demo_verify demo_gateway"
    unfolding demo_gateway_def
    by (rule gateway_reach.step [OF gateway_reach.step [OF gateway_reach.step [OF gateway_reach.start connects] sends] emits])
      (simp add: empty_gateway_def)
  then show "list_all (\<lambda>(s, room, m). identified demo_verify s \<and> may_hear s room) (gw_sent demo_gateway)"
    by (rule rooms_are_isolated)
  show "map (\<lambda>(s, room, m). room) (gw_sent demo_gateway) = [''s1'', ''user:u1'', ''user:u1'']"
    by (simp add: demo_gateway_def connect_def connectionRateLimit_def empty_gateway_def connectionLimiter_def consume_def throw_unless_def
        socketAuth_def demo_verify_def claims_at_def demo_payload_def Let_def tell_def client_event_def guardEventRate_def eventLimiter_def
        handle_message_def join_room_def change_socket_def user_room_def emit_event_def bufferEvent_def publishRoomEvent_def on_room_event_def emit_to_def)
qed

definition demo_event :: "string \<Rightarrow> RoomEvent" where
  "demo_event i = \<lparr>re_id = i, re_room = ''leaderboard'', re_event = ''leaderboard.updated'', re_payload = Null\<rparr>"

definition demo_publications :: "publication list" where
  "demo_publications = map (\<lambda>i. \<lparr>pb_now = 0, pb_event = demo_event i\<rparr>) [''1-0'', ''2-0'', ''3-0'']"

lemma catch_up_no_gap_witness:
  "catchUp 5 ''leaderboard'' ''2-0'' (streams_after 2 60 demo_publications) =
     \<lparr>cu_events = [demo_event ''3-0''], cu_refreshRequired = False, cu_error = None\<rparr> \<and>
   catchUp 5 ''leaderboard'' ''1-0'' (streams_after 2 60 demo_publications) =
     \<lparr>cu_events = [], cu_refreshRequired = True, cu_error = None\<rparr>"
proof -
  have hist: "room_history ''leaderboard'' demo_publications = map demo_event [''1-0'', ''2-0'', ''3-0'']"
    by (simp add: room_history_def demo_publications_def demo_event_def)
  have kept: "recent 5 ''leaderboard'' (streams_after 2 60 demo_publications) = map demo_event [''2-0'', ''3-0'']"
  proof -
    have "kept_alive 60 ''leaderboard'' demo_publications 5" by (simp add: kept_alive_def demo_publications_def demo_event_def)
    from recent_complete [OF this, of 2] show ?thesis by (simp add: hist last_n_def)
  qed
  have ids: "distinct (map re_id (room_history ''leaderboard'' demo_publications))"
    by (simp add: hist demo_event_def)
  show ?thesis
    unfolding catch_up_no_gap [OF ids] kept hist by (simp add: demo_event_def events_after_def)
qed

end
