(* ===== verification/Backpressure.thy ===== *)
theory Backpressure
  imports Errors
begin

text \<open>
  The throttling of socket connections (\<open>modules/realtime/backpressure.ts\<close>): the table of connection metrics, the periodic
  check of a connection's buffer, and the throttling of events. Sockets are named by their ids; what the transport reports about a
  buffer is a parameter.
\<close>

section \<open>Metrics\<close>

record ConnectionMetrics =
  cm_bufferedBytes :: rat
  cm_lastEventTime :: int
  cm_eventFrequency :: rat

type_synonym metrics = "(string \<times> ConnectionMetrics) list"

fun set_metrics :: "string \<Rightarrow> ConnectionMetrics \<Rightarrow> metrics \<Rightarrow> metrics" where
  "set_metrics sid m [] = [(sid, m)]"
| "set_metrics sid m (x # xs) = (if fst x = sid then (sid, m) # xs else x # set_metrics sid m xs)"

definition on_connection :: "int \<Rightarrow> string \<Rightarrow> metrics \<Rightarrow> metrics" where
  "on_connection now sid = set_metrics sid \<lparr>cm_bufferedBytes = 0, cm_lastEventTime = now, cm_eventFrequency = 0\<rparr>"

definition on_disconnect :: "string \<Rightarrow> metrics \<Rightarrow> metrics" where
  "on_disconnect sid ms = filter (\<lambda>x. fst x \<noteq> sid) ms"

text \<open>One round of the interval: the socket found under the id, if any, with the length its transport reports, if any.\<close>

datatype pressure_action = Stop_checking | Disconnect_client | Warn_pressure | No_action

definition checkBackpressure :: "rat \<Rightarrow> rat option option \<Rightarrow> pressure_action" where
  "checkBackpressure maxBufferSize socket = (case socket of
       None \<Rightarrow> Stop_checking
     | Some writableLength \<Rightarrow>
         (let bufferSize = (case writableLength of None \<Rightarrow> 0 | Some n \<Rightarrow> n)
          in if maxBufferSize < bufferSize then Disconnect_client
             else if maxBufferSize * (8 / 10) < bufferSize then Warn_pressure else No_action))"

definition throttleEventPerConnection :: "int \<Rightarrow> string \<Rightarrow> int \<Rightarrow> metrics \<Rightarrow> bool \<times> metrics" where
  "throttleEventPerConnection now sid throttleMs ms = (case map_of ms sid of
       None \<Rightarrow> (True, ms)
     | Some m \<Rightarrow> if now - cm_lastEventTime m < throttleMs then (False, ms)
                 else (True, set_metrics sid (m\<lparr>cm_lastEventTime := now\<rparr>) ms))"

text \<open>The broadcast returns the sockets it emits to; a throttle of zero counts as none given.\<close>

fun broadcastWithBackpressure :: "int \<Rightarrow> int option \<Rightarrow> (string \<Rightarrow> bool) \<Rightarrow> string list \<Rightarrow> metrics \<Rightarrow> string list \<times> metrics" where
  "broadcastWithBackpressure now throttle keep [] ms = ([], ms)"
| "broadcastWithBackpressure now throttle keep (sid # sids) ms =
     (if \<not> keep sid then broadcastWithBackpressure now throttle keep sids ms
      else (case throttleEventPerConnection now sid (if throttle = None \<or> throttle = Some 0 then 100 else the throttle) ms of
          (emit, ms') \<Rightarrow> (case broadcastWithBackpressure now throttle keep sids ms' of
            (out, ms'') \<Rightarrow> ((if emit then [sid] else []) @ out, ms''))))"

record connection_summary =
  cs_totalConnections :: nat
  cs_highPressureConnections :: nat
  cs_averageBufferSize :: rat

definition getConnectionMetrics :: "rat \<Rightarrow> metrics \<Rightarrow> connection_summary" where
  "getConnectionMetrics maxBufferSize ms =
     (if ms = [] then \<lparr>cs_totalConnections = 0, cs_highPressureConnections = 0, cs_averageBufferSize = 0\<rparr>
      else \<lparr>cs_totalConnections = length ms,
            cs_highPressureConnections = length (filter (\<lambda>x. maxBufferSize * (8 / 10) < cm_bufferedBytes (snd x)) ms),
            cs_averageBufferSize = sum_list (map (\<lambda>x. cm_bufferedBytes (snd x)) ms) / of_nat (length ms)\<rparr>)"

section \<open>Spacing\<close>

text \<open>Any history of connections, disconnections and events, and the times at which a socket's events are emitted.\<close>

datatype pressure_op = Op_connect int string | Op_disconnect string | Op_event int string int

fun op_run :: "pressure_op \<Rightarrow> metrics \<Rightarrow> metrics" where
  "op_run (Op_connect t s) ms = on_connection t s ms"
| "op_run (Op_disconnect s) ms = on_disconnect s ms"
| "op_run (Op_event t s w) ms = snd (throttleEventPerConnection t s w ms)"

fun emitted_at :: "string \<Rightarrow> int \<Rightarrow> int list \<Rightarrow> metrics \<Rightarrow> int list" where
  "emitted_at s w [] ms = []"
| "emitted_at s w (t # ts) ms =
     (if fst (throttleEventPerConnection t s w ms) then [t] else []) @ emitted_at s w ts (snd (throttleEventPerConnection t s w ms))"

lemma map_of_set_metrics: "map_of (set_metrics s m ms) = (map_of ms)(s \<mapsto> m)"
  by (induction ms) auto

lemma emitted_spaced:
  "map_of ms s = Some m \<Longrightarrow> successively (\<lambda>a b. a + w \<le> b) (cm_lastEventTime m # emitted_at s w ts ms)"
proof (induction ts arbitrary: ms m)
  case (Cons t ts)
  show ?case
  proof (cases "t - cm_lastEventTime m < w")
    case True
    then have "throttleEventPerConnection t s w ms = (False, ms)" using Cons.prems by (simp add: throttleEventPerConnection_def)
    with Cons.IH [OF Cons.prems] show ?thesis by simp
  next
    case False
    let ?m = "m\<lparr>cm_lastEventTime := t\<rparr>"
    have step: "throttleEventPerConnection t s w ms = (True, set_metrics s ?m ms)"
      using False Cons.prems by (simp add: throttleEventPerConnection_def)
    have "successively (\<lambda>a b. a + w \<le> b) (cm_lastEventTime ?m # emitted_at s w ts (set_metrics s ?m ms))"
      by (rule Cons.IH) (simp add: map_of_set_metrics)
    with step False show ?thesis by simp
  qed
qed simp

text \<open>
  The events a connected socket gets are at least the throttle apart from each other and from the moment it connected: the first
  events after the connection are dropped.
\<close>

theorem throttled_events_are_spaced:
  "successively (\<lambda>a b. a + w \<le> b) (now # emitted_at s w ts (on_connection now s ms))"
proof -
  have "map_of (on_connection now s ms) s = Some \<lparr>cm_bufferedBytes = 0, cm_lastEventTime = now, cm_eventFrequency = 0\<rparr>"
    by (simp add: on_connection_def map_of_set_metrics)
  from emitted_spaced [OF this, of w ts] show ?thesis by simp
qed

text \<open>The table never learns a buffer size, so no connection is ever counted as under pressure.\<close>

definition no_bytes :: "metrics \<Rightarrow> bool" where
  "no_bytes ms \<longleftrightarrow> list_all (\<lambda>x. cm_bufferedBytes (snd x) = 0) ms"

lemma no_bytes_set: "no_bytes ms \<Longrightarrow> cm_bufferedBytes m = 0 \<Longrightarrow> no_bytes (set_metrics s m ms)"
  by (induction ms) (auto simp: no_bytes_def)

lemma no_bytes_run: "no_bytes ms \<Longrightarrow> no_bytes (op_run p ms)"
proof (cases p)
  case (Op_event t s w)
  assume "no_bytes ms"
  moreover have "cm_bufferedBytes m = 0" if "map_of ms s = Some m" for m
    using that \<open>no_bytes ms\<close> map_of_SomeD [OF that] by (auto simp: no_bytes_def list_all_iff)
  ultimately show ?thesis using Op_event by (auto simp: throttleEventPerConnection_def no_bytes_set split: option.split)
next
  case (Op_connect t s)
  then show "no_bytes ms \<Longrightarrow> ?thesis" by (simp add: on_connection_def no_bytes_set)
next
  case (Op_disconnect s)
  then show "no_bytes ms \<Longrightarrow> ?thesis" by (auto simp: on_disconnect_def no_bytes_def list_all_iff)
qed

lemma pressure_never_seen:
  assumes "0 \<le> maxBufferSize"
  shows "cs_highPressureConnections (getConnectionMetrics maxBufferSize (fold op_run ops [])) = 0"
proof -
  have keep: "no_bytes ms \<Longrightarrow> no_bytes (fold op_run ops ms)" for ms
    by (induction ops arbitrary: ms) (simp_all add: no_bytes_run)
  have "no_bytes (fold op_run ops [])" by (rule keep) (simp add: no_bytes_def)
  with assms show ?thesis by (auto simp: getConnectionMetrics_def no_bytes_def list_all_iff filter_empty_conv)
qed

end
