(* ===== verification/Admin.thy ===== *)
theory Admin
  imports Soroban Profiles Withdrawals
begin

text \<open>
  Administration (\<open>modules/admin\<close>): the audit trail, the statistics of the dashboard, the preparation and submission of
  changes to the contract's configuration, and the jobs an administrator triggers by hand. The SDK, the node and the job queue's
  clock are parameters; a queue is the list of its jobs.
\<close>

section \<open>Audit trail and statistics\<close>

definition logAuditAction :: "runtime \<Rightarrow> string \<Rightarrow> string \<Rightarrow> string option \<Rightarrow> jsval \<Rightarrow> audit_row dbio" where
  "logAuditAction rt actor action target metadata = add_audit rt actor action target metadata"

definition toAuditLogEntry :: "audit_row \<Rightarrow> audit_row" where
  "toAuditLogEntry row = row\<lparr>au_metadata := (if nullish (au_metadata row) then JObj PlainObject [] else au_metadata row)\<rparr>"

definition given :: "string option \<Rightarrow> bool" where
  "given x \<longleftrightarrow> x \<noteq> None \<and> x \<noteq> Some []"

definition listAuditLogs :: "nat \<Rightarrow> nat \<Rightarrow> string option \<Rightarrow> string option \<Rightarrow> audit_row list dbio" where
  "listAuditLogs limit offset action actor = gets (\<lambda>d. map toAuditLogEntry (take limit (drop offset
     (order_desc au_createdAt (filter (\<lambda>l. (given action \<longrightarrow> Some (au_action l) = action) \<and> (given actor \<longrightarrow> Some (au_actor l) = actor)) (audits d))))))"

definition ACTIVE_WINDOW_MS :: int where
  "ACTIVE_WINDOW_MS = 30 * 24 * 60 * 60 * 1000"

record PlatformStats =
  ps_totalUsers :: nat
  ps_totalCreators :: nat
  ps_totalTips :: nat
  ps_totalTipAmountStroops :: int
  ps_activeUsersLast30Days :: nat
  ps_totalSubscriptions :: nat
  ps_totalRefunds :: nat
  ps_averageTipAmount :: string

definition getPlatformStats :: "int \<Rightarrow> PlatformStats dbio" where
  "getPlatformStats now = gets (\<lambda>d.
     (let totalTips = length (tips d);
          totalTipAmount = sum_rows (\<lambda>t. tip_status t = CONFIRMED) tip_amount (tips d)
      in \<lparr>ps_totalUsers = count_rows (\<lambda>u. u_deletedAt u = None) (users d),
          ps_totalCreators = count_rows (\<lambda>u. u_deletedAt u = None \<and> u_role u \<noteq> ''user'') (users d),
          ps_totalTips = totalTips,
          ps_totalTipAmountStroops = totalTipAmount,
          ps_activeUsersLast30Days = count_rows (\<lambda>u. u_deletedAt u = None \<and> now - ACTIVE_WINDOW_MS \<le> u_createdAt u) (users d),
          ps_totalSubscriptions = count_rows (\<lambda>s. s_deletedAt s = None) (subscriptions d),
          ps_totalRefunds = length (refunds d),
          ps_averageTipAmount = (if 0 < totalTips then show_int (trunc_div totalTipAmount (int totalTips)) else ''0'')\<rparr>))"

text \<open>The middleware that audits a request once its response is sent: the status, the actor the request carries, and what it writes.\<close>

definition auditAdminAction :: "runtime \<Rightarrow> string \<Rightarrow> string \<Rightarrow> string \<Rightarrow> int \<Rightarrow> string option \<Rightarrow> string option \<Rightarrow> unit dbio" where
  "auditAdminAction rt action httpMethod path statusCode auth user =
     (let actorId = (case auth of Some i \<Rightarrow> Some i | None \<Rightarrow> user)
      in if 400 \<le> statusCode \<or> actorId = None \<or> actorId = Some [] then ret ()
         else bnd (logAuditAction rt (the actorId) action None (JObj PlainObject [(''method'', JStr httpMethod), (''path'', JStr path),
                (''statusCode'', JNum (j_int statusCode))])) (\<lambda>_. ret ()))"

section \<open>Changes of the contract's configuration\<close>

record PreparedConfigTx =
  pc_unsignedTxXdr :: string
  pc_description :: string
  pc_contractId :: string
  pc_networkPassphrase :: string

definition getContractId :: "soroban \<Rightarrow> jsval + string" where
  "getContractId so = (if so_contractId so = [] then Inl (bad_request ''CONTRACT_ID is not configured'') else Inr (so_contractId so))"

definition buildUnsignedConfigTx :: "soroban \<Rightarrow> string \<Rightarrow> string \<Rightarrow> sc_val list \<Rightarrow> string dbio" where
  "buildUnsignedConfigTx so adminAddress contractFn args =
     bnd (lift_res (getContractId so)) (\<lambda>contractId.
     bnd (lift_res (or_throw (so_getAccount so adminAddress) (bad_request ''Admin Stellar account not found on network''))) (\<lambda>account.
     bnd (lift_res (so_build so (wallet_call so contractId account contractFn args))) (\<lambda>tx.
     lift_res (simulate_and_assemble so tx))))"

definition prepared_config :: "soroban \<Rightarrow> string \<Rightarrow> string \<Rightarrow> sc_val list \<Rightarrow> string \<Rightarrow> PreparedConfigTx dbio" where
  "prepared_config so adminAddress contractFn args description =
     bnd (lift_res (getContractId so)) (\<lambda>contractId.
     bnd (buildUnsignedConfigTx so adminAddress contractFn args) (\<lambda>xdr.
     ret \<lparr>pc_unsignedTxXdr = xdr, pc_description = description, pc_contractId = contractId, pc_networkPassphrase = getNetworkPassphrase so\<rparr>))"

definition percent_text :: "int \<Rightarrow> string" where
  "percent_text bps = show_int (bps div 100) @ (if bps mod 100 = 0 then []
     else if bps mod 10 = 0 then CHR ''.'' # show_int (bps mod 100 div 10)
     else CHR ''.'' # (if bps mod 100 < 10 then ''0'' else []) @ show_int (bps mod 100))"

text \<open>With the fee and whether it counts as an increase.\<close>

definition prepareSetFee :: "soroban \<Rightarrow> string \<Rightarrow> int \<Rightarrow> (PreparedConfigTx \<times> int \<times> bool) dbio" where
  "prepareSetFee so adminAddress feeBps =
     bnd (prepared_config so adminAddress ''propose_fee_change'' [ScAddress adminAddress, ScU32 feeBps]
       (''Propose fee change to '' @ show_int feeBps @ '' bps ('' @ percent_text feeBps @ ''%). Fee increases are timelocked on-chain.''))
       (\<lambda>p. ret (p, feeBps, 0 < feeBps))"

definition prepare_amount :: "soroban \<Rightarrow> string \<Rightarrow> string \<Rightarrow> string \<Rightarrow> string \<Rightarrow> (PreparedConfigTx \<times> string) dbio" where
  "prepare_amount so adminAddress contractFn amount what =
     bnd (lift_res (getContractId so)) (\<lambda>_.
     bnd (lift_res (big_int amount)) (\<lambda>n.
     bnd (prepared_config so adminAddress contractFn [ScAddress adminAddress, ScI128 (show_int n)] (''Set minimum '' @ what @ '' amount to '' @ amount @ '' stroops.''))
       (\<lambda>p. ret (p, amount))))"

definition prepareSetMinTipAmount :: "soroban \<Rightarrow> string \<Rightarrow> string \<Rightarrow> (PreparedConfigTx \<times> string) dbio" where
  "prepareSetMinTipAmount so adminAddress amount = prepare_amount so adminAddress ''set_min_tip_amount'' amount ''tip''"

definition prepareSetMinWithdrawalAmount :: "soroban \<Rightarrow> string \<Rightarrow> string \<Rightarrow> (PreparedConfigTx \<times> string) dbio" where
  "prepareSetMinWithdrawalAmount so adminAddress amount = prepare_amount so adminAddress ''set_min_withdrawal_amount'' amount ''withdrawal''"

definition prepareSetPaused :: "soroban \<Rightarrow> string \<Rightarrow> bool \<Rightarrow> (PreparedConfigTx \<times> bool) dbio" where
  "prepareSetPaused so adminAddress paused =
     bnd (prepared_config so adminAddress (if paused then ''pause_contract'' else ''unpause_contract'') [ScAddress adminAddress]
       (if paused then ''Pause the contract (emergency stop). All user-facing operations will be blocked.''
        else ''Unpause the contract. Normal operation resumes.''))
       (\<lambda>p. ret (p, paused))"

text \<open>An audit entry whose write fails is logged and forgotten: \<open>lost\<close> says whether it fails.\<close>

definition audit_attempt :: "bool \<Rightarrow> runtime \<Rightarrow> string \<Rightarrow> string \<Rightarrow> string \<Rightarrow> (string \<times> jsval) list \<Rightarrow> unit dbio" where
  "audit_attempt lost rt actorId action target meta =
     (if lost then ret () else bnd (logAuditAction rt actorId action (Some target) (JObj PlainObject meta)) (\<lambda>_. ret ()))"

definition broadcastSignedTx ::
  "bool \<Rightarrow> soroban \<Rightarrow> runtime \<Rightarrow> string \<Rightarrow> string \<Rightarrow> string \<Rightarrow> string \<Rightarrow> (string \<times> jsval) list \<Rightarrow> string dbio" where
  "broadcastSignedTx lost so rt actorId action target signedTxXdr change =
     (case so_fromXDR so signedTxXdr (getNetworkPassphrase so) of
        Inl _ \<Rightarrow> andthen (audit_attempt lost rt actorId action target (change @ [(''result'', JStr ''invalid_xdr'')]))
                   (throw (bad_request ''Invalid signed transaction XDR''))
      | Inr tx \<Rightarrow> (case so_send so tx of
            Inl _ \<Rightarrow> andthen (audit_attempt lost rt actorId action target (change @ [(''result'', JStr ''submission_error'')]))
                       (throw (bad_request ''Failed to submit config transaction to the network''))
          | Inr (status, hash) \<Rightarrow>
              andthen (audit_attempt lost rt actorId action target (change @ [(''txHash'', JStr hash),
                  (''result'', JStr (if status = ''ERROR'' then ''network_rejected'' else ''submitted''))]))
              (andthen (throw_unless (status \<noteq> ''ERROR'') (bad_request ''Config transaction was rejected by the network''))
              (ret hash))))"

definition submitSetFee :: "bool \<Rightarrow> soroban \<Rightarrow> runtime \<Rightarrow> string \<Rightarrow> int \<Rightarrow> string \<Rightarrow> string dbio" where
  "submitSetFee lost so rt actorId feeBps signedTxXdr = broadcastSignedTx lost so rt actorId ''admin.config.set_fee'' ''fee_bps'' signedTxXdr
     [(''field'', JStr ''fee_bps''), (''newFeeBps'', JNum (j_int feeBps))]"

definition submitSetMinTipAmount :: "bool \<Rightarrow> soroban \<Rightarrow> runtime \<Rightarrow> string \<Rightarrow> string \<Rightarrow> string \<Rightarrow> string dbio" where
  "submitSetMinTipAmount lost so rt actorId amount signedTxXdr =
     broadcastSignedTx lost so rt actorId ''admin.config.set_min_tip_amount'' ''min_tip_amount'' signedTxXdr
       [(''field'', JStr ''min_tip_amount''), (''newAmount'', JStr amount)]"

definition submitSetMinWithdrawalAmount :: "bool \<Rightarrow> soroban \<Rightarrow> runtime \<Rightarrow> string \<Rightarrow> string \<Rightarrow> string \<Rightarrow> string dbio" where
  "submitSetMinWithdrawalAmount lost so rt actorId amount signedTxXdr =
     broadcastSignedTx lost so rt actorId ''admin.config.set_min_withdrawal_amount'' ''min_withdrawal_amount'' signedTxXdr
       [(''field'', JStr ''min_withdrawal_amount''), (''newAmount'', JStr amount)]"

definition submitSetPaused :: "bool \<Rightarrow> soroban \<Rightarrow> runtime \<Rightarrow> string \<Rightarrow> bool \<Rightarrow> string \<Rightarrow> string dbio" where
  "submitSetPaused lost so rt actorId paused signedTxXdr =
     broadcastSignedTx lost so rt actorId (if paused then ''admin.config.pause'' else ''admin.config.unpause'') ''paused'' signedTxXdr
       [(''field'', JStr ''paused''), (''newValue'', JBool paused)]"

section \<open>Every attempt is audited\<close>

text \<open>What the node's side makes of a signed transaction, and the outcome the audit entry names.\<close>

definition attempt_outcome :: "soroban \<Rightarrow> string \<Rightarrow> string" where
  "attempt_outcome so xdr = (case so_fromXDR so xdr (getNetworkPassphrase so) of
       Inl _ \<Rightarrow> ''invalid_xdr''
     | Inr tx \<Rightarrow> (case so_send so tx of Inl _ \<Rightarrow> ''submission_error''
         | Inr (status, hash) \<Rightarrow> if status = ''ERROR'' then ''network_rejected'' else ''submitted''))"

definition config_audit :: "runtime \<Rightarrow> string \<Rightarrow> string \<Rightarrow> string \<Rightarrow> (string \<times> jsval) list \<Rightarrow> db \<Rightarrow> audit_row" where
  "config_audit rt actor action target meta d = \<lparr>au_id = rt_cuid rt (nextId d), au_actor = actor, au_action = action,
     au_target = Some target, au_metadata = JObj PlainObject meta, au_createdAt = rt_now rt\<rparr>"

lemma audit_attempt_bnd:
  "bnd (audit_attempt False rt actor action target meta) f d =
     f () (d\<lparr>nextId := Suc (nextId d), audits := audits d @ [config_audit rt actor action target meta d]\<rparr>)"
  by (simp add: bnd_def audit_attempt_def logAuditAction_def add_audit_def config_audit_def Let_def)


section \<open>Jobs triggered by hand\<close>

datatype job_state = Job_active | Job_waiting | Job_delayed | Job_completed | Job_failed

record queue_job =
  qj_id :: string
  qj_name :: string
  qj_data :: jsval
  qj_state :: job_state

record job_queue =
  jq_name :: string
  jq_jobs :: "queue_job list"

definition in_flight :: "queue_job \<Rightarrow> bool" where
  "in_flight j \<longleftrightarrow> qj_state j = Job_active \<or> qj_state j = Job_waiting"

text \<open>The queue is asked for its first jobs only; adding a job whose id is taken adds nothing.\<close>

definition first_in_flight :: "job_queue \<Rightarrow> queue_job list" where
  "first_in_flight q = take 101 (filter in_flight (jq_jobs q))"

definition remove_job :: "string \<Rightarrow> job_queue \<Rightarrow> job_queue" where
  "remove_job i q = q\<lparr>jq_jobs := filter (\<lambda>j. qj_id j \<noteq> i) (jq_jobs q)\<rparr>"

definition queue_add :: "string \<Rightarrow> string \<Rightarrow> jsval \<Rightarrow> job_queue \<Rightarrow> job_queue" where
  "queue_add i name payload q = (if i \<in> qj_id ` set (jq_jobs q) then q
     else q\<lparr>jq_jobs := jq_jobs q @ [\<lparr>qj_id = i, qj_name = name, qj_data = payload, qj_state = Job_waiting\<rparr>]\<rparr>)"

record ManualJobTriggerResult =
  mj_queue :: string
  mj_jobName :: string
  mj_jobId :: string

definition lock_id :: "job_queue \<Rightarrow> string \<Rightarrow> string" where
  "lock_id q jobName = ''manual:'' @ jq_name q @ CHR '':'' # jobName"

definition already_running :: "job_queue \<Rightarrow> string \<Rightarrow> jsval" where
  "already_running q jobName = conflict (''Job '' @ jq_name q @ CHR ''/'' # jobName @ '' is already running or queued'')"

text \<open>\<open>mid\<close> is what others do to the queue between the checks and the addition.\<close>

definition enqueueManualJob :: "(job_queue \<Rightarrow> job_queue) \<Rightarrow> string \<Rightarrow> jsval \<Rightarrow> (job_queue, jsval, ManualJobTriggerResult) io" where
  "enqueueManualJob mid jobName payload =
     bnd (gets id) (\<lambda>q.
     andthen (throw_unless (\<not> list_ex (\<lambda>j. qj_name j = jobName) (first_in_flight q)) (already_running q jobName))
     (andthen (case find (\<lambda>j. qj_id j = lock_id q jobName) (jq_jobs q) of
         None \<Rightarrow> ret ()
       | Some existing \<Rightarrow> andthen (throw_unless (\<not> in_flight existing) (already_running q jobName))
                            (modify (remove_job (lock_id q jobName))))
     (andthen (modify mid)
     (andthen (modify (queue_add (lock_id q jobName) jobName payload))
     (ret \<lparr>mj_queue = jq_name q, mj_jobName = jobName, mj_jobId = lock_id q jobName\<rparr>)))))"

definition MANUAL_JOB_NAMES :: "string list" where
  "MANUAL_JOB_NAMES = [''credit-recompute'', ''analytics-daily'', ''subscription-charge'', ''leaderboard-snapshot'', ''x-metrics-refresh'',
     ''discovery'', ''platform-stats'', ''payout'', ''auth-challenge-cleanup'', ''retention'']"

text \<open>The queue of a job has its name; the name of the job within the queue is this.\<close>

definition JOBS :: "string \<Rightarrow> string option" where
  "JOBS name = map_of (zip MANUAL_JOB_NAMES [''recompute'', ''rollup'', ''charge'', ''snapshot'', ''refresh'', ''refresh'', ''refresh'',
     ''sweep'', ''cleanup'', ''prune'']) name"

definition days_in :: "int \<Rightarrow> int \<Rightarrow> int" where
  "days_in y m = (if m = 2 then (if (4 dvd y \<and> \<not> 100 dvd y) \<or> 400 dvd y then 29 else 28)
     else if m \<in> {4, 6, 9, 11} then 30 else 31)"

definition calendar_date :: "string \<Rightarrow> bool" where
  "calendar_date s \<longleftrightarrow> length s = 10 \<and> list_all is_digit (take 4 s @ take 2 (drop 5 s) @ drop 8 s) \<and>
     s ! 4 = CHR ''-'' \<and> s ! 7 = CHR ''-'' \<and>
     (let y = parse_int (take 4 s); m = parse_int (take 2 (drop 5 s)); dd = parse_int (drop 8 s)
      in 1 \<le> m \<and> m \<le> 12 \<and> 1 \<le> dd \<and> dd \<le> days_in y m)"

definition job_params_ok :: "string \<Rightarrow> (string \<times> jsval) list \<Rightarrow> bool" where
  "job_params_ok name ps \<longleftrightarrow> (if name = ''analytics-daily''
     then list_all (\<lambda>p. fst p = ''date'' \<and> (case snd p of JStr s \<Rightarrow> calendar_date s | v \<Rightarrow> v = Undefined)) ps
     else ps = [])"

definition validateManualJobParams :: "string \<Rightarrow> (string \<times> jsval) list \<Rightarrow> jsval + jsval" where
  "validateManualJobParams name ps = (if job_params_ok name ps then Inr (JObj PlainObject ps)
     else Inl (bad_request ''Invalid manual job parameters''))"

text \<open>The audit entries of jobs have a shape of their own, the queue and the entries are the state.\<close>

record AuditLogInput =
  al_action :: string
  al_actorType :: string
  al_actorId :: string
  al_trigger :: string
  al_input :: jsval
  al_outcome :: string
  al_error :: "string option"
  al_resourceId :: "string option"
  al_resourceType :: "string option"

record job_world =
  jw_queue :: job_queue
  jw_audits :: "AuditLogInput list"

definition createAuditLog :: "bool \<Rightarrow> AuditLogInput \<Rightarrow> (job_world, jsval, unit) io" where
  "createAuditLog lost entry = (if lost then ret () else modify (\<lambda>w. w\<lparr>jw_audits := jw_audits w @ [entry]\<rparr>))"

definition on_queue :: "(job_queue, jsval, 'a) io \<Rightarrow> (job_world, jsval, 'a) io" where
  "on_queue m = (\<lambda>w. case m (jw_queue w) of (r, q) \<Rightarrow> (r, w\<lparr>jw_queue := q\<rparr>))"

definition job_audit :: "string \<Rightarrow> string \<Rightarrow> (string \<times> jsval) list \<Rightarrow> string \<Rightarrow> string option \<Rightarrow> string option \<Rightarrow> AuditLogInput" where
  "job_audit name actorId ps result err resource = \<lparr>al_action = ''job_execution:'' @ name, al_actorType = ''user'', al_actorId = actorId,
     al_trigger = ''manual'', al_input = JObj PlainObject ps, al_outcome = result, al_error = err, al_resourceId = resource,
     al_resourceType = Some ''job''\<rparr>"

definition triggerManualJob :: "bool \<Rightarrow> (job_queue \<Rightarrow> job_queue) \<Rightarrow> string \<Rightarrow> string \<Rightarrow> (string \<times> jsval) list \<Rightarrow> (job_world, jsval, ManualJobTriggerResult) io" where
  "triggerManualJob lost mid name actorId ps =
     bnd (require (JOBS name) (bad_request ''Unknown scheduled job'')) (\<lambda>jobName.
     bnd (lift_res (validateManualJobParams name ps)) (\<lambda>validated.
     try_catch
       (bnd (on_queue (enqueueManualJob mid jobName validated)) (\<lambda>result.
        andthen (createAuditLog lost (job_audit name actorId ps ''success'' None (Some (mj_jobId result)))) (ret result)))
       (\<lambda>e. andthen (createAuditLog lost (job_audit name actorId ps ''failure'' (Some (error_message e)) None)) (throw e))))"

text \<open>The entries of scheduled jobs and API calls.\<close>

definition logJobExecution :: "bool \<Rightarrow> string \<Rightarrow> jsval \<Rightarrow> string \<Rightarrow> string option \<Rightarrow> string option \<Rightarrow> string option \<Rightarrow> (job_world, jsval, unit) io" where
  "logJobExecution lost jobName inputs result err resourceId resourceType =
     createAuditLog lost \<lparr>al_action = ''job_execution:'' @ jobName, al_actorType = ''system'', al_actorId = jobName, al_trigger = ''scheduled'',
       al_input = inputs, al_outcome = result, al_error = (if err = Some [] then None else err), al_resourceId = resourceId, al_resourceType = resourceType\<rparr>"

definition logApiCall :: "bool \<Rightarrow> string \<Rightarrow> string \<Rightarrow> jsval \<Rightarrow> string \<Rightarrow> string option \<Rightarrow> string option \<Rightarrow> string option \<Rightarrow> (job_world, jsval, unit) io" where
  "logApiCall lost userId action inputs result err resourceId resourceType =
     createAuditLog lost \<lparr>al_action = action, al_actorType = ''user'', al_actorId = userId, al_trigger = ''manual'', al_input = inputs,
       al_outcome = result, al_error = (if err = Some [] then None else err), al_resourceId = resourceId, al_resourceType = resourceType\<rparr>"

section \<open>The lock of a manual job\<close>

definition ids_unique :: "job_queue \<Rightarrow> bool" where
  "ids_unique q \<longleftrightarrow> distinct (map qj_id (jq_jobs q))"

lemma queue_add_ids: "ids_unique q \<Longrightarrow> ids_unique (queue_add i name p q) \<and> i \<in> qj_id ` set (jq_jobs (queue_add i name p q))"
  by (auto simp: queue_add_def ids_unique_def)

lemma remove_job_ids: "ids_unique q \<Longrightarrow> ids_unique (remove_job i q)"
  by (simp add: ids_unique_def remove_job_def distinct_map_filter)

lemma count_id: "distinct (map qj_id js) \<Longrightarrow> i \<in> qj_id ` set js \<Longrightarrow> length (filter (\<lambda>j. qj_id j = i) js) = 1"
  by (induction js) (auto simp: filter_empty_conv image_iff)

text \<open>What a trigger makes of the queue: refused without a change, or let through to the addition.\<close>

definition trigger_refused :: "string \<Rightarrow> job_queue \<Rightarrow> bool" where
  "trigger_refused jobName q \<longleftrightarrow> list_ex (\<lambda>j. qj_name j = jobName) (first_in_flight q) \<or>
     list_ex (\<lambda>j. qj_id j = lock_id q jobName \<and> in_flight j) (jq_jobs q)"

definition cleared :: "string \<Rightarrow> job_queue \<Rightarrow> job_queue" where
  "cleared i q = (if i \<in> qj_id ` set (jq_jobs q) then remove_job i q else q)"

lemma find_unique_id: "distinct (map qj_id js) \<Longrightarrow> find (\<lambda>j. qj_id j = i) js = Some x \<Longrightarrow> list_ex (\<lambda>j. qj_id j = i \<and> p j) js = p x"
  by (induction js) (auto simp: list_ex_iff image_iff split: if_splits)

lemma enqueue_run:
  assumes "ids_unique q"
  shows "enqueueManualJob mid jobName payload q =
    (if trigger_refused jobName q then (Inl (already_running q jobName), q)
     else (Inr \<lparr>mj_queue = jq_name q, mj_jobName = jobName, mj_jobId = lock_id q jobName\<rparr>,
           queue_add (lock_id q jobName) jobName payload (mid (cleared (lock_id q jobName) q))))"
proof (cases "find (\<lambda>j. qj_id j = lock_id q jobName) (jq_jobs q)")
  case None
  then have "lock_id q jobName \<notin> qj_id ` set (jq_jobs q)" by (auto simp: find_None_iff)
  moreover from this have "\<not> list_ex (\<lambda>j. qj_id j = lock_id q jobName \<and> in_flight j) (jq_jobs q)" by (auto simp: list_ex_iff image_iff)
  ultimately show ?thesis using None
    by (simp add: enqueueManualJob_def trigger_refused_def cleared_def throw_unless_def)
next
  case (Some x)
  then have "x \<in> set (jq_jobs q)" "qj_id x = lock_id q jobName" by (auto simp: find_Some_iff)
  then have "lock_id q jobName \<in> qj_id ` set (jq_jobs q)" by (metis imageI)
  moreover have "list_ex (\<lambda>j. qj_id j = lock_id q jobName \<and> in_flight j) (jq_jobs q) = in_flight x"
    using assms Some by (intro find_unique_id) (simp_all add: ids_unique_def)
  ultimately show ?thesis using Some
    by (simp add: enqueueManualJob_def trigger_refused_def cleared_def throw_unless_def)
qed


text \<open>Two overlapping triggers of one job: both are let through and report the same job.\<close>

definition idle_queue :: job_queue where
  "idle_queue = \<lparr>jq_name = ''payout'', jq_jobs = [\<lparr>qj_id = ''manual:payout:sweep'', qj_name = ''sweep'', qj_data = Null, qj_state = Job_failed\<rparr>]\<rparr>"


end
