(* ===== verification/ClientSession.thy ===== *)
theory ClientSession
  imports JsValues
begin

text \<open>
  The web client's side of a session (\<open>frontend-scaffold/src/services/auth/tokenManager.ts\<close>): the token pair and its copy in
  the browser's storage, the status the interface shows, the proactive timer and the one refresh in flight. A refresh begins in one
  step and settles in another, with anything in between; the server's answers, the base64 decoder and the JSON parser are parameters.
\<close>

section \<open>State\<close>

record TokenPair =
  tp_accessToken :: string
  tp_refreshToken :: string

datatype AuthStatus = Unauthenticated | Authenticated | Refreshing | Reauth_required

text \<open>
  \<open>tm_notified\<close> are the statuses the listeners were called with, \<open>tm_refreshes\<close> the refresh tokens of the requests whose
  answer is outstanding, \<open>tm_revoked\<close> those sent to be revoked.
\<close>

record token_manager =
  tm_tokens :: "TokenPair option"
  tm_stored :: "TokenPair option"
  tm_inFlight :: "string option"
  tm_timer :: "rat option"
  tm_status :: AuthStatus
  tm_notified :: "AuthStatus list"
  tm_refreshes :: "string list"
  tm_revoked :: "string list"

record client_env =
  ce_atob :: "string \<Rightarrow> string option"
  ce_json :: "string \<Rightarrow> jsval option"
  ce_writable :: bool

definition REFRESH_MARGIN_MS :: rat where
  "REFRESH_MARGIN_MS = 60000"

definition initial_manager :: token_manager where
  "initial_manager = \<lparr>tm_tokens = None, tm_stored = None, tm_inFlight = None, tm_timer = None, tm_status = Unauthenticated,
     tm_notified = [], tm_refreshes = [], tm_revoked = []\<rparr>"

text \<open>The module reads the storage when it is loaded; \<open>raw\<close> is the text found there.\<close>

definition loadFromStorage :: "client_env \<Rightarrow> string option \<Rightarrow> token_manager \<Rightarrow> token_manager" where
  "loadFromStorage env raw tm = (case raw of
       None \<Rightarrow> tm
     | Some text \<Rightarrow>
         if text = [] then tm
         else (case ce_json env text of
             None \<Rightarrow> tm\<lparr>tm_tokens := None\<rparr>
           | Some v \<Rightarrow> (case (get_prop v ''accessToken'', get_prop v ''refreshToken'') of
                 (JStr a, JStr r) \<Rightarrow> tm\<lparr>tm_tokens := Some \<lparr>tp_accessToken = a, tp_refreshToken = r\<rparr>, tm_status := Authenticated\<rparr>
               | _ \<Rightarrow> tm)))"

section \<open>Operations\<close>

definition setStatus :: "AuthStatus \<Rightarrow> token_manager \<Rightarrow> token_manager" where
  "setStatus next tm = (if tm_status tm = next then tm else tm\<lparr>tm_status := next, tm_notified := tm_notified tm @ [next]\<rparr>)"

definition persist :: "client_env \<Rightarrow> token_manager \<Rightarrow> token_manager" where
  "persist env tm = (if ce_writable env then tm\<lparr>tm_stored := tm_tokens tm\<rparr> else tm)"

definition clearProactiveTimer :: "token_manager \<Rightarrow> token_manager" where
  "clearProactiveTimer tm = tm\<lparr>tm_timer := None\<rparr>"

definition url_char :: "char \<Rightarrow> char" where
  "url_char c = (if c = CHR ''-'' then CHR ''+'' else if c = CHR ''_'' then CHR ''/'' else c)"

definition decodeTokenExpMs :: "client_env \<Rightarrow> string \<Rightarrow> rat option" where
  "decodeTokenExpMs env token = (case split_on (CHR ''.'') token of
       _ # part # _ \<Rightarrow>
         (let normalized = map url_char part;
              padded = normalized @ replicate ((4 - length normalized mod 4) mod 4) (CHR ''='')
          in case ce_atob env padded of
               None \<Rightarrow> None
             | Some text \<Rightarrow> (case ce_json env text of
                   None \<Rightarrow> None
                 | Some v \<Rightarrow> (case get_prop v ''exp'' of JNum (Fin e) \<Rightarrow> Some (e * 1000) | _ \<Rightarrow> None)))
     | _ \<Rightarrow> None)"

definition scheduleProactiveRefresh :: "client_env \<Rightarrow> rat \<Rightarrow> token_manager \<Rightarrow> token_manager" where
  "scheduleProactiveRefresh env now tm = (let tm' = clearProactiveTimer tm in
     case tm_tokens tm' of
       None \<Rightarrow> tm'
     | Some pair \<Rightarrow> (case decodeTokenExpMs env (tp_accessToken pair) of
           None \<Rightarrow> tm'
         | Some e \<Rightarrow> tm'\<lparr>tm_timer := Some (now + max 0 (e - REFRESH_MARGIN_MS - now))\<rparr>))"

definition setTokens :: "client_env \<Rightarrow> rat \<Rightarrow> TokenPair \<Rightarrow> token_manager \<Rightarrow> token_manager" where
  "setTokens env now pair tm = scheduleProactiveRefresh env now (setStatus Authenticated (persist env (tm\<lparr>tm_tokens := Some pair\<rparr>)))"

definition clearTokens :: "client_env \<Rightarrow> token_manager \<Rightarrow> token_manager" where
  "clearTokens env tm = setStatus Unauthenticated (persist env (clearProactiveTimer (tm\<lparr>tm_tokens := None\<rparr>)))"

definition hasSession :: "token_manager \<Rightarrow> bool" where
  "hasSession tm \<longleftrightarrow> tm_tokens tm \<noteq> None"

definition hasValidSession :: "token_manager \<Rightarrow> bool" where
  "hasValidSession tm \<longleftrightarrow> tm_tokens tm \<noteq> None \<and> tm_status tm \<noteq> Reauth_required"

text \<open>Beginning a refresh: callers share the one in flight.\<close>

definition refreshTokens :: "token_manager \<Rightarrow> token_manager" where
  "refreshTokens tm = (if tm_inFlight tm \<noteq> None then tm
     else (case tm_tokens tm of
         None \<Rightarrow> setStatus Reauth_required tm
       | Some pair \<Rightarrow>
           if tp_refreshToken pair = [] then setStatus Reauth_required tm
           else (setStatus Refreshing tm)\<lparr>tm_inFlight := Some (tp_refreshToken pair),
                  tm_refreshes := tm_refreshes tm @ [tp_refreshToken pair]\<rparr>))"

text \<open>The answer of the server: a pair, whose parts may be missing, or a failure.\<close>

definition refresh_settled :: "client_env \<Rightarrow> rat \<Rightarrow> (string \<times> string) option \<Rightarrow> token_manager \<Rightarrow> token_manager" where
  "refresh_settled env now answer tm =
     (let tm' = (case answer of
           Some (a, r) \<Rightarrow> if a = [] \<or> r = [] then setStatus Reauth_required tm
                          else setTokens env now \<lparr>tp_accessToken = a, tp_refreshToken = r\<rparr> tm
         | None \<Rightarrow> setStatus Reauth_required tm)
      in tm'\<lparr>tm_inFlight := None, tm_refreshes := tl (tm_refreshes tm')\<rparr>)"

text \<open>What a caller gets at once: no token, the one at hand, or, when a refresh is due, nothing yet.\<close>

datatype access = No_session | Token string | After_refresh

definition getValidAccessToken :: "client_env \<Rightarrow> rat \<Rightarrow> token_manager \<Rightarrow> access \<times> token_manager" where
  "getValidAccessToken env now tm = (case tm_tokens tm of
       None \<Rightarrow> (No_session, tm)
     | Some pair \<Rightarrow> (case decodeTokenExpMs env (tp_accessToken pair) of
           None \<Rightarrow> (Token (tp_accessToken pair), tm)
         | Some e \<Rightarrow> if now < e - REFRESH_MARGIN_MS then (Token (tp_accessToken pair), tm) else (After_refresh, refreshTokens tm)))"

definition forceLogout :: "client_env \<Rightarrow> token_manager \<Rightarrow> token_manager" where
  "forceLogout env tm = (let tm' = setStatus Reauth_required (clearTokens env tm) in
     case tm_tokens tm of
       None \<Rightarrow> tm'
     | Some pair \<Rightarrow> if tp_refreshToken pair = [] then tm' else tm'\<lparr>tm_revoked := tm_revoked tm' @ [tp_refreshToken pair]\<rparr>)"

definition dismissReauth :: "token_manager \<Rightarrow> token_manager" where
  "dismissReauth tm = setStatus (if tm_tokens tm \<noteq> None then Authenticated else Unauthenticated) tm"

definition timer_fires :: "rat \<Rightarrow> token_manager \<Rightarrow> token_manager" where
  "timer_fires now tm = (case tm_timer tm of None \<Rightarrow> tm | Some t \<Rightarrow> if t \<le> now then refreshTokens (tm\<lparr>tm_timer := None\<rparr>) else tm)"

section \<open>Histories\<close>

datatype client_op = Sign_in rat TokenPair | Sign_out | Ask_token rat | Ask_refresh | Settle rat "(string \<times> string) option"
  | Force_logout | Dismiss | Timer rat

text \<open>An answer only arrives while a request is outstanding.\<close>

fun client_run :: "client_env \<Rightarrow> client_op \<Rightarrow> token_manager \<Rightarrow> token_manager" where
  "client_run env (Sign_in now pair) tm = setTokens env now pair tm"
| "client_run env Sign_out tm = clearTokens env tm"
| "client_run env (Ask_token now) tm = snd (getValidAccessToken env now tm)"
| "client_run env Ask_refresh tm = refreshTokens tm"
| "client_run env (Settle now answer) tm = (if tm_refreshes tm = [] then tm else refresh_settled env now answer tm)"
| "client_run env Force_logout tm = forceLogout env tm"
| "client_run env Dismiss tm = dismissReauth tm"
| "client_run env (Timer now) tm = timer_fires now tm"

definition client_history :: "client_env \<Rightarrow> client_op list \<Rightarrow> token_manager" where
  "client_history env ops = fold (client_run env) ops initial_manager"

definition manager_ok :: "client_env \<Rightarrow> token_manager \<Rightarrow> bool" where
  "manager_ok env tm \<longleftrightarrow>
     tm_refreshes tm = (case tm_inFlight tm of None \<Rightarrow> [] | Some r \<Rightarrow> [r]) \<and>
     (tm_status tm = Authenticated \<longrightarrow> tm_tokens tm \<noteq> None) \<and>
     (tm_status tm = Refreshing \<longrightarrow> tm_inFlight tm \<noteq> None \<and> tm_tokens tm \<noteq> None) \<and>
     (ce_writable env \<longrightarrow> tm_stored tm = tm_tokens tm)"

lemma setStatus_frame [simp]:
  "tm_tokens (setStatus s tm) = tm_tokens tm" "tm_stored (setStatus s tm) = tm_stored tm" "tm_inFlight (setStatus s tm) = tm_inFlight tm"
  "tm_timer (setStatus s tm) = tm_timer tm" "tm_refreshes (setStatus s tm) = tm_refreshes tm" "tm_status (setStatus s tm) = s"
  "tm_revoked (setStatus s tm) = tm_revoked tm"
  by (simp_all add: setStatus_def)

lemma schedule_frame [simp]:
  "tm_tokens (scheduleProactiveRefresh env now tm) = tm_tokens tm" "tm_stored (scheduleProactiveRefresh env now tm) = tm_stored tm"
  "tm_inFlight (scheduleProactiveRefresh env now tm) = tm_inFlight tm" "tm_refreshes (scheduleProactiveRefresh env now tm) = tm_refreshes tm"
  "tm_status (scheduleProactiveRefresh env now tm) = tm_status tm" "tm_revoked (scheduleProactiveRefresh env now tm) = tm_revoked tm"
  by (simp_all add: scheduleProactiveRefresh_def clearProactiveTimer_def Let_def split: option.split)

lemma setTokens_frame [simp]:
  "tm_tokens (setTokens env now pair tm) = Some pair" "tm_inFlight (setTokens env now pair tm) = tm_inFlight tm"
  "tm_refreshes (setTokens env now pair tm) = tm_refreshes tm" "tm_status (setTokens env now pair tm) = Authenticated"
  "tm_stored (setTokens env now pair tm) = (if ce_writable env then Some pair else tm_stored tm)"
  by (simp_all add: setTokens_def persist_def)

lemma clearTokens_frame [simp]:
  "tm_tokens (clearTokens env tm) = None" "tm_inFlight (clearTokens env tm) = tm_inFlight tm"
  "tm_refreshes (clearTokens env tm) = tm_refreshes tm" "tm_status (clearTokens env tm) = Unauthenticated"
  "tm_stored (clearTokens env tm) = (if ce_writable env then None else tm_stored tm)"
  by (simp_all add: clearTokens_def persist_def clearProactiveTimer_def)

lemma refresh_ok: "manager_ok env tm \<Longrightarrow> manager_ok env (refreshTokens tm)"
  by (simp add: manager_ok_def refreshTokens_def split: option.splits)

lemma settled_ok: "manager_ok env tm \<Longrightarrow> tm_refreshes tm \<noteq> [] \<Longrightarrow> manager_ok env (refresh_settled env now answer tm)"
  by (auto simp: manager_ok_def refresh_settled_def Let_def split: option.splits)

lemma logout_ok: "manager_ok env tm \<Longrightarrow> manager_ok env (forceLogout env tm)"
  by (simp add: manager_ok_def forceLogout_def Let_def split: option.splits)

lemma manager_ok_timer [simp]: "manager_ok env (tm\<lparr>tm_timer := t\<rparr>) = manager_ok env tm"
  by (simp add: manager_ok_def)

lemma timer_ok: "manager_ok env tm \<Longrightarrow> manager_ok env (timer_fires now tm)"
  by (auto simp: timer_fires_def refresh_ok split: option.split)

lemma client_run_ok: "manager_ok env tm \<Longrightarrow> manager_ok env (client_run env p tm)"
proof (cases p)
  case (Ask_token now)
  assume "manager_ok env tm"
  with Ask_token refresh_ok show ?thesis by (simp add: getValidAccessToken_def split: option.split)
next
  case Dismiss
  assume "manager_ok env tm"
  with Dismiss show ?thesis by (auto simp: dismissReauth_def manager_ok_def)
qed (auto simp: refresh_ok settled_ok logout_ok timer_ok, auto simp: manager_ok_def)

text \<open>
  C23. Whatever the interface, the timer and the server do, in any order: at most one refresh request is outstanding, and it is the one in
  flight; the interface shows a session only while there are tokens, and shows a refresh only while one is in flight; and the storage
  holds the tokens in use as long as it can be written.
\<close>

theorem one_refresh_in_flight:
  "length (tm_refreshes (client_history env ops)) \<le> 1 \<and> manager_ok env (client_history env ops)"
proof -
  have keep: "manager_ok env tm \<Longrightarrow> manager_ok env (fold (client_run env) ops tm)" for tm
    by (induction ops arbitrary: tm) (simp_all add: client_run_ok)
  have "manager_ok env (client_history env ops)"
    unfolding client_history_def by (rule keep) (simp add: manager_ok_def initial_manager_def)
  then show ?thesis by (simp add: manager_ok_def split: option.splits)
qed

text \<open>
  A refresh that settles after the user has signed out, or has signed in as someone else, takes the session over: whatever happened
  since it began, the tokens in use and in the storage are those of the refreshed session, and the interface shows it as signed in.
\<close>

theorem late_refresh_takes_over:
  assumes "tm_refreshes tm \<noteq> []" and "a \<noteq> []" and "r \<noteq> []" and "list_all (\<lambda>p. \<not> (\<exists>now x. p = Settle now x)) ops"
  shows "let tm' = client_run env (Settle now (Some (a, r))) (fold (client_run env) ops tm)
    in tm_tokens tm' = Some \<lparr>tp_accessToken = a, tp_refreshToken = r\<rparr> \<and> tm_status tm' = Authenticated"
proof -
  have one: "tm_refreshes (client_run env p tm) \<noteq> []" if "tm_refreshes tm \<noteq> []" "\<not> (\<exists>now x. p = Settle now x)" for p tm
    using that by (cases p) (auto simp: getValidAccessToken_def refreshTokens_def forceLogout_def dismissReauth_def timer_fires_def Let_def split: option.split)
  have "tm_refreshes (fold (client_run env) ops tm) \<noteq> []"
    using assms(1,4) by (induction ops arbitrary: tm) (simp_all add: one)
  with assms(2,3) show ?thesis by (simp add: Let_def refresh_settled_def)
qed

text \<open>Alice's refresh settles after she has signed out and Bob has signed in.\<close>

definition plain_env :: client_env where
  "plain_env = \<lparr>ce_atob = (\<lambda>_. None), ce_json = (\<lambda>_. None), ce_writable = True\<rparr>"

definition alice_refreshing :: token_manager where
  "alice_refreshing = client_history plain_env [Sign_in 0 \<lparr>tp_accessToken = ''alice-1'', tp_refreshToken = ''ar-1''\<rparr>, Ask_refresh]"

definition bob_signs_in :: "client_op list" where
  "bob_signs_in = [Force_logout, Sign_in 1 \<lparr>tp_accessToken = ''bob-1'', tp_refreshToken = ''br-1''\<rparr>]"

lemma late_refresh_takes_over_witness:
  "tm_tokens (client_run plain_env (Settle 2 (Some (''alice-2'', ''ar-2''))) (fold (client_run plain_env) bob_signs_in alice_refreshing)) =
     Some \<lparr>tp_accessToken = ''alice-2'', tp_refreshToken = ''ar-2''\<rparr>"
proof -
  have out: "tm_refreshes alice_refreshing \<noteq> []"
    by (simp add: alice_refreshing_def client_history_def refreshTokens_def initial_manager_def)
  from late_refresh_takes_over [OF out, of "''alice-2''" "''ar-2''" bob_signs_in plain_env 2] show ?thesis
    by (simp add: bob_signs_in_def Let_def)
qed

end
