(* ===== verification/ClientCache.thy ===== *)
theory ClientCache
  imports Errors
begin

text \<open>
  The caches of the web client: the cache of contract reads (\<open>frontend-scaffold/src/services/cache.ts\<close>) with its bound and
  its refresh in the background, and the query cache (\<open>frontend-scaffold/src/lib/queryCache.ts\<close>) with its shared requests and
  subscribers. A fetch begins in one step and settles in another; what is fetched is a type parameter. Times are in milliseconds.
\<close>

section \<open>The cache of contract reads\<close>

record 'a cache_entry =
  cq_data :: 'a
  cq_expiresAt :: int
  cq_refreshing :: bool
  cq_lastUpdatedAt :: int
  cq_lastAccessedAt :: int

text \<open>A fetch under way: on a miss the entry it will write is dated at its start, on a refresh at its end.\<close>

datatype fetch_kind = Miss int | Refresh

record fetch =
  ft_id :: nat
  ft_key :: string
  ft_ttl :: int
  ft_kind :: fetch_kind

record 'a contract_cache =
  cc_entries :: "(string \<times> 'a cache_entry) list"
  cc_hits :: nat
  cc_misses :: nat
  cc_staleHits :: nat
  cc_evictions :: nat
  cc_invalidations :: nat
  cc_fetches :: "fetch list"
  cc_next :: nat

definition empty_cache :: "'a contract_cache" where
  "empty_cache = \<lparr>cc_entries = [], cc_hits = 0, cc_misses = 0, cc_staleHits = 0, cc_evictions = 0, cc_invalidations = 0, cc_fetches = [], cc_next = 0\<rparr>"

fun put :: "string \<Rightarrow> 'b \<Rightarrow> (string \<times> 'b) list \<Rightarrow> (string \<times> 'b) list" where
  "put k v [] = [(k, v)]"
| "put k v (x # xs) = (if fst x = k then (k, v) # xs else x # put k v xs)"

definition oldest :: "nat \<Rightarrow> (string \<times> 'a cache_entry) list \<Rightarrow> (string \<times> 'a cache_entry) list" where
  "oldest n es = take n (sort_key (\<lambda>x. cq_lastAccessedAt (snd x)) es)"

definition enforceMaxSize :: "nat \<Rightarrow> 'a contract_cache \<Rightarrow> 'a contract_cache" where
  "enforceMaxSize maxSize c = (if length (cc_entries c) \<le> maxSize then c
     else (let victims = oldest (length (cc_entries c) - maxSize) (cc_entries c)
           in c\<lparr>cc_entries := filter (\<lambda>x. fst x \<notin> fst ` set victims) (cc_entries c), cc_evictions := cc_evictions c + length victims\<rparr>))"

definition set_entry :: "nat \<Rightarrow> string \<Rightarrow> 'a cache_entry \<Rightarrow> 'a contract_cache \<Rightarrow> 'a contract_cache" where
  "set_entry maxSize key e c = enforceMaxSize maxSize (c\<lparr>cc_entries := put key e (cc_entries c)\<rparr>)"

text \<open>What a caller gets at once: the data, or the fetch it waits for.\<close>

datatype 'a lookup = Found 'a | Wait nat

definition begin_fetch :: "string \<Rightarrow> int \<Rightarrow> fetch_kind \<Rightarrow> 'a contract_cache \<Rightarrow> 'a contract_cache" where
  "begin_fetch key ttl kind c = c\<lparr>cc_fetches := cc_fetches c @ [\<lparr>ft_id = cc_next c, ft_key = key, ft_ttl = ttl, ft_kind = kind\<rparr>],
     cc_next := cc_next c + 1\<rparr>"

definition touch :: "int \<Rightarrow> string \<Rightarrow> 'a cache_entry \<Rightarrow> 'a contract_cache \<Rightarrow> 'a contract_cache" where
  "touch now key e c = c\<lparr>cc_entries := put key (e\<lparr>cq_lastAccessedAt := now\<rparr>) (cc_entries c)\<rparr>"

definition getOrFetch :: "int \<Rightarrow> string \<Rightarrow> int \<Rightarrow> 'a contract_cache \<Rightarrow> 'a lookup \<times> 'a contract_cache" where
  "getOrFetch now key ttlMs c = (case map_of (cc_entries c) key of
       None \<Rightarrow> (Wait (cc_next c), begin_fetch key ttlMs (Miss now) (c\<lparr>cc_misses := cc_misses c + 1\<rparr>))
     | Some cached \<Rightarrow>
         if now < cq_expiresAt cached then (Found (cq_data cached), touch now key cached (c\<lparr>cc_hits := cc_hits c + 1\<rparr>))
         else if cq_refreshing cached then (Found (cq_data cached), touch now key cached (c\<lparr>cc_staleHits := cc_staleHits c + 1\<rparr>))
         else (Found (cq_data cached), begin_fetch key ttlMs Refresh
                (touch now key (cached\<lparr>cq_refreshing := True\<rparr>) (c\<lparr>cc_staleHits := cc_staleHits c + 1\<rparr>))))"

definition settled_entry :: "int \<Rightarrow> fetch \<Rightarrow> 'a \<Rightarrow> 'a cache_entry" where
  "settled_entry now f v = (let t = (case ft_kind f of Miss started \<Rightarrow> started | Refresh \<Rightarrow> now)
     in \<lparr>cq_data = v, cq_expiresAt = t + ft_ttl f, cq_refreshing = False, cq_lastUpdatedAt = t, cq_lastAccessedAt = t\<rparr>)"

definition clear_refresh :: "string \<Rightarrow> 'a contract_cache \<Rightarrow> 'a contract_cache" where
  "clear_refresh key c = (case map_of (cc_entries c) key of
       None \<Rightarrow> c | Some e \<Rightarrow> c\<lparr>cc_entries := put key (e\<lparr>cq_refreshing := False\<rparr>) (cc_entries c)\<rparr>)"

text \<open>A fetch settles with its data or fails.\<close>

definition settle :: "nat \<Rightarrow> int \<Rightarrow> nat \<Rightarrow> 'a option \<Rightarrow> 'a contract_cache \<Rightarrow> 'a contract_cache" where
  "settle maxSize now i outcome c = (case find (\<lambda>f. ft_id f = i) (cc_fetches c) of
       None \<Rightarrow> c
     | Some f \<Rightarrow>
         (let c' = c\<lparr>cc_fetches := filter (\<lambda>g. ft_id g \<noteq> i) (cc_fetches c)\<rparr>
          in case (ft_kind f, outcome) of
               (Miss _, None) \<Rightarrow> c'
             | (Refresh, None) \<Rightarrow> clear_refresh (ft_key f) c'
             | (Miss _, Some v) \<Rightarrow> set_entry maxSize (ft_key f) (settled_entry now f v) c'
             | (Refresh, Some v) \<Rightarrow> clear_refresh (ft_key f) (set_entry maxSize (ft_key f) (settled_entry now f v) c')))"

definition invalidate :: "string \<Rightarrow> 'a contract_cache \<Rightarrow> bool \<times> 'a contract_cache" where
  "invalidate key c = (if key \<in> fst ` set (cc_entries c)
     then (True, c\<lparr>cc_entries := filter (\<lambda>x. fst x \<noteq> key) (cc_entries c), cc_invalidations := cc_invalidations c + 1\<rparr>) else (False, c))"

definition invalidateByPrefix :: "string \<Rightarrow> 'a contract_cache \<Rightarrow> nat \<times> 'a contract_cache" where
  "invalidateByPrefix pre c = (let removed = length (filter (\<lambda>x. prefix pre (fst x)) (cc_entries c))
     in (removed, c\<lparr>cc_entries := filter (\<lambda>x. \<not> prefix pre (fst x)) (cc_entries c), cc_invalidations := cc_invalidations c + removed\<rparr>))"

definition invalidateAll :: "'a contract_cache \<Rightarrow> 'a contract_cache" where
  "invalidateAll c = c\<lparr>cc_invalidations := cc_invalidations c + length (cc_entries c), cc_entries := []\<rparr>"

record CacheMetrics =
  cx_hits :: nat
  cx_misses :: nat
  cx_staleHits :: nat
  cx_evictions :: nat
  cx_invalidations :: nat
  cx_size :: nat
  cx_hitRate :: rat

definition cache_metrics :: "'a contract_cache \<Rightarrow> CacheMetrics" where
  "cache_metrics c = (let totalLookups = cc_hits c + cc_misses c + cc_staleHits c
     in \<lparr>cx_hits = cc_hits c, cx_misses = cc_misses c, cx_staleHits = cc_staleHits c, cx_evictions = cc_evictions c,
         cx_invalidations = cc_invalidations c, cx_size = length (cc_entries c),
         cx_hitRate = (if totalLookups = 0 then 0 else of_nat (cc_hits c + cc_staleHits c) / of_nat totalLookups)\<rparr>)"

definition resetMetrics :: "'a contract_cache \<Rightarrow> 'a contract_cache" where
  "resetMetrics c = c\<lparr>cc_hits := 0, cc_misses := 0, cc_staleHits := 0, cc_evictions := 0, cc_invalidations := 0\<rparr>"

section \<open>The bound and the eviction\<close>

definition keys_distinct :: "'a contract_cache \<Rightarrow> bool" where
  "keys_distinct c \<longleftrightarrow> distinct (map fst (cc_entries c))"

lemma fst_put: "fst ` set (put k v xs) = insert k (fst ` set xs)"
  by (induction xs) auto

lemma distinct_put: "distinct (map fst xs) \<Longrightarrow> distinct (map fst (put k v xs))"
proof (induction xs)
  case (Cons x xs)
  then show ?case using fst_put [of k v xs] by auto
qed simp

lemma length_put: "length (put k v xs) = (if k \<in> fst ` set xs then length xs else Suc (length xs))"
  by (induction xs) auto

lemma map_of_put: "map_of (put k v xs) = (map_of xs)(k \<mapsto> v)"
  by (induction xs) auto

lemma length_remove_keys:
  assumes "distinct (map fst es)" and "set vs \<subseteq> set es" and "distinct vs"
  shows "length (filter (\<lambda>x. fst x \<notin> fst ` set vs) es) = length es - length vs"
proof -
  have same: "(fst x \<in> fst ` set vs) = (x \<in> set vs)" if "x \<in> set es" for x
    using assms(1,2) that by (auto simp: distinct_map inj_on_def dest: subsetD)
  have "set (filter (\<lambda>x. fst x \<notin> fst ` set vs) es) = set es - set vs"
    using same by auto
  moreover have "distinct (filter (\<lambda>x. fst x \<notin> fst ` set vs) es)" "distinct es"
    using assms(1) by (auto simp: distinct_map)
  ultimately have "length (filter (\<lambda>x. fst x \<notin> fst ` set vs) es) = card (set es - set vs)" and "card (set es) = length es"
    by (metis distinct_card, metis distinct_card)
  moreover have "card (set es - set vs) = card (set es) - card (set vs)" using assms(2) by (simp add: card_Diff_subset)
  ultimately show ?thesis using assms(3) by (simp add: distinct_card)
qed

lemma oldest_facts:
  assumes "distinct (map fst es)"
  shows "set (oldest n es) \<subseteq> set es" "distinct (oldest n es)" "length (oldest n es) = min n (length es)"
proof -
  show "set (oldest n es) \<subseteq> set es" unfolding oldest_def by (metis set_sort set_take_subset)
  show "distinct (oldest n es)" using assms by (simp add: oldest_def distinct_map)
  show "length (oldest n es) = min n (length es)" by (simp add: oldest_def min.commute)
qed

lemma enforced:
  assumes "keys_distinct c"
  shows "keys_distinct (enforceMaxSize m c)" "length (cc_entries (enforceMaxSize m c)) = min m (length (cc_entries c))"
proof -
  show "keys_distinct (enforceMaxSize m c)"
    using assms by (simp add: enforceMaxSize_def keys_distinct_def Let_def distinct_map_filter)
  note old = oldest_facts [of "cc_entries c" "length (cc_entries c) - m"]
  show "length (cc_entries (enforceMaxSize m c)) = min m (length (cc_entries c))"
    using length_remove_keys [OF _ old(1,2)] old(3) assms by (simp add: enforceMaxSize_def keys_distinct_def Let_def)
qed

lemma sorted_take_drop:
  "sorted_wrt r xs \<Longrightarrow> x \<in> set (take n xs) \<Longrightarrow> y \<in> set (drop n xs) \<Longrightarrow> r x y"
  by (metis append_take_drop_id sorted_wrt_append)

text \<open>Eviction is least recently used: of what is stored, nothing that is kept was accessed before anything that is dropped.\<close>

lemma eviction_drops_least_recent:
  assumes "keys_distinct c" and "x \<in> set (cc_entries c) - set (cc_entries (enforceMaxSize m c))" and "y \<in> set (cc_entries (enforceMaxSize m c))"
  shows "cq_lastAccessedAt (snd x) \<le> cq_lastAccessedAt (snd y)"
proof -
  let ?es = "cc_entries c" and ?n = "length (cc_entries c) - m" and ?k = "\<lambda>x. cq_lastAccessedAt (snd x)"
  have over: "m < length ?es" using assms(2) by (auto simp: enforceMaxSize_def split: if_splits)
  have kept: "cc_entries (enforceMaxSize m c) = filter (\<lambda>x. fst x \<notin> fst ` set (oldest ?n ?es)) ?es"
    using over by (simp add: enforceMaxSize_def Let_def)
  have inj: "inj_on fst (set ?es)" using assms(1) by (simp add: keys_distinct_def distinct_map)
  have "fst x \<in> fst ` set (oldest ?n ?es)" using assms(2) kept by auto
  then obtain v where v: "v \<in> set (oldest ?n ?es)" "fst x = fst v" by auto
  moreover have "v \<in> set ?es" using v(1) by (metis oldest_def set_sort in_set_takeD)
  ultimately have x: "x \<in> set (take ?n (sort_key ?k ?es))"
    using inj assms(2) by (auto simp: oldest_def inj_on_def)
  have "y \<notin> set (take ?n (sort_key ?k ?es))" and "y \<in> set ?es" using assms(3) kept by (auto simp: oldest_def)
  then have y: "y \<in> set (drop ?n (sort_key ?k ?es))"
    by (metis UnE append_take_drop_id set_append set_sort)
  have "sorted_wrt (\<lambda>a b. ?k a \<le> ?k b) (sort_key ?k ?es)"
    using sorted_sort_key [of ?k ?es] by (simp add: sorted_map)
  from sorted_take_drop [OF this x y] show ?thesis .
qed

datatype 'a cache_op = Look int string int | Settle_fetch int nat "'a option" | Drop string | Drop_prefix string | Drop_all | Reset

fun cache_run :: "nat \<Rightarrow> 'a cache_op \<Rightarrow> 'a contract_cache \<Rightarrow> 'a contract_cache" where
  "cache_run m (Look now key ttl) c = snd (getOrFetch now key ttl c)"
| "cache_run m (Settle_fetch now i outcome) c = settle m now i outcome c"
| "cache_run m (Drop key) c = snd (invalidate key c)"
| "cache_run m (Drop_prefix pre) c = snd (invalidateByPrefix pre c)"
| "cache_run m Drop_all c = invalidateAll c"
| "cache_run m Reset c = resetMetrics c"

definition cache_ok :: "nat \<Rightarrow> 'a contract_cache \<Rightarrow> bool" where
  "cache_ok m c \<longleftrightarrow> keys_distinct c \<and> length (cc_entries c) \<le> m"

lemma put_ok: "cache_ok m c \<Longrightarrow> map_of (cc_entries c) key = Some x \<Longrightarrow> cache_ok m (c\<lparr>cc_entries := put key e (cc_entries c)\<rparr>)"
  using map_of_eq_None_iff [of "cc_entries c" key] by (simp add: cache_ok_def keys_distinct_def distinct_put length_put)

lemma touch_ok: "cache_ok m c \<Longrightarrow> map_of (cc_entries c) key = Some x \<Longrightarrow> cache_ok m (touch now key e c)"
  by (simp add: touch_def put_ok)

lemma counters_ok [simp]:
  "cache_ok m (c\<lparr>cc_hits := n\<rparr>) = cache_ok m c" "cache_ok m (c\<lparr>cc_misses := n\<rparr>) = cache_ok m c"
  "cache_ok m (c\<lparr>cc_staleHits := n\<rparr>) = cache_ok m c" "cache_ok m (c\<lparr>cc_fetches := fs\<rparr>) = cache_ok m c"
  "cache_ok m (begin_fetch key ttl kind c) = cache_ok m c"
  by (simp_all add: cache_ok_def keys_distinct_def begin_fetch_def)

lemma look_ok: "cache_ok m c \<Longrightarrow> cache_ok m (snd (getOrFetch now key ttl c))"
  by (auto simp: getOrFetch_def touch_ok split: option.split)

lemma set_entry_ok: "cache_ok m c \<Longrightarrow> cache_ok m (set_entry m key e c)"
proof -
  assume "cache_ok m c"
  then have "keys_distinct (c\<lparr>cc_entries := put key e (cc_entries c)\<rparr>)"
    by (simp add: cache_ok_def keys_distinct_def distinct_put)
  then show ?thesis by (simp add: cache_ok_def set_entry_def enforced)
qed

lemma clear_ok: "cache_ok m c \<Longrightarrow> cache_ok m (clear_refresh key c)"
  by (auto simp: clear_refresh_def put_ok split: option.split)

lemma settle_ok: "cache_ok m c \<Longrightarrow> cache_ok m (settle m now i outcome c)"
  by (auto simp: settle_def Let_def clear_ok set_entry_ok split: option.split fetch_kind.split)

lemma filter_entries_ok:
  "cache_ok m c \<Longrightarrow> cache_ok m (c\<lparr>cc_entries := filter p (cc_entries c), cc_invalidations := n\<rparr>)"
  by (auto simp: cache_ok_def keys_distinct_def distinct_map_filter intro: order_trans [OF length_filter_le])

lemma cache_run_ok: "cache_ok m c \<Longrightarrow> cache_ok m (cache_run m p c)"
proof (cases p)
  case Drop_all
  then show ?thesis by (simp add: invalidateAll_def cache_ok_def keys_distinct_def)
next
  case Reset
  assume "cache_ok m c"
  with Reset show ?thesis by (simp add: resetMetrics_def cache_ok_def keys_distinct_def)
qed (simp_all add: look_ok settle_ok invalidate_def invalidateByPrefix_def Let_def filter_entries_ok)

text \<open>C24. Along every history of lookups, answers and invalidations the cache holds at most its maximum of entries, one for a key.\<close>

theorem cache_is_bounded:
  "length (cc_entries (fold (cache_run m) ops empty_cache)) \<le> m \<and> keys_distinct (fold (cache_run m) ops empty_cache)"
proof -
  have "cache_ok m c \<Longrightarrow> cache_ok m (fold (cache_run m) ops c)" for c
    by (induction ops arbitrary: c) (simp_all add: cache_run_ok)
  from this [of empty_cache] show ?thesis by (simp add: cache_ok_def empty_cache_def keys_distinct_def)
qed

text \<open>
  An invalidation does not reach a fetch under way: data read before it are stored when they arrive, and served as fresh until their
  time to live has passed since the fetch began.
\<close>

theorem late_fetch_survives_invalidation:
  assumes "find (\<lambda>f. ft_id f = i) (cc_fetches c) = Some f" and "ft_kind f = Miss started" and "0 < m" and "now < started + ft_ttl f"
  shows "fst (getOrFetch now (ft_key f) ttl (settle m t i (Some v) (invalidateAll c))) = Found v"
proof -
  let ?e = "settled_entry t f v"
  have one: "cc_entries (settle m t i (Some v) (invalidateAll c)) = [(ft_key f, ?e)]"
    using assms(1-3) by (simp add: settle_def invalidateAll_def Let_def set_entry_def enforceMaxSize_def)
  have "now < cq_expiresAt ?e" "cq_data ?e = v" using assms(2,4) by (simp_all add: settled_entry_def Let_def)
  then show ?thesis by (simp add: getOrFetch_def one)
qed

definition reading :: "string contract_cache" where
  "reading = snd (getOrFetch 0 ''balance'' 1000 empty_cache)"

lemma late_fetch_survives_invalidation_witness:
  "fst (getOrFetch 900 ''balance'' 1000 (settle 200 800 0 (Some ''old'') (invalidateAll reading))) = Found ''old''"
proof -
  have f: "find (\<lambda>f. ft_id f = 0) (cc_fetches reading) = Some \<lparr>ft_id = 0, ft_key = ''balance'', ft_ttl = 1000, ft_kind = Miss 0\<rparr>"
    by (simp add: reading_def getOrFetch_def begin_fetch_def empty_cache_def)
  from late_fetch_survives_invalidation [OF f, of 0 200 900 1000 800 "''old''"] show ?thesis by simp
qed

section \<open>The query cache\<close>

text \<open>
  The sets of subscribers are shared by reference: an entry holds the number of its set. A request remembers the set and the data of
  the entry it found when it began.
\<close>

record 'a query_entry =
  qe_data :: "'a option"
  qe_timestamp :: int
  qe_subscribers :: nat

record 'a query_request =
  qr_id :: nat
  qr_key :: string
  qr_cached :: "'a query_entry option"
  qr_cacheTime :: int

record 'a query_cache =
  qc_cache :: "(string \<times> 'a query_entry) list"
  qc_inFlight :: "(string \<times> nat) list"
  qc_timers :: "(string \<times> int) list"
  qc_sets :: "nat \<Rightarrow> nat list"
  qc_requests :: "'a query_request list"
  qc_nextSet :: nat
  qc_nextId :: nat

definition empty_queries :: "'a query_cache" where
  "empty_queries = \<lparr>qc_cache = [], qc_inFlight = [], qc_timers = [], qc_sets = (\<lambda>_. []), qc_requests = [], qc_nextSet = 0, qc_nextId = 0\<rparr>"

definition DEFAULT_STALE_TIME :: int where
  "DEFAULT_STALE_TIME = 30 * 1000"

definition DEFAULT_CACHE_TIME :: int where
  "DEFAULT_CACHE_TIME = 5 * 60 * 1000"

definition DEFAULT_RETRY :: nat where
  "DEFAULT_RETRY = 3"

definition without :: "string \<Rightarrow> (string \<times> 'b) list \<Rightarrow> (string \<times> 'b) list" where
  "without k xs = filter (\<lambda>x. fst x \<noteq> k) xs"

text \<open>A query is answered from the cache, joins the request in flight, or begins one.\<close>

datatype 'a query_answer = Cached "'a option" | Joined nat | Begun nat

definition query :: "int \<Rightarrow> int \<Rightarrow> int \<Rightarrow> string \<Rightarrow> 'a query_cache \<Rightarrow> 'a query_answer \<times> 'a query_cache" where
  "query now staleTime cacheTime key q =
     (let cached = map_of (qc_cache q) key
      in if some_with (\<lambda>e. now - qe_timestamp e < staleTime) cached then (Cached (qe_data (the cached)), q)
         else (case map_of (qc_inFlight q) key of
             Some i \<Rightarrow> (Joined i, q)
           | None \<Rightarrow> (Begun (qc_nextId q),
               q\<lparr>qc_inFlight := put key (qc_nextId q) (qc_inFlight q),
                 qc_requests := qc_requests q @ [\<lparr>qr_id = qc_nextId q, qr_key = key, qr_cached = cached, qr_cacheTime = cacheTime\<rparr>],
                 qc_nextId := qc_nextId q + 1\<rparr>)))"

text \<open>The tries of one request: the first that succeeds, or the failure of the last; the waits between them.\<close>

fun fetchWithRetry :: "(nat \<Rightarrow> jsval + 'a) \<Rightarrow> nat \<Rightarrow> nat \<Rightarrow> (jsval + 'a) \<times> nat list" where
  "fetchWithRetry fetcher i 0 = (fetcher i, [])"
| "fetchWithRetry fetcher i (Suc n) = (case fetcher i of
       Inr v \<Rightarrow> (Inr v, [])
     | Inl _ \<Rightarrow> (case fetchWithRetry fetcher (i + 1) n of (r, ws) \<Rightarrow> (r, 2 ^ i * 100 # ws)))"

definition scheduleEviction :: "int \<Rightarrow> string \<Rightarrow> int \<Rightarrow> 'a query_cache \<Rightarrow> 'a query_cache" where
  "scheduleEviction now key cacheTime q = q\<lparr>qc_timers := put key (now + cacheTime) (qc_timers q)\<rparr>"

text \<open>A timer fires once.\<close>

definition timer_due :: "int \<Rightarrow> string \<Rightarrow> 'a query_cache \<Rightarrow> 'a query_cache" where
  "timer_due now key q = (case map_of (qc_timers q) key of
       None \<Rightarrow> q
     | Some t \<Rightarrow>
         if now < t then q
         else (let q' = q\<lparr>qc_timers := without key (qc_timers q)\<rparr>
           in case map_of (qc_cache q) key of
             None \<Rightarrow> q'
           | Some e \<Rightarrow> if qc_sets q (qe_subscribers e) = [] then q'\<lparr>qc_cache := without key (qc_cache q)\<rparr> else q'))"

text \<open>The result a request's callers get: the data, the cached data when it fails with some, or the error.\<close>

definition query_settled :: "int \<Rightarrow> nat \<Rightarrow> jsval + 'a \<Rightarrow> 'a query_cache \<Rightarrow> (jsval + 'a option) option \<times> 'a query_cache" where
  "query_settled now i outcome q = (case find (\<lambda>r. qr_id r = i) (qc_requests q) of
       None \<Rightarrow> (None, q)
     | Some r \<Rightarrow>
         (let key = qr_key r; q' = q\<lparr>qc_requests := filter (\<lambda>x. qr_id x \<noteq> i) (qc_requests q)\<rparr>
          in case outcome of
               Inr v \<Rightarrow>
                 (let fresh = qr_cached r = None;
                      subs = (case qr_cached r of Some e \<Rightarrow> qe_subscribers e | None \<Rightarrow> qc_nextSet q')
                  in (Some (Inr (Some v)),
                      (scheduleEviction now key (qr_cacheTime r)
                        (q'\<lparr>qc_cache := put key \<lparr>qe_data = Some v, qe_timestamp = now, qe_subscribers = subs\<rparr> (qc_cache q'),
                            qc_sets := (if fresh then (qc_sets q')(subs := []) else qc_sets q'),
                            qc_nextSet := (if fresh then qc_nextSet q' + 1 else qc_nextSet q')\<rparr>))
                       \<lparr>qc_inFlight := without key (qc_inFlight q')\<rparr>))
             | Inl e \<Rightarrow> (Some (case qr_cached r of Some c \<Rightarrow> Inr (qe_data c) | None \<Rightarrow> Inl e), q'\<lparr>qc_inFlight := without key (qc_inFlight q')\<rparr>)))"

text \<open>Subscribing returns the set the callback was put in, which unsubscribing needs.\<close>

definition subscribe :: "string \<Rightarrow> nat \<Rightarrow> 'a query_cache \<Rightarrow> nat \<times> 'a query_cache" where
  "subscribe key callback q = (case map_of (qc_cache q) key of
       Some e \<Rightarrow> (qe_subscribers e, q\<lparr>qc_sets := (qc_sets q)(qe_subscribers e := List.insert callback (qc_sets q (qe_subscribers e)))\<rparr>)
     | None \<Rightarrow> (qc_nextSet q, q\<lparr>qc_cache := put key \<lparr>qe_data = None, qe_timestamp = 0, qe_subscribers = qc_nextSet q\<rparr> (qc_cache q),
          qc_sets := (qc_sets q)(qc_nextSet q := [callback]), qc_nextSet := qc_nextSet q + 1\<rparr>))"

definition unsubscribe :: "int \<Rightarrow> string \<Rightarrow> nat \<Rightarrow> nat \<Rightarrow> 'a query_cache \<Rightarrow> 'a query_cache" where
  "unsubscribe now key subs callback q =
     (let q' = q\<lparr>qc_sets := (qc_sets q)(subs := removeAll callback (qc_sets q subs))\<rparr>
      in if qc_sets q' subs = [] then scheduleEviction now key DEFAULT_CACHE_TIME q' else q')"

definition invalidate_queries :: "string option \<Rightarrow> 'a query_cache \<Rightarrow> 'a query_cache" where
  "invalidate_queries pattern q = (if pattern = None \<or> pattern = Some [] then q\<lparr>qc_cache := [], qc_inFlight := []\<rparr>
     else q\<lparr>qc_cache := filter (\<lambda>x. \<not> str_includes (fst x) (the pattern)) (qc_cache q)\<rparr>)"

definition getState :: "string \<Rightarrow> 'a query_cache \<Rightarrow> 'a option \<times> bool" where
  "getState key q = (case map_of (qc_cache q) key of None \<Rightarrow> None | Some e \<Rightarrow> qe_data e, map_of (qc_inFlight q) key \<noteq> None)"

section \<open>One request for a key\<close>

datatype 'a query_op = Q_query int int int string | Q_settle int nat "jsval + 'a" | Q_subscribe string nat
  | Q_unsubscribe int string nat nat | Q_timer int string | Q_invalidate "string option"

fun query_run :: "'a query_op \<Rightarrow> 'a query_cache \<Rightarrow> 'a query_cache" where
  "query_run (Q_query now staleTime cacheTime key) q = snd (query now staleTime cacheTime key q)"
| "query_run (Q_settle now i outcome) q = snd (query_settled now i outcome q)"
| "query_run (Q_subscribe key callback) q = snd (subscribe key callback q)"
| "query_run (Q_unsubscribe now key subs callback) q = unsubscribe now key subs callback q"
| "query_run (Q_timer now key) q = timer_due now key q"
| "query_run (Q_invalidate pattern) q = invalidate_queries pattern q"

fun clears_all :: "'a query_op \<Rightarrow> bool" where
  "clears_all (Q_invalidate pattern) = (pattern = None \<or> pattern = Some [])"
| "clears_all p = False"

definition flights_ok :: "'a query_cache \<Rightarrow> bool" where
  "flights_ok q \<longleftrightarrow> distinct (map qr_key (qc_requests q)) \<and> distinct (map qr_id (qc_requests q)) \<and>
     (\<forall>r \<in> set (qc_requests q). qr_id r < qc_nextId q \<and> map_of (qc_inFlight q) (qr_key r) = Some (qr_id r))"

lemma flights_frame:
  "qc_requests q' = qc_requests q \<Longrightarrow> qc_inFlight q' = qc_inFlight q \<Longrightarrow> qc_nextId q' = qc_nextId q \<Longrightarrow> flights_ok q \<Longrightarrow> flights_ok q'"
  by (simp add: flights_ok_def)

lemma query_flights: "flights_ok q \<Longrightarrow> flights_ok (snd (query now st ct key q))"
proof -
  assume ok: "flights_ok q"
  have "qr_key r \<noteq> key" if "map_of (qc_inFlight q) key = None" "r \<in> set (qc_requests q)" for r
    using ok that by (auto simp: flights_ok_def)
  moreover have "qr_id r < Suc (qc_nextId q)" "qr_id r \<noteq> qc_nextId q" if "r \<in> set (qc_requests q)" for r
    using ok that by (auto simp: flights_ok_def less_Suc_eq)
  ultimately show ?thesis using ok
    by (auto simp: query_def Let_def flights_ok_def distinct_put map_of_put split: option.split)
qed

lemma map_of_without: "map_of (without k xs) j = (if j = k then None else map_of xs j)"
  by (induction xs) (auto simp: without_def)

lemma settle_flights:
  assumes ok: "flights_ok q" and r: "find (\<lambda>r. qr_id r = i) (qc_requests q) = Some r"
    and "qc_requests q' = filter (\<lambda>x. qr_id x \<noteq> i) (qc_requests q)" and "qc_inFlight q' = without (qr_key r) (qc_inFlight q)"
    and "qc_nextId q' = qc_nextId q"
  shows "flights_ok q'"
proof -
  have r: "r \<in> set (qc_requests q)" "qr_id r = i" using r by (auto simp: find_Some_iff)
  have other: "qr_key x \<noteq> qr_key r" if "x \<in> set (qc_requests q)" "qr_id x \<noteq> i" for x
    using ok r that by (auto simp: flights_ok_def distinct_map inj_on_def)
  show ?thesis using ok other
    by (auto simp: flights_ok_def assms(3-5) distinct_map_filter map_of_without)
qed

lemma settled_flights: "flights_ok q \<Longrightarrow> flights_ok (snd (query_settled now i outcome q))"
proof (cases "find (\<lambda>r. qr_id r = i) (qc_requests q)")
  case None
  assume "flights_ok q"
  with None show ?thesis by (simp add: query_settled_def)
next
  case (Some r)
  assume ok: "flights_ok q"
  show ?thesis
    by (rule settle_flights [OF ok Some]) (simp_all add: query_settled_def Some Let_def scheduleEviction_def split: sum.split)
qed

lemma query_run_flights: "flights_ok q \<Longrightarrow> \<not> clears_all p \<Longrightarrow> flights_ok (query_run p q)"
proof (cases p)
  case (Q_timer now key)
  assume "flights_ok q"
  then show ?thesis
    unfolding Q_timer by (rule flights_frame [rotated 3]) (simp_all add: timer_due_def Let_def split: option.split)
next
  case (Q_subscribe key c)
  assume "flights_ok q"
  then show ?thesis
    unfolding Q_subscribe by (rule flights_frame [rotated 3]) (simp_all add: subscribe_def split: option.split)
next
  case (Q_unsubscribe now key s c)
  assume "flights_ok q"
  then show ?thesis
    unfolding Q_unsubscribe by (rule flights_frame [rotated 3]) (simp_all add: unsubscribe_def scheduleEviction_def Let_def)
next
  case (Q_invalidate pat)
  assume "flights_ok q" "\<not> clears_all p"
  with Q_invalidate show ?thesis by (auto simp: invalidate_queries_def flights_ok_def)
qed (simp_all add: query_flights settled_flights)

text \<open>
  However queries, answers, subscriptions, timers and invalidations by pattern are interleaved, at most one request for a key is
  outstanding at any time.
\<close>

theorem one_request_per_key:
  assumes "list_all (\<lambda>p. \<not> clears_all p) ops"
  shows "distinct (map qr_key (qc_requests (fold query_run ops empty_queries)))"
proof -
  have keep: "flights_ok q \<Longrightarrow> flights_ok (fold query_run ops q)" for q :: "'a query_cache"
    using assms by (induction ops arbitrary: q) (simp_all add: query_run_flights)
  have "flights_ok (fold query_run ops empty_queries)"
    by (rule keep) (simp add: flights_ok_def empty_queries_def)
  then show ?thesis by (simp add: flights_ok_def)
qed

text \<open>The invalidation of everything forgets the requests in flight, so a second one for the same key begins beside the first.\<close>

lemma global_invalidation_doubles_requests:
  "map qr_key (qc_requests (fold query_run [Q_query 0 1 1 k, Q_invalidate None, Q_query 0 1 1 k] empty_queries)) = [k, k]"
  by (simp add: query_def invalidate_queries_def empty_queries_def Let_def)

text \<open>A subscriber that arrives while the first request for a key is under way is lost when it settles.\<close>

lemma subscriber_is_lost:
  assumes "map_of (qc_cache q) key = None" and "map_of (qc_inFlight q) key = None" and "qc_requests q = []"
  shows "let q1 = snd (query now st ct key q); q2 = snd (subscribe key cb q1); q3 = snd (query_settled t (qc_nextId q) (Inr v) q2)
    in map_option (\<lambda>e. qc_sets q3 (qe_subscribers e)) (map_of (qc_cache q3) key) = Some []"
  using assms by (simp add: query_def subscribe_def query_settled_def scheduleEviction_def Let_def map_of_put)

text \<open>A query of a key that was subscribed to before does not fail: it returns the empty data of the subscription.\<close>

lemma failed_query_returns_nothing:
  assumes "map_of (qc_cache q) key = None" and "map_of (qc_inFlight q) key = None" and "qc_requests q = []" and "st \<le> now"
  shows "let q1 = snd (subscribe key cb q); q2 = snd (query now st ct key q1)
    in fst (query_settled t (qc_nextId q) (Inl err) q2) = Some (Inr None)"
  using assms by (simp add: query_def subscribe_def query_settled_def Let_def map_of_put)

definition demo_queries :: "string query_op list" where
  "demo_queries = [Q_query 0 30000 300000 ''tips'', Q_query 5 30000 300000 ''tips'', Q_settle 9 0 (Inr ''x''), Q_query 40000 30000 300000 ''tips'']"

lemma one_request_per_key_witness: "distinct (map qr_key (qc_requests (fold query_run demo_queries empty_queries)))"
  by (rule one_request_per_key) (simp add: demo_queries_def)

end
