(* ===== verification/ClientToasts.thy ===== *)
theory ClientToasts
  imports JsValues Tables "HOL-Library.Multiset"
begin

text \<open>
  The toasts of the web client (\<open>frontend-scaffold/src/store/toastStore.ts\<close>): at most three are visible, the others wait in a
  queue ranked by priority. The random ids are a parameter, the toasts' actions are left out.
\<close>

section \<open>State\<close>

datatype ToastType = Success_toast | Error_toast | Info_toast | Warning_toast

datatype ToastPriority = Low | Medium | High | Critical

record Toast =
  to_id :: string
  to_message :: string
  to_type :: ToastType
  to_priority :: ToastPriority
  to_duration :: "int option"

record toast_input =
  ti_message :: string
  ti_type :: ToastType
  ti_priority :: "ToastPriority option"
  ti_duration :: "int option"

text \<open>\<open>ts_drawn\<close> counts the ids drawn so far.\<close>

record toast_store =
  ts_visible :: "Toast list"
  ts_queued :: "Toast list"
  ts_maxVisible :: nat
  ts_position :: string
  ts_drawn :: nat

definition empty_toasts :: toast_store where
  "empty_toasts = \<lparr>ts_visible = [], ts_queued = [], ts_maxVisible = 3, ts_position = ''bottom-right'', ts_drawn = 0\<rparr>"

fun PRIORITY_SCORE :: "ToastPriority \<Rightarrow> nat" where
  "PRIORITY_SCORE Low = 1"
| "PRIORITY_SCORE Medium = 2"
| "PRIORITY_SCORE High = 3"
| "PRIORITY_SCORE Critical = 4"

fun defaultDurationMs :: "ToastPriority \<Rightarrow> int option" where
  "defaultDurationMs Low = Some 3000"
| "defaultDurationMs Medium = Some 5000"
| "defaultDurationMs High = Some 8000"
| "defaultDurationMs Critical = None"

fun type_name :: "ToastType \<Rightarrow> string" where
  "type_name Success_toast = ''success''"
| "type_name Error_toast = ''error''"
| "type_name Info_toast = ''info''"
| "type_name Warning_toast = ''warning''"

definition toastDedupKey :: "Toast \<Rightarrow> string" where
  "toastDedupKey t = type_name (to_type t) @ ''::'' @ to_message t"

definition score :: "Toast \<Rightarrow> nat" where
  "score t = PRIORITY_SCORE (to_priority t)"

section \<open>Operations\<close>

definition rank_queue :: "Toast list \<Rightarrow> Toast list" where
  "rank_queue = order_desc score"

definition lowest_visible :: "Toast list \<Rightarrow> Toast option" where
  "lowest_visible ts = (case sort_key score ts of [] \<Rightarrow> None | t # _ \<Rightarrow> Some t)"

definition new_toast :: "string \<Rightarrow> toast_input \<Rightarrow> Toast" where
  "new_toast i inp = (let p = (case ti_priority inp of None \<Rightarrow> Medium | Some p \<Rightarrow> p)
     in \<lparr>to_id = i, to_message = ti_message inp, to_type = ti_type inp, to_priority = p,
         to_duration = (case ti_duration inp of None \<Rightarrow> defaultDurationMs p | Some d \<Rightarrow> Some d)\<rparr>)"

text \<open>Where a toast with a new key goes: beside the visible ones, in the place of the lowest of them, or into the queue.\<close>

definition place_toast :: "Toast \<Rightarrow> toast_store \<Rightarrow> toast_store" where
  "place_toast t st =
     (if length (ts_visible st) < ts_maxVisible st then st\<lparr>ts_visible := ts_visible st @ [t]\<rparr>
      else (case lowest_visible (ts_visible st) of
          Some l \<Rightarrow>
            if score l < score t
            then st\<lparr>ts_visible := filter (\<lambda>x. to_id x \<noteq> to_id l) (ts_visible st) @ [t], ts_queued := rank_queue (ts_queued st @ [l])\<rparr>
            else st\<lparr>ts_queued := rank_queue (ts_queued st @ [t])\<rparr>
        | None \<Rightarrow> st\<lparr>ts_queued := rank_queue (ts_queued st @ [t])\<rparr>))"

definition trim_visible :: "toast_store \<Rightarrow> toast_store" where
  "trim_visible st = (if ts_maxVisible st < length (ts_visible st)
     then st\<lparr>ts_visible := take (ts_maxVisible st) (ts_visible st),
             ts_queued := rank_queue (ts_queued st @ drop (ts_maxVisible st) (ts_visible st))\<rparr>
     else st)"

definition same_key :: "Toast \<Rightarrow> toast_store \<Rightarrow> Toast option" where
  "same_key t st = find (\<lambda>x. toastDedupKey x = toastDedupKey t) (ts_visible st @ ts_queued st)"

definition addToast :: "(nat \<Rightarrow> string) \<Rightarrow> toast_input \<Rightarrow> toast_store \<Rightarrow> string \<times> toast_store" where
  "addToast uuid inp st0 =
     (let t = new_toast (uuid (ts_drawn st0)) inp; st = st0\<lparr>ts_drawn := Suc (ts_drawn st0)\<rparr>
      in case same_key t st of
           Some e \<Rightarrow> (to_id e, st)
         | None \<Rightarrow> (to_id t, trim_visible (place_toast t st)))"

definition removeToast :: "string \<Rightarrow> toast_store \<Rightarrow> toast_store" where
  "removeToast i st =
     (let nextVisible = filter (\<lambda>t. to_id t \<noteq> i) (ts_visible st); nextQueued = filter (\<lambda>t. to_id t \<noteq> i) (ts_queued st);
          space = ts_maxVisible st - length nextVisible
      in st\<lparr>ts_visible := nextVisible @ take space nextQueued, ts_queued := drop space nextQueued\<rparr>)"

definition clearAll :: "toast_store \<Rightarrow> toast_store" where
  "clearAll st = st\<lparr>ts_visible := [], ts_queued := []\<rparr>"

definition setPosition :: "string \<Rightarrow> toast_store \<Rightarrow> toast_store" where
  "setPosition p st = st\<lparr>ts_position := p\<rparr>"

datatype toast_op = Add toast_input | Remove string | Clear | Position string

fun toast_run :: "(nat \<Rightarrow> string) \<Rightarrow> toast_op \<Rightarrow> toast_store \<Rightarrow> toast_store" where
  "toast_run uuid (Add inp) st = snd (addToast uuid inp st)"
| "toast_run uuid (Remove i) st = removeToast i st"
| "toast_run uuid Clear st = clearAll st"
| "toast_run uuid (Position p) st = setPosition p st"

definition toast_history :: "(nat \<Rightarrow> string) \<Rightarrow> toast_op list \<Rightarrow> toast_store" where
  "toast_history uuid ops = fold (toast_run uuid) ops empty_toasts"

section \<open>Ranking\<close>

definition toasts :: "toast_store \<Rightarrow> Toast list" where
  "toasts st = ts_visible st @ ts_queued st"

text \<open>What the interface relies on.\<close>

definition ranked :: "toast_store \<Rightarrow> bool" where
  "ranked st \<longleftrightarrow>
     length (ts_visible st) \<le> ts_maxVisible st \<and>
     (ts_queued st \<noteq> [] \<longrightarrow> length (ts_visible st) = ts_maxVisible st) \<and>
     sorted_wrt (\<lambda>a b. score b \<le> score a) (ts_queued st) \<and>
     list_all (\<lambda>v. list_all (\<lambda>q. score q \<le> score v) (ts_queued st)) (ts_visible st)"

definition unrepeated :: "(nat \<Rightarrow> string) \<Rightarrow> toast_store \<Rightarrow> bool" where
  "unrepeated uuid st \<longleftrightarrow>
     distinct (map toastDedupKey (toasts st)) \<and> distinct (map to_id (toasts st)) \<and>
     to_id ` set (toasts st) \<subseteq> uuid ` {..<ts_drawn st}"

definition store_ok :: "(nat \<Rightarrow> string) \<Rightarrow> toast_store \<Rightarrow> bool" where
  "store_ok uuid st \<longleftrightarrow> ts_maxVisible st = 3 \<and> ranked st \<and> unrepeated uuid st"

lemma lowest_facts:
  assumes "lowest_visible ts = Some l"
  shows "l \<in> set ts" "x \<in> set ts \<Longrightarrow> score l \<le> score x"
proof -
  obtain rest where s: "sort_key score ts = l # rest"
    using assms by (auto simp: lowest_visible_def split: list.splits)
  have "set (l # rest) = set ts" using s by (metis set_sort)
  moreover have "sorted (map score (l # rest))" using s by (metis sorted_sort_key)
  ultimately show "l \<in> set ts" "x \<in> set ts \<Longrightarrow> score l \<le> score x" by auto
qed

lemma lowest_None [simp]: "lowest_visible ts = None \<longleftrightarrow> ts = []"
  by (cases ts rule: rev_cases) (auto simp: lowest_visible_def split: list.splits dest: arg_cong [where f = length])

lemma remove_one:
  assumes "distinct (map to_id ts)" and "l \<in> set ts"
  shows "mset (filter (\<lambda>x. to_id x \<noteq> to_id l) ts) = mset ts - {#l#}" "length (filter (\<lambda>x. to_id x \<noteq> to_id l) ts) = length ts - 1"
proof -
  show eq: "mset (filter (\<lambda>x. to_id x \<noteq> to_id l) ts) = mset ts - {#l#}"
    using assms
  proof (induction ts)
    case (Cons t ts)
    then show ?case
    proof (cases "t = l")
      case True
      with Cons.prems have "filter (\<lambda>x. to_id x \<noteq> to_id l) ts = ts" by (intro filter_True) (auto simp: image_iff)
      with True show ?thesis by simp
    qed auto
  qed simp
  show "length (filter (\<lambda>x. to_id x \<noteq> to_id l) ts) = length ts - 1"
    using arg_cong [OF eq, of size] assms(2) by (simp add: size_Diff_singleton flip: size_mset mset_filter)
qed

lemma sorted_rank: "sorted_wrt (\<lambda>a b. score b \<le> score a) (rank_queue ts)"
  by (simp add: rank_queue_def sorted_order_desc)

lemma set_rank [simp]: "set (rank_queue ts) = set ts" and mset_rank [simp]: "mset (rank_queue ts) = mset ts"
  by (simp_all add: rank_queue_def order_desc_def)

lemma rank_Nil [simp]: "rank_queue ts = [] \<longleftrightarrow> ts = []"
  by (metis set_rank set_empty)

lemma place_ranked:
  assumes "ranked st" and "distinct (map to_id (ts_visible st))" and "0 < ts_maxVisible st"
  shows "ranked (place_toast t st)"
proof (cases "length (ts_visible st) < ts_maxVisible st")
  case True
  then have "ts_queued st = []" using assms(1) by (auto simp: ranked_def)
  with True assms(1) show ?thesis by (simp add: place_toast_def ranked_def)
next
  case False
  then have full: "length (ts_visible st) = ts_maxVisible st" using assms(1) by (simp add: ranked_def)
  with assms(3) obtain l where l: "lowest_visible (ts_visible st) = Some l"
    by (metis length_greater_0_conv lowest_None not_None_eq)
  note lf = lowest_facts [OF l]
  have above: "score q \<le> score v" if "v \<in> set (ts_visible st)" "q \<in> set (ts_queued st)" for v q
    using assms(1) that by (auto simp: ranked_def list_all_iff)
  show ?thesis
  proof (cases "score l < score t")
    case True
    have "length (filter (\<lambda>x. to_id x \<noteq> to_id l) (ts_visible st)) = ts_maxVisible st - 1"
      using remove_one(2) [OF assms(2) lf(1)] full by simp
    with True False l assms(3) show ?thesis
      using lf above
      by (auto simp: place_toast_def ranked_def sorted_rank list_all_iff intro: less_imp_le order_trans [OF above [OF lf(1)]])
  next
    case below: False
    show ?thesis
      using False below l full lf above
      by (auto simp: place_toast_def ranked_def sorted_rank list_all_iff intro: order_trans [of "score t" "score l"])
  qed
qed

lemma place_mset:
  assumes "distinct (map to_id (ts_visible st))"
  shows "mset (toasts (place_toast t st)) = add_mset t (mset (toasts st))"
proof -
  have "mset (filter (\<lambda>x. to_id x \<noteq> to_id l) (ts_visible st)) + {#l#} = mset (ts_visible st)"
    if "lowest_visible (ts_visible st) = Some l" for l
    using remove_one(1) [OF assms] lowest_facts(1) [OF that] by simp
  then show ?thesis by (auto simp: place_toast_def toasts_def split: option.split)
qed

lemma place_frame [simp]: "ts_maxVisible (place_toast t st) = ts_maxVisible st" "ts_drawn (place_toast t st) = ts_drawn st"
  by (simp_all add: place_toast_def split: option.split)

lemma trim_ranked: "ranked st \<Longrightarrow> trim_visible st = st"
  by (simp add: trim_visible_def ranked_def)

lemma distinct_map_mset: "mset xs = mset ys \<Longrightarrow> distinct (map f xs) = distinct (map f ys)"
  by (metis mset_eq_imp_distinct_iff mset_map)

lemma same_key_None: "same_key t st = None \<longleftrightarrow> toastDedupKey t \<notin> toastDedupKey ` set (toasts st)"
  unfolding same_key_def toasts_def find_None_iff image_iff by (auto dest: sym)

lemma add_ok:
  assumes "inj uuid" and "store_ok uuid st"
  shows "store_ok uuid (snd (addToast uuid inp st))"
proof -
  define t where "t = new_toast (uuid (ts_drawn st)) inp"
  define st1 where "st1 = st\<lparr>ts_drawn := Suc (ts_drawn st)\<rparr>"
  have same: "toasts st1 = toasts st" "ranked st1" "ts_maxVisible st1 = 3"
    using assms(2) by (simp_all add: st1_def toasts_def ranked_def store_ok_def)
  have ids: "distinct (map to_id (toasts st))" "to_id ` set (toasts st) \<subseteq> uuid ` {..<ts_drawn st}" "distinct (map toastDedupKey (toasts st))"
    using assms(2) by (simp_all add: store_ok_def unrepeated_def)
  have run: "addToast uuid inp st = (case same_key t st1 of Some e \<Rightarrow> (to_id e, st1) | None \<Rightarrow> (to_id t, trim_visible (place_toast t st1)))"
    unfolding addToast_def t_def st1_def Let_def by (rule refl)
  have old: "store_ok uuid st1"
    using assms(2) same by (auto simp: store_ok_def unrepeated_def st1_def lessThan_Suc)
  show ?thesis
  proof (cases "same_key t st1")
    case None
    have vis: "distinct (map to_id (ts_visible st1))" using ids(1) by (simp add: st1_def toasts_def)
    have rk: "ranked (place_toast t st1)" using place_ranked [OF same(2) vis] same(3) by simp
    have tid: "to_id t = uuid (ts_drawn st)" by (simp add: t_def new_toast_def Let_def)
    have fresh: "to_id t \<notin> to_id ` set (toasts st)"
      using ids(2) assms(1) tid by (auto simp: inj_def dest!: subsetD)
    have m: "mset (toasts (place_toast t st1)) = mset (t # toasts st)" using place_mset [OF vis] same(1) by simp
    have key: "toastDedupKey t \<notin> toastDedupKey ` set (toasts st)" using None same(1) by (simp add: same_key_None)
    have sets: "set (toasts (place_toast t st1)) = insert t (set (toasts st))"
      using arg_cong [OF m, of set_mset] by simp
    have un: "unrepeated uuid (place_toast t st1)"
      unfolding unrepeated_def distinct_map_mset [OF m]
      using sets fresh key ids tid by (auto simp: st1_def lessThan_Suc)
    have "snd (addToast uuid inp st) = place_toast t st1" using run None trim_ranked [OF rk] by simp
    with rk un same(3) show ?thesis by (simp add: store_ok_def)
  next
    case (Some e)
    with run old show ?thesis by simp
  qed
qed

lemma remove_toasts: "toasts (removeToast i st) = filter (\<lambda>t. to_id t \<noteq> i) (toasts st)"
  by (simp add: removeToast_def toasts_def Let_def)

lemma sorted_wrt_take_drop: "sorted_wrt P xs \<Longrightarrow> x \<in> set (take n xs) \<Longrightarrow> y \<in> set (drop n xs) \<Longrightarrow> P x y"
  by (metis append_take_drop_id sorted_wrt_append)

lemma remove_ranked:
  assumes "ranked st"
  shows "ranked (removeToast i st)"
proof -
  define v where "v = filter (\<lambda>t. to_id t \<noteq> i) (ts_visible st)"
  define q where "q = filter (\<lambda>t. to_id t \<noteq> i) (ts_queued st)"
  define k where "k = ts_maxVisible st - length v"
  have run: "removeToast i st = st\<lparr>ts_visible := v @ take k q, ts_queued := drop k q\<rparr>"
    by (simp add: removeToast_def v_def q_def k_def Let_def)
  have le: "length v \<le> ts_maxVisible st" using assms by (simp add: v_def ranked_def order_trans [OF length_filter_le])
  have sq: "sorted_wrt (\<lambda>a b. score b \<le> score a) q" using assms by (simp add: ranked_def q_def sorted_wrt_filter)
  have vq: "score b \<le> score a" if "a \<in> set v" "b \<in> set q" for a b
    using assms that by (auto simp: ranked_def list_all_iff v_def q_def)
  show ?thesis
    using le sorted_wrt_take_drop [OF sq] vq in_set_dropD [of _ k q]
    by (auto simp: run ranked_def list_all_iff k_def sorted_wrt_drop [OF sq])
qed

lemma remove_ok: "store_ok uuid st \<Longrightarrow> store_ok uuid (removeToast i st)"
proof -
  assume ok: "store_ok uuid st"
  have "ts_maxVisible (removeToast i st) = ts_maxVisible st" "ts_drawn (removeToast i st) = ts_drawn st"
    by (simp_all add: removeToast_def Let_def)
  with ok remove_ranked show ?thesis
    by (auto simp: store_ok_def unrepeated_def remove_toasts distinct_map_filter)
qed

lemma toast_run_ok: "inj uuid \<Longrightarrow> store_ok uuid st \<Longrightarrow> store_ok uuid (toast_run uuid p st)"
  by (cases p) (auto simp: add_ok remove_ok, auto simp: store_ok_def clearAll_def setPosition_def ranked_def unrepeated_def toasts_def)

lemma toast_fold_ok: "inj uuid \<Longrightarrow> store_ok uuid st \<Longrightarrow> store_ok uuid (fold (toast_run uuid) ops st)"
  by (induction ops arbitrary: st) (simp_all add: toast_run_ok)

lemma history_ok: "inj uuid \<Longrightarrow> store_ok uuid (toast_history uuid ops)"
  unfolding toast_history_def by (rule toast_fold_ok) (simp_all add: store_ok_def empty_toasts_def ranked_def unrepeated_def toasts_def)

text \<open>
  Whatever is added and removed, in any order: at most three toasts are visible, none waits while there is room, the queue is ranked by
  priority and nothing in it outranks a visible toast, and no two toasts show the same message of the same type.
\<close>

theorem toasts_stay_ranked:
  assumes "inj uuid"
  shows "let st = toast_history uuid ops in length (ts_visible st) \<le> 3 \<and> ranked st \<and> distinct (map toastDedupKey (ts_visible st @ ts_queued st))"
  using history_ok [OF assms, of ops] by (simp add: store_ok_def unrepeated_def toasts_def Let_def ranked_def)

section \<open>Waiting\<close>

text \<open>One of the visible toasts is dismissed.\<close>

definition dismiss :: "nat \<Rightarrow> toast_store \<Rightarrow> toast_store" where
  "dismiss k st = removeToast (to_id (ts_visible st ! k)) st"

lemma dismiss_queue:
  assumes "store_ok uuid st" and "ts_queued st = q # qs" and "k < 3"
  shows "ts_queued (dismiss k st) = qs" "q \<in> set (ts_visible (dismiss k st))"
proof -
  define l where "l = ts_visible st ! k"
  have full: "length (ts_visible st) = 3" using assms(1,2) by (simp add: store_ok_def ranked_def)
  then have l: "l \<in> set (ts_visible st)" using assms(3) by (simp add: l_def)
  have d: "distinct (map to_id (ts_visible st))" using assms(1) by (simp add: store_ok_def unrepeated_def toasts_def)
  have qid: "to_id x \<noteq> to_id l" if "x \<in> set (q # qs)" for x
    using assms(1,2) l that by (auto simp: store_ok_def unrepeated_def toasts_def)
  have one: "length (filter (\<lambda>x. to_id x \<noteq> to_id l) (ts_visible st)) = 2"
    using remove_one(2) [OF d l] full by simp
  have same: "filter (\<lambda>x. to_id x \<noteq> to_id l) (q # qs) = q # qs" using qid by (intro filter_True) blast
  have "ts_maxVisible st = 3" using assms(1) by (simp add: store_ok_def)
  then have run: "dismiss k st = st\<lparr>ts_visible := filter (\<lambda>x. to_id x \<noteq> to_id l) (ts_visible st) @ [q], ts_queued := qs\<rparr>"
    unfolding dismiss_def removeToast_def l_def [symmetric] assms(2) same Let_def using one by simp
  show "ts_queued (dismiss k st) = qs" "q \<in> set (ts_visible (dismiss k st))" by (simp_all add: run)
qed

lemma dismiss_ok: "store_ok uuid st \<Longrightarrow> store_ok uuid (dismiss k st)"
  by (simp add: dismiss_def remove_ok)

lemma shown_after:
  assumes "store_ok uuid st" and "length ks = Suc i" and "list_all (\<lambda>k. k < 3) ks" and "i < length (ts_queued st)"
  shows "ts_queued st ! i \<in> set (ts_visible (fold dismiss ks st))"
  using assms
proof (induction i arbitrary: ks st)
  case 0
  then obtain k where ks: "ks = [k]" by (cases ks) auto
  from 0 obtain q qs where "ts_queued st = q # qs" by (cases "ts_queued st") auto
  with 0 ks dismiss_queue show ?case by auto
next
  case (Suc i)
  then obtain k ks' where ks: "ks = k # ks'" by (cases ks) auto
  from Suc obtain q qs where q: "ts_queued st = q # qs" by (cases "ts_queued st") auto
  have "ts_queued (dismiss k st) ! i \<in> set (ts_visible (fold dismiss ks' (dismiss k st)))"
    using Suc ks q dismiss_queue(1) [OF _ q] dismiss_ok by (intro Suc.IH) auto
  with ks q Suc.prems dismiss_queue(1) [OF _ q] show ?case by auto
qed

text \<open>
  A toast that waits at place \<open>i\<close> of the queue is on the screen after \<open>i + 1\<close> of the visible toasts have been dismissed, whichever
  they are: nothing stays queued for ever.
\<close>

theorem queued_toast_is_shown:
  assumes "inj uuid" and "i < length (ts_queued (toast_history uuid ops))" and "length ks = i + 1" and "list_all (\<lambda>k. k < 3) ks"
  shows "ts_queued (toast_history uuid ops) ! i \<in> set (ts_visible (fold dismiss ks (toast_history uuid ops)))"
  using shown_after [OF history_ok [OF assms(1)], of ks i ops] assms by simp

section \<open>Examples\<close>

definition letters :: "nat \<Rightarrow> string" where
  "letters n = replicate n (CHR ''a'')"

definition busy :: "toast_op list" where
  "busy = map (\<lambda>(m, p). Add \<lparr>ti_message = m, ti_type = Info_toast, ti_priority = p, ti_duration = None\<rparr>)
     [(''a'', Some Low), (''b'', None), (''c'', Some High), (''d'', Some Low), (''e'', Some Critical), (''a'', None), (''f'', Some Low)]"

lemma inj_letters: "inj letters"
  by (simp add: inj_def letters_def replicate_eq_replicate)

lemma busy_queue: "map to_message (ts_queued (toast_history letters busy)) = [''d'', ''a'', ''f'']"
  by code_simp

lemma toasts_stay_ranked_witness:
  "let st = toast_history letters busy in length (ts_visible st) \<le> 3 \<and> ranked st \<and> distinct (map toastDedupKey (ts_visible st @ ts_queued st))"
  by (rule toasts_stay_ranked [OF inj_letters])

lemma queued_toast_is_shown_witness:
  "ts_queued (toast_history letters busy) ! 2 \<in> set (ts_visible (fold dismiss [1, 0, 2] (toast_history letters busy)))"
proof -
  have "length (ts_queued (toast_history letters busy)) = 3" using arg_cong [OF busy_queue, of length] by simp
  then show ?thesis by (intro queued_toast_is_shown [OF inj_letters]) simp_all
qed

end
