(* ===== verification/ClientTransactions.thy ===== *)
theory ClientTransactions
  imports Prelude
begin

text \<open>
  The guard of the web client against submitting a transaction twice (\<open>frontend-scaffold/src/hooks/useTransactionGuard.ts\<close>) and
  its store of optimistic updates (\<open>store/optimisticUpdatesStore.ts\<close>). A page holds the guards of its mounted components, the
  registry that blocks navigation, the payload in the session storage and the transactions that have not settled; a transaction begins
  in one step and settles in another. A component's callbacks see its current state and are not called once it is gone.
\<close>

section \<open>The guard\<close>

datatype TransactionStatus = Idle | Pending | Success | Failed

record PersistedGuard =
  pz_version :: nat
  pz_startedAt :: int
  pz_timeoutMs :: int

definition GUARD_PAYLOAD_VERSION :: nat where
  "GUARD_PAYLOAD_VERSION = 1"

record guard =
  tg_timeoutMs :: int
  tg_status :: TransactionStatus
  tg_restored :: bool
  tg_lock :: bool
  tg_timer :: "int option"
  tg_entered :: bool
  tg_mounted :: bool

text \<open>\<open>pg_running\<close> holds the unsettled transactions, each with its guard, \<open>pg_next\<close> the number of the next one.\<close>

record page =
  pg_guards :: "guard list"
  pg_active :: nat
  pg_stored :: "PersistedGuard option"
  pg_running :: "(nat \<times> nat) list"
  pg_next :: nat

definition empty_page :: page where
  "empty_page = \<lparr>pg_guards = [], pg_active = 0, pg_stored = None, pg_running = [], pg_next = 0\<rparr>"

definition enterTransaction :: "page \<Rightarrow> page" where
  "enterTransaction p = p\<lparr>pg_active := pg_active p + 1\<rparr>"

definition exitTransaction :: "page \<Rightarrow> page" where
  "exitTransaction p = p\<lparr>pg_active := pg_active p - 1\<rparr>"

definition readPersistedGuard :: "page \<Rightarrow> PersistedGuard option" where
  "readPersistedGuard p = (case pg_stored p of
       None \<Rightarrow> None | Some z \<Rightarrow> if pz_version z = GUARD_PAYLOAD_VERSION then Some z else None)"

definition writePersistedGuard :: "int \<Rightarrow> int \<Rightarrow> page \<Rightarrow> page" where
  "writePersistedGuard startedAt timeoutMs p =
     p\<lparr>pg_stored := Some \<lparr>pz_version = GUARD_PAYLOAD_VERSION, pz_startedAt = startedAt, pz_timeoutMs = timeoutMs\<rparr>\<rparr>"

definition clearPersistedGuard :: "page \<Rightarrow> page" where
  "clearPersistedGuard p = p\<lparr>pg_stored := None\<rparr>"

definition on_guard :: "nat \<Rightarrow> (guard \<Rightarrow> guard) \<Rightarrow> page \<Rightarrow> page" where
  "on_guard i f p = p\<lparr>pg_guards := (pg_guards p)[i := f (pg_guards p ! i)]\<rparr>"

text \<open>The entry of a guard in the registry, which it makes and withdraws once.\<close>

definition enter :: "nat \<Rightarrow> page \<Rightarrow> page" where
  "enter i p = (if tg_entered (pg_guards p ! i) then p else enterTransaction (on_guard i (\<lambda>g. g\<lparr>tg_entered := True\<rparr>) p))"

definition leave :: "nat \<Rightarrow> page \<Rightarrow> page" where
  "leave i p = (if tg_entered (pg_guards p ! i) then exitTransaction (on_guard i (\<lambda>g. g\<lparr>tg_entered := False\<rparr>) p) else p)"

definition release :: "nat \<Rightarrow> page \<Rightarrow> page" where
  "release i p = leave i (clearPersistedGuard (on_guard i (\<lambda>g. g\<lparr>tg_timer := None, tg_lock := False\<rparr>) p))"

definition scheduleTimeout :: "int \<Rightarrow> int \<Rightarrow> nat \<Rightarrow> page \<Rightarrow> page" where
  "scheduleTimeout now delayMs i = on_guard i (\<lambda>g. g\<lparr>tg_timer := Some (now + delayMs)\<rparr>)"

definition timeout_fires :: "int \<Rightarrow> nat \<Rightarrow> page \<Rightarrow> page" where
  "timeout_fires now i p = (case tg_timer (pg_guards p ! i) of
       None \<Rightarrow> p
     | Some t \<Rightarrow>
         if t \<le> now
         then leave i (clearPersistedGuard (on_guard i (\<lambda>g. g\<lparr>tg_timer := None, tg_status := Failed, tg_lock := False\<rparr>) p))
         else p)"

text \<open>A component mounts and finds the payload of a transaction that was pending when the page was left, or none.\<close>

definition new_guard :: "int \<Rightarrow> guard" where
  "new_guard timeoutMs = \<lparr>tg_timeoutMs = timeoutMs, tg_status = Idle, tg_restored = False, tg_lock = False, tg_timer = None,
     tg_entered = False, tg_mounted = True\<rparr>"

definition mount :: "int \<Rightarrow> int \<Rightarrow> page \<Rightarrow> page" where
  "mount now timeoutMs p =
     (let i = length (pg_guards p); p' = p\<lparr>pg_guards := pg_guards p @ [new_guard timeoutMs]\<rparr>
      in case readPersistedGuard p of
           None \<Rightarrow> p'
         | Some z \<Rightarrow>
             (let remaining = pz_startedAt z + pz_timeoutMs z - now
              in if remaining \<le> 0 then clearPersistedGuard p'
                 else scheduleTimeout now remaining i
                   (enter i (on_guard i (\<lambda>g. g\<lparr>tg_lock := True, tg_status := Pending, tg_restored := True\<rparr>) p'))))"

definition unmount :: "nat \<Rightarrow> page \<Rightarrow> page" where
  "unmount i p = leave i (on_guard i (\<lambda>g. g\<lparr>tg_timer := None, tg_mounted := False\<rparr>) p)"

definition startTransaction :: "int \<Rightarrow> nat \<Rightarrow> page \<Rightarrow> bool \<times> page" where
  "startTransaction now i p = (let g = pg_guards p ! i in
     if tg_lock g \<or> tg_status g = Pending then (False, p)
     else (True, (scheduleTimeout now (tg_timeoutMs g) i
       (writePersistedGuard now (tg_timeoutMs g)
       (enter i (on_guard i (\<lambda>g. g\<lparr>tg_lock := True, tg_status := Pending, tg_restored := False\<rparr>) p))))
       \<lparr>pg_running := pg_running p @ [(i, pg_next p)], pg_next := Suc (pg_next p)\<rparr>))"

definition settle :: "bool \<Rightarrow> nat \<Rightarrow> nat \<Rightarrow> page \<Rightarrow> page" where
  "settle ok i n p =
     on_guard i (\<lambda>g. g\<lparr>tg_status := if ok then Success else Failed\<rparr>) (release i (p\<lparr>pg_running := removeAll (i, n) (pg_running p)\<rparr>))"

definition reset :: "nat \<Rightarrow> page \<Rightarrow> page" where
  "reset i p = on_guard i (\<lambda>g. g\<lparr>tg_status := Idle, tg_restored := False\<rparr>) (release i p)"

text \<open>A reload forgets everything but the storage.\<close>

definition reload :: "page \<Rightarrow> page" where
  "reload p = p\<lparr>pg_guards := [], pg_active := 0, pg_running := []\<rparr>"

datatype page_op = Mount int int | Unmount nat | Start int nat | Settle bool nat nat | Timeout int nat | Reset nat | Reload

definition mounted :: "nat \<Rightarrow> page \<Rightarrow> bool" where
  "mounted i p \<longleftrightarrow> i < length (pg_guards p) \<and> tg_mounted (pg_guards p ! i)"

fun page_run :: "page_op \<Rightarrow> page \<Rightarrow> page" where
  "page_run (Mount now t) p = mount now t p"
| "page_run (Unmount i) p = (if mounted i p then unmount i p else p)"
| "page_run (Start now i) p = (if mounted i p then snd (startTransaction now i p) else p)"
| "page_run (Settle ok i n) p = (if (i, n) \<in> set (pg_running p) then settle ok i n p else p)"
| "page_run (Timeout now i) p = (if mounted i p then timeout_fires now i p else p)"
| "page_run (Reset i) p = (if mounted i p then reset i p else p)"
| "page_run Reload p = reload p"

definition page_history :: "page_op list \<Rightarrow> page" where
  "page_history ops = fold page_run ops empty_page"

section \<open>The registry\<close>

definition guard_ok :: "guard \<Rightarrow> bool" where
  "guard_ok g \<longleftrightarrow> (if tg_mounted g
     then tg_entered g = (tg_status g = Pending) \<and> tg_lock g = (tg_status g = Pending) \<and> (tg_timer g \<noteq> None) = (tg_status g = Pending)
     else \<not> tg_entered g \<and> tg_timer g = None)"

definition flag :: "bool \<Rightarrow> nat" where
  "flag b = (if b then 1 else 0)"

definition page_ok :: "page \<Rightarrow> bool" where
  "page_ok p \<longleftrightarrow>
     list_all guard_ok (pg_guards p) \<and> pg_active p = length (filter tg_entered (pg_guards p)) \<and>
     list_all (\<lambda>(i, n). i < length (pg_guards p) \<and> n < pg_next p) (pg_running p)"

lemma filter_pos: "i < length xs \<Longrightarrow> P (xs ! i) \<Longrightarrow> 0 < length (filter P xs)"
  by (metis filter_empty_conv length_greater_0_conv nth_mem)

lemma filter_update:
  assumes "i < length xs"
  shows "length (filter P (xs[i := y])) = length (filter P xs) - flag (P (xs ! i)) + flag (P y)"
  using assms
proof (induction xs arbitrary: i)
  case (Cons x xs)
  then show ?case
    using filter_pos [of "i - 1" xs P] by (cases i) (auto simp: flag_def)
qed simp

text \<open>A step that changes one guard and the registry with it.\<close>

lemma page_ok_update:
  assumes "page_ok p" and "i < length (pg_guards p)" and "guard_ok g"
    and "pg_guards q = (pg_guards p)[i := g]"
    and "pg_active q = pg_active p - flag (tg_entered (pg_guards p ! i)) + flag (tg_entered g)"
    and "list_all (\<lambda>(i, n). i < length (pg_guards p) \<and> n < pg_next q) (pg_running q)"
  shows "page_ok q"
  using assms by (auto simp: page_ok_def filter_update list_all_iff dest!: subsetD [OF set_update_subset_insert])

lemma guard_okD: "page_ok p \<Longrightarrow> i < length (pg_guards p) \<Longrightarrow> guard_ok (pg_guards p ! i)"
  by (simp add: page_ok_def list_all_length)

lemma on_guard_frame [simp]:
  "pg_active (on_guard i f p) = pg_active p" "pg_stored (on_guard i f p) = pg_stored p" "pg_running (on_guard i f p) = pg_running p"
  "pg_next (on_guard i f p) = pg_next p" "pg_guards (on_guard i f p) = (pg_guards p)[i := f (pg_guards p ! i)]"
  by (simp_all add: on_guard_def)

lemma leave_frame:
  assumes "i < length (pg_guards p)"
  shows "pg_guards (leave i p) = (pg_guards p)[i := (pg_guards p ! i)\<lparr>tg_entered := False\<rparr>]"
    "pg_active (leave i p) = pg_active p - flag (tg_entered (pg_guards p ! i))" "pg_running (leave i p) = pg_running p"
    "pg_next (leave i p) = pg_next p" "pg_stored (leave i p) = pg_stored p"
  using assms by (auto simp: leave_def exitTransaction_def flag_def intro: list_update_id [symmetric] list_update_same_conv [THEN iffD2, symmetric])

lemma enter_frame:
  assumes "i < length (pg_guards p)"
  shows "pg_guards (enter i p) = (pg_guards p)[i := (pg_guards p ! i)\<lparr>tg_entered := True\<rparr>]"
    "pg_active (enter i p) = pg_active p + flag (\<not> tg_entered (pg_guards p ! i))" "pg_running (enter i p) = pg_running p"
    "pg_next (enter i p) = pg_next p" "pg_stored (enter i p) = pg_stored p"
  using assms by (auto simp: enter_def enterTransaction_def flag_def intro: list_update_same_conv [THEN iffD2, symmetric])

text \<open>A guard that comes to rest leaves the registry; one that gets busy enters it.\<close>

lemma page_ok_idle:
  assumes "page_ok p" and "i < length (pg_guards p)" and "pg_guards q = (pg_guards p)[i := g]"
    and "tg_status g \<noteq> Pending \<and> \<not> tg_lock g \<or> \<not> tg_mounted g" and "tg_timer g = None" and "\<not> tg_entered g"
    and "pg_active q = pg_active p - flag (tg_entered (pg_guards p ! i))"
    and "list_all (\<lambda>(i, n). i < length (pg_guards p) \<and> n < pg_next q) (pg_running q)"
  shows "page_ok q"
  using assms by (intro page_ok_update [OF assms(1,2) _ assms(3) _ assms(8)]) (auto simp: guard_ok_def flag_def)

lemma page_ok_busy:
  assumes "page_ok p" and "i < length (pg_guards p)" and "pg_guards q = (pg_guards p)[i := g]"
    and "tg_status g = Pending" and "tg_lock g" and "tg_timer g \<noteq> None" and "tg_entered g" and "tg_mounted g"
    and "pg_active q = pg_active p + flag (\<not> tg_entered (pg_guards p ! i))"
    and "list_all (\<lambda>(i, n). i < length (pg_guards p) \<and> n < pg_next q) (pg_running q)"
  shows "page_ok q"
proof (rule page_ok_update [OF assms(1,2) _ assms(3) _ assms(10)])
  have "tg_entered (pg_guards p ! i) \<Longrightarrow> 0 < pg_active p"
    using filter_pos [OF assms(2), of tg_entered] assms(1) by (simp add: page_ok_def)
  with assms(7,9) show "pg_active q = pg_active p - flag (tg_entered (pg_guards p ! i)) + flag (tg_entered g)"
    by (auto simp: flag_def)
qed (simp add: guard_ok_def assms(4-8))

lemma running_kept: "page_ok p \<Longrightarrow> list_all (\<lambda>(i, n). i < length (pg_guards p) \<and> n < pg_next p) (pg_running p)"
  by (simp add: page_ok_def)

lemma clear_frame [simp]:
  "pg_guards (clearPersistedGuard p) = pg_guards p" "pg_active (clearPersistedGuard p) = pg_active p"
  "pg_running (clearPersistedGuard p) = pg_running p" "pg_next (clearPersistedGuard p) = pg_next p"
  by (simp_all add: clearPersistedGuard_def)

lemma release_frame:
  assumes "i < length (pg_guards p)"
  shows "pg_guards (release i p) = (pg_guards p)[i := (pg_guards p ! i)\<lparr>tg_timer := None, tg_lock := False, tg_entered := False\<rparr>]"
    "pg_active (release i p) = pg_active p - flag (tg_entered (pg_guards p ! i))" "pg_running (release i p) = pg_running p"
    "pg_next (release i p) = pg_next p"
  using assms by (simp_all add: release_def leave_frame)

lemma transaction_settled_ok:
  assumes "page_ok p" and "(i, n) \<in> set (pg_running p)"
  shows "page_ok (settle ok i n p)"
proof -
  have i: "i < length (pg_guards p)" using assms by (auto simp: page_ok_def list_all_iff)
  show ?thesis
    by (rule page_ok_idle [OF assms(1) i]) (use i running_kept [OF assms(1)] in \<open>(simp_all add: settle_def release_frame list_all_iff, simp_all?)\<close>)
qed

lemma reset_ok: "page_ok p \<Longrightarrow> i < length (pg_guards p) \<Longrightarrow> page_ok (reset i p)"
  by (rule page_ok_idle, assumption, assumption) (use running_kept in \<open>(simp_all add: reset_def release_frame, simp_all?)\<close>)

lemma timeout_ok:
  assumes "page_ok p" and "i < length (pg_guards p)"
  shows "page_ok (timeout_fires now i p)"
proof -
  have "page_ok (leave i (clearPersistedGuard (on_guard i (\<lambda>g. g\<lparr>tg_timer := None, tg_status := Failed, tg_lock := False\<rparr>) p)))"
    by (rule page_ok_idle [OF assms]) (use assms running_kept [OF assms(1)] in \<open>(simp_all add: leave_frame, simp_all?)\<close>)
  with assms(1) show ?thesis by (simp add: timeout_fires_def split: option.split)
qed

lemma unmount_ok: "page_ok p \<Longrightarrow> i < length (pg_guards p) \<Longrightarrow> page_ok (unmount i p)"
  by (rule page_ok_idle, assumption, assumption) (use running_kept in \<open>(simp_all add: unmount_def leave_frame, simp_all?)\<close>)

lemma start_ok:
  assumes "page_ok p" and "i < length (pg_guards p)" and "tg_mounted (pg_guards p ! i)"
  shows "page_ok (snd (startTransaction now i p))"
proof (cases "fst (startTransaction now i p)")
  case True
  then have free: "\<not> (tg_lock (pg_guards p ! i) \<or> tg_status (pg_guards p ! i) = Pending)"
    by (simp add: startTransaction_def Let_def split: if_splits)
  have run: "list_all (\<lambda>(i, n). i < length (pg_guards p) \<and> n < Suc (pg_next p)) (pg_running p)"
    using running_kept [OF assms(1)] by (auto simp: list_all_iff)
  show ?thesis
    by (rule page_ok_busy [OF assms(1,2), where g = "(pg_guards p ! i)\<lparr>tg_lock := True, tg_status := Pending, tg_restored := False,
        tg_entered := True, tg_timer := Some (now + tg_timeoutMs (pg_guards p ! i))\<rparr>"])
      (use free run assms(2,3) in \<open>(simp_all add: startTransaction_def Let_def scheduleTimeout_def writePersistedGuard_def enter_frame, simp_all?)\<close>)
next
  case False
  with assms(1) show ?thesis by (auto simp: startTransaction_def Let_def split: if_splits)
qed

lemma mount_ok:
  assumes "page_ok p"
  shows "page_ok (mount now t p)"
proof -
  define p' where "p' = p\<lparr>pg_guards := pg_guards p @ [new_guard t]\<rparr>"
  define i where "i = length (pg_guards p)"
  have ok: "page_ok p'" using assms by (auto simp: p'_def page_ok_def guard_ok_def new_guard_def list_all_iff)
  have i: "i < length (pg_guards p')" and g: "pg_guards p' ! i = new_guard t" by (simp_all add: p'_def i_def)
  have clr: "page_ok (clearPersistedGuard p')" using ok by (simp add: page_ok_def)
  have res: "page_ok (scheduleTimeout now d i (enter i (on_guard i (\<lambda>g. g\<lparr>tg_lock := True, tg_status := Pending, tg_restored := True\<rparr>) p')))" for d
    by (rule page_ok_busy [OF ok i, where g = "(new_guard t)\<lparr>tg_lock := True, tg_status := Pending, tg_restored := True,
        tg_entered := True, tg_timer := Some (now + d)\<rparr>"]) (use i g running_kept [OF ok] in \<open>(simp_all add: scheduleTimeout_def enter_frame new_guard_def, simp_all?)\<close>)
  show ?thesis
    unfolding mount_def Let_def p'_def [symmetric] i_def [symmetric] using ok clr res by (simp split: option.split)
qed

lemma page_run_ok: "page_ok p \<Longrightarrow> page_ok (page_run op p)"
proof (cases op)
  case Reload
  assume "page_ok p"
  with Reload show ?thesis by (simp add: reload_def page_ok_def)
qed (simp_all add: mount_ok unmount_ok start_ok transaction_settled_ok timeout_ok reset_ok mounted_def)

lemma page_fold_ok: "page_ok p \<Longrightarrow> page_ok (fold page_run ops p)"
  by (induction ops arbitrary: p) (simp_all add: page_run_ok)

lemma page_history_ok: "page_ok (page_history ops)"
  unfolding page_history_def by (rule page_fold_ok) (simp add: page_ok_def empty_page_def)

lemma busy_iff: "guard_ok g \<Longrightarrow> tg_entered g \<longleftrightarrow> tg_mounted g \<and> tg_status g = Pending"
  by (auto simp: guard_ok_def split: if_splits)

text \<open>
  C32. Whatever components, timers and transactions do, in any order: the number that blocks navigation is that of the mounted guards that show
  a pending transaction, each of which holds its lock and has a timer that ends it, and no guard that shows none holds either.
\<close>

theorem registry_counts_pending:
  "pg_active (page_history ops) = length (filter (\<lambda>g. tg_mounted g \<and> tg_status g = Pending) (pg_guards (page_history ops))) \<and>
   list_all guard_ok (pg_guards (page_history ops))"
proof -
  have ok: "list_all guard_ok (pg_guards (page_history ops))" and
    n: "pg_active (page_history ops) = length (filter tg_entered (pg_guards (page_history ops)))"
    using page_history_ok by (simp_all add: page_ok_def)
  have "filter tg_entered (pg_guards (page_history ops)) = filter (\<lambda>g. tg_mounted g \<and> tg_status g = Pending) (pg_guards (page_history ops))"
    using ok busy_iff by (intro filter_cong) (auto simp: list_all_iff)
  with n ok show ?thesis by simp
qed

section \<open>Submitting twice\<close>

text \<open>As long as no transaction times out and none is reset, a guard runs at most one at a time.\<close>

fun frees :: "page_op \<Rightarrow> bool" where
  "frees (Timeout now i) = True"
| "frees (Reset i) = True"
| "frees _ = False"

definition locked_running :: "page \<Rightarrow> bool" where
  "locked_running p \<longleftrightarrow> distinct (map fst (pg_running p)) \<and>
     list_all (\<lambda>(i, n). i < length (pg_guards p) \<and> tg_lock (pg_guards p ! i)) (pg_running p)"

lemma locked_update:
  assumes "locked_running p" and "length (pg_guards p) \<le> length (pg_guards q)" and "pg_running q = pg_running p"
    and "\<And>j. j < length (pg_guards p) \<Longrightarrow> tg_lock (pg_guards p ! j) \<Longrightarrow> tg_lock (pg_guards q ! j)"
  shows "locked_running q"
  using assms by (fastforce simp: locked_running_def list_all_iff)

lemma start_locked:
  assumes "locked_running p" and "i < length (pg_guards p)"
  shows "locked_running (snd (startTransaction now i p))"
proof (cases "fst (startTransaction now i p)")
  case True
  then have "\<not> tg_lock (pg_guards p ! i)" by (simp add: startTransaction_def Let_def split: if_splits)
  then have "i \<notin> fst ` set (pg_running p)" using assms(1) by (auto simp: locked_running_def list_all_iff)
  with True assms show ?thesis
    by (auto simp: startTransaction_def Let_def scheduleTimeout_def writePersistedGuard_def enter_frame locked_running_def list_all_iff
        nth_list_update split: if_splits)
next
  case False
  with assms show ?thesis by (auto simp: startTransaction_def Let_def split: if_splits)
qed

lemma settle_locked:
  assumes "locked_running p" and "(i, n) \<in> set (pg_running p)"
  shows "locked_running (settle ok i n p)"
proof -
  have i: "i < length (pg_guards p)" using assms by (auto simp: locked_running_def list_all_iff)
  have other: "j \<noteq> i" if "(j, k) \<in> set (pg_running p)" "(j, k) \<noteq> (i, n)" for j k
    using assms that by (auto simp: locked_running_def dest: eq_key_imp_eq_value)
  show ?thesis
    using assms(1) i other
    by (auto simp: settle_def release_frame locked_running_def list_all_iff nth_list_update distinct_map_filter removeAll_filter_not_eq)
qed

lemma run_locked:
  assumes "locked_running p" and "\<not> frees op"
  shows "locked_running (page_run op p)"
proof (cases op)
  case (Mount now t)
  have "locked_running (mount now t p)"
    by (rule locked_update [OF assms(1)])
      (auto simp: mount_def Let_def scheduleTimeout_def enter_frame nth_append nth_list_update split: option.split)
  with Mount show ?thesis by simp
next
  case (Unmount i)
  have "mounted i p \<Longrightarrow> locked_running (unmount i p)"
    by (rule locked_update [OF assms(1)]) (auto simp: mounted_def unmount_def leave_frame nth_list_update)
  with Unmount assms(1) show ?thesis by simp
next
  case Reload
  then show ?thesis by (simp add: reload_def locked_running_def)
qed (use assms in \<open>simp_all add: start_locked settle_locked mounted_def\<close>)

lemma one_transaction_unless_freed:
  assumes "list_all (\<lambda>op. \<not> frees op) ops"
  shows "distinct (map fst (pg_running (page_history ops)))"
proof -
  have keep: "locked_running p \<Longrightarrow> locked_running (fold page_run ops p)" for p
    using assms by (induction ops arbitrary: p) (simp_all add: run_locked)
  have "locked_running (page_history ops)"
    unfolding page_history_def by (rule keep) (simp add: locked_running_def empty_page_def)
  then show ?thesis by (simp add: locked_running_def)
qed

text \<open>
  A transaction that outlives its guard's timeout and settles while the next one runs takes that one's lock away: a third
  transaction is accepted beside the second.
\<close>

theorem late_settlement_frees_lock:
  assumes "mounted i (page_history ops)" and "(i, a) \<in> set (pg_running (page_history ops))"
    and "\<not> tg_lock (pg_guards (page_history ops) ! i)"
  shows "case startTransaction now i (page_history ops) of (accepted, p) \<Rightarrow>
    accepted \<and> (i, pg_next (page_history ops)) \<in> set (pg_running (settle ok i a p)) \<and> fst (startTransaction now' i (settle ok i a p))"
proof -
  define p where "p = page_history ops"
  have i: "i < length (pg_guards p)" and m: "tg_mounted (pg_guards p ! i)" using assms(1) by (simp_all add: mounted_def p_def)
  have ok: "page_ok p" by (simp add: p_def page_history_ok)
  have free: "\<not> tg_lock (pg_guards p ! i)" "tg_status (pg_guards p ! i) \<noteq> Pending"
    using guard_okD [OF ok i] m assms(3) by (simp_all add: guard_ok_def p_def)
  have "a < pg_next p" using ok assms(2) by (auto simp: page_ok_def list_all_iff p_def)
  with free i show ?thesis
    unfolding p_def [symmetric]
    by (simp add: startTransaction_def Let_def settle_def scheduleTimeout_def writePersistedGuard_def enter_frame release_frame)
qed

text \<open>The storage has one payload for all guards: when one settles, a reload no longer finds the other's transaction.\<close>

definition two_guards :: page where
  "two_guards = page_history [Mount 0 1000, Mount 0 1000, Start 1 0, Start 2 1, Settle True 0 0]"

lemma storage_is_shared: "pg_stored two_guards = None \<and> pg_running two_guards = [(1, 1)]"
  by code_simp

definition outlived :: "page_op list" where
  "outlived = [Mount 0 1000, Start 0 0, Timeout 1000 0]"

lemma outlived_facts: "mounted 0 (page_history outlived)" "(0, 0) \<in> set (pg_running (page_history outlived))"
  "\<not> tg_lock (pg_guards (page_history outlived) ! 0)"
  by (code_simp, code_simp, code_simp)

lemma late_settlement_frees_lock_witness:
  "case startTransaction 1001 0 (page_history outlived) of (accepted, p) \<Rightarrow>
    accepted \<and> (0, pg_next (page_history outlived)) \<in> set (pg_running (settle True 0 0 p)) \<and> fst (startTransaction 1003 0 (settle True 0 0 p))"
  by (rule late_settlement_frees_lock [OF outlived_facts])

section \<open>Optimistic updates\<close>

datatype update_status = Waiting | Confirmed | Rejected

record 'd OptimisticUpdate =
  ou_id :: string
  ou_timestamp :: int
  ou_status :: update_status
  ou_data :: 'd
  ou_error :: "string option"

text \<open>The updates in the order of their first insertion, and the timers with the id each will look up.\<close>

record 'd optimistic_store =
  os_updates :: "'d OptimisticUpdate list"
  os_timers :: "(string \<times> int) list"

definition OPTIMISTIC_CLEANUP_TIME :: int where
  "OPTIMISTIC_CLEANUP_TIME = 5 * 60 * 1000"

definition change_update :: "string \<Rightarrow> ('d OptimisticUpdate \<Rightarrow> 'd OptimisticUpdate) \<Rightarrow> 'd optimistic_store \<Rightarrow> 'd optimistic_store" where
  "change_update i f st = st\<lparr>os_updates := map (\<lambda>u. if ou_id u = i then f u else u) (os_updates st)\<rparr>"

definition addOptimisticUpdate :: "int \<Rightarrow> 'd OptimisticUpdate \<Rightarrow> 'd optimistic_store \<Rightarrow> 'd optimistic_store" where
  "addOptimisticUpdate now u st = st\<lparr>
     os_updates := (if ou_id u \<in> ou_id ` set (os_updates st) then map (\<lambda>x. if ou_id x = ou_id u then u else x) (os_updates st)
       else os_updates st @ [u]),
     os_timers := os_timers st @ [(ou_id u, now + OPTIMISTIC_CLEANUP_TIME)]\<rparr>"

definition removeUpdate :: "string \<Rightarrow> 'd optimistic_store \<Rightarrow> 'd optimistic_store" where
  "removeUpdate i st = st\<lparr>os_updates := filter (\<lambda>u. ou_id u \<noteq> i) (os_updates st)\<rparr>"

definition cleanup_timer :: "string \<Rightarrow> 'd optimistic_store \<Rightarrow> 'd optimistic_store" where
  "cleanup_timer i st = (case find (\<lambda>u. ou_id u = i) (os_updates st) of
       None \<Rightarrow> st | Some u \<Rightarrow> if ou_status u \<noteq> Confirmed then removeUpdate i st else st)"

text \<open>The timers that are due run, oldest first.\<close>

definition timers_due :: "int \<Rightarrow> 'd optimistic_store \<Rightarrow> 'd optimistic_store" where
  "timers_due now st = fold (\<lambda>(i, t). cleanup_timer i) (filter (\<lambda>(i, t). t \<le> now) (os_timers st))
     (st\<lparr>os_timers := filter (\<lambda>(i, t). \<not> t \<le> now) (os_timers st)\<rparr>)"

definition confirmUpdate :: "string \<Rightarrow> 'd optimistic_store \<Rightarrow> 'd optimistic_store" where
  "confirmUpdate i = change_update i (\<lambda>u. u\<lparr>ou_status := Confirmed\<rparr>)"

definition failUpdate :: "string \<Rightarrow> string \<Rightarrow> 'd optimistic_store \<Rightarrow> 'd optimistic_store" where
  "failUpdate i message = change_update i (\<lambda>u. u\<lparr>ou_status := Rejected, ou_error := Some message\<rparr>)"

definition cleanup :: "int \<Rightarrow> 'd optimistic_store \<Rightarrow> 'd optimistic_store" where
  "cleanup now st = st\<lparr>os_updates :=
     filter (\<lambda>u. \<not> (ou_status u = Confirmed \<and> OPTIMISTIC_CLEANUP_TIME < now - ou_timestamp u)) (os_updates st)\<rparr>"

text \<open>After the timers have run, no update whose timer was due is left unconfirmed.\<close>

lemma cleanup_timer_updates: "set (os_updates (cleanup_timer i st)) \<subseteq> set (os_updates st)"
  by (auto simp: cleanup_timer_def removeUpdate_def split: option.split)

lemma cleanup_timer_gone:
  assumes "distinct (map ou_id (os_updates st))" and "u \<in> set (os_updates (cleanup_timer (ou_id u) st))"
  shows "ou_status u = Confirmed"
proof -
  have "u \<in> set (os_updates st)" using assms(2) cleanup_timer_updates by blast
  then obtain v where v: "find (\<lambda>x. ou_id x = ou_id u) (os_updates st) = Some v"
    by (metis (mono_tags, lifting) find_None_iff2 not_None_eq)
  then have "v \<in> set (os_updates st)" "ou_id v = ou_id u" by (auto simp: find_Some_iff)
  with \<open>u \<in> set (os_updates st)\<close> assms(1) have "v = u" by (metis distinct_map inj_onD)
  with v assms(2) show ?thesis by (auto simp: cleanup_timer_def removeUpdate_def split: if_splits)
qed

lemma cleanup_timer_distinct:
  "distinct (map ou_id (os_updates st)) \<Longrightarrow> distinct (map ou_id (os_updates (cleanup_timer i st)))"
  by (auto simp: cleanup_timer_def removeUpdate_def distinct_map_filter split: option.split)

lemma due_timers_run:
  assumes "distinct (map ou_id (os_updates st))" and "(ou_id u, t) \<in> set ts"
    and "u \<in> set (os_updates (fold (\<lambda>(i, t). cleanup_timer i) ts st))"
  shows "ou_status u = Confirmed"
  using assms
proof (induction ts arbitrary: st)
  case (Cons x ts)
  have sub: "set (os_updates (fold (\<lambda>(i, t). cleanup_timer i) ts s)) \<subseteq> set (os_updates s)" for s :: "'a optimistic_store"
    by (induction ts arbitrary: s) (use cleanup_timer_updates in fastforce)+
  show ?case
  proof (cases "(ou_id u, t) \<in> set ts")
    case True
    with Cons cleanup_timer_distinct show ?thesis by (auto split: prod.splits)
  next
    case False
    with Cons.prems have "x = (ou_id u, t)" by simp
    with Cons.prems sub cleanup_timer_gone show ?thesis by (auto dest!: subsetD)
  qed
qed simp

lemma unconfirmed_update_expires:
  assumes "distinct (map ou_id (os_updates st))" and "(ou_id u, t) \<in> set (os_timers st)" and "t \<le> now"
    and "u \<in> set (os_updates (timers_due now st))"
  shows "ou_status u = Confirmed"
  using due_timers_run [of "st\<lparr>os_timers := filter (\<lambda>(i, t). \<not> t \<le> now) (os_timers st)\<rparr>" u t "filter (\<lambda>(i, t). t \<le> now) (os_timers st)"] assms
  by (simp add: timers_due_def)

text \<open>A timer belongs to an id, not to an update: the one of an earlier update removes a later one of the same id before its time.\<close>

lemma early_timer_removes_later_update:
  "let u = \<lparr>ou_id = ''t'', ou_timestamp = 0, ou_status = Waiting, ou_data = (), ou_error = None\<rparr>;
       st = addOptimisticUpdate 200000 u (removeUpdate ''t'' (addOptimisticUpdate 0 u \<lparr>os_updates = [], os_timers = []\<rparr>))
   in os_updates (timers_due 300000 st) = [] \<and> (''t'', 500000) \<in> set (os_timers st)"
  by code_simp

end
