(* ===== verification/ClientText.thy ===== *)
theory ClientText
  imports Store "HOL-Library.Word"
begin

text \<open>
  Texts the web client builds and checks (\<open>frontend-scaffold/src/helpers/validation.ts\<close>, \<open>sanitize.ts\<close>, \<open>format.ts\<close>,
  \<open>lib/transactionHash.ts\<close>, \<open>features/transactions/exportCsv.ts\<close>): addresses and names, escaping, the keys of contract
  values, the provisional id of a transaction, and rows of comma separated values. Unicode normalisation, the scripts of letters and
  the formatting of decimal amounts are parameters.
\<close>

unbundle bit_operations_syntax

section \<open>Provisional transaction ids\<close>

record tip_report =
  tr_tipper :: string
  tr_creator :: string
  tr_amount :: string
  tr_timestamp :: int
  tr_txHash :: "string option"

text \<open>\<open>hash << 5\<close> and \<open>hash & hash\<close> read their operands as signed 32-bit integers; the subtraction and the sum are exact.\<close>

definition to_int32 :: "int \<Rightarrow> int" where
  "to_int32 i = sint (word_of_int i :: 32 word)"

definition hash_step :: "int \<Rightarrow> nat \<Rightarrow> int" where
  "hash_step hash char = to_int32 (sint (push_bit 5 (word_of_int hash :: 32 word)) - hash + int char)"

function hex_nat :: "nat \<Rightarrow> string" where
  "hex_nat n = (if n < 16 then [hex_digit n] else hex_nat (n div 16) @ [hex_digit (n mod 16)])"
  by auto

termination
  by (relation "measure id") auto

definition hashString :: "string \<Rightarrow> string" where
  "hashString str = pad_left 8 (hex_nat (nat \<bar>foldl (\<lambda>h c. hash_step h (char_code c)) 0 str\<bar>))"

definition tip_signature :: "tip_report \<Rightarrow> string" where
  "tip_signature tip = tr_tipper tip @ ''-'' @ tr_creator tip @ ''-'' @ tr_amount tip @ ''-'' @ show_int (tr_timestamp tip)"

definition generateTipTransactionId :: "tip_report \<Rightarrow> string" where
  "generateTipTransactionId tip = (if or_empty (tr_txHash tip) \<noteq> [] then or_empty (tr_txHash tip)
     else ''pending-'' @ hashString (tip_signature tip))"

definition isPendingTransaction :: "string \<Rightarrow> bool" where
  "isPendingTransaction i = starts_with i ''pending-''"

text \<open>The reference: the polynomial in 31 over the codes of the characters, on 32-bit words.\<close>

definition poly31 :: "string \<Rightarrow> 32 word" where
  "poly31 s = foldl (\<lambda>h c. 31 * h + of_nat (char_code c)) 0 s"

lemma to_int32_word: "word_of_int (to_int32 i) = (word_of_int i :: 32 word)"
  by (simp add: to_int32_def)

lemma hash_step_word: "word_of_int (hash_step h c) = (31 * word_of_int h + of_nat c :: 32 word)"
proof -
  have "word_of_int (hash_step h c) = (push_bit 5 (word_of_int h) - word_of_int h + of_nat c :: 32 word)"
    by (simp add: hash_step_def to_int32_word)
  also have "push_bit 5 (word_of_int h :: 32 word) = 32 * word_of_int h" by (simp add: push_bit_eq_mult)
  finally show ?thesis by (simp add: algebra_simps)
qed

lemma hash_fold: "foldl (\<lambda>h c. hash_step h (char_code c)) (sint w) s = sint (foldl (\<lambda>h c. 31 * h + of_nat (char_code c)) (w :: 32 word) s)"
proof (induction s arbitrary: w)
  case (Cons c s)
  have "hash_step (sint w) (char_code c) = sint (word_of_int (hash_step (sint w) (char_code c)) :: 32 word)"
    by (simp add: hash_step_def to_int32_def)
  then have "hash_step (sint w) (char_code c) = sint (31 * w + of_nat (char_code c))" by (simp add: hash_step_word)
  with Cons show ?case by simp
qed simp

lemma length_hex_nat: "n < 16 ^ Suc k \<Longrightarrow> length (hex_nat n) \<le> Suc k"
proof (induction k arbitrary: n)
  case (Suc k)
  show ?case
  proof (cases "n < 16")
    case False
    have "n div 16 < 16 ^ Suc k" using Suc.prems by (simp add: div_less_iff_less_mult)
    with Suc.IH False show ?thesis by (subst hex_nat.simps) (simp del: hex_nat.simps)
  qed simp
qed simp

declare hex_nat.simps [simp del]

text \<open>
  The provisional id of a tip without a hash is the polynomial hash of its signature on 32-bit words, sign dropped, in eight
  hexadecimal digits.
\<close>

theorem pending_id_is_polynomial_hash:
  assumes "or_empty (tr_txHash tip) = []"
  shows "\<exists>digits. generateTipTransactionId tip = ''pending-'' @ digits \<and> length digits = 8 \<and>
    digits = pad_left 8 (hex_nat (nat \<bar>sint (poly31 (tip_signature tip))\<bar>)) \<and> isPendingTransaction (generateTipTransactionId tip)"
proof -
  let ?w = "poly31 (tip_signature tip)"
  have h: "hashString (tip_signature tip) = pad_left 8 (hex_nat (nat \<bar>sint ?w\<bar>))"
    using hash_fold [of 0 "tip_signature tip"] by (simp add: hashString_def poly31_def)
  have "- (2 ^ 31) \<le> sint ?w" "sint ?w < 2 ^ 31"
    using sint_greater_eq [of ?w] sint_less [of ?w] by simp_all
  then have "nat \<bar>sint ?w\<bar> < 16 ^ Suc 7" by (simp add: nat_less_iff abs_le_iff)
  then have "length (pad_left 8 (hex_nat (nat \<bar>sint ?w\<bar>))) = 8"
    using length_hex_nat [of _ 7] by (simp add: pad_left_def)
  with h assms show ?thesis by (simp add: generateTipTransactionId_def isPendingTransaction_def)
qed

section \<open>Addresses and names\<close>

record ValidationResult =
  vr_valid :: bool
  vr_error :: "string option"

definition valid_result :: ValidationResult where
  "valid_result = \<lparr>vr_valid = True, vr_error = None\<rparr>"

definition invalid_result :: "string \<Rightarrow> ValidationResult" where
  "invalid_result message = \<lparr>vr_valid = False, vr_error = Some message\<rparr>"

definition is_base32 :: "char \<Rightarrow> bool" where
  "is_base32 c \<longleftrightarrow> is_upper c \<or> 50 \<le> char_code c \<and> char_code c \<le> 55"

definition STELLAR_ADDRESS_RE :: "string \<Rightarrow> bool" where
  "STELLAR_ADDRESS_RE s \<longleftrightarrow> (case s of [] \<Rightarrow> False | c # cs \<Rightarrow> c = CHR ''G'' \<and> length cs = 55 \<and> list_all is_base32 cs)"

definition BURN_ADDRESSES :: "string list" where
  "BURN_ADDRESSES =
     [''GAAZI4TCR3TY5OJHCTJC2A4QSY6CJWJH5IAJTGKIN2ER7LBNVKOCCWN'', ''GAAAAAAAAAAAAAAAAAAAAAAAAAAAAAAAAAAAAAAAAAAAAAAAAAAAWHF'']"

definition isValidStellarAddress :: "string \<Rightarrow> bool" where
  "isValidStellarAddress address = (let trimmed = js_trim address in
     if \<not> STELLAR_ADDRESS_RE trimmed then False else if trimmed \<in> set BURN_ADDRESSES then False else True)"

definition validateStellarAddress :: "string \<Rightarrow> ValidationResult" where
  "validateStellarAddress address = (let trimmed = js_trim address in
     if trimmed = [] then invalid_result ''Wallet address is required.''
     else if length trimmed \<noteq> 56
     then invalid_result (''Wallet address must be exactly 56 characters (got '' @ show_nat (length trimmed) @ '').'')
     else if \<not> starts_with trimmed ''G'' then invalid_result ''Wallet address must start with 'G' (Stellar public key).''
     else if \<not> STELLAR_ADDRESS_RE trimmed
     then invalid_result (''Wallet address contains invalid characters. Only uppercase A-Z and digits 2-7 are allowed after the 'G'.'')
     else if trimmed \<in> set BURN_ADDRESSES then invalid_result ''Cannot send to a known burn address.''
     else valid_result)"

definition sanitizeStellarAddress :: "string \<Rightarrow> string option" where
  "sanitizeStellarAddress address = (let sanitized = to_upper (js_trim address) in
     if isValidStellarAddress sanitized then Some sanitized else None)"

definition canTipAddress :: "string \<Rightarrow> string option \<Rightarrow> ValidationResult" where
  "canTipAddress address connectedWallet =
     (if \<not> vr_valid (validateStellarAddress address) then validateStellarAddress address
      else if or_empty connectedWallet \<noteq> [] \<and> to_upper (js_trim address) = to_upper (js_trim (or_empty connectedWallet))
      then invalid_result ''You cannot tip your own wallet address.''
      else valid_result)"

definition MAX_MESSAGE_LENGTH :: nat where
  "MAX_MESSAGE_LENGTH = 280"

definition MAX_BIO_LENGTH :: nat where
  "MAX_BIO_LENGTH = 280"

definition USERNAME_RE :: "string \<Rightarrow> bool" where
  "USERNAME_RE s \<longleftrightarrow> (case s of [] \<Rightarrow> False | c # cs \<Rightarrow> is_lower c \<and> 2 \<le> length cs \<and> length cs \<le> 31 \<and>
     list_all (\<lambda>d. is_lower d \<or> is_digit d \<or> d = CHR ''_'') cs)"

text \<open>\<open>hasHomoglyphs\<close> knows the script of every letter: two predicates on characters.\<close>

definition hasHomoglyphs :: "(char \<Rightarrow> bool) \<Rightarrow> (char \<Rightarrow> bool) \<Rightarrow> string \<Rightarrow> bool" where
  "hasHomoglyphs latin confusable str \<longleftrightarrow> list_ex latin str \<and> list_ex confusable str"

definition validateUsername :: "(char \<Rightarrow> bool) \<Rightarrow> (char \<Rightarrow> bool) \<Rightarrow> string \<Rightarrow> ValidationResult" where
  "validateUsername latin confusable username = (let trimmed = js_trim username in
     if length trimmed < 3 \<or> 32 < length trimmed then invalid_result ''Username must be 3-32 characters long.''
     else if hasHomoglyphs latin confusable trimmed then invalid_result ''Username contains potentially confusable characters.''
     else if \<not> USERNAME_RE trimmed
     then invalid_result ''Username must start with a letter and contain only lowercase letters, numbers, or underscores.''
     else if ends_with trimmed ''_'' then invalid_result ''Username cannot end with an underscore.''
     else if str_includes trimmed ''__'' then invalid_result ''Username cannot contain consecutive underscores.''
     else valid_result)"

definition validateDisplayName :: "string \<Rightarrow> ValidationResult" where
  "validateDisplayName name = (let trimmed = js_trim name in
     if length trimmed = 0 \<or> 64 < length trimmed then invalid_result ''Display name must be 1-64 characters.'' else valid_result)"

definition validateBio :: "string \<Rightarrow> ValidationResult" where
  "validateBio bio = (if MAX_BIO_LENGTH < length (js_trim bio)
     then invalid_result (''Bio must be '' @ show_nat MAX_BIO_LENGTH @ '' characters or fewer.'') else valid_result)"

definition validateMessage :: "string \<Rightarrow> ValidationResult" where
  "validateMessage message = (if MAX_MESSAGE_LENGTH < length message
     then invalid_result (''Message must be '' @ show_nat MAX_MESSAGE_LENGTH @ '' characters or fewer.'') else valid_result)"

definition X_HANDLE_RE :: "string \<Rightarrow> bool" where
  "X_HANDLE_RE s \<longleftrightarrow> (case s of [] \<Rightarrow> False | c # cs \<Rightarrow> c = CHR ''@'' \<and> 4 \<le> length cs \<and> length cs \<le> 15 \<and> list_all is_word_char cs)"

definition normalizeXHandle :: "string \<Rightarrow> string" where
  "normalizeXHandle handle = js_trim handle"

definition validateXHandle :: "string \<Rightarrow> ValidationResult" where
  "validateXHandle handle = (let trimmed = normalizeXHandle handle in
     if length trimmed = 0 then invalid_result ''X handle cannot be empty.''
     else if \<not> starts_with trimmed ''@'' then invalid_result ''X handle must start with @.''
     else if length (drop 1 trimmed) < 4 \<or> 15 < length (drop 1 trimmed) then invalid_result ''X handle must be 4-15 characters after @.''
     else if \<not> X_HANDLE_RE trimmed then invalid_result ''X handle can only contain letters, numbers, and underscores after @.''
     else valid_result)"

lemma valid_facts [simp]: "vr_valid valid_result" "\<not> vr_valid (invalid_result e)"
  by (simp_all add: valid_result_def invalid_result_def)

lemma burn_lengths: "s \<in> set BURN_ADDRESSES \<Longrightarrow> length s = 55"
  by (auto simp: BURN_ADDRESSES_def)

lemma address_length: "STELLAR_ADDRESS_RE s \<Longrightarrow> length s = 56 \<and> starts_with s ''G''"
  by (auto simp: STELLAR_ADDRESS_RE_def split: list.splits)

text \<open>The listed burn addresses have 55 characters, an address has 56: the check never finds one.\<close>

lemma burn_check_is_dead: "STELLAR_ADDRESS_RE s \<Longrightarrow> s \<notin> set BURN_ADDRESSES"
  using burn_lengths address_length by fastforce

text \<open>The two validations agree, and amount to the form of an address.\<close>

lemma validate_address_iff: "vr_valid (validateStellarAddress a) \<longleftrightarrow> STELLAR_ADDRESS_RE (js_trim a)"
  using address_length [of "js_trim a"] burn_check_is_dead [of "js_trim a"]
  by (auto simp: validateStellarAddress_def Let_def)

lemma is_valid_iff: "isValidStellarAddress a \<longleftrightarrow> STELLAR_ADDRESS_RE (js_trim a)"
  using burn_check_is_dead by (auto simp: isValidStellarAddress_def Let_def)

lemma base32_upper: "is_base32 c \<Longrightarrow> to_upper_char c = c"
  by (auto simp: is_base32_def to_upper_char_def is_upper_def is_lower_def)

lemma base32_not_space: "is_base32 c \<Longrightarrow> \<not> is_space c"
  by (auto simp: is_base32_def is_upper_def is_space_def)

lemma trim_none: "list_all (\<lambda>c. \<not> is_space c) s \<Longrightarrow> js_trim s = s"
proof -
  assume "list_all (\<lambda>c. \<not> is_space c) s"
  then have *: "\<forall>c \<in> set s. \<not> is_space c" by (simp add: list_all_iff)
  then have "dropWhile is_space s = s" by (simp add: dropWhile_eq_self_iff)
  moreover have "dropWhile is_space (rev s) = rev s" using * by (cases "s = []") (simp_all add: dropWhile_eq_self_iff hd_rev)
  ultimately show ?thesis by (simp add: js_trim_def)
qed

lemma trim_idem: "js_trim (js_trim s) = js_trim s"
proof -
  define t where "t = dropWhile is_space s"
  define u where "u = rev (dropWhile is_space (rev t))"
  obtain v where t: "t = u @ v" unfolding u_def by (metis rev_append rev_rev_ident takeWhile_dropWhile_id)
  have "dropWhile is_space t = t" by (simp add: t_def)
  then have "u = [] \<or> \<not> is_space (hd u)" by (auto simp: dropWhile_eq_self_iff t)
  then have "dropWhile is_space u = u" by (simp add: dropWhile_eq_self_iff)
  moreover have "dropWhile is_space (rev u) = rev u" by (simp add: u_def)
  ultimately have "js_trim u = u" by (simp add: js_trim_def)
  then show ?thesis by (simp add: js_trim_def u_def t_def)
qed

lemma upper_space: "is_space (to_upper_char c) = is_space c"
  by (auto simp: to_upper_char_def is_space_def is_lower_def char_code_def of_char_of)

lemma trim_upper: "js_trim (to_upper s) = to_upper (js_trim s)"
  by (simp add: js_trim_def to_upper_def dropWhile_map rev_map comp_def upper_space)

lemma address_base32: "STELLAR_ADDRESS_RE s \<Longrightarrow> list_all is_base32 s"
  by (auto simp: STELLAR_ADDRESS_RE_def is_base32_def is_upper_def char_code_def split: list.splits)

lemma address_is_fixed:
  assumes "STELLAR_ADDRESS_RE s"
  shows "js_trim s = s" "to_upper s = s"
  using address_base32 [OF assms] base32_not_space base32_upper
  by (auto intro!: trim_none map_idI simp: to_upper_def list_all_iff)

text \<open>
  Both validations accept the same addresses. An address that is sent to a contract call is one of them, with nothing left to
  sanitise, and an address is only refused as a target of a tip for its form or for being the caller's own.
\<close>

theorem address_checks_agree:
  "(vr_valid (validateStellarAddress a) \<longleftrightarrow> isValidStellarAddress a) \<and>
   (case sanitizeStellarAddress a of None \<Rightarrow> True
     | Some b \<Rightarrow> isValidStellarAddress b \<and> STELLAR_ADDRESS_RE b \<and> sanitizeStellarAddress b = Some b) \<and>
   (vr_valid (canTipAddress a w) \<longleftrightarrow>
     isValidStellarAddress a \<and> \<not> (or_empty w \<noteq> [] \<and> to_upper (js_trim a) = to_upper (js_trim (or_empty w))))"
proof -
  have "isValidStellarAddress b \<and> STELLAR_ADDRESS_RE b \<and> sanitizeStellarAddress b = Some b" if "sanitizeStellarAddress a = Some b" for b
  proof -
    from that have b: "b = to_upper (js_trim a)" "STELLAR_ADDRESS_RE (js_trim b)"
      by (auto simp: sanitizeStellarAddress_def Let_def is_valid_iff split: if_splits)
    have "js_trim b = b" using b(1) by (simp add: trim_upper trim_idem)
    with b address_is_fixed show ?thesis by (simp add: is_valid_iff sanitizeStellarAddress_def Let_def)
  qed
  then show ?thesis by (auto simp: canTipAddress_def validate_address_iff is_valid_iff split: option.split)
qed

section \<open>Keys of contract values\<close>

text \<open>\<open>key.replace(/_([a-z])/g, ...)\<close> and \<open>key.replace(/[A-Z]/g, ...)\<close>.\<close>

fun snakeToCamel :: "string \<Rightarrow> string" where
  "snakeToCamel (c # d # cs) = (if c = CHR ''_'' \<and> is_lower d then to_upper_char d # snakeToCamel cs else c # snakeToCamel (d # cs))"
| "snakeToCamel cs = cs"

definition camelToSnakeKey :: "string \<Rightarrow> string" where
  "camelToSnakeKey key = concat (map (\<lambda>c. if is_upper c then [CHR ''_'', to_lower_char c] else [c]) key)"

text \<open>\<open>Object.fromEntries\<close>: a key that comes again overwrites the value of the first.\<close>

definition put_entry :: "string \<times> jsval \<Rightarrow> (string \<times> jsval) list \<Rightarrow> (string \<times> jsval) list" where
  "put_entry e es = (if fst e \<in> fst ` set es then map (\<lambda>x. if fst x = fst e then e else x) es else es @ [e])"

definition fromEntries :: "(string \<times> jsval) list \<Rightarrow> jsval" where
  "fromEntries es = JObj PlainObject (fold put_entry es [])"

fun map_keys :: "(string \<Rightarrow> string) \<Rightarrow> jsval \<Rightarrow> jsval" where
  "map_keys f (JArr xs) = JArr (map (map_keys f) xs)"
| "map_keys f (JObj c fs) = fromEntries (map (\<lambda>(k, v). (f k, map_keys f v)) fs)"
| "map_keys f v = v"

definition mapContractResponse :: "jsval \<Rightarrow> jsval" where
  "mapContractResponse = map_keys snakeToCamel"

definition camelToSnake :: "jsval \<Rightarrow> jsval" where
  "camelToSnake = map_keys camelToSnakeKey"

definition no_upper :: "string \<Rightarrow> bool" where
  "no_upper k \<longleftrightarrow> list_all (\<lambda>c. \<not> is_upper c) k"

text \<open>A value as the contract has it: plain objects whose keys are distinct and without capitals, at every depth.\<close>

fun snake_value :: "jsval \<Rightarrow> bool" where
  "snake_value (JArr xs) = list_all snake_value xs"
| "snake_value (JObj c fs) = (c = PlainObject \<and> distinct (map fst fs) \<and> list_all (\<lambda>(k, v). no_upper k \<and> snake_value v) fs)"
| "snake_value v = True"

lemma lower_upper: "is_lower d \<Longrightarrow> is_upper (to_upper_char d) \<and> to_lower_char (to_upper_char d) = d"
  by (auto simp: to_upper_char_def to_lower_char_def is_lower_def is_upper_def char_code_def of_char_of)

lemma key_roundtrip: "no_upper k \<Longrightarrow> camelToSnakeKey (snakeToCamel k) = k"
  by (induction k rule: snakeToCamel.induct) (auto simp: camelToSnakeKey_def no_upper_def lower_upper)

lemma put_new: "distinct (map fst (es @ fs)) \<Longrightarrow> fold put_entry fs es = es @ fs"
proof (induction fs arbitrary: es)
  case (Cons f fs)
  then have "put_entry f es = es @ [f]" by (auto simp: put_entry_def)
  with Cons show ?case by simp
qed simp

lemma fromEntries_distinct: "distinct (map fst fs) \<Longrightarrow> fromEntries fs = JObj PlainObject fs"
  using put_new [of "[]" fs] by (simp add: fromEntries_def)

lemma camel_distinct:
  assumes "distinct (map fst fs)" and "list_all (\<lambda>(k, v). no_upper k \<and> snake_value v) fs"
  shows "distinct (map fst (map (\<lambda>(k, v). (snakeToCamel k, g v)) fs))"
proof -
  have "inj_on snakeToCamel (set (map fst fs))"
    using assms(2) by (intro inj_on_inverseI [of _ camelToSnakeKey]) (auto simp: list_all_iff key_roundtrip)
  with assms(1) have "distinct (map snakeToCamel (map fst fs))" by (subst distinct_map) (rule conjI)
  then show ?thesis by (simp add: comp_def case_prod_unfold)
qed

text \<open>C33. What the client reads from the contract, written back, has the contract's keys again.\<close>

theorem contract_keys_roundtrip:
  assumes "snake_value v"
  shows "camelToSnake (mapContractResponse v) = v"
  using assms unfolding camelToSnake_def mapContractResponse_def
proof (induction v rule: snake_value.induct)
  case (1 xs)
  then show ?case by (auto simp: list_all_iff intro: map_idI)
next
  case (2 c fs)
  let ?m = "map (\<lambda>(k, v). (snakeToCamel k, map_keys snakeToCamel v)) fs"
  have one: "map_keys snakeToCamel (JObj c fs) = JObj PlainObject ?m"
    using 2 camel_distinct [of fs "map_keys snakeToCamel"] by (simp add: fromEntries_distinct)
  have again: "map (\<lambda>(k, v). (camelToSnakeKey k, map_keys camelToSnakeKey v)) ?m = fs"
    using 2 by (fastforce simp: list_all_iff key_roundtrip intro: map_idI)
  from 2 have "distinct (map fst fs)" by simp
  with one again 2 show ?case by (simp add: fromEntries_distinct del: map_map)
qed simp_all

section \<open>Sanitising\<close>

fun entity :: "char \<Rightarrow> string" where
  "entity c = (if c = CHR ''&'' then ''&amp;'' else if c = CHR ''<'' then ''&lt;'' else if c = CHR ''>'' then ''&gt;''
     else if c = CHR 0x22 then ''&quot;'' else if c = CHR 0x27 then ''&#39;'' else [c])"

definition is_control :: "char \<Rightarrow> bool" where
  "is_control c \<longleftrightarrow> char_code c < 32 \<or> 127 \<le> char_code c \<and> char_code c < 160"

definition sanitizePlainText :: "(string \<Rightarrow> string) \<Rightarrow> string \<Rightarrow> string" where
  "sanitizePlainText nfc input = js_trim (nfc (filter (\<lambda>c. \<not> is_control c) input))"

definition sanitize :: "(string \<Rightarrow> string) \<Rightarrow> string \<Rightarrow> string" where
  "sanitize nfc input = concat (map entity (js_trim (nfc (filter (\<lambda>c. \<not> is_control c) input))))"

definition sanitizeUsername :: "(string \<Rightarrow> string) \<Rightarrow> string \<Rightarrow> string" where
  "sanitizeUsername nfc username = to_lower (js_trim (nfc (filter (\<lambda>c. \<not> is_control c) username)))"

text \<open>How a browser reads a text with the entities the escaping writes.\<close>

definition entities :: "(string \<times> char) list" where
  "entities = [(''&amp;'', CHR ''&''), (''&lt;'', CHR ''<''), (''&gt;'', CHR ''>''), (''&quot;'', CHR 0x22), (''&#39;'', CHR 0x27)]"

fun read_html :: "nat \<Rightarrow> string \<Rightarrow> string" where
  "read_html 0 s = []"
| "read_html (Suc n) s = (case s of [] \<Rightarrow> [] | c # cs \<Rightarrow>
     (case find (\<lambda>e. starts_with s (fst e)) entities of
        Some (e, d) \<Rightarrow> d # read_html n (drop (length e) s)
      | None \<Rightarrow> c # read_html n cs))"

lemma read_entity: "read_html (Suc n) (entity c @ s) = c # read_html n s"
  by (auto simp: entities_def)

lemma read_escaped: "length s \<le> n \<Longrightarrow> read_html n (concat (map entity s)) = s"
proof (induction n arbitrary: s)
  case (Suc n)
  then show ?case by (cases s) (simp_all add: read_entity del: read_html.simps(2) entity.simps, simp)
qed simp

text \<open>
  A sanitised text has no character that begins a tag or ends an attribute, and a browser shows it as the plain text that was typed.
\<close>

theorem sanitized_text_is_inert:
  "list_all (\<lambda>c. c \<notin> {CHR ''<'', CHR ''>'', CHR 0x22, CHR 0x27}) (sanitize nfc s) \<and>
   read_html (length (sanitizePlainText nfc s)) (sanitize nfc s) = sanitizePlainText nfc s"
proof
  show "list_all (\<lambda>c. c \<notin> {CHR ''<'', CHR ''>'', CHR 0x22, CHR 0x27}) (sanitize nfc s)"
    by (auto simp: sanitize_def list_all_iff split: if_splits)
  show "read_html (length (sanitizePlainText nfc s)) (sanitize nfc s) = sanitizePlainText nfc s"
    by (simp add: sanitize_def sanitizePlainText_def read_escaped del: entity.simps)
qed

section \<open>Comma separated values\<close>

record csv_transaction =
  ct_id :: string
  ct_type :: string
  ct_amount :: string
  ct_counterparty :: string
  ct_date :: int
  ct_message :: string
  ct_txHash :: "string option"
  ct_fee :: "string option"
  ct_net :: "string option"

definition CSV_HEADERS :: "string list" where
  "CSV_HEADERS = [''ID'', ''Type'', ''Amount (XLM)'', ''Fee (XLM)'', ''Net (XLM)'', ''Counterparty'', ''Date'', ''Message'', ''TX Hash'']"

definition quote_message :: "string \<Rightarrow> string" where
  "quote_message message = (if message = [] then []
     else [CHR 0x22] @ concat (map (\<lambda>c. if c = CHR 0x22 then [CHR 0x22, CHR 0x22] else [c]) message) @ [CHR 0x22])"

text \<open>\<open>toXlm\<close> is \<open>stroopToXlm(\<dots>, 7)\<close>.\<close>

definition csv_columns :: "(string \<Rightarrow> string) \<Rightarrow> csv_transaction \<Rightarrow> string list" where
  "csv_columns toXlm tx =
     (let amount_of = (\<lambda>a. if or_empty a = [] then [] else toXlm (or_empty a))
      in [ct_id tx, ct_type tx, toXlm (ct_amount tx), amount_of (ct_fee tx), amount_of (ct_net tx), ct_counterparty tx,
          iso_string (ct_date tx * 1000), ct_message tx, or_empty (ct_txHash tx)])"

definition csv_row :: "(string \<Rightarrow> string) \<Rightarrow> csv_transaction \<Rightarrow> string" where
  "csv_row toXlm tx = join '','' ((csv_columns toXlm tx)[7 := quote_message (ct_message tx)])"

definition csv_text :: "(string \<Rightarrow> string) \<Rightarrow> csv_transaction list \<Rightarrow> string" where
  "csv_text toXlm txs = join [char_of (10 :: nat)] (join '','' CSV_HEADERS # map (csv_row toXlm) txs)"

text \<open>How a spreadsheet reads a row: commas separate, except between quotes, where a doubled quote stands for one.\<close>

definition onto :: "char \<Rightarrow> string list \<Rightarrow> string list" where
  "onto c ws = (case ws of [] \<Rightarrow> [[c]] | w # ws' \<Rightarrow> (c # w) # ws')"

datatype csv_mode = Outside | Inside | Quote_seen

primrec read_row :: "csv_mode \<Rightarrow> string \<Rightarrow> string list" where
  "read_row m [] = [[]]"
| "read_row m (c # cs) =
     (if m = Inside then if c = CHR 0x22 then read_row Quote_seen cs else onto c (read_row Inside cs)
      else if c = CHR 0x22 then if m = Quote_seen then onto c (read_row Inside cs) else read_row Inside cs
      else if c = CHR '','' then [] # read_row Outside cs
      else onto c (read_row Outside cs))"

definition plain :: "string \<Rightarrow> bool" where
  "plain s \<longleftrightarrow> list_all (\<lambda>c. c \<noteq> CHR '','' \<and> c \<noteq> CHR 0x22) s"

definition glue :: "string \<Rightarrow> string list \<Rightarrow> string list" where
  "glue s ws = (case ws of [] \<Rightarrow> [s] | w # ws' \<Rightarrow> (s @ w) # ws')"

lemma onto_ne [simp]: "onto c ws \<noteq> []"
  by (simp add: onto_def split: list.split)

lemma read_row_ne [simp]: "read_row m s \<noteq> []"
  by (induction s arbitrary: m) simp_all

lemma read_plain: "plain s \<Longrightarrow> read_row Outside (s @ t) = glue s (read_row Outside t)"
proof (induction s)
  case Nil
  with read_row_ne [of Outside t] show ?case by (simp add: glue_def split: list.split)
next
  case (Cons c s)
  then have "read_row Outside ((c # s) @ t) = onto c (glue s (read_row Outside t))" by (simp add: plain_def)
  then show ?case by (simp add: glue_def onto_def split: list.split)
qed

lemma read_quoted:
  "read_row Inside (concat (map (\<lambda>c. if c = CHR 0x22 then [CHR 0x22, CHR 0x22] else [c]) m) @ CHR 0x22 # CHR '','' # t) = m # read_row Outside t"
  by (induction m) (simp_all add: onto_def)

lemma read_message: "read_row Outside (quote_message m @ CHR '','' # t) = m # read_row Outside t"
  using read_quoted [of m t] by (simp add: quote_message_def)

lemma read_field: "plain s \<Longrightarrow> read_row Outside (s @ CHR '','' # t) = s # read_row Outside t"
  by (simp add: read_plain glue_def)

lemma read_last: "plain s \<Longrightarrow> read_row Outside s = [s]"
  using read_plain [of s "[]"] by (simp add: glue_def)

lemma plain_simps [simp]:
  "plain []" "plain (c # s) \<longleftrightarrow> c \<noteq> CHR '','' \<and> c \<noteq> CHR 0x22 \<and> plain s" "plain (s @ t) \<longleftrightarrow> plain s \<and> plain t"
  by (simp_all add: plain_def)

lemma plain_show_nat [simp]: "plain (show_nat n)"
  using show_nat_digits [of n] by (auto simp: plain_def list_all_iff is_digit_def char_code_def)

lemma plain_show_int [simp]: "plain (show_int i)"
  by (simp add: show_int_def)

lemma plain_pad [simp]: "plain (pad_left n s) \<longleftrightarrow> plain s"
proof -
  have "plain (replicate k (CHR ''0''))" for k by (induction k) simp_all
  then show ?thesis by (simp add: pad_left_def)
qed

lemma plain_iso [simp]: "plain (iso_string t)"
proof -
  have "plain (iso_day t)" by (simp add: iso_day_def iso_year_def split: prod.split)
  then show ?thesis by (simp add: iso_string_def Let_def)
qed

text \<open>
  A spreadsheet reads a row of the export as its nine columns, whatever the message contains, when the other texts and the formatted
  amounts have neither commas nor quotes.
\<close>

theorem csv_row_reads_back:
  assumes "list_all plain [ct_id tx, ct_type tx, ct_counterparty tx, or_empty (ct_txHash tx)]"
    and "\<And>a. plain (toXlm a)"
  shows "read_row Outside (csv_row toXlm tx) = csv_columns toXlm tx"
  using assms by (simp add: csv_row_def csv_columns_def Let_def read_field read_message read_last)

text \<open>\<open>stroopToXlm\<close> groups thousands with commas: an amount of 1000 or more takes two columns.\<close>

lemma grouped_amount_splits:
  assumes "toXlm ''12345000000'' = ''1,234.5000000''"
  shows "length (read_row Outside (csv_row toXlm \<lparr>ct_id = ''t'', ct_type = ''sent'', ct_amount = ''12345000000'', ct_counterparty = ''G'',
    ct_date = 0, ct_message = ''hi'', ct_txHash = None, ct_fee = None, ct_net = None\<rparr>)) = 10"
proof -
  have "read_row Outside (csv_row toXlm \<lparr>ct_id = ''t'', ct_type = ''sent'', ct_amount = ''12345000000'', ct_counterparty = ''G'',
      ct_date = 0, ct_message = ''hi'', ct_txHash = None, ct_fee = None, ct_net = None\<rparr>) =
    [''t'', ''sent'', ''1'', ''234.5000000'', [], [], ''G'', iso_string 0, ''hi'', []]"
    by (simp add: csv_row_def csv_columns_def Let_def assms or_empty_def read_field read_message onto_def)
  then show ?thesis by simp
qed

section \<open>Usernames\<close>

definition name_char :: "char \<Rightarrow> bool" where
  "name_char c \<longleftrightarrow> is_lower c \<or> is_digit c"

lemma not_name_underscore [simp]: "\<not> name_char (CHR ''_'')"
  by (simp add: name_char_def is_lower_def is_digit_def char_code_def)

text \<open>The segments between underscores: none is empty exactly when the text neither begins nor ends with one nor has two in a row.\<close>

lemma split_on_ne: "split_on d t \<noteq> []"
  by (induction t) (auto split: list.split)

lemma segments_keep:
  assumes "d \<noteq> CHR ''_''"
  shows "list_all (\<lambda>w. w \<noteq> []) (split_on (CHR ''_'') (c # d # s)) \<longleftrightarrow>
    c \<noteq> CHR ''_'' \<and> list_all (\<lambda>w. w \<noteq> []) (split_on (CHR ''_'') (d # s))"
  using split_on_ne [of "CHR ''_''" "d # s"] assms by (auto split: list.split)

lemma segments_iff:
  "list_all (\<lambda>w. w \<noteq> []) (split_on (CHR ''_'') (c # s)) \<longleftrightarrow>
   c \<noteq> CHR ''_'' \<and> last (c # s) \<noteq> CHR ''_'' \<and> \<not> str_includes (c # s) ''__''"
proof (induction s arbitrary: c rule: induct_list012)
  case 1
  show ?case by simp
next
  case (2 d)
  show ?case by (cases "d = CHR ''_''") auto
next
  case (3 d e s)
  show ?case
  proof (cases "d = CHR ''_''")
    case True
    have "list_all (\<lambda>w. w \<noteq> []) (split_on (CHR ''_'') (c # d # e # s)) \<longleftrightarrow>
        c \<noteq> CHR ''_'' \<and> list_all (\<lambda>w. w \<noteq> []) (split_on (CHR ''_'') (e # s))"
      by (simp add: True del: split_on.simps(2)) (simp del: split_on.simps(2) add: split_on.simps(2) [of _ c] split_on.simps(2) [of _ "CHR ''_''"])
    with 3(1) [of e] True show ?thesis by auto
  next
    case False
    with 3(2) [of d] segments_keep [of d c "e # s"] show ?thesis by auto
  qed
qed

lemma split_chars: "list_all (list_all P) (split_on d s) \<longleftrightarrow> list_all (\<lambda>c. P c \<or> c = d) s"
proof (induction s)
  case (Cons c s)
  then show ?case using split_on_ne [of d s] by (auto split: list.split)
qed simp

lemma list_all_both: "list_all (\<lambda>x. P x \<and> Q x) xs \<longleftrightarrow> list_all P xs \<and> list_all Q xs"
  by (auto simp: list_all_iff)

lemma ends_underscore: "s \<noteq> [] \<Longrightarrow> ends_with s ''_'' \<longleftrightarrow> last s = CHR ''_''"
  by (cases s rule: rev_cases) (auto simp: ends_with_def)

text \<open>
  A username is accepted exactly when it has 3 to 32 characters, begins with a letter, and consists of parts of lower case letters and
  digits joined by single underscores; the scripts of letters never matter, as no character of such a name is of another script.
\<close>

theorem username_grammar:
  assumes "\<And>c. name_char c \<or> c = CHR ''_'' \<Longrightarrow> \<not> confusable c"
  shows "vr_valid (validateUsername latin confusable u) \<longleftrightarrow>
    (let t = js_trim u in 3 \<le> length t \<and> length t \<le> 32 \<and> is_lower (hd t) \<and>
       list_all (\<lambda>w. w \<noteq> [] \<and> list_all name_char w) (split_on (CHR ''_'') t))"
proof (cases "js_trim u")
  case Nil
  then show ?thesis by (simp add: validateUsername_def)
next
  case (Cons c cs)
  have nu: "is_lower c \<Longrightarrow> c \<noteq> CHR ''_''" by (auto simp: is_lower_def char_code_def)
  have parts: "list_all (\<lambda>w. w \<noteq> [] \<and> list_all name_char w) (split_on (CHR ''_'') (c # cs)) \<longleftrightarrow>
      c \<noteq> CHR ''_'' \<and> last (c # cs) \<noteq> CHR ''_'' \<and> \<not> str_includes (c # cs) ''__'' \<and> list_all (\<lambda>d. name_char d \<or> d = CHR ''_'') (c # cs)"
    unfolding list_all_both segments_iff split_chars by (rule conj_assoc [THEN trans]) (simp only: conj_assoc)
  have re: "USERNAME_RE (c # cs) \<longleftrightarrow> is_lower c \<and> 2 \<le> length cs \<and> length cs \<le> 31 \<and> list_all (\<lambda>d. name_char d \<or> d = CHR ''_'') (c # cs)"
    by (auto simp: USERNAME_RE_def name_char_def disj_assoc)
  have plain: "list_all (\<lambda>d. name_char d \<or> d = CHR ''_'') (c # cs) \<Longrightarrow> \<not> hasHomoglyphs latin confusable (c # cs)"
    using assms by (auto simp: hasHomoglyphs_def list_all_iff list_ex_iff)
  show ?thesis
    using re plain nu parts ends_underscore [of "c # cs"]
    unfolding validateUsername_def Let_def Cons
    by (auto simp del: split_on.simps str_includes.simps)
qed

section \<open>Examples\<close>

definition sample_tip :: tip_report where
  "sample_tip = \<lparr>tr_tipper = ''GA'', tr_creator = ''GB'', tr_amount = ''5000000'', tr_timestamp = 1700000000, tr_txHash = None\<rparr>"

lemma pending_id_is_polynomial_hash_witness:
  "\<exists>digits. generateTipTransactionId sample_tip = ''pending-'' @ digits \<and> length digits = 8 \<and>
    digits = pad_left 8 (hex_nat (nat \<bar>sint (poly31 (tip_signature sample_tip))\<bar>)) \<and> isPendingTransaction (generateTipTransactionId sample_tip)"
  by (rule pending_id_is_polynomial_hash) (simp add: sample_tip_def or_empty_def)

definition sample_value :: jsval where
  "sample_value = JArr [JObj PlainObject [(''registered_at'', JBig 5), (''image_url'', JObj PlainObject [(''x_1_a'', Null)])]]"

lemma contract_keys_roundtrip_witness:
  "camelToSnake (mapContractResponse sample_value) = sample_value \<and> mapContractResponse sample_value \<noteq> sample_value"
proof
  show "camelToSnake (mapContractResponse sample_value) = sample_value"
    by (rule contract_keys_roundtrip) code_simp
  show "mapContractResponse sample_value \<noteq> sample_value" by code_simp
qed

definition sample_transaction :: csv_transaction where
  "sample_transaction = \<lparr>ct_id = ''received-1'', ct_type = ''received'', ct_amount = ''5000000'', ct_counterparty = ''GA'', ct_date = 1700000000,
     ct_message = ''say '' @ [CHR 0x22] @ ''hi'' @ [CHR 0x22] @ '', you'', ct_txHash = Some ''ab12'', ct_fee = None, ct_net = None\<rparr>"

lemma csv_row_reads_back_witness:
  "read_row Outside (csv_row (\<lambda>a. ''0.5000000'') sample_transaction) = csv_columns (\<lambda>a. ''0.5000000'') sample_transaction"
  by (rule csv_row_reads_back) (simp_all add: sample_transaction_def or_empty_def)

lemma username_grammar_witness:
  "vr_valid (validateUsername is_lower (\<lambda>c. 128 \<le> char_code c) ''ada_l'') \<longleftrightarrow>
    (let t = js_trim ''ada_l'' in 3 \<le> length t \<and> length t \<le> 32 \<and> is_lower (hd t) \<and>
       list_all (\<lambda>w. w \<noteq> [] \<and> list_all name_char w) (split_on (CHR ''_'') t))"
  by (rule username_grammar) (auto simp: name_char_def is_lower_def is_digit_def char_code_def)

end
