(* ===== verification/ContractClient.thy ===== *)
theory ContractClient
  imports ClientCache ClientText "HOL-Library.Multiset" "HOL-Library.Product_Lexorder"
begin

text \<open>
  The contract calls of the web client (\<open>frontend-scaffold/src/hooks/useContract.ts\<close> and \<open>services/soroban.ts\<close>): every read
  and write of the hook as a call of the node that leaves a trace, the polling of a submission, the contract's entry points
  as \<open>contracts/tipz/src/lib.rs\<close> declares them, and the merging and paging of the leaderboard. The node, the wallet and
  the SDK are parameters: each answer may depend on all calls made before.
\<close>

section \<open>Calls\<close>

text \<open>The arguments as the SDK encodes them; it encodes an object as a map.\<close>

datatype sc_arg = Acc string | I128 int | U32 nat | Flag bool | Text string | Obj "(string \<times> sc_arg) list"

record contract_call =
  ct_source :: string
  ct_passphrase :: string
  ct_contract :: string
  ct_method :: string
  ct_args :: "sc_arg list"

datatype rpc = Get_account string | Simulate contract_call | Sign contract_call | Send string | Get_transaction string

datatype tx_status = Not_found | Tx_success string | Tx_failed

record send_answer =
  sa_errorResult :: bool
  sa_status :: string
  sa_hash :: string

text \<open>
  \<open>nd_simulate\<close> is the native value of a successful simulation that has a result, \<open>nd_delay\<close> the time a call takes,
  \<open>nd_validId\<close> and \<open>nd_validAddress\<close> what the constructors of the SDK accept, \<open>nd_numberText\<close> the text of a big number.
\<close>

record node =
  nd_account :: "rpc list \<Rightarrow> bool"
  nd_simulate :: "rpc list \<Rightarrow> string + jsval option"
  nd_sign :: "rpc list \<Rightarrow> string option"
  nd_send :: "rpc list \<Rightarrow> string + send_answer"
  nd_get :: "rpc list \<Rightarrow> string + tx_status"
  nd_delay :: "rpc list \<Rightarrow> nat"
  nd_validId :: "string \<Rightarrow> bool"
  nd_validAddress :: "string \<Rightarrow> bool"
  nd_numberText :: "jsnum \<Rightarrow> string"

text \<open>The hook's configuration; an empty key is no connected wallet.\<close>

record client =
  cl_publicKey :: string
  cl_contractId :: string
  cl_network :: string

record client_world =
  cw_trace :: "rpc list"
  cw_now :: int
  cw_loading :: bool
  cw_cache :: "jsval contract_cache"

type_synonym 'a cio = "(client_world, string, 'a) io"

definition READ_ONLY_SOURCE :: string where
  "READ_ONLY_SOURCE = ''GAAAAAAAAAAAAAAAAAAAAAAAAAAAAAAAAAAAAAAAAAAAAAAAAAAAAWHF''"

definition networkPassphrase :: "client \<Rightarrow> string" where
  "networkPassphrase cl = (if cl_network cl = ''TESTNET'' then ''Test SDF Network ; September 2015''
     else ''Public Global Stellar Network ; September 2015'')"

text \<open>A request is put on the trace, takes its time and is answered.\<close>

definition ask :: "node \<Rightarrow> rpc \<Rightarrow> (rpc list \<Rightarrow> string + 'a) \<Rightarrow> 'a cio" where
  "ask nd r answer = (\<lambda>w. let t = cw_trace w @ [r]
     in (answer t, w\<lparr>cw_trace := t, cw_now := cw_now w + int (nd_delay nd t)\<rparr>))"

definition withLoading :: "'a cio \<Rightarrow> 'a cio" where
  "withLoading operation = (\<lambda>w. case operation (w\<lparr>cw_loading := True\<rparr>) of (r, w') \<Rightarrow> (r, w'\<lparr>cw_loading := False\<rparr>))"

text \<open>\<open>withRetry\<close> with its two attempts: the last error is thrown.\<close>

definition withRetry :: "'a cio \<Rightarrow> 'a cio" where
  "withRetry operation = try_catch operation (\<lambda>_. operation)"

section \<open>Reading\<close>

definition new_contract :: "node \<Rightarrow> client \<Rightarrow> unit cio" where
  "new_contract nd cl = throw_unless (nd_validId nd (cl_contractId cl)) (''Invalid contract ID: '' @ cl_contractId cl)"

definition getTxBuilder :: "node \<Rightarrow> string \<Rightarrow> string cio" where
  "getTxBuilder nd pubKey = ask nd (Get_account pubKey) (\<lambda>t. if nd_account nd t then Inr pubKey else Inl (''Account not found: '' @ pubKey))"

definition getSimulationTxBuilder :: "node \<Rightarrow> string \<Rightarrow> string cio" where
  "getSimulationTxBuilder nd pubKey = andthen (throw_unless (nd_validAddress nd pubKey) ''accountId is invalid'') (ret pubKey)"

definition read_source :: "node \<Rightarrow> client \<Rightarrow> string cio" where
  "read_source nd cl = (if cl_publicKey cl \<noteq> '''' then getTxBuilder nd (cl_publicKey cl) else getSimulationTxBuilder nd READ_ONLY_SOURCE)"

definition accountToScVal :: "node \<Rightarrow> string \<Rightarrow> sc_arg cio" where
  "accountToScVal nd account = andthen (throw_unless (nd_validAddress nd account) (''Unsupported address type: '' @ account)) (ret (Acc account))"

fun arguments :: "sc_arg cio list \<Rightarrow> sc_arg list cio" where
  "arguments [] = ret []"
| "arguments (a # as) = bnd a (\<lambda>v. bnd (arguments as) (\<lambda>vs. ret (v # vs)))"

definition build_tx :: "client \<Rightarrow> string \<Rightarrow> string \<Rightarrow> sc_arg list \<Rightarrow> contract_call" where
  "build_tx cl source m args = \<lparr>ct_source = source, ct_passphrase = networkPassphrase cl, ct_contract = cl_contractId cl, ct_method = m, ct_args = args\<rparr>"

definition simulateTx :: "node \<Rightarrow> contract_call \<Rightarrow> jsval cio" where
  "simulateTx nd tx = bnd (ask nd (Simulate tx) (nd_simulate nd)) (\<lambda>response. case response of
       Some raw \<Rightarrow> ret (mapContractResponse raw)
     | None \<Rightarrow> throw ''cannot simulate transaction'')"

definition read_from :: "node \<Rightarrow> client \<Rightarrow> string cio \<Rightarrow> string \<Rightarrow> sc_arg cio list \<Rightarrow> jsval cio" where
  "read_from nd cl source m args = andthen (new_contract nd cl) (bnd source (\<lambda>src. bnd (arguments args) (\<lambda>as.
     withRetry (simulateTx nd (build_tx cl src m as)))))"

definition read_call :: "node \<Rightarrow> client \<Rightarrow> string \<Rightarrow> sc_arg cio list \<Rightarrow> jsval cio" where
  "read_call nd cl m args = withLoading (read_from nd cl (read_source nd cl) m args)"

definition getProfile :: "node \<Rightarrow> client \<Rightarrow> string \<Rightarrow> jsval cio" where
  "getProfile nd cl address = withLoading (read_from nd cl (getSimulationTxBuilder nd address) ''get_profile'' [accountToScVal nd address])"

definition getProfileByUsername :: "node \<Rightarrow> client \<Rightarrow> string \<Rightarrow> jsval cio" where
  "getProfileByUsername nd cl username = read_call nd cl ''get_profile_by_username'' [ret (Text username)]"

definition getLeaderboard :: "node \<Rightarrow> client \<Rightarrow> nat \<Rightarrow> jsval cio" where
  "getLeaderboard nd cl limit = read_call nd cl ''get_leaderboard'' [ret (U32 limit)]"

definition getStats :: "node \<Rightarrow> client \<Rightarrow> jsval cio" where
  "getStats nd cl = withLoading (andthen (throw_unless (cl_contractId cl \<noteq> '''') ''Contract ID is not configured'')
     (read_from nd cl (read_source nd cl) ''get_stats'' []))"

text \<open>\<open>(stroops / 1e7).toString()\<close>: a big integer and a number cannot be divided.\<close>

definition stroops_to_text :: "node \<Rightarrow> jsval \<Rightarrow> string cio" where
  "stroops_to_text nd v = (case v of
       JNum n \<Rightarrow> ret (nd_numberText nd (j_div n (Fin 10000000)))
     | JBig _ \<Rightarrow> throw ''Cannot mix BigInt and other types, use explicit conversions''
     | _ \<Rightarrow> ret (nd_numberText nd NaN))"

definition getMinTipAmount :: "node \<Rightarrow> client \<Rightarrow> string cio" where
  "getMinTipAmount nd cl = (if cl_contractId cl = '''' then ret ''1''
     else try_catch (withLoading (bnd (read_from nd cl (read_source nd cl) ''get_min_tip_amount'' []) (stroops_to_text nd))) (\<lambda>_. ret ''1''))"

definition getCreatorMinTip :: "node \<Rightarrow> client \<Rightarrow> string \<Rightarrow> string cio" where
  "getCreatorMinTip nd cl creator = (if cl_contractId cl = '''' then getMinTipAmount nd cl
     else try_catch (withLoading (bnd (read_from nd cl (read_source nd cl) ''get_creator_min_tip'' [accountToScVal nd creator])
       (stroops_to_text nd))) (\<lambda>_. getMinTipAmount nd cl))"

definition getRecentTips :: "node \<Rightarrow> client \<Rightarrow> string \<Rightarrow> nat \<Rightarrow> nat \<Rightarrow> jsval cio" where
  "getRecentTips nd cl creator limit offset =
     read_call nd cl ''get_recent_tips'' [accountToScVal nd creator, ret (U32 limit), ret (U32 offset)]"

definition getCreatorTipCount :: "node \<Rightarrow> client \<Rightarrow> string \<Rightarrow> jsval cio" where
  "getCreatorTipCount nd cl creator = read_call nd cl ''get_creator_tip_count'' [accountToScVal nd creator]"

definition getTipsByTipper :: "node \<Rightarrow> client \<Rightarrow> string \<Rightarrow> nat \<Rightarrow> jsval cio" where
  "getTipsByTipper nd cl tipper limit = read_call nd cl ''get_tips_by_tipper'' [accountToScVal nd tipper, ret (U32 limit)]"

definition getTipperTipCount :: "node \<Rightarrow> client \<Rightarrow> string \<Rightarrow> jsval cio" where
  "getTipperTipCount nd cl tipper = read_call nd cl ''get_tipper_tip_count'' [accountToScVal nd tipper]"

definition getStreak :: "node \<Rightarrow> client \<Rightarrow> string \<Rightarrow> string \<Rightarrow> jsval cio" where
  "getStreak nd cl supporter creator = read_call nd cl ''get_streak'' [accountToScVal nd supporter, accountToScVal nd creator]"

definition getSubscriptions :: "node \<Rightarrow> client \<Rightarrow> string \<Rightarrow> jsval cio" where
  "getSubscriptions nd cl subscriber = read_call nd cl ''get_subscriptions'' [accountToScVal nd subscriber]"

text \<open>A comparison with what is no number is false.\<close>

definition at_least :: "jsval \<Rightarrow> int \<Rightarrow> bool" where
  "at_least v n = (case v of JNum x \<Rightarrow> j_le (Fin (of_int n)) x | JBig i \<Rightarrow> n \<le> i | _ \<Rightarrow> False)"

definition credit_tier :: "jsval \<Rightarrow> string" where
  "credit_tier score = (if at_least score 80 then ''diamond'' else if at_least score 60 then ''gold''
     else if at_least score 40 then ''silver'' else if at_least score 20 then ''bronze'' else ''new'')"

definition getCreditTier :: "node \<Rightarrow> client \<Rightarrow> string \<Rightarrow> (jsval \<times> string) cio" where
  "getCreditTier nd cl address = withLoading (bnd (getProfile nd cl address) (\<lambda>profile.
     ret (get_prop profile ''creditScore'', credit_tier (get_prop profile ''creditScore''))))"

section \<open>Submitting\<close>

text \<open>The polling of a pending transaction: a second passes after every round.\<close>

definition one_second :: "client_world \<Rightarrow> client_world" where
  "one_second w = w\<lparr>cw_now := cw_now w + 1000\<rparr>"

lemma ask_now: "cw_now (snd (ask nd r answer w)) = cw_now w + int (nd_delay nd (cw_trace w @ [r]))"
  by (simp add: ask_def Let_def)

function poll :: "node \<Rightarrow> int \<Rightarrow> int \<Rightarrow> string \<Rightarrow> tx_status \<Rightarrow> tx_status cio" where
  "poll nd startTime timeoutMs hash status w =
     (if status \<noteq> Not_found then (Inr status, w)
      else if timeoutMs < cw_now w - startTime then (Inl (''Transaction polling timeout after '' @ show_int (timeoutMs div 1000) @ '' seconds. Hash: '' @ hash), w)
      else (case fst (ask nd (Get_transaction hash) (nd_get nd) w) of
              Inl e \<Rightarrow> (Inl e, snd (ask nd (Get_transaction hash) (nd_get nd) w))
            | Inr status' \<Rightarrow> poll nd startTime timeoutMs hash status' (one_second (snd (ask nd (Get_transaction hash) (nd_get nd) w)))))"
  by auto

termination
  by (relation "measure (\<lambda>(nd, s, t, h, st, w). nat (s + t + 1 - cw_now w))") (auto simp: ask_now one_second_def)

declare poll.simps [simp del]

definition balance_prefix :: string where
  "balance_prefix = ''['' @ [CHR 0x22] @ ''balance'' @ [CHR 0x22]"

text \<open>The status of a pending transaction once it is known, and what a success does to the cache.\<close>

definition await_transaction :: "node \<Rightarrow> int \<Rightarrow> string \<Rightarrow> tx_status cio" where
  "await_transaction nd timeoutMs h = bnd (ask nd (Get_transaction h) (nd_get nd)) (\<lambda>status. bnd (gets cw_now) (\<lambda>startTime. poll nd startTime timeoutMs h status))"

definition drop_balances :: "client_world \<Rightarrow> client_world" where
  "drop_balances w = w\<lparr>cw_cache := snd (invalidateByPrefix balance_prefix (cw_cache w))\<rparr>"

definition conclude :: "send_answer \<Rightarrow> tx_status \<Rightarrow> string cio" where
  "conclude sendResponse status = (case status of
       Tx_success resultXdr \<Rightarrow> andthen (modify drop_balances) (ret resultXdr)
     | _ \<Rightarrow> throw (''Unable to submit transaction, status: '' @ sa_status sendResponse))"

definition after_send :: "node \<Rightarrow> int \<Rightarrow> send_answer \<Rightarrow> string cio" where
  "after_send nd timeoutMs sendResponse =
     andthen (throw_unless (\<not> sa_errorResult sendResponse) ''Unable to submit transaction'')
     (bnd (if sa_status sendResponse = ''PENDING'' then await_transaction nd timeoutMs (sa_hash sendResponse) else ret Tx_failed) (conclude sendResponse))"

definition submitTx :: "node \<Rightarrow> string \<Rightarrow> int \<Rightarrow> string cio" where
  "submitTx nd signedXDR timeoutSeconds = bnd (ask nd (Send signedXDR) (nd_send nd)) (after_send nd (timeoutSeconds * 1000))"

text \<open>\<open>Math.round(Number(lumens) * 1e7)\<close>, and the digits a big integer is made of.\<close>

definition xlmToStroop :: "string \<Rightarrow> jsnum" where
  "xlmToStroop lumens = j_floor (j_add (j_mul (number_of_string lumens) (Fin 10000000)) (Fin (1 / 2)))"

definition safeStringToBigInt :: "string \<Rightarrow> int cio" where
  "safeStringToBigInt amount = (if amount = '''' \<or> \<not> all_digits amount then throw ''Invalid amount format'' else ret (int (parse_nat amount)))"

definition stroop_amount :: "node \<Rightarrow> string \<Rightarrow> sc_arg cio" where
  "stroop_amount nd amount = bnd (safeStringToBigInt (nd_numberText nd (xlmToStroop amount))) (\<lambda>n. ret (I128 n))"

text \<open>What the write operations share: the wallet's account is read, the call is signed as it is built and submitted.\<close>

definition write_call :: "node \<Rightarrow> client \<Rightarrow> string \<Rightarrow> sc_arg cio list \<Rightarrow> string cio" where
  "write_call nd cl m args =
     (if cl_publicKey cl = '''' then throw ''Wallet not connected''
      else withLoading (andthen (new_contract nd cl) (bnd (getTxBuilder nd (cl_publicKey cl)) (\<lambda>src. bnd (arguments args) (\<lambda>as.
        bnd (ask nd (Sign (build_tx cl src m as)) (\<lambda>t. case nd_sign nd t of Some x \<Rightarrow> Inr x | None \<Rightarrow> Inl ''Unable to sign transaction''))
          (\<lambda>signedXdr. submitTx nd signedXdr 60))))))"

record ProfileFormData =
  pd_username :: string
  pd_displayName :: string
  pd_bio :: string
  pd_imageUrl :: string
  pd_xHandle :: string

definition registerProfile :: "node \<Rightarrow> client \<Rightarrow> ProfileFormData \<Rightarrow> string cio" where
  "registerProfile nd cl data = write_call nd cl ''register_profile'' [accountToScVal nd (cl_publicKey cl), ret (Text (pd_username data)),
     ret (Text (pd_displayName data)), ret (Text (pd_bio data)), ret (Text (pd_imageUrl data)), ret (Text (pd_xHandle data))]"

definition none_arg :: sc_arg where
  "none_arg = Obj [(''type'', Text ''none'')]"

definition some_arg :: "sc_arg \<Rightarrow> sc_arg" where
  "some_arg v = Obj [(''type'', Text ''some''), (''value'', v)]"

definition optionalStringToScVal :: "string option \<Rightarrow> sc_arg" where
  "optionalStringToScVal value = (case value of None \<Rightarrow> none_arg | Some v \<Rightarrow> if v \<noteq> '''' then some_arg (Text v) else none_arg)"

record profile_patch =
  pp_displayName :: "string option"
  pp_bio :: "string option"
  pp_imageUrl :: "string option"
  pp_xHandle :: "string option"

definition updateProfile :: "node \<Rightarrow> client \<Rightarrow> profile_patch \<Rightarrow> string cio" where
  "updateProfile nd cl data = write_call nd cl ''update_profile'' [accountToScVal nd (cl_publicKey cl),
     ret (optionalStringToScVal (pp_displayName data)), ret (optionalStringToScVal (pp_bio data)),
     ret (optionalStringToScVal (pp_imageUrl data)), ret (optionalStringToScVal (pp_xHandle data))]"

definition setDomain :: "node \<Rightarrow> client \<Rightarrow> string \<Rightarrow> string cio" where
  "setDomain nd cl domain = write_call nd cl ''set_domain'' [accountToScVal nd (cl_publicKey cl), ret (Text (to_lower (js_trim domain)))]"

definition verifyDomain :: "node \<Rightarrow> client \<Rightarrow> string option \<Rightarrow> string cio" where
  "verifyDomain nd cl creator = write_call nd cl ''verify_domain'' [accountToScVal nd (cl_publicKey cl),
     accountToScVal nd (case creator of None \<Rightarrow> cl_publicKey cl | Some c \<Rightarrow> c)]"

definition optional_arg :: "('a \<Rightarrow> sc_arg) \<Rightarrow> 'a option \<Rightarrow> sc_arg" where
  "optional_arg f value = (case value of None \<Rightarrow> none_arg | Some v \<Rightarrow> some_arg (f v))"

definition sendTip :: "node \<Rightarrow> client \<Rightarrow> string \<Rightarrow> string \<Rightarrow> string \<Rightarrow> bool \<Rightarrow> int option \<Rightarrow> nat option \<Rightarrow> string cio" where
  "sendTip nd cl creator amount message isEncrypted expectedMinTip expectedFeeBps = write_call nd cl ''send_tip''
     [accountToScVal nd (cl_publicKey cl), accountToScVal nd creator, stroop_amount nd amount, ret (Text message), ret (Flag False),
      ret (Flag isEncrypted), ret (optional_arg I128 expectedMinTip), ret (optional_arg U32 expectedFeeBps)]"

definition withdrawTips :: "node \<Rightarrow> client \<Rightarrow> string \<Rightarrow> string cio" where
  "withdrawTips nd cl amount = write_call nd cl ''withdraw_tips'' [accountToScVal nd (cl_publicKey cl), stroop_amount nd amount]"

definition deregisterProfile :: "node \<Rightarrow> client \<Rightarrow> string cio" where
  "deregisterProfile nd cl = write_call nd cl ''deregister_profile'' [accountToScVal nd (cl_publicKey cl)]"

definition createSubscription :: "node \<Rightarrow> client \<Rightarrow> string \<Rightarrow> string \<Rightarrow> nat \<Rightarrow> string cio" where
  "createSubscription nd cl creator amount intervalDays = write_call nd cl ''create_subscription''
     [accountToScVal nd (cl_publicKey cl), accountToScVal nd creator, stroop_amount nd amount, ret (U32 intervalDays)]"

definition cancelSubscription :: "node \<Rightarrow> client \<Rightarrow> string \<Rightarrow> string cio" where
  "cancelSubscription nd cl creator = write_call nd cl ''cancel_subscription'' [accountToScVal nd (cl_publicKey cl), accountToScVal nd creator]"

definition executeDueSubscription :: "node \<Rightarrow> client \<Rightarrow> string \<Rightarrow> string cio" where
  "executeDueSubscription nd cl creator = write_call nd cl ''execute_due_subscription'' [accountToScVal nd (cl_publicKey cl), accountToScVal nd creator]"

section \<open>The cached reads and the leaderboard\<close>

text \<open>\<open>JSON.stringify\<close> of a text and of the array of a key; the texts are addresses and names without control characters.\<close>

fun json_char :: "char \<Rightarrow> string" where
  "json_char c = (if c = CHR 0x22 \<or> c = CHR 0x5C then [CHR 0x5C, c] else [c])"

datatype key_part = Key_text string | Key_number nat

fun key_text :: "key_part \<Rightarrow> string" where
  "key_text (Key_text s) = [CHR 0x22] @ concat (map json_char s) @ [CHR 0x22]"
| "key_text (Key_number n) = show_nat n"

definition buildContractCacheKey :: "string \<Rightarrow> key_part list \<Rightarrow> string" where
  "buildContractCacheKey m params = ''['' @ key_text (Key_text m) @ concat (map (\<lambda>p. '','' @ key_text p) params) @ '']''"

definition LEADERBOARD_CACHE_TTL_MS :: int where
  "LEADERBOARD_CACHE_TTL_MS = 60000"

definition TOKEN_METADATA_TTL_MS :: int where
  "TOKEN_METADATA_TTL_MS = 3600000"

definition TOKEN_BALANCE_TTL_MS :: int where
  "TOKEN_BALANCE_TTL_MS = 30000"

text \<open>A cached read: its key and time to live, with what the cache answers at once.\<close>

definition cached_read :: "string \<Rightarrow> int \<Rightarrow> client_world \<Rightarrow> jsval lookup \<times> client_world" where
  "cached_read key ttl w = (case getOrFetch (cw_now w) key ttl (cw_cache w) of (r, c) \<Rightarrow> (r, w\<lparr>cw_cache := c\<rparr>))"

definition getTokenSymbol :: "string \<Rightarrow> client_world \<Rightarrow> jsval lookup \<times> client_world" where
  "getTokenSymbol tokenId = cached_read (buildContractCacheKey ''symbol'' [Key_text tokenId]) TOKEN_METADATA_TTL_MS"

definition getTokenName :: "string \<Rightarrow> client_world \<Rightarrow> jsval lookup \<times> client_world" where
  "getTokenName tokenId = cached_read (buildContractCacheKey ''name'' [Key_text tokenId]) TOKEN_METADATA_TTL_MS"

definition getTokenDecimals :: "string \<Rightarrow> client_world \<Rightarrow> jsval lookup \<times> client_world" where
  "getTokenDecimals tokenId = cached_read (buildContractCacheKey ''decimals'' [Key_text tokenId]) TOKEN_METADATA_TTL_MS"

definition getTokenBalance :: "string \<Rightarrow> string \<Rightarrow> client_world \<Rightarrow> jsval lookup \<times> client_world" where
  "getTokenBalance address tokenId = cached_read (buildContractCacheKey ''balance'' [Key_text tokenId, Key_text address]) TOKEN_BALANCE_TTL_MS"

definition cached_leaderboard :: "client \<Rightarrow> nat \<Rightarrow> client_world \<Rightarrow> jsval lookup \<times> client_world" where
  "cached_leaderboard cl limit = cached_read
     (buildContractCacheKey ''get_leaderboard'' [Key_text (cl_network cl), Key_text (cl_contractId cl), Key_number limit]) LEADERBOARD_CACHE_TTL_MS"

definition invalidateLeaderboardCache :: "client_world \<Rightarrow> client_world" where
  "invalidateLeaderboardCache w = w\<lparr>cw_cache := invalidateAll (cw_cache w)\<rparr>"

record LeaderboardEntry =
  le_address :: string
  le_username :: string
  le_totalTipsReceived :: int
  le_creditScore :: int

record LeaderboardPageSlice =
  ps_items :: "LeaderboardEntry list"
  ps_hasMore :: bool
  ps_nextOffset :: "nat option"

definition paginateLeaderboard :: "LeaderboardEntry list \<Rightarrow> nat \<Rightarrow> nat \<Rightarrow> LeaderboardPageSlice" where
  "paginateLeaderboard entries offset pageSize = (let nextOffset = offset + pageSize
     in \<lparr>ps_items = take pageSize (drop offset entries), ps_hasMore = nextOffset < length entries,
         ps_nextOffset = (if nextOffset < length entries then Some nextOffset else None)\<rparr>)"

definition map_of_entries :: "LeaderboardEntry list \<Rightarrow> (string \<times> LeaderboardEntry) list \<Rightarrow> (string \<times> LeaderboardEntry) list" where
  "map_of_entries = fold (\<lambda>e m. put (le_address e) e m)"

definition rank_index :: "LeaderboardEntry list \<Rightarrow> string \<Rightarrow> nat option" where
  "rank_index incoming = map_of (rev (zip (map le_address incoming) [0..<length incoming]))"

text \<open>The order of the comparison: entries with a rank first and by it, the others by their tips downwards.\<close>

definition merge_key :: "LeaderboardEntry list \<Rightarrow> LeaderboardEntry \<Rightarrow> nat \<times> int" where
  "merge_key incoming e = (case rank_index incoming (le_address e) of Some i \<Rightarrow> (0, int i) | None \<Rightarrow> (1, - le_totalTipsReceived e))"

definition mergeLeaderboardEntries :: "LeaderboardEntry list \<Rightarrow> LeaderboardEntry list \<Rightarrow> LeaderboardEntry list" where
  "mergeLeaderboardEntries previous incoming =
     (if incoming = [] then previous else if previous = [] then incoming
      else sort_key (merge_key incoming) (map snd (map_of_entries incoming (map_of_entries previous []))))"

section \<open>The operations of the hook\<close>

datatype contract_op = Get_profile string | Get_profile_by_username string | Get_leaderboard nat | Get_stats | Get_min_tip | Get_creator_min_tip string
  | Get_recent_tips string nat nat | Get_creator_tip_count string | Get_tips_by_tipper string nat | Get_tipper_tip_count string
  | Get_credit_tier string | Get_streak string string | Get_subscriptions string
  | Register ProfileFormData | Update profile_patch | Set_domain string | Verify_domain "string option"
  | Send_tip string string string bool "int option" "nat option" | Withdraw string | Deregister
  | Create_subscription string string nat | Cancel_subscription string | Execute_due string

text \<open>Running an operation, its result forgotten.\<close>

definition forget :: "'a cio \<Rightarrow> unit cio" where
  "forget m = bnd m (\<lambda>_. ret ())"

fun run_op :: "node \<Rightarrow> client \<Rightarrow> contract_op \<Rightarrow> unit cio" where
  "run_op nd cl (Get_profile a) = forget (getProfile nd cl a)"
| "run_op nd cl (Get_profile_by_username u) = forget (getProfileByUsername nd cl u)"
| "run_op nd cl (Get_leaderboard n) = forget (getLeaderboard nd cl n)"
| "run_op nd cl Get_stats = forget (getStats nd cl)"
| "run_op nd cl Get_min_tip = forget (getMinTipAmount nd cl)"
| "run_op nd cl (Get_creator_min_tip c) = forget (getCreatorMinTip nd cl c)"
| "run_op nd cl (Get_recent_tips c n k) = forget (getRecentTips nd cl c n k)"
| "run_op nd cl (Get_creator_tip_count c) = forget (getCreatorTipCount nd cl c)"
| "run_op nd cl (Get_tips_by_tipper t n) = forget (getTipsByTipper nd cl t n)"
| "run_op nd cl (Get_tipper_tip_count t) = forget (getTipperTipCount nd cl t)"
| "run_op nd cl (Get_credit_tier a) = forget (getCreditTier nd cl a)"
| "run_op nd cl (Get_streak a c) = forget (getStreak nd cl a c)"
| "run_op nd cl (Get_subscriptions a) = forget (getSubscriptions nd cl a)"
| "run_op nd cl (Register d) = forget (registerProfile nd cl d)"
| "run_op nd cl (Update d) = forget (updateProfile nd cl d)"
| "run_op nd cl (Set_domain d) = forget (setDomain nd cl d)"
| "run_op nd cl (Verify_domain c) = forget (verifyDomain nd cl c)"
| "run_op nd cl (Send_tip c a m e x f) = forget (sendTip nd cl c a m e x f)"
| "run_op nd cl (Withdraw a) = forget (withdrawTips nd cl a)"
| "run_op nd cl Deregister = forget (deregisterProfile nd cl)"
| "run_op nd cl (Create_subscription c a n) = forget (createSubscription nd cl c a n)"
| "run_op nd cl (Cancel_subscription c) = forget (cancelSubscription nd cl c)"
| "run_op nd cl (Execute_due c) = forget (executeDueSubscription nd cl c)"

fun is_write :: "contract_op \<Rightarrow> bool" where
  "is_write (Register d) = True"
| "is_write (Update d) = True"
| "is_write (Set_domain d) = True"
| "is_write (Verify_domain c) = True"
| "is_write (Send_tip c a m e x f) = True"
| "is_write (Withdraw a) = True"
| "is_write Deregister = True"
| "is_write (Create_subscription c a n) = True"
| "is_write (Cancel_subscription c) = True"
| "is_write (Execute_due c) = True"
| "is_write _ = False"

section \<open>The entry points of the contract\<close>

datatype sc_type = T_address | T_i128 | T_u32 | T_bool | T_string | T_period | T_map | T_option sc_type

fun kind_of :: "sc_arg \<Rightarrow> sc_type" where
  "kind_of (Acc a) = T_address"
| "kind_of (I128 n) = T_i128"
| "kind_of (U32 n) = T_u32"
| "kind_of (Flag b) = T_bool"
| "kind_of (Text s) = T_string"
| "kind_of (Obj fs) = T_map"

text \<open>A present optional argument is passed as the value itself.\<close>

fun expected_kind :: "sc_type \<Rightarrow> sc_type" where
  "expected_kind (T_option t) = expected_kind t"
| "expected_kind t = t"

definition entry_points :: "(string \<times> sc_type list) list" where
  "entry_points = [(''register_profile'', [T_address, T_string, T_string, T_string, T_string, T_string]),
     (''update_profile'', [T_address, T_option T_string, T_option T_string, T_option T_string, T_option T_string]),
     (''deregister_profile'', [T_address]), (''get_profile'', [T_address]), (''get_profile_by_username'', [T_string]),
     (''send_tip'', [T_address, T_address, T_i128, T_string, T_bool, T_bool, T_option T_i128, T_option T_u32]),
     (''withdraw_tips'', [T_address, T_i128]), (''get_recent_tips'', [T_address, T_u32, T_u32]),
     (''get_creator_tip_count'', [T_address]), (''get_tips_by_tipper'', [T_address, T_u32]), (''get_tipper_tip_count'', [T_address]),
     (''get_streak'', [T_address, T_address]), (''get_leaderboard'', [T_period, T_u32]), (''get_stats'', []), (''get_min_tip_amount'', []),
     (''create_subscription'', [T_address, T_address, T_i128, T_u32]), (''cancel_subscription'', [T_address, T_address]),
     (''execute_due_subscription'', [T_address, T_address]), (''get_subscriptions'', [T_address]), (''get_creator_min_tip'', [T_address]),
     (''set_domain'', [T_address, T_string]), (''verify_domain'', [T_address, T_address])]"

definition accepted_call :: "contract_call \<Rightarrow> bool" where
  "accepted_call c = (case map_of entry_points (ct_method c) of None \<Rightarrow> False | Some ts \<Rightarrow> map expected_kind ts = map kind_of (ct_args c))"

section \<open>What an operation asks the node\<close>

named_theorems asks

text \<open>\<open>asks_within P n m\<close>: the operation adds at most \<open>n\<close> requests of the kind \<open>P\<close> to the trace.\<close>

definition asks_within :: "(rpc \<Rightarrow> bool) \<Rightarrow> nat \<Rightarrow> 'a cio \<Rightarrow> bool" where
  "asks_within P n m \<longleftrightarrow> (\<forall>w. \<exists>ts. cw_trace (snd (m w)) = cw_trace w @ ts \<and> length (filter P ts) \<le> n)"

lemma withinI: "(\<And>w. \<exists>ts. cw_trace (snd (m w)) = cw_trace w @ ts \<and> length (filter P ts) \<le> n) \<Longrightarrow> asks_within P n m"
  by (simp add: asks_within_def)

lemma withinE:
  assumes "asks_within P n m"
  obtains ts where "cw_trace (snd (m w)) = cw_trace w @ ts" and "length (filter P ts) \<le> n"
  using assms by (auto simp: asks_within_def)

lemma within_mono: "asks_within P a m \<Longrightarrow> a \<le> b \<Longrightarrow> asks_within P b m"
  unfolding asks_within_def by (meson le_trans)

lemma within_silent: "(\<And>w. cw_trace (snd (m w)) = cw_trace w) \<Longrightarrow> asks_within P n m"
  by (rule withinI) (rule exI [of _ "[]"], simp)

lemma within_ret [asks]: "asks_within P n (ret a)"
  by (rule within_silent) simp

lemma within_throw [asks]: "asks_within P n (throw e)"
  by (rule within_silent) simp

lemma within_unless [asks]: "asks_within P n (throw_unless b e)"
  by (rule within_silent) (simp add: throw_unless_def)

lemma within_gets [asks]: "asks_within P n (gets f)"
  by (rule within_silent) simp

lemma within_ask: "asks_within P (if P r then 1 else 0) (ask nd r f)"
  by (rule withinI) (simp add: ask_def Let_def)

text \<open>What an operation returns.\<close>

definition returns :: "('a \<Rightarrow> bool) \<Rightarrow> 'a cio \<Rightarrow> bool" where
  "returns Q m \<longleftrightarrow> (\<forall>w a. fst (m w) = Inr a \<longrightarrow> Q a)"

lemma returnsD: "returns Q m \<Longrightarrow> fst (m w) = Inr a \<Longrightarrow> Q a"
  by (simp add: returns_def)

lemma within_bnd:
  assumes "returns Q m" and "asks_within P a m" and "\<And>x. Q x \<Longrightarrow> asks_within P b (f x)"
  shows "asks_within P (a + b) (bnd m f)"
proof (rule withinI)
  fix w
  obtain ts where ts: "cw_trace (snd (m w)) = cw_trace w @ ts" "length (filter P ts) \<le> a" by (rule withinE [OF assms(2)])
  show "\<exists>ts. cw_trace (snd (bnd m f w)) = cw_trace w @ ts \<and> length (filter P ts) \<le> a + b"
  proof (cases "fst (m w)")
    case (Inl e)
    then have "snd (bnd m f w) = snd (m w)" by (cases "m w") (simp add: bnd_def)
    with ts show ?thesis by (metis add.commute trans_le_add2)
  next
    case (Inr x)
    then have r: "snd (bnd m f w) = snd (f x (snd (m w)))" by (cases "m w") (simp add: bnd_def)
    obtain us where "cw_trace (snd (f x (snd (m w)))) = cw_trace (snd (m w)) @ us" "length (filter P us) \<le> b"
      by (rule withinE [OF assms(3) [OF returnsD [OF assms(1) Inr]]])
    with ts r show ?thesis by (intro exI [of _ "ts @ us"]) simp
  qed
qed

lemma returns_any: "returns (\<lambda>_. True) m"
  by (simp add: returns_def)

lemma within_then:
  assumes "asks_within P a m" and "\<And>x. asks_within P b (f x)"
  shows "asks_within P (a + b) (bnd m f)"
  by (rule within_bnd [OF returns_any assms])

lemma within_andthen:
  assumes "asks_within P a m" and "asks_within P b n"
  shows "asks_within P (a + b) (andthen m n)"
  unfolding andthen_def by (rule within_then) (use assms in auto)

lemma within_try:
  assumes "asks_within P a m" and "\<And>e. asks_within P b (h e)"
  shows "asks_within P (a + b) (try_catch m h)"
proof (rule withinI)
  fix w
  obtain ts where ts: "cw_trace (snd (m w)) = cw_trace w @ ts" "length (filter P ts) \<le> a" by (rule withinE [OF assms(1)])
  show "\<exists>ts. cw_trace (snd (try_catch m h w)) = cw_trace w @ ts \<and> length (filter P ts) \<le> a + b"
  proof (cases "fst (m w)")
    case (Inl e)
    then have r: "snd (try_catch m h w) = snd (h e (snd (m w)))" by (cases "m w") (simp add: try_catch_def)
    obtain us where "cw_trace (snd (h e (snd (m w)))) = cw_trace (snd (m w)) @ us" "length (filter P us) \<le> b"
      by (rule withinE [OF assms(2)])
    with ts r show ?thesis by (intro exI [of _ "ts @ us"]) simp
  next
    case (Inr x)
    then have "snd (try_catch m h w) = snd (m w)" by (cases "m w") (simp add: try_catch_def)
    with ts show ?thesis by (metis add.commute trans_le_add2)
  qed
qed

lemma within_retry: "asks_within P a m \<Longrightarrow> asks_within P (2 * a) (withRetry m)"
  unfolding withRetry_def mult_2 by (rule within_try)

lemma within_loading: "asks_within P n m \<Longrightarrow> asks_within P n (withLoading m)"
proof (rule withinI)
  fix w
  assume "asks_within P n m"
  then obtain ts where "cw_trace (snd (m (w\<lparr>cw_loading := True\<rparr>))) = cw_trace (w\<lparr>cw_loading := True\<rparr>) @ ts" "length (filter P ts) \<le> n"
    by (rule withinE)
  then show "\<exists>ts. cw_trace (snd (withLoading m w)) = cw_trace w @ ts \<and> length (filter P ts) \<le> n"
    by (cases "m (w\<lparr>cw_loading := True\<rparr>)") (simp add: withLoading_def)
qed

lemma within_forget: "asks_within P n m \<Longrightarrow> asks_within P n (forget m)"
  unfolding forget_def using within_then [where P = P and a = n and m = m and b = 0 and f = "\<lambda>_. ret ()", OF _ within_ret] by simp

text \<open>The calls an operation may make: their entry points and the kinds of their arguments.\<close>

fun shapes :: "contract_op \<Rightarrow> (string \<times> sc_type list) list" where
  "shapes (Get_profile a) = [(''get_profile'', [T_address])]"
| "shapes (Get_profile_by_username u) = [(''get_profile_by_username'', [T_string])]"
| "shapes (Get_leaderboard n) = [(''get_leaderboard'', [T_u32])]"
| "shapes Get_stats = [(''get_stats'', [])]"
| "shapes Get_min_tip = [(''get_min_tip_amount'', [])]"
| "shapes (Get_creator_min_tip c) = [(''get_creator_min_tip'', [T_address]), (''get_min_tip_amount'', [])]"
| "shapes (Get_recent_tips c n k) = [(''get_recent_tips'', [T_address, T_u32, T_u32])]"
| "shapes (Get_creator_tip_count c) = [(''get_creator_tip_count'', [T_address])]"
| "shapes (Get_tips_by_tipper t n) = [(''get_tips_by_tipper'', [T_address, T_u32])]"
| "shapes (Get_tipper_tip_count t) = [(''get_tipper_tip_count'', [T_address])]"
| "shapes (Get_credit_tier a) = [(''get_profile'', [T_address])]"
| "shapes (Get_streak a c) = [(''get_streak'', [T_address, T_address])]"
| "shapes (Get_subscriptions a) = [(''get_subscriptions'', [T_address])]"
| "shapes (Register d) = [(''register_profile'', [T_address, T_string, T_string, T_string, T_string, T_string])]"
| "shapes (Update d) = [(''update_profile'', [T_address, T_map, T_map, T_map, T_map])]"
| "shapes (Set_domain d) = [(''set_domain'', [T_address, T_string])]"
| "shapes (Verify_domain c) = [(''verify_domain'', [T_address, T_address])]"
| "shapes (Send_tip c a m e x f) = [(''send_tip'', [T_address, T_address, T_i128, T_string, T_bool, T_bool, T_map, T_map])]"
| "shapes (Withdraw a) = [(''withdraw_tips'', [T_address, T_i128])]"
| "shapes Deregister = [(''deregister_profile'', [T_address])]"
| "shapes (Create_subscription c a n) = [(''create_subscription'', [T_address, T_address, T_i128, T_u32])]"
| "shapes (Cancel_subscription c) = [(''cancel_subscription'', [T_address, T_address])]"
| "shapes (Execute_due c) = [(''execute_due_subscription'', [T_address, T_address])]"

definition shaped :: "string \<times> sc_type list \<Rightarrow> contract_call \<Rightarrow> bool" where
  "shaped s c \<longleftrightarrow> ct_method c = fst s \<and> map kind_of (ct_args c) = snd s"

lemma returns_account [asks]: "returns (\<lambda>v. kind_of v = T_address) (accountToScVal nd a)"
  by (auto simp: returns_def accountToScVal_def throw_unless_def)

lemma returns_amount [asks]: "returns (\<lambda>v. kind_of v = T_i128) (stroop_amount nd a)"
  by (auto simp: returns_def stroop_amount_def safeStringToBigInt_def)

lemma returns_ret [asks]: "Q a \<Longrightarrow> returns Q (ret a)"
  by (simp add: returns_def)

lemma within_account [asks]: "asks_within P n (accountToScVal nd a)"
  by (rule within_silent) (simp add: accountToScVal_def throw_unless_def)

lemma within_amount [asks]: "asks_within P n (stroop_amount nd a)"
  by (rule within_silent) (simp add: stroop_amount_def safeStringToBigInt_def)

lemma returns_bnd:
  assumes "returns Q m" and "\<And>x. Q x \<Longrightarrow> returns R (f x)"
  shows "returns R (bnd m f)"
  unfolding returns_def
proof (intro allI impI)
  fix w a
  assume "fst (bnd m f w) = Inr a"
  then obtain x where x: "fst (m w) = Inr x" and r: "fst (f x (snd (m w))) = Inr a"
    by (auto simp: bnd_def split: prod.splits sum.splits)
  show "R a" by (rule returnsD [OF assms(2) [OF returnsD [OF assms(1) x]] r])
qed

text \<open>The arguments of a call: silent, and of the given kinds.\<close>

definition arguments_of :: "sc_type list \<Rightarrow> sc_arg cio list \<Rightarrow> bool" where
  "arguments_of ts as \<longleftrightarrow> list_all2 (\<lambda>t a. returns (\<lambda>v. kind_of v = t) a \<and> (\<forall>P. asks_within P 0 a)) ts as"

lemma arguments_of_simps [simp]:
  "arguments_of [] []"
  "arguments_of (t # ts) (a # as) \<longleftrightarrow> returns (\<lambda>v. kind_of v = t) a \<and> (\<forall>P. asks_within P 0 a) \<and> arguments_of ts as"
  by (simp_all add: arguments_of_def)

lemma arguments_kinds: "arguments_of ts as \<Longrightarrow> returns (\<lambda>vs. map kind_of vs = ts) (arguments as)"
  unfolding arguments_of_def
proof (induction rule: list_all2_induct)
  case Nil
  show ?case unfolding arguments.simps by (rule returns_ret) simp
next
  case (Cons t ts a as)
  show ?case unfolding arguments.simps
    by (rule returns_bnd [OF conjunct1 [OF Cons.hyps(1)]], rule returns_bnd [OF Cons.IH]) (simp add: returns_ret)
qed

lemma arguments_silent: "arguments_of ts as \<Longrightarrow> asks_within P 0 (arguments as)"
  unfolding arguments_of_def
proof (induction rule: list_all2_induct)
  case Nil
  show ?case unfolding arguments.simps by (rule within_ret)
next
  case (Cons t ts a as)
  have "asks_within P (0 + (0 + 0)) (bnd a (\<lambda>v. bnd (arguments as) (\<lambda>vs. ret (v # vs))))"
    using Cons by (intro within_then within_ret) auto
  then show ?case by simp
qed

lemma within_if_ask: "(P r \<Longrightarrow> 1 \<le> n) \<Longrightarrow> asks_within P n (ask nd r f)"
  by (rule within_mono [OF within_ask]) simp

lemma within_simulate:
  assumes "P (Simulate c) \<Longrightarrow> 1 \<le> n"
  shows "asks_within P n (simulateTx nd c)"
proof -
  have "asks_within P (n + 0) (simulateTx nd c)"
    unfolding simulateTx_def
    by (rule within_then [OF within_if_ask [OF assms]]) (auto simp: within_ret within_throw split: option.split)
  then show ?thesis by simp
qed

lemma within_read_from:
  assumes "arguments_of ts args" and "asks_within P a source"
    and "\<And>c. shaped (m, ts) c \<Longrightarrow> P (Simulate c) \<Longrightarrow> 1 \<le> b"
  shows "asks_within P (a + 2 * b) (read_from nd cl source m args)"
proof -
  have sim: "asks_within P (2 * b) (withRetry (simulateTx nd (build_tx cl src m as)))" if "map kind_of as = ts" for src as
    by (rule within_retry, rule within_simulate, rule assms(3)) (use that in \<open>simp_all add: shaped_def build_tx_def\<close>)
  have args: "asks_within P (0 + 2 * b) (bnd (arguments args) (\<lambda>as. withRetry (simulateTx nd (build_tx cl src m as))))" for src
    by (rule within_bnd [OF arguments_kinds [OF assms(1)] arguments_silent [OF assms(1)] sim])
  have "asks_within P (0 + (a + (0 + 2 * b))) (read_from nd cl source m args)"
    unfolding read_from_def new_contract_def
    by (rule within_andthen [OF within_unless within_then [OF assms(2) args]])
  then show ?thesis by simp
qed

section \<open>Submissions\<close>

lemma bnd_InrE:
  assumes "fst (bnd m f w) = Inr a"
  obtains x where "fst (m w) = Inr x" and "fst (f x (snd (m w))) = Inr a" and "snd (bnd m f w) = snd (f x (snd (m w)))"
  using assms by (auto simp: bnd_def split: prod.splits sum.splits)

text \<open>The polling asks once per round, and a round lasts a second.\<close>

lemma poll_asks:
  "\<exists>n. cw_trace (snd (poll nd st t h s w)) = cw_trace w @ replicate n (Get_transaction h) \<and>
     (n = 0 \<or> 1000 * int n \<le> st + t + 1000 - cw_now w)"
proof (induction nd st t h s w rule: poll.induct)
  case (1 nd st t h s w)
  define a where "a = ask nd (Get_transaction h) (nd_get nd) w"
  have trace: "cw_trace (snd a) = cw_trace w @ [Get_transaction h]" and now: "cw_now w \<le> cw_now (snd a)"
    by (simp_all add: a_def ask_def Let_def)
  note step = poll.simps [of nd st t h s w, folded a_def]
  show ?case
  proof (cases "s \<noteq> Not_found \<or> t < cw_now w - st")
    case True
    then show ?thesis unfolding step by (intro exI [of _ 0]) auto
  next
    case False
    show ?thesis
    proof (cases "fst a")
      case (Inl e)
      then show ?thesis unfolding step using False trace by (intro exI [of _ 1]) auto
    next
      case (Inr s')
      obtain n where n: "cw_trace (snd (poll nd st t h s' (one_second (snd a)))) = cw_trace (one_second (snd a)) @ replicate n (Get_transaction h)"
        "n = 0 \<or> 1000 * int n \<le> st + t + 1000 - cw_now (one_second (snd a))"
        using 1 False Inr unfolding a_def by blast
      have "cw_trace (snd (poll nd st t h s w)) = cw_trace w @ replicate (Suc n) (Get_transaction h)"
        unfolding step using False Inr n(1) trace by (simp add: one_second_def)
      moreover have "1000 * int (Suc n) \<le> st + t + 1000 - cw_now w" using n(2) now False by (auto simp: one_second_def)
      ultimately show ?thesis by blast
    qed
  qed
qed

text \<open>The status in hand is the node's last answer.\<close>

definition answered :: "node \<Rightarrow> string \<Rightarrow> tx_status \<Rightarrow> client_world \<Rightarrow> bool" where
  "answered nd h s w \<longleftrightarrow> (\<exists>t. cw_trace w = t @ [Get_transaction h]) \<and> nd_get nd (cw_trace w) = Inr s"

lemma ask_answered: "fst (ask nd (Get_transaction h) (nd_get nd) w) = Inr s \<Longrightarrow> answered nd h s (snd (ask nd (Get_transaction h) (nd_get nd) w))"
  by (auto simp: answered_def ask_def Let_def)

lemma answered_later [simp]:
  "answered nd h s (one_second w) = answered nd h s w"
  "answered nd h s (w\<lparr>cw_cache := c\<rparr>) = answered nd h s w"
  "answered nd h s (w\<lparr>cw_loading := l\<rparr>) = answered nd h s w"
  by (simp_all add: answered_def one_second_def)

lemma poll_answered:
  "answered nd h s w \<Longrightarrow> fst (poll nd st t h s w) = Inr s' \<Longrightarrow> answered nd h s' (snd (poll nd st t h s w))"
proof (induction nd st t h s w rule: poll.induct)
  case (1 nd st t h s w)
  define a where "a = ask nd (Get_transaction h) (nd_get nd) w"
  note step = poll.simps [of nd st t h s w, folded a_def]
  show ?case
  proof (cases "s \<noteq> Not_found \<or> t < cw_now w - st")
    case True
    then show ?thesis using "1.prems" unfolding step by (auto split: if_splits)
  next
    case False
    show ?thesis
    proof (cases "fst a")
      case (Inl e)
      then show ?thesis using "1.prems" False unfolding step by auto
    next
      case (Inr s'')
      have "fst (poll nd st t h s'' (one_second (snd a))) = Inr s'" using "1.prems"(2) False Inr unfolding step by simp
      moreover have "answered nd h s'' (one_second (snd a))" using ask_answered Inr unfolding a_def by simp
      ultimately have "answered nd h s' (snd (poll nd st t h s'' (one_second (snd a))))"
        using "1.IH" [OF _ _ Inr [unfolded a_def]] False unfolding a_def by blast
      then show ?thesis unfolding step using False Inr by simp
    qed
  qed
qed

lemma within_await:
  assumes "P (Get_transaction h) \<Longrightarrow> 1 \<le> g"
  shows "asks_within P (62 * g) (await_transaction nd 60000 h)"
proof -
  have "asks_within P (61 * g) (bnd (gets cw_now) (\<lambda>startTime. poll nd startTime 60000 h status))" for status
  proof (rule withinI)
    fix w
    obtain n where n: "cw_trace (snd (poll nd (cw_now w) 60000 h status w)) = cw_trace w @ replicate n (Get_transaction h)" "n \<le> 61"
      using poll_asks [of nd "cw_now w" 60000 h status w] by auto
    have "length (filter P (replicate n (Get_transaction h))) \<le> 61 * g" using n(2) assms by (cases g) (auto simp: filter_replicate)
    with n(1) show "\<exists>ts. cw_trace (snd (bnd (gets cw_now) (\<lambda>startTime. poll nd startTime 60000 h status) w)) = cw_trace w @ ts \<and>
        length (filter P ts) \<le> 61 * g" by auto
  qed
  then have "asks_within P (g + 61 * g) (await_transaction nd 60000 h)"
    unfolding await_transaction_def by (intro within_then within_if_ask assms)
  then show ?thesis by simp
qed

lemma within_conclude: "asks_within P n (conclude a status)"
  by (cases status; rule within_silent) (simp_all add: conclude_def drop_balances_def)

lemma within_submit:
  assumes "\<And>x. P (Send x) \<Longrightarrow> 1 \<le> s" and "\<And>h. P (Get_transaction h) \<Longrightarrow> 1 \<le> g"
  shows "asks_within P (s + 62 * g) (submitTx nd signedXDR 60)"
proof -
  have wait: "asks_within P (62 * g) (if b then await_transaction nd 60000 h else ret Tx_failed)" for b h
    using within_await [where P = P and h = h and g = g and nd = nd] assms(2) by (simp add: within_ret)
  have "asks_within P (0 + (62 * g + 0)) (after_send nd 60000 a)" for a
    unfolding after_send_def by (rule within_andthen [OF within_unless within_then [OF wait within_conclude]])
  then have settle: "asks_within P (62 * g) (after_send nd (60 * 1000) a)" for a by simp
  show ?thesis unfolding submitTx_def
    by (rule within_then, rule within_if_ask, erule assms(1)) (rule settle)
qed

section \<open>The operations as calls\<close>

fun op_args :: "node \<Rightarrow> client \<Rightarrow> contract_op \<Rightarrow> sc_arg cio list" where
  "op_args nd cl (Get_profile a) = [accountToScVal nd a]"
| "op_args nd cl (Get_profile_by_username u) = [ret (Text u)]"
| "op_args nd cl (Get_leaderboard n) = [ret (U32 n)]"
| "op_args nd cl Get_stats = []"
| "op_args nd cl Get_min_tip = []"
| "op_args nd cl (Get_creator_min_tip c) = [accountToScVal nd c]"
| "op_args nd cl (Get_recent_tips c n k) = [accountToScVal nd c, ret (U32 n), ret (U32 k)]"
| "op_args nd cl (Get_creator_tip_count c) = [accountToScVal nd c]"
| "op_args nd cl (Get_tips_by_tipper t n) = [accountToScVal nd t, ret (U32 n)]"
| "op_args nd cl (Get_tipper_tip_count t) = [accountToScVal nd t]"
| "op_args nd cl (Get_credit_tier a) = [accountToScVal nd a]"
| "op_args nd cl (Get_streak a c) = [accountToScVal nd a, accountToScVal nd c]"
| "op_args nd cl (Get_subscriptions a) = [accountToScVal nd a]"
| "op_args nd cl (Register d) = [accountToScVal nd (cl_publicKey cl), ret (Text (pd_username d)),
     ret (Text (pd_displayName d)), ret (Text (pd_bio d)), ret (Text (pd_imageUrl d)), ret (Text (pd_xHandle d))]"
| "op_args nd cl (Update d) = [accountToScVal nd (cl_publicKey cl),
     ret (optionalStringToScVal (pp_displayName d)), ret (optionalStringToScVal (pp_bio d)),
     ret (optionalStringToScVal (pp_imageUrl d)), ret (optionalStringToScVal (pp_xHandle d))]"
| "op_args nd cl (Set_domain d) = [accountToScVal nd (cl_publicKey cl), ret (Text (to_lower (js_trim d)))]"
| "op_args nd cl (Verify_domain c) = [accountToScVal nd (cl_publicKey cl), accountToScVal nd (case c of None \<Rightarrow> cl_publicKey cl | Some a \<Rightarrow> a)]"
| "op_args nd cl (Send_tip c a m e x f) = [accountToScVal nd (cl_publicKey cl), accountToScVal nd c, stroop_amount nd a, ret (Text m), ret (Flag False),
     ret (Flag e), ret (optional_arg I128 x), ret (optional_arg U32 f)]"
| "op_args nd cl (Withdraw a) = [accountToScVal nd (cl_publicKey cl), stroop_amount nd a]"
| "op_args nd cl Deregister = [accountToScVal nd (cl_publicKey cl)]"
| "op_args nd cl (Create_subscription c a n) = [accountToScVal nd (cl_publicKey cl), accountToScVal nd c, stroop_amount nd a, ret (U32 n)]"
| "op_args nd cl (Cancel_subscription c) = [accountToScVal nd (cl_publicKey cl), accountToScVal nd c]"
| "op_args nd cl (Execute_due c) = [accountToScVal nd (cl_publicKey cl), accountToScVal nd c]"

abbreviation op_method :: "contract_op \<Rightarrow> string" where
  "op_method op \<equiv> fst (hd (shapes op))"

abbreviation op_kinds :: "contract_op \<Rightarrow> sc_type list" where
  "op_kinds op \<equiv> snd (hd (shapes op))"

lemma optional_kinds: "kind_of (optionalStringToScVal v) = T_map" "kind_of (optional_arg f x) = T_map"
  by (simp_all add: optionalStringToScVal_def optional_arg_def none_arg_def some_arg_def split: option.split)

lemma op_args_kinds: "arguments_of (op_kinds op) (op_args nd cl op)"
  by (cases op) (simp_all add: asks optional_kinds)

lemma run_write: "is_write op \<Longrightarrow> run_op nd cl op = forget (write_call nd cl (op_method op) (op_args nd cl op))"
  by (cases op) (simp_all add: registerProfile_def updateProfile_def setDomain_def verifyDomain_def sendTip_def withdrawTips_def
    deregisterProfile_def createSubscription_def cancelSubscription_def executeDueSubscription_def)

text \<open>What a kind of request may add up to, request by request.\<close>

definition allowance :: "(rpc \<Rightarrow> bool) \<Rightarrow> contract_op \<Rightarrow> nat \<Rightarrow> nat \<Rightarrow> nat \<Rightarrow> nat \<Rightarrow> nat \<Rightarrow> bool" where
  "allowance P op a b c s g \<longleftrightarrow> (\<forall>x. P (Get_account x) \<longrightarrow> 1 \<le> a) \<and> (\<forall>sh\<in>set (shapes op). \<forall>k. shaped sh k \<longrightarrow> P (Simulate k) \<longrightarrow> 1 \<le> b) \<and>
     (\<forall>sh\<in>set (shapes op). \<forall>k. shaped sh k \<longrightarrow> P (Sign k) \<longrightarrow> 1 \<le> c) \<and> (\<forall>x. P (Send x) \<longrightarrow> 1 \<le> s) \<and> (\<forall>h. P (Get_transaction h) \<longrightarrow> 1 \<le> g)"

lemma op_shape: "(op_method op, op_kinds op) \<in> set (shapes op)"
  by (cases op) simp_all

lemma within_write:
  assumes "allowance P op a b c s g"
  shows "asks_within P (a + (c + (s + 62 * g))) (write_call nd cl (op_method op) (op_args nd cl op))"
proof -
  have sign: "asks_within P c (ask nd (Sign (build_tx cl src (op_method op) as)) f)" if "map kind_of as = op_kinds op" for src as f
  proof (rule within_if_ask)
    have "shaped (op_method op, op_kinds op) (build_tx cl src (op_method op) as)" using that by (simp add: shaped_def build_tx_def)
    then show "P (Sign (build_tx cl src (op_method op) as)) \<Longrightarrow> 1 \<le> c" using assms op_shape unfolding allowance_def by blast
  qed
  have submit: "asks_within P (s + 62 * g) (submitTx nd x 60)" for x
    by (rule within_submit) (use assms in \<open>auto simp: allowance_def\<close>)
  have account: "asks_within P a (getTxBuilder nd (cl_publicKey cl))"
    unfolding getTxBuilder_def by (rule within_if_ask) (use assms in \<open>auto simp: allowance_def\<close>)
  have "asks_within P (0 + (a + (0 + (c + (s + 62 * g))))) (andthen (new_contract nd cl) (bnd (getTxBuilder nd (cl_publicKey cl)) (\<lambda>src.
      bnd (arguments (op_args nd cl op)) (\<lambda>as. bnd (ask nd (Sign (build_tx cl src (op_method op) as))
        (\<lambda>t. case nd_sign nd t of Some x \<Rightarrow> Inr x | None \<Rightarrow> Inl ''Unable to sign transaction'')) (\<lambda>x. submitTx nd x 60)))))"
    unfolding new_contract_def
    by (rule within_andthen [OF within_unless], rule within_then [OF account],
        rule within_bnd [OF arguments_kinds [OF op_args_kinds] arguments_silent [OF op_args_kinds]], rule within_then [OF sign submit])
  then show ?thesis unfolding write_call_def by (simp add: within_loading within_throw)
qed

lemma within_source:
  assumes "allowance P op a b c s g"
  shows "asks_within P a (read_source nd cl)"
proof -
  have "asks_within P a (getTxBuilder nd k)" for k
    unfolding getTxBuilder_def by (rule within_if_ask) (use assms in \<open>auto simp: allowance_def\<close>)
  moreover have "asks_within P a (getSimulationTxBuilder nd k)" for k
    by (rule within_silent) (simp add: getSimulationTxBuilder_def throw_unless_def)
  ultimately show ?thesis by (simp add: read_source_def)
qed

lemma within_read:
  assumes "allowance P op a b c s g" and "asks_within P n source" and "arguments_of ts args" and "(m, ts) \<in> set (shapes op)"
  shows "asks_within P (n + 2 * b) (read_from nd cl source m args)"
  by (rule within_read_from [OF assms(3,2)]) (use assms(1,4) in \<open>auto simp: allowance_def\<close>)

lemma within_profile:
  assumes "allowance P op a b c s g" and "(''get_profile'', [T_address]) \<in> set (shapes op)"
  shows "asks_within P (2 * b) (getProfile nd cl x)"
proof -
  have "asks_within P 0 (getSimulationTxBuilder nd x)"
    by (rule within_silent) (simp add: getSimulationTxBuilder_def throw_unless_def)
  then have "asks_within P (0 + 2 * b) (read_from nd cl (getSimulationTxBuilder nd x) ''get_profile'' [accountToScVal nd x])"
    by (rule within_read [OF assms(1) _ _ assms(2)]) (simp add: asks)
  then show ?thesis unfolding getProfile_def by (simp add: within_loading)
qed

lemma within_min_tip:
  assumes "allowance P op a b c s g" and "(''get_min_tip_amount'', []) \<in> set (shapes op)"
  shows "asks_within P (a + 2 * b) (getMinTipAmount nd cl)"
proof -
  have convert: "asks_within P 0 (stroops_to_text nd v)" for v
    by (cases v) (simp_all add: stroops_to_text_def asks)
  have "asks_within P (a + 2 * b + 0) (bnd (read_from nd cl (read_source nd cl) ''get_min_tip_amount'' []) (stroops_to_text nd))"
    by (rule within_then [OF within_read [OF assms(1) within_source [OF assms(1)] _ assms(2)] convert]) simp
  then have "asks_within P (a + 2 * b + 0) (try_catch (withLoading (bnd (read_from nd cl (read_source nd cl) ''get_min_tip_amount'' [])
      (stroops_to_text nd))) (\<lambda>_. ret ''1''))"
    by (intro within_try within_loading within_ret) simp
  then show ?thesis by (simp add: getMinTipAmount_def within_ret)
qed

lemma within_creator_min_tip:
  assumes "allowance P (Get_creator_min_tip x) a b c s g"
  shows "asks_within P (2 * a + 4 * b) (getCreatorMinTip nd cl x)"
proof -
  have convert: "asks_within P 0 (stroops_to_text nd v)" for v
    by (cases v) (simp_all add: stroops_to_text_def asks)
  have fallback: "asks_within P (a + 2 * b) (getMinTipAmount nd cl)" by (rule within_min_tip [OF assms]) simp
  have "asks_within P (a + 2 * b + 0) (bnd (read_from nd cl (read_source nd cl) ''get_creator_min_tip'' [accountToScVal nd x]) (stroops_to_text nd))"
    by (rule within_then [OF within_read [OF assms within_source [OF assms]] convert]) (simp_all add: asks)
  then have "asks_within P (a + 2 * b + 0 + (a + 2 * b)) (try_catch (withLoading (bnd (read_from nd cl (read_source nd cl) ''get_creator_min_tip''
      [accountToScVal nd x]) (stroops_to_text nd))) (\<lambda>_. getMinTipAmount nd cl))"
    by (intro within_try within_loading fallback)
  moreover have "asks_within P (2 * a + 4 * b) (getMinTipAmount nd cl)" by (rule within_mono [OF fallback]) simp
  ultimately show ?thesis by (simp add: getCreatorMinTip_def algebra_simps)
qed

fun is_plain_read :: "contract_op \<Rightarrow> bool" where
  "is_plain_read (Get_profile a) = False"
| "is_plain_read (Get_credit_tier a) = False"
| "is_plain_read Get_stats = False"
| "is_plain_read Get_min_tip = False"
| "is_plain_read (Get_creator_min_tip c) = False"
| "is_plain_read op = (\<not> is_write op)"

lemma run_plain_read: "is_plain_read op \<Longrightarrow> run_op nd cl op = forget (read_call nd cl (op_method op) (op_args nd cl op))"
  by (cases op) (simp_all add: getProfileByUsername_def getLeaderboard_def getRecentTips_def getCreatorTipCount_def getTipsByTipper_def
    getTipperTipCount_def getStreak_def getSubscriptions_def)

lemma within_plain_read:
  assumes "allowance P op a b c s g" and "is_plain_read op"
  shows "asks_within P (2 * a + 4 * b) (run_op nd cl op)"
proof -
  have "asks_within P (a + 2 * b) (read_call nd cl (op_method op) (op_args nd cl op))"
    unfolding read_call_def by (rule within_loading [OF within_read [OF assms(1) within_source [OF assms(1)] op_args_kinds op_shape]])
  then show ?thesis unfolding run_plain_read [OF assms(2)] by (intro within_forget) (erule within_mono, simp)
qed

lemma within_stats:
  assumes "allowance P Get_stats a b c s g"
  shows "asks_within P (a + 2 * b) (getStats nd cl)"
proof -
  have "asks_within P (a + 2 * b) (read_from nd cl (read_source nd cl) ''get_stats'' [])"
    by (rule within_read [OF assms within_source [OF assms]]) simp_all
  then have "asks_within P (0 + (a + 2 * b)) (getStats nd cl)"
    unfolding getStats_def by (intro within_loading within_andthen within_unless)
  then show ?thesis by simp
qed

lemma within_credit_tier:
  assumes "allowance P (Get_credit_tier x) a b c s g"
  shows "asks_within P (2 * b) (getCreditTier nd cl x)"
proof -
  have "asks_within P (2 * b) (getProfile nd cl x)" by (rule within_profile [OF assms]) simp
  then have "asks_within P (2 * b + 0) (getCreditTier nd cl x)"
    unfolding getCreditTier_def by (intro within_loading within_then within_ret)
  then show ?thesis by simp
qed

lemma within_run:
  assumes "allowance P op a b c s g"
  shows "asks_within P (if is_write op then a + (c + (s + 62 * g)) else 2 * a + 4 * b) (run_op nd cl op)"
proof (cases "is_write op")
  case True
  then show ?thesis by (simp add: run_write within_forget within_write [OF assms])
next
  case False
  have "asks_within P (2 * a + 4 * b) (run_op nd cl op)"
  proof (cases "is_plain_read op")
    case True
    then show ?thesis by (rule within_plain_read [OF assms])
  next
    case special: False
    consider x where "op = Get_profile x" | x where "op = Get_credit_tier x" | "op = Get_stats" | "op = Get_min_tip" | x where "op = Get_creator_min_tip x"
      using False special by (cases op) auto
    then show ?thesis
    proof cases
      case (1 x)
      have "asks_within P (2 * b) (getProfile nd cl x)" by (rule within_profile [OF assms]) (simp add: 1)
      then show ?thesis unfolding 1 run_op.simps by (intro within_forget) (erule within_mono, simp)
    next
      case (2 x)
      have "asks_within P (2 * b) (getCreditTier nd cl x)" by (rule within_credit_tier [OF assms [unfolded 2]])
      then show ?thesis unfolding 2 run_op.simps by (intro within_forget) (erule within_mono, simp)
    next
      case 3
      have "asks_within P (a + 2 * b) (getStats nd cl)" by (rule within_stats [OF assms [unfolded 3]])
      then show ?thesis unfolding 3 run_op.simps by (intro within_forget) (erule within_mono, simp)
    next
      case 4
      have "asks_within P (a + 2 * b) (getMinTipAmount nd cl)" by (rule within_min_tip [OF assms]) (simp add: 4)
      then show ?thesis unfolding 4 run_op.simps by (intro within_forget) (erule within_mono, simp)
    next
      case (5 x)
      show ?thesis unfolding 5 run_op.simps by (intro within_forget within_creator_min_tip [OF assms [unfolded 5]])
    qed
  qed
  with False show ?thesis by simp
qed

section \<open>What holds of every operation\<close>

definition new_requests :: "node \<Rightarrow> client \<Rightarrow> contract_op \<Rightarrow> client_world \<Rightarrow> rpc list" where
  "new_requests nd cl op w = drop (length (cw_trace w)) (cw_trace (snd (run_op nd cl op w)))"

definition call_in :: "rpc \<Rightarrow> contract_call option" where
  "call_in r = (case r of Simulate c \<Rightarrow> Some c | Sign c \<Rightarrow> Some c | _ \<Rightarrow> None)"

definition calls_made :: "node \<Rightarrow> client \<Rightarrow> contract_op \<Rightarrow> client_world \<Rightarrow> contract_call list" where
  "calls_made nd cl op w = List.map_filter call_in (new_requests nd cl op w)"

lemma new_requests_within:
  assumes "allowance P op a b c s g"
  shows "length (filter P (new_requests nd cl op w)) \<le> (if is_write op then a + (c + (s + 62 * g)) else 2 * a + 4 * b)"
  by (rule withinE [OF within_run [OF assms, of nd cl], where w = w]) (simp add: new_requests_def)

lemma shaped_accepted:
  "shaped (m, ks) c \<Longrightarrow> accepted_call c = (case map_of entry_points m of None \<Rightarrow> False | Some ts \<Rightarrow> map expected_kind ts = ks)"
  by (auto simp: shaped_def accepted_call_def)

definition declared :: "contract_op \<Rightarrow> bool" where
  "declared op = (case op of Get_leaderboard n \<Rightarrow> False | Update d \<Rightarrow> False | Send_tip c a m e x f \<Rightarrow> False | _ \<Rightarrow> True)"

lemma shapes_declared: "list_all (\<lambda>sh. (case map_of entry_points (fst sh) of None \<Rightarrow> False | Some ts \<Rightarrow> map expected_kind ts = snd sh) = declared op) (shapes op)"
  by (cases op) (simp_all add: entry_points_def declared_def)

lemma calls_declared: "list_all (\<lambda>c. accepted_call c = declared op) (calls_made nd cl op w)"
proof -
  define P where "P = (\<lambda>r. case call_in r of None \<Rightarrow> False | Some c \<Rightarrow> accepted_call c \<noteq> declared op)"
  have "accepted_call k = declared op" if "sh \<in> set (shapes op)" "shaped sh k" for sh k
    using shapes_declared [of op] that shaped_accepted [of "fst sh" "snd sh" k] by (simp add: list_all_iff)
  then have "allowance P op 0 0 0 0 0" by (auto simp: allowance_def P_def call_in_def)
  from new_requests_within [OF this, of nd cl w] have "filter P (new_requests nd cl op w) = []" by (simp split: if_splits)
  then show ?thesis
    by (auto simp: calls_made_def list_all_iff List.map_filter_def filter_empty_conv P_def split: option.splits)
qed

text \<open>C26. Every call the client simulates or signs has the entry point and the kinds of arguments the contract declares, except those
  of reading the leaderboard, updating a profile and sending a tip, which never do.\<close>

theorem calls_fit_the_contract:
  "list_all (\<lambda>c. accepted_call c = (case op of Get_leaderboard n \<Rightarrow> False | Update d \<Rightarrow> False | Send_tip creator a m e x f \<Rightarrow> False | _ \<Rightarrow> True))
     (calls_made nd cl op w)"
  using calls_declared [of op nd cl w] unfolding declared_def .

definition is_simulate :: "rpc \<Rightarrow> bool" where
  "is_simulate r = (case r of Simulate c \<Rightarrow> True | _ \<Rightarrow> False)"

definition is_sign :: "rpc \<Rightarrow> bool" where
  "is_sign r = (case r of Sign c \<Rightarrow> True | _ \<Rightarrow> False)"

definition is_send :: "rpc \<Rightarrow> bool" where
  "is_send r = (case r of Send x \<Rightarrow> True | _ \<Rightarrow> False)"

definition is_poll :: "rpc \<Rightarrow> bool" where
  "is_poll r = (case r of Get_transaction h \<Rightarrow> True | _ \<Rightarrow> False)"

text \<open>C27. Whatever the node answers, an operation ends after at most four simulations; a write signs and sends at most once and asks
  for its transaction at most 62 times, and a read never signs, sends or asks.\<close>

theorem requests_are_bounded:
  "length (filter is_simulate (new_requests nd cl op w)) \<le> (if is_write op then 0 else 4) \<and>
   length (filter is_sign (new_requests nd cl op w)) \<le> (if is_write op then 1 else 0) \<and>
   length (filter is_send (new_requests nd cl op w)) \<le> (if is_write op then 1 else 0) \<and>
   length (filter is_poll (new_requests nd cl op w)) \<le> (if is_write op then 62 else 0)"
proof -
  have "allowance is_simulate op 0 1 0 0 0" "allowance is_sign op 0 0 1 0 0" "allowance is_send op 0 0 0 1 0" "allowance is_poll op 0 0 0 0 1"
    by (simp_all add: allowance_def is_simulate_def is_sign_def is_send_def is_poll_def)
  from this(1-4) [THEN new_requests_within, of nd cl w] show ?thesis by (simp split: if_splits)
qed

section \<open>A confirmed write\<close>

lemma await_answered:
  assumes "fst (await_transaction nd t h w) = Inr s"
  shows "answered nd h s (snd (await_transaction nd t h w))"
proof -
  obtain s0 where a: "fst (ask nd (Get_transaction h) (nd_get nd) w) = Inr s0"
    and p: "fst (bnd (gets cw_now) (\<lambda>startTime. poll nd startTime t h s0) (snd (ask nd (Get_transaction h) (nd_get nd) w))) = Inr s"
    and e: "snd (await_transaction nd t h w) = snd (bnd (gets cw_now) (\<lambda>startTime. poll nd startTime t h s0) (snd (ask nd (Get_transaction h) (nd_get nd) w)))"
    using assms unfolding await_transaction_def by (rule bnd_InrE)
  show ?thesis unfolding e using poll_answered [OF ask_answered [OF a]] p by simp
qed

lemma after_send_confirmed:
  assumes "fst (after_send nd t a w) = Inr r"
  shows "\<exists>h w'. answered nd h (Tx_success r) w' \<and> snd (after_send nd t a w) = drop_balances w'"
proof -
  have ok: "\<not> sa_errorResult a" using assms by (auto simp: after_send_def throw_unless_def split: if_splits)
  have pending: "sa_status a = ''PENDING''" using assms ok by (auto simp: after_send_def throw_unless_def conclude_def split: if_splits)
  have run: "after_send nd t a w = bnd (await_transaction nd t (sa_hash a)) (conclude a) w"
    using ok pending by (simp add: after_send_def throw_unless_def)
  obtain s where s: "fst (await_transaction nd t (sa_hash a) w) = Inr s"
    and g: "fst (conclude a s (snd (await_transaction nd t (sa_hash a) w))) = Inr r"
    and e: "snd (after_send nd t a w) = snd (conclude a s (snd (await_transaction nd t (sa_hash a) w)))"
    using assms unfolding run by (rule bnd_InrE)
  have "s = Tx_success r" using g by (cases s) (auto simp: conclude_def)
  with await_answered [OF s] e show ?thesis by (auto simp: conclude_def)
qed

lemma write_confirmed:
  assumes "fst (write_call nd cl m args w) = Inr r"
  shows "\<exists>h w'. answered nd h (Tx_success r) w' \<and> snd (write_call nd cl m args w) = (drop_balances w')\<lparr>cw_loading := False\<rparr>"
proof -
  define body where "body = andthen (new_contract nd cl) (bnd (getTxBuilder nd (cl_publicKey cl)) (\<lambda>src. bnd (arguments args) (\<lambda>as.
        bnd (ask nd (Sign (build_tx cl src m as)) (\<lambda>t. case nd_sign nd t of Some x \<Rightarrow> Inr x | None \<Rightarrow> Inl ''Unable to sign transaction''))
          (\<lambda>signedXdr. submitTx nd signedXdr 60))))"
  have run: "write_call nd cl m args w = withLoading body w"
    using assms unfolding write_call_def body_def by (simp split: if_splits)
  define w0 where "w0 = w\<lparr>cw_loading := True\<rparr>"
  have body: "fst (body w0) = Inr r" and final: "snd (write_call nd cl m args w) = (snd (body w0))\<lparr>cw_loading := False\<rparr>"
    using assms unfolding run withLoading_def w0_def by (cases "body (w\<lparr>cw_loading := True\<rparr>)"; simp)+
  from body have "\<exists>t a w'. fst (after_send nd t a w') = Inr r \<and> snd (body w0) = snd (after_send nd t a w')"
    unfolding body_def andthen_def submitTx_def by (elim bnd_InrE) (simp, blast)
  then show ?thesis using after_send_confirmed final by metis
qed

lemma balance_key: "prefix balance_prefix (buildContractCacheKey ''balance'' ps)"
  by (simp add: balance_prefix_def buildContractCacheKey_def)

lemma dropped_balance: "prefix balance_prefix k \<Longrightarrow> map_of (cc_entries (cw_cache (drop_balances w))) k = None"
  by (auto simp: drop_balances_def invalidateByPrefix_def Let_def map_of_eq_None_iff)

lemma dropped_balance_waits: "\<exists>i. fst (getTokenBalance address token (drop_balances w)) = Wait i"
  using dropped_balance [OF balance_key] by (simp add: getTokenBalance_def cached_read_def getOrFetch_def)

lemma loading_irrelevant [simp]: "fst (getTokenBalance a t (w\<lparr>cw_loading := l\<rparr>)) = fst (getTokenBalance a t w)"
  by (simp add: getTokenBalance_def cached_read_def split: prod.split)

lemma forget_run: "forget m w = (case m w of (r, w') \<Rightarrow> (case r of Inl e \<Rightarrow> (Inl e, w') | Inr _ \<Rightarrow> (Inr (), w')))"
  by (simp add: forget_def bnd_def split: prod.split sum.split)

text \<open>C25. A write that succeeds was reported successful by the node's last answer, leaves nothing loading, and the next read of any
  balance goes to the node.\<close>

theorem successful_write_is_confirmed:
  assumes "is_write op" and "fst (run_op nd cl op w) = Inr ()"
  shows "(\<exists>h x. nd_get nd (cw_trace (snd (run_op nd cl op w))) = Inr (Tx_success x) \<and>
       last (cw_trace (snd (run_op nd cl op w))) = Get_transaction h) \<and>
     \<not> cw_loading (snd (run_op nd cl op w)) \<and>
     (\<exists>i. fst (getTokenBalance address token (snd (run_op nd cl op w))) = Wait i)"
proof -
  let ?m = "write_call nd cl (op_method op) (op_args nd cl op)"
  obtain r where r: "fst (?m w) = Inr r" and e: "snd (run_op nd cl op w) = snd (?m w)"
    using assms by (auto simp: run_write forget_run split: prod.splits sum.splits)
  obtain h w' where a: "answered nd h (Tx_success r) w'" and w': "snd (?m w) = (drop_balances w')\<lparr>cw_loading := False\<rparr>"
    using write_confirmed [OF r] by blast
  from a have "nd_get nd (cw_trace w') = Inr (Tx_success r)" and "last (cw_trace w') = Get_transaction h" by (auto simp: answered_def)
  then show ?thesis unfolding e w' by (simp add: dropped_balance_waits) (simp add: drop_balances_def)
qed

definition sample_node :: node where
  "sample_node = \<lparr>nd_account = (\<lambda>_. True), nd_simulate = (\<lambda>_. Inr (Some (JBig 50000000))), nd_sign = (\<lambda>_. Some ''signed''),
     nd_send = (\<lambda>_. Inr \<lparr>sa_errorResult = False, sa_status = ''PENDING'', sa_hash = ''h''\<rparr>),
     nd_get = (\<lambda>t. Inr (if length t < 5 then Not_found else Tx_success ''ok'')), nd_delay = (\<lambda>_. 20), nd_validId = (\<lambda>_. True),
     nd_validAddress = (\<lambda>_. True), nd_numberText = (\<lambda>_. ''50000000'')\<rparr>"

definition sample_client :: client where
  "sample_client = \<lparr>cl_publicKey = ''G1'', cl_contractId = ''C1'', cl_network = ''TESTNET''\<rparr>"

definition sample_client_world :: client_world where
  "sample_client_world = \<lparr>cw_trace = [], cw_now = 0, cw_loading = False, cw_cache = empty_cache\<rparr>"

lemma sample_write_succeeds: "fst (run_op sample_node sample_client Deregister sample_client_world) = Inr ()"
  by code_simp

lemma successful_write_is_confirmed_witness:
  "nd_get sample_node (cw_trace (snd (run_op sample_node sample_client Deregister sample_client_world))) = Inr (Tx_success ''ok'') \<and>
   \<not> cw_loading (snd (run_op sample_node sample_client Deregister sample_client_world))"
proof -
  have w: "is_write Deregister" by simp
  have "\<exists>x. nd_get sample_node t = Inr (Tx_success x) \<longrightarrow> nd_get sample_node t = Inr (Tx_success ''ok'')" for t by blast
  moreover have "nd_get sample_node t = Inr (Tx_success x) \<Longrightarrow> x = ''ok''" for t x by (simp add: sample_node_def split: if_splits)
  ultimately show ?thesis using successful_write_is_confirmed [OF w sample_write_succeeds] by metis
qed

section \<open>The smallest tip\<close>

text \<open>A contract answers an amount as a big integer, which the client divides by a number.\<close>

definition answers_integers :: "node \<Rightarrow> bool" where
  "answers_integers nd \<longleftrightarrow> (\<forall>t. case nd_simulate nd t of Inr (Some v) \<Rightarrow> (case v of JBig n \<Rightarrow> True | _ \<Rightarrow> False) | _ \<Rightarrow> True)"

lemma simulated_value:
  assumes "fst (simulateTx nd c w) = Inr v"
  shows "\<exists>t raw. nd_simulate nd t = Inr (Some raw) \<and> v = mapContractResponse raw"
proof -
  obtain x where "fst (ask nd (Simulate c) (nd_simulate nd) w) = Inr x"
    and x: "fst ((case x of Some raw \<Rightarrow> ret (mapContractResponse raw) | None \<Rightarrow> throw ''cannot simulate transaction'')
       (snd (ask nd (Simulate c) (nd_simulate nd) w))) = Inr v"
    using assms unfolding simulateTx_def by (rule bnd_InrE)
  then have "nd_simulate nd (cw_trace w @ [Simulate c]) = Inr x" by (simp add: ask_def Let_def)
  with x show ?thesis by (cases x) auto
qed

lemma read_value:
  assumes "fst (read_from nd cl source m args w) = Inr v"
  shows "\<exists>t raw. nd_simulate nd t = Inr (Some raw) \<and> v = mapContractResponse raw"
proof -
  obtain c w' where r: "fst (withRetry (simulateTx nd c) w') = Inr v"
    using assms unfolding read_from_def andthen_def by (elim bnd_InrE) blast
  obtain a w2 where a: "simulateTx nd c w' = (a, w2)" by (cases "simulateTx nd c w'")
  show ?thesis
  proof (cases a)
    case (Inl e)
    then have "fst (simulateTx nd c w2) = Inr v" using r a by (simp add: withRetry_def try_catch_def)
    then show ?thesis by (rule simulated_value)
  next
    case (Inr x)
    then have "fst (simulateTx nd c w') = Inr v" using r a by (simp add: withRetry_def try_catch_def)
    then show ?thesis by (rule simulated_value)
  qed
qed

lemma read_integer:
  assumes "answers_integers nd" and "fst (read_from nd cl source m args w) = Inr v"
  shows "\<exists>n. v = JBig n"
proof -
  obtain t raw where t: "nd_simulate nd t = Inr (Some raw)" and v: "v = mapContractResponse raw" using read_value [OF assms(2)] by blast
  have "case nd_simulate nd t of Inr (Some v) \<Rightarrow> (case v of JBig n \<Rightarrow> True | _ \<Rightarrow> False) | _ \<Rightarrow> True"
    using assms(1) unfolding answers_integers_def by blast
  with t obtain n where "raw = JBig n" by (cases raw) auto
  then show ?thesis unfolding v by (simp add: mapContractResponse_def)
qed

lemma converted_integer_throws:
  assumes "answers_integers nd"
  shows "\<exists>e. fst (bnd (read_from nd cl source m args) (stroops_to_text nd) w) = Inl e"
proof (cases "fst (read_from nd cl source m args w)")
  case (Inl e)
  then show ?thesis by (cases "read_from nd cl source m args w") (simp add: bnd_def)
next
  case (Inr v)
  obtain n where "v = JBig n" using read_integer [OF assms Inr] by blast
  with Inr show ?thesis by (cases "read_from nd cl source m args w") (simp add: bnd_def stroops_to_text_def)
qed

lemma caught_throw: "fst (m w) = Inl e \<Longrightarrow> try_catch m h w = h e (snd (m w))"
  by (cases "m w") (simp add: try_catch_def)

text \<open>The smallest tip the client shows is always the default of one XLM: whatever amounts the contract answers are big integers,
  and dividing them by a number throws.\<close>

theorem min_tip_is_always_default:
  assumes "answers_integers nd"
  shows "fst (getMinTipAmount nd cl w) = Inr ''1'' \<and> fst (getCreatorMinTip nd cl creator w) = Inr ''1''"
proof -
  have failed: "\<exists>e. fst (withLoading (bnd (read_from nd cl source m args) (stroops_to_text nd)) w) = Inl e" for source m args w
    using converted_integer_throws [OF assms, of cl source m args "w\<lparr>cw_loading := True\<rparr>"]
    by (cases "bnd (read_from nd cl source m args) (stroops_to_text nd) (w\<lparr>cw_loading := True\<rparr>)") (simp add: withLoading_def)
  have standard: "fst (getMinTipAmount nd cl w) = Inr ''1''" for w
  proof -
    obtain e where "fst (withLoading (bnd (read_from nd cl (read_source nd cl) ''get_min_tip_amount'' []) (stroops_to_text nd)) w) = Inl e"
      using failed by blast
    then show ?thesis by (simp add: getMinTipAmount_def caught_throw)
  qed
  moreover have "fst (getCreatorMinTip nd cl creator w) = Inr ''1''"
  proof -
    obtain e where "fst (withLoading (bnd (read_from nd cl (read_source nd cl) ''get_creator_min_tip'' [accountToScVal nd creator])
        (stroops_to_text nd)) w) = Inl e"
      using failed by blast
    with standard show ?thesis by (simp add: getCreatorMinTip_def caught_throw)
  qed
  ultimately show ?thesis by blast
qed

lemma min_tip_is_always_default_witness:
  "fst (getMinTipAmount sample_node sample_client sample_client_world) = Inr ''1'' \<and>
   nd_simulate sample_node [] = Inr (Some (JBig 50000000))"
proof -
  have "answers_integers sample_node" by (simp add: answers_integers_def sample_node_def)
  from min_tip_is_always_default [OF this, of sample_client sample_client_world "''G2''"] show ?thesis by (simp add: sample_node_def)
qed

text \<open>The profile of the contract comes wrapped with its deactivation; read without unwrapping, every creator is new.\<close>

definition wrapped_profile :: "jsval \<Rightarrow> bool \<Rightarrow> jsval \<Rightarrow> jsval" where
  "wrapped_profile p d q = JObj PlainObject [(''profile'', p), (''is_deactivated'', JBool d), (''deactivated_at'', q)]"

lemma wrapped_score: "get_prop (mapContractResponse (wrapped_profile p d q)) ''creditScore'' = Undefined"
  by (simp add: wrapped_profile_def mapContractResponse_def get_prop_def fromEntries_def put_entry_def is_lower_def to_upper_char_def)

lemma wrapped_profile_is_new:
  assumes "\<And>t. nd_simulate nd t = Inr (Some (wrapped_profile p d q))" and "fst (getCreditTier nd cl address w) = Inr r"
  shows "r = (Undefined, ''new'')"
proof -
  have loading: "\<exists>w'. fst (m w') = Inr x" if "fst (withLoading m w) = Inr x" for m :: "'a cio" and w x
    using that by (auto simp: withLoading_def split: prod.splits) (metis fst_conv)
  obtain v w' where v: "fst (getProfile nd cl address w') = Inr v"
    and r: "r = (get_prop v ''creditScore'', credit_tier (get_prop v ''creditScore''))"
    using loading [OF assms(2) [unfolded getCreditTier_def]] by (auto elim!: bnd_InrE)
  obtain w'' where "fst (read_from nd cl (getSimulationTxBuilder nd address) ''get_profile'' [accountToScVal nd address] w'') = Inr v"
    using loading [OF v [unfolded getProfile_def]] by blast
  from read_value [OF this] assms(1) have "v = mapContractResponse (wrapped_profile p d q)" by auto
  then show ?thesis unfolding r by (simp add: wrapped_score credit_tier_def at_least_def)
qed

section \<open>The merged leaderboard\<close>

abbreviation addresses :: "LeaderboardEntry list \<Rightarrow> string set" where
  "addresses es \<equiv> le_address ` set es"

lemma put_unknown: "k \<notin> fst ` set m \<Longrightarrow> put k v m = m @ [(k, v)]"
  by (induction m) auto

lemma put_known: "distinct (map fst m) \<Longrightarrow> k \<in> fst ` set m \<Longrightarrow> put k v m = map (\<lambda>x. if fst x = k then (k, v) else x) m"
  by (induction m) (auto simp: image_iff intro!: map_idI [symmetric])

definition entry_pairs :: "LeaderboardEntry list \<Rightarrow> (string \<times> LeaderboardEntry) list" where
  "entry_pairs es = map (\<lambda>e. (le_address e, e)) es"

lemma put_entry_pairs:
  assumes "distinct (map le_address es)"
  shows "put (le_address e) e (entry_pairs es) = entry_pairs
     (if le_address e \<in> addresses es then map (\<lambda>x. if le_address x = le_address e then e else x) es else es @ [e])"
proof (cases "le_address e \<in> addresses es")
  case True
  have "put (le_address e) e (entry_pairs es) = map (\<lambda>x. if fst x = le_address e then (le_address e, e) else x) (entry_pairs es)"
    by (rule put_known) (use assms True in \<open>simp_all add: entry_pairs_def comp_def image_image\<close>)
  also have "\<dots> = entry_pairs (map (\<lambda>x. if le_address x = le_address e then e else x) es)"
    by (simp add: entry_pairs_def comp_def)
  finally show ?thesis using True by simp
next
  case False
  then have "put (le_address e) e (entry_pairs es) = entry_pairs es @ [(le_address e, e)]"
    by (intro put_unknown) (auto simp: entry_pairs_def)
  then show ?thesis using False by (simp add: entry_pairs_def)
qed

text \<open>The entry of an address after a merge.\<close>

definition newest :: "LeaderboardEntry list \<Rightarrow> LeaderboardEntry \<Rightarrow> LeaderboardEntry" where
  "newest incoming x = (case find (\<lambda>e. le_address e = le_address x) incoming of Some e \<Rightarrow> e | None \<Rightarrow> x)"

lemma newest_address [simp]: "le_address (newest incoming x) = le_address x"
  by (auto simp: newest_def find_Some_iff split: option.split)

lemma find_miss: "a \<notin> addresses es \<Longrightarrow> find (\<lambda>x. le_address x = a) es = None"
  by (induction es) auto

lemma map_of_entries_pairs:
  assumes "distinct (map le_address es)" and "distinct (map le_address incoming)"
  shows "map_of_entries incoming (entry_pairs es) =
     entry_pairs (map (newest incoming) es @ filter (\<lambda>e. le_address e \<notin> addresses es) incoming)"
  using assms
proof (induction incoming arbitrary: es)
  case Nil
  then show ?case by (simp add: map_of_entries_def newest_def)
next
  case (Cons e inc)
  define es' where "es' = (if le_address e \<in> addresses es then map (\<lambda>x. if le_address x = le_address e then e else x) es else es @ [e])"
  have adr: "map le_address es' = map le_address es @ (if le_address e \<in> addresses es then [] else [le_address e])"
    by (auto simp: es'_def)
  then have "distinct (map le_address es')" using Cons.prems(1) by auto
  then have "map_of_entries inc (entry_pairs es') = entry_pairs (map (newest inc) es' @ filter (\<lambda>x. le_address x \<notin> addresses es') inc)"
    using Cons.IH Cons.prems(2) by simp
  moreover have "map_of_entries (e # inc) (entry_pairs es) = map_of_entries inc (entry_pairs es')"
    using put_entry_pairs [OF Cons.prems(1), of e] by (simp add: map_of_entries_def es'_def)
  moreover have "find (\<lambda>x. le_address x = le_address e) inc = None" by (rule find_miss) (use Cons.prems(2) in simp)
  then have "newest inc e = e" by (simp add: newest_def)
  then have "map (newest inc) es' = map (newest (e # inc)) es @ (if le_address e \<in> addresses es then [] else [e])"
    by (auto simp: es'_def newest_def)
  moreover have "filter (\<lambda>x. le_address x \<notin> addresses es') inc = filter (\<lambda>x. le_address x \<notin> addresses es) inc"
  proof (rule filter_cong)
    fix x assume "x \<in> set inc"
    moreover have "le_address e \<notin> addresses inc" using Cons.prems(2) by simp
    ultimately have "le_address x \<noteq> le_address e" by (metis image_eqI)
    moreover have "addresses es' = set (map le_address es @ (if le_address e \<in> addresses es then [] else [le_address e]))"
      unfolding adr [symmetric] by simp
    ultimately show "(le_address x \<notin> addresses es') = (le_address x \<notin> addresses es)" by auto
  qed simp
  ultimately show ?case by auto
qed

lemma rank_index_nth:
  assumes "distinct (map le_address incoming)" and "i < length incoming"
  shows "rank_index incoming (le_address (incoming ! i)) = Some i"
proof -
  have "map fst (zip (map le_address incoming) [0..<length incoming]) = map le_address incoming" by simp
  then have "distinct (map fst (rev (zip (map le_address incoming) [0..<length incoming])))"
    using assms(1) by (simp add: rev_map [symmetric])
  moreover have "(le_address (incoming ! i), i) \<in> set (zip (map le_address incoming) [0..<length incoming])"
    using assms(2) by (force simp: set_zip)
  ultimately show ?thesis unfolding rank_index_def by (simp add: map_of_is_SomeI)
qed

lemma rank_index_None: "a \<notin> addresses incoming \<Longrightarrow> rank_index incoming a = None"
  by (force simp: rank_index_def map_of_eq_None_iff dest: set_zip_leftD)

text \<open>Sorting a list whose keys fall into a lower and a higher part.\<close>

lemma sort_key_split:
  assumes "\<And>x y. x \<in> set xs \<Longrightarrow> y \<in> set xs \<Longrightarrow> P x \<Longrightarrow> \<not> P y \<Longrightarrow> f x < f y"
  shows "sort_key f xs = sort_key f (filter P xs) @ sort_key f (filter (\<lambda>x. \<not> P x) xs)"
proof (rule properties_for_sort_key)
  show "mset (sort_key f (filter P xs) @ sort_key f (filter (\<lambda>x. \<not> P x) xs)) = mset xs" by simp
  show "sorted (map f (sort_key f (filter P xs) @ sort_key f (filter (\<lambda>x. \<not> P x) xs)))"
    using assms by (auto simp: sorted_append intro: less_imp_le)
next
  fix k
  assume "k \<in> set (sort_key f (filter P xs) @ sort_key f (filter (\<lambda>x. \<not> P x) xs))"
  then have k: "k \<in> set xs" by auto
  have stable: "filter (\<lambda>x. f k = f x) (sort_key f ys) = filter (\<lambda>x. f k = f x) ys" for ys
    using sort_key_stable [of f "f k" ys] by (simp add: eq_commute)
  have same: "P x = P k" if "x \<in> set xs" "f k = f x" for x using assms [of x k] assms [of k x] k that by auto
  have "filter (\<lambda>x. f k = f x) (filter P xs) @ filter (\<lambda>x. f k = f x) (filter (\<lambda>x. \<not> P x) xs) = filter (\<lambda>x. f k = f x) xs"
  proof (cases "P k")
    case True
    then have "filter (\<lambda>x. f k = f x) (filter P xs) = filter (\<lambda>x. f k = f x) xs" and "filter (\<lambda>x. f k = f x) (filter (\<lambda>x. \<not> P x) xs) = []"
      using same by (auto simp: filter_empty_conv intro!: filter_cong)
    then show ?thesis by simp
  next
    case False
    then have "filter (\<lambda>x. f k = f x) (filter (\<lambda>x. \<not> P x) xs) = filter (\<lambda>x. f k = f x) xs" and "filter (\<lambda>x. f k = f x) (filter P xs) = []"
      using same by (auto simp: filter_empty_conv intro!: filter_cong)
    then show ?thesis by simp
  qed
  then show "filter (\<lambda>x. f k = f x) (sort_key f (filter P xs) @ sort_key f (filter (\<lambda>x. \<not> P x) xs)) = filter (\<lambda>x. f k = f x) xs"
    using stable by simp
qed

lemma find_hit: "find P xs = Some y \<Longrightarrow> y \<in> set xs \<and> P y"
  by (auto simp: find_Some_iff)

lemma newest_known:
  assumes "distinct (map le_address incoming)" and "e \<in> set incoming" and "le_address e = le_address x"
  shows "newest incoming x = e"
proof (cases "find (\<lambda>y. le_address y = le_address x) incoming")
  case None
  then show ?thesis using assms(2,3) by (auto simp: find_None_iff)
next
  case (Some y)
  have "inj_on le_address (set incoming)" using assms(1) by (simp add: distinct_map)
  then have "y = e" by (rule inj_onD) (use find_hit [OF Some] assms(2,3) in simp_all)
  with Some show ?thesis by (simp add: newest_def)
qed

lemma newest_unknown: "le_address x \<notin> addresses incoming \<Longrightarrow> newest incoming x = x"
  by (simp add: newest_def find_miss)

lemma merge_key_known:
  "distinct (map le_address incoming) \<Longrightarrow> i < length incoming \<Longrightarrow> merge_key incoming (incoming ! i) = (0, int i)"
  by (simp add: merge_key_def rank_index_nth)

lemma merge_key_unknown: "le_address e \<notin> addresses incoming \<Longrightarrow> merge_key incoming e = (1, - le_totalTipsReceived e)"
  by (simp add: merge_key_def rank_index_None)

lemma merge_key_part:
  assumes "distinct (map le_address incoming)"
  shows "fst (merge_key incoming e) = (if le_address e \<in> addresses incoming then 0 else 1)"
proof (cases "le_address e \<in> addresses incoming")
  case True
  then obtain i where "i < length incoming" "le_address e = le_address (incoming ! i)" by (metis image_iff in_set_conv_nth)
  then show ?thesis using True by (simp add: merge_key_def rank_index_nth [OF assms])
qed (simp add: merge_key_unknown)

lemma ranks_sort:
  assumes "distinct (map le_address incoming)" and "mset xs = mset incoming"
  shows "sort_key (merge_key incoming) xs = incoming"
proof (rule sort_key_inj_key_eq)
  have keys: "map (merge_key incoming) incoming = map (\<lambda>i. (0, int i)) [0..<length incoming]"
    by (rule nth_equalityI) (simp_all add: merge_key_known [OF assms(1)])
  then show "sorted (map (merge_key incoming) incoming)" by (simp add: sorted_map sorted_wrt_iff_nth_less less_eq_prod_def)
  have "distinct (map (merge_key incoming) incoming)" unfolding keys by (simp add: distinct_map inj_on_def)
  moreover have "set xs = set incoming" using assms(2) by (metis set_mset_mset)
  ultimately show "inj_on (merge_key incoming) (set xs)" by (simp add: distinct_map)
qed (rule assms(2))

lemma tips_sort:
  assumes "\<And>e. e \<in> set es \<Longrightarrow> le_address e \<notin> addresses incoming"
  shows "sort_key (merge_key incoming) es = sort_key (\<lambda>e. - le_totalTipsReceived e) es"
proof (rule properties_for_sort_key)
  have key: "merge_key incoming e = (1, - le_totalTipsReceived e)" if "e \<in> set es" for e using merge_key_unknown assms that by blast
  let ?s = "sort_key (\<lambda>e. - le_totalTipsReceived e) es"
  show "mset ?s = mset es" by simp
  have "sorted (map (\<lambda>e. - le_totalTipsReceived e) ?s)" by simp
  then have "sorted_wrt (\<lambda>a b. - le_totalTipsReceived a \<le> - le_totalTipsReceived b) ?s" by (simp add: sorted_map)
  then have "sorted_wrt (\<lambda>a b. merge_key incoming a \<le> merge_key incoming b) ?s"
    by (rule sorted_wrt_mono_rel [rotated]) (simp add: key less_eq_prod_def)
  then show "sorted (map (merge_key incoming) ?s)" by (simp add: sorted_map)
  fix k assume "k \<in> set ?s"
  then have k: "k \<in> set es" by simp
  have "filter (\<lambda>x. merge_key incoming k = merge_key incoming x) ys = filter (\<lambda>x. - le_totalTipsReceived x = - le_totalTipsReceived k) ys"
    if "set ys \<subseteq> set es" for ys by (rule filter_cong) (use that k key in auto)
  from this [of ?s] this [of es] sort_key_stable [of "\<lambda>e. - le_totalTipsReceived e" "- le_totalTipsReceived k" es]
  show "filter (\<lambda>x. merge_key incoming k = merge_key incoming x) ?s = filter (\<lambda>x. merge_key incoming k = merge_key incoming x) es"
    by (metis order_refl set_sort)
qed

lemma merged_unknown:
  "filter (\<lambda>e. le_address e \<notin> addresses incoming) (map (newest incoming) previous @ filter (\<lambda>e. le_address e \<notin> addresses previous) incoming) =
   filter (\<lambda>e. le_address e \<notin> addresses incoming) previous"
proof -
  have "filter (\<lambda>e. le_address e \<notin> addresses incoming) (map (newest incoming) previous) = filter (\<lambda>e. le_address e \<notin> addresses incoming) previous"
    by (induction previous) (simp_all add: newest_unknown)
  then show ?thesis by (simp add: filter_empty_conv)
qed

lemma merged_known:
  assumes "distinct (map le_address previous)" and "distinct (map le_address incoming)"
  shows "mset (filter (\<lambda>e. le_address e \<in> addresses incoming) (map (newest incoming) previous @ filter (\<lambda>e. le_address e \<notin> addresses previous) incoming)) =
    mset incoming"
proof -
  let ?m = "map (newest incoming) previous @ filter (\<lambda>e. le_address e \<notin> addresses previous) incoming"
  have "map le_address ?m = map le_address previous @ map le_address (filter (\<lambda>e. le_address e \<notin> addresses previous) incoming)"
    by simp
  moreover have "distinct \<dots>"
    unfolding distinct_append by (intro conjI distinct_map_filter assms) (auto simp: disjoint_iff, metis image_eqI)
  ultimately have "distinct (map le_address ?m)" by metis
  then have "distinct ?m" using distinct_map [of le_address ?m] by blast
  then have "distinct (filter (\<lambda>e. le_address e \<in> addresses incoming) ?m)" by (rule distinct_filter)
  moreover have "distinct incoming" using assms(2) by (simp add: distinct_map)
  moreover have "set (filter (\<lambda>e. le_address e \<in> addresses incoming) ?m) = set incoming"
  proof -
    have "newest incoming x \<in> set incoming" if x: "le_address x \<in> addresses incoming" for x
    proof -
      obtain e where e: "e \<in> set incoming" "le_address x = le_address e" using x by blast
      with newest_known [OF assms(2) e(1), of x] show ?thesis by simp
    qed
    moreover have "e \<in> newest incoming ` set previous" if e: "e \<in> set incoming" "le_address e \<in> addresses previous" for e
    proof -
      obtain x where "x \<in> set previous" "le_address e = le_address x" using e(2) by blast
      with newest_known [OF assms(2) e(1)] show ?thesis by (metis image_eqI)
    qed
    ultimately show ?thesis by auto
  qed
  ultimately show ?thesis using set_eq_iff_mset_eq_distinct by blast
qed

text \<open>A refresh of the leaderboard shows the new entries first and in their order, then the earlier entries it does not mention by
  their tips downwards, whether or not the board still has them.\<close>

theorem merged_leaderboard:
  assumes "distinct (map le_address previous)" and "distinct (map le_address incoming)"
  shows "mergeLeaderboardEntries previous incoming = (if incoming = [] then previous
     else incoming @ sort_key (\<lambda>e. - le_totalTipsReceived e) (filter (\<lambda>e. le_address e \<notin> addresses incoming) previous))"
proof (cases "incoming = [] \<or> previous = []")
  case True
  then show ?thesis by (auto simp: mergeLeaderboardEntries_def)
next
  case False
  define kept where "kept = filter (\<lambda>e. le_address e \<notin> addresses incoming) previous"
  define merged where "merged = map (newest incoming) previous @ filter (\<lambda>e. le_address e \<notin> addresses previous) incoming"
  have empty: "entry_pairs [] = []" by (simp add: entry_pairs_def)
  have "map_of_entries previous [] = entry_pairs previous"
    using map_of_entries_pairs [of "[]" previous] assms(1) by (simp add: empty)
  then have "map snd (map_of_entries incoming (map_of_entries previous [])) = merged"
    using map_of_entries_pairs [OF assms] by (simp add: merged_def entry_pairs_def comp_def)
  then have merge: "mergeLeaderboardEntries previous incoming = sort_key (merge_key incoming) merged"
    using False by (simp add: mergeLeaderboardEntries_def)
  have known: "mset (filter (\<lambda>e. le_address e \<in> addresses incoming) merged) = mset incoming"
    using merged_known [OF assms] unfolding merged_def .
  have unknown: "filter (\<lambda>e. le_address e \<notin> addresses incoming) merged = kept"
    unfolding merged_def kept_def using merged_unknown .
  have "sort_key (merge_key incoming) merged =
      sort_key (merge_key incoming) (filter (\<lambda>e. le_address e \<in> addresses incoming) merged) @ sort_key (merge_key incoming) kept"
    unfolding unknown [symmetric] by (rule sort_key_split) (simp add: less_prod_def merge_key_part [OF assms(2)])
  also have "sort_key (merge_key incoming) (filter (\<lambda>e. le_address e \<in> addresses incoming) merged) = incoming"
    using ranks_sort [OF assms(2) known] .
  also have "sort_key (merge_key incoming) kept = sort_key (\<lambda>e. - le_totalTipsReceived e) kept"
    by (rule tips_sort) (simp add: kept_def)
  finally show ?thesis using False merge by (simp add: kept_def)
qed

definition board_entry :: "string \<Rightarrow> int \<Rightarrow> LeaderboardEntry" where
  "board_entry a n = \<lparr>le_address = a, le_username = a, le_totalTipsReceived = n, le_creditScore = 40\<rparr>"

lemma merged_leaderboard_witness:
  "mergeLeaderboardEntries [board_entry ''A'' 10, board_entry ''B'' 5, board_entry ''C'' 20] [board_entry ''B'' 30] =
     [board_entry ''B'' 30, board_entry ''C'' 20, board_entry ''A'' 10]"
  using merged_leaderboard [of "[board_entry ''A'' 10, board_entry ''B'' 5, board_entry ''C'' 20]" "[board_entry ''B'' 30]"]
  by (simp add: board_entry_def)

end
