(* ===== verification/Analytics.thy ===== *)
theory Analytics
  imports Concurrency "HOL-Library.Multiset"
begin

text \<open>
  Analytics (\<open>backend/src/modules/analytics/analytics.service.ts\<close>) and platform numbers (\<open>modules/stats/stats.service.ts\<close>):
  the daily rows, the series bucketed by day, week or month, the figures of one creator. The server's time zone is UTC; dates of a
  request are given as times. Equal totals are ranked in the order of the store.
\<close>

section \<open>Buckets\<close>

definition week_start :: "int \<Rightarrow> int" where
  "week_start t = t - ((t div DAY_MS + 4) mod 7) * DAY_MS"

definition month_key :: "int \<Rightarrow> string" where
  "month_key t = (case civil_date (t div DAY_MS) of (y, m, dd) \<Rightarrow> show_int y @ ''-'' @ pad_left 2 (show_int m))"

definition bucket_key :: "string \<Rightarrow> int \<Rightarrow> string" where
  "bucket_key granularity t =
     (if granularity = ''week'' then iso_day (week_start t) else if granularity = ''month'' then month_key t else iso_day t)"

text \<open>
  A map filled in a loop: a row goes to the entry of its key, which is made from \<open>zero\<close> when the key is new. Keys keep the order of
  their first row.
\<close>

definition tally_one :: "('r \<Rightarrow> 'k) \<Rightarrow> ('r \<Rightarrow> 'v \<Rightarrow> 'v) \<Rightarrow> 'v \<Rightarrow> 'r \<Rightarrow> ('k \<times> 'v) list \<Rightarrow> ('k \<times> 'v) list" where
  "tally_one key add zero r bs =
     (if key r \<in> fst ` set bs then map (\<lambda>(k, v). (k, if k = key r then add r v else v)) bs else bs @ [(key r, add r zero)])"

definition tally :: "('r \<Rightarrow> 'k) \<Rightarrow> ('r \<Rightarrow> 'v \<Rightarrow> 'v) \<Rightarrow> 'v \<Rightarrow> 'r list \<Rightarrow> ('k \<times> 'v) list" where
  "tally key add zero rows = fold (tally_one key add zero) rows []"

definition firsts :: "'a list \<Rightarrow> 'a list" where
  "firsts xs = rev (remdups (rev xs))"

lemma firsts_facts [simp]: "set (firsts xs) = set xs" "distinct (firsts xs)"
  by (simp_all add: firsts_def)

lemma firsts_snoc: "firsts (xs @ [x]) = (if x \<in> set xs then firsts xs else firsts xs @ [x])"
  by (simp add: firsts_def)

lemma tally_groups:
  "tally key add zero rows = map (\<lambda>k. (k, fold add (filter (\<lambda>r. key r = k) rows) zero)) (firsts (map key rows))"
proof (induction rows rule: rev_induct)
  case Nil
  show ?case by (simp add: tally_def firsts_def)
next
  case (snoc r rows)
  have run: "tally key add zero (rows @ [r]) = tally_one key add zero r (tally key add zero rows)" by (simp add: tally_def)
  have keys: "fst ` set (tally key add zero rows) = key ` set rows" by (simp add: snoc image_image)
  show ?case
  proof (cases "key r \<in> key ` set rows")
    case True
    then have "firsts (map key (rows @ [r])) = firsts (map key rows)" by (simp add: firsts_snoc)
    with True keys show ?thesis unfolding run by (simp add: tally_one_def snoc)
  next
    case False
    have none: "filter (\<lambda>x. key x = key r) rows = []" using False by (auto simp: filter_empty_conv image_iff)
    have firsts: "firsts (map key (rows @ [r])) = firsts (map key rows) @ [key r]" using False by (simp add: firsts_snoc)
    have old: "k \<noteq> key r" if "k \<in> set (firsts (map key rows))" for k using that False by (auto simp: image_iff)
    show ?thesis
      unfolding run firsts using False keys none old by (auto simp: tally_one_def snoc)
  qed
qed

lemma tally_keys: "map fst (tally key add zero rows) = firsts (map key rows)"
  by (simp add: tally_groups comp_def)

text \<open>The sums of the buckets are a sum over all rows.\<close>

lemma tally_sum:
  assumes "\<And>r v. (f (add r v) :: int) = g r + f v" and "f zero = 0"
  shows "sum_list (map (\<lambda>b. f (snd b)) (tally key add zero rows)) = sum_list (map g rows)"
proof -
  have fold: "f (fold add rs v) = sum_list (map g rs) + f v" for rs v
    by (induction rs arbitrary: v) (simp_all add: assms(1))
  have one: "sum_list (map (\<lambda>b. f (snd b)) (tally_one key add zero r bs)) = sum_list (map (\<lambda>b. f (snd b)) bs) + g r"
    if "distinct (map fst bs)" for r bs
  proof (cases "key r \<in> fst ` set bs")
    case True
    have "sum_list (map (\<lambda>b. f (snd b)) (map (\<lambda>(k, v). (k, if k = c then add r v else v)) bs)) =
        sum_list (map (\<lambda>b. f (snd b)) bs) + (if c \<in> fst ` set bs then g r else 0)" for c
      using that
    proof (induction bs)
      case (Cons b bs)
      then show ?case by (cases b) (auto simp: assms(1))
    qed simp
    with True show ?thesis by (simp add: tally_one_def)
  qed (simp add: tally_one_def assms)
  show ?thesis
  proof (induction rows rule: rev_induct)
    case (snoc r rows)
    have "distinct (map fst (tally key add zero rows))" by (simp add: tally_keys)
    from one [OF this] snoc show ?case by (simp add: tally_def)
  qed (simp add: tally_def)
qed

section \<open>Daily rows\<close>

definition in_dates :: "int option \<Rightarrow> int option \<Rightarrow> int \<Rightarrow> bool" where
  "in_dates s e t \<longleftrightarrow> (case s of None \<Rightarrow> True | Some a \<Rightarrow> a \<le> t) \<and> (case e of None \<Rightarrow> True | Some b \<Rightarrow> t \<le> b)"

record AnalyticsDailyEntry =
  ae_date :: string
  ae_totalTips :: int
  ae_totalVolume :: string
  ae_newUsers :: int
  ae_activeUsers :: int

definition daily_entry :: "analytics_row \<Rightarrow> AnalyticsDailyEntry" where
  "daily_entry r = \<lparr>ae_date = iso_day (an_date r), ae_totalTips = an_tips r, ae_totalVolume = show_int (an_volume r),
     ae_newUsers = an_newUsers r, ae_activeUsers = an_activeUsers r\<rparr>"

record AnalyticsDailyResponse =
  ar_data :: "AnalyticsDailyEntry list"
  ar_limit :: nat
  ar_offset :: nat
  ar_total :: nat
  ar_hasMore :: bool

definition getDailyAnalytics :: "int option \<Rightarrow> int option \<Rightarrow> nat \<Rightarrow> nat \<Rightarrow> AnalyticsDailyResponse dbio" where
  "getDailyAnalytics startDate endDate limit offset =
     bnd (gets (\<lambda>d. filter (\<lambda>r. in_dates startDate endDate (an_date r)) (analytics d))) (\<lambda>found.
     (let rows = take limit (drop offset (order_desc an_date found))
      in ret \<lparr>ar_data = map daily_entry rows, ar_limit = limit, ar_offset = offset, ar_total = length found,
        ar_hasMore = (offset + length rows < length found)\<rparr>))"

record AnalyticsSummary =
  as_totalTips :: int
  as_totalVolume :: string
  as_totalNewUsers :: int
  as_totalActiveUsers :: int
  as_start :: "int option"
  as_end :: "int option"

definition getAnalyticsSummary :: "int option \<Rightarrow> int option \<Rightarrow> AnalyticsSummary dbio" where
  "getAnalyticsSummary startDate endDate =
     bnd (gets (\<lambda>d. filter (\<lambda>r. in_dates startDate endDate (an_date r)) (analytics d))) (\<lambda>rows.
     ret \<lparr>as_totalTips = sum_list (map an_tips rows), as_totalVolume = show_int (sum_list (map an_volume rows)),
       as_totalNewUsers = sum_list (map an_newUsers rows), as_totalActiveUsers = sum_list (map an_activeUsers rows),
       as_start = startDate, as_end = endDate\<rparr>)"

definition MONTH_MS :: int where
  "MONTH_MS = 30 * 24 * 60 * 60 * 1000"

definition period_of :: "int \<Rightarrow> int option \<Rightarrow> int option \<Rightarrow> int \<times> int" where
  "period_of now startDate endDate =
     (case startDate of Some s \<Rightarrow> s | None \<Rightarrow> now - MONTH_MS, case endDate of Some e \<Rightarrow> e | None \<Rightarrow> now)"

section \<open>Series\<close>

definition confirmed_in :: "int \<Rightarrow> int \<Rightarrow> tip_row \<Rightarrow> bool" where
  "confirmed_in s e t \<longleftrightarrow> s \<le> tip_createdAt t \<and> tip_createdAt t \<le> e \<and> tip_status t = CONFIRMED"

definition add_volume :: "tip_row \<Rightarrow> int \<times> int \<Rightarrow> int \<times> int" where
  "add_volume t b = (fst b + tip_amount t, snd b + 1)"

record TipVolumeEntry =
  tv_date :: string
  tv_totalTips :: string
  tv_count :: int

record TipVolumeResponse =
  tr_entries :: "TipVolumeEntry list"
  tr_granularity :: string
  tr_startDate :: string
  tr_endDate :: string

definition volume_buckets :: "string \<Rightarrow> tip_row list \<Rightarrow> (string \<times> int \<times> int) list" where
  "volume_buckets granularity = tally (\<lambda>t. bucket_key granularity (tip_createdAt t)) add_volume (0, 0)"

definition getTipVolume :: "int \<Rightarrow> string \<Rightarrow> int option \<Rightarrow> int option \<Rightarrow> TipVolumeResponse dbio" where
  "getTipVolume now granularity startDate endDate = (case period_of now startDate endDate of (s, e) \<Rightarrow>
     bnd (gets (\<lambda>d. sort_key tip_createdAt (filter (confirmed_in s e) (tips d)))) (\<lambda>found.
     ret \<lparr>tr_entries = map (\<lambda>(k, b). \<lparr>tv_date = k, tv_totalTips = show_int (fst b), tv_count = snd b\<rparr>) (volume_buckets granularity found),
       tr_granularity = granularity, tr_startDate = iso_string s, tr_endDate = iso_string e\<rparr>))"

definition getActiveUsers :: "int \<Rightarrow> string \<Rightarrow> int option \<Rightarrow> int option \<Rightarrow> ((string \<times> int) list \<times> string \<times> string \<times> string) dbio" where
  "getActiveUsers now granularity startDate endDate = (case period_of now startDate endDate of (s, e) \<Rightarrow>
     bnd (gets (\<lambda>d. sort_key an_date (filter (\<lambda>r. s \<le> an_date r \<and> an_date r \<le> e) (analytics d)))) (\<lambda>rows.
     ret (tally (\<lambda>r. bucket_key granularity (an_date r)) (\<lambda>r n. n + an_activeUsers r) 0 rows, granularity, iso_string s, iso_string e)))"

record TopTipperEntry =
  tt_userId :: string
  tt_stellarAddress :: string
  tt_username :: "string option"
  tt_displayName :: "string option"
  tt_totalTipsStroops :: string
  tt_tipCount :: int

definition tipper_entry :: "db \<Rightarrow> string \<times> int \<times> int \<Rightarrow> TopTipperEntry" where
  "tipper_entry d row = (let user = user_by_address (fst row) d in
     \<lparr>tt_userId = (case user of None \<Rightarrow> [] | Some u \<Rightarrow> u_id u), tt_stellarAddress = fst row,
      tt_username = (case user of None \<Rightarrow> None | Some u \<Rightarrow> u_username u),
      tt_displayName = (case user of None \<Rightarrow> None | Some u \<Rightarrow> u_displayName u),
      tt_totalTipsStroops = show_int (fst (snd row)), tt_tipCount = snd (snd row)\<rparr>)"

text \<open>\<open>groupBy\<close> over all tips, whatever their status.\<close>

definition by_sender :: "tip_row list \<Rightarrow> (string \<times> int \<times> int) list" where
  "by_sender = tally tip_from add_volume (0, 0)"

definition getTopTippers :: "nat \<Rightarrow> nat \<Rightarrow> (TopTipperEntry list \<times> nat \<times> nat \<times> nat) dbio" where
  "getTopTippers page limit =
     bnd (gets (\<lambda>d. take limit (drop ((page - 1) * limit) (order_desc (\<lambda>row. fst (snd row)) (by_sender (tips d)))))) (\<lambda>grouped.
     bnd (gets (\<lambda>d. length (by_sender (tips d)))) (\<lambda>amount.
     bnd (gets (\<lambda>d. map (tipper_entry d) grouped)) (\<lambda>entries. ret (entries, amount, page, limit))))"

section \<open>The daily job\<close>

text \<open>The rows of a day: confirmed tips, accounts made on it, and the addresses that sent or received one.\<close>

definition on_day :: "int \<Rightarrow> int \<Rightarrow> bool" where
  "on_day day t \<longleftrightarrow> day \<le> t \<and> t \<le> day + (DAY_MS - 1)"

definition day_row :: "int \<Rightarrow> db \<Rightarrow> analytics_row" where
  "day_row day d =
     (let found = filter (\<lambda>t. on_day day (tip_createdAt t) \<and> tip_status t = CONFIRMED) (tips d)
      in \<lparr>an_date = day, an_tips = int (length found), an_volume = sum_list (map tip_amount found),
          an_newUsers = int (length (filter (\<lambda>u. on_day day (u_createdAt u) \<and> u_deletedAt u = None) (users d))),
          an_activeUsers = int (length (remdups (remdups (map tip_from found) @ remdups (map tip_to found)))), an_version = 0\<rparr>)"

definition computeDailyAnalytics :: "int \<Rightarrow> AnalyticsDailyEntry dbio" where
  "computeDailyAnalytics day =
     bnd (gets (day_row day)) (\<lambda>row.
     andthen (modify (\<lambda>d. d\<lparr>analytics := upsert_row an_date day row
        (\<lambda>a. a\<lparr>an_tips := an_tips row, an_volume := an_volume row, an_newUsers := an_newUsers row, an_activeUsers := an_activeUsers row\<rparr>)
        (analytics d)\<rparr>))
     (bnd (gets (\<lambda>d. find_by an_date day (analytics d))) (\<lambda>upserted.
       ret (daily_entry (case upserted of None \<Rightarrow> row | Some a \<Rightarrow> a)))))"

section \<open>One creator\<close>

record CreatorSummary =
  cs_totalTipsReceived :: int
  cs_totalVolumeReceived :: string
  cs_uniqueTippers :: int
  cs_averageTipSize :: string
  cs_firstTipDate :: "string option"
  cs_lastTipDate :: "string option"

definition volume :: "tip_row list \<Rightarrow> int" where
  "volume ts = sum_list (map tip_amount ts)"

definition creator_summary :: "tip_row list \<Rightarrow> CreatorSummary" where
  "creator_summary ts = \<lparr>cs_totalTipsReceived = int (length ts), cs_totalVolumeReceived = show_int (volume ts),
     cs_uniqueTippers = int (length (remdups (map tip_from ts))),
     cs_averageTipSize = (if ts \<noteq> [] then show_int (volume ts div int (length ts)) else ''0''),
     cs_firstTipDate = (if ts \<noteq> [] then Some (iso_day (tip_createdAt (hd ts))) else None),
     cs_lastTipDate = (if ts \<noteq> [] then Some (iso_day (tip_createdAt (last ts))) else None)\<rparr>"

record creator_bucket =
  cb_totalStroops :: int
  cb_count :: int
  cb_tippers :: "string list"

definition add_creator :: "tip_row \<Rightarrow> creator_bucket \<Rightarrow> creator_bucket" where
  "add_creator t b = \<lparr>cb_totalStroops = cb_totalStroops b + tip_amount t, cb_count = cb_count b + 1,
     cb_tippers = List.insert (tip_from t) (cb_tippers b)\<rparr>"

definition creator_buckets :: "string \<Rightarrow> tip_row list \<Rightarrow> (string \<times> creator_bucket) list" where
  "creator_buckets granularity = tally (\<lambda>t. bucket_key granularity (tip_createdAt t)) add_creator \<lparr>cb_totalStroops = 0, cb_count = 0, cb_tippers = []\<rparr>"

record CreatorEntry =
  ce_date :: string
  ce_totalTips :: int
  ce_totalVolume :: string
  ce_uniqueTippers :: int

record CreatorAnalytics =
  ca_summary :: CreatorSummary
  ca_timeSeries :: "CreatorEntry list"
  ca_topTippers :: "TopTipperEntry list"
  ca_granularity :: string
  ca_start :: "int option"
  ca_end :: "int option"

definition creator_series :: "string \<Rightarrow> tip_row list \<Rightarrow> CreatorEntry list" where
  "creator_series granularity ts = map (\<lambda>(k, b). \<lparr>ce_date = k, ce_totalTips = cb_count b, ce_totalVolume = show_int (cb_totalStroops b),
     ce_uniqueTippers = int (length (cb_tippers b))\<rparr>) (creator_buckets granularity ts)"

definition getCreatorAnalytics :: "int \<Rightarrow> string \<Rightarrow> int option \<Rightarrow> int option \<Rightarrow> string \<Rightarrow> CreatorAnalytics dbio" where
  "getCreatorAnalytics now username startDate endDate granularity =
     bnd (gets (live_user (\<lambda>u. u_username u = Some username))) (\<lambda>found.
     bnd (require found (not_found ''Creator not found'')) (\<lambda>user.
     (case period_of now startDate endDate of (s, e) \<Rightarrow>
       bnd (gets (\<lambda>d. sort_key tip_createdAt (filter (\<lambda>t. tip_to t = u_address user \<and> confirmed_in s e t) (tips d)))) (\<lambda>ts.
       bnd (gets (\<lambda>d. map (tipper_entry d) (take 10 (order_desc (\<lambda>row. fst (snd row)) (by_sender ts))))) (\<lambda>tippers.
         ret \<lparr>ca_summary = creator_summary ts, ca_timeSeries = creator_series granularity ts, ca_topTippers = tippers,
           ca_granularity = granularity, ca_start = startDate, ca_end = endDate\<rparr>)))))"

section \<open>Platform numbers\<close>

record PlatformStatsResponse =
  pr_totalTips :: "int option"
  pr_totalVolumeStroops :: "string option"
  pr_creatorCount :: "int option"
  pr_tips24h :: "int option"
  pr_volume24h :: "string option"
  pr_generatedAt :: string
  pr_stale :: bool

definition activeCreatorWhere :: "db \<Rightarrow> user_row \<Rightarrow> bool" where
  "activeCreatorWhere d u \<longleftrightarrow> u_deletedAt u = None \<and> u_deactivatedAt u = None \<and> u_blockedAt u = None \<and> \<not> u_flagged u \<and>
     exists_row (\<lambda>t. tip_recipientId t = Some (u_id u) \<and> tip_status t = CONFIRMED) (tips d)"

definition computePlatformStats :: "int \<Rightarrow> PlatformStatsResponse dbio" where
  "computePlatformStats now =
     bnd (gets (\<lambda>d. let every = (\<lambda>t. tip_status t = CONFIRMED);
                       recent = (\<lambda>t. tip_status t = CONFIRMED \<and> now - 24 * 60 * 60 * 1000 \<le> tip_createdAt t)
        in \<lparr>pr_totalTips = Some (int (count_rows every (tips d))), pr_totalVolumeStroops = Some (show_int (sum_rows every tip_amount (tips d))),
            pr_creatorCount = Some (int (count_rows (activeCreatorWhere d) (users d))),
            pr_tips24h = Some (int (count_rows recent (tips d))), pr_volume24h = Some (show_int (sum_rows recent tip_amount (tips d))),
            pr_generatedAt = iso_string now, pr_stale = False\<rparr>)) ret"

text \<open>The cached value, if any, and what the store answers: a failure gives a stale answer without numbers.\<close>

definition getPlatformStats :: "int \<Rightarrow> PlatformStatsResponse dbio \<Rightarrow> PlatformStatsResponse option \<Rightarrow> (PlatformStatsResponse \<times> PlatformStatsResponse option) dbio" where
  "getPlatformStats now compute cached = (case cached of
       Some s \<Rightarrow> ret (s, cached)
     | None \<Rightarrow> try_catch (bnd compute (\<lambda>computed. ret (computed, Some computed)))
         (\<lambda>e. ret (\<lparr>pr_totalTips = None, pr_totalVolumeStroops = None, pr_creatorCount = None, pr_tips24h = None, pr_volume24h = None,
            pr_generatedAt = iso_string now, pr_stale = True\<rparr>, None)))"

section \<open>What the numbers mean\<close>

lemma volume_entry: "(\<lambda>b. (fst b, fst (snd b), snd (snd b))) = (\<lambda>b. b)"
  by auto

lemma fold_volume: "fold add_volume ts b = (fst b + volume ts, snd b + int (length ts))"
  by (induction ts arbitrary: b) (simp_all add: add_volume_def volume_def)

lemma volume_groups:
  "volume_buckets granularity ts = map (\<lambda>k. let g = filter (\<lambda>t. bucket_key granularity (tip_createdAt t) = k) ts in (k, volume g, int (length g)))
     (firsts (map (\<lambda>t. bucket_key granularity (tip_createdAt t)) ts))"
  by (simp add: volume_buckets_def tally_groups fold_volume Let_def)

text \<open>What an entry should hold: the sum and the number of the tips with its key, and at least one.\<close>

definition bucket_exact :: "string \<Rightarrow> tip_row list \<Rightarrow> string \<times> int \<times> int \<Rightarrow> bool" where
  "bucket_exact granularity ts b = (let g = filter (\<lambda>t. bucket_key granularity (tip_createdAt t) = fst b) ts
     in g \<noteq> [] \<and> snd b = (volume g, int (length g)))"

text \<open>
  Every confirmed tip of the period is counted in exactly one entry of the series, that of its day, week or month: each entry holds
  the number and the sum of the tips with its key, no key comes twice, and the entries add up to all of them.
\<close>

theorem volume_series_partitions:
  "case period_of now startDate endDate of (s, e) \<Rightarrow>
    (let ts = filter (confirmed_in s e) (tips d); bs = volume_buckets granularity (sort_key tip_createdAt ts)
     in fst (getTipVolume now granularity startDate endDate d) =
          Inr \<lparr>tr_entries = map (\<lambda>(k, b). \<lparr>tv_date = k, tv_totalTips = show_int (fst b), tv_count = snd b\<rparr>) bs,
            tr_granularity = granularity, tr_startDate = iso_string s, tr_endDate = iso_string e\<rparr> \<and>
        distinct (map fst bs) \<and>
        list_all (bucket_exact granularity ts) bs \<and>
        sum_list (map (\<lambda>b. fst (snd b)) bs) = volume ts \<and> sum_list (map (\<lambda>b. snd (snd b)) bs) = int (length ts))"
proof (cases "period_of now startDate endDate")
  case (Pair s e)
  define ts where "ts = filter (confirmed_in s e) (tips d)"
  define so where "so = sort_key tip_createdAt ts"
  have perm: "volume (sort_key tip_createdAt us) = volume us" "length (sort_key tip_createdAt us) = length us" for us
    unfolding volume_def by (metis mset_map mset_sort sum_mset_sum_list) simp
  have flt: "filter P so = sort_key tip_createdAt (filter P ts)" for P by (simp add: so_def filter_sort)
  have run: "fst (getTipVolume now granularity startDate endDate d) =
      Inr \<lparr>tr_entries = map (\<lambda>(k, b). \<lparr>tv_date = k, tv_totalTips = show_int (fst b), tv_count = snd b\<rparr>) (volume_buckets granularity so),
        tr_granularity = granularity, tr_startDate = iso_string s, tr_endDate = iso_string e\<rparr>"
    by (simp add: getTipVolume_def Pair so_def ts_def ret_def)
  have keys: "distinct (map fst (volume_buckets granularity so))"
    by (simp add: volume_buckets_def tally_keys)
  have each: "list_all (bucket_exact granularity ts) (volume_buckets granularity so)"
    unfolding volume_groups flt by (auto simp: bucket_exact_def list_all_iff Let_def perm so_def filter_empty_conv)
  have vol: "sum_list (map (\<lambda>b. fst (snd b)) (volume_buckets granularity so)) = volume so"
    unfolding volume_buckets_def volume_def by (rule tally_sum [where f = fst and g = tip_amount]) (simp_all add: add_volume_def)
  have cnt: "sum_list (map (\<lambda>b. snd (snd b)) (volume_buckets granularity so)) = int (length so)"
    unfolding volume_buckets_def using tally_sum [where f = snd and g = "\<lambda>_. 1" and add = add_volume and zero = "(0, 0)"]
    by (simp add: add_volume_def sum_list_triv)
  show ?thesis
    using run keys each vol cnt perm by (simp add: Pair Let_def so_def [symmetric] ts_def [symmetric]) (simp add: so_def)
qed

lemma daily_run:
  "computeDailyAnalytics day d = (Inr (daily_entry (case find_by an_date day (analytics d) of None \<Rightarrow> day_row day d
       | Some a \<Rightarrow> a\<lparr>an_tips := an_tips (day_row day d), an_volume := an_volume (day_row day d),
           an_newUsers := an_newUsers (day_row day d), an_activeUsers := an_activeUsers (day_row day d)\<rparr>)),
     d\<lparr>analytics := upsert_row an_date day (day_row day d) (\<lambda>a. a\<lparr>an_tips := an_tips (day_row day d), an_volume := an_volume (day_row day d),
        an_newUsers := an_newUsers (day_row day d), an_activeUsers := an_activeUsers (day_row day d)\<rparr>) (analytics d)\<rparr>)"
proof -
  have "an_date (day_row day d) = day" by (simp add: day_row_def Let_def)
  then show ?thesis
    by (simp add: computeDailyAnalytics_def analytics_by_day.lookup_upsert_same ret_def)
qed

lemma day_row_frame [simp]: "day_row day (d\<lparr>analytics := x\<rparr>) = day_row day d"
  by (simp add: day_row_def)

text \<open>
  The job of a day can run any number of times: running it again leaves the table as it was, and answers the same. The row it leaves
  holds the figures of the day, whatever was there before, and there is one; the rows of the other days stay.
\<close>

theorem daily_job_idempotent:
  assumes "unique_by an_date (analytics d)"
  shows "let d' = snd (computeDailyAnalytics day d) in
    computeDailyAnalytics day d' = (fst (computeDailyAnalytics day d), d') \<and> unique_by an_date (analytics d') \<and>
    map_option (\<lambda>a. a\<lparr>an_version := 0\<rparr>) (find_by an_date day (analytics d')) = Some (day_row day d) \<and>
    (day' = day \<or> find_by an_date day' (analytics d') = find_by an_date day' (analytics d))"
proof -
  define new where "new = day_row day d"
  define f where "f = (\<lambda>a :: analytics_row. a\<lparr>an_tips := an_tips new, an_volume := an_volume new, an_newUsers := an_newUsers new, an_activeUsers := an_activeUsers new\<rparr>)"
  define rows where "rows = upsert_row an_date day new f (analytics d)"
  have k: "an_date new = day" "an_date (f r) = an_date r" "f new = new" "f (f r) = f r" for r
    by (simp_all add: new_def f_def day_row_def Let_def)
  have run: "computeDailyAnalytics day e = (Inr (daily_entry (case find_by an_date day (analytics e) of None \<Rightarrow> new | Some a \<Rightarrow> f a)),
      e\<lparr>analytics := upsert_row an_date day new f (analytics e)\<rparr>)" if "day_row day e = new" for e
    unfolding daily_run that f_def by (rule refl)
  have found: "find_by an_date day rows = Some (case find_by an_date day (analytics d) of None \<Rightarrow> new | Some a \<Rightarrow> f a)"
    unfolding rows_def by (rule analytics_by_day.lookup_upsert_same) (simp_all add: k)
  have once: "upsert_row an_date day new f rows = rows"
    unfolding rows_def by (rule analytics_by_day.upsert_twice) (simp_all add: k)
  have one: "unique_by an_date rows"
    unfolding rows_def by (rule analytics_by_day.upsert_unique) (simp_all add: k assms)
  have other: "day' \<noteq> day \<Longrightarrow> find_by an_date day' rows = find_by an_date day' (analytics d)"
    unfolding rows_def by (rule analytics_by_day.lookup_upsert_other) (simp_all add: k)
  have figures: "(f a)\<lparr>an_version := 0\<rparr> = new" if "find_by an_date day (analytics d) = Some a" for a
    using that by (auto simp: f_def new_def day_row_def Let_def dest: find_by_Some)
  have same: "(case find_by an_date day rows of None \<Rightarrow> new | Some a \<Rightarrow> f a) = (case find_by an_date day (analytics d) of None \<Rightarrow> new | Some a \<Rightarrow> f a)"
    by (simp add: found k split: option.split)
  have "new\<lparr>an_version := 0\<rparr> = new" by (simp add: new_def day_row_def Let_def)
  with figures have "map_option (\<lambda>a. a\<lparr>an_version := 0\<rparr>) (find_by an_date day rows) = Some new"
    by (simp add: found split: option.split)
  moreover have "day_row day (d\<lparr>analytics := rows\<rparr>) = new" by (simp add: new_def)
  ultimately show ?thesis
    using run [of d] run [of "d\<lparr>analytics := rows\<rparr>"] once one other same by (auto simp: Let_def new_def [symmetric] rows_def [symmetric])
qed

section \<open>Creators and tippers\<close>

lemma creator_bucket_groups:
  "fold add_creator ts b = \<lparr>cb_totalStroops = cb_totalStroops b + volume ts, cb_count = cb_count b + int (length ts),
     cb_tippers = fold (\<lambda>t. List.insert (tip_from t)) ts (cb_tippers b)\<rparr>"
  by (induction ts arbitrary: b) (simp_all add: add_creator_def volume_def)

text \<open>The series of a creator adds up to the summary.\<close>

lemma creator_series_adds_up:
  "sum_list (map (\<lambda>b. cb_totalStroops (snd b)) (creator_buckets granularity ts)) = volume ts"
  "sum_list (map (\<lambda>b. cb_count (snd b)) (creator_buckets granularity ts)) = cs_totalTipsReceived (creator_summary ts)"
  unfolding creator_buckets_def volume_def
  using tally_sum [where f = cb_totalStroops and g = tip_amount and add = add_creator and zero = "\<lparr>cb_totalStroops = 0, cb_count = 0, cb_tippers = []\<rparr>"]
    tally_sum [where f = cb_count and g = "\<lambda>_. 1" and add = add_creator and zero = "\<lparr>cb_totalStroops = 0, cb_count = 0, cb_tippers = []\<rparr>"]
  by (simp_all add: add_creator_def creator_summary_def sum_list_triv)

text \<open>
  The ranking of tippers counts tips of every status: one that is only reported, or was refunded, raises its sender's total.
\<close>

lemma unconfirmed_tip_ranks:
  assumes "tip_from t = a" and "a \<notin> tip_from ` set (tips d)"
  shows "(a, tip_amount t, 1) \<in> set (by_sender (tips d @ [t]))"
proof -
  have "filter (\<lambda>x. tip_from x = a) (tips d) = []" using assms(2) by (auto simp: filter_empty_conv image_iff)
  with assms show ?thesis by (auto simp: by_sender_def tally_groups fold_volume image_iff volume_def)
qed

section \<open>Examples\<close>

definition sample_tip_row :: tip_row where
  "sample_tip_row = \<lparr>tip_id = ''t'', tip_txHash = ''h'', tip_ledger = 1, tip_from = ''GA'', tip_to = ''GB'', tip_amount = 70, tip_message = None,
     tip_status = CONFIRMED, tip_createdAt = 86400005, tip_networkFee = 100, tip_tokenCode = ''XLM'', tip_recipientId = None\<rparr>"

definition sample_day :: db where
  "sample_day = empty_db\<lparr>tips := [sample_tip_row], analytics := [\<lparr>an_date = 0, an_tips = 1, an_volume = 5, an_newUsers = 0,
     an_activeUsers = 2, an_version = 0\<rparr>, \<lparr>an_date = 86400000, an_tips = 9, an_volume = 9, an_newUsers = 9, an_activeUsers = 9, an_version = 4\<rparr>]\<rparr>"

lemma daily_job_idempotent_witness:
  "let d' = snd (computeDailyAnalytics 86400000 sample_day) in
    computeDailyAnalytics 86400000 d' = (fst (computeDailyAnalytics 86400000 sample_day), d') \<and> unique_by an_date (analytics d') \<and>
    map_option (\<lambda>a. a\<lparr>an_version := 0\<rparr>) (find_by an_date 86400000 (analytics d')) = Some (day_row 86400000 sample_day) \<and>
    (0 = (86400000 :: int) \<or> find_by an_date 0 (analytics d') = find_by an_date 0 (analytics sample_day))"
  by (rule daily_job_idempotent) (simp add: sample_day_def unique_by_def)

lemma sample_day_row: "day_row 86400000 sample_day =
    \<lparr>an_date = 86400000, an_tips = 1, an_volume = 70, an_newUsers = 0, an_activeUsers = 2, an_version = 0\<rparr>"
  by (simp add: day_row_def sample_day_def sample_tip_row_def empty_db_def on_day_def DAY_MS_def Let_def)

end
