(* ===== verification/SnapshotCheck.thy ===== *)
theory SnapshotCheck
  imports Leaderboard Analytics
begin

text \<open>
  The comparison of the stored leaderboard with the chain's (\<open>backend/src/modules/leaderboard/workers/leaderboardSnapshot.worker.ts\<close>).
  What is read from the chain is a parameter; the code returns an empty list for it.
\<close>

section \<open>Entries\<close>

record OnChainEntry =
  oc_address :: string
  oc_username :: string
  oc_amount :: int
  oc_rank :: int

record OffChainEntry =
  fc_userId :: string
  fc_stellarAddress :: string
  fc_username :: "string option"
  fc_totalTips :: int
  fc_rank :: int

record DivergenceDetail =
  dd_stellarAddress :: string
  dd_username :: "string option"
  dd_onChainRank :: "int option"
  dd_offChainRank :: "int option"
  dd_onChainAmount :: "int option"
  dd_offChainAmount :: int
  dd_amountDifference :: int
  dd_rankDifference :: int
  dd_issue :: string

datatype Severity = S_low | S_medium | S_critical

record DivergenceReport =
  dr_period :: string
  dr_totalEntries :: nat
  dr_divergentEntries :: nat
  dr_divergencePercentage :: rat
  dr_divergences :: "DivergenceDetail list"
  dr_severity :: Severity

definition AMOUNT_TOLERANCE_STROOPS :: int where
  "AMOUNT_TOLERANCE_STROOPS = 100"

definition RANK_TOLERANCE :: int where
  "RANK_TOLERANCE = 2"

definition MAX_DIVERGENCE_PERCENTAGE :: rat where
  "MAX_DIVERGENCE_PERCENTAGE = 5 / 100"

text \<open>The rows of a period by rank, with their users.\<close>

definition fetchOffChainSnapshot :: "Period \<Rightarrow> db \<Rightarrow> OffChainEntry list" where
  "fetchOffChainSnapshot period d = concat (map (\<lambda>s. case find_by u_id (sn_userId s) (users d) of
       None \<Rightarrow> []
     | Some u \<Rightarrow> [\<lparr>fc_userId = u_id u, fc_stellarAddress = u_address u, fc_username = u_username u,
         fc_totalTips = sn_totalTips s, fc_rank = int (sn_rank s)\<rparr>])
     (sort_key sn_rank (filter (\<lambda>s. sn_period s = period) (snapshots d))))"

section \<open>The comparison\<close>

text \<open>\<open>new Map\<close>: of entries with the same key the last one counts.\<close>

definition entry_map :: "('e \<Rightarrow> string) \<Rightarrow> 'e list \<Rightarrow> string \<Rightarrow> 'e option" where
  "entry_map key es a = find_by key a (rev es)"

definition divergence :: "OnChainEntry option \<Rightarrow> OffChainEntry option \<Rightarrow> string \<Rightarrow> DivergenceDetail option" where
  "divergence on off address = (case (on, off) of
       (None, Some f) \<Rightarrow> Some \<lparr>dd_stellarAddress = address, dd_username = fc_username f, dd_onChainRank = None, dd_offChainRank = Some (fc_rank f),
         dd_onChainAmount = None, dd_offChainAmount = fc_totalTips f, dd_amountDifference = fc_totalTips f, dd_rankDifference = fc_rank f,
         dd_issue = ''Entry exists off-chain but missing on-chain''\<rparr>
     | (Some c, None) \<Rightarrow> Some \<lparr>dd_stellarAddress = address, dd_username = Some (oc_username c), dd_onChainRank = Some (oc_rank c),
         dd_offChainRank = None, dd_onChainAmount = Some (oc_amount c), dd_offChainAmount = 0, dd_amountDifference = oc_amount c,
         dd_rankDifference = oc_rank c, dd_issue = ''Entry exists on-chain but missing off-chain snapshot''\<rparr>
     | (Some c, Some f) \<Rightarrow>
         (let amountDiff = oc_amount c - fc_totalTips f; rankDiff = \<bar>oc_rank c - fc_rank f\<bar>
          in if AMOUNT_TOLERANCE_STROOPS < amountDiff \<or> RANK_TOLERANCE < rankDiff
             then Some \<lparr>dd_stellarAddress = address,
               dd_username = (if or_empty (fc_username f) \<noteq> [] then fc_username f else Some (oc_username c)),
               dd_onChainRank = Some (oc_rank c), dd_offChainRank = Some (fc_rank f), dd_onChainAmount = Some (oc_amount c),
               dd_offChainAmount = fc_totalTips f, dd_amountDifference = amountDiff, dd_rankDifference = rankDiff,
               dd_issue = ''Amount diff: '' @ show_int amountDiff @ '' stroops, Rank diff: '' @ show_int rankDiff\<rparr>
             else None)
     | (None, None) \<Rightarrow> None)"

definition all_addresses :: "OnChainEntry list \<Rightarrow> OffChainEntry list \<Rightarrow> string list" where
  "all_addresses onChain offChain = firsts (map oc_address onChain @ map fc_stellarAddress offChain)"

definition divergences :: "OnChainEntry list \<Rightarrow> OffChainEntry list \<Rightarrow> DivergenceDetail list" where
  "divergences onChain offChain = List.map_filter
     (\<lambda>a. divergence (entry_map oc_address onChain a) (entry_map fc_stellarAddress offChain a) a) (all_addresses onChain offChain)"

definition severity_of :: "rat \<Rightarrow> Severity" where
  "severity_of p = (if MAX_DIVERGENCE_PERCENTAGE * 100 < p then S_critical else if MAX_DIVERGENCE_PERCENTAGE * 50 < p then S_medium else S_low)"

definition compareLeaderboards :: "OnChainEntry list \<Rightarrow> OffChainEntry list \<Rightarrow> DivergenceReport" where
  "compareLeaderboards onChain offChain =
     (let ds = divergences onChain offChain; amount = max (length onChain) (length offChain);
          percentage = (if 0 < amount then of_nat (length ds) / of_nat amount * 100 else 0)
      in \<lparr>dr_period = ''WEEKLY'', dr_totalEntries = amount, dr_divergentEntries = length ds, dr_divergencePercentage = percentage,
          dr_divergences = ds, dr_severity = severity_of percentage\<rparr>)"

definition triggerManualVerification :: "(Period \<Rightarrow> OnChainEntry list) \<Rightarrow> DivergenceReport list dbio" where
  "triggerManualVerification fetchOnChainLeaderboard =
     gets (\<lambda>d. map (\<lambda>p. compareLeaderboards (fetchOnChainLeaderboard p) (fetchOffChainSnapshot p d)) [P_WEEKLY, P_MONTHLY, P_ALL_TIME])"

definition verifyLeaderboardConsistency :: "(Period \<Rightarrow> OnChainEntry list) \<Rightarrow> DivergenceReport dbio" where
  "verifyLeaderboardConsistency fetchOnChainLeaderboard = bnd (triggerManualVerification fetchOnChainLeaderboard) (\<lambda>reports. ret (hd reports))"

section \<open>What is reported\<close>

definition out_of_line :: "OnChainEntry option \<Rightarrow> OffChainEntry option \<Rightarrow> bool" where
  "out_of_line on off = (case (on, off) of
       (Some c, Some f) \<Rightarrow> fc_totalTips f + AMOUNT_TOLERANCE_STROOPS < oc_amount c \<or> RANK_TOLERANCE < \<bar>oc_rank c - fc_rank f\<bar>
     | (None, None) \<Rightarrow> False | _ \<Rightarrow> True)"

lemma divergence_iff: "(divergence on off a \<noteq> None) = out_of_line on off"
  by (auto simp: divergence_def out_of_line_def Let_def split: option.split)

lemma divergence_address: "divergence on off a = Some d \<Longrightarrow> dd_stellarAddress d = a"
  by (auto simp: divergence_def Let_def split: option.splits if_splits)

lemma reported_addresses:
  "map dd_stellarAddress (List.map_filter (\<lambda>a. divergence (m a) (n a) a) as) = filter (\<lambda>a. out_of_line (m a) (n a)) as"
proof (induction as)
  case Nil
  show ?case by (simp add: map_filter_simps)
next
  case (Cons a as)
  show ?case
  proof (cases "divergence (m a) (n a) a")
    case None
    with divergence_iff [of "m a" "n a" a] Cons show ?thesis by (simp add: map_filter_simps)
  next
    case (Some d)
    with divergence_iff [of "m a" "n a" a] divergence_address [OF Some] Cons show ?thesis by (simp add: map_filter_simps)
  qed
qed

text \<open>
  The report names, once each, exactly the addresses that only one side lists, whose total in the store falls short of the chain's by
  more than the tolerance, or whose ranks differ by more than two.
\<close>

theorem snapshot_report_exact:
  "map dd_stellarAddress (dr_divergences (compareLeaderboards onChain offChain)) =
    filter (\<lambda>a. out_of_line (entry_map oc_address onChain a) (entry_map fc_stellarAddress offChain a)) (all_addresses onChain offChain) \<and>
   distinct (map dd_stellarAddress (dr_divergences (compareLeaderboards onChain offChain)))"
  by (simp add: compareLeaderboards_def Let_def divergences_def reported_addresses all_addresses_def)

text \<open>The difference is not taken as an amount: a total in the store that exceeds the chain's is never reported for it.\<close>

lemma inflated_total_is_in_line:
  assumes "oc_rank c = fc_rank f" and "oc_amount c \<le> fc_totalTips f"
  shows "\<not> out_of_line (Some c) (Some f)"
  using assms by (simp add: out_of_line_def AMOUNT_TOLERANCE_STROOPS_def RANK_TOLERANCE_def)

text \<open>As long as the chain's board is read as empty, every stored board is reported as diverging altogether.\<close>

lemma unread_chain_is_critical:
  assumes "offChain \<noteq> []" and "distinct (map fc_stellarAddress offChain)"
  shows "dr_severity (compareLeaderboards [] offChain) = S_critical \<and> dr_divergentEntries (compareLeaderboards [] offChain) = length offChain"
proof -
  have "entry_map fc_stellarAddress offChain a \<noteq> None" if "a \<in> fc_stellarAddress ` set offChain" for a
    using that find_by_None [of fc_stellarAddress a "rev offChain"] by (auto simp: entry_map_def)
  then have "filter (\<lambda>a. out_of_line (entry_map oc_address [] a) (entry_map fc_stellarAddress offChain a)) (all_addresses [] offChain) = all_addresses [] offChain"
    by (intro filter_True) (auto simp: all_addresses_def entry_map_def find_by_def out_of_line_def split: option.split)
  moreover have "length (all_addresses [] offChain) = length offChain"
    using assms(2) by (simp add: all_addresses_def firsts_def distinct_rev distinct_remdups_id)
  ultimately have "length (divergences [] offChain) = length offChain"
    using arg_cong [OF reported_addresses [of "entry_map oc_address []" "entry_map fc_stellarAddress offChain" "all_addresses [] offChain"], of length]
    by (simp add: divergences_def)
  with assms(1) show ?thesis by (simp add: compareLeaderboards_def Let_def severity_of_def MAX_DIVERGENCE_PERCENTAGE_def)
qed

end
