(* ===== verification/Retention.thy ===== *)
theory Retention
  imports Store "HOL-Library.Multiset" "HOL-Library.List_Lexorder" "HOL-Library.Char_ord"
begin

text \<open>
  The job that prunes old rows (\<open>backend/src/jobs/retention.worker.ts\<close>). The event log is taken with the ids and dates that
  \<open>Store.db\<close> leaves out, beside its archive. A loop over batches ends because every round deletes a row.
\<close>

section \<open>State\<close>

record logged_event = event_row +
  lg_id :: string
  lg_createdAt :: int

record archive_row =
  ea_sourceId :: string
  ea_topic :: string
  ea_ledger :: int
  ea_txHash :: string
  ea_data :: jsval
  ea_createdAt :: int

record retained =
  rd_db :: db
  rd_events :: "logged_event list"
  rd_archive :: "archive_row list"

record RetentionRunResult =
  rr_pruned :: "(string \<times> nat) list"
  rr_archivedEventLogs :: nat

definition RETENTION_DAYS :: "string \<Rightarrow> int" where
  "RETENTION_DAYS model = the (map_of [(''notification'', 90), (''authChallenge'', 1), (''webhookDelivery'', 90),
     (''analyticsDaily'', 730), (''eventLog'', 365)] model)"

definition cutoff :: "int \<Rightarrow> int \<Rightarrow> int" where
  "cutoff now days = now - days * 24 * 60 * 60 * 1000"

section \<open>Batches\<close>

text \<open>The rows of a batch: the first of those that match, by id.\<close>

definition batch_of :: "('r \<Rightarrow> 'k::linorder) \<Rightarrow> ('r \<Rightarrow> bool) \<Rightarrow> nat \<Rightarrow> 'r list \<Rightarrow> 'r list" where
  "batch_of key p n rows = take n (sort_key key (filter p rows))"

definition without_batch :: "('r \<Rightarrow> 'k) \<Rightarrow> 'r list \<Rightarrow> 'r list \<Rightarrow> 'r list" where
  "without_batch key batch rows = filter (\<lambda>r. key r \<notin> key ` set batch) rows"

lemma batch_rows: "r \<in> set (batch_of key p n rows) \<Longrightarrow> r \<in> set rows \<and> p r"
  by (auto simp: batch_of_def dest: in_set_takeD)

lemma without_batch_shorter: "batch_of key p n rows \<noteq> [] \<Longrightarrow> length (without_batch key (batch_of key p n rows) rows) < length rows"
proof -
  assume "batch_of key p n rows \<noteq> []"
  then obtain r where "r \<in> set (batch_of key p n rows)" by (meson list.set_sel(1))
  with batch_rows [OF this] show ?thesis unfolding without_batch_def by (intro length_filter_less) auto
qed

function deleteInBatches :: "('r \<Rightarrow> 'k::linorder) \<Rightarrow> ('r \<Rightarrow> bool) \<Rightarrow> nat \<Rightarrow> 'r list \<Rightarrow> nat \<Rightarrow> 'r list \<times> nat" where
  "deleteInBatches key p batchSize rows n =
     (let batch = batch_of key p batchSize rows; rest = without_batch key batch rows; n' = n + (length rows - length rest)
      in if batch = [] then (rows, n)
         else if length batch < batchSize then (rest, n')
         else deleteInBatches key p batchSize rest n')"
  by auto

termination
  by (relation "measure (\<lambda>(key, p, k, rows, n). length rows)") (auto simp: without_batch_shorter)

declare deleteInBatches.simps [simp del]

definition archived :: "logged_event \<Rightarrow> archive_row" where
  "archived e = \<lparr>ea_sourceId = lg_id e, ea_topic = el_topic e, ea_ledger = el_ledger e, ea_txHash = el_txHash e, ea_data = el_data e,
     ea_createdAt = lg_createdAt e\<rparr>"

text \<open>\<open>createMany\<close> with \<open>skipDuplicates\<close>: a source that is already archived is skipped.\<close>

definition archive_batch :: "logged_event list \<Rightarrow> archive_row list \<Rightarrow> archive_row list" where
  "archive_batch batch archive =
     fold (\<lambda>e as. if exists_row (\<lambda>a. ea_sourceId a = lg_id e) as then as else as @ [archived e]) batch archive"

function archiveAndDeleteEventLogs :: "int \<Rightarrow> nat \<Rightarrow> logged_event list \<Rightarrow> archive_row list \<Rightarrow> nat \<Rightarrow> logged_event list \<times> archive_row list \<times> nat" where
  "archiveAndDeleteEventLogs olderThan batchSize rows archive n =
     (let batch = batch_of lg_id (\<lambda>e. lg_createdAt e < olderThan) batchSize rows; rest = without_batch lg_id batch rows;
          archive' = archive_batch batch archive; n' = n + length batch
      in if batch = [] then (rows, archive, n)
         else if length batch < batchSize then (rest, archive', n')
         else archiveAndDeleteEventLogs olderThan batchSize rest archive' n')"
  by auto

termination
  by (relation "measure (\<lambda>(t, k, rows, as, n). length rows)") (auto simp: without_batch_shorter)

declare archiveAndDeleteEventLogs.simps [simp del]

section \<open>The job\<close>

definition old_notification :: "int \<Rightarrow> notification_row \<Rightarrow> bool" where
  "old_notification now r \<longleftrightarrow> n_createdAt r < cutoff now (RETENTION_DAYS ''notification'')"

definition old_challenge :: "int \<Rightarrow> challenge_row \<Rightarrow> bool" where
  "old_challenge now r \<longleftrightarrow> ac_expiresAt r < now"

definition old_delivery :: "int \<Rightarrow> webhook_delivery_row \<Rightarrow> bool" where
  "old_delivery now r \<longleftrightarrow> wdl_createdAt r < cutoff now (RETENTION_DAYS ''webhookDelivery'')"

definition old_day :: "int \<Rightarrow> analytics_row \<Rightarrow> bool" where
  "old_day now r \<longleftrightarrow> an_date r < cutoff now (RETENTION_DAYS ''analyticsDaily'')"

definition old_event :: "int \<Rightarrow> logged_event \<Rightarrow> bool" where
  "old_event now e \<longleftrightarrow> lg_createdAt e < cutoff now (RETENTION_DAYS ''eventLog'')"

definition runRetentionPrune :: "int \<Rightarrow> nat \<Rightarrow> retained \<Rightarrow> RetentionRunResult \<times> retained" where
  "runRetentionPrune now batchSize st =
     (let d = rd_db st;
          (ns, a) = deleteInBatches n_id (old_notification now) batchSize (notifications d) 0;
          (cs, b) = deleteInBatches ac_id (old_challenge now) batchSize (challenges d) 0;
          (ws, c) = deleteInBatches wdl_id (old_delivery now) batchSize (webhookDeliveries d) 0;
          (as, e) = deleteInBatches an_date (old_day now) batchSize (analytics d) 0;
          (es, ar, f) = archiveAndDeleteEventLogs (cutoff now (RETENTION_DAYS ''eventLog'')) batchSize (rd_events st) (rd_archive st) 0
      in (\<lparr>rr_pruned = [(''Notification'', a), (''AuthChallenge'', b), (''WebhookDelivery'', c), (''AnalyticsDaily'', e), (''EventLog'', f)],
           rr_archivedEventLogs = f\<rparr>,
          st\<lparr>rd_db := d\<lparr>notifications := ns, challenges := cs, webhookDeliveries := ws, analytics := as\<rparr>,
             rd_events := es, rd_archive := ar\<rparr>))"

section \<open>What is deleted\<close>

lemma batch_length: "length (batch_of key p k rows) = min k (length (filter p rows))"
  by (simp add: batch_of_def min.commute)

text \<open>The keys of a batch single out its rows.\<close>

lemma without_batch_filter:
  assumes "distinct (map key rows)" and "set batch \<subseteq> set rows"
  shows "without_batch key batch rows = filter (\<lambda>r. r \<notin> set batch) rows"
  unfolding without_batch_def
  using assms by (intro filter_cong) (auto simp: distinct_map dest: inj_onD)

lemma without_counts:
  assumes "distinct rows" and "set batch \<subseteq> set rows" and "distinct batch"
  shows "length (filter (\<lambda>r. r \<notin> set batch) rows) + length batch = length rows"
proof -
  have "set (filter (\<lambda>r. r \<in> set batch) rows) = set batch" using assms(2) by auto
  then have "length (filter (\<lambda>r. r \<in> set batch) rows) = length batch"
    using distinct_card [OF distinct_filter [OF assms(1)], of "\<lambda>r. r \<in> set batch"] distinct_card [OF assms(3)] by simp
  then show ?thesis using sum_length_filter_compl [of "\<lambda>r. r \<in> set batch" rows] by simp
qed

text \<open>One round: what it leaves still holds every row that does not match, and the rows left over that do.\<close>

lemma batch_distinct:
  assumes "distinct (map key rows)"
  shows "distinct (batch_of key p k rows)"
  unfolding batch_of_def using assms by (auto simp: distinct_map intro: distinct_take distinct_filter)

lemma batch_keys_distinct:
  assumes "distinct (map key rows)"
  shows "distinct (map key (batch_of key p k rows))"
proof -
  have "set (batch_of key p k rows) \<subseteq> set rows" by (auto dest: batch_rows)
  moreover have "inj_on key (set rows)" using assms by (simp add: distinct_map)
  ultimately have "inj_on key (set (batch_of key p k rows))" by (rule inj_on_subset [rotated])
  with batch_distinct [OF assms] show ?thesis by (simp add: distinct_map)
qed

lemma round_keeps:
  assumes "distinct (map key rows)"
  shows "filter (\<lambda>r. \<not> p r) (without_batch key (batch_of key p k rows) rows) = filter (\<lambda>r. \<not> p r) rows"
proof -
  have w: "without_batch key (batch_of key p k rows) rows = filter (\<lambda>r. r \<notin> set (batch_of key p k rows)) rows"
    by (rule without_batch_filter [OF assms]) (auto dest: batch_rows)
  show ?thesis unfolding w filter_filter by (intro filter_cong) (auto dest: batch_rows)
qed

lemma round_counts:
  assumes "distinct (map key rows)"
  shows "length (without_batch key (batch_of key p k rows) rows) + length (batch_of key p k rows) = length rows"
proof -
  have w: "without_batch key (batch_of key p k rows) rows = filter (\<lambda>r. r \<notin> set (batch_of key p k rows)) rows"
    by (rule without_batch_filter [OF assms]) (auto dest: batch_rows)
  show ?thesis unfolding w
    by (rule without_counts) (use assms batch_distinct in \<open>auto simp: distinct_map dest: batch_rows\<close>)
qed

lemma round_distinct: "distinct (map key rows) \<Longrightarrow> distinct (map key (without_batch key batch rows))"
  unfolding without_batch_def by (rule distinct_map_filter)

lemma round_matching:
  assumes "distinct (map key rows)"
  shows "length (filter p (without_batch key (batch_of key p k rows) rows)) + length (batch_of key p k rows) = length (filter p rows)"
  using sum_length_filter_compl [of p "without_batch key (batch_of key p k rows) rows"] sum_length_filter_compl [of p rows]
    round_keeps [OF assms, of p k] round_counts [OF assms, of p k] by simp

lemma last_round:
  assumes "distinct (map key rows)" and "length (batch_of key p k rows) < k"
  shows "without_batch key (batch_of key p k rows) rows = filter (\<lambda>r. \<not> p r) rows"
proof -
  have "filter p (without_batch key (batch_of key p k rows) rows) = []"
    using round_matching [OF assms(1), of p k] assms(2) by (simp add: batch_length min_def split: if_splits)
  then have "filter (\<lambda>r. \<not> p r) (without_batch key (batch_of key p k rows) rows) = without_batch key (batch_of key p k rows) rows"
    by (simp add: filter_empty_conv)
  with round_keeps [OF assms(1), of p k] show ?thesis by simp
qed

lemma no_round: "0 < k \<Longrightarrow> batch_of key p k rows = [] \<Longrightarrow> filter p rows = []"
  using batch_length [of key p k rows] by (simp add: min_def split: if_splits)

lemma deleted_run:
  assumes "distinct (map key rows)" and "0 < k"
  shows "deleteInBatches key p k rows n = (filter (\<lambda>r. \<not> p r) rows, n + length (filter p rows))"
  using assms
proof (induction "length rows" arbitrary: rows n rule: less_induct)
  case less
  let ?b = "batch_of key p k rows" and ?r = "without_batch key (batch_of key p k rows) rows"
  note unfolded = deleteInBatches.simps [of key p k rows n]
  note counts = round_counts [OF less.prems(1), of p k] round_matching [OF less.prems(1), of p k]
  consider "?b = []" | "?b \<noteq> []" "length ?b < k" | "?b \<noteq> []" "\<not> length ?b < k" by blast
  then show ?case
  proof cases
    case 1
    then have "filter p rows = []" using no_round less.prems(2) by blast
    with 1 show ?thesis using unfolded by (simp add: filter_empty_conv)
  next
    case 2
    have "filter p ?r = []" using last_round [OF less.prems(1) 2(2)] by (simp add: filter_empty_conv)
    with 2 last_round [OF less.prems(1) 2(2)] counts show ?thesis using unfolded by (simp add: Let_def)
  next
    case 3
    have "deleteInBatches key p k ?r (n + (length rows - length ?r)) = (filter (\<lambda>r. \<not> p r) ?r, n + (length rows - length ?r) + length (filter p ?r))"
      by (rule less.hyps) (use without_batch_shorter [OF 3(1)] round_distinct less.prems in auto)
    with 3 counts round_keeps [OF less.prems(1), of p k] show ?thesis using unfolded by (simp add: Let_def)
  qed
qed

section \<open>What is archived\<close>

lemma archive_batch_fresh:
  assumes "distinct (map lg_id batch)" and "lg_id ` set batch \<inter> ea_sourceId ` set archive = {}"
  shows "archive_batch batch archive = archive @ map archived batch"
  using assms
proof (induction batch arbitrary: archive)
  case (Cons e es)
  have fresh: "\<not> exists_row (\<lambda>a. ea_sourceId a = lg_id e) archive" using Cons.prems(2) by (fastforce simp: exists_row_def list_ex_iff image_iff)
  have "archive_batch es (archive @ [archived e]) = (archive @ [archived e]) @ map archived es"
    by (rule Cons.IH) (use Cons.prems in \<open>auto simp: archived_def\<close>)
  with fresh show ?case by (simp add: archive_batch_def)
qed (simp add: archive_batch_def)

lemma round_split:
  assumes "distinct (map key rows)"
  shows "mset (filter p rows) = mset (batch_of key p k rows) + mset (filter p (without_batch key (batch_of key p k rows) rows))"
proof -
  let ?b = "batch_of key p k rows"
  have w: "without_batch key ?b rows = filter (\<lambda>r. r \<notin> set ?b) rows"
    by (rule without_batch_filter [OF assms]) (auto dest: batch_rows)
  have "distinct (?b @ filter p (without_batch key ?b rows))"
    using batch_distinct [OF assms] assms unfolding w by (auto simp: distinct_map)
  moreover have "distinct (filter p rows)" using assms by (simp add: distinct_map)
  moreover have "set (?b @ filter p (without_batch key ?b rows)) = set (filter p rows)"
    unfolding w by (auto dest: batch_rows)
  ultimately have "mset (?b @ filter p (without_batch key ?b rows)) = mset (filter p rows)"
    using set_eq_iff_mset_eq_distinct by blast
  then show ?thesis by simp
qed

lemma round_leaves_fresh: "r \<in> set (without_batch key batch rows) \<Longrightarrow> r \<in> set rows \<and> key r \<notin> key ` set batch"
  by (simp add: without_batch_def)

definition moved :: "int \<Rightarrow> logged_event list \<Rightarrow> archive_row list \<Rightarrow> nat \<Rightarrow> logged_event list \<times> archive_row list \<times> nat \<Rightarrow> bool" where
  "moved t rows archive n r \<longleftrightarrow> fst r = filter (\<lambda>e. \<not> lg_createdAt e < t) rows \<and>
     mset (fst (snd r)) = mset archive + mset (map archived (filter (\<lambda>e. lg_createdAt e < t) rows)) \<and>
     snd (snd r) = n + length (filter (\<lambda>e. lg_createdAt e < t) rows)"

lemma archived_run:
  assumes "distinct (map lg_id rows)" and "0 < k" and "lg_id ` set rows \<inter> ea_sourceId ` set archive = {}"
  shows "moved t rows archive n (archiveAndDeleteEventLogs t k rows archive n)"
  using assms
proof (induction "length rows" arbitrary: rows archive n rule: less_induct)
  case less
  define p where "p = (\<lambda>e. lg_createdAt (e :: logged_event) < t)"
  define b where "b = batch_of lg_id p k rows"
  define r where "r = without_batch lg_id b rows"
  have moved_p: "moved t rs as m x \<longleftrightarrow> fst x = filter (\<lambda>e. \<not> p e) rs \<and>
     mset (fst (snd x)) = mset as + mset (map archived (filter p rs)) \<and> snd (snd x) = m + length (filter p rs)" for rs as m x
    by (simp add: moved_def p_def)
  have from_rows: "e \<in> set rows" if "e \<in> set b" for e using that batch_rows unfolding b_def by fastforce
  have ar: "archive_batch b archive = archive @ map archived b"
  proof (rule archive_batch_fresh)
    show "distinct (map lg_id b)" unfolding b_def by (rule batch_keys_distinct [OF less.prems(1)])
    show "lg_id ` set b \<inter> ea_sourceId ` set archive = {}" using less.prems(3) from_rows by blast
  qed
  have unfolded: "archiveAndDeleteEventLogs t k rows archive n =
      (if b = [] then (rows, archive, n) else if length b < k then (r, archive @ map archived b, n + length b)
       else archiveAndDeleteEventLogs t k r (archive @ map archived b) (n + length b))"
    unfolding archiveAndDeleteEventLogs.simps [of t k rows] Let_def ar [symmetric] by (simp add: b_def r_def p_def)
  note split = round_split [OF less.prems(1), of p k, folded b_def r_def]
  note keeps = round_keeps [OF less.prems(1), of p k, folded b_def r_def]
  note count = round_matching [OF less.prems(1), of p k, folded b_def r_def]
  consider "b = []" | "b \<noteq> []" "length b < k" | "b \<noteq> []" "\<not> length b < k" by blast
  then show ?case
  proof cases
    case 1
    then have "filter p rows = []" using no_round less.prems(2) unfolding b_def by blast
    with 1 show ?thesis unfolding moved_p by (simp add: unfolded filter_empty_conv)
  next
    case 2
    have "r = filter (\<lambda>e. \<not> p e) rows" using last_round [OF less.prems(1)] 2(2) unfolding r_def b_def by blast
    moreover from this have "filter p r = []" by (simp add: filter_empty_conv)
    ultimately show ?thesis using 2 split count unfolding moved_p by (simp add: unfolded)
  next
    case 3
    have "length r < length rows" using without_batch_shorter 3(1) unfolding b_def r_def by blast
    moreover have "distinct (map lg_id r)" unfolding r_def by (rule round_distinct [OF less.prems(1)])
    moreover have "lg_id ` set r \<inter> ea_sourceId ` set (archive @ map archived b) = {}"
      using less.prems(3) round_leaves_fresh unfolding r_def by (fastforce simp: archived_def)
    ultimately have "moved t r (archive @ map archived b) (n + length b) (archiveAndDeleteEventLogs t k r (archive @ map archived b) (n + length b))"
      using less.hyps less.prems(2) by blast
    with 3 split keeps count show ?thesis unfolding moved_p by (simp add: unfolded)
  qed
qed

section \<open>The job's promise\<close>

text \<open>The rows the job is meant to leave.\<close>

definition within_retention :: "int \<Rightarrow> db \<Rightarrow> db" where
  "within_retention now d =
     d\<lparr>notifications := filter (\<lambda>r. \<not> old_notification now r) (notifications d),
       challenges := filter (\<lambda>r. \<not> old_challenge now r) (challenges d),
       webhookDeliveries := filter (\<lambda>r. \<not> old_delivery now r) (webhookDeliveries d),
       analytics := filter (\<lambda>r. \<not> old_day now r) (analytics d)\<rparr>"

definition retained_ids :: "retained \<Rightarrow> bool" where
  "retained_ids st \<longleftrightarrow> distinct (map n_id (notifications (rd_db st))) \<and> distinct (map ac_id (challenges (rd_db st))) \<and>
     distinct (map wdl_id (webhookDeliveries (rd_db st))) \<and> distinct (map an_date (analytics (rd_db st))) \<and>
     distinct (map lg_id (rd_events st)) \<and> lg_id ` set (rd_events st) \<inter> ea_sourceId ` set (rd_archive st) = {}"

text \<open>C28. The retention job ends for every batch size and leaves exactly the rows that are within their retention; an event
  that leaves the log is in the archive once, and no other row of the archive changes.\<close>

theorem retention_moves_what_is_old:
  assumes "retained_ids st" and "0 < batchSize"
  shows "rd_db (snd (runRetentionPrune now batchSize st)) = within_retention now (rd_db st) \<and>
    rd_events (snd (runRetentionPrune now batchSize st)) = filter (\<lambda>e. \<not> old_event now e) (rd_events st) \<and>
    mset (rd_archive (snd (runRetentionPrune now batchSize st))) =
      mset (rd_archive st) + mset (map archived (filter (old_event now) (rd_events st))) \<and>
    rr_archivedEventLogs (fst (runRetentionPrune now batchSize st)) = length (filter (old_event now) (rd_events st))"
proof -
  define r where "r = archiveAndDeleteEventLogs (cutoff now (RETENTION_DAYS ''eventLog'')) batchSize (rd_events st) (rd_archive st) 0"
  obtain es ar f where r: "r = (es, ar, f)" by (cases r) auto
  have "moved (cutoff now (RETENTION_DAYS ''eventLog'')) (rd_events st) (rd_archive st) 0 r"
    unfolding r_def by (rule archived_run) (use assms in \<open>auto simp: retained_ids_def\<close>)
  then have "es = filter (\<lambda>e. \<not> old_event now e) (rd_events st)"
    and "mset ar = mset (rd_archive st) + mset (map archived (filter (old_event now) (rd_events st)))"
    and "f = length (filter (old_event now) (rd_events st))"
    by (simp_all add: r moved_def old_event_def [abs_def])
  moreover have "runRetentionPrune now batchSize st =
     (\<lparr>rr_pruned = [(''Notification'', length (filter (old_notification now) (notifications (rd_db st)))),
         (''AuthChallenge'', length (filter (old_challenge now) (challenges (rd_db st)))),
         (''WebhookDelivery'', length (filter (old_delivery now) (webhookDeliveries (rd_db st)))),
         (''AnalyticsDaily'', length (filter (old_day now) (analytics (rd_db st)))), (''EventLog'', f)],
        rr_archivedEventLogs = f\<rparr>,
      st\<lparr>rd_db := within_retention now (rd_db st), rd_events := es, rd_archive := ar\<rparr>)"
    unfolding runRetentionPrune_def Let_def r_def [symmetric] r within_retention_def
    using assms by (simp add: retained_ids_def deleted_run)
  ultimately show ?thesis by simp
qed

definition old_events :: "logged_event list" where
  "old_events = map (\<lambda>(i, t). \<lparr>el_topic = ''tip'', el_ledger = 1, el_txHash = i, el_data = Undefined, lg_id = i, lg_createdAt = t\<rparr>)
     [(''a'', 0), (''b'', 90000000000), (''c'', 1), (''d'', 2)]"

definition old_rows :: retained where
  "old_rows = \<lparr>rd_db = empty_db, rd_events = old_events, rd_archive = []\<rparr>"

lemma retention_moves_what_is_old_witness:
  "rd_events (snd (runRetentionPrune 100000000000 2 old_rows)) = [old_events ! 1] \<and>
   mset (rd_archive (snd (runRetentionPrune 100000000000 2 old_rows))) = mset (map archived [old_events ! 0, old_events ! 2, old_events ! 3]) \<and>
   rr_archivedEventLogs (fst (runRetentionPrune 100000000000 2 old_rows)) = 3"
proof -
  have ids: "retained_ids old_rows" by (simp add: retained_ids_def old_rows_def old_events_def empty_db_def)
  have old: "filter (\<lambda>e. \<not> old_event 100000000000 e) old_events = [old_events ! 1]"
    "filter (old_event 100000000000) old_events = [old_events ! 0, old_events ! 2, old_events ! 3]"
    by (simp_all add: old_events_def old_event_def cutoff_def RETENTION_DAYS_def)
  show ?thesis
    using retention_moves_what_is_old [OF ids, of 2 100000000000] old by (simp add: old_rows_def)
qed

end
