(* ===== verification/Discovery.thy ===== *)
theory Discovery
  imports Analytics "HOL-Library.List_Lexorder" "HOL-Library.Char_ord" "HOL-Library.Product_Lexorder"
begin

text \<open>
  The discovery of creators (\<open>backend/src/modules/discovery/discovery.service.ts\<close> and \<open>jobs/discovery.worker.ts\<close>): the ranking by
  recent tips, the creators with common supporters, their caches and the job that fills them. \<open>Math.pow(0.5, x)\<close>, which the language
  only approximates, is a parameter; scores are exact.
\<close>

section \<open>Trending\<close>

record discovery_config =
  dg_windowDays :: int
  dg_halflifeDays :: rat
  dg_trendingTopN :: nat
  dg_similarTopN :: nat

definition contribution :: "(rat \<Rightarrow> rat) \<Rightarrow> int \<Rightarrow> rat \<Rightarrow> tip_row \<Rightarrow> rat" where
  "contribution pow_half now halflifeDays tip =
     (let ageHours = max 0 (of_int (now - tip_createdAt tip) / 3600000); weight = pow_half (ageHours / (halflifeDays * 24))
      in of_int (tip_amount tip) * weight)"

definition computeTrendingScores :: "(rat \<Rightarrow> rat) \<Rightarrow> tip_row list \<Rightarrow> int \<Rightarrow> rat \<Rightarrow> (string \<times> rat) list" where
  "computeTrendingScores pow_half ts now halflifeDays = tally tip_to (\<lambda>t s. s + contribution pow_half now halflifeDays t) 0 ts"

definition rankAddresses :: "(string \<times> rat) list \<Rightarrow> nat \<Rightarrow> string list" where
  "rankAddresses scored topN = map fst (take topN (sort_key (\<lambda>x. (- snd x, fst x)) scored))"

definition isExcludedCreator :: "user_row \<Rightarrow> bool" where
  "isExcludedCreator u \<longleftrightarrow> u_deletedAt u \<noteq> None \<or> u_deactivatedAt u \<noteq> None \<or> u_blockedAt u \<noteq> None \<or> u_flagged u"

text \<open>The profiles of the ranked creators, by address.\<close>

definition user_map :: "string list \<Rightarrow> db \<Rightarrow> string \<Rightarrow> user_row option" where
  "user_map ranked d = map_of (rev (map (\<lambda>u. (u_address u, u))
     (filter (\<lambda>u. u_address u \<in> set ranked \<and> u_deletedAt u = None \<and> u_deactivatedAt u = None \<and> u_blockedAt u = None \<and> \<not> u_flagged u) (users d))))"

record TrendingCreator =
  tc_rank :: nat
  tc_userId :: string
  tc_username :: "string option"
  tc_stellarAddress :: string
  tc_displayName :: "string option"
  tc_imageUrl :: "string option"
  tc_avatarCid :: "string option"
  tc_trendingScore :: rat
  tc_recentVolumeStroops :: string
  tc_recentTipCount :: int

record TrendingResponse =
  tn_data :: "TrendingCreator list"
  tn_windowDays :: int
  tn_generatedAt :: string
  tn_stale :: bool

definition trending_tips :: "discovery_config \<Rightarrow> int \<Rightarrow> db \<Rightarrow> tip_row list" where
  "trending_tips cfg now d = filter (\<lambda>t. tip_status t = CONFIRMED \<and> now - dg_windowDays cfg * 24 * 60 * 60 * 1000 \<le> tip_createdAt t) (tips d)"

definition trending_entry :: "(string \<times> rat) list \<Rightarrow> (string \<times> int \<times> int) list \<Rightarrow> string \<Rightarrow> user_row \<Rightarrow> TrendingCreator" where
  "trending_entry scored volumes address user = (let vol = (case map_of volumes address of None \<Rightarrow> (0, 0) | Some v \<Rightarrow> v)
     in \<lparr>tc_rank = 0, tc_userId = u_id user, tc_username = u_username user, tc_stellarAddress = u_address user, tc_displayName = u_displayName user,
         tc_imageUrl = u_imageUrl user, tc_avatarCid = u_avatarCid user,
         tc_trendingScore = (case map_of scored address of None \<Rightarrow> 0 | Some s \<Rightarrow> s),
         tc_recentVolumeStroops = show_int (fst vol), tc_recentTipCount = snd vol\<rparr>)"

text \<open>\<open>.map((e, i) => ({ ...e, rank: i + 1 }))\<close>\<close>

definition with_ranks :: "TrendingCreator list \<Rightarrow> TrendingCreator list" where
  "with_ranks es = map (\<lambda>(i, e). e\<lparr>tc_rank := i + 1\<rparr>) (zip [0..<length es] es)"

definition trending_data :: "(rat \<Rightarrow> rat) \<Rightarrow> discovery_config \<Rightarrow> int \<Rightarrow> db \<Rightarrow> TrendingCreator list" where
  "trending_data pow_half cfg now d =
     (let ts = trending_tips cfg now d; scored = computeTrendingScores pow_half ts now (dg_halflifeDays cfg);
          ranked = rankAddresses scored (dg_trendingTopN cfg); volumes = tally tip_to add_volume (0, 0) ts
      in with_ranks (List.map_filter (\<lambda>address. map_option (trending_entry scored volumes address) (user_map ranked d address)) ranked))"

definition computeTrending :: "(rat \<Rightarrow> rat) \<Rightarrow> discovery_config \<Rightarrow> int \<Rightarrow> TrendingResponse dbio" where
  "computeTrending pow_half cfg now = bnd (gets (trending_data pow_half cfg now)) (\<lambda>data.
     ret \<lparr>tn_data = data, tn_windowDays = dg_windowDays cfg, tn_generatedAt = iso_string now, tn_stale = False\<rparr>)"

text \<open>What a request is served: the page of the cached value or of a new one, which is cached; a failure is an empty stale answer.\<close>

definition trending_page :: "nat \<Rightarrow> nat \<Rightarrow> TrendingResponse \<Rightarrow> TrendingResponse" where
  "trending_page limit offset r = r\<lparr>tn_data := take limit (drop offset (tn_data r))\<rparr>"

definition getTrending :: "discovery_config \<Rightarrow> int \<Rightarrow> TrendingResponse dbio \<Rightarrow> nat \<Rightarrow> nat \<Rightarrow> TrendingResponse option \<Rightarrow>
    (TrendingResponse \<times> TrendingResponse option) dbio" where
  "getTrending cfg now compute limit offset cached = (case cached of
       Some r \<Rightarrow> ret (trending_page limit offset r, cached)
     | None \<Rightarrow> try_catch (bnd compute (\<lambda>computed. ret (trending_page limit offset computed, Some computed)))
         (\<lambda>e. ret (\<lparr>tn_data = [], tn_windowDays = dg_windowDays cfg, tn_generatedAt = iso_string now, tn_stale = True\<rparr>, None)))"

section \<open>Similar creators\<close>

record overlap =
  ov_address :: string
  ov_shared :: nat
  ov_total :: nat

definition overlap_sets :: "string set \<Rightarrow> tip_row list \<Rightarrow> (string \<times> string list) list" where
  "overlap_sets supporters ts = tally tip_to (\<lambda>t s. List.insert (tip_from t) s) []
     (filter (\<lambda>t. tip_to t \<noteq> tip_from t \<and> tip_from t \<in> supporters) ts)"

definition rankByOverlap :: "string set \<Rightarrow> tip_row list \<Rightarrow> nat \<Rightarrow> overlap list" where
  "rankByOverlap supporters ts topN = take topN (sort_key (\<lambda>r. (- int (ov_shared r), ov_address r))
     (map (\<lambda>(a, s). \<lparr>ov_address = a, ov_shared = length s, ov_total = length s\<rparr>) (overlap_sets supporters ts)))"

record SimilarCreator =
  sm_username :: "string option"
  sm_stellarAddress :: string
  sm_displayName :: "string option"
  sm_imageUrl :: "string option"
  sm_avatarCid :: "string option"
  sm_sharedSupporters :: nat
  sm_supporterCount :: nat

record SimilarResponse =
  sr_data :: "SimilarCreator list"
  sr_forUsername :: string
  sr_generatedAt :: string
  sr_stale :: bool

definition similar_data :: "discovery_config \<Rightarrow> user_row \<Rightarrow> db \<Rightarrow> SimilarCreator list" where
  "similar_data cfg user d =
     (let supporters = set (map tip_from (filter (\<lambda>t. tip_to t = u_address user \<and> tip_status t = CONFIRMED) (tips d)));
          found = filter (\<lambda>t. tip_from t \<in> supporters \<and> tip_to t \<noteq> u_address user \<and> tip_status t = CONFIRMED) (tips d);
          ranked = rankByOverlap supporters found (dg_similarTopN cfg)
      in if supporters = {} then []
         else List.map_filter (\<lambda>r. map_option (\<lambda>u. \<lparr>sm_username = u_username u, sm_stellarAddress = u_address u, sm_displayName = u_displayName u,
                sm_imageUrl = u_imageUrl u, sm_avatarCid = u_avatarCid u,
                sm_sharedSupporters = ov_shared r, sm_supporterCount = ov_total r\<rparr>) (user_map (map ov_address ranked) d (ov_address r))) ranked)"

definition computeSimilar :: "discovery_config \<Rightarrow> int \<Rightarrow> string \<Rightarrow> SimilarResponse dbio" where
  "computeSimilar cfg now username =
     bnd (gets (live_user (\<lambda>u. u_username u = Some username))) (\<lambda>found.
     bnd (require found (not_found ''Creator not found'')) (\<lambda>user.
     bnd (gets (similar_data cfg user)) (\<lambda>data.
       ret \<lparr>sr_data = data, sr_forUsername = username, sr_generatedAt = iso_string now, sr_stale = False\<rparr>)))"

definition similarCacheKey :: "string \<Rightarrow> string" where
  "similarCacheKey username = ''discovery:similar:'' @ to_lower username"

type_synonym similar_cache = "string \<Rightarrow> SimilarResponse option"

definition similar_page :: "nat \<Rightarrow> SimilarResponse \<Rightarrow> SimilarResponse" where
  "similar_page limit r = r\<lparr>sr_data := take limit (sr_data r)\<rparr>"

definition getSimilar :: "int \<Rightarrow> (string \<Rightarrow> SimilarResponse dbio) \<Rightarrow> string \<Rightarrow> nat \<Rightarrow> similar_cache \<Rightarrow> (SimilarResponse \<times> similar_cache) dbio" where
  "getSimilar now compute username limit cache = (case cache (similarCacheKey username) of
       Some r \<Rightarrow> ret (similar_page limit r, cache)
     | None \<Rightarrow> try_catch (bnd (compute username) (\<lambda>computed. ret (similar_page limit computed, cache(similarCacheKey username \<mapsto> computed))))
         (\<lambda>e. if is_kind NotFoundError e then throw e
              else ret (\<lparr>sr_data = [], sr_forUsername = username, sr_generatedAt = iso_string now, sr_stale = True\<rparr>, cache)))"

text \<open>The job: the ranking, and the similar creators of its first twenty, whose failures are skipped.\<close>

fun warm_similar :: "(string \<Rightarrow> SimilarResponse dbio) \<Rightarrow> TrendingCreator list \<Rightarrow> nat \<Rightarrow> similar_cache \<Rightarrow> (nat \<times> similar_cache) dbio" where
  "warm_similar compute [] n cache = ret (n, cache)"
| "warm_similar compute (c # cs) n cache = (if or_empty (tc_username c) = '''' then warm_similar compute cs n cache
     else bnd (try_catch (bnd (compute (or_empty (tc_username c))) (\<lambda>r. ret (n + 1, cache(similarCacheKey (or_empty (tc_username c)) \<mapsto> r))))
         (\<lambda>e. ret (n, cache))) (\<lambda>(m, cache'). warm_similar compute cs m cache'))"

definition refreshDiscoveryCache :: "TrendingResponse dbio \<Rightarrow> (string \<Rightarrow> SimilarResponse dbio) \<Rightarrow> similar_cache \<Rightarrow>
    ((nat \<times> nat) \<times> TrendingResponse \<times> similar_cache) dbio" where
  "refreshDiscoveryCache trending compute cache = bnd trending (\<lambda>t.
     bnd (warm_similar compute (take 20 (tn_data t)) 0 cache) (\<lambda>(n, cache'). ret ((length (tn_data t), n), t, cache')))"

section \<open>The ranking\<close>

lemma scored_groups:
  "computeTrendingScores pow_half ts now h =
     map (\<lambda>a. (a, sum_list (map (contribution pow_half now h) (filter (\<lambda>t. tip_to t = a) ts)))) (firsts (map tip_to ts))"
proof -
  have "fold (\<lambda>t s. s + contribution pow_half now h t) us v = v + sum_list (map (contribution pow_half now h) us)" for us v
    by (induction us arbitrary: v) simp_all
  then show ?thesis by (simp add: computeTrendingScores_def tally_groups)
qed

lemma volume_lookup:
  assumes "a \<in> set (map tip_to ts)"
  shows "map_of (tally tip_to add_volume (0, 0) ts) a =
     Some (volume (filter (\<lambda>t. tip_to t = a) ts), int (length (filter (\<lambda>t. tip_to t = a) ts)))"
  using assms by (simp add: tally_groups fold_volume map_of_map_restrict)

lemma score_lookup:
  assumes "a \<in> set (map tip_to ts)"
  shows "map_of (computeTrendingScores pow_half ts now h) a = Some (sum_list (map (contribution pow_half now h) (filter (\<lambda>t. tip_to t = a) ts)))"
  using assms by (simp add: scored_groups map_of_map_restrict)

lemma ranked_facts:
  fixes scoring :: "(string \<times> rat) list"
  assumes "distinct (map fst scoring)"
  shows "distinct (rankAddresses scoring n)" and "length (rankAddresses scoring n) \<le> n"
    and "set (rankAddresses scoring n) \<subseteq> fst ` set scoring"
    and "sorted_wrt (\<lambda>a b. the (map_of scoring b) \<le> the (map_of scoring a)) (rankAddresses scoring n)"
proof -
  define key where "key = (\<lambda>x :: string \<times> rat. (- snd x, fst x))"
  define l where "l = take n (sort_key key scoring)"
  have ranked: "rankAddresses scoring n = map fst l" by (simp add: rankAddresses_def l_def key_def)
  have within: "set l \<subseteq> set scoring" by (auto simp: l_def dest: in_set_takeD)
  have "distinct (map fst (sort_key key scoring))"
    using assms by (simp add: distinct_map)
  then show "distinct (rankAddresses scoring n)" unfolding ranked l_def by (simp add: take_map [symmetric] distinct_take)
  show "length (rankAddresses scoring n) \<le> n" unfolding ranked l_def by simp
  show "set (rankAddresses scoring n) \<subseteq> fst ` set scoring" unfolding ranked using within by auto
  have look: "map_of scoring (fst x) = Some (snd x)" if "x \<in> set l" for x
    using that within assms by (metis map_of_eq_Some_iff prod.collapse subsetD)
  have "sorted_wrt (\<lambda>x y. key x \<le> key y) (sort_key key scoring)" using sorted_sort_key [of key scoring] by (simp add: sorted_map)
  then have "sorted_wrt (\<lambda>x y. key x \<le> key y) l" unfolding l_def by (rule sorted_wrt_take)
  then have "sorted_wrt (\<lambda>x y. the (map_of scoring (fst y)) \<le> the (map_of scoring (fst x))) l"
    by (rule sorted_wrt_mono_rel [rotated]) (use look in \<open>auto simp: key_def less_eq_prod_def\<close>)
  then show "sorted_wrt (\<lambda>a b. the (map_of scoring b) \<le> the (map_of scoring a)) (rankAddresses scoring n)"
    unfolding ranked sorted_wrt_map .
qed

lemma user_map_row:
  assumes "user_map ranked d a = Some u"
  shows "u \<in> set (users d) \<and> u_address u = a \<and> \<not> isExcludedCreator u"
  using map_of_SomeD [OF assms [unfolded user_map_def]] by (auto simp: isExcludedCreator_def)

lemma with_ranks_facts:
  "map tc_rank (with_ranks es) = [1..<Suc (length es)]" (is ?ranks)
  "length (with_ranks es) = length es" (is ?len)
  "map tc_stellarAddress (with_ranks es) = map tc_stellarAddress es" (is ?addresses)
  "map tc_trendingScore (with_ranks es) = map tc_trendingScore es" (is ?scoring)
proof -
  show ?len by (simp add: with_ranks_def)
  show ?ranks by (rule nth_equalityI) (simp_all add: with_ranks_def del: upt_Suc)
  show ?addresses by (rule nth_equalityI) (simp_all add: with_ranks_def)
  show ?scoring by (rule nth_equalityI) (simp_all add: with_ranks_def)
qed

lemma with_ranks_mem: "x \<in> set (with_ranks es) \<Longrightarrow> \<exists>e\<in>set es. \<exists>n. x = e\<lparr>tc_rank := n\<rparr>"
  by (auto simp: with_ranks_def dest: set_zip_rightD)

text \<open>What an entry of the list should hold, given the tips of the window.\<close>

definition trending_exact :: "(rat \<Rightarrow> rat) \<Rightarrow> int \<Rightarrow> rat \<Rightarrow> tip_row list \<Rightarrow> db \<Rightarrow> TrendingCreator \<Rightarrow> bool" where
  "trending_exact pow_half now h ts d e \<longleftrightarrow>
     (let mine = filter (\<lambda>t. tip_to t = tc_stellarAddress e) ts
      in exists_row (\<lambda>u. u_address u = tc_stellarAddress e \<and> u_id u = tc_userId e \<and> \<not> isExcludedCreator u) (users d) \<and> mine \<noteq> [] \<and>
         tc_trendingScore e = sum_list (map (contribution pow_half now h) mine) \<and>
         tc_recentVolumeStroops e = show_int (volume mine) \<and> tc_recentTipCount e = int (length mine))"

lemma trending_exact_rank [simp]: "trending_exact pow_half now h ts d (e\<lparr>tc_rank := n\<rparr>) = trending_exact pow_half now h ts d e"
  by (simp add: trending_exact_def)

lemma trending_entry_exact:
  assumes "a \<in> set (map tip_to ts)" and "user_map ranked d a = Some u"
  shows "trending_exact pow_half now h ts d (trending_entry (computeTrendingScores pow_half ts now h) (tally tip_to add_volume (0, 0) ts) a u)"
proof -
  have "filter (\<lambda>t. tip_to t = a) ts \<noteq> []" using assms(1) by (auto simp: filter_empty_conv)
  then show ?thesis
    using user_map_row [OF assms(2)] score_lookup [OF assms(1)] volume_lookup [OF assms(1)]
    by (auto simp: trending_exact_def trending_entry_def Let_def exists_row_def list_ex_iff)
qed

text \<open>The trending list has at most the configured length and consecutive ranks from one, no creator twice and none that is
  deleted, deactivated, blocked or flagged; scores fall along it, and every entry holds the score, volume and number of exactly the
  confirmed tips its creator received within the window.\<close>

theorem trending_list_exact:
  "let es = trending_data pow_half cfg now d
   in map tc_rank es = [1..<Suc (length es)] \<and> length es \<le> dg_trendingTopN cfg \<and> distinct (map tc_stellarAddress es) \<and>
      sorted_wrt (\<lambda>e f. tc_trendingScore f \<le> tc_trendingScore e) es \<and>
      list_all (trending_exact pow_half now (dg_halflifeDays cfg) (trending_tips cfg now d) d) es"
proof -
  define ts where "ts = trending_tips cfg now d"
  define scoring where "scoring = computeTrendingScores pow_half ts now (dg_halflifeDays cfg)"
  define ranked where "ranked = rankAddresses scoring (dg_trendingTopN cfg)"
  define entry where "entry = trending_entry scoring (tally tip_to add_volume (0, 0) ts)"
  define shown where "shown = filter (\<lambda>a. user_map ranked d a \<noteq> None) ranked"
  define es where "es = map (\<lambda>a. entry a (the (user_map ranked d a))) shown"
  have "List.map_filter (\<lambda>a. map_option (entry a) (user_map ranked d a)) ranked = es"
    unfolding List.map_filter_def es_def shown_def by (rule map_cong) (auto intro!: filter_cong)
  then have data: "trending_data pow_half cfg now d = with_ranks es"
    by (simp add: trending_data_def ts_def scoring_def ranked_def entry_def Let_def)
  have keys: "map fst scoring = firsts (map tip_to ts)" by (simp add: scoring_def scored_groups comp_def)
  then have "distinct (map fst scoring)" by simp
  note facts = ranked_facts [OF this, of "dg_trendingTopN cfg", folded ranked_def]
  have from_tips: "a \<in> set (map tip_to ts)" if "a \<in> set ranked" for a
    using that facts(3) keys by (metis firsts_facts(1) list.set_map subsetD)
  have user: "user_map ranked d a = Some (the (user_map ranked d a))" if "a \<in> set shown" for a using that by (auto simp: shown_def)
  have shown: "a \<in> set ranked" if "a \<in> set shown" for a using that by (simp add: shown_def)
  have address: "tc_stellarAddress (entry a (the (user_map ranked d a))) = a" if "a \<in> set shown" for a
    using user_map_row [OF user [OF that]] by (simp add: entry_def trending_entry_def Let_def)
  then have "map tc_stellarAddress es = shown" by (simp add: es_def map_idI)
  moreover have "distinct shown" using facts(1) by (simp add: shown_def)
  moreover have "length es \<le> dg_trendingTopN cfg" using facts(2) by (simp add: es_def shown_def) (meson le_trans length_filter_le)
  moreover have "sorted_wrt (\<lambda>e f. tc_trendingScore f \<le> tc_trendingScore e) (with_ranks es)"
  proof -
    have "sorted_wrt (\<lambda>a b. the (map_of scoring b) \<le> the (map_of scoring a)) shown" unfolding shown_def by (rule sorted_wrt_filter [OF facts(4)])
    moreover have "map tc_trendingScore es = map (\<lambda>a. the (map_of scoring a)) shown"
      unfolding es_def map_map
      by (rule map_cong) (use score_lookup from_tips shown in \<open>auto simp: entry_def trending_entry_def Let_def scoring_def\<close>)
    ultimately have "sorted_wrt (\<lambda>x y. y \<le> x) (map tc_trendingScore (with_ranks es))" by (simp add: sorted_wrt_map with_ranks_facts)
    then show ?thesis unfolding sorted_wrt_map .
  qed
  moreover have "list_all (trending_exact pow_half now (dg_halflifeDays cfg) ts d) (with_ranks es)"
  proof -
    have "trending_exact pow_half now (dg_halflifeDays cfg) ts d e" if "e \<in> set es" for e
      using that trending_entry_exact [OF from_tips [OF shown] user] unfolding es_def entry_def scoring_def by auto
    then show ?thesis by (auto simp: list_all_iff dest: with_ranks_mem)
  qed
  ultimately show ?thesis by (simp add: data ts_def Let_def with_ranks_facts del: upt_Suc)
qed

section \<open>Common supporters\<close>

text \<open>The supporters two creators share.\<close>

definition shared_with :: "string set \<Rightarrow> tip_row list \<Rightarrow> string \<Rightarrow> string set" where
  "shared_with supporters ts a = {f \<in> supporters. f \<noteq> a \<and> list_ex (\<lambda>t. tip_to t = a \<and> tip_from t = f) ts}"

lemma fold_insert:
  "set (fold (\<lambda>t s. List.insert (tip_from t) s) us s) = tip_from ` set us \<union> set s"
  "distinct s \<Longrightarrow> distinct (fold (\<lambda>t s. List.insert (tip_from t) s) us s)"
  by (induction us arbitrary: s) auto

lemma overlap_length:
  assumes "(a, s) \<in> set (overlap_sets supporters ts)"
  shows "length s = card (shared_with supporters ts a) \<and> s \<noteq> []"
proof -
  define found where "found = filter (\<lambda>t. tip_to t \<noteq> tip_from t \<and> tip_from t \<in> supporters) ts"
  have s: "s = fold (\<lambda>t s. List.insert (tip_from t) s) (filter (\<lambda>t. tip_to t = a) found) []" and a: "a \<in> tip_to ` set found"
    using assms by (auto simp: overlap_sets_def tally_groups found_def)
  have "set s = shared_with supporters ts a"
    unfolding s fold_insert(1) shared_with_def found_def by (auto simp: list_ex_iff)
  moreover have "distinct s" unfolding s by (rule fold_insert(2)) simp
  moreover have "set s \<noteq> {}" unfolding s fold_insert(1) using a by (auto simp: filter_empty_conv)
  ultimately show ?thesis using distinct_card by force
qed

text \<open>The creators found similar are each listed once, at most as many as configured, by the number of supporters they share with
  the creator downwards, and that number counts each common supporter once and never the creator itself.\<close>

theorem similar_counts_shared_supporters:
  "let rs = rankByOverlap supporters ts topN
   in length rs \<le> topN \<and> distinct (map ov_address rs) \<and> sorted_wrt (\<lambda>r s. ov_shared s \<le> ov_shared r) rs \<and>
      list_all (\<lambda>r. ov_shared r = card (shared_with supporters ts (ov_address r)) \<and> 0 < ov_shared r) rs"
proof -
  define row where "row = (\<lambda>(a, s :: string list). \<lparr>ov_address = a, ov_shared = length s, ov_total = length s\<rparr>)"
  define rows where "rows = map row (overlap_sets supporters ts)"
  define key where "key = (\<lambda>r :: overlap. (- int (ov_shared r), ov_address r))"
  define rs where "rs = take topN (sort_key key rows)"
  have ranked: "rankByOverlap supporters ts topN = rs" by (simp add: rankByOverlap_def rs_def key_def rows_def row_def)
  have within: "r \<in> set rows" if "r \<in> set rs" for r using that by (auto simp: rs_def dest: in_set_takeD)
  have "map ov_address rows = map fst (overlap_sets supporters ts)" by (simp add: rows_def row_def comp_def case_prod_beta)
  moreover have "distinct (map fst (overlap_sets supporters ts))" by (simp add: overlap_sets_def tally_keys)
  ultimately have "distinct (map ov_address rows)" by simp
  then have "distinct (map ov_address (sort_key key rows))" by (simp add: distinct_map)
  then have "distinct (map ov_address rs)" unfolding rs_def by (simp add: take_map [symmetric] distinct_take)
  moreover have "sorted_wrt (\<lambda>r s. ov_shared s \<le> ov_shared r) rs"
  proof -
    have "sorted_wrt (\<lambda>x y. key x \<le> key y) (sort_key key rows)" using sorted_sort_key [of key rows] by (simp add: sorted_map)
    then have "sorted_wrt (\<lambda>x y. key x \<le> key y) rs" unfolding rs_def by (rule sorted_wrt_take)
    then show ?thesis by (rule sorted_wrt_mono_rel [rotated]) (auto simp: key_def less_eq_prod_def)
  qed
  moreover have "list_all (\<lambda>r. ov_shared r = card (shared_with supporters ts (ov_address r)) \<and> 0 < ov_shared r) rs"
    unfolding list_all_iff using within overlap_length by (fastforce simp: rows_def row_def)
  ultimately show ?thesis by (simp add: ranked rs_def Let_def)
qed

text \<open>What is shown as all supporters of a similar creator is the number of shared ones.\<close>

lemma supporter_count_is_shared: "list_all (\<lambda>e. sm_supporterCount e = sm_sharedSupporters e) (similar_data cfg user d)"
proof -
  have "ov_total r = ov_shared r" if "r \<in> set (rankByOverlap supporters ts n)" for r supporters ts n
    using that by (auto simp: rankByOverlap_def dest!: in_set_takeD)
  then show ?thesis by (auto simp: similar_data_def Let_def list_all_iff List.map_filter_def)
qed

text \<open>The cache ignores the case of names, the store does not: a name that nobody has is served the answer of another.\<close>

lemma other_case_is_served:
  assumes "cache (similarCacheKey name) = Some r" and "to_lower other = to_lower name"
  shows "fst (getSimilar now compute other limit cache d) = Inr (similar_page limit r, cache)"
  using assms by (simp add: getSimilar_def similarCacheKey_def)

text \<open>Deleted creators stay in the trending cache until it is filled again.\<close>

lemma cached_list_is_served:
  "fst (getTrending cfg now compute limit offset (Some r) d) = Inr (trending_page limit offset r, Some r)"
  by (simp add: getTrending_def)

end
