(* ===== verification/Observability.thy ===== *)
theory Observability
  imports JsValues
begin

text \<open>
  What the server tells about itself: the health of the indexer (\<open>backend/src/indexer/monitor.ts\<close>) and the redaction of logged values
  (\<open>common/utils/logRedaction.ts\<close>). The counters of the module are a record; the head of the chain and the stored cursor are arguments.
\<close>

section \<open>The monitor of the indexer\<close>

record ReorgObservation =
  ro_topic :: string
  ro_forkLedger :: int
  ro_divergedAt :: "int option"
  ro_removed :: "nat \<times> nat \<times> nat"
  ro_at :: int

record monitor =
  mo_lastProcessedLedger :: "int option"
  mo_lastTickProcessed :: nat
  mo_eventsProcessedTotal :: nat
  mo_errorsTotal :: nat
  mo_unchangedIntervals :: nat
  mo_reorgsTotal :: nat
  mo_lastReorg :: "ReorgObservation option"

definition resetIndexerMonitor :: monitor where
  "resetIndexerMonitor = \<lparr>mo_lastProcessedLedger = None, mo_lastTickProcessed = 0, mo_eventsProcessedTotal = 0, mo_errorsTotal = 0,
     mo_unchangedIntervals = 0, mo_reorgsTotal = 0, mo_lastReorg = None\<rparr>"

definition recordIndexerTick :: "nat \<Rightarrow> monitor \<Rightarrow> monitor" where
  "recordIndexerTick processed m =
     (let previous = mo_lastProcessedLedger m;
          m' = m\<lparr>mo_eventsProcessedTotal := mo_eventsProcessedTotal m + processed, mo_lastTickProcessed := processed\<rparr>
      in if previous = mo_lastProcessedLedger m' then m'\<lparr>mo_unchangedIntervals := mo_unchangedIntervals m' + 1\<rparr>
         else m'\<lparr>mo_unchangedIntervals := 0\<rparr>)"

definition noteProcessedLedger :: "int \<Rightarrow> monitor \<Rightarrow> monitor" where
  "noteProcessedLedger ledger m =
     m\<lparr>mo_lastProcessedLedger := Some (max (case mo_lastProcessedLedger m of None \<Rightarrow> -1 | Some l \<Rightarrow> l) ledger)\<rparr>"

definition noteIndexerError :: "monitor \<Rightarrow> monitor" where
  "noteIndexerError m = m\<lparr>mo_errorsTotal := mo_errorsTotal m + 1\<rparr>"

definition noteReorg :: "ReorgObservation \<Rightarrow> monitor \<Rightarrow> monitor" where
  "noteReorg r m = m\<lparr>mo_reorgsTotal := mo_reorgsTotal m + 1, mo_lastReorg := Some r\<rparr>"

definition isStalled :: "nat \<Rightarrow> monitor \<Rightarrow> bool" where
  "isStalled stallIntervals m \<longleftrightarrow> stallIntervals \<le> mo_unchangedIntervals m"

record IndexerMonitorReport =
  im_lagLedgers :: int
  im_latestLedger :: int
  im_lastProcessedLedger :: "int option"
  im_stalled :: bool
  im_lastTickProcessed :: nat
  im_eventsProcessedTotal :: nat
  im_errorsTotal :: nat
  im_reorgsTotal :: nat
  im_lastReorg :: "ReorgObservation option"
  im_healthy :: bool

definition getIndexerReport :: "nat \<Rightarrow> int \<Rightarrow> int option \<Rightarrow> int \<Rightarrow> monitor \<Rightarrow> IndexerMonitorReport \<times> monitor" where
  "getIndexerReport stallIntervals lagThreshold persisted latestLedger m0 =
     (let m = (if persisted \<noteq> None \<and> mo_lastProcessedLedger m0 = None then m0\<lparr>mo_lastProcessedLedger := persisted\<rparr> else m0);
          lag = (case mo_lastProcessedLedger m of None \<Rightarrow> latestLedger | Some l \<Rightarrow> max 0 (latestLedger - l));
          stalled = isStalled stallIntervals m;
          m' = (if stalled \<and> 0 < mo_lastTickProcessed m then m\<lparr>mo_unchangedIntervals := 0\<rparr> else m)
      in (\<lparr>im_lagLedgers = lag, im_latestLedger = latestLedger, im_lastProcessedLedger = mo_lastProcessedLedger m, im_stalled = stalled,
           im_lastTickProcessed = mo_lastTickProcessed m, im_eventsProcessedTotal = mo_eventsProcessedTotal m,
           im_errorsTotal = mo_errorsTotal m, im_reorgsTotal = mo_reorgsTotal m, im_lastReorg = mo_lastReorg m,
           im_healthy = (\<not> stalled \<and> lag \<le> lagThreshold)\<rparr>, m'))"

text \<open>What the indexer does between two reports: a poll projects events, noting the ledgers, and ends with a tick.\<close>

datatype indexer_event = Tick nat | Processed int | Failed_event | Reorganised ReorgObservation

fun observe :: "indexer_event \<Rightarrow> monitor \<Rightarrow> monitor" where
  "observe (Tick n) m = recordIndexerTick n m"
| "observe (Processed l) m = noteProcessedLedger l m"
| "observe Failed_event m = noteIndexerError m"
| "observe (Reorganised r) m = noteReorg r m"

fun is_tick :: "indexer_event \<Rightarrow> bool" where
  "is_tick (Tick n) = True"
| "is_tick _ = False"

lemma unchanged_counts: "mo_unchangedIntervals (fold observe es m) = mo_unchangedIntervals m + length (filter is_tick es)"
proof (induction es arbitrary: m)
  case (Cons e es)
  then show ?case
    by (cases e) (simp_all add: recordIndexerTick_def noteProcessedLedger_def noteIndexerError_def noteReorg_def Let_def)
qed simp

text \<open>The report calls the indexer stalled exactly when as many polls as configured have ended since the start, however far each of
  them has moved; the ledger it compares with cannot have changed in between.\<close>

theorem stalled_counts_polls:
  "im_stalled (fst (getIndexerReport stallIntervals lagThreshold persisted latestLedger (fold observe es resetIndexerMonitor))) =
     (stallIntervals \<le> length (filter is_tick es))"
  using unchanged_counts [of es resetIndexerMonitor]
  by (simp add: getIndexerReport_def isStalled_def Let_def resetIndexerMonitor_def)

section \<open>Redaction\<close>

definition truncateStellarAddress :: "string option \<Rightarrow> string option" where
  "truncateStellarAddress address = (case address of
       None \<Rightarrow> None
     | Some a \<Rightarrow> if a = [] then None
         else if length a = 56 \<and> starts_with a ''G'' then Some (take 4 a @ ''...'' @ drop (length a - 4) a)
         else if 8 < length a then Some (take 4 a @ ''...'' @ drop (length a - 4) a)
         else Some a)"

definition truncateEmail :: "string option \<Rightarrow> string option" where
  "truncateEmail email = (case email of
       None \<Rightarrow> None
     | Some e \<Rightarrow> if e = [] then None
         else if CHR ''@'' \<notin> set e then Some ''***@unknown''
         else Some (''***'' @ dropWhile (\<lambda>c. c \<noteq> CHR ''@'') e))"

definition truncateMessage :: "string option \<Rightarrow> string option" where
  "truncateMessage message = (case message of
       None \<Rightarrow> None
     | Some m \<Rightarrow> if m = [] then None
         else if 50 < length m then Some (take 50 m @ ''... (total: '' @ show_nat (length m) @ '' chars)'')
         else Some m)"

definition sensitiveKeys :: "string list" where
  "sensitiveKeys = [''password'', ''token'', ''accessToken'', ''refreshToken'', ''apiKey'', ''privateKey'', ''secret'', ''authorization'',
     ''cookie'', ''signature'']"

definition REDACTED :: jsval where
  "REDACTED = JStr ''[REDACTED]''"

text \<open>The copy of an object has its own enumerable properties; those of an array are its indices.\<close>

definition own_enumerable :: "js_class \<Rightarrow> string \<Rightarrow> bool" where
  "own_enumerable c k \<longleftrightarrow> \<not> (c \<noteq> PlainObject \<and> (k = ''message'' \<or> k = ''stack''))"

fun sanitizeForLogging :: "jsval \<Rightarrow> jsval" where
  "sanitizeForLogging (JObj c fs) = JObj PlainObject (map (\<lambda>(k, v). (k, if k \<in> set sensitiveKeys then REDACTED else sanitizeForLogging v))
     (filter (\<lambda>f. own_enumerable c (fst f)) fs))"
| "sanitizeForLogging (JArr xs) = JObj PlainObject (zip (map show_nat [0..<length xs]) (map sanitizeForLogging xs))"
| "sanitizeForLogging v = v"

text \<open>No property with a sensitive name has another value, at any depth.\<close>

fun redacted :: "jsval \<Rightarrow> bool" where
  "redacted (JObj c fs) = list_all (\<lambda>(k, v). (if k \<in> set sensitiveKeys then v = REDACTED else redacted v)) fs"
| "redacted (JArr xs) = list_all redacted xs"
| "redacted v = True"

lemma digits_only: "all_digits s \<Longrightarrow> s \<notin> set sensitiveKeys"
  by (auto simp: sensitiveKeys_def all_digits_def is_digit_def char_code_def)

lemma index_not_sensitive: "show_nat n \<notin> set sensitiveKeys"
  by (rule digits_only) simp

lemma own_enumerable_plain [simp]: "own_enumerable PlainObject k"
  by (simp add: own_enumerable_def)

lemma sanitized_redacted: "redacted (sanitizeForLogging v)"
proof (induction v rule: sanitizeForLogging.induct)
  case (1 c fs)
  then show ?case by (fastforce simp: list_all_iff)
next
  case (2 xs)
  have "k \<notin> set sensitiveKeys \<and> redacted v" if "(k, v) \<in> set (zip (map show_nat [0..<length xs]) (map sanitizeForLogging xs))" for k v
    using set_zip_leftD [OF that] set_zip_rightD [OF that] 2 index_not_sensitive by auto
  then show ?case by (auto simp: list_all_iff)
qed simp_all

lemma sanitized_again: "sanitizeForLogging (sanitizeForLogging v) = sanitizeForLogging v"
proof (induction v rule: sanitizeForLogging.induct)
  case (1 c fs)
  then show ?case by (auto simp: REDACTED_def)
next
  case (2 xs)
  have "map (\<lambda>(k, v). (k, if k \<in> set sensitiveKeys then REDACTED else sanitizeForLogging v)) (zip (map show_nat is) (map sanitizeForLogging ys)) =
      zip (map show_nat is) (map sanitizeForLogging ys)" if "set ys \<subseteq> set xs" for ys "is"
    using that
  proof (induction ys arbitrary: "is")
    case (Cons y ys)
    then show ?case using 2 by (cases "is") (simp_all add: index_not_sensitive)
  qed simp
  then show ?case by simp
qed simp_all

text \<open>A sanitised value has no property with a sensitive name other than redacted, at any depth, and sanitising it again changes
  nothing.\<close>

theorem sanitised_log_has_no_secrets:
  "redacted (sanitizeForLogging v) \<and> sanitizeForLogging (sanitizeForLogging v) = sanitizeForLogging v"
  using sanitized_redacted sanitized_again by blast

text \<open>Names are compared as they are, so the same header in another case is logged.\<close>

lemma other_case_is_logged: "sanitizeForLogging (JObj PlainObject [(''Authorization'', JStr v)]) = JObj PlainObject [(''Authorization'', JStr v)]"
  by (simp add: sensitiveKeys_def)

end
