(* ===== verification/XMetrics.thy ===== *)
theory XMetrics
  imports Resilience Tables
begin

text \<open>
  The metrics of X accounts (\<open>backend/src/modules/x/x.service.ts\<close>) and the job that refreshes them
  (\<open>jobs/xMetricsRefresh.worker.ts\<close>): requests behind the circuit breaker with their retries and waits, and the stored row as the
  answer of last resort. The service itself is a parameter: what it answers, and when, may depend on every request made so far.
\<close>

section \<open>State\<close>

record XAccountMetrics =
  xm_handle :: string
  xm_followers :: int
  xm_engagement :: "rat option"
  xm_fetchedAt :: int

record public_metrics =
  pm_followers_count :: int
  pm_tweet_count :: int

text \<open>An answer: its status, headers and body; the body may be no JSON, or lack the account's data.\<close>

datatype x_body = Not_json | No_data | User public_metrics

datatype x_answer = Timed_out | Aborted | Unreachable
  | Answer int string "string \<Rightarrow> string option" x_body

record x_state =
  xs_accounts :: "XAccountMetrics list"
  xs_breaker :: breaker
  xs_now :: int
  xs_requests :: "string list"

type_synonym 'a x_io = "(x_state, jsval, 'a) io"

text \<open>The service: the answer to the last of the requests made, and the time it takes.\<close>

type_synonym x_service = "string list \<Rightarrow> x_answer \<times> nat"

record x_api =
  xa_baseUrl :: string
  xa_bearerToken :: "string option"
  xa_service :: x_service
  xa_random :: "nat \<Rightarrow> rat"

section \<open>Waiting\<close>

definition maxRetries :: nat where
  "maxRetries = 3"

text \<open>\<open>parseInt(s, 10)\<close>: the digits after white space and a sign, if there are any.\<close>

definition js_parseInt :: "string \<Rightarrow> jsnum" where
  "js_parseInt s =
     (let t = dropWhile is_space s;
          signed = (t \<noteq> [] \<and> hd t \<in> {CHR ''+'', CHR ''-''});
          digits = takeWhile is_digit (if signed then tl t else t)
      in if digits = [] then NaN
         else j_int (if signed \<and> hd t = CHR ''-'' then - int (parse_nat digits) else int (parse_nat digits)))"

definition headers_delay :: "(string \<Rightarrow> string option) \<Rightarrow> int \<Rightarrow> jsnum option" where
  "headers_delay headers now =
     (case headers ''retry-after'' of
        Some (c # cs) \<Rightarrow> Some (j_mul (js_parseInt (c # cs)) (Fin 1000))
      | _ \<Rightarrow>
          (case headers ''x-rate-limit-reset'' of
             Some (c # cs) \<Rightarrow>
               (let wait = j_add (j_mul (js_parseInt (c # cs)) (Fin 1000)) (j_int (- now))
                in if j_lt (Fin 0) wait then Some (j_add wait (Fin 1000)) else None)
           | _ \<Rightarrow> None))"

definition computeBackoffDelay :: "rat \<Rightarrow> nat \<Rightarrow> (string \<Rightarrow> string option) \<Rightarrow> int \<Rightarrow> jsnum" where
  "computeBackoffDelay random attempt headers now =
     (case headers_delay headers now of
        Some d \<Rightarrow> d
      | None \<Rightarrow> Fin (min (1000 * 2 ^ attempt + random * 1000) 30000))"

text \<open>\<open>setTimeout\<close> waits one millisecond when the delay is no number between 1 and \<open>2 ^ 31 - 1\<close>.\<close>

definition timer_wait :: "jsnum \<Rightarrow> int" where
  "timer_wait d = (case d of Fin q \<Rightarrow> if 1 \<le> q \<and> q \<le> 2147483647 then \<lfloor>q\<rfloor> else 1 | _ \<Rightarrow> 1)"

section \<open>Requests\<close>

definition request_url :: "x_api \<Rightarrow> string \<Rightarrow> string" where
  "request_url api handle = xa_baseUrl api @ ''/users/by/username/'' @ handle @ ''?user.fields=public_metrics''"

definition send_request :: "x_api \<Rightarrow> string \<Rightarrow> x_answer x_io" where
  "send_request api url = (\<lambda>s.
     let requests = xs_requests s @ [url]
     in case xa_service api requests of (answer, took) \<Rightarrow>
          (Inr answer, s\<lparr>xs_requests := requests, xs_now := xs_now s + int took\<rparr>))"

definition wait_for :: "jsnum \<Rightarrow> unit x_io" where
  "wait_for d = modify (\<lambda>s. s\<lparr>xs_now := xs_now s + timer_wait d\<rparr>)"

definition rate_limited :: "x_api \<Rightarrow> nat \<Rightarrow> (string \<Rightarrow> string option) \<Rightarrow> 'a x_io" where
  "rate_limited api attempt headers =
     (if attempt < maxRetries
      then bnd (gets (\<lambda>s. computeBackoffDelay (xa_random api (length (xs_requests s))) attempt headers (xs_now s))) (\<lambda>delay.
           andthen (wait_for delay) (throw (service_unavailable ''X API rate limit exceeded'')))
      else throw (service_unavailable ''X API rate limit exceeded''))"

text \<open>The answer of a request as the value or the error it becomes; \<open>No_data\<close> is a body like any other here.\<close>

definition handle_answer :: "x_api \<Rightarrow> string \<Rightarrow> nat \<Rightarrow> x_answer \<Rightarrow> public_metrics option x_io" where
  "handle_answer api handle attempt answer =
     (case answer of
        Timed_out \<Rightarrow> throw (service_unavailable ''X API request timed out'')
      | Aborted \<Rightarrow> throw (service_unavailable ''X API request cancelled'')
      | Unreachable \<Rightarrow> throw (service_unavailable ''Failed to connect to X API'')
      | Answer status statusText headers body \<Rightarrow>
          (if 200 \<le> status \<and> status \<le> 299 then
             (case body of
                Not_json \<Rightarrow> throw (js_error ''Unexpected token in JSON'')
              | No_data \<Rightarrow> ret None
              | User m \<Rightarrow> ret (Some m))
           else if status = 404 then throw (not_found (''X user @'' @ handle @ '' not found''))
           else if status = 429 then rate_limited api attempt headers
           else if 500 \<le> status then throw (service_unavailable ''X API is currently unavailable'')
           else throw (bad_request (''X API error: '' @ statusText))))"

definition executeFetch :: "x_api \<Rightarrow> string \<Rightarrow> nat \<Rightarrow> public_metrics option x_io" where
  "executeFetch api handle attempt =
     bnd (send_request api (request_url api handle)) (\<lambda>answer. handle_answer api handle attempt answer)"

text \<open>The loop over the attempts, by the number of retries that are left.\<close>

fun fetch_attempts :: "x_api \<Rightarrow> string \<Rightarrow> nat \<Rightarrow> public_metrics option x_io" where
  "fetch_attempts api handle 0 = executeFetch api handle maxRetries"
| "fetch_attempts api handle (Suc left) =
     try_catch (executeFetch api handle (maxRetries - Suc left)) (\<lambda>e.
       if is_kind NotFoundError e \<or> is_kind BadRequestError e then throw e else fetch_attempts api handle left)"

definition breaker_call :: "'a x_io \<Rightarrow> 'a x_io" where
  "breaker_call m = (\<lambda>s.
     case cb_admit (xs_now s) (xs_breaker s) of
       (Inl e, b) \<Rightarrow> (Inl e, s\<lparr>xs_breaker := b\<rparr>)
     | (Inr _, b) \<Rightarrow>
         (case m (s\<lparr>xs_breaker := b\<rparr>) of
            (Inr a, s') \<Rightarrow> (Inr a, s'\<lparr>xs_breaker := cb_success (xs_breaker s')\<rparr>)
          | (Inl e, s') \<Rightarrow> (Inl e, s'\<lparr>xs_breaker := cb_failure (xs_now s') (xs_breaker s')\<rparr>)))"

definition fetchUserByHandle :: "x_api \<Rightarrow> string \<Rightarrow> public_metrics option x_io" where
  "fetchUserByHandle api handle =
     (if or_empty (xa_bearerToken api) = [] then throw (service_unavailable ''X API bearer token not configured'')
      else breaker_call (fetch_attempts api handle maxRetries))"

section \<open>Metrics\<close>

text \<open>\<open>parseFloat(x.toFixed(4))\<close>, of an exact quotient.\<close>

definition round4 :: "rat \<Rightarrow> rat" where
  "round4 x = of_int \<lfloor>x * 10000 + 1 / 2\<rfloor> / 10000"

definition normalizeXMetrics :: "string \<Rightarrow> int \<Rightarrow> public_metrics \<Rightarrow> XAccountMetrics" where
  "normalizeXMetrics handle now m =
     (let engagement = (if 0 < pm_followers_count m then of_int (pm_tweet_count m) / of_int (pm_followers_count m) else 0)
      in \<lparr>xm_handle = handle, xm_followers = pm_followers_count m, xm_engagement = Some (round4 engagement),
          xm_fetchedAt = now\<rparr>)"

definition store_metrics :: "XAccountMetrics \<Rightarrow> unit x_io" where
  "store_metrics m = modify (\<lambda>s. s\<lparr>xs_accounts := upsert_row xm_handle (xm_handle m) m
     (\<lambda>r. r\<lparr>xm_followers := xm_followers m, xm_engagement := xm_engagement m, xm_fetchedAt := xm_fetchedAt m\<rparr>)
     (xs_accounts s)\<rparr>)"

definition fresh_metrics :: "x_api \<Rightarrow> string \<Rightarrow> XAccountMetrics x_io" where
  "fresh_metrics api handle =
     bnd (fetchUserByHandle api handle) (\<lambda>answer.
     bnd (require answer (js_error ''Cannot destructure property'')) (\<lambda>m.
     bnd (gets (\<lambda>s. normalizeXMetrics handle (xs_now s) m)) (\<lambda>metrics.
     andthen (store_metrics metrics) (ret metrics))))"

definition cached_metrics :: "int \<Rightarrow> string \<Rightarrow> jsval \<Rightarrow> XAccountMetrics x_io" where
  "cached_metrics maxCacheAge handle e =
     bnd (gets (\<lambda>s. (find_by xm_handle handle (xs_accounts s), xs_now s))) (\<lambda>(cached, now).
       case cached of
         None \<Rightarrow> throw e
       | Some r \<Rightarrow> if now - xm_fetchedAt r \<le> maxCacheAge then ret r else throw e)"

definition DAY_OF_MS :: int where
  "DAY_OF_MS = 24 * 60 * 60 * 1000"

definition fetchXMetrics :: "x_api \<Rightarrow> bool option \<Rightarrow> int option \<Rightarrow> string \<Rightarrow> XAccountMetrics x_io" where
  "fetchXMetrics api useFallback maxCacheAge handle =
     try_catch (fresh_metrics api handle) (\<lambda>e.
       if is_kind ServiceUnavailableError e \<and> or_else useFallback True
       then cached_metrics (or_else maxCacheAge DAY_OF_MS) handle e
       else throw e)"

definition getCachedXMetrics :: "string \<Rightarrow> XAccountMetrics option x_io" where
  "getCachedXMetrics handle = gets (\<lambda>s. find_by xm_handle handle (xs_accounts s))"

definition clearCachedXMetrics :: "string \<Rightarrow> unit x_io" where
  "clearCachedXMetrics handle = modify (\<lambda>s. s\<lparr>xs_accounts := delete_rows (\<lambda>r. xm_handle r = handle) (xs_accounts s)\<rparr>)"

section \<open>The refresh job\<close>

fun refresh_accounts :: "x_api \<Rightarrow> string list \<Rightarrow> nat \<times> nat \<Rightarrow> (nat \<times> nat) x_io" where
  "refresh_accounts api [] counts = ret counts"
| "refresh_accounts api (handle # handles) (processed, failed) =
     bnd (try_catch (bnd (fetchXMetrics api (Some False) None handle) (\<lambda>_. ret (processed + 1, failed)))
       (\<lambda>_. ret (processed, failed + 1))) (\<lambda>counts. refresh_accounts api handles counts)"

definition refreshAllXMetrics :: "x_api \<Rightarrow> (nat \<times> nat) x_io" where
  "refreshAllXMetrics api = bnd (gets (\<lambda>s. map xm_handle (xs_accounts s))) (\<lambda>handles. refresh_accounts api handles (0, 0))"

section \<open>What a fetch changes\<close>

text \<open>A part of a fetch adds at most \<open>n\<close> requests of one URL and changes no row and not the breaker.\<close>

definition quiet :: "string \<Rightarrow> nat \<Rightarrow> x_state \<Rightarrow> x_state \<Rightarrow> bool" where
  "quiet url n s s' \<longleftrightarrow> xs_accounts s' = xs_accounts s \<and> xs_breaker s' = xs_breaker s \<and> xs_now s \<le> xs_now s' \<and>
     (\<exists>k\<le>n. xs_requests s' = xs_requests s @ replicate k url)"

lemma quiet_refl [simp]: "quiet url n s s"
  unfolding quiet_def by force

lemma quiet_trans: "quiet url m s s' \<Longrightarrow> quiet url n s' s'' \<Longrightarrow> quiet url (m + n) s s''"
  unfolding quiet_def by (auto simp: replicate_add [symmetric] intro!: add_mono)

lemma timer_wait_pos: "1 \<le> timer_wait d"
  by (auto simp: timer_wait_def le_floor_iff split: jsnum.splits)

lemma wait_quiet: "quiet url 0 s (snd (wait_for d s))"
  using timer_wait_pos [of d] by (simp add: wait_for_def quiet_def)

lemma rate_limited_quiet: "quiet url 0 s (snd (rate_limited api attempt headers s))"
proof -
  have "quiet url 0 s (s\<lparr>xs_now := xs_now s + timer_wait d\<rparr>)" for d
    using wait_quiet [of url s d] by (simp add: wait_for_def)
  then show ?thesis by (simp add: rate_limited_def wait_for_def)
qed

lemma answer_quiet: "quiet url 0 s (snd (handle_answer api handle attempt answer s))"
  by (simp add: handle_answer_def rate_limited_quiet split: x_answer.split x_body.split)

lemma execute_quiet: "quiet (request_url api handle) 1 s (snd (executeFetch api handle attempt s))"
proof -
  let ?u = "request_url api handle"
  obtain a t where a: "xa_service api (xs_requests s @ [?u]) = (a, t)" by fastforce
  let ?s = "s\<lparr>xs_requests := xs_requests s @ [?u], xs_now := xs_now s + int t\<rparr>"
  have "executeFetch api handle attempt s = handle_answer api handle attempt a ?s"
    by (simp add: executeFetch_def send_request_def bnd_def a Let_def)
  moreover have "quiet ?u 1 s ?s" by (auto simp: quiet_def intro!: exI [of _ 1])
  ultimately show ?thesis using quiet_trans [OF _ answer_quiet [of ?u ?s]] by force
qed

lemma attempts_quiet: "quiet (request_url api handle) (Suc left) s (snd (fetch_attempts api handle left s))"
proof (induction "left" arbitrary: s)
  case 0
  then show ?case using execute_quiet [of api handle s] by simp
next
  case (Suc left)
  obtain r s' where run: "executeFetch api handle (maxRetries - Suc left) s = (r, s')" by fastforce
  with execute_quiet [of api handle s "maxRetries - Suc left"] have one: "quiet (request_url api handle) 1 s s'" by simp
  from quiet_trans [OF this Suc.IH] quiet_trans [OF this quiet_refl [of _ "Suc left"]] show ?case
    by (auto simp: try_catch_def run split: sum.splits)
qed

text \<open>The last answer of the service is an account's data, or one without.\<close>

definition answered :: "x_api \<Rightarrow> x_state \<Rightarrow> public_metrics option \<Rightarrow> bool" where
  "answered api s r =
     (case fst (xa_service api (xs_requests s)) of
        Answer status statusText headers body \<Rightarrow> 200 \<le> status \<and> status \<le> 299 \<and>
          (case body of Not_json \<Rightarrow> False | No_data \<Rightarrow> r = None | User m \<Rightarrow> r = Some m)
      | _ \<Rightarrow> False)"

lemma answered_breaker [simp]: "answered api (s\<lparr>xs_breaker := b\<rparr>) r = answered api s r"
  by (simp add: answered_def)

lemma execute_answer:
  assumes "executeFetch api handle attempt s = (Inr r, s')"
  shows "answered api s' r"
  using assms
  by (auto simp: answered_def executeFetch_def send_request_def bnd_def handle_answer_def rate_limited_def wait_for_def andthen_def Let_def
    split: prod.splits x_answer.splits x_body.splits if_splits)

lemma attempts_answer:
  assumes "fetch_attempts api handle left s = (Inr r, s')"
  shows "answered api s' r"
  using assms
proof (induction "left" arbitrary: s)
  case 0
  then show ?case using execute_answer [of api handle maxRetries s r s'] by simp
next
  case (Suc left)
  obtain q t where run: "executeFetch api handle (maxRetries - Suc left) s = (q, t)" by fastforce
  with Suc.prems Suc.IH [of t] execute_answer [of api handle "maxRetries - Suc left" s r s'] show ?case
    by (cases q) (auto simp: try_catch_def split: if_splits)
qed

text \<open>The same of a whole call, which may change the breaker.\<close>

definition fetched :: "string \<Rightarrow> x_state \<Rightarrow> x_state \<Rightarrow> bool" where
  "fetched url s s' \<longleftrightarrow> xs_accounts s' = xs_accounts s \<and> xs_now s \<le> xs_now s' \<and>
     (\<exists>k\<le>4. xs_requests s' = xs_requests s @ replicate k url)"

lemma fetch_user_fetched: "fetched (request_url api handle) s (snd (fetchUserByHandle api handle s))"
proof -
  have r: "fetched (request_url api handle) s (s\<lparr>xs_breaker := b\<rparr>)" "fetched (request_url api handle) s s" for b
    by (force simp: fetched_def)+
  have q: "fetched (request_url api handle) s (t\<lparr>xs_breaker := b'\<rparr>)"
    if "fetch_attempts api handle maxRetries (s\<lparr>xs_breaker := b\<rparr>) = (r, t)" for b b' r t
    using attempts_quiet [of api handle maxRetries "s\<lparr>xs_breaker := b\<rparr>"] that
    by (auto simp: quiet_def fetched_def maxRetries_def)
  show ?thesis by (auto simp: fetchUserByHandle_def breaker_call_def r intro: q split: prod.splits sum.splits)
qed

lemma fetch_user_answer: "fetchUserByHandle api handle s = (Inr r, s') \<Longrightarrow> answered api s' r"
  by (auto simp: fetchUserByHandle_def breaker_call_def dest: attempts_answer split: prod.splits sum.splits if_splits)

interpretation x_accounts: keyed_table xm_handle "find_by xm_handle" "upsert_row xm_handle"
  by unfold_locales simp_all

text \<open>The rows of a state as a map.\<close>

definition x_rows :: "x_state \<Rightarrow> string \<Rightarrow> XAccountMetrics option" where
  "x_rows s = (\<lambda>h. find_by xm_handle h (xs_accounts s))"

lemma store_rows: "x_rows (snd (store_metrics m s)) = (x_rows s)(xm_handle m \<mapsto> m)"
proof
  fix h
  define f :: "XAccountMetrics \<Rightarrow> XAccountMetrics" where "f = (\<lambda>r. r\<lparr>xm_followers := xm_followers m, xm_engagement := xm_engagement m, xm_fetchedAt := xm_fetchedAt m\<rparr>)"
  have f: "xm_handle (f r) = xm_handle r" for r by (simp add: f_def)
  have same: "f r = m" if "xm_handle r = xm_handle m" for r using that by (simp add: f_def)
  have run: "xs_accounts (snd (store_metrics m s)) = upsert_row xm_handle (xm_handle m) m f (xs_accounts s)"
    by (simp add: store_metrics_def f_def)
  show "x_rows (snd (store_metrics m s)) h = ((x_rows s)(xm_handle m \<mapsto> m)) h"
  proof (cases "h = xm_handle m")
    case True
    with x_accounts.lookup_upsert_same [of m "xm_handle m" f "xs_accounts s"] f same show ?thesis
      by (auto simp: x_rows_def run dest: find_by_Some split: option.splits)
  next
    case False
    with x_accounts.lookup_upsert_other [of m "xm_handle m" f h "xs_accounts s"] f show ?thesis
      by (simp add: x_rows_def run)
  qed
qed

lemma fresh_run:
  "(case fresh_metrics api handle s of
      (Inr m, s') \<Rightarrow> (\<exists>pm. answered api s' (Some pm) \<and> m = normalizeXMetrics handle (xs_now s') pm) \<and> x_rows s' = (x_rows s)(handle \<mapsto> m) \<and>
        map xm_handle (xs_accounts s') = map xm_handle (xs_accounts s) @ (if x_rows s handle = None then [handle] else [])
    | (Inl e, s') \<Rightarrow> xs_accounts s' = xs_accounts s)"
  (is "case ?run of (Inr m, s') \<Rightarrow> ?ok m s' | (Inl e, s') \<Rightarrow> ?bad s'")
proof -
  obtain r t where run: "fetchUserByHandle api handle s = (r, t)" by fastforce
  with fetch_user_fetched [of api handle s] have t: "xs_accounts t = xs_accounts s" by (simp add: fetched_def)
  show ?thesis
  proof (cases "\<exists>pm. r = Inr (Some pm)")
    case True
    then obtain pm where r: "r = Inr (Some pm)" by blast
    define m where "m = normalizeXMetrics handle (xs_now t) pm"
    have h: "xm_handle m = handle" by (simp add: m_def normalizeXMetrics_def Let_def)
    have eq: "?run = (Inr m, snd (store_metrics m t))"
      by (simp add: fresh_metrics_def bnd_def run r require_def m_def store_metrics_def andthen_def)
    have keys: "map xm_handle (xs_accounts (snd (store_metrics m t))) =
        map xm_handle (xs_accounts s) @ (if x_rows s handle = None then [handle] else [])"
      using t h by (auto simp: store_metrics_def upsert_row_def x_rows_def find_by_def exists_row_find map_update_rows)
    have now: "answered api (snd (store_metrics m t)) (Some pm) = answered api t (Some pm)" "xs_now (snd (store_metrics m t)) = xs_now t"
      by (simp_all add: store_metrics_def answered_def)
    have rows: "x_rows (snd (store_metrics m t)) = (x_rows s)(handle \<mapsto> m)"
      using store_rows [of m t] h by (simp add: x_rows_def t)
    have "?ok m (snd (store_metrics m t))"
      using fetch_user_answer [of api handle s "Some pm" t] keys rows now run r m_def by auto
    then show ?thesis by (simp add: eq)
  next
    case False
    then have "\<exists>e. ?run = (Inl e, t)"
      by (cases r) (auto simp: fresh_metrics_def bnd_def run require_def split: option.splits)
    with t show ?thesis by auto
  qed
qed

section \<open>Where metrics come from\<close>


text \<open>A call makes at most four requests, all of them for the account asked for.\<close>

lemma metrics_requests:
  "\<exists>k\<le>4. xs_requests (snd (fetchXMetrics api useFallback maxCacheAge handle s)) =
     xs_requests s @ replicate k (request_url api handle)"
proof -
  obtain r t where run: "fetchUserByHandle api handle s = (r, t)" by fastforce
  have "xs_requests (snd (fresh_metrics api handle s)) = xs_requests t"
    by (auto simp: fresh_metrics_def bnd_def run require_def store_metrics_def andthen_def split: sum.split option.split)
  moreover have "xs_requests (snd (fetchXMetrics api useFallback maxCacheAge handle s)) = xs_requests (snd (fresh_metrics api handle s))"
    by (auto simp: fetchXMetrics_def try_catch_def cached_metrics_def split: prod.split sum.split option.split)
  ultimately show ?thesis
    using fetch_user_fetched [of api handle s] by (simp add: run fetched_def)
qed

lemma fresh_keys:
  assumes "handle \<in> xm_handle ` set (xs_accounts s)"
  shows "map xm_handle (xs_accounts (snd (fetchXMetrics api (Some False) None handle s))) = map xm_handle (xs_accounts s)"
proof -
  obtain r t where run: "fresh_metrics api handle s = (r, t)" by fastforce
  from assms have "x_rows s handle \<noteq> None" by (simp add: x_rows_def find_by_None)
  with fresh_run [where api = api and handle = handle and s = s] show ?thesis
    by (cases r) (auto simp: fetchXMetrics_def try_catch_def run or_else_def)
qed

lemma refresh_accounts_run:
  assumes "set handles \<subseteq> xm_handle ` set (xs_accounts s)"
  shows "\<exists>p' f' s'. refresh_accounts api handles (p, f) s = (Inr (p', f'), s') \<and> p' + f' = p + f + length handles \<and>
    map xm_handle (xs_accounts s') = map xm_handle (xs_accounts s) \<and>
    length (xs_requests s') \<le> length (xs_requests s) + 4 * length handles"
  using assms
proof (induction handles arbitrary: p f s)
  case Nil
  then show ?case by simp
next
  case (Cons h handles)
  obtain r t where run: "fetchXMetrics api (Some False) None h s = (r, t)" by fastforce
  from Cons.prems fresh_keys [where handle = h and s = s and api = api] have keys: "map xm_handle (xs_accounts t) = map xm_handle (xs_accounts s)" by (simp add: run)
  then have "set handles \<subseteq> xm_handle ` set (xs_accounts t)" using Cons.prems by (metis image_set set_subset_Cons subset_trans)
  note rest = Cons.IH [OF this]
  obtain k where k: "k \<le> 4" "xs_requests t = xs_requests s @ replicate k (request_url api h)"
    using metrics_requests [where api = api and useFallback = "Some False" and maxCacheAge = None and handle = h and s = s] by (auto simp: run)
  show ?case
  proof (cases r)
    case (Inl e)
    with rest [of p "f + 1"] run keys k show ?thesis by (auto simp: bnd_def try_catch_def)
  next
    case (Inr m)
    with rest [of "p + 1" f] run keys k show ?thesis by (auto simp: bnd_def try_catch_def)
  qed
qed

text \<open>
  The refresh job goes through every account whatever the service answers: it ends, its two counts add up to the number of
  accounts, it makes at most four requests for each and neither adds nor removes an account.
\<close>

theorem refresh_covers_accounts:
  "(case refreshAllXMetrics api s of
      (Inr (processed, failed), s') \<Rightarrow> processed + failed = length (xs_accounts s) \<and>
        map xm_handle (xs_accounts s') = map xm_handle (xs_accounts s) \<and>
        length (xs_requests s') \<le> length (xs_requests s) + 4 * length (xs_accounts s)
    | (Inl e, s') \<Rightarrow> False)"
  using refresh_accounts_run [where handles = "map xm_handle (xs_accounts s)" and s = s and api = api and p = 0 and f = 0] by (auto simp: refreshAllXMetrics_def)

section \<open>Weak spots\<close>

text \<open>
  An account that no longer exists counts as a failure of the service: as many of them as the threshold open the breaker, and
  the accounts after them are not asked for.
\<close>

definition missing :: "x_api \<Rightarrow> string \<Rightarrow> bool" where
  "missing api handle \<longleftrightarrow> (\<forall>requests. \<exists>statusText headers body took.
     xa_service api (requests @ [request_url api handle]) = (Answer 404 statusText headers body, took))"

lemma failure_facts [simp]:
  "failureCount (cb_failure now b) = failureCount b + 1" "lastFailureTime (cb_failure now b) = now"
  "failureThreshold (cb_failure now b) = failureThreshold b" "resetTimeoutMs (cb_failure now b) = resetTimeoutMs b"
  "br_state (cb_failure now b) = (if failureThreshold b \<le> failureCount b + 1 then OPEN else br_state b)"
  by (simp_all add: cb_failure_def cb_record_def Let_def)

lemma missing_fetch:
  assumes "missing api handle" and "or_empty (xa_bearerToken api) \<noteq> []" and "br_state (xs_breaker s) = CLOSED"
  shows "\<exists>e s'. fetchXMetrics api (Some False) None handle s = (Inl e, s') \<and>
    xs_breaker s' = cb_failure (xs_now s') (xs_breaker s) \<and> length (xs_requests s') = Suc (length (xs_requests s))"
proof -
  from assms(1) obtain st hs body took where
    answer: "xa_service api (xs_requests s @ [request_url api handle]) = (Answer 404 st hs body, took)"
    unfolding missing_def by blast
  define e t where "e = not_found (''X user @'' @ handle @ '' not found'')"
    and "t = s\<lparr>xs_requests := xs_requests s @ [request_url api handle], xs_now := xs_now s + int took\<rparr>"
  have "executeFetch api handle attempt s = (Inl e, t)" for attempt
    by (simp add: executeFetch_def bnd_def send_request_def answer handle_answer_def Let_def e_def t_def)
  then have run: "fetch_attempts api handle maxRetries s = (Inl e, t)"
    by (simp add: maxRetries_def numeral_3_eq_3 try_catch_def e_def)
  have closed: "cb_admit (xs_now s) (xs_breaker s) = (Inr (), xs_breaker s)" by (simp add: cb_admit_def assms(3))
  show ?thesis
    by (simp add: fetchXMetrics_def try_catch_def fresh_metrics_def bnd_def fetchUserByHandle_def assms(2) breaker_call_def
      closed run or_else_def) (simp add: t_def)
qed

lemma open_fetch:
  assumes "br_state (xs_breaker s) = OPEN" and "xs_now s - lastFailureTime (xs_breaker s) < resetTimeoutMs (xs_breaker s)"
    and "or_empty (xa_bearerToken api) \<noteq> []"
  shows "\<exists>e. fetchXMetrics api (Some False) None handle s = (Inl e, s)"
  using assms
  by (simp add: fetchXMetrics_def try_catch_def fresh_metrics_def bnd_def fetchUserByHandle_def breaker_call_def cb_admit_def or_else_def)

lemma open_refresh:
  assumes "br_state (xs_breaker s) = OPEN" and "xs_now s - lastFailureTime (xs_breaker s) < resetTimeoutMs (xs_breaker s)"
    and "or_empty (xa_bearerToken api) \<noteq> []"
  shows "refresh_accounts api handles (p, f) s = (Inr (p, f + length handles), s)"
proof (induction handles arbitrary: f)
  case Nil
  then show ?case by simp
next
  case (Cons h handles)
  from open_fetch [OF assms] obtain e where "fetchXMetrics api (Some False) None h s = (Inl e, s)" by blast
  with Cons [of "f + 1"] show ?case by (simp add: bnd_def try_catch_def)
qed

lemma missing_accounts_open_breaker:
  assumes "list_all (missing api) gone" and "or_empty (xa_bearerToken api) \<noteq> []" and "gone \<noteq> []"
    and "br_state (xs_breaker s) = CLOSED" and "failureCount (xs_breaker s) + length gone = failureThreshold (xs_breaker s)"
    and "0 < resetTimeoutMs (xs_breaker s)"
  shows "\<exists>s'. refresh_accounts api (gone @ rest) (p, f) s = (Inr (p, f + length gone + length rest), s') \<and>
    length (xs_requests s') = length (xs_requests s) + length gone"
  using assms
proof (induction gone arbitrary: f s)
  case Nil
  then show ?case by simp
next
  case (Cons h gone)
  from Cons.prems obtain e t where run: "fetchXMetrics api (Some False) None h s = (Inl e, t)"
    and t: "xs_breaker t = cb_failure (xs_now t) (xs_breaker s)" "length (xs_requests t) = Suc (length (xs_requests s))"
    using missing_fetch [of api h s] by auto
  have step: "refresh_accounts api ((h # gone) @ rest) (p, f) s = refresh_accounts api (gone @ rest) (p, f + 1) t"
    by (simp add: bnd_def try_catch_def run)
  show ?case
  proof (cases "gone = []")
    case True
    have "refresh_accounts api rest (p, f + 1) t = (Inr (p, f + 1 + length rest), t)"
      by (rule open_refresh) (use Cons.prems True t in \<open>simp_all\<close>)
    with step True t show ?thesis by simp
  next
    case False
    with Cons.prems t have "\<exists>s'. refresh_accounts api (gone @ rest) (p, f + 1) t = (Inr (p, f + 1 + length gone + length rest), s') \<and>
        length (xs_requests s') = length (xs_requests t) + length gone"
      by (intro Cons.IH) (auto simp: neq_Nil_conv)
    with step t show ?thesis by auto
  qed
qed

text \<open>A server that asks for a wait of 25 days is asked again after a millisecond.\<close>

lemma long_retry_after_wraps:
  "timer_wait (computeBackoffDelay random attempt ((\<lambda>_. None)(''retry-after'' \<mapsto> ''2160000'')) now) = 1"
proof -
  have digits: "takeWhile is_digit ''2160000'' = ''2160000''" "dropWhile is_space ''2160000'' = ''2160000''"
    by code_simp+
  have "parse_nat ''2160000'' = 2160000" by (simp add: parse_nat_def digit_value_def char_code_def)
  with digits have "js_parseInt ''2160000'' = Fin 2160000" by (simp add: js_parseInt_def)
  then show ?thesis by (simp add: computeBackoffDelay_def headers_delay_def timer_wait_def)
qed

end
