(* ===== verification/Ipfs.thy ===== *)
theory Ipfs
  imports Errors
begin

text \<open>
  Uploading images (\<open>backend/src/modules/ipfs/ipfs.service.ts\<close>, \<open>ipfs.utils.ts\<close>, \<open>ipfs.schema.ts\<close>): the check and the
  re-encoding of an image, content ids, and pinning with its fallbacks. The image library, the hash and the answers of the pinning
  service are parameters; what is sent to the service is part of the result.
\<close>

section \<open>Content ids\<close>

definition is_base58 :: "char \<Rightarrow> bool" where
  "is_base58 c \<longleftrightarrow> (let n = char_code c in (49 \<le> n \<and> n \<le> 57) \<or> (65 \<le> n \<and> n \<le> 72) \<or> (74 \<le> n \<and> n \<le> 78) \<or>
     (80 \<le> n \<and> n \<le> 90) \<or> (97 \<le> n \<and> n \<le> 107) \<or> (109 \<le> n \<and> n \<le> 122))"

definition is_alnum :: "char \<Rightarrow> bool" where
  "is_alnum c \<longleftrightarrow> is_digit c \<or> is_upper c \<or> is_lower c"

definition lower_alnum :: "char \<Rightarrow> bool" where
  "lower_alnum c \<longleftrightarrow> is_digit c \<or> is_lower c"

definition cidRegex :: "string \<Rightarrow> bool" where
  "cidRegex s \<longleftrightarrow>
     (starts_with s ''Qm'' \<and> length s = 46 \<and> list_all is_base58 (drop 2 s)) \<or>
     (starts_with s ''bafy'' \<and> 59 \<le> length s \<and> list_all lower_alnum (drop 4 s)) \<or>
     (starts_with s ''bafk'' \<and> 59 \<le> length s \<and> list_all lower_alnum (drop 4 s)) \<or>
     (46 \<le> length s \<and> length s \<le> 128 \<and> list_all is_alnum s)"

definition drop_prefix :: "string \<Rightarrow> string \<Rightarrow> string" where
  "drop_prefix p s = (if starts_with s p then drop (length p) s else s)"

definition isValidCid :: "string \<Rightarrow> bool" where
  "isValidCid cid = (if cid = [] then False else cidRegex (drop_prefix ''ipfs/'' (drop_prefix ''/'' (js_trim cid))))"

definition or_text :: "string \<Rightarrow> string \<Rightarrow> string" where
  "or_text s d = (if s = [] then d else s)"

definition buildGatewayUrl :: "string \<Rightarrow> string \<Rightarrow> jsval + string" where
  "buildGatewayUrl gatewayUrl cid =
     (if js_trim cid = [] then Inl (bad_request ''IPFS CID is required'')
      else let cleanCid = drop_prefix ''ipfs/'' (drop_prefix ''/'' (js_trim cid)) in
        if \<not> isValidCid cleanCid then Inl (bad_request (''Invalid IPFS CID format: '' @ cid))
        else let base = js_trim (or_text gatewayUrl ''https://ipfs.io/ipfs/'') in
          Inr ((if ends_with base ''/'' then base else base @ ''/'') @ cleanCid))"

subsection \<open>Made-up ids\<close>

definition base58Chars :: string where
  "base58Chars = ''123456789ABCDEFGHJKLMNPQRSTUVWXYZabcdefghijkmnopqrstuvwxyz''"

definition hex_value :: "char \<Rightarrow> nat" where
  "hex_value c = (if is_digit c then char_code c - 48 else char_code c - 87)"

definition body_char :: "string \<Rightarrow> nat \<Rightarrow> char" where
  "body_char hash i =
     (let k = (i mod 16) * 2
      in base58Chars ! ((16 * hex_value (hash ! k) + hex_value (hash ! (k + 1))) mod length base58Chars))"

text \<open>The hash is given by its 64 hexadecimal digits.\<close>

definition fallback_body :: "string \<Rightarrow> string" where
  "fallback_body hash = map (body_char hash) [0..<44]"

definition generateFallbackCid :: "('b \<Rightarrow> string) \<Rightarrow> 'b \<Rightarrow> string" where
  "generateFallbackCid sha256 buffer = ''Qm'' @ fallback_body (sha256 buffer)"

section \<open>Images\<close>

record image_file =
  fi_size :: nat
  fi_bytes :: "nat list"
  fi_originalname :: "string option"

record image_metadata =
  md_format :: "string option"
  md_width :: "nat option"
  md_height :: "nat option"

record image_library =
  il_metadata :: "nat list \<Rightarrow> image_metadata option"
  il_reencode :: "nat list \<Rightarrow> string \<Rightarrow> nat list option"

record SanitizedImage =
  si_buffer :: "nat list"
  si_mimeType :: string
  si_format :: string
  si_width :: nat
  si_height :: nat

definition MAX_IMAGE_SIZE_BYTES :: nat where
  "MAX_IMAGE_SIZE_BYTES = 5 * 1024 * 1024"

definition MAX_IMAGE_DIMENSION_PX :: nat where
  "MAX_IMAGE_DIMENSION_PX = 4096"

definition ALLOWED_IMAGE_FORMATS :: "string list" where
  "ALLOWED_IMAGE_FORMATS = [''jpeg'', ''png'', ''gif'', ''webp'']"

definition positive :: "nat option \<Rightarrow> nat option" where
  "positive n = (case n of Some (Suc k) \<Rightarrow> Some (Suc k) | _ \<Rightarrow> None)"

definition dimensions_text :: "nat \<Rightarrow> nat \<Rightarrow> string" where
  "dimensions_text w h = ''Image dimensions ('' @ show_nat w @ ''x'' @ show_nat h @ '') exceed the maximum of '' @
     show_nat MAX_IMAGE_DIMENSION_PX @ ''x'' @ show_nat MAX_IMAGE_DIMENSION_PX @ ''px''"

definition sized_image :: "image_library \<Rightarrow> nat list \<Rightarrow> string \<Rightarrow> nat \<Rightarrow> nat \<Rightarrow> jsval + SanitizedImage" where
  "sized_image lib bytes format w h =
     (if MAX_IMAGE_DIMENSION_PX < w \<or> MAX_IMAGE_DIMENSION_PX < h then Inl (bad_request (dimensions_text w h))
      else (case il_reencode lib bytes format of
          None \<Rightarrow> Inl (bad_request ''Failed to process image file'')
        | Some out \<Rightarrow> Inr \<lparr>si_buffer = out, si_mimeType = ''image/'' @ format, si_format = format, si_width = w, si_height = h\<rparr>))"

definition verified_image :: "image_library \<Rightarrow> nat list \<Rightarrow> image_metadata \<Rightarrow> jsval + SanitizedImage" where
  "verified_image lib bytes metadata =
     (let format = or_empty (md_format metadata) in
      if format \<notin> set ALLOWED_IMAGE_FORMATS
      then Inl (bad_request (''Unsupported or unverifiable image format '' @ CHR 39 # (case md_format metadata of Some f \<Rightarrow> f | None \<Rightarrow> ''unknown'') @
        CHR 39 # ''. Allowed types: jpeg, png, gif, webp''))
      else (case (positive (md_width metadata), positive (md_height metadata)) of
          (Some w, Some h) \<Rightarrow> sized_image lib bytes format w h
        | _ \<Rightarrow> Inl (bad_request ''Unable to determine image dimensions'')))"

definition verifyAndSanitizeImage :: "image_library \<Rightarrow> image_file option \<Rightarrow> jsval + SanitizedImage" where
  "verifyAndSanitizeImage lib file =
     (case file of
        None \<Rightarrow> Inl (bad_request ''No image file provided'')
      | Some f \<Rightarrow>
          if fi_bytes f = [] then Inl (bad_request ''No image file provided'')
          else if MAX_IMAGE_SIZE_BYTES < fi_size f then Inl (bad_request ''File size exceeds maximum limit of 5MB'')
          else (case il_metadata lib (fi_bytes f) of
              None \<Rightarrow> Inl (bad_request ''File content could not be verified as a valid image. It may be corrupt, an unsupported format, or not an image at all.'')
            | Some metadata \<Rightarrow> verified_image lib (fi_bytes f) metadata))"

section \<open>Pinning\<close>

record IpfsUploadResponse =
  up_cid :: string
  up_url :: string
  up_size :: nat
  up_mimeType :: string

record pin_request =
  pr_endpoint :: string
  pr_content :: "nat list"
  pr_type :: string
  pr_name :: string

datatype pin_outcome = Fetch_throws jsval | Pin_response bool string "jsval option"

record ipfs_env =
  ie_apiUrl :: "string option"
  ie_gatewayUrl :: string
  ie_production :: bool
  ie_timeoutMs :: nat
  ie_library :: image_library
  ie_sha256 :: "nat list \<Rightarrow> string"
  ie_service :: "pin_request \<Rightarrow> pin_outcome"

definition upload_of :: "ipfs_env \<Rightarrow> SanitizedImage \<Rightarrow> string \<Rightarrow> jsval + IpfsUploadResponse" where
  "upload_of env img cid =
     map_sum id (\<lambda>url. \<lparr>up_cid = cid, up_url = url, up_size = length (si_buffer img), up_mimeType = si_mimeType img\<rparr>)
       (buildGatewayUrl (ie_gatewayUrl env) cid)"

definition fallback_upload :: "ipfs_env \<Rightarrow> SanitizedImage \<Rightarrow> jsval + IpfsUploadResponse" where
  "fallback_upload env img = upload_of env img (generateFallbackCid (ie_sha256 env) (si_buffer img))"

definition truthy :: "jsval \<Rightarrow> bool" where
  "truthy v = (case v of Undefined \<Rightarrow> False | Null \<Rightarrow> False | JBool b \<Rightarrow> b | JNum n \<Rightarrow> n \<noteq> Fin 0 \<and> n \<noteq> NaN
     | JBig i \<Rightarrow> i \<noteq> 0 | JStr s \<Rightarrow> s \<noteq> [] | _ \<Rightarrow> True)"

text \<open>The body of the \<open>try\<close>: an exception, or a response that is not read further.\<close>

definition response_cid :: "jsval \<Rightarrow> jsval" where
  "response_cid data = (if truthy (get_prop data ''Hash'') then get_prop data ''Hash'' else get_prop data ''cid'')"

definition bad_gateway :: "string \<Rightarrow> jsval" where
  "bad_gateway m = mk_error BadGatewayError m Undefined"

definition read_response :: "ipfs_env \<Rightarrow> SanitizedImage \<Rightarrow> bool \<Rightarrow> string \<Rightarrow> jsval option \<Rightarrow> jsval + IpfsUploadResponse" where
  "read_response env img ok statusText body =
     (if \<not> ok then
        (if \<not> ie_production env then fallback_upload env img
         else Inl (bad_gateway (''IPFS pinning service failed: '' @ statusText)))
      else (case body of
          None \<Rightarrow> Inl (js_error ''Unexpected token in JSON'')
        | Some data \<Rightarrow>
            if data = Null then Inl (js_error ''Cannot read properties of null'')
            else if \<not> truthy (response_cid data) then Inl (bad_gateway ''IPFS response missing CID identifier'')
            else (case response_cid data of
                JStr cid \<Rightarrow> upload_of env img cid
              | _ \<Rightarrow> Inl (bad_request ''IPFS CID is required''))))"

definition pin_failed :: "ipfs_env \<Rightarrow> SanitizedImage \<Rightarrow> jsval \<Rightarrow> jsval + IpfsUploadResponse" where
  "pin_failed env img e =
     (if is_kind BadRequestError e \<or> is_kind BadGatewayError e then Inl e
      else if instance_of e DomExceptionClass \<and> error_name e = ''TimeoutError'' then
        (if \<not> ie_production env then fallback_upload env img
         else Inl (service_unavailable (''IPFS pinning timed out after '' @ show_nat (ie_timeoutMs env) @ ''ms'')))
      else if instance_of e DomExceptionClass \<and> error_name e = ''AbortError''
      then Inl (service_unavailable ''IPFS pinning cancelled'')
      else if \<not> ie_production env then fallback_upload env img
      else Inl (mk_error ServiceUnavailableError ''Unable to connect to IPFS pinning service''
        (if is_error e then JStr (error_message e) else Undefined)))"

definition strip_slashes :: "string \<Rightarrow> string" where
  "strip_slashes s = rev (dropWhile (\<lambda>c. c = CHR ''/'') (rev s))"

definition pin_request_of :: "string \<Rightarrow> image_file \<Rightarrow> SanitizedImage \<Rightarrow> pin_request" where
  "pin_request_of apiUrl file img =
     \<lparr>pr_endpoint = strip_slashes apiUrl @ ''/api/v0/add?pin=true'', pr_content = si_buffer img, pr_type = si_mimeType img,
      pr_name = or_text (or_empty (fi_originalname file)) (''image.'' @ si_format img)\<rparr>"

definition pin_sanitized :: "ipfs_env \<Rightarrow> image_file \<Rightarrow> SanitizedImage \<Rightarrow> (jsval + IpfsUploadResponse) \<times> pin_request list" where
  "pin_sanitized env file img =
     (let apiUrl = or_empty (ie_apiUrl env) in
      if js_trim apiUrl = [] then (fallback_upload env img, [])
      else let request = pin_request_of apiUrl file img;
               r = (case ie_service env request of
                  Fetch_throws e \<Rightarrow> Inl e
                | Pin_response ok statusText body \<Rightarrow> read_response env img ok statusText body)
        in (case r of Inl e \<Rightarrow> pin_failed env img e | Inr up \<Rightarrow> Inr up, [request]))"

definition pinImageToIpfs :: "ipfs_env \<Rightarrow> image_file \<Rightarrow> (jsval + IpfsUploadResponse) \<times> pin_request list" where
  "pinImageToIpfs env file =
     (case verifyAndSanitizeImage (ie_library env) (Some file) of
        Inl e \<Rightarrow> (Inl e, [])
      | Inr img \<Rightarrow> pin_sanitized env file img)"

section \<open>Properties\<close>

lemma base58_facts: "list_all is_base58 base58Chars" "length base58Chars = 58"
  by code_simp+

lemma body_char_base58: "is_base58 (body_char hash i)"
  using base58_facts by (simp add: body_char_def list_all_length Let_def)

lemma fallback_body_facts: "length (fallback_body hash) = 44" "list_all is_base58 (fallback_body hash)" "fallback_body hash \<noteq> []"
proof -
  show l: "length (fallback_body hash) = 44" by (simp only: fallback_body_def length_map length_upt)
  then show "fallback_body hash \<noteq> []" by auto
  show "list_all is_base58 (fallback_body hash)"
    unfolding fallback_body_def list.pred_map by (simp add: list_all_length body_char_base58)
qed

lemma fallback_cid_matches: "cidRegex (generateFallbackCid sha256 buffer)"
  by (simp add: cidRegex_def generateFallbackCid_def fallback_body_facts)

lemma base58_not_space: "is_base58 c \<Longrightarrow> \<not> is_space c"
  by (auto simp: is_base58_def is_space_def Let_def)

lemma trim_plain:
  assumes "\<not> is_space c" and "\<not> is_space d"
  shows "js_trim (c # s @ [d]) = c # s @ [d]"
  using assms by (simp add: js_trim_def)

lemma fallback_trim: "js_trim (generateFallbackCid sha256 buffer) = generateFallbackCid sha256 buffer"
proof -
  define b where "b = fallback_body (sha256 buffer)"
  have b: "b \<noteq> []" "list_all is_base58 b" by (simp_all add: b_def fallback_body_facts)
  then have "is_base58 (last b)" by (simp add: list_all_iff)
  then have d: "\<not> is_space (last b)" by (rule base58_not_space)
  have q: "\<not> is_space (CHR ''Q'')" by code_simp
  have "generateFallbackCid sha256 buffer = CHR ''Q'' # (CHR ''m'' # butlast b) @ [last b]"
    using b(1) by (simp add: generateFallbackCid_def b_def [symmetric])
  then show ?thesis using trim_plain [OF q d, of "CHR ''m'' # butlast b"] by simp
qed

lemma fallback_upload_succeeds:
  "\<exists>url. fallback_upload env img = Inr \<lparr>up_cid = generateFallbackCid (ie_sha256 env) (si_buffer img), up_url = url,
     up_size = length (si_buffer img), up_mimeType = si_mimeType img\<rparr>"
proof -
  let ?c = "generateFallbackCid (ie_sha256 env) (si_buffer img)"
  have p: "drop_prefix ''ipfs/'' (drop_prefix ''/'' ?c) = ?c" by (simp add: generateFallbackCid_def drop_prefix_def)
  have n: "?c \<noteq> []" by (simp add: generateFallbackCid_def)
  have "isValidCid ?c" using n p by (simp add: isValidCid_def fallback_trim fallback_cid_matches)
  then show ?thesis
    using n p by (simp add: fallback_upload_def upload_of_def buildGatewayUrl_def fallback_trim Let_def)
qed

lemma positive_iff: "positive n = Some k \<longleftrightarrow> n = Some k \<and> 1 \<le> k"
  by (auto simp: positive_def split: option.splits nat.splits)

lemma allowed_text: "or_empty f \<in> set ALLOWED_IMAGE_FORMATS \<Longrightarrow> f = Some (or_empty f)"
  by (cases f) (simp_all add: or_empty_def ALLOWED_IMAGE_FORMATS_def)

lemma accepted_image:
  assumes "verifyAndSanitizeImage lib (Some file) = Inr img"
  shows "\<exists>format w h. format \<in> set ALLOWED_IMAGE_FORMATS \<and> fi_size file \<le> MAX_IMAGE_SIZE_BYTES \<and>
    il_metadata lib (fi_bytes file) = Some \<lparr>md_format = Some format, md_width = Some w, md_height = Some h\<rparr> \<and>
    1 \<le> w \<and> w \<le> MAX_IMAGE_DIMENSION_PX \<and> 1 \<le> h \<and> h \<le> MAX_IMAGE_DIMENSION_PX \<and>
    il_reencode lib (fi_bytes file) format = Some (si_buffer img) \<and> si_mimeType img = ''image/'' @ format"
proof -
  from assms obtain md where md: "il_metadata lib (fi_bytes file) = Some md" "fi_size file \<le> MAX_IMAGE_SIZE_BYTES"
    and v: "verified_image lib (fi_bytes file) md = Inr img"
    by (auto simp: verifyAndSanitizeImage_def split: if_splits option.splits)
  from v obtain w h where f: "or_empty (md_format md) \<in> set ALLOWED_IMAGE_FORMATS"
    and p: "positive (md_width md) = Some w" "positive (md_height md) = Some h"
    and z: "sized_image lib (fi_bytes file) (or_empty (md_format md)) w h = Inr img"
    by (auto simp: verified_image_def Let_def split: if_splits option.splits)
  have "md = \<lparr>md_format = Some (or_empty (md_format md)), md_width = Some w, md_height = Some h\<rparr>"
    using p allowed_text [OF f] by (cases md) (simp add: positive_iff)
  moreover have "w \<le> MAX_IMAGE_DIMENSION_PX \<and> h \<le> MAX_IMAGE_DIMENSION_PX \<and>
      il_reencode lib (fi_bytes file) (or_empty (md_format md)) = Some (si_buffer img) \<and>
      si_mimeType img = ''image/'' @ or_empty (md_format md)"
    using z by (auto simp: sized_image_def split: if_splits option.splits)
  ultimately show ?thesis
    using md f p by (intro exI [of _ "or_empty (md_format md)"] exI [of _ w] exI [of _ h]) (simp add: positive_iff)
qed

text \<open>
  C36. Only what the image library made of an image of an allowed format and size is ever sent to the pinning service: never
  the bytes of the caller.
\<close>

theorem only_sanitised_images_are_pinned:
  "list_all (\<lambda>r. \<exists>format w h. format \<in> set ALLOWED_IMAGE_FORMATS \<and> fi_size file \<le> MAX_IMAGE_SIZE_BYTES \<and>
       il_metadata (ie_library env) (fi_bytes file) = Some \<lparr>md_format = Some format, md_width = Some w, md_height = Some h\<rparr> \<and>
       1 \<le> w \<and> w \<le> MAX_IMAGE_DIMENSION_PX \<and> 1 \<le> h \<and> h \<le> MAX_IMAGE_DIMENSION_PX \<and>
       il_reencode (ie_library env) (fi_bytes file) format = Some (pr_content r) \<and> pr_type r = ''image/'' @ format)
     (snd (pinImageToIpfs env file))"
proof (cases "verifyAndSanitizeImage (ie_library env) (Some file)")
  case (Inr img)
  from accepted_image [OF Inr] obtain format w h where
    "format \<in> set ALLOWED_IMAGE_FORMATS" "fi_size file \<le> MAX_IMAGE_SIZE_BYTES"
    "il_metadata (ie_library env) (fi_bytes file) = Some \<lparr>md_format = Some format, md_width = Some w, md_height = Some h\<rparr>"
    "1 \<le> w" "w \<le> MAX_IMAGE_DIMENSION_PX" "1 \<le> h" "h \<le> MAX_IMAGE_DIMENSION_PX"
    "il_reencode (ie_library env) (fi_bytes file) format = Some (si_buffer img)" "si_mimeType img = ''image/'' @ format"
    by blast
  moreover have "list_all (\<lambda>r. pr_content r = si_buffer img \<and> pr_type r = si_mimeType img) (snd (pinImageToIpfs env file))"
    by (simp add: pinImageToIpfs_def Inr pin_sanitized_def pin_request_of_def Let_def)
  ultimately show ?thesis by (auto elim!: list.pred_mono_strong)
qed (simp add: pinImageToIpfs_def)

text \<open>
  Outside production a pinning service out of order is no error: an accepted image gets a made-up id, which is a valid one.
\<close>

lemma upload_falls_back:
  assumes "\<not> ie_production env" and "verifyAndSanitizeImage (ie_library env) (Some file) = Inr img"
    and "\<And>r. \<exists>statusText body. ie_service env r = Pin_response False statusText body"
  shows "\<exists>url. fst (pinImageToIpfs env file) = Inr \<lparr>up_cid = generateFallbackCid (ie_sha256 env) (si_buffer img), up_url = url,
     up_size = length (si_buffer img), up_mimeType = si_mimeType img\<rparr>"
proof -
  from fallback_upload_succeeds [of env img] obtain url where up: "fallback_upload env img = Inr
    \<lparr>up_cid = generateFallbackCid (ie_sha256 env) (si_buffer img), up_url = url, up_size = length (si_buffer img),
      up_mimeType = si_mimeType img\<rparr>" by blast
  obtain t b where "ie_service env (pin_request_of (or_empty (ie_apiUrl env)) file img) = Pin_response False t b"
    using assms(3) by blast
  with assms(1,2) up show ?thesis by (simp add: pinImageToIpfs_def pin_sanitized_def read_response_def Let_def)
qed

text \<open>An id the service made that has an unexpected form is reported as a bad request of the caller.\<close>

lemma unexpected_id_blames_caller:
  assumes "ie_service env r = Pin_response True t (Some (JObj PlainObject [(''Hash'', JStr ''bafy2'')]))"
  shows "read_response env img True t (Some (JObj PlainObject [(''Hash'', JStr ''bafy2'')])) =
    Inl (bad_request ''Invalid IPFS CID format: bafy2'')"
proof -
  have "buildGatewayUrl g ''bafy2'' = Inl (bad_request ''Invalid IPFS CID format: bafy2'')" for g
  proof -
    have "js_trim ''bafy2'' = ''bafy2''" "\<not> isValidCid (drop_prefix ''ipfs/'' (drop_prefix ''/'' ''bafy2''))"
      "drop_prefix ''ipfs/'' (drop_prefix ''/'' ''bafy2'') = ''bafy2''" by code_simp+
    then show ?thesis by (simp add: buildGatewayUrl_def Let_def)
  qed
  then show ?thesis by (simp add: read_response_def response_cid_def get_prop_def truthy_def upload_of_def)
qed

end
