(* ===== verification/Configuration.thy ===== *)
theory Configuration
  imports JsValues
begin

text \<open>
  The checks of the configuration at start (\<open>backend/src/config/env.ts\<close>, \<open>config/cors.ts\<close>): the origins that may send
  credentials, durations, and what production demands. The parser of URLs is a parameter.
\<close>

section \<open>Origins\<close>

record parsed_url =
  pu_protocol :: string
  pu_host :: string
  pu_hostname :: string
  pu_username :: string
  pu_password :: string
  pu_pathname :: string

definition LOCALHOST_HOSTS :: "string list" where
  "LOCALHOST_HOSTS = [''localhost'', ''127.0.0.1'', ''[::1]'', ''::1'']"

definition entries_of :: "string \<Rightarrow> string list" where
  "entries_of raw = filter (\<lambda>e. e \<noteq> []) (map js_trim (split_on (CHR '','') raw))"

definition quoted :: "string \<Rightarrow> string" where
  "quoted s = CHR 34 # s @ [CHR 34]"

definition check_origin :: "(string \<Rightarrow> parsed_url option) \<Rightarrow> bool \<Rightarrow> string \<Rightarrow> string option" where
  "check_origin parse production entry =
     (case parse entry of
        None \<Rightarrow> Some (''CORS_ORIGIN entry '' @ quoted entry @ '' is not a valid absolute origin'')
      | Some url \<Rightarrow>
          if pu_protocol url \<notin> {''http:'', ''https:''} then Some (''CORS_ORIGIN entry '' @ quoted entry @ '' must use the http or https scheme'')
          else if pu_host url = [] then Some (''CORS_ORIGIN entry '' @ quoted entry @ '' is missing a host'')
          else if pu_username url \<noteq> [] \<or> pu_password url \<noteq> []
          then Some (''CORS_ORIGIN entry '' @ quoted entry @ '' must not contain credentials'')
          else if pu_pathname url \<notin> {[], ''/''} then Some (''CORS_ORIGIN entry '' @ quoted entry @ '' must not include a path'')
          else if production \<and> pu_hostname url \<in> set LOCALHOST_HOSTS
          then Some (''CORS_ORIGIN must not include localhost in production (entry '' @ quoted entry @ '')'')
          else None)"

fun check_origins :: "(string \<Rightarrow> parsed_url option) \<Rightarrow> bool \<Rightarrow> string list \<Rightarrow> string + string list" where
  "check_origins parse production [] = Inr []"
| "check_origins parse production (e # es) =
     (case check_origin parse production e of
        Some m \<Rightarrow> Inl m
      | None \<Rightarrow> map_sum id (\<lambda>origins. e # origins) (check_origins parse production es))"

definition parseCorsOrigins :: "(string \<Rightarrow> parsed_url option) \<Rightarrow> string option \<Rightarrow> string \<Rightarrow> string + string list" where
  "parseCorsOrigins parse nodeEnv raw =
     (let entries = entries_of raw in
      if entries = [] then Inl ''CORS_ORIGIN must contain at least one origin''
      else if ''*'' \<in> set entries
      then Inl (''CORS_ORIGIN must not contain '' @ quoted ''*'' @ '' because credentials are enabled (issue #078)'')
      else check_origins parse (nodeEnv = Some ''production'') entries)"

text \<open>The variable itself: its entries, joined again for the check.\<close>

fun join_commas :: "string list \<Rightarrow> string" where
  "join_commas [] = []"
| "join_commas [e] = e"
| "join_commas (e # es) = e @ CHR '','' # join_commas es"

definition corsOrigin :: "(string \<Rightarrow> parsed_url option) \<Rightarrow> string option \<Rightarrow> string option \<Rightarrow> string + string list" where
  "corsOrigin parse nodeEnv raw =
     (let origins = entries_of (case raw of None \<Rightarrow> ''http://localhost:5173'' | Some r \<Rightarrow> r)
      in map_sum id (\<lambda>_. origins) (parseCorsOrigins parse nodeEnv (join_commas origins)))"

section \<open>Durations\<close>

definition durationString :: "string \<Rightarrow> bool" where
  "durationString s \<longleftrightarrow> s \<noteq> [] \<and> all_digits (butlast s) \<and> last s \<in> {CHR ''s'', CHR ''m'', CHR ''h'', CHR ''d''}"

section \<open>Production\<close>

record environment =
  en_NODE_ENV :: string
  en_JWT_SECRET :: string
  en_CONTRACT_ID :: "string option"
  en_STELLAR_NETWORK :: string
  en_NETWORK_PASSPHRASE :: string
  en_HORIZON_URL :: string
  en_SOROBAN_RPC_URL :: string

definition weakSecrets :: "string list" where
  "weakSecrets = [''change-me-in-production'', ''changeme'', ''secret'', ''password'', ''test-secret-key-for-testing'',
     ''test-secret-key-for-vitest'', ''supersecretkey'', ''your_jwt_secret'', ''12345678'']"

definition MAINNET_PASSPHRASE :: string where
  "MAINNET_PASSPHRASE = ''Public Global Stellar Network ; September 2015''"

definition MAINNET_HORIZON :: string where
  "MAINNET_HORIZON = ''https://horizon.stellar.org''"

text \<open>An issue is the variable it is about; \<open>issue_if\<close> adds one.\<close>

definition issue_if :: "bool \<Rightarrow> string \<Rightarrow> string list" where
  "issue_if b path = (if b then [path] else [])"

definition weak_secret :: "string \<Rightarrow> bool" where
  "weak_secret secret \<longleftrightarrow> secret \<in> set weakSecrets \<or> to_lower secret \<in> set weakSecrets"

definition secret_issues :: "string \<Rightarrow> string list" where
  "secret_issues secret =
     (let lower = to_lower secret in
      issue_if (length secret < 32) ''JWT_SECRET'' @
      issue_if (weak_secret secret) ''JWT_SECRET'' @
      issue_if ((str_includes lower ''change-me'' \<or> str_includes lower ''changeme'' \<or> lower = ''test-secret-key-for-testing'' \<or>
        lower = ''test-secret-key-for-vitest'') \<and> \<not> weak_secret secret) ''JWT_SECRET'')"

definition rpc_issues :: "string \<Rightarrow> string list" where
  "rpc_issues url =
     (let lower = to_lower url in
      if str_includes lower ''testnet'' \<or> str_includes lower ''futurenet'' then [''SOROBAN_RPC_URL'']
      else issue_if (\<not> str_includes lower ''mainnet'' \<and> url \<noteq> MAINNET_HORIZON) ''SOROBAN_RPC_URL'')"

definition mainnet_issues :: "environment \<Rightarrow> string list" where
  "mainnet_issues env =
     (if en_STELLAR_NETWORK env \<noteq> ''MAINNET'' then []
      else issue_if (en_NETWORK_PASSPHRASE env \<noteq> MAINNET_PASSPHRASE) ''NETWORK_PASSPHRASE'' @
        issue_if (en_HORIZON_URL env \<noteq> MAINNET_HORIZON) ''HORIZON_URL'' @ rpc_issues (en_SOROBAN_RPC_URL env))"

definition blank :: "string option \<Rightarrow> bool" where
  "blank v = (case v of None \<Rightarrow> True | Some s \<Rightarrow> js_trim s = [])"

definition production_issues :: "environment \<Rightarrow> string list" where
  "production_issues env =
     (if en_NODE_ENV env \<noteq> ''production'' then []
      else secret_issues (en_JWT_SECRET env) @ issue_if (blank (en_CONTRACT_ID env)) ''CONTRACT_ID'' @ mainnet_issues env)"

section \<open>Properties\<close>

lemma issue_if_Nil [simp]: "issue_if b p = [] \<longleftrightarrow> \<not> b"
  by (simp add: issue_if_def)

lemma weak_length: "s \<in> set weakSecrets \<Longrightarrow> length s < 32"
  by (auto simp: weakSecrets_def)

lemma length_to_lower [simp]: "length (to_lower s) = length s"
  by (simp add: to_lower_def)

text \<open>
  The checks of production pass exactly with a secret of 32 characters or more that holds no placeholder, a contract, and, on
  the main network, its passphrase, its Horizon and a node that is named after it.
\<close>

theorem production_checks_iff:
  "production_issues env = [] \<longleftrightarrow>
     (if en_NODE_ENV env = ''production''
      then 32 \<le> length (en_JWT_SECRET env) \<and>
        \<not> (str_includes (to_lower (en_JWT_SECRET env)) ''change-me'' \<or> str_includes (to_lower (en_JWT_SECRET env)) ''changeme'') \<and>
        \<not> blank (en_CONTRACT_ID env) \<and>
        (if en_STELLAR_NETWORK env = ''MAINNET''
         then en_NETWORK_PASSPHRASE env = MAINNET_PASSPHRASE \<and> en_HORIZON_URL env = MAINNET_HORIZON \<and>
           \<not> str_includes (to_lower (en_SOROBAN_RPC_URL env)) ''testnet'' \<and> \<not> str_includes (to_lower (en_SOROBAN_RPC_URL env)) ''futurenet'' \<and>
           (str_includes (to_lower (en_SOROBAN_RPC_URL env)) ''mainnet'' \<or> en_SOROBAN_RPC_URL env = MAINNET_HORIZON)
         else True)
      else True)"
proof -
  have secret: "secret_issues s = [] \<longleftrightarrow> 32 \<le> length s \<and> \<not> (str_includes (to_lower s) ''change-me'' \<or> str_includes (to_lower s) ''changeme'')" for s
  proof (cases "length s < 32")
    case False
    then have "\<not> weak_secret s" using weak_length [of s] weak_length [of "to_lower s"] by (auto simp: weak_secret_def)
    moreover have "to_lower s \<noteq> ''test-secret-key-for-testing''" "to_lower s \<noteq> ''test-secret-key-for-vitest''"
      using False by (auto dest: arg_cong [where f = length])
    ultimately show ?thesis using False by (simp add: secret_issues_def Let_def)
  qed (simp add: secret_issues_def Let_def)
  have rpc: "rpc_issues u = [] \<longleftrightarrow> \<not> str_includes (to_lower u) ''testnet'' \<and> \<not> str_includes (to_lower u) ''futurenet'' \<and>
      (str_includes (to_lower u) ''mainnet'' \<or> u = MAINNET_HORIZON)" for u
    by (auto simp: rpc_issues_def Let_def)
  show ?thesis by (simp add: production_issues_def secret mainnet_issues_def rpc)
qed

text \<open>
  Origins that are accepted are absolute, without credentials or path, of a web scheme, none of them a wildcard, and in
  production none of them local.
\<close>

definition good_origin :: "(string \<Rightarrow> parsed_url option) \<Rightarrow> bool \<Rightarrow> string \<Rightarrow> bool" where
  "good_origin parse production e =
     (case parse e of
        None \<Rightarrow> False
      | Some url \<Rightarrow> pu_protocol url \<in> {''http:'', ''https:''} \<and> pu_host url \<noteq> [] \<and> pu_username url = [] \<and> pu_password url = [] \<and>
          pu_pathname url \<in> {[], ''/''} \<and> \<not> (production \<and> pu_hostname url \<in> set LOCALHOST_HOSTS))"

lemma check_origin_good: "check_origin parse production e = None \<longleftrightarrow> good_origin parse production e"
  by (cases "parse e") (auto simp: check_origin_def good_origin_def)

lemma check_origins_good:
  "(case check_origins parse production es of Inr os \<Rightarrow> os = es \<and> list_all (good_origin parse production) es
     | Inl m \<Rightarrow> \<not> list_all (good_origin parse production) es)"
proof (induction es)
  case (Cons e es)
  then show ?case
    using check_origin_good [of parse production e] by (auto split: option.split sum.splits)
qed simp

lemma parse_origins_good:
  "(case parseCorsOrigins parse nodeEnv raw of
      Inr os \<Rightarrow> os = entries_of raw \<and> os \<noteq> [] \<and> list_all (\<lambda>e. e \<noteq> ''*'' \<and> good_origin parse (nodeEnv = Some ''production'') e) os
    | Inl m \<Rightarrow> \<not> (entries_of raw \<noteq> [] \<and> list_all (\<lambda>e. e \<noteq> ''*'' \<and> good_origin parse (nodeEnv = Some ''production'') e) (entries_of raw)))"
  using check_origins_good [of parse "nodeEnv = Some ''production''" "entries_of raw"]
  by (auto simp: parseCorsOrigins_def Let_def list_all_iff split: sum.splits)

section \<open>Weak spots\<close>

text \<open>An origin with a slash at its end is accepted, though no browser sends one.\<close>

definition sample_parse :: "string \<Rightarrow> parsed_url option" where
  "sample_parse s = (if s = ''https://a.b/'' then Some \<lparr>pu_protocol = ''https:'', pu_host = ''a.b'', pu_hostname = ''a.b'',
     pu_username = [], pu_password = [], pu_pathname = ''/''\<rparr> else None)"

lemma slash_is_kept: "corsOrigin sample_parse (Some ''production'') (Some ''https://a.b/'') = Inr [''https://a.b/'']"
  by code_simp

text \<open>A duration of zero is accepted, and Horizon as a node of the contract's network.\<close>

lemma zero_duration: "durationString ''0m''"
  by code_simp

lemma horizon_is_no_node: "rpc_issues MAINNET_HORIZON = []"
  by code_simp

end
