(* ===== verification/Operations.thy ===== *)
theory Operations
  imports Store "HOL-Library.List_Lexorder" "HOL-Library.Char_ord"
begin

text \<open>
  Running the service: the verification of a restored backup (\<open>backend/src/ops/backup-verify.lib.ts\<close>), readiness checks
  (\<open>modules/health/health.service.ts\<close>), repeated jobs (\<open>jobs/scheduler.ts\<close>) and jobs that failed for
  good (\<open>jobs/deadLetter.ts\<close>). A finding of the verification is a value with what its text would say; shares are exact.
\<close>

section \<open>Restored backups\<close>

definition CORE_TABLES :: "string list" where
  "CORE_TABLES = [''User'', ''Tip'', ''Refund'', ''Goal'', ''Subscription'', ''EventLog'', ''IndexerCursor'', ''Withdrawal'']"

datatype backup_finding =
    Table_missing string | Table_empty string | Table_dropped string nat nat rat | Table_shrank string nat nat
  | No_migrations | No_local_migrations | Dump_behind string string | Dump_ahead string string
  | Orphan_refunds nat | Orphan_tips nat | Cursor_behind int int | Ledger_gap int

record CheckResult =
  cr_ok :: bool
  cr_failures :: "backup_finding list"
  cr_warnings :: "backup_finding list"

definition check_result :: "backup_finding list \<Rightarrow> backup_finding list \<Rightarrow> CheckResult" where
  "check_result failures warnings = \<lparr>cr_ok = (failures = []), cr_failures = failures, cr_warnings = warnings\<rparr>"

record RowCountCheckInput =
  rc_restored :: "string \<Rightarrow> nat option"
  rc_baseline :: "(string \<Rightarrow> nat option) option"
  rc_maxShrinkFraction :: "rat option"
  rc_requireNonEmpty :: bool

definition max_shrink :: "RowCountCheckInput \<Rightarrow> rat" where
  "max_shrink input = (case rc_maxShrinkFraction input of None \<Rightarrow> 1 / 5 | Some f \<Rightarrow> f)"

definition shrink_of :: "nat \<Rightarrow> nat \<Rightarrow> rat" where
  "shrink_of base count = (of_nat base - of_nat count) / of_nat base"

definition baseline_of :: "RowCountCheckInput \<Rightarrow> string \<Rightarrow> nat option" where
  "baseline_of input table = (case rc_baseline input of None \<Rightarrow> None | Some b \<Rightarrow> (case b table of Some (Suc n) \<Rightarrow> Some (Suc n) | _ \<Rightarrow> None))"

text \<open>The failures and the warnings of one table.\<close>

definition check_table :: "RowCountCheckInput \<Rightarrow> string \<Rightarrow> backup_finding list \<times> backup_finding list" where
  "check_table input table =
     (case rc_restored input table of
        None \<Rightarrow> ([Table_missing table], [])
      | Some count \<Rightarrow>
          (let empty = (if rc_requireNonEmpty input \<and> count = 0 then [Table_empty table] else []) in
           (case baseline_of input table of
              None \<Rightarrow> (empty, [])
            | Some base \<Rightarrow>
                if max_shrink input < shrink_of base count then (empty @ [Table_dropped table base count (shrink_of base count)], [])
                else if count < base then (empty, [Table_shrank table base count])
                else (empty, []))))"

definition checkRowCounts :: "RowCountCheckInput \<Rightarrow> CheckResult" where
  "checkRowCounts input = check_result (concat (map (\<lambda>t. fst (check_table input t)) CORE_TABLES))
     (concat (map (\<lambda>t. snd (check_table input t)) CORE_TABLES))"

definition checkSchemaVersion :: "string option \<Rightarrow> string list \<Rightarrow> CheckResult" where
  "checkSchemaVersion latestAppliedInDump localMigrationDirs =
     (case latestAppliedInDump of
        None \<Rightarrow> check_result [No_migrations] []
      | Some [] \<Rightarrow> check_result [No_migrations] []
      | Some (c # cs) \<Rightarrow>
          (let dump = c # cs; local = (if localMigrationDirs = [] then [] else last (sort localMigrationDirs)) in
           if local = [] then check_result [] [No_local_migrations]
           else if dump \<noteq> local
           then (if dump < local then check_result [] [Dump_behind dump local] else check_result [Dump_ahead dump local] [])
           else check_result [] []))"

record SpotCheckInput =
  sc_eventLogMaxLedger :: "int option"
  sc_cursorLedger :: "int option"
  sc_orphanTipSenders :: nat
  sc_orphanRefunds :: nat
  sc_largestEventLedgerGap :: int
  sc_maxAllowedLedgerGap :: "int option"

definition cursor_findings :: "int option \<Rightarrow> int option \<Rightarrow> backup_finding list" where
  "cursor_findings maxLedger cursor =
     (case (maxLedger, cursor) of
        (Some m, Some c) \<Rightarrow> if c + 1000 < m then [Cursor_behind c m] else []
      | _ \<Rightarrow> [])"

definition runSpotChecks :: "SpotCheckInput \<Rightarrow> CheckResult" where
  "runSpotChecks input = check_result
     ((if 0 < sc_orphanRefunds input then [Orphan_refunds (sc_orphanRefunds input)] else []) @
      cursor_findings (sc_eventLogMaxLedger input) (sc_cursorLedger input) @
      (if (case sc_maxAllowedLedgerGap input of None \<Rightarrow> 500 | Some g \<Rightarrow> g) < sc_largestEventLedgerGap input
       then [Ledger_gap (sc_largestEventLedgerGap input)] else []))
     (if 0 < sc_orphanTipSenders input then [Orphan_tips (sc_orphanTipSenders input)] else [])"

definition combine :: "CheckResult list \<Rightarrow> CheckResult" where
  "combine results = \<lparr>cr_ok = list_all cr_ok results, cr_failures = concat (map cr_failures results),
     cr_warnings = concat (map cr_warnings results)\<rparr>"

section \<open>Readiness\<close>

datatype probe = Probe_passes | Probe_fails | Probe_times_out

record HealthCheckResult =
  hc_name :: string
  hc_pass :: bool
  hc_message :: "string option"

record HealthResponse =
  hr_pass :: bool
  hr_checks :: "HealthCheckResult list"
  hr_timestamp :: int

definition dependency_names :: "string list" where
  "dependency_names = [''postgres'', ''redis'', ''soroban-rpc'', ''indexer'']"

definition checkDependency :: "nat \<Rightarrow> string \<Rightarrow> probe \<Rightarrow> HealthCheckResult" where
  "checkDependency timeoutMs name p =
     (case p of
        Probe_passes \<Rightarrow> \<lparr>hc_name = name, hc_pass = True, hc_message = None\<rparr>
      | Probe_fails \<Rightarrow> \<lparr>hc_name = name, hc_pass = False, hc_message = Some (name @ '' is unavailable'')\<rparr>
      | Probe_times_out \<Rightarrow>
          \<lparr>hc_name = name, hc_pass = False, hc_message = Some (name @ '' timed out after '' @ show_nat timeoutMs @ ''ms'')\<rparr>)"

definition runReadyChecks :: "nat \<Rightarrow> (string \<Rightarrow> probe) \<Rightarrow> int \<Rightarrow> HealthResponse" where
  "runReadyChecks timeoutMs probes now =
     (let checks = map (\<lambda>n. checkDependency timeoutMs n (probes n)) dependency_names
      in \<lparr>hr_pass = list_all hc_pass checks, hr_checks = checks, hr_timestamp = now\<rparr>)"

text \<open>The service between its requests: \<open>hs_answers\<close> are the answers with their times, \<open>hs_waiting\<close> the requests that wait.\<close>

record health_state =
  hs_cached :: "(HealthResponse \<times> int) option"
  hs_inFlight :: bool
  hs_waiting :: nat
  hs_started :: nat
  hs_answers :: "(int \<times> HealthResponse) list"

definition getReadyStatus :: "int \<Rightarrow> health_state \<Rightarrow> health_state" where
  "getReadyStatus now h =
     (let ask = (if hs_inFlight h then h\<lparr>hs_waiting := hs_waiting h + 1\<rparr>
        else h\<lparr>hs_inFlight := True, hs_waiting := 1, hs_started := hs_started h + 1\<rparr>) in
      case hs_cached h of
        Some (r, expiresAt) \<Rightarrow> if now < expiresAt then h\<lparr>hs_answers := hs_answers h @ [(now, r)]\<rparr> else ask
      | None \<Rightarrow> ask)"

definition checks_end :: "nat \<Rightarrow> int \<Rightarrow> (string \<Rightarrow> probe) \<Rightarrow> int \<Rightarrow> health_state \<Rightarrow> health_state" where
  "checks_end timeoutMs cacheTtlMs probes now h =
     (if \<not> hs_inFlight h then h
      else let r = runReadyChecks timeoutMs probes now in
        h\<lparr>hs_cached := Some (r, now + cacheTtlMs), hs_inFlight := False, hs_waiting := 0,
          hs_answers := hs_answers h @ replicate (hs_waiting h) (now, r)\<rparr>)"

datatype health_op = Ask | Checks_end "string \<Rightarrow> probe"

fun health_history :: "nat \<Rightarrow> int \<Rightarrow> (int \<times> health_op) list \<Rightarrow> health_state \<Rightarrow> health_state" where
  "health_history timeoutMs ttl [] h = h"
| "health_history timeoutMs ttl ((now, Ask) # ops) h = health_history timeoutMs ttl ops (getReadyStatus now h)"
| "health_history timeoutMs ttl ((now, Checks_end probes) # ops) h =
     health_history timeoutMs ttl ops (checks_end timeoutMs ttl probes now h)"

definition new_health :: health_state where
  "new_health = \<lparr>hs_cached = None, hs_inFlight = False, hs_waiting = 0, hs_started = 0, hs_answers = []\<rparr>"

section \<open>Jobs\<close>

definition scheduleRepeatable :: "string \<Rightarrow> string \<Rightarrow> (string \<times> string) list \<Rightarrow> (string \<times> string) list" where
  "scheduleRepeatable name pattern jobs =
     (if exists_row (\<lambda>j. fst j = name \<and> snd j = pattern) jobs then jobs else jobs @ [(name, pattern)])"

record failed_job =
  fj_id :: "string option"
  fj_name :: string
  fj_data :: jsval
  fj_attemptsMade :: nat
  fj_attempts :: "nat option"

record dead_letter_options =
  do_skipUnrecoverable :: bool
  do_sanitizeData :: "(jsval \<Rightarrow> jsval) option"

definition dead_letter_of :: "string \<Rightarrow> failed_job \<Rightarrow> string \<Rightarrow> dead_letter_row" where
  "dead_letter_of queue job reason = \<lparr>dj_queue = queue, dj_jobId = fj_id job, dj_jobName = fj_name job, dj_data = fj_data job,
     dj_failedReason = reason, dj_attemptsMade = fj_attemptsMade job\<rparr>"

definition attachDeadLetterHandler ::
  "dead_letter_options \<Rightarrow> string \<Rightarrow> failed_job \<Rightarrow> string \<Rightarrow> string \<Rightarrow> dead_letter_row list \<Rightarrow> dead_letter_row list" where
  "attachDeadLetterHandler opts queue job errName reason letters =
     (if do_skipUnrecoverable opts \<and> errName = ''UnrecoverableError'' then letters
      else if fj_attemptsMade job < (case fj_attempts job of None \<Rightarrow> 1 | Some n \<Rightarrow> n) then letters
      else letters @ [dead_letter_of queue
        (case do_sanitizeData opts of None \<Rightarrow> job | Some f \<Rightarrow> job\<lparr>fj_data := f (fj_data job)\<rparr>) reason])"

section \<open>Properties\<close>

text \<open>The row counts of a backup are accepted exactly when no core table is missing, empty against the rules or shrunk too far.\<close>

definition table_fine :: "RowCountCheckInput \<Rightarrow> string \<Rightarrow> bool" where
  "table_fine input t =
     (case rc_restored input t of
        None \<Rightarrow> False
      | Some n \<Rightarrow> \<not> (rc_requireNonEmpty input \<and> n = 0) \<and>
          (case baseline_of input t of None \<Rightarrow> True | Some base \<Rightarrow> of_nat base * (1 - max_shrink input) \<le> of_nat n))"

lemma baseline_positive: "baseline_of input t = Some base \<Longrightarrow> 0 < base"
  by (auto simp: baseline_of_def split: option.splits nat.splits)

lemma shrink_within: "0 < base \<Longrightarrow> max_shrink input < shrink_of base n \<longleftrightarrow> \<not> of_nat base * (1 - max_shrink input) \<le> (of_nat n :: rat)"
  by (simp add: shrink_of_def field_simps not_le)

lemma table_fine_iff: "fst (check_table input t) = [] \<longleftrightarrow> table_fine input t"
  by (auto simp: check_table_def table_fine_def Let_def shrink_within [OF baseline_positive] split: option.split)

theorem backup_accepted_iff:
  "cr_ok (checkRowCounts input) = list_all (table_fine input) CORE_TABLES \<and>
   cr_ok (combine [checkRowCounts input, checkSchemaVersion dump dirs, runSpotChecks spots]) =
     (cr_failures (combine [checkRowCounts input, checkSchemaVersion dump dirs, runSpotChecks spots]) = [])"
proof
  show "cr_ok (checkRowCounts input) = list_all (table_fine input) CORE_TABLES"
    by (simp add: checkRowCounts_def check_result_def list_all_iff table_fine_iff)
  have "cr_ok (checkRowCounts input) = (cr_failures (checkRowCounts input) = [])"
    "cr_ok (runSpotChecks spots) = (cr_failures (runSpotChecks spots) = [])"
    by (simp_all add: checkRowCounts_def runSpotChecks_def check_result_def)
  moreover have "cr_ok (checkSchemaVersion dump dirs) = (cr_failures (checkSchemaVersion dump dirs) = [])"
    by (auto simp: checkSchemaVersion_def check_result_def Let_def split: option.split list.split)
  ultimately show "cr_ok (combine [checkRowCounts input, checkSchemaVersion dump dirs, runSpotChecks spots]) =
     (cr_failures (combine [checkRowCounts input, checkSchemaVersion dump dirs, runSpotChecks spots]) = [])"
    by (simp add: combine_def)
qed

text \<open>An answer is never older than the cache allows; requests that come while the checks run share them.\<close>

definition health_ok :: "int \<Rightarrow> health_state \<Rightarrow> bool" where
  "health_ok ttl h \<longleftrightarrow> list_all (\<lambda>(now, r). now = hr_timestamp r \<or> now < hr_timestamp r + ttl) (hs_answers h) \<and>
     (case hs_cached h of None \<Rightarrow> True | Some (r, e) \<Rightarrow> e = hr_timestamp r + ttl) \<and> (hs_inFlight h \<longleftrightarrow> 0 < hs_waiting h)"

lemma ready_time [simp]: "hr_timestamp (runReadyChecks timeoutMs probes now) = now"
  by (simp add: runReadyChecks_def Let_def)

lemma ask_ok: "health_ok ttl h \<Longrightarrow> health_ok ttl (getReadyStatus now h)"
  by (cases "hs_cached h"; cases "hs_inFlight h") (auto simp: health_ok_def getReadyStatus_def Let_def split: prod.splits)

lemma end_ok: "health_ok ttl h \<Longrightarrow> health_ok ttl (checks_end timeoutMs ttl probes now h)"
  by (cases "hs_inFlight h") (simp_all add: health_ok_def checks_end_def Let_def list_all_iff)

lemma health_run_ok: "health_ok ttl h \<Longrightarrow> health_ok ttl (health_history timeoutMs ttl ops h)"
  by (induction timeoutMs ttl ops h rule: health_history.induct) (simp_all add: ask_ok end_ok)

theorem readiness_is_recent:
  "list_all (\<lambda>(now, r). now = hr_timestamp r \<or> now < hr_timestamp r + ttl) (hs_answers (health_history timeoutMs ttl ops new_health))"
  using health_run_ok [of ttl new_health timeoutMs ops] by (simp add: health_ok_def new_health_def)

text \<open>Of a job that fails every time exactly the last failure is recorded.\<close>

lemma last_failure_is_recorded:
  assumes "0 < n"
  shows "fold (\<lambda>k. attachDeadLetterHandler opts queue (job\<lparr>fj_attemptsMade := k, fj_attempts := Some n\<rparr>) ''Error'' reason) [1..<Suc n] [] =
    [dead_letter_of queue (case do_sanitizeData opts of
        None \<Rightarrow> job\<lparr>fj_attemptsMade := n, fj_attempts := Some n\<rparr>
      | Some f \<Rightarrow> job\<lparr>fj_attemptsMade := n, fj_attempts := Some n, fj_data := f (fj_data job)\<rparr>) reason]"
proof -
  have early: "fold (\<lambda>k. attachDeadLetterHandler opts queue (job\<lparr>fj_attemptsMade := k, fj_attempts := Some n\<rparr>) ''Error'' reason) ks letters = letters"
    if "list_all (\<lambda>k. k < n) ks" for ks letters
    using that by (induction ks arbitrary: letters) (simp_all add: attachDeadLetterHandler_def)
  have "[1..<Suc n] = [1..<n] @ [n]" using assms by simp
  moreover have "list_all (\<lambda>k. k < n) [1..<n]" by (simp add: list_all_iff)
  ultimately show ?thesis using early by (simp add: attachDeadLetterHandler_def del: upt_Suc split: option.split)
qed

text \<open>Scheduling twice is scheduling once; another pattern is added beside the old one.\<close>

lemma schedule_once: "scheduleRepeatable name pattern (scheduleRepeatable name pattern jobs) = scheduleRepeatable name pattern jobs"
  by (auto simp: scheduleRepeatable_def exists_row_iff)

lemma changed_pattern_adds_job:
  "scheduleRepeatable ''prune'' ''0 4 * * *'' (scheduleRepeatable ''prune'' ''0 3 * * *'' []) =
   [(''prune'', ''0 3 * * *''), (''prune'', ''0 4 * * *'')]"
  by (simp add: scheduleRepeatable_def exists_row_def)

end
