(* ===== verification/ClientStream.thy ===== *)
theory ClientStream
  imports JsValues
begin

text \<open>
  The stream of operations of the web client (\<open>frontend-scaffold/src/services/eventStream.ts\<close>), which reconnects by itself and
  pauses with its page, and the limiter of calls (\<open>services/rateLimiter.ts\<close>). Messages, errors, timers and answers are steps in any
  order.
\<close>

section \<open>The stream\<close>

definition MIN_BACKOFF_MS :: int where
  "MIN_BACKOFF_MS = 1000"

definition DEFAULT_MAX_BACKOFF_MS :: int where
  "DEFAULT_MAX_BACKOFF_MS = 30000"

record StreamEvent =
  ev_type :: string
  ev_data :: jsval

text \<open>
  \<open>es_source\<close> is the number of the open connection; \<open>es_timer\<close> the delay of the pending reconnect; \<open>es_listening\<close> says whether
  changes of the page's visibility are still heard.
\<close>

record event_stream =
  es_source :: "nat option"
  es_backoffMs :: int
  es_maxBackoffMs :: int
  es_timer :: "int option"
  es_closed :: bool
  es_paused :: bool
  es_listening :: bool
  es_opened :: nat
  es_events :: "StreamEvent list"
  es_delays :: "int list"

definition stream_connect :: "event_stream \<Rightarrow> event_stream" where
  "stream_connect s =
     (if es_closed s \<or> es_paused s then s
      else s\<lparr>es_source := Some (es_opened s), es_opened := es_opened s + 1\<rparr>)"

definition clearTimer :: "event_stream \<Rightarrow> event_stream" where
  "clearTimer s = s\<lparr>es_timer := None\<rparr>"

definition scheduleReconnect :: "event_stream \<Rightarrow> event_stream" where
  "scheduleReconnect s =
     (if es_closed s \<or> es_paused s then s
      else s\<lparr>es_timer := Some (es_backoffMs s), es_delays := es_delays s @ [es_backoffMs s]\<rparr>)"

definition reconnect_fires :: "event_stream \<Rightarrow> event_stream" where
  "reconnect_fires s =
     (if es_timer s = None then s
      else stream_connect (s\<lparr>es_timer := None, es_backoffMs := min (es_backoffMs s * 2) (es_maxBackoffMs s)\<rparr>))"

text \<open>A frame is parsed, or is no JSON; reading the type of \<open>null\<close> throws and is reported as a failed parse.\<close>

definition frame_event :: "jsval option \<Rightarrow> StreamEvent option" where
  "frame_event frame =
     (case frame of
        None \<Rightarrow> None
      | Some data \<Rightarrow>
          if data = Null then None
          else Some \<lparr>ev_type = (case get_prop data ''type'' of JStr t \<Rightarrow> t | _ \<Rightarrow> ''operation''), ev_data = data\<rparr>)"

definition onmessage :: "jsval option \<Rightarrow> event_stream \<Rightarrow> event_stream" where
  "onmessage frame s =
     (if es_source s = None then s
      else s\<lparr>es_backoffMs := MIN_BACKOFF_MS,
        es_events := es_events s @ (case frame_event frame of None \<Rightarrow> [] | Some e \<Rightarrow> [e])\<rparr>)"

definition onerror :: "event_stream \<Rightarrow> event_stream" where
  "onerror s = (if es_source s = None then s else scheduleReconnect (s\<lparr>es_source := None\<rparr>))"

definition onVisibilityChange :: "bool \<Rightarrow> event_stream \<Rightarrow> event_stream" where
  "onVisibilityChange hidden s =
     (if \<not> es_listening s then s
      else if hidden then (clearTimer (s\<lparr>es_paused := True\<rparr>))\<lparr>es_source := None\<rparr>
      else stream_connect (s\<lparr>es_paused := False, es_backoffMs := MIN_BACKOFF_MS\<rparr>))"

definition close_stream :: "event_stream \<Rightarrow> event_stream" where
  "close_stream s = (clearTimer (s\<lparr>es_closed := True\<rparr>))\<lparr>es_source := None, es_listening := False\<rparr>"

definition subscribeToOperations :: "nat option \<Rightarrow> event_stream" where
  "subscribeToOperations maxBackoffMs = stream_connect
     \<lparr>es_source = None, es_backoffMs = MIN_BACKOFF_MS,
      es_maxBackoffMs = (case maxBackoffMs of None \<Rightarrow> DEFAULT_MAX_BACKOFF_MS | Some m \<Rightarrow> int m),
      es_timer = None, es_closed = False, es_paused = False, es_listening = True, es_opened = 0, es_events = [], es_delays = []\<rparr>"

datatype stream_op = Message "jsval option" | Stream_error | Reconnect_timer | Visibility bool | Close_stream

fun stream_run :: "stream_op \<Rightarrow> event_stream \<Rightarrow> event_stream" where
  "stream_run (Message frame) s = onmessage frame s"
| "stream_run Stream_error s = onerror s"
| "stream_run Reconnect_timer s = reconnect_fires s"
| "stream_run (Visibility hidden) s = onVisibilityChange hidden s"
| "stream_run Close_stream s = close_stream s"

definition stream_history :: "nat option \<Rightarrow> stream_op list \<Rightarrow> event_stream" where
  "stream_history maxBackoffMs ops = fold stream_run ops (subscribeToOperations maxBackoffMs)"

section \<open>The limiter\<close>

text \<open>
  A request is a number; \<open>rq_running\<close> is the one whose answer is awaited, \<open>rq_waiting\<close> the time the loop sleeps until.
  \<open>rq_started\<close> and \<open>rq_refused\<close> record what happened.
\<close>

record limiter =
  rq_queue :: "nat list"
  rq_processing :: bool
  rq_timestamps :: "int list"
  rq_maxPerSecond :: nat
  rq_queueSize :: nat
  rq_running :: "nat option"
  rq_waiting :: "int option"
  rq_started :: "int list"
  rq_refused :: "nat list"

definition new_limiter :: "nat \<Rightarrow> nat option \<Rightarrow> limiter" where
  "new_limiter maxPerSecond queueSize = \<lparr>rq_queue = [], rq_processing = False, rq_timestamps = [], rq_maxPerSecond = maxPerSecond,
     rq_queueSize = (case queueSize of None \<Rightarrow> 100 | Some n \<Rightarrow> n), rq_running = None, rq_waiting = None, rq_started = [], rq_refused = []\<rparr>"

definition recent :: "int \<Rightarrow> int list \<Rightarrow> int list" where
  "recent now ts = filter (\<lambda>t. now - t < 1000) ts"

text \<open>
  One turn of the loop, up to its next \<open>await\<close>. The time of the oldest of no timestamps is infinite, and a timer of infinite
  length fires after a millisecond. The time left is positive, as older timestamps are gone.
\<close>

definition turn :: "int \<Rightarrow> limiter \<Rightarrow> limiter" where
  "turn now l =
     (case rq_queue l of
        [] \<Rightarrow> l\<lparr>rq_processing := False, rq_running := None, rq_waiting := None\<rparr>
      | r # rs \<Rightarrow>
          (let ts = recent now (rq_timestamps l) in
           if rq_maxPerSecond l \<le> length ts
           then l\<lparr>rq_timestamps := ts, rq_running := None,
             rq_waiting := Some (if ts = [] then now + 1 else Min (set ts) + 1000)\<rparr>
           else l\<lparr>rq_queue := rs, rq_timestamps := ts @ [now], rq_running := Some r, rq_waiting := None,
             rq_started := rq_started l @ [now]\<rparr>))"

definition processQueue :: "int \<Rightarrow> limiter \<Rightarrow> limiter" where
  "processQueue now l = (if rq_processing l \<or> rq_queue l = [] then l else turn now (l\<lparr>rq_processing := True\<rparr>))"

definition execute_request :: "int \<Rightarrow> nat \<Rightarrow> limiter \<Rightarrow> limiter" where
  "execute_request now r l =
     (if rq_queueSize l \<le> length (rq_queue l) then l\<lparr>rq_refused := rq_refused l @ [r]\<rparr>
      else processQueue now (l\<lparr>rq_queue := rq_queue l @ [r]\<rparr>))"

definition request_settles :: "int \<Rightarrow> limiter \<Rightarrow> limiter" where
  "request_settles now l = (if rq_running l = None then l else turn now l)"

definition wait_ends :: "int \<Rightarrow> limiter \<Rightarrow> limiter" where
  "wait_ends now l = (case rq_waiting l of None \<Rightarrow> l | Some t \<Rightarrow> if t \<le> now then turn now l else l)"

definition clear_queue :: "limiter \<Rightarrow> limiter" where
  "clear_queue l = l\<lparr>rq_refused := rq_refused l @ rq_queue l, rq_queue := [], rq_timestamps := []\<rparr>"

datatype limiter_op = Execute nat | Settles | Wait_ends | Clear_queue

fun limiter_run :: "int \<Rightarrow> limiter_op \<Rightarrow> limiter \<Rightarrow> limiter" where
  "limiter_run now (Execute r) l = execute_request now r l"
| "limiter_run now Settles l = request_settles now l"
| "limiter_run now Wait_ends l = wait_ends now l"
| "limiter_run now Clear_queue l = clear_queue l"

text \<open>A history: each step comes some time after the one before.\<close>

fun limiter_history :: "int \<Rightarrow> (nat \<times> limiter_op) list \<Rightarrow> limiter \<Rightarrow> limiter" where
  "limiter_history now [] l = l"
| "limiter_history now ((dt, op) # ops) l = limiter_history (now + int dt) ops (limiter_run (now + int dt) op l)"

subsection \<open>Retries\<close>

text \<open>
  \<open>withExponentialBackoff\<close>: \<open>fn n\<close> is the outcome of call \<open>n\<close>, \<open>is429\<close> the test of an error, \<open>random n\<close> the random number after
  it. The result, the calls made, the delays waited.
\<close>

definition is429 :: "jsval \<Rightarrow> bool" where
  "is429 e \<longleftrightarrow> get_prop (get_prop e ''response'') ''status'' = JNum (Fin 429) \<or> get_prop e ''status'' = JNum (Fin 429) \<or>
     (case get_prop e ''message'' of JStr m \<Rightarrow> str_includes m ''429'' \<or> str_includes (to_lower m) ''rate limit'' | _ \<Rightarrow> False)"

fun backoff_loop :: "(nat \<Rightarrow> rat) \<Rightarrow> rat \<Rightarrow> (nat \<Rightarrow> jsval + 'a) \<Rightarrow> nat \<Rightarrow> nat \<Rightarrow> (jsval + 'a) \<times> nat \<times> rat list" where
  "backoff_loop random baseDelay fn attempt left =
     (case fn attempt of
        Inr a \<Rightarrow> (Inr a, attempt + 1, [])
      | Inl e \<Rightarrow>
          if \<not> is429 e then (Inl e, attempt + 1, [])
          else (case left of
              0 \<Rightarrow> (Inl e, attempt + 1, [])
            | Suc k \<Rightarrow>
                (case backoff_loop random baseDelay fn (attempt + 1) k of
                   (r, calls, waits) \<Rightarrow> (r, calls, (baseDelay * 2 ^ attempt + random attempt * 1000) # waits))))"

declare backoff_loop.simps [simp del]

definition withExponentialBackoff :: "(nat \<Rightarrow> rat) \<Rightarrow> nat \<Rightarrow> rat \<Rightarrow> (nat \<Rightarrow> jsval + 'a) \<Rightarrow> (jsval + 'a) \<times> nat \<times> rat list" where
  "withExponentialBackoff random maxRetries baseDelay fn = backoff_loop random baseDelay fn 0 maxRetries"

section \<open>Properties of the stream\<close>

definition stream_ok :: "event_stream \<Rightarrow> bool" where
  "stream_ok s \<longleftrightarrow>
     (if es_closed s \<or> es_paused s then es_source s = None \<and> es_timer s = None else \<not> (es_source s = None \<and> es_timer s = None)) \<and>
     min MIN_BACKOFF_MS (es_maxBackoffMs s) \<le> es_backoffMs s \<and> es_backoffMs s \<le> max MIN_BACKOFF_MS (es_maxBackoffMs s) \<and>
     list_all (\<lambda>d. min MIN_BACKOFF_MS (es_maxBackoffMs s) \<le> d \<and> d \<le> max MIN_BACKOFF_MS (es_maxBackoffMs s)) (es_delays s)"

lemma stream_run_ok:
  assumes "stream_ok s" and "0 \<le> es_maxBackoffMs s"
  shows "stream_ok (stream_run op s)" and "0 \<le> es_maxBackoffMs (stream_run op s)"
  using assms
  by (cases op;
      auto simp: stream_ok_def onmessage_def onerror_def scheduleReconnect_def reconnect_fires_def stream_connect_def
        onVisibilityChange_def clearTimer_def close_stream_def MIN_BACKOFF_MS_def split: if_splits)+

lemma stream_fold_ok: "stream_ok s \<Longrightarrow> 0 \<le> es_maxBackoffMs s \<Longrightarrow> stream_ok (fold stream_run ops s)"
  by (induction ops arbitrary: s) (simp_all add: stream_run_ok)

lemma stream_history_ok: "stream_ok (stream_history m ops)"
proof -
  have "stream_ok (subscribeToOperations m) \<and> 0 \<le> es_maxBackoffMs (subscribeToOperations m)"
    by (simp add: subscribeToOperations_def stream_connect_def stream_ok_def MIN_BACKOFF_MS_def DEFAULT_MAX_BACKOFF_MS_def
      split: option.split)
  then show ?thesis by (simp add: stream_history_def stream_fold_ok)
qed

text \<open>A stream that was closed does nothing any more.\<close>

lemma closed_run:
  assumes "es_closed s" and "\<not> es_listening s" and "es_source s = None" and "es_timer s = None"
  shows "stream_run op s = s"
  using assms
  by (cases op; cases s) (simp_all add: onmessage_def onerror_def reconnect_fires_def onVisibilityChange_def close_stream_def clearTimer_def)

lemma closed_fold:
  assumes "es_closed s" and "\<not> es_listening s" and "es_source s = None" and "es_timer s = None"
  shows "fold stream_run ops s = s"
proof (induction ops)
  case (Cons op ops)
  with closed_run [OF assms] show ?case by simp
qed simp

text \<open>
  C34. Whatever messages, errors, timers and changes of visibility come, in any order: a stream that is neither closed nor paused is
  connected or about to reconnect, one that is closed or paused is neither, the delays between attempts stay within their
  bounds, and after it is closed nothing changes.
\<close>

theorem stream_never_stuck:
  "(let s = stream_history m ops in
     (if es_closed s \<or> es_paused s then es_source s = None \<and> es_timer s = None else \<not> (es_source s = None \<and> es_timer s = None)) \<and>
     list_all (\<lambda>d. min 1000 (es_maxBackoffMs s) \<le> d \<and> d \<le> max 1000 (es_maxBackoffMs s)) (es_delays s)) \<and>
   stream_history m (ops @ Close_stream # later) = stream_history m (ops @ [Close_stream])"
proof
  show "let s = stream_history m ops in
      (if es_closed s \<or> es_paused s then es_source s = None \<and> es_timer s = None else \<not> (es_source s = None \<and> es_timer s = None)) \<and>
      list_all (\<lambda>d. min 1000 (es_maxBackoffMs s) \<le> d \<and> d \<le> max 1000 (es_maxBackoffMs s)) (es_delays s)"
    using stream_history_ok [of m ops] unfolding stream_ok_def MIN_BACKOFF_MS_def Let_def by blast
next
  show "stream_history m (ops @ Close_stream # later) = stream_history m (ops @ [Close_stream])"
    by (simp add: stream_history_def) (rule closed_fold, simp_all add: close_stream_def clearTimer_def)
qed

section \<open>Properties of the limiter\<close>

definition starts_within :: "int \<Rightarrow> int list \<Rightarrow> nat" where
  "starts_within w ts = length (filter (\<lambda>t. w \<le> t \<and> t < w + 1000) ts)"

definition limiter_ok :: "int \<Rightarrow> limiter \<Rightarrow> bool" where
  "limiter_ok now l \<longleftrightarrow> (\<forall>w. starts_within w (rq_started l) \<le> rq_maxPerSecond l) \<and>
     recent now (rq_timestamps l) = recent now (rq_started l) \<and> list_all (\<lambda>t. t \<le> now) (rq_started l) \<and>
     length (rq_queue l) \<le> rq_queueSize l"

lemma recent_recent: "now \<le> t \<Longrightarrow> recent t (recent now ts) = recent t ts"
  unfolding recent_def filter_filter by (rule filter_cong) auto

lemma recent_append [simp]: "recent now (ts @ us) = recent now ts @ recent now us"
  by (simp add: recent_def)

lemma limiter_later: "limiter_ok now l \<Longrightarrow> now \<le> t \<Longrightarrow> limiter_ok t l"
proof -
  assume l: "limiter_ok now l" and t: "now \<le> t"
  then have "recent t (rq_timestamps l) = recent t (rq_started l)"
    using recent_recent [OF t, of "rq_timestamps l"] recent_recent [OF t, of "rq_started l"] by (simp add: limiter_ok_def)
  moreover have "list_all (\<lambda>x. x \<le> t) (rq_started l)"
    using l t by (auto simp: limiter_ok_def list_all_iff intro: order_trans)
  ultimately show ?thesis using l by (simp add: limiter_ok_def)
qed

text \<open>The loop never sleeps for no time.\<close>

lemma wait_is_positive: "recent now ts \<noteq> [] \<Longrightarrow> now < Min (set (recent now ts)) + 1000"
proof -
  assume "recent now ts \<noteq> []"
  then have "Min (set (recent now ts)) \<in> set (recent now ts)" by (intro Min_in) simp_all
  then show ?thesis by (auto simp: recent_def)
qed

lemma start_within:
  assumes "length (recent now ts) < m" and "starts_within w ts \<le> m"
  shows "starts_within w (ts @ [now]) \<le> m"
proof (cases "w \<le> now \<and> now < w + 1000")
  case True
  then have "filter (\<lambda>t. w \<le> t \<and> t < w + 1000) ts = filter (\<lambda>t. w \<le> t \<and> t < w + 1000) (recent now ts)"
    unfolding recent_def filter_filter by (intro filter_cong) auto
  then have "starts_within w ts \<le> length (recent now ts)" by (simp add: starts_within_def)
  with assms(1) show ?thesis by (simp add: starts_within_def)
qed (use assms(2) in \<open>auto simp: starts_within_def\<close>)

lemma turn_ok:
  assumes "limiter_ok now l"
  shows "limiter_ok now (turn now l)"
proof (cases "rq_queue l")
  case Nil
  with assms show ?thesis by (simp add: turn_def limiter_ok_def)
next
  case (Cons r rs)
  define ts where "ts = recent now (rq_timestamps l)"
  have ts: "ts = recent now (rq_started l)" "recent now ts = ts" using assms by (simp_all add: ts_def limiter_ok_def recent_recent)
  show ?thesis
  proof (cases "rq_maxPerSecond l \<le> length ts")
    case True
    with Cons assms ts show ?thesis by (simp add: turn_def limiter_ok_def Let_def ts_def [symmetric])
  next
    case False
    then have "\<forall>w. starts_within w (rq_started l @ [now]) \<le> rq_maxPerSecond l"
      using assms ts start_within [of now "rq_started l" "rq_maxPerSecond l"] by (simp add: limiter_ok_def)
    with False Cons assms ts show ?thesis by (simp add: turn_def limiter_ok_def Let_def ts_def [symmetric])
  qed
qed

lemma limiter_run_ok:
  assumes "limiter_ok now l" and "op \<noteq> Clear_queue"
  shows "limiter_ok now (limiter_run now op l)"
proof (cases op)
  case (Execute r)
  have "limiter_ok now (l\<lparr>rq_refused := q\<rparr>)" for q using assms(1) by (simp add: limiter_ok_def)
  moreover have "limiter_ok now (l\<lparr>rq_queue := rq_queue l @ [r], rq_processing := p\<rparr>)"
    if "\<not> rq_queueSize l \<le> length (rq_queue l)" for p
    using assms(1) that by (simp add: limiter_ok_def)
  moreover have "limiter_ok now (l\<lparr>rq_queue := rq_queue l @ [r]\<rparr>)" if "\<not> rq_queueSize l \<le> length (rq_queue l)"
    using assms(1) that by (simp add: limiter_ok_def)
  ultimately show ?thesis by (simp add: Execute execute_request_def processQueue_def turn_ok)
next
  case Settles
  with assms show ?thesis by (simp add: request_settles_def turn_ok)
next
  case Wait_ends
  with assms show ?thesis by (simp add: wait_ends_def turn_ok split: option.split)
qed (use assms in simp)

lemma limiter_history_ok:
  assumes "limiter_ok now l" and "list_all (\<lambda>p. snd p \<noteq> Clear_queue) ops"
  shows "\<exists>t. limiter_ok t (limiter_history now ops l)"
  using assms
proof (induction ops arbitrary: now l)
  case Nil
  then show ?case by auto
next
  case (Cons p ops)
  obtain dt op where p: "p = (dt, op)" by fastforce
  from Cons.prems have "limiter_ok (now + int dt) (limiter_run (now + int dt) op l)"
    by (intro limiter_run_ok [OF limiter_later [OF Cons.prems(1)]]) (simp_all add: p)
  from Cons.IH [OF this] Cons.prems(2) show ?case by (simp add: p)
qed

text \<open>A limiter keeps its capacities.\<close>

lemma run_keeps [simp]:
  "rq_maxPerSecond (limiter_run now op l) = rq_maxPerSecond l" "rq_queueSize (limiter_run now op l) = rq_queueSize l"
  by (cases op; auto simp: execute_request_def processQueue_def request_settles_def wait_ends_def clear_queue_def turn_def Let_def
    split: list.split option.split)+

lemma history_keeps [simp]:
  "rq_maxPerSecond (limiter_history now ops l) = rq_maxPerSecond l" "rq_queueSize (limiter_history now ops l) = rq_queueSize l"
  by (induction now ops l rule: limiter_history.induct) simp_all

text \<open>
  Unless the queue is cleared, at most the allowed number of requests start within any second, wherever it begins, whatever the
  order of calls, answers and timers; and the queue never exceeds its size.
\<close>

theorem calls_per_second_bounded:
  "(let l = limiter_history now (filter (\<lambda>p. snd p \<noteq> Clear_queue) ops) (new_limiter maxPerSecond queueSize) in
     starts_within w (rq_started l) \<le> maxPerSecond \<and> length (rq_queue l) \<le> rq_queueSize (new_limiter maxPerSecond queueSize))"
proof -
  have "limiter_ok now (new_limiter maxPerSecond queueSize)"
    by (simp add: new_limiter_def limiter_ok_def starts_within_def recent_def)
  from limiter_history_ok [OF this, of "filter (\<lambda>p. snd p \<noteq> Clear_queue) ops"]
  obtain t where "limiter_ok t (limiter_history now (filter (\<lambda>p. snd p \<noteq> Clear_queue) ops) (new_limiter maxPerSecond queueSize))"
    by (auto simp: list_all_iff)
  then show ?thesis by (simp add: limiter_ok_def Let_def) (simp add: new_limiter_def)
qed

text \<open>Clearing the queue forgets the requests made: the limit passes twice within a second.\<close>

lemma clear_forgets_requests:
  "rq_started (limiter_history 0 [(0, Execute 1), (1, Settles), (1, Clear_queue), (1, Execute 2)] (new_limiter 1 None)) = [0, 3]"
  by code_simp

lemma backoff_calls:
  "(case backoff_loop random baseDelay fn attempt left of (r, calls, waits) \<Rightarrow>
     attempt < calls \<and> calls \<le> attempt + left + 1 \<and> r = fn (calls - 1) \<and> length waits + attempt + 1 = calls)"
proof (induction "left" arbitrary: attempt)
  case 0
  then show ?case by (subst backoff_loop.simps) (simp split: sum.split)
next
  case (Suc left)
  from Suc [of "attempt + 1"] show ?case
    by (subst backoff_loop.simps) (auto split: sum.split prod.splits)
qed

end
