(* ===== verification/ClientWallet.thy ===== *)
theory ClientWallet
  imports JsValues
begin

text \<open>
  The wallets of the web client: the store (\<open>frontend-scaffold/src/store/walletStore.ts\<close>), connecting (\<open>hooks/useWallet.ts\<close>), the
  watch over the extension (\<open>hooks/useWalletResilience.ts\<close>), the idle timeout (\<open>hooks/useSessionTimeout.ts\<close>) and the
  classification of errors (\<open>helpers/error.ts\<close>). The extension's answers are parameters or steps; an operation that waits is split
  at its \<open>await\<close>.
\<close>

section \<open>Errors\<close>

datatype WalletErrorType = Not_installed | Locked | Rejected | Network_mismatch | Timed_out | Unknown_error

definition WALLET_MESSAGES :: "WalletErrorType \<Rightarrow> string" where
  "WALLET_MESSAGES t = (case t of
       Not_installed \<Rightarrow> ''Freighter extension not found. Please install Freighter to connect your wallet.''
     | Locked \<Rightarrow> ''Freighter is locked. Please unlock your wallet and try again.''
     | Rejected \<Rightarrow> ''Connection was rejected. Please approve the connection request in your wallet.''
     | Network_mismatch \<Rightarrow> ''Network mismatch detected. Please switch your wallet to the correct network.''
     | Timed_out \<Rightarrow> ''Connection timed out. Please try again and approve the connection in your wallet.''
     | Unknown_error \<Rightarrow> ''Wallet action failed. Please check your wallet and try again.'')"

text \<open>The text is \<open>String(error)\<close>; no text stands for a falsy error.\<close>

definition classifyWalletError :: "string option \<Rightarrow> WalletErrorType" where
  "classifyWalletError error =
     (case error of
        None \<Rightarrow> Unknown_error
      | Some e \<Rightarrow>
          let has = str_includes (to_lower e) in
          if list_ex has [''not installed'', ''extension not found'', ''freighter not available'', ''please install''] then Not_installed
          else if list_ex has [''locked'', ''unlock''] then Locked
          else if list_ex has [''rejected'', ''cancelled'', ''canceled'', ''user declined'', ''user denied'', ''connection declined'']
          then Rejected
          else if has ''network'' \<and> list_ex has [''mismatch'', ''switch'', ''unsupported network''] then Network_mismatch
          else if list_ex has [''timeout'', ''timed out'', ''popup closed''] then Timed_out
          else Unknown_error)"

datatype ErrorCategory = Cat_network | Cat_contract | Cat_wallet | Cat_not_found | Cat_validation | Cat_timeout | Cat_rate_limited | Cat_unknown

record categorized =
  ca_category :: ErrorCategory
  ca_message :: "string option"
  ca_retryable :: bool

text \<open>
  The result for a falsy error is the text \<open>unknown\<close>. A message of the rate limit is not defined; for a contract error the code calls
  a function and reads a table that no module defines, which throws.
\<close>

datatype categorize_result = Unknown_text | Categorized categorized | Throws_reference_error

definition timeout_patterns :: "string list" where
  "timeout_patterns = [''timeout'', ''timed out'', ''polling timeout'']"

definition network_patterns :: "string list" where
  "network_patterns = [''failed to fetch'', ''networkerror'', ''network error'', ''net::err'', ''connection refused'', ''connection reset'']"

definition not_found_patterns :: "string list" where
  "not_found_patterns = [''not found'', ''notfound'', ''404'', ''could not find'']"

definition wallet_patterns :: "string list" where
  "wallet_patterns = [''user declined'', ''user rejected'', ''transaction rejected by user'', ''declined'', ''cancelled'', ''canceled'',
     ''denied'', ''closed modal'', ''freighter'', ''xbull'', ''albedo'', ''extension not found'', ''wallet'']"

definition validation_patterns :: "string list" where
  "validation_patterns = [''invalid amount'', ''invalid username'', ''invalid address'', ''validation'', ''too long'', ''too short'',
     ''required field'']"

definition rate_patterns :: "string list" where
  "rate_patterns = [''rate limit'', ''rate_limit'', ''too many requests'', ''429'', ''rate-limited'']"

definition contract_patterns :: "string list" where
  "contract_patterns = [''error(contract'', ''soroban'', ''simulation'', ''contract'']"

definition categorizeError :: "bool \<Rightarrow> string option \<Rightarrow> categorize_result" where
  "categorizeError isTypeError error =
     (case error of
        None \<Rightarrow> Unknown_text
      | Some e \<Rightarrow>
          let has = str_includes (to_lower e); result = (\<lambda>c m r. Categorized \<lparr>ca_category = c, ca_message = m, ca_retryable = r\<rparr>) in
          if list_ex has timeout_patterns then result Cat_timeout (Some ''The request timed out. Please try again.'') True
          else if list_ex has network_patterns \<or> isTypeError \<and> has ''fetch''
          then result Cat_network (Some ''Network error. Please check your connection.'') True
          else if list_ex has not_found_patterns then result Cat_not_found (Some ''The requested content could not be found.'') False
          else if list_ex has wallet_patterns then result Cat_wallet (Some ''Transaction was rejected by your wallet.'') False
          else if list_ex has validation_patterns then result Cat_validation (Some ''Please check your input and try again.'') False
          else if list_ex has rate_patterns then result Cat_rate_limited None True
          else if list_ex has contract_patterns then Throws_reference_error
          else result Cat_unknown (Some ''An unexpected error occurred.'') True)"

section \<open>The store\<close>

record ConnectedWallet =
  cw_publicKey :: string
  cw_walletType :: string

datatype Network = TESTNET | PUBLIC

datatype SigningStatus = Sign_idle | Signing | Signed | Sign_error

record wallet_store =
  ws_wallets :: "ConnectedWallet list"
  ws_activeWalletKey :: "string option"
  ws_publicKey :: "string option"
  ws_connected :: bool
  ws_connecting :: bool
  ws_isReconnecting :: bool
  ws_error :: "string option"
  ws_walletError :: "WalletErrorType option"
  ws_network :: Network
  ws_walletType :: "string option"
  ws_signingStatus :: SigningStatus
  ws_hasHydrated :: bool
  ws_sessionExpiresAt :: "int option"

definition SESSION_TIMEOUT_MS :: int where
  "SESSION_TIMEOUT_MS = 30 * 60 * 1000"

definition initialWalletState :: wallet_store where
  "initialWalletState = \<lparr>ws_wallets = [], ws_activeWalletKey = None, ws_publicKey = None, ws_connected = False, ws_connecting = False,
     ws_isReconnecting = False, ws_error = None, ws_walletError = None, ws_network = TESTNET, ws_walletType = None,
     ws_signingStatus = Sign_idle, ws_hasHydrated = False, ws_sessionExpiresAt = None\<rparr>"

definition find_wallet :: "string \<Rightarrow> ConnectedWallet list \<Rightarrow> ConnectedWallet option" where
  "find_wallet key ws = find (\<lambda>w. cw_publicKey w = key) ws"

definition connect_wallet :: "int \<Rightarrow> string \<Rightarrow> string option \<Rightarrow> wallet_store \<Rightarrow> wallet_store" where
  "connect_wallet now key walletType s =
     s\<lparr>ws_wallets := (if find_wallet key (ws_wallets s) \<noteq> None then ws_wallets s
         else ws_wallets s @ [\<lparr>cw_publicKey = key, cw_walletType = (case walletType of None \<Rightarrow> ''unknown'' | Some t \<Rightarrow> t)\<rparr>]),
       ws_activeWalletKey := Some key, ws_publicKey := Some key, ws_connected := True, ws_connecting := False,
       ws_isReconnecting := False, ws_error := None, ws_walletError := None, ws_walletType := walletType,
       ws_sessionExpiresAt := Some (now + SESSION_TIMEOUT_MS)\<rparr>"

definition disconnect :: "wallet_store \<Rightarrow> wallet_store" where
  "disconnect s = s\<lparr>ws_wallets := [], ws_activeWalletKey := None, ws_publicKey := None, ws_connected := False, ws_error := None,
     ws_walletError := None, ws_walletType := None, ws_signingStatus := Sign_idle, ws_sessionExpiresAt := None\<rparr>"

definition removeWallet :: "string \<Rightarrow> wallet_store \<Rightarrow> wallet_store" where
  "removeWallet key s =
     (let remaining = filter (\<lambda>w. cw_publicKey w \<noteq> key) (ws_wallets s);
          newActive = (if ws_activeWalletKey s = Some key then map_option cw_publicKey (case remaining of [] \<Rightarrow> None | w # _ \<Rightarrow> Some w)
            else ws_activeWalletKey s);
          newActiveWallet = (case newActive of None \<Rightarrow> None | Some k \<Rightarrow> find_wallet k remaining)
      in s\<lparr>ws_wallets := remaining, ws_activeWalletKey := newActive, ws_publicKey := newActive, ws_connected := remaining \<noteq> [],
           ws_walletType := map_option cw_walletType newActiveWallet\<rparr>)"

definition setActiveWallet :: "string \<Rightarrow> wallet_store \<Rightarrow> wallet_store" where
  "setActiveWallet key s =
     (case find_wallet key (ws_wallets s) of
        None \<Rightarrow> s
      | Some w \<Rightarrow> s\<lparr>ws_activeWalletKey := Some key, ws_publicKey := Some key, ws_walletType := Some (cw_walletType w)\<rparr>)"

definition setConnecting :: "bool \<Rightarrow> wallet_store \<Rightarrow> wallet_store" where
  "setConnecting b s = s\<lparr>ws_connecting := b\<rparr>"

definition setReconnecting :: "bool \<Rightarrow> wallet_store \<Rightarrow> wallet_store" where
  "setReconnecting b s = s\<lparr>ws_isReconnecting := b\<rparr>"

definition setError :: "string option \<Rightarrow> wallet_store \<Rightarrow> wallet_store" where
  "setError e s = s\<lparr>ws_error := e, ws_connecting := False, ws_isReconnecting := False\<rparr>"

definition setWalletError :: "WalletErrorType option \<Rightarrow> wallet_store \<Rightarrow> wallet_store" where
  "setWalletError e s = s\<lparr>ws_walletError := e\<rparr>"

definition setNetwork :: "Network \<Rightarrow> wallet_store \<Rightarrow> wallet_store" where
  "setNetwork n s = s\<lparr>ws_network := n\<rparr>"

definition setSigningStatus :: "SigningStatus \<Rightarrow> wallet_store \<Rightarrow> wallet_store" where
  "setSigningStatus st s = s\<lparr>ws_signingStatus := st\<rparr>"

definition refreshSession :: "int \<Rightarrow> int \<Rightarrow> wallet_store \<Rightarrow> wallet_store" where
  "refreshSession now timeoutMs s = (if \<not> ws_connected s then s else s\<lparr>ws_sessionExpiresAt := Some (now + timeoutMs)\<rparr>)"

text \<open>A reload: the persisted fields come back, the others start anew.\<close>

definition partialize :: "wallet_store \<Rightarrow> wallet_store" where
  "partialize s = initialWalletState\<lparr>ws_wallets := ws_wallets s, ws_activeWalletKey := ws_activeWalletKey s,
     ws_walletType := ws_walletType s, ws_network := ws_network s, ws_publicKey := ws_publicKey s, ws_connected := ws_connected s,
     ws_sessionExpiresAt := ws_sessionExpiresAt s\<rparr>"

definition reload :: "wallet_store \<Rightarrow> wallet_store" where
  "reload s = (partialize s)\<lparr>ws_hasHydrated := True\<rparr>"

section \<open>Connecting and signing\<close>

text \<open>\<open>connect\<close> up to the modal, and what may follow: an answer for the selected wallet, nothing selected, no answer in time.\<close>

definition wallet_failed :: "string \<Rightarrow> wallet_store \<Rightarrow> wallet_store" where
  "wallet_failed e s = (let c = classifyWalletError (Some e) in setError (Some (WALLET_MESSAGES c)) (setWalletError (Some c) s))"

definition connect_begins :: "wallet_store \<Rightarrow> wallet_store" where
  "connect_begins s = setWalletError None (setError None (setConnecting True s))"

text \<open>The network of the extension, when it is asked and answers; then the wallet is added.\<close>

definition detect_network :: "string option \<Rightarrow> wallet_store \<Rightarrow> wallet_store" where
  "detect_network answer s =
     (case answer of None \<Rightarrow> s | Some n \<Rightarrow> setNetwork (if n = ''PUBLIC'' then PUBLIC else TESTNET) s)"

definition wallet_selected :: "int \<Rightarrow> string \<Rightarrow> string option \<Rightarrow> string + string \<Rightarrow> wallet_store \<Rightarrow> wallet_store" where
  "wallet_selected now walletId network address s =
     (case address of
        Inl e \<Rightarrow> wallet_failed e s
      | Inr key \<Rightarrow> connect_wallet now key (Some walletId) (detect_network network s))"

definition not_selected :: "string \<Rightarrow> wallet_store \<Rightarrow> wallet_store" where
  "not_selected e s = setConnecting False (wallet_failed e s)"

definition connectWallet_begins :: "wallet_store \<Rightarrow> wallet_store" where
  "connectWallet_begins s = setError None (setConnecting True s)"

definition connectWallet_settles :: "int \<Rightarrow> string \<Rightarrow> string option \<Rightarrow> string + string \<Rightarrow> wallet_store \<Rightarrow> wallet_store" where
  "connectWallet_settles now walletId network address s = setConnecting False
     (case address of
        Inl e \<Rightarrow> setError (Some e) s
      | Inr key \<Rightarrow> connect_wallet now key (Some walletId) (detect_network network s))"

text \<open>The effect that reconnects on mount: whether it asks the wallet at all, and what its answer does.\<close>

definition should_reconnect :: "wallet_store \<Rightarrow> bool" where
  "should_reconnect s \<longleftrightarrow> ws_hasHydrated s \<and> ws_walletType s \<noteq> None \<and> \<not> ws_connected s"

definition reconnect_settles :: "int \<Rightarrow> string option \<Rightarrow> wallet_store \<Rightarrow> wallet_store" where
  "reconnect_settles now answer s = setReconnecting False
     (case answer of None \<Rightarrow> disconnect s | Some key \<Rightarrow> connect_wallet now key (ws_walletType s) s)"

definition rejection_text :: "string \<Rightarrow> bool" where
  "rejection_text m \<longleftrightarrow> list_ex (str_includes (to_lower m)) [''cancel'', ''reject'', ''denied'', ''declined'', ''closed'']"

definition sign_begins :: "wallet_store \<Rightarrow> (string + string) \<times> wallet_store" where
  "sign_begins s =
     (case ws_publicKey s of
        None \<Rightarrow> (Inl ''Please connect your wallet before signing transactions'', s)
      | Some key \<Rightarrow> (Inr key, setSigningStatus Signing s))"

definition sign_settles :: "string + string \<Rightarrow> wallet_store \<Rightarrow> (string + string) \<times> wallet_store" where
  "sign_settles answer s =
     (case answer of
        Inr signed \<Rightarrow> (Inr signed, setSigningStatus Signed s)
      | Inl m \<Rightarrow> (Inl (if rejection_text m then ''Transaction rejected by user'' else m), setSigningStatus Sign_error s))"

section \<open>The watch over the extension\<close>

datatype recovery = Rec_disconnect | Rec_accountSwitched | Rec_reconnect

definition recovery_text :: "recovery \<Rightarrow> string" where
  "recovery_text r = (case r of
       Rec_disconnect \<Rightarrow> ''Your wallet connection was lost. Please reconnect.''
     | Rec_accountSwitched \<Rightarrow> ''Your wallet account was switched. Please reconnect with the correct account.''
     | Rec_reconnect \<Rightarrow> ''Wallet connection unstable. Please check your wallet extension and reconnect.'')"

definition handleWalletError :: "recovery \<Rightarrow> wallet_store \<Rightarrow> wallet_store" where
  "handleWalletError r s = setError (Some (recovery_text r)) (disconnect s)"

text \<open>
  A check of the extension: it is missing, answers with an address, does not answer in time, or throws. The key is the one the
  check began with.
\<close>

datatype extension = Missing | Address string | No_answer | Extension_throws

definition STATE_MISMATCH_THRESHOLD :: nat where
  "STATE_MISMATCH_THRESHOLD = 2"

definition counted_check :: "nat \<Rightarrow> wallet_store \<Rightarrow> wallet_store \<times> nat" where
  "counted_check mismatches s =
     (if STATE_MISMATCH_THRESHOLD \<le> mismatches then (handleWalletError Rec_reconnect s, mismatches) else (s, mismatches))"

definition checkWalletState :: "extension \<Rightarrow> string \<Rightarrow> wallet_store \<Rightarrow> nat \<Rightarrow> wallet_store \<times> nat" where
  "checkWalletState ext key s mismatches =
     (case ext of
        Missing \<Rightarrow> (handleWalletError Rec_disconnect s, mismatches)
      | Address a \<Rightarrow> if a \<noteq> key then (handleWalletError Rec_accountSwitched s, mismatches) else counted_check 0 s
      | No_answer \<Rightarrow> counted_check (mismatches + 1) s
      | Extension_throws \<Rightarrow> (s, mismatches + 1))"

section \<open>All steps\<close>

datatype wallet_op =
    Connect int string "string option" | Disconnect | Remove string | Set_active string | Set_network Network
  | Connect_begins | Selected int string "string option" "string + string" | Not_selected string
  | ConnectWallet_begins | ConnectWallet_settles int string "string option" "string + string"
  | Reconnect_settles int "string option" | Sign_begins | Sign_settles "string + string" | Signing_idle | Refresh_session int int
  | Check extension string nat | Reload

fun wallet_run :: "wallet_op \<Rightarrow> wallet_store \<Rightarrow> wallet_store" where
  "wallet_run (Connect now key t) s = connect_wallet now key t s"
| "wallet_run Disconnect s = disconnect s"
| "wallet_run (Remove key) s = removeWallet key s"
| "wallet_run (Set_active key) s = setActiveWallet key s"
| "wallet_run (Set_network n) s = setNetwork n s"
| "wallet_run Connect_begins s = connect_begins s"
| "wallet_run (Selected now i n a) s = wallet_selected now i n a s"
| "wallet_run (Not_selected e) s = not_selected e s"
| "wallet_run ConnectWallet_begins s = connectWallet_begins s"
| "wallet_run (ConnectWallet_settles now i n a) s = connectWallet_settles now i n a s"
| "wallet_run (Reconnect_settles now a) s = (if should_reconnect s then reconnect_settles now a s else s)"
| "wallet_run Sign_begins s = snd (sign_begins s)"
| "wallet_run (Sign_settles a) s = snd (sign_settles a s)"
| "wallet_run Signing_idle s = setSigningStatus Sign_idle s"
| "wallet_run (Refresh_session now t) s = refreshSession now t s"
| "wallet_run (Check ext key n) s = fst (checkWalletState ext key s n)"
| "wallet_run Reload s = reload s"

definition wallet_history :: "wallet_op list \<Rightarrow> wallet_store" where
  "wallet_history ops = fold wallet_run ops initialWalletState"

section \<open>The idle timeout\<close>

definition WARNING_BEFORE_MS :: int where
  "WARNING_BEFORE_MS = 5 * 60 * 1000"

record idle_timers =
  it_warnAt :: "int option"
  it_expireAt :: "int option"

definition resetTimers :: "int \<Rightarrow> int \<Rightarrow> idle_timers" where
  "resetTimers timeoutMs now =
     \<lparr>it_warnAt = (if 0 < timeoutMs - WARNING_BEFORE_MS then Some (now + (timeoutMs - WARNING_BEFORE_MS)) else None),
      it_expireAt = Some (now + timeoutMs)\<rparr>"

definition handleVisibility :: "int \<Rightarrow> bool \<Rightarrow> int \<Rightarrow> idle_timers" where
  "handleVisibility timeoutMs hidden now =
     (if hidden then \<lparr>it_warnAt = None, it_expireAt = Some (now + timeoutMs)\<rparr> else resetTimers timeoutMs now)"

text \<open>A page that is hidden gets the full time once more, and no warning.\<close>

lemma hiding_postpones_expiry:
  "it_expireAt (handleVisibility timeoutMs True now) = it_expireAt (resetTimers timeoutMs now) \<and>
   it_warnAt (handleVisibility timeoutMs True now) = None"
  by (simp add: handleVisibility_def resetTimers_def)

section \<open>The store stays consistent\<close>

definition wallet_keys :: "wallet_store \<Rightarrow> string list" where
  "wallet_keys s = map cw_publicKey (ws_wallets s)"

definition wallet_ok :: "wallet_store \<Rightarrow> bool" where
  "wallet_ok s \<longleftrightarrow> ws_publicKey s = ws_activeWalletKey s \<and> ws_connected s = (ws_wallets s \<noteq> []) \<and> distinct (wallet_keys s) \<and>
     \<not> ws_connecting s \<and> (ws_wallets s = [] \<longrightarrow> ws_activeWalletKey s = None \<and> ws_walletType s = None) \<and>
     (ws_wallets s \<noteq> [] \<longrightarrow> (\<exists>k \<in> set (wallet_keys s). ws_activeWalletKey s = Some k))"

text \<open>What the invariant reads, so that the other fields can be ignored.\<close>

lemma wallet_ok_frame [simp]:
  "wallet_ok (s\<lparr>ws_error := e\<rparr>) = wallet_ok s" "wallet_ok (s\<lparr>ws_walletError := we\<rparr>) = wallet_ok s"
  "wallet_ok (s\<lparr>ws_network := n\<rparr>) = wallet_ok s" "wallet_ok (s\<lparr>ws_signingStatus := st\<rparr>) = wallet_ok s"
  "wallet_ok (s\<lparr>ws_isReconnecting := b\<rparr>) = wallet_ok s" "wallet_ok (s\<lparr>ws_sessionExpiresAt := t\<rparr>) = wallet_ok s"
  "wallet_ok (s\<lparr>ws_hasHydrated := b\<rparr>) = wallet_ok s"
  by (simp_all add: wallet_ok_def wallet_keys_def)

lemma find_wallet_None: "find_wallet key ws = None \<longleftrightarrow> key \<notin> cw_publicKey ` set ws"
  by (auto simp: find_wallet_def find_None_iff)

lemma find_wallet_Some: "find_wallet key ws = Some w \<Longrightarrow> w \<in> set ws \<and> cw_publicKey w = key"
  by (auto simp: find_wallet_def find_Some_iff)

lemma wallet_connect_ok: "distinct (wallet_keys s) \<Longrightarrow> wallet_ok (connect_wallet now key t s)"
  by (auto simp: connect_wallet_def wallet_ok_def wallet_keys_def find_wallet_None dest: find_wallet_Some)

lemma ok_distinct: "wallet_ok s \<Longrightarrow> distinct (wallet_keys s)"
  by (simp add: wallet_ok_def)

lemma wallet_disconnect_ok: "\<not> ws_connecting s \<Longrightarrow> wallet_ok (disconnect s)"
  by (simp add: disconnect_def wallet_ok_def wallet_keys_def)

lemma wallet_remove_ok: "wallet_ok s \<Longrightarrow> wallet_ok (removeWallet key s)"
proof -
  assume ok: "wallet_ok s"
  define rest where "rest = filter (\<lambda>w. cw_publicKey w \<noteq> key) (ws_wallets s)"
  have d: "distinct (map cw_publicKey rest)" using ok by (simp add: rest_def wallet_ok_def wallet_keys_def distinct_map_filter)
  show ?thesis
  proof (cases rest)
    case Nil
    have "ws_wallets s = [] \<or> ws_activeWalletKey s = Some key"
      using ok Nil by (auto simp: rest_def wallet_ok_def wallet_keys_def filter_empty_conv)
    moreover have "filter (\<lambda>w. cw_publicKey w \<noteq> key) (ws_wallets s) = []" using Nil by (simp add: rest_def)
    ultimately show ?thesis
      using ok by (auto simp: removeWallet_def wallet_ok_def wallet_keys_def find_wallet_def)
  next
    case (Cons w ws)
    then have "ws_wallets s \<noteq> []" by (auto simp: rest_def)
    then obtain k where k: "ws_activeWalletKey s = Some k" "k \<in> cw_publicKey ` set (ws_wallets s)"
      using ok by (auto simp: wallet_ok_def wallet_keys_def)
    have "k \<in> cw_publicKey ` set rest" if "k \<noteq> key" using k that by (auto simp: rest_def)
    with ok Cons k d show ?thesis
      by (auto simp: removeWallet_def rest_def [symmetric] wallet_ok_def wallet_keys_def Let_def)
  qed
qed

lemma set_active_ok: "wallet_ok s \<Longrightarrow> wallet_ok (setActiveWallet key s)"
  by (auto simp: setActiveWallet_def wallet_ok_def wallet_keys_def split: option.split dest: find_wallet_Some)

lemma keys_frame [simp]:
  "wallet_keys (setError e s) = wallet_keys s" "wallet_keys (setConnecting b s) = wallet_keys s" "wallet_keys (setNetwork n s) = wallet_keys s"
  "wallet_keys (detect_network a s) = wallet_keys s"
  by (simp_all add: wallet_keys_def setError_def setConnecting_def setNetwork_def detect_network_def split: option.split)

lemma not_connecting: "wallet_ok s \<Longrightarrow> \<not> ws_connecting s" by (simp add: wallet_ok_def)

lemma set_error_ok: "wallet_ok s \<Longrightarrow> wallet_ok (setError e s)" "wallet_ok s \<Longrightarrow> wallet_ok (setConnecting False s)"
  "wallet_ok s \<Longrightarrow> wallet_ok (setError e (setConnecting b s))"
  by (simp_all add: setError_def setConnecting_def wallet_ok_def wallet_keys_def)

lemma failed_ok: "wallet_ok s \<Longrightarrow> wallet_ok (wallet_failed e s)"
  by (simp add: wallet_failed_def Let_def set_error_ok setWalletError_def)

lemma recovery_ok: "wallet_ok s \<Longrightarrow> wallet_ok (handleWalletError r s)"
  by (simp add: handleWalletError_def set_error_ok wallet_disconnect_ok not_connecting)

lemma reload_ok: "wallet_ok s \<Longrightarrow> wallet_ok (reload s)"
  by (simp add: reload_def partialize_def wallet_ok_def wallet_keys_def initialWalletState_def)

lemmas wallet_run_defs = connect_begins_def setWalletError_def connectWallet_begins_def wallet_selected_def not_selected_def
  connectWallet_settles_def reconnect_settles_def sign_begins_def sign_settles_def setSigningStatus_def refreshSession_def
  checkWalletState_def counted_check_def setNetwork_def setReconnecting_def Let_def

lemma wallet_run_ok: "wallet_ok s \<Longrightarrow> wallet_ok (wallet_run op s)"
  by (cases op)
     (auto simp: wallet_run_defs wallet_connect_ok ok_distinct wallet_disconnect_ok not_connecting wallet_remove_ok set_active_ok set_error_ok failed_ok
       recovery_ok reload_ok split: sum.split option.split extension.split)

text \<open>
  C37. In every history the active wallet is one of the connected ones and the same as the public key, the wallets are distinct, and the
  store is connected exactly when there are wallets. A wallet's type is kept only while connected, so reconnecting after a reload,
  which needs a type and no connection, never happens; and the store never says that it is connecting.
\<close>

theorem wallet_store_consistent:
  "(let s = wallet_history ops in ws_publicKey s = ws_activeWalletKey s \<and> ws_connected s = (ws_wallets s \<noteq> []) \<and>
     distinct (map cw_publicKey (ws_wallets s)) \<and>
     (case ws_activeWalletKey s of None \<Rightarrow> ws_wallets s = [] | Some k \<Rightarrow> k \<in> cw_publicKey ` set (ws_wallets s)) \<and>
     \<not> should_reconnect s \<and> \<not> ws_connecting s)"
proof -
  have "wallet_ok s \<Longrightarrow> wallet_ok (fold wallet_run ops s)" for s
    by (induction ops arbitrary: s) (simp_all add: wallet_run_ok)
  moreover have "wallet_ok initialWalletState" by (simp add: wallet_ok_def wallet_keys_def initialWalletState_def)
  ultimately have "wallet_ok (wallet_history ops)" by (simp add: wallet_history_def)
  then show ?thesis
    by (cases "ws_wallets (wallet_history ops) = []") (auto simp: wallet_ok_def wallet_keys_def should_reconnect_def Let_def)
qed

section \<open>Weak spots\<close>

text \<open>The watch asks one extension, whatever the wallet: a user of another wallet is disconnected by the first check.\<close>

lemma other_wallets_are_disconnected:
  "ws_wallets (fst (checkWalletState Missing key (connect_wallet now key (Some ''albedo'') s) 0)) = []"
  by (simp add: checkWalletState_def handleWalletError_def disconnect_def setError_def)

text \<open>So is one who makes another of his wallets the active one: the extension still answers with its own.\<close>

lemma switching_wallets_disconnects:
  assumes "a \<noteq> b"
  shows "ws_wallets (fst (checkWalletState (Address a) b (setActiveWallet b s) 0)) = []"
  using assms by (simp add: checkWalletState_def handleWalletError_def disconnect_def setError_def)

text \<open>An error of the contract is not categorised: the code throws. A blocked popup counts as a locked wallet.\<close>

lemma contract_error_throws: "categorizeError False (Some ''HostError: Error(Contract, #7)'') = Throws_reference_error"
  by code_simp

lemma blocked_popup_is_locked: "classifyWalletError (Some ''Error: Popup blocked'') = Locked"
  by code_simp

end
