(* ===== verification/ClientStorage.thy ===== *)
theory ClientStorage
  imports JsValues
begin

text \<open>
  The encrypted storage of the web client (\<open>frontend-scaffold/src/services/secureStorage.ts\<close>): values with an expiry in the browser's
  storage, and in memory when they cannot be encrypted or stored. The cipher is a parameter; the browser's storage is a list of
  entries in the order in which it numbers its keys.
\<close>

section \<open>State\<close>

text \<open>An entry of the browser's storage: a payload of this service, or another text.\<close>

datatype stored = Payload nat string "int option" | Other_text string

record secure_storage =
  ss_available :: bool
  ss_memory :: "string \<Rightarrow> (jsval \<times> int option) option"
  ss_local :: "(string \<times> stored) list"

text \<open>\<open>seal\<close> fails when a value cannot be turned into text or encrypted; \<open>unseal\<close> on anything it did not make.\<close>

record cipher =
  seal :: "nat \<Rightarrow> jsval \<Rightarrow> string option"
  unseal :: "nat \<Rightarrow> string \<Rightarrow> jsval option"

definition full_key :: "string \<Rightarrow> string" where
  "full_key key = ''tipz_'' @ key"

definition is_expired :: "int option \<Rightarrow> int \<Rightarrow> bool" where
  "is_expired expiry now = (case expiry of None \<Rightarrow> False | Some e \<Rightarrow> e \<noteq> 0 \<and> e < now)"

definition expiry_of :: "nat option \<Rightarrow> int \<Rightarrow> int option" where
  "expiry_of ttl now = (case ttl of Some (Suc n) \<Rightarrow> Some (now + int (Suc n)) | _ \<Rightarrow> None)"

definition put_item :: "string \<Rightarrow> stored \<Rightarrow> (string \<times> stored) list \<Rightarrow> (string \<times> stored) list" where
  "put_item k v l = (if k \<in> fst ` set l then map (\<lambda>e. if fst e = k then (k, v) else e) l else l @ [(k, v)])"

definition drop_item :: "string \<Rightarrow> (string \<times> stored) list \<Rightarrow> (string \<times> stored) list" where
  "drop_item k l = filter (\<lambda>e. fst e \<noteq> k) l"

section \<open>Operations\<close>

text \<open>\<open>fits\<close> says whether the browser accepts the entry.\<close>

definition set_value :: "cipher \<Rightarrow> nat \<Rightarrow> bool \<Rightarrow> int \<Rightarrow> string \<Rightarrow> jsval \<Rightarrow> nat option \<Rightarrow> secure_storage \<Rightarrow> secure_storage" where
  "set_value c iv fits now key v ttl s =
     (let expiry = expiry_of ttl now; in_memory = s\<lparr>ss_memory := (ss_memory s)(full_key key \<mapsto> (v, expiry))\<rparr> in
      if \<not> ss_available s then in_memory
      else (case seal c iv v of
          None \<Rightarrow> in_memory
        | Some data \<Rightarrow>
            if fits then s\<lparr>ss_local := put_item (full_key key) (Payload iv data expiry) (ss_local s)\<rparr> else in_memory))"

definition remove_value :: "string \<Rightarrow> secure_storage \<Rightarrow> secure_storage" where
  "remove_value key s = s\<lparr>ss_local := drop_item (full_key key) (ss_local s), ss_memory := (ss_memory s)(full_key key := None)\<rparr>"

definition get_local :: "cipher \<Rightarrow> int \<Rightarrow> string \<Rightarrow> secure_storage \<Rightarrow> jsval option \<times> secure_storage" where
  "get_local c now key s =
     (if \<not> ss_available s then (None, s)
      else (case map_of (ss_local s) (full_key key) of
          None \<Rightarrow> (None, s)
        | Some (Other_text t) \<Rightarrow> (None, s)
        | Some (Payload iv data expiry) \<Rightarrow>
            if is_expired expiry now then (None, remove_value key s) else (unseal c iv data, s)))"

definition get_value :: "cipher \<Rightarrow> int \<Rightarrow> string \<Rightarrow> secure_storage \<Rightarrow> jsval option \<times> secure_storage" where
  "get_value c now key s =
     (case ss_memory s (full_key key) of
        Some (v, expiry) \<Rightarrow>
          if is_expired expiry now then (None, s\<lparr>ss_memory := (ss_memory s)(full_key key := None)\<rparr>) else (Some v, s)
      | None \<Rightarrow> get_local c now key s)"

definition clear_values :: "secure_storage \<Rightarrow> secure_storage" where
  "clear_values s = s\<lparr>ss_local := filter (\<lambda>e. \<not> starts_with (fst e) ''tipz_'') (ss_local s), ss_memory := (\<lambda>_. None)\<rparr>"

text \<open>The clean-up counts through the keys while it removes some of them.\<close>

definition prunable :: "int \<Rightarrow> string \<times> stored \<Rightarrow> bool" where
  "prunable now e \<longleftrightarrow> starts_with (fst e) ''tipz_'' \<and>
     (case snd e of Payload iv data expiry \<Rightarrow> is_expired expiry now | Other_text t \<Rightarrow> False)"

function prune_from :: "int \<Rightarrow> nat \<Rightarrow> (string \<times> stored) list \<Rightarrow> (string \<times> stored) list" where
  "prune_from now i l =
     (if i < length l
      then prune_from now (i + 1) (if prunable now (l ! i) then drop_item (fst (l ! i)) l else l)
      else l)"
  by pat_completeness auto
termination
  by (relation "measure (\<lambda>(now, i, l). length l - i)")
    (auto simp: drop_item_def intro: le_less_trans [OF diff_le_mono [OF length_filter_le]])

declare prune_from.simps [simp del]

definition pruneExpiredEntries :: "int \<Rightarrow> secure_storage \<Rightarrow> secure_storage" where
  "pruneExpiredEntries now s = s\<lparr>ss_local := prune_from now 0 (ss_local s)\<rparr>"

section \<open>Properties\<close>

lemma key_in: "(k, b) \<in> set l \<Longrightarrow> k \<in> fst ` set l"
  by force

lemma stored_put [simp]: "map_of (put_item k v l) k' = (if k' = k then Some v else map_of l k')"
proof -
  have "map_of (map (\<lambda>e. if fst e = k then (k, v) else e) l) k' = (if k' = k then (if k \<in> fst ` set l then Some v else None) else map_of l k')"
    by (induction l) (auto intro: key_in)
  moreover have "k \<notin> fst ` set l \<Longrightarrow> map_of l k = None" by (simp add: map_of_eq_None_iff)
  ultimately show ?thesis by (auto simp: put_item_def map_add_def intro: key_in split: option.split)
qed

lemma stored_drop [simp]: "map_of (drop_item k l) k' = (if k' = k then None else map_of l k')"
  by (induction l) (auto simp: drop_item_def)

text \<open>
  With a cipher that opens what it sealed, a value reads back until it expires and not after, whether or not it could be
  encrypted and stored; other keys are not touched. The key must not have been left in memory before.
\<close>

theorem stored_value_reads_back:
  assumes "\<And>d. seal c iv v = Some d \<Longrightarrow> unseal c iv d = Some v"
    and "ss_memory s (full_key key) = None"
  shows "(\<lambda>k. fst (get_value c later k (set_value c iv fits now key v ttl s))) =
    (\<lambda>k. fst (get_value c later k s))(key := if is_expired (expiry_of ttl now) later then None else Some v)"
proof
  fix k
  have "full_key k \<noteq> full_key key" if "k \<noteq> key" using that by (simp add: full_key_def)
  then show "fst (get_value c later k (set_value c iv fits now key v ttl s)) =
    ((\<lambda>k. fst (get_value c later k s))(key := if is_expired (expiry_of ttl now) later then None else Some v)) k"
    using assms
    by (cases "k = key") (auto simp: get_value_def set_value_def get_local_def Let_def split: option.split stored.split)
qed

definition plain_cipher :: cipher where
  "plain_cipher = \<lparr>seal = (\<lambda>iv v. case v of JStr t \<Rightarrow> Some t | _ \<Rightarrow> None), unseal = (\<lambda>iv d. Some (JStr d))\<rparr>"

definition empty_storage :: secure_storage where
  "empty_storage = \<lparr>ss_available = True, ss_memory = (\<lambda>_. None), ss_local = []\<rparr>"

theorem stored_value_reads_back_witness:
  "fst (get_value plain_cipher 5 ''a'' (set_value plain_cipher 1 True 0 ''a'' (JStr ''x'') (Some 10) empty_storage)) = Some (JStr ''x'') \<and>
   fst (get_value plain_cipher 15 ''a'' (set_value plain_cipher 1 True 0 ''a'' (JStr ''x'') (Some 10) empty_storage)) = None"
proof -
  have r: "\<And>d. seal plain_cipher 1 (JStr ''x'') = Some d \<Longrightarrow> unseal plain_cipher 1 d = Some (JStr ''x'')" by (simp add: plain_cipher_def)
  have m: "ss_memory empty_storage (full_key ''a'') = None" by (simp add: empty_storage_def)
  have e: "\<not> is_expired (expiry_of (Some 10) 0) 5" "is_expired (expiry_of (Some 10) 0) 15" by code_simp+
  from fun_cong [OF stored_value_reads_back [OF r m, of 5 True 0 "Some 10"], of "''a''"]
    fun_cong [OF stored_value_reads_back [OF r m, of 15 True 0 "Some 10"], of "''a''"] e
  show ?thesis by simp
qed

text \<open>A value left in memory hides every later one, even though it is stored.\<close>

lemma memory_hides_later_values:
  "(let s = set_value plain_cipher 1 False 0 ''a'' (JStr ''old'') None empty_storage
    in fst (get_value plain_cipher 1 ''a'' (set_value plain_cipher 2 True 1 ''a'' (JStr ''new'') None s))) = Some (JStr ''old'')"
  by code_simp

text \<open>Of two expired entries in a row the clean-up removes the first only.\<close>

lemma clean_up_skips_neighbour:
  "map fst (ss_local (pruneExpiredEntries 10 (empty_storage\<lparr>ss_local := [(''tipz_a'', Payload 1 [] (Some 5)), (''tipz_b'', Payload 1 [] (Some 5))]\<rparr>)))
   = [''tipz_b'']"
  by (simp add: pruneExpiredEntries_def prune_from.simps drop_item_def) code_simp

end
