(* ===== verification/ClientDrafts.thy ===== *)
theory ClientDrafts
  imports JsValues
begin

text \<open>
  Drafts of forms (\<open>frontend-scaffold/src/hooks/useFormAutosave.ts\<close>): what is stored of a form, when, and what is offered to be
  restored. A form renders, its timer fires and its buttons are pressed in any order; the text of a draft is the value it denotes.
\<close>

section \<open>Fields\<close>

type_synonym form_data = "(string \<times> jsval) list"

definition FORM_DRAFT_TTL_MS :: int where
  "FORM_DRAFT_TTL_MS = 24 * 60 * 60 * 1000"

definition SENSITIVE_FIELD_PATTERNS :: "string list" where
  "SENSITIVE_FIELD_PATTERNS = [''password'', ''passwd'', ''secret'', ''token'', ''apikey'', ''privatekey'', ''mnemonic'', ''seed'',
     ''credential'', ''otp'', ''cvv'', ''ssn'', ''amount'', ''recipient'', ''destination'']"

definition sensitive_field :: "string \<Rightarrow> bool" where
  "sensitive_field key \<longleftrightarrow> list_ex (str_includes (to_lower key)) SENSITIVE_FIELD_PATTERNS"

definition stripSensitiveFields :: "string list \<Rightarrow> form_data \<Rightarrow> form_data" where
  "stripSensitiveFields excludeFields fs = filter (\<lambda>(k, v). k \<notin> set excludeFields \<and> \<not> sensitive_field k) fs"

section \<open>Stored drafts\<close>

text \<open>A stored text is a JSON value or no JSON at all; an empty text counts as none.\<close>

datatype stored_text = Not_json | Json jsval

record draft_storage =
  dr_local :: "stored_text option"
  dr_session :: "stored_text option"

definition is_object :: "jsval \<Rightarrow> bool" where
  "is_object v = (case v of JObj c es \<Rightarrow> True | JArr vs \<Rightarrow> True | _ \<Rightarrow> False)"

definition isValidPayload :: "jsval \<Rightarrow> bool" where
  "isValidPayload v \<longleftrightarrow> is_object v \<and> get_prop v ''version'' \<in> {JNum (Fin 1), JNum (Fin 2)} \<and>
     (case get_prop v ''savedAt'' of JNum n \<Rightarrow> True | _ \<Rightarrow> False) \<and> is_object (get_prop v ''data'')"

definition valid_text :: "stored_text \<Rightarrow> bool" where
  "valid_text t = (case t of Not_json \<Rightarrow> False | Json v \<Rightarrow> isValidPayload v)"

definition draft_expired :: "int \<Rightarrow> int \<Rightarrow> jsval \<Rightarrow> bool" where
  "draft_expired now ttlMs v =
     (case get_prop v ''savedAt'' of JNum n \<Rightarrow> j_lt (j_int ttlMs) (j_add (j_int now) (j_neg n)) | _ \<Rightarrow> False)"

text \<open>A draft of the older kind, in the storage of the session, moves over first.\<close>

definition migrate_legacy :: "draft_storage \<Rightarrow> draft_storage" where
  "migrate_legacy s =
     (case dr_session s of
        None \<Rightarrow> s
      | Some t \<Rightarrow> s\<lparr>dr_session := None, dr_local := (if dr_local s = None \<and> valid_text t then Some t else dr_local s)\<rparr>)"

definition readDraft :: "int \<Rightarrow> int \<Rightarrow> draft_storage \<Rightarrow> jsval option \<times> draft_storage" where
  "readDraft now ttlMs s =
     (let s = migrate_legacy s in
      case dr_local s of
        None \<Rightarrow> (None, s)
      | Some Not_json \<Rightarrow> (None, s\<lparr>dr_local := None\<rparr>)
      | Some (Json v) \<Rightarrow>
          if \<not> isValidPayload v \<or> draft_expired now ttlMs v then (None, s\<lparr>dr_local := None\<rparr>) else (Some v, s))"

definition payload_of :: "int \<Rightarrow> form_data \<Rightarrow> jsval" where
  "payload_of savedAt fs = JObj PlainObject
     [(''version'', JNum (Fin 2)), (''savedAt'', JNum (j_int savedAt)), (''data'', JObj PlainObject fs)]"

section \<open>The hook\<close>

record autosave =
  au_storage :: draft_storage
  au_hasDraft :: bool
  au_savedAt :: "jsval option"
  au_lastWritten :: "form_data option"
  au_pending :: "form_data option"
  au_restored :: "jsval list"

definition mount :: "bool \<Rightarrow> int \<Rightarrow> int \<Rightarrow> draft_storage \<Rightarrow> autosave" where
  "mount enabled now ttlMs storage =
     (case (if enabled then readDraft now ttlMs storage else (None, storage)) of
        (draft, s) \<Rightarrow> \<lparr>au_storage = s, au_hasDraft = (draft \<noteq> None), au_savedAt = map_option (\<lambda>v. get_prop v ''savedAt'') draft,
          au_lastWritten = None, au_pending = None, au_restored = []\<rparr>)"

text \<open>The effect of a render; what is pending is what the timer will write.\<close>

definition rendered :: "bool \<Rightarrow> string list \<Rightarrow> form_data \<Rightarrow> autosave \<Rightarrow> autosave" where
  "rendered enabled excludeFields fs a =
     (if \<not> enabled then a
      else let stripped = stripSensitiveFields excludeFields fs in
        if au_lastWritten a = Some stripped then a else a\<lparr>au_pending := Some stripped\<rparr>)"

text \<open>The pending write, by the timer, on leaving the page or when the form goes; \<open>fits\<close> says whether the storage takes it.\<close>

definition flush_draft :: "bool \<Rightarrow> int \<Rightarrow> autosave \<Rightarrow> autosave" where
  "flush_draft fits now a =
     (case au_pending a of
        None \<Rightarrow> a
      | Some fs \<Rightarrow>
          if \<not> fits then a\<lparr>au_pending := None\<rparr>
          else a\<lparr>au_pending := None, au_storage := (au_storage a)\<lparr>dr_local := Some (Json (payload_of now fs))\<rparr>,
            au_lastWritten := Some fs, au_savedAt := Some (JNum (j_int now))\<rparr>)"

definition restoreDraft :: "int \<Rightarrow> int \<Rightarrow> autosave \<Rightarrow> autosave" where
  "restoreDraft now ttlMs a =
     (case readDraft now ttlMs (au_storage a) of
        (None, s) \<Rightarrow> a\<lparr>au_storage := s, au_hasDraft := False, au_savedAt := None\<rparr>
      | (Some v, s) \<Rightarrow> a\<lparr>au_storage := s, au_hasDraft := False, au_restored := au_restored a @ [get_prop v ''data'']\<rparr>)"

definition discardDraft :: "autosave \<Rightarrow> autosave" where
  "discardDraft a = a\<lparr>au_pending := None, au_lastWritten := None, au_storage := (au_storage a)\<lparr>dr_local := None\<rparr>,
     au_hasDraft := False, au_savedAt := None\<rparr>"

datatype form_op = Render "string list" form_data | Flush bool int | Restore int | Discard

fun form_run :: "int \<Rightarrow> form_op \<Rightarrow> autosave \<Rightarrow> autosave" where
  "form_run ttlMs (Render ex fs) a = rendered True ex fs a"
| "form_run ttlMs (Flush fits now) a = flush_draft fits now a"
| "form_run ttlMs (Restore now) a = restoreDraft now ttlMs a"
| "form_run ttlMs Discard a = discardDraft a"

definition form_history :: "int \<Rightarrow> int \<Rightarrow> draft_storage \<Rightarrow> form_op list \<Rightarrow> autosave" where
  "form_history now ttlMs storage ops = fold (form_run ttlMs) ops (mount True now ttlMs storage)"

section \<open>Properties\<close>

definition clean_fields :: "form_data \<Rightarrow> bool" where
  "clean_fields fs \<longleftrightarrow> list_all (\<lambda>f. \<not> sensitive_field (fst f)) fs"

lemma strip_clean: "clean_fields (stripSensitiveFields ex fs)"
  by (auto simp: clean_fields_def stripSensitiveFields_def list_all_iff)

text \<open>
  Whatever a history holds of drafts, stored, pending or handed back, was stripped. The text is clean when the data of its value
  is an object with no sensitive field.
\<close>

definition clean_data :: "jsval \<Rightarrow> bool" where
  "clean_data v = (case v of JObj PlainObject fs \<Rightarrow> clean_fields fs | _ \<Rightarrow> False)"

definition clean_text :: "stored_text \<Rightarrow> bool" where
  "clean_text t = (case t of Not_json \<Rightarrow> False | Json v \<Rightarrow> clean_data (get_prop v ''data''))"

definition draft_ok :: "autosave \<Rightarrow> bool" where
  "draft_ok a \<longleftrightarrow> dr_session (au_storage a) = None \<and> pred_option clean_text (dr_local (au_storage a)) \<and>
     pred_option clean_fields (au_pending a) \<and> list_all clean_data (au_restored a)"

lemma payload_data [simp]: "get_prop (payload_of now fs) ''data'' = JObj PlainObject fs"
  by (simp add: payload_of_def)

lemma payload_savedAt [simp]: "get_prop (payload_of now fs) ''savedAt'' = JNum (j_int now)"
  by (simp add: payload_of_def)

lemma payload_clean: "clean_text (Json (payload_of now fs)) = clean_fields fs"
  by (simp add: clean_text_def clean_data_def)

lemma read_ok:
  assumes "dr_session s = None" and "pred_option clean_text (dr_local s)" and "readDraft now ttlMs s = (r, s')"
  shows "dr_session s' = None \<and> pred_option clean_text (dr_local s') \<and> pred_option (\<lambda>v. clean_data (get_prop v ''data'')) r"
  using assms
  by (auto simp: readDraft_def migrate_legacy_def Let_def clean_text_def split: option.splits stored_text.splits if_splits)

lemma form_run_ok: "draft_ok a \<Longrightarrow> draft_ok (form_run ttlMs op a)"
proof (cases op)
  case (Restore now)
  assume ok: "draft_ok a"
  obtain r s where run: "readDraft now ttlMs (au_storage a) = (r, s)" by fastforce
  then have "dr_session s = None \<and> pred_option clean_text (dr_local s) \<and> pred_option (\<lambda>v. clean_data (get_prop v ''data'')) r"
    using ok read_ok [of "au_storage a" now ttlMs r s] by (simp add: draft_ok_def)
  with ok Restore run show ?thesis by (cases r) (simp_all add: restoreDraft_def draft_ok_def)
qed (auto simp: draft_ok_def rendered_def flush_draft_def discardDraft_def Let_def strip_clean payload_clean split: option.splits)

lemma form_history_ok: "draft_ok (form_history now ttlMs \<lparr>dr_local = None, dr_session = None\<rparr> ops)"
proof -
  have "draft_ok a \<Longrightarrow> draft_ok (fold (form_run ttlMs) ops a)" for a
    by (induction ops arbitrary: a) (simp_all add: form_run_ok)
  moreover have "draft_ok (mount True now ttlMs \<lparr>dr_local = None, dr_session = None\<rparr>)"
    by (simp add: mount_def readDraft_def migrate_legacy_def draft_ok_def Let_def)
  ultimately show ?thesis by (simp add: form_history_def)
qed


text \<open>A draft that was written comes back as it was stripped, until it is older than its time.\<close>

lemma payload_valid: "isValidPayload (payload_of now fs)"
  by (simp add: isValidPayload_def is_object_def payload_of_def)

lemma payload_expired: "draft_expired now ttlMs (payload_of saved fs) \<longleftrightarrow> ttlMs < now - saved"
  by (simp add: draft_expired_def of_int_diff [symmetric] del: of_int_diff)

theorem draft_reads_back:
  "fst (readDraft later ttlMs (au_storage (flush_draft True now (a\<lparr>au_pending := Some fs, au_storage := (au_storage a)\<lparr>dr_session := None\<rparr>\<rparr>)))) =
     (if ttlMs < later - now then None else Some (payload_of now fs))"
  by (simp add: flush_draft_def readDraft_def migrate_legacy_def payload_valid payload_expired Let_def)

section \<open>Weak spots\<close>

abbreviation typed :: "string \<Rightarrow> form_data" where
  "typed bio \<equiv> [(''bio'', JStr bio)]"

abbreviation no_draft :: draft_storage where
  "no_draft \<equiv> \<lparr>dr_local = None, dr_session = None\<rparr>"

lemma typed_kept [simp]: "stripSensitiveFields [] (typed bio) = typed bio"
proof -
  have "\<not> sensitive_field ''bio''" by code_simp
  then show ?thesis by (simp add: stripSensitiveFields_def)
qed

text \<open>
  An edit taken back within the second is stored all the same: the render of the text last written returns before it drops the
  write that is pending.
\<close>

theorem reverted_edit_is_stored:
  "dr_local (au_storage (form_history 0 ttlMs no_draft
       [Render [] (typed ''a''), Flush True 1000, Render [] (typed ''ab''), Render [] (typed ''a''), Flush True 2500])) =
     Some (Json (payload_of 2500 (typed ''ab'')))"
  by (simp add: form_history_def mount_def rendered_def flush_draft_def readDraft_def migrate_legacy_def Let_def)

text \<open>
  A form that is only opened overwrites the draft it offers to restore: the untouched fields are written after a second.
\<close>

theorem untouched_form_replaces_draft:
  "dr_local (au_storage (form_history 5000 86400000
       \<lparr>dr_local = Some (Json (payload_of 0 (typed ''a long text''))), dr_session = None\<rparr> [Render [] (typed []), Flush True 6000])) =
     Some (Json (payload_of 6000 (typed [])))"
  by (simp add: form_history_def mount_def rendered_def flush_draft_def readDraft_def migrate_legacy_def Let_def
      payload_valid payload_expired)

text \<open>A draft that was cleared after a submission is written again by the next render of the same form.\<close>

theorem cleared_draft_comes_back:
  "dr_local (au_storage (form_history 0 ttlMs no_draft
       [Render [] (typed ''a''), Flush True 1000, Discard, Render [] (typed ''a''), Flush True 2500])) =
     Some (Json (payload_of 2500 (typed ''a'')))"
  by (simp add: form_history_def mount_def rendered_def flush_draft_def discardDraft_def readDraft_def migrate_legacy_def Let_def)

text \<open>A draft of the older kind moves over with the fields it has, secrets included.\<close>

theorem legacy_draft_keeps_secrets:
  "dr_local (au_storage (form_history 0 86400000
       \<lparr>dr_local = None, dr_session = Some (Json (payload_of 0 [(''password'', JStr ''hunter2'')]))\<rparr> [])) =
     Some (Json (payload_of 0 [(''password'', JStr ''hunter2'')]))"
  by (simp add: form_history_def mount_def readDraft_def migrate_legacy_def valid_text_def payload_valid payload_expired Let_def)

end
