(* ===== verification/ClientTipFlow.thy ===== *)
theory ClientTipFlow
  imports ClientTransactions ClientText
begin

text \<open>
  Sending a tip from the page of a creator (\<open>frontend-scaffold/src/features/tipping/TipPage.tsx\<close>, \<open>useTipFlow.ts\<close>,
  \<open>hooks/useTipz.ts\<close>): the steps of the page, the state of the transaction, the effect that carries one to the other, and the guard of
  \<open>ClientTransactions\<close> around the call. Buttons, timers, effects and the answers of the contract come in any order; the encryption
  and the answers are parameters, and an offline tip is queued at once.
\<close>

section \<open>State\<close>

datatype TxStatus = Tx_idle | Tx_signing | Tx_submitting | Tx_confirming | Tx_success | Tx_error

record TipState =
  ts_sending :: bool
  ts_error :: "string option"
  ts_txHash :: "string option"
  ts_txStatus :: TxStatus

definition initialState :: TipState where
  "initialState = \<lparr>ts_sending = False, ts_error = None, ts_txHash = None, ts_txStatus = Tx_idle\<rparr>"

datatype TipFlowStep = At_form | At_confirm | Preparing | Signing | Submitting | Confirming | At_success | Queued | At_error

record tip_draft =
  td_amount :: string
  td_message :: string
  td_isEncrypted :: bool

text \<open>A call of the contract that runs: its number, the guard's transaction around it, and its two timers.\<close>

record tip_call =
  tl_id :: nat
  tl_guarded :: "nat option"
  tl_submitting :: bool
  tl_confirming :: bool

record contract_tip =
  tc_creator :: string
  tc_amount :: string
  tc_message :: string
  tc_isEncrypted :: bool

record tip_page =
  tp_state :: TipState
  tp_step :: TipFlowStep
  tp_draft :: "tip_draft option"
  tp_due :: "TxStatus option"
  tp_guard :: page
  tp_running :: "tip_call list"
  tp_next :: nat
  tp_sent :: "contract_tip list"
  tp_queued :: "(string \<times> string \<times> string) list"
  tp_addressError :: "string option"

text \<open>The page opens; the guard finds what an earlier page has stored.\<close>

definition open_page :: "int \<Rightarrow> PersistedGuard option \<Rightarrow> tip_page" where
  "open_page now stored = \<lparr>tp_state = initialState, tp_step = At_form, tp_draft = None, tp_due = None,
     tp_guard = mount now 120000 (empty_page\<lparr>pg_stored := stored\<rparr>), tp_running = [], tp_next = 0, tp_sent = [], tp_queued = [],
     tp_addressError = None\<rparr>"

text \<open>A change of the status starts the effect's timeout anew, with the status it then has.\<close>

definition setTip :: "(TipState \<Rightarrow> TipState) \<Rightarrow> tip_page \<Rightarrow> tip_page" where
  "setTip f p = (let s = f (tp_state p) in
     p\<lparr>tp_state := s, tp_due := if ts_txStatus s = ts_txStatus (tp_state p) then tp_due p else Some (ts_txStatus s)\<rparr>)"

definition step_of :: "TxStatus \<Rightarrow> TipFlowStep \<Rightarrow> TipFlowStep" where
  "step_of status s = (case status of
       Tx_signing \<Rightarrow> Signing | Tx_submitting \<Rightarrow> Submitting | Tx_confirming \<Rightarrow> Confirming
     | Tx_success \<Rightarrow> At_success | Tx_error \<Rightarrow> At_error | Tx_idle \<Rightarrow> s)"

definition effect_fires :: "tip_page \<Rightarrow> tip_page" where
  "effect_fires p = (case tp_due p of None \<Rightarrow> p | Some status \<Rightarrow> p\<lparr>tp_due := None, tp_step := step_of status (tp_step p)\<rparr>)"

section \<open>Sending\<close>

type_synonym encryption = "nat \<Rightarrow> string \<Rightarrow> string \<Rightarrow> string option"

text \<open>The start of \<open>useTipz.sendTip\<close>, up to the call of the contract; \<open>Some ok\<close> is a call that has settled already.\<close>

definition sendTip :: "encryption \<Rightarrow> nat option \<Rightarrow> string \<Rightarrow> tip_draft \<Rightarrow> tip_page \<Rightarrow> bool option \<times> tip_page" where
  "sendTip encrypt guarded creator d p =
     (case (if td_isEncrypted d then encrypt (tp_next p) (td_message d) creator else Some (td_message d)) of
        None \<Rightarrow> (Some False,
          setTip (\<lambda>s. s\<lparr>ts_sending := False, ts_error := Some ''Failed to encrypt message'', ts_txStatus := Tx_error\<rparr>) p)
      | Some finalMessage \<Rightarrow> (None,
          (setTip (\<lambda>_. initialState\<lparr>ts_sending := True, ts_txStatus := Tx_signing\<rparr>) p)
            \<lparr>tp_running := tp_running p @ [\<lparr>tl_id = tp_next p, tl_guarded = guarded, tl_submitting = True, tl_confirming = True\<rparr>],
             tp_next := Suc (tp_next p),
             tp_sent := tp_sent p @ [\<lparr>tc_creator = creator, tc_amount = td_amount d, tc_message = finalMessage,
               tc_isEncrypted = td_isEncrypted d\<rparr>]\<rparr>))"

definition advance :: "TxStatus \<Rightarrow> TxStatus \<Rightarrow> TipState \<Rightarrow> TipState" where
  "advance from to s = (if ts_sending s \<and> ts_txStatus s = from then s\<lparr>ts_txStatus := to\<rparr> else s)"

definition submitting_timer :: "nat \<Rightarrow> tip_page \<Rightarrow> tip_page" where
  "submitting_timer n p =
     (if list_ex (\<lambda>c. tl_id c = n \<and> tl_submitting c) (tp_running p)
      then (setTip (advance Tx_signing Tx_submitting) p)
        \<lparr>tp_running := map (\<lambda>c. if tl_id c = n then c\<lparr>tl_submitting := False\<rparr> else c) (tp_running p)\<rparr>
      else p)"

definition confirming_timer :: "nat \<Rightarrow> tip_page \<Rightarrow> tip_page" where
  "confirming_timer n p =
     (if list_ex (\<lambda>c. tl_id c = n \<and> tl_confirming c \<and> \<not> tl_submitting c) (tp_running p)
      then (setTip (advance Tx_submitting Tx_confirming) p)
        \<lparr>tp_running := map (\<lambda>c. if tl_id c = n then c\<lparr>tl_confirming := False\<rparr> else c) (tp_running p)\<rparr>
      else p)"

text \<open>The contract answers call \<open>n\<close> with the hash or an error; a guarded call settles its transaction with it.\<close>

definition settled_state :: "string + string \<Rightarrow> TipState \<Rightarrow> TipState" where
  "settled_state answer s = (case answer of
       Inr h \<Rightarrow> s\<lparr>ts_txStatus := Tx_success, ts_sending := False, ts_txHash := Some h\<rparr>
     | Inl e \<Rightarrow> s\<lparr>ts_sending := False, ts_error := Some e, ts_txStatus := Tx_error\<rparr>)"

definition settle_guard :: "bool \<Rightarrow> nat option \<Rightarrow> page \<Rightarrow> page" where
  "settle_guard ok guarded g = (case guarded of None \<Rightarrow> g | Some k \<Rightarrow> settle ok 0 k g)"

definition tip_answered :: "nat \<Rightarrow> string + string \<Rightarrow> tip_page \<Rightarrow> tip_page" where
  "tip_answered n answer p =
     (case find (\<lambda>c. tl_id c = n) (tp_running p) of
        None \<Rightarrow> p
      | Some c \<Rightarrow> (setTip (settled_state answer) p)
          \<lparr>tp_running := filter (\<lambda>c. tl_id c \<noteq> n) (tp_running p), tp_guard := settle_guard (\<not> isl answer) (tl_guarded c) (tp_guard p)\<rparr>)"

section \<open>The flow\<close>

definition goToConfirm :: "tip_draft \<Rightarrow> tip_page \<Rightarrow> tip_page" where
  "goToConfirm d p = p\<lparr>tp_draft := Some d, tp_step := At_confirm\<rparr>"

text \<open>\<open>online\<close> is \<open>navigator.onLine\<close>, \<open>stores\<close> whether the browser takes the queued tip; a failure to is only logged.\<close>

definition confirmAndSign :: "encryption \<Rightarrow> bool \<Rightarrow> bool \<Rightarrow> nat option \<Rightarrow> string \<Rightarrow> tip_page \<Rightarrow> bool option \<times> tip_page" where
  "confirmAndSign encrypt online stores guarded creator p =
     (case tp_draft p of
        None \<Rightarrow> (Some True, p\<lparr>tp_step := At_form\<rparr>)
      | Some d \<Rightarrow>
          if \<not> online
          then (Some True, p\<lparr>tp_step := Queued,
            tp_queued := tp_queued p @ (if stores then [(creator, td_amount d, td_message d)] else [])\<rparr>)
          else sendTip encrypt guarded creator d (p\<lparr>tp_step := Preparing\<rparr>))"

definition reset_flow :: "tip_page \<Rightarrow> tip_page" where
  "reset_flow p = setTip (\<lambda>_. initialState) (p\<lparr>tp_step := At_form, tp_draft := None\<rparr>)"

section \<open>The page\<close>

definition isTransactionPending :: "tip_page \<Rightarrow> bool" where
  "isTransactionPending p \<longleftrightarrow> tg_status (pg_guards (tp_guard p) ! 0) = Pending"

definition submitting :: "tip_page \<Rightarrow> bool" where
  "submitting p \<longleftrightarrow> tp_step p = Signing \<or> tp_step p = Submitting \<or> isTransactionPending p"

definition handleSubmit :: "string \<Rightarrow> string option \<Rightarrow> tip_draft \<Rightarrow> tip_page \<Rightarrow> tip_page" where
  "handleSubmit creatorAddress connectedWallet d p =
     (let p = p\<lparr>tp_addressError := None\<rparr> in
      if submitting p then p
      else case sanitizeStellarAddress creatorAddress of
        None \<Rightarrow> p\<lparr>tp_addressError := Some ''Creator wallet address is invalid. Cannot send tip.''\<rparr>
      | Some sanitized \<Rightarrow>
          if \<not> vr_valid (canTipAddress sanitized connectedWallet)
          then p\<lparr>tp_addressError := Some (case vr_error (canTipAddress sanitized connectedWallet) of
                   None \<Rightarrow> ''Cannot tip this address.'' | Some e \<Rightarrow> e)\<rparr>
          else goToConfirm d p)"

definition handleConfirmAndSign :: "encryption \<Rightarrow> int \<Rightarrow> bool \<Rightarrow> bool \<Rightarrow> string \<Rightarrow> tip_page \<Rightarrow> tip_page" where
  "handleConfirmAndSign encrypt now online stores creator p =
     (let k = pg_next (tp_guard p) in
      case startTransaction now 0 (tp_guard p) of
        (False, g) \<Rightarrow> p
      | (True, g) \<Rightarrow>
          (case confirmAndSign encrypt online stores (Some k) creator (p\<lparr>tp_guard := g\<rparr>) of
             (None, p) \<Rightarrow> p
           | (Some ok, p) \<Rightarrow> p\<lparr>tp_guard := settle ok 0 k (tp_guard p)\<rparr>))"

text \<open>What the page offers: each step shows its own buttons.\<close>

datatype tip_op = Submit "string option" tip_draft | Confirm int bool bool | Retry bool bool | Clear | Effect
  | Submitting_timer nat | Confirming_timer nat | Answer nat "string + string" | Guard_timeout int | Guard_reset

fun tip_run :: "encryption \<Rightarrow> string \<Rightarrow> tip_op \<Rightarrow> tip_page \<Rightarrow> tip_page" where
  "tip_run encrypt creator (Submit wallet d) p =
     (if tp_step p \<in> {Queued, At_success, At_error} then p else handleSubmit creator wallet d p)"
| "tip_run encrypt creator (Confirm now online stores) p =
     (if tp_step p = At_confirm \<and> \<not> submitting p then handleConfirmAndSign encrypt now online stores creator p else p)"
| "tip_run encrypt creator (Retry online stores) p =
     (if tp_step p = At_error then snd (confirmAndSign encrypt online stores None creator p) else p)"
| "tip_run encrypt creator Clear p = reset_flow p"
| "tip_run encrypt creator Effect p = effect_fires p"
| "tip_run encrypt creator (Submitting_timer n) p = submitting_timer n p"
| "tip_run encrypt creator (Confirming_timer n) p = confirming_timer n p"
| "tip_run encrypt creator (Answer n answer) p = tip_answered n answer p"
| "tip_run encrypt creator (Guard_timeout now) p = p\<lparr>tp_guard := timeout_fires now 0 (tp_guard p)\<rparr>"
| "tip_run encrypt creator Guard_reset p = p\<lparr>tp_guard := reset 0 (tp_guard p)\<rparr>"

definition tip_history :: "encryption \<Rightarrow> string \<Rightarrow> tip_page \<Rightarrow> tip_op list \<Rightarrow> tip_page" where
  "tip_history encrypt creator p ops = fold (tip_run encrypt creator) ops p"

section \<open>What is sent\<close>

text \<open>The submissions of a history, and what a call made of one of them looks like.\<close>

definition submissions :: "tip_op list \<Rightarrow> (string option \<times> tip_draft) list" where
  "submissions ops = concat (map (\<lambda>op. case op of Submit w d \<Rightarrow> [(w, d)] | _ \<Rightarrow> []) ops)"

definition may_tip :: "string \<Rightarrow> string option \<Rightarrow> bool" where
  "may_tip creator wallet = (case sanitizeStellarAddress creator of None \<Rightarrow> False | Some s \<Rightarrow> vr_valid (canTipAddress s wallet))"

definition made_of :: "encryption \<Rightarrow> string \<Rightarrow> tip_draft \<Rightarrow> contract_tip \<Rightarrow> bool" where
  "made_of encrypt creator d t \<longleftrightarrow> tc_creator t = creator \<and> tc_amount t = td_amount d \<and> tc_isEncrypted t = td_isEncrypted d \<and>
     (if td_isEncrypted d then \<exists>n. encrypt n (td_message d) creator = Some (tc_message t) else tc_message t = td_message d)"

definition from_submission :: "encryption \<Rightarrow> string \<Rightarrow> (string option \<times> tip_draft) set \<Rightarrow> tip_page \<Rightarrow> bool" where
  "from_submission encrypt creator S p \<longleftrightarrow>
     pred_option (\<lambda>d. \<exists>w. (w, d) \<in> S \<and> may_tip creator w) (tp_draft p) \<and>
     list_all (\<lambda>t. \<exists>(w, d) \<in> S. may_tip creator w \<and> made_of encrypt creator d t) (tp_sent p)"

named_theorems flow_defs

declare setTip_def [flow_defs] effect_fires_def [flow_defs] submitting_timer_def [flow_defs] confirming_timer_def [flow_defs]
  tip_answered_def [flow_defs] goToConfirm_def [flow_defs] reset_flow_def [flow_defs] Let_def [flow_defs]

lemma sendTip_from:
  assumes "from_submission encrypt creator S p" and "\<exists>w. (w, d) \<in> S \<and> may_tip creator w"
  shows "from_submission encrypt creator S (snd (sendTip encrypt guarded creator d p))"
proof (cases "if td_isEncrypted d then encrypt (tp_next p) (td_message d) creator else Some (td_message d)")
  case None
  with assms(1) show ?thesis by (simp add: sendTip_def from_submission_def flow_defs)
next
  case (Some m)
  let ?t = "\<lparr>tc_creator = creator, tc_amount = td_amount d, tc_message = m, tc_isEncrypted = td_isEncrypted d\<rparr>"
  have "made_of encrypt creator d ?t" using Some by (auto simp: made_of_def split: if_splits)
  then have "\<exists>(w, d) \<in> S. may_tip creator w \<and> made_of encrypt creator d ?t" using assms(2) by blast
  with Some assms(1) show ?thesis by (simp add: sendTip_def from_submission_def flow_defs)
qed

lemma confirm_from:
  assumes "from_submission encrypt creator S p"
  shows "from_submission encrypt creator S (snd (confirmAndSign encrypt online stores guarded creator p))"
proof (cases "tp_draft p")
  case (Some d)
  then have "\<exists>w. (w, d) \<in> S \<and> may_tip creator w" using assms by (simp add: from_submission_def)
  moreover have "from_submission encrypt creator S (p\<lparr>tp_step := Preparing\<rparr>)" using assms by (simp add: from_submission_def)
  ultimately show ?thesis
    using Some assms sendTip_from by (auto simp: confirmAndSign_def) (simp_all add: from_submission_def)
qed (use assms in \<open>simp add: confirmAndSign_def from_submission_def\<close>)

lemma from_guard [simp]: "from_submission encrypt creator S (p\<lparr>tp_guard := g\<rparr>) = from_submission encrypt creator S p"
  by (simp add: from_submission_def)

lemma handleConfirm_from:
  assumes "from_submission encrypt creator S p"
  shows "from_submission encrypt creator S (handleConfirmAndSign encrypt now online stores creator p)"
proof -
  obtain ok g where start: "startTransaction now 0 (tp_guard p) = (ok, g)" by fastforce
  let ?k = "Some (pg_next (tp_guard p))"
  obtain r q where run: "confirmAndSign encrypt online stores ?k creator (p\<lparr>tp_guard := g\<rparr>) = (r, q)" by fastforce
  then have "from_submission encrypt creator S q"
    using assms confirm_from [of encrypt creator S "p\<lparr>tp_guard := g\<rparr>" online stores ?k] by simp
  with assms start run show ?thesis by (auto simp: handleConfirmAndSign_def Let_def split: bool.split option.split)
qed

lemma submissions_simps: "submissions [] = []"
    "submissions (op # ops) = (case op of Submit w d \<Rightarrow> [(w, d)] | _ \<Rightarrow> []) @ submissions ops"
  by (simp_all add: submissions_def)

lemma run_from:
  assumes "from_submission encrypt creator S p" and "set (submissions [op]) \<subseteq> S"
  shows "from_submission encrypt creator S (tip_run encrypt creator op p)"
proof (cases op)
  case (Submit w d)
  then have "(w, d) \<in> S" using assms(2) by (simp add: submissions_def)
  with Submit assms(1) show ?thesis
    by (auto simp: handleSubmit_def goToConfirm_def from_submission_def may_tip_def Let_def split: option.split)
next
  case (Confirm now online stores)
  with assms handleConfirm_from show ?thesis by simp
next
  case (Retry online stores)
  with assms confirm_from show ?thesis by simp
qed (use assms in \<open>auto simp: flow_defs from_submission_def split: option.split\<close>)


section \<open>One at a time\<close>

text \<open>A retry does not pass the guard, and a guard that times out or is dismissed lets the next transaction through.\<close>

fun lets_through :: "tip_op \<Rightarrow> bool" where
  "lets_through (Retry online stores) = True"
| "lets_through (Guard_timeout now) = True"
| "lets_through Guard_reset = True"
| "lets_through _ = False"

definition one_running :: "tip_page \<Rightarrow> bool" where
  "one_running p \<longleftrightarrow> locked_running (tp_guard p) \<and> 0 < length (pg_guards (tp_guard p)) \<and>
     (case tp_running p of
        [] \<Rightarrow> True
      | [c] \<Rightarrow> (case tl_guarded c of None \<Rightarrow> False | Some k \<Rightarrow> (0, k) \<in> set (pg_running (tp_guard p)))
      | _ \<Rightarrow> False)"

lemma one_running_cong:
  "tp_guard q = tp_guard p \<Longrightarrow> map tl_guarded (tp_running q) = map tl_guarded (tp_running p) \<Longrightarrow> one_running q = one_running p"
  by (auto simp: one_running_def split: list.splits option.splits)

lemma length_settle: "i < length (pg_guards g) \<Longrightarrow> length (pg_guards (settle ok i n g)) = length (pg_guards g)"
  by (simp add: settle_def on_guard_def release_frame)

lemma length_start: "i < length (pg_guards g) \<Longrightarrow> length (pg_guards (snd (startTransaction now i g))) = length (pg_guards g)"
  by (simp add: startTransaction_def Let_def scheduleTimeout_def writePersistedGuard_def enter_frame on_guard_def)

lemma start_free:
  assumes "locked_running g" and "startTransaction now 0 g = (True, g')"
  shows "list_all (\<lambda>(i, k). 0 < i) (pg_running g) \<and> (0, pg_next g) \<in> set (pg_running g')"
proof -
  have "\<not> tg_lock (pg_guards g ! 0)" using assms(2) by (auto simp: startTransaction_def Let_def split: if_splits)
  moreover have "(0, pg_next g) \<in> set (pg_running g')" using assms(2) by (auto simp: startTransaction_def Let_def split: if_splits)
  ultimately show ?thesis using assms(1) by (force simp: locked_running_def list_all_iff intro: gr0I)
qed

lemma one_running_settles:
  assumes "locked_running g" and "(0, k) \<in> set (pg_running g)" and "0 < length (pg_guards g)"
  shows "locked_running (settle ok 0 k g) \<and> 0 < length (pg_guards (settle ok 0 k g))"
  using assms settle_locked length_settle [of 0 g ok k] by simp

lemma confirm_one:
  assumes one: "one_running p"
  shows "one_running (handleConfirmAndSign encrypt now online stores creator p)"
proof -
  let ?k = "pg_next (tp_guard p)"
  obtain ok g where start: "startTransaction now 0 (tp_guard p) = (ok, g)" by fastforce
  have g: "locked_running g \<and> 0 < length (pg_guards g)" if ok
    using one start start_locked [of "tp_guard p" 0 now] length_start [of 0 "tp_guard p" now] by (simp add: one_running_def)
  have free: "tp_running p = [] \<and> (0, ?k) \<in> set (pg_running g)" if ok
  proof -
    have "list_all (\<lambda>(i, k). 0 < i) (pg_running (tp_guard p)) \<and> (0, ?k) \<in> set (pg_running g)"
      using start_free [of "tp_guard p" now g] one start that by (simp add: one_running_def)
    with one show ?thesis by (auto simp: one_running_def list_all_iff split: list.splits option.splits)
  qed
  obtain r q where run: "confirmAndSign encrypt online stores (Some ?k) creator (p\<lparr>tp_guard := g\<rparr>) = (r, q)" by fastforce
  have q: "tp_guard q = g \<and> map tl_guarded (tp_running q) = (if r = None then [Some ?k] else [])" if ok
    using run free [OF that]
    by (auto simp: confirmAndSign_def sendTip_def flow_defs split: option.splits if_splits)
  show ?thesis
  proof (cases ok)
    case True
    then have "locked_running g" "0 < length (pg_guards g)" "(0, ?k) \<in> set (pg_running g)" using g free by auto
    with q [OF True] run start True one_running_settles [of g ?k] show ?thesis
      by (cases r) (auto simp: handleConfirmAndSign_def Let_def one_running_def split: list.split)
  qed (use one start in \<open>simp add: handleConfirmAndSign_def Let_def\<close>)
qed

lemma answer_one:
  assumes "one_running p"
  shows "one_running (tip_answered n answer p)"
proof (cases "find (\<lambda>c. tl_id c = n) (tp_running p)")
  case (Some c)
  then obtain k where "tp_running p = [c]" "tl_id c = n" "tl_guarded c = Some k" "(0, k) \<in> set (pg_running (tp_guard p))"
    using assms by (auto simp: one_running_def split: list.splits option.splits if_splits)
  with Some assms one_running_settles [of "tp_guard p" k] show ?thesis
    by (simp add: tip_answered_def one_running_def settle_guard_def)
qed (use assms in \<open>simp add: tip_answered_def\<close>)

lemma run_one:
  assumes "one_running p" and "\<not> lets_through op"
  shows "one_running (tip_run encrypt creator op p)"
proof (cases op)
  case (Submit w d)
  have "one_running (handleSubmit creator w d p)"
    by (subst one_running_cong [of _ p]) (use assms(1) in \<open>auto simp: handleSubmit_def goToConfirm_def Let_def split: option.split\<close>)
  with Submit assms(1) show ?thesis by simp
next
  case (Submitting_timer n)
  have "one_running (submitting_timer n p)"
    by (subst one_running_cong [of _ p]) (use assms(1) in \<open>auto simp: flow_defs\<close>)
  with Submitting_timer show ?thesis by simp
next
  case (Confirming_timer n)
  have "one_running (confirming_timer n p)"
    by (subst one_running_cong [of _ p]) (use assms(1) in \<open>auto simp: flow_defs\<close>)
  with Confirming_timer show ?thesis by simp
next
  case Clear
  have "one_running (reset_flow p)"
    by (subst one_running_cong [of _ p]) (use assms(1) in \<open>auto simp: flow_defs\<close>)
  with Clear show ?thesis by simp
next
  case Effect
  have "one_running (effect_fires p)"
    by (subst one_running_cong [of _ p]) (use assms(1) in \<open>auto simp: flow_defs split: option.split\<close>)
  with Effect show ?thesis by simp
qed (use assms in \<open>simp_all add: confirm_one answer_one\<close>)

text \<open>C29. However often a tip is cancelled and submitted anew, at most one call of the contract runs.\<close>

theorem one_tip_at_a_time:
  "length (tp_running (tip_history encrypt creator (open_page now stored) (filter (\<lambda>op. \<not> lets_through op) ops))) \<le> 1"
proof -
  have "one_running p \<Longrightarrow> one_running (fold (tip_run encrypt creator) (filter (\<lambda>op. \<not> lets_through op) ops) p)" for p
    by (induction ops arbitrary: p) (simp_all add: run_one)
  moreover have "one_running (open_page now stored)"
    by (simp add: open_page_def one_running_def locked_running_def mount_def Let_def empty_page_def readPersistedGuard_def
        scheduleTimeout_def enter_frame clearPersistedGuard_def split: option.split)
  ultimately have "one_running (tip_history encrypt creator (open_page now stored) (filter (\<lambda>op. \<not> lets_through op) ops))"
    by (simp add: tip_history_def)
  then show ?thesis by (auto simp: one_running_def split: list.splits)
qed

section \<open>Weak spots\<close>

abbreviation some_creator :: string where
  "some_creator \<equiv> ''GAAAAAAAAAAAAAAAAAAAAAAAAAAAAAAAAAAAAAAAAAAAAAAAAAAAAAAA''"

abbreviation five :: tip_draft where
  "five \<equiv> \<lparr>td_amount = ''5'', td_message = ''hi'', td_isEncrypted = False\<rparr>"

abbreviation no_encryption :: encryption where
  "no_encryption \<equiv> \<lambda>n message creator. None"

lemma some_creator_may: "sanitizeStellarAddress some_creator = Some some_creator" "vr_valid (canTipAddress some_creator None)"
  by (code_simp, code_simp)

text \<open>A retry takes no lock: when it is cancelled and the tip submitted again, two calls run and the tip is sent twice.\<close>

theorem cancelled_retry_is_sent_twice:
  "map tl_id (tp_running (tip_history no_encryption some_creator (open_page 0 None)
       [Submit None five, Confirm 1 True True, Answer 0 (Inl ''timeout''), Effect, Retry True True, Effect, Clear, Submit None five,
        Confirm 2 True True])) = [1, 2]"
  by code_simp

text \<open>A tip that was cancelled while it was being signed still ends in the page of success.\<close>

theorem cancelled_tip_succeeds:
  "tp_step (tip_history no_encryption some_creator (open_page 0 None)
     [Submit None five, Confirm 1 True True, Effect, Clear, Answer 0 (Inr ''hash''), Effect]) = At_success"
  by code_simp

text \<open>Off line, a message that was to be encrypted is queued as it is, and a tip the browser could not store is shown as queued.\<close>

theorem offline_tip_is_plain:
  "case confirmAndSign encrypt False stores guarded creator (p\<lparr>tp_draft := Some d\<rparr>) of (ok, q) \<Rightarrow>
     tp_step q = Queued \<and> tp_queued q = tp_queued p @ (if stores then [(creator, td_amount d, td_message d)] else [])"
  by (simp add: confirmAndSign_def)

text \<open>When the encryption fails a second time the status does not change, no effect runs and the page stays at preparing.\<close>

theorem second_encryption_failure_stalls:
  "case tip_history no_encryption some_creator (open_page 0 None)
       [Submit None (five\<lparr>td_isEncrypted := True\<rparr>), Confirm 1 True True, Effect, Retry True True] of
     p \<Rightarrow> tp_step p = Preparing \<and> tp_due p = None \<and> tp_running p = [] \<and> ts_txStatus (tp_state p) = Tx_error"
  by code_simp

end
