(* ===== verification/ClientForms.thy ===== *)
theory ClientForms
  imports ContractClient ClientWallet
begin

text \<open>
  The profile forms of the web client (\<open>frontend-scaffold/src/features/profile/EditProfileForm.tsx\<close>, \<open>RegisterForm.tsx\<close>) over the
  contract calls of \<open>ContractClient\<close>, and the check of a name while it is typed (\<open>hooks/useUsernameCheck.ts\<close>), whose timers and
  answers come in any order. The parser of URLs and the scripts of letters are parameters.
\<close>

section \<open>Checking the fields\<close>

type_synonym FormErrors = "(string \<times> string) list"

definition field_error :: "string \<Rightarrow> ValidationResult \<Rightarrow> FormErrors" where
  "field_error field r = (if vr_valid r then [] else [(field, or_empty (vr_error r))])"

definition x_handle_error :: "string \<Rightarrow> FormErrors" where
  "x_handle_error handle = (if js_trim handle \<noteq> [] then field_error ''xHandle'' (validateXHandle handle) else [])"

definition url_error :: "(string \<Rightarrow> bool) \<Rightarrow> string \<Rightarrow> string \<Rightarrow> string \<Rightarrow> FormErrors" where
  "url_error isValidUrl field url message = (if url \<noteq> [] \<and> \<not> isValidUrl url then [(field, message)] else [])"

record edit_form = ProfileFormData +
  ef_bannerUrl :: string
  ef_themeKey :: string
  ef_githubHandle :: string
  ef_websiteUrl :: string

definition validate_edit :: "(string \<Rightarrow> bool) \<Rightarrow> edit_form \<Rightarrow> FormErrors" where
  "validate_edit isValidUrl d =
     field_error ''displayName'' (validateDisplayName (pd_displayName d)) @ field_error ''bio'' (validateBio (pd_bio d)) @
     x_handle_error (pd_xHandle d) @
     url_error isValidUrl ''imageUrl'' (pd_imageUrl d) ''Please enter a valid URL.'' @
     url_error isValidUrl ''websiteUrl'' (ef_websiteUrl d) ''Please enter a valid URL (include https://).''"

definition validate_register :: "(char \<Rightarrow> bool) \<Rightarrow> (char \<Rightarrow> bool) \<Rightarrow> ProfileFormData \<Rightarrow> bool option \<Rightarrow> bool \<Rightarrow> FormErrors" where
  "validate_register latin confusable d available checking =
     (let usernameValidation = validateUsername latin confusable (pd_username d) in
      if \<not> vr_valid usernameValidation then field_error ''username'' usernameValidation
      else if \<not> checking \<and> available = Some False then [(''username'', ''Username is already taken'')]
      else if checking then [(''username'', ''Please wait for username availability check'')]
      else []) @
     field_error ''displayName'' (validateDisplayName (pd_displayName d)) @ field_error ''bio'' (validateBio (pd_bio d)) @
     x_handle_error (pd_xHandle d)"

section \<open>Editing\<close>

datatype form_status = Form_idle | Form_signing | Form_submitting | Form_confirming | Form_success | Form_error

record form_state =
  fo_errors :: FormErrors
  fo_status :: form_status
  fo_txHash :: "string option"
  fo_txError :: "string option"
  fo_toasts :: "string list"
  fo_draftCleared :: bool

definition fresh_form :: form_state where
  "fresh_form = \<lparr>fo_errors = [], fo_status = Form_idle, fo_txHash = None, fo_txError = None, fo_toasts = [], fo_draftCleared = False\<rparr>"

definition trimmed_edit :: "edit_form \<Rightarrow> edit_form" where
  "trimmed_edit f = f\<lparr>pd_username := js_trim (pd_username f), pd_displayName := js_trim (pd_displayName f), pd_bio := js_trim (pd_bio f),
     pd_imageUrl := js_trim (pd_imageUrl f), pd_xHandle := js_trim (pd_xHandle f), ef_githubHandle := js_trim (ef_githubHandle f),
     ef_websiteUrl := js_trim (ef_websiteUrl f)\<rparr>"

text \<open>What changed; \<open>updateProfile\<close> is given all of it and reads the four fields of the patch.\<close>

record edit_patch =
  ep_patch :: profile_patch
  ep_bannerUrl :: "string option"
  ep_themeKey :: "string option"
  ep_githubHandle :: "string option"
  ep_websiteUrl :: "string option"

definition changed :: "string \<Rightarrow> string \<Rightarrow> string option" where
  "changed new old = (if new \<noteq> old then Some new else None)"

definition without_at :: "string \<Rightarrow> string" where
  "without_at s = (if starts_with s ''@'' then drop 1 s else s)"

definition edit_data :: "ProfileFormData \<Rightarrow> edit_form \<Rightarrow> edit_form \<Rightarrow> edit_patch" where
  "edit_data profile form t = \<lparr>
     ep_patch = \<lparr>pp_displayName = changed (pd_displayName t) (pd_displayName profile), pp_bio = changed (pd_bio t) (pd_bio profile),
       pp_imageUrl = changed (pd_imageUrl t) (pd_imageUrl profile), pp_xHandle = changed (pd_xHandle t) (pd_xHandle profile)\<rparr>,
     ep_bannerUrl = (if ef_bannerUrl form \<noteq> [] then Some (ef_bannerUrl form) else None),
     ep_themeKey = (if ef_themeKey form \<noteq> [] \<and> ef_themeKey form \<noteq> ''default'' then Some (ef_themeKey form) else None),
     ep_githubHandle = (if ef_githubHandle t \<noteq> [] then Some (without_at (ef_githubHandle t)) else None),
     ep_websiteUrl = (if ef_websiteUrl t \<noteq> [] then Some (ef_websiteUrl t) else None)\<rparr>"

definition no_patch :: profile_patch where
  "no_patch = \<lparr>pp_displayName = None, pp_bio = None, pp_imageUrl = None, pp_xHandle = None\<rparr>"

definition no_edit :: edit_patch where
  "no_edit = \<lparr>ep_patch = no_patch, ep_bannerUrl = None, ep_themeKey = None, ep_githubHandle = None, ep_websiteUrl = None\<rparr>"

text \<open>The errors, nothing to save, or the patch.\<close>

datatype edit_outcome = Bad_fields FormErrors | Unchanged | Send_edit edit_patch

definition edit_submission :: "(string \<Rightarrow> bool) \<Rightarrow> ProfileFormData \<Rightarrow> edit_form \<Rightarrow> edit_outcome" where
  "edit_submission isValidUrl profile form =
     (let t = trimmed_edit form; errors = validate_edit isValidUrl t in
      if errors \<noteq> [] then Bad_fields errors
      else if edit_data profile form t = no_edit then Unchanged
      else Send_edit (edit_data profile form t))"

definition handleEditSubmit ::
  "node \<Rightarrow> client \<Rightarrow> (string \<Rightarrow> bool) \<Rightarrow> ProfileFormData \<Rightarrow> edit_form \<Rightarrow> form_state \<Rightarrow> client_world \<Rightarrow> form_state \<times> client_world" where
  "handleEditSubmit nd cl isValidUrl profile form s w =
     (case edit_submission isValidUrl profile form of
        Bad_fields errors \<Rightarrow> (s\<lparr>fo_errors := errors\<rparr>, w)
      | Unchanged \<Rightarrow> (s\<lparr>fo_status := Form_idle, fo_txError := None, fo_txHash := None,
          fo_toasts := fo_toasts s @ [''No changes to save.'']\<rparr>, w)
      | Send_edit data \<Rightarrow>
          (case updateProfile nd cl (ep_patch data) w of
             (Inr hash, w') \<Rightarrow> (s\<lparr>fo_status := Form_success, fo_txError := None, fo_txHash := Some hash, fo_draftCleared := True,
               fo_toasts := fo_toasts s @ [''Profile updated successfully!'']\<rparr>, w')
           | (Inl e, w') \<Rightarrow> (s\<lparr>fo_status := Form_error, fo_txError := Some e, fo_txHash := None\<rparr>, w')))"

section \<open>Registering\<close>

definition trimmed_registration :: "ProfileFormData \<Rightarrow> ProfileFormData" where
  "trimmed_registration f = f\<lparr>pd_username := js_trim (pd_username f), pd_displayName := js_trim (pd_displayName f),
     pd_bio := js_trim (pd_bio f), pd_imageUrl := js_trim (pd_imageUrl f), pd_xHandle := js_trim (pd_xHandle f)\<rparr>"

definition registration ::
  "(char \<Rightarrow> bool) \<Rightarrow> (char \<Rightarrow> bool) \<Rightarrow> bool option \<Rightarrow> bool \<Rightarrow> ProfileFormData \<Rightarrow> FormErrors + ProfileFormData" where
  "registration latin confusable available checking form =
     (let t = trimmed_registration form; errors = validate_register latin confusable t available checking in
      if errors \<noteq> [] then Inl errors else Inr (t\<lparr>pd_username := to_lower (pd_username t)\<rparr>))"

text \<open>
  \<open>pending\<close> is the guard's. The handler of a failure asks \<open>ClientWallet.categorizeError\<close>; when that throws, the status stays at
  submitting.
\<close>

definition registration_failed :: "string \<Rightarrow> form_state \<Rightarrow> form_state" where
  "registration_failed e s = (let s = s\<lparr>fo_status := Form_submitting, fo_txError := None, fo_txHash := None\<rparr> in
     case categorizeError False (Some e) of
       Throws_reference_error \<Rightarrow> s
     | Unknown_text \<Rightarrow> s\<lparr>fo_status := Form_error, fo_txError := Some ''Something went wrong. Please try again.''\<rparr>
     | Categorized c \<Rightarrow> s\<lparr>fo_status := Form_error, fo_txError := Some (if ca_category c = Cat_network
         then ''Unable to connect. Please check your internet connection.'' else ''Something went wrong. Please try again.'')\<rparr>)"

definition handleRegisterSubmit ::
  "node \<Rightarrow> client \<Rightarrow> (char \<Rightarrow> bool) \<Rightarrow> (char \<Rightarrow> bool) \<Rightarrow> bool \<Rightarrow> bool option \<Rightarrow> bool \<Rightarrow> ProfileFormData \<Rightarrow> form_state \<Rightarrow> client_world \<Rightarrow>
    form_state \<times> client_world" where
  "handleRegisterSubmit nd cl latin confusable pending available checking form s w =
     (if pending then (s, w)
      else case registration latin confusable available checking form of
        Inl errors \<Rightarrow> (s\<lparr>fo_errors := errors\<rparr>, w)
      | Inr data \<Rightarrow>
          (case registerProfile nd cl data w of
             (Inr hash, w') \<Rightarrow> (s\<lparr>fo_status := Form_success, fo_txError := None, fo_txHash := Some hash, fo_draftCleared := True,
               fo_toasts := fo_toasts s @ [''Profile registered successfully!'']\<rparr>, w')
           | (Inl e, w') \<Rightarrow> (registration_failed e s, w')))"

section \<open>Checking a name\<close>

datatype lookup_answer = Profile_found | Lookup_error "string option"

record name_check =
  uc_username :: string
  uc_due :: "string option"
  uc_debounced :: string
  uc_available :: "bool option"
  uc_checking :: bool
  uc_error :: "string option"
  uc_cache :: "string \<rightharpoonup> bool"
  uc_running :: "string list"

definition new_check :: name_check where
  "new_check = \<lparr>uc_username = [], uc_due = None, uc_debounced = [], uc_available = None, uc_checking = False, uc_error = None,
     uc_cache = Map.empty, uc_running = []\<rparr>"

definition name_typed :: "string \<Rightarrow> name_check \<Rightarrow> name_check" where
  "name_typed username s = (if username = uc_username s then s
     else s\<lparr>uc_username := username, uc_due := Some (js_trim username), uc_available := None, uc_error := None\<rparr>)"

definition check_name :: "(string \<Rightarrow> bool) \<Rightarrow> name_check \<Rightarrow> name_check" where
  "check_name valid s =
     (if uc_debounced s = [] \<or> \<not> valid (uc_debounced s) then s\<lparr>uc_available := None, uc_checking := False, uc_error := None\<rparr>
      else case uc_cache s (uc_debounced s) of
        Some b \<Rightarrow> s\<lparr>uc_available := Some b\<rparr>
      | None \<Rightarrow> s\<lparr>uc_checking := True, uc_error := None, uc_running := uc_running s @ [uc_debounced s]\<rparr>)"

definition debounce_fires :: "(string \<Rightarrow> bool) \<Rightarrow> name_check \<Rightarrow> name_check" where
  "debounce_fires valid s = (case uc_due s of
       None \<Rightarrow> s
     | Some name \<Rightarrow> if name = uc_debounced s then s\<lparr>uc_due := None\<rparr> else check_name valid (s\<lparr>uc_due := None, uc_debounced := name\<rparr>))"

definition NOT_FOUND_TEXTS :: "string list" where
  "NOT_FOUND_TEXTS = [''not found'', ''No profile found'', ''invalid input'', ''No data'']"

text \<open>The answer of the lookup of a name, \<open>None\<close> an error without a message; nothing tells whether the name is still the one typed.\<close>

definition lookup_settles :: "string \<Rightarrow> lookup_answer \<Rightarrow> name_check \<Rightarrow> name_check" where
  "lookup_settles name answer s =
     (if name \<notin> set (uc_running s) then s
      else (case answer of
          Profile_found \<Rightarrow> s\<lparr>uc_cache := (uc_cache s)(name \<mapsto> False), uc_available := Some False\<rparr>
        | Lookup_error (Some message) \<Rightarrow>
            if list_ex (str_includes message) NOT_FOUND_TEXTS
            then s\<lparr>uc_cache := (uc_cache s)(name \<mapsto> True), uc_available := Some True\<rparr>
            else s\<lparr>uc_error := Some ''Unable to check availability. Please try again.'', uc_available := None\<rparr>
        | Lookup_error None \<Rightarrow> s\<lparr>uc_error := Some ''Network issue. Availability may not be accurate.'', uc_available := None\<rparr>)
        \<lparr>uc_checking := False, uc_running := remove1 name (uc_running s)\<rparr>)"

datatype name_op = Type_name string | Debounce | Recheck | Lookup string lookup_answer

fun name_run :: "(string \<Rightarrow> bool) \<Rightarrow> name_op \<Rightarrow> name_check \<Rightarrow> name_check" where
  "name_run valid (Type_name username) s = name_typed username s"
| "name_run valid Debounce s = debounce_fires valid s"
| "name_run valid Recheck s = check_name valid s"
| "name_run valid (Lookup name answer) s = lookup_settles name answer s"

definition name_history :: "(string \<Rightarrow> bool) \<Rightarrow> name_op list \<Rightarrow> name_check" where
  "name_history valid ops = fold (name_run valid) ops new_check"

section \<open>What is sent\<close>

lemma field_error_Nil [simp]: "field_error field r = [] \<longleftrightarrow> vr_valid r"
  by (simp add: field_error_def)

lemma display_name_valid: "vr_valid (validateDisplayName s) \<longleftrightarrow> 1 \<le> length (js_trim s) \<and> length (js_trim s) \<le> 64"
  by (simp add: validateDisplayName_def Let_def not_less Suc_le_eq)

lemma bio_valid: "vr_valid (validateBio s) \<longleftrightarrow> length (js_trim s) \<le> MAX_BIO_LENGTH"
  by (simp add: validateBio_def not_less)

lemma handle_valid: "vr_valid (validateXHandle s) \<Longrightarrow> X_HANDLE_RE (js_trim s)"
  by (simp add: validateXHandle_def normalizeXHandle_def Let_def split: if_splits)

text \<open>The bounds of the contract on a field of the profile, and the grammar of a handle.\<close>

definition name_in_bounds :: "string \<Rightarrow> bool" where
  "name_in_bounds s \<longleftrightarrow> 1 \<le> length s \<and> length s \<le> 64"

definition bio_in_bounds :: "string \<Rightarrow> bool" where
  "bio_in_bounds s \<longleftrightarrow> length s \<le> 280"

definition handle_in_grammar :: "string \<Rightarrow> bool" where
  "handle_in_grammar s \<longleftrightarrow> s = [] \<or> X_HANDLE_RE s"

text \<open>
  A change of a profile that is sent keeps the bounds of the contract: the name has 1 to 64 characters, the text at most 280, a handle
  its grammar, and an image is none or a URL.
\<close>

theorem edits_in_bounds:
  "case edit_submission isValidUrl profile form of
     Send_edit d \<Rightarrow> pred_option name_in_bounds (pp_displayName (ep_patch d)) \<and> pred_option bio_in_bounds (pp_bio (ep_patch d)) \<and>
       pred_option handle_in_grammar (pp_xHandle (ep_patch d)) \<and> pred_option (\<lambda>u. u = [] \<or> isValidUrl u) (pp_imageUrl (ep_patch d))
   | _ \<Rightarrow> True"
proof (cases "validate_edit isValidUrl (trimmed_edit form) = []")
  case True
  let ?t = "trimmed_edit form"
  have name: "name_in_bounds (pd_displayName ?t)" and bio: "bio_in_bounds (pd_bio ?t)"
    and url: "pd_imageUrl ?t = [] \<or> isValidUrl (pd_imageUrl ?t)"
    using True by (simp_all add: validate_edit_def display_name_valid bio_valid trimmed_edit_def trim_idem name_in_bounds_def
        bio_in_bounds_def MAX_BIO_LENGTH_def url_error_def split: if_splits)
  have handle: "handle_in_grammar (pd_xHandle ?t)"
    using True handle_valid [of "pd_xHandle ?t"]
    by (auto simp: validate_edit_def x_handle_error_def handle_in_grammar_def trimmed_edit_def trim_idem split: if_splits)
  show ?thesis
    using name bio url handle by (simp add: edit_submission_def Let_def edit_data_def changed_def)
qed (simp add: edit_submission_def Let_def)

lemma username_valid:
  "vr_valid (validateUsername latin confusable u) \<Longrightarrow>
    USERNAME_RE (js_trim u) \<and> \<not> ends_with (js_trim u) ''_'' \<and> \<not> str_includes (js_trim u) ''__''"
  by (simp add: validateUsername_def Let_def split: if_splits)

text \<open>A registration that is sent has a name of the contract's grammar, and as typed: making it lower case changes nothing.\<close>

lemma lower_name_char: "is_lower c \<or> is_digit c \<or> c = CHR ''_'' \<Longrightarrow> to_lower_char c = c"
  by (auto simp: to_lower_char_def is_lower_def is_upper_def is_digit_def char_code_def)

lemma lower_username: "USERNAME_RE u \<Longrightarrow> to_lower u = u"
proof (cases u)
  case (Cons c cs)
  assume "USERNAME_RE u"
  then have "list_all (\<lambda>d. is_lower d \<or> is_digit d \<or> d = CHR ''_'') u" using Cons by (simp add: USERNAME_RE_def)
  then have "map to_lower_char u = u" by (intro map_idI) (auto simp: list_all_iff intro: lower_name_char)
  then show ?thesis by (simp add: to_lower_def)
qed (simp add: USERNAME_RE_def)

theorem registrations_in_bounds:
  "case registration latin confusable available checking form of
     Inl errors \<Rightarrow> errors \<noteq> []
   | Inr d \<Rightarrow> pd_username d = js_trim (pd_username form) \<and> USERNAME_RE (pd_username d) \<and> \<not> ends_with (pd_username d) ''_'' \<and>
       \<not> str_includes (pd_username d) ''__'' \<and> name_in_bounds (pd_displayName d) \<and> bio_in_bounds (pd_bio d) \<and>
       handle_in_grammar (pd_xHandle d) \<and> \<not> checking \<and> available \<noteq> Some False"
proof (cases "validate_register latin confusable (trimmed_registration form) available checking = []")
  case True
  let ?t = "trimmed_registration form"
  have user: "vr_valid (validateUsername latin confusable (pd_username ?t))" and name: "name_in_bounds (pd_displayName ?t)"
    and bio: "bio_in_bounds (pd_bio ?t)" and free: "\<not> checking" "available \<noteq> Some False"
    using True by (auto simp: validate_register_def Let_def display_name_valid bio_valid trimmed_registration_def trim_idem
        name_in_bounds_def bio_in_bounds_def MAX_BIO_LENGTH_def split: if_splits)
  have handle: "handle_in_grammar (pd_xHandle ?t)"
    using True handle_valid [of "pd_xHandle ?t"]
    by (auto simp: validate_register_def x_handle_error_def handle_in_grammar_def trimmed_registration_def trim_idem split: if_splits)
  have trimmed: "pd_username ?t = js_trim (pd_username form)" by (simp add: trimmed_registration_def)
  have re: "USERNAME_RE (pd_username ?t)" "\<not> ends_with (pd_username ?t) ''_''" "\<not> str_includes (pd_username ?t) ''__''"
    using username_valid [OF user] by (simp_all add: trimmed trim_idem)
  show ?thesis
    using True name bio free handle re lower_username [OF re(1)] trimmed by (simp add: registration_def Let_def)
qed (simp add: registration_def Let_def)

section \<open>Answers about a name\<close>

definition verdict :: "lookup_answer \<Rightarrow> bool option" where
  "verdict answer = (case answer of
       Profile_found \<Rightarrow> Some False
     | Lookup_error (Some message) \<Rightarrow> if list_ex (str_includes message) NOT_FOUND_TEXTS then Some True else None
     | Lookup_error None \<Rightarrow> None)"

text \<open>Histories in which the answer about a name is always the same.\<close>

fun answered :: "(string \<Rightarrow> lookup_answer) \<Rightarrow> name_op \<Rightarrow> name_op" where
  "answered answer (Lookup name _) = Lookup name (answer name)"
| "answered answer op = op"

definition answers_kept :: "(string \<Rightarrow> lookup_answer) \<Rightarrow> name_check \<Rightarrow> bool" where
  "answers_kept answer s \<longleftrightarrow> (\<forall>name b. uc_cache s name = Some b \<longrightarrow> verdict (answer name) = Some b) \<and>
     (\<forall>b. uc_available s = Some b \<longrightarrow> (\<exists>name. verdict (answer name) = Some b))"

lemma check_name_keeps: "answers_kept answer s \<Longrightarrow> answers_kept answer (check_name valid s)"
  by (auto simp: answers_kept_def check_name_def split: option.split)

lemma settles_by_verdict:
  "uc_cache (lookup_settles name answer s) = (if name \<notin> set (uc_running s) then uc_cache s else case verdict answer of
     None \<Rightarrow> uc_cache s | Some b \<Rightarrow> (uc_cache s)(name \<mapsto> b))"
  "uc_available (lookup_settles name answer s) = (if name \<notin> set (uc_running s) then uc_available s else verdict answer)"
  by (simp_all add: lookup_settles_def verdict_def split: lookup_answer.split option.split)

lemma settle_keeps: "answers_kept answer s \<Longrightarrow> answers_kept answer (lookup_settles name (answer name) s)"
  by (auto simp: answers_kept_def settles_by_verdict split: option.splits if_splits)

lemma name_run_keeps: "answers_kept answer s \<Longrightarrow> answers_kept answer (name_run valid (answered answer op) s)"
proof (cases op)
  case Debounce
  assume kept: "answers_kept answer s"
  have "answers_kept answer (s\<lparr>uc_due := d, uc_debounced := name\<rparr>)" "answers_kept answer (s\<lparr>uc_due := d\<rparr>)" for d name
    using kept by (simp_all add: answers_kept_def)
  with kept Debounce show ?thesis by (auto simp: debounce_fires_def intro: check_name_keeps split: option.split)
next
  case (Type_name username)
  assume "answers_kept answer s"
  with Type_name show ?thesis by (simp add: name_typed_def answers_kept_def)
qed (simp_all add: check_name_keeps settle_keeps)

lemma name_history_keeps: "answers_kept answer (name_history valid (map (answered answer) ops))"
proof -
  have "answers_kept answer s \<Longrightarrow> answers_kept answer (fold (name_run valid) (map (answered answer) ops) s)" for s
    by (induction ops arbitrary: s) (simp_all add: name_run_keeps)
  moreover have "answers_kept answer new_check" by (simp add: answers_kept_def new_check_def)
  ultimately show ?thesis by (simp add: name_history_def)
qed

text \<open>What is remembered of a name is what was answered about it.\<close>

theorem remembered_names_are_right:
  "case uc_cache (name_history valid (map (answered answer) ops)) name of
     None \<Rightarrow> True | Some b \<Rightarrow> verdict (answer name) = Some b"
  using name_history_keeps [of answer valid ops] by (auto simp: answers_kept_def split: option.split)

section \<open>Weak spots\<close>

text \<open>A field that was emptied is sent as one that was not touched: a text or an image cannot be removed, and the form reports success.\<close>

theorem emptied_text_is_not_sent:
  "updateProfile nd cl (d\<lparr>pp_bio := Some []\<rparr>) = updateProfile nd cl (d\<lparr>pp_bio := None\<rparr>)"
  by (simp add: updateProfile_def optionalStringToScVal_def)

abbreviation ann :: ProfileFormData where
  "ann \<equiv> \<lparr>pd_username = ''ann'', pd_displayName = ''Ann'', pd_bio = ''Hello'', pd_imageUrl = [], pd_xHandle = []\<rparr>"

abbreviation ann_form :: "string \<Rightarrow> string \<Rightarrow> edit_form" where
  "ann_form bio banner \<equiv> \<lparr>pd_username = ''ann'', pd_displayName = ''Ann'', pd_bio = bio, pd_imageUrl = [], pd_xHandle = [],
     ef_bannerUrl = banner, ef_themeKey = ''default'', ef_githubHandle = [], ef_websiteUrl = []\<rparr>"

lemma emptied_bio: "edit_submission isValidUrl ann (ann_form [] []) = Send_edit (no_edit\<lparr>ep_patch := no_patch\<lparr>pp_bio := Some []\<rparr>\<rparr>)"
  by code_simp

lemma banner_only: "edit_submission isValidUrl ann (ann_form ''Hello'' ''data:x'') = Send_edit (no_edit\<lparr>ep_bannerUrl := Some ''data:x''\<rparr>)"
  by code_simp

text \<open>A banner, a theme, another handle and a web page are never sent: a transaction without a change is signed for them.\<close>

theorem banner_is_not_saved:
  "handleEditSubmit nd cl isValidUrl ann (ann_form ''Hello'' ''data:x'') s w =
     (case updateProfile nd cl no_patch w of
        (Inr hash, w') \<Rightarrow> (s\<lparr>fo_status := Form_success, fo_txError := None, fo_txHash := Some hash, fo_draftCleared := True,
          fo_toasts := fo_toasts s @ [''Profile updated successfully!'']\<rparr>, w')
      | (Inl e, w') \<Rightarrow> (s\<lparr>fo_status := Form_error, fo_txError := Some e, fo_txHash := None\<rparr>, w'))"
  by (simp add: handleEditSubmit_def banner_only no_edit_def)

text \<open>A registration that the contract refuses leaves the form at submitting, without an error.\<close>

theorem refused_registration_hangs:
  "registration_failed ''HostError: Error(Contract, #3)'' s = s\<lparr>fo_status := Form_submitting, fo_txError := None, fo_txHash := None\<rparr>"
proof -
  have "categorizeError False (Some ''HostError: Error(Contract, #3)'') = Throws_reference_error" by code_simp
  then show ?thesis by (simp add: registration_failed_def Let_def)
qed

abbreviation any_name :: "string \<Rightarrow> bool" where
  "any_name \<equiv> \<lambda>name. True"

text \<open>A late answer is taken for the name that is now typed: the free name stands for the taken one.\<close>

theorem late_answer_is_for_another_name:
  "case name_history any_name [Type_name ''free1'', Debounce, Type_name ''taken'', Debounce,
       Lookup ''taken'' Profile_found, Lookup ''free1'' (Lookup_error (Some ''Profile not found''))] of
     s \<Rightarrow> uc_username s = ''taken'' \<and> uc_available s = Some True \<and> uc_cache s ''taken'' = Some False \<and> uc_running s = []"
  by code_simp

text \<open>A name that is changed and changed back within the delay is not checked again, and its answer is gone.\<close>

theorem restored_name_is_not_checked:
  "case name_history any_name [Type_name ''taken'', Debounce, Lookup ''taken'' Profile_found, Type_name ''taken1'', Type_name ''taken'', Debounce] of
     s \<Rightarrow> uc_username s = ''taken'' \<and> uc_available s = None \<and> uc_due s = None \<and> uc_running s = []"
  by code_simp

text \<open>The second name the form suggests for a taken one is not valid.\<close>

lemma suggested_name_is_invalid: "\<not> vr_valid (validateUsername latin confusable (name @ ''_''))"
proof
  assume valid: "vr_valid (validateUsername latin confusable (name @ ''_''))"
  have "\<not> is_space CHR ''_''" by code_simp
  then have "ends_with (js_trim (name @ ''_'')) ''_''" by (cases "dropWhile is_space name = []") (simp_all add: js_trim_def ends_with_def dropWhile_append)
  with username_valid [OF valid] show False by blast
qed

end
