(* ===== verification/Spec2Isabelle.thy ===== *)
theory Spec2Isabelle
  imports Stroops Resilience Indexer CreditService Sessions Subscriptions Dunning Refunds Payouts WebhookDelivery
    Goals Streaks Privacy Reconciliation Realtime Backpressure Admin ClientSession ClientCache
    ClientToasts ClientTransactions ClientText ContractClient SnapshotCheck Retention Discovery Observability
    XMetrics Ipfs Configuration Operations ClientStream ClientWallet ClientStorage ClientDrafts ClientTipFlow ClientForms
begin

text \<open>
  A verification development for the Tipz platform: its backend (\<open>backend/src\<close>), a service beside a Soroban
  contract, which indexes the contract's events into a relational store, prepares and submits transactions for wallets,
  charges subscriptions, pays creators out, keeps the users' sessions and tells clients over sockets; and the parts of the web client
  (\<open>frontend-scaffold/src\<close>) that keep state of their own or talk to the contract. Paths without a prefix are below \<open>backend/src\<close>.

  \<^bold>\<open>The shape of the model.\<close> A service function is a value of type \<open>('s, 'e, 'a) io\<close> (theory \<open>Prelude\<close>): it maps
  a state to a result, \<open>Inl\<close> an exception or \<open>Inr\<close> a value, and the state it leaves; \<open>bnd\<close> is \<open>await\<close>,
  \<open>throw\<close>, \<open>try_catch\<close> and \<open>transaction\<close> are those of the code, and a transaction that throws restores the
  tables. The state is \<open>Store.db\<close>, one list of rows per table of \<open>prisma/schema.prisma\<close> and its migrations, with the
  counters of the cache, the messages handed to the sockets, and the source of row ids. \<open>Tables\<close> holds the queries:
  \<open>find_by\<close>, \<open>update_rows\<close>, \<open>upsert_row\<close>, \<open>delete_rows\<close>. Exceptions are language values
  (\<open>JsValues.jsval\<close>), as the code inspects them as such; \<open>JsValues\<close> also has the numbers with NaN and the infinities
  and the conversions between text and numbers. Definitions bear the names of the functions they translate; the parts of a
  long function (a loop, a branch, the row it writes) are definitions of their own.

  \<^bold>\<open>Parts.\<close>
  \<^item> \<open>Errors\<close> (\<open>common/errors\<close>, \<open>common/middleware/errorHandler.ts\<close>, \<open>common/utils/prisma-errors.ts\<close>): error classes
    and the response each error becomes.
  \<^item> \<open>Stroops\<close> (\<open>common/validation/stroops.ts\<close>): parsing amounts, exact up to \<open>2 ^ 63 - 1\<close>.
  \<^item> \<open>Cursor\<close> (\<open>common/pagination/cursor.ts\<close>): opaque cursors bound to a scope. The lemmas show the round trip, that a cursor of
    another scope is refused, and that following the cursors visits every row once.
  \<^item> \<open>Resilience\<close> (\<open>common/utils/retry.ts\<close>, \<open>circuitBreaker.ts\<close>): the retry loop and its bounds; the breaker as a step
    relation of interleaved calls, with its invariant by rule induction.
  \<^item> \<open>Notifications\<close> (\<open>modules/notifications\<close>): notifications, batches and digests, delivery receipts.
  \<^item> \<open>Projections\<close> (\<open>indexer/projections.ts\<close>): the handler of every contract event. The lemmas show that keys stay unique, that
    a replay changes nothing a reader sees, what a tip becomes, and which events are lost.
  \<^item> \<open>Indexer\<close> (\<open>indexer/poller.ts\<close>, \<open>reorg.ts\<close>, \<open>ledger-checkpoint.store.ts\<close>, \<open>backfill.ts\<close>): the poll, the detection
    of a reorganisation against its specification, the rollback, the backfill.
  \<^item> \<open>Concurrency\<close> (\<open>common/utils/concurrency.ts\<close>): atomic increments and the optimistic update of a streak.
  \<^item> \<open>Credit\<close>, \<open>CreditService\<close> (\<open>modules/credit\<close>): the score over the language numbers, equal to an integer reference;
    recomputing and storing it.
  \<^item> \<open>Sessions\<close> (\<open>modules/auth\<close>): challenges, sign-in, families of refresh tokens, as a step relation over the requests.
  \<^item> \<open>Soroban\<close>, \<open>Subscriptions\<close> (\<open>modules/subscriptions\<close>): the transactions services build; preparing, submitting,
    cancelling and charging subscriptions.
  \<^item> \<open>Dunning\<close> (\<open>jobs/subscriptionCharge.worker.ts\<close>, \<open>subscriptionCharge.failure.ts\<close>): the charge job. Its locale
    \<open>row_invariant\<close> proves once that the job, every projection and the submissions keep a predicate of subscription rows, and is
    interpreted for the dunning schedule and for the identity of a row.
  \<^item> \<open>Withdrawals\<close>, \<open>Payouts\<close> (\<open>modules/withdrawals\<close>): balance, fee, submission; scheduled payouts, their backoff and pause.
  \<^item> \<open>Refunds\<close> (\<open>modules/refunds\<close>): requests and resolutions.
  \<^item> \<open>UrlSafety\<close>, \<open>WebhookSigning\<close>, \<open>Webhooks\<close>, \<open>WebhookDelivery\<close> (\<open>modules/webhooks\<close>,
    \<open>jobs/webhookDelivery.ts\<close>): which addresses are fetched, checked against 32-bit words; signatures and their verification;
    subscriptions and dispatch; the delivery worker, whose runs are shown to follow an abstract verdict on the answers.

  \<^item> \<open>Tips\<close>, \<open>Goals\<close>, \<open>Streaks\<close>, \<open>Profiles\<close> (\<open>modules/tips\<close>, \<open>goals\<close>, \<open>streaks\<close>, \<open>profiles\<close>, \<open>moderation\<close>):
    reporting and confirming tips, and what an unverified report does to a balance; goals and their status; the runs of days a
    streak counts; profiles behind their cache.
  \<^item> \<open>Privacy\<close> (\<open>modules/privacy\<close>): deleting an account, what it ends and what it leaves.
  \<^item> \<open>Leaderboard\<close> (\<open>modules/leaderboard\<close>): rankings, the rank of a user, snapshots; \<open>SnapshotCheck\<close>: the comparison
    of a snapshot with the chain, whose report is exact for what it compares.
  \<^item> \<open>Analytics\<close> (\<open>modules/analytics\<close>, \<open>modules/stats\<close>): daily rows, series by day, week and month, shown to partition the tips;
    \<open>Discovery\<close> (\<open>modules/discovery\<close>, \<open>jobs/discovery.worker.ts\<close>): trending and similar creators.
  \<^item> \<open>Retention\<close> (\<open>jobs/retention.worker.ts\<close>): the batches end, and the log and its archive together keep every event.
  \<^item> \<open>Observability\<close> (\<open>indexer/monitor.ts\<close>, \<open>common/utils/logRedaction.ts\<close>): what counts as stalled; which values are logged.
  \<^item> \<open>XMetrics\<close> (\<open>modules/x\<close>, \<open>jobs/xMetricsRefresh.worker.ts\<close>): metrics of accounts, asked for behind the circuit breaker of
    \<open>Resilience\<close>, and where they come from when the service fails; \<open>Ipfs\<close> (\<open>modules/ipfs\<close>): what of an uploaded image is pinned.
  \<^item> \<open>Configuration\<close> (\<open>config/env.ts\<close>, \<open>config/cors.ts\<close>), \<open>Operations\<close> (\<open>ops/backup-verify.lib.ts\<close>, \<open>modules/health\<close>,
    \<open>jobs/scheduler.ts\<close>, \<open>jobs/deadLetter.ts\<close>): what production demands; when a backup is accepted, how old a health answer may be.
  \<^item> \<open>Reconciliation\<close> (\<open>modules/reconciliation\<close>): the checks and their report.
  \<^item> \<open>ApiKeys\<close> (\<open>modules/apiKeys\<close>): keys, their rotation with a grace period, and the middleware.
  \<^item> \<open>AccessTokens\<close> (\<open>modules/auth/jwt.ts\<close>, \<open>auth.middleware.ts\<close>, \<open>realtime/auth.ts\<close>): the key set read from its
    configuration text is well formed; which tokens survive a rotation.
  \<^item> \<open>RateLimits\<close> (\<open>realtime/rateLimit.ts\<close>, \<open>common/middleware/rateLimiter.ts\<close>, \<open>modules/auth/auth.rateLimit.ts\<close>): how many
    requests pass within a window, for the limiter in memory, the one over sorted sets and the one of the sign-in routes.
  \<^item> \<open>Realtime\<close>, \<open>Backpressure\<close> (\<open>realtime/gateway.ts\<close>, \<open>catchup.ts\<close>, \<open>modules/realtime/backpressure.ts\<close>): the
    sockets and their rooms as a step relation, with the isolation of rooms by rule induction; catching up on missed events.
  \<^item> \<open>Admin\<close> (\<open>modules/admin\<close>, \<open>modules/jobs/audit.service.ts\<close>): configuration changes, manual jobs, the audit log.
  \<^item> \<open>ClientSession\<close>, \<open>ClientCache\<close> (\<open>frontend-scaffold/src/services/auth/tokenManager.ts\<close>, \<open>services/cache.ts\<close>,
    \<open>lib/queryCache.ts\<close>): the token manager and the caches of the web client, over every interleaving of calls, timers and answers.
  \<^item> \<open>ContractClient\<close>, \<open>ClientText\<close> (\<open>frontend-scaffold/src/hooks/useContract.ts\<close>, \<open>services/soroban.ts\<close>,
    \<open>helpers\<close>, \<open>lib/transactionHash.ts\<close>, \<open>features/transactions/exportCsv.ts\<close>): the reads and writes of the contract as
    traces of calls, compared with the entry points the contract declares, bounded, and confirmed before they succeed; the grammar of
    names, the conversion of keys, escaping.
  \<^item> \<open>ClientToasts\<close>, \<open>ClientTransactions\<close> (\<open>store/toastStore.ts\<close>, \<open>hooks/useTransactionGuard.ts\<close>,
    \<open>store/optimisticUpdatesStore.ts\<close>): the toasts and their queue; the guard against submitting twice and the optimistic updates.
  \<^item> \<open>ClientWallet\<close>, \<open>ClientStream\<close>, \<open>ClientStorage\<close> (\<open>store/walletStore.ts\<close>, \<open>hooks/useWallet.ts\<close>,
    \<open>hooks/useWalletResilience.ts\<close>, \<open>services/eventStream.ts\<close>, \<open>services/rateLimiter.ts\<close>, \<open>services/secureStorage.ts\<close>): the
    wallets with an invariant of their store; the stream of operations and the limiter, over every order of steps; stored values.
  \<^item> \<open>ClientTipFlow\<close>, \<open>ClientForms\<close>, \<open>ClientDrafts\<close> (\<open>features/tipping/TipPage.tsx\<close>, \<open>useTipFlow.ts\<close>, \<open>hooks/useTipz.ts\<close>,
    \<open>features/profile\<close>, \<open>hooks/useUsernameCheck.ts\<close>, \<open>hooks/useFormAutosave.ts\<close>): sending a tip over the guard of
    \<open>ClientTransactions\<close>, what reaches the contract and how many calls run; editing and registering a profile over
    \<open>ContractClient\<close>, and the check of a name; which fields of a form are ever stored.

  The parts meet in the store: the indexer writes the tips that balances, payouts and scores are computed from and the
  subscriptions the charge job reads; projections, payouts and the charge job create notifications. The gateway checks the tokens that the
  sessions issue, and the client's token manager refreshes them.

  \<^bold>\<open>Interfaces.\<close> \<open>Tables.keyed_table\<close> is the contract of a table with a unique key, interpreted for the tables that
  are upserted; further locales state what an event handler, a row predicate and a codec promise, each interpreted on the model's own
  definitions.

  \<^bold>\<open>Concurrency.\<close> Where a property is about overlapping requests, what others do at an \<open>await\<close> is a parameter
  (\<open>mid\<close>, \<open>gap\<close>: any function of the state), or the requests are steps of a relation. Elsewhere an operation runs alone.

  \<^bold>\<open>Loops and fuel.\<close> Loops over lists recurse on the list. The confirmation of a charge has fuel
  \<open>2 + timeout div interval\<close>, which suffices since every round advances the clock by the interval. The retry loop recurses on the
  remaining attempts. The pages of a poll are bounded by the code (50). The backfill has no bound in the code: its fuel is an argument,
  and the theorems say for which inputs a run ends and for which none does.

  \<^bold>\<open>Simplifications.\<close> One clock reading per operation, in milliseconds; days and months in UTC. Row ids come from a stream of
  strings, assumed injective where needed. Foreign keys and column widths are not checked. The rate limit of sign-in counts within one window; the limits of
  \<open>RateLimits\<close> are exact. Sorted sets and streams of the cache and queues of jobs are data; sampling rates are exact rationals; goals
  have no creation times; equal totals are ranked in the order of the store. A request of the web client is split into the step that
  begins it and the step that settles it.
  \<open>updatedAt\<close> columns are kept where something reads them. Log and metric calls are dropped. Dashes outside ASCII in
  message texts are written \<open>-\<close>. Classifying a failure follows the cause chain of a value that has no cycles. Hashes, HMACs,
  signatures, random strings, the SDK and the node are parameters of the definitions that use them.

  \<^bold>\<open>Not modelled.\<close> Full text search, which is a query in the language of the store; the export of an account's data; routes,
  controllers and schemas; the registration of queues and workers; metrics; mail and images; the variables of the configuration that
  are read one by one; the other components of the web client, its styles, and the hooks
  that only join components to what is modelled. The
  Rust contract is outside this development.
\<close>

end
